(* ===== verification/Prelude.thy ===== *)
theory Prelude
  imports Complex_Main "HOL-Library.Code_Target_Nat" "HOL-Library.Word" "HOL-Library.Multiset" "HOL-Library.Sublist"
begin

text \<open>
  What every theory of the development shares: the type names of the Go values, the decimal
  digits behind the text forms of numbers, the two routines of Go's standard library the
  order books call (the binary search of \<^verbatim>\<open>sort.Search\<close> and the insertion and deletion of a
  slice element by index), and the generic lemmas on lists and maps the components rest on.
\<close>

section \<open>Names for Go's types\<close>

type_synonym u64 = "64 word"

text \<open>
  An instant of \<^verbatim>\<open>time.Time\<close>: nanoseconds since the zero time, which is midnight UTC.
  A \<^verbatim>\<open>time.Duration\<close> is a number of nanoseconds too.
\<close>

type_synonym go_time = int
type_synonym go_duration = int

text \<open>A \<^verbatim>\<open>uint64\<close> as the signed number a bigint column keeps, and back; a number cut to 32 bits.\<close>

definition bigint :: "u64 \<Rightarrow> int" where
  "bigint w = sint w"

definition from_bigint :: "int \<Rightarrow> u64" where
  "from_bigint i = word_of_int i"

lemma from_bigint_bigint [simp]: "from_bigint (bigint w) = w"
  by (simp add: from_bigint_def bigint_def)

definition int32 :: "int \<Rightarrow> int" where
  "int32 i = sint (word_of_int i :: 32 word)"

text \<open>The collections the component proofs hand to the simplifier.\<close>

named_theorems val_simps \<open>values of amount expressions\<close>
named_theorems cmp_simps \<open>comparisons of amounts as comparisons of their values\<close>

section \<open>Digits\<close>

definition digit_char :: "nat \<Rightarrow> char" where
  "digit_char n = char_of (48 + n)"

definition char_digit :: "char \<Rightarrow> nat" where
  "char_digit c = of_char c - 48"

definition is_digit :: "char \<Rightarrow> bool" where
  "is_digit c \<longleftrightarrow> 48 \<le> (of_char c :: nat) \<and> (of_char c :: nat) \<le> 57"

lemma digit_char_0 [simp]: "digit_char 0 = CHR ''0''"
  by code_simp

text \<open>The decimal digits of a number without leading zeros, and its value from them.\<close>

fun digits :: "nat \<Rightarrow> string" where
  "digits n = (if n < 10 then [digit_char n] else digits (n div 10) @ [digit_char (n mod 10)])"

declare digits.simps [simp del]

text \<open>Exactly \<open>k\<close> digits, padded with zeros on the left.\<close>

primrec fixed_digits :: "nat \<Rightarrow> nat \<Rightarrow> string" where
  "fixed_digits 0 n = []"
| "fixed_digits (Suc k) n = fixed_digits k (n div 10) @ [digit_char (n mod 10)]"

definition digits_val :: "string \<Rightarrow> nat" where
  "digits_val s = foldl (\<lambda>a c. 10 * a + char_digit c) 0 s"

lemma digits_val_Nil [simp]: "digits_val [] = 0"
  by (simp add: digits_val_def)

lemma digits_val_snoc [simp]: "digits_val (s @ [c]) = 10 * digits_val s + char_digit c"
  by (simp add: digits_val_def)

lemma of_char_digit_char: "d < 10 \<Longrightarrow> (of_char (digit_char d) :: nat) = 48 + d"
  by (simp add: digit_char_def)

lemma char_digit_char [simp]: "d < 10 \<Longrightarrow> char_digit (digit_char d) = d"
  by (simp add: char_digit_def of_char_digit_char)

lemma is_digit_char [simp]: "d < 10 \<Longrightarrow> is_digit (digit_char d)"
  by (simp add: is_digit_def of_char_digit_char)

lemma digits_val_append:
  "digits_val (s @ t) = digits_val s * 10 ^ length t + digits_val t"
proof (induction t rule: rev_induct)
  case Nil
  show ?case by simp
next
  case (snoc c t)
  have "digits_val (s @ t @ [c]) = digits_val ((s @ t) @ [c])" by simp
  also have "\<dots> = 10 * digits_val (s @ t) + char_digit c" by (rule digits_val_snoc)
  finally show ?case by (simp add: snoc.IH algebra_simps)
qed

text \<open>Numbers by their digits: one digit, or the digits before the last and the last one.\<close>

lemma digits_one: "n < 10 \<Longrightarrow> digits n = [digit_char n]"
  by (subst digits.simps) simp

lemma digits_more: "\<not> n < 10 \<Longrightarrow> digits n = digits (n div 10) @ [digit_char (n mod 10)]"
  by (subst digits.simps) simp

lemma digits_induct [case_names one more]:
  assumes one: "\<And>n. n < 10 \<Longrightarrow> P n" and more: "\<And>n. \<not> n < 10 \<Longrightarrow> P (n div 10) \<Longrightarrow> P n"
  shows "P (n :: nat)"
proof (induction n rule: less_induct)
  case (less n)
  have "P (n div 10)" if "\<not> n < 10" by (rule less) (use that in simp)
  then show ?case using one more by blast
qed

lemma digits_val_digits [simp]: "digits_val (digits n) = n"
  by (induction n rule: digits_induct) (simp_all add: digits_one digits_more digits_val_def)

lemma digits_all_digits [simp]: "list_all is_digit (digits n)"
  by (induction n rule: digits_induct) (simp_all add: digits_one digits_more)

lemma digits_not_Nil [simp]: "digits n \<noteq> []"
  by (cases "n < 10") (simp_all add: digits_one digits_more)

lemma length_digits_le: "n < 10 ^ k \<Longrightarrow> 0 < k \<Longrightarrow> length (digits n) \<le> k"
proof (induction n arbitrary: k rule: digits_induct)
  case (one n)
  then show ?case by (simp add: digits_one)
next
  case (more n)
  then obtain j where k: "k = Suc j" and "0 < j" by (cases k; cases "k - 1") auto
  with more.prems have "n div 10 < 10 ^ j" by (simp add: less_mult_imp_div_less mult.commute)
  with more.IH \<open>0 < j\<close> have "length (digits (n div 10)) \<le> j" by blast
  with more.hyps k show ?case by (simp add: digits_more)
qed

lemma digits_lower: "0 < n \<Longrightarrow> 10 ^ (length (digits n) - 1) \<le> n"
proof (induction n rule: digits_induct)
  case (one n)
  then show ?case by (simp add: digits_one)
next
  case (more n)
  from more.hyps have "0 < n div 10" by simp
  with more.IH have "10 ^ (length (digits (n div 10)) - 1) \<le> n div 10" by blast
  then have "10 * 10 ^ (length (digits (n div 10)) - 1) \<le> n" by simp
  moreover have "10 * 10 ^ (length (digits (n div 10)) - 1) = (10::nat) ^ length (digits (n div 10))"
    by (metis One_nat_def Suc_pred digits_not_Nil length_greater_0_conv power_Suc)
  ultimately show ?case using more.hyps by (simp add: digits_more)
qed

lemma digits_upper: "n < 10 ^ length (digits n)"
proof (induction n rule: digits_induct)
  case (one n)
  then show ?case by (simp add: digits_one)
next
  case (more n)
  then have "n < 10 * 10 ^ length (digits (n div 10))" by auto
  with more.hyps show ?case by (simp add: digits_more)
qed

lemma length_digits_iff: "0 < n \<Longrightarrow> length (digits n) \<le> k \<longleftrightarrow> n < 10 ^ k"
proof
  assume n: "0 < n" and l: "length (digits n) \<le> k"
  note digits_upper [of n]
  also have "(10::nat) ^ length (digits n) \<le> 10 ^ k" using l by (intro power_increasing) auto
  finally show "n < 10 ^ k" .
next
  assume "0 < n" and "n < 10 ^ k"
  then show "length (digits n) \<le> k"
    by (cases k) (auto intro: length_digits_le)
qed

lemma length_fixed_digits [simp]: "length (fixed_digits k n) = k"
  by (induction k arbitrary: n) auto

lemma fixed_digits_all_digits [simp]: "list_all is_digit (fixed_digits k n)"
  by (induction k arbitrary: n) auto

lemma digits_val_fixed_digits: "n < 10 ^ k \<Longrightarrow> digits_val (fixed_digits k n) = n"
  by (induction k arbitrary: n) (auto simp: less_mult_imp_div_less mult.commute)

section \<open>Binary search and slices\<close>

text \<open>
  Go's \<^verbatim>\<open>sort.Search(n, f)\<close>: the loop of the standard library, which halves the interval
  \<open>[i, j)\<close> until it is empty.
\<close>

function search_loop :: "(nat \<Rightarrow> bool) \<Rightarrow> nat \<Rightarrow> nat \<Rightarrow> nat" where
  "search_loop f i j =
     (if i < j
      then (let h = (i + j) div 2 in if \<not> f h then search_loop f (h + 1) j else search_loop f i h)
      else i)"
  by pat_completeness auto
termination
  by (relation "measure (\<lambda>(f, i, j). j - i)") auto

declare search_loop.simps [simp del]

definition sort_search :: "nat \<Rightarrow> (nat \<Rightarrow> bool) \<Rightarrow> nat" where
  "sort_search n f = search_loop f 0 n"

lemma search_loop_split:
  assumes "\<forall>k < i. \<not> f k" and "\<forall>k. j \<le> k \<and> k < n \<longrightarrow> f k" and "i \<le> j" and "j \<le> n"
    and "\<forall>a b. a \<le> b \<and> b < n \<and> f a \<longrightarrow> f b"
  shows "(\<forall>k < search_loop f i j. \<not> f k) \<and> (\<forall>k. search_loop f i j \<le> k \<and> k < n \<longrightarrow> f k)
    \<and> search_loop f i j \<le> n"
  using assms
proof (induction f i j rule: search_loop.induct)
  case (1 f i j)
  show ?case
  proof (cases "i < j")
    case False
    with "1.prems" have "i = j" by simp
    moreover have "search_loop f i j = i" using False by (simp add: search_loop.simps [of f i j])
    ultimately show ?thesis using "1.prems" by auto
  next
    case True
    define h where "h = (i + j) div 2"
    from True have h: "i \<le> h" "h < j" by (auto simp: h_def)
    show ?thesis
    proof (cases "f h")
      case True
      then have "\<forall>k. h \<le> k \<and> k < n \<longrightarrow> f k"
        using "1.prems"(5) by blast
      then have "(\<forall>k < search_loop f i h. \<not> f k) \<and> (\<forall>k. search_loop f i h \<le> k \<and> k < n \<longrightarrow> f k)
        \<and> search_loop f i h \<le> n"
        using True h
        by (intro "1.IH"(2) [OF \<open>i < j\<close> h_def _ "1.prems"(1) _ _ _ "1.prems"(5)]) (auto intro: less_imp_le less_le_trans "1.prems"(4))
      moreover have "search_loop f i j = search_loop f i h"
        using True \<open>i < j\<close> by (simp add: search_loop.simps [of f i j] Let_def flip: h_def)
      ultimately show ?thesis by simp
    next
      case False
      have "\<not> f k" if "k < h + 1" for k
        using that False h "1.prems"(4,5) by (metis Suc_eq_plus1 less_Suc_eq_le order_less_le_trans)
      then have "(\<forall>k < search_loop f (h + 1) j. \<not> f k)
        \<and> (\<forall>k. search_loop f (h + 1) j \<le> k \<and> k < n \<longrightarrow> f k) \<and> search_loop f (h + 1) j \<le> n"
        using False h
        by (intro "1.IH"(1) [OF \<open>i < j\<close> h_def _ _ "1.prems"(2) _ "1.prems"(4,5)]) auto
      moreover have "search_loop f i j = search_loop f (h + 1) j"
        using False \<open>i < j\<close> by (simp add: search_loop.simps [of f i j] Let_def flip: h_def)
      ultimately show ?thesis by simp
    qed
  qed
qed

text \<open>
  On a list where the predicate, once true, stays true, the search returns the length of the
  longest prefix where it is false.
\<close>

lemma sort_search_takeWhile:
  assumes mono: "\<And>i j. i \<le> j \<Longrightarrow> j < length xs \<Longrightarrow> P (xs ! i) \<Longrightarrow> P (xs ! j)"
  shows "sort_search (length xs) (\<lambda>i. P (xs ! i)) = length (takeWhile (\<lambda>x. \<not> P x) xs)"
proof -
  define r where "r = sort_search (length xs) (\<lambda>i. P (xs ! i))"
  have m: "\<forall>a b. a \<le> b \<and> b < length xs \<and> P (xs ! a) \<longrightarrow> P (xs ! b)"
    using mono by blast
  have "(\<forall>k < r. \<not> P (xs ! k)) \<and> (\<forall>k. r \<le> k \<and> k < length xs \<longrightarrow> P (xs ! k)) \<and> r \<le> length xs"
    unfolding r_def sort_search_def
    by (rule search_loop_split [OF _ _ _ _ m]) (auto dest: leD)
  then have r: "\<forall>k < r. \<not> P (xs ! k)" "\<forall>k. r \<le> k \<and> k < length xs \<longrightarrow> P (xs ! k)" "r \<le> length xs"
    by blast+
  have "takeWhile (\<lambda>x. \<not> P x) xs = take r xs"
  proof (rule takeWhile_eq_take_P_nth)
    show "\<not> P (xs ! i)" if "i < r" "i < length xs" for i using that r(1) by blast
    show "\<not> \<not> P (xs ! r)" if "r < length xs" using that r(2) by blast
  qed
  then have "length (takeWhile (\<lambda>x. \<not> P x) xs) = length (take r xs)" by simp
  also have "\<dots> = r" using r(3) by (simp only: length_take min_absorb2)
  finally show ?thesis by (simp only: r_def)
qed

text \<open>Insertion into and deletion from a slice, the shifts done with \<^verbatim>\<open>copy\<close> in the code.\<close>

definition slice_insert :: "nat \<Rightarrow> 'a \<Rightarrow> 'a list \<Rightarrow> 'a list" where
  "slice_insert i x xs = take i xs @ x # drop i xs"

definition slice_delete :: "nat \<Rightarrow> 'a list \<Rightarrow> 'a list" where
  "slice_delete i xs = take i xs @ drop (Suc i) xs"

text \<open>\<^verbatim>\<open>strings.IndexByte\<close>, with the code's -1 as \<open>None\<close>.\<close>

fun index_byte :: "char \<Rightarrow> string \<Rightarrow> nat option" where
  "index_byte c [] = None"
| "index_byte c (x # xs) = (if x = c then Some 0 else map_option Suc (index_byte c xs))"

lemma index_byte_None: "c \<notin> set xs \<Longrightarrow> index_byte c xs = None"
  by (induction xs) auto

lemma index_byte_append: "c \<notin> set xs \<Longrightarrow> index_byte c (xs @ c # ys) = Some (length xs)"
  by (induction xs) auto

lemma find_append: "find P (xs @ ys) = (case find P xs of None \<Rightarrow> find P ys | Some x \<Rightarrow> Some x)"
  by (induction xs) auto

end
