(* ===== verification/Decimal.thy ===== *)
theory Decimal
  imports Prelude
begin

text \<open>
  The interface of \<^verbatim>\<open>github.com/shopspring/decimal\<close>, the third-party package behind
  \<^verbatim>\<open>money.Amount\<close>. Its code is not part of the repository, so it is a parameter: the record
  \<open>decimal_pkg\<close> holds the functions \<^verbatim>\<open>internal/money\<close> calls, the locale \<open>decimal\<close> states
  their documented behaviour over the rational number \<open>val d\<close> a decimal stands for, and
  everything built on amounts is proved inside that locale. The interpretation \<open>fx\<close> at the
  end is a concrete fixed-point package that satisfies every law; the witnesses of the
  development evaluate on it.
\<close>

section \<open>The package's functions\<close>

record 'd decimal_pkg =
  dZero :: 'd
  dNewFromString :: "string \<Rightarrow> 'd option"
  dNewFromInt :: "int \<Rightarrow> 'd"
  dNewFromBigInt :: "int \<Rightarrow> int \<Rightarrow> 'd"
  dAdd :: "'d \<Rightarrow> 'd \<Rightarrow> 'd"
  dSub :: "'d \<Rightarrow> 'd \<Rightarrow> 'd"
  dMul :: "'d \<Rightarrow> 'd \<Rightarrow> 'd"
  dNeg :: "'d \<Rightarrow> 'd"
  dAbs :: "'d \<Rightarrow> 'd"
  dCmp :: "'d \<Rightarrow> 'd \<Rightarrow> int"
  dEqual :: "'d \<Rightarrow> 'd \<Rightarrow> bool"
  dSign :: "'d \<Rightarrow> int"
  dIsZero :: "'d \<Rightarrow> bool"
  dIsNegative :: "'d \<Rightarrow> bool"
  dIsPositive :: "'d \<Rightarrow> bool"
  dRoundCeil :: "'d \<Rightarrow> int \<Rightarrow> 'd"
  dRoundFloor :: "'d \<Rightarrow> int \<Rightarrow> 'd"
  dTruncate :: "'d \<Rightarrow> int \<Rightarrow> 'd"
  dQuoRem :: "'d \<Rightarrow> 'd \<Rightarrow> int \<Rightarrow> 'd \<times> 'd"
  dMod :: "'d \<Rightarrow> 'd \<Rightarrow> 'd"
  dString :: "'d \<Rightarrow> string"
  dStringFixed :: "'d \<Rightarrow> int \<Rightarrow> string"
  dCoefficient :: "'d \<Rightarrow> int"
  dExponent :: "'d \<Rightarrow> int"

section \<open>Text forms and rounding\<close>

text \<open>The literal with the given sign, integer digits and fraction digits.\<close>

definition lit_text :: "bool \<Rightarrow> string \<Rightarrow> string \<Rightarrow> string" where
  "lit_text neg ip fp =
     (if neg then ''-'' else []) @ ip @ (if fp = [] then [] else CHR ''.'' # fp)"

definition lit_val :: "bool \<Rightarrow> string \<Rightarrow> string \<Rightarrow> rat" where
  "lit_val neg ip fp =
     (if neg then -1 else 1) * of_nat (digits_val (ip @ fp)) / 10 ^ length fp"

text \<open>The fixed-point text of \<open>c / 10 ^ s\<close> with exactly \<open>s\<close> fraction digits.\<close>

definition dec_int_part :: "int \<Rightarrow> nat \<Rightarrow> string" where
  "dec_int_part c s = digits (nat \<bar>c\<bar> div 10 ^ s)"

definition dec_frac_part :: "int \<Rightarrow> nat \<Rightarrow> string" where
  "dec_frac_part c s = fixed_digits s (nat \<bar>c\<bar> mod 10 ^ s)"

definition dec_text :: "int \<Rightarrow> nat \<Rightarrow> string" where
  "dec_text c s = lit_text (c < 0) (dec_int_part c s) (dec_frac_part c s)"

definition trunc_rat :: "rat \<Rightarrow> int" where
  "trunc_rat q = (if 0 \<le> q then \<lfloor>q\<rfloor> else \<lceil>q\<rceil>)"

definition round_half_away :: "rat \<Rightarrow> int" where
  "round_half_away q = (if 0 \<le> q then \<lfloor>q + 1/2\<rfloor> else \<lceil>q - 1/2\<rceil>)"

text \<open>\<open>v\<close> needs at most \<open>n\<close> fraction digits.\<close>

definition fits :: "nat \<Rightarrow> rat \<Rightarrow> bool" where
  "fits n v \<longleftrightarrow> v * 10 ^ n \<in> \<int>"

lemma fits_0 [simp, intro]: "fits n 0"
  by (simp add: fits_def)

lemma fits_of_int [simp, intro]: "fits n (of_int i)"
  unfolding fits_def by (intro Ints_mult Ints_power) auto

lemma fits_mono: "fits m v \<Longrightarrow> m \<le> n \<Longrightarrow> fits n v"
proof -
  assume "fits m v" "m \<le> n"
  then have "v * 10 ^ m \<in> \<int>" by (simp add: fits_def)
  moreover have "(10::rat) ^ (n - m) \<in> \<int>" by (intro Ints_power) simp
  ultimately have "v * 10 ^ m * 10 ^ (n - m) \<in> \<int>" by (rule Ints_mult)
  with \<open>m \<le> n\<close> show "fits n v"
    by (simp add: fits_def mult.assoc flip: power_add)
qed

lemma fits_add [intro]: "fits n v \<Longrightarrow> fits n w \<Longrightarrow> fits n (v + w)"
  by (auto simp: fits_def distrib_right intro: Ints_add)

lemma fits_minus [intro]: "fits n v \<Longrightarrow> fits n (- v)"
  by (auto simp: fits_def)

lemma fits_diff [intro]: "fits n v \<Longrightarrow> fits n w \<Longrightarrow> fits n (v - w)"
  using fits_add [of n v "- w"] fits_minus [of n w] by simp

lemma fits_mult: "fits m v \<Longrightarrow> fits n w \<Longrightarrow> fits (m + n) (v * w)"
proof -
  assume "fits m v" "fits n w"
  then have "(v * 10 ^ m) * (w * 10 ^ n) \<in> \<int>"
    unfolding fits_def by (rule Ints_mult)
  then show ?thesis by (simp add: fits_def power_add mult_ac)
qed

lemma fits_of_int_mult: "fits n w \<Longrightarrow> fits n (of_int k * w)"
  using fits_mult [of 0 "of_int k" n w] by simp

lemma fits_div_pow [simp]: "fits n (of_int c / 10 ^ n)"
  by (simp add: fits_def)

lemma trunc_rat_nonneg: "0 \<le> q \<Longrightarrow> trunc_rat q = \<lfloor>q\<rfloor>"
  by (simp add: trunc_rat_def)

lemma trunc_rat_of_int [simp]: "trunc_rat (of_int i) = i"
  by (simp add: trunc_rat_def)

lemma lit_val_dec:
  "lit_val (c < 0) (dec_int_part c s) (dec_frac_part c s) = of_int c / 10 ^ s"
proof -
  have "digits_val (dec_int_part c s @ dec_frac_part c s)
      = nat \<bar>c\<bar> div 10 ^ s * 10 ^ s + nat \<bar>c\<bar> mod 10 ^ s"
    by (simp add: digits_val_append dec_int_part_def dec_frac_part_def digits_val_fixed_digits)
  also have "\<dots> = nat \<bar>c\<bar>" by (rule div_mult_mod_eq)
  finally show ?thesis
    by (auto simp: lit_val_def dec_frac_part_def of_nat_nat abs_if)
qed

lemma least_scale:
  assumes "v = of_int c / 10 ^ s" and "s = 0 \<or> \<not> 10 dvd c" and "fits n v"
  shows "s \<le> n"
proof (rule ccontr)
  assume "\<not> s \<le> n"
  then have s: "s = n + (s - n)" and "0 < s - n" by auto
  from assms(3) obtain k where "v * 10 ^ n = of_int k" by (auto simp: fits_def elim: Ints_cases)
  then have "of_int c * 10 ^ n = (of_int k :: rat) * 10 ^ s"
    using assms(1) by (simp add: field_simps)
  also have "\<dots> = of_int k * 10 ^ (s - n) * 10 ^ n"
    by (subst s) (simp add: power_add mult_ac)
  finally have "(of_int c :: rat) = of_int (k * 10 ^ (s - n))" by simp
  then have "c = k * 10 ^ (s - n)" by (simp only: of_int_eq_iff)
  then have "10 dvd c" using \<open>0 < s - n\<close> by (simp add: dvd_power)
  with assms(2) s \<open>0 < s - n\<close> show False by auto
qed

lemma dec_parts_digits [simp]:
  "list_all is_digit (dec_int_part c s)" "list_all is_digit (dec_frac_part c s)"
  "dec_int_part c s \<noteq> []" "length (dec_frac_part c s) = s"
  by (simp_all add: dec_int_part_def dec_frac_part_def)

lemma not_digit_sign [simp]: "\<not> is_digit CHR ''-''" "\<not> is_digit CHR ''.''"
  by (simp_all add: is_digit_def)

lemma takeWhile_lit_rest:
  "list_all is_digit ip \<Longrightarrow>
    takeWhile is_digit (ip @ (if fp = [] then [] else CHR ''.'' # fp)) = ip"
  by (subst takeWhile_append2) (auto simp: list_all_iff)

lemma lit_text_inj:
  assumes eq: "lit_text neg ip fp = lit_text neg' ip' fp'"
    and ip: "ip \<noteq> []" "list_all is_digit ip" and ip': "ip' \<noteq> []" "list_all is_digit ip'"
  shows "neg = neg' \<and> ip = ip' \<and> fp = fp'"
proof -
  have "hd ip \<noteq> CHR ''-''" "hd ip' \<noteq> CHR ''-''"
    using ip ip' by (auto simp: neq_Nil_conv)
  with eq ip(1) ip'(1) have neg: "neg = neg'"
    by (auto simp: lit_text_def neq_Nil_conv split: if_splits)
  with eq have rest: "ip @ (if fp = [] then [] else CHR ''.'' # fp)
      = ip' @ (if fp' = [] then [] else CHR ''.'' # fp')"
    by (simp add: lit_text_def split: if_splits)
  then have "ip = ip'"
    using takeWhile_lit_rest [OF ip(2), of fp] takeWhile_lit_rest [OF ip'(2), of fp'] by simp
  with rest neg show ?thesis by (auto split: if_splits)
qed

lemma dec_text_inj: "dec_text c s = dec_text c' s' \<longleftrightarrow> c = c' \<and> s = s'"
proof
  assume "dec_text c s = dec_text c' s'"
  then have eq: "(c < 0) = (c' < 0) \<and> dec_int_part c s = dec_int_part c' s' \<and> dec_frac_part c s = dec_frac_part c' s'"
    unfolding dec_text_def by (intro lit_text_inj) auto
  then have "length (dec_frac_part c s) = length (dec_frac_part c' s')" by simp
  then have s: "s = s'" by simp
  have "lit_val (c < 0) (dec_int_part c s) (dec_frac_part c s)
      = lit_val (c' < 0) (dec_int_part c' s') (dec_frac_part c' s')"
    using eq by (elim conjE) (simp only:)
  then have "(of_int c :: rat) / 10 ^ s = of_int c' / 10 ^ s'"
    by (simp only: lit_val_dec)
  with s show "c = c' \<and> s = s'" by simp
qed simp

lemma round_half_away_of_int [simp]: "round_half_away (of_int k) = k"
proof -
  have "\<lfloor>of_int k + 1 / (2::rat)\<rfloor> = k" by (rule floor_unique) auto
  moreover have "\<lceil>of_int k - 1 / (2::rat)\<rceil> = k" by (rule ceiling_unique) auto
  ultimately show ?thesis by (simp add: round_half_away_def)
qed

section \<open>What the package documents\<close>

text \<open>
  The laws, each the documented behaviour of one function for the arguments the code passes
  (places and precisions are never negative there). \<open>quorem\<close> is the contract in the
  package's own words: \<open>d = d2 * q + r\<close>, \<open>q\<close> an integer multiple of
  \<open>10 ^ -precision\<close>, \<open>r\<close> smaller than one such unit of \<open>d2\<close> and with the sign of \<open>d\<close>.
  \<open>string\<close> is the canonical fixed-point text: no exponent and no trailing zeros.
\<close>

locale decimal =
  fixes D :: "'d decimal_pkg" and val :: "'d \<Rightarrow> rat"
  assumes val_zero: "val (dZero D) = 0"
    and new_from_string: "ip \<noteq> [] \<Longrightarrow> list_all is_digit ip \<Longrightarrow> list_all is_digit fp \<Longrightarrow>
      \<exists>d. dNewFromString D (lit_text neg ip fp) = Some d \<and> val d = lit_val neg ip fp"
    and val_new_from_int: "val (dNewFromInt D i) = of_int i"
    and val_new_from_big_int: "val (dNewFromBigInt D c e) = of_int c * 10 powi e"
    and val_add: "val (dAdd D x y) = val x + val y"
    and val_sub: "val (dSub D x y) = val x - val y"
    and val_mul: "val (dMul D x y) = val x * val y"
    and val_neg: "val (dNeg D x) = - val x"
    and val_abs: "val (dAbs D x) = \<bar>val x\<bar>"
    and cmp: "dCmp D x y = (if val x < val y then -1 else if val x = val y then 0 else 1)"
    and equal: "dEqual D x y \<longleftrightarrow> val x = val y"
    and sign: "dSign D x = (if val x < 0 then -1 else if val x = 0 then 0 else 1)"
    and is_zero: "dIsZero D x \<longleftrightarrow> val x = 0"
    and is_negative: "dIsNegative D x \<longleftrightarrow> val x < 0"
    and is_positive: "dIsPositive D x \<longleftrightarrow> 0 < val x"
    and round_ceil: "val (dRoundCeil D x (int n)) = of_int \<lceil>val x * 10 ^ n\<rceil> / 10 ^ n"
    and round_floor: "val (dRoundFloor D x (int n)) = of_int \<lfloor>val x * 10 ^ n\<rfloor> / 10 ^ n"
    and truncate: "val (dTruncate D x (int n)) = of_int (trunc_rat (val x * 10 ^ n)) / 10 ^ n"
    and quorem: "val y \<noteq> 0 \<Longrightarrow> dQuoRem D x y (int n) = (q, r) \<Longrightarrow>
      val x = val y * val q + val r \<and> val q * 10 ^ n \<in> \<int> \<and>
      \<bar>val r\<bar> * 10 ^ n < \<bar>val y\<bar> \<and> (0 \<le> val x \<longrightarrow> 0 \<le> val r) \<and> (val x < 0 \<longrightarrow> val r \<le> 0)"
    and mod_trunc: "val y \<noteq> 0 \<Longrightarrow>
      val (dMod D x y) = val x - val y * of_int (trunc_rat (val x / val y))"
    and string: "\<exists>c s. val x = of_int c / 10 ^ s \<and> (s = 0 \<or> \<not> 10 dvd c) \<and> dString D x = dec_text c s"
    and string_fixed: "dStringFixed D x (int n) = dec_text (round_half_away (val x * 10 ^ n)) n"
    and coefficient: "val x = of_int (dCoefficient D x) * 10 powi (dExponent D x)"
begin

text \<open>Every decimal fits some number of fraction digits.\<close>

lemma ex_fits: "\<exists>n. fits n (val x)"
proof -
  from string obtain c s where "val x = of_int c / 10 ^ s" by blast
  then have "fits s (val x)" by simp
  then show ?thesis ..
qed

text \<open>The quotient is the exact one truncated towards zero at the given precision.\<close>

lemma quorem_trunc:
  assumes "val y \<noteq> 0"
  shows "val (fst (dQuoRem D x y (int n))) = of_int (trunc_rat (val x / val y * 10 ^ n)) / 10 ^ n"
proof -
  obtain q r where qr: "dQuoRem D x y (int n) = (q, r)" by force
  from quorem [OF assms qr] have eq: "val x = val y * val q + val r"
    and int: "val q * 10 ^ n \<in> \<int>" and small: "\<bar>val r\<bar> * 10 ^ n < \<bar>val y\<bar>"
    and pos: "0 \<le> val x \<longrightarrow> 0 \<le> val r" and neg: "val x < 0 \<longrightarrow> val r \<le> 0" by auto
  from int obtain k where k: "val q * 10 ^ n = of_int k" by (auto elim: Ints_cases)
  define e where "e = val r / val y * 10 ^ n"
  have ee: "val x / val y * 10 ^ n = of_int k + e"
    using eq assms by (simp add: e_def field_simps flip: k)
  have e: "\<bar>e\<bar> < 1"
    using small assms by (simp add: e_def abs_mult abs_divide field_simps)
  have p: "0 < (10::rat) ^ n" by simp
  have fl: "\<lfloor>of_int k + e\<rfloor> = k" if "0 \<le> e"
    by (rule floor_unique) (use that e in auto)
  have ce: "\<lceil>of_int k + e\<rceil> = k" if "e \<le> 0"
    by (rule ceiling_unique) (use that e in auto)
  have e0: "e = 0" if "val x = 0"
  proof -
    from that ee have "of_int k = - e" by simp
    with e have "\<bar>of_int k :: rat\<bar> < 1" by simp
    then have "k = 0" by (simp flip: of_int_abs)
    with \<open>of_int k = - e\<close> show ?thesis by simp
  qed
  have "trunc_rat (of_int k + e) = k"
  proof (cases "0 \<le> of_int k + e")
    case True
    then have "0 \<le> val x / val y" using ee p by (metis not_less mult_neg_pos)
    then have "0 \<le> e" using pos neg assms p e0
      by (cases "val x = 0"; cases "0 \<le> val x") (auto simp: e_def zero_le_mult_iff zero_le_divide_iff mult_le_0_iff not_le)
    with True show ?thesis by (simp only: trunc_rat_def fl if_True)
  next
    case False
    then have "val x / val y < 0" using ee p by (metis not_less mult_nonneg_nonneg less_imp_le)
    then have "e \<le> 0" using pos neg p
      by (auto simp: e_def divide_less_0_iff mult_le_0_iff divide_le_0_iff)
    with False show ?thesis by (simp only: trunc_rat_def ce if_False)
  qed
  with ee have "of_int (trunc_rat (val x / val y * 10 ^ n)) = val q * 10 ^ n" by (simp add: k)
  then show ?thesis by (simp add: qr)
qed

lemma string_fixed_inj:
  assumes "fits n (val x)" and "fits n (val y)"
  shows "dStringFixed D x (int n) = dStringFixed D y (int n) \<longleftrightarrow> val x = val y"
proof -
  from assms obtain a b where ab: "val x * 10 ^ n = of_int a" "val y * 10 ^ n = of_int b"
    by (auto simp: fits_def elim!: Ints_cases)
  have "dStringFixed D x (int n) = dStringFixed D y (int n) \<longleftrightarrow> a = b"
    by (simp add: string_fixed ab dec_text_inj)
  also have "\<dots> \<longleftrightarrow> val x * 10 ^ n = val y * 10 ^ n" by (simp add: ab)
  finally show ?thesis by simp
qed

text \<open>The canonical text decides the value, and has as few fraction digits as the value allows.\<close>

lemma string_inj: "dString D x = dString D y \<Longrightarrow> val x = val y"
  using string [of x] string [of y] by (auto simp: dec_text_inj)

lemma string_eq_iff: "dString D x = dString D y \<longleftrightarrow> val x = val y"
proof
  assume eq: "val x = val y"
  obtain c s where x: "val x = of_int c / 10 ^ s" "s = 0 \<or> \<not> 10 dvd c" "dString D x = dec_text c s"
    using string by blast
  obtain c' s' where y: "val y = of_int c' / 10 ^ s'" "s' = 0 \<or> \<not> 10 dvd c'" "dString D y = dec_text c' s'"
    using string by blast
  have "s \<le> s'" by (rule least_scale [OF x(1,2)]) (unfold eq y(1), rule fits_div_pow)
  moreover have "s' \<le> s" by (rule least_scale [OF y(1,2)]) (unfold eq [symmetric] x(1), rule fits_div_pow)
  ultimately have "s = s'" by simp
  with x(1) y(1) eq have "c = c'" by (simp add: field_simps)
  with x(3) y(3) \<open>s = s'\<close> show "dString D x = dString D y" by simp
qed (rule string_inj)

end

end
