(* ===== verification/Money.thy ===== *)
theory Money
  imports Decimal
begin

text \<open>
  \<^verbatim>\<open>internal/money\<close>: the exact decimal amounts behind every price, quantity, balance and fee
  (amount.go, asset.go, errors.go, json.go). Every function takes the decimal package \<open>D\<close> it
  is built on. The lemmas after the definitions give each function's result as the rational
  value \<open>amt_val val a\<close> of the amount; everything else in the development reasons with those.
\<close>

section \<open>Amounts\<close>

datatype money_error = ErrInvalidAmount | ErrPrecision | ErrInvalidStep | ErrInvalidAsset | ErrDivisionByZero

definition MaxIntegerDigits :: nat where
  "MaxIntegerDigits = 18"

definition MaxScale :: int where
  "MaxScale = 18"

text \<open>The struct \<^verbatim>\<open>Amount\<close> with its one field.\<close>

datatype 'd amount = Amount (dec: 'd)

definition amt_val :: "('d \<Rightarrow> rat) \<Rightarrow> 'd amount \<Rightarrow> rat" where
  "amt_val val a = val (dec a)"

definition Zero :: "'d decimal_pkg \<Rightarrow> 'd amount" where
  "Zero D = Amount (dZero D)"

text \<open>The regular expression \<^verbatim>\<open>^-?[0-9]+(\.[0-9]+)?$\<close>.\<close>

definition amountPattern :: "string \<Rightarrow> bool" where
  "amountPattern s =
     (let t = (case s of c # r \<Rightarrow> if c = CHR ''-'' then r else s | [] \<Rightarrow> []);
          ip = takeWhile is_digit t; r = dropWhile is_digit t
      in ip \<noteq> [] \<and>
         (case r of [] \<Rightarrow> True
          | c # fp \<Rightarrow> c = CHR ''.'' \<and> fp \<noteq> [] \<and> list_all is_digit fp))"

definition Amount_Validate :: "'d decimal_pkg \<Rightarrow> 'd amount \<Rightarrow> money_error option" where
  "Amount_Validate D a =
     (let s = dString D (dAbs D (dec a));
          (intPart, fracPart) =
            (case index_byte (CHR ''.'') s of
               Some i \<Rightarrow> (take i s, drop (i + 1) s)
             | None \<Rightarrow> (s, []));
          intPart' = (if intPart = ''0'' then [] else intPart)
      in if length intPart' > MaxIntegerDigits \<or> int (length fracPart) > MaxScale
         then Some ErrPrecision else None)"

definition ParseAmount :: "'d decimal_pkg \<Rightarrow> string \<Rightarrow> money_error + 'd amount" where
  "ParseAmount D s =
     (if \<not> amountPattern s then Inl ErrInvalidAmount
      else case dNewFromString D s of
             None \<Rightarrow> Inl ErrInvalidAmount
           | Some d \<Rightarrow>
               (case Amount_Validate D (Amount d) of
                  Some e \<Rightarrow> Inl e
                | None \<Rightarrow> Inr (Amount d)))"

text \<open>\<^verbatim>\<open>MustParse\<close>: a panic is \<open>None\<close>.\<close>

definition MustParse :: "'d decimal_pkg \<Rightarrow> string \<Rightarrow> 'd amount option" where
  "MustParse D s = (case ParseAmount D s of Inl _ \<Rightarrow> None | Inr a \<Rightarrow> Some a)"

definition FromInt64 :: "'d decimal_pkg \<Rightarrow> int \<Rightarrow> 'd amount" where
  "FromInt64 D v = Amount (dNewFromInt D v)"

text \<open>A nil coefficient is \<open>None\<close>.\<close>

definition FromBigInt :: "'d decimal_pkg \<Rightarrow> int option \<Rightarrow> int \<Rightarrow> money_error + 'd amount" where
  "FromBigInt D coef e =
     (case coef of
        None \<Rightarrow> Inl ErrInvalidAmount
      | Some c \<Rightarrow>
          (let a = Amount (dNewFromBigInt D c e)
           in case Amount_Validate D a of Some err \<Rightarrow> Inl err | None \<Rightarrow> Inr a))"

definition Amount_Add :: "'d decimal_pkg \<Rightarrow> 'd amount \<Rightarrow> 'd amount \<Rightarrow> 'd amount" where
  "Amount_Add D a b = Amount (dAdd D (dec a) (dec b))"

definition Amount_Sub :: "'d decimal_pkg \<Rightarrow> 'd amount \<Rightarrow> 'd amount \<Rightarrow> 'd amount" where
  "Amount_Sub D a b = Amount (dSub D (dec a) (dec b))"

definition Amount_Mul :: "'d decimal_pkg \<Rightarrow> 'd amount \<Rightarrow> 'd amount \<Rightarrow> 'd amount" where
  "Amount_Mul D a b = Amount (dMul D (dec a) (dec b))"

definition Amount_Neg :: "'d decimal_pkg \<Rightarrow> 'd amount \<Rightarrow> 'd amount" where
  "Amount_Neg D a = Amount (dNeg D (dec a))"

definition Amount_Abs :: "'d decimal_pkg \<Rightarrow> 'd amount \<Rightarrow> 'd amount" where
  "Amount_Abs D a = Amount (dAbs D (dec a))"

definition Amount_Cmp :: "'d decimal_pkg \<Rightarrow> 'd amount \<Rightarrow> 'd amount \<Rightarrow> int" where
  "Amount_Cmp D a b = dCmp D (dec a) (dec b)"

definition Amount_Equal :: "'d decimal_pkg \<Rightarrow> 'd amount \<Rightarrow> 'd amount \<Rightarrow> bool" where
  "Amount_Equal D a b = dEqual D (dec a) (dec b)"

definition Amount_Sign :: "'d decimal_pkg \<Rightarrow> 'd amount \<Rightarrow> int" where
  "Amount_Sign D a = dSign D (dec a)"

definition Amount_IsZero :: "'d decimal_pkg \<Rightarrow> 'd amount \<Rightarrow> bool" where
  "Amount_IsZero D a = dIsZero D (dec a)"

definition Amount_IsNegative :: "'d decimal_pkg \<Rightarrow> 'd amount \<Rightarrow> bool" where
  "Amount_IsNegative D a = dIsNegative D (dec a)"

definition Amount_IsPositive :: "'d decimal_pkg \<Rightarrow> 'd amount \<Rightarrow> bool" where
  "Amount_IsPositive D a = dIsPositive D (dec a)"

definition Amount_RoundUp :: "'d decimal_pkg \<Rightarrow> 'd amount \<Rightarrow> int \<Rightarrow> 'd amount" where
  "Amount_RoundUp D a scale = Amount (dRoundCeil D (dec a) scale)"

definition Amount_RoundDown :: "'d decimal_pkg \<Rightarrow> 'd amount \<Rightarrow> int \<Rightarrow> 'd amount" where
  "Amount_RoundDown D a scale = Amount (dRoundFloor D (dec a) scale)"

definition Amount_Truncate :: "'d decimal_pkg \<Rightarrow> 'd amount \<Rightarrow> int \<Rightarrow> 'd amount" where
  "Amount_Truncate D a scale = Amount (dTruncate D (dec a) scale)"

definition DivRoundDown :: "'d decimal_pkg \<Rightarrow> 'd amount \<Rightarrow> 'd amount \<Rightarrow> int \<Rightarrow> money_error + 'd amount" where
  "DivRoundDown D a b scale =
     (if Amount_IsZero D b then Inl ErrDivisionByZero
      else if scale < 0 \<or> scale > MaxScale then Inl ErrPrecision
      else Inr (Amount (fst (dQuoRem D (dec a) (dec b) scale))))"

definition DivRoundUp :: "'d decimal_pkg \<Rightarrow> 'd amount \<Rightarrow> 'd amount \<Rightarrow> int \<Rightarrow> money_error + 'd amount" where
  "DivRoundUp D a b scale =
     (if Amount_IsNegative D a then Inl ErrPrecision
      else if \<not> Amount_IsPositive D b
      then (if Amount_IsZero D b then Inl ErrDivisionByZero else Inl ErrPrecision)
      else case DivRoundDown D a b scale of
             Inl e \<Rightarrow> Inl e
           | Inr q \<Rightarrow>
               (if Amount_Equal D (Amount_Mul D q b) a then Inr q
                else case FromBigInt D (Some 1) (- scale) of
                       Inl e \<Rightarrow> Inl e
                     | Inr unit \<Rightarrow> Inr (Amount_Add D q unit)))"

definition IsMultipleOf :: "'d decimal_pkg \<Rightarrow> 'd amount \<Rightarrow> 'd amount \<Rightarrow> bool" where
  "IsMultipleOf D a step =
     (if \<not> Amount_IsPositive D step then False
      else dIsZero D (dMod D (dec a) (dec step)))"

definition Amount_Scale :: "'d decimal_pkg \<Rightarrow> 'd amount \<Rightarrow> int" where
  "Amount_Scale D a =
     (let s = dString D (dec a)
      in case index_byte (CHR ''.'') s of
           Some i \<Rightarrow> int (length s) - int i - 1
         | None \<Rightarrow> 0)"

definition Amount_Coefficient :: "'d decimal_pkg \<Rightarrow> 'd amount \<Rightarrow> int" where
  "Amount_Coefficient D a = dCoefficient D (dec a)"

definition Amount_Exponent :: "'d decimal_pkg \<Rightarrow> 'd amount \<Rightarrow> int" where
  "Amount_Exponent D a = dExponent D (dec a)"

definition Amount_String :: "'d decimal_pkg \<Rightarrow> 'd amount \<Rightarrow> string" where
  "Amount_String D a = dString D (dec a)"

definition Amount_StringFixed :: "'d decimal_pkg \<Rightarrow> 'd amount \<Rightarrow> int \<Rightarrow> string" where
  "Amount_StringFixed D a scale = dStringFixed D (dec a) scale"

definition MarshalText :: "'d decimal_pkg \<Rightarrow> 'd amount \<Rightarrow> string" where
  "MarshalText D a = Amount_String D a"

text \<open>The new value of the receiver, or the error that leaves it as it was.\<close>

definition UnmarshalText :: "'d decimal_pkg \<Rightarrow> string \<Rightarrow> money_error + 'd amount" where
  "UnmarshalText D b =
     (case ParseAmount D b of Inl e \<Rightarrow> Inl e | Inr parsed \<Rightarrow> Inr parsed)"

section \<open>Assets\<close>

record Asset =
  Symbol :: string
  Asset_Scale :: int

definition Asset_Validate :: "Asset \<Rightarrow> money_error option" where
  "Asset_Validate as =
     (if Symbol as = [] then Some ErrInvalidAsset
      else if Asset_Scale as < 0 \<or> Asset_Scale as > MaxScale then Some ErrInvalidAsset
      else None)"

definition Asset_RoundUp :: "'d decimal_pkg \<Rightarrow> Asset \<Rightarrow> 'd amount \<Rightarrow> 'd amount" where
  "Asset_RoundUp D as a = Amount_RoundUp D a (Asset_Scale as)"

definition Asset_RoundDown :: "'d decimal_pkg \<Rightarrow> Asset \<Rightarrow> 'd amount \<Rightarrow> 'd amount" where
  "Asset_RoundDown D as a = Amount_RoundDown D a (Asset_Scale as)"

definition Asset_Truncate :: "'d decimal_pkg \<Rightarrow> Asset \<Rightarrow> 'd amount \<Rightarrow> 'd amount" where
  "Asset_Truncate D as a = Amount_Truncate D a (Asset_Scale as)"

definition Asset_Fits :: "'d decimal_pkg \<Rightarrow> Asset \<Rightarrow> 'd amount \<Rightarrow> bool" where
  "Asset_Fits D as a \<longleftrightarrow> Amount_Scale D a \<le> Asset_Scale as"

section \<open>The functions as arithmetic\<close>

context decimal
begin

abbreviation V :: "'d amount \<Rightarrow> rat" where
  "V \<equiv> amt_val val"

lemma V_arith [val_simps, simp]:
  "V (Zero D) = 0" "V (FromInt64 D i) = of_int i"
  "V (Amount_Add D a b) = V a + V b" "V (Amount_Sub D a b) = V a - V b"
  "V (Amount_Mul D a b) = V a * V b" "V (Amount_Neg D a) = - V a" "V (Amount_Abs D a) = \<bar>V a\<bar>"
  by (simp_all add: amt_val_def Zero_def FromInt64_def Amount_Add_def Amount_Sub_def Amount_Mul_def
      Amount_Neg_def Amount_Abs_def val_zero val_new_from_int val_add val_sub val_mul val_neg val_abs)

lemma V_cmp [cmp_simps, simp]:
  "Amount_Equal D a b \<longleftrightarrow> V a = V b" "Amount_IsZero D a \<longleftrightarrow> V a = 0"
  "Amount_IsNegative D a \<longleftrightarrow> V a < 0" "Amount_IsPositive D a \<longleftrightarrow> 0 < V a"
  "Amount_Cmp D a b < 0 \<longleftrightarrow> V a < V b" "Amount_Cmp D a b > 0 \<longleftrightarrow> V b < V a"
  "Amount_Cmp D a b \<le> 0 \<longleftrightarrow> V a \<le> V b" "Amount_Cmp D a b \<ge> 0 \<longleftrightarrow> V b \<le> V a"
  by (auto simp: amt_val_def Amount_Equal_def Amount_IsZero_def Amount_IsNegative_def
      Amount_IsPositive_def Amount_Cmp_def cmp equal is_zero is_negative is_positive)

lemma V_round:
  "V (Amount_RoundUp D a (int n)) = of_int \<lceil>V a * 10 ^ n\<rceil> / 10 ^ n"
  "V (Amount_RoundDown D a (int n)) = of_int \<lfloor>V a * 10 ^ n\<rfloor> / 10 ^ n"
  "V (Amount_Truncate D a (int n)) = of_int (trunc_rat (V a * 10 ^ n)) / 10 ^ n"
  by (simp_all add: amt_val_def Amount_RoundUp_def Amount_RoundDown_def Amount_Truncate_def
      round_ceil round_floor truncate)

text \<open>The text of an amount: its two parts around the point.\<close>

lemma dec_text_split:
  assumes "0 \<le> c"
  shows "index_byte (CHR ''.'') (dec_text c s)
      = (if s = 0 then None else Some (length (dec_int_part c s)))"
    and "s \<noteq> 0 \<Longrightarrow> take (length (dec_int_part c s)) (dec_text c s) = dec_int_part c s"
    and "s \<noteq> 0 \<Longrightarrow> drop (length (dec_int_part c s) + 1) (dec_text c s) = dec_frac_part c s"
    and "s = 0 \<Longrightarrow> dec_text c s = dec_int_part c s"
proof -
  have nodot: "CHR ''.'' \<notin> set (dec_int_part c s)" "CHR ''.'' \<notin> set (dec_frac_part c s)"
    using dec_parts_digits(1,2) [of c s] by (auto simp: list_all_iff)
  have [simp]: "dec_frac_part c s = [] \<longleftrightarrow> s = 0"
    using dec_parts_digits(4) [of c s] by (metis length_0_conv)
  have t: "dec_text c s = dec_int_part c s @ (if s = 0 then [] else CHR ''.'' # dec_frac_part c s)"
    using assms by (simp add: dec_text_def lit_text_def)
  show "index_byte (CHR ''.'') (dec_text c s) = (if s = 0 then None else Some (length (dec_int_part c s)))"
    unfolding t using nodot by (cases "s = 0") (simp_all add: index_byte_None index_byte_append)
  show "s \<noteq> 0 \<Longrightarrow> take (length (dec_int_part c s)) (dec_text c s) = dec_int_part c s"
    and "s \<noteq> 0 \<Longrightarrow> drop (length (dec_int_part c s) + 1) (dec_text c s) = dec_frac_part c s"
    and "s = 0 \<Longrightarrow> dec_text c s = dec_int_part c s"
    unfolding t by simp_all
qed

lemma index_byte_neg_text:
  "c < 0 \<Longrightarrow> index_byte (CHR ''.'') (dec_text c s)
    = (if s = 0 then None else Some (Suc (length (dec_int_part c s))))"
proof -
  assume "c < 0"
  have "CHR ''.'' \<notin> set (dec_int_part c s)"
    using dec_parts_digits(1) [of c s] by (auto simp: list_all_iff)
  moreover have "dec_frac_part c s = [] \<longleftrightarrow> s = 0"
    using dec_parts_digits(4) [of c s] by (metis length_0_conv)
  ultimately show ?thesis using \<open>c < 0\<close>
    by (cases "s = 0") (simp_all add: dec_text_def lit_text_def index_byte_None index_byte_append)
qed

lemma length_dec_text:
  "length (dec_text c s) = (if c < 0 then 1 else 0) + length (dec_int_part c s) + (if s = 0 then 0 else s + 1)"
proof -
  have "dec_frac_part c s = [] \<longleftrightarrow> s = 0"
    using dec_parts_digits(4) [of c s] by (metis length_0_conv)
  then show ?thesis by (simp add: dec_text_def lit_text_def)
qed

text \<open>\<^verbatim>\<open>Scale\<close> is the least number of fraction digits the value fits.\<close>

lemma Scale_text:
  "\<exists>c s. V a = of_int c / 10 ^ s \<and> (s = 0 \<or> \<not> 10 dvd c) \<and> Amount_Scale D a = int s"
proof -
  from string obtain c s where cs: "val (dec a) = of_int c / 10 ^ s" "s = 0 \<or> \<not> 10 dvd c"
    "dString D (dec a) = dec_text c s" by blast
  then have "Amount_Scale D a = int s"
    by (cases "c < 0") (auto simp: Amount_Scale_def dec_text_split index_byte_neg_text length_dec_text)
  with cs show ?thesis by (auto simp: amt_val_def)
qed

lemma Scale_nonneg [simp]: "0 \<le> Amount_Scale D a"
  using Scale_text [of a] by auto

lemma Scale_le_iff: "Amount_Scale D a \<le> int n \<longleftrightarrow> fits n (V a)"
proof -
  obtain c s where cs: "V a = of_int c / 10 ^ s" "s = 0 \<or> \<not> 10 dvd c" "Amount_Scale D a = int s"
    using Scale_text by blast
  then have "fits s (V a)" by (simp only: fits_div_pow)
  then show ?thesis
    using least_scale [OF cs(1,2), of n] fits_mono [of s "V a" n] by (auto simp only: cs(3) of_nat_le_iff)
qed

lemma Scale_le_iff': "Amount_Scale D a \<le> k \<longleftrightarrow> 0 \<le> k \<and> fits (nat k) (V a)"
  using Scale_le_iff [of a "nat k"] Scale_nonneg [of a]
  by (cases "0 \<le> k") (auto simp del: Scale_nonneg)

lemma fits_Scale: "fits (nat (Amount_Scale D a)) (V a)"
  using Scale_le_iff' [of a "Amount_Scale D a"] by simp

text \<open>\<^verbatim>\<open>Validate\<close> accepts exactly the values of NUMERIC(36,18).\<close>

lemma Validate_iff:
  "Amount_Validate D a = None \<longleftrightarrow> \<bar>V a\<bar> < 10 ^ MaxIntegerDigits \<and> fits (nat MaxScale) (V a)"
proof -
  obtain c s where c: "val (dAbs D (dec a)) = of_int c / 10 ^ s" "s = 0 \<or> \<not> 10 dvd c"
    "dString D (dAbs D (dec a)) = dec_text c s" using string by blast
  then have V: "\<bar>V a\<bar> = of_int c / 10 ^ s" by (simp add: amt_val_def val_abs)
  then have "0 \<le> (of_int c :: rat) / 10 ^ s" by (metis abs_ge_zero)
  moreover have "\<not> (10::rat) ^ s \<le> 0" by (simp add: not_le)
  ultimately have "0 \<le> c" by (auto simp: zero_le_divide_iff)
  let ?i = "if dec_int_part c s = ''0'' then [] else dec_int_part c s"
  have "Amount_Validate D a = None \<longleftrightarrow> length ?i \<le> MaxIntegerDigits \<and> int s \<le> MaxScale"
    using dec_text_split [OF \<open>0 \<le> c\<close>, of s]
    by (cases "s = 0") (auto simp: Amount_Validate_def c(3) Let_def MaxScale_def)
  also have "int s \<le> MaxScale \<longleftrightarrow> fits (nat MaxScale) \<bar>V a\<bar>"
    using least_scale [OF c(1,2), of "nat MaxScale"] fits_mono [of s "\<bar>V a\<bar>" "nat MaxScale"]
    by (auto simp: MaxScale_def V c(1))
  also have "fits (nat MaxScale) \<bar>V a\<bar> \<longleftrightarrow> fits (nat MaxScale) (V a)"
    using fits_minus [of "nat MaxScale" "V a"] fits_minus [of "nat MaxScale" "- V a"] by (auto simp: abs_if)
  also have "length ?i \<le> MaxIntegerDigits \<longleftrightarrow> \<bar>V a\<bar> < 10 ^ MaxIntegerDigits"
  proof -
    let ?n = "nat c div 10 ^ s"
    have ip: "dec_int_part c s = digits ?n" using \<open>0 \<le> c\<close> by (simp add: dec_int_part_def)
    have zero: "digits ?n = ''0'' \<longleftrightarrow> ?n = 0"
    proof
      assume "digits ?n = ''0''"
      then have "?n = digits_val ''0''" by (metis digits_val_digits)
      then show "?n = 0" by (simp add: digits_val_def char_digit_def)
    next
      assume "?n = 0"
      then show "digits ?n = ''0''" by (simp add: digits.simps [of 0])
    qed
    have "length ?i \<le> MaxIntegerDigits \<longleftrightarrow> ?n < 10 ^ MaxIntegerDigits"
      using zero length_digits_iff [of ?n MaxIntegerDigits] by (auto simp: ip)
    also have "\<dots> \<longleftrightarrow> nat c < 10 ^ MaxIntegerDigits * 10 ^ s"
      by (simp add: div_less_iff_less_mult)
    also have "\<dots> \<longleftrightarrow> c < 10 ^ MaxIntegerDigits * 10 ^ s"
      using \<open>0 \<le> c\<close> by (simp add: nat_less_iff)
    also have "\<dots> \<longleftrightarrow> (of_int c :: rat) < of_int (10 ^ MaxIntegerDigits * 10 ^ s)"
      by (simp only: of_int_less_iff)
    also have "\<dots> \<longleftrightarrow> \<bar>V a\<bar> < 10 ^ MaxIntegerDigits" by (simp add: V field_simps)
    finally show ?thesis .
  qed
  finally show ?thesis by blast
qed

lemma V_Amount [simp]: "V (Amount d) = val d"
  by (simp add: amt_val_def)

text \<open>Division down is truncation, division up is the ceiling.\<close>

lemma DivRoundDown_ok:
  assumes "V b \<noteq> 0" and "int n \<le> MaxScale"
  shows "\<exists>q. DivRoundDown D a b (int n) = Inr q \<and> V q = of_int (trunc_rat (V a / V b * 10 ^ n)) / 10 ^ n"
  using assms quorem_trunc [of "dec b" "dec a" n] by (simp add: DivRoundDown_def amt_val_def)

lemma DivRoundDown_error:
  "V b = 0 \<Longrightarrow> DivRoundDown D a b s = Inl ErrDivisionByZero"
  "V b \<noteq> 0 \<Longrightarrow> s < 0 \<or> MaxScale < s \<Longrightarrow> DivRoundDown D a b s = Inl ErrPrecision"
  by (simp_all add: DivRoundDown_def)

lemma unit_ok:
  assumes "int n \<le> MaxScale"
  shows "\<exists>u. FromBigInt D (Some 1) (- int n) = Inr u \<and> V u = 1 / 10 ^ n"
proof -
  let ?u = "Amount (dNewFromBigInt D 1 (- int n))"
  have V: "V ?u = 1 / 10 ^ n" by (simp add: val_new_from_big_int power_int_minus field_simps)
  have "fits n (V ?u)" unfolding V using fits_div_pow [of n 1] by simp
  then have "fits (nat MaxScale) (V ?u)" using assms by (auto intro: fits_mono)
  moreover have "\<bar>V ?u\<bar> < 10 ^ MaxIntegerDigits"
  proof -
    have "(1::rat) / 10 ^ n \<le> 1" by simp
    also have "(1::rat) < 10 ^ MaxIntegerDigits" by (simp add: MaxIntegerDigits_def)
    finally show ?thesis by (simp only: V abs_of_nonneg) simp
  qed
  ultimately have "Amount_Validate D ?u = None" by (simp add: Validate_iff)
  with V show ?thesis by (simp add: FromBigInt_def Let_def)
qed

lemma DivRoundUp_ok:
  assumes "0 \<le> V a" and "0 < V b" and n: "int n \<le> MaxScale"
  shows "\<exists>q. DivRoundUp D a b (int n) = Inr q \<and> V q = of_int \<lceil>V a / V b * 10 ^ n\<rceil> / 10 ^ n"
proof -
  define z where "z = V a / V b * 10 ^ n"
  have z: "0 \<le> z" using assms by (simp add: z_def)
  have Va: "V a = z / 10 ^ n * V b" using assms(2) by (simp add: z_def)
  obtain q where q: "DivRoundDown D a b (int n) = Inr q" "V q = of_int \<lfloor>z\<rfloor> / 10 ^ n"
    using DivRoundDown_ok [of b n a, folded z_def, unfolded trunc_rat_nonneg [OF z]] assms by auto
  have exact: "V q * V b = V a \<longleftrightarrow> of_int \<lfloor>z\<rfloor> = z"
    using assms(2) unfolding Va q(2) by simp
  show ?thesis unfolding z_def [symmetric]
  proof (cases "V q * V b = V a")
    case True
    with exact have "\<lceil>z\<rceil> = \<lfloor>z\<rfloor>" by (metis ceiling_of_int)
    with True assms q show "\<exists>q. DivRoundUp D a b (int n) = Inr q \<and> V q = of_int \<lceil>z\<rceil> / 10 ^ n"
      by (simp add: DivRoundUp_def)
  next
    case False
    with exact have "of_int \<lfloor>z\<rfloor> \<noteq> z" by simp
    then have "\<lceil>z\<rceil> = \<lfloor>z\<rfloor> + 1" by (simp add: ceiling_altdef)
    moreover obtain u where "FromBigInt D (Some 1) (- int n) = Inr u" "V u = 1 / 10 ^ n"
      using unit_ok [OF n] by blast
    ultimately show "\<exists>q. DivRoundUp D a b (int n) = Inr q \<and> V q = of_int \<lceil>z\<rceil> / 10 ^ n"
      using False assms q by (simp add: DivRoundUp_def add_divide_distrib)
  qed
qed

lemma IsMultipleOf_iff:
  "IsMultipleOf D a step \<longleftrightarrow> 0 < V step \<and> (\<exists>k::int. V a = of_int k * V step)"
proof (cases "0 < V step")
  case True
  then have "val (dMod D (dec a) (dec step)) = V a - V step * of_int (trunc_rat (V a / V step))"
    by (simp add: amt_val_def mod_trunc)
  then have "IsMultipleOf D a step \<longleftrightarrow> V a = V step * of_int (trunc_rat (V a / V step))"
    using True by (simp add: IsMultipleOf_def is_zero)
  also have "\<dots> \<longleftrightarrow> (\<exists>k::int. V a = of_int k * V step)"
  proof
    assume "\<exists>k::int. V a = of_int k * V step"
    then obtain k :: int where k: "V a = of_int k * V step" by blast
    with True have "V a / V step = of_int k" by simp
    with k show "V a = V step * of_int (trunc_rat (V a / V step))" by simp
  qed (metis mult.commute)
  finally show ?thesis using True by simp
next
  case False
  then show ?thesis by (simp add: IsMultipleOf_def)
qed

lemma StringFixed_inj:
  assumes "0 \<le> k" and "fits (nat k) (V a)" and "fits (nat k) (V b)"
  shows "Amount_StringFixed D a k = Amount_StringFixed D b k \<longleftrightarrow> V a = V b"
  using string_fixed_inj [of "nat k" "dec a" "dec b"] assms
  by (simp add: Amount_StringFixed_def amt_val_def)

text \<open>Parsing.\<close>

lemma amountPattern_lit:
  "amountPattern s \<longleftrightarrow>
     (\<exists>neg ip fp. s = lit_text neg ip fp \<and> ip \<noteq> [] \<and> list_all is_digit ip \<and> list_all is_digit fp)"
  (is "_ \<longleftrightarrow> ?R")
proof
  assume s: "amountPattern s"
  define neg where "neg = (case s of c # r \<Rightarrow> c = CHR ''-'' | [] \<Rightarrow> False)"
  define t where "t = (case s of c # r \<Rightarrow> if c = CHR ''-'' then r else s | [] \<Rightarrow> [])"
  define ip where "ip = takeWhile is_digit t"
  define r where "r = dropWhile is_digit t"
  define fp where "fp = tl r"
  have st: "s = (if neg then ''-'' else []) @ t"
    by (auto simp: neg_def t_def split: list.splits)
  have tr: "t = ip @ r" by (simp add: ip_def r_def)
  from s have ne: "ip \<noteq> []"
    and r: "r = [] \<or> r = CHR ''.'' # fp \<and> fp \<noteq> [] \<and> list_all is_digit fp"
    by (auto simp: amountPattern_def Let_def fp_def ip_def r_def t_def split: list.splits)
  have "s = lit_text neg ip fp" using r by (auto simp: st tr lit_text_def fp_def)
  moreover have "list_all is_digit ip" by (auto simp: ip_def list_all_iff dest: set_takeWhileD)
  moreover have "list_all is_digit fp" using r by (auto simp: fp_def)
  ultimately show ?R using ne by blast
next
  assume ?R
  then obtain neg ip fp where s: "s = lit_text neg ip fp" and ip: "ip \<noteq> []" "list_all is_digit ip"
    and fp: "list_all is_digit fp" by blast
  let ?t = "ip @ (if fp = [] then [] else CHR ''.'' # fp)"
  have "hd ip \<noteq> CHR ''-''" using ip by (auto simp: neq_Nil_conv)
  then have t: "(case s of c # r \<Rightarrow> if c = CHR ''-'' then r else s | [] \<Rightarrow> []) = ?t"
    using ip(1) by (auto simp: s lit_text_def neq_Nil_conv)
  have "dropWhile is_digit ?t = (if fp = [] then [] else CHR ''.'' # fp)"
    using ip by (subst dropWhile_append2) (auto simp: list_all_iff)
  then show "amountPattern s"
    using takeWhile_lit_rest [OF ip(2), of fp] ip fp unfolding amountPattern_def t Let_def
    by auto
qed

lemma ParseAmount_lit:
  assumes "ip \<noteq> []" "list_all is_digit ip" "list_all is_digit fp"
  shows "\<exists>a. V a = lit_val neg ip fp \<and>
    ParseAmount D (lit_text neg ip fp) =
      (if \<bar>lit_val neg ip fp\<bar> < 10 ^ MaxIntegerDigits \<and> fits (nat MaxScale) (lit_val neg ip fp)
       then Inr a else Inl ErrPrecision)"
proof -
  obtain d where d: "dNewFromString D (lit_text neg ip fp) = Some d" "val d = lit_val neg ip fp"
    using new_from_string [OF assms] by blast
  have "amountPattern (lit_text neg ip fp)" using assms amountPattern_lit by blast
  moreover have "Amount_Validate D (Amount d) = (if \<bar>lit_val neg ip fp\<bar> < 10 ^ MaxIntegerDigits
      \<and> fits (nat MaxScale) (lit_val neg ip fp) then None else Some ErrPrecision)"
    using Validate_iff [of "Amount d"] d(2) by (auto simp: Amount_Validate_def Let_def split: if_splits prod.splits)
  ultimately show ?thesis using d by (intro exI [of _ "Amount d"]) (auto simp: ParseAmount_def)
qed

lemma ParseAmount_String:
  assumes "Amount_Validate D a = None"
  shows "\<exists>b. ParseAmount D (Amount_String D a) = Inr b \<and> V b = V a"
proof -
  obtain c s where c: "V a = of_int c / 10 ^ s" "Amount_String D a = dec_text c s"
    using string [of "dec a"] by (auto simp: amt_val_def Amount_String_def)
  have V: "lit_val (c < 0) (dec_int_part c s) (dec_frac_part c s) = V a"
    by (simp add: lit_val_dec c(1))
  obtain b where "V b = V a"
    "ParseAmount D (dec_text c s) = (if \<bar>V a\<bar> < 10 ^ MaxIntegerDigits \<and> fits (nat MaxScale) (V a)
       then Inr b else Inl ErrPrecision)"
    using ParseAmount_lit [of "dec_int_part c s" "dec_frac_part c s" "c < 0"]
    unfolding V dec_text_def by auto
  with assms c(2) show ?thesis by (auto simp: Validate_iff)
qed

end

section \<open>Properties\<close>

text \<open>C11: an amount that passes \<^verbatim>\<open>Validate\<close> survives the trip through its canonical text:
  \<^verbatim>\<open>ParseAmount\<close> accepts what \<^verbatim>\<open>String\<close> prints and returns an equal amount.\<close>

theorem parse_string_roundtrip:
  assumes "decimal D val" and "Amount_Validate D a = None"
  shows "\<exists>b. ParseAmount D (Amount_String D a) = Inr b \<and> Amount_Equal D a b"
  using decimal.ParseAmount_String [OF assms] decimal.V_cmp(1) [OF assms(1)] by auto

end
