(* ===== verification/Matching_Types.thy ===== *)
theory Matching_Types
  imports Money
begin

text \<open>
  The data of \<^verbatim>\<open>internal/matching\<close> (types.go, events.go): the enumerations with their text
  forms, the market configuration and its validation, the commands, the resting orders and the
  events. An enumeration is a \<^verbatim>\<open>uint8\<close> in the code; the values without a name are the
  constructor ending in \<open>_other\<close>. Record fields carry a prefix for their struct.
\<close>

section \<open>Errors\<close>

datatype match_error =
    ErrInvalidConfig | ErrUnsupportedSTP | ErrInvalidCommand | ErrSeqNotIncreasing
  | ErrInvalidResting | ErrDuplicateOrderID | errInternalPrecision | errMoney money_error
  | Panic \<comment> \<open>a nil pointer or an index out of range at run time\<close>

section \<open>Enumerations\<close>

datatype Side = Buy | Sell | Side_other "8 word"

definition Side_Opposite :: "Side \<Rightarrow> Side" where
  "Side_Opposite s = (if s = Buy then Sell else Buy)"

definition Side_String :: "Side \<Rightarrow> string" where
  "Side_String s = (case s of Buy \<Rightarrow> ''buy'' | Sell \<Rightarrow> ''sell''
     | Side_other w \<Rightarrow> ''side('' @ digits (unat w) @ '')'')"

definition enumText :: "string \<Rightarrow> bool \<Rightarrow> match_error + string" where
  "enumText s ok = (if \<not> ok then Inl ErrInvalidCommand else Inr s)"

definition Side_MarshalText :: "Side \<Rightarrow> match_error + string" where
  "Side_MarshalText s = enumText (Side_String s) (s = Buy \<or> s = Sell)"

definition Side_UnmarshalText :: "string \<Rightarrow> match_error + Side" where
  "Side_UnmarshalText b =
     (if b = ''buy'' then Inr Buy else if b = ''sell'' then Inr Sell else Inl ErrInvalidCommand)"

datatype OrderType = Limit | Market | OrderType_other "8 word"

definition OrderType_String :: "OrderType \<Rightarrow> string" where
  "OrderType_String t = (case t of Limit \<Rightarrow> ''limit'' | Market \<Rightarrow> ''market''
     | OrderType_other w \<Rightarrow> ''type('' @ digits (unat w) @ '')'')"

definition OrderType_MarshalText :: "OrderType \<Rightarrow> match_error + string" where
  "OrderType_MarshalText t = enumText (OrderType_String t) (t = Limit \<or> t = Market)"

definition OrderType_UnmarshalText :: "string \<Rightarrow> match_error + OrderType" where
  "OrderType_UnmarshalText b =
     (if b = ''limit'' then Inr Limit else if b = ''market'' then Inr Market
      else Inl ErrInvalidCommand)"

text \<open>\<open>TIF_default\<close> is the zero value.\<close>

datatype TimeInForce = TIF_default | GTC | IOC | TIF_other "8 word"

definition TimeInForce_String :: "TimeInForce \<Rightarrow> string" where
  "TimeInForce_String t = (case t of GTC \<Rightarrow> ''gtc'' | IOC \<Rightarrow> ''ioc''
     | TIF_default \<Rightarrow> ''tif('' @ digits 0 @ '')''
     | TIF_other w \<Rightarrow> ''tif('' @ digits (unat w) @ '')'')"

definition TimeInForce_MarshalText :: "TimeInForce \<Rightarrow> match_error + string" where
  "TimeInForce_MarshalText t =
     (if t = TIF_default then Inr [] else enumText (TimeInForce_String t) (t = GTC \<or> t = IOC))"

definition TimeInForce_UnmarshalText :: "string \<Rightarrow> match_error + TimeInForce" where
  "TimeInForce_UnmarshalText b =
     (if b = [] \<or> b = ''gtc'' then Inr GTC else if b = ''ioc'' then Inr IOC
      else Inl ErrInvalidCommand)"

datatype SelfTradePolicy = STPCancelNewest | STPAllow | STPCancelOldest | STP_other "8 word"

definition SelfTradePolicy_String :: "SelfTradePolicy \<Rightarrow> string" where
  "SelfTradePolicy_String p = (case p of STPCancelNewest \<Rightarrow> ''cancel_newest''
     | STPAllow \<Rightarrow> ''allow'' | STPCancelOldest \<Rightarrow> ''cancel_oldest''
     | STP_other w \<Rightarrow> ''stp('' @ digits (unat w) @ '')'')"

definition SelfTradePolicy_MarshalText :: "SelfTradePolicy \<Rightarrow> match_error + string" where
  "SelfTradePolicy_MarshalText p =
     enumText (SelfTradePolicy_String p) (p \<in> {STPCancelNewest, STPAllow, STPCancelOldest})"

definition SelfTradePolicy_UnmarshalText :: "string \<Rightarrow> match_error + SelfTradePolicy" where
  "SelfTradePolicy_UnmarshalText b =
     (if b = ''cancel_newest'' then Inr STPCancelNewest
      else if b = ''allow'' then Inr STPAllow
      else if b = ''cancel_oldest'' then Inr STPCancelOldest
      else Inl ErrInvalidCommand)"

section \<open>Market configuration\<close>

type_synonym OrderID = string
type_synonym AccountID = string

record 'd MarketConfig =
  mc_Symbol :: string
  mc_PriceTick :: "'d amount"
  mc_QtyStep :: "'d amount"
  mc_MinNotional :: "'d amount"
  mc_MaxQty :: "'d amount option"
  mc_MaxSlippageBps :: "int option"
  mc_BaseScale :: int
  mc_QuoteScale :: int
  mc_SelfTradePolicy :: SelfTradePolicy

definition MarketConfig_Validate :: "'d decimal_pkg \<Rightarrow> 'd MarketConfig \<Rightarrow> match_error option" where
  "MarketConfig_Validate D c =
     (if mc_Symbol c = [] then Some ErrInvalidConfig
      else if \<not> Amount_IsPositive D (mc_PriceTick c) then Some ErrInvalidConfig
      else if \<not> Amount_IsPositive D (mc_QtyStep c) then Some ErrInvalidConfig
      else if Amount_IsNegative D (mc_MinNotional c) then Some ErrInvalidConfig
      else if mc_BaseScale c < 0 \<or> mc_BaseScale c > MaxScale \<or>
              mc_QuoteScale c < 0 \<or> mc_QuoteScale c > MaxScale then Some ErrInvalidConfig
      else if Amount_Scale D (mc_QtyStep c) > mc_BaseScale c then Some ErrInvalidConfig
      else if Amount_Scale D (mc_PriceTick c) + Amount_Scale D (mc_QtyStep c) > mc_QuoteScale c
      then Some ErrInvalidConfig
      else if (case mc_MaxQty c of None \<Rightarrow> False | Some q \<Rightarrow> \<not> Amount_IsPositive D q)
      then Some ErrInvalidConfig
      else if (case mc_MaxSlippageBps c of None \<Rightarrow> False | Some b \<Rightarrow> b < 1 \<or> b > 10000)
      then Some ErrInvalidConfig
      else (case mc_SelfTradePolicy c of
              STPCancelNewest \<Rightarrow> None
            | STPAllow \<Rightarrow> None
            | STPCancelOldest \<Rightarrow> Some ErrUnsupportedSTP
            | STP_other _ \<Rightarrow> Some ErrInvalidConfig))"

section \<open>Commands and orders\<close>

record 'd NewOrder =
  no_OrderID :: OrderID
  no_AccountID :: AccountID
  no_Side :: Side
  no_Type :: OrderType
  no_TimeInForce :: TimeInForce
  no_Price :: "'d amount"
  no_Qty :: "'d amount"
  no_QuoteQty :: "'d amount"

record Cancel =
  ca_OrderID :: OrderID
  ca_AccountID :: AccountID

text \<open>The two payload pointers, nil as \<open>None\<close>.\<close>

record 'd Command =
  cmd_Seq :: u64
  cmd_Timestamp :: go_time
  cmd_New :: "'d NewOrder option"
  cmd_Cancel :: "Cancel option"

record 'd RestingOrder =
  ro_OrderID :: OrderID
  ro_AccountID :: AccountID
  ro_Side :: Side
  ro_Price :: "'d amount"
  ro_Qty :: "'d amount"
  ro_Remaining :: "'d amount"
  ro_FilledQty :: "'d amount"
  ro_FilledQuote :: "'d amount"
  ro_Seq :: u64
  ro_Timestamp :: go_time

definition RestingOrder_Equal :: "'d decimal_pkg \<Rightarrow> 'd RestingOrder \<Rightarrow> 'd RestingOrder \<Rightarrow> bool" where
  "RestingOrder_Equal D r p \<longleftrightarrow>
     ro_OrderID r = ro_OrderID p \<and> ro_AccountID r = ro_AccountID p \<and> ro_Side r = ro_Side p \<and>
     Amount_Equal D (ro_Price r) (ro_Price p) \<and> Amount_Equal D (ro_Qty r) (ro_Qty p) \<and>
     Amount_Equal D (ro_Remaining r) (ro_Remaining p) \<and>
     Amount_Equal D (ro_FilledQty r) (ro_FilledQty p) \<and>
     Amount_Equal D (ro_FilledQuote r) (ro_FilledQuote p) \<and>
     ro_Seq r = ro_Seq p \<and> ro_Timestamp r = ro_Timestamp p"

record 'd Snapshot =
  sn_Symbol :: string
  sn_LastSeq :: u64
  sn_Bids :: "'d RestingOrder list"
  sn_Asks :: "'d RestingOrder list"

definition Snapshot_Equal :: "'d decimal_pkg \<Rightarrow> 'd Snapshot \<Rightarrow> 'd Snapshot \<Rightarrow> bool" where
  "Snapshot_Equal D s p \<longleftrightarrow>
     sn_Symbol s = sn_Symbol p \<and> sn_LastSeq s = sn_LastSeq p \<and>
     length (sn_Bids s) = length (sn_Bids p) \<and> length (sn_Asks s) = length (sn_Asks p) \<and>
     list_all2 (RestingOrder_Equal D) (sn_Bids s) (sn_Bids p) \<and>
     list_all2 (RestingOrder_Equal D) (sn_Asks s) (sn_Asks p)"

record 'd Level =
  lv_Price :: "'d amount"
  lv_Qty :: "'d amount"
  lv_Orders :: int

record 'd Depth =
  dp_Symbol :: string
  dp_LastSeq :: u64
  dp_Bids :: "'d Level list"
  dp_Asks :: "'d Level list"

section \<open>Events\<close>

datatype RejectReason =
    RejectInvalidOrder | RejectInvalidPriceTick | RejectInvalidQtyStep | RejectBelowMinNotional
  | RejectAboveMaxQty | RejectDuplicateOrderID | RejectEmptyBook | RejectQuoteQtyTooSmall

definition RejectReason_String :: "RejectReason \<Rightarrow> string" where
  "RejectReason_String r = (case r of
       RejectInvalidOrder \<Rightarrow> ''invalid_order''
     | RejectInvalidPriceTick \<Rightarrow> ''invalid_price_tick''
     | RejectInvalidQtyStep \<Rightarrow> ''invalid_qty_step''
     | RejectBelowMinNotional \<Rightarrow> ''below_min_notional''
     | RejectAboveMaxQty \<Rightarrow> ''above_max_qty''
     | RejectDuplicateOrderID \<Rightarrow> ''duplicate_order_id''
     | RejectEmptyBook \<Rightarrow> ''empty_book''
     | RejectQuoteQtyTooSmall \<Rightarrow> ''quote_qty_too_small'')"

datatype CancelReason = CancelByUser | CancelIOC | CancelSelfTrade | CancelPriceProtection

datatype CancelRejectReason = CancelRejectUnknownOrder | CancelRejectNotOwner

record 'd Accepted =
  ac_Seq :: u64
  ac_OrderID :: OrderID
  ac_AccountID :: AccountID
  ac_Side :: Side
  ac_Type :: OrderType
  ac_TimeInForce :: TimeInForce
  ac_Price :: "'d amount"
  ac_Qty :: "'d amount"
  ac_QuoteQty :: "'d amount"

record 'd Trade =
  tr_Seq :: u64
  tr_Index :: int
  tr_MakerOrderID :: OrderID
  tr_TakerOrderID :: OrderID
  tr_MakerAccountID :: AccountID
  tr_TakerAccountID :: AccountID
  tr_TakerSide :: Side
  tr_Price :: "'d amount"
  tr_Qty :: "'d amount"
  tr_QuoteQty :: "'d amount"
  tr_MakerRemaining :: "'d amount"

record 'd Updated =
  up_Seq :: u64
  up_OrderID :: OrderID
  up_AccountID :: AccountID
  up_FilledQty :: "'d amount"
  up_FilledQuote :: "'d amount"
  up_RemainingQty :: "'d amount"

record 'd Filled =
  fi_Seq :: u64
  fi_OrderID :: OrderID
  fi_AccountID :: AccountID
  fi_FilledQty :: "'d amount"
  fi_FilledQuote :: "'d amount"

record 'd Cancelled =
  cn_Seq :: u64
  cn_OrderID :: OrderID
  cn_AccountID :: AccountID
  cn_Reason :: CancelReason
  cn_FilledQty :: "'d amount"
  cn_FilledQuote :: "'d amount"
  cn_RemainingQty :: "'d amount"
  cn_RemainingQuote :: "'d amount"

record Rejected =
  rj_Seq :: u64
  rj_OrderID :: OrderID
  rj_AccountID :: AccountID
  rj_Reason :: RejectReason

record CancelRejected =
  cr_Seq :: u64
  cr_OrderID :: OrderID
  cr_Reason :: CancelRejectReason

datatype 'd Event =
    EvAccepted "'d Accepted"
  | EvTrade "'d Trade"
  | EvUpdated "'d Updated"
  | EvFilled "'d Filled"
  | EvCancelled "'d Cancelled"
  | EvRejected Rejected
  | EvCancelRejected CancelRejected

definition Event_Kind :: "'d Event \<Rightarrow> string" where
  "Event_Kind e = (case e of
       EvAccepted _ \<Rightarrow> ''accepted'' | EvTrade _ \<Rightarrow> ''trade'' | EvUpdated _ \<Rightarrow> ''updated''
     | EvFilled _ \<Rightarrow> ''filled'' | EvCancelled _ \<Rightarrow> ''cancelled'' | EvRejected _ \<Rightarrow> ''rejected''
     | EvCancelRejected _ \<Rightarrow> ''cancel_rejected'')"

definition CommandSeq :: "'d Event \<Rightarrow> u64" where
  "CommandSeq e = (case e of
       EvAccepted a \<Rightarrow> ac_Seq a | EvTrade t \<Rightarrow> tr_Seq t | EvUpdated u \<Rightarrow> up_Seq u
     | EvFilled f \<Rightarrow> fi_Seq f | EvCancelled c \<Rightarrow> cn_Seq c | EvRejected r \<Rightarrow> rj_Seq r
     | EvCancelRejected r \<Rightarrow> cr_Seq r)"

end
