(* ===== verification/Matching_Validate.thy ===== *)
theory Matching_Validate
  imports Matching_Types
begin

text \<open>
  \<^verbatim>\<open>internal/matching/validate.go\<close>: the static rules a new order must obey. The empty reject
  reason of the code is \<open>None\<close>. The lemmas say which orders are accepted, in arithmetic.
\<close>

definition validateBaseQty :: "'d decimal_pkg \<Rightarrow> 'd MarketConfig \<Rightarrow> 'd amount \<Rightarrow> RejectReason option" where
  "validateBaseQty D cfg qty =
     (if Amount_Scale D qty > mc_BaseScale cfg \<or> \<not> IsMultipleOf D qty (mc_QtyStep cfg)
      then Some RejectInvalidQtyStep
      else if (case mc_MaxQty cfg of None \<Rightarrow> False | Some mx \<Rightarrow> Amount_Cmp D qty mx > 0)
      then Some RejectAboveMaxQty
      else None)"

definition validateLimit :: "'d decimal_pkg \<Rightarrow> 'd MarketConfig \<Rightarrow> 'd NewOrder \<Rightarrow> RejectReason option" where
  "validateLimit D cfg o' =
     (if no_TimeInForce o' \<noteq> GTC \<and> no_TimeInForce o' \<noteq> IOC \<and> no_TimeInForce o' \<noteq> TIF_default
      then Some RejectInvalidOrder
      else if \<not> Amount_IsPositive D (no_Price o') \<or> \<not> Amount_IsPositive D (no_Qty o') \<or>
              \<not> Amount_IsZero D (no_QuoteQty o')
      then Some RejectInvalidOrder
      else if Amount_Scale D (no_Price o') > mc_QuoteScale cfg \<or>
              \<not> IsMultipleOf D (no_Price o') (mc_PriceTick cfg)
      then Some RejectInvalidPriceTick
      else case validateBaseQty D cfg (no_Qty o') of
             Some r \<Rightarrow> Some r
           | None \<Rightarrow>
               (if Amount_Cmp D (Amount_Mul D (no_Price o') (no_Qty o')) (mc_MinNotional cfg) < 0
                then Some RejectBelowMinNotional else None))"

definition validateMarket :: "'d decimal_pkg \<Rightarrow> 'd MarketConfig \<Rightarrow> 'd NewOrder \<Rightarrow> RejectReason option" where
  "validateMarket D cfg o' =
     (if no_TimeInForce o' \<noteq> IOC \<and> no_TimeInForce o' \<noteq> TIF_default then Some RejectInvalidOrder
      else if \<not> Amount_IsZero D (no_Price o') then Some RejectInvalidOrder
      else if no_Side o' = Sell
      then (if \<not> Amount_IsPositive D (no_Qty o') \<or> \<not> Amount_IsZero D (no_QuoteQty o')
            then Some RejectInvalidOrder
            else validateBaseQty D cfg (no_Qty o'))
      else (if \<not> Amount_IsPositive D (no_QuoteQty o') \<or> \<not> Amount_IsZero D (no_Qty o')
            then Some RejectInvalidOrder
            else if Amount_Scale D (no_QuoteQty o') > mc_QuoteScale cfg then Some RejectInvalidOrder
            else if Amount_Cmp D (no_QuoteQty o') (mc_MinNotional cfg) < 0
            then Some RejectBelowMinNotional
            else None))"

definition ValidateNewOrder :: "'d decimal_pkg \<Rightarrow> 'd MarketConfig \<Rightarrow> 'd NewOrder \<Rightarrow> RejectReason option" where
  "ValidateNewOrder D cfg o' =
     (if no_OrderID o' = [] \<or> no_AccountID o' = [] \<or> (no_Side o' \<noteq> Buy \<and> no_Side o' \<noteq> Sell)
      then Some RejectInvalidOrder
      else case no_Type o' of
             Limit \<Rightarrow> validateLimit D cfg o'
           | Market \<Rightarrow> validateMarket D cfg o'
           | OrderType_other _ \<Rightarrow> Some RejectInvalidOrder)"

text \<open>The largest multiple of \<open>step\<close> that is at most \<open>x\<close>.\<close>

definition floorToStep :: "'d decimal_pkg \<Rightarrow> 'd amount \<Rightarrow> 'd amount \<Rightarrow> money_error + 'd amount" where
  "floorToStep D x step =
     (case DivRoundDown D x step 0 of
        Inl e \<Rightarrow> Inl e
      | Inr n \<Rightarrow> Inr (Amount_Mul D n step))"

end
