(* ===== verification/Matching_Book.thy ===== *)
theory Matching_Book
  imports Matching_Validate "HOL-Library.Mapping" "HOL-Library.AList_Mapping"
begin

text \<open>
  \<^verbatim>\<open>internal/matching/book.go\<close>: the order book as the code keeps it. The orders the code
  shares by pointer live in one store, the book's map \<open>bk_byID\<close>; a price level holds the ids
  of its orders in arrival order, which is what the code's slice of pointers is as long as an
  id stands for one order. An order's pointer to its level is the level's key in its side's
  map; nil is \<open>None\<close>. A nil pointer or a missing element ends in \<open>Inl Panic\<close> or \<open>None\<close>; the
  invariant of \<open>Matching_Spec\<close> excludes both.
\<close>

section \<open>State\<close>

record 'd order = "'d RestingOrder" +
  o_level :: "string option"

record 'd level =
  lvl_price :: "'d amount"
  lvl_orders :: "OrderID list"
  lvl_qty :: "'d amount"

record 'd bookSide =
  bs_side :: Side
  bs_tickScale :: int
  bs_levels :: "(string, 'd level) mapping"
  bs_prices :: "'d amount list"
  bs_count :: int

record 'd Book =
  bk_cfg :: "'d MarketConfig"
  bk_tickScale :: int
  bk_bids :: "'d bookSide"
  bk_asks :: "'d bookSide"
  bk_byID :: "(OrderID, 'd order) mapping"
  bk_lastSeq :: u64

section \<open>One side\<close>

definition side_key :: "'d decimal_pkg \<Rightarrow> 'd bookSide \<Rightarrow> 'd amount \<Rightarrow> string" where
  "side_key D s p = Amount_StringFixed D p (bs_tickScale s)"

definition better :: "'d decimal_pkg \<Rightarrow> 'd bookSide \<Rightarrow> 'd amount \<Rightarrow> 'd amount \<Rightarrow> bool" where
  "better D s a b =
     (if bs_side s = Buy then Amount_Cmp D a b > 0 else Amount_Cmp D a b < 0)"

text \<open>The best level, with the key that stands for the code's pointer to it.\<close>

definition side_best :: "'d decimal_pkg \<Rightarrow> 'd bookSide \<Rightarrow> (string \<times> 'd level) option" where
  "side_best D s =
     (case bs_prices s of
        [] \<Rightarrow> None
      | p # _ \<Rightarrow> map_option (Pair (side_key D s p)) (Mapping.lookup (bs_levels s) (side_key D s p)))"

definition side_bestPrice :: "'d bookSide \<Rightarrow> 'd amount option" where
  "side_bestPrice s = (case bs_prices s of [] \<Rightarrow> None | p # _ \<Rightarrow> Some p)"

text \<open>The side with the order in it, and the order with its level pointer set.\<close>

definition side_insert :: "'d decimal_pkg \<Rightarrow> 'd bookSide \<Rightarrow> 'd order \<Rightarrow> 'd bookSide \<times> 'd order" where
  "side_insert D s o' =
     (let k = side_key D s (ro_Price o');
          (lvl, s1) =
            (case Mapping.lookup (bs_levels s) k of
               Some lvl \<Rightarrow> (lvl, s)
             | None \<Rightarrow>
                 (let lvl = \<lparr>lvl_price = ro_Price o', lvl_orders = [], lvl_qty = Zero D\<rparr>;
                      i = sort_search (length (bs_prices s))
                            (\<lambda>i. better D s (ro_Price o') (bs_prices s ! i))
                  in (lvl, s\<lparr>bs_prices := slice_insert i (ro_Price o') (bs_prices s)\<rparr>)));
          lvl' = lvl\<lparr>lvl_orders := lvl_orders lvl @ [ro_OrderID o'],
                     lvl_qty := Amount_Add D (lvl_qty lvl) (ro_Remaining o')\<rparr>
      in (s1\<lparr>bs_levels := Mapping.update k lvl' (bs_levels s1), bs_count := bs_count s1 + 1\<rparr>,
          o'\<lparr>o_level := Some k\<rparr>))"

definition dropLevel :: "'d decimal_pkg \<Rightarrow> 'd bookSide \<Rightarrow> 'd level \<Rightarrow> 'd bookSide" where
  "dropLevel D s lvl =
     (let ps = bs_prices s;
          i = sort_search (length ps) (\<lambda>i. \<not> better D s (ps ! i) (lvl_price lvl))
      in s\<lparr>bs_levels := Mapping.delete (side_key D s (lvl_price lvl)) (bs_levels s),
           bs_prices := (if i < length ps \<and> Amount_Equal D (ps ! i) (lvl_price lvl)
                         then slice_delete i ps else ps)\<rparr>)"

text \<open>A level after one of its orders has left: dropped when it was the last one.\<close>

definition put_level :: "'d decimal_pkg \<Rightarrow> 'd bookSide \<Rightarrow> string \<Rightarrow> 'd level \<Rightarrow> 'd bookSide" where
  "put_level D s k lvl =
     (let s1 = s\<lparr>bs_levels := Mapping.update k lvl (bs_levels s), bs_count := bs_count s - 1\<rparr>
      in if lvl_orders lvl = [] then dropLevel D s1 lvl else s1)"

definition side_remove :: "'d decimal_pkg \<Rightarrow> 'd bookSide \<Rightarrow> 'd order \<Rightarrow> match_error + 'd bookSide" where
  "side_remove D s o' =
     (case o_level o' of
        None \<Rightarrow> Inl Panic
      | Some k \<Rightarrow>
          (case Mapping.lookup (bs_levels s) k of
             None \<Rightarrow> Inl Panic
           | Some lvl \<Rightarrow>
               Inr (put_level D s k
                      (lvl\<lparr>lvl_orders := remove1 (ro_OrderID o') (lvl_orders lvl),
                           lvl_qty := Amount_Sub D (lvl_qty lvl) (ro_Remaining o')\<rparr>))))"

text \<open>The first order of the level with key \<open>k\<close> leaves after it filled.\<close>

definition popHead :: "'d decimal_pkg \<Rightarrow> 'd bookSide \<Rightarrow> string \<Rightarrow> match_error + 'd bookSide" where
  "popHead D s k =
     (case Mapping.lookup (bs_levels s) k of
        None \<Rightarrow> Inl Panic
      | Some lvl \<Rightarrow>
          (case lvl_orders lvl of
             [] \<Rightarrow> Inl Panic
           | _ # rest \<Rightarrow> Inr (put_level D s k (lvl\<lparr>lvl_orders := rest\<rparr>))))"

text \<open>The orders of a side, best level first, read through the store.\<close>

definition level_resting :: "(OrderID, 'd order) mapping \<Rightarrow> 'd level \<Rightarrow> 'd RestingOrder list option" where
  "level_resting st lvl =
     those (map (\<lambda>i. map_option RestingOrder.truncate (Mapping.lookup st i)) (lvl_orders lvl))"

definition side_orders ::
    "'d decimal_pkg \<Rightarrow> (OrderID, 'd order) mapping \<Rightarrow> 'd bookSide \<Rightarrow> 'd RestingOrder list option" where
  "side_orders D st s =
     map_option concat
       (those (map (\<lambda>p. Option.bind (Mapping.lookup (bs_levels s) (side_key D s p)) (level_resting st))
                   (bs_prices s)))"

definition side_depth :: "'d decimal_pkg \<Rightarrow> 'd bookSide \<Rightarrow> int \<Rightarrow> 'd Level list option" where
  "side_depth D s n =
     (let m = (if n \<le> 0 \<or> n > int (length (bs_prices s)) then length (bs_prices s) else nat n)
      in those (map (\<lambda>p. map_option
                       (\<lambda>lvl. \<lparr>lv_Price = lvl_price lvl, lv_Qty = lvl_qty lvl,
                               lv_Orders = int (length (lvl_orders lvl))\<rparr>)
                       (Mapping.lookup (bs_levels s) (side_key D s p)))
                    (take m (bs_prices s))))"

section \<open>The book\<close>

definition New :: "'d decimal_pkg \<Rightarrow> 'd MarketConfig \<Rightarrow> match_error + 'd Book" where
  "New D cfg =
     (case MarketConfig_Validate D cfg of
        Some e \<Rightarrow> Inl e
      | None \<Rightarrow>
          (let ts = Amount_Scale D (mc_PriceTick cfg)
           in Inr \<lparr>bk_cfg = cfg, bk_tickScale = ts,
                   bk_bids = \<lparr>bs_side = Buy, bs_tickScale = ts, bs_levels = Mapping.empty,
                              bs_prices = [], bs_count = 0\<rparr>,
                   bk_asks = \<lparr>bs_side = Sell, bs_tickScale = ts, bs_levels = Mapping.empty,
                              bs_prices = [], bs_count = 0\<rparr>,
                   bk_byID = Mapping.empty, bk_lastSeq = 0\<rparr>))"

definition Advance :: "'d Book \<Rightarrow> u64 \<Rightarrow> match_error + 'd Book" where
  "Advance b seq =
     (if seq \<noteq> bk_lastSeq b + 1 then Inl ErrSeqNotIncreasing else Inr (b\<lparr>bk_lastSeq := seq\<rparr>))"

definition Len :: "'d Book \<Rightarrow> nat" where
  "Len b = Mapping.size (bk_byID b)"

definition Book_Order :: "'d Book \<Rightarrow> OrderID \<Rightarrow> 'd RestingOrder option" where
  "Book_Order b i = map_option RestingOrder.truncate (Mapping.lookup (bk_byID b) i)"

definition BestBid :: "'d Book \<Rightarrow> 'd amount option" where
  "BestBid b = side_bestPrice (bk_bids b)"

definition BestAsk :: "'d Book \<Rightarrow> 'd amount option" where
  "BestAsk b = side_bestPrice (bk_asks b)"

definition sideOf :: "'d Book \<Rightarrow> Side \<Rightarrow> 'd bookSide" where
  "sideOf b s = (if s = Buy then bk_bids b else bk_asks b)"

text \<open>The book with the side \<open>sideOf b s\<close> points to replaced.\<close>

definition set_side :: "'d Book \<Rightarrow> Side \<Rightarrow> 'd bookSide \<Rightarrow> 'd Book" where
  "set_side b s bs = (if s = Buy then b\<lparr>bk_bids := bs\<rparr> else b\<lparr>bk_asks := bs\<rparr>)"

text \<open>An order is put on its side and into the index.\<close>

definition rest_order :: "'d decimal_pkg \<Rightarrow> 'd Book \<Rightarrow> 'd RestingOrder \<Rightarrow> 'd Book" where
  "rest_order D b r =
     (let (s, o') = side_insert D (sideOf b (ro_Side r)) (RestingOrder.extend r (order.fields None));
          b1 = set_side b (ro_Side r) s
      in b1\<lparr>bk_byID := Mapping.update (ro_OrderID r) o' (bk_byID b1)\<rparr>)"

definition Book_remove :: "'d decimal_pkg \<Rightarrow> 'd Book \<Rightarrow> 'd order \<Rightarrow> match_error + 'd Book" where
  "Book_remove D b o' =
     (case side_remove D (sideOf b (ro_Side o')) o' of
        Inl e \<Rightarrow> Inl e
      | Inr s \<Rightarrow>
          (let b1 = set_side b (ro_Side o') s
           in Inr (b1\<lparr>bk_byID := Mapping.delete (ro_OrderID o') (bk_byID b1)\<rparr>)))"

definition validateResting :: "'d decimal_pkg \<Rightarrow> 'd MarketConfig \<Rightarrow> 'd RestingOrder \<Rightarrow> match_error option" where
  "validateResting D cfg r =
     (if ro_OrderID r = [] \<or> ro_AccountID r = [] then Some ErrInvalidResting
      else if ro_Side r \<noteq> Buy \<and> ro_Side r \<noteq> Sell then Some ErrInvalidResting
      else if \<not> Amount_IsPositive D (ro_Price r) \<or> \<not> IsMultipleOf D (ro_Price r) (mc_PriceTick cfg)
      then Some ErrInvalidResting
      else if \<not> Amount_IsPositive D (ro_Remaining r) \<or> \<not> IsMultipleOf D (ro_Remaining r) (mc_QtyStep cfg)
      then Some ErrInvalidResting
      else if \<not> Amount_Equal D (ro_Qty r) (Amount_Add D (ro_Remaining r) (ro_FilledQty r))
      then Some ErrInvalidResting
      else if Amount_IsNegative D (ro_FilledQty r) \<or> Amount_IsNegative D (ro_FilledQuote r)
      then Some ErrInvalidResting
      else None)"

fun restore_loop :: "'d decimal_pkg \<Rightarrow> 'd Book \<Rightarrow> 'd RestingOrder list \<Rightarrow> match_error + 'd Book" where
  "restore_loop D b [] = Inr b"
| "restore_loop D b (r # rs) =
     (case validateResting D (bk_cfg b) r of
        Some e \<Rightarrow> Inl e
      | None \<Rightarrow>
          (if Mapping.lookup (bk_byID b) (ro_OrderID r) \<noteq> None then Inl ErrDuplicateOrderID
           else
             let b1 = rest_order D b r;
                 b2 = (if ro_Seq r > bk_lastSeq b1 then b1\<lparr>bk_lastSeq := ro_Seq r\<rparr> else b1)
             in restore_loop D b2 rs))"

text \<open>\<^verbatim>\<open>sort.SliceStable\<close> on the sequence numbers is the stable sort \<open>sort_key\<close>.\<close>

definition Restore :: "'d decimal_pkg \<Rightarrow> 'd Book \<Rightarrow> u64 \<Rightarrow> 'd RestingOrder list \<Rightarrow> match_error + 'd Book" where
  "Restore D b lastSeq orders =
     (if Mapping.size (bk_byID b) \<noteq> 0 \<or> bk_lastSeq b \<noteq> 0 then Inl ErrInvalidResting
      else restore_loop D (b\<lparr>bk_lastSeq := lastSeq\<rparr>) (sort_key ro_Seq orders))"

definition Book_Snapshot :: "'d decimal_pkg \<Rightarrow> 'd Book \<Rightarrow> 'd Snapshot option" where
  "Book_Snapshot D b =
     (case (side_orders D (bk_byID b) (bk_bids b), side_orders D (bk_byID b) (bk_asks b)) of
        (Some bids, Some asks) \<Rightarrow>
          Some \<lparr>sn_Symbol = mc_Symbol (bk_cfg b), sn_LastSeq = bk_lastSeq b, sn_Bids = bids, sn_Asks = asks\<rparr>
      | _ \<Rightarrow> None)"

definition Book_Depth :: "'d decimal_pkg \<Rightarrow> 'd Book \<Rightarrow> int \<Rightarrow> 'd Depth option" where
  "Book_Depth D b n =
     (case (side_depth D (bk_bids b) n, side_depth D (bk_asks b) n) of
        (Some bids, Some asks) \<Rightarrow>
          Some \<lparr>dp_Symbol = mc_Symbol (bk_cfg b), dp_LastSeq = bk_lastSeq b, dp_Bids = bids, dp_Asks = asks\<rparr>
      | _ \<Rightarrow> None)"

end
