(* ===== verification/Matching_Apply.thy ===== *)
theory Matching_Apply
  imports Matching_Book
begin

text \<open>
  \<^verbatim>\<open>internal/matching/apply.go\<close> and \<^verbatim>\<open>Run\<close> of script.go: one command changes the book and
  yields its events. The two nested loops of \<^verbatim>\<open>match\<close> are two partial functions, so a loop that
  does not return is \<open>None\<close>; \<open>Matching_Fill\<close> shows that they return. An operation that fails
  returns the book as it was left at that point beside the error.
\<close>

section \<open>The incoming order while it matches\<close>

record 'd taker =
  tk_o :: "'d NewOrder"
  tk_remaining :: "'d amount"
  tk_quoteRem :: "'d amount"
  tk_filledQty :: "'d amount"
  tk_filledQuote :: "'d amount"
  tk_stop :: "CancelReason option"

definition marketBuy :: "'d taker \<Rightarrow> bool" where
  "marketBuy t \<longleftrightarrow> no_Type (tk_o t) = Market \<and> no_Side (tk_o t) = Buy"

definition exhausted :: "'d decimal_pkg \<Rightarrow> 'd taker \<Rightarrow> bool" where
  "exhausted D t =
     (if marketBuy t then Amount_IsZero D (tk_quoteRem t) else Amount_IsZero D (tk_remaining t))"

definition crosses :: "'d decimal_pkg \<Rightarrow> Side \<Rightarrow> 'd amount \<Rightarrow> 'd amount \<Rightarrow> bool" where
  "crosses D side limit price =
     (if side = Buy then Amount_Cmp D price limit \<le> 0 else Amount_Cmp D price limit \<ge> 0)"

definition outsideBand :: "'d decimal_pkg \<Rightarrow> Side \<Rightarrow> 'd amount \<Rightarrow> 'd amount \<Rightarrow> bool" where
  "outsideBand D side bound price =
     (if side = Buy then Amount_Cmp D price bound > 0 else Amount_Cmp D price bound < 0)"

definition slippageBound :: "'d decimal_pkg \<Rightarrow> 'd amount \<Rightarrow> int \<Rightarrow> Side \<Rightarrow> money_error + 'd amount" where
  "slippageBound D best bps side =
     (let factor = (if side = Sell then 10000 - bps else 10000 + bps)
      in DivRoundDown D (Amount_Mul D best (FromInt64 D factor)) (FromInt64 D 10000) MaxScale)"

definition quotient :: "'d decimal_pkg \<Rightarrow> 'd amount \<Rightarrow> 'd amount \<Rightarrow> 'd amount" where
  "quotient D quote price =
     (case DivRoundDown D quote price MaxScale of Inl _ \<Rightarrow> Zero D | Inr q \<Rightarrow> q)"

definition cancelledEvent :: "'d decimal_pkg \<Rightarrow> u64 \<Rightarrow> 'd taker \<Rightarrow> CancelReason \<Rightarrow> 'd Cancelled" where
  "cancelledEvent D seq t reason =
     (let ev = \<lparr>cn_Seq = seq, cn_OrderID = no_OrderID (tk_o t), cn_AccountID = no_AccountID (tk_o t),
                cn_Reason = reason, cn_FilledQty = tk_filledQty t, cn_FilledQuote = tk_filledQuote t,
                cn_RemainingQty = tk_remaining t, cn_RemainingQuote = Zero D\<rparr>
      in if marketBuy t then ev\<lparr>cn_RemainingQty := Zero D, cn_RemainingQuote := tk_quoteRem t\<rparr> else ev)"

section \<open>The matching loops\<close>

text \<open>The state the loops of \<^verbatim>\<open>match\<close> change: the book, the taker, the events, the trade index.\<close>

record 'd mstate =
  ms_book :: "'d Book"
  ms_taker :: "'d taker"
  ms_events :: "'d Event list"
  ms_idx :: int

text \<open>How a loop or one turn of it ends: it goes on, \<open>stopped\<close> is set, or an error is returned.\<close>

datatype outcome = Continue | Stopped | Failed match_error

text \<open>The quantity the taker can still take at a price, before the maker limits it.\<close>

definition takerQty :: "'d decimal_pkg \<Rightarrow> 'd MarketConfig \<Rightarrow> 'd taker \<Rightarrow> 'd amount \<Rightarrow> match_error + 'd amount" where
  "takerQty D cfg t price =
     (if marketBuy t
      then (case floorToStep D (quotient D (tk_quoteRem t) price) (mc_QtyStep cfg) of
              Inl e \<Rightarrow> Inl (errMoney e) | Inr q \<Rightarrow> Inr q)
      else Inr (tk_remaining t))"

text \<open>Both sides of a fill after \<open>qty\<close> has traded for \<open>quote\<close>.\<close>

definition maker_fill :: "'d decimal_pkg \<Rightarrow> 'd amount \<Rightarrow> 'd amount \<Rightarrow> ('d, 'z) RestingOrder_scheme \<Rightarrow> ('d, 'z) RestingOrder_scheme" where
  "maker_fill D qty quote m =
     m\<lparr>ro_Remaining := Amount_Sub D (ro_Remaining m) qty,
       ro_FilledQty := Amount_Add D (ro_FilledQty m) qty,
       ro_FilledQuote := Amount_Add D (ro_FilledQuote m) quote\<rparr>"

definition taker_fill :: "'d decimal_pkg \<Rightarrow> 'd amount \<Rightarrow> 'd amount \<Rightarrow> 'd taker \<Rightarrow> 'd taker" where
  "taker_fill D qty quote t =
     (let t1 = t\<lparr>tk_filledQty := Amount_Add D (tk_filledQty t) qty,
                 tk_filledQuote := Amount_Add D (tk_filledQuote t) quote\<rparr>
      in if marketBuy t then t1\<lparr>tk_quoteRem := Amount_Sub D (tk_quoteRem t) quote\<rparr>
         else t1\<lparr>tk_remaining := Amount_Sub D (tk_remaining t) qty\<rparr>)"

text \<open>The trade between the taker and the maker as it is after the fill, and what it tells the maker.\<close>

definition trade_event :: "u64 \<Rightarrow> int \<Rightarrow> 'd NewOrder \<Rightarrow> 'd amount \<Rightarrow> 'd amount \<Rightarrow> 'd amount \<Rightarrow>
    ('d, 'z) RestingOrder_scheme \<Rightarrow> 'd Event" where
  "trade_event seq idx o' price qty quote m =
     EvTrade \<lparr>tr_Seq = seq, tr_Index = idx, tr_MakerOrderID = ro_OrderID m, tr_TakerOrderID = no_OrderID o',
              tr_MakerAccountID = ro_AccountID m, tr_TakerAccountID = no_AccountID o',
              tr_TakerSide = no_Side o', tr_Price = price, tr_Qty = qty, tr_QuoteQty = quote,
              tr_MakerRemaining = ro_Remaining m\<rparr>"

definition maker_event :: "'d decimal_pkg \<Rightarrow> u64 \<Rightarrow> ('d, 'z) RestingOrder_scheme \<Rightarrow> 'd Event" where
  "maker_event D seq m =
     (if Amount_IsZero D (ro_Remaining m)
      then EvFilled \<lparr>fi_Seq = seq, fi_OrderID = ro_OrderID m, fi_AccountID = ro_AccountID m,
                     fi_FilledQty = ro_FilledQty m, fi_FilledQuote = ro_FilledQuote m\<rparr>
      else EvUpdated \<lparr>up_Seq = seq, up_OrderID = ro_OrderID m, up_AccountID = ro_AccountID m,
                      up_FilledQty = ro_FilledQty m, up_FilledQuote = ro_FilledQuote m,
                      up_RemainingQty = ro_Remaining m\<rparr>)"

text \<open>
  The fill of \<open>qty\<close> for \<open>quote\<close> against the first order \<open>m\<close> of the level with key \<open>k\<close>: the
  maker, its level and the taker are updated, and a filled maker leaves the index and the level.
\<close>

definition fill :: "'d decimal_pkg \<Rightarrow> u64 \<Rightarrow> Side \<Rightarrow> string \<Rightarrow> 'd level \<Rightarrow> 'd order \<Rightarrow>
    'd amount \<Rightarrow> 'd amount \<Rightarrow> 'd mstate \<Rightarrow> 'd mstate \<times> outcome" where
  "fill D seq opp k lvl m qty quote st =
     (let b = ms_book st; t = ms_taker st; o' = tk_o t;
          m1 = maker_fill D qty quote m;
          s1 = (sideOf b opp)\<lparr>bs_levels := Mapping.update k (lvl\<lparr>lvl_qty := Amount_Sub D (lvl_qty lvl) qty\<rparr>)
                                             (bs_levels (sideOf b opp))\<rparr>;
          b1 = (set_side b opp s1)\<lparr>bk_byID := Mapping.update (ro_OrderID m) m1 (bk_byID b)\<rparr>;
          st1 = st\<lparr>ms_book := b1, ms_taker := taker_fill D qty quote t,
                   ms_events := ms_events st
                     @ [trade_event seq (ms_idx st) o' (lvl_price lvl) qty quote m1, maker_event D seq m1],
                   ms_idx := ms_idx st + 1\<rparr>
      in if Amount_IsZero D (ro_Remaining m1)
         then (let b2 = b1\<lparr>bk_byID := Mapping.delete (ro_OrderID m) (bk_byID b1)\<rparr>
               in case popHead D (sideOf b2 opp) k of
                    Inl e \<Rightarrow> (st1\<lparr>ms_book := b2\<rparr>, Failed e)
                  | Inr s2 \<Rightarrow> (st1\<lparr>ms_book := set_side b2 opp s2\<rparr>, Continue))
         else (st1, Continue))"

text \<open>One turn of the inner loop, for the first order \<open>m\<close> of the level.\<close>

definition match_order :: "'d decimal_pkg \<Rightarrow> u64 \<Rightarrow> Side \<Rightarrow> string \<Rightarrow> 'd level \<Rightarrow> 'd order \<Rightarrow>
    'd mstate \<Rightarrow> 'd mstate \<times> outcome" where
  "match_order D seq opp k lvl m st =
     (let t = ms_taker st; cfg = bk_cfg (ms_book st)
      in if ro_AccountID m = no_AccountID (tk_o t) \<and> mc_SelfTradePolicy cfg = STPCancelNewest
         then (st\<lparr>ms_taker := t\<lparr>tk_stop := Some CancelSelfTrade\<rparr>\<rparr>, Stopped)
         else case takerQty D cfg t (lvl_price lvl) of
                Inl e \<Rightarrow> (st, Failed e)
              | Inr q \<Rightarrow>
                  (if marketBuy t \<and> Amount_IsZero D q then (st, Stopped)
                   else
                     let qty = (if Amount_Cmp D (ro_Remaining m) q < 0 then ro_Remaining m else q);
                         quote = Amount_Mul D (lvl_price lvl) qty
                     in if Amount_Scale D quote > mc_QuoteScale cfg then (st, Failed errInternalPrecision)
                        else fill D seq opp k lvl m qty quote st))"

text \<open>
  The inner loop: the level is the one with key \<open>k\<close>; once it has been dropped the code sees its
  empty slice.
\<close>

partial_function (option) match_level ::
    "'d decimal_pkg \<Rightarrow> u64 \<Rightarrow> Side \<Rightarrow> string \<Rightarrow> 'd mstate \<Rightarrow> ('d mstate \<times> outcome) option" where
  "match_level D seq opp k st =
     (case Mapping.lookup (bs_levels (sideOf (ms_book st) opp)) k of
        None \<Rightarrow> Some (st, Continue)
      | Some lvl \<Rightarrow>
          (case lvl_orders lvl of
             [] \<Rightarrow> Some (st, Continue)
           | i # _ \<Rightarrow>
               (if exhausted D (ms_taker st) then Some (st, Continue)
                else case Mapping.lookup (bk_byID (ms_book st)) i of
                       None \<Rightarrow> Some (st, Failed Panic)
                     | Some m \<Rightarrow>
                         (case match_order D seq opp k lvl m st of
                            (st', out) \<Rightarrow>
                              if out = Continue then match_level D seq opp k st' else Some (st', out)))))"

text \<open>The outer loop over the levels, best first.\<close>

partial_function (option) match_loop ::
    "'d decimal_pkg \<Rightarrow> u64 \<Rightarrow> Side \<Rightarrow> 'd amount option \<Rightarrow> 'd mstate \<Rightarrow> ('d mstate \<times> outcome) option" where
  "match_loop D seq opp band st =
     (let t = ms_taker st; o' = tk_o t
      in if exhausted D t then Some (st, Continue)
         else case side_best D (sideOf (ms_book st) opp) of
                None \<Rightarrow> Some (st, Continue)
              | Some (k, lvl) \<Rightarrow>
                  (if no_Type o' = Limit \<and> \<not> crosses D (no_Side o') (no_Price o') (lvl_price lvl)
                   then Some (st, Continue)
                   else if (case band of None \<Rightarrow> False | Some bd \<Rightarrow> outsideBand D (no_Side o') bd (lvl_price lvl))
                   then Some (st\<lparr>ms_taker := t\<lparr>tk_stop := Some CancelPriceProtection\<rparr>\<rparr>, Continue)
                   else Option.bind (match_level D seq opp k st)
                          (\<lambda>(st', out). if out = Continue then match_loop D seq opp band st'
                                        else Some (st', out))))"

declare match_level.simps [code] match_loop.simps [code]

section \<open>Commands\<close>

text \<open>An operation's result: the book as it is left, and the error or the events.\<close>

type_synonym 'd result = "'d Book \<times> (match_error + 'd Event list)"

definition rejected :: "u64 \<Rightarrow> 'd NewOrder \<Rightarrow> RejectReason \<Rightarrow> 'd Event list" where
  "rejected seq o' r =
     [EvRejected \<lparr>rj_Seq = seq, rj_OrderID = no_OrderID o', rj_AccountID = no_AccountID o', rj_Reason = r\<rparr>]"

definition default_tif :: "'d NewOrder \<Rightarrow> 'd NewOrder" where
  "default_tif o' =
     (if no_Type o' = Market then o'\<lparr>no_TimeInForce := IOC\<rparr>
      else if no_TimeInForce o' = TIF_default then o'\<lparr>no_TimeInForce := GTC\<rparr> else o')"

definition new_taker :: "'d decimal_pkg \<Rightarrow> 'd NewOrder \<Rightarrow> 'd taker" where
  "new_taker D o' = \<lparr>tk_o = o', tk_remaining = no_Qty o', tk_quoteRem = no_QuoteQty o',
     tk_filledQty = Zero D, tk_filledQuote = Zero D, tk_stop = None\<rparr>"

definition accepted_event :: "u64 \<Rightarrow> 'd NewOrder \<Rightarrow> 'd Event" where
  "accepted_event seq o' =
     EvAccepted \<lparr>ac_Seq = seq, ac_OrderID = no_OrderID o', ac_AccountID = no_AccountID o',
                 ac_Side = no_Side o', ac_Type = no_Type o', ac_TimeInForce = no_TimeInForce o',
                 ac_Price = no_Price o', ac_Qty = no_Qty o', ac_QuoteQty = no_QuoteQty o'\<rparr>"

text \<open>
  The checks a market order passes before it is accepted: an error, a rejection, or the
  slippage bound if the market has one.
\<close>

datatype 'd precheck = PreError match_error | PreReject RejectReason | PreOk "'d amount option"

definition market_precheck :: "'d decimal_pkg \<Rightarrow> 'd Book \<Rightarrow> 'd taker \<Rightarrow> 'd precheck" where
  "market_precheck D b t =
     (let o' = tk_o t; cfg = bk_cfg b
      in case side_best D (sideOf b (Side_Opposite (no_Side o'))) of
           None \<Rightarrow> PreReject RejectEmptyBook
         | Some (_, best) \<Rightarrow>
             (let band = (case mc_MaxSlippageBps cfg of
                            None \<Rightarrow> PreOk None
                          | Some bps \<Rightarrow>
                              (case slippageBound D (lvl_price best) bps (no_Side o') of
                                 Inl e \<Rightarrow> PreError (errMoney e) | Inr limit \<Rightarrow> PreOk (Some limit)))
              in if marketBuy t
                 then (case floorToStep D (quotient D (tk_quoteRem t) (lvl_price best)) (mc_QtyStep cfg) of
                         Inl e \<Rightarrow> PreError (errMoney e)
                       | Inr q \<Rightarrow> if Amount_IsZero D q then PreReject RejectQuoteQtyTooSmall else band)
                 else band))"

text \<open>What is left of a limit order when it goes to rest.\<close>

definition resting_of :: "'d Command \<Rightarrow> 'd taker \<Rightarrow> 'd RestingOrder" where
  "resting_of cmd t =
     \<lparr>ro_OrderID = no_OrderID (tk_o t), ro_AccountID = no_AccountID (tk_o t), ro_Side = no_Side (tk_o t),
      ro_Price = no_Price (tk_o t), ro_Qty = no_Qty (tk_o t), ro_Remaining = tk_remaining t,
      ro_FilledQty = tk_filledQty t, ro_FilledQuote = tk_filledQuote t,
      ro_Seq = cmd_Seq cmd, ro_Timestamp = cmd_Timestamp cmd\<rparr>"

text \<open>The last event of an accepted order and whether its remainder rests.\<close>

definition taker_outcome :: "'d decimal_pkg \<Rightarrow> 'd Command \<Rightarrow> 'd taker \<Rightarrow> bool \<times> 'd Event list" where
  "taker_outcome D cmd t =
     (let o' = tk_o t; seq = cmd_Seq cmd
      in if exhausted D t
         then (False, [EvFilled \<lparr>fi_Seq = seq, fi_OrderID = no_OrderID o', fi_AccountID = no_AccountID o',
                                 fi_FilledQty = tk_filledQty t, fi_FilledQuote = tk_filledQuote t\<rparr>])
         else case tk_stop t of
                Some reason \<Rightarrow> (False, [EvCancelled (cancelledEvent D seq t reason)])
              | None \<Rightarrow>
                  (if no_Type o' = Limit \<and> no_TimeInForce o' = GTC
                   then (True, (if Amount_IsPositive D (tk_filledQty t)
                                then [EvUpdated \<lparr>up_Seq = seq, up_OrderID = no_OrderID o',
                                        up_AccountID = no_AccountID o', up_FilledQty = tk_filledQty t,
                                        up_FilledQuote = tk_filledQuote t, up_RemainingQty = tk_remaining t\<rparr>]
                                else []))
                   else (False, [EvCancelled (cancelledEvent D seq t CancelIOC)])))"

text \<open>The end of \<^verbatim>\<open>applyNew\<close>, after the loops.\<close>

definition conclude_new :: "'d decimal_pkg \<Rightarrow> 'd Command \<Rightarrow> 'd mstate \<times> outcome \<Rightarrow> 'd result" where
  "conclude_new D cmd r =
     (case r of (st, out) \<Rightarrow>
        (case out of
           Failed e \<Rightarrow> (ms_book st, Inl e)
         | _ \<Rightarrow>
             (case taker_outcome D cmd (ms_taker st) of
                (rests, evs) \<Rightarrow>
                  (if rests then rest_order D (ms_book st) (resting_of cmd (ms_taker st)) else ms_book st,
                   Inr (ms_events st @ evs)))))"

definition applyNew :: "'d decimal_pkg \<Rightarrow> 'd Book \<Rightarrow> 'd Command \<Rightarrow> 'd NewOrder \<Rightarrow> 'd result option" where
  "applyNew D b cmd new =
     (let o' = default_tif new; seq = cmd_Seq cmd; opp = Side_Opposite (no_Side o'); t = new_taker D o'
      in case ValidateNewOrder D (bk_cfg b) o' of
           Some reason \<Rightarrow> Some (b, Inr (rejected seq o' reason))
         | None \<Rightarrow>
             (if Mapping.lookup (bk_byID b) (no_OrderID o') \<noteq> None
              then Some (b, Inr (rejected seq o' RejectDuplicateOrderID))
              else case (if no_Type o' = Market then market_precheck D b t else PreOk None) of
                     PreError e \<Rightarrow> Some (b, Inl e)
                   | PreReject reason \<Rightarrow> Some (b, Inr (rejected seq o' reason))
                   | PreOk band \<Rightarrow>
                       map_option (conclude_new D cmd)
                         (match_loop D seq opp band
                            \<lparr>ms_book = b, ms_taker = t, ms_events = [accepted_event seq o'], ms_idx = 0\<rparr>)))"

definition applyCancel :: "'d decimal_pkg \<Rightarrow> 'd Book \<Rightarrow> u64 \<Rightarrow> Cancel \<Rightarrow> 'd result" where
  "applyCancel D b seq c =
     (case Mapping.lookup (bk_byID b) (ca_OrderID c) of
        None \<Rightarrow> (b, Inr [EvCancelRejected \<lparr>cr_Seq = seq, cr_OrderID = ca_OrderID c,
                                          cr_Reason = CancelRejectUnknownOrder\<rparr>])
      | Some o' \<Rightarrow>
          (if ca_AccountID c \<noteq> [] \<and> ca_AccountID c \<noteq> ro_AccountID o'
           then (b, Inr [EvCancelRejected \<lparr>cr_Seq = seq, cr_OrderID = ca_OrderID c,
                                          cr_Reason = CancelRejectNotOwner\<rparr>])
           else case Book_remove D b o' of
                  Inl e \<Rightarrow> (b, Inl e)
                | Inr b1 \<Rightarrow>
                    (b1, Inr [EvCancelled \<lparr>cn_Seq = seq, cn_OrderID = ro_OrderID o', cn_AccountID = ro_AccountID o',
                                cn_Reason = CancelByUser, cn_FilledQty = ro_FilledQty o',
                                cn_FilledQuote = ro_FilledQuote o', cn_RemainingQty = ro_Remaining o',
                                cn_RemainingQuote = Zero D\<rparr>])))"

definition conclude :: "'d Command \<Rightarrow> 'd result \<Rightarrow> 'd result" where
  "conclude cmd r =
     (case snd r of
        Inl e \<Rightarrow> (fst r, Inl e)
      | Inr evs \<Rightarrow> ((fst r)\<lparr>bk_lastSeq := cmd_Seq cmd\<rparr>, Inr evs))"

definition Apply :: "'d decimal_pkg \<Rightarrow> 'd Book \<Rightarrow> 'd Command \<Rightarrow> 'd result option" where
  "Apply D b cmd =
     (if cmd_Seq cmd \<le> bk_lastSeq b then Some (b, Inl ErrSeqNotIncreasing)
      else case (cmd_New cmd, cmd_Cancel cmd) of
             (Some new, None) \<Rightarrow> map_option (conclude cmd) (applyNew D b cmd new)
           | (None, Some c) \<Rightarrow> Some (conclude cmd (applyCancel D b (cmd_Seq cmd) c))
           | _ \<Rightarrow> Some (b, Inl ErrInvalidCommand))"

text \<open>A script's commands on a book: the events of those applied, the book, the error.\<close>

fun run_loop :: "'d decimal_pkg \<Rightarrow> 'd Book \<Rightarrow> 'd Command list \<Rightarrow>
    ('d Event list list \<times> 'd Book \<times> match_error option) option" where
  "run_loop D b [] = Some ([], b, None)"
| "run_loop D b (c # cs) =
     (case Apply D b c of
        None \<Rightarrow> None
      | Some (b1, Inl e) \<Rightarrow> Some ([], b1, Some e)
      | Some (b1, Inr evs) \<Rightarrow>
          (case run_loop D b1 cs of
             None \<Rightarrow> None
           | Some (out, rest) \<Rightarrow> Some (evs # out, rest)))"

record 'd Script =
  sc_Market :: "'d MarketConfig"
  sc_Commands :: "'d Command list"

definition Run :: "'d decimal_pkg \<Rightarrow> 'd Script \<Rightarrow>
    ('d Event list list \<times> 'd Book option \<times> match_error option) option" where
  "Run D s =
     (case New D (sc_Market s) of
        Inl e \<Rightarrow> Some ([], None, Some e)
      | Inr b \<Rightarrow> map_option (\<lambda>(out, b', e). (out, Some b', e)) (run_loop D b (sc_Commands s)))"

end
