(* ===== verification/Matching_Spec.thy ===== *)
theory Matching_Spec
  imports Matching_Apply
begin

text \<open>
  What the order book means. A side is a list of price levels, best price first, each with its
  orders in arrival order; matching is one walk along the flat list of the resting orders
  (\<open>spec_match\<close>) without maps, strings, pointers or errors. \<open>side_rel\<close> and \<open>book_rel\<close>
  tie a concrete book to its level lists, \<open>wf_side\<close> says what holds of the orders in them, and
  \<open>book_ok\<close> is the invariant of a book. The lemmas show that every primitive operation of the
  concrete book is its list operation.
\<close>

type_synonym 'd levels = "('d amount \<times> 'd RestingOrder list) list"
type_synonym 'd queue = "('d amount \<times> 'd RestingOrder) list"

definition flat :: "'d levels \<Rightarrow> 'd queue" where
  "flat L = concat (map (\<lambda>(p, os). map (Pair p) os) L)"

lemma flat_simps [simp]:
  "flat [] = []" "flat ((p, os) # L) = map (Pair p) os @ flat L" "flat (K @ L) = flat K @ flat L"
  by (simp_all add: flat_def)

lemma snd_flat: "map snd (flat L) = concat (map snd L)"
  by (induction L) (auto simp: comp_def)

definition lv_ids :: "'d levels \<Rightarrow> OrderID list" where
  "lv_ids L = map (ro_OrderID \<circ> snd) (flat L)"

lemma lv_ids_simps [simp]:
  "lv_ids [] = []" "lv_ids ((p, os) # L) = map ro_OrderID os @ lv_ids L" "lv_ids (K @ L) = lv_ids K @ lv_ids L"
  by (simp_all add: lv_ids_def)

lemma lv_ids_mem: "(p, os) \<in> set L \<Longrightarrow> r \<in> set os \<Longrightarrow> ro_OrderID r \<in> set (lv_ids L)"
  by (force simp: lv_ids_def flat_def)

section \<open>The specification of matching\<close>

definition taker_take :: "'d decimal_pkg \<Rightarrow> 'd MarketConfig \<Rightarrow> 'd taker \<Rightarrow> 'd amount \<Rightarrow> 'd amount" where
  "taker_take D cfg t p = (case takerQty D cfg t p of Inl _ \<Rightarrow> Zero D | Inr q \<Rightarrow> q)"

definition outside :: "'d decimal_pkg \<Rightarrow> 'd amount option \<Rightarrow> Side \<Rightarrow> 'd amount \<Rightarrow> bool" where
  "outside D band side p = (case band of None \<Rightarrow> False | Some bd \<Rightarrow> outsideBand D side bd p)"

definition self_trade :: "'d MarketConfig \<Rightarrow> 'd NewOrder \<Rightarrow> 'd RestingOrder \<Rightarrow> bool" where
  "self_trade cfg o' m \<longleftrightarrow> ro_AccountID m = no_AccountID o' \<and> mc_SelfTradePolicy cfg = STPCancelNewest"

definition fill_qty :: "'d decimal_pkg \<Rightarrow> 'd MarketConfig \<Rightarrow> 'd taker \<Rightarrow> 'd amount \<Rightarrow> 'd RestingOrder \<Rightarrow> 'd amount" where
  "fill_qty D cfg t p m =
     (if Amount_Cmp D (ro_Remaining m) (taker_take D cfg t p) < 0 then ro_Remaining m
      else taker_take D cfg t p)"

text \<open>The walk: the queue that is left, the taker, the events.\<close>

fun spec_match :: "'d decimal_pkg \<Rightarrow> 'd MarketConfig \<Rightarrow> u64 \<Rightarrow> 'd amount option \<Rightarrow> int \<Rightarrow> 'd taker \<Rightarrow>
    'd queue \<Rightarrow> 'd queue \<times> 'd taker \<times> 'd Event list" where
  "spec_match D cfg seq band idx t [] = ([], t, [])"
| "spec_match D cfg seq band idx t ((p, m) # ms) =
     (let o' = tk_o t
      in if exhausted D t \<or> (no_Type o' = Limit \<and> \<not> crosses D (no_Side o') (no_Price o') p)
         then ((p, m) # ms, t, [])
         else if outside D band (no_Side o') p
         then ((p, m) # ms, t\<lparr>tk_stop := Some CancelPriceProtection\<rparr>, [])
         else if self_trade cfg o' m
         then ((p, m) # ms, t\<lparr>tk_stop := Some CancelSelfTrade\<rparr>, [])
         else if marketBuy t \<and> Amount_IsZero D (taker_take D cfg t p)
         then ((p, m) # ms, t, [])
         else
           let qty = fill_qty D cfg t p m;
               quote = Amount_Mul D p qty;
               m1 = maker_fill D qty quote m;
               t1 = taker_fill D qty quote t;
               evs = [trade_event seq idx o' p qty quote m1, maker_event D seq m1]
           in if Amount_IsZero D (ro_Remaining m1)
              then (case spec_match D cfg seq band (idx + 1) t1 ms of
                      (ms', t', evs') \<Rightarrow> (ms', t', evs @ evs'))
              else ((p, m1) # ms, t1, evs))"

section \<open>Levels\<close>

text \<open>An order joins its level, or a new level where its price belongs.\<close>

definition side_better :: "'d decimal_pkg \<Rightarrow> Side \<Rightarrow> 'd amount \<Rightarrow> 'd amount \<Rightarrow> bool" where
  "side_better D side a b = (if side = Buy then Amount_Cmp D a b > 0 else Amount_Cmp D a b < 0)"

fun lv_insert :: "'d decimal_pkg \<Rightarrow> Side \<Rightarrow> 'd RestingOrder \<Rightarrow> 'd levels \<Rightarrow> 'd levels" where
  "lv_insert D side r [] = [(ro_Price r, [r])]"
| "lv_insert D side r ((p, os) # L) =
     (if Amount_Equal D (ro_Price r) p then (p, os @ [r]) # L
      else if side_better D side (ro_Price r) p then (ro_Price r, [r]) # (p, os) # L
      else (p, os) # lv_insert D side r L)"

text \<open>The order with the id leaves; a level it leaves empty goes.\<close>

definition lv_remove :: "OrderID \<Rightarrow> 'd levels \<Rightarrow> 'd levels" where
  "lv_remove i L =
     filter (\<lambda>(p, os). os \<noteq> []) (map (\<lambda>(p, os). (p, filter (\<lambda>r. ro_OrderID r \<noteq> i) os)) L)"

lemma flat_lv_remove: "flat (lv_remove i L) = filter (\<lambda>(p, r). ro_OrderID r \<noteq> i) (flat L)"
  by (induction L) (auto simp: lv_remove_def filter_map comp_def)

section \<open>The concrete book and its levels\<close>

definition as_order :: "string \<Rightarrow> 'd RestingOrder \<Rightarrow> 'd order" where
  "as_order k r = RestingOrder.extend r (order.fields (Some k))"

lemma as_order_simps [simp]:
  "RestingOrder.truncate (as_order k r) = r" "o_level (as_order k r) = Some k"
  "ro_OrderID (as_order k r) = ro_OrderID r" "ro_AccountID (as_order k r) = ro_AccountID r"
  "ro_Side (as_order k r) = ro_Side r" "ro_Price (as_order k r) = ro_Price r"
  "ro_Qty (as_order k r) = ro_Qty r" "ro_Remaining (as_order k r) = ro_Remaining r"
  "ro_FilledQty (as_order k r) = ro_FilledQty r" "ro_FilledQuote (as_order k r) = ro_FilledQuote r"
  "ro_Seq (as_order k r) = ro_Seq r" "ro_Timestamp (as_order k r) = ro_Timestamp r"
  "maker_fill D q u (as_order k r) = as_order k (maker_fill D q u r)"
  by (simp_all add: as_order_def RestingOrder.defs order.defs maker_fill_def)

definition price_key :: "'d decimal_pkg \<Rightarrow> int \<Rightarrow> 'd amount \<Rightarrow> string" where
  "price_key D ts p = Amount_StringFixed D p ts"

definition level_rel :: "'d decimal_pkg \<Rightarrow> ('d \<Rightarrow> rat) \<Rightarrow> int \<Rightarrow> (OrderID, 'd order) mapping \<Rightarrow>
    'd level \<Rightarrow> 'd amount \<Rightarrow> 'd RestingOrder list \<Rightarrow> bool" where
  "level_rel D val ts st lvl p os \<longleftrightarrow>
     lvl_price lvl = p \<and> lvl_orders lvl = map ro_OrderID os \<and>
     amt_val val (lvl_qty lvl) = (\<Sum>r\<leftarrow>os. amt_val val (ro_Remaining r)) \<and>
     (\<forall>r \<in> set os. Mapping.lookup st (ro_OrderID r) = Some (as_order (price_key D ts p) r))"

definition side_rel :: "'d decimal_pkg \<Rightarrow> ('d \<Rightarrow> rat) \<Rightarrow> Side \<Rightarrow> int \<Rightarrow> (OrderID, 'd order) mapping \<Rightarrow>
    'd bookSide \<Rightarrow> 'd levels \<Rightarrow> bool" where
  "side_rel D val side ts st s L \<longleftrightarrow>
     bs_side s = side \<and> bs_tickScale s = ts \<and> bs_prices s = map fst L \<and>
     (\<forall>(p, os) \<in> set L. \<exists>lvl. Mapping.lookup (bs_levels s) (price_key D ts p) = Some lvl
        \<and> level_rel D val ts st lvl p os) \<and>
     (\<forall>k. Mapping.lookup (bs_levels s) k \<noteq> None \<longrightarrow> k \<in> price_key D ts ` fst ` set L) \<and>
     bs_count s = (\<Sum>(p, os)\<leftarrow>L. int (length os))"

text \<open>What holds of one resting order of a market, and of the levels of a side.\<close>

definition multiple :: "rat \<Rightarrow> rat \<Rightarrow> bool" where
  "multiple v step \<longleftrightarrow> (\<exists>k::int. v = of_int k * step)"

definition wf_order :: "('d \<Rightarrow> rat) \<Rightarrow> 'd MarketConfig \<Rightarrow> Side \<Rightarrow> 'd amount \<Rightarrow> 'd RestingOrder \<Rightarrow> bool" where
  "wf_order val cfg side p r \<longleftrightarrow>
     ro_OrderID r \<noteq> [] \<and> ro_AccountID r \<noteq> [] \<and> ro_Side r = side \<and>
     amt_val val (ro_Price r) = amt_val val p \<and>
     0 < amt_val val (ro_Remaining r) \<and> multiple (amt_val val (ro_Remaining r)) (amt_val val (mc_QtyStep cfg)) \<and>
     amt_val val (ro_Qty r) = amt_val val (ro_Remaining r) + amt_val val (ro_FilledQty r) \<and>
     0 \<le> amt_val val (ro_FilledQty r) \<and> 0 \<le> amt_val val (ro_FilledQuote r)"

definition wf_price :: "('d \<Rightarrow> rat) \<Rightarrow> 'd MarketConfig \<Rightarrow> 'd amount \<Rightarrow> bool" where
  "wf_price val cfg p \<longleftrightarrow>
     0 < amt_val val p \<and> multiple (amt_val val p) (amt_val val (mc_PriceTick cfg))"

definition val_better :: "('d \<Rightarrow> rat) \<Rightarrow> Side \<Rightarrow> 'd amount \<Rightarrow> 'd amount \<Rightarrow> bool" where
  "val_better val side a b =
     (if side = Buy then amt_val val b < amt_val val a else amt_val val a < amt_val val b)"

definition wf_side :: "('d \<Rightarrow> rat) \<Rightarrow> 'd MarketConfig \<Rightarrow> Side \<Rightarrow> u64 \<Rightarrow> 'd levels \<Rightarrow> bool" where
  "wf_side val cfg side n L \<longleftrightarrow>
     sorted_wrt (val_better val side) (map fst L) \<and>
     (\<forall>(p, os) \<in> set L. os \<noteq> [] \<and> wf_price val cfg p \<and> (\<forall>r \<in> set os. wf_order val cfg side p r) \<and>
        sorted (map ro_Seq os) \<and> (\<forall>r \<in> set os. ro_Seq r \<le> n))"

text \<open>The invariant of a book.\<close>

definition book_rel :: "'d decimal_pkg \<Rightarrow> ('d \<Rightarrow> rat) \<Rightarrow> 'd Book \<Rightarrow> 'd levels \<Rightarrow> 'd levels \<Rightarrow> bool" where
  "book_rel D val b B A \<longleftrightarrow>
     MarketConfig_Validate D (bk_cfg b) = None \<and> bk_tickScale b = Amount_Scale D (mc_PriceTick (bk_cfg b)) \<and>
     side_rel D val Buy (bk_tickScale b) (bk_byID b) (bk_bids b) B \<and>
     side_rel D val Sell (bk_tickScale b) (bk_byID b) (bk_asks b) A \<and>
     wf_side val (bk_cfg b) Buy (bk_lastSeq b) B \<and> wf_side val (bk_cfg b) Sell (bk_lastSeq b) A \<and>
     distinct (lv_ids B @ lv_ids A) \<and> Mapping.keys (bk_byID b) = set (lv_ids B @ lv_ids A)"

definition book_ok :: "'d decimal_pkg \<Rightarrow> ('d \<Rightarrow> rat) \<Rightarrow> 'd Book \<Rightarrow> bool" where
  "book_ok D val b \<longleftrightarrow> (\<exists>B A. book_rel D val b B A)"

section \<open>The primitive operations on levels\<close>

definition keys_distinct :: "'d decimal_pkg \<Rightarrow> int \<Rightarrow> 'd levels \<Rightarrow> bool" where
  "keys_distinct D ts L \<longleftrightarrow> distinct (map (price_key D ts) (map fst L))"

definition same_orders :: "(OrderID, 'd order) mapping \<Rightarrow> (OrderID, 'd order) mapping \<Rightarrow> 'd levels \<Rightarrow> bool" where
  "same_orders st st' L \<longleftrightarrow>
     (\<forall>(p, os) \<in> set L. \<forall>r \<in> set os. Mapping.lookup st' (ro_OrderID r) = Mapping.lookup st (ro_OrderID r))"

lemma lookup_delete' [simp]: "Mapping.lookup (Mapping.delete k m) j = (if j = k then None else Mapping.lookup m j)"
  by transfer auto

lemma level_rel_frame:
  assumes "level_rel D val ts st lvl q qs" and "(q, qs) \<in> set L" and "same_orders st st' L"
  shows "level_rel D val ts st' lvl q qs"
proof -
  have "\<forall>r \<in> set qs. Mapping.lookup st' (ro_OrderID r) = Mapping.lookup st (ro_OrderID r)"
    using assms(2,3) unfolding same_orders_def by blast
  with assms(1) show ?thesis by (simp add: level_rel_def)
qed

lemma side_rel_lookup:
  assumes "side_rel D val side ts st s L" and "(p, os) \<in> set L"
  obtains lvl where "Mapping.lookup (bs_levels s) (price_key D ts p) = Some lvl" "level_rel D val ts st lvl p os"
  using assms unfolding side_rel_def by blast

lemma side_relI:
  assumes "bs_side s = side" "bs_tickScale s = ts" "bs_prices s = map fst L"
    and "\<And>p os. (p, os) \<in> set L \<Longrightarrow> \<exists>lvl. Mapping.lookup (bs_levels s) (price_key D ts p) = Some lvl
        \<and> level_rel D val ts st lvl p os"
    and "\<And>k lvl. Mapping.lookup (bs_levels s) k = Some lvl \<Longrightarrow> k \<in> price_key D ts ` fst ` set L"
    and "bs_count s = (\<Sum>(p, os)\<leftarrow>L. int (length os))"
  shows "side_rel D val side ts st s L"
  using assms unfolding side_rel_def by blast

lemma side_rel_keys:
  "side_rel D val side ts st s L \<Longrightarrow> Mapping.lookup (bs_levels s) k = Some lvl \<Longrightarrow> k \<in> price_key D ts ` fst ` set L"
  unfolding side_rel_def by blast

lemma side_rel_simps:
  "side_rel D val side ts st s L \<Longrightarrow> bs_side s = side"
  "side_rel D val side ts st s L \<Longrightarrow> bs_tickScale s = ts"
  "side_rel D val side ts st s L \<Longrightarrow> bs_prices s = map fst L"
  "side_rel D val side ts st s L \<Longrightarrow> bs_count s = (\<Sum>(p, os)\<leftarrow>L. int (length os))"
  unfolding side_rel_def by simp_all

lemma side_rel_frame:
  assumes rel: "side_rel D val side ts st s L" and "same_orders st st' L"
  shows "side_rel D val side ts st' s L"
proof (rule side_relI)
  fix p os assume "(p, os) \<in> set L"
  with rel obtain lvl where "Mapping.lookup (bs_levels s) (price_key D ts p) = Some lvl"
    "level_rel D val ts st lvl p os" by (rule side_rel_lookup)
  with assms(2) \<open>(p, os) \<in> set L\<close> show "\<exists>lvl. Mapping.lookup (bs_levels s) (price_key D ts p) = Some lvl
    \<and> level_rel D val ts st' lvl p os" by (blast intro: level_rel_frame)
qed (use rel in \<open>simp_all add: side_rel_simps side_rel_keys\<close>)

lemma other_key:
  assumes "keys_distinct D ts (L1 @ (p, os) # L2)" and q: "(q, qs) \<in> set (L1 @ L2)"
  shows "price_key D ts q \<noteq> price_key D ts p"
proof -
  have "price_key D ts q \<in> set (map (price_key D ts) (map fst (L1 @ L2)))"
    using imageI [OF imageI [OF q, of fst], of "price_key D ts"] by (simp add: image_image image_Un)
  moreover have "price_key D ts p \<notin> set (map (price_key D ts) (map fst (L1 @ L2)))"
    using assms(1) by (simp add: keys_distinct_def)
  ultimately show ?thesis by metis
qed

text \<open>The levels other than the one with the price \<open>p\<close> stay when only the entry of \<open>p\<close> changes.\<close>

lemma other_level:
  assumes rel: "side_rel D val side ts st s L" and keys: "keys_distinct D ts (L1 @ (p, os) # L2)"
    and sub: "set (L1 @ L2) \<subseteq> set L" and frame: "same_orders st st' (L1 @ L2)"
    and q: "(q, qs) \<in> set (L1 @ L2)"
  shows "\<exists>lvl. Mapping.lookup (bs_levels s) (price_key D ts q) = Some lvl \<and>
    price_key D ts q \<noteq> price_key D ts p \<and> level_rel D val ts st' lvl q qs"
proof -
  from q sub have "(q, qs) \<in> set L" by blast
  with rel obtain l where "Mapping.lookup (bs_levels s) (price_key D ts q) = Some l"
    "level_rel D val ts st l q qs" by (rule side_rel_lookup)
  with q frame other_key [OF keys q] show ?thesis by (blast intro: level_rel_frame)
qed

lemma side_rel_update:
  assumes rel: "side_rel D val side ts st s (L1 @ (p, os) # L2)"
    and keys: "keys_distinct D ts (L1 @ (p, os) # L2)"
    and new: "level_rel D val ts st' lvl p os'" and frame: "same_orders st st' (L1 @ L2)"
    and c: "c = bs_count s + int (length os') - int (length os)"
  shows "side_rel D val side ts st'
    (s\<lparr>bs_levels := Mapping.update (price_key D ts p) lvl (bs_levels s), bs_count := c\<rparr>) (L1 @ (p, os') # L2)"
    (is "side_rel _ _ _ _ _ ?s _")
proof (rule side_relI)
  fix q qs assume q: "(q, qs) \<in> set (L1 @ (p, os') # L2)"
  show "\<exists>lvl. Mapping.lookup (bs_levels ?s) (price_key D ts q) = Some lvl \<and> level_rel D val ts st' lvl q qs"
  proof (cases "q = p \<and> qs = os'")
    case False
    with q have "(q, qs) \<in> set (L1 @ L2)" by auto
    from other_level [OF rel keys _ frame this] show ?thesis by (auto simp add: lookup_update' subset_iff)
  qed (use new in \<open>simp add: lookup_update'\<close>)
next
  fix k l assume "Mapping.lookup (bs_levels ?s) k = Some l"
  then show "k \<in> price_key D ts ` fst ` set (L1 @ (p, os') # L2)"
    using side_rel_keys [OF rel, of k] by (auto simp: lookup_update' split: if_splits)
qed (use rel c in \<open>simp_all add: side_rel_simps\<close>)

lemma side_rel_delete:
  assumes rel: "side_rel D val side ts st s (L1 @ (p, os) # L2)"
    and keys: "keys_distinct D ts (L1 @ (p, os) # L2)"
    and frame: "same_orders st st' (L1 @ L2)"
    and c: "c = bs_count s - int (length os)" and ps: "ps = map fst (L1 @ L2)"
  shows "side_rel D val side ts st'
    (s\<lparr>bs_levels := Mapping.delete (price_key D ts p) (bs_levels s), bs_prices := ps, bs_count := c\<rparr>) (L1 @ L2)"
    (is "side_rel _ _ _ _ _ ?s _")
proof (rule side_relI)
  fix q qs assume "(q, qs) \<in> set (L1 @ L2)"
  from other_level [OF rel keys _ frame this]
  show "\<exists>lvl. Mapping.lookup (bs_levels ?s) (price_key D ts q) = Some lvl \<and> level_rel D val ts st' lvl q qs"
    by (auto simp: subset_iff)
next
  fix k l assume "Mapping.lookup (bs_levels ?s) k = Some l"
  then show "k \<in> price_key D ts ` fst ` set (L1 @ L2)"
    using side_rel_keys [OF rel, of k] by (auto split: if_splits)
qed (use rel c ps in \<open>simp_all add: side_rel_simps\<close>)

lemma side_rel_new:
  assumes rel: "side_rel D val side ts st s (L1 @ L2)"
    and keys: "keys_distinct D ts (L1 @ (p, os) # L2)"
    and new: "level_rel D val ts st' lvl p os" and frame: "same_orders st st' (L1 @ L2)"
    and c: "c = bs_count s + int (length os)" and ps: "ps = map fst (L1 @ (p, os) # L2)"
  shows "side_rel D val side ts st'
    (s\<lparr>bs_prices := ps, bs_levels := Mapping.update (price_key D ts p) lvl (bs_levels s), bs_count := c\<rparr>)
    (L1 @ (p, os) # L2)" (is "side_rel _ _ _ _ _ ?s _")
proof (rule side_relI)
  fix q qs assume q: "(q, qs) \<in> set (L1 @ (p, os) # L2)"
  show "\<exists>lvl. Mapping.lookup (bs_levels ?s) (price_key D ts q) = Some lvl \<and> level_rel D val ts st' lvl q qs"
  proof (cases "q = p \<and> qs = os")
    case False
    with q have "(q, qs) \<in> set (L1 @ L2)" by auto
    from other_level [OF rel keys _ frame this] show ?thesis by (auto simp add: lookup_update' subset_iff)
  qed (use new in \<open>simp add: lookup_update'\<close>)
next
  fix k l assume "Mapping.lookup (bs_levels ?s) k = Some l"
  then show "k \<in> price_key D ts ` fst ` set (L1 @ (p, os) # L2)"
    using side_rel_keys [OF rel, of k] by (auto simp: lookup_update' split: if_splits)
qed (use rel c ps in \<open>simp_all add: side_rel_simps\<close>)

lemma side_best_rel:
  assumes "side_rel D val side ts st s L"
  shows "L = [] \<Longrightarrow> side_best D s = None"
    and "L = (p, os) # L' \<Longrightarrow> \<exists>lvl. side_best D s = Some (price_key D ts p, lvl) \<and>
      Mapping.lookup (bs_levels s) (price_key D ts p) = Some lvl \<and> level_rel D val ts st lvl p os"
  using assms by (auto simp: side_best_def side_rel_def side_key_def price_key_def)


context decimal
begin

lemma Config_ok:
  "MarketConfig_Validate D c = None \<longleftrightarrow>
     mc_Symbol c \<noteq> [] \<and> 0 < V (mc_PriceTick c) \<and> 0 < V (mc_QtyStep c) \<and> 0 \<le> V (mc_MinNotional c) \<and>
     0 \<le> mc_BaseScale c \<and> mc_BaseScale c \<le> 18 \<and> 0 \<le> mc_QuoteScale c \<and> mc_QuoteScale c \<le> 18 \<and>
     Amount_Scale D (mc_QtyStep c) \<le> mc_BaseScale c \<and>
     Amount_Scale D (mc_PriceTick c) + Amount_Scale D (mc_QtyStep c) \<le> mc_QuoteScale c \<and>
     (\<forall>q. mc_MaxQty c = Some q \<longrightarrow> 0 < V q) \<and>
     (\<forall>b. mc_MaxSlippageBps c = Some b \<longrightarrow> 1 \<le> b \<and> b \<le> 10000) \<and>
     mc_SelfTradePolicy c \<in> {STPCancelNewest, STPAllow}"
  unfolding MarketConfig_Validate_def
  by (cases "mc_MaxQty c"; cases "mc_MaxSlippageBps c"; cases "mc_SelfTradePolicy c")
    (auto simp: MaxScale_def not_le not_less split: if_splits)

lemma multiple_fits:
  "multiple v (V step) \<Longrightarrow> fits (nat (Amount_Scale D step)) v"
  using fits_of_int_mult [OF fits_Scale [of step]] by (auto simp: multiple_def)

lemma price_key_inj:
  assumes "wf_price val cfg p" "wf_price val cfg q"
  shows "price_key D (Amount_Scale D (mc_PriceTick cfg)) p = price_key D (Amount_Scale D (mc_PriceTick cfg)) q
    \<longleftrightarrow> V p = V q"
  using assms unfolding price_key_def wf_price_def by (intro StringFixed_inj multiple_fits) auto

lemma sorted_better_distinct: "sorted_wrt (val_better val side) ps \<Longrightarrow> distinct (map V ps)"
  by (induction ps) (auto simp: val_better_def split: if_splits)

lemma wf_side_keys:
  assumes "wf_side val cfg side n L" and ts: "ts = Amount_Scale D (mc_PriceTick cfg)"
  shows "keys_distinct D ts L"
proof -
  have wf: "\<forall>p \<in> set (map fst L). wf_price val cfg p" using assms by (auto simp: wf_side_def)
  have "distinct (map V (map fst L))"
    using assms by (intro sorted_better_distinct [of side]) (simp add: wf_side_def)
  with wf have "distinct (map (price_key D ts) (map fst L))"
    unfolding distinct_map inj_on_def ts using price_key_inj by blast
  then show ?thesis by (simp add: keys_distinct_def)
qed

lemma better_iff: "better D s a b \<longleftrightarrow> val_better val (bs_side s) a b"
  by (simp add: better_def val_better_def)

lemma side_better_iff: "side_better D side a b \<longleftrightarrow> val_better val side a b"
  by (simp add: side_better_def val_better_def)

text \<open>The place of a level among the prices, as the binary search finds it.\<close>

lemma search_level:
  assumes "sorted_wrt (val_better val (bs_side s)) (ps1 @ p # ps2)"
  shows "sort_search (length (ps1 @ p # ps2)) (\<lambda>i. \<not> better D s ((ps1 @ p # ps2) ! i) p) = length ps1"
proof -
  let ?b = "val_better val (bs_side s)"
  have p1: "\<forall>q \<in> set ps1. ?b q p" and p2: "\<forall>q \<in> set ps2. \<not> ?b q p" and pp: "\<not> ?b p p"
    using assms by (auto simp: sorted_wrt_append val_better_def split: if_splits)
  have "sort_search (length (ps1 @ p # ps2)) (\<lambda>i. \<not> better D s ((ps1 @ p # ps2) ! i) p)
      = length (takeWhile (\<lambda>q. \<not> \<not> ?b q p) (ps1 @ p # ps2))"
    unfolding better_iff
  proof (rule sort_search_takeWhile)
    fix i j assume ij: "i \<le> j" "j < length (ps1 @ p # ps2)" "\<not> ?b ((ps1 @ p # ps2) ! i) p"
    have "?b ((ps1 @ p # ps2) ! i) ((ps1 @ p # ps2) ! j)" if "i \<noteq> j"
      using assms ij that by (auto simp: sorted_wrt_iff_nth_less)
    with ij show "\<not> ?b ((ps1 @ p # ps2) ! j) p" by (cases "i = j") (auto simp: val_better_def split: if_splits)
  qed
  also have "takeWhile (\<lambda>q. \<not> \<not> ?b q p) (ps1 @ p # ps2) = ps1" using p1 pp by simp
  finally show ?thesis .
qed

lemma search_place:
  assumes "sorted_wrt (val_better val (bs_side s)) (ps1 @ ps2)"
    and "\<forall>q \<in> set ps1. val_better val (bs_side s) q p" and "\<forall>q \<in> set ps2. val_better val (bs_side s) p q"
  shows "sort_search (length (ps1 @ ps2)) (\<lambda>i. better D s p ((ps1 @ ps2) ! i)) = length ps1"
proof -
  let ?b = "val_better val (bs_side s)"
  have "sort_search (length (ps1 @ ps2)) (\<lambda>i. better D s p ((ps1 @ ps2) ! i))
      = length (takeWhile (\<lambda>q. \<not> ?b p q) (ps1 @ ps2))"
    unfolding better_iff
  proof (rule sort_search_takeWhile)
    fix i j assume ij: "i \<le> j" "j < length (ps1 @ ps2)" "?b p ((ps1 @ ps2) ! i)"
    have "?b ((ps1 @ ps2) ! i) ((ps1 @ ps2) ! j)" if "i \<noteq> j"
      using assms(1) ij that by (auto simp: sorted_wrt_iff_nth_less)
    with ij show "?b p ((ps1 @ ps2) ! j)" by (cases "i = j") (auto simp: val_better_def split: if_splits)
  qed
  also have "takeWhile (\<lambda>q. \<not> ?b p q) (ps1 @ ps2) = ps1"
  proof -
    have "\<forall>q \<in> set ps1. \<not> ?b p q" using assms(2) by (auto simp: val_better_def split: if_splits)
    moreover have "takeWhile (\<lambda>q. \<not> ?b p q) ps2 = []" using assms(3) by (cases ps2) auto
    ultimately show ?thesis by simp
  qed
  finally show ?thesis .
qed

text \<open>A level that has changed is written back, or dropped when it is empty.\<close>

lemma put_level_rel:
  assumes rel: "side_rel D val side ts st s (L1 @ (p, os) # L2)"
    and keys: "keys_distinct D ts (L1 @ (p, os) # L2)"
    and sorted: "sorted_wrt (val_better val side) (map fst (L1 @ (p, os) # L2))"
    and new: "level_rel D val ts st' lvl p os'" and frame: "same_orders st st' (L1 @ L2)"
    and len: "Suc (length os') = length os"
  shows "side_rel D val side ts st' (put_level D s (price_key D ts p) lvl)
    (if os' = [] then L1 @ L2 else L1 @ (p, os') # L2)"
proof -
  note rel' = side_rel_simps [OF rel]
  have price: "lvl_price lvl = p" and orders: "lvl_orders lvl = [] \<longleftrightarrow> os' = []"
    using new by (auto simp: level_rel_def)
  show ?thesis
  proof (cases "os' = []")
    case False
    have "side_rel D val side ts st' (s\<lparr>bs_levels := Mapping.update (price_key D ts p) lvl (bs_levels s),
        bs_count := bs_count s - 1\<rparr>) (L1 @ (p, os') # L2)"
      using len by (intro side_rel_update [OF rel keys new frame]) simp
    with False show ?thesis by (simp add: put_level_def orders)
  next
    case True
    let ?s = "s\<lparr>bs_levels := Mapping.update (price_key D ts p) lvl (bs_levels s), bs_count := bs_count s - 1\<rparr>"
    have "sort_search (length (map fst L1 @ p # map fst L2))
        (\<lambda>i. \<not> better D ?s ((map fst L1 @ p # map fst L2) ! i) p) = length (map fst L1)"
      by (rule search_level) (use sorted rel' in simp)
    moreover have "side_key D ?s p = price_key D ts p" using rel' by (simp add: side_key_def price_key_def)
    moreover have "(map fst L1 @ p # map fst L2) ! length L1 = p" by (metis length_map nth_append_length)
    moreover have "Mapping.delete k (Mapping.update k v m) = Mapping.delete k m" for k v and m :: "(string, 'd level) mapping"
      by transfer auto
    ultimately have "put_level D s (price_key D ts p) lvl = s\<lparr>bs_levels := Mapping.delete (price_key D ts p) (bs_levels s),
        bs_prices := map fst (L1 @ L2), bs_count := bs_count s - 1\<rparr>"
      using True rel' by (simp add: put_level_def dropLevel_def orders price slice_delete_def Let_def)
    moreover have "side_rel D val side ts st' \<dots> (L1 @ L2)"
      using len True by (intro side_rel_delete [OF rel keys frame]) simp_all
    ultimately show ?thesis using True by simp
  qed
qed

end

end
