(* ===== verification/Matching_Refine.thy ===== *)
theory Matching_Refine
  imports Matching_Spec
begin

text \<open>
  The concrete book does what its specification says: resting, removing, filling and popping an
  order keep the relation between the book and its levels, and the two loops of \<^verbatim>\<open>match\<close>
  return, do not fail and compute \<open>spec_match\<close>.
\<close>

section \<open>Ids and stores\<close>

lemma same_orders_update:
  "i \<notin> set (lv_ids L) \<Longrightarrow> same_orders st (Mapping.update i v st) L"
  using lv_ids_mem by (fastforce simp: same_orders_def lookup_update')

lemma same_orders_delete:
  "i \<notin> set (lv_ids L) \<Longrightarrow> same_orders st (Mapping.delete i st) L"
  using lv_ids_mem by (fastforce simp: same_orders_def)

lemma same_orders_trans:
  "same_orders st st' L \<Longrightarrow> same_orders st' st'' L \<Longrightarrow> same_orders st st'' L"
  by (simp add: same_orders_def split: prod.splits)

lemma delete_update_mapping [simp]: "Mapping.delete k (Mapping.update k v m) = Mapping.delete k m"
  by transfer auto

lemma bookSide_update_count [simp]:
  "s\<lparr>bs_levels := m, bs_count := bs_count s\<rparr> = s\<lparr>bs_levels := m\<rparr>"
  by (cases s) simp

text \<open>The invariant of a book seen from one side: the levels there and those of the other side.\<close>

definition book_rel_at :: "'d decimal_pkg \<Rightarrow> ('d \<Rightarrow> rat) \<Rightarrow> 'd Book \<Rightarrow> Side \<Rightarrow> 'd levels \<Rightarrow> 'd levels \<Rightarrow> bool" where
  "book_rel_at D val b side X Y \<longleftrightarrow>
     MarketConfig_Validate D (bk_cfg b) = None \<and> bk_tickScale b = Amount_Scale D (mc_PriceTick (bk_cfg b)) \<and>
     side \<in> {Buy, Sell} \<and>
     side_rel D val side (bk_tickScale b) (bk_byID b) (sideOf b side) X \<and>
     side_rel D val (Side_Opposite side) (bk_tickScale b) (bk_byID b) (sideOf b (Side_Opposite side)) Y \<and>
     wf_side val (bk_cfg b) side (bk_lastSeq b) X \<and>
     wf_side val (bk_cfg b) (Side_Opposite side) (bk_lastSeq b) Y \<and>
     distinct (lv_ids X @ lv_ids Y) \<and> Mapping.keys (bk_byID b) = set (lv_ids X @ lv_ids Y)"

lemma book_rel_at_iff:
  "book_rel_at D val b Buy X Y \<longleftrightarrow> book_rel D val b X Y"
  "book_rel_at D val b Sell X Y \<longleftrightarrow> book_rel D val b Y X"
  by (auto simp: book_rel_at_def book_rel_def sideOf_def Side_Opposite_def)

lemma side_opposite [simp]:
  "sideOf (set_side b s x) s = x"
  "s \<in> {Buy, Sell} \<Longrightarrow> sideOf (set_side b s x) (Side_Opposite s) = sideOf b (Side_Opposite s)"
  "s \<in> {Buy, Sell} \<Longrightarrow> Side_Opposite (Side_Opposite s) = s"
  by (auto simp: sideOf_def set_side_def Side_Opposite_def)

lemma set_side_simps [simp]:
  "bk_cfg (set_side b s x) = bk_cfg b" "bk_tickScale (set_side b s x) = bk_tickScale b"
  "bk_byID (set_side b s x) = bk_byID b" "bk_lastSeq (set_side b s x) = bk_lastSeq b"
  "sideOf (b\<lparr>bk_byID := st\<rparr>) s = sideOf b s" "sideOf (b\<lparr>bk_lastSeq := n\<rparr>) s = sideOf b s"
  "set_side (set_side b s y) s x = set_side b s x"
  "set_side (b\<lparr>bk_byID := st\<rparr>) s x = (set_side b s x)\<lparr>bk_byID := st\<rparr>"
  by (auto simp: sideOf_def set_side_def)

text \<open>A change of one side and of the index that concerns only orders of that side.\<close>

lemma book_rel_at_change:
  assumes rel: "book_rel_at D val b side X Y"
    and "side_rel D val side (bk_tickScale b) st s X'" and "wf_side val (bk_cfg b) side (bk_lastSeq b) X'"
    and frame: "same_orders (bk_byID b) st Y"
    and "distinct (lv_ids X' @ lv_ids Y)" and "Mapping.keys st = set (lv_ids X' @ lv_ids Y)"
  shows "book_rel_at D val ((set_side b side s)\<lparr>bk_byID := st\<rparr>) side X' Y"
  using assms side_rel_frame [OF _ frame] unfolding book_rel_at_def by auto

section \<open>Resting, removing and popping\<close>

lemma wf_side_Cons:
  "wf_side val cfg side n ((p, os) # L) \<longleftrightarrow>
     wf_side val cfg side n L \<and> (\<forall>(q, qs) \<in> set L. val_better val side p q) \<and>
     os \<noteq> [] \<and> wf_price val cfg p \<and> (\<forall>r \<in> set os. wf_order val cfg side p r) \<and>
     sorted (map ro_Seq os) \<and> (\<forall>r \<in> set os. ro_Seq r \<le> n)"
  by (auto simp: wf_side_def)

lemma wf_side_mid:
  "wf_side val cfg side n (L1 @ (p, os) # L2) \<longleftrightarrow>
     wf_side val cfg side n (L1 @ L2) \<and> (\<forall>(q, qs) \<in> set L1. val_better val side q p) \<and>
     (\<forall>(q, qs) \<in> set L2. val_better val side p q) \<and>
     os \<noteq> [] \<and> wf_price val cfg p \<and> (\<forall>r \<in> set os. wf_order val cfg side p r) \<and>
     sorted (map ro_Seq os) \<and> (\<forall>r \<in> set os. ro_Seq r \<le> n)"
  by (auto simp: wf_side_def sorted_wrt_append)

lemma sum_list_remove1:
  fixes f :: "'a \<Rightarrow> rat"
  assumes "distinct (map g os)" and "r \<in> set os"
  shows "(\<Sum>x\<leftarrow>filter (\<lambda>x. g x \<noteq> g r) os. f x) = (\<Sum>x\<leftarrow>os. f x) - f r"
  using assms
proof (induction os)
  case (Cons x xs)
  show ?case
  proof (cases "x = r")
    case True
    with Cons.prems have "g r \<notin> g ` set xs" by auto
    then have "filter (\<lambda>x. g x \<noteq> g r) xs = xs" by (intro filter_True) (metis imageI)
    with True show ?thesis by simp
  next
    case False
    with Cons.prems have "g x \<noteq> g r" by force
    with False Cons show ?thesis by simp
  qed
qed simp

lemma remove1_map_filter:
  assumes "distinct (map g os)"
  shows "remove1 i (map g os) = map g (filter (\<lambda>x. g x \<noteq> i) os)"
  using assms
proof (induction os)
  case (Cons x xs)
  show ?case
  proof (cases "g x = i")
    case True
    with Cons.prems have "i \<notin> g ` set xs" by auto
    then have "filter (\<lambda>x. g x \<noteq> i) xs = xs" by (intro filter_True) (metis imageI)
    with True show ?thesis by simp
  next
    case False
    with Cons show ?thesis by simp
  qed
qed simp

lemma lv_remove_mid:
  assumes "distinct (lv_ids (L1 @ (p, os) # L2))" and "r \<in> set os"
    and ne: "\<forall>(q, qs) \<in> set (L1 @ L2). qs \<noteq> []"
  shows "lv_remove (ro_OrderID r) (L1 @ (p, os) # L2) =
    (let os' = filter (\<lambda>x. ro_OrderID x \<noteq> ro_OrderID r) os in if os' = [] then L1 @ L2 else L1 @ (p, os') # L2)"
proof -
  have "lv_remove (ro_OrderID r) L = L"
    if "ro_OrderID r \<notin> set (lv_ids L)" and "\<forall>(q, qs) \<in> set L. qs \<noteq> []" for L
    using that
  proof (induction L)
    case (Cons a L)
    obtain q qs where a: "a = (q, qs)" by (cases a)
    with Cons.prems have "ro_OrderID r \<notin> ro_OrderID ` set qs" by auto
    then have "filter (\<lambda>x. ro_OrderID x \<noteq> ro_OrderID r) qs = qs"
      by (intro filter_True) (metis imageI)
    with Cons a show ?case by (auto simp: lv_remove_def)
  qed (simp add: lv_remove_def)
  moreover have "ro_OrderID r \<notin> set (lv_ids L1)" "ro_OrderID r \<notin> set (lv_ids L2)"
    using assms(1,2) by auto
  ultimately have "lv_remove (ro_OrderID r) L1 = L1" "lv_remove (ro_OrderID r) L2 = L2"
    using ne by auto
  then show ?thesis by (auto simp: lv_remove_def Let_def)
qed

lemma map_filter_remove: "map g (filter (\<lambda>x. g x \<noteq> i) os) = filter (\<lambda>j. j \<noteq> i) (map g os)"
  by (simp add: filter_map comp_def)

lemma lv_ids_remove: "lv_ids (lv_remove i L) = filter (\<lambda>j. j \<noteq> i) (lv_ids L)"
  by (simp add: lv_ids_def flat_lv_remove filter_map comp_def case_prod_unfold)

lemma wf_side_shrink:
  assumes "wf_side val cfg side n (L1 @ (p, os) # L2)" and "set os' \<subseteq> set os" and "sorted (map ro_Seq os')"
  shows "wf_side val cfg side n (if os' = [] then L1 @ L2 else L1 @ (p, os') # L2)"
  using assms by (auto simp: wf_side_mid)

context decimal
begin

lemma book_rel_at_keys:
  assumes "book_rel_at D val b side X Y"
  shows "keys_distinct D (bk_tickScale b) X" "sorted_wrt (val_better val side) (map fst X)"
  using assms by (auto simp: book_rel_at_def wf_side_def intro: wf_side_keys)

lemma book_rel_at_lookup:
  assumes "book_rel_at D val b side X Y" and "(p, os) \<in> set X" and "r \<in> set os"
  shows "Mapping.lookup (bk_byID b) (ro_OrderID r) = Some (as_order (price_key D (bk_tickScale b) p) r)"
  using assms unfolding book_rel_at_def
  by (auto elim!: side_rel_lookup simp: level_rel_def)

text \<open>A resting order is taken out.\<close>

lemma remove_rel:
  assumes rel: "book_rel_at D val b side X Y" and mem: "(p, os) \<in> set X" "r \<in> set os"
  shows "\<exists>b'. Book_remove D b (as_order (price_key D (bk_tickScale b) p) r) = Inr b' \<and>
    book_rel_at D val b' side (lv_remove (ro_OrderID r) X) Y \<and>
    bk_cfg b' = bk_cfg b \<and> bk_lastSeq b' = bk_lastSeq b"
proof -
  let ?k = "price_key D (bk_tickScale b) p" and ?i = "ro_OrderID r"
  let ?st = "Mapping.delete ?i (bk_byID b)"
  let ?os = "filter (\<lambda>x. ro_OrderID x \<noteq> ?i) os"
  obtain L1 L2 where X: "X = L1 @ (p, os) # L2" using mem by (auto simp: in_set_conv_decomp)
  from rel have side: "side_rel D val side (bk_tickScale b) (bk_byID b) (sideOf b side) X"
    and wf: "wf_side val (bk_cfg b) side (bk_lastSeq b) X" and s: "side \<in> {Buy, Sell}"
    and dist: "distinct (lv_ids X @ lv_ids Y)" and dom: "Mapping.keys (bk_byID b) = set (lv_ids X @ lv_ids Y)"
    by (auto simp: book_rel_at_def)
  obtain lvl where lvl: "Mapping.lookup (bs_levels (sideOf b side)) ?k = Some lvl"
    "level_rel D val (bk_tickScale b) (bk_byID b) lvl p os" using side mem(1) by (rule side_rel_lookup)
  let ?lvl = "lvl\<lparr>lvl_orders := remove1 ?i (lvl_orders lvl), lvl_qty := Amount_Sub D (lvl_qty lvl) (ro_Remaining r)\<rparr>"
  have dos: "distinct (map ro_OrderID os)" using dist X by auto
  have i: "?i \<notin> set (lv_ids L1)" "?i \<notin> set (lv_ids L2)" "?i \<notin> set (lv_ids Y)"
    using dist mem(2) X by auto
  have new: "level_rel D val (bk_tickScale b) ?st ?lvl p ?os"
    using lvl(2) dos mem(2) by (auto simp: level_rel_def remove1_map_filter sum_list_remove1)
  have len: "Suc (length ?os) = length os"
  proof -
    have "length ?os = length (remove1 ?i (map ro_OrderID os))" by (simp only: remove1_map_filter [OF dos] length_map)
    also have "\<dots> = length os - 1" using mem(2) by (simp add: length_remove1)
    finally show ?thesis using mem(2) by (cases os) auto
  qed
  have so: "wf_order val (bk_cfg b) side p r" using wf mem by (auto simp: wf_side_def)
  have rem: "lv_remove ?i X = (if ?os = [] then L1 @ L2 else L1 @ (p, ?os) # L2)"
    unfolding X by (subst lv_remove_mid) (use dist X mem(2) wf in \<open>auto simp: Let_def wf_side_def\<close>)
  have "Book_remove D b (as_order ?k r)
      = Inr ((set_side b side (put_level D (sideOf b side) ?k ?lvl))\<lparr>bk_byID := ?st\<rparr>)"
    using so lvl(1) by (simp add: Book_remove_def side_remove_def wf_order_def Let_def)
  moreover have "book_rel_at D val ((set_side b side (put_level D (sideOf b side) ?k ?lvl))\<lparr>bk_byID := ?st\<rparr>)
      side (lv_remove ?i X) Y"
  proof (rule book_rel_at_change [OF rel])
    show "side_rel D val side (bk_tickScale b) ?st (put_level D (sideOf b side) ?k ?lvl) (lv_remove ?i X)"
      unfolding rem using side book_rel_at_keys [OF rel] new i len
      by (intro put_level_rel) (auto simp: X same_orders_delete)
    show "wf_side val (bk_cfg b) side (bk_lastSeq b) (lv_remove ?i X)"
      unfolding rem by (rule wf_side_shrink) (use wf X in \<open>auto simp: wf_side_mid sorted_filter\<close>)
    show "same_orders (bk_byID b) ?st Y" using i(3) by (rule same_orders_delete)
    show "distinct (lv_ids (lv_remove ?i X) @ lv_ids Y)" using dist by (auto simp: lv_ids_remove)
    show "Mapping.keys ?st = set (lv_ids (lv_remove ?i X) @ lv_ids Y)"
      using dom i(3) by (auto simp: lv_ids_remove)
  qed
  ultimately show ?thesis by simp
qed

text \<open>An order goes to rest.\<close>

lemma lv_insert_cases:
  assumes "sorted_wrt (val_better val side) (map fst X)"
  shows "(\<exists>L1 p os L2. X = L1 @ (p, os) # L2 \<and> V p = V (ro_Price r) \<and>
            lv_insert D side r X = L1 @ (p, os @ [r]) # L2) \<or>
         (\<exists>L1 L2. X = L1 @ L2 \<and> lv_insert D side r X = L1 @ (ro_Price r, [r]) # L2 \<and>
            (\<forall>(q, qs) \<in> set L1. val_better val side q (ro_Price r)) \<and>
            (\<forall>(q, qs) \<in> set L2. val_better val side (ro_Price r) q))"
  using assms
proof (induction X)
  case Nil
  then show ?case by force
next
  case (Cons a X)
  obtain p os where a: "a = (p, os)" by (cases a)
  show ?case
  proof (cases "V (ro_Price r) = V p")
    case True
    then have "lv_insert D side r (a # X) = [] @ (p, os @ [r]) # X" by (simp add: a)
    with True a show ?thesis by (metis append_Nil)
  next
    case False
    show ?thesis
    proof (cases "val_better val side (ro_Price r) p")
      case True
      then have "\<forall>(q, qs) \<in> set (a # X). val_better val side (ro_Price r) q"
        using Cons.prems by (auto simp: a val_better_def split: if_splits)
      moreover have "lv_insert D side r (a # X) = [] @ (ro_Price r, [r]) # (a # X)"
        using True False by (simp add: a side_better_iff)
      ultimately show ?thesis by (intro disjI2 exI [of _ "[]"] exI [of _ "a # X"]) simp
    next
      case worse: False
      then have ins: "lv_insert D side r (a # X) = a # lv_insert D side r X"
        and b: "val_better val side p (ro_Price r)"
        using False by (auto simp: a side_better_iff val_better_def split: if_splits)
      from Cons have "sorted_wrt (val_better val side) (map fst X)" by simp
      from Cons.IH [OF this] show ?thesis
      proof (elim disjE exE conjE)
        fix L1 q os' L2 assume "X = L1 @ (q, os') # L2" "V q = V (ro_Price r)"
          "lv_insert D side r X = L1 @ (q, os' @ [r]) # L2"
        then show ?thesis unfolding ins
          by (intro disjI1 exI [of _ "a # L1"] exI [of _ q] exI [of _ os'] exI [of _ L2]) simp
      next
        fix L1 L2 assume "X = L1 @ L2" "lv_insert D side r X = L1 @ (ro_Price r, [r]) # L2"
          "\<forall>(q, qs) \<in> set L1. val_better val side q (ro_Price r)"
          "\<forall>(q, qs) \<in> set L2. val_better val side (ro_Price r) q"
        then show ?thesis unfolding ins
          by (intro disjI2 exI [of _ "a # L1"] exI [of _ L2]) (simp add: a b)
      qed
    qed
  qed
qed

lemma wf_order_price: "V p = V q \<Longrightarrow> wf_order val cfg side p r = wf_order val cfg side q r"
  by (simp add: wf_order_def)

lemma wf_price_eq: "V p = V q \<Longrightarrow> wf_price val cfg p = wf_price val cfg q"
  by (simp add: wf_price_def)

lemma wf_side_mono: "wf_side val cfg side n L \<Longrightarrow> n \<le> m \<Longrightarrow> wf_side val cfg side m L"
  by (fastforce simp: wf_side_def)

lemma lv_ids_insert:
  assumes "sorted_wrt (val_better val side) (map fst X)"
  shows "mset (lv_ids (lv_insert D side r X)) = add_mset (ro_OrderID r) (mset (lv_ids X))"
  using lv_insert_cases [OF assms, of r] by auto

lemma wf_side_insert:
  assumes wf: "wf_side val cfg side n X" and r: "wf_order val cfg side (ro_Price r) r" "wf_price val cfg (ro_Price r)"
    and seq: "\<forall>x \<in> snd ` set (flat X). ro_Seq x \<le> ro_Seq r" and m: "n \<le> m" "ro_Seq r \<le> m"
  shows "wf_side val cfg side m (lv_insert D side r X)"
proof -
  have wf': "wf_side val cfg side m X" using wf m(1) by (rule wf_side_mono)
  then have "sorted_wrt (val_better val side) (map fst X)" by (simp add: wf_side_def)
  from lv_insert_cases [OF this, of r] show ?thesis
  proof (elim disjE exE conjE)
    fix L1 p os L2 assume X: "X = L1 @ (p, os) # L2" and p: "V p = V (ro_Price r)"
      and ins: "lv_insert D side r X = L1 @ (p, os @ [r]) # L2"
    have "\<forall>x \<in> set os. ro_Seq x \<le> ro_Seq r" using seq by (force simp: X flat_def)
    then show ?thesis using wf' [unfolded X wf_side_mid] r m(2) unfolding ins wf_side_mid
      by (auto simp: sorted_append wf_order_price [OF p])
  next
    fix L1 L2 assume "X = L1 @ L2" and ins: "lv_insert D side r X = L1 @ (ro_Price r, [r]) # L2"
      and "\<forall>(q, qs) \<in> set L1. val_better val side q (ro_Price r)"
      and "\<forall>(q, qs) \<in> set L2. val_better val side (ro_Price r) q"
    then show ?thesis using wf' r m(2) unfolding ins wf_side_mid by auto
  qed
qed

lemma side_insert_rel:
  assumes side: "side_rel D val side ts st s X" and wf: "wf_side val cfg side n X"
    and ts: "ts = Amount_Scale D (mc_PriceTick cfg)" and r: "wf_price val cfg (ro_Price r)"
    and fresh: "ro_OrderID r \<notin> set (lv_ids X)"
  shows "\<exists>s' k. side_insert D s (RestingOrder.extend r (order.fields None)) = (s', as_order k r) \<and>
    side_rel D val side ts (Mapping.update (ro_OrderID r) (as_order k r) st) s' (lv_insert D side r X)"
proof -
  let ?o = "RestingOrder.extend r (order.fields None)"
  let ?k = "price_key D ts (ro_Price r)" and ?i = "ro_OrderID r"
  let ?st = "Mapping.update ?i (as_order ?k r) st"
  have o: "ro_OrderID ?o = ?i" "ro_Remaining ?o = ro_Remaining r" "ro_Price ?o = ro_Price r"
    "?o\<lparr>o_level := Some k\<rparr> = as_order k r" for k
    by (simp_all add: as_order_def RestingOrder.defs order.defs)
  note rel = side_rel_simps [OF side]
  have k: "side_key D s (ro_Price r) = ?k" using rel by (simp add: side_key_def price_key_def)
  have sorted: "sorted_wrt (val_better val side) (map fst X)" using wf by (simp add: wf_side_def)
  have frame: "same_orders st ?st L" if "set (lv_ids L) \<subseteq> set (lv_ids X)" for L
    using fresh that by (intro same_orders_update) auto
  from lv_insert_cases [OF sorted, of r] show ?thesis
  proof (elim disjE exE conjE)
    fix L1 p os L2 assume X: "X = L1 @ (p, os) # L2" and p: "V p = V (ro_Price r)"
      and ins: "lv_insert D side r X = L1 @ (p, os @ [r]) # L2"
    have "wf_price val cfg p" using wf by (simp add: X wf_side_mid)
    then have pk: "price_key D ts p = ?k" using p r ts by (simp add: price_key_inj)
    obtain lvl where lvl: "Mapping.lookup (bs_levels s) ?k = Some lvl" "level_rel D val ts st lvl p os"
      using side_rel_lookup [OF side, of p os] pk X by auto
    let ?lvl = "lvl\<lparr>lvl_orders := lvl_orders lvl @ [?i], lvl_qty := Amount_Add D (lvl_qty lvl) (ro_Remaining r)\<rparr>"
    have "level_rel D val ts ?st lvl p os"
      by (rule level_rel_frame [OF lvl(2) _ frame, of X]) (simp_all add: X)
    then have new: "level_rel D val ts ?st ?lvl p (os @ [r])"
      by (auto simp: level_rel_def pk lookup_update')
    have "side_rel D val side ts ?st (s\<lparr>bs_levels := Mapping.update (price_key D ts p) ?lvl (bs_levels s),
        bs_count := bs_count s + 1\<rparr>) (L1 @ (p, os @ [r]) # L2)"
      using side X wf_side_keys [OF wf ts] new
      by (intro side_rel_update) (auto intro!: frame)
    with lvl(1) k o show ?thesis by (auto simp: side_insert_def Let_def ins pk)
  next
    fix L1 L2 assume X: "X = L1 @ L2" and ins: "lv_insert D side r X = L1 @ (ro_Price r, [r]) # L2"
      and L1: "\<forall>(q, qs) \<in> set L1. val_better val side q (ro_Price r)"
      and L2: "\<forall>(q, qs) \<in> set L2. val_better val side (ro_Price r) q"
    have new_key: "?k \<notin> price_key D ts ` fst ` set X"
    proof
      assume "?k \<in> price_key D ts ` fst ` set X"
      then obtain p os where "(p, os) \<in> set X" "price_key D ts p = ?k" by force
      moreover from this have "wf_price val cfg p" using wf by (auto simp: wf_side_def)
      ultimately have "(p, os) \<in> set X" "V p = V (ro_Price r)" using r ts by (simp_all add: price_key_inj)
      with L1 L2 show False by (auto simp: X val_better_def split: if_splits)
    qed
    then have none: "Mapping.lookup (bs_levels s) ?k = None"
      using side_rel_keys [OF side, of ?k] by (cases "Mapping.lookup (bs_levels s) ?k") auto
    have keys: "keys_distinct D ts (L1 @ (ro_Price r, [r]) # L2)"
      using wf_side_keys [OF wf ts] new_key by (auto simp: keys_distinct_def X image_Un)
    have "sort_search (length (map fst L1 @ map fst L2))
        (\<lambda>i. better D s (ro_Price r) ((map fst L1 @ map fst L2) ! i)) = length (map fst L1)"
      by (rule search_place) (use sorted X L1 L2 rel in auto)
    then have ss: "sort_search (length (bs_prices s)) (\<lambda>i. better D s (ro_Price r) (bs_prices s ! i)) = length L1"
      by (simp add: rel(3) X)
    let ?lvl = "\<lparr>lvl_price = ro_Price r, lvl_orders = [?i], lvl_qty = Amount_Add D (Zero D) (ro_Remaining r)\<rparr>"
    have "level_rel D val ts ?st ?lvl (ro_Price r) [r]" by (simp add: level_rel_def lookup_update')
    then have "side_rel D val side ts ?st (s\<lparr>bs_prices := slice_insert (length L1) (ro_Price r) (bs_prices s),
        bs_levels := Mapping.update ?k ?lvl (bs_levels s), bs_count := bs_count s + 1\<rparr>)
        (L1 @ (ro_Price r, [r]) # L2)"
      using side keys frame [of X] by (intro side_rel_new) (auto simp: X rel(3) slice_insert_def)
    with none ss k o show ?thesis by (auto simp: side_insert_def Let_def ins)
  qed
qed

lemma rest_order_rel:
  assumes rel: "book_rel_at D val b side X Y" and r: "wf_order val (bk_cfg b) side (ro_Price r) r"
    "wf_price val (bk_cfg b) (ro_Price r)" and fresh: "ro_OrderID r \<notin> set (lv_ids X @ lv_ids Y)"
    and seq: "\<forall>x \<in> snd ` set (flat X). ro_Seq x \<le> ro_Seq r" and n: "bk_lastSeq b \<le> n" "ro_Seq r \<le> n"
  shows "book_rel_at D val ((rest_order D b r)\<lparr>bk_lastSeq := n\<rparr>) side (lv_insert D side r X) Y"
    and "bk_cfg (rest_order D b r) = bk_cfg b" and "bk_lastSeq (rest_order D b r) = bk_lastSeq b"
proof -
  let ?i = "ro_OrderID r" and ?ts = "bk_tickScale b"
  have sr: "ro_Side r = side" using r by (simp add: wf_order_def)
  have side: "side_rel D val side ?ts (bk_byID b) (sideOf b side) X"
    and wf: "wf_side val (bk_cfg b) side (bk_lastSeq b) X"
    and ts: "?ts = Amount_Scale D (mc_PriceTick (bk_cfg b))"
    using rel unfolding book_rel_at_def by blast+
  from side_insert_rel [OF side wf ts r(2)] fresh obtain s' k where
    ins: "side_insert D (sideOf b side) (RestingOrder.extend r (order.fields None)) = (s', as_order k r)"
    and side': "side_rel D val side ?ts (Mapping.update ?i (as_order k r) (bk_byID b)) s' (lv_insert D side r X)"
    by auto
  let ?st = "Mapping.update ?i (as_order k r) (bk_byID b)"
  have b': "rest_order D b r = (set_side b side s')\<lparr>bk_byID := ?st\<rparr>"
    by (simp add: rest_order_def sr ins)
  then show "bk_cfg (rest_order D b r) = bk_cfg b" "bk_lastSeq (rest_order D b r) = bk_lastSeq b" by simp_all
  have wf': "wf_side val (bk_cfg b) side n (lv_insert D side r X)"
    using wf r seq n by (rule wf_side_insert)
  have ids: "mset (lv_ids (lv_insert D side r X)) = add_mset ?i (mset (lv_ids X))"
    using wf by (intro lv_ids_insert) (simp add: wf_side_def)
  then have set: "set (lv_ids (lv_insert D side r X)) = insert ?i (set (lv_ids X))"
    using mset_eq_setD by (metis set_mset_add_mset_insert set_mset_mset)
  have dist: "distinct (lv_ids (lv_insert D side r X) @ lv_ids Y)"
  proof -
    have "distinct (lv_ids (lv_insert D side r X)) = distinct (?i # lv_ids X)"
      using ids by (intro mset_eq_imp_distinct_iff) simp
    with rel fresh set show ?thesis by (auto simp: book_rel_at_def)
  qed
  have frame: "same_orders (bk_byID b) ?st Y" using fresh by (intro same_orders_update) auto
  show "book_rel_at D val ((rest_order D b r)\<lparr>bk_lastSeq := n\<rparr>) side (lv_insert D side r X) Y"
    using rel side' wf' dist set side_rel_frame [OF _ frame] wf_side_mono [OF _ n(1)]
    unfolding b' book_rel_at_def by auto
qed

end

end
