(* ===== verification/Matching_Fill.thy ===== *)
theory Matching_Fill
  imports Matching_Refine
begin

text \<open>
  One fill on the concrete book is one fill on its levels, and the two loops of \<^verbatim>\<open>match\<close>
  compute \<open>spec_match\<close>: they return, no internal error is raised, and the book they leave has
  the levels the walk leaves.
\<close>

definition fill_levels :: "('d \<Rightarrow> rat) \<Rightarrow> 'd amount \<Rightarrow> 'd RestingOrder \<Rightarrow> 'd RestingOrder list \<Rightarrow> 'd levels \<Rightarrow> 'd levels" where
  "fill_levels val p m1 os X =
     (if amt_val val (ro_Remaining m1) \<noteq> 0 then (p, m1 # os) # X
      else if os = [] then X else (p, os) # X)"

lemma maker_fill_simps [simp]:
  "ro_OrderID (maker_fill D q u m) = ro_OrderID m" "ro_AccountID (maker_fill D q u m) = ro_AccountID m"
  "ro_Side (maker_fill D q u m) = ro_Side m" "ro_Price (maker_fill D q u m) = ro_Price m"
  "ro_Qty (maker_fill D q u m) = ro_Qty m" "ro_Seq (maker_fill D q u m) = ro_Seq m"
  "ro_Timestamp (maker_fill D q u m) = ro_Timestamp m"
  "ro_Remaining (maker_fill D q u m) = Amount_Sub D (ro_Remaining m) q"
  "ro_FilledQty (maker_fill D q u m) = Amount_Add D (ro_FilledQty m) q"
  "ro_FilledQuote (maker_fill D q u m) = Amount_Add D (ro_FilledQuote m) u"
  by (simp_all add: maker_fill_def)

lemma event_as_order [simp]:
  "trade_event seq i o' p q u (as_order k m) = trade_event seq i o' p q u m"
  "maker_event D seq (as_order k m) = maker_event D seq m"
  by (simp_all add: trade_event_def maker_event_def)

lemma multiple_diff: "multiple a s \<Longrightarrow> multiple b s \<Longrightarrow> multiple (a - b) s"
  by (auto simp: multiple_def simp flip: left_diff_distrib of_int_diff)

lemma wf_side_ConsD: "wf_side val cfg side n ((p, os) # X) \<Longrightarrow> wf_side val cfg side n X"
  by (simp add: wf_side_Cons)

context decimal
begin

lemma wf_order_fill:
  assumes "wf_order val cfg side p m" and "0 < V qty" "V qty < V (ro_Remaining m)"
    "multiple (V qty) (V (mc_QtyStep cfg))" and "0 \<le> V quote"
  shows "wf_order val cfg side p (maker_fill D qty quote m)"
  using assms by (auto simp: wf_order_def intro: multiple_diff)

lemma wf_side_fill:
  assumes wf: "wf_side val cfg side n ((p, m # os) # X)"
    and qty: "0 < V qty" "V qty \<le> V (ro_Remaining m)" "multiple (V qty) (V (mc_QtyStep cfg))" "0 \<le> V quote"
  shows "wf_side val cfg side n (fill_levels val p (maker_fill D qty quote m) os X)"
proof (cases "V qty = V (ro_Remaining m)")
  case True
  then show ?thesis using wf by (auto simp: fill_levels_def wf_side_Cons)
next
  case False
  then have "wf_order val cfg side p (maker_fill D qty quote m)"
    using wf qty by (intro wf_order_fill) (auto simp: wf_side_Cons)
  then show ?thesis using wf False by (auto simp: fill_levels_def wf_side_Cons)
qed

text \<open>The level of the maker after the fill, before a filled maker is popped.\<close>

lemma fill_side_rel:
  fixes m :: "'d RestingOrder"
  assumes side: "side_rel D val side ts st s ((p, m # os) # X)" and keys: "keys_distinct D ts ((p, m # os) # X)"
    and lvl: "level_rel D val ts st lvl p (m # os)"
    and dist: "distinct (lv_ids ((p, m # os) # X))"
  shows "side_rel D val side ts (Mapping.update (ro_OrderID m) (as_order (price_key D ts p) (maker_fill D qty quote m)) st)
      (s\<lparr>bs_levels := Mapping.update (price_key D ts p) (lvl\<lparr>lvl_qty := Amount_Sub D (lvl_qty lvl) qty\<rparr>) (bs_levels s)\<rparr>)
      ((p, maker_fill D qty quote m # os) # X)"
proof -
  let ?m = "maker_fill D qty quote m"
  let ?st = "Mapping.update (ro_OrderID m) (as_order (price_key D ts p) ?m) st"
  let ?lvl = "lvl\<lparr>lvl_qty := Amount_Sub D (lvl_qty lvl) qty\<rparr>"
  have "\<forall>r \<in> set os. ro_OrderID r \<noteq> ro_OrderID m" using dist by (auto simp: image_iff)
  then have new: "level_rel D val ts ?st ?lvl p (?m # os)"
    using lvl by (auto simp: level_rel_def lookup_update')
  have frame: "same_orders st ?st ([] @ X)" using dist by (intro same_orders_update) auto
  have "side_rel D val side ts ?st (s\<lparr>bs_levels := Mapping.update (price_key D ts p) ?lvl (bs_levels s),
      bs_count := bs_count s\<rparr>) ([] @ (p, ?m # os) # X)"
    by (rule side_rel_update [of D val side ts st s "[]" p "m # os" X]) (use side keys new frame in simp_all)
  then show ?thesis by simp
qed

lemma pop_rel:
  assumes side: "side_rel D val side ts st s ((p, m1 # os) # X)" and keys: "keys_distinct D ts ((p, m1 # os) # X)"
    and sorted: "sorted_wrt (val_better val side) (map fst ((p, m1 # os) # X))"
    and dist: "distinct (lv_ids ((p, m1 # os) # X))" and zero: "V (ro_Remaining m1) = 0"
  shows "\<exists>s'. popHead D s (price_key D ts p) = Inr s' \<and>
    side_rel D val side ts (Mapping.delete (ro_OrderID m1) st) s' (if os = [] then X else (p, os) # X)"
proof -
  let ?st = "Mapping.delete (ro_OrderID m1) st" and ?k = "price_key D ts p"
  obtain lvl where lvl: "Mapping.lookup (bs_levels s) ?k = Some lvl" "level_rel D val ts st lvl p (m1 # os)"
    using side_rel_lookup [OF side, of p "m1 # os"] by auto
  let ?lvl = "lvl\<lparr>lvl_orders := map ro_OrderID os\<rparr>"
  have "\<forall>r \<in> set os. ro_OrderID r \<noteq> ro_OrderID m1" using dist by (auto simp: image_iff)
  then have new: "level_rel D val ts ?st ?lvl p os" using lvl(2) zero by (auto simp: level_rel_def)
  have frame: "same_orders st ?st ([] @ X)" using dist by (intro same_orders_delete) auto
  have "side_rel D val side ts ?st (put_level D s ?k ?lvl) (if os = [] then [] @ X else [] @ (p, os) # X)"
    by (rule put_level_rel [of side ts st s "[]" p "m1 # os" X]) (use side keys sorted new frame in simp_all)
  moreover have "popHead D s ?k = Inr (put_level D s ?k ?lvl)"
    using lvl by (simp add: popHead_def level_rel_def)
  ultimately show ?thesis by (cases "os = []") auto
qed

lemma fill_rel:
  fixes m :: "'d RestingOrder"
  assumes rel: "book_rel_at D val (ms_book st) side ((p, m # os) # X) Y"
    and lvl: "Mapping.lookup (bs_levels (sideOf (ms_book st) side)) k = Some lvl"
    and k: "k = price_key D (bk_tickScale (ms_book st)) p"
    and qty: "0 < V qty" "V qty \<le> V (ro_Remaining m)" "multiple (V qty) (V (mc_QtyStep (bk_cfg (ms_book st))))"
      "0 \<le> V quote"
  defines "m1 \<equiv> maker_fill D qty quote m"
  shows "\<exists>b'. fill D seq side k lvl (as_order k m) qty quote st =
      (st\<lparr>ms_book := b', ms_taker := taker_fill D qty quote (ms_taker st),
          ms_events := ms_events st @ [trade_event seq (ms_idx st) (tk_o (ms_taker st)) p qty quote m1,
                                       maker_event D seq m1],
          ms_idx := ms_idx st + 1\<rparr>, Continue) \<and>
    book_rel_at D val b' side (fill_levels val p m1 os X) Y \<and>
    bk_cfg b' = bk_cfg (ms_book st) \<and> bk_lastSeq b' = bk_lastSeq (ms_book st)"
proof -
  let ?b = "ms_book st" and ?ts = "bk_tickScale (ms_book st)" and ?i = "ro_OrderID m"
  let ?s = "sideOf ?b side"
  let ?s1 = "?s\<lparr>bs_levels := Mapping.update k (lvl\<lparr>lvl_qty := Amount_Sub D (lvl_qty lvl) qty\<rparr>) (bs_levels ?s)\<rparr>"
  let ?st1 = "Mapping.update ?i (as_order k m1) (bk_byID ?b)"
  have side: "side_rel D val side ?ts (bk_byID ?b) ?s ((p, m # os) # X)"
    and wf: "wf_side val (bk_cfg ?b) side (bk_lastSeq ?b) ((p, m # os) # X)"
    and dist: "distinct (lv_ids ((p, m # os) # X) @ lv_ids Y)"
    and dom: "Mapping.keys (bk_byID ?b) = set (lv_ids ((p, m # os) # X) @ lv_ids Y)"
    using rel unfolding book_rel_at_def by blast+
  note keys = book_rel_at_keys [OF rel]
  have lrel: "level_rel D val ?ts (bk_byID ?b) lvl p (m # os)"
    using side_rel_lookup [OF side, of p "m # os"] lvl k by auto
  then have price: "lvl_price lvl = p" by (simp add: level_rel_def)
  have side1: "side_rel D val side ?ts ?st1 ?s1 ((p, m1 # os) # X)"
    unfolding m1_def k by (rule fill_side_rel [OF side keys(1) lrel]) (use dist in auto)
  have wf': "wf_side val (bk_cfg ?b) side (bk_lastSeq ?b) (fill_levels val p m1 os X)"
    unfolding m1_def using wf qty by (rule wf_side_fill)
  have m1: "ro_OrderID m1 = ?i" by (simp add: m1_def)
  show ?thesis
  proof (cases "V (ro_Remaining m1) = 0")
    case False
    have "book_rel_at D val ((set_side ?b side ?s1)\<lparr>bk_byID := ?st1\<rparr>) side ((p, m1 # os) # X) Y"
      using rel side1
    proof (rule book_rel_at_change)
      show "wf_side val (bk_cfg ?b) side (bk_lastSeq ?b) ((p, m1 # os) # X)"
        using wf' False by (simp add: fill_levels_def)
      show "same_orders (bk_byID ?b) ?st1 Y" using dist by (intro same_orders_update) auto
    qed (use dist dom m1 in auto)
    with False m1 price show ?thesis
      by (intro exI [of _ "(set_side ?b side ?s1)\<lparr>bk_byID := ?st1\<rparr>"])
        (simp add: fill_def Let_def fill_levels_def flip: m1_def)
  next
    case True
    have "\<exists>s'. popHead D ?s1 (price_key D ?ts p) = Inr s' \<and>
        side_rel D val side ?ts (Mapping.delete (ro_OrderID m1) ?st1) s' (if os = [] then X else (p, os) # X)"
      by (rule pop_rel [OF side1 _ _ _ True]) (use keys dist m1 in \<open>auto simp: keys_distinct_def\<close>)
    then obtain s' where pop: "popHead D ?s1 k = Inr s'"
      and side': "side_rel D val side ?ts (Mapping.delete ?i (bk_byID ?b)) s' (if os = [] then X else (p, os) # X)"
      by (auto simp: m1 k)
    have "book_rel_at D val ((set_side ?b side s')\<lparr>bk_byID := Mapping.delete ?i (bk_byID ?b)\<rparr>) side
        (if os = [] then X else (p, os) # X) Y"
      using rel side'
    proof (rule book_rel_at_change)
      show "wf_side val (bk_cfg ?b) side (bk_lastSeq ?b) (if os = [] then X else (p, os) # X)"
        using wf' True by (simp add: fill_levels_def)
      show "same_orders (bk_byID ?b) (Mapping.delete ?i (bk_byID ?b)) Y"
        using dist by (intro same_orders_delete) auto
    qed (use dist dom in auto)
    with True pop m1 price show ?thesis
      by (intro exI [of _ "(set_side ?b side s')\<lparr>bk_byID := Mapping.delete ?i (bk_byID ?b)\<rparr>"])
        (simp add: fill_def Let_def fill_levels_def flip: m1_def)
  qed
qed

end

section \<open>Quantities\<close>

text \<open>What the taker still may take: a multiple of the step, or a budget in the quote asset.\<close>

definition taker_ok :: "('d \<Rightarrow> rat) \<Rightarrow> 'd MarketConfig \<Rightarrow> 'd taker \<Rightarrow> bool" where
  "taker_ok val cfg t \<longleftrightarrow>
     (if marketBuy t then 0 \<le> amt_val val (tk_quoteRem t)
      else 0 \<le> amt_val val (tk_remaining t) \<and>
           multiple (amt_val val (tk_remaining t)) (amt_val val (mc_QtyStep cfg)))"

lemma taker_fill_simps [simp]:
  "tk_o (taker_fill D q u t) = tk_o t" "tk_stop (taker_fill D q u t) = tk_stop t"
  "marketBuy (taker_fill D q u t) = marketBuy t"
  "tk_filledQty (taker_fill D q u t) = Amount_Add D (tk_filledQty t) q"
  "tk_filledQuote (taker_fill D q u t) = Amount_Add D (tk_filledQuote t) u"
  "tk_remaining (taker_fill D q u t) = (if marketBuy t then tk_remaining t else Amount_Sub D (tk_remaining t) q)"
  "tk_quoteRem (taker_fill D q u t) = (if marketBuy t then Amount_Sub D (tk_quoteRem t) u else tk_quoteRem t)"
  by (auto simp: taker_fill_def marketBuy_def Let_def)

lemma floor_of_floor_div:
  fixes y :: rat assumes "0 < k"
  shows "\<lfloor>of_int \<lfloor>y\<rfloor> / of_int k :: rat\<rfloor> = \<lfloor>y / of_int k\<rfloor>"
proof -
  have k: "(0::rat) < of_int k" using assms by simp
  have "z \<le> \<lfloor>of_int \<lfloor>y\<rfloor> / (of_int k :: rat)\<rfloor> \<longleftrightarrow> z \<le> \<lfloor>y / of_int k\<rfloor>" for z
  proof -
    have "z \<le> \<lfloor>of_int \<lfloor>y\<rfloor> / (of_int k :: rat)\<rfloor> \<longleftrightarrow> of_int (z * k) \<le> (of_int \<lfloor>y\<rfloor> :: rat)"
      using k by (simp add: le_floor_iff pos_le_divide_eq)
    also have "\<dots> \<longleftrightarrow> z * k \<le> \<lfloor>y\<rfloor>" by (simp only: of_int_le_iff)
    also have "\<dots> \<longleftrightarrow> z \<le> \<lfloor>y / of_int k\<rfloor>" using k by (simp add: le_floor_iff pos_le_divide_eq)
    finally show ?thesis .
  qed
  then show ?thesis by (metis order_refl antisym)
qed

context decimal
begin

text \<open>
  The quotient is truncated to 18 digits before it is rounded down to the step; because the step
  has at most 18 digits itself, the result is the exact quotient rounded down to the step.
\<close>

lemma floorToStep_quotient:
  assumes p: "0 < V p" and step: "0 < V step" "Amount_Scale D step \<le> MaxScale" and x: "0 \<le> V x"
  shows "\<exists>q. floorToStep D (quotient D x p) step = Inr q \<and> V q = of_int \<lfloor>V x / (V p * V step)\<rfloor> * V step"
proof -
  obtain q1 where q1: "DivRoundDown D x p (int 18) = Inr q1"
    "V q1 = of_int (trunc_rat (V x / V p * 10 ^ 18)) / 10 ^ 18"
    using DivRoundDown_ok [of p 18 x] p by (auto simp: MaxScale_def)
  have z: "0 \<le> V x / V p * 10 ^ 18" using p x by simp
  have quot: "quotient D x p = q1" using q1(1) by (simp add: quotient_def MaxScale_def)
  have Vq1: "V q1 = of_int \<lfloor>V x / V p * 10 ^ 18\<rfloor> / 10 ^ 18"
    using q1(2) trunc_rat_nonneg [OF z] by simp
  have "fits 18 (V step)" using step(2) Scale_le_iff [of step 18] by (simp add: MaxScale_def)
  then obtain k where k: "V step * 10 ^ 18 = of_int k" by (auto simp: fits_def elim: Ints_cases)
  then have Vs: "V step = of_int k / 10 ^ 18" by (simp add: field_simps)
  with step(1) have kpos: "0 < k" by (simp add: zero_less_divide_iff)
  have "V q1 / V step = of_int \<lfloor>V x / V p * 10 ^ 18\<rfloor> / of_int k" by (simp add: Vq1 Vs)
  then have "\<lfloor>V q1 / V step\<rfloor> = \<lfloor>V x / V p * 10 ^ 18 / of_int k\<rfloor>"
    by (simp only: floor_of_floor_div [OF kpos])
  also have "V x / V p * 10 ^ 18 / of_int k = V x / (V p * V step)" using p kpos by (simp add: Vs)
  finally have fl: "\<lfloor>V q1 / V step\<rfloor> = \<lfloor>V x / (V p * V step)\<rfloor>" .
  have "0 \<le> V q1 / V step" using step(1) z by (simp add: Vq1)
  then have tr: "trunc_rat (V q1 / V step) = \<lfloor>V x / (V p * V step)\<rfloor>" using fl by (simp add: trunc_rat_nonneg)
  obtain n where "DivRoundDown D q1 step (int 0) = Inr n" "V n = of_int (trunc_rat (V q1 / V step * 10 ^ 0)) / 10 ^ 0"
    using DivRoundDown_ok [of step 0 q1] step(1) by (auto simp: MaxScale_def)
  with tr show ?thesis by (simp add: floorToStep_def quot)
qed

lemma step_scale:
  assumes "MarketConfig_Validate D cfg = None"
  shows "0 < V (mc_QtyStep cfg)" "Amount_Scale D (mc_QtyStep cfg) \<le> MaxScale"
  using assms by (auto simp: Config_ok MaxScale_def)

lemma taker_take_buy:
  assumes "MarketConfig_Validate D cfg = None" and "0 < V p" and "taker_ok val cfg t" and "marketBuy t"
  shows "takerQty D cfg t p = Inr (taker_take D cfg t p)"
    and "V (taker_take D cfg t p) = of_int \<lfloor>V (tk_quoteRem t) / (V p * V (mc_QtyStep cfg))\<rfloor> * V (mc_QtyStep cfg)"
  using floorToStep_quotient [OF assms(2) step_scale [OF assms(1)], of "tk_quoteRem t"] assms(3,4)
  by (auto simp: takerQty_def taker_take_def taker_ok_def)

lemma taker_take_base:
  assumes "\<not> marketBuy t"
  shows "takerQty D cfg t p = Inr (taker_take D cfg t p)" and "taker_take D cfg t p = tk_remaining t"
  using assms by (simp_all add: takerQty_def taker_take_def)

lemma takerQty_ok:
  assumes "MarketConfig_Validate D cfg = None" and "0 < V p" and "taker_ok val cfg t"
  shows "takerQty D cfg t p = Inr (taker_take D cfg t p)"
    and "multiple (V (taker_take D cfg t p)) (V (mc_QtyStep cfg))" and "0 \<le> V (taker_take D cfg t p)"
    and "marketBuy t \<Longrightarrow> V p * V (taker_take D cfg t p) \<le> V (tk_quoteRem t)"
proof -
  note step = step_scale [OF assms(1)]
  let ?n = "\<lfloor>V (tk_quoteRem t) / (V p * V (mc_QtyStep cfg))\<rfloor>"
  have n: "0 \<le> ?n" if "marketBuy t" using that assms step by (simp add: taker_ok_def)
  have le: "V p * (of_int ?n * V (mc_QtyStep cfg)) \<le> V (tk_quoteRem t)"
  proof -
    have "of_int ?n * (V p * V (mc_QtyStep cfg)) \<le> V (tk_quoteRem t)"
      using floor_divide_lower [of "V p * V (mc_QtyStep cfg)" "V (tk_quoteRem t)"] assms(2) step by simp
    then show ?thesis by (simp add: algebra_simps)
  qed
  show "takerQty D cfg t p = Inr (taker_take D cfg t p)"
    using taker_take_buy(1) [OF assms] taker_take_base(1) [of t] by (cases "marketBuy t") auto
  show "multiple (V (taker_take D cfg t p)) (V (mc_QtyStep cfg))" and "0 \<le> V (taker_take D cfg t p)"
    using taker_take_buy(2) [OF assms] taker_take_base(2) [of t] assms(3) step n
    by (cases "marketBuy t"; auto simp: taker_ok_def multiple_def)+
  show "V p * V (taker_take D cfg t p) \<le> V (tk_quoteRem t)" if "marketBuy t"
    using taker_take_buy(2) [OF assms that] le by simp
qed

text \<open>A fill stays within the maker and the taker, and its quote amount within the scale.\<close>

lemma fill_qty_ok:
  assumes cfg: "MarketConfig_Validate D cfg = None" and p: "wf_price val cfg p" and m: "wf_order val cfg side p m"
    and t: "taker_ok val cfg t" and ex: "\<not> exhausted D t"
    and z: "\<not> (marketBuy t \<and> Amount_IsZero D (taker_take D cfg t p))"
  defines "q \<equiv> fill_qty D cfg t p m"
  shows "0 < V q" and "V q \<le> V (ro_Remaining m)" and "multiple (V q) (V (mc_QtyStep cfg))"
    and "V q \<le> V (taker_take D cfg t p)" and "0 \<le> V (Amount_Mul D p q)"
    and "Amount_Scale D (Amount_Mul D p q) \<le> mc_QuoteScale cfg"
    and "taker_ok val cfg (taker_fill D q (Amount_Mul D p q) t)"
proof -
  have p0: "0 < V p" using p by (simp add: wf_price_def)
  note tk = takerQty_ok [OF cfg p0 t]
  have take0: "0 < V (taker_take D cfg t p)"
    using tk(3) z ex taker_take_base(2) [of t cfg p] by (cases "marketBuy t") (auto simp: exhausted_def less_le)
  have r: "0 < V (ro_Remaining m)" "multiple (V (ro_Remaining m)) (V (mc_QtyStep cfg))"
    using m by (simp_all add: wf_order_def)
  show q0: "0 < V q" and "V q \<le> V (ro_Remaining m)" and mq: "multiple (V q) (V (mc_QtyStep cfg))"
    and qt: "V q \<le> V (taker_take D cfg t p)"
    using take0 r tk(2) by (auto simp: q_def fill_qty_def)
  then show "0 \<le> V (Amount_Mul D p q)" using p0 by simp
  have "fits (nat (Amount_Scale D (mc_PriceTick cfg)) + nat (Amount_Scale D (mc_QtyStep cfg))) (V p * V q)"
    using p mq by (intro fits_mult multiple_fits) (auto simp: wf_price_def)
  then have "Amount_Scale D (Amount_Mul D p q) \<le> Amount_Scale D (mc_PriceTick cfg) + Amount_Scale D (mc_QtyStep cfg)"
    by (subst Scale_le_iff') (auto simp: nat_add_distrib)
  also have "\<dots> \<le> mc_QuoteScale cfg" using cfg by (simp add: Config_ok)
  finally show "Amount_Scale D (Amount_Mul D p q) \<le> mc_QuoteScale cfg" .
  have "V p * V q \<le> V p * V (taker_take D cfg t p)" using p0 qt by simp
  then show "taker_ok val cfg (taker_fill D q (Amount_Mul D p q) t)"
    using t mq qt tk(4) taker_take_base(2) [of t cfg p]
    by (cases "marketBuy t") (auto simp: taker_ok_def intro: multiple_diff)
qed

text \<open>When the maker is not used up the taker is done.\<close>

lemma taker_done:
  assumes cfg: "MarketConfig_Validate D cfg = None" and p: "wf_price val cfg p"
    and t: "taker_ok val cfg t" and part: "\<not> Amount_IsZero D (ro_Remaining (maker_fill D (fill_qty D cfg t p m) u m))"
  defines "t1 \<equiv> taker_fill D (fill_qty D cfg t p m) (Amount_Mul D p (fill_qty D cfg t p m)) t"
  shows "exhausted D t1 \<or> marketBuy t1 \<and> Amount_IsZero D (taker_take D cfg t1 p)"
proof -
  have q: "fill_qty D cfg t p m = taker_take D cfg t p" using part by (auto simp: fill_qty_def)
  have p0: "0 < V p" using p by (simp add: wf_price_def)
  show ?thesis
  proof (cases "marketBuy t")
    case False
    then show ?thesis using q taker_take_base(2) [of t cfg p] by (simp add: t1_def exhausted_def)
  next
    case True
    let ?d = "V p * V (mc_QtyStep cfg)" and ?n = "\<lfloor>V (tk_quoteRem t) / (V p * V (mc_QtyStep cfg))\<rfloor>"
    have d: "0 < ?d" using p0 step_scale [OF cfg] by simp
    have Vq: "V (fill_qty D cfg t p m) = of_int ?n * V (mc_QtyStep cfg)"
      using q taker_take_buy(2) [OF cfg p0 t True] by simp
    then have "V p * V (fill_qty D cfg t p m) = of_int ?n * ?d" by (simp only: mult.left_commute)
    then have rem: "V (tk_quoteRem t1) = V (tk_quoteRem t) - of_int ?n * ?d"
      using True by (simp add: t1_def)
    have "taker_ok val cfg t1"
      using True rem floor_divide_lower [OF d, of "V (tk_quoteRem t)"] by (simp add: taker_ok_def) (simp add: t1_def)
    moreover have "V (tk_quoteRem t1) / ?d = V (tk_quoteRem t) / ?d - of_int ?n"
      using d by (simp add: rem diff_divide_distrib)
    ultimately have "V (taker_take D cfg t1 p) = 0"
      using True taker_take_buy(2) [OF cfg p0, of t1] by (simp add: t1_def)
    with True show ?thesis by (simp add: t1_def)
  qed
qed

end

section \<open>The loops\<close>

text \<open>
  A run of a loop from \<open>st\<close> on a book with the levels \<open>X\<close> and \<open>Y\<close> came to what the
  specification says, without an error.
\<close>

definition refines :: "'d decimal_pkg \<Rightarrow> ('d \<Rightarrow> rat) \<Rightarrow> u64 \<Rightarrow> 'd amount option \<Rightarrow> Side \<Rightarrow> 'd mstate \<Rightarrow>
    'd queue \<Rightarrow> 'd levels \<Rightarrow> ('d mstate \<times> outcome) option \<Rightarrow> bool" where
  "refines D val seq band opp st ms Y r \<longleftrightarrow>
     (\<exists>st' out L ms' t' evs. r = Some (st', out) \<and> out \<noteq> Failed Panic \<and> (\<forall>e. out \<noteq> Failed e) \<and>
        spec_match D (bk_cfg (ms_book st)) seq band (ms_idx st) (ms_taker st) ms = (ms', t', evs) \<and>
        flat L = ms' \<and> ms_taker st' = t' \<and> ms_events st' = ms_events st @ evs \<and>
        book_rel_at D val (ms_book st') opp L Y \<and>
        bk_cfg (ms_book st') = bk_cfg (ms_book st) \<and> bk_lastSeq (ms_book st') = bk_lastSeq (ms_book st))"

lemma refines_stop:
  assumes "book_rel_at D val (ms_book st) opp X Y" and "out \<in> {Continue, Stopped}"
    and "spec_match D (bk_cfg (ms_book st)) seq band (ms_idx st) (ms_taker st) (flat X) = (flat X, t', [])"
  shows "refines D val seq band opp st (flat X) Y (Some (st\<lparr>ms_taker := t'\<rparr>, out))"
  using assms unfolding refines_def by fastforce

lemma refines_stop_same:
  assumes "book_rel_at D val (ms_book st) opp X Y" and "out \<in> {Continue, Stopped}"
    and "spec_match D (bk_cfg (ms_book st)) seq band (ms_idx st) (ms_taker st) (flat X) = (flat X, ms_taker st, [])"
  shows "refines D val seq band opp st (flat X) Y (Some (st, out))"
  using refines_stop [OF assms] by simp

text \<open>The rest of the matching once the outer loop has entered the level with key \<open>k\<close>.\<close>

definition rest_of_match :: "'d decimal_pkg \<Rightarrow> u64 \<Rightarrow> Side \<Rightarrow> 'd amount option \<Rightarrow> string \<Rightarrow> 'd mstate \<Rightarrow>
    ('d mstate \<times> outcome) option" where
  "rest_of_match D seq opp band k st =
     Option.bind (match_level D seq opp k st)
       (\<lambda>(st', out). if out = Continue then match_loop D seq opp band st' else Some (st', out))"

lemma rest_of_match_leave:
  "match_level D seq opp k st = Some (st', out) \<Longrightarrow>
    rest_of_match D seq opp band k st = (if out = Continue then match_loop D seq opp band st' else Some (st', out))"
  by (simp add: rest_of_match_def)

lemma match_loop_exhausted:
  "exhausted D (ms_taker st) \<Longrightarrow> match_loop D seq opp band st = Some (st, Continue)"
  by (simp add: match_loop.simps)

context decimal
begin

text \<open>One turn of the inner loop, when the level has a first order.\<close>

lemma rest_of_match_turn:
  assumes rel: "book_rel_at D val (ms_book st) side ((p, m # os) # X) Y"
    and k: "k = price_key D (bk_tickScale (ms_book st)) p" and ex: "\<not> exhausted D (ms_taker st)"
  obtains lvl where "Mapping.lookup (bs_levels (sideOf (ms_book st) side)) k = Some lvl"
    "lvl_price lvl = p"
    "rest_of_match D seq side band k st =
       (case match_order D seq side k lvl (as_order k m) st of
          (st', out) \<Rightarrow> if out = Continue then rest_of_match D seq side band k st' else Some (st', out))"
proof -
  have side: "side_rel D val side (bk_tickScale (ms_book st)) (bk_byID (ms_book st)) (sideOf (ms_book st) side)
      ((p, m # os) # X)"
    using rel unfolding book_rel_at_def by blast
  then obtain lvl where lvl: "Mapping.lookup (bs_levels (sideOf (ms_book st) side)) k = Some lvl"
    "level_rel D val (bk_tickScale (ms_book st)) (bk_byID (ms_book st)) lvl p (m # os)"
    using side_rel_lookup [OF side, of p "m # os"] by (auto simp: k)
  have "match_level D seq side k st =
      (case match_order D seq side k lvl (as_order k m) st of
         (st', out) \<Rightarrow> if out = Continue then match_level D seq side k st' else Some (st', out))"
    using lvl ex by (subst match_level.simps) (simp add: level_rel_def k)
  then show ?thesis using lvl
    by (intro that [of lvl]) (auto simp: rest_of_match_def level_rel_def split: prod.splits)
qed

lemma takerQty_stop:
  assumes "\<not> self_trade (bk_cfg (ms_book st)) (tk_o (ms_taker st)) m"
    and "takerQty D (bk_cfg (ms_book st)) (ms_taker st) (lvl_price lvl) = Inr q"
    and "marketBuy (ms_taker st)" "Amount_IsZero D q"
  shows "match_order D seq side k lvl (as_order k m) st = (st, Stopped)"
  using assms by (auto simp: match_order_def self_trade_def Let_def)

lemma rest_of_match_exhausted:
  assumes rel: "book_rel_at D val (ms_book st) side ((p, m # os) # X) Y"
    and k: "k = price_key D (bk_tickScale (ms_book st)) p" and ex: "exhausted D (ms_taker st)"
  shows "\<exists>out \<in> {Continue, Stopped}. rest_of_match D seq side band k st = Some (st, out)"
proof -
  have side: "side_rel D val side (bk_tickScale (ms_book st)) (bk_byID (ms_book st)) (sideOf (ms_book st) side)
      ((p, m # os) # X)"
    using rel unfolding book_rel_at_def by blast
  then obtain lvl where lvl: "Mapping.lookup (bs_levels (sideOf (ms_book st) side)) k = Some lvl"
    "level_rel D val (bk_tickScale (ms_book st)) (bk_byID (ms_book st)) lvl p (m # os)"
    using side_rel_lookup [OF side, of p "m # os"] by (auto simp: k)
  then have "match_level D seq side k st = Some (st, Continue)"
    using ex by (subst match_level.simps) (simp add: level_rel_def)
  with ex show ?thesis by (simp add: rest_of_match_leave match_loop_exhausted)
qed

text \<open>After the maker was filled in part the loop ends at once.\<close>

lemma rest_of_match_done:
  assumes rel: "book_rel_at D val (ms_book st) side ((p, m # os) # X) Y"
    and k: "k = price_key D (bk_tickScale (ms_book st)) p" and t: "taker_ok val (bk_cfg (ms_book st)) (ms_taker st)"
    and self: "\<not> self_trade (bk_cfg (ms_book st)) (tk_o (ms_taker st)) m"
    and fin: "exhausted D (ms_taker st) \<or>
      marketBuy (ms_taker st) \<and> Amount_IsZero D (taker_take D (bk_cfg (ms_book st)) (ms_taker st) p)"
  shows "\<exists>out \<in> {Continue, Stopped}. rest_of_match D seq side band k st = Some (st, out)"
proof (cases "exhausted D (ms_taker st)")
  case True
  then show ?thesis by (rule rest_of_match_exhausted [OF rel k])
next
  case False
  with fin have mb: "marketBuy (ms_taker st)" and z: "Amount_IsZero D (taker_take D (bk_cfg (ms_book st)) (ms_taker st) p)"
    by auto
  have p: "0 < V p" and cfg: "MarketConfig_Validate D (bk_cfg (ms_book st)) = None"
    using rel by (auto simp: book_rel_at_def wf_side_Cons wf_price_def)
  obtain lvl where "lvl_price lvl = p" "rest_of_match D seq side band k st =
       (case match_order D seq side k lvl (as_order k m) st of
          (st', out) \<Rightarrow> if out = Continue then rest_of_match D seq side band k st' else Some (st', out))"
    by (rule rest_of_match_turn [OF rel k False, of seq band]) (rule that)
  with takerQty_stop [OF self, of lvl] takerQty_ok(1) [OF cfg p t] mb z show ?thesis by simp
qed

lemma refines_turn:
  assumes "refines D val seq band opp st1 ms1 Y r"
    and "bk_cfg (ms_book st1) = bk_cfg (ms_book st)" "bk_lastSeq (ms_book st1) = bk_lastSeq (ms_book st)"
    and "ms_events st1 = ms_events st @ ev"
    and "spec_match D (bk_cfg (ms_book st)) seq band (ms_idx st) (ms_taker st) ms =
      (case spec_match D (bk_cfg (ms_book st)) seq band (ms_idx st1) (ms_taker st1) ms1 of
         (ms', t', evs) \<Rightarrow> (ms', t', ev @ evs))"
  shows "refines D val seq band opp st ms Y r"
  using assms unfolding refines_def by fastforce

lemma level_gone:
  assumes rel: "book_rel_at D val b side X Y" and keys: "keys_distinct D (bk_tickScale b) ((p, os) # X)"
  shows "Mapping.lookup (bs_levels (sideOf b side)) (price_key D (bk_tickScale b) p) = None"
proof -
  have side: "side_rel D val side (bk_tickScale b) (bk_byID b) (sideOf b side) X"
    using rel unfolding book_rel_at_def by blast
  have "price_key D (bk_tickScale b) p \<notin> price_key D (bk_tickScale b) ` fst ` set X"
    using keys by (simp add: keys_distinct_def image_image)
  with side_rel_keys [OF side] show ?thesis by (metis option.exhaust)
qed

lemma spec_match_fill:
  assumes "\<not> exhausted D t" and "\<not> (no_Type (tk_o t) = Limit \<and> \<not> crosses D (no_Side (tk_o t)) (no_Price (tk_o t)) p)"
    and "\<not> outside D band (no_Side (tk_o t)) p" and "\<not> self_trade cfg (tk_o t) m"
    and "\<not> (marketBuy t \<and> Amount_IsZero D (taker_take D cfg t p))"
  shows "spec_match D cfg seq band idx t ((p, m) # ms) =
    (let qty = fill_qty D cfg t p m; quote = Amount_Mul D p qty; m1 = maker_fill D qty quote m;
         evs = [trade_event seq idx (tk_o t) p qty quote m1, maker_event D seq m1]
     in if Amount_IsZero D (ro_Remaining m1)
        then (case spec_match D cfg seq band (idx + 1) (taker_fill D qty quote t) ms of
                (ms', t', evs') \<Rightarrow> (ms', t', evs @ evs'))
        else ((p, m1) # ms, taker_fill D qty quote t, evs))"
proof -
  from assms(1,2) have "\<not> (exhausted D t \<or> no_Type (tk_o t) = Limit \<and> \<not> crosses D (no_Side (tk_o t)) (no_Price (tk_o t)) p)"
    by blast
  then show ?thesis
    unfolding spec_match.simps Let_def if_not_P [OF assms(3)] if_not_P [OF assms(4)] if_not_P [OF assms(5)]
    by (rule if_not_P)
qed

lemma match_order_fill:
  assumes rel: "book_rel_at D val (ms_book st) side ((p, m # os) # X) Y"
    and t: "taker_ok val (bk_cfg (ms_book st)) (ms_taker st)" and ex: "\<not> exhausted D (ms_taker st)"
    and self: "\<not> self_trade (bk_cfg (ms_book st)) (tk_o (ms_taker st)) m"
    and nz: "\<not> (marketBuy (ms_taker st) \<and> Amount_IsZero D (taker_take D (bk_cfg (ms_book st)) (ms_taker st) p))"
    and lvl: "lvl_price lvl = p"
  shows "match_order D seq side k lvl (as_order k m) st =
    fill D seq side k lvl (as_order k m) (fill_qty D (bk_cfg (ms_book st)) (ms_taker st) p m)
      (Amount_Mul D p (fill_qty D (bk_cfg (ms_book st)) (ms_taker st) p m)) st"
proof -
  have cfg: "MarketConfig_Validate D (bk_cfg (ms_book st)) = None" and p: "wf_price val (bk_cfg (ms_book st)) p"
    and m: "wf_order val (bk_cfg (ms_book st)) side p m"
    using rel by (auto simp: book_rel_at_def wf_side_Cons)
  then have p0: "0 < V p" by (simp add: wf_price_def)
  have "\<not> (ro_AccountID m = no_AccountID (tk_o (ms_taker st)) \<and>
      mc_SelfTradePolicy (bk_cfg (ms_book st)) = STPCancelNewest)"
    using self by (simp add: self_trade_def)
  with nz lvl takerQty_ok(1) [OF cfg p0 t] fill_qty_ok(6) [OF cfg p m t ex nz]
  show ?thesis unfolding match_order_def Let_def as_order_simps
    by (simp only: if_False sum.case fill_qty_def not_less [symmetric] simp_thms)
qed

lemma inner_refines:
  assumes outer: "\<And>st. book_rel_at D val (ms_book st) side X Y \<Longrightarrow>
      taker_ok val (bk_cfg (ms_book st)) (ms_taker st) \<Longrightarrow>
      refines D val seq band side st (flat X) Y (match_loop D seq side band st)"
  shows "book_rel_at D val (ms_book st) side ((p, os) # X) Y \<Longrightarrow>
    taker_ok val (bk_cfg (ms_book st)) (ms_taker st) \<Longrightarrow> os \<noteq> [] \<Longrightarrow>
    \<not> (no_Type (tk_o (ms_taker st)) = Limit \<and>
        \<not> crosses D (no_Side (tk_o (ms_taker st))) (no_Price (tk_o (ms_taker st))) p) \<Longrightarrow>
    \<not> outside D band (no_Side (tk_o (ms_taker st))) p \<Longrightarrow>
    refines D val seq band side st (flat ((p, os) # X)) Y
      (rest_of_match D seq side band (price_key D (bk_tickScale (ms_book st)) p) st)"
proof (induction os arbitrary: st)
  case (Cons m os)
  let ?t = "ms_taker st" and ?cfg = "bk_cfg (ms_book st)" and ?k = "price_key D (bk_tickScale (ms_book st)) p"
  note rel = Cons.prems(1) and t = Cons.prems(2) and cross = Cons.prems(4) and band = Cons.prems(5)
  have cfg: "MarketConfig_Validate D ?cfg = None" and p: "wf_price val ?cfg p"
    and m: "wf_order val ?cfg side p m"
    using rel by (auto simp: book_rel_at_def wf_side_Cons)
  then have p0: "0 < V p" by (simp add: wf_price_def)
  have ts: "bk_tickScale b = Amount_Scale D (mc_PriceTick (bk_cfg b))" if "book_rel_at D val b side Z Y" for b Z
    using that unfolding book_rel_at_def by blast
  show ?case
  proof (cases "exhausted D ?t \<or> self_trade ?cfg (tk_o ?t) m \<or>
      marketBuy ?t \<and> Amount_IsZero D (taker_take D ?cfg ?t p)")
    case True
    show ?thesis
    proof (cases "self_trade ?cfg (tk_o ?t) m \<and> \<not> exhausted D ?t")
      case False
      with True obtain out where "out \<in> {Continue, Stopped}" "rest_of_match D seq side band ?k st = Some (st, out)"
        using rest_of_match_done [OF rel refl t] rest_of_match_exhausted [OF rel refl] by metis
      moreover have "spec_match D ?cfg seq band (ms_idx st) ?t (flat ((p, m # os) # X))
          = (flat ((p, m # os) # X), ?t, [])"
        using False True cross band by (auto simp: Let_def)
      ultimately show ?thesis using refines_stop_same [OF rel] by metis
    next
      case self: True
      then have ex: "\<not> exhausted D ?t" by blast
      obtain lvl where "lvl_price lvl = p"
        and turn: "rest_of_match D seq side band ?k st =
         (case match_order D seq side ?k lvl (as_order ?k m) st of
            (st', out) \<Rightarrow> if out = Continue then rest_of_match D seq side band ?k st' else Some (st', out))"
        by (rule rest_of_match_turn [OF rel refl ex, of seq band]) (rule that)
      moreover have "match_order D seq side ?k lvl (as_order ?k m) st
          = (st\<lparr>ms_taker := ?t\<lparr>tk_stop := Some CancelSelfTrade\<rparr>\<rparr>, Stopped)"
        using self by (simp add: match_order_def self_trade_def Let_def)
      moreover have "spec_match D ?cfg seq band (ms_idx st) ?t (flat ((p, m # os) # X))
          = (flat ((p, m # os) # X), ?t\<lparr>tk_stop := Some CancelSelfTrade\<rparr>, [])"
        using self cross band by (auto simp: Let_def)
      ultimately show ?thesis using refines_stop [OF rel, of Stopped] by simp
    qed
  next
    case False
    then have ex: "\<not> exhausted D ?t" and self: "\<not> self_trade ?cfg (tk_o ?t) m"
      and nz: "\<not> (marketBuy ?t \<and> Amount_IsZero D (taker_take D ?cfg ?t p))" by blast+
    let ?q = "fill_qty D ?cfg ?t p m"
    let ?m = "maker_fill D ?q (Amount_Mul D p ?q) m" and ?t1 = "taker_fill D ?q (Amount_Mul D p ?q) ?t"
    let ?ev = "[trade_event seq (ms_idx st) (tk_o ?t) p ?q (Amount_Mul D p ?q) ?m, maker_event D seq ?m]"
    note q = fill_qty_ok [OF cfg p m t ex nz]
    obtain lvl where lvl: "Mapping.lookup (bs_levels (sideOf (ms_book st) side)) ?k = Some lvl" "lvl_price lvl = p"
      and turn: "rest_of_match D seq side band ?k st =
       (case match_order D seq side ?k lvl (as_order ?k m) st of
          (st', out) \<Rightarrow> if out = Continue then rest_of_match D seq side band ?k st' else Some (st', out))"
      by (rule rest_of_match_turn [OF rel refl ex, of seq band]) (rule that)
    obtain b' where fill: "fill D seq side ?k lvl (as_order ?k m) ?q (Amount_Mul D p ?q) st =
        (st\<lparr>ms_book := b', ms_taker := ?t1, ms_events := ms_events st @ ?ev, ms_idx := ms_idx st + 1\<rparr>, Continue)"
      and rel': "book_rel_at D val b' side (fill_levels val p ?m os X) Y"
      and same: "bk_cfg b' = ?cfg" "bk_lastSeq b' = bk_lastSeq (ms_book st)"
      using fill_rel [OF rel lvl(1) refl q(1-3,5)] by blast
    define st1 where "st1 = st\<lparr>ms_book := b', ms_taker := ?t1, ms_events := ms_events st @ ?ev, ms_idx := ms_idx st + 1\<rparr>"
    have st1: "ms_book st1 = b'" "ms_taker st1 = ?t1" "ms_events st1 = ms_events st @ ?ev" "ms_idx st1 = ms_idx st + 1"
      by (simp_all add: st1_def)
    have k': "?k = price_key D (bk_tickScale b') p" using ts [OF rel] ts [OF rel'] same by simp
    have r: "rest_of_match D seq side band ?k st = rest_of_match D seq side band ?k st1"
      unfolding turn match_order_fill [OF rel t ex self nz lvl(2)] fill st1_def by simp
    have t1: "taker_ok val (bk_cfg (ms_book st1)) (ms_taker st1)" using q(7) by (simp add: st1 same)
    have spec: "spec_match D ?cfg seq band (ms_idx st) ?t (flat ((p, m # os) # X)) =
        (if Amount_IsZero D (ro_Remaining ?m)
         then (case spec_match D ?cfg seq band (ms_idx st + 1) ?t1 (flat ((p, os) # X)) of
                 (ms', t', evs') \<Rightarrow> (ms', t', ?ev @ evs'))
         else (flat ((p, ?m # os) # X), ?t1, ?ev))"
      using spec_match_fill [OF ex cross band self nz, of seq "ms_idx st" "map (Pair p) os @ flat X"]
      by (simp only: flat_simps list.map append_Cons Let_def)
    show ?thesis
    proof (cases "Amount_IsZero D (ro_Remaining ?m)")
      case False
      then have L: "fill_levels val p ?m os X = (p, ?m # os) # X" by (simp add: fill_levels_def)
      have "\<not> self_trade (bk_cfg (ms_book st1)) (tk_o (ms_taker st1)) ?m"
        using self by (simp add: st1 same self_trade_def)
      moreover have "exhausted D (ms_taker st1) \<or>
          marketBuy (ms_taker st1) \<and> Amount_IsZero D (taker_take D (bk_cfg (ms_book st1)) (ms_taker st1) p)"
        using taker_done [OF cfg p t False] by (simp only: st1 same)
      ultimately obtain out where "out \<in> {Continue, Stopped}" "rest_of_match D seq side band ?k st1 = Some (st1, out)"
        using rest_of_match_done [of st1 side p ?m os X Y ?k seq band] rel' t1 unfolding st1(1) L k' by auto
      with False spec rel' show ?thesis unfolding refines_def r L
        by (intro exI [of _ st1] exI [of _ out] exI [of _ "(p, ?m # os) # X"]) (auto simp: st1 same)
    next
      case True
      have turned: "refines D val seq band side st1 (flat ((p, os) # X)) Y (rest_of_match D seq side band ?k st1)"
      proof (cases "os = []")
        case False
        with True have L: "fill_levels val p ?m os X = (p, os) # X" by (simp add: fill_levels_def)
        have "refines D val seq band side st1 (flat ((p, os) # X)) Y
            (rest_of_match D seq side band (price_key D (bk_tickScale (ms_book st1)) p) st1)"
          by (rule Cons.IH) (use rel' [unfolded L] t1 False cross band in \<open>simp_all add: st1\<close>)
        then show ?thesis by (simp only: st1 k')
      next
        case os: True
        with True have L: "fill_levels val p ?m os X = X" by (simp add: fill_levels_def)
        have "keys_distinct D (bk_tickScale b') ((p, os) # X)"
          using book_rel_at_keys(1) [OF rel] ts [OF rel] ts [OF rel'] same by (simp add: keys_distinct_def)
        then have "match_level D seq side ?k st1 = Some (st1, Continue)"
          using level_gone [OF rel' [unfolded L]] by (subst match_level.simps) (simp add: st1 k')
        then have "rest_of_match D seq side band ?k st1 = match_loop D seq side band st1"
          by (simp add: rest_of_match_leave)
        moreover have "refines D val seq band side st1 (flat X) Y (match_loop D seq side band st1)"
          by (rule outer) (use rel' [unfolded L] t1 in \<open>simp_all add: st1\<close>)
        ultimately show ?thesis by (simp add: os)
      qed
      have step: "spec_match D ?cfg seq band (ms_idx st) ?t (flat ((p, m # os) # X)) =
          (case spec_match D ?cfg seq band (ms_idx st1) (ms_taker st1) (flat ((p, os) # X)) of
             (ms', t', evs) \<Rightarrow> (ms', t', ?ev @ evs))"
        unfolding spec if_P [OF True] by (simp only: st1)
      show ?thesis unfolding r by (rule refines_turn [OF turned _ _ _ step]) (simp_all add: st1 same)
    qed
  qed
qed simp

text \<open>The loops of \<^verbatim>\<open>match\<close> return what the specification says.\<close>

lemma match_refines:
  "book_rel_at D val (ms_book st) side X Y \<Longrightarrow> taker_ok val (bk_cfg (ms_book st)) (ms_taker st) \<Longrightarrow>
    refines D val seq band side st (flat X) Y (match_loop D seq side band st)"
proof (induction X arbitrary: st)
  case Nil
  have "side_rel D val side (bk_tickScale (ms_book st)) (bk_byID (ms_book st)) (sideOf (ms_book st) side) []"
    using Nil.prems(1) unfolding book_rel_at_def by blast
  then have "match_loop D seq side band st = Some (st, Continue)"
    by (subst match_loop.simps) (simp add: side_best_rel(1) Let_def)
  then show ?case using refines_stop_same [OF Nil.prems(1), of Continue seq band] by simp
next
  case (Cons a X)
  obtain p os where a: "a = (p, os)" by (cases a)
  note rel = Cons.prems(1) [unfolded a]
  let ?t = "ms_taker st" and ?k = "price_key D (bk_tickScale (ms_book st)) p"
  have side: "side_rel D val side (bk_tickScale (ms_book st)) (bk_byID (ms_book st)) (sideOf (ms_book st) side) ((p, os) # X)"
    using rel unfolding book_rel_at_def by blast
  obtain lvl where best: "side_best D (sideOf (ms_book st) side) = Some (?k, lvl)" and price: "lvl_price lvl = p"
    using side_best_rel(2) [OF side refl] by (auto simp: level_rel_def)
  have os: "os \<noteq> []" using rel by (auto simp: book_rel_at_def wf_side_Cons)
  then obtain m os' where os': "os = m # os'" by (cases os) auto
  let ?cross = "no_Type (tk_o ?t) = Limit \<and> \<not> crosses D (no_Side (tk_o ?t)) (no_Price (tk_o ?t)) p"
  have loop: "match_loop D seq side band st =
      (if exhausted D ?t \<or> ?cross then Some (st, Continue)
       else if outside D band (no_Side (tk_o ?t)) p
       then Some (st\<lparr>ms_taker := ?t\<lparr>tk_stop := Some CancelPriceProtection\<rparr>\<rparr>, Continue)
       else rest_of_match D seq side band ?k st)"
    by (subst match_loop.simps) (simp add: best price Let_def outside_def rest_of_match_def split: option.split)
  consider (stop) "exhausted D ?t \<or> ?cross" | (band) "\<not> (exhausted D ?t \<or> ?cross)" "outside D band (no_Side (tk_o ?t)) p"
    | (enter) "\<not> (exhausted D ?t \<or> ?cross)" "\<not> outside D band (no_Side (tk_o ?t)) p" by blast
  then show ?case unfolding a
  proof cases
    case stop
    then have "spec_match D (bk_cfg (ms_book st)) seq band (ms_idx st) ?t (flat ((p, os) # X)) = (flat ((p, os) # X), ?t, [])"
      by (auto simp: os' Let_def)
    then show "refines D val seq band side st (flat ((p, os) # X)) Y (match_loop D seq side band st)"
      unfolding loop if_P [OF stop] using refines_stop_same [OF rel] by blast
  next
    case band
    then have "spec_match D (bk_cfg (ms_book st)) seq band (ms_idx st) ?t (flat ((p, os) # X))
        = (flat ((p, os) # X), ?t\<lparr>tk_stop := Some CancelPriceProtection\<rparr>, [])"
      by (auto simp: os' Let_def)
    then show "refines D val seq band side st (flat ((p, os) # X)) Y (match_loop D seq side band st)"
      unfolding loop if_not_P [OF band(1)] if_P [OF band(2)] using refines_stop [OF rel] by blast
  next
    case enter
    have "refines D val seq band side st (flat ((p, os) # X)) Y (rest_of_match D seq side band ?k st)"
      by (rule inner_refines [OF Cons.IH rel Cons.prems(2) os]) (use enter in blast)+
    then show "refines D val seq band side st (flat ((p, os) # X)) Y (match_loop D seq side band st)"
      unfolding loop if_not_P [OF enter(1)] if_not_P [OF enter(2)] .
  qed
qed

end

end
