(* ===== verification/Matching_Walk.thy ===== *)
theory Matching_Walk
  imports Matching_Fill
begin

text \<open>
  What one walk along the queue (\<open>spec_match\<close>) does: whom it trades with and in which order, how
  much, at which prices, and why it stops.
\<close>

definition trades :: "'d Event list \<Rightarrow> 'd Trade list" where
  "trades evs = List.map_filter (\<lambda>e. case e of EvTrade t \<Rightarrow> Some t | _ \<Rightarrow> None) evs"

lemma trades_simps [simp]:
  "trades [] = []" "trades (xs @ ys) = trades xs @ trades ys"
  "trades (EvTrade t # evs) = t # trades evs" "trades (EvAccepted a # evs) = trades evs"
  "trades (EvUpdated u # evs) = trades evs" "trades (EvFilled f # evs) = trades evs"
  "trades (EvCancelled c # evs) = trades evs" "trades (EvRejected r # evs) = trades evs"
  "trades (EvCancelRejected r' # evs) = trades evs"
  by (simp_all add: trades_def List.map_filter_def)

lemma trades_fill_events [simp]:
  "trades (trade_event seq idx o' p q u m # evs) =
     \<lparr>tr_Seq = seq, tr_Index = idx, tr_MakerOrderID = ro_OrderID m, tr_TakerOrderID = no_OrderID o',
      tr_MakerAccountID = ro_AccountID m, tr_TakerAccountID = no_AccountID o', tr_TakerSide = no_Side o',
      tr_Price = p, tr_Qty = q, tr_QuoteQty = u, tr_MakerRemaining = ro_Remaining m\<rparr> # trades evs"
  "trades (maker_event D seq m # evs) = trades evs"
  by (simp_all add: trade_event_def maker_event_def)

definition wf_queue :: "('d \<Rightarrow> rat) \<Rightarrow> 'd MarketConfig \<Rightarrow> Side \<Rightarrow> 'd queue \<Rightarrow> bool" where
  "wf_queue val cfg side ms \<longleftrightarrow> (\<forall>(p, m) \<in> set ms. wf_price val cfg p \<and> wf_order val cfg side p m)"

lemma wf_queue_Cons [simp]:
  "wf_queue val cfg side ((p, m) # ms) \<longleftrightarrow> wf_price val cfg p \<and> wf_order val cfg side p m \<and> wf_queue val cfg side ms"
  by (auto simp: wf_queue_def)

lemma wf_queue_flat: "wf_side val cfg side n L \<Longrightarrow> wf_queue val cfg side (flat L)"
  by (fastforce simp: wf_side_def wf_queue_def flat_def)

text \<open>The price condition the taker trades under, and the ways the walk can stop.\<close>

definition acceptable :: "'d decimal_pkg \<Rightarrow> 'd amount option \<Rightarrow> 'd NewOrder \<Rightarrow> 'd amount \<Rightarrow> bool" where
  "acceptable D band o' p \<longleftrightarrow>
     (no_Type o' = Limit \<longrightarrow> crosses D (no_Side o') (no_Price o') p) \<and> \<not> outside D band (no_Side o') p"

definition finished :: "'d decimal_pkg \<Rightarrow> 'd MarketConfig \<Rightarrow> 'd taker \<Rightarrow> 'd amount \<Rightarrow> bool" where
  "finished D cfg t p \<longleftrightarrow> exhausted D t \<or> marketBuy t \<and> Amount_IsZero D (taker_take D cfg t p)"

declare spec_match.simps(2) [simp del]

context decimal
begin

lemma walk_cases:
  assumes cfg: "MarketConfig_Validate D cfg = None" and p: "wf_price val cfg p" and m: "wf_order val cfg side p m"
    and t: "taker_ok val cfg t"
  obtains
    (stop) "spec_match D cfg seq band idx t ((p, m) # ms) = ((p, m) # ms, t, [])"
      "finished D cfg t p \<or> no_Type (tk_o t) = Limit \<and> \<not> crosses D (no_Side (tk_o t)) (no_Price (tk_o t)) p"
  | (band) "spec_match D cfg seq band idx t ((p, m) # ms) = ((p, m) # ms, t\<lparr>tk_stop := Some CancelPriceProtection\<rparr>, [])"
      "\<not> exhausted D t" "outside D band (no_Side (tk_o t)) p"
  | (self) "spec_match D cfg seq band idx t ((p, m) # ms) = ((p, m) # ms, t\<lparr>tk_stop := Some CancelSelfTrade\<rparr>, [])"
      "\<not> exhausted D t" "acceptable D band (tk_o t) p" "self_trade cfg (tk_o t) m"
  | (full) q u where "q = fill_qty D cfg t p m" "u = Amount_Mul D p q"
      "acceptable D band (tk_o t) p" "\<not> self_trade cfg (tk_o t) m" "\<not> finished D cfg t p"
      "0 < V q" "V q = V (ro_Remaining m)" "taker_ok val cfg (taker_fill D q u t)"
      "spec_match D cfg seq band idx t ((p, m) # ms) =
        (case spec_match D cfg seq band (idx + 1) (taker_fill D q u t) ms of
           (ms', t', evs) \<Rightarrow>
             (ms', t', trade_event seq idx (tk_o t) p q u (maker_fill D q u m) #
                maker_event D seq (maker_fill D q u m) # evs))"
  | (part) q u where "q = fill_qty D cfg t p m" "u = Amount_Mul D p q"
      "acceptable D band (tk_o t) p" "\<not> self_trade cfg (tk_o t) m" "\<not> finished D cfg t p"
      "0 < V q" "V q < V (ro_Remaining m)" "multiple (V q) (V (mc_QtyStep cfg))" "taker_ok val cfg (taker_fill D q u t)"
      "finished D cfg (taker_fill D q u t) p"
      "spec_match D cfg seq band idx t ((p, m) # ms) =
        ((p, maker_fill D q u m) # ms, taker_fill D q u t,
         [trade_event seq idx (tk_o t) p q u (maker_fill D q u m), maker_event D seq (maker_fill D q u m)])"
proof -
  let ?cross = "no_Type (tk_o t) = Limit \<and> \<not> crosses D (no_Side (tk_o t)) (no_Price (tk_o t)) p"
  let ?q = "fill_qty D cfg t p m" and ?r = "spec_match D cfg seq band idx t ((p, m) # ms)"
  let ?u = "Amount_Mul D p ?q"
  consider "exhausted D t \<or> ?cross" | "\<not> (exhausted D t \<or> ?cross)" "outside D band (no_Side (tk_o t)) p"
    | "\<not> (exhausted D t \<or> ?cross)" "\<not> outside D band (no_Side (tk_o t)) p" "self_trade cfg (tk_o t) m"
    | "\<not> (exhausted D t \<or> ?cross)" "\<not> outside D band (no_Side (tk_o t)) p" "\<not> self_trade cfg (tk_o t) m"
      "marketBuy t \<and> Amount_IsZero D (taker_take D cfg t p)"
    | "\<not> exhausted D t" "\<not> ?cross" "\<not> outside D band (no_Side (tk_o t)) p" "\<not> self_trade cfg (tk_o t) m"
      "\<not> (marketBuy t \<and> Amount_IsZero D (taker_take D cfg t p))"
    by blast
  then show thesis
  proof cases
    case 1
    then show thesis by (intro stop) (auto simp: spec_match.simps Let_def finished_def)
  next
    case 2
    then show thesis by (intro band) (auto simp: spec_match.simps Let_def)
  next
    case 3
    then show thesis by (intro self) (auto simp: spec_match.simps Let_def acceptable_def)
  next
    case 4
    then show thesis by (intro stop) (auto simp: spec_match.simps Let_def finished_def)
  next
    case 5
    note q = fill_qty_ok [OF cfg p m t 5(1,5)]
    have acc: "acceptable D band (tk_o t) p" and nf: "\<not> finished D cfg t p"
      using 5 by (auto simp: acceptable_def finished_def)
    note r = spec_match_fill [OF 5, of seq idx ms]
    show thesis
    proof (cases "V ?q = V (ro_Remaining m)")
      case True
      then have "Amount_IsZero D (ro_Remaining (maker_fill D ?q ?u m))" by simp
      with r have "?r = (case spec_match D cfg seq band (idx + 1) (taker_fill D ?q ?u t) ms of
           (ms', t', evs) \<Rightarrow>
             (ms', t', trade_event seq idx (tk_o t) p ?q ?u (maker_fill D ?q ?u m) #
                maker_event D seq (maker_fill D ?q ?u m) # evs))"
        by (simp only: Let_def if_True append_Cons append_Nil)
      then show thesis using True q(1,7) acc nf 5(4) by (intro full [OF refl refl]) auto
    next
      case False
      then have part': "\<not> Amount_IsZero D (ro_Remaining (maker_fill D ?q ?u m))" by simp
      with r have "?r = ((p, maker_fill D ?q ?u m) # ms, taker_fill D ?q ?u t,
         [trade_event seq idx (tk_o t) p ?q ?u (maker_fill D ?q ?u m), maker_event D seq (maker_fill D ?q ?u m)])"
        by (simp only: Let_def if_False)
      moreover have "finished D cfg (taker_fill D ?q ?u t) p"
        using taker_done [OF cfg p t part'] by (simp add: finished_def)
      ultimately show thesis using False q(1-3,7) acc nf 5(4) by (intro part [OF refl refl]) auto
    qed
  qed
qed

text \<open>Induction along the walk: why it stops, or the fill it makes.\<close>

lemma walk_induct [consumes 4, case_names Nil stop early part full]:
  assumes cfg: "MarketConfig_Validate D cfg = None" and "wf_queue val cfg side ms" and "taker_ok val cfg t"
    and "spec_match D cfg seq band idx t ms = (ms', t', evs)"
    and Nil: "\<And>idx t. taker_ok val cfg t \<Longrightarrow> P [] idx t [] t []"
    and stop: "\<And>p m ms idx t. taker_ok val cfg t \<Longrightarrow>
      finished D cfg t p \<or> no_Type (tk_o t) = Limit \<and> \<not> crosses D (no_Side (tk_o t)) (no_Price (tk_o t)) p \<Longrightarrow>
      P ((p, m) # ms) idx t ((p, m) # ms) t []"
    and early: "\<And>p m ms idx t r. taker_ok val cfg t \<Longrightarrow> \<not> exhausted D t \<Longrightarrow>
      r = CancelPriceProtection \<and> outside D band (no_Side (tk_o t)) p \<or>
      r = CancelSelfTrade \<and> self_trade cfg (tk_o t) m \<and> acceptable D band (tk_o t) p \<Longrightarrow>
      P ((p, m) # ms) idx t ((p, m) # ms) (t\<lparr>tk_stop := Some r\<rparr>) []"
    and part: "\<And>p m ms idx t q u. taker_ok val cfg t \<Longrightarrow> wf_price val cfg p \<Longrightarrow> wf_order val cfg side p m \<Longrightarrow>
      wf_queue val cfg side ms \<Longrightarrow> u = Amount_Mul D p q \<Longrightarrow>
      acceptable D band (tk_o t) p \<Longrightarrow> \<not> self_trade cfg (tk_o t) m \<Longrightarrow> 0 < V q \<Longrightarrow> V q < V (ro_Remaining m) \<Longrightarrow>
      multiple (V q) (V (mc_QtyStep cfg)) \<Longrightarrow> taker_ok val cfg (taker_fill D q u t) \<Longrightarrow>
      finished D cfg (taker_fill D q u t) p \<Longrightarrow>
      P ((p, m) # ms) idx t ((p, maker_fill D q u m) # ms) (taker_fill D q u t)
        [trade_event seq idx (tk_o t) p q u (maker_fill D q u m), maker_event D seq (maker_fill D q u m)]"
    and full: "\<And>p m ms idx t q u ms' t' evs. taker_ok val cfg t \<Longrightarrow> wf_price val cfg p \<Longrightarrow> wf_order val cfg side p m \<Longrightarrow>
      wf_queue val cfg side ms \<Longrightarrow> u = Amount_Mul D p q \<Longrightarrow>
      acceptable D band (tk_o t) p \<Longrightarrow> \<not> self_trade cfg (tk_o t) m \<Longrightarrow> 0 < V q \<Longrightarrow> V q = V (ro_Remaining m) \<Longrightarrow>
      taker_ok val cfg (taker_fill D q u t) \<Longrightarrow> P ms (idx + 1) (taker_fill D q u t) ms' t' evs \<Longrightarrow>
      P ((p, m) # ms) idx t ms' t' (trade_event seq idx (tk_o t) p q u (maker_fill D q u m) #
         maker_event D seq (maker_fill D q u m) # evs)"
  shows "P ms idx t ms' t' evs"
  using assms(2-4)
proof (induction ms arbitrary: t idx ms' evs)
  case Nil
  then show ?case using assms(5) by simp
next
  case (Cons a ms)
  obtain p m where a: "a = (p, m)" by (cases a)
  note t = Cons.prems(2) and res = Cons.prems(3) [unfolded a]
  from Cons.prems(1) have p: "wf_price val cfg p" and m: "wf_order val cfg side p m" and ms: "wf_queue val cfg side ms"
    by (auto simp: a)
  from cfg p m t show ?case unfolding a
  proof (cases rule: walk_cases [where seq = seq and band = band and idx = idx and ms = ms])
    case stop
    with res assms(6) [OF t] show "P ((p, m) # ms) idx t ms' t' evs" by auto
  next
    case band
    with res early [OF t] show "P ((p, m) # ms) idx t ms' t' evs" by auto
  next
    case self
    with res early [OF t] show "P ((p, m) # ms) idx t ms' t' evs" by auto
  next
    case (part q u)
    with res assms(8) [OF t p m ms part(2-4,6-10)] show "P ((p, m) # ms) idx t ms' t' evs" by auto
  next
    case (full q u)
    obtain evs1 where e: "spec_match D cfg seq band (idx + 1) (taker_fill D q u t) ms = (ms', t', evs1)"
      and evs: "evs = trade_event seq idx (tk_o t) p q u (maker_fill D q u m) #
                maker_event D seq (maker_fill D q u m) # evs1"
      using full res by (auto split: prod.splits)
    from Cons.IH [OF ms full(8) e] have "P ms (idx + 1) (taker_fill D q u t) ms' t' evs1" .
    with assms(9) [OF t p m ms full(2-4,6-8)] show "P ((p, m) # ms) idx t ms' t' evs" unfolding evs by blast
  qed
qed

text \<open>
  The walk trades with a prefix of the queue in order, uses every maker of it up but perhaps the
  last, and leaves the rest of the queue as it is.
\<close>

definition walk_result :: "'d queue \<Rightarrow> 'd queue \<Rightarrow> 'd Trade list \<Rightarrow> bool" where
  "walk_result ms ms' trs \<longleftrightarrow>
     length trs \<le> length ms \<and>
     list_all2 (\<lambda>(p, m) tr. tr_MakerOrderID tr = ro_OrderID m \<and> tr_MakerAccountID tr = ro_AccountID m \<and>
                 tr_Price tr = p \<and> 0 < V (tr_Qty tr) \<and> V (tr_Qty tr) \<le> V (ro_Remaining m) \<and>
                 V (tr_QuoteQty tr) = V p * V (tr_Qty tr) \<and>
                 V (tr_MakerRemaining tr) = V (ro_Remaining m) - V (tr_Qty tr))
       (take (length trs) ms) trs \<and>
     (\<forall>i. Suc i < length trs \<longrightarrow> V (tr_MakerRemaining (trs ! i)) = 0) \<and>
     (ms' = drop (length trs) ms \<and> (\<forall>tr \<in> set trs. V (tr_MakerRemaining tr) = 0) \<or>
      (\<exists>p m tr. trs \<noteq> [] \<and> ms ! (length trs - 1) = (p, m) \<and> tr = last trs \<and> 0 < V (tr_MakerRemaining tr) \<and>
         ms' = (p, maker_fill D (tr_Qty tr) (tr_QuoteQty tr) m) # drop (length trs) ms))"

lemma walk_result_Nil: "walk_result ms ms []"
  by (simp add: walk_result_def)

lemma walk_priority:
  assumes "MarketConfig_Validate D cfg = None" and "wf_queue val cfg side ms" and "taker_ok val cfg t"
    and "spec_match D cfg seq band idx t ms = (ms', t', evs)"
  shows "walk_result ms ms' (trades evs)"
  using assms
proof (induction rule: walk_induct)
  case (part p m ms idx t q u)
  then show ?case by (auto simp: walk_result_def)
next
  case (full p m ms idx t q u ms' t' evs)
  let ?tr = "\<lparr>tr_Seq = seq, tr_Index = idx, tr_MakerOrderID = ro_OrderID m, tr_TakerOrderID = no_OrderID (tk_o t),
      tr_MakerAccountID = ro_AccountID m, tr_TakerAccountID = no_AccountID (tk_o t), tr_TakerSide = no_Side (tk_o t),
      tr_Price = p, tr_Qty = q, tr_QuoteQty = u, tr_MakerRemaining = Amount_Sub D (ro_Remaining m) q\<rparr>"
  have tr0: "V (tr_MakerRemaining ?tr) = 0" using full by simp
  note IH = full.IH [unfolded walk_result_def]
  have "walk_result ((p, m) # ms) ms' (?tr # trades evs)" unfolding walk_result_def
  proof (intro conjI)
    show "\<forall>i. Suc i < length (?tr # trades evs) \<longrightarrow> V (tr_MakerRemaining ((?tr # trades evs) ! i)) = 0"
      using IH tr0 by (auto simp: nth_Cons split: nat.splits)
    show "ms' = drop (length (?tr # trades evs)) ((p, m) # ms) \<and> (\<forall>tr\<in>set (?tr # trades evs). V (tr_MakerRemaining tr) = 0) \<or>
      (\<exists>p' m' tr'. ?tr # trades evs \<noteq> [] \<and> ((p, m) # ms) ! (length (?tr # trades evs) - 1) = (p', m') \<and>
       tr' = last (?tr # trades evs) \<and> 0 < V (tr_MakerRemaining tr') \<and>
       ms' = (p', maker_fill D (tr_Qty tr') (tr_QuoteQty tr') m') # drop (length (?tr # trades evs)) ((p, m) # ms))"
      using IH tr0 by (auto simp: nth_Cons' neq_Nil_conv)
  qed (use IH full in auto)
  then show ?case by simp
qed (simp_all add: walk_result_Nil)

text \<open>What the taker gains is the sum of the trades, and nothing else of it changes.\<close>

lemma walk_taker:
  assumes "MarketConfig_Validate D cfg = None" and "wf_queue val cfg side ms" and "taker_ok val cfg t"
    and "spec_match D cfg seq band idx t ms = (ms', t', evs)"
  shows "tk_o t' = tk_o t \<and> taker_ok val cfg t' \<and>
    V (tk_filledQty t') = V (tk_filledQty t) + (\<Sum>tr\<leftarrow>trades evs. V (tr_Qty tr)) \<and>
    V (tk_filledQuote t') = V (tk_filledQuote t) + (\<Sum>tr\<leftarrow>trades evs. V (tr_QuoteQty tr)) \<and>
    V (tk_remaining t') = V (tk_remaining t) - (if marketBuy t then 0 else (\<Sum>tr\<leftarrow>trades evs. V (tr_Qty tr))) \<and>
    V (tk_quoteRem t') = V (tk_quoteRem t) - (if marketBuy t then (\<Sum>tr\<leftarrow>trades evs. V (tr_QuoteQty tr)) else 0)"
  using assms
  by (induction rule: walk_induct) (auto simp: taker_ok_def marketBuy_def)

text \<open>Every trade names the taker, is numbered, obeys the taker's price condition and is not with itself.\<close>

lemma walk_trades:
  assumes "MarketConfig_Validate D cfg = None" and "wf_queue val cfg side ms" and "taker_ok val cfg t"
    and "spec_match D cfg seq band idx t ms = (ms', t', evs)"
  shows "(\<forall>tr \<in> set (trades evs). tr_Seq tr = seq \<and> tr_TakerOrderID tr = no_OrderID (tk_o t) \<and>
      tr_TakerAccountID tr = no_AccountID (tk_o t) \<and> tr_TakerSide tr = no_Side (tk_o t) \<and>
      acceptable D band (tk_o t) (tr_Price tr) \<and> 0 < V (tr_Qty tr) \<and> 0 < V (tr_QuoteQty tr) \<and>
      (mc_SelfTradePolicy cfg = STPCancelNewest \<longrightarrow> tr_MakerAccountID tr \<noteq> no_AccountID (tk_o t))) \<and>
    map tr_Index (trades evs) = [idx..idx + int (length (trades evs)) - 1]"
  using assms
proof (induction rule: walk_induct)
  case (full p m ms idx t q u ms' t' evs)
  have "[idx..idx + int (Suc (length (trades evs))) - 1] = idx # [idx + 1..idx + 1 + int (length (trades evs)) - 1]"
    by (subst upto_rec1) auto
  with full show ?case by (auto simp: self_trade_def wf_price_def)
qed (auto simp: self_trade_def wf_price_def)

text \<open>The quantity that leaves the queue is the quantity traded.\<close>

lemma walk_quantity:
  assumes "MarketConfig_Validate D cfg = None" and "wf_queue val cfg side ms" and "taker_ok val cfg t"
    and "spec_match D cfg seq band idx t ms = (ms', t', evs)"
  shows "(\<Sum>(p, m)\<leftarrow>ms. V (ro_Remaining m)) = (\<Sum>(p, m)\<leftarrow>ms'. V (ro_Remaining m)) + (\<Sum>tr\<leftarrow>trades evs. V (tr_Qty tr))"
  using assms
  by (induction rule: walk_induct) auto

text \<open>When the taker is left with something and was not stopped, nothing in the queue suits it.\<close>

lemma walk_stop:
  assumes "MarketConfig_Validate D cfg = None" and "wf_queue val cfg side ms" and "taker_ok val cfg t"
    and "spec_match D cfg seq band idx t ms = (ms', t', evs)"
  shows "tk_stop t' = tk_stop t \<Longrightarrow> tk_stop t = None \<Longrightarrow> ms' = [] \<or> finished D cfg t' (fst (hd ms')) \<or>
      no_Type (tk_o t) = Limit \<and> \<not> crosses D (no_Side (tk_o t)) (no_Price (tk_o t)) (fst (hd ms'))"
    and "tk_stop t = None \<Longrightarrow> tk_stop t' = Some r \<Longrightarrow> \<not> exhausted D t' \<and> ms' \<noteq> [] \<and>
      (r = CancelPriceProtection \<and> outside D band (no_Side (tk_o t)) (fst (hd ms')) \<or>
       r = CancelSelfTrade \<and> self_trade cfg (tk_o t) (snd (hd ms')))"
  using assms
  by (induction rule: walk_induct) (auto simp: exhausted_def marketBuy_def)

end

end
