(* ===== verification/Matching_Exec.thy ===== *)
theory Matching_Exec
  imports Matching_Walk
begin

text \<open>
  One command on a book: \<open>apply_new_cases\<close> and \<open>apply_cancel_cases\<close> give the events and the
  levels \<^verbatim>\<open>Apply\<close> leaves, in terms of the walk of \<open>Matching_Walk\<close>; what the snapshot, the
  depth and the restore of a book are follows from the relation with its levels.
\<close>

section \<open>Which orders are accepted\<close>

text \<open>The documented rules for a new order, in arithmetic.\<close>

definition valid_order :: "('d \<Rightarrow> rat) \<Rightarrow> 'd MarketConfig \<Rightarrow> 'd NewOrder \<Rightarrow> bool" where
  "valid_order val cfg o' \<longleftrightarrow>
     no_OrderID o' \<noteq> [] \<and> no_AccountID o' \<noteq> [] \<and> no_Side o' \<in> {Buy, Sell} \<and>
     (let price = amt_val val (no_Price o'); qty = amt_val val (no_Qty o'); quote = amt_val val (no_QuoteQty o');
          base_ok = (0 < qty \<and> multiple qty (amt_val val (mc_QtyStep cfg)) \<and>
                     (\<forall>mx. mc_MaxQty cfg = Some mx \<longrightarrow> qty \<le> amt_val val mx))
      in (no_Type o' = Limit \<and> no_TimeInForce o' \<in> {GTC, IOC, TIF_default} \<and> 0 < price \<and>
            multiple price (amt_val val (mc_PriceTick cfg)) \<and> base_ok \<and> quote = 0 \<and>
            amt_val val (mc_MinNotional cfg) \<le> price * qty) \<or>
         (no_Type o' = Market \<and> no_TimeInForce o' \<in> {IOC, TIF_default} \<and> price = 0 \<and>
            (if no_Side o' = Sell then base_ok \<and> quote = 0
             else 0 < quote \<and> qty = 0 \<and> fits (nat (mc_QuoteScale cfg)) quote \<and>
                  amt_val val (mc_MinNotional cfg) \<le> quote)))"

context decimal
begin

lemma multiple_iff: "IsMultipleOf D a step \<longleftrightarrow> 0 < V step \<and> multiple (V a) (V step)"
  by (simp add: IsMultipleOf_iff multiple_def)

lemma multiple_scale:
  assumes "multiple (V a) (V step)" and "Amount_Scale D step \<le> n"
  shows "Amount_Scale D a \<le> n"
proof -
  have "0 \<le> n" using Scale_nonneg [of step] assms(2) by linarith
  moreover have "nat (Amount_Scale D step) \<le> nat n" using assms(2) by simp
  ultimately show ?thesis using multiple_fits [OF assms(1)] by (simp add: Scale_le_iff' fits_mono)
qed

lemma validateBaseQty_ok:
  assumes "MarketConfig_Validate D cfg = None"
  shows "validateBaseQty D cfg q = None \<longleftrightarrow>
    multiple (V q) (V (mc_QtyStep cfg)) \<and> (\<forall>mx. mc_MaxQty cfg = Some mx \<longrightarrow> V q \<le> V mx)"
  using assms multiple_scale [of q "mc_QtyStep cfg" "mc_BaseScale cfg"]
  by (cases "mc_MaxQty cfg") (auto simp: validateBaseQty_def multiple_iff Config_ok)

lemma tick_scale:
  assumes "MarketConfig_Validate D cfg = None"
  shows "Amount_Scale D (mc_PriceTick cfg) \<le> mc_QuoteScale cfg"
proof -
  have "Amount_Scale D (mc_PriceTick cfg) + Amount_Scale D (mc_QtyStep cfg) \<le> mc_QuoteScale cfg"
    using assms by (simp add: Config_ok)
  with Scale_nonneg [of "mc_QtyStep cfg"] show ?thesis by linarith
qed

lemma validate_new_order_iff:
  assumes cfg: "MarketConfig_Validate D cfg = None"
  shows "ValidateNewOrder D cfg o' = None \<longleftrightarrow> valid_order val cfg o'"
proof -
  have "validateLimit D cfg o' = None \<longleftrightarrow>
      no_TimeInForce o' \<in> {GTC, IOC, TIF_default} \<and> 0 < V (no_Price o') \<and> 0 < V (no_Qty o') \<and> V (no_QuoteQty o') = 0 \<and>
      multiple (V (no_Price o')) (V (mc_PriceTick cfg)) \<and> validateBaseQty D cfg (no_Qty o') = None \<and>
      V (mc_MinNotional cfg) \<le> V (no_Price o') * V (no_Qty o')"
    using cfg multiple_scale [OF _ tick_scale [OF cfg], of "no_Price o'"]
    by (auto simp: validateLimit_def multiple_iff Config_ok not_less split: option.splits)
  moreover have "validateMarket D cfg o' = None \<longleftrightarrow>
      no_TimeInForce o' \<in> {IOC, TIF_default} \<and> V (no_Price o') = 0 \<and>
      (if no_Side o' = Sell then 0 < V (no_Qty o') \<and> V (no_QuoteQty o') = 0 \<and> validateBaseQty D cfg (no_Qty o') = None
       else 0 < V (no_QuoteQty o') \<and> V (no_Qty o') = 0 \<and> fits (nat (mc_QuoteScale cfg)) (V (no_QuoteQty o')) \<and>
            V (mc_MinNotional cfg) \<le> V (no_QuoteQty o'))"
    using cfg Scale_le_iff' [of "no_QuoteQty o'" "mc_QuoteScale cfg"]
    by (auto simp: validateMarket_def Config_ok not_less)
  ultimately show ?thesis
    unfolding ValidateNewOrder_def valid_order_def Let_def validateBaseQty_ok [OF cfg, symmetric]
    by (cases "no_Type o'") (auto simp: validateBaseQty_ok [OF cfg])
qed

lemma taker_ok_new:
  assumes "valid_order val cfg o'"
  shows "taker_ok val cfg (new_taker D o')"
  using assms by (auto simp: valid_order_def taker_ok_def new_taker_def marketBuy_def Let_def split: if_splits)

end

section \<open>A new order\<close>

lemma book_rel_at_swap:
  "book_rel_at D val b side X Y \<Longrightarrow> book_rel_at D val b (Side_Opposite side) Y X"
  by (auto simp: book_rel_at_def Side_Opposite_def)

lemma Side_Opposite_Opposite: "s \<in> {Buy, Sell} \<Longrightarrow> Side_Opposite (Side_Opposite s) = s"
  by (auto simp: Side_Opposite_def)

lemma default_tif_simps [simp]:
  "no_OrderID (default_tif o') = no_OrderID o'" "no_AccountID (default_tif o') = no_AccountID o'"
  "no_Side (default_tif o') = no_Side o'" "no_Type (default_tif o') = no_Type o'"
  "no_Price (default_tif o') = no_Price o'" "no_Qty (default_tif o') = no_Qty o'"
  "no_QuoteQty (default_tif o') = no_QuoteQty o'"
  by (simp_all add: default_tif_def)

lemma new_taker_simps [simp]:
  "tk_o (new_taker D o') = o'" "tk_remaining (new_taker D o') = no_Qty o'" "tk_quoteRem (new_taker D o') = no_QuoteQty o'"
  "tk_filledQty (new_taker D o') = Zero D" "tk_filledQuote (new_taker D o') = Zero D" "tk_stop (new_taker D o') = None"
  by (simp_all add: new_taker_def)

text \<open>The slippage bound of a market order, and whether a market order is turned away.\<close>

definition band_of :: "'d decimal_pkg \<Rightarrow> 'd MarketConfig \<Rightarrow> 'd NewOrder \<Rightarrow> 'd queue \<Rightarrow> 'd amount option" where
  "band_of D cfg o' ms =
     (if no_Type o' \<noteq> Market then None
      else case (ms, mc_MaxSlippageBps cfg) of
             ((p, _) # _, Some bps) \<Rightarrow>
               (case slippageBound D p bps (no_Side o') of Inl _ \<Rightarrow> None | Inr limit \<Rightarrow> Some limit)
           | _ \<Rightarrow> None)"

definition turned_away :: "'d decimal_pkg \<Rightarrow> 'd MarketConfig \<Rightarrow> 'd NewOrder \<Rightarrow> 'd queue \<Rightarrow> RejectReason option" where
  "turned_away D cfg o' ms =
     (if no_Type o' \<noteq> Market then None
      else case ms of
             [] \<Rightarrow> Some RejectEmptyBook
           | (p, _) # _ \<Rightarrow>
               (if no_Side o' = Buy \<and> Amount_IsZero D (taker_take D cfg (new_taker D o') p)
                then Some RejectQuoteQtyTooSmall else None))"

context decimal
begin

lemma book_rel_at_seq:
  assumes "book_rel_at D val b side X Y" and "bk_lastSeq b \<le> n"
  shows "book_rel_at D val (b\<lparr>bk_lastSeq := n\<rparr>) side X Y"
  using assms wf_side_mono [OF _ assms(2)] unfolding book_rel_at_def by auto

lemma slippageBound_ok:
  "\<exists>l. slippageBound D best bps side = Inr l \<and>
    V l = of_int (trunc_rat (V best * (if side = Sell then of_int (10000 - bps) else of_int (10000 + bps)) / 10000 * 10 ^ 18)) / 10 ^ 18"
  using DivRoundDown_ok [of "FromInt64 D 10000" 18 "Amount_Mul D best (FromInt64 D (if side = Sell then 10000 - bps else 10000 + bps))"]
  by (cases "side = Sell") (auto simp: slippageBound_def MaxScale_def Let_def)

lemma market_precheck_eq:
  assumes rel: "book_rel_at D val b (Side_Opposite (no_Side o')) X Y" and ok: "valid_order val (bk_cfg b) o'"
    and market: "no_Type o' = Market"
  shows "market_precheck D b (new_taker D o') =
    (case turned_away D (bk_cfg b) o' (flat X) of Some r \<Rightarrow> PreReject r | None \<Rightarrow> PreOk (band_of D (bk_cfg b) o' (flat X)))"
proof -
  have side: "side_rel D val (Side_Opposite (no_Side o')) (bk_tickScale b) (bk_byID b) (sideOf b (Side_Opposite (no_Side o'))) X"
    and wf: "wf_side val (bk_cfg b) (Side_Opposite (no_Side o')) (bk_lastSeq b) X"
    and cfg: "MarketConfig_Validate D (bk_cfg b) = None"
    using rel unfolding book_rel_at_def by blast+
  show ?thesis
  proof (cases X)
    case Nil
    then show ?thesis using side_best_rel(1) [OF side] market by (simp add: market_precheck_def turned_away_def Let_def)
  next
    case (Cons a X')
    obtain p os where a: "a = (p, os)" by (cases a)
    obtain lvl where best: "side_best D (sideOf b (Side_Opposite (no_Side o'))) = Some (price_key D (bk_tickScale b) p, lvl)"
      and price: "lvl_price lvl = p"
      using side_best_rel(2) [OF side Cons [unfolded a]] by (auto simp: level_rel_def)
    from wf have "os \<noteq> []" and p: "wf_price val (bk_cfg b) p" by (auto simp: Cons a wf_side_Cons)
    then obtain m os' where ms: "flat X = (p, m) # map (Pair p) os' @ flat X'" by (cases os) (auto simp: Cons a)
    have p0: "0 < V p" using p by (simp add: wf_price_def)
    have mb: "marketBuy (new_taker D o') \<longleftrightarrow> no_Side o' = Buy" using market by (simp add: marketBuy_def)
    obtain l where sb: "\<And>bps. slippageBound D p bps (no_Side o') = Inr (l bps)"
      using slippageBound_ok [of p _ "no_Side o'"] by metis
    have band: "(case mc_MaxSlippageBps (bk_cfg b) of None \<Rightarrow> PreOk None
        | Some bps \<Rightarrow> (case slippageBound D (lvl_price lvl) bps (no_Side o') of Inl e \<Rightarrow> PreError (errMoney e) | Inr limit \<Rightarrow> PreOk (Some limit)))
      = PreOk (band_of D (bk_cfg b) o' (flat X))"
      using market by (auto simp: band_of_def ms sb price split: option.split)
    show ?thesis
    proof (cases "no_Side o' = Buy")
      case False
      with band best price market show ?thesis
        by (simp add: market_precheck_def turned_away_def ms mb Let_def)
    next
      case True
      then have "marketBuy (new_taker D o')" using mb by blast
      then have "floorToStep D (quotient D (no_QuoteQty o') p) (mc_QtyStep (bk_cfg b))
          = Inr (taker_take D (bk_cfg b) (new_taker D o') p)"
        using takerQty_ok(1) [OF cfg p0 taker_ok_new [OF ok]] by (auto simp: takerQty_def split: sum.splits)
      with True band best price market show ?thesis
        by (simp add: market_precheck_def turned_away_def ms mb Let_def)
    qed
  qed
qed

lemma refinesE:
  assumes "refines D val seq band opp st ms Y r"
  obtains st' out L t evs where "r = Some (st', out)" "\<forall>e. out \<noteq> Failed e"
    "spec_match D (bk_cfg (ms_book st)) seq band (ms_idx st) (ms_taker st) ms = (flat L, t, evs)"
    "ms_taker st' = t" "ms_events st' = ms_events st @ evs" "book_rel_at D val (ms_book st') opp L Y"
    "bk_cfg (ms_book st') = bk_cfg (ms_book st)" "bk_lastSeq (ms_book st') = bk_lastSeq (ms_book st)"
  using assms unfolding refines_def by blast

lemma walk_ids:
  assumes "MarketConfig_Validate D cfg = None" and "wf_queue val cfg side ms" and "taker_ok val cfg t"
    and "spec_match D cfg seq band idx t ms = (ms', t', evs)"
  shows "(ro_OrderID \<circ> snd) ` set ms' \<subseteq> (ro_OrderID \<circ> snd) ` set ms"
  using assms by (induction rule: walk_induct) auto

text \<open>The remainder of an accepted limit order is a well-formed resting order.\<close>

lemma resting_ok:
  assumes cfg: "MarketConfig_Validate D cfg = None" and q: "wf_queue val cfg opp ms" and ok: "valid_order val cfg o'"
    and walk: "spec_match D cfg seq band idx (new_taker D o') ms = (ms', t, evs)"
    and rests: "taker_outcome D cmd t = (True, final)"
  shows "wf_order val cfg (no_Side o') (ro_Price (resting_of cmd t)) (resting_of cmd t)"
    and "wf_price val cfg (ro_Price (resting_of cmd t))"
proof -
  note tk = walk_taker [OF cfg q taker_ok_new [OF ok] walk]
  have o': "tk_o t = o'" using tk by simp
  have limit: "no_Type o' = Limit" and ne: "\<not> exhausted D t"
    using rests by (auto simp: taker_outcome_def o' Let_def split: if_splits option.splits)
  have nb: "\<not> marketBuy t" "\<not> marketBuy (new_taker D o')" using limit by (simp_all add: marketBuy_def o')
  have "0 \<le> (\<Sum>tr\<leftarrow>trades evs. V (tr_Qty tr))" "0 \<le> (\<Sum>tr\<leftarrow>trades evs. V (tr_QuoteQty tr))"
    using walk_trades [OF cfg q taker_ok_new [OF ok] walk] by (auto intro!: sum_list_nonneg simp: less_imp_le)
  then show "wf_order val cfg (no_Side o') (ro_Price (resting_of cmd t)) (resting_of cmd t)"
    using tk ok ne nb by (auto simp: wf_order_def resting_of_def o' valid_order_def taker_ok_def exhausted_def Let_def)
  show "wf_price val cfg (ro_Price (resting_of cmd t))"
    using ok limit by (auto simp: wf_price_def resting_of_def o' valid_order_def Let_def)
qed

text \<open>A new order with a fresh sequence number is rejected and changes nothing, or walks the other side.\<close>

lemma apply_new_cases:
  assumes rel: "book_rel_at D val b (Side_Opposite side) X Y" and side: "side \<in> {Buy, Sell}"
    and cmd: "cmd_New cmd = Some new" "cmd_Cancel cmd = None" and seq: "bk_lastSeq b < cmd_Seq cmd"
    and same: "no_Side new \<in> {Buy, Sell} \<longrightarrow> no_Side new = side"
  defines "o' \<equiv> default_tif new" and "cfg \<equiv> bk_cfg b"
  obtains
    (reject) reason where "Apply D b cmd = Some (b\<lparr>bk_lastSeq := cmd_Seq cmd\<rparr>, Inr (rejected (cmd_Seq cmd) o' reason))"
      "\<not> valid_order val cfg o' \<or> no_OrderID new \<in> set (lv_ids X @ lv_ids Y) \<or> turned_away D cfg o' (flat X) = Some reason"
  | (accept) t evs rests final b' L where "valid_order val cfg o'" "no_Side new = side"
      "no_OrderID new \<notin> set (lv_ids X @ lv_ids Y)"
      "turned_away D cfg o' (flat X) = None"
      "spec_match D cfg (cmd_Seq cmd) (band_of D cfg o' (flat X)) 0 (new_taker D o') (flat X) = (flat L, t, evs)"
      "taker_outcome D cmd t = (rests, final)"
      "Apply D b cmd = Some (b', Inr (accepted_event (cmd_Seq cmd) o' # evs @ final))"
      "book_rel_at D val b' (Side_Opposite side) L (if rests then lv_insert D side (resting_of cmd t) Y else Y)"
      "bk_cfg b' = cfg" "bk_lastSeq b' = cmd_Seq cmd"
proof -
  have dom: "Mapping.keys (bk_byID b) = set (lv_ids X @ lv_ids Y)" and cfg: "MarketConfig_Validate D cfg = None"
    using rel unfolding book_rel_at_def cfg_def by blast+
  have Apply: "Apply D b cmd = map_option (conclude cmd) (applyNew D b cmd new)"
    using seq cmd by (auto simp: Apply_def)
  have o': "no_OrderID o' = no_OrderID new" "no_Side o' = no_Side new" "no_Type o' = no_Type new" by (simp_all add: o'_def)
  have rej: thesis if "applyNew D b cmd new = Some (b, Inr (rejected (cmd_Seq cmd) o' r))"
    and "\<not> valid_order val cfg o' \<or> no_OrderID new \<in> set (lv_ids X @ lv_ids Y) \<or> turned_away D cfg o' (flat X) = Some r" for r
    using that by (intro reject [of r]) (simp_all add: Apply conclude_def)
  show thesis
  proof (cases "ValidateNewOrder D cfg o'")
    case (Some r)
    then have "\<not> valid_order val cfg o'" using validate_new_order_iff [OF cfg, of o'] by simp
    moreover have "applyNew D b cmd new = Some (b, Inr (rejected (cmd_Seq cmd) o' r))"
      using Some by (simp add: applyNew_def Let_def flip: o'_def cfg_def)
    ultimately show thesis using rej by blast
  next
    case None
    then have ok: "valid_order val cfg o'" using validate_new_order_iff [OF cfg, of o'] by simp
    then have s: "no_Side new = side" using same by (auto simp: valid_order_def o')
    show thesis
    proof (cases "Mapping.lookup (bk_byID b) (no_OrderID new)")
      case dup: (Some x)
      then have "no_OrderID new \<in> set (lv_ids X @ lv_ids Y)" using dom by (metis keys_is_none_rep option.distinct(1) is_none_simps(1) option.collapse Option.is_none_def)
      moreover have "applyNew D b cmd new = Some (b, Inr (rejected (cmd_Seq cmd) o' RejectDuplicateOrderID))"
        using None dup by (simp add: applyNew_def Let_def o' flip: o'_def cfg_def)
      ultimately show thesis using rej by blast
    next
      case fresh: None
      then have id: "no_OrderID new \<notin> set (lv_ids X @ lv_ids Y)" using dom by (metis keys_is_none_rep Option.is_none_def)
      have pre: "(if no_Type o' = Market then market_precheck D b (new_taker D o') else PreOk None) =
          (case turned_away D cfg o' (flat X) of Some r \<Rightarrow> PreReject r | None \<Rightarrow> PreOk (band_of D cfg o' (flat X)))"
      proof (cases "no_Type o' = Market")
        case True
        with rel ok s show ?thesis unfolding if_P [OF True] cfg_def
          by (intro market_precheck_eq) (simp_all only: o'(2))
      next
        case False
        then show ?thesis by (simp add: turned_away_def band_of_def)
      qed
      show thesis
      proof (cases "turned_away D cfg o' (flat X)")
        case (Some r)
        then have "applyNew D b cmd new = Some (b, Inr (rejected (cmd_Seq cmd) o' r))"
          using None fresh pre by (simp add: applyNew_def Let_def o' flip: o'_def cfg_def)
        with Some show thesis using rej by blast
      next
        case go: None
        let ?seq = "cmd_Seq cmd" and ?band = "band_of D cfg o' (flat X)" and ?t = "new_taker D o'"
        let ?st = "\<lparr>ms_book = b, ms_taker = ?t, ms_events = [accepted_event ?seq o'], ms_idx = 0\<rparr>"
        define st0 where "st0 = ?st"
        have st0: "ms_book st0 = b" "ms_taker st0 = ?t" "ms_events st0 = [accepted_event ?seq o']" "ms_idx st0 = 0"
          by (simp_all add: st0_def)
        have "refines D val ?seq ?band (Side_Opposite side) st0 (flat X) Y (match_loop D ?seq (Side_Opposite side) ?band st0)"
          by (rule match_refines) (use rel taker_ok_new [OF ok] in \<open>simp_all add: st0 flip: cfg_def\<close>)
        then obtain st out L t evs where run: "match_loop D ?seq (Side_Opposite side) ?band ?st = Some (st, out)"
          and out: "\<forall>e. out \<noteq> Failed e" and walk: "spec_match D cfg ?seq ?band 0 ?t (flat X) = (flat L, t, evs)"
          and st: "ms_taker st = t" "ms_events st = [accepted_event ?seq o'] @ evs"
          and rel': "book_rel_at D val (ms_book st) (Side_Opposite side) L Y"
          and same': "bk_cfg (ms_book st) = cfg" "bk_lastSeq (ms_book st) = bk_lastSeq b"
          by (elim refinesE, intro that) (simp_all only: st0 cfg_def st0_def [symmetric])
        obtain rests final where outcome: "taker_outcome D cmd t = (rests, final)" by fastforce
        define b' where "b' = (if rests then rest_order D (ms_book st) (resting_of cmd t) else ms_book st)\<lparr>bk_lastSeq := ?seq\<rparr>"
        have new: "applyNew D b cmd new = Some (if rests then rest_order D (ms_book st) (resting_of cmd t) else ms_book st,
            Inr (ms_events st @ final))"
          using None fresh pre go run out outcome st(1) s
          by (cases out) (simp_all add: applyNew_def Let_def o' conclude_new_def flip: o'_def cfg_def)
        have res: "Apply D b cmd = Some (b', Inr (accepted_event ?seq o' # evs @ final))"
          unfolding Apply new b'_def by (simp add: conclude_def st(2))
        have wfX: "wf_queue val cfg (Side_Opposite side) (flat X)"
          using rel unfolding book_rel_at_def cfg_def by (blast intro: wf_queue_flat)
        have rel1: "book_rel_at D val b' (Side_Opposite side) L (if rests then lv_insert D side (resting_of cmd t) Y else Y)"
        proof (cases rests)
          case False
          then show ?thesis using book_rel_at_seq [OF rel', of ?seq] seq by (simp add: b'_def same')
        next
          case True
          note r = resting_ok [OF cfg wfX ok walk outcome [unfolded eqTrueI [OF True]]]
          have ido: "ro_OrderID (resting_of cmd t) = no_OrderID new" "ro_Seq (resting_of cmd t) = ?seq"
            using walk_taker [OF cfg wfX taker_ok_new [OF ok] walk] by (simp_all add: resting_of_def o')
          have swap: "book_rel_at D val (ms_book st) side Y L"
            using book_rel_at_swap [OF rel'] side by (simp add: Side_Opposite_Opposite)
          have "set (lv_ids L) \<subseteq> set (lv_ids X)"
            using walk_ids [OF cfg wfX taker_ok_new [OF ok] walk] by (simp add: lv_ids_def)
          with id have fr: "ro_OrderID (resting_of cmd t) \<notin> set (lv_ids Y @ lv_ids L)" by (auto simp: ido)
          have "wf_side val cfg side (bk_lastSeq b) Y"
            using swap unfolding book_rel_at_def same' by blast
          then have "\<forall>x \<in> snd ` set (flat Y). ro_Seq x \<le> ro_Seq (resting_of cmd t)"
            using seq by (fastforce simp: wf_side_def flat_def ido)
          from rest_order_rel(1) [OF swap _ _ fr this, of ?seq] r seq
          have "book_rel_at D val b' side (lv_insert D side (resting_of cmd t) Y) L"
            using s True by (simp add: same' o' ido b'_def)
          from book_rel_at_swap [OF this] True show ?thesis by simp
        qed
        have "bk_cfg b' = cfg"
          by (auto simp: b'_def same' rest_order_def set_side_def Let_def split: prod.splits)
        moreover have "bk_lastSeq b' = ?seq" by (simp add: b'_def)
        ultimately show thesis using accept [OF ok s id go walk outcome res rel1] by blast
      qed
    qed
  qed
qed

end

end
