(* ===== verification/Matching_Views.thy ===== *)
theory Matching_Views
  imports Matching_Exec
begin

text \<open>
  The other operations of the book on its levels: cancelling, the empty book, the snapshot, the
  depth, and restoring a book from resting orders.
\<close>

section \<open>Snapshot and depth\<close>

lemma those_map_Some: "\<forall>x \<in> set xs. f x = Some (g x) \<Longrightarrow> those (map f xs) = Some (map g xs)"
  by (induction xs) auto

lemma those_map_ex:
  "\<forall>x \<in> set xs. \<exists>y. f x = Some y \<and> P x y \<Longrightarrow> \<exists>ys. those (map f xs) = Some ys \<and> list_all2 P xs ys"
proof (induction xs)
  case (Cons x xs)
  then obtain y ys where "f x = Some y" "P x y" "those (map f xs) = Some ys" "list_all2 P xs ys" by auto
  then show ?case by simp
qed simp

definition lv_orders :: "'d levels \<Rightarrow> 'd RestingOrder list" where
  "lv_orders L = concat (map snd L)"

lemma lv_orders_simps [simp]: "lv_orders [] = []" "lv_orders ((p, os) # L) = os @ lv_orders L"
  "lv_orders (K @ L) = lv_orders K @ lv_orders L"
  by (simp_all add: lv_orders_def)

lemma lv_orders_flat: "lv_orders L = map snd (flat L)"
  by (simp add: lv_orders_def snd_flat)

lemma lv_ids_orders: "lv_ids L = map ro_OrderID (lv_orders L)"
  by (simp add: lv_ids_def lv_orders_flat)

lemma level_resting_rel: "level_rel D val ts st lvl p os \<Longrightarrow> level_resting st lvl = Some os"
  using those_map_Some [of os "\<lambda>r. map_option RestingOrder.truncate (Mapping.lookup st (ro_OrderID r))" id]
  by (simp add: level_resting_def level_rel_def comp_def)

lemma side_orders_rel:
  assumes rel: "side_rel D val side ts st s L"
  shows "side_orders D st s = Some (lv_orders L)"
proof -
  have "\<forall>(p, os) \<in> set L. Option.bind (Mapping.lookup (bs_levels s) (side_key D s p)) (level_resting st) = Some os"
  proof (clarify)
    fix p os assume "(p, os) \<in> set L"
    with rel obtain lvl where "Mapping.lookup (bs_levels s) (price_key D ts p) = Some lvl" "level_rel D val ts st lvl p os"
      by (rule side_rel_lookup)
    with rel show "Option.bind (Mapping.lookup (bs_levels s) (side_key D s p)) (level_resting st) = Some os"
      by (simp add: side_key_def price_key_def side_rel_simps level_resting_rel)
  qed
  then have "those (map (\<lambda>(p, os). Option.bind (Mapping.lookup (bs_levels s) (side_key D s p)) (level_resting st)) L)
      = Some (map snd L)"
    by (intro those_map_Some) auto
  then show ?thesis
    by (simp add: side_orders_def side_rel_simps [OF rel] comp_def case_prod_unfold lv_orders_def)
qed

lemma snapshot_rel:
  assumes "book_rel D val b B A"
  shows "Book_Snapshot D b = Some \<lparr>sn_Symbol = mc_Symbol (bk_cfg b), sn_LastSeq = bk_lastSeq b,
    sn_Bids = lv_orders B, sn_Asks = lv_orders A\<rparr>"
proof -
  have "side_rel D val Buy (bk_tickScale b) (bk_byID b) (bk_bids b) B"
    and "side_rel D val Sell (bk_tickScale b) (bk_byID b) (bk_asks b) A"
    using assms unfolding book_rel_def by blast+
  then show ?thesis by (simp add: Book_Snapshot_def side_orders_rel)
qed

lemma side_depth_rel:
  assumes rel: "side_rel D val side ts st s L"
  shows "\<exists>ls. side_depth D s n = Some ls \<and>
    list_all2 (\<lambda>(p, os) l. lv_Price l = p \<and> amt_val val (lv_Qty l) = (\<Sum>r\<leftarrow>os. amt_val val (ro_Remaining r)) \<and>
        lv_Orders l = int (length os))
      (take (if n \<le> 0 \<or> n > int (length L) then length L else nat n) L) ls"
proof -
  let ?m = "if n \<le> 0 \<or> n > int (length L) then length L else nat n"
  let ?f = "\<lambda>p. map_option (\<lambda>lvl. \<lparr>lv_Price = lvl_price lvl, lv_Qty = lvl_qty lvl, lv_Orders = int (length (lvl_orders lvl))\<rparr>)
      (Mapping.lookup (bs_levels s) (side_key D s p))"
  have "\<forall>x \<in> set (take ?m L). \<exists>l. ?f (fst x) = Some l \<and> (\<lambda>(p, os) l. lv_Price l = p \<and>
      amt_val val (lv_Qty l) = (\<Sum>r\<leftarrow>os. amt_val val (ro_Remaining r)) \<and> lv_Orders l = int (length os)) x l"
  proof
    fix x assume "x \<in> set (take ?m L)"
    then have "x \<in> set L" by (rule in_set_takeD)
    moreover obtain p os where "x = (p, os)" by (rule prod.exhaust)
    ultimately have x: "x = (p, os)" "(p, os) \<in> set L" by simp_all
    obtain lvl where "Mapping.lookup (bs_levels s) (price_key D ts p) = Some lvl" "level_rel D val ts st lvl p os"
      using rel x(2) by (rule side_rel_lookup)
    with rel x(1) show "\<exists>l. ?f (fst x) = Some l \<and> (\<lambda>(p, os) l. lv_Price l = p \<and>
      amt_val val (lv_Qty l) = (\<Sum>r\<leftarrow>os. amt_val val (ro_Remaining r)) \<and> lv_Orders l = int (length os)) x l"
      by (simp add: side_key_def price_key_def side_rel_simps level_rel_def)
  qed
  from those_map_ex [OF this] obtain ls where ls: "those (map (\<lambda>x. ?f (fst x)) (take ?m L)) = Some ls"
    "list_all2 (\<lambda>(p, os) l. lv_Price l = p \<and> amt_val val (lv_Qty l) = (\<Sum>r\<leftarrow>os. amt_val val (ro_Remaining r)) \<and>
        lv_Orders l = int (length os)) (take ?m L) ls" by blast
  have "side_depth D s n = those (map ?f (take ?m (bs_prices s)))"
    by (simp add: side_depth_def side_rel_simps [OF rel] Let_def)
  also have "map ?f (take ?m (bs_prices s)) = map (\<lambda>x. ?f (fst x)) (take ?m L)"
    by (simp add: side_rel_simps(3) [OF rel] take_map comp_def)
  finally show ?thesis using ls by auto
qed

section \<open>The empty book and the index\<close>

lemma new_rel:
  assumes "New D cfg = Inr b"
  shows "book_rel D val b [] []" and "bk_cfg b = cfg" and "bk_lastSeq b = 0"
  using assms by (auto simp: New_def book_rel_def side_rel_def wf_side_def Let_def split: option.splits)

lemma order_lookup:
  assumes "book_rel D val b B A"
  shows "Book_Order b i = find (\<lambda>r. ro_OrderID r = i) (lv_orders B @ lv_orders A)"
proof (cases "\<exists>r \<in> set (lv_orders B @ lv_orders A). ro_OrderID r = i")
  case True
  then obtain r where r: "r \<in> set (lv_orders B @ lv_orders A)" "ro_OrderID r = i" by blast
  have "\<exists>k. Mapping.lookup (bk_byID b) i = Some (as_order k r)"
  proof -
    have "\<exists>p os. ((p, os) \<in> set B \<or> (p, os) \<in> set A) \<and> r \<in> set os"
      using r(1) by (fastforce simp: lv_orders_def)
    then show ?thesis using assms r(2) unfolding book_rel_def
      by (elim exE conjE disjE) (auto elim!: side_rel_lookup simp: level_rel_def)
  qed
  moreover have "find (\<lambda>r. ro_OrderID r = i) (lv_orders B @ lv_orders A) = Some r"
  proof -
    have "distinct (map ro_OrderID (lv_orders B @ lv_orders A))"
      using assms by (simp add: book_rel_def lv_ids_orders)
    then have "find (\<lambda>r. ro_OrderID r = i) xs = Some r"
      if "distinct (map ro_OrderID xs)" "r \<in> set xs" for xs :: "'a RestingOrder list"
      using that r(2) by (induction xs) (auto simp: image_iff)
    then show ?thesis using \<open>distinct _\<close> r(1) by blast
  qed
  ultimately show ?thesis by (auto simp: Book_Order_def)
next
  case False
  then have "i \<notin> Mapping.keys (bk_byID b)"
    using assms unfolding book_rel_def lv_ids_orders by auto
  then have "Mapping.lookup (bk_byID b) i = None" by (simp add: keys_is_none_rep Option.is_none_def)
  moreover have "find (\<lambda>r. ro_OrderID r = i) (lv_orders B @ lv_orders A) = None"
    using False by (auto simp: find_None_iff)
  ultimately show ?thesis by (simp add: Book_Order_def)
qed

lemma index_size:
  assumes "book_rel D val b B A"
  shows "Len b = length (lv_orders B) + length (lv_orders A)"
proof -
  have "Len b = card (set (lv_ids B @ lv_ids A))"
    using assms by (simp add: Len_def Mapping.size_def book_rel_def)
  also have "\<dots> = length (lv_ids B @ lv_ids A)"
    using assms by (intro distinct_card) (simp add: book_rel_def)
  finally show ?thesis by (simp add: lv_ids_orders)
qed

section \<open>Cancelling\<close>

lemma lv_orders_remove: "lv_orders (lv_remove i L) = filter (\<lambda>r. ro_OrderID r \<noteq> i) (lv_orders L)"
  by (simp add: lv_orders_flat flat_lv_remove filter_map comp_def case_prod_unfold)

lemma lv_remove_absent:
  assumes "i \<notin> set (lv_ids L)" and "\<forall>(p, os) \<in> set L. os \<noteq> []"
  shows "lv_remove i L = L"
  using assms
proof (induction L)
  case (Cons a L)
  obtain p os where a: "a = (p, os)" by (cases a)
  with Cons.prems have "i \<notin> ro_OrderID ` set os" by auto
  then have "filter (\<lambda>r. ro_OrderID r \<noteq> i) os = os" by (intro filter_True) (metis imageI)
  with Cons a show ?case by (auto simp: lv_remove_def)
qed (simp add: lv_remove_def)

context decimal
begin

lemma remove_book_rel:
  assumes rel: "book_rel D val b B A" and r: "r \<in> set (lv_orders B @ lv_orders A)"
  shows "\<exists>o' b'. Mapping.lookup (bk_byID b) (ro_OrderID r) = Some o' \<and> RestingOrder.truncate o' = r \<and>
    ro_OrderID o' = ro_OrderID r \<and> ro_AccountID o' = ro_AccountID r \<and> ro_FilledQty o' = ro_FilledQty r \<and>
    ro_FilledQuote o' = ro_FilledQuote r \<and> ro_Remaining o' = ro_Remaining r \<and>
    Book_remove D b o' = Inr b' \<and>
    book_rel D val b' (lv_remove (ro_OrderID r) B) (lv_remove (ro_OrderID r) A) \<and>
    bk_cfg b' = bk_cfg b \<and> bk_lastSeq b' = bk_lastSeq b"
proof -
  have ne: "\<forall>(p, os) \<in> set B. os \<noteq> []" "\<forall>(p, os) \<in> set A. os \<noteq> []"
    and dist: "distinct (lv_ids B @ lv_ids A)"
    using rel by (auto simp: book_rel_def wf_side_def)
  have main: "\<exists>o' b'. Mapping.lookup (bk_byID b) (ro_OrderID r) = Some o' \<and> RestingOrder.truncate o' = r \<and>
      ro_OrderID o' = ro_OrderID r \<and> ro_AccountID o' = ro_AccountID r \<and> ro_FilledQty o' = ro_FilledQty r \<and>
      ro_FilledQuote o' = ro_FilledQuote r \<and> ro_Remaining o' = ro_Remaining r \<and>
      Book_remove D b o' = Inr b' \<and> book_rel_at D val b' side (lv_remove (ro_OrderID r) X) Y \<and>
      bk_cfg b' = bk_cfg b \<and> bk_lastSeq b' = bk_lastSeq b"
    if at: "book_rel_at D val b side X Y" and "r \<in> set (lv_orders X)" for side X Y
  proof -
    from that(2) obtain p os where mem: "(p, os) \<in> set X" "r \<in> set os" by (fastforce simp: lv_orders_def)
    from remove_rel [OF at mem] book_rel_at_lookup [OF at mem] show ?thesis
      by (intro exI [of _ "as_order (price_key D (bk_tickScale b) p) r"]) auto
  qed
  from r consider (bid) "r \<in> set (lv_orders B)" | (ask) "r \<in> set (lv_orders A)" by auto
  then show ?thesis
  proof cases
    case bid
    then have "ro_OrderID r \<notin> set (lv_ids A)" using dist by (auto simp: lv_ids_orders)
    then have "lv_remove (ro_OrderID r) A = A" using ne by (intro lv_remove_absent) auto
    with main [of Buy B A] rel bid show ?thesis by (simp add: book_rel_at_iff)
  next
    case ask
    then have "ro_OrderID r \<notin> set (lv_ids B)" using dist by (auto simp: lv_ids_orders)
    then have "lv_remove (ro_OrderID r) B = B" using ne by (intro lv_remove_absent) auto
    with main [of Sell A B] rel ask show ?thesis by (simp add: book_rel_at_iff)
  qed
qed

text \<open>A cancel with a fresh sequence number is rejected and changes nothing, or takes the order out.\<close>

lemma book_rel_seq: "book_rel D val b B A \<Longrightarrow> bk_lastSeq b \<le> n \<Longrightarrow> book_rel D val (b\<lparr>bk_lastSeq := n\<rparr>) B A"
  using book_rel_at_seq [of b Buy B A n] by (simp add: book_rel_at_iff)

lemma apply_cancel_cases:
  assumes rel: "book_rel D val b B A" and cmd: "cmd_New cmd = None" "cmd_Cancel cmd = Some c"
    and seq: "bk_lastSeq b < cmd_Seq cmd"
  obtains
    (unknown) "ca_OrderID c \<notin> ro_OrderID ` set (lv_orders B @ lv_orders A)"
      "Apply D b cmd = Some (b\<lparr>bk_lastSeq := cmd_Seq cmd\<rparr>, Inr [EvCancelRejected
         \<lparr>cr_Seq = cmd_Seq cmd, cr_OrderID = ca_OrderID c, cr_Reason = CancelRejectUnknownOrder\<rparr>])"
  | (owner) r where "r \<in> set (lv_orders B @ lv_orders A)" "ro_OrderID r = ca_OrderID c"
      "ca_AccountID c \<noteq> []" "ca_AccountID c \<noteq> ro_AccountID r"
      "Apply D b cmd = Some (b\<lparr>bk_lastSeq := cmd_Seq cmd\<rparr>, Inr [EvCancelRejected
         \<lparr>cr_Seq = cmd_Seq cmd, cr_OrderID = ca_OrderID c, cr_Reason = CancelRejectNotOwner\<rparr>])"
  | (cancelled) r b' where "r \<in> set (lv_orders B @ lv_orders A)" "ro_OrderID r = ca_OrderID c"
      "ca_AccountID c = [] \<or> ca_AccountID c = ro_AccountID r"
      "Apply D b cmd = Some (b', Inr [EvCancelled \<lparr>cn_Seq = cmd_Seq cmd, cn_OrderID = ro_OrderID r,
         cn_AccountID = ro_AccountID r, cn_Reason = CancelByUser, cn_FilledQty = ro_FilledQty r,
         cn_FilledQuote = ro_FilledQuote r, cn_RemainingQty = ro_Remaining r, cn_RemainingQuote = Zero D\<rparr>])"
      "book_rel D val b' (lv_remove (ro_OrderID r) B) (lv_remove (ro_OrderID r) A)"
      "bk_cfg b' = bk_cfg b" "bk_lastSeq b' = cmd_Seq cmd"
proof -
  have Apply: "Apply D b cmd = Some (conclude cmd (applyCancel D b (cmd_Seq cmd) c))"
    using seq cmd by (auto simp: Apply_def)
  show thesis
  proof (cases "ca_OrderID c \<in> ro_OrderID ` set (lv_orders B @ lv_orders A)")
    case False
    then have "ca_OrderID c \<notin> Mapping.keys (bk_byID b)"
      using rel unfolding book_rel_def lv_ids_orders by auto
    then have "Mapping.lookup (bk_byID b) (ca_OrderID c) = None"
      by (simp add: keys_is_none_rep Option.is_none_def)
    with False show thesis by (intro unknown) (auto simp: Apply applyCancel_def conclude_def)
  next
    case True
    then obtain r where r: "r \<in> set (lv_orders B @ lv_orders A)" "ro_OrderID r = ca_OrderID c" by force
    from remove_book_rel [OF rel r(1)] obtain o' b' where
      o': "Mapping.lookup (bk_byID b) (ca_OrderID c) = Some o'" "ro_OrderID o' = ca_OrderID c"
        "ro_AccountID o' = ro_AccountID r" "ro_FilledQty o' = ro_FilledQty r"
        "ro_FilledQuote o' = ro_FilledQuote r" "ro_Remaining o' = ro_Remaining r"
      and b': "Book_remove D b o' = Inr b'" "book_rel D val b' (lv_remove (ro_OrderID r) B) (lv_remove (ro_OrderID r) A)"
        "bk_cfg b' = bk_cfg b" "bk_lastSeq b' = bk_lastSeq b" by (auto simp: r(2))
    show thesis
    proof (cases "ca_AccountID c = [] \<or> ca_AccountID c = ro_AccountID r")
      case False
      with o' r show thesis by (intro owner [OF r]) (auto simp: Apply applyCancel_def conclude_def)
    next
      case True
      show thesis
      proof (rule cancelled [OF r True, of "b'\<lparr>bk_lastSeq := cmd_Seq cmd\<rparr>"])
        show "Apply D b cmd = Some (b'\<lparr>bk_lastSeq := cmd_Seq cmd\<rparr>, Inr [EvCancelled \<lparr>cn_Seq = cmd_Seq cmd, cn_OrderID = ro_OrderID r,
         cn_AccountID = ro_AccountID r, cn_Reason = CancelByUser, cn_FilledQty = ro_FilledQty r,
         cn_FilledQuote = ro_FilledQuote r, cn_RemainingQty = ro_Remaining r, cn_RemainingQuote = Zero D\<rparr>])"
          using True o' b'(1) r(2) by (auto simp: Apply applyCancel_def conclude_def)
        show "book_rel D val (b'\<lparr>bk_lastSeq := cmd_Seq cmd\<rparr>) (lv_remove (ro_OrderID r) B) (lv_remove (ro_OrderID r) A)"
          using b'(2,4) seq by (intro book_rel_seq) auto
      qed (simp_all add: b')
    qed
  qed
qed

end

section \<open>Restoring a book\<close>

text \<open>The orders of the levels at one price.\<close>

definition orders_at :: "('d \<Rightarrow> rat) \<Rightarrow> rat \<Rightarrow> 'd levels \<Rightarrow> 'd RestingOrder list" where
  "orders_at val v L = lv_orders (filter (\<lambda>(p, os). amt_val val p = v) L)"

lemma orders_at_simps [simp]:
  "orders_at val v [] = []"
  "orders_at val v ((p, os) # L) = (if amt_val val p = v then os @ orders_at val v L else orders_at val v L)"
  "orders_at val v (K @ L) = orders_at val v K @ orders_at val v L"
  by (simp_all add: orders_at_def)

lemma orders_at_none: "\<forall>(p, os) \<in> set L. amt_val val p \<noteq> v \<Longrightarrow> orders_at val v L = []"
  by (induction L) auto

definition rest_all :: "'d decimal_pkg \<Rightarrow> Side \<Rightarrow> 'd RestingOrder list \<Rightarrow> 'd levels \<Rightarrow> 'd levels" where
  "rest_all D side rs L = fold (lv_insert D side) (filter (\<lambda>r. ro_Side r = side) rs) L"

lemma rest_all_simps [simp]:
  "rest_all D side [] L = L"
  "rest_all D side (r # rs) L = rest_all D side rs (if ro_Side r = side then lv_insert D side r L else L)"
  by (simp_all add: rest_all_def)

lemma wf_side_order:
  assumes "wf_side val cfg side n L" and "r \<in> set (lv_orders L)"
  shows "wf_order val cfg side (ro_Price r) r" and "wf_price val cfg (ro_Price r)" and "ro_Seq r \<le> n"
proof -
  obtain p os where "(p, os) \<in> set L" "r \<in> set os" using assms(2) by (fastforce simp: lv_orders_def)
  with assms(1) have "wf_order val cfg side p r" "wf_price val cfg p" "ro_Seq r \<le> n"
    by (auto simp: wf_side_def)
  then show "wf_order val cfg side (ro_Price r) r" "wf_price val cfg (ro_Price r)" "ro_Seq r \<le> n"
    by (simp_all add: wf_order_def wf_price_def)
qed

lemma sorted_at:
  assumes "wf_side val cfg side n L"
  shows "sorted (map ro_Seq (orders_at val v L))"
proof -
  have "sorted_wrt (val_better val side) (map fst L)" "\<forall>(p, os) \<in> set L. sorted (map ro_Seq os)"
    using assms by (auto simp: wf_side_def)
  then show ?thesis
  proof (induction L)
    case (Cons a L)
    obtain p os where a: "a = (p, os)" by (cases a)
    show ?case
    proof (cases "amt_val val p = v")
      case True
      then have "\<forall>(q, qs) \<in> set L. amt_val val q \<noteq> v"
        using Cons.prems(1) by (auto simp: a val_better_def split: if_splits)
      with True Cons.prems show ?thesis by (simp add: a orders_at_none)
    next
      case False
      with Cons show ?thesis by (simp add: a)
    qed
  qed simp
qed

text \<open>Levels in order are determined by the orders they hold at each price.\<close>

lemma levels_unique:
  assumes "sorted_wrt (val_better val side) (map fst L)" "\<forall>(p, os) \<in> set L. os \<noteq> []"
    and "sorted_wrt (val_better val side) (map fst K)" "\<forall>(p, os) \<in> set K. os \<noteq> []"
    and "\<And>v. orders_at val v L = orders_at val v K"
  shows "map snd L = map snd K"
  using assms
proof (induction L arbitrary: K)
  case Nil
  then show ?case
  proof (cases K)
    case (Cons a K')
    obtain p os where "a = (p, os)" by (cases a)
    with Nil.prems(4) Nil.prems(5) [of "amt_val val (fst a)"] Cons show ?thesis by simp
  qed simp
next
  case (Cons a L)
  obtain p os where a: "a = (p, os)" by (cases a)
  have here: "orders_at val (amt_val val p) (a # L) = os"
    and os: "os \<noteq> []" and Lw: "\<forall>(q, qs) \<in> set L. val_better val side p q"
    using Cons.prems(1,2) by (auto simp: a val_better_def intro!: orders_at_none split: if_splits)
  have "K \<noteq> []" using here os Cons.prems(5) [of "amt_val val p"] by auto
  then obtain q qs K' where K: "K = (q, qs) # K'" by (cases K) auto
  have hereK: "orders_at val (amt_val val q) K = qs"
    and qs: "qs \<noteq> []" and Kw: "\<forall>(r, rs) \<in> set K'. val_better val side q r"
    using Cons.prems(3,4) by (auto simp: K val_better_def intro!: orders_at_none split: if_splits)
  have pq: "amt_val val p = amt_val val q"
  proof (rule ccontr)
    assume ne: "amt_val val p \<noteq> amt_val val q"
    then consider "val_better val side p q" | "val_better val side q p"
      by (fastforce simp: val_better_def split: if_splits)
    then show False
    proof cases
      case 1
      then have "orders_at val (amt_val val p) K = []"
        using Kw unfolding K by (intro orders_at_none) (auto simp: val_better_def split: if_splits)
      with here os Cons.prems(5) show False by metis
    next
      case 2
      then have "orders_at val (amt_val val q) (a # L) = []"
        using Lw unfolding a by (intro orders_at_none) (auto simp: val_better_def split: if_splits)
      with hereK qs Cons.prems(5) show False by metis
    qed
  qed
  then have osqs: "os = qs" using here hereK Cons.prems(5) by metis
  have "map snd L = map snd K'"
  proof (rule Cons.IH)
    show "orders_at val v L = orders_at val v K'" for v
      using Cons.prems(5) [of v] pq osqs by (auto simp: a K split: if_splits)
  qed (use Cons.prems K in auto)
  then show ?case by (simp add: a K osqs)
qed

context decimal
begin

lemma orders_at_insert:
  assumes "sorted_wrt (val_better val side) (map fst L)"
  shows "orders_at val v (lv_insert D side r L) =
    orders_at val v L @ (if V (ro_Price r) = v then [r] else [])"
  using lv_insert_cases [OF assms, of r]
proof (elim disjE exE conjE)
  fix L1 p os L2 assume L: "L = L1 @ (p, os) # L2" and p: "V p = V (ro_Price r)"
    and ins: "lv_insert D side r L = L1 @ (p, os @ [r]) # L2"
  have "orders_at val v L2 = []" if "V p = v"
    using assms that by (intro orders_at_none) (auto simp: L sorted_wrt_append val_better_def split: if_splits)
  then show ?thesis unfolding ins by (simp add: L p)
next
  fix L1 L2 assume L: "L = L1 @ L2" and ins: "lv_insert D side r L = L1 @ (ro_Price r, [r]) # L2"
    and b: "\<forall>(q, qs) \<in> set L2. val_better val side (ro_Price r) q"
  have "orders_at val v L2 = []" if "V (ro_Price r) = v"
    using b that by (intro orders_at_none) (auto simp: val_better_def split: if_splits)
  then show ?thesis unfolding ins by (simp add: L)
qed

lemma validateResting_ok:
  assumes "MarketConfig_Validate D cfg = None" and "wf_order val cfg side (ro_Price r) r"
    and "wf_price val cfg (ro_Price r)" and "side \<in> {Buy, Sell}"
  shows "validateResting D cfg r = None"
  using assms by (auto simp: validateResting_def wf_order_def wf_price_def multiple_iff Config_ok)

lemma rest_one:
  assumes rel: "book_rel D val b B A" and r: "wf_order val (bk_cfg b) (ro_Side r) (ro_Price r) r"
    "wf_price val (bk_cfg b) (ro_Price r)" "ro_Side r \<in> {Buy, Sell}"
    and fresh: "ro_OrderID r \<notin> set (lv_ids B @ lv_ids A)"
    and seq: "\<forall>x \<in> set (lv_orders B @ lv_orders A). ro_Seq x \<le> ro_Seq r" and n: "ro_Seq r \<le> bk_lastSeq b"
  shows "book_rel D val (rest_order D b r) (if ro_Side r = Buy then lv_insert D Buy r B else B)
      (if ro_Side r = Sell then lv_insert D Sell r A else A)"
    and "bk_cfg (rest_order D b r) = bk_cfg b" and "bk_lastSeq (rest_order D b r) = bk_lastSeq b"
proof -
  let ?side = "ro_Side r" let ?X = "if ro_Side r = Buy then B else A" and ?Y = "if ro_Side r = Buy then A else B"
  have at: "book_rel_at D val b ?side ?X ?Y" using rel r(3) by (auto simp: book_rel_at_iff)
  have fr: "ro_OrderID r \<notin> set (lv_ids ?X @ lv_ids ?Y)" using fresh by auto
  have sq: "\<forall>x \<in> snd ` set (flat ?X). ro_Seq x \<le> ro_Seq r" using seq by (auto simp: lv_orders_flat)
  note res = rest_order_rel [OF at r(1,2) fr sq order_refl n]
  show "bk_cfg (rest_order D b r) = bk_cfg b" and last: "bk_lastSeq (rest_order D b r) = bk_lastSeq b"
    using res(2,3) .
  have "(rest_order D b r)\<lparr>bk_lastSeq := bk_lastSeq b\<rparr> = rest_order D b r" by (simp flip: last)
  with res(1) show "book_rel D val (rest_order D b r) (if ro_Side r = Buy then lv_insert D Buy r B else B)
      (if ro_Side r = Sell then lv_insert D Sell r A else A)"
    using r(3) by (auto simp: book_rel_at_iff)
qed

lemma lv_orders_insert:
  assumes "sorted_wrt (val_better val side) (map fst L)"
  shows "set (lv_orders (lv_insert D side r L)) = insert r (set (lv_orders L))"
  using lv_insert_cases [OF assms, of r] by auto

lemma book_rel_sorted:
  "book_rel D val b B A \<Longrightarrow> sorted_wrt (val_better val Buy) (map fst B)"
  "book_rel D val b B A \<Longrightarrow> sorted_wrt (val_better val Sell) (map fst A)"
  by (simp_all add: book_rel_def wf_side_def)

lemma restore_loop_rel:
  assumes "book_rel D val b B A"
    and "\<forall>r \<in> set rs. ro_Side r \<in> {Buy, Sell} \<and> wf_order val (bk_cfg b) (ro_Side r) (ro_Price r) r \<and>
      wf_price val (bk_cfg b) (ro_Price r) \<and> ro_Seq r \<le> bk_lastSeq b"
    and "distinct (map ro_OrderID rs)" and "set (map ro_OrderID rs) \<inter> set (lv_ids B @ lv_ids A) = {}"
    and "sorted (map ro_Seq rs)" and "\<forall>x \<in> set (lv_orders B @ lv_orders A). \<forall>r \<in> set rs. ro_Seq x \<le> ro_Seq r"
  shows "\<exists>b'. restore_loop D b rs = Inr b' \<and> book_rel D val b' (rest_all D Buy rs B) (rest_all D Sell rs A) \<and>
    bk_cfg b' = bk_cfg b \<and> bk_lastSeq b' = bk_lastSeq b"
  using assms
proof (induction rs arbitrary: b B A)
  case (Cons r rs)
  note rel = Cons.prems(1)
  have r: "ro_Side r \<in> {Buy, Sell}" "wf_order val (bk_cfg b) (ro_Side r) (ro_Price r) r"
    "wf_price val (bk_cfg b) (ro_Price r)" "ro_Seq r \<le> bk_lastSeq b" using Cons.prems(2) by auto
  have fresh: "ro_OrderID r \<notin> set (lv_ids B @ lv_ids A)" using Cons.prems(4) by auto
  let ?B = "if ro_Side r = Buy then lv_insert D Buy r B else B" and ?A = "if ro_Side r = Sell then lv_insert D Sell r A else A"
  let ?b = "rest_order D b r"
  have one: "book_rel D val ?b ?B ?A" "bk_cfg ?b = bk_cfg b" "bk_lastSeq ?b = bk_lastSeq b"
    using rest_one [OF rel r(2,3,1) fresh _ r(4)] Cons.prems(6) by auto
  have cfg: "MarketConfig_Validate D (bk_cfg b) = None" using rel by (simp add: book_rel_def)
  have "ro_OrderID r \<notin> Mapping.keys (bk_byID b)" using rel fresh by (simp add: book_rel_def)
  then have none: "Mapping.lookup (bk_byID b) (ro_OrderID r) = None" by (simp add: keys_is_none_rep Option.is_none_def)
  have step: "restore_loop D b (r # rs) = restore_loop D ?b rs"
    using validateResting_ok [OF cfg r(2,3,1)] none r(4) one(3) by (simp add: Let_def not_less [symmetric])
  have orders: "set (lv_orders ?B @ lv_orders ?A) = insert r (set (lv_orders B @ lv_orders A))"
    using r(1) book_rel_sorted [OF rel] by (auto simp: lv_orders_insert)
  then have ids: "set (lv_ids ?B @ lv_ids ?A) = insert (ro_OrderID r) (set (lv_ids B @ lv_ids A))"
    unfolding lv_ids_orders set_append set_map image_Un [symmetric] by (metis image_insert set_append)
  from r(1) have "rest_all D Buy (r # rs) B = rest_all D Buy rs ?B" "rest_all D Sell (r # rs) A = rest_all D Sell rs ?A"
    by auto
  moreover have "\<exists>b'. restore_loop D ?b rs = Inr b' \<and> book_rel D val b' (rest_all D Buy rs ?B) (rest_all D Sell rs ?A) \<and>
      bk_cfg b' = bk_cfg ?b \<and> bk_lastSeq b' = bk_lastSeq ?b"
  proof (rule Cons.IH [OF one(1)])
    show "set (map ro_OrderID rs) \<inter> set (lv_ids ?B @ lv_ids ?A) = {}"
      unfolding ids using Cons.prems(3,4) by auto
    show "\<forall>x \<in> set (lv_orders ?B @ lv_orders ?A). \<forall>r \<in> set rs. ro_Seq x \<le> ro_Seq r"
      unfolding orders using Cons.prems(5,6) by auto
  qed (use Cons.prems one(2,3) in auto)
  ultimately show ?case using step one(2,3) by simp
qed simp

lemma lv_insert_sorted:
  assumes "sorted_wrt (val_better val side) (map fst L)"
  shows "sorted_wrt (val_better val side) (map fst (lv_insert D side r L))"
  using lv_insert_cases [OF assms, of r] assms by (fastforce simp: sorted_wrt_append)

lemma orders_at_rest_all:
  assumes "sorted_wrt (val_better val side) (map fst L)"
  shows "orders_at val v (rest_all D side rs L) =
    orders_at val v L @ filter (\<lambda>r. ro_Side r = side \<and> V (ro_Price r) = v) rs"
  using assms
proof (induction rs arbitrary: L)
  case (Cons r rs)
  then show ?case using lv_insert_sorted [OF Cons.prems] by (simp add: orders_at_insert)
qed simp

text \<open>
  The resting orders of a book, in whatever order they are given, restore the book's levels,
  provided no two of them have the same sequence number.
\<close>

lemma restored_side:
  assumes wf: "wf_side val cfg side n L" and wf': "wf_side val cfg side n (rest_all D side rs [])"
    and perm: "mset (filter (\<lambda>r. ro_Side r = side) rs) = mset (lv_orders L)"
    and dist: "distinct (map ro_Seq rs)" and sorted: "sorted (map ro_Seq rs)"
  shows "lv_orders (rest_all D side rs []) = lv_orders L"
proof -
  have "orders_at val v (rest_all D side rs []) = orders_at val v L" for v
  proof -
    let ?P = "\<lambda>r. V (ro_Price r) = v"
    have at: "orders_at val v (rest_all D side rs []) = filter ?P (filter (\<lambda>r. ro_Side r = side) rs)"
      by (simp add: orders_at_rest_all conj_commute)
    have "orders_at val v L = filter ?P (lv_orders L)"
    proof -
      have "\<forall>(p, os) \<in> set L. \<forall>r \<in> set os. V (ro_Price r) = V p" using wf by (auto simp: wf_side_def wf_order_def)
      then show ?thesis by (induction L) (auto simp: filter_empty_conv)
    qed
    moreover have "mset (filter ?P (filter (\<lambda>r. ro_Side r = side) rs)) = mset (filter ?P (lv_orders L))"
      unfolding mset_filter [of ?P] perm ..
    ultimately have m: "mset (filter ?P (filter (\<lambda>r. ro_Side r = side) rs)) = mset (orders_at val v L)" by simp
    let ?xs = "filter ?P (filter (\<lambda>r. ro_Side r = side) rs)"
    have xs: "sorted (map ro_Seq ?xs)" "distinct (map ro_Seq ?xs)"
      using sorted dist by (simp_all add: sorted_filter distinct_map_filter)
    have set: "set ?xs = set (orders_at val v L)" using m by (rule mset_eq_setD)
    have "mset (map ro_Seq ?xs) = mset (map ro_Seq (orders_at val v L))" using m by (metis mset_map)
    then have "distinct (map ro_Seq (orders_at val v L))" using xs(2) mset_eq_imp_distinct_iff by blast
    moreover have "inj_on ro_Seq (set ?xs \<union> set (orders_at val v L))"
      using xs(2) unfolding set by (metis Un_absorb distinct_map set)
    ultimately show ?thesis unfolding at using xs set sorted_at [OF wf, of v]
      by (intro map_sorted_distinct_set_unique [of ro_Seq]) auto
  qed
  then have "map snd (rest_all D side rs []) = map snd L"
    using wf wf' by (intro levels_unique [of val side]) (auto simp: wf_side_def)
  then show ?thesis by (simp add: lv_orders_def)
qed

end

end
