(* ===== verification/Service.thy ===== *)
theory Service
  imports Main
begin

text \<open>
  The contract the stateful components share: one operation at a time is applied to a state, it
  returns, it keeps the component's invariant, and an operation that fails leaves the state as
  it was. The locale \<open>service\<close> states the contract once; the components that keep it (the order
  book, the ledger, the market data book) interpret it and get the lemmas on whole runs.
\<close>

section \<open>Runs\<close>

text \<open>Operations applied in order until one fails: the results, the state, the error.\<close>

fun run_all :: "('s \<Rightarrow> 'c \<Rightarrow> ('s \<times> ('e + 'r)) option) \<Rightarrow> 's \<Rightarrow> 'c list \<Rightarrow> ('r list \<times> 's \<times> 'e option) option" where
  "run_all step s [] = Some ([], s, None)"
| "run_all step s (c # cs) =
     (case step s c of
        None \<Rightarrow> None
      | Some (s1, Inl e) \<Rightarrow> Some ([], s1, Some e)
      | Some (s1, Inr r) \<Rightarrow>
          (case run_all step s1 cs of
             None \<Rightarrow> None
           | Some (out, rest) \<Rightarrow> Some (r # out, rest)))"

text \<open>The states operations lead to.\<close>

inductive reaches :: "('s \<Rightarrow> 'c \<Rightarrow> ('s \<times> ('e + 'r)) option) \<Rightarrow> 's \<Rightarrow> 's \<Rightarrow> bool" for step where
  reaches_refl: "reaches step s s"
| reaches_step: "reaches step s s' \<Longrightarrow> step s' c = Some (s'', r) \<Longrightarrow> reaches step s s''"

inductive_cases reaches_stepE: "reaches step s s'"

lemma reaches_trans: "reaches step s' s'' \<Longrightarrow> reaches step s s' \<Longrightarrow> reaches step s s''"
  by (induction rule: reaches.induct) (auto intro: reaches_step)

section \<open>The contract\<close>

locale service =
  fixes step :: "'s \<Rightarrow> 'c \<Rightarrow> ('s \<times> ('e + 'r)) option" and inv :: "'s \<Rightarrow> bool"
  assumes returns: "inv s \<Longrightarrow> \<exists>s' r. step s c = Some (s', r) \<and> inv s'"
    and atomic: "inv s \<Longrightarrow> step s c = Some (s', Inl e) \<Longrightarrow> s' = s"
begin

lemma reaches_inv: "reaches step s s' \<Longrightarrow> inv s \<Longrightarrow> inv s'"
proof (induction rule: reaches.induct)
  case (reaches_step s s' c s'' r)
  then show ?case using returns [of s' c] by auto
qed

text \<open>A run returns, keeps the invariant, and stops at the first failure with nothing half done.\<close>

lemma run_all_returns:
  assumes "inv s"
  shows "\<exists>out s' err. run_all step s cs = Some (out, s', err) \<and> inv s' \<and> reaches step s s' \<and>
    length out \<le> length cs \<and> (err = None \<longleftrightarrow> length out = length cs) \<and>
    (\<forall>e. err = Some e \<longrightarrow> step s' (cs ! length out) = Some (s', Inl e))"
  using assms
proof (induction cs arbitrary: s)
  case Nil
  then show ?case by (auto intro: reaches_refl)
next
  case (Cons c cs)
  obtain s1 r where s1: "step s c = Some (s1, r)" "inv s1" using returns [OF Cons.prems] by blast
  then have one: "reaches step s s1" by (blast intro: reaches_refl reaches_step)
  show ?case
  proof (cases r)
    case (Inl e)
    with s1 have "s1 = s" using atomic [OF Cons.prems] by blast
    with Inl s1 one show ?thesis by auto
  next
    case (Inr x)
    from Cons.IH [OF s1(2)] obtain out s' err where "run_all step s1 cs = Some (out, s', err)" "inv s'"
      "reaches step s1 s'" "length out \<le> length cs" "err = None \<longleftrightarrow> length out = length cs"
      "\<forall>e. err = Some e \<longrightarrow> step s' (cs ! length out) = Some (s', Inl e)" by blast
    with Inr s1 one show ?thesis by (auto intro: reaches_trans)
  qed
qed

end

end
