(* ===== verification/Decimal_Fixed.thy ===== *)
theory Decimal_Fixed
  imports Decimal
begin

text \<open>
  A fixed-point package that satisfies the laws of \<open>Decimal.decimal\<close>: a coefficient and a
  number of fraction digits, on the integers. It shows that the laws can hold together, and it
  is what the witnesses of the development compute with.
\<close>

datatype fx = Fx int nat

fun fx_val :: "fx \<Rightarrow> rat" where
  "fx_val (Fx c s) = of_int c / 10 ^ s"

text \<open>Integer division truncated towards zero.\<close>

definition quot :: "int \<Rightarrow> int \<Rightarrow> int" where
  "quot a b = sgn a * sgn b * (\<bar>a\<bar> div \<bar>b\<bar>)"

fun fx_add :: "fx \<Rightarrow> fx \<Rightarrow> fx" where
  "fx_add (Fx a s) (Fx b t) = Fx (a * 10 ^ (max s t - s) + b * 10 ^ (max s t - t)) (max s t)"

fun fx_neg :: "fx \<Rightarrow> fx" where
  "fx_neg (Fx a s) = Fx (- a) s"

fun fx_mul :: "fx \<Rightarrow> fx \<Rightarrow> fx" where
  "fx_mul (Fx a s) (Fx b t) = Fx (a * b) (s + t)"

definition fx_sub :: "fx \<Rightarrow> fx \<Rightarrow> fx" where
  "fx_sub x y = fx_add x (fx_neg y)"

fun fx_abs :: "fx \<Rightarrow> fx" where
  "fx_abs (Fx a s) = Fx \<bar>a\<bar> s"

fun fx_cmp :: "fx \<Rightarrow> fx \<Rightarrow> int" where
  "fx_cmp (Fx a s) (Fx b t) =
     (if a * 10 ^ t < b * 10 ^ s then -1 else if a * 10 ^ t = b * 10 ^ s then 0 else 1)"

fun fx_sign :: "fx \<Rightarrow> int" where
  "fx_sign (Fx a s) = (if a < 0 then -1 else if a = 0 then 0 else 1)"

fun fx_floor :: "fx \<Rightarrow> int \<Rightarrow> fx" where
  "fx_floor (Fx a s) p = Fx (a * 10 ^ nat p div 10 ^ s) (nat p)"

definition fx_ceil :: "fx \<Rightarrow> int \<Rightarrow> fx" where
  "fx_ceil x p = fx_neg (fx_floor (fx_neg x) p)"

fun fx_trunc :: "fx \<Rightarrow> int \<Rightarrow> fx" where
  "fx_trunc (Fx a s) p = Fx (quot (a * 10 ^ nat p) (10 ^ s)) (nat p)"

fun fx_quo :: "fx \<Rightarrow> fx \<Rightarrow> int \<Rightarrow> fx" where
  "fx_quo (Fx a s) (Fx b t) p = Fx (quot (a * 10 ^ (t + nat p)) (b * 10 ^ s)) (nat p)"

definition fx_quorem :: "fx \<Rightarrow> fx \<Rightarrow> int \<Rightarrow> fx \<times> fx" where
  "fx_quorem x y p = (fx_quo x y p, fx_sub x (fx_mul y (fx_quo x y p)))"

definition fx_mod :: "fx \<Rightarrow> fx \<Rightarrow> fx" where
  "fx_mod x y = snd (fx_quorem x y 0)"

text \<open>Trailing zeros are stripped for the canonical text.\<close>

primrec fx_strip :: "nat \<Rightarrow> int \<Rightarrow> int \<times> nat" where
  "fx_strip 0 c = (c, 0)"
| "fx_strip (Suc s) c = (if c mod 10 = 0 then fx_strip s (c div 10) else (c, Suc s))"

fun fx_string :: "fx \<Rightarrow> string" where
  "fx_string (Fx c s) = (case fx_strip s c of (c', s') \<Rightarrow> dec_text c' s')"

fun fx_string_fixed :: "fx \<Rightarrow> int \<Rightarrow> string" where
  "fx_string_fixed (Fx c s) p =
     dec_text (sgn c * ((2 * \<bar>c\<bar> * 10 ^ nat p + 10 ^ s) div (2 * 10 ^ s))) (nat p)"

definition fx_parse :: "string \<Rightarrow> fx option" where
  "fx_parse str =
     (let neg = (case str of c # _ \<Rightarrow> c = CHR ''-'' | [] \<Rightarrow> False);
          t = (if neg then tl str else str);
          ip = takeWhile is_digit t; r = dropWhile is_digit t;
          fp = (if r = [] then [] else tl r)
      in if ip = [] \<or> \<not> list_all is_digit fp \<or> lit_text neg ip fp \<noteq> str then None
         else Some (Fx ((if neg then -1 else 1) * int (digits_val (ip @ fp))) (length fp)))"

definition fx_of_big_int :: "int \<Rightarrow> int \<Rightarrow> fx" where
  "fx_of_big_int c e = (if 0 \<le> e then Fx (c * 10 ^ nat e) 0 else Fx c (nat (- e)))"

definition fx_pkg :: "fx decimal_pkg" where
  "fx_pkg = \<lparr>dZero = Fx 0 0, dNewFromString = fx_parse, dNewFromInt = (\<lambda>i. Fx i 0),
     dNewFromBigInt = fx_of_big_int, dAdd = fx_add, dSub = fx_sub, dMul = fx_mul, dNeg = fx_neg,
     dAbs = fx_abs, dCmp = fx_cmp, dEqual = (\<lambda>x y. fx_cmp x y = 0), dSign = fx_sign,
     dIsZero = (\<lambda>x. fx_sign x = 0), dIsNegative = (\<lambda>x. fx_sign x < 0),
     dIsPositive = (\<lambda>x. 0 < fx_sign x), dRoundCeil = fx_ceil, dRoundFloor = fx_floor,
     dTruncate = fx_trunc, dQuoRem = fx_quorem, dMod = fx_mod, dString = fx_string,
     dStringFixed = fx_string_fixed, dCoefficient = (\<lambda>x. case x of Fx c s \<Rightarrow> c),
     dExponent = (\<lambda>x. case x of Fx c s \<Rightarrow> - int s)\<rparr>"


lemma fx_val_add [simp]: "fx_val (fx_add x y) = fx_val x + fx_val y"
proof -
  obtain a s b t where xy: "x = Fx a s" "y = Fx b t" by (cases x; cases y)
  have "rat_of_int a * 10 ^ (max s t - s) / 10 ^ max s t = of_int a / 10 ^ s"
    "rat_of_int b * 10 ^ (max s t - t) / 10 ^ max s t = of_int b / 10 ^ t"
    by (simp_all add: power_diff)
  then show ?thesis by (simp add: xy add_divide_distrib)
qed

lemma fx_val_neg [simp]: "fx_val (fx_neg x) = - fx_val x"
  by (cases x) simp

lemma fx_val_sub [simp]: "fx_val (fx_sub x y) = fx_val x - fx_val y"
  by (simp add: fx_sub_def)

lemma fx_val_mul [simp]: "fx_val (fx_mul x y) = fx_val x * fx_val y"
  by (cases x; cases y) (simp add: power_add)

lemma fx_cmp_val: "fx_cmp x y = (if fx_val x < fx_val y then -1 else if fx_val x = fx_val y then 0 else 1)"
proof -
  obtain a s b t where xy: "x = Fx a s" "y = Fx b t" by (cases x; cases y)
  have "a * 10 ^ t < b * 10 ^ s \<longleftrightarrow> (of_int (a * 10 ^ t) :: rat) < of_int (b * 10 ^ s)"
    "a * 10 ^ t = b * 10 ^ s \<longleftrightarrow> (of_int (a * 10 ^ t) :: rat) = of_int (b * 10 ^ s)"
    by (simp_all only: of_int_less_iff of_int_eq_iff)
  then show ?thesis by (simp add: xy field_simps)
qed

lemma fx_sign_val: "fx_sign x = (if fx_val x < 0 then -1 else if fx_val x = 0 then 0 else 1)"
  by (cases x) (simp add: divide_less_0_iff)

lemma quot_trunc: "0 < b \<Longrightarrow> quot a b = trunc_rat (of_int a / of_int b)"
proof -
  assume b: "0 < b"
  have "trunc_rat (of_int a / of_int b) = a div b" if "0 \<le> a"
    using b that by (simp add: trunc_rat_def floor_divide_of_int_eq)
  moreover have "trunc_rat (of_int a / of_int b) = - (- a div b)" if "a < 0"
    using b that floor_divide_of_int_eq [of "- a" b, where ?'a = rat]
    by (simp add: trunc_rat_def zero_le_divide_iff ceiling_def)
  ultimately show ?thesis using b by (auto simp: quot_def sgn_if)
qed

lemma fx_val_floor: "fx_val (fx_floor x (int n)) = of_int \<lfloor>fx_val x * 10 ^ n\<rfloor> / 10 ^ n"
proof -
  obtain a s where x: "x = Fx a s" by (cases x)
  have "\<lfloor>of_int (a * 10 ^ n) / (of_int (10 ^ s) :: rat)\<rfloor> = a * 10 ^ n div 10 ^ s"
    by (rule floor_divide_of_int_eq)
  then show ?thesis by (simp add: x)
qed

lemma fx_val_ceil: "fx_val (fx_ceil x (int n)) = of_int \<lceil>fx_val x * 10 ^ n\<rceil> / 10 ^ n"
  by (simp add: fx_ceil_def fx_val_floor ceiling_def)

lemma fx_val_trunc: "fx_val (fx_trunc x (int n)) = of_int (trunc_rat (fx_val x * 10 ^ n)) / 10 ^ n"
  by (cases x) (simp add: quot_trunc)

lemma quot_trunc': "b \<noteq> 0 \<Longrightarrow> quot a b = trunc_rat (of_int a / of_int b)"
proof (cases "0 < b")
  case False
  assume "b \<noteq> 0"
  with False have "quot (- a) (- b) = trunc_rat (of_int (- a) / of_int (- b))"
    by (intro quot_trunc) simp
  then show ?thesis by (simp add: quot_def)
qed (rule quot_trunc)

lemma trunc_rat_frac:
  "\<bar>z - of_int (trunc_rat z)\<bar> < 1"
  "0 \<le> z \<Longrightarrow> 0 \<le> z - of_int (trunc_rat z)"
  "z \<le> 0 \<Longrightarrow> z - of_int (trunc_rat z) \<le> 0"
  by (auto simp: trunc_rat_def abs_if; linarith)+

lemma fx_val_quo:
  assumes "fx_val y \<noteq> 0"
  shows "fx_val (fx_quo x y (int n)) = of_int (trunc_rat (fx_val x / fx_val y * 10 ^ n)) / 10 ^ n"
proof -
  obtain a s b t where xy: "x = Fx a s" "y = Fx b t" by (cases x; cases y)
  with assms have "b \<noteq> 0" by simp
  then have "b * 10 ^ s \<noteq> 0" by simp
  from quot_trunc' [OF this, of "a * 10 ^ (t + n)"]
  have "quot (a * 10 ^ (t + n)) (b * 10 ^ s)
      = trunc_rat (of_int a * 10 ^ (t + n) / (of_int b * 10 ^ s))" by simp
  also have "of_int a * 10 ^ (t + n) / (of_int b * 10 ^ s)
      = (of_int a / 10 ^ s) / (of_int b / 10 ^ t) * (10 ^ n :: rat)"
    using \<open>b \<noteq> 0\<close> by (simp add: field_simps power_add)
  finally show ?thesis by (simp add: xy)
qed

lemma fx_quorem_law:
  assumes "fx_val y \<noteq> 0" and "fx_quorem x y (int n) = (q, r)"
  shows "fx_val x = fx_val y * fx_val q + fx_val r \<and> fx_val q * 10 ^ n \<in> \<int> \<and>
      \<bar>fx_val r\<bar> * 10 ^ n < \<bar>fx_val y\<bar> \<and> (0 \<le> fx_val x \<longrightarrow> 0 \<le> fx_val r) \<and>
      (fx_val x < 0 \<longrightarrow> fx_val r \<le> 0)"
proof -
  define z where "z = fx_val x / fx_val y * 10 ^ n"
  define e where "e = z - of_int (trunc_rat z)"
  from assms(2) have q: "fx_val q = of_int (trunc_rat z) / 10 ^ n"
    and r: "fx_val r = fx_val x - fx_val y * fx_val q"
    using fx_val_quo [OF assms(1), of x n] by (auto simp: fx_quorem_def z_def)
  have re: "fx_val r * 10 ^ n = fx_val y * e"
    using assms(1) by (simp add: r q e_def z_def field_simps)
  have "\<bar>fx_val r\<bar> * 10 ^ n = \<bar>fx_val r * 10 ^ n\<bar>" by (simp add: abs_mult)
  also have "\<dots> < \<bar>fx_val y\<bar>"
    using trunc_rat_frac(1) [of z] assms(1) by (simp add: re abs_mult e_def)
  finally have small: "\<bar>fx_val r\<bar> * 10 ^ n < \<bar>fx_val y\<bar>" .
  have p: "0 < (10::rat) ^ n" by simp
  have "0 \<le> fx_val y * e" if "0 \<le> fx_val x"
    using that trunc_rat_frac(2,3) [of z] p unfolding e_def [symmetric]
    by (cases "0 < fx_val y") (auto simp: z_def zero_le_mult_iff zero_le_divide_iff mult_le_0_iff divide_le_0_iff)
  then have pos: "0 \<le> fx_val r" if "0 \<le> fx_val x"
    using that p unfolding re [symmetric] by (auto simp: zero_le_mult_iff)
  have "fx_val y * e \<le> 0" if "fx_val x < 0"
    using that trunc_rat_frac(2,3) [of z] p unfolding e_def [symmetric]
    by (cases "0 < fx_val y") (auto simp: z_def zero_le_mult_iff zero_le_divide_iff mult_le_0_iff divide_le_0_iff)
  then have neg: "fx_val r \<le> 0" if "fx_val x < 0"
    using that p unfolding re [symmetric] by (auto simp: mult_le_0_iff)
  show ?thesis using small pos neg by (simp add: r) (simp add: q)
qed

lemma fx_strip_spec:
  assumes "fx_strip s c = (c', s')"
  shows "(of_int c :: rat) / 10 ^ s = of_int c' / 10 ^ s' \<and> (s' = 0 \<or> \<not> 10 dvd c')"
  using assms
proof (induction s arbitrary: c)
  case 0
  then show ?case by simp
next
  case (Suc s)
  show ?case
  proof (cases "c mod 10 = 0")
    case True
    then obtain k where k: "c = 10 * k" by auto
    with True Suc.prems have "fx_strip s k = (c', s')" by simp
    from Suc.IH [OF this] k show ?thesis by simp
  next
    case False
    with Suc.prems show ?thesis by (auto simp: dvd_eq_mod_eq_0)
  qed
qed

lemma fx_string_fixed_law:
  "fx_string_fixed x (int n) = dec_text (round_half_away (fx_val x * 10 ^ n)) n"
proof -
  obtain c s where x: "x = Fx c s" by (cases x)
  have half: "(of_int a * 10 ^ n / 10 ^ s + 1 / 2 :: rat) = of_int (2 * a * 10 ^ n + 10 ^ s) / of_int (2 * 10 ^ s)" for a
    by (simp add: field_simps)
  have fl: "\<lfloor>of_int a * 10 ^ n / 10 ^ s + 1 / 2 :: rat\<rfloor> = (2 * a * 10 ^ n + 10 ^ s) div (2 * 10 ^ s)" for a
    unfolding half by (rule floor_divide_of_int_eq)
  have "round_half_away (of_int c * 10 ^ n / 10 ^ s)
      = sgn c * ((2 * \<bar>c\<bar> * 10 ^ n + 10 ^ s) div (2 * 10 ^ s))"
  proof (cases "0 \<le> c")
    case True
    then show ?thesis using fl [of c]
      by (cases "c = 0") (auto simp: round_half_away_def sgn_if)
  next
    case False
    then have "\<lceil>of_int c * 10 ^ n / 10 ^ s - 1 / 2 :: rat\<rceil>
        = - \<lfloor>of_int (- c) * 10 ^ n / 10 ^ s + 1 / 2 :: rat\<rfloor>"
      by (simp add: ceiling_def)
    moreover have "\<not> (10::rat) ^ k \<le> 0" for k by (simp add: not_le)
    ultimately show ?thesis using False fl [of "- c"]
      by (simp add: round_half_away_def zero_le_divide_iff zero_le_mult_iff)
  qed
  then show ?thesis by (simp add: x)
qed

lemma fx_parse_law:
  assumes "ip \<noteq> []" "list_all is_digit ip" "list_all is_digit fp"
  shows "\<exists>d. fx_parse (lit_text neg ip fp) = Some d \<and> fx_val d = lit_val neg ip fp"
proof -
  let ?t = "ip @ (if fp = [] then [] else CHR ''.'' # fp)"
  have "\<not> is_digit CHR ''-''" by simp
  then have "hd ip \<noteq> CHR ''-''" using assms(1,2) by (auto simp: neq_Nil_conv)
  then have neg: "(case lit_text neg ip fp of c # _ \<Rightarrow> c = CHR ''-'' | [] \<Rightarrow> False) = neg"
    using assms(1) by (auto simp: lit_text_def neq_Nil_conv)
  have t: "(if neg then tl (lit_text neg ip fp) else lit_text neg ip fp) = ?t"
    by (simp add: lit_text_def)
  have "dropWhile is_digit ?t = (if fp = [] then [] else CHR ''.'' # fp)"
    using assms(2) by (subst dropWhile_append2) (auto simp: list_all_iff)
  then have "fx_parse (lit_text neg ip fp)
      = Some (Fx ((if neg then -1 else 1) * int (digits_val (ip @ fp))) (length fp))"
    using assms takeWhile_lit_rest [OF assms(2), of fp]
    unfolding fx_parse_def neg t Let_def by auto
  then show ?thesis by (simp add: lit_val_def)
qed

interpretation fx: decimal fx_pkg fx_val
proof (unfold_locales, goal_cases)
  case 1 show ?case by (simp add: fx_pkg_def)
next
  case (2 ip fp neg) then show ?case by (simp add: fx_pkg_def fx_parse_law)
next
  case (3 i) show ?case by (simp add: fx_pkg_def)
next
  case (4 c e) show ?case by (simp add: fx_pkg_def fx_of_big_int_def power_int_def field_simps)
next
  case (5 x y) show ?case by (simp add: fx_pkg_def)
next
  case (6 x y) show ?case by (simp add: fx_pkg_def)
next
  case (7 x y) show ?case by (simp add: fx_pkg_def)
next
  case (8 x) show ?case by (simp add: fx_pkg_def)
next
  case (9 x) show ?case by (cases x) (simp add: fx_pkg_def abs_divide)
next
  case (10 x y) show ?case by (simp add: fx_pkg_def fx_cmp_val)
next
  case (11 x y) show ?case by (simp add: fx_pkg_def fx_cmp_val)
next
  case (12 x) show ?case by (simp add: fx_pkg_def fx_sign_val)
next
  case (13 x) show ?case by (simp add: fx_pkg_def fx_sign_val)
next
  case (14 x) show ?case by (simp add: fx_pkg_def fx_sign_val)
next
  case (15 x) show ?case by (simp add: fx_pkg_def fx_sign_val)
next
  case (16 x n) show ?case by (simp add: fx_pkg_def fx_val_ceil)
next
  case (17 x n) show ?case by (simp add: fx_pkg_def fx_val_floor)
next
  case (18 x n) show ?case by (simp add: fx_pkg_def fx_val_trunc)
next
  case (19 y x n q r) then show ?case by (intro fx_quorem_law) (simp_all add: fx_pkg_def)
next
  case (20 y x)
  then show ?case using fx_val_quo [of y x 0] by (simp add: fx_pkg_def fx_mod_def fx_quorem_def)
next
  case (21 x)
  obtain c s where x: "x = Fx c s" by (cases x)
  obtain c' s' where "fx_strip s c = (c', s')" by force
  with fx_strip_spec [OF this] show ?case by (auto simp: fx_pkg_def x)
next
  case (22 x n) show ?case by (simp add: fx_pkg_def fx_string_fixed_law)
next
  case (23 x) show ?case by (cases x) (simp add: fx_pkg_def power_int_minus field_simps)
qed

end
