(* ===== verification/Matching_Props.thy ===== *)
theory Matching_Props
  imports Matching_Views Service Decimal_Fixed
begin

text \<open>
  The properties of the matching engine, for a book that satisfies the invariant \<open>book_ok\<close>.
  They speak of what a caller of the book sees: the snapshot before and after a command and the
  events of the command. Lemmas proved in the locale \<open>decimal\<close> come first; every property
  follows from one of them.
\<close>

section \<open>What a caller sees\<close>

text \<open>The resting orders of one side of a snapshot, their total, and what an order has left there.\<close>

definition resting :: "Side \<Rightarrow> 'd Snapshot \<Rightarrow> 'd RestingOrder list" where
  "resting side sn = (if side = Buy then sn_Bids sn else sn_Asks sn)"

definition total_remaining :: "('d \<Rightarrow> rat) \<Rightarrow> 'd RestingOrder list \<Rightarrow> rat" where
  "total_remaining val rs = (\<Sum>r\<leftarrow>rs. amt_val val (ro_Remaining r))"

definition left_of :: "('d \<Rightarrow> rat) \<Rightarrow> OrderID \<Rightarrow> 'd RestingOrder list \<Rightarrow> rat" where
  "left_of val i rs = (\<Sum>r\<leftarrow>rs. if ro_OrderID r = i then amt_val val (ro_Remaining r) else 0)"

definition total_traded :: "('d \<Rightarrow> rat) \<Rightarrow> 'd Event list \<Rightarrow> rat" where
  "total_traded val evs = (\<Sum>tr\<leftarrow>trades evs. amt_val val (tr_Qty tr))"

definition total_paid :: "('d \<Rightarrow> rat) \<Rightarrow> 'd Event list \<Rightarrow> rat" where
  "total_paid val evs = (\<Sum>tr\<leftarrow>trades evs. amt_val val (tr_QuoteQty tr))"

definition cancelled_qty :: "('d \<Rightarrow> rat) \<Rightarrow> 'd Event list \<Rightarrow> rat" where
  "cancelled_qty val evs = (\<Sum>e\<leftarrow>evs. case e of EvCancelled c \<Rightarrow> amt_val val (cn_RemainingQty c) | _ \<Rightarrow> 0)"

definition cancelled_quote :: "('d \<Rightarrow> rat) \<Rightarrow> 'd Event list \<Rightarrow> rat" where
  "cancelled_quote val evs = (\<Sum>e\<leftarrow>evs. case e of EvCancelled c \<Rightarrow> amt_val val (cn_RemainingQuote c) | _ \<Rightarrow> 0)"

definition is_accepted :: "'d Event list \<Rightarrow> bool" where
  "is_accepted evs \<longleftrightarrow> (\<exists>a. evs \<noteq> [] \<and> hd evs = EvAccepted a)"

definition uncrossed :: "('d \<Rightarrow> rat) \<Rightarrow> 'd Snapshot \<Rightarrow> bool" where
  "uncrossed val sn \<longleftrightarrow>
     (\<forall>b \<in> set (sn_Bids sn). \<forall>a \<in> set (sn_Asks sn). amt_val val (ro_Price b) < amt_val val (ro_Price a))"

text \<open>What a market order finds: somebody to trade with, and for a buy the budget for one step.\<close>

definition liquid :: "('d \<Rightarrow> rat) \<Rightarrow> 'd MarketConfig \<Rightarrow> 'd NewOrder \<Rightarrow> 'd RestingOrder list \<Rightarrow> bool" where
  "liquid val cfg new rs \<longleftrightarrow>
     (no_Type new = Market \<longrightarrow>
        (case rs of
           [] \<Rightarrow> False
         | m # _ \<Rightarrow> no_Side new = Buy \<longrightarrow>
             amt_val val (ro_Price m) * amt_val val (mc_QtyStep cfg) \<le> amt_val val (no_QuoteQty new)))"

section \<open>The cases of a command\<close>

definition norm_side :: "Side \<Rightarrow> Side" where
  "norm_side s = (if s = Buy then Buy else Sell)"

lemma norm_side_simps [simp]:
  "norm_side s \<in> {Buy, Sell}" "s \<in> {Buy, Sell} \<Longrightarrow> norm_side s = s"
  "Side_Opposite (norm_side s) = Side_Opposite s"
  by (auto simp: norm_side_def Side_Opposite_def)

lemma spec_match_events:
  "spec_match D cfg seq band idx t ms = (ms', t', evs) \<Longrightarrow>
    \<forall>e \<in> set evs. CommandSeq e = seq \<and> (case e of EvCancelled _ \<Rightarrow> False | _ \<Rightarrow> True)"
proof (induction ms arbitrary: t idx ms' t' evs)
  case (Cons a ms)
  obtain p m where a: "a = (p, m)" by (cases a)
  have fill: "CommandSeq (trade_event seq i o' p q u m') = seq" "CommandSeq (maker_event D seq m') = seq"
    "case trade_event seq i o' p q u m' of EvCancelled _ \<Rightarrow> False | _ \<Rightarrow> True"
    "case maker_event D seq m' of EvCancelled _ \<Rightarrow> False | _ \<Rightarrow> True"
    for i and o' :: "'a NewOrder" and q u and m' :: "'a RestingOrder"
    by (auto simp: trade_event_def maker_event_def CommandSeq_def)
  let ?q = "fill_qty D cfg t p m" let ?u = "Amount_Mul D p ?q" let ?m = "maker_fill D ?q ?u m"
  let ?evs = "[trade_event seq idx (tk_o t) p ?q ?u ?m, maker_event D seq ?m]"
  obtain ms1 t1 evs1 where rest: "spec_match D cfg seq band (idx + 1) (taker_fill D ?q ?u t) ms = (ms1, t1, evs1)"
    by (metis prod_cases3)
  have "evs = [] \<or> evs = ?evs \<or> evs = ?evs @ evs1"
    using Cons.prems unfolding a spec_match.simps Let_def rest by (simp split: if_splits)
  then show ?case using Cons.IH [OF rest] fill by auto
qed simp

lemma cancelled_walk:
  assumes "spec_match D cfg seq band idx t ms = (ms', t', evs)"
  shows "(\<Sum>e\<leftarrow>evs. case e of EvCancelled c \<Rightarrow> f c | _ \<Rightarrow> (0::rat)) = 0"
proof -
  have "\<forall>e \<in> set evs. (case e of EvCancelled c \<Rightarrow> f c | _ \<Rightarrow> 0) = 0"
    using spec_match_events [OF assms] by (auto split: Event.splits)
  then show ?thesis by (induction evs) auto
qed

lemma outcome_events:
  assumes "taker_outcome D cmd t = (rests, final)"
  shows "trades final = []" and "\<forall>e \<in> set final. CommandSeq e = cmd_Seq cmd"
  using assms by (auto simp: taker_outcome_def Let_def CommandSeq_def cancelledEvent_def split: if_splits option.splits)

lemma trades_rejected [simp]: "trades (rejected seq o' r) = []"
  by (simp add: rejected_def)

lemma trades_accepted [simp]: "trades (accepted_event seq o' # evs) = trades evs"
  by (simp add: accepted_event_def)

context decimal
begin

lemma turned_away_iff:
  assumes cfg: "MarketConfig_Validate D cfg = None" and ok: "valid_order val cfg (default_tif new)"
    and q: "wf_queue val cfg opp ms"
  shows "turned_away D cfg (default_tif new) ms = None \<longleftrightarrow> liquid val cfg new (map snd ms)"
proof (cases "no_Type new = Market")
  case True
  show ?thesis
  proof (cases ms)
    case (Cons a ms')
    obtain p m where a: "a = (p, m)" by (cases a)
    have p: "0 < V p" "V (ro_Price m) = V p" using q by (auto simp: Cons a wf_price_def wf_order_def)
    have "Amount_IsZero D (taker_take D cfg (new_taker D (default_tif new)) p) \<longleftrightarrow>
        \<not> V (ro_Price m) * V (mc_QtyStep cfg) \<le> V (no_QuoteQty new)" if buy: "no_Side new = Buy"
    proof -
      let ?d = "V p * V (mc_QtyStep cfg)" and ?x = "V (no_QuoteQty new) / (V p * V (mc_QtyStep cfg))"
      have d: "0 < ?d" and step: "0 < V (mc_QtyStep cfg)" using p step_scale [OF cfg] by simp_all
      have x0: "0 \<le> V (no_QuoteQty new)" using ok buy True by (auto simp: valid_order_def Let_def)
      have "V (taker_take D cfg (new_taker D (default_tif new)) p) = of_int \<lfloor>?x\<rfloor> * V (mc_QtyStep cfg)"
        using taker_take_buy(2) [OF cfg p(1) taker_ok_new [OF ok]] True buy by (simp add: marketBuy_def)
      then have "Amount_IsZero D (taker_take D cfg (new_taker D (default_tif new)) p) \<longleftrightarrow> \<lfloor>?x\<rfloor> = 0"
        using step by simp
      also have "\<dots> \<longleftrightarrow> ?x < 1" using x0 d by (auto simp: floor_eq_iff)
      also have "\<dots> \<longleftrightarrow> \<not> ?d \<le> V (no_QuoteQty new)" using d by (simp add: not_le)
      finally show ?thesis using p(2) by simp
    qed
    then show ?thesis using True by (auto simp: turned_away_def liquid_def Cons a)
  qed (use True in \<open>simp add: turned_away_def liquid_def\<close>)
qed (simp add: turned_away_def liquid_def)

text \<open>A new order in terms of the snapshots around it.\<close>

lemma new_order_cases:
  assumes ok: "book_ok D val b" and sn: "Book_Snapshot D b = Some sn" and sn': "Book_Snapshot D b' = Some sn'"
    and new: "cmd_New cmd = Some new" and app: "Apply D b cmd = Some (b', Inr evs)"
  defines "o' \<equiv> default_tif new" and "cfg \<equiv> bk_cfg b" and "opp \<equiv> Side_Opposite (no_Side new)"
  obtains
    (reject) reason where "evs = rejected (cmd_Seq cmd) o' reason" "b' = b\<lparr>bk_lastSeq := cmd_Seq cmd\<rparr>"
      "sn' = sn\<lparr>sn_LastSeq := cmd_Seq cmd\<rparr>"
      "\<not> (valid_order val cfg o' \<and> no_OrderID new \<notin> ro_OrderID ` set (resting Buy sn @ resting Sell sn) \<and>
          liquid val cfg new (resting opp sn))"
  | (accept) X Y t tevs rests final L where "valid_order val cfg o'"
      "no_Side new \<in> {Buy, Sell}" "MarketConfig_Validate D cfg = None" "wf_queue val cfg opp (flat X)" "taker_ok val cfg (new_taker D o')"
      "spec_match D cfg (cmd_Seq cmd) (band_of D cfg o' (flat X)) 0 (new_taker D o') (flat X) = (flat L, t, tevs)"
      "taker_outcome D cmd t = (rests, final)" "evs = accepted_event (cmd_Seq cmd) o' # tevs @ final"
      "resting opp sn = lv_orders X" "resting opp sn' = lv_orders L" "resting (no_Side new) sn = lv_orders Y"
      "resting (no_Side new) sn' = lv_orders (if rests then lv_insert D (no_Side new) (resting_of cmd t) Y else Y)"
      "book_rel_at D val b opp X Y"
      "book_rel_at D val b' opp L (if rests then lv_insert D (no_Side new) (resting_of cmd t) Y else Y)"
      "no_OrderID new \<notin> set (lv_ids X @ lv_ids Y)"
      "no_OrderID new \<notin> ro_OrderID ` set (resting Buy sn @ resting Sell sn)"
      "liquid val cfg new (resting opp sn)"
proof -
  from ok obtain B A where rel: "book_rel D val b B A" by (auto simp: book_ok_def)
  let ?side = "norm_side (no_Side new)"
  define X Y where "X = (if ?side = Buy then A else B)" and "Y = (if ?side = Buy then B else A)"
  have at: "book_rel_at D val b (Side_Opposite ?side) X Y"
    using rel by (auto simp: X_def Y_def book_rel_at_iff norm_side_def Side_Opposite_def)
  have seq: "bk_lastSeq b < cmd_Seq cmd" and cancel: "cmd_Cancel cmd = None"
    using app new by (auto simp: Apply_def not_le split: if_splits option.splits)
  have snap: "resting s sn = lv_orders (if s = Buy then B else A)" for s
    using snapshot_rel [OF rel] sn by (auto simp: resting_def)
  have snap': "resting (Side_Opposite ?side) sn' = lv_orders L \<and> resting ?side sn' = lv_orders Y'"
    if "book_rel_at D val b' (Side_Opposite ?side) L Y'" for L Y'
    using that sn' snapshot_rel [of D val b' L Y'] snapshot_rel [of D val b' Y' L]
    by (auto simp: norm_side_def Side_Opposite_def book_rel_at_iff resting_def split: if_splits)
  have same: "no_Side new \<in> {Buy, Sell} \<longrightarrow> no_Side new = ?side" by simp
  have wf: "wf_queue val cfg opp (flat X)" and cfg: "MarketConfig_Validate D cfg = None"
    using at unfolding book_rel_at_def cfg_def opp_def norm_side_simps(3) by (blast intro: wf_queue_flat)+
  have oppX: "resting opp sn = map snd (flat X)"
    by (auto simp: snap opp_def X_def norm_side_def Side_Opposite_def lv_orders_flat)
  have idset: "ro_OrderID ` set (resting Buy sn @ resting Sell sn) = set (lv_ids X @ lv_ids Y)"
    by (auto simp: snap X_def Y_def lv_ids_orders)
  from at norm_side_simps(1) new cancel seq same show thesis
  proof (cases rule: apply_new_cases)
    case (reject reason)
    with app have b': "b' = b\<lparr>bk_lastSeq := cmd_Seq cmd\<rparr>" and evs: "evs = rejected (cmd_Seq cmd) o' reason"
      by (auto simp: o'_def)
    have neg: "\<not> (valid_order val cfg o' \<and> no_OrderID new \<notin> ro_OrderID ` set (resting Buy sn @ resting Sell sn) \<and>
          liquid val cfg new (resting opp sn))"
      using reject(2) turned_away_iff [OF cfg _ wf, of new] idset oppX by (auto simp: o'_def cfg_def)
    have "book_rel D val b' B A" unfolding b' using seq by (intro book_rel_seq [OF rel]) simp
    with snapshot_rel [OF rel] snapshot_rel [of D val b' B A] sn sn' have "sn' = sn\<lparr>sn_LastSeq := cmd_Seq cmd\<rparr>"
      by (auto simp: b')
    with b' evs neg show thesis by (intro that(1)) auto
  next
    case (accept t tevs rests final b1 L)
    have b1: "b1 = b'" and evs: "evs = accepted_event (cmd_Seq cmd) o' # tevs @ final"
      using accept(7) app by (auto simp: o'_def)
    have s: "no_Side new \<in> {Buy, Sell}" using accept(2) norm_side_simps(1) by metis
    note ns = norm_side_simps(2) [OF s]
    have at': "book_rel_at D val b (Side_Opposite (no_Side new)) X Y" using at by simp
    have liq: "liquid val cfg new (resting opp sn)"
      using accept(1,4) turned_away_iff [OF cfg _ wf, of new] oppX by (auto simp: o'_def cfg_def)
    have freshsn: "no_OrderID new \<notin> ro_OrderID ` set (resting Buy sn @ resting Sell sn)"
      using accept(3) unfolding idset .
    have rel': "book_rel_at D val b' (Side_Opposite ?side) L (if rests then lv_insert D ?side (resting_of cmd t) Y else Y)"
      using accept(8) b1 by simp
    from snap' [OF rel'] accept(2)
    have "resting opp sn' = lv_orders L" "resting (no_Side new) sn' = lv_orders (if rests then lv_insert D (no_Side new) (resting_of cmd t) Y else Y)"
      by (simp_all add: opp_def)
    moreover have "resting opp sn = lv_orders X" "resting (no_Side new) sn = lv_orders Y"
      using s by (auto simp: X_def Y_def snap opp_def norm_side_def Side_Opposite_def)
    moreover note all = accept(1,3,5,6) at' rel' taker_ok_new [OF accept(1)]
    ultimately show thesis
      using wf cfg evs s liq freshsn all [unfolded ns norm_side_simps(3), folded o'_def cfg_def opp_def]
      by (intro that(2)) assumption+
  qed
qed

section \<open>Lemmas behind the properties\<close>

text \<open>Every command returns; it fails only for a bad sequence number or a malformed command.\<close>

lemma apply_total:
  assumes ok: "book_ok D val b"
  shows "\<exists>b' r. Apply D b cmd = Some (b', r) \<and> book_ok D val b' \<and> bk_cfg b' = bk_cfg b \<and>
    (if cmd_Seq cmd \<le> bk_lastSeq b then b' = b \<and> r = Inl ErrSeqNotIncreasing
     else if (cmd_New cmd = None) = (cmd_Cancel cmd = None) then b' = b \<and> r = Inl ErrInvalidCommand
     else bk_lastSeq b' = cmd_Seq cmd \<and> (\<exists>evs. r = Inr evs \<and> evs \<noteq> [] \<and> (\<forall>e \<in> set evs. CommandSeq e = cmd_Seq cmd)))"
proof (cases "cmd_Seq cmd \<le> bk_lastSeq b \<or> (cmd_New cmd = None) = (cmd_Cancel cmd = None)")
  case True
  then show ?thesis using ok by (cases "cmd_New cmd"; cases "cmd_Cancel cmd") (auto simp: Apply_def)
next
  case False
  then have seq: "bk_lastSeq b < cmd_Seq cmd" and one: "(cmd_New cmd = None) \<noteq> (cmd_Cancel cmd = None)"
    by (auto simp: not_le)
  from ok obtain B A where rel: "book_rel D val b B A" by (auto simp: book_ok_def)
  have okI: "book_ok D val b'" if "book_rel D val b' B' A'" for b' B' A' using that by (auto simp: book_ok_def)
  have same_book: "book_ok D val (b\<lparr>bk_lastSeq := cmd_Seq cmd\<rparr>)"
    using okI [OF book_rel_seq [OF rel less_imp_le [OF seq]]] .
  have okI': "book_ok D val b'" if "book_rel_at D val b' s X' Y'" for b' s X' Y'
  proof -
    have "s \<in> {Buy, Sell}" using that by (simp add: book_rel_at_def)
    with that show ?thesis by (auto simp: book_rel_at_iff intro: okI)
  qed
  have "\<exists>b' evs. Apply D b cmd = Some (b', Inr evs) \<and> book_ok D val b' \<and> bk_cfg b' = bk_cfg b \<and>
      bk_lastSeq b' = cmd_Seq cmd \<and> evs \<noteq> [] \<and> (\<forall>e \<in> set evs. CommandSeq e = cmd_Seq cmd)"
  proof (cases "cmd_New cmd")
    case None
    with one obtain c where c: "cmd_Cancel cmd = Some c" by auto
    from rel None c seq show ?thesis
    proof (cases rule: apply_cancel_cases)
      case unknown
      then show ?thesis using same_book by (auto simp: CommandSeq_def)
    next
      case (owner r)
      then show ?thesis using same_book by (auto simp: CommandSeq_def)
    next
      case (cancelled r b')
      then show ?thesis by (auto simp: CommandSeq_def intro: okI)
    qed
  next
    case (Some new)
    with one have c: "cmd_Cancel cmd = None" by auto
    let ?side = "norm_side (no_Side new)"
    let ?X = "if ?side = Buy then A else B" and ?Y = "if ?side = Buy then B else A"
    have at: "book_rel_at D val b (Side_Opposite ?side) ?X ?Y"
      using rel by (auto simp: book_rel_at_iff norm_side_def Side_Opposite_def)
    have same: "no_Side new \<in> {Buy, Sell} \<longrightarrow> no_Side new = ?side" by simp
    from at norm_side_simps(1) Some c seq same show ?thesis
    proof (cases rule: apply_new_cases)
      case (reject reason)
      then show ?thesis using same_book by (auto simp: CommandSeq_def rejected_def)
    next
      case (accept t evs rests final b' L)
      have "\<forall>e \<in> set (accepted_event (cmd_Seq cmd) (default_tif new) # evs @ final). CommandSeq e = cmd_Seq cmd"
        using spec_match_events [OF accept(5)] outcome_events(2) [OF accept(6)]
        by (auto simp: accepted_event_def CommandSeq_def)
      with accept(7-10) okI' [OF accept(8)] show ?thesis by blast
    qed
  qed
  with seq one show ?thesis by fastforce
qed

text \<open>Price-time priority.\<close>

lemma apply_priority:
  assumes ok: "book_ok D val b" and sn: "Book_Snapshot D b = Some sn" and sn': "Book_Snapshot D b' = Some sn'"
    and new: "cmd_New cmd = Some new" and app: "Apply D b cmd = Some (b', Inr evs)"
  defines "before \<equiv> resting (Side_Opposite (no_Side new)) sn" and "after \<equiv> resting (Side_Opposite (no_Side new)) sn'"
    and "n \<equiv> length (trades evs)"
  shows "n \<le> length before \<and>
    list_all2 (\<lambda>m tr. tr_MakerOrderID tr = ro_OrderID m \<and> tr_MakerAccountID tr = ro_AccountID m \<and>
        V (tr_Price tr) = V (ro_Price m) \<and> 0 < V (tr_Qty tr) \<and> V (tr_Qty tr) \<le> V (ro_Remaining m) \<and>
        V (tr_QuoteQty tr) = V (ro_Price m) * V (tr_Qty tr)) (take n before) (trades evs) \<and>
    (\<forall>i. Suc i < n \<longrightarrow> V (tr_Qty (trades evs ! i)) = V (ro_Remaining (before ! i))) \<and>
    (after = drop n before \<or>
     (0 < n \<and> V (tr_Qty (last (trades evs))) < V (ro_Remaining (before ! (n - 1))) \<and>
      after = maker_fill D (tr_Qty (last (trades evs))) (tr_QuoteQty (last (trades evs))) (before ! (n - 1)) # drop n before))"
  using ok sn sn' new app
proof (cases rule: new_order_cases)
  case (reject reason)
  then have "n = 0" "after = before" by (simp_all add: n_def after_def before_def resting_def)
  then show ?thesis using reject by simp
next
  case (accept X Y t tevs rests final L)
  have walk: "walk_result (flat X) (flat L) (trades tevs)"
    using walk_priority accept(3-6) by blast
  have trs: "trades evs = trades tevs" using accept(8) outcome_events(1) [OF accept(7)] by simp
  have n: "n = length (trades tevs)" by (simp add: n_def trs)
  have before: "before = map snd (flat X)" and after: "after = map snd (flat L)"
    using accept(9,10) by (simp_all add: before_def after_def lv_orders_flat)
  have price: "\<forall>(p, m) \<in> set (flat X). V (ro_Price m) = V p"
    using accept(4) by (auto simp: wf_queue_def wf_order_def)
  from walk have len: "n \<le> length (flat X)"
    and all2: "list_all2 (\<lambda>(p, m) tr. tr_MakerOrderID tr = ro_OrderID m \<and> tr_MakerAccountID tr = ro_AccountID m \<and>
                 tr_Price tr = p \<and> 0 < V (tr_Qty tr) \<and> V (tr_Qty tr) \<le> V (ro_Remaining m) \<and>
                 V (tr_QuoteQty tr) = V p * V (tr_Qty tr) \<and>
                 V (tr_MakerRemaining tr) = V (ro_Remaining m) - V (tr_Qty tr)) (take n (flat X)) (trades evs)"
    and zero: "\<forall>i. Suc i < n \<longrightarrow> V (tr_MakerRemaining (trades evs ! i)) = 0"
    and rest: "flat L = drop n (flat X) \<or> (\<exists>p m. trades evs \<noteq> [] \<and> flat X ! (n - 1) = (p, m) \<and>
         0 < V (tr_MakerRemaining (last (trades evs))) \<and>
         flat L = (p, maker_fill D (tr_Qty (last (trades evs))) (tr_QuoteQty (last (trades evs))) m) # drop n (flat X))"
    unfolding walk_result_def n trs by auto
  have nth: "V (tr_MakerRemaining (trades evs ! i)) = V (ro_Remaining (before ! i)) - V (tr_Qty (trades evs ! i))" if "i < n" for i
    using all2 that len by (auto simp: list_all2_conv_all_nth before case_prod_unfold)
  have price_n: "\<forall>x \<in> set (take n (flat X)). V (ro_Price (snd x)) = V (fst x)"
    using price by (auto dest!: in_set_takeD)
  show ?thesis
  proof (intro conjI)
    show "n \<le> length before" using len by (simp add: before)
    show "list_all2 (\<lambda>m tr. tr_MakerOrderID tr = ro_OrderID m \<and> tr_MakerAccountID tr = ro_AccountID m \<and>
        V (tr_Price tr) = V (ro_Price m) \<and> 0 < V (tr_Qty tr) \<and> V (tr_Qty tr) \<le> V (ro_Remaining m) \<and>
        V (tr_QuoteQty tr) = V (ro_Price m) * V (tr_Qty tr)) (take n before) (trades evs)"
      unfolding before take_map list_all2_map1
      using price_n by (intro list.rel_mono_strong [OF all2]) (auto split: prod.splits)
    show "\<forall>i. Suc i < n \<longrightarrow> V (tr_Qty (trades evs ! i)) = V (ro_Remaining (before ! i))"
      using zero nth by auto
    show "after = drop n before \<or>
     (0 < n \<and> V (tr_Qty (last (trades evs))) < V (ro_Remaining (before ! (n - 1))) \<and>
      after = maker_fill D (tr_Qty (last (trades evs))) (tr_QuoteQty (last (trades evs))) (before ! (n - 1)) # drop n before)"
      using rest
    proof (elim disjE exE conjE)
      assume "flat L = drop n (flat X)"
      then show ?thesis by (simp add: after before drop_map)
    next
      fix p m assume ne: "trades evs \<noteq> []" and m: "flat X ! (n - 1) = (p, m)" and pos: "0 < V (tr_MakerRemaining (last (trades evs)))"
        and L: "flat L = (p, maker_fill D (tr_Qty (last (trades evs))) (tr_QuoteQty (last (trades evs))) m) # drop n (flat X)"
      have n0: "0 < n" using ne by (simp add: n_def)
      then have "before ! (n - 1) = m" using m len by (simp add: before)
      moreover have "last (trades evs) = trades evs ! (n - 1)" using ne by (simp add: n_def last_conv_nth)
      ultimately show ?thesis using n0 pos L nth [of "n - 1"] by (simp add: after before drop_map)
    qed
  qed
qed

text \<open>Where the quantity of a new order goes, and what leaves the other side.\<close>

lemma left_of_fresh: "i \<notin> ro_OrderID ` set rs \<Longrightarrow> left_of val i rs = 0"
  by (induction rs) (auto simp: left_of_def)

lemma left_of_insert:
  assumes "sorted_wrt (val_better val side) (map fst Y)" and "ro_OrderID r \<notin> set (lv_ids Y)"
  shows "left_of val (ro_OrderID r) (lv_orders (lv_insert D side r Y)) = V (ro_Remaining r)"
proof -
  have zero: "left_of val (ro_OrderID r) (lv_orders L) = 0" if "set (lv_ids L) \<subseteq> set (lv_ids Y)" for L
    using assms(2) that by (intro left_of_fresh) (auto simp: lv_ids_orders)
  have app: "left_of val i (xs @ ys) = left_of val i xs + left_of val i ys" for i and xs ys :: "'d RestingOrder list"
    by (simp add: left_of_def)
  have one: "left_of val (ro_OrderID r) (r # L) = V (ro_Remaining r) + left_of val (ro_OrderID r) L" for L
    by (simp add: left_of_def)
  from lv_insert_cases [OF assms(1), of r] show ?thesis
  proof (elim disjE exE conjE)
    fix L1 p os L2 assume Y: "Y = L1 @ (p, os) # L2" and ins: "lv_insert D side r Y = L1 @ (p, os @ [r]) # L2"
    have "left_of val (ro_OrderID r) os = 0"
      using assms(2) by (intro left_of_fresh) (auto simp: Y)
    moreover have "left_of val (ro_OrderID r) (lv_orders L1) = 0" "left_of val (ro_OrderID r) (lv_orders L2) = 0"
      by (rule zero; auto simp: Y)+
    moreover have "left_of val (ro_OrderID r) [] = 0" by (simp add: left_of_def)
    ultimately show ?thesis unfolding ins by (simp add: app one)
  next
    fix L1 L2 assume Y: "Y = L1 @ L2" and ins: "lv_insert D side r Y = L1 @ (ro_Price r, [r]) # L2"
    have "left_of val (ro_OrderID r) (lv_orders L1) = 0" "left_of val (ro_OrderID r) (lv_orders L2) = 0"
      by (rule zero; auto simp: Y)+
    then show ?thesis unfolding ins by (simp add: app one)
  qed
qed

lemma apply_accounting:
  assumes ok: "book_ok D val b" and sn: "Book_Snapshot D b = Some sn" and sn': "Book_Snapshot D b' = Some sn'"
    and new: "cmd_New cmd = Some new" and app: "Apply D b cmd = Some (b', Inr evs)" and acc: "is_accepted evs"
  shows "total_remaining val (resting (Side_Opposite (no_Side new)) sn) =
      total_remaining val (resting (Side_Opposite (no_Side new)) sn') + total_traded val evs \<and>
    (if no_Type new = Market \<and> no_Side new = Buy
      then V (no_QuoteQty new) = total_paid val evs + cancelled_quote val evs \<and> 0 \<le> cancelled_quote val evs \<and>
        resting (no_Side new) sn' = resting (no_Side new) sn
      else V (no_Qty new) = total_traded val evs + cancelled_qty val evs + left_of val (no_OrderID new) (resting (no_Side new) sn') \<and>
        0 \<le> cancelled_qty val evs \<and> 0 \<le> left_of val (no_OrderID new) (resting (no_Side new) sn'))"
    (is "?first \<and> ?second")
  using ok sn sn' new app
proof (cases rule: new_order_cases)
  case (reject reason)
  then show "?first \<and> ?second"
    using acc by (simp_all add: is_accepted_def rejected_def)
next
  case (accept X Y t tevs rests final L)
  note tk = walk_taker [OF accept(3-6)]
  have trs: "trades evs = trades tevs" using accept(8) outcome_events(1) [OF accept(7)] by simp
  have sums: "total_traded val evs = (\<Sum>tr\<leftarrow>trades tevs. V (tr_Qty tr))" "total_paid val evs = (\<Sum>tr\<leftarrow>trades tevs. V (tr_QuoteQty tr))"
    by (simp_all add: total_traded_def total_paid_def trs)
  have "total_remaining val (lv_orders Z) = (\<Sum>(p, m)\<leftarrow>flat Z. V (ro_Remaining m))" for Z
    by (simp add: total_remaining_def lv_orders_flat case_prod_unfold comp_def)
  then have first: ?first
    using walk_quantity [OF accept(3-6)] accept(9,10) by (simp add: sums)
  let ?o = "default_tif new"
  have o': "tk_o t = ?o" and mb: "marketBuy t = (no_Type new = Market \<and> no_Side new = Buy)" "marketBuy (new_taker D ?o) = marketBuy t"
    using tk by (simp_all add: marketBuy_def)
  have canc: "cancelled_qty val evs = cancelled_qty val final" "cancelled_quote val evs = cancelled_quote val final"
    by (simp_all add: cancelled_qty_def cancelled_quote_def accept(8) accepted_event_def cancelled_walk [OF accept(6)])
  have ids: "no_OrderID new \<notin> ro_OrderID ` set (lv_orders Y)" using accept(15) by (auto simp: lv_ids_orders)
  have sortedY: "sorted_wrt (val_better val (no_Side new)) (map fst Y)"
    using accept(13,2) by (auto simp: book_rel_at_def wf_side_def Side_Opposite_Opposite)
  have tok: "taker_ok val (bk_cfg b) t" using tk by simp
  have ?second
  proof (cases rests)
    case False
    have left0: "left_of val (no_OrderID new) (resting (no_Side new) sn') = 0"
      using ids False accept(12) by (simp add: left_of_fresh)
    show ?thesis
    proof (cases "marketBuy t")
      case True
      then have "V (tk_quoteRem t) = cancelled_quote val final"
        using accept(7) False by (auto simp: taker_outcome_def Let_def cancelled_quote_def cancelledEvent_def exhausted_def
            split: if_splits option.splits)
      then show ?thesis using True tk tok mb canc sums accept(11,12) False by (auto simp: taker_ok_def)
    next
      case nb: False
      then have "V (tk_remaining t) = cancelled_qty val final"
        using accept(7) False by (auto simp: taker_outcome_def Let_def cancelled_qty_def cancelledEvent_def exhausted_def
            split: if_splits option.splits)
      then show ?thesis using nb tk tok mb canc sums left0 by (auto simp: taker_ok_def)
    qed
  next
    case True
    have limit: "no_Type new = Limit" and c0: "cancelled_qty val final = 0"
      using accept(7) True by (auto simp: taker_outcome_def Let_def o' cancelled_qty_def split: if_splits option.splits)
    then have nb: "\<not> marketBuy t" by (simp add: mb)
    have r: "ro_OrderID (resting_of cmd t) = no_OrderID new" "ro_Remaining (resting_of cmd t) = tk_remaining t"
      by (simp_all add: resting_of_def o')
    have "left_of val (ro_OrderID (resting_of cmd t)) (lv_orders (lv_insert D (no_Side new) (resting_of cmd t) Y))
        = V (ro_Remaining (resting_of cmd t))"
      using accept(15) by (intro left_of_insert [OF sortedY]) (simp add: r)
    then have "left_of val (no_OrderID new) (resting (no_Side new) sn') = V (tk_remaining t)"
      using True accept(12) by (simp add: r)
    then show ?thesis using nb tk tok mb canc sums c0 limit by (auto simp: taker_ok_def)
  qed
  with first show "?first \<and> ?second" ..
qed

text \<open>The prices a new order trades at.\<close>

lemma apply_price_protection:
  assumes ok: "book_ok D val b" and sn: "Book_Snapshot D b = Some sn" and sn': "Book_Snapshot D b' = Some sn'"
    and new: "cmd_New cmd = Some new" and app: "Apply D b cmd = Some (b', Inr evs)" and tr: "tr \<in> set (trades evs)"
  shows "(no_Type new = Limit \<longrightarrow>
      (if no_Side new = Buy then V (tr_Price tr) \<le> V (no_Price new) else V (no_Price new) \<le> V (tr_Price tr))) \<and>
    (no_Type new = Market \<and> mc_MaxSlippageBps (bk_cfg b) = Some bps \<longrightarrow>
      (\<exists>best rest. resting (Side_Opposite (no_Side new)) sn = best # rest \<and>
      (if no_Side new = Buy then V (tr_Price tr) \<le> V (ro_Price best) * (1 + of_int bps / 10000)
       else V (ro_Price best) * (1 - of_int bps / 10000) - 1 / 10 ^ 18 < V (tr_Price tr)))) \<and>
    (mc_SelfTradePolicy (bk_cfg b) = STPCancelNewest \<longrightarrow> tr_MakerAccountID tr \<noteq> no_AccountID new) \<and>
    tr_Seq tr = cmd_Seq cmd \<and> tr_TakerOrderID tr = no_OrderID new \<and> tr_TakerAccountID tr = no_AccountID new \<and>
    tr_TakerSide tr = no_Side new" (is "?limit \<and> (_ \<longrightarrow> ?band) \<and> ?rest")
  using ok sn sn' new app
proof (cases rule: new_order_cases)
  case (accept X Y t tevs rests final L)
  let ?o = "default_tif new" and ?cfg = "bk_cfg b"
  have trs: "trades evs = trades tevs" using accept(8) outcome_events(1) [OF accept(7)] by simp
  have w: "tr_Seq tr = cmd_Seq cmd \<and> tr_TakerOrderID tr = no_OrderID new \<and> tr_TakerAccountID tr = no_AccountID new \<and>
      tr_TakerSide tr = no_Side new" "acceptable D (band_of D ?cfg ?o (flat X)) ?o (tr_Price tr)"
    "mc_SelfTradePolicy ?cfg = STPCancelNewest \<longrightarrow> tr_MakerAccountID tr \<noteq> no_AccountID new"
    using walk_trades [OF accept(3-6)] tr unfolding trs by auto
  then have rest: ?rest and limit: ?limit by (auto simp: acceptable_def crosses_def)
  have ?band if market: "no_Type new = Market" and bps: "mc_MaxSlippageBps ?cfg = Some bps"
  proof -
  have "flat X \<noteq> []" using accept(6) tr trs by auto
  then obtain p m ms where X: "flat X = (p, m) # ms" by (cases "flat X") auto
  have p: "0 < V p" "V (ro_Price m) = V p" using accept(4) by (auto simp: X wf_price_def wf_order_def)
  obtain l where l: "slippageBound D p bps (no_Side new) = Inr l"
    and Vl: "V l = of_int (trunc_rat (V p * (if no_Side new = Sell then of_int (10000 - bps) else of_int (10000 + bps)) / 10000 * 10 ^ 18)) / 10 ^ 18"
    using slippageBound_ok by blast
  have "band_of D ?cfg ?o (flat X) = Some l" using market bps l by (simp add: band_of_def X)
  with w(2) have acc: "if no_Side new = Buy then V (tr_Price tr) \<le> V l else V l \<le> V (tr_Price tr)"
    by (auto simp: acceptable_def outside_def outsideBand_def)
  have bps_ok: "1 \<le> bps" "bps \<le> 10000" using accept(3) bps by (auto simp: Config_ok)
  define z where "z = V p * (if no_Side new = Sell then of_int (10000 - bps) else of_int (10000 + bps)) / 10000 * 10 ^ 18"
  have "(of_int bps :: rat) \<le> of_int 10000" using bps_ok(2) by (simp only: of_int_le_iff)
  then have z0: "0 \<le> z" using p bps_ok by (auto simp: z_def)
  have Vl': "V l = of_int \<lfloor>z\<rfloor> / 10 ^ 18" using Vl trunc_rat_nonneg [OF z0] by (simp add: z_def)
  have lo: "V l \<le> z / 10 ^ 18" and hi: "z / 10 ^ 18 - 1 / 10 ^ 18 < V l"
  proof -
    have "of_int \<lfloor>z\<rfloor> \<le> z" "z - 1 < of_int \<lfloor>z\<rfloor>" by linarith+
    then show "V l \<le> z / 10 ^ 18" "z / 10 ^ 18 - 1 / 10 ^ 18 < V l"
      unfolding Vl' diff_divide_distrib [symmetric] by (simp_all only: divide_right_mono divide_strict_right_mono zero_less_power zero_le_power zero_le_numeral zero_less_numeral)
  qed
  have zb: "z / 10 ^ 18 = (if no_Side new = Sell then V p * (1 - of_int bps / 10000) else V p * (1 + of_int bps / 10000))"
    by (simp add: z_def field_simps)
  have "resting (Side_Opposite (no_Side new)) sn = m # map snd ms"
    using accept(9) by (simp_all add: lv_orders_flat X)
  then show ?band using acc lo hi zb accept(2) p(2) by (auto split: if_splits)
  qed
  with rest limit show "?limit \<and> (no_Type new = Market \<and> mc_MaxSlippageBps ?cfg = Some bps \<longrightarrow> ?band) \<and> ?rest" by blast
qed (use tr in auto)

text \<open>Which orders are accepted, and that a rejected one changes nothing.\<close>

lemma apply_acceptance:
  assumes ok: "book_ok D val b" and sn: "Book_Snapshot D b = Some sn" and sn': "Book_Snapshot D b' = Some sn'"
    and new: "cmd_New cmd = Some new" and app: "Apply D b cmd = Some (b', Inr evs)"
  shows "(is_accepted evs \<longleftrightarrow> valid_order val (bk_cfg b) (default_tif new) \<and>
      no_OrderID new \<notin> ro_OrderID ` set (sn_Bids sn @ sn_Asks sn) \<and>
      liquid val (bk_cfg b) new (resting (Side_Opposite (no_Side new)) sn)) \<and>
    (\<not> is_accepted evs \<longrightarrow> sn' = sn\<lparr>sn_LastSeq := cmd_Seq cmd\<rparr> \<and> (\<exists>r. evs = [EvRejected
       \<lparr>rj_Seq = cmd_Seq cmd, rj_OrderID = no_OrderID new, rj_AccountID = no_AccountID new, rj_Reason = r\<rparr>]))"
  using ok sn sn' new app
proof (cases rule: new_order_cases)
  case (reject reason)
  then show ?thesis by (auto simp: is_accepted_def rejected_def resting_def)
next
  case (accept X Y t tevs rests final L)
  then show ?thesis by (auto simp: is_accepted_def accepted_event_def resting_def)
qed

text \<open>The book is never crossed.\<close>

lemma walk_prices:
  assumes "MarketConfig_Validate D cfg = None" and "wf_queue val cfg side ms" and "taker_ok val cfg t"
    and "spec_match D cfg seq band idx t ms = (ms', t', evs)"
  shows "\<forall>(p, m') \<in> set ms'. \<exists>m. (p, m) \<in> set ms \<and> ro_Price m' = ro_Price m"
  using assms by (induction rule: walk_induct) force+

lemma queue_sorted:
  assumes "wf_side val cfg side n L"
  shows "sorted_wrt (\<lambda>a b. V (fst a) = V (fst b) \<or> val_better val side (fst a) (fst b)) (flat L)"
proof -
  have "sorted_wrt (val_better val side) (map fst L)" using assms by (simp add: wf_side_def)
  then show ?thesis
  proof (induction L)
    case (Cons a L)
    obtain p os where a: "a = (p, os)" by (cases a)
    have "\<forall>x \<in> set (flat L). \<exists>qs. (fst x, qs) \<in> set L" by (fastforce simp: flat_def)
    then have "\<forall>x \<in> set (flat L). val_better val side p (fst x)" using Cons.prems by (fastforce simp: a)
    moreover have "sorted_wrt (\<lambda>a b. V (fst a) = V (fst b) \<or> val_better val side (fst a) (fst b)) (map (Pair p) os)"
      by (rule sorted_wrt_mono_rel [OF _ sorted_wrt_true]) auto
    ultimately show ?case using Cons by (auto simp: a sorted_wrt_append)
  qed simp
qed

lemma uncrossed_resting:
  assumes "side \<in> {Buy, Sell}"
  shows "uncrossed val sn \<longleftrightarrow> (\<forall>x \<in> set (resting side sn). \<forall>y \<in> set (resting (Side_Opposite side) sn).
      if side = Buy then V (ro_Price x) < V (ro_Price y) else V (ro_Price y) < V (ro_Price x))"
  using assms by (auto simp: uncrossed_def resting_def Side_Opposite_def)

lemma apply_uncrossed_new:
  assumes ok: "book_ok D val b" and sn: "Book_Snapshot D b = Some sn" and sn': "Book_Snapshot D b' = Some sn'"
    and new: "cmd_New cmd = Some new" and app: "Apply D b cmd = Some (b', Inr evs)" and un: "uncrossed val sn"
  shows "uncrossed val sn'"
  using ok sn sn' new app
proof (cases rule: new_order_cases)
  case (reject reason)
  then show ?thesis using un by (simp add: uncrossed_def)
next
  case (accept X Y t tevs rests final L)
  let ?side = "no_Side new" and ?o = "default_tif new"
  let ?lt = "\<lambda>x y. if ?side = Buy then V (ro_Price x) < V (ro_Price y) else V (ro_Price y) < V (ro_Price x)"
  have wfq: "\<forall>(p, m) \<in> set (flat X). V (ro_Price m) = V p" using accept(4) by (auto simp: wf_queue_def wf_order_def)
  have old: "?lt x y" if "x \<in> set (lv_orders Y)" "y \<in> set (lv_orders X)" for x y
    using un that accept(2,9,11) by (simp add: uncrossed_resting [of ?side])
  have sub: "\<exists>y' \<in> set (lv_orders X). ro_Price y = ro_Price y'" if "y \<in> set (lv_orders L)" for y
  proof -
    from that obtain p where "(p, y) \<in> set (flat L)" by (auto simp: lv_orders_flat)
    with walk_prices [OF accept(3-6)] obtain m where "(p, m) \<in> set (flat X)" "ro_Price y = ro_Price m" by blast
    then show ?thesis by (force simp: lv_orders_flat)
  qed
  have keep: "?lt x y" if "x \<in> set (lv_orders Y)" "y \<in> set (lv_orders L)" for x y
    using old [OF that(1)] sub [OF that(2)] by fastforce
  have wfY: "wf_side val (bk_cfg b) ?side (bk_lastSeq b) Y"
    using accept(13,2) unfolding book_rel_at_def by (simp add: Side_Opposite_Opposite)
  have new_lt: "?lt (resting_of cmd t) y" if rests and y: "y \<in> set (lv_orders L)" for y
  proof -
    note tk = walk_taker [OF accept(3-6)]
    have limit: "no_Type ?o = Limit" and stop: "tk_stop t = None" and ex: "\<not> exhausted D t"
      using accept(7) \<open>rests\<close> tk by (auto simp: taker_outcome_def Let_def split: if_splits option.splits)
    obtain p0 m0 ms where L: "flat L = (p0, m0) # ms" using y by (cases "flat L") (auto simp: lv_orders_flat)
    have "\<not> finished D (bk_cfg b) t p0" using ex limit tk by (simp add: finished_def marketBuy_def)
    then have cross: "\<not> crosses D ?side (no_Price new) p0"
      using walk_stop(1) [OF accept(3-6)] stop limit tk by (simp add: L)
    obtain p where py: "(p, y) \<in> set (flat L)" using y by (auto simp: lv_orders_flat)
    have "wf_side val (bk_cfg b') (Side_Opposite ?side) (bk_lastSeq b') L"
      using accept(14) unfolding book_rel_at_def by blast
    from queue_sorted [OF this] py have "V p0 = V p \<or> val_better val (Side_Opposite ?side) p0 p"
      by (auto simp: L)
    moreover have "V (ro_Price y) = V p"
    proof -
      from walk_prices [OF accept(3-6)] py obtain m where "(p, m) \<in> set (flat X)" "ro_Price y = ro_Price m" by blast
      with wfq show ?thesis by auto
    qed
    moreover have "ro_Price (resting_of cmd t) = no_Price new" using tk by (simp add: resting_of_def)
    ultimately show ?thesis using cross accept(2)
      by (auto simp: crosses_def val_better_def Side_Opposite_def not_le split: if_splits)
  qed
  have "?lt x y" if x: "x \<in> set (resting ?side sn')" and y: "y \<in> set (resting (Side_Opposite ?side) sn')" for x y
  proof -
    have "y \<in> set (lv_orders L)" using y accept(10) by simp
    moreover have "x \<in> set (lv_orders Y) \<or> rests \<and> x = resting_of cmd t"
      using x accept(12) wfY by (auto simp: lv_orders_insert wf_side_def split: if_splits)
    ultimately show ?thesis using keep new_lt by blast
  qed
  then show ?thesis using accept(2) by (simp add: uncrossed_resting [of ?side])
qed

text \<open>A cancel takes out the one order it names, if the account may, and nothing else.\<close>

lemma apply_cancel_exact:
  assumes ok: "book_ok D val b" and sn: "Book_Snapshot D b = Some sn" and sn': "Book_Snapshot D b' = Some sn'"
    and cmd: "cmd_New cmd = None" "cmd_Cancel cmd = Some c" and app: "Apply D b cmd = Some (b', Inr evs)"
  shows "(case find (\<lambda>r. ro_OrderID r = ca_OrderID c) (sn_Bids sn @ sn_Asks sn) of
      None \<Rightarrow> sn' = sn\<lparr>sn_LastSeq := cmd_Seq cmd\<rparr> \<and> evs = [EvCancelRejected
        \<lparr>cr_Seq = cmd_Seq cmd, cr_OrderID = ca_OrderID c, cr_Reason = CancelRejectUnknownOrder\<rparr>]
    | Some r \<Rightarrow>
        (if ca_AccountID c \<noteq> [] \<and> ca_AccountID c \<noteq> ro_AccountID r
         then sn' = sn\<lparr>sn_LastSeq := cmd_Seq cmd\<rparr> \<and> evs = [EvCancelRejected
           \<lparr>cr_Seq = cmd_Seq cmd, cr_OrderID = ca_OrderID c, cr_Reason = CancelRejectNotOwner\<rparr>]
         else sn' = sn\<lparr>sn_LastSeq := cmd_Seq cmd, sn_Bids := filter (\<lambda>x. ro_OrderID x \<noteq> ca_OrderID c) (sn_Bids sn),
                        sn_Asks := filter (\<lambda>x. ro_OrderID x \<noteq> ca_OrderID c) (sn_Asks sn)\<rparr> \<and>
           evs = [EvCancelled \<lparr>cn_Seq = cmd_Seq cmd, cn_OrderID = ro_OrderID r, cn_AccountID = ro_AccountID r,
             cn_Reason = CancelByUser, cn_FilledQty = ro_FilledQty r, cn_FilledQuote = ro_FilledQuote r,
             cn_RemainingQty = ro_Remaining r, cn_RemainingQuote = Zero D\<rparr>]))"
proof -
  from ok obtain B A where rel: "book_rel D val b B A" by (auto simp: book_ok_def)
  have seq: "bk_lastSeq b < cmd_Seq cmd" using app cmd by (auto simp: Apply_def not_le split: if_splits)
  have s: "sn = \<lparr>sn_Symbol = mc_Symbol (bk_cfg b), sn_LastSeq = bk_lastSeq b, sn_Bids = lv_orders B, sn_Asks = lv_orders A\<rparr>"
    using snapshot_rel [OF rel] sn by simp
  have s': "sn' = \<lparr>sn_Symbol = mc_Symbol (bk_cfg b'), sn_LastSeq = bk_lastSeq b', sn_Bids = lv_orders B', sn_Asks = lv_orders A'\<rparr>"
    if "book_rel D val b' B' A'" for B' A' using snapshot_rel [OF that] sn' by simp
  have found: "find (\<lambda>r. ro_OrderID r = ca_OrderID c) (lv_orders B @ lv_orders A) = Some r"
    if "r \<in> set (lv_orders B @ lv_orders A)" "ro_OrderID r = ca_OrderID c" for r
  proof -
    have "distinct (map ro_OrderID (lv_orders B @ lv_orders A))" using rel by (simp add: book_rel_def lv_ids_orders)
    then have "find (\<lambda>r. ro_OrderID r = ca_OrderID c) xs = Some r" if "distinct (map ro_OrderID xs)" "r \<in> set xs" for xs
      using that \<open>ro_OrderID r = ca_OrderID c\<close> by (induction xs) (auto simp: image_iff)
    then show ?thesis using \<open>distinct _\<close> that(1) by blast
  qed
  from rel cmd seq show ?thesis
  proof (cases rule: apply_cancel_cases)
    case unknown
    then have "find (\<lambda>r. ro_OrderID r = ca_OrderID c) (lv_orders B @ lv_orders A) = None"
      unfolding find_None_iff by (metis imageI)
    moreover have "book_rel D val b' B A"
      using unknown app book_rel_seq [OF rel less_imp_le [OF seq]] by simp
    ultimately show ?thesis using unknown app s' by (auto simp: s)
  next
    case (owner r)
    have "book_rel D val b' B A" using owner app book_rel_seq [OF rel less_imp_le [OF seq]] by simp
    then show ?thesis using owner app s' found [OF owner(1,2)] by (auto simp: s)
  next
    case (cancelled r b1)
    then have "book_rel D val b' (lv_remove (ro_OrderID r) B) (lv_remove (ro_OrderID r) A)" using app by simp
    then show ?thesis using cancelled app s' found [OF cancelled(1,2)] by (auto simp: s lv_orders_remove)
  qed
qed

text \<open>The depth is the snapshot summed up by price.\<close>

lemma depth_aggregates:
  assumes ok: "book_ok D val b" and sn: "Book_Snapshot D b = Some sn"
  shows "\<exists>dp. Book_Depth D b n = Some dp \<and> dp_LastSeq dp = sn_LastSeq sn \<and> dp_Symbol dp = sn_Symbol sn \<and>
    (\<forall>side \<in> {Buy, Sell}. \<exists>groups. concat groups = resting side sn \<and>
       sorted_wrt (val_better val side) (map (\<lambda>rs. ro_Price (hd rs)) groups) \<and>
       list_all2 (\<lambda>rs l. rs \<noteq> [] \<and> (\<forall>r \<in> set rs. V (ro_Price r) = V (lv_Price l)) \<and>
           V (lv_Qty l) = total_remaining val rs \<and> lv_Orders l = int (length rs))
         (take (if n \<le> 0 then length groups else nat n) groups)
         (if side = Buy then dp_Bids dp else dp_Asks dp))"
proof -
  from ok obtain B A where rel: "book_rel D val b B A" by (auto simp: book_ok_def)
  have main: "\<exists>ls. side_depth D s n = Some ls \<and> concat (map snd L) = lv_orders L \<and>
      sorted_wrt (val_better val side) (map (\<lambda>rs. ro_Price (hd rs)) (map snd L)) \<and>
      list_all2 (\<lambda>rs l. rs \<noteq> [] \<and> (\<forall>r \<in> set rs. V (ro_Price r) = V (lv_Price l)) \<and>
           V (lv_Qty l) = total_remaining val rs \<and> lv_Orders l = int (length rs))
         (take (if n \<le> 0 then length (map snd L) else nat n) (map snd L)) ls"
    if side: "side_rel D val side ts st s L" and wf: "wf_side val cfg side m L" for side ts st s L cfg m
  proof -
    obtain ls where ls: "side_depth D s n = Some ls" and all: "list_all2 (\<lambda>(p, os) l. lv_Price l = p \<and>
        V (lv_Qty l) = (\<Sum>r\<leftarrow>os. V (ro_Remaining r)) \<and> lv_Orders l = int (length os))
      (take (if n \<le> 0 \<or> n > int (length L) then length L else nat n) L) ls"
      using side_depth_rel [OF side] by blast
    have lev: "\<forall>(p, os) \<in> set L. os \<noteq> [] \<and> (\<forall>r \<in> set os. V (ro_Price r) = V p)"
      using wf by (auto simp: wf_side_def wf_order_def)
    have "list_all2 (\<lambda>x l. snd x \<noteq> [] \<and> (\<forall>r \<in> set (snd x). V (ro_Price r) = V (lv_Price l)) \<and>
           V (lv_Qty l) = total_remaining val (snd x) \<and> lv_Orders l = int (length (snd x)))
       (take (if n \<le> 0 \<or> n > int (length L) then length L else nat n) L) ls"
    proof (rule list.rel_mono_strong [OF all])
      fix x l assume "x \<in> set (take (if n \<le> 0 \<or> n > int (length L) then length L else nat n) L)"
        and *: "(\<lambda>(p, os) l. lv_Price l = p \<and> V (lv_Qty l) = (\<Sum>r\<leftarrow>os. V (ro_Remaining r)) \<and> lv_Orders l = int (length os)) x l"
      then have "x \<in> set L" by (auto dest: in_set_takeD)
      with lev * show "snd x \<noteq> [] \<and> (\<forall>r \<in> set (snd x). V (ro_Price r) = V (lv_Price l)) \<and>
           V (lv_Qty l) = total_remaining val (snd x) \<and> lv_Orders l = int (length (snd x))"
        by (auto simp: total_remaining_def)
    qed
    moreover have "take (if n \<le> 0 \<or> n > int (length L) then length L else nat n) L = take (if n \<le> 0 then length L else nat n) L"
      by auto
    ultimately have "list_all2 (\<lambda>rs l. rs \<noteq> [] \<and> (\<forall>r \<in> set rs. V (ro_Price r) = V (lv_Price l)) \<and>
           V (lv_Qty l) = total_remaining val rs \<and> lv_Orders l = int (length rs))
         (take (if n \<le> 0 then length (map snd L) else nat n) (map snd L)) ls"
      by (cases "n \<le> 0") (simp_all add: take_map list_all2_map1)
    moreover have "sorted_wrt (val_better val side) (map (\<lambda>rs. ro_Price (hd rs)) (map snd L))"
    proof -
      have "\<forall>x \<in> set L. V (ro_Price (hd (snd x))) = V (fst x)" using lev hd_in_set by auto
      moreover have "sorted_wrt (\<lambda>x y. val_better val side (fst x) (fst y)) L" using wf by (simp add: wf_side_def sorted_wrt_map)
      ultimately show ?thesis unfolding sorted_wrt_map by (elim sorted_wrt_mono_rel [rotated]) (auto simp: val_better_def)
    qed
    ultimately show ?thesis using ls by (simp add: lv_orders_def)
  qed
  have sides: "side_rel D val Buy (bk_tickScale b) (bk_byID b) (bk_bids b) B" "wf_side val (bk_cfg b) Buy (bk_lastSeq b) B"
    "side_rel D val Sell (bk_tickScale b) (bk_byID b) (bk_asks b) A" "wf_side val (bk_cfg b) Sell (bk_lastSeq b) A"
    using rel unfolding book_rel_def by blast+
  have snv: "resting Buy sn = lv_orders B" "resting Sell sn = lv_orders A" "sn_LastSeq sn = bk_lastSeq b" "sn_Symbol sn = mc_Symbol (bk_cfg b)"
    using snapshot_rel [OF rel] sn by (auto simp: resting_def)
  from main [OF sides(1,2)] main [OF sides(3,4)] snv show ?thesis
    by (elim exE conjE, intro exI [of _ "\<lparr>dp_Symbol = mc_Symbol (bk_cfg b), dp_LastSeq = bk_lastSeq b,
        dp_Bids = the (side_depth D (bk_bids b) n), dp_Asks = the (side_depth D (bk_asks b) n)\<rparr>"])
      (auto simp: Book_Depth_def intro: exI [of _ "map snd B"] exI [of _ "map snd A"])
qed

text \<open>A book rebuilt from its resting orders is the book it was.\<close>

lemma restore_snapshot:
  assumes ok: "book_ok D val b" and sn: "Book_Snapshot D b = Some sn" and b0: "New D (bk_cfg b) = Inr b0"
    and perm: "mset orders = mset (sn_Bids sn @ sn_Asks sn)" and dist: "distinct (map ro_Seq orders)"
  shows "\<exists>b1. Restore D b0 (sn_LastSeq sn) orders = Inr b1 \<and> book_ok D val b1 \<and> Book_Snapshot D b1 = Some sn"
proof -
  from ok obtain B A where rel: "book_rel D val b B A" by (auto simp: book_ok_def)
  have s: "sn = \<lparr>sn_Symbol = mc_Symbol (bk_cfg b), sn_LastSeq = bk_lastSeq b, sn_Bids = lv_orders B, sn_Asks = lv_orders A\<rparr>"
    using snapshot_rel [OF rel] sn by simp
  have wf: "wf_side val (bk_cfg b) Buy (bk_lastSeq b) B" "wf_side val (bk_cfg b) Sell (bk_lastSeq b) A"
    using rel by (simp_all add: book_rel_def)
  let ?b = "b0\<lparr>bk_lastSeq := sn_LastSeq sn\<rparr>" and ?rs = "sort_key ro_Seq orders"
  have new: "book_rel D val ?b [] []" and cfg: "bk_cfg ?b = bk_cfg b" and last: "bk_lastSeq ?b = bk_lastSeq b"
    using new_rel [OF b0] book_rel_seq [of b0 "[]" "[]"] by (simp_all add: s)
  have "Mapping.size (bk_byID b0) = 0" using b0 by (auto simp: New_def Let_def split: option.splits)
  then have restore: "Restore D b0 (sn_LastSeq sn) orders = restore_loop D ?b ?rs"
    using new_rel(3) [OF b0] by (simp add: Restore_def)
  have mrs: "mset ?rs = mset (lv_orders B) + mset (lv_orders A)" using perm by (simp add: s)
  then have set_rs: "set ?rs = set (lv_orders B) \<union> set (lv_orders A)" by (metis set_mset_mset set_mset_union)
  have ids: "distinct (map ro_OrderID ?rs)"
  proof -
    have "mset (map ro_OrderID ?rs) = mset (lv_ids B @ lv_ids A)" using mrs by (simp add: lv_ids_orders)
    then show ?thesis using rel mset_eq_imp_distinct_iff by (metis book_rel_def)
  qed
  obtain b1 where b1: "restore_loop D ?b ?rs = Inr b1" "book_rel D val b1 (rest_all D Buy ?rs []) (rest_all D Sell ?rs [])"
    "bk_cfg b1 = bk_cfg b" "bk_lastSeq b1 = bk_lastSeq b"
  proof -
    have valid: "\<forall>r \<in> set ?rs. ro_Side r \<in> {Buy, Sell} \<and> wf_order val (bk_cfg ?b) (ro_Side r) (ro_Price r) r \<and>
      wf_price val (bk_cfg ?b) (ro_Price r) \<and> ro_Seq r \<le> bk_lastSeq ?b"
      unfolding set_rs cfg last using wf_side_order [OF wf(1)] wf_side_order [OF wf(2)]
      by (auto simp: wf_order_def)
    have "sorted (map ro_Seq ?rs)" by simp
    from restore_loop_rel [OF new valid ids _ this] cfg last that show thesis by auto
  qed
  have sideB: "\<forall>r \<in> set (lv_orders B). ro_Side r = Buy" and sideA: "\<forall>r \<in> set (lv_orders A). ro_Side r = Sell"
    using wf_side_order(1) [OF wf(1)] wf_side_order(1) [OF wf(2)] by (auto simp: wf_order_def)
  have eqs: "filter (\<lambda>r. ro_Side r = Buy) (lv_orders B) = lv_orders B" "filter (\<lambda>r. ro_Side r = Buy) (lv_orders A) = []"
    "filter (\<lambda>r. ro_Side r = Sell) (lv_orders A) = lv_orders A" "filter (\<lambda>r. ro_Side r = Sell) (lv_orders B) = []"
    using sideA sideB by (auto simp: filter_id_conv filter_empty_conv)
  have fB: "mset (filter (\<lambda>r. ro_Side r = Buy) ?rs) = mset (lv_orders B)"
    and fA: "mset (filter (\<lambda>r. ro_Side r = Sell) ?rs) = mset (lv_orders A)"
    unfolding mset_filter mrs filter_union_mset by (simp_all add: eqs flip: mset_filter)
  have d: "distinct (map ro_Seq ?rs)" using dist mset_eq_imp_distinct_iff by (metis mset_map mset_sort)
  have wf1: "wf_side val (bk_cfg b) Buy (bk_lastSeq b) (rest_all D Buy ?rs [])"
    "wf_side val (bk_cfg b) Sell (bk_lastSeq b) (rest_all D Sell ?rs [])"
    using b1 by (simp_all add: book_rel_def)
  have "lv_orders (rest_all D Buy ?rs []) = lv_orders B" "lv_orders (rest_all D Sell ?rs []) = lv_orders A"
    by (rule restored_side [OF wf(1) wf1(1) fB d], simp) (rule restored_side [OF wf(2) wf1(2) fA d], simp)
  then show ?thesis using restore b1 snapshot_rel [OF b1(2)] by (auto simp: s book_ok_def)
qed

end

end
