(* ===== verification/Matching_Claims.thy ===== *)
theory Matching_Claims
  imports Matching_Props
begin

text \<open>
  The properties of the matching engine, stated for any decimal package that obeys the laws of
  the locale \<open>decimal\<close>, each with a witness on the fixed-point package \<open>fx_pkg\<close>: a market,
  a book with one resting order, and commands on it.
\<close>

section \<open>The book as a service\<close>

sublocale decimal < matching: service "Apply D" "book_ok D val"
proof
  fix s :: "'d Book" and c :: "'d Command"
  assume "book_ok D val s"
  from apply_total [OF this, of c] show "\<exists>s' r. Apply D s c = Some (s', r) \<and> book_ok D val s'" by blast
next
  fix s s' :: "'d Book" and c :: "'d Command" and e
  assume "book_ok D val s" "Apply D s c = Some (s', Inl e)"
  with apply_total [of s c] show "s' = s" by (auto split: if_splits)
qed

lemma run_loop_eq: "run_loop D b cs = run_all (Apply D) b cs"
  by (induction cs arbitrary: b) (auto split: option.splits sum.splits prod.splits)

context decimal
begin

lemma run_script_returns:
  assumes "New D (sc_Market s) = Inr b0"
  shows "\<exists>out b err. Run D s = Some (out, Some b, err) \<and> book_ok D val b \<and> reaches (Apply D) b0 b \<and>
    length out \<le> length (sc_Commands s) \<and> (err = None \<longleftrightarrow> length out = length (sc_Commands s)) \<and>
    (\<forall>e. err = Some e \<longrightarrow> Apply D b (sc_Commands s ! length out) = Some (b, Inl e))"
proof -
  have "book_ok D val b0" using new_rel(1) [OF assms] by (auto simp: book_ok_def)
  from matching.run_all_returns [OF this, of "sc_Commands s"] show ?thesis
    by (auto simp: Run_def assms run_loop_eq)
qed

end

section \<open>Inputs for the witnesses\<close>

definition w_cfg :: "fx MarketConfig" where
  "w_cfg = \<lparr>mc_Symbol = ''BTC-USD'', mc_PriceTick = Amount (Fx 1 2), mc_QtyStep = Amount (Fx 1 3),
     mc_MinNotional = Amount (Fx 1 0), mc_MaxQty = None, mc_MaxSlippageBps = Some 100, mc_BaseScale = 8,
     mc_QuoteScale = 8, mc_SelfTradePolicy = STPCancelNewest\<rparr>"

definition w_limit :: "OrderID \<Rightarrow> AccountID \<Rightarrow> Side \<Rightarrow> int \<Rightarrow> int \<Rightarrow> fx NewOrder" where
  "w_limit i a s price qty = \<lparr>no_OrderID = i, no_AccountID = a, no_Side = s, no_Type = Limit, no_TimeInForce = GTC,
     no_Price = Amount (Fx price 2), no_Qty = Amount (Fx qty 3), no_QuoteQty = Amount (Fx 0 0)\<rparr>"

definition w_new :: "u64 \<Rightarrow> fx NewOrder \<Rightarrow> fx Command" where
  "w_new seq o' = \<lparr>cmd_Seq = seq, cmd_Timestamp = 0, cmd_New = Some o', cmd_Cancel = None\<rparr>"

definition w_cancel :: "u64 \<Rightarrow> OrderID \<Rightarrow> fx Command" where
  "w_cancel seq i = \<lparr>cmd_Seq = seq, cmd_Timestamp = 0, cmd_New = None, cmd_Cancel = Some \<lparr>ca_OrderID = i, ca_AccountID = []\<rparr>\<rparr>"

definition the_book :: "'d result option \<Rightarrow> 'd Book" where
  "the_book r = fst (the r)"

definition the_events :: "'d result option \<Rightarrow> 'd Event list" where
  "the_events r = (case snd (the r) of Inr evs \<Rightarrow> evs | Inl _ \<Rightarrow> [])"

text \<open>The empty book, a sell order resting in it, and what the next commands make of that.\<close>

definition w_empty :: "fx Book" where
  "w_empty = (case New fx_pkg w_cfg of Inr b \<Rightarrow> b | Inl _ \<Rightarrow> undefined)"

definition w_rest :: "fx Command" where "w_rest = w_new 1 (w_limit ''a'' ''ann'' Sell 10000 1500)"

definition w_book :: "fx Book" where "w_book = the_book (Apply fx_pkg w_empty w_rest)"

definition w_take :: "fx Command" where "w_take = w_new 2 (w_limit ''b'' ''bob'' Buy 10100 2000)"

definition w_market :: "fx Command" where
  "w_market = w_new 2 \<lparr>no_OrderID = ''b'', no_AccountID = ''bob'', no_Side = Buy, no_Type = Market, no_TimeInForce = IOC,
     no_Price = Amount (Fx 0 0), no_Qty = Amount (Fx 0 0), no_QuoteQty = Amount (Fx 50 0)\<rparr>"

lemma w_New: "New fx_pkg w_cfg = Inr w_empty"
proof -
  have "(case New fx_pkg w_cfg of Inr _ \<Rightarrow> True | Inl _ \<Rightarrow> False)" by code_simp
  then show ?thesis by (simp add: w_empty_def split: sum.splits)
qed

lemma w_empty_ok: "book_ok fx_pkg fx_val w_empty"
  using new_rel(1) [OF w_New] by (auto simp: book_ok_def)

lemma w_applied:
  assumes "case snd (the (Apply fx_pkg b cmd)) of Inr _ \<Rightarrow> True | Inl _ \<Rightarrow> False" and "book_ok fx_pkg fx_val b"
  shows "Apply fx_pkg b cmd = Some (the_book (Apply fx_pkg b cmd), Inr (the_events (Apply fx_pkg b cmd)))"
    and "book_ok fx_pkg fx_val (the_book (Apply fx_pkg b cmd))"
  using assms(1) fx.apply_total [OF assms(2), of cmd]
  by (auto simp: the_book_def the_events_def split: sum.splits if_splits)

lemma w_snapshot:
  assumes "book_ok D val b"
  shows "Book_Snapshot D b = Some (the (Book_Snapshot D b))"
  using assms snapshot_rel by (fastforce simp: book_ok_def)

lemma w_book_ok: "book_ok fx_pkg fx_val w_book"
  unfolding w_book_def by (rule w_applied(2) [OF _ w_empty_ok]) code_simp

lemma w_take_applied:
  "Apply fx_pkg w_book w_take = Some (the_book (Apply fx_pkg w_book w_take), Inr (the_events (Apply fx_pkg w_book w_take)))"
  by (rule w_applied(1) [OF _ w_book_ok]) code_simp

lemma w_market_applied:
  "Apply fx_pkg w_book w_market = Some (the_book (Apply fx_pkg w_book w_market), Inr (the_events (Apply fx_pkg w_book w_market)))"
  by (rule w_applied(1) [OF _ w_book_ok]) code_simp

lemma w_take_ok: "book_ok fx_pkg fx_val (the_book (Apply fx_pkg w_book w_take))"
  by (rule w_applied(2) [OF _ w_book_ok]) code_simp

lemma w_market_ok: "book_ok fx_pkg fx_val (the_book (Apply fx_pkg w_book w_market))"
  by (rule w_applied(2) [OF _ w_book_ok]) code_simp

lemma w_take_accepted: "is_accepted (the_events (Apply fx_pkg w_book w_take))"
proof -
  have "(case the_events (Apply fx_pkg w_book w_take) of EvAccepted _ # _ \<Rightarrow> True | _ \<Rightarrow> False)" by code_simp
  then show ?thesis by (auto simp: is_accepted_def split: list.splits Event.splits)
qed

section \<open>Properties\<close>

theorem parse_string_roundtrip_witness:
  "\<exists>b. ParseAmount fx_pkg (Amount_String fx_pkg (Amount (Fx (- 12345) 2))) = Inr b \<and>
     Amount_Equal fx_pkg (Amount (Fx (- 12345) 2)) b"
  by (rule parse_string_roundtrip [OF fx.decimal_axioms]) code_simp

text \<open>C1: a command on a book that satisfies the invariant always returns: the loops of
  \<^verbatim>\<open>match\<close> end, nothing panics, no internal precision or division error is raised. The only
  errors are a sequence number that is not above the last one and a command that is not exactly
  one of new and cancel, and these leave the book as it was. Otherwise the book keeps its
  invariant and its configuration, its last sequence number is the command's, and all events
  carry that number.\<close>

theorem apply_returns:
  assumes "decimal D val" and "book_ok D val b"
  shows "\<exists>b' r. Apply D b cmd = Some (b', r) \<and> book_ok D val b' \<and> bk_cfg b' = bk_cfg b \<and>
    (if cmd_Seq cmd \<le> bk_lastSeq b then b' = b \<and> r = Inl ErrSeqNotIncreasing
     else if (cmd_New cmd = None) = (cmd_Cancel cmd = None) then b' = b \<and> r = Inl ErrInvalidCommand
     else bk_lastSeq b' = cmd_Seq cmd \<and> (\<exists>evs. r = Inr evs \<and> evs \<noteq> [] \<and> (\<forall>e \<in> set evs. CommandSeq e = cmd_Seq cmd)))"
  by (rule decimal.apply_total [OF assms])

theorem apply_returns_witness:
  "\<exists>b' r. Apply fx_pkg w_book w_take = Some (b', r) \<and> book_ok fx_pkg fx_val b'"
  using apply_returns [OF fx.decimal_axioms w_book_ok, of w_take] by blast

text \<open>C2: price-time priority. The trades of a new order are with the first orders of the opposite
  side of the snapshot, in its order (best price first, then arrival), each at the resting
  order's price and for its exact product; every maker but the last is used up entirely. What
  is left of the side is the snapshot without the used-up orders, its first order reduced by the
  last trade if that one was partial.\<close>

theorem price_time_priority:
  assumes "decimal D val" and "book_ok D val b"
    and "Book_Snapshot D b = Some sn" and "Book_Snapshot D b' = Some sn'"
    and "cmd_New cmd = Some new" and "Apply D b cmd = Some (b', Inr evs)"
  defines "before \<equiv> resting (Side_Opposite (no_Side new)) sn" and "after \<equiv> resting (Side_Opposite (no_Side new)) sn'"
    and "n \<equiv> length (trades evs)"
  shows "n \<le> length before \<and>
    list_all2 (\<lambda>m tr. tr_MakerOrderID tr = ro_OrderID m \<and> tr_MakerAccountID tr = ro_AccountID m \<and>
        amt_val val (tr_Price tr) = amt_val val (ro_Price m) \<and> 0 < amt_val val (tr_Qty tr) \<and>
        amt_val val (tr_Qty tr) \<le> amt_val val (ro_Remaining m) \<and>
        amt_val val (tr_QuoteQty tr) = amt_val val (ro_Price m) * amt_val val (tr_Qty tr)) (take n before) (trades evs) \<and>
    (\<forall>i. Suc i < n \<longrightarrow> amt_val val (tr_Qty (trades evs ! i)) = amt_val val (ro_Remaining (before ! i))) \<and>
    (after = drop n before \<or>
     (0 < n \<and> amt_val val (tr_Qty (last (trades evs))) < amt_val val (ro_Remaining (before ! (n - 1))) \<and>
      after = maker_fill D (tr_Qty (last (trades evs))) (tr_QuoteQty (last (trades evs))) (before ! (n - 1)) # drop n before))"
  unfolding before_def after_def n_def by (rule decimal.apply_priority [OF assms(1-6)])

theorem price_time_priority_witness:
  "length (trades (the_events (Apply fx_pkg w_book w_take))) \<le>
     length (resting Sell (the (Book_Snapshot fx_pkg w_book)))"
  using price_time_priority [OF fx.decimal_axioms w_book_ok w_snapshot [OF w_book_ok] w_snapshot [OF w_take_ok] _ w_take_applied]
  by (simp add: w_take_def w_new_def w_limit_def Side_Opposite_def)

text \<open>C3: nothing is created or lost. What leaves the opposite side is exactly what was traded; the
  quantity of an accepted order (for a market buy its quote budget) is exactly what was traded
  plus what its cancellation reports plus what rests, none of them negative.\<close>

theorem quantity_accounting:
  assumes "decimal D val" and "book_ok D val b"
    and "Book_Snapshot D b = Some sn" and "Book_Snapshot D b' = Some sn'"
    and "cmd_New cmd = Some new" and "Apply D b cmd = Some (b', Inr evs)" and "is_accepted evs"
  shows "total_remaining val (resting (Side_Opposite (no_Side new)) sn) =
      total_remaining val (resting (Side_Opposite (no_Side new)) sn') + total_traded val evs \<and>
    (if no_Type new = Market \<and> no_Side new = Buy
     then amt_val val (no_QuoteQty new) = total_paid val evs + cancelled_quote val evs \<and> 0 \<le> cancelled_quote val evs \<and>
       resting (no_Side new) sn' = resting (no_Side new) sn
     else amt_val val (no_Qty new) =
         total_traded val evs + cancelled_qty val evs + left_of val (no_OrderID new) (resting (no_Side new) sn') \<and>
       0 \<le> cancelled_qty val evs \<and> 0 \<le> left_of val (no_OrderID new) (resting (no_Side new) sn'))"
  by (rule decimal.apply_accounting [OF assms])

theorem quantity_accounting_witness:
  "fx_val (Fx 2000 3) = total_traded fx_val (the_events (Apply fx_pkg w_book w_take))
     + cancelled_qty fx_val (the_events (Apply fx_pkg w_book w_take))
     + left_of fx_val ''b'' (resting Buy (the (Book_Snapshot fx_pkg (the_book (Apply fx_pkg w_book w_take)))))"
  using quantity_accounting [OF fx.decimal_axioms w_book_ok w_snapshot [OF w_book_ok] w_snapshot [OF w_take_ok] _
      w_take_applied w_take_accepted]
  by (simp add: w_take_def w_new_def w_limit_def amt_val_def)

text \<open>C5: price protection. No trade of a limit order is at a price worse than its limit; with a
  slippage cap of \<open>bps\<close> no trade of a market order is more than \<open>bps\<close> basis points away from the
  best price when it arrived (for a sell up to the 18 digits the bound is computed with); under the
  default self-trade policy no trade is between two orders of one account; every trade names the
  taker.\<close>

theorem price_protection:
  assumes "decimal D val" and "book_ok D val b"
    and "Book_Snapshot D b = Some sn" and "Book_Snapshot D b' = Some sn'"
    and "cmd_New cmd = Some new" and "Apply D b cmd = Some (b', Inr evs)" and "tr \<in> set (trades evs)"
  shows "(no_Type new = Limit \<longrightarrow>
      (if no_Side new = Buy then amt_val val (tr_Price tr) \<le> amt_val val (no_Price new)
       else amt_val val (no_Price new) \<le> amt_val val (tr_Price tr))) \<and>
    (no_Type new = Market \<and> mc_MaxSlippageBps (bk_cfg b) = Some bps \<longrightarrow>
      (\<exists>best rest. resting (Side_Opposite (no_Side new)) sn = best # rest \<and>
      (if no_Side new = Buy then amt_val val (tr_Price tr) \<le> amt_val val (ro_Price best) * (1 + of_int bps / 10000)
       else amt_val val (ro_Price best) * (1 - of_int bps / 10000) - 1 / 10 ^ 18 < amt_val val (tr_Price tr)))) \<and>
    (mc_SelfTradePolicy (bk_cfg b) = STPCancelNewest \<longrightarrow> tr_MakerAccountID tr \<noteq> no_AccountID new) \<and>
    tr_Seq tr = cmd_Seq cmd \<and> tr_TakerOrderID tr = no_OrderID new \<and> tr_TakerAccountID tr = no_AccountID new \<and>
    tr_TakerSide tr = no_Side new"
  by (rule decimal.apply_price_protection [OF assms])

theorem price_protection_witness:
  "\<exists>tr. tr \<in> set (trades (the_events (Apply fx_pkg w_book w_market))) \<and> tr_TakerOrderID tr = ''b'' \<and>
     (\<exists>best rest. resting Sell (the (Book_Snapshot fx_pkg w_book)) = best # rest \<and>
        amt_val fx_val (tr_Price tr) \<le> amt_val fx_val (ro_Price best) * (1 + of_int 100 / 10000))"
proof -
  have "trades (the_events (Apply fx_pkg w_book w_market)) \<noteq> []" by code_simp
  then obtain tr where tr: "tr \<in> set (trades (the_events (Apply fx_pkg w_book w_market)))" by fastforce
  have "mc_MaxSlippageBps (bk_cfg w_book) = Some 100" by code_simp
  with price_protection [OF fx.decimal_axioms w_book_ok w_snapshot [OF w_book_ok] w_snapshot [OF w_market_ok] _ w_market_applied tr, of _ 100] tr
  show ?thesis by (intro exI [of _ tr]) (simp add: w_market_def w_new_def Side_Opposite_def)
qed

text \<open>C4: the book is never crossed: when every bid is below every ask before a new order, every bid
  is below every ask after it.\<close>

theorem never_crossed:
  assumes "decimal D val" and "book_ok D val b"
    and "Book_Snapshot D b = Some sn" and "Book_Snapshot D b' = Some sn'"
    and "cmd_New cmd = Some new" and "Apply D b cmd = Some (b', Inr evs)" and "uncrossed val sn"
  shows "uncrossed val sn'"
  by (rule decimal.apply_uncrossed_new [OF assms])

theorem never_crossed_witness:
  "uncrossed fx_val (the (Book_Snapshot fx_pkg (the_book (Apply fx_pkg w_book w_take))))"
proof -
  have "sn_Bids (the (Book_Snapshot fx_pkg w_book)) = []" by code_simp
  then have "uncrossed fx_val (the (Book_Snapshot fx_pkg w_book))" by (simp add: uncrossed_def)
  from never_crossed [OF fx.decimal_axioms w_book_ok w_snapshot [OF w_book_ok] w_snapshot [OF w_take_ok] _ w_take_applied this]
  show ?thesis by (simp add: w_take_def w_new_def)
qed

text \<open>C6: exactly the orders the documented rules allow are accepted: the static rules in arithmetic
  (\<open>valid_order\<close>), a fresh id, and for a market order somebody to trade with and the budget for at
  least one step. A refused order changes nothing but the last sequence number and yields one
  rejection.\<close>

theorem acceptance:
  assumes "decimal D val" and "book_ok D val b"
    and "Book_Snapshot D b = Some sn" and "Book_Snapshot D b' = Some sn'"
    and "cmd_New cmd = Some new" and "Apply D b cmd = Some (b', Inr evs)"
  shows "(is_accepted evs \<longleftrightarrow> valid_order val (bk_cfg b) (default_tif new) \<and>
      no_OrderID new \<notin> ro_OrderID ` set (sn_Bids sn @ sn_Asks sn) \<and>
      liquid val (bk_cfg b) new (resting (Side_Opposite (no_Side new)) sn)) \<and>
    (\<not> is_accepted evs \<longrightarrow> sn' = sn\<lparr>sn_LastSeq := cmd_Seq cmd\<rparr> \<and> (\<exists>r. evs = [EvRejected
       \<lparr>rj_Seq = cmd_Seq cmd, rj_OrderID = no_OrderID new, rj_AccountID = no_AccountID new, rj_Reason = r\<rparr>]))"
  by (rule decimal.apply_acceptance [OF assms])

theorem acceptance_witness:
  "valid_order fx_val (bk_cfg w_book) (default_tif (w_limit ''b'' ''bob'' Buy 10100 2000))"
  using acceptance [OF fx.decimal_axioms w_book_ok w_snapshot [OF w_book_ok] w_snapshot [OF w_take_ok] _ w_take_applied]
    w_take_accepted by (simp add: w_take_def w_new_def)

text \<open>C7: a cancel takes out the one resting order with its id, when the account named is the owner or
  none is named, and reports what was filled and what was left; every other order stays, in its
  place. An unknown order or another owner's order is refused and nothing changes.\<close>

theorem cancel_exact:
  assumes "decimal D val" and "book_ok D val b"
    and "Book_Snapshot D b = Some sn" and "Book_Snapshot D b' = Some sn'"
    and "cmd_New cmd = None" and "cmd_Cancel cmd = Some c" and "Apply D b cmd = Some (b', Inr evs)"
  shows "(case find (\<lambda>r. ro_OrderID r = ca_OrderID c) (sn_Bids sn @ sn_Asks sn) of
      None \<Rightarrow> sn' = sn\<lparr>sn_LastSeq := cmd_Seq cmd\<rparr> \<and> evs = [EvCancelRejected
        \<lparr>cr_Seq = cmd_Seq cmd, cr_OrderID = ca_OrderID c, cr_Reason = CancelRejectUnknownOrder\<rparr>]
    | Some r \<Rightarrow>
        (if ca_AccountID c \<noteq> [] \<and> ca_AccountID c \<noteq> ro_AccountID r
         then sn' = sn\<lparr>sn_LastSeq := cmd_Seq cmd\<rparr> \<and> evs = [EvCancelRejected
           \<lparr>cr_Seq = cmd_Seq cmd, cr_OrderID = ca_OrderID c, cr_Reason = CancelRejectNotOwner\<rparr>]
         else sn' = sn\<lparr>sn_LastSeq := cmd_Seq cmd, sn_Bids := filter (\<lambda>x. ro_OrderID x \<noteq> ca_OrderID c) (sn_Bids sn),
                        sn_Asks := filter (\<lambda>x. ro_OrderID x \<noteq> ca_OrderID c) (sn_Asks sn)\<rparr> \<and>
           evs = [EvCancelled \<lparr>cn_Seq = cmd_Seq cmd, cn_OrderID = ro_OrderID r, cn_AccountID = ro_AccountID r,
             cn_Reason = CancelByUser, cn_FilledQty = ro_FilledQty r, cn_FilledQuote = ro_FilledQuote r,
             cn_RemainingQty = ro_Remaining r, cn_RemainingQuote = Zero D\<rparr>]))"
  by (rule decimal.apply_cancel_exact [OF assms])

lemma w_cancelled:
  "Apply fx_pkg w_book (w_cancel 2 ''a'') = Some (the_book (Apply fx_pkg w_book (w_cancel 2 ''a'')),
     Inr (the_events (Apply fx_pkg w_book (w_cancel 2 ''a''))))"
  "book_ok fx_pkg fx_val (the_book (Apply fx_pkg w_book (w_cancel 2 ''a'')))"
  by (rule w_applied [OF _ w_book_ok], code_simp)+

theorem cancel_exact_witness:
  "sn_Asks (the (Book_Snapshot fx_pkg (the_book (Apply fx_pkg w_book (w_cancel 2 ''a''))))) =
     filter (\<lambda>x. ro_OrderID x \<noteq> ''a'') (sn_Asks (the (Book_Snapshot fx_pkg w_book)))"
proof -
  have "\<exists>r. find (\<lambda>r. ro_OrderID r = ''a'') (sn_Bids (the (Book_Snapshot fx_pkg w_book)) @ sn_Asks (the (Book_Snapshot fx_pkg w_book))) = Some r"
  proof -
    have "find (\<lambda>r. ro_OrderID r = ''a'') (sn_Bids (the (Book_Snapshot fx_pkg w_book)) @ sn_Asks (the (Book_Snapshot fx_pkg w_book))) \<noteq> None"
      by code_simp
    then show ?thesis by blast
  qed
  with cancel_exact [OF fx.decimal_axioms w_book_ok w_snapshot [OF w_book_ok] w_snapshot [OF w_cancelled(2)] _ _ w_cancelled(1)]
  show ?thesis by (auto simp: w_cancel_def)
qed

text \<open>C9: the depth view is the snapshot summed up: the orders of a side fall into groups of one price,
  best first, and each of the first \<open>n\<close> groups (all for \<open>n \<le> 0\<close>) is reported with its price, the
  sum of what is left and the number of orders.\<close>

theorem depth_is_summary:
  assumes "decimal D val" and "book_ok D val b" and "Book_Snapshot D b = Some sn"
  shows "\<exists>dp. Book_Depth D b n = Some dp \<and> dp_LastSeq dp = sn_LastSeq sn \<and> dp_Symbol dp = sn_Symbol sn \<and>
    (\<forall>side \<in> {Buy, Sell}. \<exists>groups. concat groups = resting side sn \<and>
       sorted_wrt (val_better val side) (map (\<lambda>rs. ro_Price (hd rs)) groups) \<and>
       list_all2 (\<lambda>rs l. rs \<noteq> [] \<and> (\<forall>r \<in> set rs. amt_val val (ro_Price r) = amt_val val (lv_Price l)) \<and>
           amt_val val (lv_Qty l) = total_remaining val rs \<and> lv_Orders l = int (length rs))
         (take (if n \<le> 0 then length groups else nat n) groups)
         (if side = Buy then dp_Bids dp else dp_Asks dp))"
  by (rule decimal.depth_aggregates [OF assms])

theorem depth_is_summary_witness:
  "\<exists>dp. Book_Depth fx_pkg w_book 10 = Some dp \<and> dp_LastSeq dp = sn_LastSeq (the (Book_Snapshot fx_pkg w_book))"
  using depth_is_summary [OF fx.decimal_axioms w_book_ok w_snapshot [OF w_book_ok]] by blast

text \<open>C8: a book survives a restart: an empty book restored from the resting orders of a snapshot, in
  whatever order they come, has the same snapshot again, provided no two orders have the same
  sequence number.\<close>

theorem restore_roundtrip:
  assumes "decimal D val" and "book_ok D val b" and "Book_Snapshot D b = Some sn" and "New D (bk_cfg b) = Inr b0"
    and "mset orders = mset (sn_Bids sn @ sn_Asks sn)" and "distinct (map ro_Seq orders)"
  shows "\<exists>b1. Restore D b0 (sn_LastSeq sn) orders = Inr b1 \<and> book_ok D val b1 \<and> Book_Snapshot D b1 = Some sn"
  by (rule decimal.restore_snapshot [OF assms])

theorem restore_roundtrip_witness:
  "\<exists>b1. Restore fx_pkg w_empty (sn_LastSeq (the (Book_Snapshot fx_pkg w_book)))
      (sn_Asks (the (Book_Snapshot fx_pkg w_book)) @ sn_Bids (the (Book_Snapshot fx_pkg w_book))) = Inr b1 \<and>
    Book_Snapshot fx_pkg b1 = Some (the (Book_Snapshot fx_pkg w_book))"
proof -
  have cfg: "bk_cfg w_book = w_cfg" by code_simp
  have "distinct (map ro_Seq (sn_Asks (the (Book_Snapshot fx_pkg w_book)) @ sn_Bids (the (Book_Snapshot fx_pkg w_book))))"
    by code_simp
  moreover have "mset (sn_Asks sn @ sn_Bids sn) = mset (sn_Bids sn @ sn_Asks sn)" for sn :: "fx Snapshot" by simp
  ultimately show ?thesis
    using restore_roundtrip [OF fx.decimal_axioms w_book_ok w_snapshot [OF w_book_ok] w_New [folded cfg]] by blast
qed

text \<open>C10: a whole script. On a valid market every script ends, with a book that satisfies the invariant
  and is reached from the empty one by its commands; it applies commands up to the first one that is refused
  with an error, and that command, applied to the final book, returns the error.\<close>

theorem run_script:
  assumes "decimal D val" and "New D (sc_Market s) = Inr b0"
  shows "\<exists>out b err. Run D s = Some (out, Some b, err) \<and> book_ok D val b \<and> reaches (Apply D) b0 b \<and>
    length out \<le> length (sc_Commands s) \<and> (err = None \<longleftrightarrow> length out = length (sc_Commands s)) \<and>
    (\<forall>e. err = Some e \<longrightarrow> Apply D b (sc_Commands s ! length out) = Some (b, Inl e))"
  using decimal.run_script_returns [OF assms] .

theorem run_script_witness:
  "\<exists>out b err. Run fx_pkg \<lparr>sc_Market = w_cfg, sc_Commands = [w_rest, w_take]\<rparr> = Some (out, Some b, err) \<and>
     book_ok fx_pkg fx_val b"
proof -
  have "New fx_pkg (sc_Market \<lparr>sc_Market = w_cfg, sc_Commands = [w_rest, w_take]\<rparr>) = Inr w_empty"
    by (simp add: w_New)
  from run_script [OF fx.decimal_axioms this] show ?thesis by blast
qed

end
