(* ===== verification/Pg_Numeric.thy ===== *)
theory Pg_Numeric
  imports Money
begin

text \<open>
  \<^verbatim>\<open>internal/platform/pg/numeric.go\<close>: amounts on their way into and out of the database. A
  \<^verbatim>\<open>pgtype.Numeric\<close> is an integer times a power of ten, or NULL, NaN or an infinity. What the
  tables keep is a NUMERIC(36,18): the number of units of the eighteenth decimal, below \<open>10 ^ 36\<close>.
  The database rounds what it stores to that unit and refuses what does not fit; it may hand a
  value back with any exponent, and \<open>AmountFromNumeric_value\<close> shows that this does not matter.
\<close>

section \<open>Conversions\<close>

record Numeric =
  nm_Int :: "int option"
  nm_Exp :: int
  nm_NaN :: bool
  nm_Infinite :: bool
  nm_Valid :: bool

datatype pg_error = ErrNullNumeric | NumericNaN | NumericInfinite | PgMoney money_error

definition NumericFromAmount :: "'d decimal_pkg \<Rightarrow> 'd amount \<Rightarrow> Numeric" where
  "NumericFromAmount D a = \<lparr>nm_Int = Some (Amount_Coefficient D a), nm_Exp = Amount_Exponent D a,
     nm_NaN = False, nm_Infinite = False, nm_Valid = True\<rparr>"

definition AmountFromNumeric :: "'d decimal_pkg \<Rightarrow> Numeric \<Rightarrow> pg_error + 'd amount" where
  "AmountFromNumeric D n =
     (if \<not> nm_Valid n then Inl ErrNullNumeric
      else if nm_NaN n then Inl NumericNaN
      else if nm_Infinite n then Inl NumericInfinite
      else let coef = (case nm_Int n of None \<Rightarrow> 0 | Some c \<Rightarrow> c)
           in case FromBigInt D (Some coef) (nm_Exp n) of Inl e \<Rightarrow> Inl (PgMoney e) | Inr a \<Rightarrow> Inr a)"

definition NullableAmountFromNumeric :: "'d decimal_pkg \<Rightarrow> Numeric \<Rightarrow> pg_error + 'd amount option" where
  "NullableAmountFromNumeric D n =
     (if \<not> nm_Valid n then Inr None
      else case AmountFromNumeric D n of Inl e \<Rightarrow> Inl e | Inr a \<Rightarrow> Inr (Some a))"

definition NullableNumericFromAmount :: "'d decimal_pkg \<Rightarrow> 'd amount option \<Rightarrow> Numeric" where
  "NullableNumericFromAmount D a =
     (case a of
        None \<Rightarrow> \<lparr>nm_Int = None, nm_Exp = 0, nm_NaN = False, nm_Infinite = False, nm_Valid = False\<rparr>
      | Some x \<Rightarrow> NumericFromAmount D x)"

section \<open>Columns\<close>

text \<open>The units of a number, rounded half away from zero, and the number the units stand for.\<close>

definition numeric_units :: "Numeric \<Rightarrow> int" where
  "numeric_units n =
     (let c = (case nm_Int n of None \<Rightarrow> 0 | Some c \<Rightarrow> c); e = nm_Exp n + MaxScale
      in if 0 \<le> e then c * 10 ^ nat e
         else sgn c * ((\<bar>c\<bar> + 10 ^ nat (- e) div 2) div 10 ^ nat (- e)))"

definition column :: "int \<Rightarrow> Numeric" where
  "column u = \<lparr>nm_Int = Some u, nm_Exp = - MaxScale, nm_NaN = False, nm_Infinite = False, nm_Valid = True\<rparr>"

definition in_range :: "int \<Rightarrow> bool" where
  "in_range u \<longleftrightarrow> \<bar>u\<bar> < 10 ^ 36"

text \<open>The units an amount has once it is sent to the database.\<close>

definition sent_units :: "'d decimal_pkg \<Rightarrow> 'd amount \<Rightarrow> int" where
  "sent_units D a = numeric_units (NumericFromAmount D a)"

definition unit_val :: "int \<Rightarrow> rat" where
  "unit_val u = of_int u / 10 ^ 18"

lemma unit_val_simps [simp]:
  "unit_val 0 = 0" "unit_val (u + v) = unit_val u + unit_val v" "unit_val (u - v) = unit_val u - unit_val v"
  "unit_val (- u) = - unit_val u"
  by (simp_all add: unit_val_def add_divide_distrib diff_divide_distrib)

lemma unit_val_less [simp]:
  "unit_val u < 0 \<longleftrightarrow> u < 0" "0 < unit_val u \<longleftrightarrow> 0 < u" "unit_val u = 0 \<longleftrightarrow> u = 0"
  "unit_val u \<le> 0 \<longleftrightarrow> u \<le> 0" "0 \<le> unit_val u \<longleftrightarrow> 0 \<le> u" "unit_val u = unit_val v \<longleftrightarrow> u = v"
  by (auto simp: unit_val_def divide_less_0_iff zero_less_divide_iff divide_le_0_iff zero_le_divide_iff)

lemma round_units_exact: "sgn (k * m) * ((\<bar>k * m\<bar> + m div 2) div m) = (k::int)" if "0 < m"
proof -
  have "(\<bar>k * m\<bar> + m div 2) div m = \<bar>k\<bar>"
  proof (rule int_div_pos_eq [of _ _ _ "m div 2"])
    show "\<bar>k * m\<bar> + m div 2 = m * \<bar>k\<bar> + m div 2" using that by (simp add: abs_mult)
  qed (use that in auto)
  then show ?thesis using that by (simp add: sgn_mult mult_sgn_abs)
qed

text \<open>The exact value of a number, and when storing it loses nothing.\<close>

definition numeric_val :: "Numeric \<Rightarrow> rat" where
  "numeric_val n = of_int (case nm_Int n of None \<Rightarrow> 0 | Some c \<Rightarrow> c) * 10 powi (nm_Exp n)"

lemma numeric_val_column [simp]: "numeric_val (column u) = unit_val u"
  by (simp add: numeric_val_def column_def unit_val_def MaxScale_def power_int_minus field_simps)

lemma numeric_units_exact:
  assumes "fits 18 (numeric_val n)"
  shows "unit_val (numeric_units n) = numeric_val n"
proof -
  define c e where "c = (case nm_Int n of None \<Rightarrow> 0 | Some c \<Rightarrow> c)" and "e = nm_Exp n"
  have V: "numeric_val n = of_int c * 10 powi e"
    by (simp add: numeric_val_def c_def e_def)
  have u: "numeric_units n = (if 0 \<le> e + 18 then c * 10 ^ nat (e + 18)
      else sgn c * ((\<bar>c\<bar> + 10 ^ nat (- (e + 18)) div 2) div 10 ^ nat (- (e + 18))))"
    by (simp add: numeric_units_def c_def e_def MaxScale_def Let_def)
  show ?thesis
  proof (cases "0 \<le> e + 18")
    case True
    have "(10::rat) ^ nat (e + 18) = 10 powi (e + 18)" using True by (simp add: power_int_def)
    also have "\<dots> = 10 powi e * 10 ^ 18" by (simp add: power_int_add)
    finally show ?thesis using True by (simp add: u V unit_val_def)
  next
    case False
    define k where "k = nat (- (e + 18))"
    have e: "e = - int (k + 18)" using False by (simp add: k_def)
    have "(10::rat) powi e = inverse (10 powi int (k + 18))" unfolding e by (rule power_int_minus)
    also have "\<dots> = 1 / 10 ^ (k + 18)" by (simp only: power_int_of_nat inverse_eq_divide)
    finally have "numeric_val n = of_int c / 10 ^ (k + 18)" unfolding V by simp
    then have c': "of_int c = numeric_val n * 10 ^ 18 * 10 ^ k" by (simp add: power_add)
    obtain j where j: "numeric_val n * 10 ^ 18 = of_int j" using assms by (auto simp: fits_def elim: Ints_cases)
    with c' have "of_int c = (of_int (j * 10 ^ k) :: rat)" by simp
    then have c: "c = j * 10 ^ k" by (simp only: of_int_eq_iff)
    have "numeric_units n = j" using False round_units_exact [of "10 ^ k" j] unfolding u k_def [symmetric] c by simp
    with j show ?thesis by (simp add: unit_val_def field_simps)
  qed
qed

text \<open>The exact sum, which the database then stores.\<close>

definition numeric_add :: "Numeric \<Rightarrow> Numeric \<Rightarrow> Numeric" where
  "numeric_add m n =
     (let c = (case nm_Int m of None \<Rightarrow> 0 | Some c \<Rightarrow> c); d = (case nm_Int n of None \<Rightarrow> 0 | Some d \<Rightarrow> d);
          e = min (nm_Exp m) (nm_Exp n)
      in m\<lparr>nm_Int := Some (c * 10 ^ nat (nm_Exp m - e) + d * 10 ^ nat (nm_Exp n - e)), nm_Exp := e\<rparr>)"

lemma numeric_val_add: "numeric_val (numeric_add m n) = numeric_val m + numeric_val n"
proof -
  have "(10::rat) ^ nat (a - e) * 10 powi e = 10 powi a" if "e \<le> a" for a e
  proof -
    have "(10::rat) ^ nat (a - e) = 10 powi (a - e)" using that by (simp add: power_int_def)
    then show ?thesis by (simp add: power_int_diff)
  qed
  from this [of "min (nm_Exp m) (nm_Exp n)" "nm_Exp m"] this [of "min (nm_Exp m) (nm_Exp n)" "nm_Exp n"]
  show ?thesis by (simp add: numeric_val_def numeric_add_def Let_def distrib_right mult.assoc)
qed

context decimal
begin

lemma numeric_val_amount: "numeric_val (NumericFromAmount D a) = V a"
  by (simp add: numeric_val_def NumericFromAmount_def amt_val_def Amount_Coefficient_def Amount_Exponent_def coefficient)

lemma sent_units:
  assumes "fits 18 (V a)"
  shows "unit_val (sent_units D a) = V a"
  unfolding sent_units_def by (subst numeric_units_exact) (use assms in \<open>simp_all add: numeric_val_amount\<close>)

text \<open>A number read back is the amount of its value, whatever its exponent.\<close>

lemma AmountFromNumeric_value:
  assumes "nm_Valid n" "\<not> nm_NaN n" "\<not> nm_Infinite n"
    and "numeric_val n = unit_val u" and "in_range u"
  shows "\<exists>a. AmountFromNumeric D n = Inr a \<and> V a = unit_val u \<and> Amount_Validate D a = None"
proof -
  let ?a = "Amount (dNewFromBigInt D (case nm_Int n of None \<Rightarrow> 0 | Some c \<Rightarrow> c) (nm_Exp n))"
  have V: "V ?a = unit_val u" using assms(4) by (simp add: val_new_from_big_int numeric_val_def)
  have "\<bar>(of_int u :: rat)\<bar> < 10 ^ 36" using assms(5) by (simp add: in_range_def flip: of_int_abs)
  then have "\<bar>unit_val u\<bar> < 10 ^ 18" by (simp add: unit_val_def field_simps)
  moreover have "fits 18 (unit_val u)" unfolding unit_val_def by (rule fits_div_pow)
  ultimately have "Amount_Validate D ?a = None" by (simp add: Validate_iff V [unfolded V_Amount] MaxIntegerDigits_def MaxScale_def)
  with V assms(1-3) show ?thesis by (auto simp: AmountFromNumeric_def FromBigInt_def Let_def split: option.splits)
qed

lemma AmountFromNumeric_column:
  assumes "in_range u"
  shows "\<exists>a. AmountFromNumeric D (column u) = Inr a \<and> V a = unit_val u \<and> Amount_Validate D a = None"
  by (rule AmountFromNumeric_value) (use assms numeric_val_column in \<open>auto simp: column_def\<close>)

lemma numeric_roundtrip_lemma:
  assumes "Amount_Validate D a = None"
  shows "in_range (sent_units D a) \<and>
    (\<exists>b. AmountFromNumeric D (column (sent_units D a)) = Inr b \<and> Amount_Equal D a b)"
proof -
  have a: "\<bar>V a\<bar> < 10 ^ 18" "fits 18 (V a)"
    using assms by (auto simp: Validate_iff MaxIntegerDigits_def MaxScale_def)
  note u = sent_units [OF a(2)]
  from a(1) have "\<bar>(of_int (sent_units D a) :: rat)\<bar> < 10 ^ 36"
    unfolding u [symmetric] unit_val_def by (simp add: field_simps)
  then have "(of_int \<bar>sent_units D a\<bar> :: rat) < of_int (10 ^ 36)" by simp
  then have r: "in_range (sent_units D a)" unfolding in_range_def of_int_less_iff .
  with AmountFromNumeric_column [OF r] u show ?thesis by auto
qed

text \<open>A stored number plus a sent amount.\<close>

lemma add_sent:
  assumes "fits 18 (V a)"
  shows "numeric_units (numeric_add (column u) (NumericFromAmount D a)) = u + sent_units D a"
proof -
  have v: "numeric_val (numeric_add (column u) (NumericFromAmount D a)) = unit_val (u + sent_units D a)"
    by (simp add: numeric_val_add numeric_val_amount sent_units [OF assms])
  have "fits 18 (unit_val (u + sent_units D a))" unfolding unit_val_def by (rule fits_div_pow)
  then have "unit_val (numeric_units (numeric_add (column u) (NumericFromAmount D a))) = unit_val (u + sent_units D a)"
    using numeric_units_exact v by metis
  then show ?thesis by (simp only: unit_val_less)
qed

end

end
