(* ===== verification/Ledger_Types.thy ===== *)
theory Ledger_Types
  imports Pg_Numeric "HOL-Library.Mapping" "HOL-Library.AList_Mapping" "HOL-Library.List_Lexorder" "HOL-Library.Char_ord"
begin

text \<open>
  \<^verbatim>\<open>internal/ledger/types.go\<close>, fees.go, settle.go and the pure parts of ops.go: the values of
  the double-entry ledger, the static check of a journal entry, fees, and the entries of the
  operations (hold, release, credit, adjustments, settlement of a trade). The string types of
  the code are datatypes with a constructor per constant and one for any other string; error
  texts are not modelled, a wrapped error is its sentinel.
\<close>

section \<open>Constants\<close>

datatype Bucket = BucketAvailable | BucketHold | BucketHouse | Bucket_other string

datatype Direction = Debit | Credit | Direction_other string

datatype AccountKind = KindSpot | KindHouse | AccountKind_other string

datatype AccountStatus = StatusActive | StatusFrozen | AccountStatus_other string

datatype HouseCode = HouseFeeRevenue | HouseGasExpense | HouseCustodyHot | HouseCustodyDepositAddresses
  | HousePendingWithdrawal | HouseExternal | HouseCode_other string

definition AllHouseCodes :: "HouseCode list" where
  "AllHouseCodes = [HouseFeeRevenue, HouseGasExpense, HouseCustodyHot, HouseCustodyDepositAddresses,
     HousePendingWithdrawal, HouseExternal]"

datatype AccountType = TypeLiability | TypeAsset | TypeRevenue | TypeExpense | TypeExternal

definition HouseCode_Type :: "HouseCode \<Rightarrow> AccountType" where
  "HouseCode_Type c =
     (case c of
        HouseFeeRevenue \<Rightarrow> TypeRevenue
      | HouseGasExpense \<Rightarrow> TypeExpense
      | HouseCustodyHot \<Rightarrow> TypeAsset
      | HouseCustodyDepositAddresses \<Rightarrow> TypeAsset
      | HousePendingWithdrawal \<Rightarrow> TypeLiability
      | _ \<Rightarrow> TypeExternal)"

definition HouseCode_Valid :: "HouseCode \<Rightarrow> bool" where
  "HouseCode_Valid c \<longleftrightarrow> c \<in> set AllHouseCodes"

definition DebitNormal :: "AccountType \<Rightarrow> bool" where
  "DebitNormal t \<longleftrightarrow> t = TypeAsset \<or> t = TypeExpense"

text \<open>The entry kinds.\<close>

definition KindHold :: string where "KindHold = ''hold''"
definition KindRelease :: string where "KindRelease = ''release''"
definition KindSettle :: string where "KindSettle = ''settle''"
definition KindCredit :: string where "KindCredit = ''credit''"
definition KindAdjustment :: string where "KindAdjustment = ''adjustment''"
definition KindDeposit :: string where "KindDeposit = ''deposit''"
definition KindWithdrawal :: string where "KindWithdrawal = ''withdrawal''"
definition KindSweep :: string where "KindSweep = ''sweep''"
definition KindGas :: string where "KindGas = ''gas''"
definition KindFee :: string where "KindFee = ''fee''"

lemmas kind_defs = KindHold_def KindRelease_def KindSettle_def KindCredit_def KindAdjustment_def

text \<open>
  The errors: the sentinels, an amount the database returned that is not one, a row that a
  statement did not return, and a statement the database refuses (\<open>errStore\<close>).
\<close>

datatype ledger_error =
    ErrInvalidEntry | ErrUnbalanced | ErrInsufficient | ErrAccountNotFound | ErrAccountKind
  | ErrHouseAccount | ErrNotFound | ErrReasonRequired | ErrInvalidSettlement
  | errAmount money_error | errNumeric pg_error | errNoRow | errStore

section \<open>Accounts, entries, balances\<close>

record Account =
  acc_ID :: string
  acc_TenantID :: string
  acc_Kind :: AccountKind
  acc_HouseCode :: HouseCode
  acc_OwnerUserID :: "string option"
  acc_Status :: AccountStatus
  acc_NextSeq :: int
  acc_Version :: int

record 'd Posting =
  po_AccountID :: string
  po_Asset :: string
  po_Bucket :: Bucket
  po_Direction :: Direction
  po_Amount :: "'d amount"

record 'd Entry =
  en_IdempotencyKey :: string
  en_Kind :: string
  en_RefType :: string
  en_RefID :: string
  en_Reason :: string
  en_CorrelationID :: string
  en_Postings :: "'d Posting list"

record 'd Balance =
  bal_AccountID :: string
  bal_Asset :: string
  bal_Available :: "'d amount"
  bal_Hold :: "'d amount"
  bal_Version :: int

definition Balance_Total :: "'d decimal_pkg \<Rightarrow> 'd Balance \<Rightarrow> 'd amount" where
  "Balance_Total D b = Amount_Add D (bal_Available b) (bal_Hold b)"

record 'd JournalEntry =
  je_ID :: int
  je_TenantID :: string
  je_IdempotencyKey :: string
  je_Kind :: string
  je_RefType :: string
  je_RefID :: string
  je_Reason :: string
  je_CorrelationID :: string
  je_Postings :: "'d Posting list"
  je_Balances :: "'d Balance list"

record 'd TrialBalanceLine =
  tb_Asset :: string
  tb_Debits :: "'d amount"
  tb_Credits :: "'d amount"
  tb_Diff :: "'d amount"

record 'd HouseBalance =
  hb_Code :: HouseCode
  hb_Type :: AccountType
  hb_Asset :: string
  hb_Balance :: "'d amount"

section \<open>The static check of an entry\<close>

definition posting_error :: "'d decimal_pkg \<Rightarrow> 'd Posting \<Rightarrow> ledger_error option" where
  "posting_error D p =
     (if po_AccountID p = [] \<or> po_Asset p = [] then Some ErrInvalidEntry
      else if po_Bucket p \<noteq> BucketAvailable \<and> po_Bucket p \<noteq> BucketHold \<and> po_Bucket p \<noteq> BucketHouse
      then Some ErrInvalidEntry
      else if po_Direction p \<noteq> Debit \<and> po_Direction p \<noteq> Credit then Some ErrInvalidEntry
      else if \<not> Amount_IsPositive D (po_Amount p) then Some ErrInvalidEntry
      else if Amount_Validate D (po_Amount p) \<noteq> None then Some ErrInvalidEntry
      else None)"

text \<open>The loop over the postings: \<open>tot\<close> (the code's \<^verbatim>\<open>sums\<close>) is debit minus credit per asset, \<open>order\<close> the assets met.\<close>

fun sum_postings :: "'d decimal_pkg \<Rightarrow> 'd Posting list \<Rightarrow> (string, 'd amount) mapping \<Rightarrow> string list \<Rightarrow>
    ledger_error + (string, 'd amount) mapping \<times> string list" where
  "sum_postings D [] tot order = Inr (tot, order)"
| "sum_postings D (p # ps) tot order =
     (case posting_error D p of
        Some e \<Rightarrow> Inl e
      | None \<Rightarrow>
          (let (s, order1) =
             (case Mapping.lookup tot (po_Asset p) of
                None \<Rightarrow> (Zero D, order @ [po_Asset p])
              | Some s \<Rightarrow> (s, order));
               s1 = (if po_Direction p = Debit then Amount_Add D s (po_Amount p) else Amount_Sub D s (po_Amount p))
           in sum_postings D ps (Mapping.update (po_Asset p) s1 tot) order1))"

fun check_totals :: "'d decimal_pkg \<Rightarrow> (string, 'd amount) mapping \<Rightarrow> string list \<Rightarrow> ledger_error option" where
  "check_totals D tot [] = None"
| "check_totals D tot (a # as) =
     (if \<not> Amount_IsZero D (Mapping.lookup_default (Zero D) tot a) then Some ErrUnbalanced
      else check_totals D tot as)"

definition Entry_Validate :: "'d decimal_pkg \<Rightarrow> 'd Entry \<Rightarrow> ledger_error option" where
  "Entry_Validate D e =
     (if en_IdempotencyKey e = [] then Some ErrInvalidEntry
      else if en_Kind e = [] then Some ErrInvalidEntry
      else if length (en_Postings e) < 2 then Some ErrInvalidEntry
      else case sum_postings D (en_Postings e) Mapping.empty [] of
             Inl err \<Rightarrow> Some err
           | Inr (tot, order) \<Rightarrow> check_totals D tot order)"

section \<open>Fees\<close>

record FeeParams =
  fp_MakerBps :: int
  fp_TakerBps :: int
  fp_BaseScale :: int
  fp_QuoteScale :: int

definition FeeParams_Validate :: "FeeParams \<Rightarrow> ledger_error option" where
  "FeeParams_Validate f =
     (if fp_MakerBps f < 0 \<or> fp_MakerBps f > 10000 \<or> fp_TakerBps f < 0 \<or> fp_TakerBps f > 10000
      then Some ErrInvalidSettlement
      else if fp_BaseScale f < 0 \<or> fp_BaseScale f > MaxScale \<or> fp_QuoteScale f < 0 \<or> fp_QuoteScale f > MaxScale
      then Some ErrInvalidSettlement
      else None)"

definition ComputeFee :: "'d decimal_pkg \<Rightarrow> 'd amount \<Rightarrow> int \<Rightarrow> int \<Rightarrow> ledger_error + 'd amount" where
  "ComputeFee D amount bps scale =
     (if bps = 0 \<or> Amount_IsZero D amount then Inr (Zero D)
      else if bps < 0 \<or> Amount_IsNegative D amount then Inl ErrInvalidSettlement
      else case DivRoundUp D (Amount_Mul D amount (FromInt64 D bps)) (FromInt64 D 10000) scale of
             Inl e \<Rightarrow> Inl (errAmount e)
           | Inr fee \<Rightarrow> Inr fee)"

section \<open>Settlement of a trade\<close>

record 'd SettleParams =
  sp_TradeID :: string
  sp_IdempotencyKey :: string
  sp_CorrelationID :: string
  sp_BuyerAccountID :: string
  sp_SellerAccountID :: string
  sp_BuyerIsTaker :: bool
  sp_BaseAsset :: string
  sp_QuoteAsset :: string
  sp_Price :: "'d amount"
  sp_Qty :: "'d amount"
  sp_QuoteQty :: "'d amount"
  sp_BuyerLimitPrice :: "'d amount"
  sp_Fees :: FeeParams

text \<open>What a settlement charges and releases; the posted entry is a separate result in the model.\<close>

record 'd SettleResult =
  sr_BuyerFee :: "'d amount"
  sr_SellerFee :: "'d amount"
  sr_MakerFee :: "'d amount"
  sr_TakerFee :: "'d amount"
  sr_Release :: "'d amount"

definition posting :: "string \<Rightarrow> string \<Rightarrow> Bucket \<Rightarrow> Direction \<Rightarrow> 'd amount \<Rightarrow> 'd Posting" where
  "posting acct asset b d a = \<lparr>po_AccountID = acct, po_Asset = asset, po_Bucket = b, po_Direction = d, po_Amount = a\<rparr>"

text \<open>The checks of the parameters, in order.\<close>

definition settle_error :: "'d decimal_pkg \<Rightarrow> 'd SettleParams \<Rightarrow> string \<Rightarrow> ledger_error option" where
  "settle_error D p feeRevenue =
     (if sp_TradeID p = [] \<or> sp_BuyerAccountID p = [] \<or> sp_SellerAccountID p = [] \<or> sp_BaseAsset p = [] \<or>
         sp_QuoteAsset p = [] \<or> feeRevenue = []
      then Some ErrInvalidSettlement
      else if sp_BaseAsset p = sp_QuoteAsset p then Some ErrInvalidSettlement
      else if \<not> Amount_IsPositive D (sp_Price p) \<or> \<not> Amount_IsPositive D (sp_Qty p) \<or> \<not> Amount_IsPositive D (sp_QuoteQty p)
      then Some ErrInvalidSettlement
      else if \<not> Amount_Equal D (Amount_Mul D (sp_Price p) (sp_Qty p)) (sp_QuoteQty p) then Some ErrInvalidSettlement
      else case FeeParams_Validate (sp_Fees p) of
             Some e \<Rightarrow> Some e
           | None \<Rightarrow>
               (if Amount_Scale D (sp_Qty p) > fp_BaseScale (sp_Fees p) \<or> Amount_Scale D (sp_QuoteQty p) > fp_QuoteScale (sp_Fees p)
                then Some ErrInvalidSettlement
                else if Amount_IsNegative D (sp_BuyerLimitPrice p) \<or>
                  (Amount_IsPositive D (sp_BuyerLimitPrice p) \<and> Amount_Cmp D (sp_BuyerLimitPrice p) (sp_Price p) < 0)
                then Some ErrInvalidSettlement
                else None))"

definition settle_release :: "'d decimal_pkg \<Rightarrow> 'd SettleParams \<Rightarrow> 'd amount" where
  "settle_release D p =
     (if Amount_IsPositive D (sp_BuyerLimitPrice p) \<and> Amount_Cmp D (sp_BuyerLimitPrice p) (sp_Price p) > 0
      then Amount_Mul D (Amount_Sub D (sp_BuyerLimitPrice p) (sp_Price p)) (sp_Qty p)
      else Zero D)"

definition settle_postings :: "'d decimal_pkg \<Rightarrow> 'd SettleParams \<Rightarrow> string \<Rightarrow> 'd amount \<Rightarrow> 'd amount \<Rightarrow> 'd amount \<Rightarrow> 'd Posting list" where
  "settle_postings D p feeRevenue buyerFee sellerFee release =
     [posting (sp_BuyerAccountID p) (sp_QuoteAsset p) BucketHold Debit (sp_QuoteQty p),
      posting (sp_SellerAccountID p) (sp_QuoteAsset p) BucketAvailable Credit (Amount_Sub D (sp_QuoteQty p) sellerFee)]
     @ (if Amount_IsPositive D sellerFee
        then [posting feeRevenue (sp_QuoteAsset p) BucketHouse Credit sellerFee] else [])
     @ [posting (sp_SellerAccountID p) (sp_BaseAsset p) BucketHold Debit (sp_Qty p),
        posting (sp_BuyerAccountID p) (sp_BaseAsset p) BucketAvailable Credit (Amount_Sub D (sp_Qty p) buyerFee)]
     @ (if Amount_IsPositive D buyerFee
        then [posting feeRevenue (sp_BaseAsset p) BucketHouse Credit buyerFee] else [])
     @ (if Amount_IsPositive D release
        then [posting (sp_BuyerAccountID p) (sp_QuoteAsset p) BucketHold Debit release,
              posting (sp_BuyerAccountID p) (sp_QuoteAsset p) BucketAvailable Credit release] else [])"

definition BuildSettleEntry :: "'d decimal_pkg \<Rightarrow> 'd SettleParams \<Rightarrow> string \<Rightarrow> ledger_error + 'd Entry \<times> 'd SettleResult" where
  "BuildSettleEntry D p feeRevenue =
     (case settle_error D p feeRevenue of
        Some e \<Rightarrow> Inl e
      | None \<Rightarrow>
          (let buyerBps = (if sp_BuyerIsTaker p then fp_TakerBps (sp_Fees p) else fp_MakerBps (sp_Fees p));
               sellerBps = (if sp_BuyerIsTaker p then fp_MakerBps (sp_Fees p) else fp_TakerBps (sp_Fees p))
           in case ComputeFee D (sp_Qty p) buyerBps (fp_BaseScale (sp_Fees p)) of
                Inl e \<Rightarrow> Inl e
              | Inr buyerFee \<Rightarrow>
                  (case ComputeFee D (sp_QuoteQty p) sellerBps (fp_QuoteScale (sp_Fees p)) of
                     Inl e \<Rightarrow> Inl e
                   | Inr sellerFee \<Rightarrow>
                       (if Amount_Cmp D buyerFee (sp_Qty p) \<ge> 0 \<or> Amount_Cmp D sellerFee (sp_QuoteQty p) \<ge> 0
                        then Inl ErrInvalidSettlement
                        else
                          let release = settle_release D p;
                              key = (if sp_IdempotencyKey p = [] then ''settle:trade:'' @ sp_TradeID p else sp_IdempotencyKey p);
                              entry = \<lparr>en_IdempotencyKey = key, en_Kind = KindSettle, en_RefType = ''trade'',
                                en_RefID = sp_TradeID p, en_Reason = [], en_CorrelationID = sp_CorrelationID p,
                                en_Postings = settle_postings D p feeRevenue buyerFee sellerFee release\<rparr>
                          in case Entry_Validate D entry of
                               Some e \<Rightarrow> Inl e
                             | None \<Rightarrow>
                                 Inr (entry,
                                   \<lparr>sr_BuyerFee = buyerFee, sr_SellerFee = sellerFee,
                                    sr_MakerFee = (if sp_BuyerIsTaker p then sellerFee else buyerFee),
                                    sr_TakerFee = (if sp_BuyerIsTaker p then buyerFee else sellerFee),
                                    sr_Release = release\<rparr>)))))"

section \<open>The entries of the other operations\<close>

record Ref =
  ref_Type :: string
  ref_ID :: string

record 'd HoldParams =
  hp_AccountID :: string
  hp_Asset :: string
  hp_Amount :: "'d amount"
  hp_IdempotencyKey :: string
  hp_Ref :: Ref
  hp_CorrelationID :: string

definition holdEntry :: "'d decimal_pkg \<Rightarrow> 'd HoldParams \<Rightarrow> ledger_error + 'd Entry" where
  "holdEntry D p =
     (if \<not> Amount_IsPositive D (hp_Amount p) then Inl ErrInvalidEntry
      else Inr \<lparr>en_IdempotencyKey = hp_IdempotencyKey p, en_Kind = KindHold, en_RefType = ref_Type (hp_Ref p),
             en_RefID = ref_ID (hp_Ref p), en_Reason = [], en_CorrelationID = hp_CorrelationID p,
             en_Postings = [posting (hp_AccountID p) (hp_Asset p) BucketAvailable Debit (hp_Amount p),
                            posting (hp_AccountID p) (hp_Asset p) BucketHold Credit (hp_Amount p)]\<rparr>)"

definition releaseEntry :: "'d decimal_pkg \<Rightarrow> 'd HoldParams \<Rightarrow> ledger_error + 'd Entry" where
  "releaseEntry D p =
     (if \<not> Amount_IsPositive D (hp_Amount p) then Inl ErrInvalidEntry
      else Inr \<lparr>en_IdempotencyKey = hp_IdempotencyKey p, en_Kind = KindRelease, en_RefType = ref_Type (hp_Ref p),
             en_RefID = ref_ID (hp_Ref p), en_Reason = [], en_CorrelationID = hp_CorrelationID p,
             en_Postings = [posting (hp_AccountID p) (hp_Asset p) BucketHold Debit (hp_Amount p),
                            posting (hp_AccountID p) (hp_Asset p) BucketAvailable Credit (hp_Amount p)]\<rparr>)"

record 'd CreditParams =
  cp_AccountID :: string
  cp_Asset :: string
  cp_Amount :: "'d amount"
  cp_Source :: HouseCode
  cp_Kind :: string
  cp_IdempotencyKey :: string
  cp_Ref :: Ref
  cp_Reason :: string
  cp_CorrelationID :: string

record 'd AdjustParams =
  ap_AccountID :: string
  ap_Asset :: string
  ap_Amount :: "'d amount"
  ap_Direction :: Direction
  ap_Reason :: string
  ap_IdempotencyKey :: string
  ap_CorrelationID :: string

record 'd HouseAdjustParams =
  hap_Code :: HouseCode
  hap_Asset :: string
  hap_Amount :: "'d amount"
  hap_Direction :: Direction
  hap_Reason :: string
  hap_IdempotencyKey :: string
  hap_CorrelationID :: string

end
