(* ===== verification/Ledger_Entry.thy ===== *)
theory Ledger_Entry
  imports Ledger_Types
begin

text \<open>
  Journal entries as arithmetic: the net amount of a list of postings per asset and per bucket
  of an account, what the static check accepts, the exact fee, and what the settlement of a
  trade moves.
\<close>

section \<open>Net amounts\<close>

text \<open>A posting as debit (positive) or credit (negative), and the sums of a list of postings.\<close>

definition signed :: "('d \<Rightarrow> rat) \<Rightarrow> 'd Posting \<Rightarrow> rat" where
  "signed val p = (if po_Direction p = Debit then amt_val val (po_Amount p) else - amt_val val (po_Amount p))"

definition net :: "('d \<Rightarrow> rat) \<Rightarrow> string \<Rightarrow> 'd Posting list \<Rightarrow> rat" where
  "net val a ps = (\<Sum>p\<leftarrow>ps. if po_Asset p = a then signed val p else 0)"

text \<open>Credit minus debit of one bucket of an account: what its balance gains.\<close>

definition gain :: "('d \<Rightarrow> rat) \<Rightarrow> string \<Rightarrow> string \<Rightarrow> Bucket \<Rightarrow> 'd Posting list \<Rightarrow> rat" where
  "gain val acct a b ps = (\<Sum>p\<leftarrow>ps. if po_AccountID p = acct \<and> po_Asset p = a \<and> po_Bucket p = b then - signed val p else 0)"

lemma net_simps [simp]:
  "net val a [] = 0" "net val a (p # ps) = (if po_Asset p = a then signed val p else 0) + net val a ps"
  "net val a (ps @ qs) = net val a ps + net val a qs"
  by (simp_all add: net_def)

lemma gain_simps [simp]:
  "gain val acct a b [] = 0"
  "gain val acct a b (p # ps) =
     (if po_AccountID p = acct \<and> po_Asset p = a \<and> po_Bucket p = b then - signed val p else 0) + gain val acct a b ps"
  "gain val acct a b (ps @ qs) = gain val acct a b ps + gain val acct a b qs"
  by (simp_all add: gain_def)

lemma net_other: "a \<notin> po_Asset ` set ps \<Longrightarrow> net val a ps = 0"
  by (induction ps) auto

lemma posting_simps [simp]:
  "po_AccountID (posting acct a b d x) = acct" "po_Asset (posting acct a b d x) = a"
  "po_Bucket (posting acct a b d x) = b" "po_Direction (posting acct a b d x) = d"
  "po_Amount (posting acct a b d x) = x"
  "signed val (posting acct a b d x) = (if d = Debit then amt_val val x else - amt_val val x)"
  by (simp_all add: posting_def signed_def)

lemma ball_if_list: "(\<forall>q \<in> set (if c then xs else []). P q) \<longleftrightarrow> (c \<longrightarrow> (\<forall>q \<in> set xs. P q))"
  by auto

text \<open>The rate each side of a trade pays.\<close>

definition buyer_bps :: "'d SettleParams \<Rightarrow> int" where
  "buyer_bps p = (if sp_BuyerIsTaker p then fp_TakerBps (sp_Fees p) else fp_MakerBps (sp_Fees p))"

definition seller_bps :: "'d SettleParams \<Rightarrow> int" where
  "seller_bps p = (if sp_BuyerIsTaker p then fp_MakerBps (sp_Fees p) else fp_TakerBps (sp_Fees p))"

context decimal
begin

section \<open>The static check\<close>

definition posting_ok :: "'d Posting \<Rightarrow> bool" where
  "posting_ok p \<longleftrightarrow> po_AccountID p \<noteq> [] \<and> po_Asset p \<noteq> [] \<and>
     po_Bucket p \<in> {BucketAvailable, BucketHold, BucketHouse} \<and> po_Direction p \<in> {Debit, Credit} \<and>
     0 < V (po_Amount p) \<and> Amount_Validate D (po_Amount p) = None"

lemma posting_ok_posting:
  "posting_ok (posting acct a b d x) \<longleftrightarrow> acct \<noteq> [] \<and> a \<noteq> [] \<and> b \<in> {BucketAvailable, BucketHold, BucketHouse} \<and>
     d \<in> {Debit, Credit} \<and> 0 < V x \<and> Amount_Validate D x = None"
  by (simp add: posting_ok_def)

lemma posting_error_iff: "posting_error D p = (if posting_ok p then None else Some ErrInvalidEntry)"
  by (auto simp: posting_error_def posting_ok_def)

lemma V_lookup_update:
  "V (Mapping.lookup_default (Zero D) (Mapping.update k x m) a) =
     (if a = k then V x else V (Mapping.lookup_default (Zero D) m a))"
  by (simp add: Mapping.lookup_default_def Mapping.lookup_update')

lemma sum_postings_ok:
  "\<forall>p \<in> set ps. posting_ok p \<Longrightarrow>
   \<exists>tot' order'. sum_postings D ps tot order = Inr (tot', order') \<and> set order' = set order \<union>
       {a \<in> po_Asset ` set ps. Mapping.lookup tot a = None} \<and>
     (\<forall>a. V (Mapping.lookup_default (Zero D) tot' a) = V (Mapping.lookup_default (Zero D) tot a) + net val a ps)"
proof (induction ps arbitrary: tot order)
  case (Cons p ps)
  let ?s = "case Mapping.lookup tot (po_Asset p) of None \<Rightarrow> Zero D | Some s \<Rightarrow> s"
  let ?s1 = "if po_Direction p = Debit then Amount_Add D ?s (po_Amount p) else Amount_Sub D ?s (po_Amount p)"
  let ?order1 = "case Mapping.lookup tot (po_Asset p) of None \<Rightarrow> order @ [po_Asset p] | Some _ \<Rightarrow> order"
  have step: "sum_postings D (p # ps) tot order = sum_postings D ps (Mapping.update (po_Asset p) ?s1 tot) ?order1"
    using Cons.prems by (simp add: posting_error_iff split: option.split)
  have s1: "V ?s1 = V (Mapping.lookup_default (Zero D) tot (po_Asset p)) + signed val p"
    by (simp add: signed_def Mapping.lookup_default_def split: option.split)
  obtain tot' order' where r: "sum_postings D ps (Mapping.update (po_Asset p) ?s1 tot) ?order1 = Inr (tot', order')"
    "set order' = set ?order1 \<union> {a \<in> po_Asset ` set ps. Mapping.lookup (Mapping.update (po_Asset p) ?s1 tot) a = None}"
    "\<forall>a. V (Mapping.lookup_default (Zero D) tot' a)
       = V (Mapping.lookup_default (Zero D) (Mapping.update (po_Asset p) ?s1 tot) a) + net val a ps"
    using Cons.IH [of "Mapping.update (po_Asset p) ?s1 tot" ?order1] Cons.prems by auto
  have "set order' = set order \<union> {a \<in> po_Asset ` set (p # ps). Mapping.lookup tot a = None}"
    unfolding r(2) by (auto simp: Mapping.lookup_update' split: option.splits if_splits)
  moreover have "V (Mapping.lookup_default (Zero D) tot' a) = V (Mapping.lookup_default (Zero D) tot a) + net val a (p # ps)" for a
    using r(3) s1 by (simp add: V_lookup_update)
  ultimately show ?case unfolding step using r(1) by blast
qed simp

lemma sum_postings_error:
  "\<not> (\<forall>p \<in> set ps. posting_ok p) \<Longrightarrow> sum_postings D ps tot order = Inl ErrInvalidEntry"
  by (induction ps arbitrary: tot order) (auto simp: posting_error_iff Let_def split: option.split)

lemma check_totals_iff:
  "check_totals D tot as =
     (if \<forall>a \<in> set as. V (Mapping.lookup_default (Zero D) tot a) = 0 then None else Some ErrUnbalanced)"
  by (induction as) auto

lemma Entry_Validate_cases:
  "Entry_Validate D e =
     (if en_IdempotencyKey e = [] \<or> en_Kind e = [] \<or> length (en_Postings e) < 2 \<or> \<not> (\<forall>p \<in> set (en_Postings e). posting_ok p)
      then Some ErrInvalidEntry
      else if \<exists>a. net val a (en_Postings e) \<noteq> 0 then Some ErrUnbalanced else None)"
proof (cases "\<forall>p \<in> set (en_Postings e). posting_ok p")
  case True
  have [simp]: "V (Mapping.lookup_default (Zero D) Mapping.empty a) = 0" for a
    by (simp add: Mapping.lookup_default_def)
  obtain tot order where r: "sum_postings D (en_Postings e) Mapping.empty [] = Inr (tot, order)"
    "set order = po_Asset ` set (en_Postings e)"
    "\<forall>a. V (Mapping.lookup_default (Zero D) tot a) = net val a (en_Postings e)"
    using sum_postings_ok [OF True, of Mapping.empty "[]"] by auto
  have "(\<forall>a \<in> set order. V (Mapping.lookup_default (Zero D) tot a) = 0) \<longleftrightarrow> \<not> (\<exists>a. net val a (en_Postings e) \<noteq> 0)"
    by (metis net_other r(2) r(3))
  with True r(1) show ?thesis by (auto simp: Entry_Validate_def check_totals_iff)
next
  case False
  then show ?thesis by (auto simp: Entry_Validate_def sum_postings_error)
qed

lemma Entry_Validate_iff:
  "Entry_Validate D e = None \<longleftrightarrow> en_IdempotencyKey e \<noteq> [] \<and> en_Kind e \<noteq> [] \<and> 2 \<le> length (en_Postings e) \<and>
     (\<forall>p \<in> set (en_Postings e). posting_ok p) \<and> (\<forall>a. net val a (en_Postings e) = 0)"
  by (auto simp: Entry_Validate_cases not_less)

section \<open>Fees\<close>

lemma ComputeFee_ok:
  assumes "0 \<le> V amount" and "0 \<le> bps" and "0 \<le> scale" "scale \<le> MaxScale"
  shows "\<exists>fee. ComputeFee D amount bps scale = Inr fee \<and>
    V fee = of_int \<lceil>V amount * of_int bps / 10000 * 10 ^ nat scale\<rceil> / 10 ^ nat scale"
proof (cases "bps = 0 \<or> V amount = 0")
  case True
  then show ?thesis by (auto simp: ComputeFee_def)
next
  case False
  have "0 \<le> V (Amount_Mul D amount (FromInt64 D bps))" using assms by simp
  then obtain q where "DivRoundUp D (Amount_Mul D amount (FromInt64 D bps)) (FromInt64 D 10000) scale = Inr q"
    "V q = of_int \<lceil>V amount * of_int bps / 10000 * 10 ^ nat scale\<rceil> / 10 ^ nat scale"
    using DivRoundUp_ok [of "Amount_Mul D amount (FromInt64 D bps)" "FromInt64 D 10000" "nat scale"] assms by auto
  with False assms show ?thesis by (auto simp: ComputeFee_def)
qed

lemma ceiling_bounds:
  assumes "(0::rat) \<le> x"
  shows "x \<le> of_int \<lceil>x * 10 ^ n\<rceil> / 10 ^ n" "of_int \<lceil>x * 10 ^ n\<rceil> / 10 ^ n < x + 1 / 10 ^ n"
    "fits n (of_int \<lceil>x * 10 ^ n\<rceil> / 10 ^ n)" "0 \<le> (of_int \<lceil>x * 10 ^ n\<rceil> :: rat) / 10 ^ n"
proof -
  have a: "x * 10 ^ n \<le> of_int \<lceil>x * 10 ^ n\<rceil>" "of_int \<lceil>x * 10 ^ n\<rceil> < x * 10 ^ n + 1" by linarith+
  then show "x \<le> of_int \<lceil>x * 10 ^ n\<rceil> / 10 ^ n" by (simp add: field_simps)
  then show "0 \<le> (of_int \<lceil>x * 10 ^ n\<rceil> :: rat) / 10 ^ n" using assms by linarith
  show "of_int \<lceil>x * 10 ^ n\<rceil> / 10 ^ n < x + 1 / 10 ^ n" using a(2) by (simp add: field_simps)
  show "fits n (of_int \<lceil>x * 10 ^ n\<rceil> / 10 ^ n)" by (rule fits_div_pow)
qed

lemma fee_exact:
  assumes "0 \<le> V amount" and "0 \<le> bps" and "0 \<le> scale" "scale \<le> MaxScale"
  shows "\<exists>fee. ComputeFee D amount bps scale = Inr fee \<and> Amount_Scale D fee \<le> scale \<and> 0 \<le> V fee \<and>
    V amount * of_int bps / 10000 \<le> V fee \<and> V fee < V amount * of_int bps / 10000 + 1 / 10 ^ nat scale"
proof -
  have nn: "0 \<le> V amount * of_int bps / 10000" using assms by simp
  from ComputeFee_ok [OF assms] obtain fee where fee: "ComputeFee D amount bps scale = Inr fee"
    "V fee = of_int \<lceil>V amount * of_int bps / 10000 * 10 ^ nat scale\<rceil> / 10 ^ nat scale" by blast
  with ceiling_bounds [OF nn, of "nat scale"] assms(3) show ?thesis by (auto simp: Scale_le_iff')
qed

section \<open>Settlement\<close>

text \<open>The basis points each side pays and the fees, in arithmetic.\<close>

lemma settle_error_iff:
  "settle_error D p fr = None \<longleftrightarrow>
     sp_TradeID p \<noteq> [] \<and> sp_BuyerAccountID p \<noteq> [] \<and> sp_SellerAccountID p \<noteq> [] \<and> sp_BaseAsset p \<noteq> [] \<and>
     sp_QuoteAsset p \<noteq> [] \<and> fr \<noteq> [] \<and> sp_BaseAsset p \<noteq> sp_QuoteAsset p \<and>
     0 < V (sp_Price p) \<and> 0 < V (sp_Qty p) \<and> 0 < V (sp_QuoteQty p) \<and> V (sp_QuoteQty p) = V (sp_Price p) * V (sp_Qty p) \<and>
     FeeParams_Validate (sp_Fees p) = None \<and>
     Amount_Scale D (sp_Qty p) \<le> fp_BaseScale (sp_Fees p) \<and> Amount_Scale D (sp_QuoteQty p) \<le> fp_QuoteScale (sp_Fees p) \<and>
     (V (sp_BuyerLimitPrice p) = 0 \<or> V (sp_Price p) \<le> V (sp_BuyerLimitPrice p))"
  unfolding settle_error_def by (auto simp: not_less not_le split: option.split)

lemma FeeParams_Validate_iff:
  "FeeParams_Validate f = None \<longleftrightarrow> 0 \<le> fp_MakerBps f \<and> fp_MakerBps f \<le> 10000 \<and> 0 \<le> fp_TakerBps f \<and> fp_TakerBps f \<le> 10000 \<and>
     0 \<le> fp_BaseScale f \<and> fp_BaseScale f \<le> MaxScale \<and> 0 \<le> fp_QuoteScale f \<and> fp_QuoteScale f \<le> MaxScale"
  by (auto simp: FeeParams_Validate_def)

lemma settle_release_val:
  "V (settle_release D p) =
     (if 0 < V (sp_BuyerLimitPrice p) \<and> V (sp_Price p) < V (sp_BuyerLimitPrice p)
      then (V (sp_BuyerLimitPrice p) - V (sp_Price p)) * V (sp_Qty p) else 0)"
  by (simp add: settle_release_def)

text \<open>Both fees are computed, at the scale of the asset they are paid in.\<close>

lemma bps_nonneg:
  assumes "FeeParams_Validate (sp_Fees p) = None"
  shows "0 \<le> buyer_bps p" "0 \<le> seller_bps p"
  using assms by (auto simp: FeeParams_Validate_iff buyer_bps_def seller_bps_def)

definition fee_spec :: "'d amount \<Rightarrow> int \<Rightarrow> int \<Rightarrow> 'd amount \<Rightarrow> bool" where
  "fee_spec amount bps scale fee \<longleftrightarrow> ComputeFee D amount bps scale = Inr fee \<and> Amount_Scale D fee \<le> scale \<and> 0 \<le> V fee \<and>
     V amount * of_int bps / 10000 \<le> V fee \<and> V fee < V amount * of_int bps / 10000 + 1 / 10 ^ nat scale"

lemma settle_fees:
  assumes "settle_error D p fr = None"
  obtains bf sf where "fee_spec (sp_Qty p) (buyer_bps p) (fp_BaseScale (sp_Fees p)) bf"
    "fee_spec (sp_QuoteQty p) (seller_bps p) (fp_QuoteScale (sp_Fees p)) sf"
proof -
  from assms have a: "0 \<le> V (sp_Qty p)" "0 \<le> V (sp_QuoteQty p)" "FeeParams_Validate (sp_Fees p) = None"
    by (simp_all add: settle_error_iff)
  then have b: "0 \<le> fp_BaseScale (sp_Fees p)" "fp_BaseScale (sp_Fees p) \<le> MaxScale"
    "0 \<le> fp_QuoteScale (sp_Fees p)" "fp_QuoteScale (sp_Fees p) \<le> MaxScale" by (simp_all add: FeeParams_Validate_iff)
  from fee_exact [OF a(1) bps_nonneg(1) [OF a(3)] b(1,2)] fee_exact [OF a(2) bps_nonneg(2) [OF a(3)] b(3,4)]
  show ?thesis using that unfolding fee_spec_def by blast
qed

text \<open>The gains of every account, asset and bucket from the postings of a settlement.\<close>

lemma settle_gain:
  assumes "0 \<le> V bf" "0 \<le> V sf" "0 \<le> V rel" "sp_BaseAsset p \<noteq> sp_QuoteAsset p"
  shows "gain val acct (sp_QuoteAsset p) BucketHold (settle_postings D p fr bf sf rel) =
      (if acct = sp_BuyerAccountID p then - (V (sp_QuoteQty p) + V rel) else 0)"
    "gain val acct (sp_QuoteAsset p) BucketAvailable (settle_postings D p fr bf sf rel) =
      (if acct = sp_BuyerAccountID p then V rel else 0) + (if acct = sp_SellerAccountID p then V (sp_QuoteQty p) - V sf else 0)"
    "gain val acct (sp_BaseAsset p) BucketHold (settle_postings D p fr bf sf rel) =
      (if acct = sp_SellerAccountID p then - V (sp_Qty p) else 0)"
    "gain val acct (sp_BaseAsset p) BucketAvailable (settle_postings D p fr bf sf rel) =
      (if acct = sp_BuyerAccountID p then V (sp_Qty p) - V bf else 0)"
    "gain val acct (sp_QuoteAsset p) BucketHouse (settle_postings D p fr bf sf rel) = (if acct = fr then V sf else 0)"
    "gain val acct (sp_BaseAsset p) BucketHouse (settle_postings D p fr bf sf rel) = (if acct = fr then V bf else 0)"
  using assms by (simp_all add: settle_postings_def)

lemma settle_net: 
  assumes "0 \<le> V bf" "0 \<le> V sf" "0 \<le> V rel"
  shows "net val a (settle_postings D p fr bf sf rel) = 0"
  using assms by (simp_all add: settle_postings_def)

text \<open>What \<^verbatim>\<open>BuildSettleEntry\<close> returns once the parameters are in order.\<close>

definition settle_entry :: "'d SettleParams \<Rightarrow> string \<Rightarrow> 'd amount \<Rightarrow> 'd amount \<Rightarrow> 'd Entry" where
  "settle_entry p fr bf sf =
     \<lparr>en_IdempotencyKey = (if sp_IdempotencyKey p = [] then ''settle:trade:'' @ sp_TradeID p else sp_IdempotencyKey p),
      en_Kind = KindSettle, en_RefType = ''trade'', en_RefID = sp_TradeID p, en_Reason = [],
      en_CorrelationID = sp_CorrelationID p, en_Postings = settle_postings D p fr bf sf (settle_release D p)\<rparr>"

definition settle_result :: "'d SettleParams \<Rightarrow> 'd amount \<Rightarrow> 'd amount \<Rightarrow> 'd SettleResult" where
  "settle_result p bf sf =
     \<lparr>sr_BuyerFee = bf, sr_SellerFee = sf, sr_MakerFee = (if sp_BuyerIsTaker p then sf else bf),
      sr_TakerFee = (if sp_BuyerIsTaker p then bf else sf), sr_Release = settle_release D p\<rparr>"

lemma BuildSettleEntry_eq:
  assumes "settle_error D p fr = None"
    and "fee_spec (sp_Qty p) (buyer_bps p) (fp_BaseScale (sp_Fees p)) bf"
    and "fee_spec (sp_QuoteQty p) (seller_bps p) (fp_QuoteScale (sp_Fees p)) sf"
  shows "BuildSettleEntry D p fr =
    (if V (sp_Qty p) \<le> V bf \<or> V (sp_QuoteQty p) \<le> V sf then Inl ErrInvalidSettlement
     else case Entry_Validate D (settle_entry p fr bf sf) of
       Some e \<Rightarrow> Inl e | None \<Rightarrow> Inr (settle_entry p fr bf sf, settle_result p bf sf))"
proof -
  have fees: "ComputeFee D (sp_Qty p) (buyer_bps p) (fp_BaseScale (sp_Fees p)) = Inr bf"
    "ComputeFee D (sp_QuoteQty p) (seller_bps p) (fp_QuoteScale (sp_Fees p)) = Inr sf"
    using assms(2,3) by (simp_all add: fee_spec_def)
  show ?thesis
    by (simp only: BuildSettleEntry_def assms(1) option.case Let_def fees [unfolded buyer_bps_def seller_bps_def] sum.case
        V_cmp settle_entry_def settle_result_def)
qed

lemma valid_below:
  assumes "Amount_Scale D x \<le> s" "s \<le> MaxScale" "0 \<le> V x" "V x \<le> V y" "V y < 10 ^ 18"
  shows "Amount_Validate D x = None"
  using assms fits_mono [of "nat s" "V x" "nat MaxScale"]
  by (auto simp: Validate_iff Scale_le_iff' MaxIntegerDigits_def nat_mono)

lemma settle_valid:
  assumes "settle_error D p fr = None"
    and "fee_spec (sp_Qty p) (buyer_bps p) (fp_BaseScale (sp_Fees p)) bf"
    and "fee_spec (sp_QuoteQty p) (seller_bps p) (fp_QuoteScale (sp_Fees p)) sf"
    and "V bf < V (sp_Qty p)" "V sf < V (sp_QuoteQty p)"
  shows "Entry_Validate D (settle_entry p fr bf sf) = None \<longleftrightarrow>
    V (sp_Qty p) < 10 ^ 18 \<and> V (sp_QuoteQty p) < 10 ^ 18 \<and> Amount_Validate D (settle_release D p) = None"
proof -
  let ?ps = "settle_postings D p fr bf sf (settle_release D p)"
  from assms(1) have pos: "0 < V (sp_Qty p)" "0 < V (sp_QuoteQty p)"
    and sc: "Amount_Scale D (sp_Qty p) \<le> fp_BaseScale (sp_Fees p)" "Amount_Scale D (sp_QuoteQty p) \<le> fp_QuoteScale (sp_Fees p)"
      "fp_BaseScale (sp_Fees p) \<le> MaxScale" "fp_QuoteScale (sp_Fees p) \<le> MaxScale"
    and ids: "sp_BuyerAccountID p \<noteq> []" "sp_SellerAccountID p \<noteq> []" "sp_BaseAsset p \<noteq> []" "sp_QuoteAsset p \<noteq> []" "fr \<noteq> []"
      "sp_TradeID p \<noteq> []"
    by (auto simp: settle_error_iff FeeParams_Validate_iff)
  have fees: "0 \<le> V bf" "0 \<le> V sf" "Amount_Scale D bf \<le> fp_BaseScale (sp_Fees p)" "Amount_Scale D sf \<le> fp_QuoteScale (sp_Fees p)"
    using assms(2,3) by (auto simp: fee_spec_def)
  have rel: "0 \<le> V (settle_release D p)" using pos by (simp add: settle_release_val)
  have zero: "V (settle_release D p) = 0 \<Longrightarrow> Amount_Validate D (settle_release D p) = None" by (simp add: Validate_iff)
  have sub: "Amount_Scale D (Amount_Sub D (sp_Qty p) bf) \<le> fp_BaseScale (sp_Fees p)"
    "Amount_Scale D (Amount_Sub D (sp_QuoteQty p) sf) \<le> fp_QuoteScale (sp_Fees p)"
    using sc(1,2) fees(3,4) by (auto simp: Scale_le_iff')
  have net0: "net val a ?ps = 0" for a using fees rel by (intro settle_net)
  have head: "2 \<le> length ?ps" "en_IdempotencyKey (settle_entry p fr bf sf) \<noteq> []" "en_Kind (settle_entry p fr bf sf) \<noteq> []"
    using ids by (auto simp: settle_postings_def settle_entry_def kind_defs)
  have "(\<forall>q \<in> set ?ps. posting_ok q) \<longleftrightarrow>
    Amount_Validate D (sp_QuoteQty p) = None \<and> Amount_Validate D (Amount_Sub D (sp_QuoteQty p) sf) = None \<and>
    (0 < V sf \<longrightarrow> Amount_Validate D sf = None) \<and> Amount_Validate D (sp_Qty p) = None \<and>
    Amount_Validate D (Amount_Sub D (sp_Qty p) bf) = None \<and> (0 < V bf \<longrightarrow> Amount_Validate D bf = None) \<and>
    (0 < V (settle_release D p) \<longrightarrow> Amount_Validate D (settle_release D p) = None)"
    using ids pos assms(4,5) unfolding settle_postings_def set_append ball_Un ball_if_list
    by (simp add: posting_ok_posting)
  also have "\<dots> \<longleftrightarrow> V (sp_Qty p) < 10 ^ 18 \<and> V (sp_QuoteQty p) < 10 ^ 18 \<and> Amount_Validate D (settle_release D p) = None"
  proof -
    have below: "V x < 10 ^ 18" if "Amount_Validate D x = None" "0 < V x" for x
      using that by (simp add: Validate_iff MaxIntegerDigits_def)
    have base: "Amount_Validate D x = None" if "V (sp_Qty p) < 10 ^ 18" "x \<in> {sp_Qty p, bf, Amount_Sub D (sp_Qty p) bf}" for x
      using that pos fees assms(4) sc sub by (auto intro!: valid_below [where y = "sp_Qty p", OF _ sc(3)])
    have quote: "Amount_Validate D x = None" if "V (sp_QuoteQty p) < 10 ^ 18" "x \<in> {sp_QuoteQty p, sf, Amount_Sub D (sp_QuoteQty p) sf}" for x
      using that pos fees assms(5) sc sub by (auto intro!: valid_below [where y = "sp_QuoteQty p", OF _ sc(4)])
    have rel0: "Amount_Validate D (settle_release D p) = None \<longleftrightarrow>
      (0 < V (settle_release D p) \<longrightarrow> Amount_Validate D (settle_release D p) = None)" using zero rel by fastforce
    show ?thesis
      using below [OF _ pos(1)] below [OF _ pos(2)] base [of "sp_Qty p"] base [of bf] base [of "Amount_Sub D (sp_Qty p) bf"]
        quote [of "sp_QuoteQty p"] quote [of sf] quote [of "Amount_Sub D (sp_QuoteQty p) sf"] rel0 by blast
  qed
  finally have "(\<forall>q \<in> set ?ps. posting_ok q) \<longleftrightarrow>
    V (sp_Qty p) < 10 ^ 18 \<and> V (sp_QuoteQty p) < 10 ^ 18 \<and> Amount_Validate D (settle_release D p) = None" .
  with net0 head show ?thesis unfolding Entry_Validate_iff by (auto simp: settle_entry_def)
qed

end

end
