(* ===== verification/Ledger_Store.thy ===== *)
theory Ledger_Store
  imports Ledger_Entry "HOL-Library.Product_Lexorder"
begin

text \<open>
  The ledger's tables and the statements of \<^verbatim>\<open>internal/ledger/sqlcgen\<close> (the SQL of queries/*.sql)
  as functions on them, with the constraints of the migrations 0003 and 0019 that the statements
  can run into. Rows are kept in the order they were created, which is what the queries order by;
  the balances are a map on their primary key. The identity of a new row is drawn by the database
  and is an argument. The clocks of the database (created_at, updated_at) are not modelled.
\<close>

section \<open>Rows\<close>

text \<open>The key of a balance, ordered by account and then asset.\<close>

datatype balanceKey = BalanceKey (key_account: string) (key_asset: string)

instantiation balanceKey :: linorder
begin

definition less_eq_balanceKey :: "balanceKey \<Rightarrow> balanceKey \<Rightarrow> bool" where
  "less_eq_balanceKey k l \<longleftrightarrow> (key_account k, key_asset k) \<le> (key_account l, key_asset l)"

definition less_balanceKey :: "balanceKey \<Rightarrow> balanceKey \<Rightarrow> bool" where
  "less_balanceKey k l \<longleftrightarrow> (key_account k, key_asset k) < (key_account l, key_asset l)"

instance
proof
  fix k l m :: balanceKey
  show "(k < l) = (k \<le> l \<and> \<not> l \<le> k)" by (auto simp: less_eq_balanceKey_def less_balanceKey_def)
  show "k \<le> k" by (simp add: less_eq_balanceKey_def)
  show "k \<le> l \<Longrightarrow> l \<le> m \<Longrightarrow> k \<le> m" unfolding less_eq_balanceKey_def by (rule order_trans)
  show "k \<le> l \<Longrightarrow> l \<le> k \<Longrightarrow> k = l"
    unfolding less_eq_balanceKey_def by (cases k; cases l) (auto simp: less_eq_prod_def)
  show "k \<le> l \<or> l \<le> k" unfolding less_eq_balanceKey_def by (rule linear)
qed

end

record AccountRow =
  ar_ID :: string
  ar_TenantID :: string
  ar_Kind :: AccountKind
  ar_HouseCode :: "HouseCode option"
  ar_OwnerUserID :: "string option"
  ar_Status :: AccountStatus
  ar_NextSeq :: int
  ar_Version :: int

record EntryRow =
  er_ID :: int
  er_TenantID :: string
  er_IdempotencyKey :: string
  er_Kind :: string
  er_RefType :: "string option"
  er_RefID :: "string option"
  er_Reason :: "string option"
  er_CorrelationID :: "string option"

text \<open>Amounts in tables are numbers of units of the eighteenth decimal (\<open>Pg_Numeric\<close>).\<close>

record PostingRow =
  pr_EntryID :: int
  pr_AccountID :: string
  pr_Asset :: string
  pr_Bucket :: Bucket
  pr_Direction :: Direction
  pr_Amount :: int

record BalanceRow =
  br_AccountID :: string
  br_Asset :: string
  br_Available :: int
  br_Hold :: int
  br_Version :: int

record BreakRow =
  kr_ID :: string
  kr_TenantID :: string
  kr_Asset :: string
  kr_Debits :: int
  kr_Credits :: int
  kr_Diff :: int
  kr_DetectedAt :: go_time
  kr_ResolvedAt :: "go_time option"

record Ledger =
  lg_accounts :: "AccountRow list"
  lg_entries :: "EntryRow list"
  lg_postings :: "PostingRow list"
  lg_balances :: "(balanceKey, BalanceRow) mapping"
  lg_breaks :: "BreakRow list"

text \<open>Why the database refuses a statement: a CHECK constraint (23514) or anything else.\<close>

datatype sql_error = CheckViolation | OtherSqlError

section \<open>Accounts\<close>

definition GetAccount :: "Ledger \<Rightarrow> string \<Rightarrow> AccountRow option" where
  "GetAccount L i = find (\<lambda>r. ar_ID r = i) (lg_accounts L)"

definition account_exists :: "Ledger \<Rightarrow> string \<Rightarrow> bool" where
  "account_exists L i \<longleftrightarrow> GetAccount L i \<noteq> None"

text \<open>The accounts of a sorted list of ids, in that order.\<close>

definition GetAccounts :: "Ledger \<Rightarrow> string list \<Rightarrow> AccountRow list" where
  "GetAccounts L ids = List.map_filter (GetAccount L) ids"

definition ListHouseAccounts :: "Ledger \<Rightarrow> string \<Rightarrow> AccountRow list" where
  "ListHouseAccounts L tenant = filter (\<lambda>r. ar_TenantID r = tenant \<and> ar_Kind r = KindHouse) (lg_accounts L)"

definition new_account :: "string \<Rightarrow> string \<Rightarrow> AccountKind \<Rightarrow> HouseCode option \<Rightarrow> string option \<Rightarrow> AccountRow" where
  "new_account newID tenant kind code owner =
     \<lparr>ar_ID = newID, ar_TenantID = tenant, ar_Kind = kind, ar_HouseCode = code, ar_OwnerUserID = owner,
      ar_Status = StatusActive, ar_NextSeq = 0, ar_Version = 1\<rparr>"

text \<open>The house account of a code: the one there is, or a new row.\<close>

definition EnsureHouseAccount :: "Ledger \<Rightarrow> string \<Rightarrow> string \<Rightarrow> HouseCode \<Rightarrow> Ledger \<times> (sql_error + AccountRow)" where
  "EnsureHouseAccount L newID tenant code =
     (case find (\<lambda>r. ar_TenantID r = tenant \<and> ar_HouseCode r = Some code) (lg_accounts L) of
        Some r \<Rightarrow> (L, Inr r)
      | None \<Rightarrow>
          (if account_exists L newID then (L, Inl OtherSqlError)
           else if \<not> HouseCode_Valid code then (L, Inl CheckViolation)
           else let r = new_account newID tenant KindHouse (Some code) None
                in (L\<lparr>lg_accounts := lg_accounts L @ [r]\<rparr>, Inr r)))"

definition CreateSpotAccount_row :: "Ledger \<Rightarrow> string \<Rightarrow> string \<Rightarrow> string option \<Rightarrow> Ledger \<times> (sql_error + AccountRow)" where
  "CreateSpotAccount_row L newID tenant owner =
     (if account_exists L newID then (L, Inl OtherSqlError)
      else let r = new_account newID tenant KindSpot None owner
           in (L\<lparr>lg_accounts := lg_accounts L @ [r]\<rparr>, Inr r))"

definition ListAccounts_rows :: "Ledger \<Rightarrow> string \<Rightarrow> AccountKind \<Rightarrow> nat \<Rightarrow> nat \<Rightarrow> AccountRow list" where
  "ListAccounts_rows L tenant kind limit offset =
     take limit (drop offset
       (filter (\<lambda>r. ar_TenantID r = tenant \<and> (kind = AccountKind_other [] \<or> ar_Kind r = kind)) (lg_accounts L)))"

definition GetSpotAccountByOwner :: "Ledger \<Rightarrow> string \<Rightarrow> string \<Rightarrow> AccountRow option" where
  "GetSpotAccountByOwner L tenant owner =
     find (\<lambda>r. ar_TenantID r = tenant \<and> ar_OwnerUserID r = Some owner \<and> ar_Kind r = KindSpot) (lg_accounts L)"

definition set_account :: "AccountRow \<Rightarrow> AccountRow list \<Rightarrow> AccountRow list" where
  "set_account r = map (\<lambda>x. if ar_ID x = ar_ID r then r else x)"

text \<open>An integer and a bigint column refuse what does not fit.\<close>

definition UpdateAccountStatus :: "Ledger \<Rightarrow> string \<Rightarrow> AccountStatus \<Rightarrow> Ledger \<times> (sql_error + AccountRow option)" where
  "UpdateAccountStatus L i status =
     (case GetAccount L i of
        None \<Rightarrow> (L, Inr None)
      | Some r \<Rightarrow>
          (if status \<noteq> StatusActive \<and> status \<noteq> StatusFrozen then (L, Inl CheckViolation)
           else if ar_Version r + 1 \<ge> 2 ^ 31 then (L, Inl OtherSqlError)
           else let r1 = r\<lparr>ar_Status := status, ar_Version := ar_Version r + 1\<rparr>
                in (L\<lparr>lg_accounts := set_account r1 (lg_accounts L)\<rparr>, Inr (Some r1))))"

definition BumpAccountSeqBy :: "Ledger \<Rightarrow> string \<Rightarrow> int \<Rightarrow> Ledger \<times> (sql_error + int option)" where
  "BumpAccountSeqBy L i n =
     (case GetAccount L i of
        None \<Rightarrow> (L, Inr None)
      | Some r \<Rightarrow>
          (let seq = ar_NextSeq r + n
           in if seq \<ge> 2 ^ 63 then (L, Inl OtherSqlError)
              else (L\<lparr>lg_accounts := set_account (r\<lparr>ar_NextSeq := seq\<rparr>) (lg_accounts L)\<rparr>, Inr (Some seq))))"

definition BumpAccountSeq :: "Ledger \<Rightarrow> string \<Rightarrow> Ledger \<times> (sql_error + int option)" where
  "BumpAccountSeq L i = BumpAccountSeqBy L i 1"

section \<open>Journal\<close>

definition optString :: "string \<Rightarrow> string option" where
  "optString s = (if s = [] then None else Some s)"

definition deref :: "string option \<Rightarrow> string" where
  "deref p = (case p of None \<Rightarrow> [] | Some s \<Rightarrow> s)"

lemma deref_optString [simp]: "deref (optString s) = s"
  by (simp add: deref_def optString_def)

definition GetJournalEntryByKey :: "Ledger \<Rightarrow> string \<Rightarrow> string \<Rightarrow> EntryRow option" where
  "GetJournalEntryByKey L tenant key = find (\<lambda>r. er_TenantID r = tenant \<and> er_IdempotencyKey r = key) (lg_entries L)"

definition GetJournalEntry :: "Ledger \<Rightarrow> int \<Rightarrow> EntryRow option" where
  "GetJournalEntry L i = find (\<lambda>r. er_ID r = i) (lg_entries L)"

definition entry_row :: "int \<Rightarrow> string \<Rightarrow> ('d, 'z) Entry_scheme \<Rightarrow> EntryRow" where
  "entry_row newID tenant e =
     \<lparr>er_ID = newID, er_TenantID = tenant, er_IdempotencyKey = en_IdempotencyKey e, er_Kind = en_Kind e,
      er_RefType = optString (en_RefType e), er_RefID = optString (en_RefID e), er_Reason = optString (en_Reason e),
      er_CorrelationID = optString (en_CorrelationID e)\<rparr>"

text \<open>\<^verbatim>\<open>ON CONFLICT (tenant_id, idempotency_key) DO NOTHING\<close> returns no row.\<close>

definition InsertJournalEntry :: "Ledger \<Rightarrow> int \<Rightarrow> string \<Rightarrow> 'd Entry \<Rightarrow> Ledger \<times> (sql_error + EntryRow option)" where
  "InsertJournalEntry L newID tenant e =
     (if GetJournalEntryByKey L tenant (en_IdempotencyKey e) \<noteq> None then (L, Inr None)
      else if GetJournalEntry L newID \<noteq> None then (L, Inl OtherSqlError)
      else let r = entry_row newID tenant e in (L\<lparr>lg_entries := lg_entries L @ [r]\<rparr>, Inr (Some r)))"

definition ListPostingsByEntry :: "Ledger \<Rightarrow> int \<Rightarrow> PostingRow list" where
  "ListPostingsByEntry L i = filter (\<lambda>p. pr_EntryID p = i) (lg_postings L)"

definition posting_row :: "'d decimal_pkg \<Rightarrow> int \<Rightarrow> 'd Posting \<Rightarrow> PostingRow" where
  "posting_row D i p =
     \<lparr>pr_EntryID = i, pr_AccountID = po_AccountID p, pr_Asset = po_Asset p, pr_Bucket = po_Bucket p,
      pr_Direction = po_Direction p, pr_Amount = sent_units D (po_Amount p)\<rparr>"

definition posting_row_error :: "Ledger \<Rightarrow> PostingRow \<Rightarrow> sql_error option" where
  "posting_row_error L r =
     (if \<not> in_range (pr_Amount r) then Some OtherSqlError
      else if pr_Amount r \<le> 0 \<or> pr_Bucket r \<notin> {BucketAvailable, BucketHold, BucketHouse} \<or> pr_Direction r \<notin> {Debit, Credit}
      then Some CheckViolation
      else if \<not> account_exists L (pr_AccountID r) then Some OtherSqlError
      else None)"

fun first_error :: "('a \<Rightarrow> 'e option) \<Rightarrow> 'a list \<Rightarrow> 'e option" where
  "first_error f [] = None"
| "first_error f (x # xs) = (case f x of Some e \<Rightarrow> Some e | None \<Rightarrow> first_error f xs)"

definition InsertPostings :: "'d decimal_pkg \<Rightarrow> Ledger \<Rightarrow> int \<Rightarrow> 'd Posting list \<Rightarrow> Ledger \<times> (sql_error + unit)" where
  "InsertPostings D L i ps =
     (let rows = map (posting_row D i) ps
      in case first_error (posting_row_error L) rows of
           Some e \<Rightarrow> (L, Inl e)
         | None \<Rightarrow> (L\<lparr>lg_postings := lg_postings L @ rows\<rparr>, Inr ()))"

definition has_posting :: "Ledger \<Rightarrow> int \<Rightarrow> string \<Rightarrow> bool" where
  "has_posting L i acct = list_ex (\<lambda>p. pr_EntryID p = i \<and> pr_AccountID p = acct) (lg_postings L)"

definition ListEntries :: "Ledger \<Rightarrow> string \<Rightarrow> string \<Rightarrow> string \<Rightarrow> nat \<Rightarrow> nat \<Rightarrow> EntryRow list" where
  "ListEntries L tenant refType refID limit offset =
     take limit (drop offset (rev (sort_key er_ID (filter (\<lambda>r. er_TenantID r = tenant \<and>
       (refType = [] \<or> er_RefType r = Some refType) \<and> (refID = [] \<or> er_RefID r = Some refID)) (lg_entries L)))))"

definition ListEntriesByAccount :: "Ledger \<Rightarrow> string \<Rightarrow> string \<Rightarrow> nat \<Rightarrow> nat \<Rightarrow> EntryRow list" where
  "ListEntriesByAccount L tenant acct limit offset =
     take limit (drop offset (rev (sort_key er_ID
       (filter (\<lambda>r. er_TenantID r = tenant \<and> has_posting L (er_ID r) acct) (lg_entries L)))))"

section \<open>Balances\<close>

definition balance_row :: "Ledger \<Rightarrow> balanceKey \<Rightarrow> BalanceRow" where
  "balance_row L k =
     (case Mapping.lookup (lg_balances L) k of
        Some r \<Rightarrow> r
      | None \<Rightarrow> \<lparr>br_AccountID = key_account k, br_Asset = key_asset k, br_Available = 0, br_Hold = 0, br_Version = 1\<rparr>)"

text \<open>The rows of the keys whose account exists, created when missing, and locked.\<close>

fun LockBalances :: "Ledger \<Rightarrow> balanceKey list \<Rightarrow> Ledger \<times> BalanceRow list" where
  "LockBalances L [] = (L, [])"
| "LockBalances L (k # ks) =
     (if account_exists L (key_account k)
      then (case LockBalances (L\<lparr>lg_balances := Mapping.update k (balance_row L k) (lg_balances L)\<rparr>) ks of
              (L1, rows) \<Rightarrow> (L1, balance_row L k # rows))
      else LockBalances L ks)"

record 'd balanceDelta =
  bd_available :: "'d amount"
  bd_hold :: "'d amount"

definition add_column :: "'d decimal_pkg \<Rightarrow> int \<Rightarrow> 'd amount \<Rightarrow> int" where
  "add_column D u a = numeric_units (numeric_add (column u) (NumericFromAmount D a))"

definition apply_delta :: "'d decimal_pkg \<Rightarrow> BalanceRow \<Rightarrow> 'd balanceDelta \<Rightarrow> sql_error + BalanceRow" where
  "apply_delta D r d =
     (let a = add_column D (br_Available r) (bd_available d); h = add_column D (br_Hold r) (bd_hold d)
      in if \<not> in_range a \<or> \<not> in_range h then Inl OtherSqlError
         else if a < 0 \<or> h < 0 then Inl CheckViolation
         else Inr (r\<lparr>br_Available := a, br_Hold := h, br_Version := br_Version r + 1\<rparr>))"

text \<open>The UPDATE over the keys and their deltas; a failing row fails the whole statement.\<close>

fun ApplyBalanceDeltas :: "'d decimal_pkg \<Rightarrow> (balanceKey, BalanceRow) mapping \<Rightarrow> (balanceKey \<times> 'd balanceDelta) list \<Rightarrow>
    sql_error + (balanceKey, BalanceRow) mapping \<times> BalanceRow list" where
  "ApplyBalanceDeltas D bals [] = Inr (bals, [])"
| "ApplyBalanceDeltas D bals ((k, d) # kds) =
     (case Mapping.lookup bals k of
        None \<Rightarrow> ApplyBalanceDeltas D bals kds
      | Some r \<Rightarrow>
          (case apply_delta D r d of
             Inl e \<Rightarrow> Inl e
           | Inr r1 \<Rightarrow>
               (case ApplyBalanceDeltas D (Mapping.update k r1 bals) kds of
                  Inl e \<Rightarrow> Inl e
                | Inr (bals1, rows) \<Rightarrow> Inr (bals1, r1 # rows))))"

definition GetBalance :: "Ledger \<Rightarrow> string \<Rightarrow> string \<Rightarrow> BalanceRow option" where
  "GetBalance L acct asset = Mapping.lookup (lg_balances L) (BalanceKey acct asset)"

definition GetBalances :: "Ledger \<Rightarrow> string \<Rightarrow> BalanceRow list" where
  "GetBalances L acct =
     List.map_filter (Mapping.lookup (lg_balances L))
       (filter (\<lambda>k. key_account k = acct) (Mapping.ordered_keys (lg_balances L)))"

section \<open>Sums\<close>

text \<open>The sum of the amounts of the postings with one direction, and credit minus debit.\<close>

definition sum_dir :: "Direction \<Rightarrow> PostingRow list \<Rightarrow> int" where
  "sum_dir d rows = sum_list (map pr_Amount (filter (\<lambda>p. pr_Direction p = d) rows))"

definition entry_of_tenant :: "Ledger \<Rightarrow> string \<Rightarrow> int \<Rightarrow> bool" where
  "entry_of_tenant L tenant i = (case GetJournalEntry L i of None \<Rightarrow> False | Some r \<Rightarrow> er_TenantID r = tenant)"

definition sorted_assets :: "PostingRow list \<Rightarrow> string list" where
  "sorted_assets rows = sort (remdups (map pr_Asset rows))"

text \<open>One line of the trial balance: an asset, its debits and its credits; a sum that does not fit is an error.\<close>

definition trial_line :: "PostingRow list \<Rightarrow> string \<Rightarrow> sql_error + string \<times> int \<times> int" where
  "trial_line rows a =
     (let mine = filter (\<lambda>p. pr_Asset p = a) rows; d = sum_dir Debit mine; c = sum_dir Credit mine
      in if in_range d \<and> in_range c then Inr (a, d, c) else Inl OtherSqlError)"

fun all_ok :: "('a \<Rightarrow> 'e + 'b) \<Rightarrow> 'a list \<Rightarrow> 'e + 'b list" where
  "all_ok f [] = Inr []"
| "all_ok f (x # xs) =
     (case f x of
        Inl e \<Rightarrow> Inl e
      | Inr y \<Rightarrow> (case all_ok f xs of Inl e \<Rightarrow> Inl e | Inr ys \<Rightarrow> Inr (y # ys)))"

definition TrialBalance_rows :: "Ledger \<Rightarrow> string \<Rightarrow> sql_error + (string \<times> int \<times> int) list" where
  "TrialBalance_rows L tenant =
     (let rows = filter (\<lambda>p. entry_of_tenant L tenant (pr_EntryID p)) (lg_postings L)
      in all_ok (trial_line rows) (sorted_assets rows))"

text \<open>Credit minus debit per asset and bucket of one account, in the order of the two names.\<close>

definition bucket_sum :: "PostingRow list \<Rightarrow> string \<times> Bucket \<Rightarrow> sql_error + string \<times> Bucket \<times> int" where
  "bucket_sum rows g =
     (case g of (a, b) \<Rightarrow>
        let mine = filter (\<lambda>p. pr_Asset p = a \<and> pr_Bucket p = b) rows; s = sum_dir Credit mine - sum_dir Debit mine
        in if in_range s then Inr (a, b, s) else Inl OtherSqlError)"

definition bucket_groups :: "PostingRow list \<Rightarrow> (string \<times> Bucket) list" where
  "bucket_groups rows =
     concat (map (\<lambda>a. filter (\<lambda>g. list_ex (\<lambda>p. (pr_Asset p, pr_Bucket p) = g) rows)
       [(a, BucketAvailable), (a, BucketHold), (a, BucketHouse)]) (sorted_assets rows))"

definition AccountBucketSums :: "Ledger \<Rightarrow> string \<Rightarrow> sql_error + (string \<times> Bucket \<times> int) list" where
  "AccountBucketSums L acct =
     (let rows = filter (\<lambda>p. pr_AccountID p = acct) (lg_postings L)
      in all_ok (bucket_sum rows) (bucket_groups rows))"

text \<open>Debit minus credit per house code and asset; the codes in the order of their names.\<close>

definition house_code_order :: "HouseCode list" where
  "house_code_order = [HouseCustodyDepositAddresses, HouseCustodyHot, HouseExternal, HouseFeeRevenue, HouseGasExpense,
     HousePendingWithdrawal]"

definition is_house_posting :: "Ledger \<Rightarrow> string \<Rightarrow> HouseCode \<Rightarrow> PostingRow \<Rightarrow> bool" where
  "is_house_posting L tenant code p =
     (case GetAccount L (pr_AccountID p) of
        None \<Rightarrow> False
      | Some a \<Rightarrow> ar_TenantID a = tenant \<and> ar_Kind a = KindHouse \<and> ar_HouseCode a = Some code)"

definition house_sum :: "PostingRow list \<Rightarrow> HouseCode \<Rightarrow> string \<Rightarrow> sql_error + HouseCode \<times> string \<times> int" where
  "house_sum rows code a =
     (let mine = filter (\<lambda>p. pr_Asset p = a) rows; s = sum_dir Debit mine - sum_dir Credit mine
      in if in_range s then Inr (code, a, s) else Inl OtherSqlError)"

definition house_lines :: "Ledger \<Rightarrow> string \<Rightarrow> HouseCode \<Rightarrow> sql_error + (HouseCode \<times> string \<times> int) list" where
  "house_lines L tenant code =
     (let rows = filter (is_house_posting L tenant code) (lg_postings L)
      in all_ok (house_sum rows code) (sorted_assets rows))"

definition HouseBalances_rows :: "Ledger \<Rightarrow> string \<Rightarrow> sql_error + (HouseCode \<times> string \<times> int) list" where
  "HouseBalances_rows L tenant =
     (case all_ok (house_lines L tenant) house_code_order of Inl e \<Rightarrow> Inl e | Inr ls \<Rightarrow> Inr (concat ls))"

section \<open>Breaks\<close>

definition ListOpenLedgerBreaks :: "Ledger \<Rightarrow> string \<Rightarrow> BreakRow list" where
  "ListOpenLedgerBreaks L tenant =
     sort_key kr_Asset (filter (\<lambda>r. kr_TenantID r = tenant \<and> kr_ResolvedAt r = None) (lg_breaks L))"

text \<open>All breaks, the latest first.\<close>

definition ListLedgerBreaks :: "Ledger \<Rightarrow> string \<Rightarrow> nat \<Rightarrow> nat \<Rightarrow> BreakRow list" where
  "ListLedgerBreaks L tenant limit offset =
     take limit (drop offset
       (sort_key (\<lambda>r. (- kr_DetectedAt r, kr_Asset r)) (filter (\<lambda>r. kr_TenantID r = tenant) (lg_breaks L))))"

definition CountOpenLedgerBreaks :: "Ledger \<Rightarrow> string \<Rightarrow> int" where
  "CountOpenLedgerBreaks L tenant =
     int (length (filter (\<lambda>r. kr_TenantID r = tenant \<and> kr_ResolvedAt r = None) (lg_breaks L)))"

text \<open>A row needs a new id, a difference that is the one of its sums and not zero, and no other open break of its asset.\<close>

definition InsertLedgerBreak :: "Ledger \<Rightarrow> BreakRow \<Rightarrow> Ledger \<times> (sql_error + BreakRow)" where
  "InsertLedgerBreak L r =
     (if \<not> in_range (kr_Debits r) \<or> \<not> in_range (kr_Credits r) \<or> \<not> in_range (kr_Diff r) then (L, Inl OtherSqlError)
      else if kr_Diff r = 0 \<or> kr_Diff r \<noteq> kr_Debits r - kr_Credits r then (L, Inl CheckViolation)
      else if list_ex (\<lambda>x. kr_ID x = kr_ID r) (lg_breaks L) \<or>
        list_ex (\<lambda>x. kr_TenantID x = kr_TenantID r \<and> kr_Asset x = kr_Asset r \<and> kr_ResolvedAt x = None) (lg_breaks L)
      then (L, Inl OtherSqlError)
      else (L\<lparr>lg_breaks := lg_breaks L @ [r]\<rparr>, Inr r))"

definition ResolveLedgerBreak :: "Ledger \<Rightarrow> string \<Rightarrow> go_time \<Rightarrow> Ledger \<times> (sql_error + unit)" where
  "ResolveLedgerBreak L i now =
     (if list_ex (\<lambda>x. kr_ID x = i \<and> kr_ResolvedAt x = None \<and> now < kr_DetectedAt x) (lg_breaks L) then (L, Inl CheckViolation)
      else (L\<lparr>lg_breaks := map (\<lambda>x. if kr_ID x = i \<and> kr_ResolvedAt x = None then x\<lparr>kr_ResolvedAt := Some now\<rparr> else x)
                             (lg_breaks L)\<rparr>, Inr ()))"

end
