(* ===== verification/Ledger_Service.thy ===== *)
theory Ledger_Service
  imports Ledger_Store
begin

text \<open>
  \<^verbatim>\<open>internal/ledger/service.go\<close>, post.go, ops.go, reads.go and breaks.go over the tables of
  \<open>Ledger_Store\<close>. Every function that writes returns the tables as its transaction leaves them
  beside its error or result; \<open>in_tx\<close> is the caller's transaction, which is rolled back on an
  error. The two batches of a posting are the functions \<open>send_locks\<close> and \<open>send_apply\<close>. Metrics and
  the lock around the map of house accounts are not modelled.
\<close>

text \<open>A transaction: what fails leaves the tables as they were.\<close>

definition in_tx :: "('s \<Rightarrow> 's \<times> ('e + 'r)) \<Rightarrow> 's \<Rightarrow> 's \<times> ('e + 'r)" where
  "in_tx f s = (case f s of (s1, Inl e) \<Rightarrow> (s, Inl e) | (s1, Inr r) \<Rightarrow> (s1, Inr r))"

section \<open>The service and its accounts\<close>

record LedgerService =
  sv_tenant :: string
  sv_houses :: "(HouseCode, string) mapping"

definition New_Service :: "string \<Rightarrow> LedgerService" where
  "New_Service tenant = \<lparr>sv_tenant = tenant, sv_houses = Mapping.empty\<rparr>"

fun house_map :: "AccountRow list \<Rightarrow> (HouseCode, string) mapping \<Rightarrow> (HouseCode, string) mapping" where
  "house_map [] m = m"
| "house_map (r # rs) m =
     house_map rs (case ar_HouseCode r of None \<Rightarrow> m | Some c \<Rightarrow> Mapping.update c (ar_ID r) m)"

definition LoadHouseAccounts :: "LedgerService \<Rightarrow> Ledger \<Rightarrow> ledger_error + LedgerService" where
  "LoadHouseAccounts s L =
     (let m = house_map (ListHouseAccounts L (sv_tenant s)) Mapping.empty
      in if list_all (\<lambda>c. Mapping.lookup m c \<noteq> None) AllHouseCodes then Inr (s\<lparr>sv_houses := m\<rparr>)
         else Inl ErrHouseAccount)"

text \<open>The ids the database would give the new accounts are an argument; each statement is its own transaction.\<close>

fun ensure_houses :: "LedgerService \<Rightarrow> (HouseCode \<Rightarrow> string) \<Rightarrow> HouseCode list \<Rightarrow> Ledger \<Rightarrow> Ledger \<times> (ledger_error + unit)" where
  "ensure_houses s newID [] L = (L, Inr ())"
| "ensure_houses s newID (c # cs) L =
     (case EnsureHouseAccount L (newID c) (sv_tenant s) c of
        (L1, Inl _) \<Rightarrow> (L1, Inl errStore)
      | (L1, Inr _) \<Rightarrow> ensure_houses s newID cs L1)"

definition EnsureHouseAccounts :: "LedgerService \<Rightarrow> (HouseCode \<Rightarrow> string) \<Rightarrow> Ledger \<Rightarrow> Ledger \<times> (ledger_error + LedgerService)" where
  "EnsureHouseAccounts s newID L =
     (case ensure_houses s newID AllHouseCodes L of
        (L1, Inl e) \<Rightarrow> (L1, Inl e)
      | (L1, Inr _) \<Rightarrow> (L1, LoadHouseAccounts s L1))"

definition HouseAccount :: "LedgerService \<Rightarrow> HouseCode \<Rightarrow> ledger_error + string" where
  "HouseAccount s c = (case Mapping.lookup (sv_houses s) c of None \<Rightarrow> Inl ErrHouseAccount | Some i \<Rightarrow> Inr i)"

definition accountFromRow :: "AccountRow \<Rightarrow> Account" where
  "accountFromRow r =
     \<lparr>acc_ID = ar_ID r, acc_TenantID = ar_TenantID r, acc_Kind = ar_Kind r,
      acc_HouseCode = (case ar_HouseCode r of None \<Rightarrow> HouseCode_other [] | Some c \<Rightarrow> c),
      acc_OwnerUserID = ar_OwnerUserID r, acc_Status = ar_Status r, acc_NextSeq = ar_NextSeq r, acc_Version = ar_Version r\<rparr>"

definition CreateSpotAccount :: "LedgerService \<Rightarrow> string \<Rightarrow> string option \<Rightarrow> Ledger \<Rightarrow> Ledger \<times> (ledger_error + Account)" where
  "CreateSpotAccount s newID owner L =
     (case CreateSpotAccount_row L newID (sv_tenant s) owner of
        (L1, Inl _) \<Rightarrow> (L1, Inl errStore)
      | (L1, Inr r) \<Rightarrow> (L1, Inr (accountFromRow r)))"

definition SpotAccountOf :: "LedgerService \<Rightarrow> Ledger \<Rightarrow> string \<Rightarrow> ledger_error + Account" where
  "SpotAccountOf s L user =
     (case GetSpotAccountByOwner L (sv_tenant s) user of
        None \<Rightarrow> Inl ErrAccountNotFound
      | Some r \<Rightarrow> Inr (accountFromRow r))"

definition Service_Account :: "LedgerService \<Rightarrow> Ledger \<Rightarrow> string \<Rightarrow> ledger_error + Account" where
  "Service_Account s L i =
     (case GetAccount L i of
        None \<Rightarrow> Inl ErrAccountNotFound
      | Some r \<Rightarrow> (if ar_TenantID r \<noteq> sv_tenant s then Inl ErrAccountNotFound else Inr (accountFromRow r)))"

text \<open>Negative limits and offsets are refused by the database.\<close>

text \<open>The account as read in a batch: what the row query returned, if it returned one.\<close>

definition PendingAccount_Get :: "string \<Rightarrow> AccountRow option \<Rightarrow> ledger_error + Account" where
  "PendingAccount_Get tenant res =
     (case res of
        None \<Rightarrow> Inl ErrAccountNotFound
      | Some r \<Rightarrow> if ar_TenantID r \<noteq> tenant then Inl ErrAccountNotFound else Inr (accountFromRow r))"

definition ListAccounts :: "LedgerService \<Rightarrow> Ledger \<Rightarrow> AccountKind \<Rightarrow> int \<Rightarrow> int \<Rightarrow> ledger_error + Account list" where
  "ListAccounts s L kind limit offset =
     (if limit < 0 \<or> offset < 0 then Inl errStore
      else Inr (map accountFromRow (ListAccounts_rows L (sv_tenant s) kind (nat limit) (nat offset))))"

definition SetAccountStatus :: "LedgerService \<Rightarrow> string \<Rightarrow> AccountStatus \<Rightarrow> Ledger \<Rightarrow> Ledger \<times> (ledger_error + Account)" where
  "SetAccountStatus s i status L =
     (if status \<noteq> StatusActive \<and> status \<noteq> StatusFrozen then (L, Inl ErrInvalidEntry)
      else case Service_Account s L i of
             Inl e \<Rightarrow> (L, Inl e)
           | Inr _ \<Rightarrow>
               (case UpdateAccountStatus L i status of
                  (L1, Inr (Some r)) \<Rightarrow> (L1, Inr (accountFromRow r))
                | (L1, _) \<Rightarrow> (L1, Inl errStore)))"

section \<open>Sequences of the private stream\<close>

definition NextAccountSeq :: "string \<Rightarrow> Ledger \<Rightarrow> Ledger \<times> (ledger_error + int)" where
  "NextAccountSeq i L =
     (case BumpAccountSeq L i of
        (L1, Inr None) \<Rightarrow> (L1, Inl ErrAccountNotFound)
      | (L1, Inr (Some seq)) \<Rightarrow> (L1, Inr seq)
      | (L1, Inl _) \<Rightarrow> (L1, Inl errStore))"

definition ReserveAccountSeqs :: "string \<Rightarrow> int \<Rightarrow> Ledger \<Rightarrow> Ledger \<times> (ledger_error + int)" where
  "ReserveAccountSeqs i n L =
     (if n \<le> 0 then (L, Inl ErrInvalidEntry)
      else case BumpAccountSeqBy L i n of
             (L1, Inr None) \<Rightarrow> (L1, Inl ErrAccountNotFound)
           | (L1, Inr (Some seq)) \<Rightarrow> (L1, Inr (seq - n + 1))
           | (L1, Inl _) \<Rightarrow> (L1, Inl errStore))"

section \<open>Posting an entry\<close>

fun add_deltas :: "'d decimal_pkg \<Rightarrow> 'd Posting list \<Rightarrow> (balanceKey, 'd balanceDelta) mapping \<Rightarrow> (balanceKey, 'd balanceDelta) mapping" where
  "add_deltas D [] m = m"
| "add_deltas D (p # ps) m =
     (if po_Bucket p = BucketHouse then add_deltas D ps m
      else
        let k = BalanceKey (po_AccountID p) (po_Asset p);
            d = (case Mapping.lookup m k of None \<Rightarrow> \<lparr>bd_available = Zero D, bd_hold = Zero D\<rparr> | Some d \<Rightarrow> d);
            amt = (if po_Direction p = Debit then Amount_Neg D (po_Amount p) else po_Amount p);
            d1 = (if po_Bucket p = BucketAvailable then d\<lparr>bd_available := Amount_Add D (bd_available d) amt\<rparr>
                  else d\<lparr>bd_hold := Amount_Add D (bd_hold d) amt\<rparr>)
        in add_deltas D ps (Mapping.update k d1 m))"

definition aggregateDeltas :: "'d decimal_pkg \<Rightarrow> 'd Posting list \<Rightarrow> (balanceKey, 'd balanceDelta) mapping \<times> balanceKey list" where
  "aggregateDeltas D ps = (let m = add_deltas D ps Mapping.empty in (m, Mapping.ordered_keys m))"

definition accountIDs :: "'d Posting list \<Rightarrow> string list" where
  "accountIDs ps = sort (remdups (map po_AccountID ps))"

fun account_kinds :: "string \<Rightarrow> AccountRow list \<Rightarrow> (string, AccountKind) mapping \<Rightarrow> (string, AccountKind) mapping" where
  "account_kinds tenant [] m = m"
| "account_kinds tenant (r # rs) m =
     account_kinds tenant rs (if ar_TenantID r = tenant then Mapping.update (ar_ID r) (ar_Kind r) m else m)"

fun check_kinds :: "(string, AccountKind) mapping \<Rightarrow> 'd Posting list \<Rightarrow> ledger_error option" where
  "check_kinds kinds [] = None"
| "check_kinds kinds (p # ps) =
     (case Mapping.lookup kinds (po_AccountID p) of
        None \<Rightarrow> Some ErrAccountNotFound
      | Some kind \<Rightarrow>
          (if (kind = KindHouse) \<noteq> (po_Bucket p = BucketHouse) then Some ErrAccountKind else check_kinds kinds ps))"

definition checkAccountKinds :: "LedgerService \<Rightarrow> AccountRow list \<Rightarrow> 'd Posting list \<Rightarrow> ledger_error option" where
  "checkAccountKinds s rows ps = check_kinds (account_kinds (sv_tenant s) rows Mapping.empty) ps"

definition posting_from_row :: "'d decimal_pkg \<Rightarrow> PostingRow \<Rightarrow> ledger_error + 'd Posting" where
  "posting_from_row D p =
     (case AmountFromNumeric D (column (pr_Amount p)) of
        Inl e \<Rightarrow> Inl (errNumeric e)
      | Inr amt \<Rightarrow> Inr (posting (pr_AccountID p) (pr_Asset p) (pr_Bucket p) (pr_Direction p) amt))"

definition journalFromRow :: "EntryRow \<Rightarrow> 'd JournalEntry" where
  "journalFromRow r =
     \<lparr>je_ID = er_ID r, je_TenantID = er_TenantID r, je_IdempotencyKey = er_IdempotencyKey r, je_Kind = er_Kind r,
      je_RefType = deref (er_RefType r), je_RefID = deref (er_RefID r), je_Reason = deref (er_Reason r),
      je_CorrelationID = deref (er_CorrelationID r), je_Postings = [], je_Balances = []\<rparr>"

definition withPostings :: "'d decimal_pkg \<Rightarrow> Ledger \<Rightarrow> EntryRow \<Rightarrow> ledger_error + 'd JournalEntry" where
  "withPostings D L r =
     (case all_ok (posting_from_row D) (ListPostingsByEntry L (er_ID r)) of
        Inl e \<Rightarrow> Inl e
      | Inr ps \<Rightarrow> Inr ((journalFromRow r)\<lparr>je_Postings := ps\<rparr>))"

definition entryByKey :: "'d decimal_pkg \<Rightarrow> LedgerService \<Rightarrow> Ledger \<Rightarrow> string \<Rightarrow> ledger_error + 'd JournalEntry" where
  "entryByKey D s L key =
     (case GetJournalEntryByKey L (sv_tenant s) key of
        None \<Rightarrow> Inl ErrNotFound
      | Some r \<Rightarrow> withPostings D L r)"

record 'd PendingEntry =
  pe_e :: "'d Entry"
  pe_deltas :: "(balanceKey, 'd balanceDelta) mapping"
  pe_keys :: "balanceKey list"

definition Service_Begin :: "'d decimal_pkg \<Rightarrow> 'd Entry \<Rightarrow> ledger_error + 'd PendingEntry" where
  "Service_Begin D e =
     (case Entry_Validate D e of
        Some err \<Rightarrow> Inl err
      | None \<Rightarrow> (case aggregateDeltas D (en_Postings e) of
                   (deltas, keys) \<Rightarrow> Inr \<lparr>pe_e = e, pe_deltas = deltas, pe_keys = keys\<rparr>))"

text \<open>The results of the first batch: the entry row (none on a replay), the accounts, the locked balances.\<close>

record Locked =
  lk_entry :: "EntryRow option"
  lk_accounts :: "AccountRow list"
  lk_locks :: "BalanceRow list option"

definition send_locks :: "LedgerService \<Rightarrow> int \<Rightarrow> 'd PendingEntry \<Rightarrow> Ledger \<Rightarrow> Ledger \<times> (sql_error + Locked)" where
  "send_locks s newID pe L =
     (case InsertJournalEntry L newID (sv_tenant s) (pe_e pe) of
        (L1, Inl e) \<Rightarrow> (L1, Inl e)
      | (L1, Inr row) \<Rightarrow>
          (let accounts = GetAccounts L1 (accountIDs (en_Postings (pe_e pe)))
           in if pe_keys pe = [] then (L1, Inr \<lparr>lk_entry = row, lk_accounts = accounts, lk_locks = None\<rparr>)
              else case LockBalances L1 (pe_keys pe) of
                     (L2, rows) \<Rightarrow> (L2, Inr \<lparr>lk_entry = row, lk_accounts = accounts, lk_locks = Some rows\<rparr>)))"

fun index_rows :: "BalanceRow list \<Rightarrow> (balanceKey, BalanceRow) mapping \<Rightarrow> (balanceKey, BalanceRow) mapping" where
  "index_rows [] m = m"
| "index_rows (r # rs) m = index_rows rs (Mapping.update (BalanceKey (br_AccountID r) (br_Asset r)) r m)"

text \<open>A missing delta cannot occur: the keys are those of the deltas; a nil pointer would panic.\<close>

definition delta_of :: "'d decimal_pkg \<Rightarrow> 'd PendingEntry \<Rightarrow> balanceKey \<Rightarrow> 'd balanceDelta" where
  "delta_of D pe k =
     (case Mapping.lookup (pe_deltas pe) k of None \<Rightarrow> \<lparr>bd_available = Zero D, bd_hold = Zero D\<rparr> | Some d \<Rightarrow> d)"

definition check_key :: "'d decimal_pkg \<Rightarrow> 'd PendingEntry \<Rightarrow> (balanceKey, BalanceRow) mapping \<Rightarrow> balanceKey \<Rightarrow> ledger_error option" where
  "check_key D pe current k =
     (case Mapping.lookup current k of
        None \<Rightarrow> Some errNoRow
      | Some cur \<Rightarrow>
          (case AmountFromNumeric D (column (br_Available cur)) of
             Inl e \<Rightarrow> Some (errNumeric e)
           | Inr available \<Rightarrow>
               (case AmountFromNumeric D (column (br_Hold cur)) of
                  Inl e \<Rightarrow> Some (errNumeric e)
                | Inr hold \<Rightarrow>
                    (let d = delta_of D pe k
                     in if Amount_IsNegative D (Amount_Add D available (bd_available d)) then Some ErrInsufficient
                        else if Amount_IsNegative D (Amount_Add D hold (bd_hold d)) then Some ErrInsufficient
                        else None))))"

text \<open>The existing entry on a replay, nothing when the entry may be applied.\<close>

definition Pending_Check :: "'d decimal_pkg \<Rightarrow> LedgerService \<Rightarrow> Ledger \<Rightarrow> 'd PendingEntry \<Rightarrow> Locked \<Rightarrow> ledger_error + 'd JournalEntry option" where
  "Pending_Check D s L pe lk =
     (case lk_entry lk of
        None \<Rightarrow> (case entryByKey D s L (en_IdempotencyKey (pe_e pe)) of Inl e \<Rightarrow> Inl e | Inr je \<Rightarrow> Inr (Some je))
      | Some _ \<Rightarrow>
          (case checkAccountKinds s (lk_accounts lk) (en_Postings (pe_e pe)) of
             Some e \<Rightarrow> Inl e
           | None \<Rightarrow>
               (case lk_locks lk of
                  None \<Rightarrow> Inr None
                | Some rows \<Rightarrow>
                    (case first_error (check_key D pe (index_rows rows Mapping.empty)) (pe_keys pe) of
                       Some e \<Rightarrow> Inl e
                     | None \<Rightarrow> Inr None))))"

text \<open>The second batch: the postings, then the balances.\<close>

definition send_apply :: "'d decimal_pkg \<Rightarrow> int \<Rightarrow> 'd PendingEntry \<Rightarrow> Ledger \<Rightarrow> Ledger \<times> (sql_error + BalanceRow list option)" where
  "send_apply D i pe L =
     (case InsertPostings D L i (en_Postings (pe_e pe)) of
        (L1, Inl e) \<Rightarrow> (L1, Inl e)
      | (L1, Inr _) \<Rightarrow>
          (if pe_keys pe = [] then (L1, Inr None)
           else case ApplyBalanceDeltas D (lg_balances L1) (map (\<lambda>k. (k, delta_of D pe k)) (pe_keys pe)) of
                  Inl e \<Rightarrow> (L1, Inl e)
                | Inr (bals, rows) \<Rightarrow> (L1\<lparr>lg_balances := bals\<rparr>, Inr (Some rows))))"

definition applyErr :: "sql_error \<Rightarrow> ledger_error" where
  "applyErr e = (case e of CheckViolation \<Rightarrow> ErrInsufficient | OtherSqlError \<Rightarrow> errStore)"

definition finish_key :: "'d decimal_pkg \<Rightarrow> (balanceKey, BalanceRow) mapping \<Rightarrow> balanceKey \<Rightarrow> ledger_error + 'd Balance" where
  "finish_key D updated k =
     (case Mapping.lookup updated k of
        None \<Rightarrow> Inl errNoRow
      | Some row \<Rightarrow>
          (case AmountFromNumeric D (column (br_Available row)) of
             Inl e \<Rightarrow> Inl (errNumeric e)
           | Inr available \<Rightarrow>
               (case AmountFromNumeric D (column (br_Hold row)) of
                  Inl e \<Rightarrow> Inl (errNumeric e)
                | Inr hold \<Rightarrow>
                    Inr \<lparr>bal_AccountID = br_AccountID row, bal_Asset = br_Asset row, bal_Available = available,
                         bal_Hold = hold, bal_Version = br_Version row\<rparr>)))"

definition Pending_Finish :: "'d decimal_pkg \<Rightarrow> EntryRow \<Rightarrow> 'd PendingEntry \<Rightarrow> BalanceRow list option \<Rightarrow> ledger_error + 'd JournalEntry" where
  "Pending_Finish D row pe applied =
     (let je = (journalFromRow row)\<lparr>je_Postings := en_Postings (pe_e pe)\<rparr>
      in case applied of
           None \<Rightarrow> Inr je
         | Some rows \<Rightarrow>
             (case all_ok (finish_key D (index_rows rows Mapping.empty)) (pe_keys pe) of
                Inl e \<Rightarrow> Inl e
              | Inr bs \<Rightarrow> Inr (je\<lparr>je_Balances := bs\<rparr>)))"

text \<open>The entry and whether it was there before.\<close>

definition Post :: "'d decimal_pkg \<Rightarrow> LedgerService \<Rightarrow> int \<Rightarrow> 'd Entry \<Rightarrow> Ledger \<Rightarrow> Ledger \<times> (ledger_error + 'd JournalEntry \<times> bool)" where
  "Post D s newID e L =
     (case Service_Begin D e of
        Inl err \<Rightarrow> (L, Inl err)
      | Inr pe \<Rightarrow>
          (case send_locks s newID pe L of
             (L1, Inl _) \<Rightarrow> (L1, Inl errStore)
           | (L1, Inr lk) \<Rightarrow>
               (case Pending_Check D s L1 pe lk of
                  Inl err \<Rightarrow> (L1, Inl err)
                | Inr (Some je) \<Rightarrow> (L1, Inr (je, True))
                | Inr None \<Rightarrow>
                    (case lk_entry lk of
                       None \<Rightarrow> (L1, Inl errStore)
                     | Some row \<Rightarrow>
                         (case send_apply D (er_ID row) pe L1 of
                            (L2, Inl err) \<Rightarrow> (L2, Inl (applyErr err))
                          | (L2, Inr applied) \<Rightarrow>
                              (case Pending_Finish D row pe applied of
                                 Inl err \<Rightarrow> (L2, Inl err)
                               | Inr je \<Rightarrow> (L2, Inr (je, False))))))))"

definition BalanceKeys :: "'d PendingEntry \<Rightarrow> (string \<times> string) list" where
  "BalanceKeys pe = map (\<lambda>k. (key_account k, key_asset k)) (pe_keys pe)"

section \<open>Operations\<close>

definition post_entry :: "'d decimal_pkg \<Rightarrow> LedgerService \<Rightarrow> int \<Rightarrow> ledger_error + 'd Entry \<Rightarrow> Ledger \<Rightarrow>
    Ledger \<times> (ledger_error + 'd JournalEntry \<times> bool)" where
  "post_entry D s newID e L = (case e of Inl err \<Rightarrow> (L, Inl err) | Inr x \<Rightarrow> Post D s newID x L)"

definition Hold :: "'d decimal_pkg \<Rightarrow> LedgerService \<Rightarrow> int \<Rightarrow> 'd HoldParams \<Rightarrow> Ledger \<Rightarrow> Ledger \<times> (ledger_error + 'd JournalEntry \<times> bool)" where
  "Hold D s newID p = post_entry D s newID (holdEntry D p)"

definition Release :: "'d decimal_pkg \<Rightarrow> LedgerService \<Rightarrow> int \<Rightarrow> 'd HoldParams \<Rightarrow> Ledger \<Rightarrow> Ledger \<times> (ledger_error + 'd JournalEntry \<times> bool)" where
  "Release D s newID p = post_entry D s newID (releaseEntry D p)"

definition creditEntry :: "'d decimal_pkg \<Rightarrow> LedgerService \<Rightarrow> 'd CreditParams \<Rightarrow> ledger_error + 'd Entry" where
  "creditEntry D s p =
     (if \<not> Amount_IsPositive D (cp_Amount p) then Inl ErrInvalidEntry
      else case HouseAccount s (cp_Source p) of
             Inl e \<Rightarrow> Inl e
           | Inr src \<Rightarrow>
               Inr \<lparr>en_IdempotencyKey = cp_IdempotencyKey p, en_Kind = (if cp_Kind p = [] then KindCredit else cp_Kind p),
                    en_RefType = ref_Type (cp_Ref p), en_RefID = ref_ID (cp_Ref p), en_Reason = cp_Reason p,
                    en_CorrelationID = cp_CorrelationID p,
                    en_Postings = [posting src (cp_Asset p) BucketHouse Debit (cp_Amount p),
                                   posting (cp_AccountID p) (cp_Asset p) BucketAvailable Credit (cp_Amount p)]\<rparr>)"

definition Service_Credit :: "'d decimal_pkg \<Rightarrow> LedgerService \<Rightarrow> int \<Rightarrow> 'd CreditParams \<Rightarrow> Ledger \<Rightarrow> Ledger \<times> (ledger_error + 'd JournalEntry \<times> bool)" where
  "Service_Credit D s newID p = post_entry D s newID (creditEntry D s p)"

definition adjustEntry :: "'d decimal_pkg \<Rightarrow> LedgerService \<Rightarrow> 'd AdjustParams \<Rightarrow> ledger_error + 'd Entry" where
  "adjustEntry D s p =
     (if ap_Reason p = [] then Inl ErrReasonRequired
      else if \<not> Amount_IsPositive D (ap_Amount p) then Inl ErrInvalidEntry
      else case HouseAccount s HouseExternal of
             Inl e \<Rightarrow> Inl e
           | Inr ext \<Rightarrow>
               (let mk = (\<lambda>ps. Inr \<lparr>en_IdempotencyKey = ap_IdempotencyKey p, en_Kind = KindAdjustment, en_RefType = ''adjustment'',
                            en_RefID = ap_IdempotencyKey p, en_Reason = ap_Reason p, en_CorrelationID = ap_CorrelationID p,
                            en_Postings = ps\<rparr>)
                in case ap_Direction p of
                     Credit \<Rightarrow> mk [posting ext (ap_Asset p) BucketHouse Debit (ap_Amount p),
                                   posting (ap_AccountID p) (ap_Asset p) BucketAvailable Credit (ap_Amount p)]
                   | Debit \<Rightarrow> mk [posting (ap_AccountID p) (ap_Asset p) BucketAvailable Debit (ap_Amount p),
                                  posting ext (ap_Asset p) BucketHouse Credit (ap_Amount p)]
                   | _ \<Rightarrow> Inl ErrInvalidEntry))"

definition Adjust :: "'d decimal_pkg \<Rightarrow> LedgerService \<Rightarrow> int \<Rightarrow> 'd AdjustParams \<Rightarrow> Ledger \<Rightarrow> Ledger \<times> (ledger_error + 'd JournalEntry \<times> bool)" where
  "Adjust D s newID p = post_entry D s newID (adjustEntry D s p)"

definition houseAdjustEntry :: "'d decimal_pkg \<Rightarrow> LedgerService \<Rightarrow> 'd HouseAdjustParams \<Rightarrow> ledger_error + 'd Entry" where
  "houseAdjustEntry D s p =
     (if hap_Code p \<noteq> HouseCustodyHot \<and> hap_Code p \<noteq> HouseCustodyDepositAddresses then Inl ErrInvalidEntry
      else if hap_Reason p = [] then Inl ErrReasonRequired
      else if \<not> Amount_IsPositive D (hap_Amount p) then Inl ErrInvalidEntry
      else case HouseAccount s (hap_Code p) of
             Inl e \<Rightarrow> Inl e
           | Inr custody \<Rightarrow>
               (case HouseAccount s HouseExternal of
                  Inl e \<Rightarrow> Inl e
                | Inr ext \<Rightarrow>
                    (let mk = (\<lambda>ps. Inr \<lparr>en_IdempotencyKey = hap_IdempotencyKey p, en_Kind = KindAdjustment,
                                 en_RefType = ''house_adjustment'', en_RefID = hap_IdempotencyKey p, en_Reason = hap_Reason p,
                                 en_CorrelationID = hap_CorrelationID p, en_Postings = ps\<rparr>)
                     in case hap_Direction p of
                          Credit \<Rightarrow> mk [posting custody (hap_Asset p) BucketHouse Debit (hap_Amount p),
                                        posting ext (hap_Asset p) BucketHouse Credit (hap_Amount p)]
                        | Debit \<Rightarrow> mk [posting ext (hap_Asset p) BucketHouse Debit (hap_Amount p),
                                       posting custody (hap_Asset p) BucketHouse Credit (hap_Amount p)]
                        | _ \<Rightarrow> Inl ErrInvalidEntry)))"

definition AdjustHouse :: "'d decimal_pkg \<Rightarrow> LedgerService \<Rightarrow> int \<Rightarrow> 'd HouseAdjustParams \<Rightarrow> Ledger \<Rightarrow> Ledger \<times> (ledger_error + 'd JournalEntry \<times> bool)" where
  "AdjustHouse D s newID p = post_entry D s newID (houseAdjustEntry D s p)"

definition settleEntry :: "'d decimal_pkg \<Rightarrow> LedgerService \<Rightarrow> 'd SettleParams \<Rightarrow> ledger_error + 'd Entry \<times> 'd SettleResult" where
  "settleEntry D s p =
     (case HouseAccount s HouseFeeRevenue of
        Inl e \<Rightarrow> Inl e
      | Inr feeRevenue \<Rightarrow> BuildSettleEntry D p feeRevenue)"

definition Settle :: "'d decimal_pkg \<Rightarrow> LedgerService \<Rightarrow> int \<Rightarrow> 'd SettleParams \<Rightarrow> Ledger \<Rightarrow>
    Ledger \<times> (ledger_error + ('d JournalEntry \<times> 'd SettleResult) \<times> bool)" where
  "Settle D s newID p L =
     (case settleEntry D s p of
        Inl e \<Rightarrow> (L, Inl e)
      | Inr (entry, res) \<Rightarrow>
          (case Post D s newID entry L of
             (L1, Inl e) \<Rightarrow> (L1, Inl e)
           | (L1, Inr (je, replayed)) \<Rightarrow> (L1, Inr ((je, res), replayed))))"

end
