(* ===== verification/Ledger_Reads.thy ===== *)
theory Ledger_Reads
  imports Ledger_Service
begin

text \<open>
  \<^verbatim>\<open>internal/ledger/reads.go\<close>, breaks.go and the pure part of metrics.go: balances as cached and
  as derived from the postings, entries, the trial balance, the house balances, the ledger's check
  of itself (\<^verbatim>\<open>ReconcileBreaks\<close>), and the fees an entry adds to the counters.
\<close>

section \<open>Balances\<close>

definition balanceFromRow :: "'d decimal_pkg \<Rightarrow> BalanceRow \<Rightarrow> ledger_error + 'd Balance" where
  "balanceFromRow D r =
     (case AmountFromNumeric D (column (br_Available r)) of
        Inl e \<Rightarrow> Inl (errNumeric e)
      | Inr available \<Rightarrow>
          (case AmountFromNumeric D (column (br_Hold r)) of
             Inl e \<Rightarrow> Inl (errNumeric e)
           | Inr hold \<Rightarrow>
               Inr \<lparr>bal_AccountID = br_AccountID r, bal_Asset = br_Asset r, bal_Available = available,
                    bal_Hold = hold, bal_Version = br_Version r\<rparr>))"

definition Service_Balances :: "'d decimal_pkg \<Rightarrow> LedgerService \<Rightarrow> Ledger \<Rightarrow> string \<Rightarrow> ledger_error + 'd Balance list" where
  "Service_Balances D s L acct =
     (case Service_Account s L acct of
        Inl e \<Rightarrow> Inl e
      | Inr _ \<Rightarrow> all_ok (balanceFromRow D) (GetBalances L acct))"

definition Service_Balance :: "'d decimal_pkg \<Rightarrow> Ledger \<Rightarrow> string \<Rightarrow> string \<Rightarrow> ledger_error + 'd Balance" where
  "Service_Balance D L acct asset =
     (case GetBalance L acct asset of
        None \<Rightarrow> Inr \<lparr>bal_AccountID = acct, bal_Asset = asset, bal_Available = Zero D, bal_Hold = Zero D, bal_Version = 0\<rparr>
      | Some r \<Rightarrow> balanceFromRow D r)"

text \<open>The loop over the sums: a map by asset and the assets in the order they are met.\<close>

fun derive_balances :: "'d decimal_pkg \<Rightarrow> string \<Rightarrow> (string \<times> Bucket \<times> int) list \<Rightarrow> (string, 'd Balance) mapping \<Rightarrow> string list \<Rightarrow>
    ledger_error + (string, 'd Balance) mapping \<times> string list" where
  "derive_balances D acct [] m order = Inr (m, order)"
| "derive_balances D acct ((a, bucket, u) # rows) m order =
     (case AmountFromNumeric D (column u) of
        Inl e \<Rightarrow> Inl (errNumeric e)
      | Inr v \<Rightarrow>
          (let (b, order1) =
             (case Mapping.lookup m a of
                None \<Rightarrow> (\<lparr>bal_AccountID = acct, bal_Asset = a, bal_Available = Zero D, bal_Hold = Zero D, bal_Version = 0\<rparr>, order @ [a])
              | Some b \<Rightarrow> (b, order));
               b1 = (case bucket of BucketAvailable \<Rightarrow> b\<lparr>bal_Available := v\<rparr> | BucketHold \<Rightarrow> b\<lparr>bal_Hold := v\<rparr> | _ \<Rightarrow> b)
           in derive_balances D acct rows (Mapping.update a b1 m) order1))"

definition DerivedBalances :: "'d decimal_pkg \<Rightarrow> Ledger \<Rightarrow> string \<Rightarrow> ledger_error + 'd Balance list" where
  "DerivedBalances D L acct =
     (case AccountBucketSums L acct of
        Inl _ \<Rightarrow> Inl errStore
      | Inr rows \<Rightarrow>
          (case derive_balances D acct rows Mapping.empty [] of
             Inl e \<Rightarrow> Inl e
           | Inr (m, order) \<Rightarrow> Inr (List.map_filter (Mapping.lookup m) order)))"

section \<open>Entries\<close>

definition Service_Entry :: "'d decimal_pkg \<Rightarrow> LedgerService \<Rightarrow> Ledger \<Rightarrow> int \<Rightarrow> ledger_error + 'd JournalEntry" where
  "Service_Entry D s L i =
     (case GetJournalEntry L i of
        None \<Rightarrow> Inl ErrNotFound
      | Some r \<Rightarrow> (if er_TenantID r \<noteq> sv_tenant s then Inl ErrNotFound else withPostings D L r))"

definition EntryByKey :: "'d decimal_pkg \<Rightarrow> LedgerService \<Rightarrow> Ledger \<Rightarrow> string \<Rightarrow> ledger_error + 'd JournalEntry" where
  "EntryByKey D s L key = entryByKey D s L key"

record EntriesFilter =
  ef_AccountID :: string
  ef_RefType :: string
  ef_RefID :: string
  ef_Limit :: int
  ef_Offset :: int

definition Entries :: "'d decimal_pkg \<Rightarrow> LedgerService \<Rightarrow> Ledger \<Rightarrow> EntriesFilter \<Rightarrow> ledger_error + 'd JournalEntry list" where
  "Entries D s L f =
     (let limit = (if ef_Limit f \<le> 0 \<or> ef_Limit f > 500 then 100 else ef_Limit f)
      in if ef_Offset f < 0 then Inl errStore
         else all_ok (withPostings D L)
           (if ef_AccountID f \<noteq> []
            then ListEntriesByAccount L (sv_tenant s) (ef_AccountID f) (nat limit) (nat (ef_Offset f))
            else ListEntries L (sv_tenant s) (ef_RefType f) (ef_RefID f) (nat limit) (nat (ef_Offset f))))"

section \<open>Trial balance and house balances\<close>

definition trial_amounts :: "'d decimal_pkg \<Rightarrow> string \<times> int \<times> int \<Rightarrow> ledger_error + 'd TrialBalanceLine" where
  "trial_amounts D r =
     (case r of (a, d, c) \<Rightarrow>
        (case AmountFromNumeric D (column d) of
           Inl e \<Rightarrow> Inl (errNumeric e)
         | Inr debits \<Rightarrow>
             (case AmountFromNumeric D (column c) of
                Inl e \<Rightarrow> Inl (errNumeric e)
              | Inr credits \<Rightarrow>
                  Inr \<lparr>tb_Asset = a, tb_Debits = debits, tb_Credits = credits, tb_Diff = Amount_Sub D debits credits\<rparr>)))"

definition TrialBalance :: "'d decimal_pkg \<Rightarrow> LedgerService \<Rightarrow> Ledger \<Rightarrow> ledger_error + 'd TrialBalanceLine list" where
  "TrialBalance D s L =
     (case TrialBalance_rows L (sv_tenant s) of
        Inl _ \<Rightarrow> Inl errStore
      | Inr rows \<Rightarrow> all_ok (trial_amounts D) rows)"

definition house_amounts :: "'d decimal_pkg \<Rightarrow> HouseCode \<times> string \<times> int \<Rightarrow> ledger_error + 'd HouseBalance" where
  "house_amounts D r =
     (case r of (code, a, u) \<Rightarrow>
        (case AmountFromNumeric D (column u) of
           Inl e \<Rightarrow> Inl (errNumeric e)
         | Inr dmc \<Rightarrow>
             Inr \<lparr>hb_Code = code, hb_Type = HouseCode_Type code, hb_Asset = a,
                  hb_Balance = (if DebitNormal (HouseCode_Type code) then dmc else Amount_Neg D dmc)\<rparr>))"

definition HouseBalances :: "'d decimal_pkg \<Rightarrow> LedgerService \<Rightarrow> Ledger \<Rightarrow> ledger_error + 'd HouseBalance list" where
  "HouseBalances D s L =
     (case HouseBalances_rows L (sv_tenant s) of
        Inl _ \<Rightarrow> Inl errStore
      | Inr rows \<Rightarrow> all_ok (house_amounts D) rows)"

section \<open>Breaks\<close>

record 'd Break =
  brk_ID :: string
  brk_Asset :: string
  brk_Debits :: "'d amount"
  brk_Credits :: "'d amount"
  brk_Diff :: "'d amount"
  brk_DetectedAt :: go_time
  brk_ResolvedAt :: "go_time option"

definition breakFromRow :: "'d decimal_pkg \<Rightarrow> BreakRow \<Rightarrow> ledger_error + 'd Break" where
  "breakFromRow D r =
     (case AmountFromNumeric D (column (kr_Debits r)) of
        Inl e \<Rightarrow> Inl (errNumeric e)
      | Inr debits \<Rightarrow>
          (case AmountFromNumeric D (column (kr_Credits r)) of
             Inl e \<Rightarrow> Inl (errNumeric e)
           | Inr credits \<Rightarrow>
               (case AmountFromNumeric D (column (kr_Diff r)) of
                  Inl e \<Rightarrow> Inl (errNumeric e)
                | Inr diff \<Rightarrow>
                    Inr \<lparr>brk_ID = kr_ID r, brk_Asset = kr_Asset r, brk_Debits = debits, brk_Credits = credits,
                         brk_Diff = diff, brk_DetectedAt = kr_DetectedAt r, brk_ResolvedAt = kr_ResolvedAt r\<rparr>)))"

text \<open>The assets out of balance, and the open breaks by asset.\<close>

definition out_of_balance :: "'d decimal_pkg \<Rightarrow> 'd TrialBalanceLine list \<Rightarrow> 'd TrialBalanceLine list" where
  "out_of_balance D = filter (\<lambda>l. \<not> Amount_IsZero D (tb_Diff l))"

fun open_map :: "'d Break list \<Rightarrow> (string, 'd Break) mapping \<Rightarrow> (string, 'd Break) mapping" where
  "open_map [] m = m"
| "open_map (b # bs) m = open_map bs (Mapping.update (brk_Asset b) b m)"

text \<open>The tables, the breaks opened and those resolved, and how the pass goes on.\<close>

type_synonym 'd pass = "Ledger \<times> (ledger_error + 'd Break list \<times> 'd Break list)"

definition resolve_break :: "go_time \<Rightarrow> 'd Break \<Rightarrow> Ledger \<Rightarrow> Ledger \<times> (ledger_error + 'd Break)" where
  "resolve_break now b L =
     (case ResolveLedgerBreak L (brk_ID b) now of
        (L1, Inl _) \<Rightarrow> (L1, Inl errStore)
      | (L1, Inr _) \<Rightarrow> (L1, Inr (b\<lparr>brk_ResolvedAt := Some now\<rparr>)))"

definition open_break :: "'d decimal_pkg \<Rightarrow> string \<Rightarrow> (string \<Rightarrow> string) \<Rightarrow> go_time \<Rightarrow> 'd TrialBalanceLine \<Rightarrow> Ledger \<Rightarrow>
    Ledger \<times> (ledger_error + 'd Break)" where
  "open_break D tenant newID now t L =
     (case InsertLedgerBreak L \<lparr>kr_ID = newID (tb_Asset t), kr_TenantID = tenant, kr_Asset = tb_Asset t,
             kr_Debits = sent_units D (tb_Debits t), kr_Credits = sent_units D (tb_Credits t),
             kr_Diff = sent_units D (tb_Diff t), kr_DetectedAt = now, kr_ResolvedAt = None\<rparr> of
        (L1, Inl _) \<Rightarrow> (L1, Inl errStore)
      | (L1, Inr row) \<Rightarrow> (L1, breakFromRow D row))"

text \<open>
  The loop over the assets out of balance. The code ranges over a map, in an order Go does not
  fix; the model takes the order of the assets' names, and the lemmas on the results speak of
  sets only.
\<close>

fun open_loop :: "'d decimal_pkg \<Rightarrow> string \<Rightarrow> (string \<Rightarrow> string) \<Rightarrow> go_time \<Rightarrow> (string, 'd Break) mapping \<Rightarrow>
    'd TrialBalanceLine list \<Rightarrow> 'd Break list \<times> 'd Break list \<Rightarrow> Ledger \<Rightarrow> 'd pass" where
  "open_loop D tenant newID now opn [] acc L = (L, Inr acc)"
| "open_loop D tenant newID now opn (t # ts) (opened, resolved) L =
     (case Mapping.lookup opn (tb_Asset t) of
        Some prev \<Rightarrow>
          (if Amount_Equal D (brk_Diff prev) (tb_Diff t) then open_loop D tenant newID now opn ts (opened, resolved) L
           else case resolve_break now prev L of
                  (L1, Inl e) \<Rightarrow> (L1, Inl e)
                | (L1, Inr r) \<Rightarrow>
                    (case open_break D tenant newID now t L1 of
                       (L2, Inl e) \<Rightarrow> (L2, Inl e)
                     | (L2, Inr b) \<Rightarrow> open_loop D tenant newID now opn ts (opened @ [b], resolved @ [r]) L2))
      | None \<Rightarrow>
          (case open_break D tenant newID now t L of
             (L2, Inl e) \<Rightarrow> (L2, Inl e)
           | (L2, Inr b) \<Rightarrow> open_loop D tenant newID now opn ts (opened @ [b], resolved) L2))"

text \<open>The loop over the open breaks: those of assets that balance again are resolved.\<close>

fun close_loop :: "go_time \<Rightarrow> string set \<Rightarrow> 'd Break list \<Rightarrow> 'd Break list \<times> 'd Break list \<Rightarrow> Ledger \<Rightarrow> 'd pass" where
  "close_loop now still [] acc L = (L, Inr acc)"
| "close_loop now still (prev # ps) (opened, resolved) L =
     (if brk_Asset prev \<in> still then close_loop now still ps (opened, resolved) L
      else case resolve_break now prev L of
             (L1, Inl e) \<Rightarrow> (L1, Inl e)
           | (L1, Inr r) \<Rightarrow> close_loop now still ps (opened, resolved @ [r]) L1)"

definition ReconcileBreaks :: "'d decimal_pkg \<Rightarrow> LedgerService \<Rightarrow> (string \<Rightarrow> string) \<Rightarrow> go_time \<Rightarrow> Ledger \<Rightarrow> 'd pass" where
  "ReconcileBreaks D s newID now L =
     (case TrialBalance D s L of
        Inl e \<Rightarrow> (L, Inl e)
      | Inr lines \<Rightarrow>
          (let out = out_of_balance D lines
           in case all_ok (breakFromRow D) (ListOpenLedgerBreaks L (sv_tenant s)) of
                Inl e \<Rightarrow> (L, Inl e)
              | Inr opn \<Rightarrow>
                  (let m = open_map opn Mapping.empty
                   in case open_loop D (sv_tenant s) newID now m out ([], []) L of
                        (L1, Inl e) \<Rightarrow> (L1, Inl e)
                      | (L1, Inr acc) \<Rightarrow>
                          close_loop now (set (map tb_Asset out)) (List.map_filter (Mapping.lookup m) (Mapping.ordered_keys m))
                            acc L1)))"

definition OpenBreaks :: "LedgerService \<Rightarrow> Ledger \<Rightarrow> int" where
  "OpenBreaks s L = CountOpenLedgerBreaks L (sv_tenant s)"

definition Service_Breaks :: "'d decimal_pkg \<Rightarrow> LedgerService \<Rightarrow> Ledger \<Rightarrow> int \<Rightarrow> int \<Rightarrow> ledger_error + 'd Break list" where
  "Service_Breaks D s L limit offset =
     (let n = (if limit \<le> 0 \<or> limit > 500 then 100 else limit)
      in if offset < 0 then Inl errStore
         else all_ok (breakFromRow D) (ListLedgerBreaks L (sv_tenant s) (nat n) (nat offset)))"

text \<open>The gauge of \<^verbatim>\<open>ObserveTrialBalance\<close>: per asset the sign of its difference.\<close>

definition trial_gauge :: "'d decimal_pkg \<Rightarrow> 'd TrialBalanceLine \<Rightarrow> string \<times> int" where
  "trial_gauge D l =
     (tb_Asset l, if Amount_IsZero D (tb_Diff l) then 0 else if Amount_IsNegative D (tb_Diff l) then - 1 else 1)"

definition ObserveTrialBalance :: "'d decimal_pkg \<Rightarrow> LedgerService \<Rightarrow> Ledger \<Rightarrow> ledger_error + (string \<times> int) list" where
  "ObserveTrialBalance D s L =
     (case TrialBalance D s L of Inl e \<Rightarrow> Inl e | Inr lines \<Rightarrow> Inr (map (trial_gauge D) lines))"

section \<open>Fee counters\<close>

definition feeSource :: "string \<Rightarrow> string" where
  "feeSource refType = (if refType = ''trade'' \<or> refType = ''withdrawal'' \<or> refType = ''deposit'' then refType else ''other'')"

fun houseCodeOf :: "AccountRow list \<Rightarrow> string \<Rightarrow> HouseCode" where
  "houseCodeOf [] i = HouseCode_other []"
| "houseCodeOf (r # rs) i =
     (if ar_ID r = i \<and> ar_HouseCode r \<noteq> None then the (ar_HouseCode r) else houseCodeOf rs i)"

datatype 'd observation = FeeRevenue string string "'d amount" | GasExpense string "'d amount"

text \<open>What an entry adds to the counters: the asset, the source, the amount.\<close>

fun observeFees :: "AccountRow list \<Rightarrow> string \<Rightarrow> 'd Posting list \<Rightarrow> 'd observation list" where
  "observeFees accounts source [] = []"
| "observeFees accounts source (p # ps) =
     (if po_Bucket p \<noteq> BucketHouse then observeFees accounts source ps
      else if houseCodeOf accounts (po_AccountID p) = HouseFeeRevenue \<and> po_Direction p = Credit
      then FeeRevenue (po_Asset p) source (po_Amount p) # observeFees accounts source ps
      else if houseCodeOf accounts (po_AccountID p) = HouseGasExpense \<and> po_Direction p = Debit
      then GasExpense (po_Asset p) (po_Amount p) # observeFees accounts source ps
      else observeFees accounts source ps)"

end
