(* ===== verification/Ledger_Inv.thy ===== *)
theory Ledger_Inv
  imports Ledger_Reads
begin

text \<open>
  The invariant of the ledger's tables: every entry balances, every posting belongs to an entry
  and to an account of its tenant whose kind matches the bucket, and the cached balances are the
  sums of the postings, not negative and in range. Then what the steps of a posting compute.
\<close>

section \<open>Sums of posting rows\<close>

definition usigned :: "PostingRow \<Rightarrow> int" where
  "usigned r = (if pr_Direction r = Debit then pr_Amount r else - pr_Amount r)"

definition unet :: "string \<Rightarrow> PostingRow list \<Rightarrow> int" where
  "unet a rows = (\<Sum>r\<leftarrow>rows. if pr_Asset r = a then usigned r else 0)"

definition ugain :: "string \<Rightarrow> string \<Rightarrow> Bucket \<Rightarrow> PostingRow list \<Rightarrow> int" where
  "ugain acct a b rows =
     (\<Sum>r\<leftarrow>rows. if pr_AccountID r = acct \<and> pr_Asset r = a \<and> pr_Bucket r = b then - usigned r else 0)"

lemma unet_simps [simp]:
  "unet a [] = 0" "unet a (r # rows) = (if pr_Asset r = a then usigned r else 0) + unet a rows"
  "unet a (rows @ rows') = unet a rows + unet a rows'"
  by (simp_all add: unet_def)

lemma ugain_simps [simp]:
  "ugain acct a b [] = 0"
  "ugain acct a b (r # rows) =
     (if pr_AccountID r = acct \<and> pr_Asset r = a \<and> pr_Bucket r = b then - usigned r else 0) + ugain acct a b rows"
  "ugain acct a b (rows @ rows') = ugain acct a b rows + ugain acct a b rows'"
  by (simp_all add: ugain_def)

lemma posting_row_simps [simp]:
  "pr_EntryID (posting_row D i p) = i" "pr_AccountID (posting_row D i p) = po_AccountID p"
  "pr_Asset (posting_row D i p) = po_Asset p" "pr_Bucket (posting_row D i p) = po_Bucket p"
  "pr_Direction (posting_row D i p) = po_Direction p" "pr_Amount (posting_row D i p) = sent_units D (po_Amount p)"
  by (simp_all add: posting_row_def)

section \<open>The invariant\<close>

definition posting_row_ok :: "Ledger \<Rightarrow> PostingRow \<Rightarrow> bool" where
  "posting_row_ok L p \<longleftrightarrow>
     (\<exists>e a. GetJournalEntry L (pr_EntryID p) = Some e \<and> GetAccount L (pr_AccountID p) = Some a \<and>
        ar_TenantID a = er_TenantID e \<and> (ar_Kind a = KindHouse \<longleftrightarrow> pr_Bucket p = BucketHouse)) \<and>
     0 < pr_Amount p \<and> in_range (pr_Amount p) \<and> pr_Bucket p \<in> {BucketAvailable, BucketHold, BucketHouse} \<and>
     pr_Direction p \<in> {Debit, Credit}"

definition balance_ok :: "Ledger \<Rightarrow> balanceKey \<Rightarrow> bool" where
  "balance_ok L k \<longleftrightarrow>
     (let r = balance_row L k
      in br_AccountID r = key_account k \<and> br_Asset r = key_asset k \<and>
         br_Available r = ugain (key_account k) (key_asset k) BucketAvailable (lg_postings L) \<and>
         br_Hold r = ugain (key_account k) (key_asset k) BucketHold (lg_postings L) \<and>
         0 \<le> br_Available r \<and> 0 \<le> br_Hold r \<and> in_range (br_Available r) \<and> in_range (br_Hold r) \<and>
         (k \<in> Mapping.keys (lg_balances L) \<longrightarrow> account_exists L (key_account k)))"

definition ledger_ok :: "Ledger \<Rightarrow> bool" where
  "ledger_ok L \<longleftrightarrow>
     distinct (map ar_ID (lg_accounts L)) \<and> distinct (map er_ID (lg_entries L)) \<and>
     distinct (map (\<lambda>r. (er_TenantID r, er_IdempotencyKey r)) (lg_entries L)) \<and>
     (\<forall>p \<in> set (lg_postings L). posting_row_ok L p) \<and>
     (\<forall>r \<in> set (lg_entries L). \<forall>a. unet a (ListPostingsByEntry L (er_ID r)) = 0) \<and>
     finite (Mapping.keys (lg_balances L)) \<and> (\<forall>k. balance_ok L k)"

text \<open>The empty tables.\<close>

definition empty_ledger :: Ledger where
  "empty_ledger = \<lparr>lg_accounts = [], lg_entries = [], lg_postings = [], lg_balances = Mapping.empty, lg_breaks = []\<rparr>"

lemma empty_ledger_ok: "ledger_ok empty_ledger"
  by (simp add: ledger_ok_def empty_ledger_def balance_ok_def balance_row_def in_range_def)

lemma find_distinct_SomeI:
  assumes "distinct (map f xs)" "x \<in> set xs"
  shows "find (\<lambda>y. f y = f x) xs = Some x"
  using assms by (induction xs) (auto simp: image_iff)

lemma find_SomeD: "find P xs = Some x \<Longrightarrow> x \<in> set xs \<and> P x"
  by (induction xs) (auto split: if_splits)

lemma find_cong': "(\<And>x. P x \<longleftrightarrow> Q x) \<Longrightarrow> find P xs = find Q xs"
  by (induction xs) auto

lemma ledger_okD:
  assumes "ledger_ok L"
  shows "distinct (map ar_ID (lg_accounts L))" "distinct (map er_ID (lg_entries L))"
    "distinct (map (\<lambda>r. (er_TenantID r, er_IdempotencyKey r)) (lg_entries L))"
    "p \<in> set (lg_postings L) \<Longrightarrow> posting_row_ok L p"
    "r \<in> set (lg_entries L) \<Longrightarrow> unet a (ListPostingsByEntry L (er_ID r)) = 0"
    "finite (Mapping.keys (lg_balances L))" "balance_ok L k"
  using assms unfolding ledger_ok_def by blast+

text \<open>What the statements of the first batch change: balance rows that read the same.\<close>

lemma balance_row_update_same:
  "balance_row (L\<lparr>lg_balances := Mapping.update k (balance_row L k) (lg_balances L)\<rparr>) k' = balance_row L k'"
  by (cases "k = k'") (simp_all add: balance_row_def Mapping.lookup_update')

lemma account_exists_simps [simp]:
  "GetAccount (L\<lparr>lg_balances := m\<rparr>) i = GetAccount L i" "GetAccount (L\<lparr>lg_entries := es\<rparr>) i = GetAccount L i"
  "GetAccount (L\<lparr>lg_postings := ps\<rparr>) i = GetAccount L i" "GetAccount (L\<lparr>lg_breaks := bs\<rparr>) i = GetAccount L i"
  "account_exists (L\<lparr>lg_balances := m\<rparr>) i = account_exists L i"
  "account_exists (L\<lparr>lg_entries := es\<rparr>) i = account_exists L i"
  "account_exists (L\<lparr>lg_postings := ps\<rparr>) i = account_exists L i"
  "account_exists (L\<lparr>lg_breaks := bs\<rparr>) i = account_exists L i"
  "GetAccounts (L\<lparr>lg_balances := m\<rparr>) = GetAccounts L" "GetAccounts (L\<lparr>lg_entries := es\<rparr>) = GetAccounts L"
proof -
  have eq: "GetAccount (L\<lparr>lg_balances := m\<rparr>) = GetAccount L" "GetAccount (L\<lparr>lg_entries := es\<rparr>) = GetAccount L"
    by (simp_all add: GetAccount_def fun_eq_iff)
  show "GetAccounts (L\<lparr>lg_balances := m\<rparr>) = GetAccounts L" "GetAccounts (L\<lparr>lg_entries := es\<rparr>) = GetAccounts L"
    unfolding GetAccounts_def eq by (rule refl)+
qed (simp_all add: GetAccount_def account_exists_def)

lemma LockBalances_spec:
  assumes "LockBalances L ks = (L1, rows)"
  shows "\<exists>m. L1 = L\<lparr>lg_balances := m\<rparr> \<and> (\<forall>k. balance_row L1 k = balance_row L k) \<and>
    Mapping.keys m = Mapping.keys (lg_balances L) \<union> {k \<in> set ks. account_exists L (key_account k)} \<and>
    rows = map (balance_row L) (filter (\<lambda>k. account_exists L (key_account k)) ks)"
  using assms
proof (induction L ks arbitrary: L1 rows rule: LockBalances.induct)
  case (1 L)
  then show ?case by (auto intro: exI [of _ "lg_balances L1"])
next
  case (2 L k ks)
  show ?case
  proof (cases "account_exists L (key_account k)")
    case True
    let ?L = "L\<lparr>lg_balances := Mapping.update k (balance_row L k) (lg_balances L)\<rparr>"
    obtain L2 rows2 where r: "LockBalances ?L ks = (L2, rows2)" by fastforce
    from "2.IH"(1) [OF True r] obtain m where m: "L2 = ?L\<lparr>lg_balances := m\<rparr>"
      "\<forall>k. balance_row L2 k = balance_row ?L k"
      "Mapping.keys m = Mapping.keys (lg_balances ?L) \<union> {k \<in> set ks. account_exists ?L (key_account k)}"
      "rows2 = map (balance_row ?L) (filter (\<lambda>k. account_exists ?L (key_account k)) ks)" by blast
    have eq: "balance_row ?L = balance_row L" by (rule ext) (rule balance_row_update_same)
    from "2.prems" True r have L1: "L1 = L2" "rows = balance_row L k # rows2" by auto
    show ?thesis
      unfolding L1 by (rule exI [of _ m]) (use m True eq in auto)
  next
    case False
    with 2 show ?thesis by auto
  qed
qed

lemma ledger_ok_lock:
  assumes "ledger_ok L" and "LockBalances L ks = (L1, rows)"
  shows "ledger_ok L1"
proof -
  from LockBalances_spec [OF assms(2)] obtain m where m: "L1 = L\<lparr>lg_balances := m\<rparr>"
    "\<forall>k. balance_row L1 k = balance_row L k"
    "Mapping.keys m = Mapping.keys (lg_balances L) \<union> {k \<in> set ks. account_exists L (key_account k)}" by blast
  have "finite (Mapping.keys m)" unfolding m(3) using ledger_okD(6) [OF assms(1)] by simp
  moreover have "balance_ok L1 k" for k
    using ledger_okD(7) [OF assms(1), of k] m(2) m(3) unfolding balance_ok_def m(1) by (auto simp: Let_def)
  ultimately show ?thesis
    using assms(1) unfolding ledger_ok_def m(1)
    by (auto simp: posting_row_ok_def GetJournalEntry_def ListPostingsByEntry_def)
qed

lemma index_rows_lookup:
  assumes "\<forall>r \<in> set rows. BalanceKey (br_AccountID r) (br_Asset r) = k \<longrightarrow> r = x"
    and "(\<exists>r \<in> set rows. BalanceKey (br_AccountID r) (br_Asset r) = k) \<or> Mapping.lookup m k = Some x"
  shows "Mapping.lookup (index_rows rows m) k = Some x"
  using assms by (induction rows arbitrary: m) (auto simp: Mapping.lookup_update')

lemma index_balance_rows:
  assumes "\<forall>k \<in> set ks. br_AccountID (f k) = key_account k \<and> br_Asset (f k) = key_asset k" and "k \<in> set ks"
  shows "Mapping.lookup (index_rows (map f ks) Mapping.empty) k = Some (f k)"
proof (rule index_rows_lookup)
  show "\<forall>r \<in> set (map f ks). BalanceKey (br_AccountID r) (br_Asset r) = k \<longrightarrow> r = f k"
    using assms by (auto simp: balanceKey.expand)
  show "(\<exists>r \<in> set (map f ks). BalanceKey (br_AccountID r) (br_Asset r) = k) \<or> Mapping.lookup Mapping.empty k = Some (f k)"
    using assms by auto
qed

lemma first_error_None: "first_error f xs = None \<longleftrightarrow> (\<forall>x \<in> set xs. f x = None)"
  by (induction xs) (auto split: option.splits)

lemma first_error_Some: "first_error f xs = Some e \<Longrightarrow> \<exists>x \<in> set xs. f x = Some e"
  by (induction xs) (auto split: option.splits)

lemma all_ok_iff: "all_ok f xs = Inr ys \<longleftrightarrow> list_all2 (\<lambda>x y. f x = Inr y) xs ys"
proof (induction xs arbitrary: ys)
  case (Cons x xs)
  show ?case
  proof (cases ys)
    case Nil
    then show ?thesis by (auto split: sum.split)
  next
    case (Cons z zs)
    with Cons.IH [of zs] show ?thesis by (auto split: sum.split)
  qed
qed auto

lemma all_ok_total: "(\<forall>x \<in> set xs. \<exists>y. f x = Inr y \<and> P x y) \<Longrightarrow> \<exists>ys. all_ok f xs = Inr ys \<and> list_all2 P xs ys"
proof (induction xs)
  case (Cons x xs)
  then obtain y ys where "f x = Inr y" "P x y" "all_ok f xs = Inr ys" "list_all2 P xs ys" by auto
  then show ?case by simp
qed simp

section \<open>The deltas of an entry\<close>

lemma add_deltas_keys_finite: "finite (Mapping.keys m) \<Longrightarrow> finite (Mapping.keys (add_deltas D ps m))"
  by (induction D ps m rule: add_deltas.induct) (auto simp: Let_def)

context decimal
begin

text \<open>A delta as two numbers; a key without a delta has none.\<close>

definition delta_vals :: "(balanceKey, 'd balanceDelta) mapping \<Rightarrow> balanceKey \<Rightarrow> rat \<times> rat" where
  "delta_vals m k = (case Mapping.lookup m k of None \<Rightarrow> (0, 0) | Some d \<Rightarrow> (V (bd_available d), V (bd_hold d)))"

lemma add_deltas_spec:
  assumes "\<forall>p \<in> set ps. posting_ok p"
  shows "delta_vals (add_deltas D ps m) k =
      (fst (delta_vals m k) + gain val (key_account k) (key_asset k) BucketAvailable ps,
       snd (delta_vals m k) + gain val (key_account k) (key_asset k) BucketHold ps) \<and>
    Mapping.keys (add_deltas D ps m) = Mapping.keys m \<union>
      {BalanceKey (po_AccountID p) (po_Asset p) | p. p \<in> set ps \<and> po_Bucket p \<noteq> BucketHouse}"
  using assms
proof (induction ps arbitrary: m)
  case Nil
  then show ?case by simp
next
  case (Cons p ps)
  then have IH: "\<And>m. delta_vals (add_deltas D ps m) k =
      (fst (delta_vals m k) + gain val (key_account k) (key_asset k) BucketAvailable ps,
       snd (delta_vals m k) + gain val (key_account k) (key_asset k) BucketHold ps) \<and>
    Mapping.keys (add_deltas D ps m) = Mapping.keys m \<union>
      {BalanceKey (po_AccountID p) (po_Asset p) | p. p \<in> set ps \<and> po_Bucket p \<noteq> BucketHouse}" by simp
  have b: "po_Bucket p \<in> {BucketAvailable, BucketHold, BucketHouse}" using Cons.prems by (simp add: posting_ok_def)
  let ?k = "BalanceKey (po_AccountID p) (po_Asset p)"
  have eq: "?k = k \<longleftrightarrow> po_AccountID p = key_account k \<and> po_Asset p = key_asset k" by (cases k) auto
  show ?case
  proof (cases "po_Bucket p = BucketHouse")
    case True
    with IH [of m] show ?thesis by auto
  next
    case False
    define d where "d = (case Mapping.lookup m ?k of None \<Rightarrow> \<lparr>bd_available = Zero D, bd_hold = Zero D\<rparr> | Some d \<Rightarrow> d)"
    define amt where "amt = (if po_Direction p = Debit then Amount_Neg D (po_Amount p) else po_Amount p)"
    define d1 where "d1 = (if po_Bucket p = BucketAvailable then d\<lparr>bd_available := Amount_Add D (bd_available d) amt\<rparr>
                  else d\<lparr>bd_hold := Amount_Add D (bd_hold d) amt\<rparr>)"
    have step: "add_deltas D (p # ps) m = add_deltas D ps (Mapping.update ?k d1 m)"
      using False by (simp add: d1_def d_def amt_def Let_def)
    have d: "delta_vals m ?k = (V (bd_available d), V (bd_hold d))"
      by (simp add: delta_vals_def d_def split: option.split)
    have amt: "V amt = - signed val p" by (simp add: amt_def signed_def)
    have "delta_vals (Mapping.update ?k d1 m) k =
        (fst (delta_vals m k) + (if ?k = k \<and> po_Bucket p = BucketAvailable then - signed val p else 0),
         snd (delta_vals m k) + (if ?k = k \<and> po_Bucket p = BucketHold then - signed val p else 0))"
    proof (cases "?k = k")
      case True
      then have "delta_vals (Mapping.update ?k d1 m) k = (V (bd_available d1), V (bd_hold d1))"
        by (simp add: delta_vals_def Mapping.lookup_update')
      with True d b False amt show ?thesis by (auto simp: d1_def)
    next
      case False
      then show ?thesis by (simp add: delta_vals_def Mapping.lookup_update')
    qed
    with IH [of "Mapping.update ?k d1 m"] False show ?thesis unfolding step by (auto simp: eq)
  qed
qed

lemma aggregateDeltas_spec:
  assumes "\<forall>p \<in> set ps. posting_ok p" and "aggregateDeltas D ps = (m, keys)"
  shows "distinct keys" "sorted keys" "set keys = Mapping.keys m"
    "set keys = {BalanceKey (po_AccountID p) (po_Asset p) | p. p \<in> set ps \<and> po_Bucket p \<noteq> BucketHouse}"
    "delta_vals m k = (gain val (key_account k) (key_asset k) BucketAvailable ps, gain val (key_account k) (key_asset k) BucketHold ps)"
proof -
  from assms(2) have m: "m = add_deltas D ps Mapping.empty" "keys = Mapping.ordered_keys m"
    by (auto simp: aggregateDeltas_def Let_def)
  have fin: "finite (Mapping.keys m)" unfolding m by (rule add_deltas_keys_finite) simp
  show "distinct keys" "sorted keys" unfolding m by simp_all
  show keys: "set keys = Mapping.keys m" using fin unfolding m(2) by simp
  show "set keys = {BalanceKey (po_AccountID p) (po_Asset p) | p. p \<in> set ps \<and> po_Bucket p \<noteq> BucketHouse}"
    unfolding keys unfolding m(1) using add_deltas_spec [OF assms(1), of Mapping.empty undefined] by simp
  have "delta_vals Mapping.empty k = (0, 0)" by (simp add: delta_vals_def)
  then show "delta_vals m k = (gain val (key_account k) (key_asset k) BucketAvailable ps, gain val (key_account k) (key_asset k) BucketHold ps)"
    unfolding m(1) using add_deltas_spec [OF assms(1), of Mapping.empty k] by simp
qed

text \<open>The rows of the postings in units.\<close>

lemma posting_ok_fits: "posting_ok p \<Longrightarrow> fits 18 (V (po_Amount p))"
  by (auto simp: posting_ok_def Validate_iff MaxScale_def)

lemma fits_signed: "posting_ok p \<Longrightarrow> fits 18 (signed val p)"
  using posting_ok_fits [of p] by (auto simp: signed_def)

lemma usigned_row: "posting_ok p \<Longrightarrow> unit_val (usigned (posting_row D i p)) = signed val p"
  using sent_units [OF posting_ok_fits, of p] by (auto simp: usigned_def signed_def posting_row_def)

lemma ugain_rows:
  "\<forall>p \<in> set ps. posting_ok p \<Longrightarrow> unit_val (ugain acct a b (map (posting_row D i) ps)) = gain val acct a b ps"
proof (induction ps)
  case (Cons p ps)
  then show ?case using usigned_row [of p i] by simp
qed simp

lemma unet_rows:
  "\<forall>p \<in> set ps. posting_ok p \<Longrightarrow> unit_val (unet a (map (posting_row D i) ps)) = net val a ps"
proof (induction ps)
  case (Cons p ps)
  then show ?case using usigned_row [of p i] by simp
qed simp

lemma fits_gain: "\<forall>p \<in> set ps. posting_ok p \<Longrightarrow> fits 18 (gain val acct a b ps)"
  by (induction ps) (auto intro: fits_signed)

end

end
