(* ===== verification/Ledger_Post.thy ===== *)
theory Ledger_Post
  imports Ledger_Inv
begin

text \<open>
  What posting an entry does to the tables: a complete case analysis of \<^verbatim>\<open>Post\<close> under the
  invariant, with the error of every refusal and the exact effect of a success.
\<close>

section \<open>The first batch\<close>

lemma balance_okD:
  assumes "balance_ok L k"
  shows "br_AccountID (balance_row L k) = key_account k" "br_Asset (balance_row L k) = key_asset k"
    "br_Available (balance_row L k) = ugain (key_account k) (key_asset k) BucketAvailable (lg_postings L)"
    "br_Hold (balance_row L k) = ugain (key_account k) (key_asset k) BucketHold (lg_postings L)"
    "0 \<le> br_Available (balance_row L k)" "0 \<le> br_Hold (balance_row L k)"
    "in_range (br_Available (balance_row L k))" "in_range (br_Hold (balance_row L k))"
    "k \<in> Mapping.keys (lg_balances L) \<Longrightarrow> account_exists L (key_account k)"
  using assms unfolding balance_ok_def Let_def by blast+

lemma GetAccount_ID: "GetAccount L i = Some r \<Longrightarrow> ar_ID r = i"
  by (auto simp: GetAccount_def dest: find_SomeD)

lemma GetAccounts_simps [simp]:
  "GetAccounts L [] = []"
  "GetAccounts L (i # ids) = (case GetAccount L i of None \<Rightarrow> GetAccounts L ids | Some r \<Rightarrow> r # GetAccounts L ids)"
  by (simp_all add: GetAccounts_def List.map_filter_simps split: option.split)

lemma account_kinds_lookup:
  "Mapping.lookup (account_kinds t (GetAccounts L ids) m) i =
     (case GetAccount L i of
        None \<Rightarrow> Mapping.lookup m i
      | Some r \<Rightarrow> (if i \<in> set ids \<and> ar_TenantID r = t then Some (ar_Kind r) else Mapping.lookup m i))"
proof (induction ids arbitrary: m)
  case Nil
  then show ?case by (simp split: option.split)
next
  case (Cons j ids)
  show ?case
  proof (cases "GetAccount L j")
    case None
    then show ?thesis using Cons.IH [of m] by (cases "i = j") (simp_all split: option.split)
  next
    case (Some r)
    from GetAccount_ID [OF this] have step: "account_kinds t (GetAccounts L (j # ids)) m =
        account_kinds t (GetAccounts L ids) (if ar_TenantID r = t then Mapping.update j (ar_Kind r) m else m)"
      using Some by simp
    show ?thesis
      unfolding step Cons.IH using Some
      by (cases "i = j") (simp_all add: Mapping.lookup_update' split: option.split)
  qed
qed

text \<open>The account of a posting exists in the tenant and its kind matches the bucket.\<close>

definition account_fits :: "LedgerService \<Rightarrow> Ledger \<Rightarrow> 'd Posting \<Rightarrow> bool" where
  "account_fits s L p \<longleftrightarrow>
     (case GetAccount L (po_AccountID p) of
        None \<Rightarrow> False
      | Some r \<Rightarrow> ar_TenantID r = sv_tenant s \<and> (ar_Kind r = KindHouse \<longleftrightarrow> po_Bucket p = BucketHouse))"

lemma check_kinds_None:
  "check_kinds kinds ps = None \<longleftrightarrow>
     (\<forall>p \<in> set ps. \<exists>k. Mapping.lookup kinds (po_AccountID p) = Some k \<and> (k = KindHouse \<longleftrightarrow> po_Bucket p = BucketHouse))"
  by (induction ps) (auto split: option.splits)

lemma check_kinds_error: "check_kinds kinds ps = Some e \<Longrightarrow> e = ErrAccountNotFound \<or> e = ErrAccountKind"
  by (induction ps) (auto split: option.splits if_splits)

lemma checkAccountKinds_iff:
  "checkAccountKinds s (GetAccounts L (accountIDs ps)) ps = None \<longleftrightarrow> (\<forall>p \<in> set ps. account_fits s L p)"
  unfolding checkAccountKinds_def check_kinds_None
  by (rule ball_cong) (auto simp: account_kinds_lookup account_fits_def accountIDs_def split: option.splits if_splits)

lemma checkAccountKinds_error:
  "checkAccountKinds s rows ps = Some e \<Longrightarrow> e = ErrAccountNotFound \<or> e = ErrAccountKind"
  unfolding checkAccountKinds_def by (rule check_kinds_error)

text \<open>Two states of the tables that answer every read alike.\<close>

definition same_reads :: "Ledger \<Rightarrow> Ledger \<Rightarrow> bool" where
  "same_reads L L1 \<longleftrightarrow> lg_accounts L1 = lg_accounts L \<and> lg_entries L1 = lg_entries L \<and> lg_postings L1 = lg_postings L \<and>
     lg_breaks L1 = lg_breaks L \<and> (\<forall>k. balance_row L1 k = balance_row L k)"

definition avail :: "Ledger \<Rightarrow> string \<Rightarrow> string \<Rightarrow> rat" where
  "avail L acct a = unit_val (br_Available (balance_row L (BalanceKey acct a)))"

definition held :: "Ledger \<Rightarrow> string \<Rightarrow> string \<Rightarrow> rat" where
  "held L acct a = unit_val (br_Hold (balance_row L (BalanceKey acct a)))"

text \<open>What an entry needs: the funds it takes, and room for those it adds.\<close>

definition funded_by :: "('d \<Rightarrow> rat) \<Rightarrow> Ledger \<Rightarrow> 'd Posting list \<Rightarrow> bool" where
  "funded_by val L ps \<longleftrightarrow>
     (\<forall>acct a. 0 \<le> avail L acct a + gain val acct a BucketAvailable ps \<and> 0 \<le> held L acct a + gain val acct a BucketHold ps)"

definition room_for :: "('d \<Rightarrow> rat) \<Rightarrow> Ledger \<Rightarrow> 'd Posting list \<Rightarrow> bool" where
  "room_for val L ps \<longleftrightarrow>
     (\<forall>acct a. avail L acct a + gain val acct a BucketAvailable ps < 10 ^ 18 \<and> held L acct a + gain val acct a BucketHold ps < 10 ^ 18)"

definition pending_of :: "'d decimal_pkg \<Rightarrow> 'd Entry \<Rightarrow> 'd PendingEntry" where
  "pending_of D e = (case aggregateDeltas D (en_Postings e) of (m, keys) \<Rightarrow> \<lparr>pe_e = e, pe_deltas = m, pe_keys = keys\<rparr>)"

text \<open>What posting an entry makes of the tables, and the journal entry that comes back.\<close>

definition posted_by :: "'d decimal_pkg \<Rightarrow> ('d \<Rightarrow> rat) \<Rightarrow> LedgerService \<Rightarrow> int \<Rightarrow> 'd Entry \<Rightarrow> Ledger \<Rightarrow> Ledger \<Rightarrow> bool" where
  "posted_by D val s i e L L2 \<longleftrightarrow> lg_accounts L2 = lg_accounts L \<and> lg_breaks L2 = lg_breaks L \<and>
     lg_entries L2 = lg_entries L @ [entry_row i (sv_tenant s) e] \<and>
     lg_postings L2 = lg_postings L @ map (posting_row D i) (en_Postings e) \<and>
     (\<forall>acct a. avail L2 acct a = avail L acct a + gain val acct a BucketAvailable (en_Postings e) \<and>
               held L2 acct a = held L acct a + gain val acct a BucketHold (en_Postings e))"

definition journal_by :: "'d decimal_pkg \<Rightarrow> ('d \<Rightarrow> rat) \<Rightarrow> LedgerService \<Rightarrow> int \<Rightarrow> 'd Entry \<Rightarrow> Ledger \<Rightarrow> 'd JournalEntry \<Rightarrow> bool" where
  "journal_by D val s i e L2 je \<longleftrightarrow> je_ID je = i \<and> je_TenantID je = sv_tenant s \<and> je_IdempotencyKey je = en_IdempotencyKey e \<and>
     je_Kind je = en_Kind e \<and> je_RefType je = en_RefType e \<and> je_RefID je = en_RefID e \<and> je_Reason je = en_Reason e \<and>
     je_CorrelationID je = en_CorrelationID e \<and> je_Postings je = en_Postings e \<and>
     list_all2 (\<lambda>k b. bal_AccountID b = key_account k \<and> bal_Asset b = key_asset k \<and>
       amt_val val (bal_Available b) = avail L2 (key_account k) (key_asset k) \<and>
       amt_val val (bal_Hold b) = held L2 (key_account k) (key_asset k))
       (pe_keys (pending_of D e)) (je_Balances je)"

lemma same_reads_lock:
  assumes "LockBalances L ks = (L1, rows)"
  shows "same_reads L L1"
  using LockBalances_spec [OF assms] by (auto simp: same_reads_def)

context decimal
begin

abbreviation funded :: "Ledger \<Rightarrow> 'd Posting list \<Rightarrow> bool" where
  "funded \<equiv> funded_by val"

abbreviation room :: "Ledger \<Rightarrow> 'd Posting list \<Rightarrow> bool" where
  "room \<equiv> room_for val"

abbreviation pending :: "'d Entry \<Rightarrow> 'd PendingEntry" where
  "pending \<equiv> pending_of D"

abbreviation posted :: "LedgerService \<Rightarrow> int \<Rightarrow> 'd Entry \<Rightarrow> Ledger \<Rightarrow> Ledger \<Rightarrow> bool" where
  "posted \<equiv> posted_by D val"

abbreviation journal_of :: "LedgerService \<Rightarrow> int \<Rightarrow> 'd Entry \<Rightarrow> Ledger \<Rightarrow> 'd JournalEntry \<Rightarrow> bool" where
  "journal_of \<equiv> journal_by D val"

lemmas funded_def = funded_by_def [where val = val]
lemmas room_def = room_for_def [where val = val]
lemmas pending_def = pending_of_def [of D]
lemmas posted_def = posted_by_def [of D val]
lemmas journal_of_def = journal_by_def [of D val]

text \<open>The entry found under a key can be read back.\<close>

lemma posting_from_row_ok:
  assumes "in_range (pr_Amount p)"
  shows "\<exists>q. posting_from_row D p = Inr q \<and> po_AccountID q = pr_AccountID p \<and> po_Asset q = pr_Asset p \<and>
    po_Bucket q = pr_Bucket p \<and> po_Direction q = pr_Direction p \<and> V (po_Amount q) = unit_val (pr_Amount p)"
  using AmountFromNumeric_column [OF assms] by (auto simp: posting_from_row_def)

lemma withPostings_ok:
  assumes "\<forall>p \<in> set (lg_postings L). posting_row_ok L p"
  shows "\<exists>ps. withPostings D L r = Inr ((journalFromRow r)\<lparr>je_Postings := ps\<rparr>) \<and>
    list_all2 (\<lambda>p q. po_AccountID q = pr_AccountID p \<and> po_Asset q = pr_Asset p \<and>
      po_Bucket q = pr_Bucket p \<and> po_Direction q = pr_Direction p \<and> V (po_Amount q) = unit_val (pr_Amount p))
     (ListPostingsByEntry L (er_ID r)) ps"
proof -
  have "\<forall>p \<in> set (ListPostingsByEntry L (er_ID r)). \<exists>q. posting_from_row D p = Inr q \<and>
    (po_AccountID q = pr_AccountID p \<and> po_Asset q = pr_Asset p \<and>
      po_Bucket q = pr_Bucket p \<and> po_Direction q = pr_Direction p \<and> V (po_Amount q) = unit_val (pr_Amount p))"
    using assms posting_from_row_ok by (auto simp: ListPostingsByEntry_def posting_row_ok_def)
  from all_ok_total [OF this] show ?thesis by (auto simp: withPostings_def)
qed

text \<open>The check of the funds of one key, and of all of them.\<close>

lemma check_key_iff:
  assumes "balance_ok L k" and "Mapping.lookup current k = Some (balance_row L k)"
  shows "check_key D pe current k =
    (if 0 \<le> avail L (key_account k) (key_asset k) + fst (delta_vals (pe_deltas pe) k) \<and>
        0 \<le> held L (key_account k) (key_asset k) + snd (delta_vals (pe_deltas pe) k) then None else Some ErrInsufficient)"
proof -
  let ?r = "balance_row L k"
  from assms(1) have r: "in_range (br_Available ?r)" "in_range (br_Hold ?r)" by (auto simp: balance_ok_def Let_def)
  obtain x y where "AmountFromNumeric D (column (br_Available ?r)) = Inr x" "V x = unit_val (br_Available ?r)"
    "AmountFromNumeric D (column (br_Hold ?r)) = Inr y" "V y = unit_val (br_Hold ?r)"
    using AmountFromNumeric_column r by blast
  moreover have "V (bd_available (delta_of D pe k)) = fst (delta_vals (pe_deltas pe) k)"
    "V (bd_hold (delta_of D pe k)) = snd (delta_vals (pe_deltas pe) k)"
    by (simp_all add: delta_of_def delta_vals_def split: option.split)
  ultimately show ?thesis
    using assms(2) by (simp add: check_key_def avail_def held_def Let_def not_le)
qed

text \<open>Applying the delta of one key.\<close>

lemma apply_delta_eq:
  assumes "fits 18 (V (bd_available d))" "fits 18 (V (bd_hold d))"
  shows "apply_delta D r d =
    (let a = br_Available r + sent_units D (bd_available d); h = br_Hold r + sent_units D (bd_hold d)
     in if \<not> in_range a \<or> \<not> in_range h then Inl OtherSqlError else if a < 0 \<or> h < 0 then Inl CheckViolation
        else Inr (r\<lparr>br_Available := a, br_Hold := h, br_Version := br_Version r + 1\<rparr>))"
  using assms by (simp add: apply_delta_def add_column_def add_sent)

end

lemma ApplyBalanceDeltas_ok:
  assumes "distinct ks" and "\<forall>k \<in> set ks. \<exists>r. Mapping.lookup bals k = Some r \<and> apply_delta D r (dl k) = Inr (g k)"
  shows "\<exists>bals'. ApplyBalanceDeltas D bals (map (\<lambda>k. (k, dl k)) ks) = Inr (bals', map g ks) \<and>
    Mapping.keys bals' = Mapping.keys bals \<and>
    (\<forall>k. Mapping.lookup bals' k = (if k \<in> set ks then Some (g k) else Mapping.lookup bals k))"
  using assms
proof (induction ks arbitrary: bals)
  case (Cons k ks)
  then obtain r where r: "Mapping.lookup bals k = Some r" "apply_delta D r (dl k) = Inr (g k)" by auto
  have "\<forall>k' \<in> set ks. \<exists>r. Mapping.lookup (Mapping.update k (g k) bals) k' = Some r \<and> apply_delta D r (dl k') = Inr (g k')"
    using Cons.prems by (auto simp: Mapping.lookup_update')
  with Cons.IH [of "Mapping.update k (g k) bals"] Cons.prems obtain bals' where
    b: "ApplyBalanceDeltas D (Mapping.update k (g k) bals) (map (\<lambda>k. (k, dl k)) ks) = Inr (bals', map g ks)"
    "Mapping.keys bals' = Mapping.keys (Mapping.update k (g k) bals)"
    "\<forall>k'. Mapping.lookup bals' k' = (if k' \<in> set ks then Some (g k') else Mapping.lookup (Mapping.update k (g k) bals) k')"
    by auto
  have "Mapping.keys bals' = Mapping.keys bals" using b(2) r(1) by (auto simp: Mapping.keys_dom_lookup Mapping.lookup_update' split: if_splits)
  moreover have "Mapping.lookup bals' k' = (if k' \<in> set (k # ks) then Some (g k') else Mapping.lookup bals k')" for k'
    using b(3) Cons.prems(1) by (auto simp: Mapping.lookup_update')
  ultimately show ?case using r b(1) by simp
qed simp

lemma ApplyBalanceDeltas_error:
  assumes "distinct ks" and "\<forall>k \<in> set ks. Mapping.lookup bals k = Some (f k)"
    and "\<forall>k \<in> set ks. apply_delta D (f k) (dl k) \<noteq> Inl CheckViolation" and "\<exists>k \<in> set ks. \<exists>e. apply_delta D (f k) (dl k) = Inl e"
  shows "ApplyBalanceDeltas D bals (map (\<lambda>k. (k, dl k)) ks) = Inl OtherSqlError"
  using assms
proof (induction ks arbitrary: bals)
  case (Cons k ks)
  show ?case
  proof (cases "apply_delta D (f k) (dl k)")
    case (Inl e)
    with Cons.prems show ?thesis by (cases e) auto
  next
    case (Inr r)
    with Cons.prems have "\<exists>k \<in> set ks. \<exists>e. apply_delta D (f k) (dl k) = Inl e" by auto
    moreover have "\<forall>k' \<in> set ks. Mapping.lookup (Mapping.update k r bals) k' = Some (f k')"
      using Cons.prems by (auto simp: Mapping.lookup_update')
    ultimately have "ApplyBalanceDeltas D (Mapping.update k r bals) (map (\<lambda>k. (k, dl k)) ks) = Inl OtherSqlError"
      using Cons.prems by (intro Cons.IH) auto
    with Inr Cons.prems show ?thesis by simp
  qed
qed simp

section \<open>The steps of a posting\<close>

lemma balance_row_simps [simp]:
  "balance_row (L\<lparr>lg_entries := es\<rparr>) k = balance_row L k" "balance_row (L\<lparr>lg_postings := ps\<rparr>) k = balance_row L k"
  "balance_row (L\<lparr>lg_accounts := as\<rparr>) k = balance_row L k" "balance_row (L\<lparr>lg_breaks := bs\<rparr>) k = balance_row L k"
  by (simp_all add: balance_row_def)

lemma lookup_balance_row: "k \<in> Mapping.keys (lg_balances L) \<Longrightarrow> Mapping.lookup (lg_balances L) k = Some (balance_row L k)"
  by (auto simp: balance_row_def Mapping.keys_dom_lookup)

lemma send_locks_cases:
  "send_locks s i pe L =
     (if GetJournalEntryByKey L (sv_tenant s) (en_IdempotencyKey (pe_e pe)) \<noteq> None
      then (fst (LockBalances L (pe_keys pe)), Inr \<lparr>lk_entry = None, lk_accounts = GetAccounts L (accountIDs (en_Postings (pe_e pe))),
              lk_locks = (if pe_keys pe = [] then None else Some (snd (LockBalances L (pe_keys pe))))\<rparr>)
      else if GetJournalEntry L i \<noteq> None then (L, Inl OtherSqlError)
      else (let LE = L\<lparr>lg_entries := lg_entries L @ [entry_row i (sv_tenant s) (pe_e pe)]\<rparr>
            in (fst (LockBalances LE (pe_keys pe)),
                Inr \<lparr>lk_entry = Some (entry_row i (sv_tenant s) (pe_e pe)),
                     lk_accounts = GetAccounts L (accountIDs (en_Postings (pe_e pe))),
                     lk_locks = (if pe_keys pe = [] then None else Some (snd (LockBalances LE (pe_keys pe))))\<rparr>)))"
  by (auto simp: send_locks_def InsertJournalEntry_def Let_def split: prod.split)

lemma entry_row_simps [simp]:
  "er_ID (entry_row i t e) = i" "er_TenantID (entry_row i t e) = t" "er_IdempotencyKey (entry_row i t e) = en_IdempotencyKey e"
  by (simp_all add: entry_row_def)

context decimal
begin

text \<open>The funds for the deltas of an entry are there, and the new balances fit their columns.\<close>

lemma Service_Begin_eq:
  "Service_Begin D e = (case Entry_Validate D e of Some err \<Rightarrow> Inl err | None \<Rightarrow> Inr (pending e))"
  by (simp add: Service_Begin_def pending_def split: option.split prod.split)

lemma pending_facts:
  assumes "Entry_Validate D e = None"
  shows "pe_e (pending e) = e" "distinct (pe_keys (pending e))" "set (pe_keys (pending e)) = Mapping.keys (pe_deltas (pending e))"
    "set (pe_keys (pending e)) = {BalanceKey (po_AccountID p) (po_Asset p) | p. p \<in> set (en_Postings e) \<and> po_Bucket p \<noteq> BucketHouse}"
    "delta_vals (pe_deltas (pending e)) k = (gain val (key_account k) (key_asset k) BucketAvailable (en_Postings e),
       gain val (key_account k) (key_asset k) BucketHold (en_Postings e))"
proof -
  obtain m keys where a: "aggregateDeltas D (en_Postings e) = (m, keys)" by fastforce
  have ok: "\<forall>p \<in> set (en_Postings e). posting_ok p" using assms by (simp add: Entry_Validate_iff)
  note spec = aggregateDeltas_spec [OF ok a]
  have pe: "pending e = \<lparr>pe_e = e, pe_deltas = m, pe_keys = keys\<rparr>" by (simp add: pending_def a)
  show "pe_e (pending e) = e" "distinct (pe_keys (pending e))" "set (pe_keys (pending e)) = Mapping.keys (pe_deltas (pending e))"
    "set (pe_keys (pending e)) = {BalanceKey (po_AccountID p) (po_Asset p) | p. p \<in> set (en_Postings e) \<and> po_Bucket p \<noteq> BucketHouse}"
    "delta_vals (pe_deltas (pending e)) k = (gain val (key_account k) (key_asset k) BucketAvailable (en_Postings e),
       gain val (key_account k) (key_asset k) BucketHold (en_Postings e))"
    using spec by (simp_all add: pe)
qed

lemma gain_no_key:
  assumes "BalanceKey acct a \<notin> {BalanceKey (po_AccountID p) (po_Asset p) | p. p \<in> set ps \<and> po_Bucket p \<noteq> BucketHouse}"
    and "b \<noteq> BucketHouse"
  shows "gain val acct a b ps = 0"
  using assms by (induction ps) (auto split: if_splits)

text \<open>The funds check over the keys is the check over all accounts and assets.\<close>

lemma funded_keys:
  assumes "Entry_Validate D e = None" and "ledger_ok L"
  shows "funded L (en_Postings e) \<longleftrightarrow> (\<forall>k \<in> set (pe_keys (pending e)).
     0 \<le> avail L (key_account k) (key_asset k) + fst (delta_vals (pe_deltas (pending e)) k) \<and>
     0 \<le> held L (key_account k) (key_asset k) + snd (delta_vals (pe_deltas (pending e)) k))" (is "_ \<longleftrightarrow> ?R")
proof
  assume ?R
  show "funded L (en_Postings e)" unfolding funded_def
  proof (intro allI)
    fix acct a
    show "0 \<le> avail L acct a + gain val acct a BucketAvailable (en_Postings e) \<and> 0 \<le> held L acct a + gain val acct a BucketHold (en_Postings e)"
    proof (cases "BalanceKey acct a \<in> set (pe_keys (pending e))")
      case True
      with \<open>?R\<close> show ?thesis by (auto simp: pending_facts(5) [OF assms(1)])
    next
      case False
      have "0 \<le> avail L acct a" "0 \<le> held L acct a"
        using ledger_okD(7) [OF assms(2), of "BalanceKey acct a"] by (simp_all add: avail_def held_def balance_ok_def Let_def)
      with False show ?thesis unfolding pending_facts(4) [OF assms(1)] by (simp add: gain_no_key)
    qed
  qed
qed (auto simp: funded_def pending_facts(5) [OF assms(1)])

lemma delta_fits:
  assumes "Entry_Validate D e = None" and "k \<in> set (pe_keys (pending e))"
  shows "V (bd_available (delta_of D (pending e) k)) = gain val (key_account k) (key_asset k) BucketAvailable (en_Postings e)"
    "V (bd_hold (delta_of D (pending e) k)) = gain val (key_account k) (key_asset k) BucketHold (en_Postings e)"
    "fits 18 (V (bd_available (delta_of D (pending e) k)))" "fits 18 (V (bd_hold (delta_of D (pending e) k)))"
proof -
  have ok: "\<forall>p \<in> set (en_Postings e). posting_ok p" using assms by (simp add: Entry_Validate_iff)
  from pending_facts(3) [OF assms(1)] assms(2) obtain d where "Mapping.lookup (pe_deltas (pending e)) k = Some d"
    by (auto simp: Mapping.keys_dom_lookup)
  with pending_facts(5) [OF assms(1), of k]
  show v: "V (bd_available (delta_of D (pending e) k)) = gain val (key_account k) (key_asset k) BucketAvailable (en_Postings e)"
    "V (bd_hold (delta_of D (pending e) k)) = gain val (key_account k) (key_asset k) BucketHold (en_Postings e)"
    by (simp_all add: delta_of_def delta_vals_def)
  show "fits 18 (V (bd_available (delta_of D (pending e) k)))" "fits 18 (V (bd_hold (delta_of D (pending e) k)))"
    unfolding v using fits_gain [OF ok] by auto
qed

text \<open>The deltas in units are the units of the postings.\<close>

lemma delta_units:
  assumes "Entry_Validate D e = None" and "k \<in> set (pe_keys (pending e))"
  shows "sent_units D (bd_available (delta_of D (pending e) k)) =
      ugain (key_account k) (key_asset k) BucketAvailable (map (posting_row D i) (en_Postings e))"
    "sent_units D (bd_hold (delta_of D (pending e) k)) =
      ugain (key_account k) (key_asset k) BucketHold (map (posting_row D i) (en_Postings e))"
proof -
  have ok: "\<forall>p \<in> set (en_Postings e). posting_ok p" using assms by (simp add: Entry_Validate_iff)
  note f = delta_fits [OF assms]
  have "unit_val (sent_units D (bd_available (delta_of D (pending e) k))) =
      unit_val (ugain (key_account k) (key_asset k) BucketAvailable (map (posting_row D i) (en_Postings e)))"
    using sent_units [OF f(3)] ugain_rows [OF ok] by (simp add: f)
  then show "sent_units D (bd_available (delta_of D (pending e) k)) =
      ugain (key_account k) (key_asset k) BucketAvailable (map (posting_row D i) (en_Postings e))" by (simp only: unit_val_less)
  have "unit_val (sent_units D (bd_hold (delta_of D (pending e) k))) =
      unit_val (ugain (key_account k) (key_asset k) BucketHold (map (posting_row D i) (en_Postings e)))"
    using sent_units [OF f(4)] ugain_rows [OF ok] by (simp add: f)
  then show "sent_units D (bd_hold (delta_of D (pending e) k)) =
      ugain (key_account k) (key_asset k) BucketHold (map (posting_row D i) (en_Postings e))" by (simp only: unit_val_less)
qed

text \<open>The check of a fresh entry.\<close>

lemma Pending_Check_fresh:
  assumes "Entry_Validate D e = None" and "ledger_ok L" and "\<forall>k. balance_row L0 k = balance_row L k"
    and "\<forall>i. account_exists L0 i = account_exists L i"
    and "LockBalances L0 (pe_keys (pending e)) = (L1, rows)"
  shows "Pending_Check D s L1 (pending e) \<lparr>lk_entry = Some row, lk_accounts = GetAccounts L (accountIDs (en_Postings e)),
      lk_locks = (if pe_keys (pending e) = [] then None else Some rows)\<rparr> =
    (case checkAccountKinds s (GetAccounts L (accountIDs (en_Postings e))) (en_Postings e) of
       Some err \<Rightarrow> Inl err
     | None \<Rightarrow> if funded L (en_Postings e) then Inr None else Inl ErrInsufficient)"
proof (cases "checkAccountKinds s (GetAccounts L (accountIDs (en_Postings e))) (en_Postings e)")
  case None
  then have fit: "\<forall>p \<in> set (en_Postings e). account_fits s L p" by (simp only: checkAccountKinds_iff)
  have ex: "\<forall>k \<in> set (pe_keys (pending e)). account_exists L (key_account k)"
    using fit unfolding pending_facts(4) [OF assms(1)] by (force simp: account_fits_def account_exists_def split: option.splits)
  then have flt: "filter (\<lambda>k. account_exists L (key_account k)) (pe_keys (pending e)) = pe_keys (pending e)"
    by (simp add: filter_True)
  have br: "balance_row L0 = balance_row L" using assms(3) by (simp add: fun_eq_iff)
  from LockBalances_spec [OF assms(5)] have rows: "rows = map (balance_row L) (pe_keys (pending e))"
    using flt assms(4) br by auto
  have "\<forall>k \<in> set (pe_keys (pending e)). br_AccountID (balance_row L k) = key_account k \<and> br_Asset (balance_row L k) = key_asset k"
    using ledger_okD(7) [OF assms(2)] by (auto simp: balance_ok_def Let_def)
  then have idx: "\<forall>k \<in> set (pe_keys (pending e)). Mapping.lookup (index_rows rows Mapping.empty) k = Some (balance_row L k)"
    unfolding rows using index_balance_rows by blast
  let ?F = "\<lambda>k. 0 \<le> avail L (key_account k) (key_asset k) + fst (delta_vals (pe_deltas (pending e)) k) \<and>
     0 \<le> held L (key_account k) (key_asset k) + snd (delta_vals (pe_deltas (pending e)) k)"
  have ck: "\<forall>k \<in> set (pe_keys (pending e)). check_key D (pending e) (index_rows rows Mapping.empty) k = (if ?F k then None else Some ErrInsufficient)"
    using check_key_iff idx ledger_okD(7) [OF assms(2)] by blast
  have "first_error (check_key D (pending e) (index_rows rows Mapping.empty)) (pe_keys (pending e)) =
    (if funded L (en_Postings e) then None else Some ErrInsufficient)" (is "?fe = _")
  proof (cases "funded L (en_Postings e)")
    case True
    with ck funded_keys [OF assms(1,2)] have "?fe = None" by (simp add: first_error_None)
    with True show ?thesis by simp
  next
    case False
    with ck funded_keys [OF assms(1,2)] have "?fe \<noteq> None" unfolding first_error_None by auto
    then obtain err where err: "?fe = Some err" by blast
    then obtain k where "k \<in> set (pe_keys (pending e))" "check_key D (pending e) (index_rows rows Mapping.empty) k = Some err"
      using first_error_Some by fastforce
    with ck have "err = ErrInsufficient" by (auto split: if_splits)
    with err False show ?thesis by simp
  qed
  moreover have "pe_keys (pending e) = [] \<Longrightarrow> funded L (en_Postings e)" using funded_keys [OF assms(1,2)] by simp
  ultimately show ?thesis using None by (simp add: Pending_Check_def pending_facts(1) [OF assms(1)])
qed (simp add: Pending_Check_def pending_facts(1) [OF assms(1)])

text \<open>The second batch: the postings are accepted, the balances move by the gains of the entry or a column overflows.\<close>

lemma InsertPostings_ok:
  assumes "\<forall>p \<in> set ps. posting_ok p" and "\<forall>p \<in> set ps. account_exists L (po_AccountID p)"
  shows "InsertPostings D L i ps = (L\<lparr>lg_postings := lg_postings L @ map (posting_row D i) ps\<rparr>, Inr ())"
proof -
  have "posting_row_error L (posting_row D i p) = None" if "p \<in> set ps" for p
  proof -
    from assms(1) that have ok: "posting_ok p" by blast
    then have "in_range (sent_units D (po_Amount p))" using numeric_roundtrip_lemma by (simp add: posting_ok_def)
    moreover have "unit_val (sent_units D (po_Amount p)) = V (po_Amount p)" using sent_units posting_ok_fits [OF ok] by blast
    then have "0 < sent_units D (po_Amount p)" using ok by (simp flip: unit_val_less(2) add: posting_ok_def)
    ultimately show ?thesis using assms(2) that ok by (auto simp: posting_row_error_def posting_ok_def)
  qed
  then have "first_error (posting_row_error L) (map (posting_row D i) ps) = None" by (simp add: first_error_None)
  then show ?thesis by (simp add: InsertPostings_def Let_def)
qed

text \<open>The balance row of a key after the entry.\<close>

definition new_row :: "Ledger \<Rightarrow> PostingRow list \<Rightarrow> balanceKey \<Rightarrow> BalanceRow" where
  "new_row L rows k = (balance_row L k)
     \<lparr>br_Available := br_Available (balance_row L k) + ugain (key_account k) (key_asset k) BucketAvailable rows,
      br_Hold := br_Hold (balance_row L k) + ugain (key_account k) (key_asset k) BucketHold rows,
      br_Version := br_Version (balance_row L k) + 1\<rparr>"

lemma in_range_unit: "0 \<le> u \<Longrightarrow> in_range u \<longleftrightarrow> unit_val u < 10 ^ 18"
proof -
  assume "0 \<le> u"
  then have "in_range u \<longleftrightarrow> (of_int u :: rat) < of_int (10 ^ 36)" by (simp only: in_range_def of_int_less_iff abs_of_nonneg)
  also have "\<dots> \<longleftrightarrow> unit_val u < 10 ^ 18" by (simp add: unit_val_def divide_less_eq)
  finally show ?thesis .
qed

lemma unit_bounds: "0 \<le> unit_val u \<Longrightarrow> unit_val u < 10 ^ 18 \<Longrightarrow> 0 \<le> u \<and> in_range u"
  using in_range_unit [of u] by (simp only: unit_val_less)

lemma apply_key:
  fixes i :: int
  assumes "Entry_Validate D e = None" and "k \<in> set (pe_keys (pending e))" and "funded L (en_Postings e)"
  defines "rows \<equiv> map (posting_row D i) (en_Postings e)"
  shows "apply_delta D (balance_row L k) (delta_of D (pending e) k) =
    (if avail L (key_account k) (key_asset k) + gain val (key_account k) (key_asset k) BucketAvailable (en_Postings e) < 10 ^ 18 \<and>
        held L (key_account k) (key_asset k) + gain val (key_account k) (key_asset k) BucketHold (en_Postings e) < 10 ^ 18
     then Inr (new_row L rows k) else Inl OtherSqlError)"
proof -
  have ok: "\<forall>p \<in> set (en_Postings e). posting_ok p" using assms by (simp add: Entry_Validate_iff)
  let ?a = "br_Available (balance_row L k) + ugain (key_account k) (key_asset k) BucketAvailable rows"
  let ?h = "br_Hold (balance_row L k) + ugain (key_account k) (key_asset k) BucketHold rows"
  have v: "unit_val ?a = avail L (key_account k) (key_asset k) + gain val (key_account k) (key_asset k) BucketAvailable (en_Postings e)"
    "unit_val ?h = held L (key_account k) (key_asset k) + gain val (key_account k) (key_asset k) BucketHold (en_Postings e)"
    by (simp_all add: avail_def held_def rows_def ugain_rows [OF ok])
  have "0 \<le> unit_val ?a" "0 \<le> unit_val ?h" using assms(3) unfolding v funded_def by blast+
  then have nn: "0 \<le> ?a" "0 \<le> ?h" by (simp_all only: unit_val_less)
  have "apply_delta D (balance_row L k) (delta_of D (pending e) k) =
    (if in_range ?a \<and> in_range ?h then Inr (new_row L rows k) else Inl OtherSqlError)"
    using nn unfolding apply_delta_eq [OF delta_fits(3,4) [OF assms(1,2)]] delta_units [OF assms(1,2), of i] rows_def [symmetric]
    by (simp add: Let_def new_row_def)
  then show ?thesis unfolding in_range_unit [OF nn(1)] in_range_unit [OF nn(2)] v .
qed

lemma room_keys:
  assumes "Entry_Validate D e = None" and "ledger_ok L"
  shows "room L (en_Postings e) \<longleftrightarrow> (\<forall>k \<in> set (pe_keys (pending e)).
     avail L (key_account k) (key_asset k) + gain val (key_account k) (key_asset k) BucketAvailable (en_Postings e) < 10 ^ 18 \<and>
     held L (key_account k) (key_asset k) + gain val (key_account k) (key_asset k) BucketHold (en_Postings e) < 10 ^ 18)" (is "_ \<longleftrightarrow> ?R")
proof
  assume ?R
  show "room L (en_Postings e)" unfolding room_def
  proof (intro allI)
    fix acct a
    show "avail L acct a + gain val acct a BucketAvailable (en_Postings e) < 10 ^ 18 \<and> held L acct a + gain val acct a BucketHold (en_Postings e) < 10 ^ 18"
    proof (cases "BalanceKey acct a \<in> set (pe_keys (pending e))")
      case True
      with \<open>?R\<close> show ?thesis by auto
    next
      case False
      have "0 \<le> br_Available (balance_row L (BalanceKey acct a))" "in_range (br_Available (balance_row L (BalanceKey acct a)))"
        "0 \<le> br_Hold (balance_row L (BalanceKey acct a))" "in_range (br_Hold (balance_row L (BalanceKey acct a)))"
        using balance_okD(5-8) [OF ledger_okD(7) [OF assms(2), of "BalanceKey acct a"]] by blast+
      then have "avail L acct a < 10 ^ 18" "held L acct a < 10 ^ 18" unfolding avail_def held_def using in_range_unit by blast+
      with False show ?thesis unfolding pending_facts(4) [OF assms(1)] by (simp add: gain_no_key)
    qed
  qed
qed (auto simp: room_def)

lemma send_apply_cases:
  fixes i :: int
  assumes "Entry_Validate D e = None" and "ledger_ok L" and "funded L (en_Postings e)"
    and "\<forall>p \<in> set (en_Postings e). account_exists L1 (po_AccountID p)"
    and "\<forall>k. balance_row L1 k = balance_row L k" and "set (pe_keys (pending e)) \<subseteq> Mapping.keys (lg_balances L1)"
  defines "rows \<equiv> map (posting_row D i) (en_Postings e)"
  shows "if room L (en_Postings e)
    then \<exists>bals applied. send_apply D i (pending e) L1 =
          (L1\<lparr>lg_postings := lg_postings L1 @ rows, lg_balances := bals\<rparr>, Inr applied) \<and>
        Mapping.keys bals = Mapping.keys (lg_balances L1) \<and>
        (\<forall>k. Mapping.lookup bals k = (if k \<in> set (pe_keys (pending e)) then Some (new_row L rows k) else Mapping.lookup (lg_balances L1) k)) \<and>
        applied = (if pe_keys (pending e) = [] then None else Some (map (new_row L rows) (pe_keys (pending e))))
    else \<exists>L2. send_apply D i (pending e) L1 = (L2, Inl OtherSqlError)"
proof -
  let ?ks = "pe_keys (pending e)" and ?L = "L1\<lparr>lg_postings := lg_postings L1 @ rows\<rparr>"
  have ok: "\<forall>p \<in> set (en_Postings e). posting_ok p" using assms by (simp add: Entry_Validate_iff)
  have ins: "InsertPostings D L1 i (en_Postings e) = (?L, Inr ())"
    unfolding rows_def by (rule InsertPostings_ok [OF ok assms(4)])
  have look: "\<forall>k \<in> set ?ks. Mapping.lookup (lg_balances ?L) k = Some (balance_row L k)"
    using lookup_balance_row [of _ L1] assms(5,6) by auto
  note key = apply_key [OF assms(1) _ assms(3), of _ i, folded rows_def]
  show ?thesis
  proof (cases "room L (en_Postings e)")
    case True
    then have rm: "\<forall>k \<in> set ?ks. apply_delta D (balance_row L k) (delta_of D (pending e) k) = Inr (new_row L rows k)"
      using key unfolding room_keys [OF assms(1,2)] by auto
    with look ApplyBalanceDeltas_ok [OF pending_facts(2) [OF assms(1)], of "lg_balances ?L" D "delta_of D (pending e)" "new_row L rows"]
    obtain bals where b: "ApplyBalanceDeltas D (lg_balances ?L) (map (\<lambda>k. (k, delta_of D (pending e) k)) ?ks) = Inr (bals, map (new_row L rows) ?ks)"
      "Mapping.keys bals = Mapping.keys (lg_balances ?L)"
      "\<forall>k. Mapping.lookup bals k = (if k \<in> set ?ks then Some (new_row L rows k) else Mapping.lookup (lg_balances ?L) k)"
      by auto
    show ?thesis
    proof (cases "?ks = []")
      case True
      have "L1\<lparr>lg_postings := lg_postings L1 @ rows, lg_balances := lg_balances L1\<rparr> = ?L" by simp
      with True \<open>room L (en_Postings e)\<close> ins show ?thesis
        by (auto simp: send_apply_def pending_facts(1) [OF assms(1)] intro!: exI [of _ "lg_balances L1"])
    next
      case False
      with b \<open>room L (en_Postings e)\<close> ins show ?thesis
        by (auto simp: send_apply_def pending_facts(1) [OF assms(1)] intro!: exI [of _ bals])
    qed
  next
    case False
    then obtain k where k: "k \<in> set ?ks" "apply_delta D (balance_row L k) (delta_of D (pending e) k) = Inl OtherSqlError"
      using key unfolding room_keys [OF assms(1,2)] by auto
    have "\<forall>k \<in> set ?ks. apply_delta D (balance_row L k) (delta_of D (pending e) k) \<noteq> Inl CheckViolation" using key by auto
    with ApplyBalanceDeltas_error [OF pending_facts(2) [OF assms(1)] look] k
    have "ApplyBalanceDeltas D (lg_balances ?L) (map (\<lambda>k. (k, delta_of D (pending e) k)) ?ks) = Inl OtherSqlError" by blast
    moreover have "?ks \<noteq> []" using k by auto
    ultimately show ?thesis using False ins by (simp add: send_apply_def pending_facts(1) [OF assms(1)])
  qed
qed

section \<open>The whole posting\<close>

text \<open>What a success has changed.\<close>

lemma new_row_noop:
  assumes "Entry_Validate D e = None" and "k \<notin> set (pe_keys (pending e))" and "b \<noteq> BucketHouse"
  shows "ugain (key_account k) (key_asset k) b (map (posting_row D i) (en_Postings e)) = 0"
proof -
  have ok: "\<forall>p \<in> set (en_Postings e). posting_ok p" using assms by (simp add: Entry_Validate_iff)
  have "gain val (key_account k) (key_asset k) b (en_Postings e) = 0"
    by (rule gain_no_key) (use assms in \<open>simp_all add: pending_facts(4)\<close>)
  with ugain_rows [OF ok] have "unit_val (ugain (key_account k) (key_asset k) b (map (posting_row D i) (en_Postings e))) = 0" by simp
  then show ?thesis by (simp only: unit_val_less)
qed

text \<open>The tables after a success satisfy the invariant.\<close>

lemma ledger_ok_posted:
  assumes L: "ledger_ok L" and e: "Entry_Validate D e = None"
    and key: "GetJournalEntryByKey L (sv_tenant s) (en_IdempotencyKey e) = None" and id: "GetJournalEntry L i = None"
    and fit: "\<forall>p \<in> set (en_Postings e). account_fits s L p" and fund: "funded L (en_Postings e)" and rm: "room L (en_Postings e)"
    and L2: "lg_accounts L2 = lg_accounts L" "lg_breaks L2 = lg_breaks L"
      "lg_entries L2 = lg_entries L @ [entry_row i (sv_tenant s) e]"
      "lg_postings L2 = lg_postings L @ map (posting_row D i) (en_Postings e)"
      "Mapping.keys (lg_balances L2) = Mapping.keys (lg_balances L) \<union> set (pe_keys (pending e))"
      "\<forall>k. balance_row L2 k = (if k \<in> set (pe_keys (pending e)) then new_row L (map (posting_row D i) (en_Postings e)) k else balance_row L k)"
  shows "ledger_ok L2" and "posted s i e L L2"
proof -
  let ?rows = "map (posting_row D i) (en_Postings e)"
  have ok: "\<forall>p \<in> set (en_Postings e). posting_ok p" using e by (simp add: Entry_Validate_iff)
  have acc: "GetAccount L2 = GetAccount L" by (simp add: GetAccount_def L2 fun_eq_iff)
  have accx: "account_exists L2 = account_exists L" by (simp add: account_exists_def acc fun_eq_iff)
  have notin: "r \<in> set (lg_entries L) \<Longrightarrow> er_ID r \<noteq> i" for r using id by (auto simp: GetJournalEntry_def find_None_iff)
  have nokey: "r \<in> set (lg_entries L) \<Longrightarrow> \<not> (er_TenantID r = sv_tenant s \<and> er_IdempotencyKey r = en_IdempotencyKey e)" for r
    using key by (auto simp: GetJournalEntryByKey_def find_None_iff)
  have get: "GetJournalEntry L j = Some r \<Longrightarrow> GetJournalEntry L2 j = Some r" for j r
    by (simp add: GetJournalEntry_def L2 find_append)
  have geti: "GetJournalEntry L2 i = Some (entry_row i (sv_tenant s) e)"
    using id by (simp add: GetJournalEntry_def L2 find_append)
  have row: "br_AccountID (balance_row L2 k) = br_AccountID (balance_row L k)" "br_Asset (balance_row L2 k) = br_Asset (balance_row L k)"
    "br_Available (balance_row L2 k) = br_Available (balance_row L k) + ugain (key_account k) (key_asset k) BucketAvailable ?rows"
    "br_Hold (balance_row L2 k) = br_Hold (balance_row L k) + ugain (key_account k) (key_asset k) BucketHold ?rows" for k
    using L2(6) new_row_noop [OF e, of k _ i] by (auto simp: new_row_def)
  have val: "unit_val (br_Available (balance_row L2 k)) = avail L (key_account k) (key_asset k) + gain val (key_account k) (key_asset k) BucketAvailable (en_Postings e)"
    "unit_val (br_Hold (balance_row L2 k)) = held L (key_account k) (key_asset k) + gain val (key_account k) (key_asset k) BucketHold (en_Postings e)" for k
    by (simp_all add: row ugain_rows [OF ok] avail_def held_def)
  show "posted s i e L L2" unfolding posted_def avail_def [of L2] held_def [of L2] val using L2 by simp
  have "0 \<le> unit_val (br_Available (balance_row L2 k)) \<and> unit_val (br_Available (balance_row L2 k)) < 10 ^ 18 \<and>
    0 \<le> unit_val (br_Hold (balance_row L2 k)) \<and> unit_val (br_Hold (balance_row L2 k)) < 10 ^ 18" for k
    unfolding val using fund rm by (simp add: funded_def room_def)
  then have rng: "0 \<le> br_Available (balance_row L2 k)" "in_range (br_Available (balance_row L2 k))"
    "0 \<le> br_Hold (balance_row L2 k)" "in_range (br_Hold (balance_row L2 k))" for k
    using unit_bounds by blast+
  have keyacc: "k \<in> set (pe_keys (pending e)) \<Longrightarrow> account_exists L (key_account k)" for k
    using fit unfolding pending_facts(4) [OF e] by (force simp: account_fits_def account_exists_def split: option.splits)
  have bal: "balance_ok L2 k" for k
    using balance_okD [OF ledger_okD(7) [OF L, of k]] rng [of k] keyacc [of k]
    unfolding balance_ok_def Let_def row L2(4,5) accx by auto
  have old: "posting_row_ok L2 p" if "p \<in> set (lg_postings L)" for p
    using ledger_okD(4) [OF L that] get unfolding posting_row_ok_def acc by blast
  have new: "posting_row_ok L2 (posting_row D i p)" if "p \<in> set (en_Postings e)" for p
  proof -
    from ok that have okp: "posting_ok p" by blast
    then have "in_range (sent_units D (po_Amount p))" using numeric_roundtrip_lemma by (simp add: posting_ok_def)
    moreover have "unit_val (sent_units D (po_Amount p)) = V (po_Amount p)" using sent_units posting_ok_fits [OF okp] by blast
    then have "0 < sent_units D (po_Amount p)" using okp by (simp flip: unit_val_less(2) add: posting_ok_def)
    moreover have "account_fits s L p" using fit that by blast
    ultimately show ?thesis using okp geti unfolding posting_row_ok_def acc
      by (auto simp: posting_ok_def account_fits_def split: option.splits)
  qed
  have none: "p \<in> set (lg_postings L) \<Longrightarrow> pr_EntryID p \<noteq> i" for p
    using ledger_okD(4) [OF L, of p] id by (auto simp: posting_row_ok_def)
  have net: "unet a (ListPostingsByEntry L2 (er_ID r)) = 0" if "r \<in> set (lg_entries L2)" for r a
  proof (cases "er_ID r = i")
    case True
    have "filter (\<lambda>p. pr_EntryID p = i) (lg_postings L) = []" using none by (simp add: filter_empty_conv)
    moreover have "filter (\<lambda>p. pr_EntryID p = i) ?rows = ?rows" by (simp add: filter_True)
    ultimately have "ListPostingsByEntry L2 i = ?rows" by (simp add: ListPostingsByEntry_def L2)
    moreover have "unit_val (unet a ?rows) = 0" using unet_rows [OF ok] e by (simp add: Entry_Validate_iff)
    ultimately show ?thesis using True by (simp del: unit_val_less add: unit_val_less(3) [symmetric])
  next
    case False
    then have "ListPostingsByEntry L2 (er_ID r) = ListPostingsByEntry L (er_ID r)"
      by (auto simp: ListPostingsByEntry_def L2 filter_empty_conv)
    moreover have "r \<in> set (lg_entries L)" using that False by (auto simp: L2)
    ultimately show ?thesis using ledger_okD(5) [OF L] by simp
  qed
  have "distinct (map er_ID (lg_entries L2))" using ledger_okD(2) [OF L] notin by (auto simp: L2)
  moreover have "(sv_tenant s, en_IdempotencyKey e) \<notin> (\<lambda>r. (er_TenantID r, er_IdempotencyKey r)) ` set (lg_entries L)"
    using nokey by fastforce
  then have "distinct (map (\<lambda>r. (er_TenantID r, er_IdempotencyKey r)) (lg_entries L2))"
    using ledger_okD(3) [OF L] by (simp add: L2)
  ultimately show "ledger_ok L2"
    using ledger_okD(1,6) [OF L] bal old new net unfolding ledger_ok_def by (auto simp: L2)
qed

text \<open>Every outcome of a posting.\<close>

lemma post_replay:
  assumes L: "ledger_ok L" and e: "Entry_Validate D e = None"
    and key: "GetJournalEntryByKey L (sv_tenant s) (en_IdempotencyKey e) = Some r"
  shows "\<exists>L1 je. Post D s i e L = (L1, Inr (je, True)) \<and> same_reads L L1 \<and> ledger_ok L1 \<and>
    entryByKey D s L (en_IdempotencyKey e) = Inr je \<and> entryByKey D s L1 (en_IdempotencyKey e) = Inr je"
proof -
  obtain L1 rows where lock: "LockBalances L (pe_keys (pending e)) = (L1, rows)" by fastforce
  note same = same_reads_lock [OF lock] and okL1 = ledger_ok_lock [OF L lock]
  have get: "GetJournalEntryByKey L1 = GetJournalEntryByKey L"
    using same by (simp add: same_reads_def GetJournalEntryByKey_def fun_eq_iff)
  have wp: "withPostings D L1 = withPostings D L"
    using same by (simp add: same_reads_def withPostings_def ListPostingsByEntry_def fun_eq_iff)
  have eq: "entryByKey D s L1 = entryByKey D s L" unfolding entryByKey_def get wp ..
  from withPostings_ok [of L r] ledger_okD(4) [OF L] key obtain je where je: "entryByKey D s L (en_IdempotencyKey e) = Inr je"
    by (auto simp: entryByKey_def)
  have "Post D s i e L = (L1, Inr (je, True))"
    using e key je lock eq by (simp add: Post_def Service_Begin_eq send_locks_cases Pending_Check_def pending_facts(1))
  with same okL1 je eq show ?thesis by simp
qed

lemma post_id_taken:
  assumes "Entry_Validate D e = None" and "GetJournalEntryByKey L (sv_tenant s) (en_IdempotencyKey e) = None"
    and "GetJournalEntry L i \<noteq> None"
  shows "snd (Post D s i e L) = Inl errStore"
  using assms by (simp add: Post_def Service_Begin_eq send_locks_cases pending_facts(1))

lemma finish_ok:
  assumes e: "Entry_Validate D e = None" and L: "ledger_ok L"
    and ok: "ledger_ok L2" "posted s i e L L2" and b: "\<forall>k \<in> set (pe_keys (pending e)). balance_row L2 k = g k"
    and applied: "applied = (if pe_keys (pending e) = [] then None else Some (map g (pe_keys (pending e))))"
  shows "\<exists>je. Pending_Finish D (entry_row i (sv_tenant s) e) (pending e) applied = Inr je \<and> journal_of s i e L2 je"
proof -
  let ?ks = "pe_keys (pending e)"
  have g: "\<forall>k \<in> set ?ks. br_AccountID (g k) = key_account k \<and> br_Asset (g k) = key_asset k"
  proof
    fix k assume "k \<in> set ?ks"
    with b have "g k = balance_row L2 k" by simp
    then show "br_AccountID (g k) = key_account k \<and> br_Asset (g k) = key_asset k"
      using balance_okD(1,2) [OF ledger_okD(7) [OF ok(1)]] by simp
  qed
  have "\<forall>k \<in> set ?ks. \<exists>bal. finish_key D (index_rows (map g ?ks) Mapping.empty) k = Inr bal \<and>
     (bal_AccountID bal = key_account k \<and> bal_Asset bal = key_asset k \<and>
      V (bal_Available bal) = avail L2 (key_account k) (key_asset k) \<and> V (bal_Hold bal) = held L2 (key_account k) (key_asset k))"
  proof
    fix k assume k: "k \<in> set ?ks"
    have gk: "g k = balance_row L2 k" using b k by simp
    obtain x y where "AmountFromNumeric D (column (br_Available (g k))) = Inr x" "V x = unit_val (br_Available (g k))"
      "AmountFromNumeric D (column (br_Hold (g k))) = Inr y" "V y = unit_val (br_Hold (g k))"
      using AmountFromNumeric_column balance_okD(7,8) [OF ledger_okD(7) [OF ok(1), of k]] unfolding gk by blast
    with index_balance_rows [OF g k] g [rule_format, OF k]
    show "\<exists>bal. finish_key D (index_rows (map g ?ks) Mapping.empty) k = Inr bal \<and>
     (bal_AccountID bal = key_account k \<and> bal_Asset bal = key_asset k \<and>
      V (bal_Available bal) = avail L2 (key_account k) (key_asset k) \<and> V (bal_Hold bal) = held L2 (key_account k) (key_asset k))"
      by (simp add: finish_key_def gk avail_def held_def)
  qed
  from all_ok_total [OF this] show ?thesis
    using applied
    by (cases "?ks = []") (auto simp: Pending_Finish_def journal_of_def pending_facts(1) [OF e] journalFromRow_def entry_row_def Let_def)
qed

lemma post_fresh:
  assumes L: "ledger_ok L" and e: "Entry_Validate D e = None"
    and key: "GetJournalEntryByKey L (sv_tenant s) (en_IdempotencyKey e) = None" and id: "GetJournalEntry L i = None"
  shows "if \<not> (\<forall>p \<in> set (en_Postings e). account_fits s L p)
      then snd (Post D s i e L) \<in> {Inl ErrAccountNotFound, Inl ErrAccountKind}
    else if \<not> funded L (en_Postings e) then snd (Post D s i e L) = Inl ErrInsufficient
    else if \<not> room L (en_Postings e) then snd (Post D s i e L) = Inl errStore
    else \<exists>L2 je. Post D s i e L = (L2, Inr (je, False)) \<and> ledger_ok L2 \<and> posted s i e L L2 \<and> journal_of s i e L2 je"
proof -
  let ?row = "entry_row i (sv_tenant s) e" and ?ks = "pe_keys (pending e)" and ?ids = "accountIDs (en_Postings e)"
  let ?LE = "L\<lparr>lg_entries := lg_entries L @ [?row]\<rparr>" and ?rows = "map (posting_row D i) (en_Postings e)"
  obtain L1 locked where lock: "LockBalances ?LE ?ks = (L1, locked)" by fastforce
  let ?lk = "\<lparr>lk_entry = Some ?row, lk_accounts = GetAccounts L ?ids, lk_locks = (if ?ks = [] then None else Some locked)\<rparr>"
  have send: "send_locks s i (pending e) L = (L1, Inr ?lk)"
    using key id lock by (simp add: send_locks_cases pending_facts(1) [OF e] Let_def)
  have check: "Pending_Check D s L1 (pending e) ?lk =
    (case checkAccountKinds s (GetAccounts L ?ids) (en_Postings e) of
       Some err \<Rightarrow> Inl err | None \<Rightarrow> if funded L (en_Postings e) then Inr None else Inl ErrInsufficient)"
    by (rule Pending_Check_fresh [OF e L _ _ lock]) simp_all
  have post: "Post D s i e L = (case Pending_Check D s L1 (pending e) ?lk of
      Inl err \<Rightarrow> (L1, Inl err)
    | Inr (Some je) \<Rightarrow> (L1, Inr (je, True))
    | Inr None \<Rightarrow> (case send_apply D i (pending e) L1 of
        (L2, Inl err) \<Rightarrow> (L2, Inl (applyErr err))
      | (L2, Inr applied) \<Rightarrow> (case Pending_Finish D ?row (pending e) applied of
           Inl err \<Rightarrow> (L2, Inl err) | Inr je \<Rightarrow> (L2, Inr (je, False)))))"
    unfolding Post_def Service_Begin_eq e send option.case sum.case prod.case Locked.simps entry_row_simps by (rule refl)
  show ?thesis
  proof (cases "\<forall>p \<in> set (en_Postings e). account_fits s L p")
    case False
    then obtain err where "checkAccountKinds s (GetAccounts L ?ids) (en_Postings e) = Some err"
      using checkAccountKinds_iff by blast
    with False check post checkAccountKinds_error show ?thesis by auto
  next
    case fit: True
    then have none: "checkAccountKinds s (GetAccounts L ?ids) (en_Postings e) = None" using checkAccountKinds_iff by blast
    show ?thesis
    proof (cases "funded L (en_Postings e)")
      case False
      with fit none check post show ?thesis by simp
    next
      case fund: True
      from LockBalances_spec [OF lock] obtain m where m: "L1 = ?LE\<lparr>lg_balances := m\<rparr>" "\<forall>k. balance_row L1 k = balance_row L k"
        "Mapping.keys m = Mapping.keys (lg_balances L) \<union> {k \<in> set ?ks. account_exists L (key_account k)}" by auto
      have ex: "\<forall>p \<in> set (en_Postings e). account_exists L (po_AccountID p)"
        using fit by (auto simp: account_fits_def account_exists_def split: option.splits)
      then have keys: "Mapping.keys m = Mapping.keys (lg_balances L) \<union> set ?ks"
        unfolding m(3) pending_facts(4) [OF e] by auto
      have exL1: "\<forall>p \<in> set (en_Postings e). account_exists L1 (po_AccountID p)" using ex by (simp add: m(1))
      have sub: "set ?ks \<subseteq> Mapping.keys (lg_balances L1)" by (simp add: m(1) keys)
      note cases = send_apply_cases [OF e L fund exL1 m(2) sub, of i]
      show ?thesis
      proof (cases "room L (en_Postings e)")
        case False
        with fit fund none check post cases show ?thesis by (auto simp: applyErr_def)
      next
        case rm: True
        with cases obtain bals applied where ap: "send_apply D i (pending e) L1 =
            (L1\<lparr>lg_postings := lg_postings L1 @ ?rows, lg_balances := bals\<rparr>, Inr applied)"
          "Mapping.keys bals = Mapping.keys (lg_balances L1)"
          "\<forall>k. Mapping.lookup bals k = (if k \<in> set ?ks then Some (new_row L ?rows k) else Mapping.lookup (lg_balances L1) k)"
          "applied = (if ?ks = [] then None else Some (map (new_row L ?rows) ?ks))" by auto
        define L2 where "L2 = L1\<lparr>lg_postings := lg_postings L1 @ ?rows, lg_balances := bals\<rparr>"
        have row: "\<forall>k. balance_row L2 k = (if k \<in> set ?ks then new_row L ?rows k else balance_row L k)"
        proof
          fix k
          have "balance_row L1 k = balance_row L k" using m(2) by blast
          then show "balance_row L2 k = (if k \<in> set ?ks then new_row L ?rows k else balance_row L k)"
            using ap(3) by (simp add: L2_def balance_row_def)
        qed
        have f: "lg_accounts L2 = lg_accounts L" "lg_breaks L2 = lg_breaks L" "lg_entries L2 = lg_entries L @ [?row]"
          "lg_postings L2 = lg_postings L @ ?rows" "Mapping.keys (lg_balances L2) = Mapping.keys (lg_balances L) \<union> set ?ks"
          using ap(2) by (simp_all add: L2_def m(1) keys)
        note res = ledger_ok_posted [OF L e key id fit fund rm f row]
        from finish_ok [OF e L res _ ap(4)] row obtain je where
          "Pending_Finish D ?row (pending e) applied = Inr je" "journal_of s i e L2 je" by auto
        with res fit fund rm none check post ap(1) show ?thesis by (simp add: L2_def)
      qed
    qed
  qed
qed

end

end
