(* ===== verification/Ledger_Steps.thy ===== *)
theory Ledger_Steps
  imports Ledger_Post Service Decimal_Fixed
begin

text \<open>
  The ledger as a service: the writing operations as commands, each in its transaction, with the
  invariant every one of them keeps and the entries none of them touches again. The locale
  \<open>service\<close> is interpreted on them.
\<close>

section \<open>Commands\<close>

datatype 'd ledger_cmd =
    CmdPost int "'d Entry"
  | CmdSpotAccount string "string option"
  | CmdHouseAccount string HouseCode
  | CmdStatus string AccountStatus
  | CmdReserve string int
  | CmdReconcile "string \<Rightarrow> string" go_time

datatype 'd ledger_result =
    ResEntry "'d JournalEntry" bool
  | ResAccount Account
  | ResSeq int
  | ResBreaks "'d Break list" "'d Break list"
  | ResDone

definition map_result :: "('r \<Rightarrow> 'q) \<Rightarrow> 's \<times> ('e + 'r) \<Rightarrow> 's \<times> ('e + 'q)" where
  "map_result f r = (fst r, map_sum id f (snd r))"

definition ensure_house :: "LedgerService \<Rightarrow> string \<Rightarrow> HouseCode \<Rightarrow> Ledger \<Rightarrow> Ledger \<times> (ledger_error + unit)" where
  "ensure_house s i c L = (case EnsureHouseAccount L i (sv_tenant s) c of (L1, Inl _) \<Rightarrow> (L1, Inl errStore) | (L1, Inr _) \<Rightarrow> (L1, Inr ()))"

fun ledger_op :: "'d decimal_pkg \<Rightarrow> LedgerService \<Rightarrow> 'd ledger_cmd \<Rightarrow> Ledger \<Rightarrow> Ledger \<times> (ledger_error + 'd ledger_result)" where
  "ledger_op D s (CmdPost i e) L = map_result (\<lambda>(je, replayed). ResEntry je replayed) (Post D s i e L)"
| "ledger_op D s (CmdSpotAccount i owner) L = map_result ResAccount (CreateSpotAccount s i owner L)"
| "ledger_op D s (CmdHouseAccount i c) L = map_result (\<lambda>_. ResDone) (ensure_house s i c L)"
| "ledger_op D s (CmdStatus i st) L = map_result ResAccount (SetAccountStatus s i st L)"
| "ledger_op D s (CmdReserve i n) L = map_result ResSeq (ReserveAccountSeqs i n L)"
| "ledger_op D s (CmdReconcile newID now) L = map_result (\<lambda>(opened, resolved). ResBreaks opened resolved) (ReconcileBreaks D s newID now L)"

text \<open>Every tenant has its service, on the same tables.\<close>

definition ledger_step :: "'d decimal_pkg \<Rightarrow> Ledger \<Rightarrow> LedgerService \<times> 'd ledger_cmd \<Rightarrow> (Ledger \<times> (ledger_error + 'd ledger_result)) option" where
  "ledger_step D L c = Some (in_tx (ledger_op D (fst c) (snd c)) L)"

section \<open>What the operations keep\<close>

lemma in_tx_cases: "in_tx f L = (case snd (f L) of Inl e \<Rightarrow> (L, Inl e) | Inr r \<Rightarrow> (fst (f L), Inr r))"
  by (auto simp: in_tx_def split: prod.split sum.split)

lemma fst_map_result [simp]: "fst (map_result f r) = fst r"
  by (simp add: map_result_def)

lemma snd_map_result: "snd (map_result f r) = Inr q \<longleftrightarrow> (\<exists>x. snd r = Inr x \<and> q = f x)" "snd (map_result f r) = Inl e \<longleftrightarrow> snd r = Inl e"
  by (cases "snd r"; auto simp: map_result_def)+

text \<open>Entries and their postings stay; so do the accounts, with their tenant and kind, and sequence numbers only grow.\<close>

definition keeps :: "Ledger \<Rightarrow> Ledger \<Rightarrow> bool" where
  "keeps L L1 \<longleftrightarrow> (\<exists>es. lg_entries L1 = lg_entries L @ es) \<and>
     (\<forall>r \<in> set (lg_entries L). ListPostingsByEntry L1 (er_ID r) = ListPostingsByEntry L (er_ID r)) \<and>
     (\<forall>i a. GetAccount L i = Some a \<longrightarrow>
        (\<exists>a1. GetAccount L1 i = Some a1 \<and> ar_TenantID a1 = ar_TenantID a \<and> ar_Kind a1 = ar_Kind a \<and> ar_NextSeq a \<le> ar_NextSeq a1))"

lemma keeps_refl: "keeps L L"
  by (auto simp: keeps_def)

lemma keeps_trans:
  assumes "keeps L L1" "keeps L1 L2"
  shows "keeps L L2"
proof -
  obtain es es1 where es: "lg_entries L1 = lg_entries L @ es" "lg_entries L2 = lg_entries L1 @ es1" using assms by (auto simp: keeps_def)
  moreover have "\<forall>r \<in> set (lg_entries L). ListPostingsByEntry L2 (er_ID r) = ListPostingsByEntry L (er_ID r)"
    using assms es(1) by (auto simp: keeps_def)
  moreover have "\<exists>a1. GetAccount L2 i = Some a1 \<and> ar_TenantID a1 = ar_TenantID a \<and> ar_Kind a1 = ar_Kind a \<and> ar_NextSeq a \<le> ar_NextSeq a1"
    if g: "GetAccount L i = Some a" for i a
  proof -
    obtain b where b: "GetAccount L1 i = Some b" "ar_TenantID b = ar_TenantID a" "ar_Kind b = ar_Kind a" "ar_NextSeq a \<le> ar_NextSeq b"
      using assms(1) g unfolding keeps_def by blast
    obtain c where "GetAccount L2 i = Some c" "ar_TenantID c = ar_TenantID b" "ar_Kind c = ar_Kind b" "ar_NextSeq b \<le> ar_NextSeq c"
      using assms(2) b(1) unfolding keeps_def by blast
    with b show ?thesis by auto
  qed
  ultimately show ?thesis unfolding keeps_def by auto
qed

text \<open>A change of the accounts that keeps those there, and of the breaks.\<close>

lemma ledger_ok_accounts:
  assumes L: "ledger_ok L" and "distinct (map ar_ID as)" and "keeps L (L\<lparr>lg_accounts := as\<rparr>)"
  shows "ledger_ok (L\<lparr>lg_accounts := as\<rparr>)"
proof -
  let ?L = "L\<lparr>lg_accounts := as\<rparr>"
  have acc: "GetAccount L i = Some a \<Longrightarrow> \<exists>a1. GetAccount ?L i = Some a1 \<and> ar_TenantID a1 = ar_TenantID a \<and> ar_Kind a1 = ar_Kind a" for i a
    using assms(3) unfolding keeps_def by blast
  then have ex: "account_exists L i \<Longrightarrow> account_exists ?L i" for i by (fastforce simp: account_exists_def)
  have "posting_row_ok ?L p" if "p \<in> set (lg_postings L)" for p
  proof -
    from ledger_okD(4) [OF L that] obtain e a where ea: "GetJournalEntry L (pr_EntryID p) = Some e" "GetAccount L (pr_AccountID p) = Some a"
      "ar_TenantID a = er_TenantID e" "ar_Kind a = KindHouse \<longleftrightarrow> pr_Bucket p = BucketHouse"
      and rest: "0 < pr_Amount p \<and> in_range (pr_Amount p) \<and> pr_Bucket p \<in> {BucketAvailable, BucketHold, BucketHouse} \<and> pr_Direction p \<in> {Debit, Credit}"
      unfolding posting_row_ok_def by blast
    obtain a1 where "GetAccount ?L (pr_AccountID p) = Some a1" "ar_TenantID a1 = ar_TenantID a" "ar_Kind a1 = ar_Kind a"
      using acc [OF ea(2)] by blast
    moreover have "GetJournalEntry ?L (pr_EntryID p) = Some e" using ea(1) by (simp add: GetJournalEntry_def)
    ultimately show ?thesis using ea(3,4) rest unfolding posting_row_ok_def by auto
  qed
  moreover have "balance_ok ?L k" for k
    using balance_okD [OF ledger_okD(7) [OF L, of k]] ex unfolding balance_ok_def Let_def by auto
  moreover have "unet a (ListPostingsByEntry ?L (er_ID r)) = 0" if "r \<in> set (lg_entries L)" for r a
    using ledger_okD(5) [OF L that, of a] by (simp add: ListPostingsByEntry_def)
  ultimately show ?thesis using ledger_okD(2,3,6) [OF L] assms(2) unfolding ledger_ok_def by auto
qed

lemma GetAccount_append: "GetAccount (L\<lparr>lg_accounts := as @ bs\<rparr>) i = (case find (\<lambda>r. ar_ID r = i) as of None \<Rightarrow> find (\<lambda>r. ar_ID r = i) bs | Some r \<Rightarrow> Some r)"
  by (simp add: GetAccount_def find_append)

lemma new_account_ok:
  assumes "ledger_ok L" and "\<not> account_exists L (ar_ID r)"
  shows "ledger_ok (L\<lparr>lg_accounts := lg_accounts L @ [r]\<rparr>) \<and> keeps L (L\<lparr>lg_accounts := lg_accounts L @ [r]\<rparr>)"
proof -
  have k: "keeps L (L\<lparr>lg_accounts := lg_accounts L @ [r]\<rparr>)"
    unfolding keeps_def GetAccount_append by (auto simp: GetAccount_def ListPostingsByEntry_def)
  have "distinct (map ar_ID (lg_accounts L @ [r]))"
    using ledger_okD(1) [OF assms(1)] assms(2) by (auto simp: account_exists_def GetAccount_def find_None_iff)
  with ledger_ok_accounts [OF assms(1) _ k] k show ?thesis by blast
qed

lemma find_set_account:
  "find (\<lambda>x. ar_ID x = i) (set_account r as) = (case find (\<lambda>x. ar_ID x = i) as of None \<Rightarrow> None | Some x \<Rightarrow> Some (if ar_ID x = ar_ID r then r else x))"
  by (induction as) (auto simp: set_account_def split: option.splits)

lemma map_ID_set_account [simp]: "map ar_ID (set_account r as) = map ar_ID as"
  by (induction as) (auto simp: set_account_def)

lemma set_account_ok:
  assumes "ledger_ok L" and "GetAccount L (ar_ID r) = Some a" and "ar_TenantID r = ar_TenantID a" "ar_Kind r = ar_Kind a" "ar_NextSeq a \<le> ar_NextSeq r"
  shows "ledger_ok (L\<lparr>lg_accounts := set_account r (lg_accounts L)\<rparr>) \<and> keeps L (L\<lparr>lg_accounts := set_account r (lg_accounts L)\<rparr>)"
proof -
  let ?L = "L\<lparr>lg_accounts := set_account r (lg_accounts L)\<rparr>"
  have get: "GetAccount ?L i = (case GetAccount L i of None \<Rightarrow> None | Some x \<Rightarrow> Some (if ar_ID x = ar_ID r then r else x))" for i
    by (simp add: GetAccount_def find_set_account)
  have "\<exists>a1. GetAccount ?L i = Some a1 \<and> ar_TenantID a1 = ar_TenantID x \<and> ar_Kind a1 = ar_Kind x \<and> ar_NextSeq x \<le> ar_NextSeq a1" if "GetAccount L i = Some x" for i x
    using that assms GetAccount_ID [OF that] unfolding get by auto
  then have k: "keeps L ?L" unfolding keeps_def by (auto simp: ListPostingsByEntry_def)
  have "distinct (map ar_ID (set_account r (lg_accounts L)))" using ledger_okD(1) [OF assms(1)] by simp
  from ledger_ok_accounts [OF assms(1) this k] k show ?thesis by blast
qed

lemma ledger_ok_breaks: "ledger_ok L \<Longrightarrow> lg_accounts L1 = lg_accounts L \<Longrightarrow> lg_entries L1 = lg_entries L \<Longrightarrow>
    lg_postings L1 = lg_postings L \<Longrightarrow> lg_balances L1 = lg_balances L \<Longrightarrow> ledger_ok L1 \<and> keeps L L1"
proof -
  assume L: "ledger_ok L" and eq: "lg_accounts L1 = lg_accounts L" "lg_entries L1 = lg_entries L" "lg_postings L1 = lg_postings L" "lg_balances L1 = lg_balances L"
  then have "L1 = L\<lparr>lg_breaks := lg_breaks L1\<rparr>" by simp
  then obtain bs where L1: "L1 = L\<lparr>lg_breaks := bs\<rparr>" by blast
  have "posting_row_ok L1 p = posting_row_ok L p" "balance_ok L1 k = balance_ok L k" "ListPostingsByEntry L1 i = ListPostingsByEntry L i" "GetAccount L1 j = GetAccount L j" for p k i j
    by (simp_all add: L1 posting_row_ok_def GetJournalEntry_def balance_ok_def Let_def ListPostingsByEntry_def)
  with L eq show ?thesis unfolding ledger_ok_def keeps_def by auto
qed

definition same_books :: "Ledger \<Rightarrow> Ledger \<Rightarrow> bool" where
  "same_books L L1 \<longleftrightarrow> lg_accounts L1 = lg_accounts L \<and> lg_entries L1 = lg_entries L \<and> lg_postings L1 = lg_postings L \<and> lg_balances L1 = lg_balances L"

lemma same_books_refl [simp]: "same_books L L"
  by (simp add: same_books_def)

lemma same_books_trans: "same_books L L1 \<Longrightarrow> same_books L1 L2 \<Longrightarrow> same_books L L2"
  by (simp add: same_books_def)

lemma resolve_break_books: "same_books L (fst (resolve_break now b L))"
  by (auto simp: resolve_break_def ResolveLedgerBreak_def same_books_def split: prod.split sum.split)

lemma open_break_books: "same_books L (fst (open_break D t newID now l L))"
  by (auto simp: open_break_def InsertLedgerBreak_def same_books_def split: prod.split sum.split)

lemma open_loop_books: "same_books L (fst (open_loop D t newID now opn ts acc L))"
proof (induction D t newID now opn ts acc L rule: open_loop.induct)
  case (2 D tenant newID now opn t ts opened resolved L)
  show ?case
  proof (cases "Mapping.lookup opn (tb_Asset t)")
    case None
    with 2 open_break_books [of L D tenant newID now t] show ?thesis
      by (auto split: prod.split sum.split intro: same_books_trans)
  next
    case (Some prev)
    with 2 show ?thesis
      using resolve_break_books [of L now prev] open_break_books [of "fst (resolve_break now prev L)" D tenant newID now t]
      by (auto split: prod.split sum.split intro: same_books_trans)
  qed
qed simp

lemma close_loop_books: "same_books L (fst (close_loop now still ps acc L))"
proof (induction now still ps acc L rule: close_loop.induct)
  case (2 now still prev ps opened resolved L)
  with resolve_break_books [of L now prev] show ?case by (auto split: prod.split sum.split intro: same_books_trans)
qed simp

lemma ReconcileBreaks_books: "same_books L (fst (ReconcileBreaks D s newID now L))"
proof (cases "TrialBalance D s L")
  case (Inr lines)
  show ?thesis
  proof (cases "all_ok (breakFromRow D) (ListOpenLedgerBreaks L (sv_tenant s))")
    case brs: (Inr opn)
    let ?m = "open_map opn Mapping.empty"
    obtain L1 r where o: "open_loop D (sv_tenant s) newID now ?m (out_of_balance D lines) ([], []) L = (L1, r)"
      by (cases "open_loop D (sv_tenant s) newID now ?m (out_of_balance D lines) ([], []) L")
    have L1: "same_books L L1"
      using open_loop_books [of L D "sv_tenant s" newID now ?m "out_of_balance D lines" "([], [])"] by (simp add: o)
    show ?thesis
      using Inr brs L1 same_books_trans [OF L1 close_loop_books]
      by (auto simp: ReconcileBreaks_def Let_def o split: sum.split)
  qed (simp add: ReconcileBreaks_def Inr Let_def)
qed (simp add: ReconcileBreaks_def)

section \<open>The service\<close>

context decimal
begin

lemma post_success:
  assumes "ledger_ok L" and "snd (Post D s i e L) = Inr (je, replayed)"
  shows "Entry_Validate D e = None" and
    "replayed \<Longrightarrow> GetJournalEntryByKey L (sv_tenant s) (en_IdempotencyKey e) \<noteq> None \<and> same_reads L (fst (Post D s i e L)) \<and>
       ledger_ok (fst (Post D s i e L)) \<and> entryByKey D s L (en_IdempotencyKey e) = Inr je" and
    "\<not> replayed \<Longrightarrow> GetJournalEntryByKey L (sv_tenant s) (en_IdempotencyKey e) = None \<and> GetJournalEntry L i = None \<and>
       ledger_ok (fst (Post D s i e L)) \<and> posted s i e L (fst (Post D s i e L)) \<and> journal_of s i e (fst (Post D s i e L)) je \<and>
       (\<forall>p \<in> set (en_Postings e). account_fits s L p) \<and> funded L (en_Postings e) \<and> room L (en_Postings e)"
proof -
  show e: "Entry_Validate D e = None"
    using assms(2) by (cases "Entry_Validate D e") (auto simp: Post_def Service_Begin_eq)
  show "replayed \<Longrightarrow> GetJournalEntryByKey L (sv_tenant s) (en_IdempotencyKey e) \<noteq> None \<and> same_reads L (fst (Post D s i e L)) \<and>
       ledger_ok (fst (Post D s i e L)) \<and> entryByKey D s L (en_IdempotencyKey e) = Inr je"
  proof (cases "GetJournalEntryByKey L (sv_tenant s) (en_IdempotencyKey e)")
    case None
    assume replayed
    with assms(2) post_id_taken [OF e None, of i] post_fresh [OF assms(1) e None, of i] show ?thesis
      by (cases "GetJournalEntry L i = None") (auto split: if_splits)
  next
    case (Some r)
    with assms(2) post_replay [OF assms(1) e Some, of i] show ?thesis by auto
  qed
  show "\<not> replayed \<Longrightarrow> GetJournalEntryByKey L (sv_tenant s) (en_IdempotencyKey e) = None \<and> GetJournalEntry L i = None \<and>
       ledger_ok (fst (Post D s i e L)) \<and> posted s i e L (fst (Post D s i e L)) \<and> journal_of s i e (fst (Post D s i e L)) je \<and>
       (\<forall>p \<in> set (en_Postings e). account_fits s L p) \<and> funded L (en_Postings e) \<and> room L (en_Postings e)"
  proof (cases "GetJournalEntryByKey L (sv_tenant s) (en_IdempotencyKey e)")
    case None
    assume "\<not> replayed"
    with assms(2) None post_id_taken [OF e None, of i] post_fresh [OF assms(1) e None, of i] show ?thesis
      by (cases "GetJournalEntry L i = None") (auto split: if_splits)
  next
    case (Some r)
    assume "\<not> replayed"
    with assms(2) post_replay [OF assms(1) e Some, of i] show ?thesis by auto
  qed
qed

lemma posted_keeps:
  assumes "ledger_ok L" and "posted s i e L L2" and "GetJournalEntry L i = None"
  shows "keeps L L2"
proof -
  have "ListPostingsByEntry L2 (er_ID r) = ListPostingsByEntry L (er_ID r)" if "r \<in> set (lg_entries L)" for r
  proof -
    have "er_ID r \<noteq> i" using assms(3) that by (auto simp: GetJournalEntry_def find_None_iff)
    then show ?thesis using assms(2) by (auto simp: posted_def ListPostingsByEntry_def filter_empty_conv)
  qed
  with assms(2) show ?thesis by (auto simp: keeps_def posted_def GetAccount_def)
qed

lemma same_reads_keeps: "same_reads L L1 \<Longrightarrow> keeps L L1"
  by (auto simp: same_reads_def keeps_def ListPostingsByEntry_def GetAccount_def)

text \<open>Every command that succeeds keeps the invariant and everything written before.\<close>

lemma ledger_op_ok:
  assumes L: "ledger_ok L" and r: "snd (ledger_op D s c L) = Inr r"
  shows "ledger_ok (fst (ledger_op D s c L)) \<and> keeps L (fst (ledger_op D s c L))"
proof (cases c)
  case (CmdPost i e)
  with r obtain je rep where p: "snd (Post D s i e L) = Inr (je, rep)" by (auto simp: snd_map_result)
  show ?thesis
  proof (cases rep)
    case True
    with post_success(2) [OF L p] same_reads_keeps CmdPost show ?thesis by auto
  next
    case False
    with post_success(3) [OF L p] posted_keeps [OF L] CmdPost show ?thesis by auto
  qed
next
  case (CmdSpotAccount i owner)
  show ?thesis
  proof (cases "account_exists L i")
    case True
    with CmdSpotAccount r show ?thesis by (auto simp: snd_map_result CreateSpotAccount_def CreateSpotAccount_row_def)
  next
    case False
    with CmdSpotAccount new_account_ok [OF L, of "new_account i (sv_tenant s) KindSpot None owner"] show ?thesis
      by (simp add: CreateSpotAccount_def CreateSpotAccount_row_def Let_def new_account_def)
  qed
next
  case (CmdHouseAccount i h)
  show ?thesis
  proof (cases "find (\<lambda>r. ar_TenantID r = sv_tenant s \<and> ar_HouseCode r = Some h) (lg_accounts L) = None \<and> \<not> account_exists L i \<and> HouseCode_Valid h")
    case True
    with CmdHouseAccount new_account_ok [OF L, of "new_account i (sv_tenant s) KindHouse (Some h) None"] show ?thesis
      by (simp add: ensure_house_def EnsureHouseAccount_def Let_def new_account_def)
  next
    case False
    then have "fst (ensure_house s i h L) = L" by (auto simp: ensure_house_def EnsureHouseAccount_def split: option.split)
    with CmdHouseAccount L keeps_refl show ?thesis by simp
  qed
next
  case (CmdStatus i st)
  from r CmdStatus have st: "st = StatusActive \<or> st = StatusFrozen" by (auto simp: snd_map_result SetAccountStatus_def split: if_splits)
  show ?thesis
  proof (cases "GetAccount L i")
    case None
    with CmdStatus r show ?thesis by (auto simp: snd_map_result SetAccountStatus_def Service_Account_def split: if_splits)
  next
    case (Some a)
    note id = GetAccount_ID [OF Some]
    show ?thesis
    proof (cases "ar_TenantID a = sv_tenant s \<and> ar_Version a + 1 < 2 ^ 31")
      case True
      with st Some id CmdStatus set_account_ok [OF L, of "a\<lparr>ar_Status := st, ar_Version := ar_Version a + 1\<rparr>" a] show ?thesis
        by (auto simp: SetAccountStatus_def Service_Account_def UpdateAccountStatus_def Let_def)
    next
      case False
      with st Some CmdStatus r show ?thesis
        by (auto simp: snd_map_result SetAccountStatus_def Service_Account_def UpdateAccountStatus_def Let_def split: if_splits)
    qed
  qed
next
  case (CmdReserve i n)
  show ?thesis
  proof (cases "GetAccount L i")
    case None
    with CmdReserve r show ?thesis by (auto simp: snd_map_result ReserveAccountSeqs_def BumpAccountSeqBy_def split: if_splits)
  next
    case (Some a)
    note id = GetAccount_ID [OF Some]
    show ?thesis
    proof (cases "0 < n \<and> ar_NextSeq a + n < 2 ^ 63")
      case True
      with Some id CmdReserve set_account_ok [OF L, of "a\<lparr>ar_NextSeq := ar_NextSeq a + n\<rparr>" a] show ?thesis
        by (simp add: ReserveAccountSeqs_def BumpAccountSeqBy_def Let_def)
    next
      case False
      with Some CmdReserve r show ?thesis
        by (auto simp: snd_map_result ReserveAccountSeqs_def BumpAccountSeqBy_def Let_def split: if_splits)
    qed
  qed
next
  case (CmdReconcile newID now)
  with ReconcileBreaks_books [of L D s newID now] ledger_ok_breaks [OF L] show ?thesis by (auto simp: same_books_def)
qed

end

sublocale decimal < books: service "ledger_step D" ledger_ok
proof
  fix L :: Ledger and c :: "LedgerService \<times> 'd ledger_cmd"
  assume L: "ledger_ok L"
  show "\<exists>L1 r. ledger_step D L c = Some (L1, r) \<and> ledger_ok L1"
    using L ledger_op_ok [OF L, of "fst c" "snd c"]
    by (cases "snd (ledger_op D (fst c) (snd c) L)") (auto simp: ledger_step_def in_tx_cases)
next
  fix L L1 :: Ledger and c :: "LedgerService \<times> 'd ledger_cmd" and e
  assume "ledger_step D L c = Some (L1, Inl e)"
  then show "L1 = L" by (auto simp: ledger_step_def in_tx_cases split: sum.splits)
qed

context decimal
begin

lemma ledger_step_keeps:
  assumes "ledger_ok L" and "ledger_step D L c = Some (L1, r)"
  shows "keeps L L1"
  using assms(2) ledger_op_ok [OF assms(1), of "fst c" "snd c"] keeps_refl
  by (auto simp: ledger_step_def in_tx_cases split: sum.splits)

lemma reaches_keeps: "reaches (ledger_step D) L L1 \<Longrightarrow> ledger_ok L \<Longrightarrow> keeps L L1 \<and> ledger_ok L1"
proof (induction rule: reaches.induct)
  case (reaches_refl L)
  then show ?case by (simp add: keeps_refl)
next
  case (reaches_step L L' c L'' r)
  then have "keeps L L'" "ledger_ok L'" by auto
  moreover have "keeps L' L''" by (rule ledger_step_keeps [OF \<open>ledger_ok L'\<close> reaches_step.hyps(2)])
  moreover have "ledger_ok L''" using books.returns [OF \<open>ledger_ok L'\<close>, of c] reaches_step.hyps(2) by auto
  ultimately show ?case using keeps_trans by blast
qed

text \<open>An entry posted once is there in every later state, with the postings it had.\<close>

lemma keeps_entry:
  assumes L: "ledger_ok L" and L1: "ledger_ok L1" and k: "keeps L L1"
    and key: "GetJournalEntryByKey L t key = Some r"
  shows "GetJournalEntryByKey L1 t key = Some r \<and> ListPostingsByEntry L1 (er_ID r) = ListPostingsByEntry L (er_ID r)"
proof -
  from k obtain es where "lg_entries L1 = lg_entries L @ es" by (auto simp: keeps_def)
  with key have "GetJournalEntryByKey L1 t key = Some r" by (simp add: GetJournalEntryByKey_def find_append)
  moreover have "r \<in> set (lg_entries L)" using key by (auto simp: GetJournalEntryByKey_def dest: find_SomeD)
  ultimately show ?thesis using k by (auto simp: keeps_def)
qed

lemma keeps_entryByKey:
  assumes "ledger_ok L" "ledger_ok L1" "keeps L L1" "entryByKey D s L key = Inr je"
  shows "entryByKey D s L1 key = Inr je"
proof -
  from assms(4) obtain r where r: "GetJournalEntryByKey L (sv_tenant s) key = Some r" "withPostings D L r = Inr je"
    by (auto simp: entryByKey_def split: option.splits)
  from keeps_entry [OF assms(1-3) r(1)] r(2) show ?thesis by (simp add: entryByKey_def withPostings_def)
qed

text \<open>Posting the key again, in any later state, finds the entry and changes nothing that is read.\<close>

lemma post_again:
  assumes L: "ledger_ok L" and p: "ledger_step D L (s, CmdPost i e) = Some (L1, Inr (ResEntry je rep))"
    and r: "reaches (ledger_step D) L1 L2"
    and e': "Entry_Validate D e' = None" "en_IdempotencyKey e' = en_IdempotencyKey e"
  shows "\<exists>L3 je'. ledger_step D L2 (s, CmdPost i' e') = Some (L3, Inr (ResEntry je' True)) \<and> same_reads L2 L3 \<and>
    je_ID je' = je_ID je \<and> entryByKey D s L1 (en_IdempotencyKey e) = Inr je'"
proof -
  from p have post: "snd (Post D s i e L) = Inr (je, rep)" "L1 = fst (Post D s i e L)"
    by (auto simp: ledger_step_def in_tx_cases snd_map_result split: sum.splits)
  have ok: "ledger_ok L1"
    using p books.returns [OF L, of "(s, CmdPost i e)"] by auto
  with reaches_keeps [OF r] have k: "keeps L1 L2" "ledger_ok L2" by auto
  have "\<exists>jr. entryByKey D s L1 (en_IdempotencyKey e) = Inr jr \<and> je_ID jr = je_ID je"
  proof (cases rep)
    case True
    with post_success(2) [OF L post(1)] post(2) have "same_reads L L1" "entryByKey D s L (en_IdempotencyKey e) = Inr je" by auto
    with keeps_entryByKey [OF L ok same_reads_keeps] show ?thesis by blast
  next
    case False
    note f = post_success(3) [OF L post(1) False]
    then have "GetJournalEntryByKey L1 (sv_tenant s) (en_IdempotencyKey e) = Some (entry_row i (sv_tenant s) e)"
      by (auto simp: posted_def post(2) GetJournalEntryByKey_def find_append entry_row_def)
    moreover from this have "GetJournalEntryByKey L1 (sv_tenant s) (en_IdempotencyKey e) \<noteq> None" by simp
    moreover obtain jr where "entryByKey D s L1 (en_IdempotencyKey e) = Inr jr"
      using post_replay [OF ok post_success(1) [OF L post(1)] calculation(1), of i] by auto
    moreover have "je_ID je = i" using f by (simp add: journal_of_def)
    ultimately show ?thesis by (auto simp: entryByKey_def withPostings_def journalFromRow_def entry_row_def split: sum.splits)
  qed
  then obtain jr where jr: "entryByKey D s L1 (en_IdempotencyKey e) = Inr jr" "je_ID jr = je_ID je" by blast
  then obtain row where "GetJournalEntryByKey L1 (sv_tenant s) (en_IdempotencyKey e) = Some row" by (auto simp: entryByKey_def split: option.splits)
  with keeps_entry [OF ok k(2,1)] have row: "GetJournalEntryByKey L2 (sv_tenant s) (en_IdempotencyKey e') = Some row" by (simp add: e'(2))
  from post_replay [OF k(2) e'(1) row, of i'] obtain L3 je' where L3: "Post D s i' e' L2 = (L3, Inr (je', True))" "same_reads L2 L3"
    "entryByKey D s L2 (en_IdempotencyKey e') = Inr je'" by blast
  moreover have "je' = jr" using keeps_entryByKey [OF ok k(2,1) jr(1)] L3(3) by (simp add: e'(2))
  ultimately show ?thesis using jr by (auto simp: ledger_step_def in_tx_cases map_result_def)
qed

end

end
