(* ===== verification/Ledger_Facts.thy ===== *)
theory Ledger_Facts
  imports Ledger_Steps
begin

text \<open>
  What the invariant of the tables means for the reads: the trial balance is zero in every asset,
  the cached balances are the sums of the postings, and the balances derived from the postings are
  the cached ones. Then reservations of sequence numbers and the moves between the two buckets.
\<close>

section \<open>Trial balance\<close>

lemma sum_dir_simps [simp]:
  "sum_dir d [] = 0" "sum_dir d (r # rows) = (if pr_Direction r = d then pr_Amount r else 0) + sum_dir d rows"
  by (simp_all add: sum_dir_def)

lemma unet_sum_dir:
  "\<forall>r \<in> set rows. pr_Direction r \<in> {Debit, Credit} \<Longrightarrow>
   unet a rows = sum_dir Debit (filter (\<lambda>p. pr_Asset p = a) rows) - sum_dir Credit (filter (\<lambda>p. pr_Asset p = a) rows)"
  by (induction rows) (auto simp: usigned_def)

lemma ugain_sum_dir:
  "\<forall>r \<in> set rows. pr_Direction r \<in> {Debit, Credit} \<Longrightarrow>
   ugain acct a b rows =
     sum_dir Credit (filter (\<lambda>p. pr_Asset p = a \<and> pr_Bucket p = b) (filter (\<lambda>p. pr_AccountID p = acct) rows)) -
     sum_dir Debit (filter (\<lambda>p. pr_Asset p = a \<and> pr_Bucket p = b) (filter (\<lambda>p. pr_AccountID p = acct) rows))"
  by (induction rows) (auto simp: usigned_def)

lemma unet_filter_disj:
  "\<forall>r \<in> set rows. \<not> (P r \<and> Q r) \<Longrightarrow>
   unet a (filter (\<lambda>r. P r \<or> Q r) rows) = unet a (filter P rows) + unet a (filter Q rows)"
  by (induction rows) auto

lemma unet_by_entry:
  assumes "distinct is" and "\<forall>i \<in> set is. unet a (filter (\<lambda>p. pr_EntryID p = i) rows) = 0"
  shows "unet a (filter (\<lambda>p. pr_EntryID p \<in> set is) rows) = 0"
  using assms
proof (induction "is")
  case (Cons i "is")
  then have "unet a (filter (\<lambda>p. pr_EntryID p = i \<or> pr_EntryID p \<in> set is) rows) = 0"
    by (subst unet_filter_disj) auto
  then show ?case by simp
qed simp

lemma entry_of_tenant_iff:
  assumes "ledger_ok L"
  shows "entry_of_tenant L t i \<longleftrightarrow> i \<in> set (map er_ID (filter (\<lambda>r. er_TenantID r = t) (lg_entries L)))"
proof -
  have "GetJournalEntry L (er_ID r) = Some r" if "r \<in> set (lg_entries L)" for r
    using find_distinct_SomeI [OF ledger_okD(2) [OF assms] that] by (simp add: GetJournalEntry_def)
  then show ?thesis
    by (auto simp: entry_of_tenant_def GetJournalEntry_def image_iff split: option.splits dest: find_SomeD)
qed

lemma tenant_balanced:
  assumes "ledger_ok L"
  shows "unet a (filter (\<lambda>p. entry_of_tenant L t (pr_EntryID p)) (lg_postings L)) = 0"
  unfolding entry_of_tenant_iff [OF assms]
proof (rule unet_by_entry)
  show "distinct (map er_ID (filter (\<lambda>r. er_TenantID r = t) (lg_entries L)))"
    using ledger_okD(2) [OF assms] by (rule distinct_map_filter)
  show "\<forall>i \<in> set (map er_ID (filter (\<lambda>r. er_TenantID r = t) (lg_entries L))). unet a (filter (\<lambda>p. pr_EntryID p = i) (lg_postings L)) = 0"
    using ledger_okD(5) [OF assms, of _ a] by (auto simp: ListPostingsByEntry_def)
qed

lemma all_ok_in: "all_ok f xs = Inr ys \<Longrightarrow> y \<in> set ys \<Longrightarrow> \<exists>x \<in> set xs. f x = Inr y"
  by (induction xs arbitrary: ys) (auto split: sum.splits)

lemma directions_ok: "ledger_ok L \<Longrightarrow> p \<in> set (lg_postings L) \<Longrightarrow> pr_Direction p \<in> {Debit, Credit}"
  using ledger_okD(4) by (auto simp: posting_row_ok_def)

lemma trial_rows_balanced:
  assumes "ledger_ok L" and "TrialBalance_rows L t = Inr rows" and "(a, d, c) \<in> set rows"
  shows "d = c \<and> in_range d"
proof -
  let ?rows = "filter (\<lambda>p. entry_of_tenant L t (pr_EntryID p)) (lg_postings L)"
  from assms(2,3) obtain a' where "trial_line ?rows a' = Inr (a, d, c)"
    by (auto simp: TrialBalance_rows_def Let_def dest: all_ok_in)
  then have "in_range d" "d = sum_dir Debit (filter (\<lambda>p. pr_Asset p = a) ?rows)" "c = sum_dir Credit (filter (\<lambda>p. pr_Asset p = a) ?rows)"
    by (auto simp: trial_line_def Let_def split: if_splits)
  moreover have "\<forall>r \<in> set ?rows. pr_Direction r \<in> {Debit, Credit}" using directions_ok [OF assms(1)] by auto
  ultimately show ?thesis using unet_sum_dir [of ?rows a] tenant_balanced [OF assms(1), of a t] by simp
qed

text \<open>What a trade does to the two buckets of every account, in every asset.\<close>

definition trade_available :: "('d \<Rightarrow> rat) \<Rightarrow> 'd SettleParams \<Rightarrow> 'd SettleResult \<Rightarrow> string \<Rightarrow> string \<Rightarrow> rat" where
  "trade_available val p r acct a =
     (if a = sp_QuoteAsset p
      then (if acct = sp_BuyerAccountID p then amt_val val (sr_Release r) else 0) +
        (if acct = sp_SellerAccountID p then amt_val val (sp_QuoteQty p) - amt_val val (sr_SellerFee r) else 0)
      else if a = sp_BaseAsset p \<and> acct = sp_BuyerAccountID p then amt_val val (sp_Qty p) - amt_val val (sr_BuyerFee r) else 0)"

definition trade_held :: "('d \<Rightarrow> rat) \<Rightarrow> 'd SettleParams \<Rightarrow> 'd SettleResult \<Rightarrow> string \<Rightarrow> string \<Rightarrow> rat" where
  "trade_held val p r acct a =
     (if a = sp_QuoteAsset p \<and> acct = sp_BuyerAccountID p then - (amt_val val (sp_QuoteQty p) + amt_val val (sr_Release r))
      else if a = sp_BaseAsset p \<and> acct = sp_SellerAccountID p then - amt_val val (sp_Qty p) else 0)"

context decimal
begin

lemma trial_balance_zero:
  assumes "ledger_ok L" and "TrialBalance D s L = Inr lines" and "l \<in> set lines"
  shows "V (tb_Debits l) = V (tb_Credits l) \<and> Amount_IsZero D (tb_Diff l)"
proof -
  from assms(2) obtain rows where rows: "TrialBalance_rows L (sv_tenant s) = Inr rows" "all_ok (trial_amounts D) rows = Inr lines"
    by (auto simp: TrialBalance_def split: sum.splits)
  from rows(2) assms(3) obtain r where r: "r \<in> set rows" "trial_amounts D r = Inr l"
    by (auto dest: all_ok_in)
  obtain a d c where adc: "r = (a, d, c)" by (cases r)
  with trial_rows_balanced [OF assms(1) rows(1)] r(1) have "d = c" "in_range d" by auto
  with AmountFromNumeric_column [of d] r(2) show ?thesis by (auto simp: adc trial_amounts_def split: sum.splits)
qed

section \<open>Balances\<close>

lemma balanceFromRow_ok:
  assumes "balance_ok L k"
  shows "\<exists>b. balanceFromRow D (balance_row L k) = Inr b \<and> bal_AccountID b = key_account k \<and> bal_Asset b = key_asset k \<and>
    V (bal_Available b) = unit_val (br_Available (balance_row L k)) \<and> V (bal_Hold b) = unit_val (br_Hold (balance_row L k))"
  using balance_okD [OF assms] AmountFromNumeric_column [of "br_Available (balance_row L k)"]
    AmountFromNumeric_column [of "br_Hold (balance_row L k)"]
  by (auto simp: balanceFromRow_def)

lemma cached_balance:
  assumes "ledger_ok L"
  shows "\<exists>b. Service_Balance D L acct a = Inr b \<and> V (bal_Available b) = avail L acct a \<and> V (bal_Hold b) = held L acct a"
proof (cases "GetBalance L acct a")
  case None
  then have "balance_row L (BalanceKey acct a) = \<lparr>br_AccountID = acct, br_Asset = a, br_Available = 0, br_Hold = 0, br_Version = 1\<rparr>"
    by (simp add: GetBalance_def balance_row_def)
  with None show ?thesis by (simp add: Service_Balance_def avail_def held_def)
next
  case (Some r)
  then have "r = balance_row L (BalanceKey acct a)" by (simp add: GetBalance_def balance_row_def)
  with Some balanceFromRow_ok [OF ledger_okD(7) [OF assms, of "BalanceKey acct a"]] show ?thesis
    by (auto simp: Service_Balance_def avail_def held_def)
qed

lemma balances_sums:
  assumes "ledger_ok L"
  shows "avail L acct a = unit_val (ugain acct a BucketAvailable (lg_postings L)) \<and> 0 \<le> avail L acct a \<and> avail L acct a < 10 ^ 18 \<and>
    held L acct a = unit_val (ugain acct a BucketHold (lg_postings L)) \<and> 0 \<le> held L acct a \<and> held L acct a < 10 ^ 18"
proof -
  note b = balance_okD [OF ledger_okD(7) [OF assms, of "BalanceKey acct a"]]
  have "0 \<le> avail L acct a" "0 \<le> held L acct a" using b by (simp_all add: avail_def held_def)
  moreover have "avail L acct a < 10 ^ 18" "held L acct a < 10 ^ 18"
    using b in_range_unit by (auto simp: avail_def held_def)
  ultimately show ?thesis using b by (simp add: avail_def held_def)
qed

lemma balances_range:
  assumes "ledger_ok L"
  shows "0 \<le> avail L acct a" "avail L acct a < 10 ^ 18" "0 \<le> held L acct a" "held L acct a < 10 ^ 18"
  using balances_sums [OF assms] by blast+

section \<open>Derived balances\<close>

definition derived_vals :: "(string, 'd Balance) mapping \<Rightarrow> string \<Rightarrow> rat \<times> rat" where
  "derived_vals m a = (case Mapping.lookup m a of None \<Rightarrow> (0, 0) | Some b \<Rightarrow> (V (bal_Available b), V (bal_Hold b)))"

definition group_val :: "(string \<times> Bucket \<times> int) list \<Rightarrow> string \<Rightarrow> Bucket \<Rightarrow> rat \<Rightarrow> rat" where
  "group_val rows a b x = (case find (\<lambda>r. fst r = a \<and> fst (snd r) = b) rows of None \<Rightarrow> x | Some r \<Rightarrow> unit_val (snd (snd r)))"

lemma group_val_simps [simp]:
  "group_val [] a b x = x"
  "group_val ((a', b', u) # rows) a b x = (if a' = a \<and> b' = b then unit_val u else group_val rows a b x)"
  by (simp_all add: group_val_def)

lemma group_val_absent: "(a, b) \<notin> set (map (\<lambda>r. (fst r, fst (snd r))) rows) \<Longrightarrow> group_val rows a b x = x"
  by (induction rows) auto

lemma derive_balances_ok:
  assumes "\<forall>r \<in> set rows. in_range (snd (snd r))" and "distinct (map (\<lambda>r. (fst r, fst (snd r))) rows)"
    and "set order = Mapping.keys m" and "\<forall>a b. Mapping.lookup m a = Some b \<longrightarrow> bal_Asset b = a \<and> bal_AccountID b = acct"
  shows "\<exists>m1 order1. derive_balances D acct rows m order = Inr (m1, order1) \<and> set order1 = Mapping.keys m1 \<and>
    Mapping.keys m1 = Mapping.keys m \<union> fst ` set rows \<and>
    (\<forall>a b. Mapping.lookup m1 a = Some b \<longrightarrow> bal_Asset b = a \<and> bal_AccountID b = acct) \<and>
    (\<forall>a. derived_vals m1 a = (group_val rows a BucketAvailable (fst (derived_vals m a)), group_val rows a BucketHold (snd (derived_vals m a))))"
  using assms
proof (induction rows arbitrary: m order)
  case (Cons r rows)
  obtain a bk u where r: "r = (a, bk, u)" by (cases r)
  with Cons.prems(1) obtain v where v: "AmountFromNumeric D (column u) = Inr v" "V v = unit_val u"
    using AmountFromNumeric_column [of u] by auto
  let ?b = "case Mapping.lookup m a of
      None \<Rightarrow> \<lparr>bal_AccountID = acct, bal_Asset = a, bal_Available = Zero D, bal_Hold = Zero D, bal_Version = 0\<rparr> | Some b \<Rightarrow> b"
  let ?order = "case Mapping.lookup m a of None \<Rightarrow> order @ [a] | Some b \<Rightarrow> order"
  let ?b1 = "case bk of BucketAvailable \<Rightarrow> ?b\<lparr>bal_Available := v\<rparr> | BucketHold \<Rightarrow> ?b\<lparr>bal_Hold := v\<rparr> | _ \<Rightarrow> ?b"
  let ?m = "Mapping.update a ?b1 m"
  have b: "bal_Asset ?b1 = a" "bal_AccountID ?b1 = acct"
    using Cons.prems(4) by (auto split: option.split Bucket.split)
  have order: "set ?order = Mapping.keys ?m"
  proof -
    have "a \<in> Mapping.keys m \<longleftrightarrow> Mapping.lookup m a \<noteq> None" by (auto simp: keys_dom_lookup)
    with Cons.prems(3) show ?thesis by (cases "Mapping.lookup m a") auto
  qed
  have step: "derive_balances D acct (r # rows) m order = derive_balances D acct rows ?m ?order"
    by (simp add: r v Let_def split: option.split)
  have vals: "derived_vals ?m a' = (if a' = a then (if bk = BucketAvailable then unit_val u else fst (derived_vals m a),
      if bk = BucketHold then unit_val u else snd (derived_vals m a)) else derived_vals m a')" for a'
    by (cases "a' = a"; cases bk; cases "Mapping.lookup m a") (simp_all add: derived_vals_def Mapping.lookup_update' v)
  have nin: "(a, bk) \<notin> set (map (\<lambda>r. (fst r, fst (snd r))) rows)" using Cons.prems(2) r by simp
  have tags: "\<forall>a' b'. Mapping.lookup ?m a' = Some b' \<longrightarrow> bal_Asset b' = a' \<and> bal_AccountID b' = acct"
    using b Cons.prems(4) by (simp add: Mapping.lookup_update')
  have "\<exists>m1 order1. derive_balances D acct rows ?m ?order = Inr (m1, order1) \<and> set order1 = Mapping.keys m1 \<and>
    Mapping.keys m1 = Mapping.keys ?m \<union> fst ` set rows \<and>
    (\<forall>a b. Mapping.lookup m1 a = Some b \<longrightarrow> bal_Asset b = a \<and> bal_AccountID b = acct) \<and>
    (\<forall>a. derived_vals m1 a = (group_val rows a BucketAvailable (fst (derived_vals ?m a)), group_val rows a BucketHold (snd (derived_vals ?m a))))"
    by (rule Cons.IH) (use Cons.prems(1,2) order tags in auto)
  then obtain m1 order1 where IH: "derive_balances D acct rows ?m ?order = Inr (m1, order1)" "set order1 = Mapping.keys m1"
    "Mapping.keys m1 = Mapping.keys ?m \<union> fst ` set rows"
    "\<forall>a b. Mapping.lookup m1 a = Some b \<longrightarrow> bal_Asset b = a \<and> bal_AccountID b = acct"
    "\<forall>a. derived_vals m1 a = (group_val rows a BucketAvailable (fst (derived_vals ?m a)), group_val rows a BucketHold (snd (derived_vals ?m a)))"
    by blast
  have "derived_vals m1 a' = (group_val (r # rows) a' BucketAvailable (fst (derived_vals m a')),
      group_val (r # rows) a' BucketHold (snd (derived_vals m a')))" for a'
    using IH(5) vals [of a'] nin group_val_absent [of a bk rows] by (auto simp: r)
  with IH(1-4) step show ?case by (auto simp: r)
qed (use assms in auto)

lemma bucket_sum_val:
  assumes "ledger_ok L"
  shows "bucket_sum (filter (\<lambda>p. pr_AccountID p = acct) (lg_postings L)) (a, b) =
    (if in_range (ugain acct a b (lg_postings L)) then Inr (a, b, ugain acct a b (lg_postings L)) else Inl OtherSqlError)"
  using ugain_sum_dir [of "lg_postings L" acct a b] directions_ok [OF assms] by (simp add: bucket_sum_def Let_def)

lemma mem_filtered_groups: "x \<in> set (concat (map (\<lambda>a. filter P (f a)) as)) \<longleftrightarrow> P x \<and> (\<exists>a \<in> set as. x \<in> set (f a))"
  by auto

lemma bucket_groups_iff:
  assumes "\<forall>r \<in> set rows. pr_Bucket r \<in> {BucketAvailable, BucketHold, BucketHouse}"
  shows "set (bucket_groups rows) = (\<lambda>r. (pr_Asset r, pr_Bucket r)) ` set rows"
proof -
  have "(a, b) \<in> set (bucket_groups rows) \<longleftrightarrow> (\<exists>r \<in> set rows. (pr_Asset r, pr_Bucket r) = (a, b))" for a b
  proof -
    have "(a, b) \<in> set (bucket_groups rows) \<longleftrightarrow> a \<in> pr_Asset ` set rows \<and> b \<in> {BucketAvailable, BucketHold, BucketHouse} \<and>
        (\<exists>r \<in> set rows. (pr_Asset r, pr_Bucket r) = (a, b))"
      unfolding bucket_groups_def mem_filtered_groups by (auto simp: list_ex_iff sorted_assets_def)
    with assms show ?thesis by auto
  qed
  then show ?thesis by (auto simp: image_iff)
qed

lemma distinct_bucket_groups: "distinct (bucket_groups rows)"
proof -
  have d: "distinct (concat (map (\<lambda>a. filter P [(a, BucketAvailable), (a, BucketHold), (a, BucketHouse)]) as))" if "distinct as"
    for P and as :: "string list"
    using that by (induction as) auto
  show ?thesis unfolding bucket_groups_def by (rule d) (simp add: sorted_assets_def)
qed

lemma ugain_no_group:
  "(a, b) \<notin> (\<lambda>r. (pr_Asset r, pr_Bucket r)) ` set (filter (\<lambda>p. pr_AccountID p = acct) rows) \<Longrightarrow> ugain acct a b rows = 0"
  by (induction rows) (auto split: if_splits)

lemma group_val_map:
  "group_val (map (\<lambda>(a, b). (a, b, f a b)) gs) a b x = (if (a, b) \<in> set gs then unit_val (f a b) else x)"
  by (induction gs) (auto split: if_splits)

lemma derived_sums:
  assumes L: "ledger_ok L" and "AccountBucketSums L acct = Inr rows"
  shows "\<exists>bs. DerivedBalances D L acct = Inr bs \<and>
    (\<forall>b \<in> set bs. bal_AccountID b = acct \<and> V (bal_Available b) = avail L acct (bal_Asset b) \<and> V (bal_Hold b) = held L acct (bal_Asset b)) \<and>
    (\<forall>a. a \<notin> bal_Asset ` set bs \<longrightarrow> avail L acct a = 0 \<and> held L acct a = 0)"
proof -
  let ?rs = "filter (\<lambda>p. pr_AccountID p = acct) (lg_postings L)"
  let ?gs = "bucket_groups ?rs" and ?u = "\<lambda>a b. ugain acct a b (lg_postings L)"
  have bk: "\<forall>r \<in> set ?rs. pr_Bucket r \<in> {BucketAvailable, BucketHold, BucketHouse}"
    using ledger_okD(4) [OF L] by (auto simp: posting_row_ok_def)
  have "list_all2 (\<lambda>g r. bucket_sum ?rs g = Inr r) ?gs rows"
    using assms(2) by (simp add: AccountBucketSums_def Let_def all_ok_iff)
  then have "rows = map (\<lambda>(a, b). (a, b, ?u a b)) ?gs \<and> (\<forall>r \<in> set rows. in_range (snd (snd r)))"
    by (induction rule: list_all2_induct) (auto simp: bucket_sum_val [OF L] split: if_splits)
  then have rows: "rows = map (\<lambda>(a, b). (a, b, ?u a b)) ?gs" and rng: "\<forall>r \<in> set rows. in_range (snd (snd r))" by auto
  have dist: "distinct (map (\<lambda>r. (fst r, fst (snd r))) rows)"
    using distinct_bucket_groups [of ?rs] by (simp add: rows o_def split_def)
  obtain m order where d: "derive_balances D acct rows Mapping.empty [] = Inr (m, order)" "set order = Mapping.keys m"
    "Mapping.keys m = fst ` set rows" "\<forall>a b. Mapping.lookup m a = Some b \<longrightarrow> bal_Asset b = a \<and> bal_AccountID b = acct"
    "\<forall>a. derived_vals m a = (group_val rows a BucketAvailable 0, group_val rows a BucketHold 0)"
    using derive_balances_ok [OF rng dist, of "[]" Mapping.empty acct] by (auto simp: derived_vals_def)
  have gv: "group_val rows a b 0 = unit_val (?u a b)" for a b
    using ugain_no_group [of a b acct "lg_postings L"] by (auto simp: rows group_val_map bucket_groups_iff [OF bk])
  have dv: "derived_vals m a = (avail L acct a, held L acct a)" for a
    using d(5) balances_sums [OF L, of acct a] by (simp add: gv)
  let ?bs = "List.map_filter (Mapping.lookup m) order"
  have mem: "b \<in> set ?bs \<longleftrightarrow> (\<exists>a. Mapping.lookup m a = Some b)" for b
    using d(2) by (force simp: List.map_filter_def keys_dom_lookup)
  have "bal_AccountID b = acct \<and> V (bal_Available b) = avail L acct (bal_Asset b) \<and> V (bal_Hold b) = held L acct (bal_Asset b)" if "b \<in> set ?bs" for b
    using that d(4) dv [of "bal_Asset b"] by (auto simp: mem derived_vals_def)
  moreover have "avail L acct a = 0 \<and> held L acct a = 0" if "a \<notin> bal_Asset ` set ?bs" for a
  proof -
    have "Mapping.lookup m a = None" using that d(4) by (cases "Mapping.lookup m a") (force simp: mem image_iff)+
    then show ?thesis using dv [of a] by (simp add: derived_vals_def)
  qed
  ultimately show ?thesis using assms(2) d(1) by (auto simp: DerivedBalances_def)
qed

text \<open>The sums of an account that is not a house account are in range, so its balances can be derived.\<close>

lemma account_sums_ok:
  assumes L: "ledger_ok L" and "\<forall>r. GetAccount L acct = Some r \<longrightarrow> ar_Kind r \<noteq> KindHouse"
  shows "\<exists>rows. AccountBucketSums L acct = Inr rows"
proof -
  let ?rs = "filter (\<lambda>p. pr_AccountID p = acct) (lg_postings L)"
  have "\<exists>r. bucket_sum ?rs g = Inr r" if "g \<in> set (bucket_groups ?rs)" for g
  proof -
    obtain a b where g: "g = (a, b)" by (cases g)
    have "\<forall>r \<in> set ?rs. pr_Bucket r \<in> {BucketAvailable, BucketHold, BucketHouse}"
      using ledger_okD(4) [OF L] by (auto simp: posting_row_ok_def)
    from bucket_groups_iff [OF this] that obtain p where p: "p \<in> set (lg_postings L)" "pr_AccountID p = acct" "pr_Bucket p = b"
      by (auto simp: g)
    with ledger_okD(4) [OF L p(1)] assms(2) have "b = BucketAvailable \<or> b = BucketHold" by (auto simp: posting_row_ok_def)
    then have "in_range (ugain acct a b (lg_postings L))"
      using balance_okD [OF ledger_okD(7) [OF L, of "BalanceKey acct a"]] by auto
    then show ?thesis by (simp add: g bucket_sum_val [OF L])
  qed
  then have "\<exists>rows. all_ok (bucket_sum ?rs) (bucket_groups ?rs) = Inr rows \<and> list_all2 (\<lambda>_ _. True) (bucket_groups ?rs) rows"
    by (intro all_ok_total) simp
  then show ?thesis by (auto simp: AccountBucketSums_def)
qed

section \<open>Sequence numbers\<close>

lemma reserve_step:
  assumes "ledger_step D L (s, CmdReserve i n) = Some (L1, Inr r)"
  shows "\<exists>a a1. GetAccount L i = Some a \<and> GetAccount L1 i = Some a1 \<and> 0 < n \<and>
    r = ResSeq (ar_NextSeq a + 1) \<and> ar_NextSeq a1 = ar_NextSeq a + n"
proof (cases "GetAccount L i")
  case None
  with assms show ?thesis
    by (auto simp: ledger_step_def in_tx_cases map_result_def ReserveAccountSeqs_def BumpAccountSeqBy_def split: if_splits)
next
  case (Some a)
  note id = GetAccount_ID [OF Some]
  have "GetAccount (L\<lparr>lg_accounts := set_account (a\<lparr>ar_NextSeq := x\<rparr>) (lg_accounts L)\<rparr>) i = Some (a\<lparr>ar_NextSeq := x\<rparr>)" for x
    using Some id by (simp add: GetAccount_def find_set_account)
  with Some assms show ?thesis
    by (auto simp: ledger_step_def in_tx_cases map_result_def ReserveAccountSeqs_def BumpAccountSeqBy_def Let_def split: if_splits)
qed

lemma reservations_disjoint:
  assumes "ledger_ok L"
    and "ledger_step D L (s, CmdReserve i n) = Some (L1, Inr (ResSeq f))" and "reaches (ledger_step D) L1 L2"
    and "ledger_step D L2 (s', CmdReserve i n') = Some (L3, Inr (ResSeq f'))"
  shows "f + n \<le> f'"
proof -
  obtain L1' r where "ledger_step D L (s, CmdReserve i n) = Some (L1', r)" "ledger_ok L1'" using books.returns [OF assms(1)] by blast
  then have L1: "ledger_ok L1" using assms(2) by simp
  from reserve_step [OF assms(2)] obtain a1 where a1: "GetAccount L1 i = Some a1" "f + n = ar_NextSeq a1 + 1" by auto
  from reaches_keeps [OF assms(3) L1] a1(1) obtain a2 where a2: "GetAccount L2 i = Some a2" "ar_NextSeq a1 \<le> ar_NextSeq a2"
    unfolding keeps_def by blast
  from reserve_step [OF assms(4)] a2 have "f' = ar_NextSeq a2 + 1" by auto
  with a1(2) a2(2) show ?thesis by simp
qed

section \<open>Holds\<close>

definition move_ok :: "'d HoldParams \<Rightarrow> bool" where
  "move_ok p \<longleftrightarrow> hp_IdempotencyKey p \<noteq> [] \<and> hp_AccountID p \<noteq> [] \<and> hp_Asset p \<noteq> [] \<and> 0 < V (hp_Amount p) \<and>
     Amount_Validate D (hp_Amount p) = None"

text \<open>An entry that moves an amount of an account between its two buckets.\<close>

definition is_move :: "Bucket \<Rightarrow> Bucket \<Rightarrow> 'd HoldParams \<Rightarrow> 'd Entry \<Rightarrow> bool" where
  "is_move from to p e \<longleftrightarrow> en_IdempotencyKey e = hp_IdempotencyKey p \<and> en_Kind e \<noteq> [] \<and>
     en_Postings e = [posting (hp_AccountID p) (hp_Asset p) from Debit (hp_Amount p),
                      posting (hp_AccountID p) (hp_Asset p) to Credit (hp_Amount p)]"

lemma move_valid:
  assumes "is_move from to p e" "from \<in> {BucketAvailable, BucketHold}" "to \<in> {BucketAvailable, BucketHold}"
  shows "Entry_Validate D e = None \<longleftrightarrow> move_ok p"
  using assms by (auto simp: Entry_Validate_iff is_move_def move_ok_def posting_ok_posting)

lemma moves:
  "holdEntry D p = Inr e \<Longrightarrow> is_move BucketAvailable BucketHold p e"
  "releaseEntry D p = Inr e \<Longrightarrow> is_move BucketHold BucketAvailable p e"
  by (auto simp: holdEntry_def releaseEntry_def is_move_def KindHold_def KindRelease_def split: if_splits)

lemma move_gain:
  assumes "is_move from to p e" "from \<noteq> to"
  shows "gain val acct a b (en_Postings e) = (if acct = hp_AccountID p \<and> a = hp_Asset p
    then (if b = from then - V (hp_Amount p) else if b = to then V (hp_Amount p) else 0) else 0)"
  using assms by (auto simp: is_move_def)

lemma hold_outcome:
  assumes L: "ledger_ok L" and p: "move_ok p"
    and acc: "GetAccount L (hp_AccountID p) = Some r" "ar_TenantID r = sv_tenant s" "ar_Kind r \<noteq> KindHouse"
    and fresh: "GetJournalEntryByKey L (sv_tenant s) (hp_IdempotencyKey p) = None" "GetJournalEntry L i = None"
  shows "if avail L (hp_AccountID p) (hp_Asset p) < V (hp_Amount p) then in_tx (Hold D s i p) L = (L, Inl ErrInsufficient)
    else if 10 ^ 18 \<le> held L (hp_AccountID p) (hp_Asset p) + V (hp_Amount p) then in_tx (Hold D s i p) L = (L, Inl errStore)
    else \<exists>L1 je. in_tx (Hold D s i p) L = (L1, Inr (je, False)) \<and> ledger_ok L1 \<and>
      (\<forall>acct a. avail L1 acct a = avail L acct a - (if acct = hp_AccountID p \<and> a = hp_Asset p then V (hp_Amount p) else 0) \<and>
                held L1 acct a = held L acct a + (if acct = hp_AccountID p \<and> a = hp_Asset p then V (hp_Amount p) else 0))"
proof -
  from p obtain e where e: "holdEntry D p = Inr e" by (auto simp: holdEntry_def move_ok_def)
  note mv = moves(1) [OF e]
  have valid: "Entry_Validate D e = None" using p move_valid [OF mv] by simp
  have key: "GetJournalEntryByKey L (sv_tenant s) (en_IdempotencyKey e) = None" using fresh(1) mv by (simp add: is_move_def)
  have fit: "\<forall>q \<in> set (en_Postings e). account_fits s L q" using mv acc by (auto simp: is_move_def account_fits_def)
  let ?a = "avail L (hp_AccountID p) (hp_Asset p)" and ?h = "held L (hp_AccountID p) (hp_Asset p)" and ?v = "V (hp_Amount p)"
  have v: "0 < ?v" using p by (simp add: move_ok_def)
  note g = move_gain [OF mv, simplified]
  have fund: "funded L (en_Postings e) \<longleftrightarrow> ?v \<le> ?a"
  proof
    assume "funded L (en_Postings e)"
    then have "0 \<le> ?a + gain val (hp_AccountID p) (hp_Asset p) BucketAvailable (en_Postings e)" unfolding funded_def by blast
    then show "?v \<le> ?a" by (simp add: g)
  next
    assume "?v \<le> ?a"
    with balances_range(1,3) [OF L] v show "funded L (en_Postings e)" by (simp add: funded_def g)
  qed
  have rm: "room L (en_Postings e) \<longleftrightarrow> ?h + ?v < 10 ^ 18"
  proof
    assume "room L (en_Postings e)"
    then have "held L (hp_AccountID p) (hp_Asset p) + gain val (hp_AccountID p) (hp_Asset p) BucketHold (en_Postings e) < 10 ^ 18"
      unfolding room_def by blast
    then show "?h + ?v < 10 ^ 18" by (simp add: g)
  next
    assume "?h + ?v < 10 ^ 18"
    moreover have "?a - ?v < 10 ^ 18" using balances_range(2) [OF L, of "hp_AccountID p" "hp_Asset p"] v by linarith
    ultimately show "room L (en_Postings e)" using balances_range(2,4) [OF L] by (simp add: room_def g)
  qed
  have hold: "Hold D s i p L = Post D s i e L" by (simp add: Hold_def post_entry_def e)
  from post_fresh [OF L valid key fresh(2)] fit fund rm show ?thesis
    by (auto simp: in_tx_cases hold posted_def g not_less not_le)
qed

section \<open>Settlement\<close>

lemma gain_other_asset: "a \<notin> po_Asset ` set ps \<Longrightarrow> gain val acct a b ps = 0"
  by (induction ps) auto

lemma settle_assets: "po_Asset ` set (settle_postings D p fr bf sf rel) \<subseteq> {sp_BaseAsset p, sp_QuoteAsset p}"
  by (auto simp: settle_postings_def)

text \<open>What an accepted settlement is: its fees, its release, and the change of every bucket.\<close>

lemma settle_built:
  assumes "BuildSettleEntry D p fr = Inr (e, r)"
  shows "Entry_Validate D e = None" and "settle_error D p fr = None"
    and "fee_spec (sp_Qty p) (buyer_bps p) (fp_BaseScale (sp_Fees p)) (sr_BuyerFee r)"
    and "fee_spec (sp_QuoteQty p) (seller_bps p) (fp_QuoteScale (sp_Fees p)) (sr_SellerFee r)"
    and "V (sr_BuyerFee r) < V (sp_Qty p)" and "V (sr_SellerFee r) < V (sp_QuoteQty p)"
    and "V (sr_Release r) = V (settle_release D p)"
    and "gain val acct a BucketAvailable (en_Postings e) = trade_available val p r acct a"
    and "gain val acct a BucketHold (en_Postings e) = trade_held val p r acct a"
proof -
  show err: "settle_error D p fr = None" using assms by (auto simp: BuildSettleEntry_def split: option.splits)
  then obtain bf sf where fees: "fee_spec (sp_Qty p) (buyer_bps p) (fp_BaseScale (sp_Fees p)) bf"
    "fee_spec (sp_QuoteQty p) (seller_bps p) (fp_QuoteScale (sp_Fees p)) sf" by (rule settle_fees)
  from assms BuildSettleEntry_eq [OF err fees]
  have e: "e = settle_entry p fr bf sf" "r = settle_result p bf sf" and valid: "Entry_Validate D (settle_entry p fr bf sf) = None"
    and less: "V bf < V (sp_Qty p)" "V sf < V (sp_QuoteQty p)" by (auto split: if_splits option.splits)
  show "Entry_Validate D e = None" using valid e by simp
  show "fee_spec (sp_Qty p) (buyer_bps p) (fp_BaseScale (sp_Fees p)) (sr_BuyerFee r)"
    "fee_spec (sp_QuoteQty p) (seller_bps p) (fp_QuoteScale (sp_Fees p)) (sr_SellerFee r)"
    "V (sr_BuyerFee r) < V (sp_Qty p)" "V (sr_SellerFee r) < V (sp_QuoteQty p)" "V (sr_Release r) = V (settle_release D p)"
    using fees less e by (simp_all add: settle_result_def)
  from err have ne: "sp_BaseAsset p \<noteq> sp_QuoteAsset p" and pos: "0 < V (sp_Qty p)" by (simp_all add: settle_error_iff)
  then have nn: "0 \<le> V bf" "0 \<le> V sf" "0 \<le> V (settle_release D p)"
    using fees by (simp_all add: fee_spec_def settle_release_val)
  have ps: "en_Postings e = settle_postings D p fr bf sf (settle_release D p)" by (simp add: e settle_entry_def)
  note g = settle_gain [OF nn ne, of acct fr]
  have other: "a \<noteq> sp_BaseAsset p \<Longrightarrow> a \<noteq> sp_QuoteAsset p \<Longrightarrow> gain val acct a b (en_Postings e) = 0" for b
    using settle_assets [of p fr bf sf "settle_release D p"] by (intro gain_other_asset) (auto simp: ps)
  show "gain val acct a BucketAvailable (en_Postings e) = trade_available val p r acct a"
    using g ne other by (cases "a = sp_QuoteAsset p"; cases "a = sp_BaseAsset p") (simp_all add: trade_available_def e(2) settle_result_def ps)
  show "gain val acct a BucketHold (en_Postings e) = trade_held val p r acct a"
    using g ne other by (cases "a = sp_QuoteAsset p"; cases "a = sp_BaseAsset p") (simp_all add: trade_held_def e(2) settle_result_def ps)
qed

lemma settle_posts:
  assumes L: "ledger_ok L" and r: "Settle D s i p L = (L1, Inr ((je, r), False))"
  shows "ledger_ok L1 \<and> je_IdempotencyKey je = (if sp_IdempotencyKey p = [] then ''settle:trade:'' @ sp_TradeID p else sp_IdempotencyKey p) \<and>
    (\<forall>acct a. avail L1 acct a = avail L acct a + trade_available val p r acct a \<and> held L1 acct a = held L acct a + trade_held val p r acct a)"
proof -
  from r obtain e fr where e: "BuildSettleEntry D p fr = Inr (e, r)" and post: "Post D s i e L = (L1, Inr (je, False))"
    by (auto simp: Settle_def settleEntry_def split: sum.splits prod.splits)
  have key: "en_IdempotencyKey e = (if sp_IdempotencyKey p = [] then ''settle:trade:'' @ sp_TradeID p else sp_IdempotencyKey p)"
    using e by (auto simp: BuildSettleEntry_def Let_def split: option.splits sum.splits if_splits)
  from post have "snd (Post D s i e L) = Inr (je, False)" by simp
  from post_success(3) [OF L this] post have "ledger_ok L1" "posted s i e L L1" "journal_of s i e L1 je" by auto
  with settle_built(8,9) [OF e] key show ?thesis by (auto simp: posted_def journal_of_def)
qed

end

end
