(* ===== verification/Ledger_Claims.thy ===== *)
theory Ledger_Claims
  imports Ledger_Facts
begin

text \<open>
  The properties of the ledger, for any decimal package that obeys the laws of \<open>decimal\<close>, each
  with a witness on the fixed-point package: two house accounts, two spot accounts, a deposit and
  what is posted after it.
\<close>

section \<open>Lemmas the properties share\<close>

context decimal
begin

lemma post_in_tx:
  assumes L: "ledger_ok L"
  shows "case Entry_Validate D e of
      Some err \<Rightarrow> in_tx (Post D s i e) L = (L, Inl err)
    | None \<Rightarrow>
        (case GetJournalEntryByKey L (sv_tenant s) (en_IdempotencyKey e) of
           Some r \<Rightarrow> \<exists>L1 je. in_tx (Post D s i e) L = (L1, Inr (je, True)) \<and> same_reads L L1 \<and> ledger_ok L1 \<and>
             entryByKey D s L (en_IdempotencyKey e) = Inr je
         | None \<Rightarrow>
             if GetJournalEntry L i \<noteq> None then in_tx (Post D s i e) L = (L, Inl errStore)
             else if \<not> (\<forall>p \<in> set (en_Postings e). account_fits s L p)
             then in_tx (Post D s i e) L = (L, Inl ErrAccountNotFound) \<or> in_tx (Post D s i e) L = (L, Inl ErrAccountKind)
             else if \<not> funded_by val L (en_Postings e) then in_tx (Post D s i e) L = (L, Inl ErrInsufficient)
             else if \<not> room_for val L (en_Postings e) then in_tx (Post D s i e) L = (L, Inl errStore)
             else \<exists>L1 je. in_tx (Post D s i e) L = (L1, Inr (je, False)) \<and> ledger_ok L1 \<and>
               posted_by D val s i e L L1 \<and> journal_by D val s i e L1 je)"
proof (cases "Entry_Validate D e")
  case (Some err)
  then show ?thesis by (simp add: in_tx_cases Post_def Service_Begin_eq)
next
  case e: None
  show ?thesis
  proof (cases "GetJournalEntryByKey L (sv_tenant s) (en_IdempotencyKey e)")
    case (Some r)
    from post_replay [OF L e Some, of i] show ?thesis by (auto simp: e Some in_tx_cases)
  next
    case key: None
    show ?thesis
    proof (cases "GetJournalEntry L i")
      case None
      from post_fresh [OF L e key None] show ?thesis by (auto simp: e key None in_tx_cases split: if_splits)
    next
      case (Some r)
      with post_id_taken [OF e key, of i] show ?thesis by (simp add: e key in_tx_cases)
    qed
  qed
qed

lemma reachable_balanced:
  assumes "reaches (ledger_step D) empty_ledger L"
  shows "ledger_ok L \<and> (\<forall>lines. TrialBalance D s L = Inr lines \<longrightarrow> (\<forall>l \<in> set lines. Amount_IsZero D (tb_Diff l))) \<and>
    (\<forall>acct a. \<exists>b. Service_Balance D L acct a = Inr b \<and> 0 \<le> V (bal_Available b) \<and> 0 \<le> V (bal_Hold b) \<and>
       V (bal_Available b) = unit_val (ugain acct a BucketAvailable (lg_postings L)) \<and>
       V (bal_Hold b) = unit_val (ugain acct a BucketHold (lg_postings L)))"
proof -
  have L: "ledger_ok L" by (rule books.reaches_inv [OF assms empty_ledger_ok])
  have "\<exists>b. Service_Balance D L acct a = Inr b \<and> 0 \<le> V (bal_Available b) \<and> 0 \<le> V (bal_Hold b) \<and>
       V (bal_Available b) = unit_val (ugain acct a BucketAvailable (lg_postings L)) \<and>
       V (bal_Hold b) = unit_val (ugain acct a BucketHold (lg_postings L))" for acct a
    using cached_balance [OF L, of acct a] balances_sums [OF L, of acct a] by (metis (no_types))
  with L trial_balance_zero [OF L] show ?thesis by blast
qed

lemma settle_cases:
  "case BuildSettleEntry D p fr of
      Inr (e, r) \<Rightarrow> settle_error D p fr = None \<and> Entry_Validate D e = None \<and> (\<forall>a. net val a (en_Postings e) = 0) \<and>
        V (sp_QuoteQty p) = V (sp_Price p) * V (sp_Qty p) \<and>
        ComputeFee D (sp_Qty p) (buyer_bps p) (fp_BaseScale (sp_Fees p)) = Inr (sr_BuyerFee r) \<and>
        ComputeFee D (sp_QuoteQty p) (seller_bps p) (fp_QuoteScale (sp_Fees p)) = Inr (sr_SellerFee r) \<and>
        V (sr_BuyerFee r) < V (sp_Qty p) \<and> V (sr_SellerFee r) < V (sp_QuoteQty p) \<and>
        V (sp_QuoteQty p) + V (sr_Release r) =
          (if V (sp_BuyerLimitPrice p) = 0 then V (sp_Price p) else V (sp_BuyerLimitPrice p)) * V (sp_Qty p)
    | Inl err \<Rightarrow> settle_error D p fr = Some err \<or>
        (settle_error D p fr = None \<and> err = ErrInvalidSettlement \<and>
          ((\<exists>fee. ComputeFee D (sp_Qty p) (buyer_bps p) (fp_BaseScale (sp_Fees p)) = Inr fee \<and> V (sp_Qty p) \<le> V fee) \<or>
           (\<exists>fee. ComputeFee D (sp_QuoteQty p) (seller_bps p) (fp_QuoteScale (sp_Fees p)) = Inr fee \<and> V (sp_QuoteQty p) \<le> V fee))) \<or>
        (settle_error D p fr = None \<and>
          (10 ^ 18 \<le> V (sp_Qty p) \<or> 10 ^ 18 \<le> V (sp_QuoteQty p) \<or> Amount_Validate D (settle_release D p) \<noteq> None))"
proof (cases "BuildSettleEntry D p fr")
  case (Inr x)
  obtain e r where x: "x = (e, r)" by (cases x)
  with Inr have b: "BuildSettleEntry D p fr = Inr (e, r)" by simp
  note s = settle_built [OF b]
  have "V (sp_QuoteQty p) + V (sr_Release r) =
      (if V (sp_BuyerLimitPrice p) = 0 then V (sp_Price p) else V (sp_BuyerLimitPrice p)) * V (sp_Qty p)"
    using s(2,7) by (auto simp: settle_error_iff settle_release_val algebra_simps)
  with s show ?thesis by (simp add: b settle_error_iff fee_spec_def Entry_Validate_iff)
next
  case (Inl err)
  show ?thesis
  proof (cases "settle_error D p fr")
    case (Some e)
    with Inl show ?thesis by (simp add: BuildSettleEntry_def)
  next
    case None
    then obtain bf sf where fees: "fee_spec (sp_Qty p) (buyer_bps p) (fp_BaseScale (sp_Fees p)) bf"
      "fee_spec (sp_QuoteQty p) (seller_bps p) (fp_QuoteScale (sp_Fees p)) sf" by (rule settle_fees)
    show ?thesis
    proof (cases "V (sp_Qty p) \<le> V bf \<or> V (sp_QuoteQty p) \<le> V sf")
      case True
      with BuildSettleEntry_eq [OF None fees] Inl fees show ?thesis by (auto simp: None fee_spec_def)
    next
      case False
      with BuildSettleEntry_eq [OF None fees] Inl have "Entry_Validate D (settle_entry p fr bf sf) \<noteq> None" by (auto split: option.splits)
      with settle_valid [OF None fees] False Inl show ?thesis by (auto simp: None not_less)
    qed
  qed
qed

text \<open>The balances derived from the postings are the cached ones.\<close>

definition derived_matches :: "Ledger \<Rightarrow> string \<Rightarrow> 'd Balance list \<Rightarrow> bool" where
  "derived_matches L acct bs \<longleftrightarrow>
     (\<forall>b \<in> set bs. \<exists>c. Service_Balance D L acct (bal_Asset b) = Inr c \<and>
        Amount_Equal D (bal_Available b) (bal_Available c) \<and> Amount_Equal D (bal_Hold b) (bal_Hold c)) \<and>
     (\<forall>a. a \<notin> bal_Asset ` set bs \<longrightarrow> (\<exists>c. Service_Balance D L acct a = Inr c \<and>
        Amount_IsZero D (bal_Available c) \<and> Amount_IsZero D (bal_Hold c)))"

lemma derived_cached:
  assumes L: "ledger_ok L" and "\<forall>r. GetAccount L acct = Some r \<longrightarrow> ar_Kind r \<noteq> KindHouse"
  shows "\<exists>bs. DerivedBalances D L acct = Inr bs \<and> derived_matches L acct bs"
proof -
  from account_sums_ok [OF assms] obtain rows where "AccountBucketSums L acct = Inr rows" by blast
  from derived_sums [OF L this] obtain bs where bs: "DerivedBalances D L acct = Inr bs"
    "\<forall>b \<in> set bs. bal_AccountID b = acct \<and> V (bal_Available b) = avail L acct (bal_Asset b) \<and> V (bal_Hold b) = held L acct (bal_Asset b)"
    "\<forall>a. a \<notin> bal_Asset ` set bs \<longrightarrow> avail L acct a = 0 \<and> held L acct a = 0" by blast
  note c = cached_balance [OF L, of acct]
  have "derived_matches L acct bs"
    unfolding derived_matches_def
  proof (intro conjI ballI allI impI)
    fix b assume "b \<in> set bs"
    with bs(2) c [of "bal_Asset b"] show "\<exists>c. Service_Balance D L acct (bal_Asset b) = Inr c \<and>
        Amount_Equal D (bal_Available b) (bal_Available c) \<and> Amount_Equal D (bal_Hold b) (bal_Hold c)" by auto
  next
    fix a assume "a \<notin> bal_Asset ` set bs"
    with bs(3) c [of a] show "\<exists>c. Service_Balance D L acct a = Inr c \<and>
        Amount_IsZero D (bal_Available c) \<and> Amount_IsZero D (bal_Hold c)" by auto
  qed
  with bs(1) show ?thesis by blast
qed

end

section \<open>Inputs for the witnesses\<close>

definition w_sv :: LedgerService where
  "w_sv = \<lparr>sv_tenant = ''t'', sv_houses = Mapping.update HouseFeeRevenue ''fees'' (Mapping.update HouseExternal ''ext'' Mapping.empty)\<rparr>"

definition w_deposit :: "string \<Rightarrow> string \<Rightarrow> string \<Rightarrow> fx Entry" where
  "w_deposit k acct a = \<lparr>en_IdempotencyKey = k, en_Kind = KindCredit, en_RefType = [], en_RefID = [], en_Reason = [],
     en_CorrelationID = [],
     en_Postings = [posting ''ext'' a BucketHouse Debit (Amount (Fx 100 0)), posting acct a BucketAvailable Credit (Amount (Fx 100 0))]\<rparr>"

definition w_hold :: "string \<Rightarrow> string \<Rightarrow> string \<Rightarrow> int \<Rightarrow> fx HoldParams" where
  "w_hold k acct a n = \<lparr>hp_AccountID = acct, hp_Asset = a, hp_Amount = Amount (Fx n 1), hp_IdempotencyKey = k,
     hp_Ref = \<lparr>ref_Type = ''order'', ref_ID = ''o''\<rparr>, hp_CorrelationID = []\<rparr>"

definition w_cmds :: "fx ledger_cmd list" where
  "w_cmds = [CmdHouseAccount ''ext'' HouseExternal, CmdHouseAccount ''fees'' HouseFeeRevenue, CmdSpotAccount ''ann'' (Some ''u1''),
     CmdSpotAccount ''bob'' (Some ''u2''), CmdPost 1 (w_deposit ''d1'' ''ann'' ''USD''), CmdPost 2 (w_deposit ''d2'' ''bob'' ''BTC'')]"

definition w_ledger :: Ledger where
  "w_ledger = (case run_all (ledger_step fx_pkg) empty_ledger (map (Pair w_sv) w_cmds) of Some (_, L, _) \<Rightarrow> L | None \<Rightarrow> undefined)"

lemma w_ledger_reached: "reaches (ledger_step fx_pkg) empty_ledger w_ledger"
  using fx.books.run_all_returns [OF empty_ledger_ok, of "map (Pair w_sv) w_cmds"] by (auto simp: w_ledger_def)

lemma w_ledger_ok: "ledger_ok w_ledger"
  by (rule fx.books.reaches_inv [OF w_ledger_reached empty_ledger_ok])

text \<open>Holds on both sides, and the trade they are for.\<close>

definition w_held :: Ledger where
  "w_held = (case run_all (ledger_step fx_pkg) w_ledger
       [(w_sv, CmdPost 3 (projr (holdEntry fx_pkg (w_hold ''h1'' ''ann'' ''USD'' 110)))),
        (w_sv, CmdPost 4 (projr (holdEntry fx_pkg (w_hold ''h2'' ''bob'' ''BTC'' 10))))] of
     Some (_, L, _) \<Rightarrow> L | None \<Rightarrow> undefined)"

definition w_trade :: "fx SettleParams" where
  "w_trade = \<lparr>sp_TradeID = ''t1'', sp_IdempotencyKey = [], sp_CorrelationID = [], sp_BuyerAccountID = ''ann'',
     sp_SellerAccountID = ''bob'', sp_BuyerIsTaker = True, sp_BaseAsset = ''BTC'', sp_QuoteAsset = ''USD'',
     sp_Price = Amount (Fx 10 0), sp_Qty = Amount (Fx 1 0), sp_QuoteQty = Amount (Fx 10 0),
     sp_BuyerLimitPrice = Amount (Fx 11 0),
     sp_Fees = \<lparr>fp_MakerBps = 10, fp_TakerBps = 20, fp_BaseScale = 8, fp_QuoteScale = 2\<rparr>\<rparr>"

lemma w_held_ok: "ledger_ok w_held"
proof -
  have "ledger_ok (case run_all (ledger_step fx_pkg) w_ledger cs of Some (_, L, _) \<Rightarrow> L | None \<Rightarrow> undefined)" for cs
    using fx.books.run_all_returns [OF w_ledger_ok, of cs] by auto
  then show ?thesis unfolding w_held_def .
qed

section \<open>Properties\<close>

text \<open>C12: in every state the ledger's operations lead to from empty tables, whatever the tenants and the
  order of the commands, the trial balance is zero in every asset, no balance is negative, and
  every cached balance is the sum of the postings.\<close>

theorem books_balance:
  assumes "decimal D val" and "reaches (ledger_step D) empty_ledger L"
  shows "ledger_ok L \<and> (\<forall>lines. TrialBalance D s L = Inr lines \<longrightarrow> (\<forall>l \<in> set lines. Amount_IsZero D (tb_Diff l))) \<and>
    (\<forall>acct a. \<exists>b. Service_Balance D L acct a = Inr b \<and> 0 \<le> amt_val val (bal_Available b) \<and> 0 \<le> amt_val val (bal_Hold b) \<and>
       amt_val val (bal_Available b) = unit_val (ugain acct a BucketAvailable (lg_postings L)) \<and>
       amt_val val (bal_Hold b) = unit_val (ugain acct a BucketHold (lg_postings L)))"
  by (rule decimal.reachable_balanced [OF assms])

theorem books_balance_witness:
  "\<exists>b. Service_Balance fx_pkg w_ledger ''ann'' ''USD'' = Inr b \<and>
     amt_val fx_val (bal_Available b) = unit_val (ugain ''ann'' ''USD'' BucketAvailable (lg_postings w_ledger))"
  using books_balance [OF fx.decimal_axioms w_ledger_reached] by blast







text \<open>C15: the two ways to read a balance agree. For every account that is not a house account the balances
  derived from the postings can be computed, each equals the cached one, and every asset they do
  not list has a cached balance of zero.\<close>

theorem derived_balances_agree:
  assumes "decimal D val" and "ledger_ok L" and "\<forall>r. GetAccount L acct = Some r \<longrightarrow> ar_Kind r \<noteq> KindHouse"
  shows "\<exists>bs. DerivedBalances D L acct = Inr bs \<and>
    (\<forall>b \<in> set bs. \<exists>c. Service_Balance D L acct (bal_Asset b) = Inr c \<and>
       Amount_Equal D (bal_Available b) (bal_Available c) \<and> Amount_Equal D (bal_Hold b) (bal_Hold c)) \<and>
    (\<forall>a. a \<notin> bal_Asset ` set bs \<longrightarrow> (\<exists>c. Service_Balance D L acct a = Inr c \<and>
       Amount_IsZero D (bal_Available c) \<and> Amount_IsZero D (bal_Hold c)))"
  using decimal.derived_cached [OF assms] unfolding decimal.derived_matches_def [OF assms(1)] .

theorem derived_balances_agree_witness:
  "\<exists>bs. DerivedBalances fx_pkg w_ledger ''ann'' = Inr bs \<and>
     (\<forall>b \<in> set bs. \<exists>c. Service_Balance fx_pkg w_ledger ''ann'' (bal_Asset b) = Inr c \<and>
        Amount_Equal fx_pkg (bal_Available b) (bal_Available c))"
proof -
  have "ar_Kind (the (GetAccount w_ledger ''ann'')) \<noteq> KindHouse" by code_simp
  then have "\<forall>r. GetAccount w_ledger ''ann'' = Some r \<longrightarrow> ar_Kind r \<noteq> KindHouse" by auto
  from derived_balances_agree [OF fx.decimal_axioms w_ledger_ok this] show ?thesis by blast
qed

text \<open>C18: a hold takes place exactly when it can: for a fresh key on a spot account of the tenant it fails
  with \<^verbatim>\<open>ErrInsufficient\<close> if and only if the available balance is less than the amount, fails to
  store a held balance of 10^18 or more, and otherwise moves the amount from available to held,
  in that account and asset alone.\<close>

theorem hold_takes_place:
  assumes "decimal D val" and "ledger_ok L"
    and "hp_IdempotencyKey p \<noteq> []" "hp_AccountID p \<noteq> []" "hp_Asset p \<noteq> []" "0 < amt_val val (hp_Amount p)"
      "Amount_Validate D (hp_Amount p) = None"
    and "GetAccount L (hp_AccountID p) = Some r" "ar_TenantID r = sv_tenant s" "ar_Kind r \<noteq> KindHouse"
    and "GetJournalEntryByKey L (sv_tenant s) (hp_IdempotencyKey p) = None" "GetJournalEntry L i = None"
  shows "if avail L (hp_AccountID p) (hp_Asset p) < amt_val val (hp_Amount p) then in_tx (Hold D s i p) L = (L, Inl ErrInsufficient)
    else if 10 ^ 18 \<le> held L (hp_AccountID p) (hp_Asset p) + amt_val val (hp_Amount p) then in_tx (Hold D s i p) L = (L, Inl errStore)
    else \<exists>L1 je. in_tx (Hold D s i p) L = (L1, Inr (je, False)) \<and> ledger_ok L1 \<and>
      (\<forall>acct a. avail L1 acct a = avail L acct a - (if acct = hp_AccountID p \<and> a = hp_Asset p then amt_val val (hp_Amount p) else 0) \<and>
                held L1 acct a = held L acct a + (if acct = hp_AccountID p \<and> a = hp_Asset p then amt_val val (hp_Amount p) else 0))"
  by (rule decimal.hold_outcome [OF assms(1,2) _ assms(8-12)]) (use assms(3-7) in \<open>simp add: decimal.move_ok_def [OF assms(1)]\<close>)

theorem hold_takes_place_witness:
  "in_tx (Hold fx_pkg w_sv 3 (w_hold ''h'' ''ann'' ''USD'' 1001)) w_ledger = (w_ledger, Inl ErrInsufficient)"
proof -
  let ?p = "w_hold ''h'' ''ann'' ''USD'' 1001" and ?r = "the (GetAccount w_ledger ''ann'')"
  have a: "GetAccount w_ledger (hp_AccountID ?p) = Some ?r" by code_simp
  have b: "ar_TenantID ?r = sv_tenant w_sv" by code_simp
  have c: "ar_Kind ?r \<noteq> KindHouse" by code_simp
  have d: "GetJournalEntryByKey w_ledger (sv_tenant w_sv) (hp_IdempotencyKey ?p) = None" by code_simp
  have e: "GetJournalEntry w_ledger 3 = None" by code_simp
  have f: "Amount_Validate fx_pkg (hp_Amount ?p) = None" by code_simp
  have g: "0 < amt_val fx_val (hp_Amount ?p)" by (simp add: w_hold_def amt_val_def)
  have "br_Available (balance_row w_ledger (BalanceKey ''ann'' ''USD'')) = 100000000000000000000" by code_simp
  then have h: "avail w_ledger (hp_AccountID ?p) (hp_Asset ?p) < amt_val fx_val (hp_Amount ?p)"
    by (simp add: avail_def w_hold_def amt_val_def unit_val_def)
  from hold_takes_place [OF fx.decimal_axioms w_ledger_ok _ _ _ g f a b c d e] h show ?thesis by (simp add: w_hold_def)
qed

text \<open>C16: a settlement that is built is a valid entry that balances; the quote amount is price times
  quantity, each fee is the fee rate applied to what the side receives, rounded up at the scale of
  that asset and smaller than the amount, and the release is what the buyer's hold at its limit
  price exceeds the price paid. A settlement is refused when its parameters are out of order or a
  fee takes all of it, or when one of its amounts is not a valid amount.\<close>

theorem settlement_build:
  assumes "decimal D val"
  shows "case BuildSettleEntry D p fr of
      Inr (e, r) \<Rightarrow> settle_error D p fr = None \<and> Entry_Validate D e = None \<and> (\<forall>a. net val a (en_Postings e) = 0) \<and>
        amt_val val (sp_QuoteQty p) = amt_val val (sp_Price p) * amt_val val (sp_Qty p) \<and>
        ComputeFee D (sp_Qty p) (buyer_bps p) (fp_BaseScale (sp_Fees p)) = Inr (sr_BuyerFee r) \<and>
        ComputeFee D (sp_QuoteQty p) (seller_bps p) (fp_QuoteScale (sp_Fees p)) = Inr (sr_SellerFee r) \<and>
        amt_val val (sr_BuyerFee r) < amt_val val (sp_Qty p) \<and> amt_val val (sr_SellerFee r) < amt_val val (sp_QuoteQty p) \<and>
        amt_val val (sp_QuoteQty p) + amt_val val (sr_Release r) =
          (if amt_val val (sp_BuyerLimitPrice p) = 0 then amt_val val (sp_Price p) else amt_val val (sp_BuyerLimitPrice p)) * amt_val val (sp_Qty p)
    | Inl err \<Rightarrow> settle_error D p fr = Some err \<or>
        (settle_error D p fr = None \<and> err = ErrInvalidSettlement \<and>
          ((\<exists>fee. ComputeFee D (sp_Qty p) (buyer_bps p) (fp_BaseScale (sp_Fees p)) = Inr fee \<and> amt_val val (sp_Qty p) \<le> amt_val val fee) \<or>
           (\<exists>fee. ComputeFee D (sp_QuoteQty p) (seller_bps p) (fp_QuoteScale (sp_Fees p)) = Inr fee \<and> amt_val val (sp_QuoteQty p) \<le> amt_val val fee))) \<or>
        (settle_error D p fr = None \<and>
          (10 ^ 18 \<le> amt_val val (sp_Qty p) \<or> 10 ^ 18 \<le> amt_val val (sp_QuoteQty p) \<or> Amount_Validate D (settle_release D p) \<noteq> None))"
  by (rule decimal.settle_cases [OF assms])

theorem settlement_build_witness:
  "\<exists>e r. BuildSettleEntry fx_pkg w_trade ''fees'' = Inr (e, r) \<and> Entry_Validate fx_pkg e = None \<and>
     amt_val fx_val (sp_QuoteQty w_trade) + amt_val fx_val (sr_Release r) = 11 * amt_val fx_val (sp_Qty w_trade)"
proof -
  have "\<not> isl (BuildSettleEntry fx_pkg w_trade ''fees'')" by code_simp
  then have "BuildSettleEntry fx_pkg w_trade ''fees'' = Inr (projr (BuildSettleEntry fx_pkg w_trade ''fees''))" by simp
  moreover obtain e r where "projr (BuildSettleEntry fx_pkg w_trade ''fees'') = (e, r)" by fastforce
  ultimately have x: "BuildSettleEntry fx_pkg w_trade ''fees'' = Inr (e, r)" by (simp only:)
  with settlement_build [OF fx.decimal_axioms, of w_trade "''fees''"] show ?thesis
    by (simp add: w_trade_def amt_val_def)
qed

text \<open>C19: the rounding of fees. For an amount that is not negative, a rate of zero or more basis points and a
  scale an asset can have, the fee exists, has at most the scale's decimals, is at least the exact
  share and exceeds it by less than one unit of the last place.\<close>

theorem fee_bounds:
  assumes "decimal D val" and "0 \<le> amt_val val amount" and "0 \<le> bps" and "0 \<le> scale" "scale \<le> MaxScale"
  shows "\<exists>fee. ComputeFee D amount bps scale = Inr fee \<and> Amount_Scale D fee \<le> scale \<and> 0 \<le> amt_val val fee \<and>
    amt_val val amount * of_int bps / 10000 \<le> amt_val val fee \<and>
    amt_val val fee < amt_val val amount * of_int bps / 10000 + 1 / 10 ^ nat scale"
  by (rule decimal.fee_exact [OF assms])

theorem fee_bounds_witness:
  "\<exists>fee. ComputeFee fx_pkg (Amount (Fx 12345 3)) 25 2 = Inr fee \<and>
    12345 / 1000 * 25 / 10000 \<le> amt_val fx_val fee \<and> amt_val fx_val fee < 12345 / 1000 * 25 / 10000 + 1 / 100"
  using fee_bounds [OF fx.decimal_axioms, of "Amount (Fx 12345 3)" 25 2] by (auto simp: amt_val_def MaxScale_def)

text \<open>C17: a settlement that is posted moves the money of the trade and nothing else: the available and the
  held balance of every account in every asset change by exactly what the trade says.\<close>

theorem settlement_posts:
  assumes "decimal D val" and "ledger_ok L" and "Settle D s i p L = (L1, Inr ((je, r), False))"
  shows "ledger_ok L1 \<and> je_IdempotencyKey je = (if sp_IdempotencyKey p = [] then ''settle:trade:'' @ sp_TradeID p else sp_IdempotencyKey p) \<and>
    (\<forall>acct a. avail L1 acct a = avail L acct a + trade_available val p r acct a \<and> held L1 acct a = held L acct a + trade_held val p r acct a)"
  by (rule decimal.settle_posts [OF assms])

theorem settlement_posts_witness:
  "\<exists>L1 je r. Settle fx_pkg w_sv 5 w_trade w_held = (L1, Inr ((je, r), False)) \<and>
     held L1 ''ann'' ''USD'' = held w_held ''ann'' ''USD'' + trade_held fx_val w_trade r ''ann'' ''USD''"
proof -
  let ?x = "Settle fx_pkg w_sv 5 w_trade w_held"
  have "case snd ?x of Inr (_, False) \<Rightarrow> True | _ \<Rightarrow> False" by code_simp
  then obtain je r where "snd ?x = Inr ((je, r), False)" by (auto split: sum.splits prod.splits bool.splits)
  then have x: "?x = (fst ?x, Inr ((je, r), False))" by (metis prod.collapse)
  from settlement_posts [OF fx.decimal_axioms w_held_ok x] x show ?thesis by blast
qed

text \<open>C20: two reservations of sequence numbers of one account never overlap: whatever happens between them,
  the second range starts after the end of the first.\<close>

theorem sequences_disjoint:
  assumes "decimal D val" and "ledger_ok L"
    and "ledger_step D L (s, CmdReserve i n) = Some (L1, Inr (ResSeq f))" and "reaches (ledger_step D) L1 L2"
    and "ledger_step D L2 (s', CmdReserve i n') = Some (L3, Inr (ResSeq f'))"
  shows "f + n \<le> f'"
  by (rule decimal.reservations_disjoint [OF assms])

theorem sequences_disjoint_witness:
  "\<exists>L1 L2 f f'. ledger_step fx_pkg w_ledger (w_sv, CmdReserve ''ann'' 5) = Some (L1, Inr (ResSeq f)) \<and>
     ledger_step fx_pkg L1 (w_sv, CmdReserve ''ann'' 2) = Some (L2, Inr (ResSeq f')) \<and> f + 5 \<le> f'"
proof -
  define r1 where "r1 = the (ledger_step fx_pkg w_ledger (w_sv, CmdReserve ''ann'' 5))"
  define r2 where "r2 = the (ledger_step fx_pkg (fst r1) (w_sv, CmdReserve ''ann'' 2))"
  have "case snd r1 of Inr (ResSeq _) \<Rightarrow> True | _ \<Rightarrow> False" unfolding r1_def by code_simp
  then obtain f where f: "snd r1 = Inr (ResSeq f)" by (auto split: sum.splits ledger_result.splits)
  have "case snd r2 of Inr (ResSeq _) \<Rightarrow> True | _ \<Rightarrow> False" unfolding r2_def r1_def by code_simp
  then obtain f' where f': "snd r2 = Inr (ResSeq f')" by (auto split: sum.splits ledger_result.splits)
  have s1: "ledger_step fx_pkg w_ledger (w_sv, CmdReserve ''ann'' 5) = Some (fst r1, Inr (ResSeq f))"
    using f by (simp add: r1_def ledger_step_def prod_eq_iff)
  have s2: "ledger_step fx_pkg (fst r1) (w_sv, CmdReserve ''ann'' 2) = Some (fst r2, Inr (ResSeq f'))"
    using f' by (simp add: r2_def ledger_step_def prod_eq_iff)
  from sequences_disjoint [OF fx.decimal_axioms w_ledger_ok s1 reaches_refl s2] s1 s2 show ?thesis by blast
qed

text \<open>C21: a valid amount sent to its \<^verbatim>\<open>NUMERIC(36,18)\<close> column is in range there and reads back as an
  equal amount.\<close>

theorem numeric_roundtrip:
  assumes "decimal D val" and "Amount_Validate D a = None"
  shows "in_range (sent_units D a) \<and>
    (\<exists>b. AmountFromNumeric D (column (sent_units D a)) = Inr b \<and> Amount_Equal D a b)"
  by (rule decimal.numeric_roundtrip_lemma [OF assms])

theorem numeric_roundtrip_witness:
  "\<exists>b. AmountFromNumeric fx_pkg (column (sent_units fx_pkg (Amount (Fx (- 15) 1)))) = Inr b \<and>
     Amount_Equal fx_pkg (Amount (Fx (- 15) 1)) b"
proof -
  have "Amount_Validate fx_pkg (Amount (Fx (- 15) 1)) = None" by code_simp
  from numeric_roundtrip [OF fx.decimal_axioms this] show ?thesis by blast
qed

end
