(* ===== verification/Candles.thy ===== *)
theory Candles
  imports Money "HOL-Library.Mapping" "HOL-Library.AList_Mapping"
begin

text \<open>
  \<^verbatim>\<open>internal/marketdata/kline.go\<close> and ticker.go: the candles of every interval, folded from trades, rolled
  up from the one-minute candles or filled over gaps, and the summary of the last day. Times are
  nanoseconds since Go's zero time, which is midnight UTC.
\<close>

section \<open>Intervals\<close>

datatype Interval = Interval1m | Interval5m | Interval15m | Interval1h | Interval1d | Interval_other string

definition intervals :: "Interval list" where
  "intervals = [Interval1m, Interval5m, Interval15m, Interval1h, Interval1d]"

definition Interval_string :: "Interval \<Rightarrow> string" where
  "Interval_string iv =
     (case iv of Interval1m \<Rightarrow> ''1m'' | Interval5m \<Rightarrow> ''5m'' | Interval15m \<Rightarrow> ''15m'' | Interval1h \<Rightarrow> ''1h''
      | Interval1d \<Rightarrow> ''1d'' | Interval_other s \<Rightarrow> s)"

definition ParseInterval :: "string \<Rightarrow> Interval option" where
  "ParseInterval s = find (\<lambda>iv. Interval_string iv = s) intervals"

definition time_Minute :: int where "time_Minute = 60 * 10 ^ 9"

definition Duration :: "Interval \<Rightarrow> int" where
  "Duration iv =
     (case iv of Interval1m \<Rightarrow> time_Minute | Interval5m \<Rightarrow> 5 * time_Minute | Interval15m \<Rightarrow> 15 * time_Minute
      | Interval1h \<Rightarrow> 60 * time_Minute | Interval1d \<Rightarrow> 24 * (60 * time_Minute) | Interval_other _ \<Rightarrow> 0)"

text \<open>\<^verbatim>\<open>time.Truncate\<close>: down to a multiple since the zero time; a width that is not positive changes nothing.\<close>

definition Truncate :: "go_time \<Rightarrow> int \<Rightarrow> go_time" where
  "Truncate t d = (if d \<le> 0 then t else t - t mod d)"

definition BucketStart :: "Interval \<Rightarrow> go_time \<Rightarrow> go_time" where
  "BucketStart iv t = Truncate t (Duration iv)"

section \<open>Candles\<close>

record 'd TradeTick =
  tt_TradeID :: string
  tt_Market :: string
  tt_Seq :: u64
  tt_Index :: int
  tt_Price :: "'d amount"
  tt_Qty :: "'d amount"
  tt_QuoteQty :: "'d amount"
  tt_TakerSide :: string
  tt_At :: go_time

record 'd Candle =
  cd_Market :: string
  cd_Interval :: Interval
  cd_Start :: go_time
  cd_Open :: "'d amount"
  cd_High :: "'d amount"
  cd_Low :: "'d amount"
  cd_Close :: "'d amount"
  cd_Volume :: "'d amount"
  cd_QuoteVolume :: "'d amount"
  cd_Trades :: int

definition NewCandle :: "'d decimal_pkg \<Rightarrow> string \<Rightarrow> Interval \<Rightarrow> go_time \<Rightarrow> 'd Candle" where
  "NewCandle D market iv t =
     \<lparr>cd_Market = market, cd_Interval = iv, cd_Start = BucketStart iv t, cd_Open = Zero D, cd_High = Zero D, cd_Low = Zero D,
      cd_Close = Zero D, cd_Volume = Zero D, cd_QuoteVolume = Zero D, cd_Trades = 0\<rparr>"

definition Candle_Add :: "'d decimal_pkg \<Rightarrow> 'd Candle \<Rightarrow> 'd TradeTick \<Rightarrow> 'd Candle" where
  "Candle_Add D c t =
     (let c1 = (if cd_Trades c = 0 then c\<lparr>cd_Open := tt_Price t, cd_High := tt_Price t, cd_Low := tt_Price t\<rparr>
                else c\<lparr>cd_High := (if Amount_Cmp D (tt_Price t) (cd_High c) > 0 then tt_Price t else cd_High c),
                       cd_Low := (if Amount_Cmp D (tt_Price t) (cd_Low c) < 0 then tt_Price t else cd_Low c)\<rparr>)
      in c1\<lparr>cd_Close := tt_Price t, cd_Volume := Amount_Add D (cd_Volume c1) (tt_Qty t),
            cd_QuoteVolume := Amount_Add D (cd_QuoteVolume c1) (tt_QuoteQty t), cd_Trades := cd_Trades c1 + 1\<rparr>)"

definition Candle_Merge :: "'d decimal_pkg \<Rightarrow> 'd Candle \<Rightarrow> 'd Candle \<Rightarrow> 'd Candle" where
  "Candle_Merge D c o' =
     (if cd_Trades o' = 0 then c
      else let c1 = (if cd_Trades c = 0 then c\<lparr>cd_Open := cd_Open o', cd_High := cd_High o', cd_Low := cd_Low o'\<rparr>
                     else c\<lparr>cd_High := (if Amount_Cmp D (cd_High o') (cd_High c) > 0 then cd_High o' else cd_High c),
                            cd_Low := (if Amount_Cmp D (cd_Low o') (cd_Low c) < 0 then cd_Low o' else cd_Low c)\<rparr>)
           in c1\<lparr>cd_Close := cd_Close o', cd_Volume := Amount_Add D (cd_Volume c1) (cd_Volume o'),
                 cd_QuoteVolume := Amount_Add D (cd_QuoteVolume c1) (cd_QuoteVolume o'),
                 cd_Trades := cd_Trades c1 + cd_Trades o'\<rparr>)"

definition Flat :: "'d decimal_pkg \<Rightarrow> string \<Rightarrow> Interval \<Rightarrow> go_time \<Rightarrow> 'd amount \<Rightarrow> 'd Candle" where
  "Flat D market iv t price =
     (NewCandle D market iv t)\<lparr>cd_Open := price, cd_High := price, cd_Low := price, cd_Close := price\<rparr>"

section \<open>Aggregation\<close>

record 'd Aggregator =
  ag_market :: string
  ag_current :: "(Interval, 'd Candle) mapping"

definition NewAggregator :: "string \<Rightarrow> 'd Aggregator" where
  "NewAggregator market = \<lparr>ag_market = market, ag_current = Mapping.empty\<rparr>"

definition current_candle :: "'d decimal_pkg \<Rightarrow> 'd Aggregator \<Rightarrow> 'd TradeTick \<Rightarrow> Interval \<Rightarrow> 'd Candle" where
  "current_candle D a t iv =
     Candle_Add D (case Mapping.lookup (ag_current a) iv of
                     None \<Rightarrow> NewCandle D (ag_market a) iv (tt_At t)
                   | Some c \<Rightarrow> if cd_Start c \<noteq> BucketStart iv (tt_At t) then NewCandle D (ag_market a) iv (tt_At t) else c) t"

fun apply_intervals :: "'d decimal_pkg \<Rightarrow> 'd TradeTick \<Rightarrow> Interval list \<Rightarrow> 'd Aggregator \<Rightarrow> 'd Aggregator \<times> 'd Candle list" where
  "apply_intervals D t [] a = (a, [])"
| "apply_intervals D t (iv # ivs) a =
     (let c = current_candle D a t iv;
          (a1, out) = apply_intervals D t ivs (a\<lparr>ag_current := Mapping.update iv c (ag_current a)\<rparr>)
      in (a1, c # out))"

definition Aggregator_Apply :: "'d decimal_pkg \<Rightarrow> 'd Aggregator \<Rightarrow> 'd TradeTick \<Rightarrow> 'd Aggregator \<times> 'd Candle list" where
  "Aggregator_Apply D a t = apply_intervals D t intervals a"

definition Aggregator_Seed :: "'d Aggregator \<Rightarrow> 'd Candle \<Rightarrow> 'd Aggregator" where
  "Aggregator_Seed a c = a\<lparr>ag_current := Mapping.update (cd_Interval c) c (ag_current a)\<rparr>"

definition Aggregator_Current :: "'d Aggregator \<Rightarrow> Interval \<Rightarrow> 'd Candle option" where
  "Aggregator_Current a iv = Mapping.lookup (ag_current a) iv"

section \<open>Gaps\<close>

text \<open>The candles before a bucket only set the close carried on.\<close>

fun skip_before :: "go_time \<Rightarrow> 'd Candle list \<Rightarrow> 'd amount option \<Rightarrow> 'd Candle list \<times> 'd amount option" where
  "skip_before start [] last' = ([], last')"
| "skip_before start (c # cs) last' =
     (if cd_Start c < start then skip_before start cs (if cd_Trades c > 0 then Some (cd_Close c) else last') else (c # cs, last'))"

function fill_loop :: "'d decimal_pkg \<Rightarrow> string \<Rightarrow> Interval \<Rightarrow> int \<Rightarrow> go_time \<Rightarrow> go_time \<Rightarrow> 'd Candle list \<Rightarrow> 'd amount option \<Rightarrow> 'd Candle list" where
  "fill_loop D market iv d start to cs last' =
     (if 0 < d \<and> start < to
      then case skip_before start cs last' of
             (c # cs1, last1) \<Rightarrow>
               (if cd_Start c = start then c # fill_loop D market iv d (start + d) to cs1 (Some (cd_Close c))
                else (case last1 of None \<Rightarrow> [] | Some p \<Rightarrow> [Flat D market iv start p]) @ fill_loop D market iv d (start + d) to (c # cs1) last1)
           | ([], last1) \<Rightarrow>
               (case last1 of None \<Rightarrow> [] | Some p \<Rightarrow> [Flat D market iv start p]) @ fill_loop D market iv d (start + d) to [] last1
      else [])"
  by pat_completeness auto
termination
  by (relation "measure (\<lambda>(D, market, iv, d, start, to, cs, last'). nat (to - start))") auto

declare fill_loop.simps [simp del]

definition FillGaps :: "'d decimal_pkg \<Rightarrow> 'd Candle list \<Rightarrow> string \<Rightarrow> Interval \<Rightarrow> go_time \<Rightarrow> go_time \<Rightarrow> 'd amount option \<Rightarrow> 'd Candle list" where
  "FillGaps D candles market iv from to prevClose =
     (let d = Duration iv
      in if d \<le> 0 \<or> \<not> from < to then [] else fill_loop D market iv d (BucketStart iv from) to candles prevClose)"

section \<open>Wider intervals\<close>

definition rollup_step :: "'d decimal_pkg \<Rightarrow> string \<Rightarrow> Interval \<Rightarrow> 'd Candle list \<Rightarrow> 'd Candle \<Rightarrow> 'd Candle list" where
  "rollup_step D market iv out c =
     (if cd_Trades c = 0 then out
      else let out1 = (if out = [] \<or> cd_Start (last out) \<noteq> BucketStart iv (cd_Start c)
                       then out @ [NewCandle D market iv (cd_Start c)] else out)
           in butlast out1 @ [Candle_Merge D (last out1) c])"

definition Rollup :: "'d decimal_pkg \<Rightarrow> 'd Candle list \<Rightarrow> string \<Rightarrow> Interval \<Rightarrow> 'd Candle list" where
  "Rollup D ones market iv = foldl (rollup_step D market iv) [] ones"

section \<open>Ticker\<close>

definition TickerWindow :: int where "TickerWindow = 24 * (60 * time_Minute)"

record 'd Ticker =
  tk_Market :: string
  tk_Last :: "'d amount option"
  tk_Open :: "'d amount option"
  tk_High :: "'d amount option"
  tk_Low :: "'d amount option"
  tk_Change :: "'d amount option"
  tk_ChangePct :: "'d amount option"
  tk_Volume :: "'d amount"
  tk_QuoteVolume :: "'d amount"
  tk_Trades :: int
  tk_At :: go_time

definition in_window :: "go_time \<Rightarrow> 'd Candle \<Rightarrow> bool" where
  "in_window now c \<longleftrightarrow> \<not> (cd_Trades c = 0 \<or> cd_Start c < now - TickerWindow \<or> \<not> cd_Start c < now)"

fun ticker_loop :: "'d decimal_pkg \<Rightarrow> 'd Candle list \<Rightarrow> 'd amount \<times> 'd amount \<Rightarrow> 'd Ticker \<Rightarrow> ('d amount \<times> 'd amount) \<times> 'd Ticker" where
  "ticker_loop D [] hl t = (hl, t)"
| "ticker_loop D (c # cs) (high, low) t =
     ticker_loop D cs
       (if Amount_Cmp D (cd_High c) high > 0 then cd_High c else high, if Amount_Cmp D (cd_Low c) low < 0 then cd_Low c else low)
       (t\<lparr>tk_Volume := Amount_Add D (tk_Volume t) (cd_Volume c), tk_QuoteVolume := Amount_Add D (tk_QuoteVolume t) (cd_QuoteVolume c),
          tk_Trades := tk_Trades t + cd_Trades c\<rparr>)"

definition change_pct :: "'d decimal_pkg \<Rightarrow> 'd amount \<Rightarrow> 'd amount \<Rightarrow> 'd amount option" where
  "change_pct D change open' =
     (if Amount_IsPositive D open'
      then case DivRoundDown D (Amount_Mul D (Amount_Abs D change) (FromInt64 D 100)) open' 2 of
             Inl _ \<Rightarrow> None
           | Inr pct \<Rightarrow> Some (if Amount_IsNegative D change then Amount_Neg D pct else pct)
      else None)"

definition TickerFrom :: "'d decimal_pkg \<Rightarrow> string \<Rightarrow> 'd Candle list \<Rightarrow> go_time \<Rightarrow> 'd Ticker" where
  "TickerFrom D market candles now =
     (let t = \<lparr>tk_Market = market, tk_Last = None, tk_Open = None, tk_High = None, tk_Low = None, tk_Change = None,
               tk_ChangePct = None, tk_Volume = Zero D, tk_QuoteVolume = Zero D, tk_Trades = 0, tk_At = now\<rparr>;
          sel = filter (in_window now) candles
      in if sel = [] then t
         else let s = sort_key cd_Start sel; open' = cd_Open (hd s); last' = cd_Close (last s);
                  ((high, low), t1) = ticker_loop D s (cd_High (hd s), cd_Low (hd s)) t;
                  change = Amount_Sub D last' open'
              in t1\<lparr>tk_Open := Some open', tk_Last := Some last', tk_High := Some high, tk_Low := Some low,
                    tk_Change := Some change, tk_ChangePct := change_pct D change open'\<rparr>)"

section \<open>The ring of one-minute candles\<close>

record 'd CandleRing =
  cr_market :: string
  cr_candles :: "'d Candle list"

definition NewCandleRing :: "string \<Rightarrow> 'd CandleRing" where
  "NewCandleRing market = \<lparr>cr_market = market, cr_candles = []\<rparr>"

definition ring_search :: "'d Candle list \<Rightarrow> go_time \<Rightarrow> nat" where
  "ring_search cs start = sort_search (length cs) (\<lambda>i. \<not> cd_Start (cs ! i) < start)"

definition ring_index :: "'d Candle list \<Rightarrow> go_time \<Rightarrow> nat option" where
  "ring_index cs start =
     (let i = ring_search cs start in if i < length cs \<and> cd_Start (cs ! i) = start then Some i else None)"

definition ring_put :: "'d Candle list \<Rightarrow> 'd Candle \<Rightarrow> 'd Candle list" where
  "ring_put cs c =
     (let i = ring_search cs (cd_Start c)
      in if i < length cs \<and> cd_Start (cs ! i) = cd_Start c then cs[i := c] else take i cs @ [c] @ drop i cs)"

fun ring_seed :: "'d Candle list \<Rightarrow> 'd Candle list \<Rightarrow> 'd Candle list" where
  "ring_seed cs [] = cs"
| "ring_seed cs (c # new) = ring_seed (if cd_Interval c = Interval1m \<and> cd_Trades c > 0 then ring_put cs c else cs) new"

definition Ring_Seed :: "'d CandleRing \<Rightarrow> 'd Candle list \<Rightarrow> 'd CandleRing" where
  "Ring_Seed r candles = r\<lparr>cr_candles := ring_seed (cr_candles r) candles\<rparr>"

definition Ring_Current :: "'d decimal_pkg \<Rightarrow> 'd CandleRing \<Rightarrow> Interval \<Rightarrow> go_time \<Rightarrow> 'd Candle option" where
  "Ring_Current D r iv at' =
     (let start = BucketStart iv at'; end' = start + Duration iv;
          c = foldl (\<lambda>c one. if cd_Start one < start \<or> \<not> cd_Start one < end' then c else Candle_Merge D c one)
                (NewCandle D (cr_market r) iv at') (cr_candles r)
      in if cd_Trades c = 0 then None else Some c)"

definition Ring_AddTrade :: "'d decimal_pkg \<Rightarrow> 'd CandleRing \<Rightarrow> 'd TradeTick \<Rightarrow> 'd CandleRing \<times> 'd Candle list" where
  "Ring_AddTrade D r t =
     (let start = BucketStart Interval1m (tt_At t);
          r1 = (case ring_index (cr_candles r) start of
                  None \<Rightarrow> r\<lparr>cr_candles := ring_put (cr_candles r) (Candle_Add D (NewCandle D (cr_market r) Interval1m (tt_At t)) t)\<rparr>
                | Some i \<Rightarrow> r\<lparr>cr_candles := (cr_candles r)[i := Candle_Add D (cr_candles r ! i) t]\<rparr>)
      in (r1, List.map_filter (\<lambda>iv. Ring_Current D r1 iv (tt_At t)) intervals))"

definition Ring_Prune :: "'d CandleRing \<Rightarrow> go_time \<Rightarrow> 'd CandleRing" where
  "Ring_Prune r now =
     (let since = BucketStart Interval1m (now - TickerWindow)
      in r\<lparr>cr_candles := dropWhile (\<lambda>c. cd_Start c < since) (cr_candles r)\<rparr>)"

definition Ring_Ticker :: "'d decimal_pkg \<Rightarrow> 'd CandleRing \<Rightarrow> go_time \<Rightarrow> 'd Ticker" where
  "Ring_Ticker D r now = TickerFrom D (cr_market r) (cr_candles r) now"

definition LastClose :: "'d CandleRing \<Rightarrow> 'd amount option" where
  "LastClose r = (if cr_candles r = [] then None else Some (cd_Close (last (cr_candles r))))"

end
