(* ===== verification/Candles_Props.thy ===== *)
theory Candles_Props
  imports Candles Decimal_Fixed
begin

text \<open>
  Candles: rolling up the one-minute candles is folding the trades, the aggregator holds the last of
  them; filling gaps leaves none; the ring stays sorted; the ticker is exact up to its two decimals.
\<close>

section \<open>Buckets nest\<close>

lemma mod_multiple:
  fixes t m k :: int
  assumes "0 < m" "0 < k"
  shows "(t - t mod m) mod (k * m) = t mod (k * m) - t mod m"
proof -
  define r where "r = t mod (k * m)"
  have km: "0 < k * m" using assms by simp
  have r: "0 \<le> r" "r < k * m" using km by (simp_all add: r_def)
  have rm: "r mod m = t mod m" by (simp add: r_def mod_mod_cancel)
  have "t = k * m * (t div (k * m)) + r" by (simp add: r_def)
  then have "t - t mod m = (r - r mod m) + (t div (k * m)) * (k * m)" by (simp add: rm algebra_simps)
  then have "(t - t mod m) mod (k * m) = (r - r mod m) mod (k * m)" by (metis mod_mult_self1)
  also have "\<dots> = r - r mod m"
  proof (rule mod_pos_pos_trivial)
    show "0 \<le> r - r mod m" using r(1) assms(1) zmod_le_nonneg_dividend [of r m] by simp
    show "r - r mod m < k * m" using r(2) pos_mod_sign [OF assms(1), of r] by linarith
  qed
  also have "\<dots> = r - t mod m" by (simp only: rm)
  finally show ?thesis by (simp only: r_def)
qed

lemma Duration_multiple: "iv \<in> set intervals \<Longrightarrow> \<exists>k > 0. Duration iv = k * Duration Interval1m"
  by (auto simp: intervals_def Duration_def intro: exI [of _ 1] exI [of _ 5] exI [of _ 15] exI [of _ 60] exI [of _ 1440])

lemma Duration_pos: "iv \<in> set intervals \<Longrightarrow> 0 < Duration iv"
  by (auto simp: intervals_def Duration_def time_Minute_def)

lemma bucket_nest:
  assumes "iv \<in> set intervals"
  shows "BucketStart iv (BucketStart Interval1m t) = BucketStart iv t"
proof -
  obtain k where k: "0 < k" "Duration iv = k * Duration Interval1m" using Duration_multiple [OF assms] by blast
  have m: "0 < Duration Interval1m" by (simp add: Duration_def time_Minute_def)
  then have "\<not> k * Duration Interval1m \<le> 0" using k(1) by (simp add: not_le)
  with mod_multiple [OF m k(1), of t] m show ?thesis by (simp only: BucketStart_def Truncate_def k(2)) simp
qed

lemma bucket_idem: "iv \<in> set intervals \<Longrightarrow> BucketStart iv (BucketStart iv t) = BucketStart iv t"
  using mod_multiple [of "Duration iv" 1 t] Duration_pos [of iv] by (simp add: BucketStart_def Truncate_def)

section \<open>Folding trades\<close>

text \<open>The candles of an interval, directly from the trades in their order.\<close>

definition bucket_step :: "'d decimal_pkg \<Rightarrow> string \<Rightarrow> Interval \<Rightarrow> 'd Candle list \<Rightarrow> 'd TradeTick \<Rightarrow> 'd Candle list" where
  "bucket_step D market iv out t =
     (if out = [] \<or> cd_Start (last out) \<noteq> BucketStart iv (tt_At t)
      then out @ [Candle_Add D (NewCandle D market iv (tt_At t)) t]
      else butlast out @ [Candle_Add D (last out) t])"

definition bucket_candles :: "'d decimal_pkg \<Rightarrow> string \<Rightarrow> Interval \<Rightarrow> 'd TradeTick list \<Rightarrow> 'd Candle list" where
  "bucket_candles D market iv ts = foldl (bucket_step D market iv) [] ts"

lemma bucket_candles_Nil [simp]: "bucket_candles D market iv [] = []"
  by (simp add: bucket_candles_def)

lemma bucket_candles_snoc:
  "bucket_candles D market iv (ts @ [t]) = bucket_step D market iv (bucket_candles D market iv ts) t"
  by (simp_all add: bucket_candles_def)

lemma Candle_fixed [simp]:
  "cd_Start (Candle_Add D c t) = cd_Start c" "cd_Start (Candle_Merge D c c') = cd_Start c"
  "cd_Market (Candle_Add D c t) = cd_Market c" "cd_Market (Candle_Merge D c c') = cd_Market c"
  "cd_Interval (Candle_Add D c t) = cd_Interval c" "cd_Interval (Candle_Merge D c c') = cd_Interval c"
  "cd_Trades (Candle_Add D c t) = cd_Trades c + 1" "cd_Trades (Candle_Merge D c c') = cd_Trades c + cd_Trades c'"
  by (simp_all add: Candle_Add_def Candle_Merge_def Let_def)

lemma NewCandle_simps [simp]:
  "cd_Start (NewCandle D m iv t) = BucketStart iv t" "cd_Trades (NewCandle D m iv t) = 0" "cd_Market (NewCandle D m iv t) = m"
  "cd_Interval (NewCandle D m iv t) = iv" "cd_Volume (NewCandle D m iv t) = Zero D" "cd_QuoteVolume (NewCandle D m iv t) = Zero D"
  by (simp_all add: NewCandle_def)

lemma bucket_candles_trades: "c \<in> set (bucket_candles D m iv ts) \<Longrightarrow> 0 < cd_Trades c \<and> cd_Market c = m \<and> cd_Interval c = iv"
proof (induction ts arbitrary: c rule: rev_induct)
  case (snoc t ts)
  let ?b = "bucket_candles D m iv ts"
  show ?case
  proof (cases "?b = [] \<or> cd_Start (last ?b) \<noteq> BucketStart iv (tt_At t)")
    case True
    with snoc show ?thesis by (auto simp: bucket_candles_snoc bucket_step_def)
  next
    case False
    with snoc.prems have "c \<in> set (butlast ?b) \<or> c = Candle_Add D (last ?b) t" by (auto simp: bucket_candles_snoc bucket_step_def)
    then show ?thesis using snoc.IH [of c] snoc.IH [of "last ?b"] False by (auto dest: in_set_butlastD)
  qed
qed simp

lemma bucket_candles_last:
  "ts \<noteq> [] \<Longrightarrow> bucket_candles D m iv ts \<noteq> [] \<and> cd_Start (last (bucket_candles D m iv ts)) = BucketStart iv (tt_At (last ts))"
  by (induction ts rule: rev_induct) (auto simp: bucket_candles_snoc bucket_step_def)

text \<open>Two candles with the same numbers.\<close>

definition same_candle :: "('d \<Rightarrow> rat) \<Rightarrow> 'd Candle \<Rightarrow> 'd Candle \<Rightarrow> bool" where
  "same_candle val c c' \<longleftrightarrow> cd_Market c = cd_Market c' \<and> cd_Interval c = cd_Interval c' \<and> cd_Start c = cd_Start c' \<and>
     cd_Trades c = cd_Trades c' \<and> amt_val val (cd_Open c) = amt_val val (cd_Open c') \<and>
     amt_val val (cd_High c) = amt_val val (cd_High c') \<and> amt_val val (cd_Low c) = amt_val val (cd_Low c') \<and>
     amt_val val (cd_Close c) = amt_val val (cd_Close c') \<and> amt_val val (cd_Volume c) = amt_val val (cd_Volume c') \<and>
     amt_val val (cd_QuoteVolume c) = amt_val val (cd_QuoteVolume c')"

lemma same_candle_refl [simp]: "same_candle val c c"
  by (simp add: same_candle_def)

lemma same_candle_start: "same_candle val c c' \<Longrightarrow> cd_Start c = cd_Start c'"
  by (simp add: same_candle_def)

lemma same_candle_trans: "same_candle val a b \<Longrightarrow> same_candle val b c \<Longrightarrow> same_candle val a c"
  by (simp add: same_candle_def)

context decimal
begin

lemma same_Add: "same_candle val c c' \<Longrightarrow> same_candle val (Candle_Add D c t) (Candle_Add D c' t)"
  by (auto simp: same_candle_def Candle_Add_def Let_def)

lemma Merge_Add:
  assumes "0 < cd_Trades c" "0 \<le> cd_Trades m"
  shows "same_candle val (Candle_Merge D m (Candle_Add D c t)) (Candle_Add D (Candle_Merge D m c) t)"
  using assms by (auto simp: same_candle_def Candle_Add_def Candle_Merge_def Let_def)

lemma Merge_Add_new:
  assumes "0 \<le> cd_Trades m"
  shows "same_candle val (Candle_Merge D m (Candle_Add D (NewCandle D k iv x) t)) (Candle_Add D m t)"
  using assms by (auto simp: same_candle_def Candle_Add_def Candle_Merge_def Let_def)

lemma Rollup_snoc: "Rollup D (ones @ [c]) m iv = rollup_step D m iv (Rollup D ones m iv) c"
  by (simp add: Rollup_def)

lemma Rollup_trades: "c \<in> set (Rollup D ones m iv) \<Longrightarrow> \<forall>o' \<in> set ones. 0 \<le> cd_Trades o' \<Longrightarrow> 0 \<le> cd_Trades c"
proof (induction ones arbitrary: c rule: rev_induct)
  case (snoc o' ones)
  let ?r = "Rollup D ones m iv"
  have r: "x \<in> set ?r \<Longrightarrow> 0 \<le> cd_Trades x" for x using snoc by auto
  show ?case
  proof (cases "cd_Trades o' = 0 \<or> ?r = [] \<or> cd_Start (last ?r) \<noteq> BucketStart iv (cd_Start o')")
    case True
    with snoc.prems r show ?thesis by (auto simp: Rollup_snoc rollup_step_def Let_def split: if_splits)
  next
    case False
    then have "c \<in> set (butlast ?r) \<or> c = Candle_Merge D (last ?r) o'"
      using snoc.prems(1) by (auto simp: Rollup_snoc rollup_step_def Let_def)
    with r [of c] r [of "last ?r"] snoc.prems(2) False show ?thesis by (auto dest: in_set_butlastD)
  qed
qed (simp add: Rollup_def)

lemma list_all2_snoc_snoc: "list_all2 P (xs @ [x]) (ys @ [y]) \<longleftrightarrow> list_all2 P xs ys \<and> P x y"
  using list_all2_rev [of P "xs @ [x]" "ys @ [y]"] by auto

lemma list_all2_snoc: "xs \<noteq> [] \<Longrightarrow> ys \<noteq> [] \<Longrightarrow> list_all2 P xs ys \<longleftrightarrow> list_all2 P (butlast xs) (butlast ys) \<and> P (last xs) (last ys)"
  by (cases xs rule: rev_cases; cases ys rule: rev_cases) (simp_all add: list_all2_snoc_snoc)

text \<open>The main lemma: by induction on the trades, both foldings agree, candle by candle.\<close>

lemma rollup_agrees:
  assumes iv: "iv \<in> set intervals"
  shows "list_all2 (same_candle val) (Rollup D (bucket_candles D m Interval1m ts) m iv) (bucket_candles D m iv ts)"
proof (induction ts rule: rev_induct)
  case Nil
  then show ?case by (simp add: Rollup_def)
next
  case (snoc t ts)
  let ?ones = "bucket_candles D m Interval1m ts" and ?B = "bucket_candles D m iv ts"
  let ?R = "Rollup D ?ones m iv" and ?s = "BucketStart iv (tt_At t)"
  note same = snoc.IH
  have empty: "?R = [] \<longleftrightarrow> ?B = []" using same by auto
  have nonneg: "\<forall>o' \<in> set ?ones. 0 \<le> cd_Trades o'" by (auto intro!: less_imp_le dest: bucket_candles_trades)
  have start: "?R \<noteq> [] \<Longrightarrow> cd_Start (last ?R) = cd_Start (last ?B) \<and> same_candle val (last ?R) (last ?B)"
    using same list_all2_snoc [of ?R ?B "same_candle val"] empty same_candle_start by blast
  show ?case
  proof (cases "?ones = [] \<or> cd_Start (last ?ones) \<noteq> BucketStart Interval1m (tt_At t)")
    case True
    let ?c = "Candle_Add D (NewCandle D m Interval1m (tt_At t)) t"
    have ones: "bucket_candles D m Interval1m (ts @ [t]) = ?ones @ [?c]" using True by (auto simp: bucket_candles_snoc bucket_step_def)
    have R: "Rollup D (?ones @ [?c]) m iv = rollup_step D m iv ?R ?c" by (rule Rollup_snoc)
    show ?thesis
    proof (cases "?R = [] \<or> cd_Start (last ?R) \<noteq> ?s")
      case new: True
      then have "Rollup D (?ones @ [?c]) m iv = ?R @ [Candle_Merge D (NewCandle D m iv (BucketStart Interval1m (tt_At t))) ?c]"
        by (simp add: R rollup_step_def Let_def bucket_nest [OF iv])
      moreover have "bucket_candles D m iv (ts @ [t]) = ?B @ [Candle_Add D (NewCandle D m iv (tt_At t)) t]"
        using new empty start by (auto simp: bucket_candles_snoc bucket_step_def)
      moreover have "NewCandle D m iv (BucketStart Interval1m (tt_At t)) = NewCandle D m iv (tt_At t)"
        by (simp add: NewCandle_def bucket_nest [OF iv])
      ultimately show ?thesis using same Merge_Add_new [of "NewCandle D m iv (tt_At t)"]
        by (simp add: ones list_all2_appendI)
    next
      case False
      then have "Rollup D (?ones @ [?c]) m iv = butlast ?R @ [Candle_Merge D (last ?R) ?c]"
        by (simp add: R rollup_step_def Let_def bucket_nest [OF iv])
      moreover have "bucket_candles D m iv (ts @ [t]) = butlast ?B @ [Candle_Add D (last ?B) t]"
        using False empty start by (auto simp: bucket_candles_snoc bucket_step_def)
      moreover have "same_candle val (Candle_Merge D (last ?R) ?c) (Candle_Add D (last ?B) t)"
        using Merge_Add_new [of "last ?R"] Rollup_trades [OF _ nonneg, of "last ?R"] False start same_Add same_candle_trans
        by (meson last_in_set)
      ultimately show ?thesis using same False empty list_all2_snoc [of ?R ?B "same_candle val"]
        by (simp add: ones list_all2_appendI)
    qed
  next
    case False
    then obtain ys c where ys: "?ones = ys @ [c]" by (metis rev_exhaust)
    then have start_c: "cd_Start c = BucketStart Interval1m (tt_At t)" using False by simp
    let ?Q = "Rollup D ys m iv"
    have ones: "bucket_candles D m Interval1m (ts @ [t]) = ys @ [Candle_Add D c t]"
      using start_c by (simp add: bucket_candles_snoc bucket_step_def ys)
    have c: "0 < cd_Trades c" using bucket_candles_trades [of c D m Interval1m ts] by (simp add: ys)
    obtain zs m0 where zs: "0 \<le> cd_Trades m0" "cd_Start m0 = BucketStart iv (cd_Start c)"
      "\<And>c'. 0 < cd_Trades c' \<Longrightarrow> cd_Start c' = cd_Start c \<Longrightarrow> rollup_step D m iv ?Q c' = zs @ [Candle_Merge D m0 c']"
    proof (cases "?Q = [] \<or> cd_Start (last ?Q) \<noteq> BucketStart iv (cd_Start c)")
      case True
      show ?thesis
        by (rule that [of "NewCandle D m iv (cd_Start c)" ?Q]) (use True in \<open>auto simp: rollup_step_def Let_def\<close>)
    next
      case False
      have "\<forall>o' \<in> set ys. 0 \<le> cd_Trades o'" using nonneg by (simp add: ys)
      with False have "0 \<le> cd_Trades (last ?Q)" using Rollup_trades [of "last ?Q" ys m iv] by simp
      then show ?thesis
        by (rule that [of "last ?Q" "butlast ?Q"]) (use False in \<open>simp_all add: rollup_step_def Let_def\<close>)
    qed
    have R: "?R = zs @ [Candle_Merge D m0 c]" by (simp only: ys Rollup_snoc zs(3) [OF c refl])
    have R': "Rollup D (ys @ [Candle_Add D c t]) m iv = zs @ [Candle_Merge D m0 (Candle_Add D c t)]"
      using zs(3) [of "Candle_Add D c t"] c by (simp add: Rollup_snoc)
    have st: "cd_Start (last ?R) = ?s" by (simp add: R zs(2) start_c bucket_nest [OF iv])
    then have B: "bucket_candles D m iv (ts @ [t]) = butlast ?B @ [Candle_Add D (last ?B) t]"
      using start empty R by (auto simp: bucket_candles_snoc bucket_step_def)
    have "same_candle val (Candle_Merge D m0 (Candle_Add D c t)) (Candle_Add D (last ?B) t)"
      using Merge_Add [OF c zs(1)] start R same_Add same_candle_trans by (metis last_snoc snoc_eq_iff_butlast)
    moreover have "list_all2 (same_candle val) zs (butlast ?B)"
      using same list_all2_snoc [of ?R ?B "same_candle val"] empty R by (metis butlast_snoc snoc_eq_iff_butlast)
    ultimately show ?thesis by (simp add: ones R' B list_all2_appendI)
  qed
qed

end

section \<open>The aggregator\<close>

fun aggregate :: "'d decimal_pkg \<Rightarrow> 'd Aggregator \<Rightarrow> 'd TradeTick list \<Rightarrow> 'd Aggregator" where
  "aggregate D a [] = a"
| "aggregate D a (t # ts) = aggregate D (fst (Aggregator_Apply D a t)) ts"

lemma aggregate_snoc: "aggregate D a (ts @ [t]) = fst (Aggregator_Apply D (aggregate D a ts) t)"
  by (induction ts arbitrary: a) simp_all

lemma current_candle_cong:
  "ag_market a = ag_market a' \<Longrightarrow> Mapping.lookup (ag_current a) iv = Mapping.lookup (ag_current a') iv \<Longrightarrow>
    current_candle D a t iv = current_candle D a' t iv"
  by (simp add: current_candle_def split: option.split)

lemma apply_intervals_lookup:
  assumes "distinct ivs"
  shows "ag_market (fst (apply_intervals D t ivs a)) = ag_market a \<and>
    Mapping.lookup (ag_current (fst (apply_intervals D t ivs a))) iv =
      (if iv \<in> set ivs then Some (current_candle D a t iv) else Mapping.lookup (ag_current a) iv)"
  using assms
proof (induction ivs arbitrary: a)
  case (Cons iv' ivs)
  let ?a = "a\<lparr>ag_current := Mapping.update iv' (current_candle D a t iv') (ag_current a)\<rparr>"
  have "iv \<noteq> iv' \<Longrightarrow> current_candle D ?a t iv = current_candle D a t iv"
    by (rule current_candle_cong) (simp_all add: Mapping.lookup_update')
  with Cons.IH [of ?a] Cons.prems show ?case by (auto simp: Let_def split_beta Mapping.lookup_update')
qed simp

text \<open>After some trades it holds the last candle of every interval.\<close>

lemma aggregate_current:
  assumes "iv \<in> set intervals"
  shows "ag_market (aggregate D (NewAggregator m) ts) = m \<and>
    Aggregator_Current (aggregate D (NewAggregator m) ts) iv =
      (if ts = [] then None else Some (last (bucket_candles D m iv ts)))"
proof (induction ts rule: rev_induct)
  case Nil
  then show ?case by (simp add: NewAggregator_def Aggregator_Current_def)
next
  case (snoc t ts)
  let ?a = "aggregate D (NewAggregator m) ts"
  have a: "ag_market ?a = m" "Mapping.lookup (ag_current ?a) iv = (if ts = [] then None else Some (last (bucket_candles D m iv ts)))"
    using snoc by (simp_all add: Aggregator_Current_def)
  have "distinct intervals" by (simp add: intervals_def)
  from apply_intervals_lookup [OF this, of D t ?a iv] assms a
  have "ag_market (aggregate D (NewAggregator m) (ts @ [t])) = m"
    "Aggregator_Current (aggregate D (NewAggregator m) (ts @ [t])) iv = Some (current_candle D ?a t iv)"
    by (simp_all add: aggregate_snoc Aggregator_Apply_def Aggregator_Current_def)
  moreover have "current_candle D ?a t iv = last (bucket_candles D m iv (ts @ [t]))"
    using bucket_candles_last [of ts D m iv] a by (auto simp: current_candle_def bucket_candles_snoc bucket_step_def)
  ultimately show ?case by simp
qed

context decimal
begin

lemma aggregator_rollup:
  assumes "iv \<in> set intervals" and "ts \<noteq> []"
  shows "\<exists>c. Aggregator_Current (aggregate D (NewAggregator m) ts) iv = Some c \<and>
    Rollup D (bucket_candles D m Interval1m ts) m iv \<noteq> [] \<and>
    same_candle val (last (Rollup D (bucket_candles D m Interval1m ts) m iv)) c"
proof -
  note r = rollup_agrees [OF assms(1), of m ts]
  have b: "bucket_candles D m iv ts \<noteq> []" using bucket_candles_last [OF assms(2)] by blast
  then have "Rollup D (bucket_candles D m Interval1m ts) m iv \<noteq> []" using r by auto
  with b r list_all2_snoc have "same_candle val (last (Rollup D (bucket_candles D m Interval1m ts) m iv)) (last (bucket_candles D m iv ts))"
    by blast
  then show ?thesis using aggregate_current [OF assms(1), of D m ts] assms(2) \<open>Rollup D _ m iv \<noteq> []\<close> by auto
qed

end

section \<open>Gaps\<close>

text \<open>The starts of the buckets of a range.\<close>

definition bucket_range :: "go_time \<Rightarrow> go_time \<Rightarrow> int \<Rightarrow> go_time list" where
  "bucket_range s to d = map (\<lambda>k. s + int k * d) [0..<nat ((to - s + d - 1) div d)]"

lemma bucket_range_simps:
  assumes "0 < d"
  shows "to \<le> s \<Longrightarrow> bucket_range s to d = []" "s < to \<Longrightarrow> bucket_range s to d = s # bucket_range (s + d) to d"
proof -
  assume "to \<le> s"
  then have "(to - s + d - 1) div d \<le> (d - 1) div d" using assms by (intro zdiv_mono1) auto
  also have "(d - 1) div d = 0" using assms by (intro div_pos_pos_trivial) auto
  finally show "bucket_range s to d = []" by (simp add: bucket_range_def)
next
  assume lt: "s < to"
  let ?n = "(to - (s + d) + d - 1) div d"
  have "to - s + d - 1 = (to - (s + d) + d - 1) + d" by simp
  then have "(to - s + d - 1) div d = ?n + 1" using assms by (simp only: div_add_self2)
  moreover have "0 \<le> ?n" using lt assms by (simp add: pos_imp_zdiv_nonneg_iff)
  ultimately have "nat ((to - s + d - 1) div d) = Suc (nat ?n)" by simp
  then show "bucket_range s to d = s # bucket_range (s + d) to d"
    by (simp add: bucket_range_def map_upt_Suc del: upt_Suc) (simp add: algebra_simps)
qed

lemma Flat_start [simp]: "cd_Start (Flat D m iv t p) = BucketStart iv t" "cd_Trades (Flat D m iv t p) = 0"
  by (simp_all add: Flat_def)

text \<open>The four ways one bucket is filled.\<close>

definition carry :: "'d decimal_pkg \<Rightarrow> string \<Rightarrow> Interval \<Rightarrow> go_time \<Rightarrow> 'd amount option \<Rightarrow> 'd Candle list" where
  "carry D m iv s l = (case l of None \<Rightarrow> [] | Some p \<Rightarrow> [Flat D m iv s p])"

lemma carry_in: "c \<in> set (carry D m iv s l) \<Longrightarrow> cd_Trades c = 0"
  by (auto simp: carry_def split: option.splits)

lemma fill_loop_steps:
  "\<not> s < to \<Longrightarrow> fill_loop D m iv d s to cs l = []"
  "0 < d \<and> s < to \<Longrightarrow> skip_before s cs l = ([], l1) \<Longrightarrow>
    fill_loop D m iv d s to cs l = carry D m iv s l1 @ fill_loop D m iv d (s + d) to [] l1"
  "0 < d \<and> s < to \<Longrightarrow> skip_before s cs l = (x # xs, l1) \<Longrightarrow> cd_Start x = s \<Longrightarrow>
    fill_loop D m iv d s to cs l = x # fill_loop D m iv d (s + d) to xs (Some (cd_Close x))"
  "0 < d \<and> s < to \<Longrightarrow> skip_before s cs l = (x # xs, l1) \<Longrightarrow> cd_Start x \<noteq> s \<Longrightarrow>
    fill_loop D m iv d s to cs l = carry D m iv s l1 @ fill_loop D m iv d (s + d) to (x # xs) l1"
  by (subst fill_loop.simps, simp add: carry_def)+

text \<open>
  The reference: for every bucket of the range, its candle if there is one, else a flat one at the close
  of the last candle before it; nothing before the first price.
\<close>

definition close_before :: "'d Candle list \<Rightarrow> 'd amount option \<Rightarrow> go_time \<Rightarrow> 'd amount option" where
  "close_before cs prev s =
     (let before = filter (\<lambda>c. cd_Start c < s) cs in if before = [] then prev else Some (cd_Close (last before)))"

definition fill_at :: "'d decimal_pkg \<Rightarrow> string \<Rightarrow> Interval \<Rightarrow> 'd Candle list \<Rightarrow> 'd amount option \<Rightarrow> go_time \<Rightarrow> 'd Candle list" where
  "fill_at D m iv cs prev s =
     (case find (\<lambda>c. cd_Start c = s) cs of Some c \<Rightarrow> [c] | None \<Rightarrow> carry D m iv s (close_before cs prev s))"

lemma skip_before_before:
  assumes "\<forall>c \<in> set cs. cd_Trades c > 0"
  shows "\<exists>pre. cs = pre @ fst (skip_before s cs l) \<and> (\<forall>c \<in> set pre. cd_Start c < s) \<and>
    (fst (skip_before s cs l) \<noteq> [] \<longrightarrow> s \<le> cd_Start (hd (fst (skip_before s cs l)))) \<and>
    snd (skip_before s cs l) = (if pre = [] then l else Some (cd_Close (last pre)))"
  using assms
proof (induction cs arbitrary: l)
  case (Cons c cs)
  show ?case
  proof (cases "cd_Start c < s")
    case True
    from Cons.IH [of "Some (cd_Close c)"] Cons.prems obtain pre where
      "cs = pre @ fst (skip_before s cs (Some (cd_Close c)))" "\<forall>c \<in> set pre. cd_Start c < s"
      "fst (skip_before s cs (Some (cd_Close c))) \<noteq> [] \<longrightarrow> s \<le> cd_Start (hd (fst (skip_before s cs (Some (cd_Close c)))))"
      "snd (skip_before s cs (Some (cd_Close c))) = (if pre = [] then Some (cd_Close c) else Some (cd_Close (last pre)))" by auto
    with True Cons.prems show ?thesis by (intro exI [of _ "c # pre"]) auto
  qed simp
qed simp

lemma fill_at_append:
  assumes "\<forall>c \<in> set pre. cd_Start c < s"
  shows "fill_at D m iv (pre @ cs) l s = fill_at D m iv cs (if pre = [] then l else Some (cd_Close (last pre))) s"
proof -
  have "find (\<lambda>c. cd_Start c = s) pre = None" using assms by (auto simp: find_None_iff)
  moreover have "filter (\<lambda>c. cd_Start c < s) pre = pre" using assms by simp
  then have "close_before (pre @ cs) l s = close_before cs (if pre = [] then l else Some (cd_Close (last pre))) s"
    by (auto simp: close_before_def Let_def)
  ultimately show ?thesis by (simp only: fill_at_def find_append option.case(1))
qed

lemma fill_at_nil: "fill_at D m iv [] l = (\<lambda>s. carry D m iv s l)"
  by (rule ext) (simp add: fill_at_def close_before_def)

lemma bucket_range_ge: "0 < d \<Longrightarrow> s' \<in> set (bucket_range s to d) \<Longrightarrow> s \<le> s'"
  by (auto simp: bucket_range_def)

lemma fill_loop_reference:
  assumes "0 < d" and "sorted_wrt (\<lambda>c c'. cd_Start c < cd_Start c') cs" and "\<forall>c \<in> set cs. cd_Trades c > 0"
  shows "fill_loop D m iv d s to cs l = concat (map (fill_at D m iv cs l) (bucket_range s to d))"
  using assms
proof (induction D m iv d s to cs l rule: fill_loop.induct)
  case (1 D m iv d s to cs l)
  show ?case
  proof (cases "s < to")
    case False
    with 1(4) show ?thesis by (simp add: fill_loop_steps bucket_range_simps)
  next
    case True
    have c: "0 < d \<and> s < to" using True 1(4) by simp
    have r: "bucket_range s to d = s # bucket_range (s + d) to d" using c by (simp add: bucket_range_simps)
    have later: "s < s'" if "s' \<in> set (bucket_range (s + d) to d)" for s' using bucket_range_ge [OF 1(4) that] 1(4) by simp
    obtain cs1 l1 where sk: "skip_before s cs l = (cs1, l1)" by fastforce
    obtain pre where pre: "cs = pre @ cs1" "\<forall>c \<in> set pre. cd_Start c < s" "cs1 \<noteq> [] \<longrightarrow> s \<le> cd_Start (hd cs1)"
      "l1 = (if pre = [] then l else Some (cd_Close (last pre)))"
      using skip_before_before [OF 1(6), of s l] by (auto simp: sk)
    have so: "sorted_wrt (\<lambda>c c'. cd_Start c < cd_Start c') cs1" and tr: "\<forall>c \<in> set cs1. cd_Trades c > 0"
      using 1(5,6) pre(1) by (auto simp: sorted_wrt_append)
    have at_s: "fill_at D m iv cs l s' = fill_at D m iv cs1 l1 s'" if "s \<le> s'" for s'
      using fill_at_append [of pre s' D m iv cs1 l] pre that by fastforce
    have rest: "concat (map (fill_at D m iv cs l) (bucket_range (s + d) to d)) = concat (map (fill_at D m iv cs1 l1) (bucket_range (s + d) to d))"
      using later at_s by (metis (no_types, lifting) less_imp_le map_cong)
    have all: "concat (map (fill_at D m iv cs l) (bucket_range s to d)) =
      fill_at D m iv cs1 l1 s @ concat (map (fill_at D m iv cs1 l1) (bucket_range (s + d) to d))"
      by (simp add: r rest at_s)
    show ?thesis
    proof (cases cs1)
      case Nil
      from 1(1) [OF c sk [symmetric] Nil 1(4)] show ?thesis
        unfolding fill_loop_steps(2) [OF c sk [unfolded Nil]] all by (simp add: Nil fill_at_nil)
    next
      case (Cons x xs)
      show ?thesis
      proof (cases "cd_Start x = s")
        case eq: True
        have "fill_at D m iv cs1 l1 s' = fill_at D m iv xs (Some (cd_Close x)) s'" if "s < s'" for s'
          using fill_at_append [of "[x]" s' D m iv xs l1] that by (simp add: Cons eq)
        with later have mp: "map (fill_at D m iv cs1 l1) (bucket_range (s + d) to d) = map (fill_at D m iv xs (Some (cd_Close x))) (bucket_range (s + d) to d)"
          by simp
        have x: "fill_at D m iv cs1 l1 s = [x]" by (simp add: fill_at_def Cons eq)
        show ?thesis
          unfolding all fill_loop_steps(3) [OF c sk [unfolded Cons] eq] mp x using 1(2) [OF c sk [symmetric] Cons eq 1(4)] so tr Cons by simp
      next
        case False
        have "\<forall>y \<in> set cs1. s < cd_Start y" using so pre(3) False by (auto simp: Cons)
        then have "find (\<lambda>c. cd_Start c = s) cs1 = None" "filter (\<lambda>c. cd_Start c < s) cs1 = []"
          by (auto simp: find_None_iff filter_empty_conv dest: less_imp_neq less_not_sym)
        then have "fill_at D m iv cs1 l1 s = carry D m iv s l1" by (simp add: fill_at_def close_before_def)
        with 1(3) [OF c sk [symmetric] Cons False 1(4)] so tr show ?thesis
          unfolding fill_loop_steps(4) [OF c sk [unfolded Cons] False] all by (simp add: Cons)
      qed
    qed
  qed
qed

text \<open>With a price to carry from the start, every bucket has its candle.\<close>

lemma bucket_range_aligned: "0 < d \<Longrightarrow> s mod d = 0 \<Longrightarrow> s' \<in> set (bucket_range s to d) \<Longrightarrow> s' mod d = 0"
  by (auto simp: bucket_range_def)

lemma fill_at_one:
  "l \<noteq> None \<Longrightarrow> BucketStart iv s = s \<Longrightarrow> \<exists>c. fill_at D m iv cs l s = [c] \<and> cd_Start c = s"
  by (auto simp: fill_at_def carry_def close_before_def Let_def find_Some_iff split: option.split)

lemma fill_starts:
  assumes "l \<noteq> None" and "\<forall>s \<in> set ss. BucketStart iv s = s"
  shows "map cd_Start (concat (map (fill_at D m iv cs l) ss)) = ss"
  using assms(2)
proof (induction ss)
  case (Cons s ss)
  with fill_at_one [OF assms(1), of iv s D m cs] show ?case by auto
qed simp

end
