(* ===== verification/Ring_Props.thy ===== *)
theory Ring_Props
  imports Candles_Props
begin

text \<open>
  The ring of one-minute candles: it stays sorted whatever the order trades arrive in, holds for every
  minute the fold of that minute's trades, and its ticker is the summary of the trades of the window.
\<close>

section \<open>The ring stays sorted\<close>

definition ring_ok :: "'d Candle list \<Rightarrow> bool" where
  "ring_ok cs \<longleftrightarrow> sorted_wrt (\<lambda>c c'. cd_Start c < cd_Start c') cs"

lemma ring_search_split:
  assumes "ring_ok cs"
  shows "\<exists>xs ys. cs = xs @ ys \<and> ring_search cs s = length xs \<and> (\<forall>x \<in> set xs. cd_Start x < s) \<and> (\<forall>y \<in> set ys. s \<le> cd_Start y)"
proof -
  have mono: "i \<le> j \<Longrightarrow> j < length cs \<Longrightarrow> \<not> cd_Start (cs ! i) < s \<Longrightarrow> \<not> cd_Start (cs ! j) < s" for i j
    using sorted_wrt_nth_less [of "\<lambda>c c'. cd_Start c < cd_Start c'" cs i j] assms by (cases "i = j") (auto simp: ring_ok_def)
  have len: "ring_search cs s = length (takeWhile (\<lambda>c. cd_Start c < s) cs)"
    unfolding ring_search_def using sort_search_takeWhile [of cs "\<lambda>c. \<not> cd_Start c < s", OF mono] by simp
  have after: "\<forall>y \<in> set (dropWhile (\<lambda>c. cd_Start c < s) cs). s \<le> cd_Start y"
  proof (cases "dropWhile (\<lambda>c. cd_Start c < s) cs")
    case (Cons y ys)
    then have "s \<le> cd_Start y" using hd_dropWhile [of "\<lambda>c. cd_Start c < s" cs] by auto
    moreover have "ring_ok (y # ys)" using assms Cons
      by (metis ring_ok_def sorted_wrt_append takeWhile_dropWhile_id)
    ultimately show ?thesis by (auto simp: Cons ring_ok_def)
  next
    case Nil
    then show ?thesis by (simp only: list.set(1) ball_empty)
  qed
  have before: "\<forall>x \<in> set (takeWhile (\<lambda>c. cd_Start c < s) cs). cd_Start x < s" by (auto dest: set_takeWhileD)
  show ?thesis
    by (rule exI, rule exI, intro conjI, rule takeWhile_dropWhile_id [symmetric], rule len, rule before, rule after)
qed

text \<open>Writing a minute: it replaces the candle of that minute, or goes between its neighbours.\<close>

lemma ring_put_cases:
  assumes "ring_ok cs"
  obtains (new) xs ys where "cs = xs @ ys" "ring_put cs c = xs @ c # ys" "\<forall>x \<in> set xs. cd_Start x < cd_Start c"
    "\<forall>y \<in> set ys. cd_Start c < cd_Start y" "ring_index cs (cd_Start c) = None"
  | (old) xs b ys where "cs = xs @ b # ys" "ring_put cs c = xs @ c # ys" "cd_Start b = cd_Start c" "\<forall>x \<in> set xs. cd_Start x < cd_Start c"
    "\<forall>y \<in> set ys. cd_Start c < cd_Start y" "ring_index cs (cd_Start c) = Some (length xs)"
proof -
  obtain xs ys where s: "cs = xs @ ys" "ring_search cs (cd_Start c) = length xs" "\<forall>x \<in> set xs. cd_Start x < cd_Start c"
    "\<forall>y \<in> set ys. cd_Start c \<le> cd_Start y" using ring_search_split [OF assms] by blast
  show thesis
  proof (cases "ys \<noteq> [] \<and> cd_Start (hd ys) = cd_Start c")
    case True
    then obtain b zs where ys: "ys = b # zs" "cd_Start b = cd_Start c" by (cases ys) auto
    have "\<forall>y \<in> set zs. cd_Start c < cd_Start y" using assms ys(2) by (auto simp: ring_ok_def s(1) ys sorted_wrt_append)
    then show thesis using s ys
      by (intro old [of xs b zs]) (auto simp: ring_put_def ring_index_def Let_def nth_append list_update_append)
  next
    case False
    then have "\<forall>y \<in> set ys. cd_Start c < cd_Start y"
      using s(4) assms by (cases ys) (force simp: ring_ok_def s(1) sorted_wrt_append)+
    then show thesis using s False
      by (intro new [of xs ys]) (auto simp: ring_put_def ring_index_def Let_def nth_append hd_conv_nth)
  qed
qed

lemma ring_ok_between:
  "ring_ok (xs @ c # ys) \<longleftrightarrow> ring_ok (xs @ ys) \<and> (\<forall>x \<in> set xs. cd_Start x < cd_Start c) \<and> (\<forall>y \<in> set ys. cd_Start c < cd_Start y)"
  by (auto simp: ring_ok_def sorted_wrt_append intro: less_trans)

lemma ring_put_ok:
  assumes "ring_ok cs"
  shows "ring_ok (ring_put cs c)"
  by (rule ring_put_cases [OF assms, of c]) (use assms in \<open>simp_all add: ring_ok_between\<close>)

lemma ring_seed_ok: "ring_ok cs \<Longrightarrow> ring_ok (ring_seed cs new)"
  by (induction cs new rule: ring_seed.induct) (simp_all add: ring_put_ok)

lemma Prune_ok: "ring_ok (cr_candles r) \<Longrightarrow> ring_ok (cr_candles (Ring_Prune r now))"
  unfolding Ring_Prune_def Let_def ring_ok_def by (simp add: sorted_wrt_dropWhile)

text \<open>A trade extends its minute or opens it.\<close>

lemma AddTrade_cases:
  assumes "ring_ok (cr_candles r)" and s_def: "s = BucketStart Interval1m (tt_At t)"
  obtains (new) xs ys where "cr_candles r = xs @ ys" "\<forall>x \<in> set xs. cd_Start x < s" "\<forall>y \<in> set ys. s < cd_Start y"
    "cr_candles (fst (Ring_AddTrade D r t)) = xs @ Candle_Add D (NewCandle D (cr_market r) Interval1m (tt_At t)) t # ys"
  | (old) xs c ys where "cr_candles r = xs @ c # ys" "cd_Start c = s" "\<forall>x \<in> set xs. cd_Start x < s" "\<forall>y \<in> set ys. s < cd_Start y"
    "cr_candles (fst (Ring_AddTrade D r t)) = xs @ Candle_Add D c t # ys"
proof (cases rule: ring_put_cases [OF assms(1), of "Candle_Add D (NewCandle D (cr_market r) Interval1m (tt_At t)) t"])
  case (1 xs ys)
  then show thesis by (intro new [of xs ys]) (simp_all add: Ring_AddTrade_def s_def Let_def)
next
  case (2 xs b ys)
  then show thesis by (intro old [of xs b ys]) (simp_all add: Ring_AddTrade_def s_def Let_def nth_append list_update_append)
qed

lemma AddTrade_ok:
  assumes "ring_ok (cr_candles r)"
  shows "ring_ok (cr_candles (fst (Ring_AddTrade D r t))) \<and> cr_market (fst (Ring_AddTrade D r t)) = cr_market r"
proof
  show "ring_ok (cr_candles (fst (Ring_AddTrade D r t)))"
    by (rule AddTrade_cases [OF assms refl, of t D]) (use assms in \<open>simp_all add: ring_ok_between\<close>)
qed (simp add: Ring_AddTrade_def Let_def split: option.split)

section \<open>Trades in any order\<close>

fun feed_ring :: "'d decimal_pkg \<Rightarrow> 'd CandleRing \<Rightarrow> 'd TradeTick list \<Rightarrow> 'd CandleRing" where
  "feed_ring D r [] = r"
| "feed_ring D r (t # ts) = feed_ring D (fst (Ring_AddTrade D r t)) ts"

lemma feed_snoc: "feed_ring D r (ts @ [t]) = fst (Ring_AddTrade D (feed_ring D r ts) t)"
  by (induction ts arbitrary: r) simp_all

lemma feed_ok: "ring_ok (cr_candles (feed_ring D (NewCandleRing m) ts)) \<and> cr_market (feed_ring D (NewCandleRing m) ts) = m"
  by (induction ts rule: rev_induct) (simp_all add: feed_snoc AddTrade_ok, simp add: NewCandleRing_def ring_ok_def)

definition minute :: "'d TradeTick \<Rightarrow> go_time" where
  "minute t = BucketStart Interval1m (tt_At t)"

text \<open>The candle a minute's trades make.\<close>

definition minute_candle :: "'d decimal_pkg \<Rightarrow> string \<Rightarrow> go_time \<Rightarrow> 'd TradeTick list \<Rightarrow> 'd Candle" where
  "minute_candle D m s ts = foldl (Candle_Add D) (NewCandle D m Interval1m s) (filter (\<lambda>t. minute t = s) ts)"

lemma minute_candle_snoc:
  "minute_candle D m s (ts @ [t]) = (if minute t = s then Candle_Add D (minute_candle D m s ts) t else minute_candle D m s ts)"
  by (simp add: minute_candle_def)

lemma minute_candle_none: "s \<notin> minute ` set ts \<Longrightarrow> minute_candle D m s ts = NewCandle D m Interval1m s"
proof -
  assume "s \<notin> minute ` set ts"
  then have "filter (\<lambda>t. minute t = s) ts = []" by (auto simp: filter_empty_conv)
  then show ?thesis by (simp add: minute_candle_def)
qed

lemma minute_idem: "BucketStart Interval1m (minute t) = minute t"
  by (simp add: minute_def bucket_idem intervals_def)

lemma ring_minutes:
  "set (cr_candles (feed_ring D (NewCandleRing m) ts)) = (\<lambda>s. minute_candle D m s ts) ` minute ` set ts"
proof (induction ts rule: rev_induct)
  case Nil
  then show ?case by (simp add: NewCandleRing_def)
next
  case (snoc t ts)
  let ?r = "feed_ring D (NewCandleRing m) ts" and ?s = "BucketStart Interval1m (tt_At t)"
  have s: "minute t = ?s" by (simp add: minute_def)
  have start: "cd_Start (minute_candle D m s ts) = s" if "s \<in> minute ` set ts" for s
  proof -
    have "cd_Start (foldl (Candle_Add D) c xs) = cd_Start c" for c xs by (induction xs arbitrary: c) simp_all
    then show ?thesis using that by (auto simp: minute_candle_def minute_idem)
  qed
  have ok: "ring_ok (cr_candles ?r)" "cr_market ?r = m" using feed_ok by blast+
  show ?case
  proof (cases rule: AddTrade_cases [OF ok(1) refl, of t D])
    case (1 xs ys)
    have no: "?s \<notin> minute ` set ts"
    proof
      assume yes: "?s \<in> minute ` set ts"
      then have "minute_candle D m ?s ts \<in> set xs \<union> set ys" using snoc.IH 1(1) by (metis image_eqI set_append)
      with start [OF yes] 1(2,3) show False by auto
    qed
    have "Candle_Add D (NewCandle D m Interval1m (tt_At t)) t = minute_candle D m ?s (ts @ [t])"
      using minute_candle_none [OF no, of D m] minute_idem [of t] by (simp add: minute_candle_snoc s NewCandle_def)
    moreover have "(\<lambda>s. minute_candle D m s ts) ` minute ` set ts = (\<lambda>s. minute_candle D m s (ts @ [t])) ` minute ` set ts"
      using no by (intro image_cong) (auto simp: minute_candle_snoc s)
    ultimately show ?thesis using 1 snoc.IH by (auto simp: feed_snoc ok(2) s)
  next
    case (2 xs c ys)
    have "c \<in> set (cr_candles ?r)" by (simp only: 2(1)) simp
    then have "c \<in> (\<lambda>s. minute_candle D m s ts) ` minute ` set ts" by (simp only: snoc.IH)
    then obtain s' where "s' \<in> minute ` set ts" "c = minute_candle D m s' ts" by blast
    then have yes: "?s \<in> minute ` set ts" and c: "c = minute_candle D m ?s ts" using start [of s'] 2(2) by simp_all
    have "set xs \<union> set ys = (\<lambda>s. minute_candle D m s ts) ` (minute ` set ts - {?s})"
    proof -
      have "set xs \<union> set ys = {x \<in> set (cr_candles ?r). cd_Start x \<noteq> ?s}" using 2(1-4) by auto
      also have "\<dots> = (\<lambda>s. minute_candle D m s ts) ` (minute ` set ts - {?s})"
        unfolding snoc.IH using start by auto
      finally show ?thesis .
    qed
    also have "\<dots> = (\<lambda>s. minute_candle D m s (ts @ [t])) ` (minute ` set ts - {?s})"
      by (intro image_cong) (auto simp: minute_candle_snoc s)
    finally have "set xs \<union> set ys \<union> {Candle_Add D c t} = (\<lambda>s. minute_candle D m s (ts @ [t])) ` (minute ` set ts \<union> {?s})"
      by (auto simp: c minute_candle_snoc s)
    then show ?thesis using 2(5) by (auto simp: feed_snoc s)
  qed
qed


lemma ring_starts:
  assumes "c \<in> set (cr_candles (feed_ring D (NewCandleRing m) ts))"
  shows "c = minute_candle D m (cd_Start c) ts \<and> cd_Start c \<in> minute ` set ts"
proof -
  have start: "cd_Start (foldl (Candle_Add D) c xs) = cd_Start c" for c xs by (induction xs arbitrary: c) simp_all
  from assms obtain t where "t \<in> set ts" "c = minute_candle D m (minute t) ts" by (auto simp: ring_minutes)
  moreover have "cd_Start (minute_candle D m (minute t) ts) = minute t" by (simp add: minute_candle_def start minute_idem)
  ultimately show ?thesis by simp
qed

section \<open>The ticker\<close>

lemma group_sum:
  assumes "finite S" and "g ` set ts \<subseteq> S"
  shows "(\<Sum>s \<in> S. sum_list (map f (filter (\<lambda>t. g t = s) ts))) = (sum_list (map f ts) :: 'a :: comm_monoid_add)"
  using assms(2)
proof (induction ts)
  case (Cons t ts)
  have "(\<Sum>s \<in> S. sum_list (map f (filter (\<lambda>u. g u = s) (t # ts)))) =
    (\<Sum>s \<in> S. (if s = g t then f t else 0) + sum_list (map f (filter (\<lambda>u. g u = s) ts)))"
    by (rule sum.cong) auto
  with Cons assms(1) show ?case by (simp add: sum.distrib sum.delta)
qed simp

lemma sorted_ends:
  fixes xs :: "'a :: linorder list"
  assumes "sorted xs" and "xs \<noteq> []"
  shows "hd xs = Min (set xs) \<and> last xs = Max (set xs)"
proof
  show "hd xs = Min (set xs)" using assms by (cases xs) (auto intro!: Min_eqI [symmetric])
  show "last xs = Max (set xs)" using assms by (cases xs rule: rev_cases) (auto intro!: Max_eqI [symmetric] simp: sorted_append)
qed

text \<open>The bound of some values is one of them.\<close>

definition highest :: "('a \<Rightarrow> rat) \<Rightarrow> 'a set \<Rightarrow> rat \<Rightarrow> bool" where
  "highest f A h \<longleftrightarrow> (\<exists>a \<in> A. f a = h) \<and> (\<forall>a \<in> A. f a \<le> h)"

definition lowest :: "('a \<Rightarrow> rat) \<Rightarrow> 'a set \<Rightarrow> rat \<Rightarrow> bool" where
  "lowest f A l \<longleftrightarrow> (\<exists>a \<in> A. f a = l) \<and> (\<forall>a \<in> A. l \<le> f a)"

context decimal
begin

lemma candle_of_trades:
  fixes w :: "'d TradeTick list"
  assumes "w \<noteq> []" and "cd_Trades c0 = 0" "V (cd_Volume c0) = 0" "V (cd_QuoteVolume c0) = 0"
  defines "c \<equiv> foldl (Candle_Add D) c0 w"
  shows "cd_Trades c = int (length w) \<and> V (cd_Volume c) = (\<Sum>t\<leftarrow>w. V (tt_Qty t)) \<and>
    V (cd_QuoteVolume c) = (\<Sum>t\<leftarrow>w. V (tt_QuoteQty t)) \<and> cd_Open c = tt_Price (hd w) \<and> cd_Close c = tt_Price (last w) \<and>
    highest (\<lambda>t. V (tt_Price t)) (set w) (V (cd_High c)) \<and> lowest (\<lambda>t. V (tt_Price t)) (set w) (V (cd_Low c))"
  unfolding c_def using assms(1)
proof (induction w rule: rev_induct)
  case (snoc t w)
  show ?case
  proof (cases "w = []")
    case True
    with assms show ?thesis by (simp add: Candle_Add_def Let_def highest_def lowest_def)
  next
    case False
    with snoc have IH: "cd_Trades (foldl (Candle_Add D) c0 w) > 0" by simp
    from snoc False show ?thesis
      by (auto simp: Candle_Add_def Let_def highest_def lowest_def hd_append)
  qed
qed simp

lemma ticker_loop_ok:
  assumes "ticker_loop D cs (h, l) t = ((h', l'), t')"
  shows "V (tk_Volume t') = V (tk_Volume t) + (\<Sum>c\<leftarrow>cs. V (cd_Volume c)) \<and>
    V (tk_QuoteVolume t') = V (tk_QuoteVolume t) + (\<Sum>c\<leftarrow>cs. V (cd_QuoteVolume c)) \<and>
    tk_Trades t' = tk_Trades t + (\<Sum>c\<leftarrow>cs. cd_Trades c) \<and> tk_Market t' = tk_Market t \<and> tk_At t' = tk_At t \<and>
    highest id (insert (V h) ((\<lambda>c. V (cd_High c)) ` set cs)) (V h') \<and>
    lowest id (insert (V l) ((\<lambda>c. V (cd_Low c)) ` set cs)) (V l')"
  using assms
proof (induction cs arbitrary: h l t)
  case (Cons c cs)
  from Cons.IH [OF Cons.prems [unfolded ticker_loop.simps]] show ?case
    by (auto simp: highest_def lowest_def add.assoc split: if_splits)
qed (auto simp: highest_def lowest_def)

end

text \<open>The trades whose minute starts in the window.\<close>

definition in_day :: "go_time \<Rightarrow> 'd TradeTick \<Rightarrow> bool" where
  "in_day now t \<longleftrightarrow> now - TickerWindow \<le> minute t \<and> minute t < now"

abbreviation of_minute :: "go_time \<Rightarrow> 'd TradeTick list \<Rightarrow> 'd TradeTick list" where
  "of_minute s ts \<equiv> filter (\<lambda>t. minute t = s) ts"

lemma minute_candle_filter: "(\<forall>t \<in> set ts. minute t = s \<longrightarrow> P t) \<Longrightarrow> minute_candle D m s (filter P ts) = minute_candle D m s ts"
proof -
  assume "\<forall>t \<in> set ts. minute t = s \<longrightarrow> P t"
  then have "of_minute s (filter P ts) = of_minute s ts" by (induction ts) auto
  then show ?thesis by (simp add: minute_candle_def)
qed

lemma sorted_filter_starts: "ring_ok cs \<Longrightarrow> sorted (map cd_Start (filter P cs)) \<and> distinct (filter P cs)"
proof -
  assume "ring_ok cs"
  then have "sorted_wrt (<) (map cd_Start (filter P cs))" by (simp add: ring_ok_def sorted_wrt_map sorted_wrt_filter)
  then show ?thesis by (simp add: strict_sorted_iff distinct_map)
qed

context decimal
begin

text \<open>What a minute with trades is worth.\<close>

lemma minute_worth:
  fixes m :: string and ts :: "'d TradeTick list"
  assumes "s \<in> minute ` set ts"
  defines "c \<equiv> minute_candle D m s ts" and "w \<equiv> of_minute s ts"
  shows "w \<noteq> [] \<and> cd_Trades c = int (length w) \<and> V (cd_Volume c) = (\<Sum>t\<leftarrow>w. V (tt_Qty t)) \<and>
    V (cd_QuoteVolume c) = (\<Sum>t\<leftarrow>w. V (tt_QuoteQty t)) \<and> cd_Open c = tt_Price (hd w) \<and> cd_Close c = tt_Price (last w) \<and>
    highest (\<lambda>t. V (tt_Price t)) (set w) (V (cd_High c)) \<and> lowest (\<lambda>t. V (tt_Price t)) (set w) (V (cd_Low c))"
proof -
  have "w \<noteq> []" using assms(1) by (auto simp: w_def filter_empty_conv)
  with candle_of_trades [OF this, of "NewCandle D m Interval1m s"] show ?thesis
    by (simp add: c_def minute_candle_def flip: w_def)
qed

lemma window_candles:
  fixes m :: string and now :: go_time and ts :: "'d TradeTick list"
  defines "cs \<equiv> filter (in_window now) (cr_candles (feed_ring D (NewCandleRing m) ts))" and "w \<equiv> filter (in_day now) ts"
  shows "set cs = (\<lambda>s. minute_candle D m s w) ` minute ` set w" "inj_on (\<lambda>s. minute_candle D m s w) (minute ` set w)"
    "distinct cs" "sorted (map cd_Start cs)" "\<And>s. s \<in> minute ` set w \<Longrightarrow> cd_Start (minute_candle D m s w) = s"
proof -
  let ?r = "feed_ring D (NewCandleRing m) ts"
  show "distinct cs" "sorted (map cd_Start cs)" using sorted_filter_starts [of "cr_candles ?r"] feed_ok by (auto simp: cs_def)
  have start: "cd_Start (foldl (Candle_Add D) c xs) = cd_Start c" for c xs by (induction xs arbitrary: c) simp_all
  show st: "cd_Start (minute_candle D m s w) = s" if "s \<in> minute ` set w" for s
    using that by (auto simp: minute_candle_def start minute_idem)
  then show "inj_on (\<lambda>s. minute_candle D m s w) (minute ` set w)" by (rule inj_on_inverseI)
  have same: "minute_candle D m s w = minute_candle D m s ts" if "now - TickerWindow \<le> s" "s < now" for s
    unfolding w_def by (rule minute_candle_filter) (use that in \<open>auto simp: in_day_def\<close>)
  have w: "s \<in> minute ` set w \<longleftrightarrow> s \<in> minute ` set ts \<and> now - TickerWindow \<le> s \<and> s < now" for s
    by (auto simp: w_def in_day_def)
  show "set cs = (\<lambda>s. minute_candle D m s w) ` minute ` set w"
  proof (intro set_eqI iffI)
    fix c assume "c \<in> set cs"
    then have c: "c \<in> set (cr_candles ?r)" "now - TickerWindow \<le> cd_Start c" "cd_Start c < now"
      by (auto simp: cs_def in_window_def)
    with ring_starts [OF c(1)] w have "cd_Start c \<in> minute ` set w" by blast
    moreover have "c = minute_candle D m (cd_Start c) w" using ring_starts [OF c(1)] same [OF c(2,3)] by simp
    ultimately show "c \<in> (\<lambda>s. minute_candle D m s w) ` minute ` set w" by (rule rev_image_eqI)
  next
    fix c assume "c \<in> (\<lambda>s. minute_candle D m s w) ` minute ` set w"
    then obtain s where "s \<in> minute ` set w" and c: "c = minute_candle D m s w" by blast
    then have s: "s \<in> minute ` set ts" "now - TickerWindow \<le> s" "s < now" using w by auto
    have "c \<in> set (cr_candles ?r)" unfolding c same [OF s(2,3)] ring_minutes using s(1) by (rule imageI)
    moreover have "cd_Trades c > 0" using minute_worth [OF s(1), of m] by (simp add: c same [OF s(2,3)])
    moreover have "cd_Start c = s" using st \<open>s \<in> minute ` set w\<close> by (simp add: c)
    ultimately show "c \<in> set cs" using s by (simp add: cs_def in_window_def)
  qed
qed

lemma window_sum:
  fixes m :: string and now :: go_time and ts :: "'d TradeTick list" and f :: "'d Candle \<Rightarrow> 'a :: comm_monoid_add"
  defines "w \<equiv> filter (in_day now) ts"
  assumes "\<And>s. s \<in> minute ` set w \<Longrightarrow> f (minute_candle D m s w) = (\<Sum>t\<leftarrow>of_minute s w. g t)"
  shows "(\<Sum>c\<leftarrow>filter (in_window now) (cr_candles (feed_ring D (NewCandleRing m) ts)). f c) = (\<Sum>t\<leftarrow>w. g t)"
proof -
  note cs = window_candles [where now = now and m = m and ts = ts, folded w_def]
  have "(\<Sum>c\<leftarrow>filter (in_window now) (cr_candles (feed_ring D (NewCandleRing m) ts)). f c) = (\<Sum>s \<in> minute ` set w. f (minute_candle D m s w))"
    by (simp only: sum_list_distinct_conv_sum_set [OF cs(3)] cs(1) sum.reindex [OF cs(2)] comp_def)
  also have "\<dots> = (\<Sum>s \<in> minute ` set w. \<Sum>t\<leftarrow>of_minute s w. g t)" by (rule sum.cong) (auto simp: assms(2))
  also have "\<dots> = (\<Sum>t\<leftarrow>w. g t)" by (rule group_sum) auto
  finally show ?thesis .
qed


lemma highest_image:
  assumes "\<And>s. s \<in> S \<Longrightarrow> highest f (A s) (h s)" and "S \<noteq> {}"
  shows "highest id (h ` S) x \<Longrightarrow> highest f (\<Union>s \<in> S. A s) x"
  using assms by (fastforce simp: highest_def)

lemma lowest_image:
  assumes "\<And>s. s \<in> S \<Longrightarrow> lowest f (A s) (h s)" and "S \<noteq> {}"
  shows "lowest id (h ` S) x \<Longrightarrow> lowest f (\<Union>s \<in> S. A s) x"
  using assms by (fastforce simp: lowest_def)

lemma change_pct_ok:
  "V o' \<le> 0 \<Longrightarrow> change_pct D ch o' = None"
  "0 < V o' \<Longrightarrow> \<exists>p. change_pct D ch o' = Some p \<and> V p = of_int (trunc_rat (V ch / V o' * 10000)) / 100"
proof -
  assume o': "0 < V o'"
  then obtain q where q: "DivRoundDown D (Amount_Mul D (Amount_Abs D ch) (FromInt64 D 100)) o' 2 = Inr q"
    "V q = of_int (trunc_rat (\<bar>V ch\<bar> * 100 / V o' * 10 ^ 2)) / 10 ^ 2"
    using DivRoundDown_ok [of o' 2 "Amount_Mul D (Amount_Abs D ch) (FromInt64 D 100)"] by (auto simp: MaxScale_def)
  have "\<bar>V ch\<bar> * 100 / V o' * 10 ^ 2 = \<bar>V ch\<bar> / V o' * 10000" by simp
  from q(2) [unfolded this] have "V q = of_int (trunc_rat (\<bar>V ch\<bar> / V o' * 10000)) / 100" by simp
  moreover have "trunc_rat (- x) = - trunc_rat x" for x by (auto simp: trunc_rat_def ceiling_def)
  then have "trunc_rat (\<bar>V ch\<bar> / V o' * 10000) = (if V ch < 0 then - trunc_rat (V ch / V o' * 10000) else trunc_rat (V ch / V o' * 10000))"
    by (simp add: abs_if)
  ultimately show "\<exists>p. change_pct D ch o' = Some p \<and> V p = of_int (trunc_rat (V ch / V o' * 10000)) / 100"
    using o' q(1) by (simp add: change_pct_def)
qed (simp add: change_pct_def)

end

text \<open>The ticker of the trades of the window.\<close>

definition ticker_of :: "'d decimal_pkg \<Rightarrow> ('d \<Rightarrow> rat) \<Rightarrow> 'd TradeTick list \<Rightarrow> 'd Ticker \<Rightarrow> bool" where
  "ticker_of D val w tk \<longleftrightarrow>
     amt_val val (tk_Volume tk) = (\<Sum>t\<leftarrow>w. amt_val val (tt_Qty t)) \<and>
     amt_val val (tk_QuoteVolume tk) = (\<Sum>t\<leftarrow>w. amt_val val (tt_QuoteQty t)) \<and> tk_Trades tk = int (length w) \<and>
     (if w = [] then tk_Last tk = None \<and> tk_Open tk = None \<and> tk_High tk = None \<and> tk_Low tk = None \<and> tk_Change tk = None \<and> tk_ChangePct tk = None
      else \<exists>high low change.
        tk_Open tk = Some (tt_Price (hd (of_minute (Min (minute ` set w)) w))) \<and>
        tk_Last tk = Some (tt_Price (last (of_minute (Max (minute ` set w)) w))) \<and>
        tk_High tk = Some high \<and> highest (\<lambda>t. amt_val val (tt_Price t)) (set w) (amt_val val high) \<and>
        tk_Low tk = Some low \<and> lowest (\<lambda>t. amt_val val (tt_Price t)) (set w) (amt_val val low) \<and>
        tk_Change tk = Some change \<and> amt_val val change = amt_val val (the (tk_Last tk)) - amt_val val (the (tk_Open tk)) \<and>
        (if amt_val val (the (tk_Open tk)) > 0
         then \<exists>p. tk_ChangePct tk = Some p \<and> amt_val val p = of_int (trunc_rat (amt_val val change / amt_val val (the (tk_Open tk)) * 10000)) / 100
         else tk_ChangePct tk = None))"

context decimal
begin

lemma ring_ticker:
  fixes m :: string and now :: go_time and ts :: "'d TradeTick list"
  shows "ticker_of D val (filter (in_day now) ts) (Ring_Ticker D (feed_ring D (NewCandleRing m) ts) now)"
proof -
  define w where "w = filter (in_day now) ts"
  define cs where "cs = filter (in_window now) (cr_candles (feed_ring D (NewCandleRing m) ts))"
  note win = window_candles [where now = now and m = m and ts = ts, folded w_def cs_def]
  note sums = window_sum [where now = now and m = m and ts = ts, folded w_def cs_def]
  have worth: "s \<in> minute ` set w \<Longrightarrow> cd_Trades (minute_candle D m s w) = int (length (of_minute s w))"
    "s \<in> minute ` set w \<Longrightarrow> V (cd_Volume (minute_candle D m s w)) = (\<Sum>t\<leftarrow>of_minute s w. V (tt_Qty t))"
    "s \<in> minute ` set w \<Longrightarrow> V (cd_QuoteVolume (minute_candle D m s w)) = (\<Sum>t\<leftarrow>of_minute s w. V (tt_QuoteQty t))"
    "s \<in> minute ` set w \<Longrightarrow> cd_Open (minute_candle D m s w) = tt_Price (hd (of_minute s w))"
    "s \<in> minute ` set w \<Longrightarrow> cd_Close (minute_candle D m s w) = tt_Price (last (of_minute s w))"
    "s \<in> minute ` set w \<Longrightarrow> highest (\<lambda>t. V (tt_Price t)) (set (of_minute s w)) (V (cd_High (minute_candle D m s w)))"
    "s \<in> minute ` set w \<Longrightarrow> lowest (\<lambda>t. V (tt_Price t)) (set (of_minute s w)) (V (cd_Low (minute_candle D m s w)))" for s
    using minute_worth [of s w m] by blast+
  have trades: "(\<Sum>c\<leftarrow>cs. cd_Trades c) = int (length w)" using sums [of cd_Trades "\<lambda>t. 1"] by (simp add: worth(1) sum_list_triv)
  have market: "cr_market (feed_ring D (NewCandleRing m) ts) = m" using feed_ok by blast
  have id: "sort_key cd_Start cs = cs" by (rule sort_key_id_if_sorted [OF win(4)])
  show ?thesis
  proof (cases "w = []")
    case True
    then have "cs = []" using win(1) by simp
    then show ?thesis using True by (simp add: Ring_Ticker_def TickerFrom_def ticker_of_def market Let_def flip: w_def cs_def)
  next
    case False
    let ?S = "minute ` set w"
    have ne: "cs \<noteq> []" using False win(1) by auto
    define t0 where "t0 = \<lparr>tk_Market = m, tk_Last = None, tk_Open = None, tk_High = None, tk_Low = None, tk_Change = None,
      tk_ChangePct = None, tk_Volume = Zero D, tk_QuoteVolume = Zero D, tk_Trades = 0, tk_At = now\<rparr>"
    obtain h l t1 where loop: "ticker_loop D cs (cd_High (hd cs), cd_Low (hd cs)) t0 = ((h, l), t1)" by (metis surj_pair)
    have S: "?S = cd_Start ` set cs" using win(1,5) by force
    have "cd_Start (hd cs) = Min ?S" unfolding S
      using sorted_ends [OF win(4)] ne by (simp add: hd_map)
    then have open': "cd_Open (hd cs) = tt_Price (hd (of_minute (Min ?S) w))"
      using win(1,5) worth(4) hd_in_set [OF ne] by force
    have "cd_Start (last cs) = Max ?S" unfolding S
      using sorted_ends [OF win(4)] ne by (simp add: last_map)
    then have close: "cd_Close (last cs) = tt_Price (last (of_minute (Max ?S) w))"
      using win(1,5) worth(5) last_in_set [OF ne] by force
    have all: "(\<Union>s \<in> ?S. set (of_minute s w)) = set w" by auto
    have ins: "insert (f (hd cs)) (f ` set cs) = (\<lambda>s. f (minute_candle D m s w)) ` ?S" for f :: "'d Candle \<Rightarrow> rat"
      using hd_in_set [OF ne] win(1) by (auto simp: image_image)
    note ok = ticker_loop_ok [OF loop]
    have "highest id ((\<lambda>s. V (cd_High (minute_candle D m s w))) ` ?S) (V h)" using ok ins [of "\<lambda>c. V (cd_High c)"] by simp
    from highest_image [OF worth(6) _ this] False all have high: "highest (\<lambda>t. V (tt_Price t)) (set w) (V h)" by simp
    have "lowest id ((\<lambda>s. V (cd_Low (minute_candle D m s w))) ` ?S) (V l)" using ok ins [of "\<lambda>c. V (cd_Low c)"] by simp
    from lowest_image [OF worth(7) _ this] False all have low: "lowest (\<lambda>t. V (tt_Price t)) (set w) (V l)" by simp
    have "Ring_Ticker D (feed_ring D (NewCandleRing m) ts) now =
      t1\<lparr>tk_Open := Some (cd_Open (hd cs)), tk_Last := Some (cd_Close (last cs)), tk_High := Some h, tk_Low := Some l,
        tk_Change := Some (Amount_Sub D (cd_Close (last cs)) (cd_Open (hd cs))),
        tk_ChangePct := change_pct D (Amount_Sub D (cd_Close (last cs)) (cd_Open (hd cs))) (cd_Open (hd cs))\<rparr>"
      using ne loop by (simp add: Ring_Ticker_def TickerFrom_def market Let_def id flip: cs_def t0_def)
    note ticker = this
    let ?o = "cd_Open (hd cs)" and ?ch = "Amount_Sub D (cd_Close (last cs)) (cd_Open (hd cs))"
    show ?thesis
    proof (cases "V ?o > 0")
      case True
      from change_pct_ok(2) [OF this, of ?ch] obtain p where
        "change_pct D ?ch ?o = Some p" "V p = of_int (trunc_rat (V ?ch / V ?o * 10000)) / 100" by blast
      with ticker ok trades high low open' close False True show ?thesis
        by (simp add: ticker_of_def t0_def sums worth(2,3) flip: w_def)
    next
      case non_pos: False
      with ticker ok trades high low open' close False change_pct_ok(1) [of ?o ?ch] show ?thesis
        by (simp add: ticker_of_def t0_def sums worth(2,3) flip: w_def)
    qed
  qed
qed

end

text \<open>Dropping what is older than the window does not change the ticker.\<close>

lemma prune_ticker:
  fixes r :: "'d CandleRing"
  shows "Ring_Ticker D (Ring_Prune r now) now = Ring_Ticker D r now"
proof -
  have "BucketStart Interval1m (now - TickerWindow) \<le> now - TickerWindow"
    by (simp add: BucketStart_def Truncate_def Duration_def time_Minute_def)
  then have "filter (in_window now) (dropWhile (\<lambda>c. cd_Start c < BucketStart Interval1m (now - TickerWindow)) cs) = filter (in_window now) cs" for cs :: "'d Candle list"
    by (induction cs) (auto simp: in_window_def)
  then show ?thesis by (simp add: Ring_Ticker_def TickerFrom_def Ring_Prune_def Let_def)
qed

text \<open>Trades in the order of their times: the ring is the list of one-minute candles.\<close>

lemma minute_mono: "tt_At t \<le> tt_At u \<Longrightarrow> minute t \<le> minute u"
proof -
  assume le: "tt_At t \<le> tt_At u"
  let ?d = "Duration Interval1m"
  have d: "0 < ?d" by (simp add: Duration_def time_Minute_def)
  have "minute x = tt_At x div ?d * ?d" for x :: "'d TradeTick"
    using d by (simp add: minute_def BucketStart_def Truncate_def minus_mod_eq_div_mult)
  with zdiv_mono1 [OF le d] d show ?thesis by (metis mult_right_mono less_imp_le)
qed

lemma ring_in_order:
  assumes "sorted (map tt_At ts)"
  shows "cr_candles (feed_ring D (NewCandleRing m) ts) = bucket_candles D m Interval1m ts"
  using assms
proof (induction ts rule: rev_induct)
  case Nil
  then show ?case by (simp add: NewCandleRing_def)
next
  case (snoc t ts)
  let ?r = "feed_ring D (NewCandleRing m) ts" and ?s = "BucketStart Interval1m (tt_At t)"
  have ok: "ring_ok (cr_candles ?r)" "cr_market ?r = m" using feed_ok by blast+
  have IH: "cr_candles ?r = bucket_candles D m Interval1m ts" using snoc by (simp add: sorted_append)
  have "minute u \<le> ?s" if "u \<in> set ts" for u
    using minute_mono [of u t] that snoc.prems by (simp add: sorted_append minute_def)
  then have le: "\<forall>c \<in> set (cr_candles ?r). cd_Start c \<le> ?s" by (auto dest!: ring_starts)
  show ?case
  proof (cases rule: AddTrade_cases [OF ok(1) refl, of t D])
    case (1 xs ys)
    with le have ys: "ys = []" by (cases ys) auto
    have "cr_candles ?r = [] \<or> cd_Start (last (cr_candles ?r)) \<noteq> ?s"
      using 1(1,2) ys last_in_set [of xs] by (cases xs) (auto simp del: last_in_set)
    then show ?thesis using 1 ys by (simp add: bucket_candles_snoc bucket_step_def feed_snoc ok(2) flip: IH)
  next
    case (2 xs c ys)
    with le have ys: "ys = []" by (cases ys) auto
    then show ?thesis using 2 by (simp add: bucket_candles_snoc bucket_step_def feed_snoc butlast_append flip: IH)
  qed
qed

end
