(* ===== verification/Marketdata_Claims.thy ===== *)
theory Marketdata_Claims
  imports Ring_Props
begin

text \<open>The properties of the candles and the ticker, each with a witness on some trades of one day.\<close>

definition w_tick :: "string \<Rightarrow> int \<Rightarrow> int \<Rightarrow> int \<Rightarrow> fx TradeTick" where
  "w_tick i p q at' =
     \<lparr>tt_TradeID = i, tt_Market = ''BTC-USD'', tt_Seq = 1, tt_Index = 0, tt_Price = Amount (Fx p 0), tt_Qty = Amount (Fx q 0),
      tt_QuoteQty = Amount (Fx (p * q) 0), tt_TakerSide = ''buy'', tt_At = at'\<rparr>"

definition w_ticks :: "fx TradeTick list" where
  "w_ticks = [w_tick ''a'' 100 1 (time_Minute + 5), w_tick ''b'' 90 2 (2 * time_Minute), w_tick ''c'' 120 1 (2 * time_Minute + 7)]"

text \<open>C23: wider candles. Rolling the one-minute candles of a sequence of trades up into a wider interval gives
  the candles that folding the trades into that interval gives, field by field as numbers, in every
  interval; and what the aggregator of live trades holds for the interval is the last of them.\<close>

theorem rollup_matches_trades:
  assumes "decimal D val" and "iv \<in> set intervals"
  shows "list_all2 (same_candle val) (Rollup D (bucket_candles D m Interval1m ts) m iv) (bucket_candles D m iv ts) \<and>
    (ts \<noteq> [] \<longrightarrow> (\<exists>c. Aggregator_Current (aggregate D (NewAggregator m) ts) iv = Some c \<and>
       same_candle val (last (Rollup D (bucket_candles D m Interval1m ts) m iv)) c))"
  using decimal.rollup_agrees [OF assms] decimal.aggregator_rollup [OF assms] by blast

theorem rollup_matches_trades_witness:
  "list_all2 (same_candle fx_val) (Rollup fx_pkg (bucket_candles fx_pkg ''BTC-USD'' Interval1m w_ticks) ''BTC-USD'' Interval1h)
     (bucket_candles fx_pkg ''BTC-USD'' Interval1h w_ticks)"
  using rollup_matches_trades [OF fx.decimal_axioms, of Interval1h] by (simp add: intervals_def)

text \<open>C24: gaps. For stored candles in ascending order, all with trades, the filled list is bucket by bucket the
  stored candle where there is one and otherwise a flat one at the close of the last candle before
  the bucket, and nothing before the first known price; with a price known at the start there is
  exactly one candle per bucket of the range.\<close>

theorem gaps_filled:
  assumes "iv \<in> set intervals" and "from < to'" and "sorted_wrt (\<lambda>c c'. cd_Start c < cd_Start c') cs" and "\<forall>c \<in> set cs. cd_Trades c > 0"
  shows "FillGaps D cs m iv from to' prev = concat (map (fill_at D m iv cs prev) (bucket_range (BucketStart iv from) to' (Duration iv))) \<and>
    (prev \<noteq> None \<longrightarrow> map cd_Start (FillGaps D cs m iv from to' prev) = bucket_range (BucketStart iv from) to' (Duration iv))"
proof -
  have d: "0 < Duration iv" by (rule Duration_pos [OF assms(1)])
  have eq: "FillGaps D cs m iv from to' prev = concat (map (fill_at D m iv cs prev) (bucket_range (BucketStart iv from) to' (Duration iv)))"
    using d assms(2) fill_loop_reference [OF d assms(3,4)] by (simp add: FillGaps_def Let_def not_le)
  have "BucketStart iv from mod Duration iv = 0" using d by (simp add: BucketStart_def Truncate_def not_le minus_mod_eq_mult_div)
  from bucket_range_aligned [OF d this] d
  have "\<forall>s \<in> set (bucket_range (BucketStart iv from) to' (Duration iv)). BucketStart iv s = s"
    by (auto simp: BucketStart_def Truncate_def)
  with fill_starts [of prev _ iv D m cs] eq show ?thesis by simp
qed

theorem gaps_filled_witness:
  "map cd_Start (FillGaps fx_pkg (bucket_candles fx_pkg ''BTC-USD'' Interval1m w_ticks) ''BTC-USD'' Interval1m 0 (4 * time_Minute) (Some (Amount (Fx 1 0)))) =
     [0, time_Minute, 2 * time_Minute, 3 * time_Minute]"
proof -
  let ?cs = "bucket_candles fx_pkg ''BTC-USD'' Interval1m w_ticks"
  have starts: "map cd_Start ?cs = [time_Minute, 2 * time_Minute]" by code_simp
  then have "sorted_wrt (<) (map cd_Start ?cs)" by (simp add: time_Minute_def)
  then have so: "sorted_wrt (\<lambda>c c'. cd_Start c < cd_Start c') ?cs" by (simp only: sorted_wrt_map)
  have tr: "\<forall>c \<in> set ?cs. cd_Trades c > 0" using bucket_candles_trades by blast
  have iv: "Interval1m \<in> set intervals" and pos: "0 < 4 * time_Minute" by (simp_all add: intervals_def time_Minute_def)
  have "bucket_range (BucketStart Interval1m 0) (4 * time_Minute) (Duration Interval1m) = [0, time_Minute, 2 * time_Minute, 3 * time_Minute]"
    by code_simp
  moreover have "map cd_Start (FillGaps fx_pkg ?cs ''BTC-USD'' Interval1m 0 (4 * time_Minute) (Some (Amount (Fx 1 0)))) =
      bucket_range (BucketStart Interval1m 0) (4 * time_Minute) (Duration Interval1m)"
    using gaps_filled [OF iv pos so tr] by blast
  ultimately show ?thesis by (rule trans [rotated])
qed

text \<open>C22: the ticker. Whatever the order in which trades reach the ring of one-minute candles, the ring stays
  sorted with one candle per minute, and its ticker summarises exactly the trades whose minute lies in
  the last day: their number and volumes, the highest and the lowest price, the first price of the
  earliest minute and the last of the latest, and the change between the two, in percent cut to two
  decimals. Pruning the ring does not change it.\<close>

theorem ticker_window:
  assumes "decimal D val"
  shows "ring_ok (cr_candles (feed_ring D (NewCandleRing m) ts)) \<and>
    ticker_of D val (filter (in_day now) ts) (Ring_Ticker D (feed_ring D (NewCandleRing m) ts) now) \<and>
    Ring_Ticker D (Ring_Prune (feed_ring D (NewCandleRing m) ts) now) now = Ring_Ticker D (feed_ring D (NewCandleRing m) ts) now"
  using decimal.ring_ticker [OF assms] feed_ok prune_ticker by blast

theorem ticker_window_witness:
  "tk_Trades (Ring_Ticker fx_pkg (feed_ring fx_pkg (NewCandleRing ''BTC-USD'') (rev w_ticks)) (3 * time_Minute)) = 3"
proof -
  have "filter (in_day (3 * time_Minute)) (rev w_ticks) = rev w_ticks" by code_simp
  with ticker_window [OF fx.decimal_axioms, of "''BTC-USD''" "rev w_ticks" "3 * time_Minute"] show ?thesis
    by (simp add: ticker_of_def w_ticks_def)
qed

text \<open>C25: trades in the order of their times. The ring then holds the very list of one-minute candles that
  folding the trades gives, so that rolling the ring up is folding the trades into the wider interval.\<close>

theorem ring_follows_trades:
  assumes "decimal D val" and "sorted (map tt_At ts)" and "iv \<in> set intervals"
  shows "cr_candles (feed_ring D (NewCandleRing m) ts) = bucket_candles D m Interval1m ts \<and>
    list_all2 (same_candle val) (Rollup D (cr_candles (feed_ring D (NewCandleRing m) ts)) m iv) (bucket_candles D m iv ts)"
  by (simp add: ring_in_order [OF assms(2)] decimal.rollup_agrees [OF assms(1,3)])

theorem ring_follows_trades_witness:
  "cr_candles (feed_ring fx_pkg (NewCandleRing ''BTC-USD'') w_ticks) = bucket_candles fx_pkg ''BTC-USD'' Interval1m w_ticks"
proof -
  have "map tt_At w_ticks = [time_Minute + 5, 2 * time_Minute, 2 * time_Minute + 7]" by (simp add: w_ticks_def w_tick_def)
  then have "sorted (map tt_At w_ticks)" by (simp add: time_Minute_def)
  from ring_follows_trades [OF fx.decimal_axioms this, of Interval1d] show ?thesis by (simp add: intervals_def)
qed

end
