(* ===== verification/Registry.thy ===== *)
theory Registry
  imports Ledger_Types Matching_Types
begin

text \<open>
  \<^verbatim>\<open>internal/registry\<close>: types.go, validate.go, fees.go, the lookups of cache.go and the overlay of
  seedparams.go. Assets, markets, fee schedules and withdrawal limits, what an operator may store,
  and what a deposit or a withdrawal is charged. The \<^verbatim>\<open>int32\<close> and \<^verbatim>\<open>int16\<close> fields are numbers; error
  texts are not modelled, so that the order in which the code ranges over a map of fields, all
  checked for the same error, is not visible.
\<close>

section \<open>Types\<close>

datatype registry_error = ErrInvalid | ErrInvalid_money money_error

definition AssetActive :: string where "AssetActive = ''active''"
definition AssetDisabled :: string where "AssetDisabled = ''disabled''"
definition MarketActive :: string where "MarketActive = ''active''"
definition MarketHalted :: string where "MarketHalted = ''halted''"
definition MarketCancelOnly :: string where "MarketCancelOnly = ''cancel_only''"
definition MarketDelisted :: string where "MarketDelisted = ''delisted''"
definition STPCancelNewest_text :: string where "STPCancelNewest_text = ''cancel_newest''"

record 'd registry_Asset =
  as_ID :: string
  as_TenantID :: string
  as_Symbol :: string
  as_Name :: string
  as_ChainID :: int
  as_ContractAddress :: "string option"
  as_IsNative :: bool
  as_Scale :: int
  as_DisplayScale :: int
  as_RequiredConfirmations :: int
  as_MinDeposit :: "'d amount"
  as_MinWithdrawal :: "'d amount"
  as_WithdrawalFee :: "'d amount"
  as_WithdrawalFeeBps :: int
  as_DepositFeeBps :: int
  as_SweepThreshold :: "'d amount"
  as_DepositEnabled :: bool
  as_WithdrawEnabled :: bool
  as_Status :: string
  as_Version :: int

definition Asset_Money :: "'d registry_Asset \<Rightarrow> Asset" where
  "Asset_Money a = \<lparr>Symbol = as_Symbol a, Asset_Scale = as_Scale a\<rparr>"

record 'd registry_Market =
  mk_ID :: string
  mk_TenantID :: string
  mk_Symbol :: string
  mk_BaseAssetID :: string
  mk_QuoteAssetID :: string
  mk_BaseSymbol :: string
  mk_QuoteSymbol :: string
  mk_BaseScale :: int
  mk_QuoteScale :: int
  mk_PriceTick :: "'d amount"
  mk_QtyStep :: "'d amount"
  mk_MinNotional :: "'d amount"
  mk_MaxQty :: "'d amount option"
  mk_MaxSlippageBps :: "int option"
  mk_FeeScheduleID :: string
  mk_FeeScheduleName :: string
  mk_MakerBps :: int
  mk_TakerBps :: int
  mk_SelfTradePolicy :: string
  mk_Status :: string
  mk_Version :: int

record 'd WithdrawalLimit =
  wl_TenantID :: string
  wl_AssetID :: string
  wl_Asset :: string
  wl_KYCLevel :: int
  wl_AutoApproveLimit :: "'d amount"
  wl_DailyLimit :: "'d amount"
  wl_RequireManualReview :: bool
  wl_Version :: int

section \<open>What may be stored\<close>

text \<open>The two regular expressions: \<^verbatim>\<open>^[A-Z0-9]{2,16}$\<close> and \<^verbatim>\<open>^0x[0-9a-fA-F]{40}$\<close>.\<close>

definition char_in :: "char \<Rightarrow> char \<Rightarrow> char \<Rightarrow> bool" where
  "char_in lo hi c \<longleftrightarrow> (of_char lo :: nat) \<le> of_char c \<and> (of_char c :: nat) \<le> of_char hi"

definition symbolPattern :: "string \<Rightarrow> bool" where
  "symbolPattern s \<longleftrightarrow> 2 \<le> length s \<and> length s \<le> 16 \<and> list_all (\<lambda>c. char_in CHR ''A'' CHR ''Z'' c \<or> char_in CHR ''0'' CHR ''9'' c) s"

definition addressPattern :: "string \<Rightarrow> bool" where
  "addressPattern s \<longleftrightarrow> length s = 42 \<and> take 2 s = ''0x'' \<and>
     list_all (\<lambda>c. char_in CHR ''0'' CHR ''9'' c \<or> char_in CHR ''a'' CHR ''f'' c \<or> char_in CHR ''A'' CHR ''F'' c) (drop 2 s)"

record FeeScheduleInput =
  fs_Name :: string
  fs_MakerBps :: int
  fs_TakerBps :: int

definition FeeScheduleInput_Validate :: "FeeScheduleInput \<Rightarrow> registry_error option" where
  "FeeScheduleInput_Validate i =
     (if fs_Name i = [] then Some ErrInvalid
      else if list_ex (\<lambda>bps. bps < 0 \<or> bps > 10000) [fs_MakerBps i, fs_TakerBps i] then Some ErrInvalid
      else None)"

record 'd AssetInput =
  ai_Symbol :: string
  ai_Name :: string
  ai_ChainID :: int
  ai_ContractAddress :: "string option"
  ai_IsNative :: bool
  ai_Scale :: int
  ai_DisplayScale :: int
  ai_RequiredConfirmations :: int
  ai_MinDeposit :: "'d amount"
  ai_MinWithdrawal :: "'d amount"
  ai_WithdrawalFee :: "'d amount"
  ai_WithdrawalFeeBps :: int
  ai_DepositFeeBps :: int
  ai_SweepThreshold :: "'d amount"
  ai_DepositEnabled :: bool
  ai_WithdrawEnabled :: bool
  ai_Status :: string

definition AssetInput_Validate :: "'d decimal_pkg \<Rightarrow> 'd AssetInput \<Rightarrow> registry_error option" where
  "AssetInput_Validate D i =
     (if \<not> symbolPattern (ai_Symbol i) then Some ErrInvalid
      else if ai_Name i = [] then Some ErrInvalid
      else case Asset_Validate \<lparr>Symbol = ai_Symbol i, Asset_Scale = ai_Scale i\<rparr> of
        Some e \<Rightarrow> Some (ErrInvalid_money e)
      | None \<Rightarrow>
          (if ai_DisplayScale i < 0 \<or> ai_DisplayScale i > ai_Scale i then Some ErrInvalid
           else if ai_RequiredConfirmations i \<le> 0 then Some ErrInvalid
           else if ai_IsNative i \<and> ai_ContractAddress i \<noteq> None then Some ErrInvalid
           else if \<not> ai_IsNative i \<and> (case ai_ContractAddress i of None \<Rightarrow> True | Some a \<Rightarrow> \<not> addressPattern a) then Some ErrInvalid
           else if list_ex (\<lambda>amt. Amount_IsNegative D amt \<or> Amount_Scale D amt > ai_Scale i)
             [ai_MinDeposit i, ai_MinWithdrawal i, ai_WithdrawalFee i, ai_SweepThreshold i] then Some ErrInvalid
           else if list_ex (\<lambda>bps. bps < 0 \<or> bps > 10000) [ai_WithdrawalFeeBps i, ai_DepositFeeBps i] then Some ErrInvalid
           else if ai_DepositFeeBps i = 10000 then Some ErrInvalid
           else if ai_Status i \<noteq> AssetActive \<and> ai_Status i \<noteq> AssetDisabled then Some ErrInvalid
           else None))"

record 'd MarketInput =
  mi_Symbol :: string
  mi_BaseSymbol :: string
  mi_QuoteSymbol :: string
  mi_PriceTick :: "'d amount"
  mi_QtyStep :: "'d amount"
  mi_MinNotional :: "'d amount"
  mi_MaxQty :: "'d amount option"
  mi_MaxSlippageBps :: "int option"
  mi_FeeSchedule :: string
  mi_SelfTradePolicy :: string
  mi_Status :: string

definition ValidMarketStatus :: "string \<Rightarrow> bool" where
  "ValidMarketStatus s \<longleftrightarrow> s \<in> {MarketActive, MarketHalted, MarketCancelOnly, MarketDelisted}"

definition MarketInput_Validate :: "'d decimal_pkg \<Rightarrow> 'd MarketInput \<Rightarrow> registry_error option" where
  "MarketInput_Validate D i =
     (if \<not> symbolPattern (mi_BaseSymbol i) \<or> \<not> symbolPattern (mi_QuoteSymbol i) then Some ErrInvalid
      else if mi_BaseSymbol i = mi_QuoteSymbol i then Some ErrInvalid
      else if mi_Symbol i \<noteq> mi_BaseSymbol i @ ''-'' @ mi_QuoteSymbol i then Some ErrInvalid
      else if \<not> Amount_IsPositive D (mi_PriceTick i) \<or> \<not> Amount_IsPositive D (mi_QtyStep i) then Some ErrInvalid
      else if Amount_IsNegative D (mi_MinNotional i) then Some ErrInvalid
      else if (case mi_MaxQty i of None \<Rightarrow> False | Some q \<Rightarrow> \<not> Amount_IsPositive D q) then Some ErrInvalid
      else if (case mi_MaxSlippageBps i of None \<Rightarrow> False | Some b \<Rightarrow> b < 1 \<or> b > 10000) then Some ErrInvalid
      else if mi_FeeSchedule i = [] then Some ErrInvalid
      else if mi_SelfTradePolicy i \<noteq> STPCancelNewest_text then Some ErrInvalid
      else if \<not> ValidMarketStatus (mi_Status i) then Some ErrInvalid
      else None)"

definition ValidatePrecision :: "'d decimal_pkg \<Rightarrow> 'd amount \<Rightarrow> 'd amount \<Rightarrow> int \<Rightarrow> int \<Rightarrow> registry_error option" where
  "ValidatePrecision D priceTick qtyStep baseScale quoteScale =
     (if Amount_Scale D qtyStep > baseScale then Some ErrInvalid
      else if Amount_Scale D priceTick + Amount_Scale D qtyStep > quoteScale then Some ErrInvalid
      else None)"

record 'd WithdrawalLimitInput =
  wi_Asset :: string
  wi_KYCLevel :: int
  wi_AutoApproveLimit :: "'d amount"
  wi_DailyLimit :: "'d amount"
  wi_RequireManualReview :: bool

definition ValidateWithdrawalLimit :: "'d decimal_pkg \<Rightarrow> 'd WithdrawalLimitInput \<Rightarrow> registry_error option" where
  "ValidateWithdrawalLimit D i =
     (if wi_Asset i = [] then Some ErrInvalid
      else if wi_KYCLevel i < 0 \<or> wi_KYCLevel i > 2 then Some ErrInvalid
      else if Amount_IsNegative D (wi_AutoApproveLimit i) \<or> Amount_IsNegative D (wi_DailyLimit i) then Some ErrInvalid
      else if Amount_Cmp D (wi_AutoApproveLimit i) (wi_DailyLimit i) > 0 then Some ErrInvalid
      else None)"

section \<open>Fees of deposits and withdrawals\<close>

definition bpsDivisor :: int where "bpsDivisor = 10000"

definition proportional :: "'d decimal_pkg \<Rightarrow> 'd registry_Asset \<Rightarrow> 'd amount \<Rightarrow> int \<Rightarrow> registry_error + 'd amount" where
  "proportional D a amount' bps =
     (if bps = 0 then Inr (Zero D)
      else case DivRoundUp D (Amount_Mul D amount' (FromInt64 D bps)) (FromInt64 D bpsDivisor) (as_Scale a) of
             Inl e \<Rightarrow> Inl (ErrInvalid_money e)
           | Inr fee \<Rightarrow> Inr fee)"

definition WithdrawalFeeFor :: "'d decimal_pkg \<Rightarrow> 'd registry_Asset \<Rightarrow> 'd amount \<Rightarrow> registry_error + 'd amount" where
  "WithdrawalFeeFor D a amount' =
     (if \<not> Amount_IsPositive D amount' then Inl ErrInvalid
      else case proportional D a amount' (as_WithdrawalFeeBps a) of
             Inl e \<Rightarrow> Inl e
           | Inr p \<Rightarrow> Inr (Amount_Add D (as_WithdrawalFee a) p))"

definition DepositFeeFor :: "'d decimal_pkg \<Rightarrow> 'd registry_Asset \<Rightarrow> 'd amount \<Rightarrow> registry_error + 'd amount" where
  "DepositFeeFor D a amount' =
     (if \<not> Amount_IsPositive D amount' then Inl ErrInvalid
      else case proportional D a amount' (as_DepositFeeBps a) of
             Inl e \<Rightarrow> Inl e
           | Inr fee \<Rightarrow> if Amount_Cmp D fee amount' \<ge> 0 then Inl ErrInvalid else Inr fee)"

section \<open>The cache\<close>

record 'd Cache =
  cc_tenant :: string
  cc_assets :: "(string, 'd registry_Asset) mapping"
  cc_markets :: "(string, 'd registry_Market) mapping"

definition NewCache :: "string \<Rightarrow> 'd Cache" where
  "NewCache tenant = \<lparr>cc_tenant = tenant, cc_assets = Mapping.empty, cc_markets = Mapping.empty\<rparr>"

text \<open>What the reader lists, or its error, which leaves the snapshot as it was.\<close>

definition Cache_Load :: "'d Cache \<Rightarrow> 'e + 'd registry_Asset list \<Rightarrow> 'e + 'd registry_Market list \<Rightarrow> 'd Cache \<times> 'e option" where
  "Cache_Load c assets markets =
     (case assets of
        Inl e \<Rightarrow> (c, Some e)
      | Inr as' \<Rightarrow>
          (case markets of
             Inl e \<Rightarrow> (c, Some e)
           | Inr ms \<Rightarrow>
               (c\<lparr>cc_assets := fold (\<lambda>a. Mapping.update (as_Symbol a) a) as' Mapping.empty,
                  cc_markets := fold (\<lambda>m. Mapping.update (mk_Symbol m) m) ms Mapping.empty\<rparr>, None)))"

definition Cache_Asset :: "'d Cache \<Rightarrow> string \<Rightarrow> 'd registry_Asset option" where
  "Cache_Asset c symbol = Mapping.lookup (cc_assets c) symbol"

definition Cache_Market :: "'d Cache \<Rightarrow> string \<Rightarrow> 'd registry_Market option" where
  "Cache_Market c symbol = Mapping.lookup (cc_markets c) symbol"

section \<open>The overlay of the seed\<close>

record AssetParams =
  ap_MinDeposit :: "string option"
  ap_MinWithdrawal :: "string option"
  ap_WithdrawalFee :: "string option"
  ap_SweepThreshold :: "string option"

record MarketParams =
  mp_PriceTick :: "string option"
  mp_QtyStep :: "string option"
  mp_MinNotional :: "string option"

record WithdrawalLimitParams =
  wp_Asset :: string
  wp_KYCLevel :: int
  wp_AutoApproveLimit :: string
  wp_DailyLimit :: string
  wp_RequireManualReview :: bool

record SeedParams =
  se_Assets :: "(string \<times> AssetParams) list"
  se_Market :: "MarketParams option"
  se_WithdrawalLimits :: "WithdrawalLimitParams list"

definition parseSeedAmount :: "'d decimal_pkg \<Rightarrow> string option \<Rightarrow> registry_error + 'd amount" where
  "parseSeedAmount D v =
     (case v of
        None \<Rightarrow> Inr (Zero D)
      | Some s \<Rightarrow>
          (case ParseAmount D s of
             Inl _ \<Rightarrow> Inl ErrInvalid
           | Inr a \<Rightarrow> if Amount_IsNegative D a then Inl ErrInvalid else Inr a))"

definition seed_limit_error :: "'d decimal_pkg \<Rightarrow> WithdrawalLimitParams \<Rightarrow> registry_error option" where
  "seed_limit_error D l =
     (if \<not> symbolPattern (wp_Asset l) then Some ErrInvalid
      else if wp_KYCLevel l < 0 then Some ErrInvalid
      else case parseSeedAmount D (Some (wp_AutoApproveLimit l)) of
             Inl e \<Rightarrow> Some e
           | Inr auto' \<Rightarrow>
               (case parseSeedAmount D (Some (wp_DailyLimit l)) of
                  Inl e \<Rightarrow> Some e
                | Inr daily \<Rightarrow> if Amount_Cmp D auto' daily > 0 then Some ErrInvalid else None))"

text \<open>Every error is \<open>ErrInvalid\<close>: whether there is one does not depend on the order of the checks.\<close>

definition SeedParams_Validate :: "'d decimal_pkg \<Rightarrow> SeedParams \<Rightarrow> registry_error option" where
  "SeedParams_Validate D p =
     (if list_ex (\<lambda>(_, a). list_ex (\<lambda>v. isl (parseSeedAmount D v))
           [ap_MinDeposit a, ap_MinWithdrawal a, ap_WithdrawalFee a, ap_SweepThreshold a]) (se_Assets p) then Some ErrInvalid
      else if (case se_Market p of
           None \<Rightarrow> False
         | Some m \<Rightarrow> list_ex (\<lambda>v. case parseSeedAmount D v of
               Inl _ \<Rightarrow> True | Inr a \<Rightarrow> v \<noteq> None \<and> \<not> Amount_IsPositive D a) [mp_PriceTick m, mp_QtyStep m, mp_MinNotional m]) then Some ErrInvalid
      else (case List.map_filter (seed_limit_error D) (se_WithdrawalLimits p) of [] \<Rightarrow> None | e # _ \<Rightarrow> Some e))"

text \<open>One field of an overlay: kept when absent.\<close>

definition overlay_field :: "'d decimal_pkg \<Rightarrow> string option \<Rightarrow> 'd amount \<Rightarrow> registry_error + 'd amount" where
  "overlay_field D v dst = (case v of None \<Rightarrow> Inr dst | Some _ \<Rightarrow> parseSeedAmount D v)"

definition applyAsset :: "'d decimal_pkg \<Rightarrow> SeedParams \<Rightarrow> 'd AssetInput \<Rightarrow> registry_error + 'd AssetInput" where
  "applyAsset D p i =
     (case map_of (se_Assets p) (ai_Symbol i) of
        None \<Rightarrow> Inr i
      | Some a \<Rightarrow>
          (case (overlay_field D (ap_MinDeposit a) (ai_MinDeposit i), overlay_field D (ap_MinWithdrawal a) (ai_MinWithdrawal i),
                 overlay_field D (ap_WithdrawalFee a) (ai_WithdrawalFee i), overlay_field D (ap_SweepThreshold a) (ai_SweepThreshold i)) of
             (Inr md, Inr mw, Inr fe, Inr st) \<Rightarrow>
               Inr (i\<lparr>ai_MinDeposit := md, ai_MinWithdrawal := mw, ai_WithdrawalFee := fe, ai_SweepThreshold := st\<rparr>)
           | _ \<Rightarrow> Inl ErrInvalid))"

definition applyMarket :: "'d decimal_pkg \<Rightarrow> SeedParams \<Rightarrow> 'd MarketInput \<Rightarrow> registry_error + 'd MarketInput" where
  "applyMarket D p i =
     (case se_Market p of
        None \<Rightarrow> Inr i
      | Some m \<Rightarrow>
          (case (overlay_field D (mp_PriceTick m) (mi_PriceTick i), overlay_field D (mp_QtyStep m) (mi_QtyStep i),
                 overlay_field D (mp_MinNotional m) (mi_MinNotional i)) of
             (Inr pt, Inr qs, Inr mn) \<Rightarrow> Inr (i\<lparr>mi_PriceTick := pt, mi_QtyStep := qs, mi_MinNotional := mn\<rparr>)
           | _ \<Rightarrow> Inl ErrInvalid))"

definition limit_key :: "'d WithdrawalLimitInput \<Rightarrow> string \<times> int" where
  "limit_key i = (wi_Asset i, wi_KYCLevel i)"

text \<open>The overlay rows by key, the last one of a key winning, and the keys in their order.\<close>

fun overlay_rows :: "'d decimal_pkg \<Rightarrow> WithdrawalLimitParams list \<Rightarrow> (string \<times> int, 'd WithdrawalLimitInput) mapping \<Rightarrow> (string \<times> int) list
    \<Rightarrow> registry_error + (string \<times> int, 'd WithdrawalLimitInput) mapping \<times> (string \<times> int) list" where
  "overlay_rows D [] overlay order' = Inr (overlay, order')"
| "overlay_rows D (l # ls) overlay order' =
     (case parseSeedAmount D (Some (wp_AutoApproveLimit l)) of
        Inl e \<Rightarrow> Inl e
      | Inr auto' \<Rightarrow>
          (case parseSeedAmount D (Some (wp_DailyLimit l)) of
             Inl e \<Rightarrow> Inl e
           | Inr daily \<Rightarrow>
               (let k = (wp_Asset l, wp_KYCLevel l)
                in overlay_rows D ls
                     (Mapping.update k \<lparr>wi_Asset = wp_Asset l, wi_KYCLevel = wp_KYCLevel l, wi_AutoApproveLimit = auto',
                        wi_DailyLimit = daily, wi_RequireManualReview = wp_RequireManualReview l\<rparr> overlay)
                     (order' @ [k]))))"

fun merge_base :: "'d WithdrawalLimitInput list \<Rightarrow> (string \<times> int, 'd WithdrawalLimitInput) mapping
    \<Rightarrow> 'd WithdrawalLimitInput list \<times> (string \<times> int, 'd WithdrawalLimitInput) mapping" where
  "merge_base [] overlay = ([], overlay)"
| "merge_base (i # is) overlay =
     (case Mapping.lookup overlay (limit_key i) of
        Some over \<Rightarrow> (let (out, rest) = merge_base is (Mapping.delete (limit_key i) overlay) in (over # out, rest))
      | None \<Rightarrow> (let (out, rest) = merge_base is overlay in (i # out, rest)))"

fun merge_rest :: "(string \<times> int) list \<Rightarrow> (string \<times> int, 'd WithdrawalLimitInput) mapping \<Rightarrow> 'd WithdrawalLimitInput list" where
  "merge_rest [] overlay = []"
| "merge_rest (k # ks) overlay =
     (case Mapping.lookup overlay k of
        Some over \<Rightarrow> over # merge_rest ks (Mapping.delete k overlay)
      | None \<Rightarrow> merge_rest ks overlay)"

definition applyLimits :: "'d decimal_pkg \<Rightarrow> SeedParams \<Rightarrow> 'd WithdrawalLimitInput list \<Rightarrow> registry_error + 'd WithdrawalLimitInput list" where
  "applyLimits D p base =
     (case overlay_rows D (se_WithdrawalLimits p) Mapping.empty [] of
        Inl e \<Rightarrow> Inl e
      | Inr (overlay, order') \<Rightarrow> (let (out, rest) = merge_base base overlay in Inr (out @ merge_rest order' rest)))"

end
