(* ===== verification/Policy.thy ===== *)
theory Policy
  imports Registry
begin

text \<open>
  \<^verbatim>\<open>internal/policy\<close>: the checks before an order, a cancel and a withdrawal. The empty reason of the
  code, allowed, is \<open>None\<close>.
\<close>

datatype Reason =
    ReasonMarketNotActive | ReasonAccountFrozen | ReasonPolicyDenied | ReasonWithdrawalsDisabled | ReasonBelowMinimum
  | ReasonAboveAutoApprove | ReasonDailyLimitExceeded | ReasonManualReviewRequired | ReasonNoLimitConfigured

definition Reason_String :: "Reason \<Rightarrow> string" where
  "Reason_String r =
     (case r of ReasonMarketNotActive \<Rightarrow> ''market_not_active'' | ReasonAccountFrozen \<Rightarrow> ''account_frozen''
      | ReasonPolicyDenied \<Rightarrow> ''policy_denied'' | ReasonWithdrawalsDisabled \<Rightarrow> ''withdrawals_disabled''
      | ReasonBelowMinimum \<Rightarrow> ''below_min_withdrawal'' | ReasonAboveAutoApprove \<Rightarrow> ''above_auto_approve_limit''
      | ReasonDailyLimitExceeded \<Rightarrow> ''daily_limit_exceeded'' | ReasonManualReviewRequired \<Rightarrow> ''manual_review_required''
      | ReasonNoLimitConfigured \<Rightarrow> ''no_limit_configured'')"

definition Policy_NewOrder :: "'d registry_Market \<Rightarrow> Account \<Rightarrow> Reason option" where
  "Policy_NewOrder market account =
     (if mk_Status market \<noteq> MarketActive then Some ReasonMarketNotActive
      else if acc_Status account \<noteq> StatusActive then Some ReasonAccountFrozen
      else None)"

definition Policy_Cancel :: "'d registry_Market \<Rightarrow> Reason option" where
  "Policy_Cancel market = (if mk_Status market = MarketDelisted then Some ReasonMarketNotActive else None)"

datatype WithdrawalDecision = DecisionAutoApprove | DecisionReview | DecisionReject

record 'd WithdrawalRequest =
  wr_Asset :: "'d registry_Asset"
  wr_Account :: Account
  wr_KYCLevel :: int
  wr_Amount :: "'d amount"
  wr_Limit :: "'d WithdrawalLimit option"
  wr_WithdrawnToday :: "'d amount"

definition Withdraw :: "'d decimal_pkg \<Rightarrow> 'd WithdrawalRequest \<Rightarrow> WithdrawalDecision \<times> Reason option" where
  "Withdraw D r =
     (if acc_Status (wr_Account r) \<noteq> StatusActive then (DecisionReject, Some ReasonAccountFrozen)
      else if \<not> as_WithdrawEnabled (wr_Asset r) \<or> as_Status (wr_Asset r) \<noteq> AssetActive
      then (DecisionReject, Some ReasonWithdrawalsDisabled)
      else if \<not> Amount_IsPositive D (wr_Amount r) \<or> Amount_Cmp D (wr_Amount r) (as_MinWithdrawal (wr_Asset r)) < 0
      then (DecisionReject, Some ReasonBelowMinimum)
      else case wr_Limit r of
        None \<Rightarrow> (DecisionReview, Some ReasonNoLimitConfigured)
      | Some l \<Rightarrow>
          (if wl_RequireManualReview l then (DecisionReview, Some ReasonManualReviewRequired)
           else if Amount_Cmp D (wr_Amount r) (wl_AutoApproveLimit l) > 0 then (DecisionReview, Some ReasonAboveAutoApprove)
           else if Amount_Cmp D (Amount_Add D (wr_WithdrawnToday r) (wr_Amount r)) (wl_DailyLimit l) > 0
           then (DecisionReview, Some ReasonDailyLimitExceeded)
           else (DecisionAutoApprove, None)))"

end
