(* ===== verification/Trading_Types.thy ===== *)
theory Trading_Types
  imports Policy
begin

text \<open>
  \<^verbatim>\<open>internal/trading\<close>: types.go and hold.go. Orders, trades, requests and their static check, what an
  order freezes, and the configuration a registry market gives the book. A nil pointer is \<open>None\<close>.
\<close>

section \<open>Statuses and errors\<close>

datatype Status = StatusOpen | StatusPartiallyFilled | StatusFilled | StatusCancelled | StatusRejected | Status_other string

definition Status_text :: "Status \<Rightarrow> string" where
  "Status_text s =
     (case s of StatusOpen \<Rightarrow> ''open'' | StatusPartiallyFilled \<Rightarrow> ''partially_filled'' | StatusFilled \<Rightarrow> ''filled''
      | StatusCancelled \<Rightarrow> ''cancelled'' | StatusRejected \<Rightarrow> ''rejected'' | Status_other t \<Rightarrow> t)"

definition Terminal :: "Status \<Rightarrow> bool" where
  "Terminal s \<longleftrightarrow> s = StatusFilled \<or> s = StatusCancelled \<or> s = StatusRejected"

definition Status_Valid :: "Status \<Rightarrow> bool" where
  "Status_Valid s \<longleftrightarrow> s \<in> {StatusOpen, StatusPartiallyFilled, StatusFilled, StatusCancelled, StatusRejected}"

text \<open>
  The sentinels; then the errors of the packages below that are passed on, a statement the database
  refuses, a fault injected before a commit, and a call of the book that does not return
  (\<open>errDiverged\<close>: \<open>apply_returns\<close> shows that a sound book never does this).
\<close>

datatype stmt_error = UniqueViolation | CheckFailed | Deadlock | Serialization | OtherStatement

datatype trading_error =
    ErrInvalidRequest | ErrMarketNotFound | ErrOrderNotFound | ErrClientOrderIDMismatch | ErrEngineUnavailable
  | ErrSequenceConflict | ErrBookInconsistent
  | errMatching match_error | errLedger ledger_error | errColumn pg_error | errStatement stmt_error
  | errEnvelope | errDeadline | errFault | errDiverged

text \<open>A reason: the matching ones verbatim, the others from the policy and the ledger; empty when there is none.\<close>

definition RejectInsufficientBalance :: string where
  "RejectInsufficientBalance = ''insufficient_balance''"

definition CancelReason_text :: "CancelReason \<Rightarrow> string" where
  "CancelReason_text r =
     (case r of CancelByUser \<Rightarrow> ''user'' | CancelIOC \<Rightarrow> ''ioc'' | CancelSelfTrade \<Rightarrow> ''self_trade'' | CancelPriceProtection \<Rightarrow> ''price_protection'')"

section \<open>Orders, trades, requests\<close>

record 'd trading_Order =
  od_ID :: string
  od_TenantID :: string
  od_AccountID :: string
  od_MarketID :: string
  od_MarketSymbol :: string
  od_ClientOrderID :: string
  od_Side :: Side
  od_Type :: OrderType
  od_TimeInForce :: TimeInForce
  od_Price :: "'d amount option"
  od_Qty :: "'d amount option"
  od_QuoteQty :: "'d amount option"
  od_FilledQty :: "'d amount"
  od_FilledQuote :: "'d amount"
  od_RemainingQty :: "'d amount"
  od_HoldAsset :: string
  od_HoldAmount :: "'d amount"
  od_HoldRemaining :: "'d amount"
  od_Status :: Status
  od_RejectReason :: string
  od_CancelReason :: string
  od_Seq :: "u64 option"
  od_CorrelationID :: string
  od_CreatedAt :: go_time

record 'd trading_Trade =
  td_ID :: string
  td_TenantID :: string
  td_MarketID :: string
  td_MarketSymbol :: string
  td_Seq :: u64
  td_Index :: int
  td_MakerOrderID :: string
  td_TakerOrderID :: string
  td_MakerAccountID :: string
  td_TakerAccountID :: string
  td_TakerSide :: Side
  td_Price :: "'d amount"
  td_Qty :: "'d amount"
  td_QuoteQty :: "'d amount"
  td_MakerFee :: "'d amount"
  td_MakerFeeAsset :: string
  td_TakerFee :: "'d amount"
  td_TakerFeeAsset :: string
  td_CreatedAt :: go_time

record 'd PlaceOrderRequest =
  pq_AccountID :: string
  pq_MarketSymbol :: string
  pq_ClientOrderID :: string
  pq_Side :: Side
  pq_Type :: OrderType
  pq_TimeInForce :: TimeInForce
  pq_Price :: "'d amount"
  pq_Qty :: "'d amount"
  pq_QuoteQty :: "'d amount"
  pq_CorrelationID :: string

definition MaxClientOrderIDLen :: nat where "MaxClientOrderIDLen = 64"

definition request_fields :: "'d decimal_pkg \<Rightarrow> 'd PlaceOrderRequest \<Rightarrow> bool" where
  "request_fields D r \<longleftrightarrow>
     (if pq_Type r = Limit
      then Amount_IsPositive D (pq_Price r) \<and> Amount_IsPositive D (pq_Qty r) \<and> \<not> Amount_IsPositive D (pq_QuoteQty r)
      else if pq_Side r = Buy
      then Amount_IsPositive D (pq_QuoteQty r) \<and> \<not> Amount_IsPositive D (pq_Price r) \<and> \<not> Amount_IsPositive D (pq_Qty r)
      else Amount_IsPositive D (pq_Qty r) \<and> \<not> Amount_IsPositive D (pq_Price r) \<and> \<not> Amount_IsPositive D (pq_QuoteQty r))"

definition Request_Validate :: "'d decimal_pkg \<Rightarrow> 'd PlaceOrderRequest \<Rightarrow> trading_error option" where
  "Request_Validate D r =
     (if pq_AccountID r = [] then Some ErrInvalidRequest
      else if pq_MarketSymbol r = [] then Some ErrInvalidRequest
      else if pq_ClientOrderID r = [] \<or> length (pq_ClientOrderID r) > MaxClientOrderIDLen then Some ErrInvalidRequest
      else if pq_Side r \<noteq> Buy \<and> pq_Side r \<noteq> Sell then Some ErrInvalidRequest
      else if pq_Type r \<noteq> Limit \<and> pq_Type r \<noteq> Market then Some ErrInvalidRequest
      else if pq_TimeInForce r \<noteq> TIF_default \<and> pq_TimeInForce r \<noteq> GTC \<and> pq_TimeInForce r \<noteq> IOC then Some ErrInvalidRequest
      else if Amount_IsNegative D (pq_Price r) \<or> Amount_IsNegative D (pq_Qty r) \<or> Amount_IsNegative D (pq_QuoteQty r)
      then Some ErrInvalidRequest
      else if \<not> request_fields D r then Some ErrInvalidRequest
      else if list_ex (\<lambda>a. Amount_Validate D a \<noteq> None) [pq_Price r, pq_Qty r, pq_QuoteQty r] then Some ErrInvalidRequest
      else None)"

definition effectiveTIF :: "'d PlaceOrderRequest \<Rightarrow> TimeInForce" where
  "effectiveTIF r = (if pq_Type r = Market then IOC else if pq_TimeInForce r = TIF_default then GTC else pq_TimeInForce r)"

definition same_amount :: "'d decimal_pkg \<Rightarrow> 'd amount option \<Rightarrow> 'd amount \<Rightarrow> bool" where
  "same_amount D p a \<longleftrightarrow> (case p of None \<Rightarrow> Amount_IsZero D a | Some q \<Rightarrow> Amount_Equal D q a)"

definition sameAs :: "'d decimal_pkg \<Rightarrow> 'd PlaceOrderRequest \<Rightarrow> 'd trading_Order \<Rightarrow> bool" where
  "sameAs D r o' \<longleftrightarrow>
     \<not> (od_MarketSymbol o' \<noteq> pq_MarketSymbol r \<or> od_Side o' \<noteq> pq_Side r \<or> od_Type o' \<noteq> pq_Type r \<or> od_TimeInForce o' \<noteq> effectiveTIF r) \<and>
     same_amount D (od_Price o') (pq_Price r) \<and> same_amount D (od_Qty o') (pq_Qty r) \<and> same_amount D (od_QuoteQty o') (pq_QuoteQty r)"

record CancelRequest =
  cq_AccountID :: string
  cq_OrderID :: string
  cq_CorrelationID :: string

record 'd PlaceOrderResult =
  rs_Order :: "'d trading_Order"
  rs_Trades :: "'d trading_Trade list"
  rs_Replayed :: bool

record 'd Fill =
  fl_Trade :: "'d trading_Trade"
  fl_OrderID :: string
  fl_Side :: Side
  fl_IsMaker :: bool
  fl_Fee :: "'d amount"
  fl_FeeAsset :: string
  fl_AccountID :: string

definition FillOf :: "'d trading_Trade \<Rightarrow> string \<Rightarrow> 'd Fill option" where
  "FillOf t accountID =
     (if accountID = td_MakerAccountID t
      then Some \<lparr>fl_Trade = t, fl_OrderID = td_MakerOrderID t, fl_Side = Side_Opposite (td_TakerSide t), fl_IsMaker = True,
                fl_Fee = td_MakerFee t, fl_FeeAsset = td_MakerFeeAsset t, fl_AccountID = accountID\<rparr>
      else if accountID = td_TakerAccountID t
      then Some \<lparr>fl_Trade = t, fl_OrderID = td_TakerOrderID t, fl_Side = td_TakerSide t, fl_IsMaker = False,
                fl_Fee = td_TakerFee t, fl_FeeAsset = td_TakerFeeAsset t, fl_AccountID = accountID\<rparr>
      else None)"

section \<open>Holds and the configuration of the book\<close>

definition holdFor :: "'d decimal_pkg \<Rightarrow> 'd registry_Market \<Rightarrow> 'd PlaceOrderRequest \<Rightarrow> string \<times> 'd amount" where
  "holdFor D m r =
     (if pq_Side r = Buy
      then (if pq_Type r = Market then (mk_QuoteSymbol m, pq_QuoteQty r) else (mk_QuoteSymbol m, Amount_Mul D (pq_Price r) (pq_Qty r)))
      else (mk_BaseSymbol m, pq_Qty r))"

definition marketConfig :: "'d decimal_pkg \<Rightarrow> 'd registry_Market \<Rightarrow> match_error + 'd MarketConfig" where
  "marketConfig D m =
     (case SelfTradePolicy_UnmarshalText (mk_SelfTradePolicy m) of
        Inl e \<Rightarrow> Inl e
      | Inr stp \<Rightarrow>
          (let cfg = \<lparr>mc_Symbol = mk_Symbol m, mc_PriceTick = mk_PriceTick m, mc_QtyStep = mk_QtyStep m, mc_MinNotional = mk_MinNotional m,
                mc_MaxQty = mk_MaxQty m, mc_MaxSlippageBps = mk_MaxSlippageBps m, mc_BaseScale = mk_BaseScale m,
                mc_QuoteScale = mk_QuoteScale m, mc_SelfTradePolicy = stp\<rparr>
           in case MarketConfig_Validate D cfg of Some e \<Rightarrow> Inl e | None \<Rightarrow> Inr cfg))"

definition newOrderCommand :: "string \<Rightarrow> 'd PlaceOrderRequest \<Rightarrow> 'd NewOrder" where
  "newOrderCommand orderID r =
     \<lparr>no_OrderID = orderID, no_AccountID = pq_AccountID r, no_Side = pq_Side r, no_Type = pq_Type r,
      no_TimeInForce = effectiveTIF r, no_Price = pq_Price r, no_Qty = pq_Qty r, no_QuoteQty = pq_QuoteQty r\<rparr>"

definition tradable :: "'d registry_Market \<Rightarrow> bool" where
  "tradable m \<longleftrightarrow> mk_Status m \<in> {MarketActive, MarketHalted, MarketCancelOnly}"

end
