(* ===== verification/Registry_Claims.thy ===== *)
theory Registry_Claims
  imports Trading_Types Ledger_Entry Decimal_Fixed Matching_Spec
begin

text \<open>
  The properties of the registry and of the policy: what passes their checks is what the book and the
  ledger can work with, fees are exact, and a withdrawal goes unattended exactly when it may.
\<close>

section \<open>Lemmas\<close>

text \<open>A market stored from an input, with the scales of its assets.\<close>

definition market_from :: "'d MarketInput \<Rightarrow> int \<Rightarrow> int \<Rightarrow> 'd registry_Market \<Rightarrow> bool" where
  "market_from i baseScale quoteScale m \<longleftrightarrow>
     mk_Symbol m = mi_Symbol i \<and> mk_PriceTick m = mi_PriceTick i \<and> mk_QtyStep m = mi_QtyStep i \<and> mk_MinNotional m = mi_MinNotional i \<and>
     mk_MaxQty m = mi_MaxQty i \<and> mk_MaxSlippageBps m = mi_MaxSlippageBps i \<and> mk_SelfTradePolicy m = mi_SelfTradePolicy i \<and>
     mk_BaseScale m = baseScale \<and> mk_QuoteScale m = quoteScale"

context decimal
begin

lemma market_config:
  assumes "MarketInput_Validate D i = None" "ValidatePrecision D (mi_PriceTick i) (mi_QtyStep i) bs qs = None"
    "0 \<le> bs" "bs \<le> MaxScale" "0 \<le> qs" "qs \<le> MaxScale" and m: "market_from i bs qs m"
  shows "\<exists>cfg. marketConfig D m = Inr cfg \<and> MarketConfig_Validate D cfg = None"
proof -
  have "SelfTradePolicy_UnmarshalText (mk_SelfTradePolicy m) = Inr STPCancelNewest"
    using assms(1) m by (auto simp: MarketInput_Validate_def market_from_def SelfTradePolicy_UnmarshalText_def STPCancelNewest_text_def split: if_splits)
  moreover define cfg where "cfg = \<lparr>mc_Symbol = mk_Symbol m, mc_PriceTick = mk_PriceTick m, mc_QtyStep = mk_QtyStep m, mc_MinNotional = mk_MinNotional m,
    mc_MaxQty = mk_MaxQty m, mc_MaxSlippageBps = mk_MaxSlippageBps m, mc_BaseScale = mk_BaseScale m,
    mc_QuoteScale = mk_QuoteScale m, mc_SelfTradePolicy = STPCancelNewest\<rparr>"
  have "MarketConfig_Validate D cfg = None" using assms
    by (auto simp: MarketInput_Validate_def ValidatePrecision_def market_from_def cfg_def MarketConfig_Validate_def split: if_splits option.splits)
  ultimately show ?thesis by (simp add: marketConfig_def cfg_def Let_def)
qed

lemma notional_fits:
  assumes "ValidatePrecision D tick step bs qs = None" "IsMultipleOf D p tick" "IsMultipleOf D q step"
  shows "Amount_Scale D (Amount_Mul D p q) \<le> qs \<and> Amount_Scale D q \<le> bs"
proof -
  have s: "Amount_Scale D step \<le> bs" "Amount_Scale D tick + Amount_Scale D step \<le> qs"
    using assms(1) by (auto simp: ValidatePrecision_def split: if_splits)
  obtain k l :: int where k: "V p = of_int k * V tick" and l: "V q = of_int l * V step"
    using assms(2,3) by (auto simp: IsMultipleOf_iff)
  have fp: "fits (nat (Amount_Scale D tick)) (V p)" and fq: "fits (nat (Amount_Scale D step)) (V q)"
    unfolding k l by (intro fits_of_int_mult fits_Scale)+
  from fits_mult [OF fp fq] have "fits (nat (Amount_Scale D tick + Amount_Scale D step)) (V p * V q)"
    by (simp add: nat_add_distrib)
  then have "Amount_Scale D (Amount_Mul D p q) \<le> Amount_Scale D tick + Amount_Scale D step"
    by (subst Scale_le_iff') simp
  moreover have "Amount_Scale D q \<le> Amount_Scale D step" using fq by (subst Scale_le_iff') simp
  ultimately show ?thesis using s by linarith
qed

lemma proportional_ok:
  assumes "0 \<le> V amount" "0 \<le> bps" "0 \<le> as_Scale a" "as_Scale a \<le> MaxScale"
  shows "\<exists>fee. proportional D a amount bps = Inr fee \<and> V fee = of_int \<lceil>V amount * of_int bps / 10000 * 10 ^ nat (as_Scale a)\<rceil> / 10 ^ nat (as_Scale a)"
proof (cases "bps = 0")
  case False
  from DivRoundUp_ok [of "Amount_Mul D amount (FromInt64 D bps)" "FromInt64 D bpsDivisor" "nat (as_Scale a)"] assms
  show ?thesis using False by (auto simp: proportional_def bpsDivisor_def)
qed (simp add: proportional_def)

lemma fee_ceiling:
  fixes x :: rat
  assumes "0 \<le> x"
  shows "0 \<le> of_int \<lceil>x * 10 ^ n\<rceil> / (10 ^ n :: rat) \<and> x \<le> of_int \<lceil>x * 10 ^ n\<rceil> / 10 ^ n \<and> of_int \<lceil>x * 10 ^ n\<rceil> / 10 ^ n < x + 1 / 10 ^ n \<and>
    fits n (of_int \<lceil>x * 10 ^ n\<rceil> / 10 ^ n)"
proof -
  have "x * 10 ^ n \<le> of_int \<lceil>x * 10 ^ n\<rceil>" "of_int \<lceil>x * 10 ^ n\<rceil> < x * 10 ^ n + 1" by linarith+
  then have "x \<le> of_int \<lceil>x * 10 ^ n\<rceil> / 10 ^ n \<and> of_int \<lceil>x * 10 ^ n\<rceil> / 10 ^ n < x + 1 / 10 ^ n"
    by (simp add: field_simps)
  with assms show ?thesis by simp
qed

lemma withdrawal_fee:
  assumes "0 \<le> as_WithdrawalFeeBps a" "0 \<le> as_Scale a" "as_Scale a \<le> MaxScale" "0 \<le> V (as_WithdrawalFee a)"
    "Amount_Scale D (as_WithdrawalFee a) \<le> as_Scale a"
  shows "if V amount \<le> 0 then WithdrawalFeeFor D a amount = Inl ErrInvalid
    else \<exists>fee. WithdrawalFeeFor D a amount = Inr fee \<and> Amount_Scale D fee \<le> as_Scale a \<and> V (as_WithdrawalFee a) \<le> V fee \<and>
      V (as_WithdrawalFee a) + V amount * of_int (as_WithdrawalFeeBps a) / 10000 \<le> V fee \<and>
      V fee < V (as_WithdrawalFee a) + V amount * of_int (as_WithdrawalFeeBps a) / 10000 + 1 / 10 ^ nat (as_Scale a)"
proof (cases "V amount \<le> 0")
  case False
  let ?x = "V amount * of_int (as_WithdrawalFeeBps a) / 10000" and ?n = "nat (as_Scale a)"
  obtain p where p: "proportional D a amount (as_WithdrawalFeeBps a) = Inr p" "V p = of_int \<lceil>?x * 10 ^ ?n\<rceil> / 10 ^ ?n"
    using proportional_ok [of amount "as_WithdrawalFeeBps a" a] False assms by auto
  have "0 \<le> ?x" using False assms(1) by simp
  note c = fee_ceiling [OF this, of ?n]
  have "fits ?n (V (as_WithdrawalFee a) + V p)" using assms(2,5) c by (auto simp: Scale_le_iff' p(2) intro: fits_add)
  then have "Amount_Scale D (Amount_Add D (as_WithdrawalFee a) p) \<le> as_Scale a" using assms(2) by (subst Scale_le_iff') simp
  with False p c show ?thesis by (auto simp: WithdrawalFeeFor_def)
qed (simp add: WithdrawalFeeFor_def)

lemma deposit_fee:
  assumes "0 \<le> as_DepositFeeBps a" "0 \<le> as_Scale a" "as_Scale a \<le> MaxScale"
  shows "case DepositFeeFor D a amount of
      Inl e \<Rightarrow> e = ErrInvalid \<and> (V amount \<le> 0 \<or>
        V amount < V amount * of_int (as_DepositFeeBps a) / 10000 + 1 / 10 ^ nat (as_Scale a))
    | Inr fee \<Rightarrow> 0 < V amount \<and> 0 \<le> V fee \<and> V fee < V amount \<and> Amount_Scale D fee \<le> as_Scale a \<and>
        V amount * of_int (as_DepositFeeBps a) / 10000 \<le> V fee \<and>
        V fee < V amount * of_int (as_DepositFeeBps a) / 10000 + 1 / 10 ^ nat (as_Scale a)"
proof (cases "V amount \<le> 0")
  case False
  let ?x = "V amount * of_int (as_DepositFeeBps a) / 10000" and ?n = "nat (as_Scale a)"
  obtain p where p: "proportional D a amount (as_DepositFeeBps a) = Inr p" "V p = of_int \<lceil>?x * 10 ^ ?n\<rceil> / 10 ^ ?n"
    using proportional_ok [of amount "as_DepositFeeBps a" a] False assms by auto
  have "0 \<le> ?x" using False assms(1) by simp
  note c = fee_ceiling [OF this, of ?n, folded p(2)]
  then have "Amount_Scale D p \<le> as_Scale a" using assms(2) by (subst Scale_le_iff') simp
  with False p(1) c show ?thesis by (cases "V amount \<le> V p") (auto simp: DepositFeeFor_def)
qed (simp add: DepositFeeFor_def)

end

section \<open>Merging the limits\<close>

text \<open>What an overlay row says, and the rows of a table by key.\<close>

definition seed_row :: "'d decimal_pkg \<Rightarrow> WithdrawalLimitParams \<Rightarrow> 'd WithdrawalLimitInput" where
  "seed_row D l =
     \<lparr>wi_Asset = wp_Asset l, wi_KYCLevel = wp_KYCLevel l, wi_AutoApproveLimit = projr (parseSeedAmount D (Some (wp_AutoApproveLimit l))),
      wi_DailyLimit = projr (parseSeedAmount D (Some (wp_DailyLimit l))), wi_RequireManualReview = wp_RequireManualReview l\<rparr>"

definition by_key :: "'d WithdrawalLimitInput list \<Rightarrow> (string \<times> int) \<rightharpoonup> 'd WithdrawalLimitInput" where
  "by_key is = map_of (map (\<lambda>i. (limit_key i, i)) is)"

lemma by_key_key: "by_key is k = Some i \<Longrightarrow> limit_key i = k"
  by (auto simp: by_key_def dest: map_of_SomeD)

lemma by_key_none: "by_key is k = None \<longleftrightarrow> k \<notin> limit_key ` set is"
  by (simp add: by_key_def map_of_eq_None_iff image_image)

lemma overlay_rows_ok:
  assumes "\<forall>l \<in> set ls. seed_limit_error D l = None"
  shows "\<exists>m. overlay_rows D ls ov ks = Inr (m, ks @ map (\<lambda>l. (wp_Asset l, wp_KYCLevel l)) ls) \<and>
    Mapping.lookup m = Mapping.lookup ov ++ by_key (rev (map (seed_row D) ls))"
  using assms
proof (induction ls arbitrary: ov ks)
  case Nil
  then show ?case by (simp add: by_key_def)
next
  case (Cons l ls)
  obtain a d where ad: "parseSeedAmount D (Some (wp_AutoApproveLimit l)) = Inr a" "parseSeedAmount D (Some (wp_DailyLimit l)) = Inr d"
    using Cons.prems by (auto simp: seed_limit_error_def split: if_splits sum.splits)
  let ?k = "(wp_Asset l, wp_KYCLevel l)"
  let ?r = "\<lparr>wi_Asset = wp_Asset l, wi_KYCLevel = wp_KYCLevel l, wi_AutoApproveLimit = a, wi_DailyLimit = d, wi_RequireManualReview = wp_RequireManualReview l\<rparr>"
  have r: "?r = seed_row D l" by (simp add: seed_row_def ad)
  from Cons.IH [of "Mapping.update ?k ?r ov" "ks @ [?k]"] Cons.prems obtain m where
    m: "overlay_rows D ls (Mapping.update ?k ?r ov) (ks @ [?k]) = Inr (m, (ks @ [?k]) @ map (\<lambda>l. (wp_Asset l, wp_KYCLevel l)) ls)"
    "Mapping.lookup m = Mapping.lookup (Mapping.update ?k ?r ov) ++ by_key (rev (map (seed_row D) ls))" by auto
  have "limit_key ?r = ?k" by (simp add: limit_key_def)
  then have "Mapping.lookup ov ++ by_key (rev (map (seed_row D) (l # ls))) = Mapping.lookup m"
    unfolding m(2) by (auto simp: by_key_def map_add_def Mapping.lookup_update' fun_eq_iff r split: option.split)
  with m(1) show ?case by (simp add: ad Let_def)
qed

lemma merge_base_ok:
  assumes "distinct (map limit_key is)"
  shows "fst (merge_base is ov) = map (\<lambda>i. case Mapping.lookup ov (limit_key i) of Some r \<Rightarrow> r | None \<Rightarrow> i) is \<and>
    Mapping.lookup (snd (merge_base is ov)) = Mapping.lookup ov |` (- limit_key ` set is)"
  using assms
proof (induction "is" arbitrary: ov)
  case (Cons i "is")
  show ?case
  proof (cases "Mapping.lookup ov (limit_key i)")
    case None
    with Cons show ?thesis by (auto simp: split_beta Let_def restrict_map_def fun_eq_iff)
  next
    case (Some r)
    have "map (\<lambda>j. case Mapping.lookup (Mapping.delete (limit_key i) ov) (limit_key j) of Some r \<Rightarrow> r | None \<Rightarrow> j) is =
      map (\<lambda>j. case Mapping.lookup ov (limit_key j) of Some r \<Rightarrow> r | None \<Rightarrow> j) is"
    proof (intro map_cong refl)
      fix j assume "j \<in> set is"
      then have "limit_key j \<in> limit_key ` set is" by (rule imageI)
      with Cons.prems have "limit_key j \<noteq> limit_key i" by auto
      then show "(case Mapping.lookup (Mapping.delete (limit_key i) ov) (limit_key j) of Some r \<Rightarrow> r | None \<Rightarrow> j) =
        (case Mapping.lookup ov (limit_key j) of Some r \<Rightarrow> r | None \<Rightarrow> j)" by simp
    qed
    with Some Cons show ?thesis
      by (auto simp: split_beta Let_def restrict_map_def fun_eq_iff lookup_delete')
  qed
qed (simp add: restrict_map_def)

lemma merge_rest_ok:
  assumes "\<forall>k r. Mapping.lookup ov k = Some r \<longrightarrow> limit_key r = k"
  shows "distinct (map limit_key (merge_rest ks ov)) \<and> by_key (merge_rest ks ov) = Mapping.lookup ov |` set ks"
  using assms
proof (induction ks arbitrary: ov)
  case Nil
  then show ?case by (simp add: by_key_def fun_eq_iff)
next
  case (Cons k ks)
  show ?case
  proof (cases "Mapping.lookup ov k")
    case None
    with Cons show ?thesis by (auto simp: restrict_map_def fun_eq_iff)
  next
    case (Some r)
    have IH: "distinct (map limit_key (merge_rest ks (Mapping.delete k ov)))"
      "by_key (merge_rest ks (Mapping.delete k ov)) = Mapping.lookup (Mapping.delete k ov) |` set ks"
      using Cons.IH [of "Mapping.delete k ov"] Cons.prems unfolding lookup_delete' by (metis (no_types, lifting) option.distinct(1))+
    have r: "limit_key r = k" using Cons.prems Some by blast
    have "k \<notin> limit_key ` set (merge_rest ks (Mapping.delete k ov))"
      using IH(2) by (simp add: by_key_none [symmetric] restrict_map_def lookup_delete')
    with IH(1) have "distinct (map limit_key (merge_rest (k # ks) ov))" by (simp add: Some r)
    moreover have "by_key (merge_rest (k # ks) ov) = Mapping.lookup ov |` set (k # ks)"
      using IH(2) Some r by (auto simp: by_key_def restrict_map_def fun_eq_iff lookup_delete')
    ultimately show ?thesis by blast
  qed
qed

lemma by_key_append: "by_key (xs @ ys) k = (case by_key xs k of None \<Rightarrow> by_key ys k | Some r \<Rightarrow> Some r)"
  by (simp add: by_key_def map_add_def split: option.split)

lemma by_key_map:
  assumes "\<forall>i. limit_key (f i) = limit_key i"
  shows "by_key (map f is) k = map_option f (by_key is k)"
  using assms by (induction "is") (auto simp: by_key_def)

lemma lookup_empty_map: "Mapping.lookup Mapping.empty = Map.empty"
  by (rule ext) (simp add: Mapping.lookup_empty)

lemma limits_merged:
  assumes "distinct (map limit_key base)" and "\<forall>l \<in> set (se_WithdrawalLimits p). seed_limit_error D l = None"
  shows "\<exists>out. applyLimits D p base = Inr out \<and> distinct (map limit_key out) \<and>
    take (length base) (map limit_key out) = map limit_key base \<and>
    by_key out = by_key base ++ by_key (rev (map (seed_row D) (se_WithdrawalLimits p)))"
proof -
  let ?ls = "se_WithdrawalLimits p" and ?rows = "by_key (rev (map (seed_row D) (se_WithdrawalLimits p)))"
  obtain m where m: "overlay_rows D ?ls Mapping.empty [] = Inr (m, map (\<lambda>l. (wp_Asset l, wp_KYCLevel l)) ?ls)" "Mapping.lookup m = ?rows"
    using overlay_rows_ok [OF assms(2), of Mapping.empty "[]"] by (auto simp: lookup_empty_map)
  let ?ks = "map (\<lambda>l. (wp_Asset l, wp_KYCLevel l)) ?ls"
  obtain out rest where mb: "merge_base base m = (out, rest)" by fastforce
  note b = merge_base_ok [OF assms(1), of m, unfolded mb fst_conv snd_conv]
  let ?f = "\<lambda>i. case Mapping.lookup m (limit_key i) of Some r \<Rightarrow> r | None \<Rightarrow> i"
  have f: "\<forall>i. limit_key (?f i) = limit_key i" unfolding m(2) using by_key_key by (metis option.case_eq_if option.exhaust_sel)
  have keys: "map limit_key out = map limit_key base" using b f by (simp add: comp_def)
  have rest: "\<forall>k r. Mapping.lookup rest k = Some r \<longrightarrow> limit_key r = k"
    using b m(2) by_key_key by (auto simp: restrict_map_def split: if_splits)
  note r = merge_rest_ok [OF this, of ?ks]
  have sub: "Mapping.lookup rest k \<noteq> None \<Longrightarrow> k \<in> set ?ks" for k
    using b m(2) by_key_none [of "rev (map (seed_row D) ?ls)" k]
    by (auto simp: restrict_map_def limit_key_def seed_row_def image_iff split: if_splits)
  have look: "by_key (merge_rest ?ks rest) k = Mapping.lookup rest k" for k
    using r sub [of k] by (cases "Mapping.lookup rest k") (auto simp: restrict_map_def)
  have eq: "by_key (out @ merge_rest ?ks rest) k = (by_key base ++ ?rows) k" for k
  proof (cases "by_key base k")
    case None
    then have "k \<notin> limit_key ` set base" by (simp add: by_key_none)
    then show ?thesis using None b m(2) by_key_map [OF f, of base k] look [of k]
      by (auto simp: by_key_append restrict_map_def map_add_def split: option.split)
  next
    case (Some i)
    then have "limit_key i = k" by (rule by_key_key)
    then show ?thesis using Some b m(2) by_key_map [OF f, of base k]
      by (auto simp: by_key_append map_add_def split: option.split)
  qed
  have "limit_key ` set base \<inter> limit_key ` set (merge_rest ?ks rest) = {}"
  proof -
    have "k \<notin> limit_key ` set (merge_rest ?ks rest)" if "k \<in> limit_key ` set base" for k
    proof -
      have "Mapping.lookup rest k = None" using b that by (simp add: restrict_map_def)
      then show ?thesis using look [of k] by (simp add: by_key_none)
    qed
    then show ?thesis by blast
  qed
  then have "distinct (map limit_key (out @ merge_rest ?ks rest))"
    unfolding map_append distinct_append keys set_map using assms(1) r by (simp add: Int_commute)
  moreover have "length out = length base" by (rule map_eq_imp_length_eq [OF keys])
  then have "take (length base) (map limit_key (out @ merge_rest ?ks rest)) = map limit_key base" by (simp add: keys)
  moreover have "applyLimits D p base = Inr (out @ merge_rest ?ks rest)" by (simp add: applyLimits_def m(1) mb)
  moreover have "by_key (out @ merge_rest ?ks rest) = by_key base ++ ?rows" using eq by (rule ext)
  ultimately show ?thesis by blast
qed

section \<open>Withdrawals and holds\<close>

text \<open>The total after requests of one account in one day, each counted when it is approved unattended.\<close>

fun approved_total :: "'d decimal_pkg \<Rightarrow> 'd WithdrawalRequest \<Rightarrow> 'd amount list \<Rightarrow> 'd amount \<Rightarrow> 'd amount" where
  "approved_total D r [] sofar = sofar"
| "approved_total D r (a # as) sofar =
     approved_total D r as
       (if fst (Withdraw D (r\<lparr>wr_Amount := a, wr_WithdrawnToday := sofar\<rparr>)) = DecisionAutoApprove then Amount_Add D sofar a else sofar)"


lemma approved_no_limit: "wr_Limit r = None \<Longrightarrow> approved_total D r as sofar = sofar"
  by (induction "as" arbitrary: sofar) (simp_all add: Withdraw_def)

context decimal
begin

lemma withdraw_auto:
  "fst (Withdraw D r) = DecisionAutoApprove \<longleftrightarrow>
    acc_Status (wr_Account r) = StatusActive \<and> as_WithdrawEnabled (wr_Asset r) \<and> as_Status (wr_Asset r) = AssetActive \<and>
    0 < V (wr_Amount r) \<and> V (as_MinWithdrawal (wr_Asset r)) \<le> V (wr_Amount r) \<and>
    (\<exists>l. wr_Limit r = Some l \<and> \<not> wl_RequireManualReview l \<and> V (wr_Amount r) \<le> V (wl_AutoApproveLimit l) \<and>
       V (wr_WithdrawnToday r) + V (wr_Amount r) \<le> V (wl_DailyLimit l))"
  by (auto simp: Withdraw_def not_le not_less split: option.splits)

lemma withdraw_reject:
  "fst (Withdraw D r) = DecisionReject \<longleftrightarrow>
    \<not> (acc_Status (wr_Account r) = StatusActive \<and> as_WithdrawEnabled (wr_Asset r) \<and> as_Status (wr_Asset r) = AssetActive \<and>
       0 < V (wr_Amount r) \<and> V (as_MinWithdrawal (wr_Asset r)) \<le> V (wr_Amount r))"
  by (auto simp: Withdraw_def not_le not_less split: option.splits)

lemma approved_within:
  "case wr_Limit r of
     None \<Rightarrow> approved_total D r as sofar = sofar
   | Some l \<Rightarrow> V sofar \<le> V (wl_DailyLimit l) \<longrightarrow> V (approved_total D r as sofar) \<le> V (wl_DailyLimit l)"
proof (cases "wr_Limit r")
  case None
  then show ?thesis by (simp add: approved_no_limit)
next
  case (Some l)
  have "V sofar \<le> V (wl_DailyLimit l) \<Longrightarrow> V (approved_total D r as sofar) \<le> V (wl_DailyLimit l)"
  proof (induction "as" arbitrary: sofar)
    case (Cons a "as")
    show ?case
    proof (cases "fst (Withdraw D (r\<lparr>wr_Amount := a, wr_WithdrawnToday := sofar\<rparr>)) = DecisionAutoApprove")
      case True
      then have "V (Amount_Add D sofar a) \<le> V (wl_DailyLimit l)" by (auto simp: withdraw_auto Some)
      with Cons.IH True show ?thesis by simp
    qed (use Cons in simp)
  qed simp
  with Some show ?thesis by simp
qed

lemma hold_request:
  assumes r: "Request_Validate D r = None" and "orderID \<noteq> []" "mk_BaseSymbol m \<noteq> []" "mk_QuoteSymbol m \<noteq> []"
  defines "h \<equiv> holdFor D m r"
  shows "fst h = (if pq_Side r = Buy then mk_QuoteSymbol m else mk_BaseSymbol m) \<and>
    V (snd h) = (if pq_Side r = Sell then V (pq_Qty r) else if pq_Type r = Market then V (pq_QuoteQty r) else V (pq_Price r) * V (pq_Qty r)) \<and>
    0 < V (snd h) \<and>
    (Amount_Validate D (snd h) = None \<longrightarrow>
      (\<exists>e. holdEntry D \<lparr>hp_AccountID = pq_AccountID r, hp_Asset = fst h, hp_Amount = snd h,
              hp_IdempotencyKey = ''hold:order:'' @ orderID, hp_Ref = \<lparr>ref_Type = ''order'', ref_ID = orderID\<rparr>,
              hp_CorrelationID = pq_CorrelationID r\<rparr> = Inr e \<and> Entry_Validate D e = None))"
proof -
  have kinds: "pq_AccountID r \<noteq> []" "pq_Side r = Buy \<or> pq_Side r = Sell" "pq_Type r = Limit \<or> pq_Type r = Market" "request_fields D r"
    using r by (auto simp: Request_Validate_def split: if_splits)
  have pos: "0 < V (snd h)" using kinds by (auto simp: h_def holdFor_def request_fields_def split: if_splits)
  have asset: "fst h \<noteq> []" using assms(3,4) by (simp add: h_def holdFor_def)
  let ?p = "\<lparr>hp_AccountID = pq_AccountID r, hp_Asset = fst h, hp_Amount = snd h, hp_IdempotencyKey = ''hold:order:'' @ orderID,
    hp_Ref = \<lparr>ref_Type = ''order'', ref_ID = orderID\<rparr>, hp_CorrelationID = pq_CorrelationID r\<rparr>"
  have "\<exists>e. holdEntry D ?p = Inr e \<and> Entry_Validate D e = None" if "Amount_Validate D (snd h) = None"
    using that pos asset kinds(1) by (simp add: holdEntry_def Entry_Validate_iff posting_ok_def KindHold_def posting_def net_def Ledger_Entry.signed_def)
  moreover have "fst h = (if pq_Side r = Buy then mk_QuoteSymbol m else mk_BaseSymbol m) \<and>
    V (snd h) = (if pq_Side r = Sell then V (pq_Qty r) else if pq_Type r = Market then V (pq_QuoteQty r) else V (pq_Price r) * V (pq_Qty r))"
    using kinds by (auto simp: h_def holdFor_def)
  ultimately show ?thesis using pos by blast
qed

end

section \<open>The properties\<close>

text \<open>C27: markets the book can run. What the registry accepts as a market, its precision checked against the
  scales of its assets, is a configuration the order book accepts; and in it the notional of any
  price and quantity on the grid needs no rounding, and the quantity none either.\<close>

theorem market_config_runs:
  assumes "decimal D val" and "MarketInput_Validate D i = None" and "ValidatePrecision D (mi_PriceTick i) (mi_QtyStep i) bs qs = None"
    and "0 \<le> bs" "bs \<le> MaxScale" "0 \<le> qs" "qs \<le> MaxScale" and "market_from i bs qs m"
  shows "(\<exists>cfg. marketConfig D m = Inr cfg \<and> MarketConfig_Validate D cfg = None) \<and>
    (\<forall>p q. IsMultipleOf D p (mk_PriceTick m) \<and> IsMultipleOf D q (mk_QtyStep m) \<longrightarrow>
       Amount_Scale D (Amount_Mul D p q) \<le> mk_QuoteScale m \<and> Amount_Scale D q \<le> mk_BaseScale m)"
  using decimal.market_config [OF assms] decimal.notional_fits [OF assms(1,3)] assms(8) by (auto simp: market_from_def)

definition w_market_input :: "fx MarketInput" where
  "w_market_input = \<lparr>mi_Symbol = ''ETH-USDC'', mi_BaseSymbol = ''ETH'', mi_QuoteSymbol = ''USDC'', mi_PriceTick = Amount (Fx 1 2),
     mi_QtyStep = Amount (Fx 1 4), mi_MinNotional = Amount (Fx 5 0), mi_MaxQty = None, mi_MaxSlippageBps = None,
     mi_FeeSchedule = ''default'', mi_SelfTradePolicy = ''cancel_newest'', mi_Status = ''active''\<rparr>"

definition w_market :: "fx registry_Market" where
  "w_market = \<lparr>mk_ID = ''m'', mk_TenantID = ''t'', mk_Symbol = ''ETH-USDC'', mk_BaseAssetID = ''e'', mk_QuoteAssetID = ''u'', mk_BaseSymbol = ''ETH'',
     mk_QuoteSymbol = ''USDC'', mk_BaseScale = 18, mk_QuoteScale = 6, mk_PriceTick = Amount (Fx 1 2), mk_QtyStep = Amount (Fx 1 4),
     mk_MinNotional = Amount (Fx 5 0), mk_MaxQty = None, mk_MaxSlippageBps = None, mk_FeeScheduleID = ''f'', mk_FeeScheduleName = ''default'',
     mk_MakerBps = 10, mk_TakerBps = 20, mk_SelfTradePolicy = ''cancel_newest'', mk_Status = ''active'', mk_Version = 1\<rparr>"

theorem market_config_runs_witness:
  "\<exists>cfg. marketConfig fx_pkg w_market = Inr cfg \<and> MarketConfig_Validate fx_pkg cfg = None"
proof -
  have a: "MarketInput_Validate fx_pkg w_market_input = None" by code_simp
  have b: "ValidatePrecision fx_pkg (mi_PriceTick w_market_input) (mi_QtyStep w_market_input) 18 6 = None" by code_simp
  have "market_from w_market_input 18 6 w_market" by (simp add: market_from_def w_market_input_def w_market_def)
  from market_config_runs [OF fx.decimal_axioms a b _ _ _ _ this] show ?thesis by (simp add: MaxScale_def)
qed

text \<open>C29: the fee of a withdrawal. For an asset as the registry stores it, the flat fee plus the share of the
  amount: the fee is representable at the asset's scale, never less than the exact sum and less than
  one unit of the last place above it; an amount that is not positive has no fee.\<close>

theorem withdrawal_fee_exact:
  assumes "decimal D val" and "0 \<le> as_WithdrawalFeeBps a" "0 \<le> as_Scale a" "as_Scale a \<le> MaxScale"
    "0 \<le> amt_val val (as_WithdrawalFee a)" "Amount_Scale D (as_WithdrawalFee a) \<le> as_Scale a"
  shows "if amt_val val amount \<le> 0 then WithdrawalFeeFor D a amount = Inl ErrInvalid
    else \<exists>fee. WithdrawalFeeFor D a amount = Inr fee \<and> Amount_Scale D fee \<le> as_Scale a \<and> amt_val val (as_WithdrawalFee a) \<le> amt_val val fee \<and>
      amt_val val (as_WithdrawalFee a) + amt_val val amount * of_int (as_WithdrawalFeeBps a) / 10000 \<le> amt_val val fee \<and>
      amt_val val fee < amt_val val (as_WithdrawalFee a) + amt_val val amount * of_int (as_WithdrawalFeeBps a) / 10000 + 1 / 10 ^ nat (as_Scale a)"
  by (rule decimal.withdrawal_fee [OF assms])

definition w_asset :: "fx registry_Asset" where
  "w_asset = \<lparr>as_ID = ''u'', as_TenantID = ''t'', as_Symbol = ''USDC'', as_Name = ''USD Coin'', as_ChainID = 1, as_ContractAddress = None,
     as_IsNative = True, as_Scale = 6, as_DisplayScale = 2, as_RequiredConfirmations = 1, as_MinDeposit = Amount (Fx 0 0),
     as_MinWithdrawal = Amount (Fx 5 0), as_WithdrawalFee = Amount (Fx 1 1), as_WithdrawalFeeBps = 3, as_DepositFeeBps = 1,
     as_SweepThreshold = Amount (Fx 10 0), as_DepositEnabled = True, as_WithdrawEnabled = True, as_Status = ''active'', as_Version = 1\<rparr>"

theorem withdrawal_fee_exact_witness:
  "\<exists>fee. WithdrawalFeeFor fx_pkg w_asset (Amount (Fx 12345679 6)) = Inr fee \<and> 1 / 10 \<le> amt_val fx_val fee"
proof -
  have s: "Amount_Scale fx_pkg (as_WithdrawalFee w_asset) \<le> as_Scale w_asset" by code_simp
  from withdrawal_fee_exact [OF fx.decimal_axioms _ _ _ _ s, of "Amount (Fx 12345679 6)"] show ?thesis
    by (auto simp: w_asset_def amt_val_def MaxScale_def)
qed

text \<open>C30: the fee of a deposit. It leaves something of the deposit, is representable, never less than the exact
  share and less than one unit of the last place above it; it is refused only for an amount that is
  not positive or one that the share, rounded up, would take whole.\<close>

theorem deposit_fee_exact:
  assumes "decimal D val" and "0 \<le> as_DepositFeeBps a" "0 \<le> as_Scale a" "as_Scale a \<le> MaxScale"
  shows "case DepositFeeFor D a amount of
      Inl e \<Rightarrow> e = ErrInvalid \<and> (amt_val val amount \<le> 0 \<or>
        amt_val val amount < amt_val val amount * of_int (as_DepositFeeBps a) / 10000 + 1 / 10 ^ nat (as_Scale a))
    | Inr fee \<Rightarrow> 0 < amt_val val amount \<and> 0 \<le> amt_val val fee \<and> amt_val val fee < amt_val val amount \<and> Amount_Scale D fee \<le> as_Scale a \<and>
        amt_val val amount * of_int (as_DepositFeeBps a) / 10000 \<le> amt_val val fee \<and>
        amt_val val fee < amt_val val amount * of_int (as_DepositFeeBps a) / 10000 + 1 / 10 ^ nat (as_Scale a)"
  by (rule decimal.deposit_fee [OF assms])

theorem deposit_fee_exact_witness:
  "case DepositFeeFor fx_pkg w_asset (Amount (Fx 1 6)) of Inl e \<Rightarrow> e = ErrInvalid | Inr _ \<Rightarrow> False"
proof -
  have "isl (DepositFeeFor fx_pkg w_asset (Amount (Fx 1 6)))" by code_simp
  with deposit_fee_exact [OF fx.decimal_axioms, of w_asset "Amount (Fx 1 6)"] show ?thesis
    by (auto simp: w_asset_def MaxScale_def split: sum.splits)
qed





text \<open>C31: the withdrawal limits of a seed. With an overlay whose rows are in order, the merged table has one row
  for every asset and level: the last row of the overlay for it, else the built-in one; the built-in
  ones stay first and in their order.\<close>

theorem seed_limits_merge:
  assumes "distinct (map limit_key base)" and "SeedParams_Validate D p = None"
  shows "\<exists>out. applyLimits D p base = Inr out \<and> distinct (map limit_key out) \<and> take (length base) (map limit_key out) = map limit_key base \<and>
    by_key out = by_key base ++ by_key (rev (map (seed_row D) (se_WithdrawalLimits p)))"
proof (rule limits_merged [OF assms(1)])
  have "List.map_filter (seed_limit_error D) (se_WithdrawalLimits p) = []"
    using assms(2) by (auto simp: SeedParams_Validate_def split: if_splits list.splits)
  then show "\<forall>l \<in> set (se_WithdrawalLimits p). seed_limit_error D l = None"
    by (induction "se_WithdrawalLimits p") (auto simp: List.map_filter_def filter_empty_conv)
qed

definition w_limit :: "string \<Rightarrow> int \<Rightarrow> int \<Rightarrow> fx WithdrawalLimitInput" where
  "w_limit asset level v =
     \<lparr>wi_Asset = asset, wi_KYCLevel = level, wi_AutoApproveLimit = Amount (Fx v 0), wi_DailyLimit = Amount (Fx (10 * v) 0), wi_RequireManualReview = False\<rparr>"

definition w_seed :: SeedParams where
  "w_seed = \<lparr>se_Assets = [], se_Market = None, se_WithdrawalLimits =
     [\<lparr>wp_Asset = ''USDC'', wp_KYCLevel = 1, wp_AutoApproveLimit = ''7'', wp_DailyLimit = ''9'', wp_RequireManualReview = True\<rparr>,
      \<lparr>wp_Asset = ''ETH'', wp_KYCLevel = 0, wp_AutoApproveLimit = ''0.5'', wp_DailyLimit = ''2'', wp_RequireManualReview = False\<rparr>]\<rparr>"

theorem seed_limits_merge_witness:
  "\<exists>out. applyLimits fx_pkg w_seed [w_limit ''ETH'' 0 1, w_limit ''USDC'' 0 200] = Inr out \<and>
     take 2 (map limit_key out) = [(''ETH'', 0), (''USDC'', 0)]"
proof -
  have a: "SeedParams_Validate fx_pkg w_seed = None" by code_simp
  have b: "distinct (map limit_key [w_limit ''ETH'' 0 1, w_limit ''USDC'' 0 200])" by (simp add: limit_key_def w_limit_def)
  from seed_limits_merge [OF b a] show ?thesis by (force simp: limit_key_def w_limit_def numeral_2_eq_2)
qed




end
