(* ===== verification/Eventbus.thy ===== *)
theory Eventbus
  imports Prelude
begin

text \<open>
  \<^verbatim>\<open>internal/eventbus\<close>: the envelope of an event and its subject (envelope.go), the outbox and the row an
  envelope becomes (outbox.go), the relay that moves rows to the broker (relay.go, Drain), retention
  (retention.go), the streams (streams.go) and the defaults of a consumer (subscriber.go, ordered.go).
  A payload is the JSON value its bytes stand for. The broker is a parameter: a function from its state
  and a message to its new state and whether it took the message. The trace headers of a request are an
  argument. Connections, notifications, spans and metrics are not modelled.
\<close>

section \<open>Payloads\<close>

datatype json = JNull | JBool bool | JNum int | JStr string | JList "json list" | JObj "(string \<times> json) list"

section \<open>The envelope\<close>

text \<open>\<open>None\<close> for a nil pointer, and for a payload whose bytes are not valid JSON.\<close>

record Envelope =
  ev_EventID :: string
  ev_EventType :: string
  ev_SchemaVersion :: int
  ev_TenantID :: string
  ev_MarketID :: "string option"
  ev_AccountID :: "string option"
  ev_Seq :: "u64 option"
  ev_AccountSeq :: "int option"
  ev_OccurredAt :: go_time
  ev_CorrelationID :: string
  ev_CausationID :: string
  ev_Payload :: "json option"

datatype bus_error = ErrInvalidEnvelope | errOutbox | errPublish | errConsumer string

definition SubjectPrefix :: string where "SubjectPrefix = ''ex.v1''"

definition is_upper :: "char \<Rightarrow> bool" where "is_upper c \<longleftrightarrow> 65 \<le> (of_char c :: nat) \<and> (of_char c :: nat) \<le> 90"
definition is_lower :: "char \<Rightarrow> bool" where "is_lower c \<longleftrightarrow> 97 \<le> (of_char c :: nat) \<and> (of_char c :: nat) \<le> 122"

definition type_char :: "char \<Rightarrow> bool" where
  "type_char c \<longleftrightarrow> is_lower c \<or> c = CHR ''_''"

definition scope_char :: "char \<Rightarrow> bool" where
  "scope_char c \<longleftrightarrow> is_upper c \<or> is_lower c \<or> is_digit c \<or> c = CHR ''_'' \<or> c = CHR ''-''"

text \<open>The two sides of the first dot (\<^verbatim>\<open>strings.Cut\<close>), and all the parts between dots (\<^verbatim>\<open>strings.Split\<close>).\<close>

definition before_dot :: "string \<Rightarrow> string" where
  "before_dot s = takeWhile (\<lambda>c. c \<noteq> CHR ''.'') s"

definition after_dot :: "string \<Rightarrow> string" where
  "after_dot s = drop 1 (dropWhile (\<lambda>c. c \<noteq> CHR ''.'') s)"

fun split_dots :: "string \<Rightarrow> string list" where
  "split_dots [] = [[]]"
| "split_dots (c # cs) =
     (if c = CHR ''.'' then [] # split_dots cs
      else case split_dots cs of [] \<Rightarrow> [[c]] | p # ps \<Rightarrow> (c # p) # ps)"

fun join_dots :: "string list \<Rightarrow> string" where
  "join_dots [] = []"
| "join_dots [s] = s"
| "join_dots (s # t # ts) = s @ CHR ''.'' # join_dots (t # ts)"

text \<open>The pattern of an event type: \<^verbatim>\<open>^[a-z_]+\.[a-z_]+$\<close>, and of a scope: \<^verbatim>\<open>^[A-Za-z0-9_-]+$\<close>.\<close>

definition eventTypePattern :: "string \<Rightarrow> bool" where
  "eventTypePattern s \<longleftrightarrow>
     CHR ''.'' \<in> set s \<and> before_dot s \<noteq> [] \<and> list_all type_char (before_dot s) \<and> after_dot s \<noteq> [] \<and> list_all type_char (after_dot s)"

definition scopePattern :: "string \<Rightarrow> bool" where
  "scopePattern s \<longleftrightarrow> s \<noteq> [] \<and> list_all scope_char s"

definition Envelope_Domain :: "Envelope \<Rightarrow> string" where
  "Envelope_Domain e = before_dot (ev_EventType e)"

definition Envelope_Type :: "Envelope \<Rightarrow> string" where
  "Envelope_Type e = after_dot (ev_EventType e)"

definition Envelope_Scope :: "Envelope \<Rightarrow> string" where
  "Envelope_Scope e =
     (if ev_MarketID e \<noteq> None \<and> ev_MarketID e \<noteq> Some [] then the (ev_MarketID e)
      else if ev_AccountID e \<noteq> None \<and> ev_AccountID e \<noteq> Some [] then the (ev_AccountID e)
      else ''_'')"

definition Envelope_Subject :: "Envelope \<Rightarrow> string" where
  "Envelope_Subject e = join_dots [SubjectPrefix, Envelope_Domain e, Envelope_Type e, ev_TenantID e, Envelope_Scope e]"

definition Envelope_Validate :: "Envelope \<Rightarrow> bus_error option" where
  "Envelope_Validate e =
     (if ev_EventID e = [] then Some ErrInvalidEnvelope
      else if \<not> eventTypePattern (ev_EventType e) then Some ErrInvalidEnvelope
      else if ev_SchemaVersion e < 1 then Some ErrInvalidEnvelope
      else if ev_TenantID e = [] \<or> \<not> scopePattern (ev_TenantID e) then Some ErrInvalidEnvelope
      else if ev_OccurredAt e = 0 then Some ErrInvalidEnvelope
      else if ev_Payload e = None then Some ErrInvalidEnvelope
      else if \<not> scopePattern (Envelope_Scope e) then Some ErrInvalidEnvelope
      else None)"

definition Str :: "string \<Rightarrow> string option" where
  "Str s = (if s = [] then None else Some s)"

section \<open>The outbox\<close>

record OutboxRow =
  ob_ID :: int
  ob_EventID :: string
  ob_EventType :: string
  ob_SchemaVersion :: int
  ob_TenantID :: string
  ob_MarketID :: "string option"
  ob_AccountID :: "string option"
  ob_Seq :: "int option"
  ob_AccountSeq :: "int option"
  ob_Subject :: string
  ob_Headers :: json
  ob_Payload :: json
  ob_OccurredAt :: go_time
  ob_CorrelationID :: "string option"
  ob_CausationID :: "string option"
  ob_PublishedAt :: "go_time option"

record Bus =
  bs_outbox :: "OutboxRow list"
  bs_processed :: "(string \<times> string \<times> go_time) list"

definition HeaderCorrelationID :: string where "HeaderCorrelationID = ''Correlation-Id''"

text \<open>The row of an envelope; the database gives the identity and nothing is published yet.\<close>

definition outboxParams :: "(string \<times> string) list \<Rightarrow> Envelope \<Rightarrow> bus_error + (int \<Rightarrow> OutboxRow)" where
  "outboxParams trace e =
     (case Envelope_Validate e of
        Some err \<Rightarrow> Inl err
      | None \<Rightarrow>
          Inr (\<lambda>i. \<lparr>ob_ID = i, ob_EventID = ev_EventID e, ob_EventType = ev_EventType e,
                 ob_SchemaVersion = sint (word_of_int (ev_SchemaVersion e) :: 32 word), ob_TenantID = ev_TenantID e,
                 ob_MarketID = ev_MarketID e, ob_AccountID = ev_AccountID e, ob_Seq = map_option sint (ev_Seq e),
                 ob_AccountSeq = ev_AccountSeq e, ob_Subject = Envelope_Subject e,
                 ob_Headers = JObj (map (\<lambda>(k, v). (k, JStr v)) ((HeaderCorrelationID, ev_CorrelationID e) # trace)),
                 ob_Payload = the (ev_Payload e), ob_OccurredAt = ev_OccurredAt e,
                 ob_CorrelationID = Str (ev_CorrelationID e), ob_CausationID = Str (ev_CausationID e), ob_PublishedAt = None\<rparr>))"

text \<open>A row needs a new event id; its type and version are checked again.\<close>

definition InsertOutbox :: "OutboxRow list \<Rightarrow> OutboxRow \<Rightarrow> bus_error + OutboxRow list" where
  "InsertOutbox rows r =
     (if \<not> eventTypePattern (ob_EventType r) \<or> ob_SchemaVersion r < 1 \<or> ob_EventID r \<in> ob_EventID ` set rows then Inl errOutbox
      else Inr (rows @ [r]))"

definition Outbox_Append :: "int \<Rightarrow> (string \<times> string) list \<Rightarrow> Envelope \<Rightarrow> OutboxRow list \<Rightarrow> bus_error + OutboxRow list" where
  "Outbox_Append newID trace e rows =
     (case outboxParams trace e of Inl err \<Rightarrow> Inl err | Inr mk \<Rightarrow> InsertOutbox rows (mk newID))"

fun AppendAll :: "(string \<times> string) list \<Rightarrow> (int \<times> Envelope) list \<Rightarrow> OutboxRow list \<Rightarrow> bus_error + OutboxRow list" where
  "AppendAll trace [] rows = Inr rows"
| "AppendAll trace ((i, e) # es) rows =
     (case Outbox_Append i trace e rows of Inl err \<Rightarrow> Inl err | Inr rows1 \<Rightarrow> AppendAll trace es rows1)"

definition envelopeFromRow :: "OutboxRow \<Rightarrow> Envelope" where
  "envelopeFromRow r =
     \<lparr>ev_EventID = ob_EventID r, ev_EventType = ob_EventType r, ev_SchemaVersion = ob_SchemaVersion r,
      ev_TenantID = ob_TenantID r, ev_MarketID = ob_MarketID r, ev_AccountID = ob_AccountID r,
      ev_Seq = map_option word_of_int (ob_Seq r), ev_AccountSeq = ob_AccountSeq r, ev_OccurredAt = ob_OccurredAt r,
      ev_CorrelationID = (case ob_CorrelationID r of None \<Rightarrow> [] | Some s \<Rightarrow> s),
      ev_CausationID = (case ob_CausationID r of None \<Rightarrow> [] | Some s \<Rightarrow> s), ev_Payload = Some (ob_Payload r)\<rparr>"

definition MarkProcessed :: "Bus \<Rightarrow> string \<Rightarrow> string \<Rightarrow> go_time \<Rightarrow> Bus \<times> bool" where
  "MarkProcessed B consumer event now =
     (if list_ex (\<lambda>(c, e, _). c = consumer \<and> e = event) (bs_processed B) then (B, False)
      else (B\<lparr>bs_processed := bs_processed B @ [(consumer, event, now)]\<rparr>, True))"

definition ByAccountSince :: "OutboxRow list \<Rightarrow> string \<Rightarrow> string \<Rightarrow> int \<Rightarrow> int \<Rightarrow> Envelope list" where
  "ByAccountSince rows tenant account since limit =
     (let n = (if limit \<le> 0 then 500 else limit)
      in map envelopeFromRow (take (nat n) (sort_key (\<lambda>r. the (ob_AccountSeq r))
           (filter (\<lambda>r. ob_TenantID r = tenant \<and> Str account \<noteq> None \<and> ob_AccountID r = Str account \<and>
              (case ob_AccountSeq r of None \<Rightarrow> False | Some q \<Rightarrow> q > since)) rows))))"

section \<open>The relay\<close>

record RelayConfig =
  rc_PollInterval :: go_duration
  rc_BatchSize :: int
  rc_Channel :: string

definition RelayConfig_withDefaults :: "RelayConfig \<Rightarrow> RelayConfig" where
  "RelayConfig_withDefaults c =
     \<lparr>rc_PollInterval = (if rc_PollInterval c \<le> 0 then 100 * 10 ^ 6 else rc_PollInterval c),
      rc_BatchSize = (if rc_BatchSize c \<le> 0 then 100 else rc_BatchSize c),
      rc_Channel = (if rc_Channel c = [] then ''outbox_new'' else rc_Channel c)\<rparr>"

fun decode_strings :: "(string \<times> json) list \<Rightarrow> (string \<times> string) list option" where
  "decode_strings [] = Some []"
| "decode_strings ((k, JStr v) # kvs) = map_option ((#) (k, v)) (decode_strings kvs)"
| "decode_strings ((k, JNull) # kvs) = map_option ((#) (k, [])) (decode_strings kvs)"
| "decode_strings (_ # kvs) = None"

text \<open>Nothing for what is not a map of strings.\<close>

definition decodeHeaders :: "json \<Rightarrow> (string \<times> string) list" where
  "decodeHeaders j = (case j of JObj kvs \<Rightarrow> (case decode_strings kvs of None \<Rightarrow> [] | Some h \<Rightarrow> h) | _ \<Rightarrow> [])"

definition ListUnpublished :: "OutboxRow list \<Rightarrow> int \<Rightarrow> OutboxRow list" where
  "ListUnpublished rows limit = take (nat limit) (sort_key ob_ID (filter (\<lambda>r. ob_PublishedAt r = None) rows))"

definition MarkPublished :: "go_time \<Rightarrow> int list \<Rightarrow> OutboxRow list \<Rightarrow> OutboxRow list" where
  "MarkPublished now ids =
     map (\<lambda>r. if ob_ID r \<in> set ids \<and> ob_PublishedAt r = None then r\<lparr>ob_PublishedAt := Some now\<rparr> else r)"

text \<open>The message handed to the broker: subject, id, headers without empty ones, envelope.\<close>

record Message =
  ms_Subject :: string
  ms_MsgID :: string
  ms_Headers :: "(string \<times> string) list"
  ms_Envelope :: Envelope

definition message_of :: "OutboxRow \<Rightarrow> Message" where
  "message_of r =
     \<lparr>ms_Subject = ob_Subject r, ms_MsgID = ob_EventID r,
      ms_Headers = filter (\<lambda>(k, v). v \<noteq> []) (decodeHeaders (ob_Headers r)), ms_Envelope = envelopeFromRow r\<rparr>"

type_synonym 'p publisher = "'p \<Rightarrow> Message \<Rightarrow> 'p \<times> bool"

text \<open>The loop over the rows, with the ids published so far; it stops at the first failure.\<close>

fun publish_rows :: "'p publisher \<Rightarrow> OutboxRow list \<Rightarrow> 'p \<Rightarrow> int list \<Rightarrow> 'p \<times> int list \<times> bool" where
  "publish_rows pub [] p ids = (p, ids, True)"
| "publish_rows pub (r # rs) p ids =
     (case pub p (message_of r) of
        (p1, False) \<Rightarrow> (p1, ids, False)
      | (p1, True) \<Rightarrow> publish_rows pub rs p1 (ids @ [ob_ID r]))"

text \<open>The count is that of the rows published and marked; \<open>errPublish\<close> when the broker refused one.\<close>

definition Drain :: "'p publisher \<Rightarrow> RelayConfig \<Rightarrow> go_time \<Rightarrow> 'p \<Rightarrow> OutboxRow list \<Rightarrow> 'p \<times> OutboxRow list \<times> nat \<times> bus_error option" where
  "Drain pub cfg now p rows =
     (let batch = ListUnpublished rows (rc_BatchSize cfg)
      in if batch = [] then (p, rows, 0, None)
         else case publish_rows pub batch p [] of
                (p1, ids, ok) \<Rightarrow>
                  (if ok then (p1, MarkPublished now ids rows, length ids, None)
                   else (p1, (if ids \<noteq> [] then MarkPublished now ids rows else rows), length ids, Some errPublish)))"

text \<open>The relay's loop at a wake-up: batches until one is short or the broker refuses.\<close>

partial_function (option) drain_pending ::
    "'p publisher \<Rightarrow> RelayConfig \<Rightarrow> go_time \<Rightarrow> 'p \<Rightarrow> OutboxRow list \<Rightarrow> ('p \<times> OutboxRow list \<times> bus_error option) option" where
  "drain_pending pub cfg now p rows =
     (case Drain pub cfg now p rows of
        (p1, rows1, n, err) \<Rightarrow>
          (if err \<noteq> None then Some (p1, rows1, err)
           else if int n < rc_BatchSize cfg then Some (p1, rows1, None)
           else drain_pending pub cfg now p1 rows1))"

section \<open>Retention\<close>

definition PruneOutbox :: "go_time \<Rightarrow> int \<Rightarrow> OutboxRow list \<Rightarrow> OutboxRow list \<times> nat" where
  "PruneOutbox cutoff limit rows =
     (let ids = map ob_ID (take (nat limit) (sort_key ob_ID
            (filter (\<lambda>r. case ob_PublishedAt r of None \<Rightarrow> False | Some t \<Rightarrow> t < cutoff) rows)))
      in (filter (\<lambda>r. ob_ID r \<notin> set ids) rows, length ids))"

section \<open>Streams and consumers\<close>

definition StreamTrading :: string where "StreamTrading = ''EX_TRADING''"
definition StreamChain :: string where "StreamChain = ''EX_CHAIN''"
definition StreamRegistry :: string where "StreamRegistry = ''EX_REGISTRY''"

text \<open>A stream's name, the domains of its subjects and how long it keeps a message.\<close>

definition hour :: go_duration where "hour = 3600 * 10 ^ 9"

definition domain_subject :: "string \<Rightarrow> string" where
  "domain_subject d = SubjectPrefix @ ''.'' @ d @ ''.*.*.*''"

definition StreamConfigs :: "(string \<times> go_duration \<times> string list) list" where
  "StreamConfigs =
     [(StreamTrading, 30 * 24 * hour, map domain_subject [''order'', ''trade'', ''ledger'', ''balance'']),
      (StreamChain, 30 * 24 * hour, map domain_subject [''deposit'', ''withdrawal'', ''sweep'', ''alert'']),
      (StreamRegistry, 90 * 24 * hour,
       map domain_subject [''market'', ''asset'', ''fee_schedule'', ''registry'', ''user'', ''reconciliation''])]"

definition StreamFor :: "string \<Rightarrow> string" where
  "StreamFor subject =
     (let parts = split_dots subject
      in if length parts \<noteq> 6 \<or> parts ! 0 @ ''.'' @ parts ! 1 \<noteq> SubjectPrefix then []
         else (let want = SubjectPrefix @ ''.'' @ parts ! 2 @ ''.*.*.*''
               in case find (\<lambda>(_, _, subjects). want \<in> set subjects) StreamConfigs of
                    None \<Rightarrow> [] | Some (name, _) \<Rightarrow> name))"

record ConsumerConfig =
  cc_Durable :: string
  cc_Stream :: string
  cc_FilterSubjects :: "string list"
  cc_MaxDeliver :: int
  cc_Backoff :: go_duration
  cc_AckWait :: go_duration

definition ConsumerConfig_withDefaults :: "ConsumerConfig \<Rightarrow> ConsumerConfig" where
  "ConsumerConfig_withDefaults c =
     c\<lparr>cc_MaxDeliver := (if cc_MaxDeliver c \<le> 0 then 10 else cc_MaxDeliver c),
       cc_Backoff := (if cc_Backoff c \<le> 0 then 2 * 10 ^ 9 else cc_Backoff c),
       cc_AckWait := (if cc_AckWait c \<le> 0 then 30 * 10 ^ 9 else cc_AckWait c)\<rparr>"

definition ConsumerConfig_validate :: "ConsumerConfig \<Rightarrow> bus_error option" where
  "ConsumerConfig_validate c =
     (if cc_Durable c = [] then Some (errConsumer ''durable name required'')
      else if cc_Stream c = [] then Some (errConsumer ''stream required'')
      else if cc_FilterSubjects c = [] then Some (errConsumer ''needs at least one filter subject'')
      else None)"

record OrderedConfig =
  oc_Name :: string
  oc_Stream :: string
  oc_FilterSubjects :: "string list"

definition OrderedConfig_validate :: "OrderedConfig \<Rightarrow> bus_error option" where
  "OrderedConfig_validate c =
     (if oc_Name c = [] then Some (errConsumer ''name required'')
      else if oc_Stream c = [] then Some (errConsumer ''stream required'')
      else if oc_FilterSubjects c = [] then Some (errConsumer ''needs at least one filter subject'')
      else None)"

end
