(* ===== verification/Trading_Store.thy ===== *)
theory Trading_Store
  imports Trading_Types Ledger_Service Eventbus
begin

text \<open>
  The trading tables and the statements of \<^verbatim>\<open>internal/trading/sqlcgen\<close> (queries/*.sql) as functions on
  them, with the constraints of the migrations 0005 and 0006 they can run into, and repo.go: orders and
  trades to and from their rows. Rows are kept in the order of their creation. Text columns hold the
  texts the code writes; numeric columns hold units of the eighteenth decimal (\<open>Pg_Numeric\<close>); a bigint
  is an \<open>int\<close> and a \<^verbatim>\<open>uint64\<close> is stored as the signed number with the same bits. The column
  updated_at, which the database's clock sets, is not modelled, nor is the ledger's foreign key
  on identifiers that are not UUIDs: any string may name an account.
\<close>

section \<open>Rows\<close>

record OrderRow =
  or_ID :: string
  or_TenantID :: string
  or_AccountID :: string
  or_MarketID :: string
  or_MarketSymbol :: string
  or_ClientOrderID :: string
  or_Side :: string
  or_Type :: string
  or_TimeInForce :: string
  or_Price :: "int option"
  or_Qty :: "int option"
  or_QuoteQty :: "int option"
  or_FilledQty :: int
  or_FilledQuote :: int
  or_RemainingQty :: int
  or_HoldAsset :: string
  or_HoldAmount :: int
  or_HoldRemaining :: int
  or_Status :: string
  or_RejectReason :: "string option"
  or_CancelReason :: "string option"
  or_Seq :: "int option"
  or_CorrelationID :: "string option"
  or_CreatedAt :: go_time

record TradeRow =
  tw_ID :: string
  tw_TenantID :: string
  tw_MarketID :: string
  tw_MarketSymbol :: string
  tw_Seq :: int
  tw_Idx :: int
  tw_MakerOrderID :: string
  tw_TakerOrderID :: string
  tw_MakerAccountID :: string
  tw_TakerAccountID :: string
  tw_TakerSide :: string
  tw_Price :: int
  tw_Qty :: int
  tw_QuoteQty :: int
  tw_MakerFee :: int
  tw_MakerFeeAsset :: string
  tw_TakerFee :: int
  tw_TakerFeeAsset :: string
  tw_CreatedAt :: go_time

section \<open>Values of columns\<close>

definition sent_opt :: "'d decimal_pkg \<Rightarrow> 'd amount option \<Rightarrow> int option" where
  "sent_opt D a =
     (let n = NullableNumericFromAmount D a in if nm_Valid n then Some (numeric_units n) else None)"

definition column_opt :: "int option \<Rightarrow> Numeric" where
  "column_opt u =
     (case u of None \<Rightarrow> \<lparr>nm_Int = None, nm_Exp = 0, nm_NaN = False, nm_Infinite = False, nm_Valid = False\<rparr> | Some x \<Rightarrow> column x)"

definition in_range_opt :: "int option \<Rightarrow> bool" where
  "in_range_opt u = (case u of None \<Rightarrow> True | Some x \<Rightarrow> in_range x)"

definition optStr :: "string \<Rightarrow> string option" where
  "optStr s = (if s = [] then None else Some s)"

text \<open>A status as its text.\<close>

definition Status_of :: "string \<Rightarrow> Status" where
  "Status_of t =
     (if t = ''open'' then StatusOpen else if t = ''partially_filled'' then StatusPartiallyFilled
      else if t = ''filled'' then StatusFilled else if t = ''cancelled'' then StatusCancelled
      else if t = ''rejected'' then StatusRejected else Status_other t)"

section \<open>Rows and values\<close>

definition read_amount :: "'d decimal_pkg \<Rightarrow> int \<Rightarrow> trading_error + 'd amount" where
  "read_amount D u = (case AmountFromNumeric D (column u) of Inl e \<Rightarrow> Inl (errColumn e) | Inr a \<Rightarrow> Inr a)"

definition read_opt :: "'d decimal_pkg \<Rightarrow> int option \<Rightarrow> trading_error + 'd amount option" where
  "read_opt D u = (case NullableAmountFromNumeric D (column_opt u) of Inl e \<Rightarrow> Inl (errColumn e) | Inr a \<Rightarrow> Inr a)"

definition read_text :: "(string \<Rightarrow> match_error + 'a) \<Rightarrow> string \<Rightarrow> trading_error + 'a" where
  "read_text f t = (case f t of Inl e \<Rightarrow> Inl (errMatching e) | Inr x \<Rightarrow> Inr x)"

definition orderFromRow :: "'d decimal_pkg \<Rightarrow> OrderRow \<Rightarrow> trading_error + 'd trading_Order" where
  "orderFromRow D r =
     (case read_text Side_UnmarshalText (or_Side r) of Inl e \<Rightarrow> Inl e | Inr side \<Rightarrow>
     (case read_text OrderType_UnmarshalText (or_Type r) of Inl e \<Rightarrow> Inl e | Inr ty \<Rightarrow>
     (case read_text TimeInForce_UnmarshalText (or_TimeInForce r) of Inl e \<Rightarrow> Inl e | Inr tif \<Rightarrow>
     (case read_opt D (or_Price r) of Inl e \<Rightarrow> Inl e | Inr price \<Rightarrow>
     (case read_opt D (or_Qty r) of Inl e \<Rightarrow> Inl e | Inr qty \<Rightarrow>
     (case read_opt D (or_QuoteQty r) of Inl e \<Rightarrow> Inl e | Inr quoteQty \<Rightarrow>
     (case read_amount D (or_FilledQty r) of Inl e \<Rightarrow> Inl e | Inr filledQty \<Rightarrow>
     (case read_amount D (or_FilledQuote r) of Inl e \<Rightarrow> Inl e | Inr filledQuote \<Rightarrow>
     (case read_amount D (or_RemainingQty r) of Inl e \<Rightarrow> Inl e | Inr remainingQty \<Rightarrow>
     (case read_amount D (or_HoldAmount r) of Inl e \<Rightarrow> Inl e | Inr holdAmount \<Rightarrow>
     (case read_amount D (or_HoldRemaining r) of Inl e \<Rightarrow> Inl e | Inr holdRemaining \<Rightarrow>
        Inr \<lparr>od_ID = or_ID r, od_TenantID = or_TenantID r, od_AccountID = or_AccountID r, od_MarketID = or_MarketID r,
             od_MarketSymbol = or_MarketSymbol r, od_ClientOrderID = or_ClientOrderID r, od_Side = side, od_Type = ty,
             od_TimeInForce = tif, od_Price = price, od_Qty = qty, od_QuoteQty = quoteQty, od_FilledQty = filledQty,
             od_FilledQuote = filledQuote, od_RemainingQty = remainingQty, od_HoldAsset = or_HoldAsset r,
             od_HoldAmount = holdAmount, od_HoldRemaining = holdRemaining, od_Status = Status_of (or_Status r),
             od_RejectReason = deref (or_RejectReason r), od_CancelReason = deref (or_CancelReason r),
             od_Seq = map_option from_bigint (or_Seq r), od_CorrelationID = deref (or_CorrelationID r),
             od_CreatedAt = or_CreatedAt r\<rparr>)))))))))))"

definition tradeFromRow :: "'d decimal_pkg \<Rightarrow> TradeRow \<Rightarrow> trading_error + 'd trading_Trade" where
  "tradeFromRow D r =
     (case read_text Side_UnmarshalText (tw_TakerSide r) of Inl e \<Rightarrow> Inl e | Inr side \<Rightarrow>
     (case read_amount D (tw_Price r) of Inl e \<Rightarrow> Inl e | Inr price \<Rightarrow>
     (case read_amount D (tw_Qty r) of Inl e \<Rightarrow> Inl e | Inr qty \<Rightarrow>
     (case read_amount D (tw_QuoteQty r) of Inl e \<Rightarrow> Inl e | Inr quoteQty \<Rightarrow>
     (case read_amount D (tw_MakerFee r) of Inl e \<Rightarrow> Inl e | Inr makerFee \<Rightarrow>
     (case read_amount D (tw_TakerFee r) of Inl e \<Rightarrow> Inl e | Inr takerFee \<Rightarrow>
        Inr \<lparr>td_ID = tw_ID r, td_TenantID = tw_TenantID r, td_MarketID = tw_MarketID r, td_MarketSymbol = tw_MarketSymbol r,
             td_Seq = from_bigint (tw_Seq r), td_Index = tw_Idx r, td_MakerOrderID = tw_MakerOrderID r,
             td_TakerOrderID = tw_TakerOrderID r, td_MakerAccountID = tw_MakerAccountID r,
             td_TakerAccountID = tw_TakerAccountID r, td_TakerSide = side, td_Price = price, td_Qty = qty,
             td_QuoteQty = quoteQty, td_MakerFee = makerFee, td_MakerFeeAsset = tw_MakerFeeAsset r,
             td_TakerFee = takerFee, td_TakerFeeAsset = tw_TakerFeeAsset r, td_CreatedAt = tw_CreatedAt r\<rparr>))))))"

definition ordersFromRows :: "'d decimal_pkg \<Rightarrow> OrderRow list \<Rightarrow> trading_error + 'd trading_Order list" where
  "ordersFromRows D rows = all_ok (orderFromRow D) rows"

definition tradesFromRows :: "'d decimal_pkg \<Rightarrow> TradeRow list \<Rightarrow> trading_error + 'd trading_Trade list" where
  "tradesFromRows D rows = all_ok (tradeFromRow D) rows"

text \<open>The row an order is inserted as: the parameters of the statement, in the columns they go to.\<close>

definition insertParams :: "'d decimal_pkg \<Rightarrow> 'd trading_Order \<Rightarrow> OrderRow" where
  "insertParams D x =
     \<lparr>or_ID = od_ID x, or_TenantID = od_TenantID x, or_AccountID = od_AccountID x, or_MarketID = od_MarketID x,
      or_MarketSymbol = od_MarketSymbol x, or_ClientOrderID = od_ClientOrderID x, or_Side = Side_String (od_Side x),
      or_Type = OrderType_String (od_Type x), or_TimeInForce = TimeInForce_String (od_TimeInForce x),
      or_Price = sent_opt D (od_Price x), or_Qty = sent_opt D (od_Qty x), or_QuoteQty = sent_opt D (od_QuoteQty x),
      or_FilledQty = sent_units D (od_FilledQty x), or_FilledQuote = sent_units D (od_FilledQuote x),
      or_RemainingQty = sent_units D (od_RemainingQty x), or_HoldAsset = od_HoldAsset x,
      or_HoldAmount = sent_units D (od_HoldAmount x), or_HoldRemaining = sent_units D (od_HoldRemaining x),
      or_Status = Status_text (od_Status x), or_RejectReason = optStr (od_RejectReason x),
      or_CancelReason = optStr (od_CancelReason x), or_Seq = map_option bigint (od_Seq x),
      or_CorrelationID = optStr (od_CorrelationID x), or_CreatedAt = od_CreatedAt x\<rparr>"

record ProgressParams =
  pp_ID :: string
  pp_FilledQty :: int
  pp_FilledQuote :: int
  pp_RemainingQty :: int
  pp_HoldRemaining :: int
  pp_Status :: string
  pp_CancelReason :: "string option"

definition progressParams :: "'d decimal_pkg \<Rightarrow> 'd trading_Order \<Rightarrow> ProgressParams" where
  "progressParams D x =
     \<lparr>pp_ID = od_ID x, pp_FilledQty = sent_units D (od_FilledQty x), pp_FilledQuote = sent_units D (od_FilledQuote x),
      pp_RemainingQty = sent_units D (od_RemainingQty x), pp_HoldRemaining = sent_units D (od_HoldRemaining x),
      pp_Status = Status_text (od_Status x), pp_CancelReason = optStr (od_CancelReason x)\<rparr>"

definition tradeParams :: "'d decimal_pkg \<Rightarrow> 'd trading_Trade \<Rightarrow> TradeRow" where
  "tradeParams D t =
     \<lparr>tw_ID = td_ID t, tw_TenantID = td_TenantID t, tw_MarketID = td_MarketID t, tw_MarketSymbol = td_MarketSymbol t,
      tw_Seq = bigint (td_Seq t), tw_Idx = int32 (td_Index t), tw_MakerOrderID = td_MakerOrderID t,
      tw_TakerOrderID = td_TakerOrderID t, tw_MakerAccountID = td_MakerAccountID t, tw_TakerAccountID = td_TakerAccountID t,
      tw_TakerSide = Side_String (td_TakerSide t), tw_Price = sent_units D (td_Price t), tw_Qty = sent_units D (td_Qty t),
      tw_QuoteQty = sent_units D (td_QuoteQty t), tw_MakerFee = sent_units D (td_MakerFee t),
      tw_MakerFeeAsset = td_MakerFeeAsset t, tw_TakerFee = sent_units D (td_TakerFee t),
      tw_TakerFeeAsset = td_TakerFeeAsset t, tw_CreatedAt = td_CreatedAt t\<rparr>"

section \<open>Tables and statements\<close>

text \<open>\<open>db_markets\<close> are the ids of the registry's markets, which the tables refer to.\<close>

record tdb =
  db_ledger :: Ledger
  db_orders :: "OrderRow list"
  db_trades :: "TradeRow list"
  db_sequences :: "(string, int) mapping"
  db_markets :: "string list"
  db_outbox :: "OutboxRow list"

definition GetOrder :: "tdb \<Rightarrow> string \<Rightarrow> OrderRow option" where
  "GetOrder db i = find (\<lambda>r. or_ID r = i) (db_orders db)"

definition GetOrderByClientID :: "tdb \<Rightarrow> string \<Rightarrow> string \<Rightarrow> string \<Rightarrow> OrderRow option" where
  "GetOrderByClientID db tenant account clientID =
     find (\<lambda>r. or_TenantID r = tenant \<and> or_AccountID r = account \<and> or_ClientOrderID r = clientID) (db_orders db)"

text \<open>The database counts characters, not bytes: a byte that continues a UTF-8 character does not count.\<close>

definition pg_length :: "string \<Rightarrow> nat" where
  "pg_length s = length (filter (\<lambda>c. (of_char c :: nat) < 128 \<or> 192 \<le> (of_char c :: nat)) s)"

definition positive_opt :: "int option \<Rightarrow> bool" where
  "positive_opt u = (case u of None \<Rightarrow> True | Some x \<Rightarrow> x > 0)"

text \<open>The numbers of a row fit their columns; the CHECK constraints of its table.\<close>

definition order_in_range :: "OrderRow \<Rightarrow> bool" where
  "order_in_range r \<longleftrightarrow>
     in_range_opt (or_Price r) \<and> in_range_opt (or_Qty r) \<and> in_range_opt (or_QuoteQty r) \<and> in_range (or_FilledQty r) \<and>
     in_range (or_FilledQuote r) \<and> in_range (or_RemainingQty r) \<and> in_range (or_HoldAmount r) \<and> in_range (or_HoldRemaining r)"

definition order_checks :: "OrderRow \<Rightarrow> bool" where
  "order_checks r \<longleftrightarrow>
     1 \<le> pg_length (or_ClientOrderID r) \<and> pg_length (or_ClientOrderID r) \<le> 64 \<and>
     or_Side r \<in> {''buy'', ''sell''} \<and> or_Type r \<in> {''limit'', ''market''} \<and> or_TimeInForce r \<in> {''gtc'', ''ioc''} \<and>
     positive_opt (or_Price r) \<and> positive_opt (or_Qty r) \<and> positive_opt (or_QuoteQty r) \<and>
     0 \<le> or_FilledQty r \<and> 0 \<le> or_FilledQuote r \<and> 0 \<le> or_RemainingQty r \<and> 0 \<le> or_HoldAmount r \<and> 0 \<le> or_HoldRemaining r \<and>
     or_Status r \<in> {''open'', ''partially_filled'', ''filled'', ''cancelled'', ''rejected''} \<and>
     (or_Status r = ''rejected'') = (or_RejectReason r \<noteq> None) \<and>
     (or_Type r = ''market'' \<or> or_Price r \<noteq> None) \<and>
     (or_Type r = ''market'' \<and> or_Side r = ''buy'') = (or_Qty r = None)"

definition InsertOrder :: "tdb \<Rightarrow> OrderRow \<Rightarrow> stmt_error + tdb \<times> OrderRow" where
  "InsertOrder db r =
     (if \<not> order_in_range r then Inl OtherStatement
      else if \<not> order_checks r then Inl CheckFailed
      else if GetOrder db (or_ID r) \<noteq> None \<or>
        GetOrderByClientID db (or_TenantID r) (or_AccountID r) (or_ClientOrderID r) \<noteq> None then Inl UniqueViolation
      else if \<not> account_exists (db_ledger db) (or_AccountID r) \<or> or_MarketID r \<notin> set (db_markets db) then Inl OtherStatement
      else Inr (db\<lparr>db_orders := db_orders db @ [r]\<rparr>, r))"

definition progressed :: "ProgressParams \<Rightarrow> OrderRow \<Rightarrow> OrderRow" where
  "progressed p r =
     r\<lparr>or_FilledQty := pp_FilledQty p, or_FilledQuote := pp_FilledQuote p, or_RemainingQty := pp_RemainingQty p,
       or_HoldRemaining := pp_HoldRemaining p, or_Status := pp_Status p, or_CancelReason := pp_CancelReason p\<rparr>"

definition set_order :: "OrderRow \<Rightarrow> OrderRow list \<Rightarrow> OrderRow list" where
  "set_order r = map (\<lambda>x. if or_ID x = or_ID r then r else x)"

definition UpdateOrderProgress :: "tdb \<Rightarrow> ProgressParams \<Rightarrow> stmt_error + tdb \<times> OrderRow option" where
  "UpdateOrderProgress db p =
     (case GetOrder db (pp_ID p) of
        None \<Rightarrow> Inr (db, None)
      | Some r \<Rightarrow>
          (let r1 = progressed p r
           in if \<not> order_in_range r1 then Inl OtherStatement
              else if \<not> order_checks r1 then Inl CheckFailed
              else Inr (db\<lparr>db_orders := set_order r1 (db_orders db)\<rparr>, Some r1)))"

definition open_row :: "OrderRow \<Rightarrow> bool" where
  "open_row r \<longleftrightarrow> or_Status r \<in> {''open'', ''partially_filled''}"

text \<open>Open orders by sequence, those without one last.\<close>

definition ListOpenOrdersByMarket :: "tdb \<Rightarrow> string \<Rightarrow> OrderRow list" where
  "ListOpenOrdersByMarket db market =
     sort_key (\<lambda>r. case or_Seq r of None \<Rightarrow> (1::nat, 0) | Some q \<Rightarrow> (0, q))
       (filter (\<lambda>r. or_MarketID r = market \<and> open_row r) (db_orders db))"

text \<open>The pages of the readers: newest first, by time and then id.\<close>

definition ListOrdersByAccount :: "tdb \<Rightarrow> string \<Rightarrow> string \<Rightarrow> string \<Rightarrow> string \<Rightarrow> bool \<Rightarrow> int \<Rightarrow> int \<Rightarrow> OrderRow list" where
  "ListOrdersByAccount db tenant account market status open_only limit offset =
     take (nat limit) (drop (nat offset) (rev (sort_key (\<lambda>r. (or_CreatedAt r, or_ID r))
       (filter (\<lambda>r. or_TenantID r = tenant \<and> or_AccountID r = account \<and> (market = [] \<or> or_MarketSymbol r = market) \<and>
          (status = [] \<or> or_Status r = status) \<and> (\<not> open_only \<or> open_row r)) (db_orders db)))))"

definition CountOpenOrdersByMarket :: "tdb \<Rightarrow> string \<Rightarrow> nat" where
  "CountOpenOrdersByMarket db market = length (filter (\<lambda>r. or_MarketID r = market \<and> open_row r) (db_orders db))"

definition InsertTrade :: "tdb \<Rightarrow> TradeRow \<Rightarrow> stmt_error + tdb" where
  "InsertTrade db r =
     (if \<not> (in_range (tw_Price r) \<and> in_range (tw_Qty r) \<and> in_range (tw_QuoteQty r) \<and> in_range (tw_MakerFee r) \<and> in_range (tw_TakerFee r))
      then Inl OtherStatement
      else if \<not> (0 \<le> tw_Idx r \<and> tw_TakerSide r \<in> {''buy'', ''sell''} \<and> 0 < tw_Price r \<and> 0 < tw_Qty r \<and> 0 < tw_QuoteQty r \<and>
          0 \<le> tw_MakerFee r \<and> 0 \<le> tw_TakerFee r) then Inl CheckFailed
      else if list_ex (\<lambda>x. tw_ID x = tw_ID r \<or> tw_MarketID x = tw_MarketID r \<and> tw_Seq x = tw_Seq r \<and> tw_Idx x = tw_Idx r) (db_trades db)
      then Inl UniqueViolation
      else if GetOrder db (tw_MakerOrderID r) = None \<or> GetOrder db (tw_TakerOrderID r) = None \<or>
          \<not> account_exists (db_ledger db) (tw_MakerAccountID r) \<or> \<not> account_exists (db_ledger db) (tw_TakerAccountID r) \<or>
          tw_MarketID r \<notin> set (db_markets db) then Inl OtherStatement
      else Inr (db\<lparr>db_trades := db_trades db @ [r]\<rparr>))"

definition ListTradesByMarket :: "tdb \<Rightarrow> string \<Rightarrow> string \<Rightarrow> int \<Rightarrow> int \<Rightarrow> TradeRow list" where
  "ListTradesByMarket db tenant market limit offset =
     take (nat limit) (drop (nat offset) (rev (sort_key (\<lambda>r. (tw_CreatedAt r, tw_ID r))
       (filter (\<lambda>r. tw_TenantID r = tenant \<and> tw_MarketSymbol r = market) (db_trades db)))))"

definition ListFillsByAccount :: "tdb \<Rightarrow> string \<Rightarrow> string \<Rightarrow> string \<Rightarrow> string \<Rightarrow> int \<Rightarrow> int \<Rightarrow> TradeRow list" where
  "ListFillsByAccount db tenant account market order limit offset =
     take (nat limit) (drop (nat offset) (rev (sort_key (\<lambda>r. (tw_CreatedAt r, tw_ID r))
       (filter (\<lambda>r. tw_TenantID r = tenant \<and> (tw_MakerAccountID r = account \<or> tw_TakerAccountID r = account) \<and>
          (market = [] \<or> tw_MarketSymbol r = market) \<and>
          (order = [] \<or> tw_MakerOrderID r = order \<and> tw_MakerAccountID r = account \<or>
             tw_TakerOrderID r = order \<and> tw_TakerAccountID r = account)) (db_trades db)))))"

definition ListTradesByOrder :: "tdb \<Rightarrow> string \<Rightarrow> TradeRow list" where
  "ListTradesByOrder db i =
     sort_key (\<lambda>r. (tw_Seq r, tw_Idx r)) (filter (\<lambda>r. tw_MakerOrderID r = i \<or> tw_TakerOrderID r = i) (db_trades db))"

text \<open>The sequence of a market, created at zero.\<close>

definition EnsureMarketSequence :: "tdb \<Rightarrow> string \<Rightarrow> stmt_error + tdb \<times> int" where
  "EnsureMarketSequence db market =
     (case Mapping.lookup (db_sequences db) market of
        Some q \<Rightarrow> Inr (db, q)
      | None \<Rightarrow>
          (if market \<notin> set (db_markets db) then Inl OtherStatement
           else Inr (db\<lparr>db_sequences := Mapping.update market 0 (db_sequences db)\<rparr>, 0)))"

definition LockMarketSequence :: "tdb \<Rightarrow> string \<Rightarrow> int option" where
  "LockMarketSequence db market = Mapping.lookup (db_sequences db) market"

text \<open>The update guarded by the sequence the transaction started from, and the number of rows it changed.\<close>

definition SetMarketSequence :: "tdb \<Rightarrow> string \<Rightarrow> int \<Rightarrow> int \<Rightarrow> stmt_error + tdb \<times> int" where
  "SetMarketSequence db market to_seq from_seq =
     (if Mapping.lookup (db_sequences db) market \<noteq> Some from_seq then Inr (db, 0)
      else if to_seq < 0 then Inl CheckFailed
      else Inr (db\<lparr>db_sequences := Mapping.update market to_seq (db_sequences db)\<rparr>, 1))"

definition load_order :: "'d decimal_pkg \<Rightarrow> tdb \<Rightarrow> string \<Rightarrow> trading_error + 'd trading_Order" where
  "load_order D db i = (case GetOrder db i of None \<Rightarrow> Inl ErrOrderNotFound | Some r \<Rightarrow> orderFromRow D r)"

end
