(* ===== verification/Trading_Events.thy ===== *)
theory Trading_Events
  imports Trading_Store
begin

text \<open>
  \<^verbatim>\<open>internal/trading/events.go\<close>: the events the engine publishes, their payloads as JSON values
  (amounts are decimal texts), the builder that collects them during a command, and the envelope
  each becomes once its account sequence is known.
\<close>

section \<open>Event types\<close>

definition EventOrderAccepted :: string where "EventOrderAccepted = ''order.accepted''"
definition EventOrderUpdated :: string where "EventOrderUpdated = ''order.updated''"
definition EventOrderFilled :: string where "EventOrderFilled = ''order.filled''"
definition EventOrderCancelled :: string where "EventOrderCancelled = ''order.cancelled''"
definition EventOrderRejected :: string where "EventOrderRejected = ''order.rejected''"
definition EventTradeExecuted :: string where "EventTradeExecuted = ''trade.executed''"
definition EventBalanceUpdated :: string where "EventBalanceUpdated = ''balance.updated''"

lemmas event_types = EventOrderAccepted_def EventOrderUpdated_def EventOrderFilled_def EventOrderCancelled_def
  EventOrderRejected_def EventTradeExecuted_def EventBalanceUpdated_def

definition schemaVersion :: int where "schemaVersion = 1"

definition EventTypes :: "string list" where
  "EventTypes = [EventOrderAccepted, EventOrderUpdated, EventOrderFilled, EventOrderCancelled, EventOrderRejected,
     EventTradeExecuted, EventBalanceUpdated]"

section \<open>Payloads\<close>

record 'd OrderAcceptedPayload =
  oa_OrderID :: string
  oa_ClientOrderID :: string
  oa_AccountID :: string
  oa_Market :: string
  oa_Side :: string
  oa_Type :: string
  oa_TimeInForce :: string
  oa_Price :: "'d amount option"
  oa_Qty :: "'d amount option"
  oa_QuoteQty :: "'d amount option"
  oa_Seq :: u64

record 'd OrderUpdatedPayload =
  ou_OrderID :: string
  ou_AccountID :: string
  ou_Market :: string
  ou_Status :: Status
  ou_FilledQty :: "'d amount"
  ou_FilledQuote :: "'d amount"
  ou_RemainingQty :: "'d amount"
  ou_Seq :: u64

record 'd OrderFilledPayload =
  of_OrderID :: string
  of_AccountID :: string
  of_Market :: string
  of_FilledQty :: "'d amount"
  of_FilledQuote :: "'d amount"
  of_Seq :: u64

record 'd OrderCancelledPayload =
  ox_OrderID :: string
  ox_AccountID :: string
  ox_Market :: string
  ox_Reason :: string
  ox_FilledQty :: "'d amount"
  ox_FilledQuote :: "'d amount"
  ox_RemainingQty :: "'d amount"
  ox_RemainingQuote :: "'d amount"
  ox_Released :: "'d amount"
  ox_ReleasedAsset :: string
  ox_Seq :: u64

record OrderRejectedPayload =
  oj_OrderID :: string
  oj_ClientOrderID :: string
  oj_AccountID :: string
  oj_Market :: string
  oj_Reason :: string
  oj_Seq :: "u64 option"

record 'd TradeExecutedPayload =
  tx_TradeID :: string
  tx_Market :: string
  tx_MakerOrderID :: string
  tx_TakerOrderID :: string
  tx_MakerAccountID :: string
  tx_TakerAccountID :: string
  tx_TakerSide :: string
  tx_Price :: "'d amount"
  tx_Qty :: "'d amount"
  tx_QuoteQty :: "'d amount"
  tx_MakerFee :: "'d amount"
  tx_MakerFeeAsset :: string
  tx_TakerFee :: "'d amount"
  tx_TakerFeeAsset :: string
  tx_Seq :: u64

record 'd BalanceUpdatedPayload =
  bu_AccountID :: string
  bu_Asset :: string
  bu_Available :: "'d amount"
  bu_Hold :: "'d amount"
  bu_AccountSeq :: int

datatype 'd payload =
    PNone
  | PAccepted "'d OrderAcceptedPayload"
  | PUpdated "'d OrderUpdatedPayload"
  | PFilled "'d OrderFilledPayload"
  | PCancelled "'d OrderCancelledPayload"
  | PRejected OrderRejectedPayload
  | PTrade "'d TradeExecutedPayload"
  | PBalance "'d BalanceUpdatedPayload"

definition json_amount :: "'d decimal_pkg \<Rightarrow> 'd amount \<Rightarrow> json" where
  "json_amount D a = JStr (MarshalText D a)"

definition json_opt :: "('a \<Rightarrow> json) \<Rightarrow> 'a option \<Rightarrow> json" where
  "json_opt f x = (case x of None \<Rightarrow> JNull | Some y \<Rightarrow> f y)"

definition json_u64 :: "u64 \<Rightarrow> json" where
  "json_u64 w = JNum (uint w)"

text \<open>\<^verbatim>\<open>json.Marshal\<close> of a payload: the fields by the names of their tags, in the order of the struct.\<close>

fun payload_json :: "'d decimal_pkg \<Rightarrow> 'd payload \<Rightarrow> json" where
  "payload_json D PNone = JNull"
| "payload_json D (PAccepted p) = JObj
     [(''order_id'', JStr (oa_OrderID p)), (''client_order_id'', JStr (oa_ClientOrderID p)), (''account_id'', JStr (oa_AccountID p)),
      (''market'', JStr (oa_Market p)), (''side'', JStr (oa_Side p)), (''type'', JStr (oa_Type p)),
      (''time_in_force'', JStr (oa_TimeInForce p)), (''price'', json_opt (json_amount D) (oa_Price p)),
      (''qty'', json_opt (json_amount D) (oa_Qty p)), (''quote_qty'', json_opt (json_amount D) (oa_QuoteQty p)),
      (''seq'', json_u64 (oa_Seq p))]"
| "payload_json D (PUpdated p) = JObj
     [(''order_id'', JStr (ou_OrderID p)), (''account_id'', JStr (ou_AccountID p)), (''market'', JStr (ou_Market p)),
      (''status'', JStr (Status_text (ou_Status p))), (''filled_qty'', json_amount D (ou_FilledQty p)),
      (''filled_quote'', json_amount D (ou_FilledQuote p)), (''remaining_qty'', json_amount D (ou_RemainingQty p)),
      (''seq'', json_u64 (ou_Seq p))]"
| "payload_json D (PFilled p) = JObj
     [(''order_id'', JStr (of_OrderID p)), (''account_id'', JStr (of_AccountID p)), (''market'', JStr (of_Market p)),
      (''filled_qty'', json_amount D (of_FilledQty p)), (''filled_quote'', json_amount D (of_FilledQuote p)),
      (''seq'', json_u64 (of_Seq p))]"
| "payload_json D (PCancelled p) = JObj
     [(''order_id'', JStr (ox_OrderID p)), (''account_id'', JStr (ox_AccountID p)), (''market'', JStr (ox_Market p)),
      (''reason'', JStr (ox_Reason p)), (''filled_qty'', json_amount D (ox_FilledQty p)),
      (''filled_quote'', json_amount D (ox_FilledQuote p)), (''remaining_qty'', json_amount D (ox_RemainingQty p)),
      (''remaining_quote'', json_amount D (ox_RemainingQuote p)), (''released'', json_amount D (ox_Released p)),
      (''released_asset'', JStr (ox_ReleasedAsset p)), (''seq'', json_u64 (ox_Seq p))]"
| "payload_json D (PRejected p) = JObj
     [(''order_id'', JStr (oj_OrderID p)), (''client_order_id'', JStr (oj_ClientOrderID p)), (''account_id'', JStr (oj_AccountID p)),
      (''market'', JStr (oj_Market p)), (''reason'', JStr (oj_Reason p)), (''seq'', json_opt json_u64 (oj_Seq p))]"
| "payload_json D (PTrade p) = JObj
     [(''trade_id'', JStr (tx_TradeID p)), (''market'', JStr (tx_Market p)), (''maker_order_id'', JStr (tx_MakerOrderID p)),
      (''taker_order_id'', JStr (tx_TakerOrderID p)), (''maker_account_id'', JStr (tx_MakerAccountID p)),
      (''taker_account_id'', JStr (tx_TakerAccountID p)), (''taker_side'', JStr (tx_TakerSide p)),
      (''price'', json_amount D (tx_Price p)), (''qty'', json_amount D (tx_Qty p)), (''quote_qty'', json_amount D (tx_QuoteQty p)),
      (''maker_fee'', json_amount D (tx_MakerFee p)), (''maker_fee_asset'', JStr (tx_MakerFeeAsset p)),
      (''taker_fee'', json_amount D (tx_TakerFee p)), (''taker_fee_asset'', JStr (tx_TakerFeeAsset p)),
      (''seq'', json_u64 (tx_Seq p))]"
| "payload_json D (PBalance p) = JObj
     [(''account_id'', JStr (bu_AccountID p)), (''asset'', JStr (bu_Asset p)), (''available'', json_amount D (bu_Available p)),
      (''hold'', json_amount D (bu_Hold p)), (''account_seq'', JNum (bu_AccountSeq p))]"

section \<open>The builder\<close>

record 'd pendingEvent =
  pv_eventType :: string
  pv_account :: string
  pv_payload :: "'d payload"
  pv_marketEvt :: bool

record 'd eventBuilder =
  eb_tenant :: string
  eb_market :: string
  eb_now :: go_time
  eb_correlation :: string
  eb_seq :: "u64 option"
  eb_items :: "'d pendingEvent list"

definition eb_add :: "string \<Rightarrow> string \<Rightarrow> 'd payload \<Rightarrow> 'd eventBuilder \<Rightarrow> 'd eventBuilder" where
  "eb_add ty account p b =
     b\<lparr>eb_items := eb_items b @ [\<lparr>pv_eventType = ty, pv_account = account, pv_payload = p, pv_marketEvt = True\<rparr>]\<rparr>"

definition addAccountOnly :: "string \<Rightarrow> string \<Rightarrow> 'd payload \<Rightarrow> 'd eventBuilder \<Rightarrow> 'd eventBuilder" where
  "addAccountOnly ty account p b =
     b\<lparr>eb_items := eb_items b @ [\<lparr>pv_eventType = ty, pv_account = account, pv_payload = p, pv_marketEvt = False\<rparr>]\<rparr>"

text \<open>The envelope of an event; \<open>newID\<close> is the id drawn for it.\<close>

definition envelope :: "'d decimal_pkg \<Rightarrow> string \<Rightarrow> 'd eventBuilder \<Rightarrow> 'd pendingEvent \<Rightarrow> int \<Rightarrow> Envelope" where
  "envelope D newID b p accountSeq =
     \<lparr>ev_EventID = newID, ev_EventType = pv_eventType p, ev_SchemaVersion = schemaVersion, ev_TenantID = eb_tenant b,
      ev_MarketID = (if pv_marketEvt p then Str (eb_market b) else None), ev_AccountID = Str (pv_account p),
      ev_Seq = (if pv_marketEvt p then eb_seq b else None),
      ev_AccountSeq = (if pv_account p \<noteq> [] then Some accountSeq else None), ev_OccurredAt = eb_now b,
      ev_CorrelationID = eb_correlation b, ev_CausationID = [], ev_Payload = Some (payload_json D (pv_payload p))\<rparr>"

text \<open>The balances of a command's entries: one per account and asset, the last value, in the order they first appear.\<close>

definition balance_key :: "'d Balance \<Rightarrow> string \<times> string" where
  "balance_key b = (bal_AccountID b, bal_Asset b)"

fun latest_balances :: "'d Balance list \<Rightarrow> (string \<times> string, 'd Balance) mapping \<Rightarrow> (string \<times> string) list \<Rightarrow>
    (string \<times> string, 'd Balance) mapping \<times> (string \<times> string) list" where
  "latest_balances [] m order = (m, order)"
| "latest_balances (b # bs) m order =
     latest_balances bs (Mapping.update (balance_key b) b m)
       (if Mapping.lookup m (balance_key b) = None then order @ [balance_key b] else order)"

definition balanceEvents :: "'d JournalEntry list \<Rightarrow> 'd Balance list" where
  "balanceEvents entries =
     (case latest_balances (concat (map je_Balances entries)) Mapping.empty [] of
        (m, order) \<Rightarrow> List.map_filter (Mapping.lookup m) order)"

end
