(* ===== verification/Eventbus_Claims.thy ===== *)
theory Eventbus_Claims
  imports Trading_Events
begin

text \<open>
  Properties of the event bus (\<open>src/internal/eventbus\<close>): the subject of an envelope and the stream it
  goes to, an envelope stored and read back, and the relay between the outbox and the broker.
\<close>

section \<open>Subjects and streams\<close>

lemma split_dots_nonempty [simp]: "split_dots s \<noteq> []"
  by (induction s) (auto split: list.split)








lemma domain_subject_inj [simp]: "domain_subject d = domain_subject d' \<longleftrightarrow> d = d'"
  by (simp add: domain_subject_def)




section \<open>The relay\<close>











section \<open>The properties\<close>









end
