(* ===== verification/Trading_Batch.thy ===== *)
theory Trading_Batch
  imports Trading_Events Matching_Apply
begin

text \<open>
  \<^verbatim>\<open>internal/trading/batch.go\<close>, the walk of one command: its ledger entry, the checks that answer it
  without the book, the book, and its writes. The code queues statements and sends them in batches;
  the model runs each statement when it is queued, which is the same sequence of statements, since
  nothing else runs between two of them. When a queued statement fails and a check the code makes
  before sending fails too, the model reports the statement's error; either fails the group.
  A savepoint keeps the tables as they were.

  The resting orders the code shares through pointers are one store by id: \<open>g_orders\<close> while they rest,
  \<open>g_touched\<close> once this group has ended them. A failed group leaves no state behind but the runner's
  mark to rebuild (\<open>Trading_Group\<close>), so errors carry none.

  What comes from outside is in \<open>engine_env\<close>: the ids \<^verbatim>\<open>NewID\<close> draws, the identities the database
  gives and the clock, each by the group's attempt number and a count within it.
\<close>

section \<open>The runner and its surroundings\<close>

record engine_env =
  ee_ledger :: LedgerService
  ee_newID :: "nat \<Rightarrow> nat \<Rightarrow> go_time \<Rightarrow> string"
  ee_entryID :: "nat \<Rightarrow> nat \<Rightarrow> int"
  ee_outboxID :: "nat \<Rightarrow> nat \<Rightarrow> int"
  ee_now :: "nat \<Rightarrow> nat \<Rightarrow> go_time"

text \<open>A request of the queue: one of the two commands, or a query of the book.\<close>

record 'd request =
  rq_place :: "'d PlaceOrderRequest option"
  rq_cancel :: "CancelRequest option"
  rq_depth :: int
  rq_query :: bool
  rq_trace :: "(string \<times> string) list"

record 'd response =
  rp_result :: "'d PlaceOrderResult option"
  rp_depth :: "'d Depth option"
  rp_snapshot :: "'d Snapshot option"
  rp_err :: "trading_error option"

definition err_response :: "trading_error \<Rightarrow> 'd response" where
  "err_response e = \<lparr>rp_result = None, rp_depth = None, rp_snapshot = None, rp_err = Some e\<rparr>"

definition ok_response :: "'d trading_Order \<Rightarrow> 'd trading_Trade list \<Rightarrow> bool \<Rightarrow> 'd response" where
  "ok_response x ts replayed =
     \<lparr>rp_result = Some \<lparr>rs_Order = x, rs_Trades = ts, rs_Replayed = replayed\<rparr>, rp_depth = None, rp_snapshot = None, rp_err = None\<rparr>"

record 'd runner =
  rn_symbol :: string
  rn_mid :: string
  rn_tenant :: string
  rn_batchSize :: nat
  rn_book :: "'d Book option"
  rn_seq :: u64
  rn_dirty :: bool
  rn_orders :: "(string, 'd trading_Order) mapping"
  rn_touched :: "(string, 'd trading_Order) mapping"
  rn_pending :: "'d request option"
  rn_beforeCommit :: "(string \<Rightarrow> nat \<Rightarrow> bool) option"
  rn_attempt :: nat

text \<open>The state of a group: the tables inside its transaction, what it drew, the book, the orders, the sequence.\<close>

record 'd grp =
  g_db :: tdb
  g_draws :: nat
  g_entries :: nat
  g_book :: "'d Book"
  g_orders :: "(string, 'd trading_Order) mapping"
  g_touched :: "(string, 'd trading_Order) mapping"
  g_next :: u64

section \<open>Ledger entries on their way\<close>

record 'd flight =
  ff_pe :: "'d PendingEntry"
  ff_locked :: "Locked option"
  ff_applied :: "BalanceRow list option"
  ff_entry :: "'d JournalEntry option"

definition new_flight :: "'d PendingEntry \<Rightarrow> 'd flight" where
  "new_flight pe = \<lparr>ff_pe = pe, ff_locked = None, ff_applied = None, ff_entry = None\<rparr>"

text \<open>The only row of the first batch that can clash is the entry's own.\<close>

definition locks_error :: "sql_error \<Rightarrow> stmt_error" where
  "locks_error e = (case e of CheckViolation \<Rightarrow> CheckFailed | OtherSqlError \<Rightarrow> UniqueViolation)"

definition apply_error :: "sql_error \<Rightarrow> stmt_error" where
  "apply_error e = (case e of CheckViolation \<Rightarrow> CheckFailed | OtherSqlError \<Rightarrow> OtherStatement)"

definition BeginHold :: "'d decimal_pkg \<Rightarrow> 'd HoldParams \<Rightarrow> ledger_error + 'd flight" where
  "BeginHold D p =
     (case holdEntry D p of
        Inl e \<Rightarrow> Inl e
      | Inr e \<Rightarrow> (case Service_Begin D e of Inl err \<Rightarrow> Inl err | Inr pe \<Rightarrow> Inr (new_flight pe)))"

definition BeginRelease :: "'d decimal_pkg \<Rightarrow> 'd HoldParams \<Rightarrow> ledger_error + 'd flight" where
  "BeginRelease D p =
     (case releaseEntry D p of
        Inl e \<Rightarrow> Inl e
      | Inr e \<Rightarrow> (case Service_Begin D e of Inl err \<Rightarrow> Inl err | Inr pe \<Rightarrow> Inr (new_flight pe)))"

definition BeginSettle :: "'d decimal_pkg \<Rightarrow> LedgerService \<Rightarrow> 'd SettleParams \<Rightarrow> ledger_error + 'd flight \<times> 'd SettleResult" where
  "BeginSettle D s p =
     (case settleEntry D s p of
        Inl e \<Rightarrow> Inl e
      | Inr (e, res) \<Rightarrow> (case Service_Begin D e of Inl err \<Rightarrow> Inl err | Inr pe \<Rightarrow> Inr (new_flight pe, res)))"

definition QueueLocks :: "engine_env \<Rightarrow> nat \<Rightarrow> 'd flight \<Rightarrow> 'd grp \<Rightarrow> trading_error + 'd flight \<times> 'd grp" where
  "QueueLocks env att f g =
     (case send_locks (ee_ledger env) (ee_entryID env att (g_entries g)) (ff_pe f) (db_ledger (g_db g)) of
        (L, Inl e) \<Rightarrow> Inl (errStatement (locks_error e))
      | (L, Inr lk) \<Rightarrow>
          Inr (f\<lparr>ff_locked := Some lk\<rparr>, g\<lparr>g_db := (g_db g)\<lparr>db_ledger := L\<rparr>, g_entries := Suc (g_entries g)\<rparr>))"

text \<open>Whether the key was used before; the entry found then is not needed. Without locks the pointer is nil.\<close>

definition flight_check :: "'d decimal_pkg \<Rightarrow> engine_env \<Rightarrow> 'd flight \<Rightarrow> 'd grp \<Rightarrow> ledger_error + bool" where
  "flight_check D env f g =
     (case ff_locked f of
        None \<Rightarrow> Inl errNoRow
      | Some lk \<Rightarrow>
          (case Pending_Check D (ee_ledger env) (db_ledger (g_db g)) (ff_pe f) lk of
             Inl e \<Rightarrow> Inl e | Inr None \<Rightarrow> Inr False | Inr (Some _) \<Rightarrow> Inr True))"

text \<open>The entry's row; only an entry whose locks inserted one is applied.\<close>

definition locked_row :: "'d flight \<Rightarrow> EntryRow option" where
  "locked_row f = (case ff_locked f of None \<Rightarrow> None | Some lk \<Rightarrow> lk_entry lk)"

definition QueueApply :: "'d decimal_pkg \<Rightarrow> 'd flight \<Rightarrow> 'd grp \<Rightarrow> trading_error + 'd flight \<times> 'd grp" where
  "QueueApply D f g =
     (case locked_row f of
        Some row \<Rightarrow>
          (case send_apply D (er_ID row) (ff_pe f) (db_ledger (g_db g)) of
             (L, Inl e) \<Rightarrow> Inl (errStatement (apply_error e))
           | (L, Inr rows) \<Rightarrow> Inr (f\<lparr>ff_applied := rows\<rparr>, g\<lparr>g_db := (g_db g)\<lparr>db_ledger := L\<rparr>\<rparr>))
      | None \<Rightarrow> Inl (errStatement OtherStatement))"

definition flight_Finish :: "'d decimal_pkg \<Rightarrow> 'd flight \<Rightarrow> trading_error + 'd flight" where
  "flight_Finish D f =
     (case locked_row f of
        Some row \<Rightarrow>
          (case Pending_Finish D row (ff_pe f) (ff_applied f) of
             Inl e \<Rightarrow> Inl (errLedger e) | Inr je \<Rightarrow> Inr (f\<lparr>ff_entry := Some je\<rparr>))
      | None \<Rightarrow> Inl (errLedger errNoRow))"

section \<open>Commands\<close>

text \<open>\<open>cm_sp\<close> is the open savepoint: the tables when it was set. A result that was read back is a row, or none.\<close>

record 'd command =
  cm_req :: "'d request"
  cm_now :: go_time
  cm_existing :: "OrderRow option"
  cm_account :: "AccountRow option"
  cm_done :: bool
  cm_resp :: "'d response"
  cm_order :: "'d trading_Order"
  cm_seq :: "u64 option"
  cm_sp :: "tdb option"
  cm_hold :: "'d flight option"
  cm_release :: "'d flight option"
  cm_settles :: "'d flight list"
  cm_releases :: "'d flight list"
  cm_trades :: "'d trading_Trade list"
  cm_makers :: "string list"
  cm_events :: "'d eventBuilder option"
  cm_rejected :: "OrderRow option"
  cm_progress :: "OrderRow option list"
  cm_touched :: "string list"
  cm_final :: "OrderRow option"
  cm_deferred :: "string option"

text \<open>The zero values.\<close>

definition zero_order :: "'d decimal_pkg \<Rightarrow> 'd trading_Order" where
  "zero_order D =
     \<lparr>od_ID = [], od_TenantID = [], od_AccountID = [], od_MarketID = [], od_MarketSymbol = [], od_ClientOrderID = [],
      od_Side = Side_other 0, od_Type = OrderType_other 0, od_TimeInForce = TIF_default, od_Price = None, od_Qty = None,
      od_QuoteQty = None, od_FilledQty = Zero D, od_FilledQuote = Zero D, od_RemainingQty = Zero D, od_HoldAsset = [],
      od_HoldAmount = Zero D, od_HoldRemaining = Zero D, od_Status = Status_other [], od_RejectReason = [],
      od_CancelReason = [], od_Seq = None, od_CorrelationID = [], od_CreatedAt = 0\<rparr>"

definition new_command :: "'d decimal_pkg \<Rightarrow> 'd request \<Rightarrow> go_time \<Rightarrow> 'd command" where
  "new_command D req now =
     \<lparr>cm_req = req, cm_now = now, cm_existing = None, cm_account = None, cm_done = False,
      cm_resp = \<lparr>rp_result = None, rp_depth = None, rp_snapshot = None, rp_err = None\<rparr>, cm_order = zero_order D, cm_seq = None,
      cm_sp = None, cm_hold = None, cm_release = None, cm_settles = [], cm_releases = [], cm_trades = [], cm_makers = [],
      cm_events = None, cm_rejected = None, cm_progress = [], cm_touched = [], cm_final = None, cm_deferred = None\<rparr>"

text \<open>A command is a place when its place pointer is set, and a cancel otherwise.\<close>

definition request_key :: "'d request \<Rightarrow> string" where
  "request_key req =
     (case rq_place req of
        Some p \<Rightarrow> ''p:'' @ pq_AccountID p @ '':'' @ pq_ClientOrderID p
      | None \<Rightarrow> (case rq_cancel req of Some q \<Rightarrow> ''c:'' @ cq_OrderID q | None \<Rightarrow> []))"

definition kind :: "'d request \<Rightarrow> string" where
  "kind req =
     (if rq_query req \<and> rq_depth req < 0 then ''snapshot'' else if rq_query req then ''depth''
      else if rq_cancel req \<noteq> None then ''cancel'' else ''place'')"

definition positive_or_nil :: "'d decimal_pkg \<Rightarrow> 'd amount \<Rightarrow> 'd amount option" where
  "positive_or_nil D a = (if Amount_IsPositive D a then Some a else None)"

definition build :: "'d decimal_pkg \<Rightarrow> engine_env \<Rightarrow> 'd runner \<Rightarrow> 'd registry_Market \<Rightarrow> 'd command \<Rightarrow> 'd grp \<Rightarrow> 'd command \<times> 'd grp" where
  "build D env r m c g =
     (case rq_place (cm_req c) of
        None \<Rightarrow> (c, g)
      | Some req \<Rightarrow>
          (c\<lparr>cm_order :=
              \<lparr>od_ID = ee_newID env (rn_attempt r) (g_draws g) (cm_now c), od_TenantID = rn_tenant r, od_AccountID = pq_AccountID req,
               od_MarketID = mk_ID m, od_MarketSymbol = mk_Symbol m, od_ClientOrderID = pq_ClientOrderID req,
               od_Side = pq_Side req, od_Type = pq_Type req, od_TimeInForce = effectiveTIF req,
               od_Price = positive_or_nil D (pq_Price req), od_Qty = positive_or_nil D (pq_Qty req),
               od_QuoteQty = positive_or_nil D (pq_QuoteQty req), od_FilledQty = Zero D, od_FilledQuote = Zero D,
               od_RemainingQty = pq_Qty req, od_HoldAsset = fst (holdFor D m req), od_HoldAmount = Zero D,
               od_HoldRemaining = Zero D, od_Status = Status_other [], od_RejectReason = [], od_CancelReason = [], od_Seq = None,
               od_CorrelationID = pq_CorrelationID req, od_CreatedAt = cm_now c\<rparr>\<rparr>,
           g\<lparr>g_draws := Suc (g_draws g)\<rparr>))"

definition queuePreReads :: "'d runner \<Rightarrow> 'd grp \<Rightarrow> 'd command \<Rightarrow> 'd command" where
  "queuePreReads r g c =
     (case rq_place (cm_req c) of
        Some req \<Rightarrow>
          c\<lparr>cm_existing := GetOrderByClientID (g_db g) (rn_tenant r) (pq_AccountID req) (pq_ClientOrderID req),
            cm_account := GetAccount (db_ledger (g_db g)) (pq_AccountID req)\<rparr>
      | None \<Rightarrow>
          (case rq_cancel (cm_req c) of
             Some q \<Rightarrow> c\<lparr>cm_existing := GetOrder (g_db g) (cq_OrderID q)\<rparr>
           | None \<Rightarrow> c))"

definition order_ref :: "string \<Rightarrow> Ref" where
  "order_ref i = \<lparr>ref_Type = ''order'', ref_ID = i\<rparr>"

definition hold_params :: "'d decimal_pkg \<Rightarrow> 'd registry_Market \<Rightarrow> 'd trading_Order \<Rightarrow> 'd PlaceOrderRequest \<Rightarrow> 'd HoldParams" where
  "hold_params D m x req =
     \<lparr>hp_AccountID = od_AccountID x, hp_Asset = fst (holdFor D m req), hp_Amount = snd (holdFor D m req),
      hp_IdempotencyKey = ''hold:order:'' @ od_ID x, hp_Ref = order_ref (od_ID x), hp_CorrelationID = pq_CorrelationID req\<rparr>"

definition release_params :: "'d trading_Order \<Rightarrow> u64 \<Rightarrow> string \<Rightarrow> 'd HoldParams" where
  "release_params x seq correlation =
     \<lparr>hp_AccountID = od_AccountID x, hp_Asset = od_HoldAsset x, hp_Amount = od_HoldRemaining x,
      hp_IdempotencyKey = ''release:order:'' @ od_ID x @ '':'' @ digits (unat seq), hp_Ref = order_ref (od_ID x),
      hp_CorrelationID = correlation\<rparr>"

definition prepare :: "'d decimal_pkg \<Rightarrow> 'd registry_Market \<Rightarrow> 'd grp \<Rightarrow> 'd command \<Rightarrow> trading_error + 'd command" where
  "prepare D m g c =
     (case rq_place (cm_req c) of
        Some req \<Rightarrow>
          (case BeginHold D (hold_params D m (cm_order c) req) of
             Inl e \<Rightarrow> if e = ErrInvalidEntry then Inr c else Inl (errLedger e)
           | Inr f \<Rightarrow> Inr (c\<lparr>cm_hold := Some f\<rparr>))
      | None \<Rightarrow>
          (case rq_cancel (cm_req c) of
             None \<Rightarrow> Inr c
           | Some q \<Rightarrow>
               (case Mapping.lookup (g_orders g) (cq_OrderID q) of
                  None \<Rightarrow> Inr c
                | Some x \<Rightarrow>
                    (if \<not> Amount_IsPositive D (od_HoldRemaining x) then Inr (c\<lparr>cm_order := x\<rparr>)
                     else case BeginRelease D (release_params x (g_next g + 1) (cq_CorrelationID q)) of
                            Inl e \<Rightarrow> Inl (errLedger e)
                          | Inr f \<Rightarrow> Inr (c\<lparr>cm_order := x, cm_release := Some f\<rparr>)))))"

definition queue_flight :: "engine_env \<Rightarrow> nat \<Rightarrow> 'd flight option \<Rightarrow> 'd grp \<Rightarrow> trading_error + 'd flight option \<times> 'd grp" where
  "queue_flight env att f g =
     (case f of
        None \<Rightarrow> Inr (None, g)
      | Some x \<Rightarrow> (case QueueLocks env att x g of Inl e \<Rightarrow> Inl e | Inr (x1, g1) \<Rightarrow> Inr (Some x1, g1)))"

definition queueLocks :: "engine_env \<Rightarrow> nat \<Rightarrow> 'd command \<Rightarrow> 'd grp \<Rightarrow> trading_error + 'd command \<times> 'd grp" where
  "queueLocks env att c g =
     (let c1 = c\<lparr>cm_sp := Some (g_db g)\<rparr>
      in if rq_place (cm_req c) \<noteq> None
         then (case queue_flight env att (cm_hold c) g of Inl e \<Rightarrow> Inl e | Inr (f, g1) \<Rightarrow> Inr (c1\<lparr>cm_hold := f\<rparr>, g1))
         else (case queue_flight env att (cm_release c) g of Inl e \<Rightarrow> Inl e | Inr (f, g1) \<Rightarrow> Inr (c1\<lparr>cm_release := f\<rparr>, g1)))"

text \<open>Back to the savepoint, which is then gone.\<close>

definition rollback_sp :: "'d command \<Rightarrow> 'd grp \<Rightarrow> 'd command \<times> 'd grp" where
  "rollback_sp c g = (case cm_sp c of None \<Rightarrow> (c, g) | Some db \<Rightarrow> (c\<lparr>cm_sp := None\<rparr>, g\<lparr>g_db := db\<rparr>))"

definition queueRejected :: "'d decimal_pkg \<Rightarrow> 'd runner \<Rightarrow> 'd command \<Rightarrow> 'd grp \<Rightarrow> u64 option \<Rightarrow> trading_error + 'd command \<times> 'd grp" where
  "queueRejected D r c g seq =
     (case rollback_sp c g of
        (c1, g1) \<Rightarrow>
          (let x = (cm_order c1)\<lparr>od_Status := StatusRejected, od_Seq := seq, od_RemainingQty := Zero D, od_HoldAmount := Zero D,
                     od_HoldRemaining := Zero D\<rparr>
           in case InsertOrder (g_db g1) (insertParams D x) of
                Inl e \<Rightarrow> Inl (errStatement e)
              | Inr (db, row) \<Rightarrow>
                  Inr (c1\<lparr>cm_order := x, cm_rejected := Some row,
                      cm_events := Some (eb_add EventOrderRejected (od_AccountID x) PNone
                        \<lparr>eb_tenant = rn_tenant r, eb_market = od_MarketSymbol x, eb_now = cm_now c1,
                         eb_correlation = od_CorrelationID x, eb_seq = seq, eb_items = []\<rparr>)\<rparr>,
                    g1\<lparr>g_db := db\<rparr>)))"

section \<open>What the pre-reads decide\<close>

definition answered :: "'d response \<Rightarrow> 'd command \<Rightarrow> 'd command" where
  "answered resp c = c\<lparr>cm_done := True, cm_resp := resp\<rparr>"

definition resolve_place :: "'d decimal_pkg \<Rightarrow> engine_env \<Rightarrow> 'd registry_Market \<Rightarrow> 'd grp \<Rightarrow> 'd command \<Rightarrow> 'd PlaceOrderRequest \<Rightarrow>
    trading_error + 'd command" where
  "resolve_place D env m g c req =
     (case cm_existing c of
        Some row \<Rightarrow>
          (case orderFromRow D row of
             Inl e \<Rightarrow> Inl e
           | Inr existing \<Rightarrow>
               (if \<not> sameAs D req existing then Inr (answered (err_response ErrClientOrderIDMismatch) c)
                else case tradesFromRows D (ListTradesByOrder (g_db g) (od_ID existing)) of
                       Inl e \<Rightarrow> Inl e
                     | Inr trades \<Rightarrow> Inr (answered (ok_response existing trades True) c)))
      | None \<Rightarrow>
          (case PendingAccount_Get (sv_tenant (ee_ledger env)) (cm_account c) of
             Inl e \<Rightarrow> if e = ErrAccountNotFound then Inr (answered (err_response ErrInvalidRequest) c) else Inl (errLedger e)
           | Inr account \<Rightarrow>
               (case Policy_NewOrder m account of
                  None \<Rightarrow> Inr c
                | Some reason \<Rightarrow>
                    Inr (c\<lparr>cm_done := True, cm_order := (cm_order c)\<lparr>od_Status := StatusRejected, od_RejectReason := Reason_String reason\<rparr>\<rparr>))))"

definition resolve_cancel :: "'d decimal_pkg \<Rightarrow> 'd runner \<Rightarrow> 'd registry_Market \<Rightarrow> 'd grp \<Rightarrow> 'd command \<Rightarrow> CancelRequest \<Rightarrow>
    trading_error + 'd command" where
  "resolve_cancel D r m g c req =
     (case cm_existing c of
        None \<Rightarrow> Inr (answered (err_response ErrOrderNotFound) c)
      | Some row \<Rightarrow>
          (case orderFromRow D row of
             Inl e \<Rightarrow> Inl e
           | Inr current \<Rightarrow>
               (if od_AccountID current \<noteq> cq_AccountID req \<or> od_TenantID current \<noteq> rn_tenant r
                then Inr (answered (err_response ErrOrderNotFound) c)
                else if Terminal (od_Status current) then Inr (answered (ok_response current [] False) c)
                else if Policy_Cancel m \<noteq> None then Inr (answered (err_response ErrMarketNotFound) c)
                else if Mapping.lookup (g_orders g) (od_ID current) = None then Inl ErrBookInconsistent
                else Inr c)))"

definition resolve :: "'d decimal_pkg \<Rightarrow> engine_env \<Rightarrow> 'd runner \<Rightarrow> 'd registry_Market \<Rightarrow> 'd grp \<Rightarrow> 'd command \<Rightarrow> trading_error + 'd command" where
  "resolve D env r m g c =
     (if cm_done c then Inr c
      else case rq_place (cm_req c) of
             Some req \<Rightarrow> resolve_place D env m g c req
           | None \<Rightarrow> (case rq_cancel (cm_req c) of Some req \<Rightarrow> resolve_cancel D r m g c req | None \<Rightarrow> Inr c))"

section \<open>The walk of a command\<close>

text \<open>An order is kept where it is: among the resting ones, or among those this group ended.\<close>

definition put_order :: "'d trading_Order \<Rightarrow> 'd grp \<Rightarrow> 'd grp" where
  "put_order x g = g\<lparr>g_orders := Mapping.update (od_ID x) x (g_orders g)\<rparr>"

definition store_back :: "'d trading_Order \<Rightarrow> 'd grp \<Rightarrow> 'd grp" where
  "store_back x g =
     (if Mapping.lookup (g_orders g) (od_ID x) \<noteq> None then put_order x g
      else if Mapping.lookup (g_touched g) (od_ID x) \<noteq> None
      then g\<lparr>g_touched := Mapping.update (od_ID x) x (g_touched g)\<rparr>
      else g)"

text \<open>An order that has ended leaves the cache.\<close>

definition end_order :: "'d trading_Order \<Rightarrow> 'd grp \<Rightarrow> 'd grp" where
  "end_order x g =
     g\<lparr>g_orders := Mapping.delete (od_ID x) (g_orders g), g_touched := Mapping.update (od_ID x) x (g_touched g)\<rparr>"

text \<open>Any answer but success is a disagreement of book and database.\<close>

definition checkEntry :: "'d decimal_pkg \<Rightarrow> engine_env \<Rightarrow> 'd flight \<Rightarrow> 'd grp \<Rightarrow> trading_error option" where
  "checkEntry D env f g = (case flight_check D env f g of Inr False \<Rightarrow> None | _ \<Rightarrow> Some ErrBookInconsistent)"

text \<open>The maker's order, kept in the list of makers the first time it is met.\<close>

definition loadMaker :: "string \<Rightarrow> 'd command \<Rightarrow> 'd grp \<Rightarrow> trading_error + 'd command \<times> 'd trading_Order" where
  "loadMaker i c g =
     (case Mapping.lookup (g_orders g) i of
        None \<Rightarrow> Inl ErrBookInconsistent
      | Some x \<Rightarrow> Inr (if i \<in> set (cm_makers c) then c else c\<lparr>cm_makers := cm_makers c @ [i]\<rparr>, x))"

definition market_fees :: "'d registry_Market \<Rightarrow> FeeParams" where
  "market_fees m =
     \<lparr>fp_MakerBps = mk_MakerBps m, fp_TakerBps = mk_TakerBps m, fp_BaseScale = mk_BaseScale m, fp_QuoteScale = mk_QuoteScale m\<rparr>"

definition buyer_limit :: "'d decimal_pkg \<Rightarrow> 'd trading_Order \<Rightarrow> 'd amount" where
  "buyer_limit D x = (case od_Price x of Some p \<Rightarrow> if od_Type x = Limit then p else Zero D | None \<Rightarrow> Zero D)"

definition settle_params :: "'d decimal_pkg \<Rightarrow> 'd registry_Market \<Rightarrow> string \<Rightarrow> 'd Trade \<Rightarrow> 'd trading_Order \<Rightarrow> 'd trading_Order \<Rightarrow> 'd SettleParams" where
  "settle_params D m tradeID e taker maker =
     (let buyerIsTaker = (tr_TakerSide e = Buy); buyer = (if buyerIsTaker then taker else maker); seller = (if buyerIsTaker then maker else taker)
      in \<lparr>sp_TradeID = tradeID, sp_IdempotencyKey = ''settle:trade:'' @ tradeID, sp_CorrelationID = od_CorrelationID taker,
          sp_BuyerAccountID = od_AccountID buyer, sp_SellerAccountID = od_AccountID seller, sp_BuyerIsTaker = buyerIsTaker,
          sp_BaseAsset = mk_BaseSymbol m, sp_QuoteAsset = mk_QuoteSymbol m, sp_Price = tr_Price e, sp_Qty = tr_Qty e,
          sp_QuoteQty = tr_QuoteQty e, sp_BuyerLimitPrice = buyer_limit D buyer, sp_Fees = market_fees m\<rparr>)"

text \<open>What the two orders of a trade have frozen after it.\<close>

definition buyer_after :: "'d decimal_pkg \<Rightarrow> 'd Trade \<Rightarrow> 'd SettleResult \<Rightarrow> 'd trading_Order \<Rightarrow> 'd trading_Order" where
  "buyer_after D e res x = x\<lparr>od_HoldRemaining := Amount_Sub D (Amount_Sub D (od_HoldRemaining x) (tr_QuoteQty e)) (sr_Release res)\<rparr>"

definition seller_after :: "'d decimal_pkg \<Rightarrow> 'd Trade \<Rightarrow> 'd trading_Order \<Rightarrow> 'd trading_Order" where
  "seller_after D e x = x\<lparr>od_HoldRemaining := Amount_Sub D (od_HoldRemaining x) (tr_Qty e)\<rparr>"

definition trade_of :: "'d runner \<Rightarrow> 'd registry_Market \<Rightarrow> string \<Rightarrow> go_time \<Rightarrow> u64 \<Rightarrow> 'd Trade \<Rightarrow> 'd SettleResult \<Rightarrow> 'd trading_Order \<Rightarrow>
    'd trading_Order \<Rightarrow> 'd trading_Trade" where
  "trade_of r m tradeID now seq e res taker maker =
     \<lparr>td_ID = tradeID, td_TenantID = rn_tenant r, td_MarketID = mk_ID m, td_MarketSymbol = mk_Symbol m, td_Seq = seq,
      td_Index = tr_Index e, td_MakerOrderID = od_ID maker, td_TakerOrderID = od_ID taker, td_MakerAccountID = od_AccountID maker,
      td_TakerAccountID = od_AccountID taker, td_TakerSide = tr_TakerSide e, td_Price = tr_Price e, td_Qty = tr_Qty e,
      td_QuoteQty = tr_QuoteQty e, td_MakerFee = sr_MakerFee res,
      td_MakerFeeAsset = (if tr_TakerSide e = Buy then mk_QuoteSymbol m else mk_BaseSymbol m),
      td_TakerFee = sr_TakerFee res, td_TakerFeeAsset = (if tr_TakerSide e = Buy then mk_BaseSymbol m else mk_QuoteSymbol m),
      td_CreatedAt = now\<rparr>"

text \<open>The trade, its entry, and the two orders with less frozen.\<close>

definition beginSettle :: "'d decimal_pkg \<Rightarrow> engine_env \<Rightarrow> 'd runner \<Rightarrow> 'd registry_Market \<Rightarrow> go_time \<Rightarrow> u64 \<Rightarrow> 'd Trade \<Rightarrow>
    'd trading_Order \<Rightarrow> 'd trading_Order \<Rightarrow> 'd grp \<Rightarrow>
    trading_error + 'd trading_Trade \<times> 'd flight \<times> 'd trading_Order \<times> 'd trading_Order \<times> 'd grp" where
  "beginSettle D env r m now seq e taker maker g =
     (let tradeID = ee_newID env (rn_attempt r) (g_draws g) now; g1 = g\<lparr>g_draws := Suc (g_draws g)\<rparr>
      in case BeginSettle D (ee_ledger env) (settle_params D m tradeID e taker maker) of
           Inl err \<Rightarrow> Inl (errLedger err)
         | Inr (f, res) \<Rightarrow>
             (let taker1 = (if tr_TakerSide e = Buy then buyer_after D e res taker else seller_after D e taker);
                  maker1 = (if tr_TakerSide e = Buy then seller_after D e maker else buyer_after D e res maker)
              in if Amount_IsNegative D (od_HoldRemaining taker1) \<or> Amount_IsNegative D (od_HoldRemaining maker1) then Inl ErrBookInconsistent
                 else Inr (trade_of r m tradeID now seq e res taker maker, f, taker1, maker1, g1)))"

text \<open>The release of what an order still has frozen, with its locks; the order then has nothing frozen.\<close>

definition beginRelease :: "'d decimal_pkg \<Rightarrow> engine_env \<Rightarrow> 'd runner \<Rightarrow> 'd trading_Order \<Rightarrow> u64 \<Rightarrow> string \<Rightarrow> 'd command \<Rightarrow> 'd grp \<Rightarrow>
    trading_error + 'd trading_Order \<times> 'd command \<times> 'd grp" where
  "beginRelease D env r x seq correlation c g =
     (case BeginRelease D (release_params x seq correlation) of
        Inl e \<Rightarrow> Inl (errLedger e)
      | Inr f \<Rightarrow>
          (case QueueLocks env (rn_attempt r) f g of
             Inl e \<Rightarrow> Inl e
           | Inr (f1, g1) \<Rightarrow> Inr (x\<lparr>od_HoldRemaining := Zero D\<rparr>, c\<lparr>cm_releases := cm_releases c @ [f1]\<rparr>, g1)))"

text \<open>Released only when something is left.\<close>

definition release_rest :: "'d decimal_pkg \<Rightarrow> engine_env \<Rightarrow> 'd runner \<Rightarrow> 'd trading_Order \<Rightarrow> u64 \<Rightarrow> string \<Rightarrow> 'd command \<Rightarrow> 'd grp \<Rightarrow>
    trading_error + 'd trading_Order \<times> 'd command \<times> 'd grp" where
  "release_rest D env r x seq correlation c g =
     (if Amount_IsPositive D (od_HoldRemaining x) then beginRelease D env r x seq correlation c g else Inr (x, c, g))"

definition add_event :: "string \<Rightarrow> string \<Rightarrow> 'd payload \<Rightarrow> 'd command \<Rightarrow> 'd command" where
  "add_event ty account p c = c\<lparr>cm_events := map_option (eb_add ty account p) (cm_events c)\<rparr>"

definition trade_payload :: "'d registry_Market \<Rightarrow> u64 \<Rightarrow> 'd trading_Trade \<Rightarrow> 'd payload" where
  "trade_payload m seq t =
     PTrade \<lparr>tx_TradeID = td_ID t, tx_Market = mk_Symbol m, tx_MakerOrderID = td_MakerOrderID t, tx_TakerOrderID = td_TakerOrderID t,
       tx_MakerAccountID = td_MakerAccountID t, tx_TakerAccountID = td_TakerAccountID t, tx_TakerSide = Side_String (td_TakerSide t),
       tx_Price = td_Price t, tx_Qty = td_Qty t, tx_QuoteQty = td_QuoteQty t, tx_MakerFee = td_MakerFee t,
       tx_MakerFeeAsset = td_MakerFeeAsset t, tx_TakerFee = td_TakerFee t, tx_TakerFeeAsset = td_TakerFeeAsset t, tx_Seq = seq\<rparr>"

definition accepted_payload :: "'d registry_Market \<Rightarrow> u64 \<Rightarrow> 'd trading_Order \<Rightarrow> 'd payload" where
  "accepted_payload m seq x =
     PAccepted \<lparr>oa_OrderID = od_ID x, oa_ClientOrderID = od_ClientOrderID x, oa_AccountID = od_AccountID x, oa_Market = mk_Symbol m,
       oa_Side = Side_String (od_Side x), oa_Type = OrderType_String (od_Type x), oa_TimeInForce = TimeInForce_String (od_TimeInForce x),
       oa_Price = od_Price x, oa_Qty = od_Qty x, oa_QuoteQty = od_QuoteQty x, oa_Seq = seq\<rparr>"

definition updated_payload :: "'d registry_Market \<Rightarrow> u64 \<Rightarrow> 'd trading_Order \<Rightarrow> 'd payload" where
  "updated_payload m seq x =
     PUpdated \<lparr>ou_OrderID = od_ID x, ou_AccountID = od_AccountID x, ou_Market = mk_Symbol m, ou_Status = od_Status x,
       ou_FilledQty = od_FilledQty x, ou_FilledQuote = od_FilledQuote x, ou_RemainingQty = od_RemainingQty x, ou_Seq = seq\<rparr>"

definition filled_payload :: "'d registry_Market \<Rightarrow> u64 \<Rightarrow> 'd trading_Order \<Rightarrow> 'd payload" where
  "filled_payload m seq x =
     PFilled \<lparr>of_OrderID = od_ID x, of_AccountID = od_AccountID x, of_Market = mk_Symbol m, of_FilledQty = od_FilledQty x,
       of_FilledQuote = od_FilledQuote x, of_Seq = seq\<rparr>"

definition cancelled_payload :: "'d registry_Market \<Rightarrow> u64 \<Rightarrow> 'd Cancelled \<Rightarrow> 'd amount \<Rightarrow> 'd trading_Order \<Rightarrow> 'd payload" where
  "cancelled_payload m seq e released x =
     PCancelled \<lparr>ox_OrderID = od_ID x, ox_AccountID = od_AccountID x, ox_Market = mk_Symbol m, ox_Reason = CancelReason_text (cn_Reason e),
       ox_FilledQty = cn_FilledQty e, ox_FilledQuote = cn_FilledQuote e, ox_RemainingQty = cn_RemainingQty e,
       ox_RemainingQuote = cn_RemainingQuote e, ox_Released = released, ox_ReleasedAsset = od_HoldAsset x, ox_Seq = seq\<rparr>"

text \<open>The events of the book, one by one; the taker is the order of the command.\<close>

definition walk_trade :: "'d decimal_pkg \<Rightarrow> engine_env \<Rightarrow> 'd runner \<Rightarrow> 'd registry_Market \<Rightarrow> u64 \<Rightarrow> 'd Trade \<Rightarrow> 'd command \<Rightarrow> 'd grp \<Rightarrow>
    trading_error + 'd command \<times> 'd grp" where
  "walk_trade D env r m seq e c g =
     (case loadMaker (tr_MakerOrderID e) c g of
        Inl err \<Rightarrow> Inl err
      | Inr (c1, maker) \<Rightarrow>
          (case beginSettle D env r m (cm_now c) seq e (cm_order c1) maker g of
             Inl err \<Rightarrow> Inl err
           | Inr (t, f, taker1, maker1, g1) \<Rightarrow>
               (case QueueLocks env (rn_attempt r) f (put_order maker1 g1) of
                  Inl err \<Rightarrow> Inl err
                | Inr (f1, g2) \<Rightarrow>
                    (case InsertTrade (g_db g2) (tradeParams D t) of
                       Inl err \<Rightarrow> Inl (errStatement err)
                     | Inr db \<Rightarrow>
                         Inr (add_event EventTradeExecuted [] (trade_payload m seq t)
                               (c1\<lparr>cm_order := taker1, cm_settles := cm_settles c1 @ [f1], cm_trades := cm_trades c1 @ [t]\<rparr>),
                              g2\<lparr>g_db := db\<rparr>)))))"

text \<open>The order an event is about, and its new value: the taker's, or a maker's.\<close>

definition event_order :: "string \<Rightarrow> 'd command \<Rightarrow> 'd grp \<Rightarrow> trading_error + 'd command \<times> 'd trading_Order" where
  "event_order i c g = (if i = od_ID (cm_order c) then Inr (c, cm_order c) else loadMaker i c g)"

definition set_event_order :: "string \<Rightarrow> 'd trading_Order \<Rightarrow> 'd command \<Rightarrow> 'd grp \<Rightarrow> 'd command \<times> 'd grp" where
  "set_event_order i x c g = (if i = od_ID (cm_order c) then (c\<lparr>cm_order := x\<rparr>, g) else (c, put_order x g))"

definition walk_updated :: "'d registry_Market \<Rightarrow> u64 \<Rightarrow> 'd Updated \<Rightarrow> 'd command \<Rightarrow> 'd grp \<Rightarrow> trading_error + 'd command \<times> 'd grp" where
  "walk_updated m seq e c g =
     (case event_order (up_OrderID e) c g of
        Inl err \<Rightarrow> Inl err
      | Inr (c1, x) \<Rightarrow>
          (let x1 = x\<lparr>od_FilledQty := up_FilledQty e, od_FilledQuote := up_FilledQuote e, od_RemainingQty := up_RemainingQty e,
                      od_Status := StatusPartiallyFilled\<rparr>
           in case set_event_order (up_OrderID e) x1 c1 g of
                (c2, g1) \<Rightarrow> Inr (add_event EventOrderUpdated (od_AccountID x1) (updated_payload m seq x1) c2, g1)))"

definition walk_filled :: "'d decimal_pkg \<Rightarrow> engine_env \<Rightarrow> 'd runner \<Rightarrow> 'd registry_Market \<Rightarrow> u64 \<Rightarrow> string \<Rightarrow> 'd Filled \<Rightarrow> 'd command \<Rightarrow> 'd grp \<Rightarrow>
    trading_error + 'd command \<times> 'd grp" where
  "walk_filled D env r m seq correlation e c g =
     (case event_order (fi_OrderID e) c g of
        Inl err \<Rightarrow> Inl err
      | Inr (c1, x) \<Rightarrow>
          (let x1 = x\<lparr>od_FilledQty := fi_FilledQty e, od_FilledQuote := fi_FilledQuote e, od_RemainingQty := Zero D, od_Status := StatusFilled\<rparr>
           in case release_rest D env r x1 seq correlation c1 g of
                Inl err \<Rightarrow> Inl err
              | Inr (x2, c2, g1) \<Rightarrow>
                  (case set_event_order (fi_OrderID e) x2 c2 g1 of
                     (c3, g2) \<Rightarrow> Inr (add_event EventOrderFilled (od_AccountID x2) (filled_payload m seq x2) c3, g2))))"

definition walk_cancelled :: "'d decimal_pkg \<Rightarrow> engine_env \<Rightarrow> 'd runner \<Rightarrow> 'd registry_Market \<Rightarrow> u64 \<Rightarrow> string \<Rightarrow> 'd Cancelled \<Rightarrow> 'd command \<Rightarrow> 'd grp \<Rightarrow>
    trading_error + 'd command \<times> 'd grp" where
  "walk_cancelled D env r m seq correlation e c g =
     (let x1 = (cm_order c)\<lparr>od_FilledQty := cn_FilledQty e, od_FilledQuote := cn_FilledQuote e, od_RemainingQty := cn_RemainingQty e,
                 od_Status := StatusCancelled, od_CancelReason := CancelReason_text (cn_Reason e)\<rparr>;
          released = od_HoldRemaining x1
      in case release_rest D env r x1 seq correlation c g of
           Inl err \<Rightarrow> Inl err
         | Inr (x2, c1, g1) \<Rightarrow>
             Inr (add_event EventOrderCancelled (od_AccountID x2) (cancelled_payload m seq e released x2) (c1\<lparr>cm_order := x2\<rparr>), g1))"

fun walk_events :: "'d decimal_pkg \<Rightarrow> engine_env \<Rightarrow> 'd runner \<Rightarrow> 'd registry_Market \<Rightarrow> u64 \<Rightarrow> string \<Rightarrow> 'd Event list \<Rightarrow> 'd command \<Rightarrow> 'd grp \<Rightarrow>
    trading_error + 'd command \<times> 'd grp" where
  "walk_events D env r m seq correlation [] c g = Inr (c, g)"
| "walk_events D env r m seq correlation (ev # evs) c g =
     (case (case ev of
              EvTrade e \<Rightarrow> walk_trade D env r m seq e c g
            | EvUpdated e \<Rightarrow> walk_updated m seq e c g
            | EvFilled e \<Rightarrow> walk_filled D env r m seq correlation e c g
            | EvCancelled e \<Rightarrow> walk_cancelled D env r m seq correlation e c g
            | _ \<Rightarrow> Inl ErrBookInconsistent) of
        Inl err \<Rightarrow> Inl err
      | Inr (c1, g1) \<Rightarrow> walk_events D env r m seq correlation evs c1 g1)"

text \<open>Check the entries, then queue their writes.\<close>

fun apply_flights :: "'d decimal_pkg \<Rightarrow> engine_env \<Rightarrow> 'd flight list \<Rightarrow> 'd grp \<Rightarrow> trading_error + 'd flight list \<times> 'd grp" where
  "apply_flights D env [] g = Inr ([], g)"
| "apply_flights D env (f # fs) g =
     (case checkEntry D env f g of
        Some err \<Rightarrow> Inl err
      | None \<Rightarrow>
          (case QueueApply D f g of
             Inl err \<Rightarrow> Inl err
           | Inr (f1, g1) \<Rightarrow>
               (case apply_flights D env fs g1 of Inl err \<Rightarrow> Inl err | Inr (fs1, g2) \<Rightarrow> Inr (f1 # fs1, g2))))"

text \<open>
  The final rows of the makers, in the order they were met: the code takes them in the order of a Go
  map, which is not fixed, but each has its own row.
\<close>

fun finish_makers :: "'d decimal_pkg \<Rightarrow> string list \<Rightarrow> 'd command \<Rightarrow> 'd grp \<Rightarrow> trading_error + 'd command \<times> 'd grp" where
  "finish_makers D [] c g = Inr (c, g)"
| "finish_makers D (i # is) c g =
     (case Mapping.lookup (g_orders g) i of
        None \<Rightarrow> Inl ErrBookInconsistent
      | Some x \<Rightarrow>
          (case UpdateOrderProgress (g_db g) (progressParams D x) of
             Inl err \<Rightarrow> Inl (errStatement err)
           | Inr (db, row) \<Rightarrow>
               (let c1 = c\<lparr>cm_progress := cm_progress c @ [row], cm_touched := cm_touched c @ [od_ID x]\<rparr>; g1 = g\<lparr>g_db := db\<rparr>
                in finish_makers D is c1 (if Terminal (od_Status x) then end_order x g1 else g1))))"

definition set_final :: "'d decimal_pkg \<Rightarrow> 'd trading_Order \<Rightarrow> 'd command \<Rightarrow> 'd grp \<Rightarrow> trading_error + 'd command \<times> 'd grp" where
  "set_final D x c g =
     (case UpdateOrderProgress (g_db g) (progressParams D x) of
        Inl err \<Rightarrow> Inl (errStatement err)
      | Inr (db, row) \<Rightarrow> Inr (c\<lparr>cm_final := row, cm_sp := None\<rparr>, g\<lparr>g_db := db\<rparr>))"

text \<open>After the book has accepted an order: the hold, the row, the events, the settlements, the final rows.\<close>

definition walk_accepted :: "'d decimal_pkg \<Rightarrow> engine_env \<Rightarrow> 'd runner \<Rightarrow> 'd registry_Market \<Rightarrow> u64 \<Rightarrow> 'd PlaceOrderRequest \<Rightarrow> 'd Event list \<Rightarrow>
    'd command \<Rightarrow> 'd grp \<Rightarrow> trading_error + 'd command \<times> 'd grp" where
  "walk_accepted D env r m seq req events c g =
     (case cm_hold c of
        None \<Rightarrow> Inl ErrBookInconsistent
      | Some hold \<Rightarrow>
          (let holdAmount = snd (holdFor D m req);
               taker = (cm_order c)\<lparr>od_HoldAmount := holdAmount, od_HoldRemaining := holdAmount, od_Status := StatusOpen\<rparr>
           in case QueueApply D hold g of
                Inl err \<Rightarrow> Inl err
              | Inr (hold1, g1) \<Rightarrow>
                  (case InsertOrder (g_db g1) (insertParams D taker) of
                     Inl err \<Rightarrow> Inl (errStatement err)
                   | Inr (db, _) \<Rightarrow>
                       (let c1 = c\<lparr>cm_order := taker, cm_hold := Some hold1, cm_makers := [], cm_events :=
                                 Some (eb_add EventOrderAccepted (od_AccountID taker) (accepted_payload m seq taker)
                                   \<lparr>eb_tenant = rn_tenant r, eb_market = mk_Symbol m, eb_now = cm_now c,
                                    eb_correlation = pq_CorrelationID req, eb_seq = Some seq, eb_items = []\<rparr>)\<rparr>
                        in case walk_events D env r m seq (pq_CorrelationID req) (tl events) c1 (g1\<lparr>g_db := db\<rparr>) of
                             Inl err \<Rightarrow> Inl err
                           | Inr (c2, g2) \<Rightarrow>
                               (case apply_flights D env (cm_settles c2) g2 of
                                  Inl err \<Rightarrow> Inl err
                                | Inr (settles, g3) \<Rightarrow>
                                    (case apply_flights D env (cm_releases c2) g3 of
                                       Inl err \<Rightarrow> Inl err
                                     | Inr (releases, g4) \<Rightarrow>
                                         (case finish_makers D (cm_makers c2) (c2\<lparr>cm_settles := settles, cm_releases := releases\<rparr>) g4 of
                                            Inl err \<Rightarrow> Inl err
                                          | Inr (c3, g5) \<Rightarrow>
                                              (case set_final D (cm_order c3) c3 g5 of
                                                 Inl err \<Rightarrow> Inl err
                                               | Inr (c4, g6) \<Rightarrow>
                                                   Inr (c4, if Terminal (od_Status (cm_order c4))
                                                            then g6\<lparr>g_touched := Mapping.update (od_ID (cm_order c4)) (cm_order c4) (g_touched g6)\<rparr>
                                                            else put_order (cm_order c4) g6)))))))))"

text \<open>The order goes to the book under the next sequence.\<close>

definition place_in_book :: "'d decimal_pkg \<Rightarrow> engine_env \<Rightarrow> 'd runner \<Rightarrow> 'd registry_Market \<Rightarrow> 'd PlaceOrderRequest \<Rightarrow> 'd command \<Rightarrow> 'd grp \<Rightarrow>
    trading_error + 'd command \<times> 'd grp" where
  "place_in_book D env r m req c g =
     (let seq = g_next g + 1; c1 = c\<lparr>cm_seq := Some seq, cm_order := (cm_order c)\<lparr>od_Seq := Some seq\<rparr>\<rparr>
      in case Apply D (g_book g) \<lparr>cmd_Seq = seq, cmd_Timestamp = cm_now c, cmd_New = Some (newOrderCommand (od_ID (cm_order c)) req), cmd_Cancel = None\<rparr> of
           None \<Rightarrow> Inl errDiverged
         | Some (b, Inl err) \<Rightarrow> Inl (errMatching err)
         | Some (b, Inr events) \<Rightarrow>
             (let g1 = g\<lparr>g_book := b, g_next := seq\<rparr>
              in case events of
                   [EvRejected rej] \<Rightarrow>
                     queueRejected D r (c1\<lparr>cm_order := (cm_order c1)\<lparr>od_RejectReason := RejectReason_String (rj_Reason rej)\<rparr>\<rparr>) g1 (Some seq)
                 | [] \<Rightarrow> Inl (errMatching Panic)
                 | _ \<Rightarrow> walk_accepted D env r m seq req events c1 g1))"

definition walkPlace :: "'d decimal_pkg \<Rightarrow> engine_env \<Rightarrow> 'd runner \<Rightarrow> 'd registry_Market \<Rightarrow> 'd PlaceOrderRequest \<Rightarrow> 'd command \<Rightarrow> 'd grp \<Rightarrow>
    trading_error + 'd command \<times> 'd grp" where
  "walkPlace D env r m req c g =
     (case cm_hold c of
        None \<Rightarrow> place_in_book D env r m req c g
      | Some hold \<Rightarrow>
          (case flight_check D env hold g of
             Inl ErrInsufficient \<Rightarrow>
               (let seq = g_next g + 1
                in case Advance (g_book g) seq of
                     Inl err \<Rightarrow> Inl (errMatching err)
                   | Inr b \<Rightarrow>
                       queueRejected D r (c\<lparr>cm_seq := Some seq, cm_order := (cm_order c)\<lparr>od_RejectReason := RejectInsufficientBalance\<rparr>\<rparr>)
                         (g\<lparr>g_book := b, g_next := seq\<rparr>) (Some seq))
           | Inl err \<Rightarrow> Inl (errLedger err)
           | Inr True \<Rightarrow> Inl ErrBookInconsistent
           | Inr False \<Rightarrow> place_in_book D env r m req c g))"

text \<open>The cancel of a resting order.\<close>

definition apply_release :: "'d decimal_pkg \<Rightarrow> 'd command \<Rightarrow> 'd trading_Order \<Rightarrow> 'd grp \<Rightarrow> trading_error + 'd command \<times> 'd trading_Order \<times> 'd grp" where
  "apply_release D c x g =
     (case cm_release c of
        None \<Rightarrow> Inr (c, x, g)
      | Some f \<Rightarrow>
          (case QueueApply D f g of
             Inl err \<Rightarrow> Inl err
           | Inr (f1, g1) \<Rightarrow> Inr (c\<lparr>cm_release := Some f1\<rparr>, x\<lparr>od_HoldRemaining := Zero D\<rparr>, g1)))"

definition cancel_in_book :: "'d decimal_pkg \<Rightarrow> 'd runner \<Rightarrow> 'd registry_Market \<Rightarrow> CancelRequest \<Rightarrow> 'd trading_Order \<Rightarrow> 'd command \<Rightarrow> 'd grp \<Rightarrow>
    trading_error + 'd command \<times> 'd grp" where
  "cancel_in_book D r m req x c g =
     (let seq = g_next g + 1
      in case Apply D (g_book g) \<lparr>cmd_Seq = seq, cmd_Timestamp = cm_now c, cmd_New = None,
             cmd_Cancel = Some \<lparr>ca_OrderID = cq_OrderID req, ca_AccountID = cq_AccountID req\<rparr>\<rparr> of
           Some (b, Inr (EvCancelled e # _)) \<Rightarrow>
             (let x1 = x\<lparr>od_Status := StatusCancelled, od_CancelReason := CancelReason_text (cn_Reason e), od_FilledQty := cn_FilledQty e,
                         od_FilledQuote := cn_FilledQuote e, od_RemainingQty := cn_RemainingQty e\<rparr>;
                  released = od_HoldRemaining x1
              in case apply_release D (c\<lparr>cm_seq := Some seq\<rparr>) x1 (g\<lparr>g_book := b, g_next := seq\<rparr>) of
                   Inl err \<Rightarrow> Inl err
                 | Inr (c1, x2, g1) \<Rightarrow>
                     (case set_final D x2 c1 g1 of
                        Inl err \<Rightarrow> Inl err
                      | Inr (c2, g2) \<Rightarrow>
                          Inr (c2\<lparr>cm_order := x2, cm_events :=
                                 Some (eb_add EventOrderCancelled (od_AccountID x2) (cancelled_payload m seq e released x2)
                                   \<lparr>eb_tenant = rn_tenant r, eb_market = mk_Symbol m, eb_now = cm_now c,
                                    eb_correlation = cq_CorrelationID req, eb_seq = Some seq, eb_items = []\<rparr>)\<rparr>,
                               end_order x2 g2)))
         | Some (b, Inr []) \<Rightarrow> Inl (errMatching Panic)
         | Some (b, Inr _) \<Rightarrow> Inl ErrBookInconsistent
         | Some (b, Inl err) \<Rightarrow> Inl (errMatching err)
         | None \<Rightarrow> Inl errDiverged)"

definition walkCancel :: "'d decimal_pkg \<Rightarrow> engine_env \<Rightarrow> 'd runner \<Rightarrow> 'd registry_Market \<Rightarrow> CancelRequest \<Rightarrow> 'd command \<Rightarrow> 'd grp \<Rightarrow>
    trading_error + 'd command \<times> 'd grp" where
  "walkCancel D env r m req c g =
     (case Mapping.lookup (g_orders g) (cq_OrderID req) of
        None \<Rightarrow> Inl ErrBookInconsistent
      | Some x \<Rightarrow>
          (case cm_release c of
             None \<Rightarrow> cancel_in_book D r m req x c g
           | Some f \<Rightarrow> (case checkEntry D env f g of Some err \<Rightarrow> Inl err | None \<Rightarrow> cancel_in_book D r m req x c g)))"

end
