(* ===== verification/Trading_Group.thy ===== *)
theory Trading_Group
  imports Trading_Batch
begin

text \<open>
  The rest of \<^verbatim>\<open>internal/trading/batch.go\<close> and runner.go: a group of commands in one transaction, its
  account sequences and outbox rows, the fallback to one transaction per command, the rebuild of the
  book, the queue. A group that fails leaves the tables as they were and the runner marked dirty; its
  half-changed book and cache are dropped here at once, where the code keeps them until the rebuild
  that every later use starts with. The database of the model always answers, so a command that
  failed alone never stops the rest (\<^verbatim>\<open>retryable\<close>). Metrics, logs and timeouts are not modelled.
\<close>

section \<open>Account sequences\<close>

text \<open>The balances a command changed, in the order their events are published.\<close>

fun add_keys :: "(string \<times> string) list \<Rightarrow> (string \<times> string) list \<Rightarrow> (string \<times> string) list" where
  "add_keys [] out = out"
| "add_keys (k # ks) out = add_keys ks (if k \<in> set out then out else out @ [k])"

definition flights :: "'d command \<Rightarrow> 'd flight list" where
  "flights c = (case cm_hold c of None \<Rightarrow> [] | Some f \<Rightarrow> [f]) @ (case cm_release c of None \<Rightarrow> [] | Some f \<Rightarrow> [f]) @
     cm_settles c @ cm_releases c"

definition balanceKeys :: "'d command \<Rightarrow> (string \<times> string) list" where
  "balanceKeys c =
     add_keys (concat (map (\<lambda>f. BalanceKeys (ff_pe f))
       (flights (if od_Status (cm_order c) = StatusRejected then c\<lparr>cm_hold := None\<rparr> else c)))) []"

text \<open>The accounts a command will publish to, one for every private event it has or will have.\<close>

definition bump_accounts :: "'d command \<Rightarrow> string list" where
  "bump_accounts c =
     (case cm_events c of
        None \<Rightarrow> []
      | Some b \<Rightarrow> filter (\<lambda>a. a \<noteq> []) (map pv_account (eb_items b) @ map fst (balanceKeys c)))"

text \<open>The accounts in the order they first appear.\<close>

fun first_seen :: "'a list \<Rightarrow> 'a list \<Rightarrow> 'a list" where
  "first_seen [] seen = []"
| "first_seen (x # xs) seen = (if x \<in> set seen then first_seen xs seen else x # first_seen xs (x # seen))"

text \<open>One statement per account reserves as many sequences as it was counted; the result is the last one.\<close>

fun reserve_seqs :: "string list \<Rightarrow> (string \<Rightarrow> nat) \<Rightarrow> (string, int option) mapping \<Rightarrow> Ledger \<Rightarrow>
    trading_error + (string, int option) mapping \<times> Ledger" where
  "reserve_seqs [] counts out L = Inr (out, L)"
| "reserve_seqs (a # as) counts out L =
     (case BumpAccountSeqBy L a (int (counts a)) of
        (L1, Inl e) \<Rightarrow> Inl (errStatement (apply_error e))
      | (L1, Inr res) \<Rightarrow> reserve_seqs as counts (Mapping.update a res out) L1)"

definition queueAccountSeqs :: "'d command list \<Rightarrow> 'd grp \<Rightarrow> trading_error + (string, int option) mapping \<times> 'd grp" where
  "queueAccountSeqs cs g =
     (let accounts = concat (map bump_accounts cs)
      in case reserve_seqs (first_seen accounts []) (\<lambda>a. count_list accounts a) Mapping.empty (db_ledger (g_db g)) of
           Inl e \<Rightarrow> Inl e
         | Inr (bumps, L) \<Rightarrow> Inr (bumps, g\<lparr>g_db := (g_db g)\<lparr>db_ledger := L\<rparr>\<rparr>))"

section \<open>Reading the writes back\<close>

fun finish_flights :: "'d decimal_pkg \<Rightarrow> 'd flight list \<Rightarrow> trading_error + 'd JournalEntry list" where
  "finish_flights D [] = Inr []"
| "finish_flights D (f # fs) =
     (case flight_Finish D f of
        Inl e \<Rightarrow> Inl e
      | Inr f1 \<Rightarrow>
          (case finish_flights D fs of
             Inl e \<Rightarrow> Inl e
           | Inr es \<Rightarrow> Inr (case ff_entry f1 of None \<Rightarrow> es | Some je \<Rightarrow> je # es)))"

definition balance_payload :: "'d Balance \<Rightarrow> 'd payload" where
  "balance_payload b = PBalance \<lparr>bu_AccountID = bal_AccountID b, bu_Asset = bal_Asset b, bu_Available = bal_Available b,
     bu_Hold = bal_Hold b, bu_AccountSeq = 0\<rparr>"

definition add_balance_event :: "'d Balance \<Rightarrow> 'd eventBuilder \<Rightarrow> 'd eventBuilder" where
  "add_balance_event b = addAccountOnly EventBalanceUpdated (bal_AccountID b) (balance_payload b)"

text \<open>The cache mirrors the rows of the makers.\<close>

fun store_progress :: "'d decimal_pkg \<Rightarrow> (OrderRow option \<times> string) list \<Rightarrow> 'd grp \<Rightarrow> trading_error + 'd grp" where
  "store_progress D [] g = Inr g"
| "store_progress D ((row, i) # rest) g =
     (case row of
        None \<Rightarrow> Inl ErrBookInconsistent
      | Some r \<Rightarrow> (case orderFromRow D r of Inl e \<Rightarrow> Inl e | Inr x \<Rightarrow> store_progress D rest (store_back x g)))"

definition rejected_payload :: "'d trading_Order \<Rightarrow> 'd payload" where
  "rejected_payload x =
     PRejected \<lparr>oj_OrderID = od_ID x, oj_ClientOrderID = od_ClientOrderID x, oj_AccountID = od_AccountID x,
       oj_Market = od_MarketSymbol x, oj_Reason = od_RejectReason x, oj_Seq = od_Seq x\<rparr>"

definition set_first_payload :: "'d payload \<Rightarrow> 'd eventBuilder \<Rightarrow> 'd eventBuilder" where
  "set_first_payload p b = b\<lparr>eb_items := (case eb_items b of [] \<Rightarrow> [] | x # xs \<Rightarrow> x\<lparr>pv_payload := p\<rparr> # xs)\<rparr>"

definition finish_walked :: "'d decimal_pkg \<Rightarrow> 'd command \<Rightarrow> 'd grp \<Rightarrow> trading_error + 'd command \<times> 'd grp" where
  "finish_walked D c g =
     (case finish_flights D (flights c) of
        Inl e \<Rightarrow> Inl e
      | Inr entries \<Rightarrow>
          (case cm_final c of
             None \<Rightarrow> Inl ErrBookInconsistent
           | Some row \<Rightarrow>
               (case orderFromRow D row of
                  Inl e \<Rightarrow> Inl e
                | Inr saved \<Rightarrow>
                    (case store_progress D (zip (cm_progress c) (cm_touched c)) (store_back saved g) of
                       Inl e \<Rightarrow> Inl e
                     | Inr g1 \<Rightarrow>
                         Inr (c\<lparr>cm_order := saved, cm_events := map_option (fold add_balance_event (balanceEvents entries)) (cm_events c)\<rparr>, g1)))))"

definition finish :: "'d decimal_pkg \<Rightarrow> 'd command \<Rightarrow> 'd grp \<Rightarrow> trading_error + 'd command \<times> 'd grp" where
  "finish D c g =
     (case cm_rejected c of
        Some row \<Rightarrow>
          (case orderFromRow D row of
             Inl e \<Rightarrow> Inl e
           | Inr saved \<Rightarrow> Inr (c\<lparr>cm_order := saved, cm_events := map_option (set_first_payload (rejected_payload saved)) (cm_events c)\<rparr>, g))
      | None \<Rightarrow> (if cm_done c then Inr (c, g) else finish_walked D c g))"

fun finish_all :: "'d decimal_pkg \<Rightarrow> 'd command list \<Rightarrow> 'd grp \<Rightarrow> trading_error + 'd command list \<times> 'd grp" where
  "finish_all D [] g = Inr ([], g)"
| "finish_all D (c # cs) g =
     (case finish D c g of
        Inl e \<Rightarrow> Inl e
      | Inr (c1, g1) \<Rightarrow> (case finish_all D cs g1 of Inl e \<Rightarrow> Inl e | Inr (cs1, g2) \<Rightarrow> Inr (c1 # cs1, g2)))"

section \<open>The outbox\<close>

definition account_events :: "'d command list \<Rightarrow> string list" where
  "account_events cs =
     filter (\<lambda>a. a \<noteq> []) (concat (map (\<lambda>c. case cm_events c of None \<Rightarrow> [] | Some b \<Rightarrow> map pv_account (eb_items b)) cs))"

text \<open>The first sequence of each account: the last reserved, less the events counted, plus one.\<close>

definition first_seqs :: "(string, int option) mapping \<Rightarrow> string list \<Rightarrow> string \<Rightarrow> int" where
  "first_seqs bumps accounts a =
     (case Mapping.lookup bumps a of Some (Some v) \<Rightarrow> v | _ \<Rightarrow> 0) - (if a \<in> set accounts then int (count_list accounts a) - 1 else 0)"

definition with_seq :: "int \<Rightarrow> 'd pendingEvent \<Rightarrow> 'd pendingEvent" where
  "with_seq q p = (case pv_payload p of PBalance b \<Rightarrow> p\<lparr>pv_payload := PBalance (b\<lparr>bu_AccountSeq := q\<rparr>)\<rparr> | _ \<Rightarrow> p)"

fun queue_items :: "'d decimal_pkg \<Rightarrow> engine_env \<Rightarrow> nat \<Rightarrow> (string \<times> string) list \<Rightarrow> 'd eventBuilder \<Rightarrow> 'd pendingEvent list \<Rightarrow>
    (string \<Rightarrow> int) \<Rightarrow> 'd grp \<Rightarrow> trading_error + (string \<Rightarrow> int) \<times> 'd grp" where
  "queue_items D env att trace b [] next g = Inr (next, g)"
| "queue_items D env att trace b (p # ps) next g =
     (let (p1, q, next1) =
        (if pv_account p \<noteq> [] then (with_seq (next (pv_account p)) p, next (pv_account p), next(pv_account p := next (pv_account p) + 1))
         else (p, 0, next));
          e = envelope D (ee_newID env att (g_draws g) (eb_now b)) b p1 q
      in case outboxParams trace e of
           Inl err \<Rightarrow> Inl errEnvelope
         | Inr mk \<Rightarrow>
             (case InsertOutbox (db_outbox (g_db g)) (mk (ee_outboxID env att (g_draws g))) of
                Inl err \<Rightarrow> Inl (errStatement UniqueViolation)
              | Inr rows \<Rightarrow>
                  queue_items D env att trace b ps next1 (g\<lparr>g_db := (g_db g)\<lparr>db_outbox := rows\<rparr>, g_draws := Suc (g_draws g)\<rparr>)))"

fun queue_commands :: "'d decimal_pkg \<Rightarrow> engine_env \<Rightarrow> nat \<Rightarrow> 'd command list \<Rightarrow> (string \<Rightarrow> int) \<Rightarrow> 'd grp \<Rightarrow> trading_error + 'd grp" where
  "queue_commands D env att [] next g = Inr g"
| "queue_commands D env att (c # cs) next g =
     (case cm_events c of
        None \<Rightarrow> queue_commands D env att cs next g
      | Some b \<Rightarrow>
          (case queue_items D env att (rq_trace (cm_req c)) b (eb_items b) next g of
             Inl e \<Rightarrow> Inl e
           | Inr (next1, g1) \<Rightarrow> queue_commands D env att cs next1 g1))"

definition queueOutbox :: "'d decimal_pkg \<Rightarrow> engine_env \<Rightarrow> nat \<Rightarrow> 'd command list \<Rightarrow> (string, int option) mapping \<Rightarrow> 'd grp \<Rightarrow> trading_error + 'd grp" where
  "queueOutbox D env att cs bumps g =
     (if \<exists>a \<in> Mapping.keys bumps. Mapping.lookup bumps a = Some None then Inl (errLedger ErrAccountNotFound)
      else queue_commands D env att cs (first_seqs bumps (account_events cs)) g)"

section \<open>Replies\<close>

definition respond :: "'d grp \<Rightarrow> 'd command \<Rightarrow> 'd response" where
  "respond g c =
     (case cm_deferred c of
        Some i \<Rightarrow>
          (case Mapping.lookup (g_touched g) i of None \<Rightarrow> err_response ErrBookInconsistent | Some x \<Rightarrow> ok_response x [] False)
      | None \<Rightarrow>
          (if cm_done c \<and> cm_rejected c = None then cm_resp c
           else if rq_place (cm_req c) \<noteq> None then ok_response (cm_order c) (cm_trades c) False
           else ok_response (cm_order c) [] False))"

section \<open>The walk of a group\<close>

fun build_all :: "'d decimal_pkg \<Rightarrow> engine_env \<Rightarrow> 'd runner \<Rightarrow> 'd registry_Market \<Rightarrow> 'd command list \<Rightarrow> 'd grp \<Rightarrow> 'd command list \<times> 'd grp" where
  "build_all D env r m [] g = ([], g)"
| "build_all D env r m (c # cs) g =
     (case build D env r m c g of
        (c1, g1) \<Rightarrow> (case build_all D env r m cs g1 of (cs1, g2) \<Rightarrow> (queuePreReads r g1 c1 # cs1, g2)))"

fun resolve_all :: "'d decimal_pkg \<Rightarrow> engine_env \<Rightarrow> 'd runner \<Rightarrow> 'd registry_Market \<Rightarrow> 'd grp \<Rightarrow> 'd command list \<Rightarrow> trading_error + 'd command list" where
  "resolve_all D env r m g cs = all_ok (resolve D env r m g) cs"

text \<open>A command the pre-reads answered: its speculative locks go, and a policy rejection is written.\<close>

definition step_done :: "'d decimal_pkg \<Rightarrow> 'd runner \<Rightarrow> 'd command \<Rightarrow> 'd grp \<Rightarrow> trading_error + 'd command \<times> 'd grp" where
  "step_done D r c g =
     (case rollback_sp c g of
        (c1, g1) \<Rightarrow>
          (if rp_err (cm_resp c1) = None \<and> od_Status (cm_order c1) = StatusRejected \<and> cm_rejected c1 = None
           then queueRejected D r c1 g1 None else Inr (c1, g1)))"

definition step_walk :: "'d decimal_pkg \<Rightarrow> engine_env \<Rightarrow> 'd runner \<Rightarrow> 'd registry_Market \<Rightarrow> 'd command \<Rightarrow> 'd grp \<Rightarrow> trading_error + 'd command \<times> 'd grp" where
  "step_walk D env r m c g =
     (case rq_place (cm_req c) of
        Some req \<Rightarrow> walkPlace D env r m req c g
      | None \<Rightarrow> (case rq_cancel (cm_req c) of Some q \<Rightarrow> walkCancel D env r m q c g | None \<Rightarrow> Inl (errMatching Panic)))"

text \<open>The locks of a command that is not the first.\<close>

definition step_locks :: "'d decimal_pkg \<Rightarrow> engine_env \<Rightarrow> 'd runner \<Rightarrow> 'd registry_Market \<Rightarrow> 'd command \<Rightarrow> 'd grp \<Rightarrow> trading_error + 'd command \<times> 'd grp" where
  "step_locks D env r m c g =
     (case prepare D m g c of
        Inl e \<Rightarrow> Inr (answered (err_response e) c, g)
      | Inr c1 \<Rightarrow> queueLocks env (rn_attempt r) c1 g)"

definition cancel_id :: "'d request \<Rightarrow> string option" where
  "cancel_id req = (if rq_place req = None then map_option cq_OrderID (rq_cancel req) else None)"

text \<open>A cancel of an order that rested when the group began and does not now is answered with the order as it ends.\<close>

definition step_later :: "'d decimal_pkg \<Rightarrow> engine_env \<Rightarrow> 'd runner \<Rightarrow> 'd registry_Market \<Rightarrow> 'd command \<Rightarrow> 'd grp \<Rightarrow> trading_error + 'd command \<times> 'd grp" where
  "step_later D env r m c g =
     (case cancel_id (cm_req c) of
        Some i \<Rightarrow>
          (if Mapping.lookup (g_orders g) i = None
           then (if Mapping.lookup (g_touched g) i = None then Inl ErrBookInconsistent
                 else Inr (c\<lparr>cm_done := True, cm_deferred := Some i\<rparr>, g))
           else step_locks D env r m c g)
      | None \<Rightarrow> step_locks D env r m c g)"

definition step_command :: "'d decimal_pkg \<Rightarrow> engine_env \<Rightarrow> 'd runner \<Rightarrow> 'd registry_Market \<Rightarrow> bool \<Rightarrow> 'd command \<Rightarrow> 'd grp \<Rightarrow> trading_error + 'd command \<times> 'd grp" where
  "step_command D env r m later c g =
     (if cm_done c then step_done D r c g
      else case (if later then step_later D env r m c g else Inr (c, g)) of
             Inl e \<Rightarrow> Inl e
           | Inr (c1, g1) \<Rightarrow> (if cm_done c1 then Inr (c1, g1) else step_walk D env r m c1 g1))"

fun walk_commands :: "'d decimal_pkg \<Rightarrow> engine_env \<Rightarrow> 'd runner \<Rightarrow> 'd registry_Market \<Rightarrow> bool \<Rightarrow> 'd command list \<Rightarrow> 'd grp \<Rightarrow> trading_error + 'd command list \<times> 'd grp" where
  "walk_commands D env r m later [] g = Inr ([], g)"
| "walk_commands D env r m later (c # cs) g =
     (case step_command D env r m later c g of
        Inl e \<Rightarrow> Inl e
      | Inr (c1, g1) \<Rightarrow> (case walk_commands D env r m True cs g1 of Inl e \<Rightarrow> Inl e | Inr (cs1, g2) \<Rightarrow> Inr (c1 # cs1, g2)))"

text \<open>The first round trip: the pre-reads, the lock of the sequence, the first command's locks.\<close>

definition begin_group :: "'d decimal_pkg \<Rightarrow> engine_env \<Rightarrow> 'd runner \<Rightarrow> 'd registry_Market \<Rightarrow> 'd command list \<Rightarrow> 'd grp \<Rightarrow> trading_error + 'd command list \<times> 'd grp" where
  "begin_group D env r m cs g =
     (case build_all D env r m cs g of
        ([], g1) \<Rightarrow> Inl (errMatching Panic)
      | (c # rest, g1) \<Rightarrow>
          (case step_locks D env r m c g1 of
             Inl e \<Rightarrow> Inl e
           | Inr (c1, g2) \<Rightarrow>
               (case LockMarketSequence (g_db g1) (rn_mid r) of
                  None \<Rightarrow> Inl ErrBookInconsistent
                | Some q \<Rightarrow>
                    (if from_bigint q \<noteq> rn_seq r then Inl ErrSequenceConflict
                     else (case resolve_all D env r m g2 (c1 # rest) of Inl e \<Rightarrow> Inl e | Inr cs1 \<Rightarrow> Inr (cs1, g2))))))"

text \<open>Everything up to the last batch: the commands, the account sequences, the rows read back, the outbox.\<close>

definition group_body :: "'d decimal_pkg \<Rightarrow> engine_env \<Rightarrow> 'd runner \<Rightarrow> 'd registry_Market \<Rightarrow> 'd command list \<Rightarrow> 'd grp \<Rightarrow> trading_error + 'd command list \<times> 'd grp" where
  "group_body D env r m cs g =
     (case begin_group D env r m cs g of
        Inl e \<Rightarrow> Inl e
      | Inr (cs1, g1) \<Rightarrow>
          (case walk_commands D env r m False cs1 g1 of
             Inl e \<Rightarrow> Inl e
           | Inr (cs2, g2) \<Rightarrow>
               (case queueAccountSeqs cs2 g2 of
                  Inl e \<Rightarrow> Inl e
                | Inr (bumps, g3) \<Rightarrow>
                    (case finish_all D cs2 g3 of
                       Inl e \<Rightarrow> Inl e
                     | Inr (cs3, g4) \<Rightarrow>
                         (if (case rn_beforeCommit r of None \<Rightarrow> False | Some f \<Rightarrow> f (rn_symbol r) (length cs)) then Inl errFault
                          else case queueOutbox D env (rn_attempt r) cs3 bumps g4 of
                                 Inl e \<Rightarrow> Inl e
                               | Inr g5 \<Rightarrow> Inr (cs3, g5))))))"

text \<open>
  The last statements are the market's sequence, when a command consumed one, and \<^verbatim>\<open>COMMIT\<close>: the tables
  of the transaction are then the tables, whatever the count of the update says.
\<close>

definition commit_group :: "'d runner \<Rightarrow> 'd grp \<Rightarrow> stmt_error + tdb \<times> bool" where
  "commit_group r g =
     (if g_next g > rn_seq r
      then (case SetMarketSequence (g_db g) (rn_mid r) (bigint (g_next g)) (bigint (rn_seq r)) of
              Inl e \<Rightarrow> Inl e | Inr (db, n) \<Rightarrow> Inr (db, n = 1))
      else Inr (g_db g, True))"

end
