(* ===== verification/Trading_Runner.thy ===== *)
theory Trading_Runner
  imports Trading_Group
begin

text \<open>
  \<^verbatim>\<open>internal/trading\<close>: runner.go (restore, queries, the queue), the group as a transaction
  (executeGroup, handleGroup), engine.go (which runner a market has, what a caller is told) and
  service.go (the checks in front of the bus and the reads). A channel is the list of the requests
  waiting in it, and replies are the list of the responses in the order of the requests. The registry
  cache, which the code reads again for every group, is an argument.
\<close>

section \<open>Rebuilding the book\<close>

definition resting_of_order :: "'d trading_Order \<Rightarrow> u64 \<Rightarrow> 'd amount \<Rightarrow> 'd amount \<Rightarrow> 'd RestingOrder" where
  "resting_of_order x seq price qty =
     \<lparr>ro_OrderID = od_ID x, ro_AccountID = od_AccountID x, ro_Side = od_Side x, ro_Price = price, ro_Qty = qty,
      ro_Remaining = od_RemainingQty x, ro_FilledQty = od_FilledQty x, ro_FilledQuote = od_FilledQuote x,
      ro_Seq = seq, ro_Timestamp = od_CreatedAt x\<rparr>"

fun resting_orders :: "'d trading_Order list \<Rightarrow> trading_error + 'd RestingOrder list" where
  "resting_orders [] = Inr []"
| "resting_orders (x # xs) =
     (case (od_Seq x, od_Price x, od_Qty x) of
        (Some seq, Some price, Some qty) \<Rightarrow>
          (case resting_orders xs of Inl e \<Rightarrow> Inl e | Inr rs \<Rightarrow> Inr (resting_of_order x seq price qty # rs))
      | _ \<Rightarrow> Inl ErrBookInconsistent)"

text \<open>
  The runner on the database's orders, beside the tables: the sequence row is created outside any
  transaction, so it stays when a later step fails.
\<close>

definition load_book :: "'d decimal_pkg \<Rightarrow> 'd runner \<Rightarrow> 'd registry_Market \<Rightarrow> tdb \<Rightarrow> tdb \<times> (trading_error + 'd runner)" where
  "load_book D r m db =
     (case marketConfig D m of
        Inl e \<Rightarrow> (db, Inl (errMatching e))
      | Inr cfg \<Rightarrow>
          (case New D cfg of
             Inl e \<Rightarrow> (db, Inl (errMatching e))
           | Inr book \<Rightarrow>
               (case EnsureMarketSequence db (rn_mid r) of
                  Inl e \<Rightarrow> (db, Inl (errStatement e))
                | Inr (db1, lastSeq) \<Rightarrow>
                    (db1,
                     case ordersFromRows D (ListOpenOrdersByMarket db1 (rn_mid r)) of
                       Inl e \<Rightarrow> Inl e
                     | Inr orders \<Rightarrow>
                         (case resting_orders orders of
                            Inl e \<Rightarrow> Inl e
                          | Inr resting \<Rightarrow>
                              (case Restore D book (from_bigint lastSeq) resting of
                                 Inl e \<Rightarrow> Inl (errMatching e)
                               | Inr b \<Rightarrow>
                                   Inr (r\<lparr>rn_book := Some b, rn_seq := from_bigint lastSeq, rn_dirty := False,
                                          rn_orders := fold (\<lambda>x. Mapping.update (od_ID x) x) orders Mapping.empty\<rparr>)))))))"

definition restore :: "'d decimal_pkg \<Rightarrow> 'd Cache \<Rightarrow> 'd runner \<Rightarrow> tdb \<Rightarrow> tdb \<times> (trading_error + 'd runner)" where
  "restore D reg r db =
     (case Cache_Market reg (rn_symbol r) of None \<Rightarrow> (db, Inl ErrMarketNotFound) | Some m \<Rightarrow> load_book D r m db)"

definition restoreOrFail :: "'d decimal_pkg \<Rightarrow> 'd Cache \<Rightarrow> 'd runner \<Rightarrow> tdb \<Rightarrow> 'd runner \<times> tdb \<times> trading_error option" where
  "restoreOrFail D reg r db =
     (if \<not> rn_dirty r then (r, db, None)
      else case restore D reg r db of
             (db1, Inl e) \<Rightarrow> (r, db1, Some ErrEngineUnavailable)
           | (db1, Inr r1) \<Rightarrow> (r1, db1, None))"

definition newRunner :: "'d registry_Market \<Rightarrow> string \<Rightarrow> nat \<Rightarrow> (string \<Rightarrow> nat \<Rightarrow> bool) option \<Rightarrow> 'd runner" where
  "newRunner m tenant batchSize fault =
     \<lparr>rn_symbol = mk_Symbol m, rn_mid = mk_ID m, rn_tenant = tenant, rn_batchSize = batchSize, rn_book = None, rn_seq = 0,
      rn_dirty = False, rn_orders = Mapping.empty, rn_touched = Mapping.empty, rn_pending = None, rn_beforeCommit = fault, rn_attempt = 0\<rparr>"

section \<open>One group\<close>

text \<open>
  The replies, or the error that fails the group. The tables change only with a commit; the one error
  after it (the count of the last update) leaves them changed.
\<close>

definition run_group :: "'d decimal_pkg \<Rightarrow> engine_env \<Rightarrow> 'd runner \<Rightarrow> 'd registry_Market \<Rightarrow> 'd command list \<Rightarrow> 'd Book \<Rightarrow> tdb \<Rightarrow>
    'd runner \<times> tdb \<times> (trading_error + 'd response list)" where
  "run_group D env r m cs book db =
     (case group_body D env r m cs
             \<lparr>g_db = db, g_draws = 0, g_entries = 0, g_book = book, g_orders = rn_orders r, g_touched = Mapping.empty, g_next = rn_seq r\<rparr> of
        Inl e \<Rightarrow> (r, db, Inl e)
      | Inr (cs1, g) \<Rightarrow>
          (case commit_group r g of
             Inl e \<Rightarrow> (r, db, Inl (errStatement e))
           | Inr (db1, False) \<Rightarrow> (r, db1, Inl ErrSequenceConflict)
           | Inr (db1, True) \<Rightarrow>
               (r\<lparr>rn_book := Some (g_book g), rn_seq := g_next g, rn_orders := g_orders g, rn_touched := g_touched g\<rparr>,
                db1, Inr (map (respond g) cs1))))"

definition executeGroup :: "'d decimal_pkg \<Rightarrow> engine_env \<Rightarrow> 'd Cache \<Rightarrow> 'd runner \<Rightarrow> 'd command list \<Rightarrow> tdb \<Rightarrow>
    'd runner \<times> tdb \<times> (trading_error + 'd response list)" where
  "executeGroup D env reg r cs db =
     (case restoreOrFail D reg r db of
        (r1, db1, Some e) \<Rightarrow> (r1, db1, Inr (map (\<lambda>_. err_response e) cs))
      | (r1, db1, None) \<Rightarrow>
          (case Cache_Market reg (rn_symbol r1) of
             None \<Rightarrow> (r1, db1, Inr (map (\<lambda>_. err_response ErrMarketNotFound) cs))
           | Some m \<Rightarrow>
               (case rn_book r1 of
                  None \<Rightarrow> (r1, db1, Inl (errMatching Panic))
                | Some book \<Rightarrow> run_group D env r1 m cs book db1)))"

text \<open>The label of a failure, for the counter of fallbacks.\<close>

definition failureReason :: "trading_error \<Rightarrow> string" where
  "failureReason e =
     (if e = errDeadline then ''timeout'' else if e = ErrSequenceConflict then ''sequence''
      else if e = ErrBookInconsistent then ''inconsistent'' else if e = errStatement Deadlock then ''deadlock''
      else if e = errStatement Serialization then ''serialization'' else ''error'')"

text \<open>The commands of a group, each with the time it was taken off the queue; every attempt draws anew.\<close>

fun group_commands :: "'d decimal_pkg \<Rightarrow> engine_env \<Rightarrow> nat \<Rightarrow> nat \<Rightarrow> 'd request list \<Rightarrow> 'd command list" where
  "group_commands D env att i [] = []"
| "group_commands D env att i (req # reqs) =
     new_command D req (1000 * (ee_now env att i div 1000)) # group_commands D env att (Suc i) reqs"

definition attempt :: "'d decimal_pkg \<Rightarrow> engine_env \<Rightarrow> 'd Cache \<Rightarrow> 'd runner \<Rightarrow> 'd request list \<Rightarrow> tdb \<Rightarrow>
    'd runner \<times> tdb \<times> (trading_error + 'd response list)" where
  "attempt D env reg r reqs db =
     (let r1 = r\<lparr>rn_attempt := Suc (rn_attempt r)\<rparr>
      in case executeGroup D env reg r1 (group_commands D env (rn_attempt r1) 0 reqs) db of
           (r2, db1, Inr resps) \<Rightarrow> (r2, db1, Inr resps)
         | (r2, db1, Inl e) \<Rightarrow> (r2\<lparr>rn_dirty := True\<rparr>, db1, Inl e))"

text \<open>A command alone: a client order id used by another market at the same time is a mismatch.\<close>

definition handle_one :: "'d decimal_pkg \<Rightarrow> engine_env \<Rightarrow> 'd Cache \<Rightarrow> 'd runner \<Rightarrow> 'd request \<Rightarrow> tdb \<Rightarrow> 'd runner \<times> tdb \<times> 'd response" where
  "handle_one D env reg r req db =
     (case attempt D env reg r [req] db of
        (r1, db1, Inr (resp # _)) \<Rightarrow> (r1, db1, resp)
      | (r1, db1, Inr []) \<Rightarrow> (r1, db1, err_response ErrEngineUnavailable)
      | (r1, db1, Inl e) \<Rightarrow> (r1, db1, err_response (if e = errStatement UniqueViolation then ErrClientOrderIDMismatch else e)))"

text \<open>One transaction per command, the book rebuilt before each that needs it.\<close>

fun handle_each :: "'d decimal_pkg \<Rightarrow> engine_env \<Rightarrow> 'd Cache \<Rightarrow> 'd runner \<Rightarrow> 'd request list \<Rightarrow> tdb \<Rightarrow> 'd runner \<times> tdb \<times> 'd response list" where
  "handle_each D env reg r [] db = (r, db, [])"
| "handle_each D env reg r (req # reqs) db =
     (case restoreOrFail D reg r db of
        (r1, db1, Some e) \<Rightarrow>
          (case handle_each D env reg r1 reqs db1 of (r2, db2, resps) \<Rightarrow> (r2, db2, err_response ErrEngineUnavailable # resps))
      | (r1, db1, None) \<Rightarrow>
          (case handle_one D env reg r1 req db1 of
             (r2, db2, resp) \<Rightarrow> (case handle_each D env reg r2 reqs db2 of (r3, db3, resps) \<Rightarrow> (r3, db3, resp # resps))))"

definition handleGroup :: "'d decimal_pkg \<Rightarrow> engine_env \<Rightarrow> 'd Cache \<Rightarrow> 'd runner \<Rightarrow> 'd request list \<Rightarrow> tdb \<Rightarrow> 'd runner \<times> tdb \<times> 'd response list" where
  "handleGroup D env reg r reqs db =
     (case reqs of
        [req] \<Rightarrow> (case handle_one D env reg r req db of (r1, db1, resp) \<Rightarrow> (r1, db1, [resp]))
      | _ \<Rightarrow>
          (case attempt D env reg r reqs db of
             (r1, db1, Inr resps) \<Rightarrow> (r1, db1, resps)
           | (r1, db1, Inl e) \<Rightarrow> handle_each D env reg r1 reqs db1))"

section \<open>The queue\<close>

text \<open>What waits behind the first request: up to \<open>n\<close> more, until a query or a key seen before, which is held back.\<close>

fun drain_more :: "nat \<Rightarrow> string list \<Rightarrow> 'd request list \<Rightarrow> 'd request list \<times> 'd request option \<times> 'd request list" where
  "drain_more 0 seen q = ([], None, q)"
| "drain_more (Suc n) seen [] = ([], None, [])"
| "drain_more (Suc n) seen (req # q) =
     (if rq_query req \<or> request_key req \<in> set seen then ([], Some req, q)
      else case drain_more n (request_key req # seen) q of (taken, held, rest) \<Rightarrow> (req # taken, held, rest))"

definition drain :: "'d runner \<Rightarrow> 'd request \<Rightarrow> 'd request list \<Rightarrow> 'd request list \<times> 'd runner \<times> 'd request list" where
  "drain r first q =
     (case drain_more (rn_batchSize r - 1) [request_key first] q of
        (taken, held, rest) \<Rightarrow> (first # taken, r\<lparr>rn_pending := (case held of None \<Rightarrow> rn_pending r | Some x \<Rightarrow> Some x)\<rparr>, rest))"

text \<open>The next request: the one held back, or the first that waits.\<close>

definition next_request :: "'d runner \<Rightarrow> 'd request list \<Rightarrow> ('d request \<times> 'd runner \<times> 'd request list) option" where
  "next_request r q =
     (case rn_pending r of
        Some req \<Rightarrow> Some (req, r\<lparr>rn_pending := None\<rparr>, q)
      | None \<Rightarrow> (case q of [] \<Rightarrow> None | req # rest \<Rightarrow> Some (req, r, rest)))"

text \<open>A query is answered from the book in memory.\<close>

definition handle :: "'d decimal_pkg \<Rightarrow> 'd Cache \<Rightarrow> 'd runner \<Rightarrow> 'd request \<Rightarrow> tdb \<Rightarrow> 'd runner \<times> tdb \<times> 'd response" where
  "handle D reg r req db =
     (case restoreOrFail D reg r db of
        (r1, db1, Some e) \<Rightarrow> (r1, db1, err_response e)
      | (r1, db1, None) \<Rightarrow>
          (r1, db1,
           case rn_book r1 of
             None \<Rightarrow> err_response (errMatching Panic)
           | Some b \<Rightarrow>
               (if rq_depth req < 0
                then (case Book_Snapshot D b of
                        None \<Rightarrow> err_response (errMatching Panic)
                      | Some s \<Rightarrow> \<lparr>rp_result = None, rp_depth = None, rp_snapshot = Some s, rp_err = None\<rparr>)
                else (case Book_Depth D b (rq_depth req) of
                        None \<Rightarrow> err_response (errMatching Panic)
                      | Some d \<Rightarrow> \<lparr>rp_result = None, rp_depth = Some d, rp_snapshot = None, rp_err = None\<rparr>))))"

text \<open>One turn of the loop: a query, or a group; nothing when nothing waits. The responses with their requests.\<close>

definition run_turn :: "'d decimal_pkg \<Rightarrow> engine_env \<Rightarrow> 'd Cache \<Rightarrow> 'd runner \<Rightarrow> 'd request list \<Rightarrow> tdb \<Rightarrow>
    ('d runner \<times> tdb \<times> 'd request list \<times> ('d request \<times> 'd response) list) option" where
  "run_turn D env reg r q db =
     (case next_request r q of
        None \<Rightarrow> None
      | Some (req, r1, q1) \<Rightarrow>
          (if rq_query req
           then (case handle D reg r1 req db of (r2, db1, resp) \<Rightarrow> Some (r2, db1, q1, [(req, resp)]))
           else (case drain r1 req q1 of
                   (reqs, r2, q2) \<Rightarrow>
                     (case handleGroup D env reg r2 reqs db of (r3, db1, resps) \<Rightarrow> Some (r3, db1, q2, zip reqs resps)))))"

section \<open>The engine's callers\<close>

definition DefaultBatchSize :: nat where "DefaultBatchSize = 50"
definition MaxBatchSize :: nat where "MaxBatchSize = 50"

definition WithBatchSize :: "nat \<Rightarrow> int \<Rightarrow> nat" where
  "WithBatchSize batchSize n = (if n > 0 then min (nat n) MaxBatchSize else batchSize)"

text \<open>The runner of a market, if it has one; why not otherwise.\<close>

definition engine_runner :: "(string, 'd runner) mapping \<Rightarrow> 'd Cache \<Rightarrow> string \<Rightarrow> trading_error + 'd runner" where
  "engine_runner runners reg symbol =
     (case Mapping.lookup runners symbol of
        Some r \<Rightarrow> Inr r
      | None \<Rightarrow> Inl (if Cache_Market reg symbol \<noteq> None then ErrEngineUnavailable else ErrMarketNotFound))"

text \<open>A command of a bulk: nothing to do for one with neither a place nor a cancel.\<close>

definition command_request :: "'d PlaceOrderRequest option \<times> CancelRequest option \<Rightarrow> trading_error + 'd request" where
  "command_request c =
     (if fst c = None \<and> snd c = None then Inl ErrInvalidRequest
      else Inr \<lparr>rq_place = fst c, rq_cancel = snd c, rq_depth = 0, rq_query = False, rq_trace = []\<rparr>)"

section \<open>The service\<close>

text \<open>The check in front of the bus; what passes is submitted.\<close>

definition check_place :: "'d decimal_pkg \<Rightarrow> 'd Cache \<Rightarrow> 'd PlaceOrderRequest \<Rightarrow> trading_error option" where
  "check_place D reg req =
     (case Request_Validate D req of
        Some e \<Rightarrow> Some e
      | None \<Rightarrow>
          (case Cache_Market reg (pq_MarketSymbol req) of
             None \<Rightarrow> Some ErrMarketNotFound
           | Some m \<Rightarrow> if mk_Status m = MarketDelisted then Some ErrMarketNotFound else None))"

definition Service_GetOrder :: "'d decimal_pkg \<Rightarrow> string \<Rightarrow> tdb \<Rightarrow> string \<Rightarrow> string \<Rightarrow> trading_error + 'd trading_Order" where
  "Service_GetOrder D tenant db accountID orderID =
     (case load_order D db orderID of
        Inl e \<Rightarrow> Inl e
      | Inr x \<Rightarrow> (if od_TenantID x \<noteq> tenant \<or> od_AccountID x \<noteq> accountID then Inl ErrOrderNotFound else Inr x))"

text \<open>A cancel is answered at once, or goes to the runner of the order's market.\<close>

definition check_cancel :: "'d decimal_pkg \<Rightarrow> string \<Rightarrow> tdb \<Rightarrow> CancelRequest \<Rightarrow> trading_error + ('d trading_Order + string)" where
  "check_cancel D tenant db req =
     (if cq_AccountID req = [] \<or> cq_OrderID req = [] then Inl ErrInvalidRequest
      else case Service_GetOrder D tenant db (cq_AccountID req) (cq_OrderID req) of
             Inl e \<Rightarrow> Inl e
           | Inr x \<Rightarrow> Inr (if Terminal (od_Status x) then Inl x else Inr (od_MarketSymbol x)))"

definition page :: "int \<Rightarrow> int \<Rightarrow> int \<times> int" where
  "page limit offset = (if limit \<le> 0 \<or> limit > 500 then 100 else limit, if offset < 0 then 0 else offset)"

record OrdersFilter =
  sf_AccountID :: string
  sf_Market :: string
  sf_Status :: string
  sf_OpenOnly :: bool
  sf_Limit :: int
  sf_Offset :: int

definition Service_ListOrders :: "'d decimal_pkg \<Rightarrow> string \<Rightarrow> tdb \<Rightarrow> OrdersFilter \<Rightarrow> trading_error + 'd trading_Order list" where
  "Service_ListOrders D tenant db f =
     (if sf_AccountID f = [] then Inl ErrInvalidRequest
      else if sf_Status f \<noteq> [] \<and> \<not> Status_Valid (Status_of (sf_Status f)) then Inl ErrInvalidRequest
      else case page (sf_Limit f) (sf_Offset f) of
             (limit, offset) \<Rightarrow>
               ordersFromRows D (ListOrdersByAccount db tenant (sf_AccountID f) (sf_Market f) (sf_Status f) (sf_OpenOnly f) limit offset))"

definition Service_OrderTrades :: "'d decimal_pkg \<Rightarrow> string \<Rightarrow> tdb \<Rightarrow> string \<Rightarrow> string \<Rightarrow> trading_error + 'd trading_Trade list" where
  "Service_OrderTrades D tenant db accountID orderID =
     (case Service_GetOrder D tenant db accountID orderID of
        Inl e \<Rightarrow> Inl e
      | Inr _ \<Rightarrow> tradesFromRows D (ListTradesByOrder db orderID))"

record FillsFilter =
  lf_AccountID :: string
  lf_Market :: string
  lf_OrderID :: string
  lf_Limit :: int
  lf_Offset :: int

definition Service_ListFills :: "'d decimal_pkg \<Rightarrow> string \<Rightarrow> tdb \<Rightarrow> FillsFilter \<Rightarrow> trading_error + 'd Fill list" where
  "Service_ListFills D tenant db f =
     (if lf_AccountID f = [] then Inl ErrInvalidRequest
      else case page (lf_Limit f) (lf_Offset f) of
             (limit, offset) \<Rightarrow>
               (case tradesFromRows D (ListFillsByAccount db tenant (lf_AccountID f) (lf_Market f) (lf_OrderID f) limit offset) of
                  Inl e \<Rightarrow> Inl e
                | Inr trades \<Rightarrow> Inr (List.map_filter (\<lambda>t. FillOf t (lf_AccountID f)) trades)))"

definition Service_ListTrades :: "'d decimal_pkg \<Rightarrow> 'd Cache \<Rightarrow> string \<Rightarrow> tdb \<Rightarrow> string \<Rightarrow> int \<Rightarrow> int \<Rightarrow> trading_error + 'd trading_Trade list" where
  "Service_ListTrades D reg tenant db market limit offset =
     (if Cache_Market reg market = None then Inl ErrMarketNotFound
      else case page limit offset of (l, k) \<Rightarrow> tradesFromRows D (ListTradesByMarket db tenant market l k))"

end
