(* ===== verification/Ledger_Split.thy ===== *)
theory Ledger_Split
  imports Ledger_Facts
begin

text \<open>
  A posting in two parts with other statements between them, as a group of trading commands makes it:
  the locks insert the entry's row and keep the invariant of the tables; an entry that is \<open>ready\<close> stays
  so while other entries are locked and applied; applying it moves the balances by its postings.
\<close>

section \<open>An entry between its locks and its postings\<close>

definition ready :: "'d decimal_pkg \<Rightarrow> LedgerService \<Rightarrow> Ledger \<Rightarrow> EntryRow \<Rightarrow> 'd Entry \<Rightarrow> bool" where
  "ready D s L row e \<longleftrightarrow> Entry_Validate D e = None \<and> er_TenantID row = sv_tenant s \<and>
     GetJournalEntry L (er_ID row) = Some row \<and> ListPostingsByEntry L (er_ID row) = [] \<and>
     (\<forall>k \<in> set (pe_keys (pending_of D e)). account_exists L (key_account k) \<longrightarrow> k \<in> Mapping.keys (lg_balances L))"

text \<open>The tables grow: entries are added, balances created, postings added for the entries in \<open>I\<close>; the accounts stay.\<close>

definition grows :: "int set \<Rightarrow> Ledger \<Rightarrow> Ledger \<Rightarrow> bool" where
  "grows I L L1 \<longleftrightarrow> lg_accounts L1 = lg_accounts L \<and> (\<exists>es. lg_entries L1 = lg_entries L @ es) \<and>
     (\<exists>ps. lg_postings L1 = lg_postings L @ ps \<and> pr_EntryID ` set ps \<subseteq> I) \<and>
     Mapping.keys (lg_balances L) \<subseteq> Mapping.keys (lg_balances L1)"

lemma grows_refl [simp]: "grows I L L"
  by (simp add: grows_def)

lemma grows_trans: "grows I L L1 \<Longrightarrow> grows J L1 L2 \<Longrightarrow> grows (I \<union> J) L L2"
proof -
  assume a: "grows I L L1" "grows J L1 L2"
  from a(1) obtain es ps where g: "lg_accounts L1 = lg_accounts L" "lg_entries L1 = lg_entries L @ es" "lg_postings L1 = lg_postings L @ ps"
    "pr_EntryID ` set ps \<subseteq> I" "Mapping.keys (lg_balances L) \<subseteq> Mapping.keys (lg_balances L1)" unfolding grows_def by blast
  from a(2) obtain es1 ps1 where h: "lg_accounts L2 = lg_accounts L1" "lg_entries L2 = lg_entries L1 @ es1" "lg_postings L2 = lg_postings L1 @ ps1"
    "pr_EntryID ` set ps1 \<subseteq> J" "Mapping.keys (lg_balances L1) \<subseteq> Mapping.keys (lg_balances L2)" unfolding grows_def by blast
  have "lg_postings L2 = lg_postings L @ (ps @ ps1) \<and> pr_EntryID ` set (ps @ ps1) \<subseteq> I \<union> J" using g(3,4) h(3,4) by auto
  moreover have "lg_entries L2 = lg_entries L @ (es @ es1)" using g(2) h(2) by simp
  moreover have "lg_accounts L2 = lg_accounts L" "Mapping.keys (lg_balances L) \<subseteq> Mapping.keys (lg_balances L2)" using g(1,5) h(1,5) by auto
  ultimately show "grows (I \<union> J) L L2" unfolding grows_def by blast
qed

lemma grows_accounts:
  assumes "lg_accounts L1 = lg_accounts L"
  shows "GetAccount L1 = GetAccount L" "account_exists L1 = account_exists L" "GetAccounts L1 = GetAccounts L"
    "account_fits s L1 = account_fits s L"
proof -
  show a: "GetAccount L1 = GetAccount L" by (simp add: GetAccount_def assms fun_eq_iff)
  show "account_exists L1 = account_exists L" "GetAccounts L1 = GetAccounts L" "account_fits s L1 = account_fits s L"
    by (simp_all add: account_exists_def GetAccounts_def account_fits_def a fun_eq_iff)
qed

lemma ready_grows:
  assumes "ready D s L row e" and "grows I L L1" and "er_ID row \<notin> I"
  shows "ready D s L1 row e"
proof -
  from assms(2) obtain es ps where g: "lg_accounts L1 = lg_accounts L" "lg_entries L1 = lg_entries L @ es" "lg_postings L1 = lg_postings L @ ps"
    "pr_EntryID ` set ps \<subseteq> I" "Mapping.keys (lg_balances L) \<subseteq> Mapping.keys (lg_balances L1)" unfolding grows_def by blast
  have "GetJournalEntry L1 (er_ID row) = Some row"
    using assms(1) by (simp add: ready_def GetJournalEntry_def g(2) find_append)
  moreover have "ListPostingsByEntry L1 (er_ID row) = []"
    using assms(1,3) g(4) by (auto simp: ready_def ListPostingsByEntry_def g(3) filter_empty_conv)
  ultimately show ?thesis using assms(1) g(5) unfolding ready_def grows_accounts(2) [OF g(1)] by blast
qed

section \<open>The locks\<close>

context decimal
begin

lemma ledger_ok_new_entry:
  assumes L: "ledger_ok L" and key: "GetJournalEntryByKey L t (en_IdempotencyKey e) = None" and id: "GetJournalEntry L i = None"
  shows "ledger_ok (L\<lparr>lg_entries := lg_entries L @ [entry_row i t e]\<rparr>)"
    and "ListPostingsByEntry L i = []"
proof -
  let ?L = "L\<lparr>lg_entries := lg_entries L @ [entry_row i t e]\<rparr>"
  have notin: "r \<in> set (lg_entries L) \<Longrightarrow> er_ID r \<noteq> i" for r using id by (auto simp: GetJournalEntry_def find_None_iff)
  have nokey: "r \<in> set (lg_entries L) \<Longrightarrow> \<not> (er_TenantID r = t \<and> er_IdempotencyKey r = en_IdempotencyKey e)" for r
    using key by (auto simp: GetJournalEntryByKey_def find_None_iff)
  have none: "p \<in> set (lg_postings L) \<Longrightarrow> pr_EntryID p \<noteq> i" for p
    using ledger_okD(4) [OF L, of p] id by (auto simp: posting_row_ok_def)
  then show empty: "ListPostingsByEntry L i = []" by (simp add: ListPostingsByEntry_def filter_empty_conv)
  have lp: "ListPostingsByEntry ?L j = ListPostingsByEntry L j" for j by (simp add: ListPostingsByEntry_def)
  have "GetJournalEntry L j = Some r \<Longrightarrow> GetJournalEntry ?L j = Some r" for j r by (simp add: GetJournalEntry_def find_append)
  then have "\<forall>p \<in> set (lg_postings ?L). posting_row_ok ?L p"
    using ledger_okD(4) [OF L] unfolding posting_row_ok_def by fastforce
  moreover have "distinct (map er_ID (lg_entries ?L))" using ledger_okD(2) [OF L] notin by auto
  moreover have "(t, en_IdempotencyKey e) \<notin> (\<lambda>r. (er_TenantID r, er_IdempotencyKey r)) ` set (lg_entries L)"
    using nokey by fastforce
  then have "distinct (map (\<lambda>r. (er_TenantID r, er_IdempotencyKey r)) (lg_entries ?L))"
    using ledger_okD(3) [OF L] by simp
  moreover have "\<forall>r \<in> set (lg_entries ?L). \<forall>a. unet a (ListPostingsByEntry ?L (er_ID r)) = 0"
    using ledger_okD(5) [OF L] empty unfolding lp by auto
  moreover have "balance_ok ?L k" for k using ledger_okD(7) [OF L, of k] by (simp add: balance_ok_def)
  moreover have "distinct (map ar_ID (lg_accounts ?L))" "finite (Mapping.keys (lg_balances ?L))" using ledger_okD(1,6) [OF L] by simp_all
  ultimately show "ledger_ok ?L" unfolding ledger_ok_def by blast
qed

lemma LockBalances_grows:
  assumes "LockBalances L ks = (L1, rows)"
  shows "grows I L L1" "same_reads L L1" "\<forall>k \<in> set ks. account_exists L (key_account k) \<longrightarrow> k \<in> Mapping.keys (lg_balances L1)"
  using LockBalances_spec [OF assms] by (auto simp: grows_def same_reads_def)

lemma split_locks:
  assumes L: "ledger_ok L" and e: "Entry_Validate D e = None" and r: "send_locks s i (pending e) L = (L1, Inr lk)"
  shows "ledger_ok L1" "grows I L L1" "lg_postings L1 = lg_postings L" "held L1 = held L" "avail L1 = avail L"
    "lk_accounts lk = GetAccounts L (accountIDs (en_Postings e))"
    "lk_entry lk = Some row \<Longrightarrow> ready D s L1 row e \<and> GetJournalEntry L (er_ID row) = None"
proof -
  note pe = pending_facts(1) [OF e]
  have *: "ledger_ok L1 \<and> grows I L L1 \<and> lg_postings L1 = lg_postings L \<and> held L1 = held L \<and> avail L1 = avail L \<and>
    lk_accounts lk = GetAccounts L (accountIDs (en_Postings e)) \<and>
    (lk_entry lk = Some row \<longrightarrow> ready D s L1 row e \<and> GetJournalEntry L (er_ID row) = None)"
  proof (cases "GetJournalEntryByKey L (sv_tenant s) (en_IdempotencyKey e) = None")
    case False
    then have l: "LockBalances L (pe_keys (pending e)) = (L1, snd (LockBalances L (pe_keys (pending e))))"
      and lk: "lk_entry lk = None" "lk_accounts lk = GetAccounts L (accountIDs (en_Postings e))"
      using r unfolding send_locks_cases pe by auto
    from ledger_ok_lock [OF L l] LockBalances_grows [OF l] lk show ?thesis
      by (auto simp: same_reads_def held_def avail_def fun_eq_iff)
  next
    case True
    let ?L = "L\<lparr>lg_entries := lg_entries L @ [entry_row i (sv_tenant s) e]\<rparr>"
    from True r have id: "GetJournalEntry L i = None" unfolding send_locks_cases pe by (auto split: if_splits)
    from True r id have l: "LockBalances ?L (pe_keys (pending e)) = (L1, snd (LockBalances ?L (pe_keys (pending e))))"
      and lk: "lk_entry lk = Some (entry_row i (sv_tenant s) e)" "lk_accounts lk = GetAccounts L (accountIDs (en_Postings e))"
      unfolding send_locks_cases pe by (auto simp: Let_def)
    note new = ledger_ok_new_entry [OF L True id]
    note g = LockBalances_grows [OF l]
    have "grows I L ?L" by (simp add: grows_def)
    from grows_trans [OF this g(1) [of I]] have "grows I L L1" by simp
    moreover have rd: "held L1 = held L" "avail L1 = avail L" "lg_postings L1 = lg_postings L"
      using g(2) by (auto simp: same_reads_def held_def avail_def fun_eq_iff)
    moreover have "GetJournalEntry ?L i = Some (entry_row i (sv_tenant s) e)" using id by (simp add: GetJournalEntry_def find_append)
    moreover have "lg_accounts L1 = lg_accounts L" "lg_entries L1 = lg_entries ?L" using g(2) by (auto simp: same_reads_def)
    ultimately show ?thesis
      using ledger_ok_lock [OF new(1) l] lk id new(2) g(3) e
      by (auto simp: ready_def GetJournalEntry_def ListPostingsByEntry_def account_exists_def GetAccount_def)
  qed
  show "ledger_ok L1" "grows I L L1" "lg_postings L1 = lg_postings L" "held L1 = held L" "avail L1 = avail L"
    "lk_accounts lk = GetAccounts L (accountIDs (en_Postings e))" using * by blast+
  show "lk_entry lk = Some row \<Longrightarrow> ready D s L1 row e \<and> GetJournalEntry L (er_ID row) = None" using * by blast
qed

text \<open>An accepted check means that the accounts are there, of the right kinds.\<close>

lemma split_check:
  assumes e: "Entry_Validate D e = None" and "lk_accounts lk = GetAccounts L0 (accountIDs (en_Postings e))"
    and "Pending_Check D s L (pending e) lk = Inr None"
  shows "\<exists>row. lk_entry lk = Some row" and "\<forall>p \<in> set (en_Postings e). account_fits s L0 p"
proof -
  show "\<exists>row. lk_entry lk = Some row"
    using assms(3) by (auto simp: Pending_Check_def split: option.splits sum.splits)
  then have "checkAccountKinds s (lk_accounts lk) (en_Postings e) = None"
    using assms(3) by (auto simp: Pending_Check_def pending_facts(1) [OF e] split: option.splits)
  then show "\<forall>p \<in> set (en_Postings e). account_fits s L0 p" unfolding assms(2) checkAccountKinds_iff .
qed

end

section \<open>The postings\<close>

lemma ApplyBalanceDeltas_Inr:
  assumes "ApplyBalanceDeltas D bals (map (\<lambda>k. (k, dl k)) ks) = Inr (bals', rows)" and "distinct ks"
    and "k \<in> set ks" and "Mapping.lookup bals k = Some r"
  shows "\<exists>r1. apply_delta D r (dl k) = Inr r1"
  using assms
proof (induction ks arbitrary: bals rows)
  case (Cons j ks)
  show ?case
  proof (cases "j = k")
    case True
    with Cons.prems show ?thesis by (auto split: sum.splits)
  next
    case False
    then have k: "k \<in> set ks" "distinct ks" using Cons.prems by auto
    show ?thesis
    proof (cases "Mapping.lookup bals j")
      case None
      with Cons.prems(1) have "ApplyBalanceDeltas D bals (map (\<lambda>k. (k, dl k)) ks) = Inr (bals', rows)" by simp
      from Cons.IH [OF this k(2,1) Cons.prems(4)] show ?thesis .
    next
      case (Some q)
      with Cons.prems(1) obtain q1 rows1 where
        "ApplyBalanceDeltas D (Mapping.update j q1 bals) (map (\<lambda>k. (k, dl k)) ks) = Inr (bals', rows1)" by (auto split: sum.splits)
      from Cons.IH [OF this k(2,1)] False Cons.prems(4) show ?thesis by (simp add: Mapping.lookup_update')
    qed
  qed
qed simp

context decimal
begin

text \<open>An accepted second batch had the funds, and the room.\<close>

lemma applied_funded:
  assumes L: "ledger_ok L" and e: "Entry_Validate D e = None" and keys: "set (pe_keys (pending e)) \<subseteq> Mapping.keys (lg_balances L)"
    and ap: "send_apply D i (pending e) L = (L2, Inr applied)"
  shows "funded L (en_Postings e) \<and> room L (en_Postings e)"
proof -
  have ok: "\<forall>p \<in> set (en_Postings e). posting_ok p" using e by (simp add: Entry_Validate_iff)
  let ?ks = "pe_keys (pending e)" and ?rows = "map (posting_row D i) (en_Postings e)"
  have key: "0 \<le> avail L (key_account k) (key_asset k) + gain val (key_account k) (key_asset k) BucketAvailable (en_Postings e) \<and>
      avail L (key_account k) (key_asset k) + gain val (key_account k) (key_asset k) BucketAvailable (en_Postings e) < 10 ^ 18 \<and>
      0 \<le> held L (key_account k) (key_asset k) + gain val (key_account k) (key_asset k) BucketHold (en_Postings e) \<and>
      held L (key_account k) (key_asset k) + gain val (key_account k) (key_asset k) BucketHold (en_Postings e) < 10 ^ 18" if k: "k \<in> set ?ks" for k
  proof -
    from ap k obtain L1 bals rows where "InsertPostings D L i (en_Postings e) = (L1, Inr ())"
      "ApplyBalanceDeltas D (lg_balances L1) (map (\<lambda>k. (k, delta_of D (pending e) k)) ?ks) = Inr (bals, rows)"
      by (auto simp: send_apply_def pending_facts(1) [OF e] split: prod.splits sum.splits if_splits)
    then have a: "ApplyBalanceDeltas D (lg_balances L) (map (\<lambda>k. (k, delta_of D (pending e) k)) ?ks) = Inr (bals, rows)"
      by (auto simp: InsertPostings_def Let_def split: option.splits)
    have "Mapping.lookup (lg_balances L) k = Some (balance_row L k)" using k keys by (intro lookup_balance_row) blast
    from ApplyBalanceDeltas_Inr [OF a pending_facts(2) [OF e] k this] obtain r1 where
      r1: "apply_delta D (balance_row L k) (delta_of D (pending e) k) = Inr r1" by blast
    let ?a = "br_Available (balance_row L k) + ugain (key_account k) (key_asset k) BucketAvailable ?rows"
    let ?h = "br_Hold (balance_row L k) + ugain (key_account k) (key_asset k) BucketHold ?rows"
    from r1 have "in_range ?a" "in_range ?h" "0 \<le> ?a" "0 \<le> ?h"
      unfolding apply_delta_eq [OF delta_fits(3,4) [OF e k]] delta_units [OF e k, of i] by (auto simp: Let_def split: if_splits)
    then have "0 \<le> unit_val ?a" "unit_val ?a < 10 ^ 18" "0 \<le> unit_val ?h" "unit_val ?h < 10 ^ 18"
      using in_range_unit [of ?a] in_range_unit [of ?h] by (simp_all add: unit_val_def)
    then show ?thesis by (simp add: avail_def held_def ugain_rows [OF ok])
  qed
  then have "room L (en_Postings e)" unfolding room_keys [OF e L] by blast
  moreover have "funded L (en_Postings e)" unfolding funded_keys [OF e L] using key by (simp add: pending_facts(5) [OF e])
  ultimately show ?thesis by blast
qed

text \<open>The row of a posting that fits.\<close>

lemma posting_row_fits:
  assumes "posting_ok p" and "account_fits s L p" and "GetJournalEntry L i = Some row" and "er_TenantID row = sv_tenant s"
  shows "posting_row_ok L (posting_row D i p)"
proof -
  have "in_range (sent_units D (po_Amount p))" using numeric_roundtrip_lemma assms(1) by (simp add: posting_ok_def)
  moreover have "unit_val (sent_units D (po_Amount p)) = V (po_Amount p)" using sent_units posting_ok_fits [OF assms(1)] by blast
  then have "0 < sent_units D (po_Amount p)" using assms(1) by (simp flip: unit_val_less(2) add: posting_ok_def)
  ultimately show ?thesis using assms unfolding posting_row_ok_def
    by (auto simp: posting_ok_def account_fits_def split: option.splits)
qed

text \<open>The tables and the balances after the second batch.\<close>

lemma split_apply:
  assumes L: "ledger_ok L" and rd: "ready D s L row e" and fit: "\<forall>p \<in> set (en_Postings e). account_fits s L p"
    and ap: "send_apply D (er_ID row) (pending e) L = (L2, Inr applied)"
  shows "ledger_ok L2" "grows {er_ID row} L L2"
    "held L2 acct a = held L acct a + gain val acct a BucketHold (en_Postings e)"
    "avail L2 acct a = avail L acct a + gain val acct a BucketAvailable (en_Postings e)"
proof -
  let ?i = "er_ID row" and ?ks = "pe_keys (pending e)"
  let ?rows = "map (posting_row D ?i) (en_Postings e)"
  from rd have e: "Entry_Validate D e = None" and row: "er_TenantID row = sv_tenant s" "GetJournalEntry L ?i = Some row"
    "ListPostingsByEntry L ?i = []" and lk: "\<forall>k \<in> set ?ks. account_exists L (key_account k) \<longrightarrow> k \<in> Mapping.keys (lg_balances L)"
    by (auto simp: ready_def)
  have ok: "\<forall>p \<in> set (en_Postings e). posting_ok p" using e by (simp add: Entry_Validate_iff)
  have ex: "\<forall>p \<in> set (en_Postings e). account_exists L (po_AccountID p)"
    using fit by (auto simp: account_fits_def account_exists_def split: option.splits)
  have keyacc: "\<forall>k \<in> set ?ks. account_exists L (key_account k)" using ex unfolding pending_facts(4) [OF e] by auto
  with lk have keys: "set ?ks \<subseteq> Mapping.keys (lg_balances L)" by blast
  from applied_funded [OF L e keys ap] have fund: "funded L (en_Postings e)" and rm: "room L (en_Postings e)" by blast+
  from send_apply_cases [OF e L fund ex _ keys, of ?i] rm ap obtain bals where
    L2: "L2 = L\<lparr>lg_postings := lg_postings L @ ?rows, lg_balances := bals\<rparr>" "Mapping.keys bals = Mapping.keys (lg_balances L)"
    and look: "\<forall>k. Mapping.lookup bals k = (if k \<in> set ?ks then Some (new_row L ?rows k) else Mapping.lookup (lg_balances L) k)" by auto
  have acc: "lg_accounts L2 = lg_accounts L" "lg_entries L2 = lg_entries L" "lg_postings L2 = lg_postings L @ ?rows" by (simp_all add: L2(1))
  have brow: "balance_row L2 k = (if k \<in> set ?ks then new_row L ?rows k else balance_row L k)" for k
    by (simp add: balance_row_def L2(1) look)
  have row': "br_AccountID (balance_row L2 k) = br_AccountID (balance_row L k)" "br_Asset (balance_row L2 k) = br_Asset (balance_row L k)"
    "br_Available (balance_row L2 k) = br_Available (balance_row L k) + ugain (key_account k) (key_asset k) BucketAvailable ?rows"
    "br_Hold (balance_row L2 k) = br_Hold (balance_row L k) + ugain (key_account k) (key_asset k) BucketHold ?rows" for k
    using brow new_row_noop [OF e, of k _ ?i] by (auto simp: new_row_def)
  have val: "unit_val (br_Available (balance_row L2 k)) = avail L (key_account k) (key_asset k) + gain val (key_account k) (key_asset k) BucketAvailable (en_Postings e)"
    "unit_val (br_Hold (balance_row L2 k)) = held L (key_account k) (key_asset k) + gain val (key_account k) (key_asset k) BucketHold (en_Postings e)" for k
    by (simp_all add: row' ugain_rows [OF ok] avail_def held_def)
  show "held L2 acct a = held L acct a + gain val acct a BucketHold (en_Postings e)"
    "avail L2 acct a = avail L acct a + gain val acct a BucketAvailable (en_Postings e)"
    unfolding avail_def [of L2] held_def [of L2] val by simp_all
  show "grows {?i} L L2" using acc L2 by (auto simp: grows_def)
  have "0 \<le> unit_val (br_Available (balance_row L2 k)) \<and> unit_val (br_Available (balance_row L2 k)) < 10 ^ 18 \<and>
    0 \<le> unit_val (br_Hold (balance_row L2 k)) \<and> unit_val (br_Hold (balance_row L2 k)) < 10 ^ 18" for k
    unfolding val using fund rm by (simp add: funded_def room_def)
  then have rng: "0 \<le> br_Available (balance_row L2 k)" "in_range (br_Available (balance_row L2 k))"
    "0 \<le> br_Hold (balance_row L2 k)" "in_range (br_Hold (balance_row L2 k))" for k
    using unit_bounds by blast+
  note same = grows_accounts [OF acc(1)]
  have bal: "balance_ok L2 k" for k
    using balance_okD [OF ledger_okD(7) [OF L, of k]] rng [of k]
    unfolding balance_ok_def Let_def row' acc(3) same by (auto simp: L2)
  have get: "GetJournalEntry L2 j = GetJournalEntry L j" for j by (simp add: GetJournalEntry_def acc)
  have old: "posting_row_ok L2 p" if "p \<in> set (lg_postings L)" for p
    using ledger_okD(4) [OF L that] unfolding posting_row_ok_def same get .
  have new: "posting_row_ok L2 (posting_row D ?i p)" if "p \<in> set (en_Postings e)" for p
    using posting_row_fits [OF _ _ row(2,1)] ok fit that unfolding posting_row_ok_def same get by auto
  have net: "unet a (ListPostingsByEntry L2 (er_ID r)) = 0" if r: "r \<in> set (lg_entries L)" for r a
  proof (cases "er_ID r = ?i")
    case True
    have "filter (\<lambda>p. pr_EntryID p = ?i) (lg_postings L) = []" using row(3) by (simp add: ListPostingsByEntry_def)
    then have "ListPostingsByEntry L2 ?i = ?rows" by (simp add: ListPostingsByEntry_def acc filter_True)
    moreover have "unit_val (unet a ?rows) = 0" using unet_rows [OF ok] e by (simp add: Entry_Validate_iff)
    ultimately show ?thesis using True by (simp del: unit_val_less add: unit_val_less(3) [symmetric])
  next
    case False
    then have "ListPostingsByEntry L2 (er_ID r) = ListPostingsByEntry L (er_ID r)"
      by (auto simp: ListPostingsByEntry_def acc filter_empty_conv)
    with ledger_okD(5) [OF L r] show ?thesis by simp
  qed
  have "\<forall>p \<in> set (lg_postings L2). posting_row_ok L2 p" using old new unfolding acc by auto
  moreover have "finite (Mapping.keys (lg_balances L2))" using ledger_okD(6) [OF L] by (simp add: L2)
  ultimately show "ledger_ok L2"
    using ledger_okD(1,2,3) [OF L] bal net unfolding ledger_ok_def acc by blast
qed

end

end
