(* ===== verification/Matching_Sides.thy ===== *)
theory Matching_Sides
  imports Matching_Props
begin

text \<open>
  What the code around a book relies on: which orders rest after a command, on which side, and
  whose orders the trades are with.
\<close>

lemma found: "find P xs = Some x \<Longrightarrow> x \<in> set xs \<and> P x"
  by (induction xs) (auto split: if_splits)

lemma partner: "list_all2 P xs ys \<Longrightarrow> y \<in> set ys \<Longrightarrow> \<exists>x \<in> set xs. P x y"
  by (induction rule: list_all2_induct) auto

lemma mem_trades: "e \<in> set (trades evs) \<longleftrightarrow> EvTrade e \<in> set evs"
  by (induction evs) (auto simp: trades_def List.map_filter_simps split: Event.splits)

context decimal
begin

lemma snapshot_some: "book_ok D val b \<Longrightarrow> \<exists>sn. Book_Snapshot D b = Some sn"
  using snapshot_rel by (fastforce simp: book_ok_def)

text \<open>An order rests with a side exactly when the snapshot lists it there.\<close>

lemma order_resting:
  assumes "book_ok D val b" and "Book_Snapshot D b = Some sn" and "s \<in> {Buy, Sell}"
  shows "(\<exists>x. Book_Order b i = Some x \<and> ro_Side x = s) \<longleftrightarrow> i \<in> ro_OrderID ` set (resting s sn)"
proof -
  from assms(1) obtain B A where rel: "book_rel D val b B A" by (auto simp: book_ok_def)
  have r: "resting s sn = lv_orders (if s = Buy then B else A)" using snapshot_rel [OF rel] assms(2) by (auto simp: resting_def)
  have side: "x \<in> set (lv_orders B) \<Longrightarrow> ro_Side x = Buy" "x \<in> set (lv_orders A) \<Longrightarrow> ro_Side x = Sell" for x
    using rel unfolding book_rel_def wf_side_def wf_order_def lv_orders_def by fastforce+
  have dist: "distinct (map ro_OrderID (lv_orders B @ lv_orders A))" using rel by (simp add: book_rel_def lv_ids_orders)
  have find: "Book_Order b i = Some x \<longleftrightarrow> x \<in> set (lv_orders B @ lv_orders A) \<and> ro_OrderID x = i" for x
    unfolding order_lookup [OF rel]
  proof
    assume x: "x \<in> set (lv_orders B @ lv_orders A) \<and> ro_OrderID x = i"
    have "find (\<lambda>r. ro_OrderID r = ro_OrderID x) xs = Some x" if "distinct (map ro_OrderID xs)" "x \<in> set xs" for xs
      using that by (induction xs) (auto simp: image_iff)
    with x dist show "find (\<lambda>r. ro_OrderID r = i) (lv_orders B @ lv_orders A) = Some x" by blast
  qed (auto dest: found)
  show ?thesis unfolding find r using side assms(3) by auto
qed

lemma order_side: "book_ok D val b \<Longrightarrow> Book_Order b i = Some x \<Longrightarrow> ro_Side x \<in> {Buy, Sell}"
proof -
  assume "book_ok D val b" and o': "Book_Order b i = Some x"
  then obtain B A where rel: "book_rel D val b B A" by (auto simp: book_ok_def)
  from o' have "x \<in> set (lv_orders B @ lv_orders A)" unfolding order_lookup [OF rel] by (auto dest: found)
  with rel show "ro_Side x \<in> {Buy, Sell}" unfolding book_rel_def wf_side_def wf_order_def lv_orders_def by fastforce
qed

text \<open>A new order: what rests afterwards rested before on the same side, or is the new order on its
  side; the trades are with orders that rested on the other side.\<close>

lemma new_order_sides:
  assumes ok: "book_ok D val b" and new: "cmd_New cmd = Some new" and app: "Apply D b cmd = Some (b', Inr evs)"
  shows "Book_Order b' i = Some x \<Longrightarrow>
      (\<exists>y. Book_Order b i = Some y \<and> ro_Side y = ro_Side x) \<or>
      i = no_OrderID new \<and> ro_Side x = no_Side new \<and> Book_Order b i = None \<and> (\<exists>e es. evs = EvAccepted e # es)"
    and "EvTrade e \<in> set evs \<Longrightarrow> tr_TakerSide e = no_Side new \<and> no_Side new \<in> {Buy, Sell} \<and>
      (\<exists>y. Book_Order b (tr_MakerOrderID e) = Some y \<and> ro_Side y = Side_Opposite (no_Side new))"
    and "(\<exists>r. evs = [EvRejected r]) \<or> (\<exists>e es. evs = EvAccepted e # es)"
proof -
  have ok': "book_ok D val b'" using apply_total [OF ok, of cmd] app by auto
  obtain sn sn' where sn: "Book_Snapshot D b = Some sn" "Book_Snapshot D b' = Some sn'"
    using snapshot_some ok ok' by blast
  note rest = order_resting [OF ok sn(1)] order_resting [OF ok' sn(2)]
  have *: "(\<forall>i x. Book_Order b' i = Some x \<longrightarrow> (\<exists>y. Book_Order b i = Some y \<and> ro_Side y = ro_Side x) \<or>
      i = no_OrderID new \<and> ro_Side x = no_Side new \<and> Book_Order b i = None \<and> (\<exists>e es. evs = EvAccepted e # es)) \<and>
    (\<forall>e. EvTrade e \<in> set evs \<longrightarrow> tr_TakerSide e = no_Side new \<and> no_Side new \<in> {Buy, Sell} \<and>
      (\<exists>y. Book_Order b (tr_MakerOrderID e) = Some y \<and> ro_Side y = Side_Opposite (no_Side new))) \<and>
    ((\<exists>r. evs = [EvRejected r]) \<or> (\<exists>e es. evs = EvAccepted e # es))"
    using ok sn new app
  proof (cases rule: new_order_cases)
    case (reject reason)
    then have "Book_Order b' = Book_Order b" by (simp add: Book_Order_def fun_eq_iff)
    then show ?thesis using reject(1) by (auto simp: rejected_def)
  next
    case (accept X Y t tevs rests final L)
    note s = accept(2)
    have opp: "Side_Opposite (no_Side new) \<in> {Buy, Sell}" "s \<in> {Buy, Sell} \<Longrightarrow> s = no_Side new \<or> s = Side_Opposite (no_Side new)" for s
      using s by (auto simp: Side_Opposite_def)
    have acc: "\<exists>e es. evs = EvAccepted e # es" using accept(8) by (simp add: accepted_event_def)
    have fresh: "Book_Order b (no_OrderID new) = None"
    proof (rule ccontr)
      assume "Book_Order b (no_OrderID new) \<noteq> None"
      then obtain y where y: "Book_Order b (no_OrderID new) = Some y" by auto
      with order_side [OF ok y] rest(1) accept(16) show False by auto
    qed
    have L: "ro_OrderID ` set (lv_orders L) \<subseteq> ro_OrderID ` set (lv_orders X)"
      using walk_ids [OF accept(3,4,5,6)] unfolding lv_orders_flat by (auto simp: image_comp)
    have Y: "ro_OrderID ` set (lv_orders (if rests then lv_insert D (no_Side new) (resting_of cmd t) Y else Y)) \<subseteq>
        insert (no_OrderID new) (ro_OrderID ` set (lv_orders Y))"
    proof (cases rests)
      case True
      have "tk_o t = default_tif new"
        using walk_taker [OF accept(3,4,5,6)] by simp
      then have "ro_OrderID (resting_of cmd t) = no_OrderID new" by (simp add: resting_of_def)
      moreover have "sorted_wrt (val_better val (no_Side new)) (map fst Y)"
        using accept(13) s by (auto simp: book_rel_at_def wf_side_def Side_Opposite_def split: if_splits)
      ultimately show ?thesis using True by (auto simp: lv_orders_insert)
    qed auto
    have rests: "(\<exists>y. Book_Order b i = Some y \<and> ro_Side y = ro_Side x) \<or> i = no_OrderID new \<and> ro_Side x = no_Side new"
      if i: "Book_Order b' i = Some x" for i x
    proof (cases "ro_Side x = no_Side new")
      case True
      with i rest(2) [OF s, of i] have "i \<in> ro_OrderID ` set (resting (no_Side new) sn')" by blast
      then have "i = no_OrderID new \<or> i \<in> ro_OrderID ` set (resting (no_Side new) sn)"
        using Y accept(11,12) by auto
      then show ?thesis using rest(1) [OF s, of i] True by auto
    next
      case False
      with order_side [OF ok' i] opp(2) have side: "ro_Side x = Side_Opposite (no_Side new)" by blast
      with i rest(2) [OF opp(1), of i] have "i \<in> ro_OrderID ` set (lv_orders L)" using accept(10) by auto
      with L have "i \<in> ro_OrderID ` set (resting (Side_Opposite (no_Side new)) sn)" using accept(9) by auto
      then show ?thesis using rest(1) [OF opp(1), of i] side by auto
    qed
    have trade: "tr_TakerSide e = no_Side new \<and> tr_MakerOrderID e \<in> ro_OrderID ` set (lv_orders X)"
      if "EvTrade e \<in> set evs" for e
    proof -
      have "e \<in> set (trades evs)" using that by (simp add: mem_trades)
      then have e: "e \<in> set (trades tevs)" using outcome_events(1) [OF accept(7)] by (simp add: accept(8))
      from walk_priority [OF accept(3,4,5,6)] obtain pm where pm: "pm \<in> set (take (length (trades tevs)) (flat X))"
        "case pm of (p, m) \<Rightarrow> tr_MakerOrderID e = ro_OrderID m"
        unfolding walk_result_def using partner [OF _ e] by fastforce
      have "\<exists>pm \<in> set (flat X). tr_MakerOrderID e = ro_OrderID (snd pm)"
        by (rule bexI [of _ pm]) (use pm in \<open>auto dest: in_set_takeD\<close>)
      moreover have "tr_TakerSide e = no_Side new" using walk_trades [OF accept(3,4,5,6)] e by auto
      ultimately show ?thesis by (auto simp: lv_orders_flat)
    qed
    have "\<exists>y. Book_Order b (tr_MakerOrderID e) = Some y \<and> ro_Side y = Side_Opposite (no_Side new)" if "EvTrade e \<in> set evs" for e
      using trade [OF that] rest(1) [OF opp(1), of "tr_MakerOrderID e"] accept(9) by simp
    with trade rests fresh acc s show ?thesis by blast
  qed
  show "Book_Order b' i = Some x \<Longrightarrow>
      (\<exists>y. Book_Order b i = Some y \<and> ro_Side y = ro_Side x) \<or>
      i = no_OrderID new \<and> ro_Side x = no_Side new \<and> Book_Order b i = None \<and> (\<exists>e es. evs = EvAccepted e # es)" using * by blast
  show "EvTrade e \<in> set evs \<Longrightarrow> tr_TakerSide e = no_Side new \<and> no_Side new \<in> {Buy, Sell} \<and>
      (\<exists>y. Book_Order b (tr_MakerOrderID e) = Some y \<and> ro_Side y = Side_Opposite (no_Side new))" using * by blast
  show "(\<exists>r. evs = [EvRejected r]) \<or> (\<exists>e es. evs = EvAccepted e # es)" using * by blast
qed

text \<open>A cancel and a skipped sequence number only take orders away.\<close>

lemma cancel_sides:
  assumes ok: "book_ok D val b" and cmd: "cmd_New cmd = None" "cmd_Cancel cmd = Some c"
    and app: "Apply D b cmd = Some (b', Inr evs)" and x: "Book_Order b' i = Some x"
  shows "\<exists>y. Book_Order b i = Some y \<and> ro_Side y = ro_Side x"
proof -
  from ok obtain B A where rel: "book_rel D val b B A" by (auto simp: book_ok_def)
  have seq: "bk_lastSeq b < cmd_Seq cmd" using app by (auto simp: Apply_def not_le split: if_splits option.splits)
  from rel cmd seq show ?thesis
  proof (cases rule: apply_cancel_cases)
    case (cancelled r b1)
    with app have b1: "b1 = b'" by simp
    from x have "find (\<lambda>r. ro_OrderID r = i) (lv_orders (lv_remove (ro_OrderID r) B) @ lv_orders (lv_remove (ro_OrderID r) A)) = Some x"
      using order_lookup [OF cancelled(5)] by (simp add: b1)
    then have "x \<in> set (lv_orders B @ lv_orders A)" "ro_OrderID x = i"
      by (auto dest!: found simp: lv_orders_remove)
    moreover have "distinct (map ro_OrderID (lv_orders B @ lv_orders A))" using rel by (simp add: book_rel_def lv_ids_orders)
    moreover have "find (\<lambda>r. ro_OrderID r = ro_OrderID x) xs = Some x" if "distinct (map ro_OrderID xs)" "x \<in> set xs" for xs
      using that by (induction xs) (auto simp: image_iff)
    ultimately have "Book_Order b i = Some x" unfolding order_lookup [OF rel] by blast
    then show ?thesis by blast
  qed (use app x in \<open>auto simp: Book_Order_def\<close>)
qed

lemma advance_sides:
  assumes ok: "book_ok D val b" and adv: "Advance b seq = Inr b'" and "bk_lastSeq b < bk_lastSeq b + 1"
  shows "book_ok D val b'" "Book_Order b' = Book_Order b" "bk_lastSeq b' = bk_lastSeq b + 1"
proof -
  from adv have b': "b' = b\<lparr>bk_lastSeq := bk_lastSeq b + 1\<rparr>" by (auto simp: Advance_def split: if_splits)
  show "Book_Order b' = Book_Order b" "bk_lastSeq b' = bk_lastSeq b + 1" by (simp_all add: b' Book_Order_def fun_eq_iff)
  from ok obtain B A where "book_rel D val b B A" by (auto simp: book_ok_def)
  then have "book_rel D val b' B A" unfolding b' using assms(3) by (intro book_rel_seq) auto
  then show "book_ok D val b'" by (auto simp: book_ok_def)
qed

text \<open>A restored book: its orders are the given ones.\<close>

lemma validateResting_None:
  assumes "validateResting D cfg r = None"
  shows "wf_order val cfg (ro_Side r) (ro_Price r) r" "wf_price val cfg (ro_Price r)" "ro_Side r \<in> {Buy, Sell}"
  using assms by (auto simp: validateResting_def wf_order_def wf_price_def multiple_iff split: if_splits)

lemma restore_loop_orders:
  assumes "book_rel D val b B A" and "restore_loop D b rs = Inr b'" and "sorted (map ro_Seq rs)"
    and "\<forall>x \<in> set (lv_orders B @ lv_orders A). \<forall>r \<in> set rs. ro_Seq x \<le> ro_Seq r"
  shows "\<exists>B' A'. book_rel D val b' B' A' \<and> set (lv_orders B' @ lv_orders A') = set (lv_orders B @ lv_orders A) \<union> set rs"
  using assms
proof (induction rs arbitrary: b B A)
  case (Cons r rs)
  note rel = Cons.prems(1)
  define b2 where "b2 = (let b1 = rest_order D b r in if ro_Seq r > bk_lastSeq b1 then b1\<lparr>bk_lastSeq := ro_Seq r\<rparr> else b1)"
  from Cons.prems(2) have v: "validateResting D (bk_cfg b) r = None" and none: "Mapping.lookup (bk_byID b) (ro_OrderID r) = None"
    and rest: "restore_loop D b2 rs = Inr b'"
    by (auto simp: b2_def Let_def split: option.splits if_splits)
  note wf = validateResting_None [OF v]
  let ?side = "ro_Side r" let ?X = "if ro_Side r = Buy then B else A" and ?Y = "if ro_Side r = Buy then A else B"
  let ?n = "if ro_Seq r > bk_lastSeq b then ro_Seq r else bk_lastSeq b"
  have at: "book_rel_at D val b ?side ?X ?Y" using rel wf(3) by (auto simp: book_rel_at_iff)
  have fr: "ro_OrderID r \<notin> set (lv_ids ?X @ lv_ids ?Y)"
    using none rel unfolding book_rel_def by (auto simp: Mapping.keys_dom_lookup)
  have sq: "\<forall>x \<in> snd ` set (flat ?X). ro_Seq x \<le> ro_Seq r" using Cons.prems(4) by (auto simp: lv_orders_flat)
  have n: "bk_lastSeq b \<le> ?n" "ro_Seq r \<le> ?n" by auto
  note res = rest_order_rel [OF at wf(1,2) fr sq n]
  have b2: "b2 = (rest_order D b r)\<lparr>bk_lastSeq := ?n\<rparr>" unfolding b2_def using res(3) by (simp add: Let_def)
  let ?B = "if ro_Side r = Buy then lv_insert D Buy r B else B" and ?A = "if ro_Side r = Sell then lv_insert D Sell r A else A"
  have "book_rel D val b2 ?B ?A" using res(1) wf(3) unfolding b2 by (auto simp: book_rel_at_iff)
  moreover have orders: "set (lv_orders ?B @ lv_orders ?A) = insert r (set (lv_orders B @ lv_orders A))"
    using wf(3) book_rel_sorted [OF rel] by (auto simp: lv_orders_insert)
  moreover have "\<forall>x \<in> set (lv_orders ?B @ lv_orders ?A). \<forall>r \<in> set rs. ro_Seq x \<le> ro_Seq r"
    unfolding orders using Cons.prems(3,4) by auto
  ultimately show ?case using Cons.IH [OF _ rest, of ?B ?A] Cons.prems(3) by auto
qed auto

lemma restore_sides:
  assumes "New D cfg = Inr b0" and "Restore D b0 n rs = Inr b"
  shows "book_ok D val b" and "Book_Order b i = Some x \<Longrightarrow> \<exists>r \<in> set rs. ro_OrderID r = i \<and> ro_Side r = ro_Side x"
proof -
  from assms(2) have loop: "restore_loop D (b0\<lparr>bk_lastSeq := n\<rparr>) (sort_key ro_Seq rs) = Inr b" by (auto simp: Restore_def split: if_splits)
  have "book_rel D val (b0\<lparr>bk_lastSeq := n\<rparr>) [] []" using new_rel [OF assms(1)] by (intro book_rel_seq) auto
  from restore_loop_orders [OF this loop] obtain B A where rel: "book_rel D val b B A" "set (lv_orders B @ lv_orders A) = set rs" by auto
  then show "book_ok D val b" by (auto simp: book_ok_def)
  show "\<exists>r \<in> set rs. ro_OrderID r = i \<and> ro_Side r = ro_Side x" if "Book_Order b i = Some x"
    using found [OF that [unfolded order_lookup [OF rel(1)]]] rel(2) by auto
qed

end

end
