(* ===== verification/Trading_Holds.thy ===== *)
theory Trading_Holds
  imports Trading_Runner Ledger_Split Matching_Sides
begin

text \<open>
  Orders and holds. The engine keeps what an order has frozen in three places: the hold bucket of
  the ledger, the row of the order and the resting orders in memory. This theory says how the three
  agree (\<open>hold_sum\<close>, \<open>cache_ok\<close>, \<open>book_backed\<close>) and what the ledger entries of a group do to them.
\<close>

section \<open>What the rows say is frozen\<close>

text \<open>An order whose value in memory differs from its row is looked up in \<open>ov\<close> first.\<close>

definition order_hold :: "(string \<Rightarrow> rat option) \<Rightarrow> OrderRow \<Rightarrow> rat" where
  "order_hold ov r = (case ov (or_ID r) of None \<Rightarrow> unit_val (or_HoldRemaining r) | Some v \<Rightarrow> v)"

definition hold_sum :: "(string \<Rightarrow> rat option) \<Rightarrow> OrderRow list \<Rightarrow> string \<Rightarrow> string \<Rightarrow> rat" where
  "hold_sum ov rows acct a =
     (\<Sum>r\<leftarrow>rows. if or_AccountID r = acct \<and> or_HoldAsset r = a then order_hold ov r else 0)"

definition frozen_in :: "OrderRow list \<Rightarrow> string \<Rightarrow> string \<Rightarrow> rat" where
  "frozen_in rows = hold_sum (\<lambda>_. None) rows"

lemma hold_sum_simps [simp]:
  "hold_sum ov [] acct a = 0"
  "hold_sum ov (r # rows) acct a = (if or_AccountID r = acct \<and> or_HoldAsset r = a then order_hold ov r else 0) + hold_sum ov rows acct a"
  "hold_sum ov (rows @ rows') acct a = hold_sum ov rows acct a + hold_sum ov rows' acct a"
  by (simp_all add: hold_sum_def)

lemma hold_sum_cong: "(\<And>r. r \<in> set rows \<Longrightarrow> order_hold ov r = order_hold ov' r) \<Longrightarrow> hold_sum ov rows acct a = hold_sum ov' rows acct a"
  by (induction rows) auto

lemma hold_sum_absent: "i \<notin> or_ID ` set rows \<Longrightarrow> hold_sum (ov(i := y)) rows acct a = hold_sum ov rows acct a"
  by (rule hold_sum_cong) (auto simp: order_hold_def)

lemma hold_sum_upd:
  assumes "distinct (map or_ID rows)" and "r \<in> set rows" and "or_ID r = i"
  shows "hold_sum (ov(i := Some v)) rows acct a =
    hold_sum ov rows acct a + (if or_AccountID r = acct \<and> or_HoldAsset r = a then v - order_hold ov r else 0)"
  using assms
proof (induction rows)
  case (Cons x rows)
  show ?case
  proof (cases "x = r")
    case True
    with Cons.prems have "i \<notin> or_ID ` set rows" by auto
    then have "hold_sum (ov(i := Some v)) rows acct a = hold_sum ov rows acct a" by (rule hold_sum_absent)
    moreover have "order_hold (ov(i := Some v)) r = v" using Cons.prems(3) by (simp add: order_hold_def)
    ultimately show ?thesis using True by (simp del: fun_upd_apply)
  next
    case False
    with Cons.prems have "or_ID x \<noteq> i" "r \<in> set rows" by force+
    with Cons show ?thesis by (simp add: order_hold_def)
  qed
qed simp

text \<open>Forgetting a value that the row has.\<close>

lemma hold_sum_forget:
  assumes "distinct (map or_ID rows)" and "r \<in> set rows" and "or_ID r = i" and "\<And>v. ov i = Some v \<Longrightarrow> unit_val (or_HoldRemaining r) = v"
  shows "hold_sum (ov(i := None)) rows acct a = hold_sum ov rows acct a"
proof (rule hold_sum_cong)
  fix x assume "x \<in> set rows"
  with assms(1,2,3) have "or_ID x = i \<Longrightarrow> x = r" by (metis distinct_map inj_onD)
  with assms(3,4) show "order_hold (ov(i := None)) x = order_hold ov x" by (auto simp: order_hold_def split: option.split)
qed

section \<open>Changing the row of an order\<close>

definition same_order :: "OrderRow \<Rightarrow> OrderRow \<Rightarrow> bool" where
  "same_order r r1 \<longleftrightarrow> or_ID r1 = or_ID r \<and> or_AccountID r1 = or_AccountID r \<and> or_HoldAsset r1 = or_HoldAsset r \<and>
     or_MarketID r1 = or_MarketID r \<and> or_Side r1 = or_Side r"

lemma same_order_refl [simp]: "same_order r r"
  by (simp add: same_order_def)

lemma find_ID:
  assumes "distinct (map or_ID rows)" and "r \<in> set rows" and "or_ID r = i"
  shows "find (\<lambda>x. or_ID x = i) rows = Some r"
  using find_distinct_SomeI [OF assms(1,2)] assms(3) by simp

lemma set_order_mem:
  assumes "distinct (map or_ID rows)" and "r \<in> set rows" and "or_ID r1 = or_ID r"
  shows "set (set_order r1 rows) = insert r1 (set rows - {r})" "map or_ID (set_order r1 rows) = map or_ID rows"
proof -
  have "x \<in> set rows \<Longrightarrow> or_ID x = or_ID r1 \<longleftrightarrow> x = r" for x using assms by (metis distinct_map inj_onD)
  with assms(2) show "set (set_order r1 rows) = insert r1 (set rows - {r})" by (auto simp: set_order_def)
  show "map or_ID (set_order r1 rows) = map or_ID rows" by (simp add: set_order_def)
qed

lemma set_order_static:
  assumes "distinct (map or_ID rows)" and "r \<in> set rows" and "same_order r r1"
  shows "x \<in> set rows \<Longrightarrow> \<exists>y \<in> set (set_order r1 rows). same_order x y \<and> (or_ID x \<noteq> or_ID r \<longrightarrow> y = x)"
    and "y \<in> set (set_order r1 rows) \<Longrightarrow> \<exists>x \<in> set rows. same_order x y"
proof -
  have id: "or_ID r1 = or_ID r" using assms(3) by (simp add: same_order_def)
  note mem = set_order_mem(1) [OF assms(1,2) id]
  show "x \<in> set rows \<Longrightarrow> \<exists>y \<in> set (set_order r1 rows). same_order x y \<and> (or_ID x \<noteq> or_ID r \<longrightarrow> y = x)"
    unfolding mem by (cases "x = r") (use assms(3) in \<open>auto intro: bexI [of _ x]\<close>)
  show "y \<in> set (set_order r1 rows) \<Longrightarrow> \<exists>x \<in> set rows. same_order x y"
    unfolding mem using assms(2,3) by (cases "y = r1") (auto intro: bexI [of _ y])
qed

lemma set_order_absent: "or_ID r1 \<notin> or_ID ` set rows \<Longrightarrow> set_order r1 rows = rows"
  unfolding set_order_def by (induction rows) auto

lemma hold_sum_set_order:
  assumes "distinct (map or_ID rows)" and "r \<in> set rows" and "same_order r r1"
  shows "hold_sum ov (set_order r1 rows) acct a =
    hold_sum ov rows acct a + (if or_AccountID r = acct \<and> or_HoldAsset r = a then order_hold ov r1 - order_hold ov r else 0)"
  using assms(1,2)
proof (induction rows)
  case (Cons x rows)
  show ?case
  proof (cases "x = r")
    case True
    with Cons.prems have "or_ID r1 \<notin> or_ID ` set rows" using assms(3) by (simp add: same_order_def)
    then have "set_order r1 rows = rows" by (rule set_order_absent)
    with True assms(3) show ?thesis by (auto simp: set_order_def same_order_def)
  next
    case False
    with Cons.prems have "or_ID x \<noteq> or_ID r1" "r \<in> set rows" using assms(3) by (auto simp: same_order_def)
    with Cons show ?thesis by (auto simp: set_order_def)
  qed
qed simp

section \<open>Rows, memory and book\<close>

text \<open>Orders of the market freeze quote when they buy and base when they sell.\<close>

definition side_asset :: "'d registry_Market \<Rightarrow> string \<Rightarrow> string" where
  "side_asset m side = (if side = ''buy'' then mk_QuoteSymbol m else mk_BaseSymbol m)"

definition rows_ok :: "'d registry_Market \<Rightarrow> OrderRow list \<Rightarrow> bool" where
  "rows_ok m rows \<longleftrightarrow> distinct (map or_ID rows) \<and>
     (\<forall>r \<in> set rows. or_MarketID r = mk_ID m \<longrightarrow> or_HoldAsset r = side_asset m (or_Side r))"

text \<open>The row of an order in memory: the same order, and as much frozen.\<close>

definition backed :: "OrderRow list \<Rightarrow> 'd trading_Order \<Rightarrow> bool" where
  "backed rows x \<longleftrightarrow> (\<exists>r \<in> set rows. or_ID r = od_ID x \<and> or_AccountID r = od_AccountID x \<and> or_HoldAsset r = od_HoldAsset x)"

definition level :: "('d \<Rightarrow> rat) \<Rightarrow> OrderRow list \<Rightarrow> 'd trading_Order \<Rightarrow> bool" where
  "level val rows x \<longleftrightarrow> (\<exists>r \<in> set rows. or_ID r = od_ID x \<and> unit_val (or_HoldRemaining r) = amt_val val (od_HoldRemaining x))"

text \<open>The resting orders in memory; those in \<open>dirty\<close> may have another value than their row.\<close>

definition cache_ok :: "('d \<Rightarrow> rat) \<Rightarrow> OrderRow list \<Rightarrow> (string, 'd trading_Order) mapping \<Rightarrow> string set \<Rightarrow> bool" where
  "cache_ok val rows O' dirty \<longleftrightarrow> (\<forall>i x. Mapping.lookup O' i = Some x \<longrightarrow>
     od_ID x = i \<and> backed rows x \<and> fits 18 (amt_val val (od_HoldRemaining x)) \<and> (i \<notin> dirty \<longrightarrow> level val rows x))"

text \<open>Every order of the book has a row, of the market and on the same side.\<close>

definition book_backed :: "'d registry_Market \<Rightarrow> OrderRow list \<Rightarrow> 'd Book \<Rightarrow> bool" where
  "book_backed m rows b \<longleftrightarrow> (\<forall>i y. Book_Order b i = Some y \<longrightarrow>
     (\<exists>r \<in> set rows. or_ID r = i \<and> or_MarketID r = mk_ID m \<and> or_Side r = Side_String (ro_Side y)))"

text \<open>The values in memory: those of the resting orders, and of the order of the command.\<close>

definition memory :: "('d \<Rightarrow> rat) \<Rightarrow> (string, 'd trading_Order) mapping \<Rightarrow> string \<Rightarrow> rat option" where
  "memory val O' i = map_option (\<lambda>x. amt_val val (od_HoldRemaining x)) (Mapping.lookup O' i)"

definition with_order :: "('d \<Rightarrow> rat) \<Rightarrow> 'd trading_Order \<Rightarrow> (string \<Rightarrow> rat option) \<Rightarrow> string \<Rightarrow> rat option" where
  "with_order val x ov = ov(od_ID x := Some (amt_val val (od_HoldRemaining x)))"

lemma memory_simps [simp]:
  "memory val (Mapping.update i x O') = (memory val O')(i := Some (amt_val val (od_HoldRemaining x)))"
  "memory val (Mapping.delete i O') = (memory val O')(i := None)" "memory val Mapping.empty = (\<lambda>_. None)"
  by (auto simp: memory_def fun_eq_iff Mapping.lookup_update')

text \<open>When nothing is dirty the memory says what the rows say.\<close>

lemma memory_level:
  assumes "distinct (map or_ID rows)" and "cache_ok val rows O' {}"
  shows "hold_sum (memory val O') rows acct a = frozen_in rows acct a"
  unfolding frozen_in_def
proof (rule hold_sum_cong)
  fix r assume r: "r \<in> set rows"
  show "order_hold (memory val O') r = order_hold (\<lambda>_. None) r"
  proof (cases "Mapping.lookup O' (or_ID r)")
    case (Some x)
    with assms(2) have "od_ID x = or_ID r" "level val rows x" by (auto simp: cache_ok_def)
    then obtain q where "q \<in> set rows" "or_ID q = or_ID r" "unit_val (or_HoldRemaining q) = amt_val val (od_HoldRemaining x)"
      by (auto simp: level_def)
    moreover from this assms(1) r have "q = r" by (metis distinct_map inj_onD)
    ultimately show ?thesis using Some by (simp add: order_hold_def memory_def)
  qed (simp add: order_hold_def memory_def)
qed

text \<open>What depends on the identities alone survives a new row and a changed one.\<close>

lemma backed_mono: "\<lbrakk>backed rows x; \<And>r. r \<in> set rows \<Longrightarrow> \<exists>r1 \<in> set rows1. same_order r r1\<rbrakk> \<Longrightarrow> backed rows1 x"
  unfolding backed_def same_order_def by metis

lemma book_backed_mono:
  "\<lbrakk>book_backed m rows b; \<And>r. r \<in> set rows \<Longrightarrow> \<exists>r1 \<in> set rows1. same_order r r1\<rbrakk> \<Longrightarrow> book_backed m rows1 b"
  unfolding book_backed_def same_order_def by metis

lemma cache_ok_same_rows:
  assumes "cache_ok val rows O' dirty" and "\<And>r. r \<in> set rows \<Longrightarrow> \<exists>r1 \<in> set rows1. same_order r r1 \<and> (or_ID r \<notin> d \<longrightarrow> r1 = r)"
  shows "cache_ok val rows1 O' (dirty \<union> d)"
  unfolding cache_ok_def
proof (intro allI impI conjI)
  fix i x assume x: "Mapping.lookup O' i = Some x"
  with assms(1) have *: "od_ID x = i" "backed rows x" "fits 18 (amt_val val (od_HoldRemaining x))" "i \<notin> dirty \<longrightarrow> level val rows x"
    by (auto simp: cache_ok_def)
  then show "od_ID x = i" "fits 18 (amt_val val (od_HoldRemaining x))" by blast+
  show "backed rows1 x" by (rule backed_mono [OF *(2)]) (use assms(2) in blast)
  show "level val rows1 x" if "i \<notin> dirty \<union> d" using that * assms(2) unfolding level_def by fastforce
qed

lemma rows_ok_append:
  assumes "rows_ok m rows" and "or_ID r \<notin> or_ID ` set rows" and "or_MarketID r = mk_ID m \<longrightarrow> or_HoldAsset r = side_asset m (or_Side r)"
  shows "rows_ok m (rows @ [r])"
  using assms by (auto simp: rows_ok_def)

lemma rows_ok_set_order:
  assumes "rows_ok m rows" and "r \<in> set rows" and "same_order r r1"
  shows "rows_ok m (set_order r1 rows)"
proof -
  have d: "distinct (map or_ID rows)" using assms(1) by (simp add: rows_ok_def)
  have id: "or_ID r1 = or_ID r" using assms(3) by (simp add: same_order_def)
  note s = set_order_static(2) [OF d assms(2,3)]
  show ?thesis unfolding rows_ok_def
  proof (intro conjI ballI impI)
    show "distinct (map or_ID (set_order r1 rows))" using d set_order_mem(2) [OF d assms(2) id] by simp
    fix y assume "y \<in> set (set_order r1 rows)" "or_MarketID y = mk_ID m"
    with s assms(1) show "or_HoldAsset y = side_asset m (or_Side y)" unfolding rows_ok_def same_order_def by metis
  qed
qed

end
