(* ===== verification/Trading_Flights.thy ===== *)
theory Trading_Flights
  imports Trading_Holds
begin

text \<open>
  The ledger entries of a group between their two batches: \<open>in_flight\<close> says what holds of the entries
  whose locks are taken and whose postings are not yet written, and the lemmas what \<open>QueueLocks\<close>,
  \<open>QueueApply\<close> and \<open>apply_flights\<close> do to it and to the holds.
\<close>

definition waiting :: "'d decimal_pkg \<Rightarrow> LedgerService \<Rightarrow> Ledger \<Rightarrow> 'd flight \<Rightarrow> bool" where
  "waiting D s L f \<longleftrightarrow> (\<exists>e. ff_pe f = pending_of D e \<and> Entry_Validate D e = None \<and>
     (\<forall>row. locked_row f = Some row \<longrightarrow> ready D s L row e) \<and>
     (\<forall>lk. ff_locked f = Some lk \<longrightarrow> lk_accounts lk = GetAccounts L (accountIDs (en_Postings e))))"

definition row_ids :: "'d flight \<Rightarrow> int list" where
  "row_ids f = (case locked_row f of None \<Rightarrow> [] | Some row \<Rightarrow> [er_ID row])"

definition entry_ids :: "'d flight list \<Rightarrow> int list" where
  "entry_ids fs = concat (map row_ids fs)"

definition in_flight :: "'d decimal_pkg \<Rightarrow> LedgerService \<Rightarrow> Ledger \<Rightarrow> 'd flight list \<Rightarrow> bool" where
  "in_flight D s L fs \<longleftrightarrow> (\<forall>f \<in> set fs. waiting D s L f) \<and> distinct (entry_ids fs)"

text \<open>What an entry, and a list of them, adds to the hold bucket of an account.\<close>

definition flight_gain :: "('d \<Rightarrow> rat) \<Rightarrow> 'd flight \<Rightarrow> string \<Rightarrow> string \<Rightarrow> rat" where
  "flight_gain val f acct a = gain val acct a BucketHold (en_Postings (pe_e (ff_pe f)))"

definition total_gain :: "('d \<Rightarrow> rat) \<Rightarrow> 'd flight list \<Rightarrow> string \<Rightarrow> string \<Rightarrow> rat" where
  "total_gain val fs acct a = (\<Sum>f\<leftarrow>fs. flight_gain val f acct a)"

lemma flight_simps [simp]:
  "entry_ids [] = []" "entry_ids (fs @ fs') = entry_ids fs @ entry_ids fs'" "entry_ids (f # fs) = row_ids f @ entry_ids fs"
  "total_gain val [] acct a = 0" "total_gain val (f # fs) acct a = flight_gain val f acct a + total_gain val fs acct a"
  "total_gain val (fs @ fs') acct a = total_gain val fs acct a + total_gain val fs' acct a"
  by (simp_all add: entry_ids_def total_gain_def)

lemma in_flight_simps:
  "in_flight D s L []" "in_flight D s L (fs @ fs') \<Longrightarrow> in_flight D s L fs'"
  by (simp_all add: in_flight_def)

lemma in_flight_mset:
  assumes "in_flight D s L fs" and "mset fs = mset fs'"
  shows "in_flight D s L fs'"
proof -
  have "mset (entry_ids gs) = (\<Sum>f\<in>#mset gs. mset (row_ids f))" for gs :: "'a flight list"
    by (induction gs) (auto simp: entry_ids_def)
  with assms(2) have "mset (entry_ids fs) = mset (entry_ids fs')" by simp
  then have "distinct (entry_ids fs) = distinct (entry_ids fs')" by (rule mset_eq_imp_distinct_iff)
  with assms mset_eq_setD [OF assms(2)] show ?thesis by (simp add: in_flight_def)
qed

lemma total_gain_mset: "mset fs = mset fs' \<Longrightarrow> total_gain val fs acct a = total_gain val fs' acct a"
  unfolding total_gain_def by (metis mset_map sum_mset_sum_list)

lemma waiting_grows:
  assumes "waiting D s L f" and "grows I L L1" and "set (row_ids f) \<inter> I = {}"
  shows "waiting D s L1 f"
proof -
  from assms(1) obtain e where e: "ff_pe f = pending_of D e" "Entry_Validate D e = None"
    "\<And>row. locked_row f = Some row \<Longrightarrow> ready D s L row e"
    "\<And>lk. ff_locked f = Some lk \<Longrightarrow> lk_accounts lk = GetAccounts L (accountIDs (en_Postings e))" unfolding waiting_def by blast
  have acc: "lg_accounts L1 = lg_accounts L" using assms(2) by (simp add: grows_def)
  have "ready D s L1 row e" if "locked_row f = Some row" for row
    using ready_grows [OF e(3) [OF that] assms(2)] assms(3) that by (simp add: row_ids_def)
  with e show ?thesis unfolding waiting_def grows_accounts(3) [OF acc] by blast
qed

lemma waiting_entry: "waiting D s L f \<Longrightarrow> i \<in> set (row_ids f) \<Longrightarrow> GetJournalEntry L i \<noteq> None"
  by (cases "locked_row f") (auto simp: waiting_def row_ids_def ready_def)

lemma in_flight_grows:
  assumes "in_flight D s L fs" and "grows I L L1" and "set (entry_ids fs) \<inter> I = {}"
  shows "in_flight D s L1 fs"
proof -
  have "set (row_ids f) \<subseteq> set (entry_ids fs)" if "f \<in> set fs" for f
    using that by (auto simp: entry_ids_def)
  with assms show ?thesis unfolding in_flight_def by (blast intro: waiting_grows)
qed

context decimal
begin

section \<open>Locks\<close>

lemma QueueLocks_ok:
  assumes L: "ledger_ok (db_ledger (g_db g))" and f: "ff_pe f = pending e" "Entry_Validate D e = None"
    and r: "QueueLocks env att f g = Inr (f1, g1)"
  obtains L1 lk where "g1 = g\<lparr>g_db := (g_db g)\<lparr>db_ledger := L1\<rparr>, g_entries := Suc (g_entries g)\<rparr>" "f1 = f\<lparr>ff_locked := Some lk\<rparr>"
    "ledger_ok L1" "grows {} (db_ledger (g_db g)) L1" "held L1 = held (db_ledger (g_db g))"
    "waiting D (ee_ledger env) L1 f1" "\<And>i. i \<in> set (row_ids f1) \<Longrightarrow> GetJournalEntry (db_ledger (g_db g)) i = None"
proof -
  let ?L = "db_ledger (g_db g)" and ?s = "ee_ledger env"
  from r obtain L1 lk where sl: "send_locks ?s (ee_entryID env att (g_entries g)) (pending e) ?L = (L1, Inr lk)"
    and g1: "g1 = g\<lparr>g_db := (g_db g)\<lparr>db_ledger := L1\<rparr>, g_entries := Suc (g_entries g)\<rparr>" "f1 = f\<lparr>ff_locked := Some lk\<rparr>"
    by (auto simp: QueueLocks_def f(1) split: prod.splits sum.splits)
  note lk = split_locks [OF L f(2) sl]
  have row: "locked_row f1 = lk_entry lk" by (simp add: locked_row_def g1)
  have acc: "lg_accounts L1 = lg_accounts ?L" using lk(2) [of "{}"] by (simp add: grows_def)
  have "waiting D ?s L1 f1"
    unfolding waiting_def grows_accounts(3) [OF acc] row using f lk(6,7) by (intro exI [of _ e]) (auto simp: g1)
  moreover have "GetJournalEntry ?L i = None" if "i \<in> set (row_ids f1)" for i
    using that lk(7) by (auto simp: row_ids_def row split: option.splits)
  ultimately show thesis using that [OF g1] lk(1,4) lk(2) [of "{}"] by blast
qed

text \<open>The new entry joins those in flight.\<close>

lemma in_flight_lock:
  assumes "in_flight D s L fs" and "grows {} L L1" and "waiting D s L1 f1" and "\<And>i. i \<in> set (row_ids f1) \<Longrightarrow> GetJournalEntry L i = None"
  shows "in_flight D s L1 (fs @ [f1])"
proof -
  have "in_flight D s L1 fs" using assms(1,2) by (rule in_flight_grows) simp
  moreover have "distinct (row_ids f1)" by (simp add: row_ids_def split: option.split)
  moreover have "set (entry_ids fs) \<inter> set (row_ids f1) = {}"
  proof (rule ccontr)
    assume "set (entry_ids fs) \<inter> set (row_ids f1) \<noteq> {}"
    then obtain i f where "i \<in> set (row_ids f1)" "f \<in> set fs" "i \<in> set (row_ids f)" by (auto simp: entry_ids_def)
    with waiting_entry [of D s L f i] assms(1,4) show False by (auto simp: in_flight_def)
  qed
  ultimately show ?thesis using assms(3) by (auto simp: in_flight_def)
qed

section \<open>Postings\<close>

lemma flight_checked:
  assumes "waiting D (ee_ledger env) L f" and "flight_check D env f g = Inr False"
  shows "\<exists>row. locked_row f = Some row" and "\<forall>p \<in> set (en_Postings (pe_e (ff_pe f))). account_fits (ee_ledger env) L p"
proof -
  from assms(1) obtain e where e: "ff_pe f = pending e" "Entry_Validate D e = None"
    "\<And>lk. ff_locked f = Some lk \<Longrightarrow> lk_accounts lk = GetAccounts L (accountIDs (en_Postings e))" unfolding waiting_def by blast
  from assms(2) obtain lk where lk: "ff_locked f = Some lk" "Pending_Check D (ee_ledger env) (db_ledger (g_db g)) (pending e) lk = Inr None"
    by (auto simp: flight_check_def e(1) split: option.splits sum.splits)
  note c = split_check [OF e(2) e(3) [OF lk(1)] lk(2)]
  show "\<exists>row. locked_row f = Some row" using c(1) by (simp add: locked_row_def lk(1))
  show "\<forall>p \<in> set (en_Postings (pe_e (ff_pe f))). account_fits (ee_ledger env) L p"
    using c(2) by (simp add: e(1) pending_facts(1) [OF e(2)])
qed

lemma QueueApply_ok:
  assumes L: "ledger_ok (db_ledger (g_db g))" and w: "waiting D (ee_ledger env) (db_ledger (g_db g)) f"
    and c: "\<forall>p \<in> set (en_Postings (pe_e (ff_pe f))). account_fits (ee_ledger env) (db_ledger (g_db g)) p"
    and r: "QueueApply D f g = Inr (f1, g1)"
  obtains L2 where "g1 = g\<lparr>g_db := (g_db g)\<lparr>db_ledger := L2\<rparr>\<rparr>" "ff_pe f1 = ff_pe f" "ledger_ok L2"
    "grows (set (row_ids f)) (db_ledger (g_db g)) L2"
    "\<And>acct a. held L2 acct a = held (db_ledger (g_db g)) acct a + flight_gain val f acct a"
proof -
  let ?L = "db_ledger (g_db g)"
  from w obtain e where e: "ff_pe f = pending e" "Entry_Validate D e = None"
    "\<And>row. locked_row f = Some row \<Longrightarrow> ready D (ee_ledger env) ?L row e" unfolding waiting_def by blast
  from r obtain row L2 rows where row: "locked_row f = Some row" and ap: "send_apply D (er_ID row) (pending e) ?L = (L2, Inr rows)"
    and g1: "g1 = g\<lparr>g_db := (g_db g)\<lparr>db_ledger := L2\<rparr>\<rparr>" "f1 = f\<lparr>ff_applied := rows\<rparr>"
    by (auto simp: QueueApply_def e(1) split: option.splits prod.splits sum.splits)
  have pe: "pe_e (ff_pe f) = e" by (simp add: e(1) pending_facts(1) [OF e(2)])
  note s = split_apply [OF L e(3) [OF row] c [unfolded pe] ap]
  have "row_ids f = [er_ID row]" by (simp add: row_ids_def row)
  with s g1 show thesis by (intro that [of L2]) (simp_all add: flight_gain_def pe)
qed

text \<open>The entries of a list, each checked and written.\<close>

lemma apply_flights_ok:
  assumes "ledger_ok (db_ledger (g_db g))" and "in_flight D (ee_ledger env) (db_ledger (g_db g)) (fs @ rest)"
    and "apply_flights D env fs g = Inr (fs1, g1)"
  shows "\<exists>L1. g1 = g\<lparr>g_db := (g_db g)\<lparr>db_ledger := L1\<rparr>\<rparr> \<and> map ff_pe fs1 = map ff_pe fs \<and> ledger_ok L1 \<and>
    in_flight D (ee_ledger env) L1 rest \<and> lg_accounts L1 = lg_accounts (db_ledger (g_db g)) \<and>
    (\<forall>acct a. held L1 acct a = held (db_ledger (g_db g)) acct a + total_gain val fs acct a)"
  using assms
proof (induction fs arbitrary: g fs1 g1)
  case Nil
  then show ?case by (intro exI [of _ "db_ledger (g_db g)"]) auto
next
  case (Cons f fs)
  let ?L = "db_ledger (g_db g)" and ?s = "ee_ledger env"
  from Cons.prems(3) obtain f2 g2 fs2 where c: "checkEntry D env f g = None" and q: "QueueApply D f g = Inr (f2, g2)"
    and r: "apply_flights D env fs g2 = Inr (fs2, g1)" "fs1 = f2 # fs2"
    by (auto split: option.splits sum.splits prod.splits)
  have w: "waiting D ?s ?L f" using Cons.prems(2) by (simp add: in_flight_def)
  have ck: "flight_check D env f g = Inr False" using c by (auto simp: checkEntry_def split: sum.splits bool.splits)
  obtain L2 where L2: "g2 = g\<lparr>g_db := (g_db g)\<lparr>db_ledger := L2\<rparr>\<rparr>" "ff_pe f2 = ff_pe f" "ledger_ok L2" "grows (set (row_ids f)) ?L L2"
    "\<And>acct a. held L2 acct a = held ?L acct a + flight_gain val f acct a"
    using QueueApply_ok [OF Cons.prems(1) w flight_checked(2) [OF w ck] q] by blast
  have "in_flight D ?s ?L (fs @ rest)" "set (entry_ids (fs @ rest)) \<inter> set (row_ids f) = {}"
    using Cons.prems(2) by (auto simp: in_flight_def)
  from in_flight_grows [OF this(1) L2(4) this(2)] have "in_flight D ?s (db_ledger (g_db g2)) (fs @ rest)" by (simp add: L2(1))
  moreover have "ledger_ok (db_ledger (g_db g2))" using L2(3) by (simp add: L2(1))
  ultimately obtain L1 where L1: "g1 = g2\<lparr>g_db := (g_db g2)\<lparr>db_ledger := L1\<rparr>\<rparr>" "map ff_pe fs2 = map ff_pe fs" "ledger_ok L1"
    "in_flight D ?s L1 rest" "lg_accounts L1 = lg_accounts (db_ledger (g_db g2))"
    "\<forall>acct a. held L1 acct a = held (db_ledger (g_db g2)) acct a + total_gain val fs acct a"
    using Cons.IH [OF _ _ r(1)] by blast
  have "lg_accounts L2 = lg_accounts ?L" using L2(4) by (simp add: grows_def)
  with L1 L2(1,2,5) r(2) show ?case by (intro exI [of _ L1]) simp
qed

section \<open>Entries begun\<close>

lemma begun_pe: "ff_pe f = pending e \<Longrightarrow> Entry_Validate D e = None \<Longrightarrow> flight_gain val f acct a = gain val acct a BucketHold (en_Postings e)"
  by (simp add: flight_gain_def pending_facts(1))

lemma fits_flight:
  assumes "ff_pe f = pending e" and "Entry_Validate D e = None"
  shows "fits 18 (flight_gain val f acct a)"
  unfolding begun_pe [OF assms] using assms(2) by (intro fits_gain) (simp add: Entry_Validate_iff)

lemma move_begun:
  assumes "is_move from to p e" "from \<in> {BucketAvailable, BucketHold}" "to \<in> {BucketAvailable, BucketHold}" and "Service_Begin D e = Inr pe"
  shows "pe = pending e" "Entry_Validate D e = None" "fits 18 (V (hp_Amount p))"
proof -
  show v: "Entry_Validate D e = None" "pe = pending e" using assms(4) by (auto simp: Service_Begin_eq split: option.splits)
  from move_valid [OF assms(1-3)] v(1) have "move_ok p" by simp
  then show "fits 18 (V (hp_Amount p))" by (auto simp: move_ok_def Validate_iff MaxScale_def)
qed

lemma BeginHold_ok:
  assumes "BeginHold D p = Inr f"
  obtains e where "f = new_flight (pending e)" "Entry_Validate D e = None" "fits 18 (V (hp_Amount p))"
    "\<And>acct a. flight_gain val f acct a = (if acct = hp_AccountID p \<and> a = hp_Asset p then V (hp_Amount p) else 0)"
proof -
  from assms obtain e pe where e: "holdEntry D p = Inr e" "Service_Begin D e = Inr pe" "f = new_flight pe"
    by (auto simp: BeginHold_def split: sum.splits)
  note mv = moves(1) [OF e(1)]
  have b: "pe = pending e" "Entry_Validate D e = None" "fits 18 (V (hp_Amount p))" using move_begun [OF mv _ _ e(2)] by simp_all
  have f: "f = new_flight (pending e)" using b(1) e(3) by simp
  have "flight_gain val f acct a = gain val acct a BucketHold (en_Postings e)" for acct a
    using begun_pe [of f e] b(2) by (simp add: f new_flight_def)
  with that [OF f b(2,3)] move_gain [OF mv] show thesis by simp
qed

lemma BeginRelease_ok:
  assumes "BeginRelease D p = Inr f"
  obtains e where "f = new_flight (pending e)" "Entry_Validate D e = None" "fits 18 (V (hp_Amount p))"
    "\<And>acct a. flight_gain val f acct a = (if acct = hp_AccountID p \<and> a = hp_Asset p then - V (hp_Amount p) else 0)"
proof -
  from assms obtain e pe where e: "releaseEntry D p = Inr e" "Service_Begin D e = Inr pe" "f = new_flight pe"
    by (auto simp: BeginRelease_def split: sum.splits)
  note mv = moves(2) [OF e(1)]
  have b: "pe = pending e" "Entry_Validate D e = None" "fits 18 (V (hp_Amount p))" using move_begun [OF mv _ _ e(2)] by simp_all
  have f: "f = new_flight (pending e)" using b(1) e(3) by simp
  have "flight_gain val f acct a = gain val acct a BucketHold (en_Postings e)" for acct a
    using begun_pe [of f e] b(2) by (simp add: f new_flight_def)
  with that [OF f b(2,3)] move_gain [OF mv] show thesis by simp
qed

lemma BeginSettle_ok:
  assumes "BeginSettle D s p = Inr (f, res)"
  obtains e where "f = new_flight (pending e)" "Entry_Validate D e = None" "sp_BaseAsset p \<noteq> sp_QuoteAsset p"
    "\<And>acct a. flight_gain val f acct a = trade_held val p res acct a"
proof -
  from assms obtain e pe fr where e: "BuildSettleEntry D p fr = Inr (e, res)" "Service_Begin D e = Inr pe" "f = new_flight pe"
    by (auto simp: BeginSettle_def settleEntry_def split: sum.splits prod.splits)
  note b = settle_built [OF e(1)]
  have pe: "pe = pending e" using e(2) b(1) by (simp add: Service_Begin_eq)
  have "sp_BaseAsset p \<noteq> sp_QuoteAsset p" using b(2) by (auto simp: settle_error_def split: if_splits)
  with that [of e] b(1,9) e(3) pe show thesis by (simp add: begun_pe [of _ e] new_flight_def)
qed

end

end
