(* ===== verification/Trading_Walk.thy ===== *)
theory Trading_Walk
  imports Trading_Flights
begin

text \<open>
  The walk of a placed order through the events of the book. \<open>walk_ok\<close> ties the ledger, the entries in
  flight and the orders in memory together; every event moves the three by the same amount, whatever
  the event says.
\<close>

definition walk_ok :: "'d decimal_pkg \<Rightarrow> ('d \<Rightarrow> rat) \<Rightarrow> LedgerService \<Rightarrow> (string \<Rightarrow> string \<Rightarrow> rat) \<Rightarrow> 'd command \<Rightarrow> 'd grp \<Rightarrow> bool" where
  "walk_ok D val s H c g \<longleftrightarrow>
     ledger_ok (db_ledger (g_db g)) \<and> in_flight D s (db_ledger (g_db g)) (cm_settles c @ cm_releases c) \<and>
     distinct (map or_ID (db_orders (g_db g))) \<and>
     cache_ok val (db_orders (g_db g)) (g_orders g) (set (cm_makers c)) \<and>
     backed (db_orders (g_db g)) (cm_order c) \<and> fits 18 (amt_val val (od_HoldRemaining (cm_order c))) \<and>
     Mapping.lookup (g_orders g) (od_ID (cm_order c)) = None \<and>
     (\<forall>acct a. held (db_ledger (g_db g)) acct a + total_gain val (cm_settles c @ cm_releases c) acct a
        - hold_sum (with_order val (cm_order c) (memory val (g_orders g))) (db_orders (g_db g)) acct a = H acct a)"

text \<open>Two versions of an order.\<close>

definition kept :: "'d trading_Order \<Rightarrow> 'd trading_Order \<Rightarrow> bool" where
  "kept x y \<longleftrightarrow> od_ID y = od_ID x \<and> od_AccountID y = od_AccountID x \<and> od_HoldAsset y = od_HoldAsset x"

lemma kept_refl [simp]: "kept x x"
  by (simp add: kept_def)

lemma kept_trans: "kept x y \<Longrightarrow> kept y z \<Longrightarrow> kept x z"
  by (simp add: kept_def)

lemma backed_kept: "backed rows x \<Longrightarrow> kept x y \<Longrightarrow> backed rows y"
  by (simp add: backed_def kept_def)

text \<open>The change of what an order has frozen, seen per account and asset.\<close>

definition hold_change :: "('d \<Rightarrow> rat) \<Rightarrow> 'd trading_Order \<Rightarrow> 'd trading_Order \<Rightarrow> string \<Rightarrow> string \<Rightarrow> rat" where
  "hold_change val x y acct a =
     (if acct = od_AccountID x \<and> a = od_HoldAsset x then amt_val val (od_HoldRemaining y) - amt_val val (od_HoldRemaining x) else 0)"

lemma hold_change_same [simp]: "od_HoldRemaining y = od_HoldRemaining x \<Longrightarrow> hold_change val x y acct a = 0"
  by (simp add: hold_change_def)

text \<open>The order an event is about: the order of the command, or a resting one that is among the makers.\<close>

definition about :: "string \<Rightarrow> 'd trading_Order \<Rightarrow> 'd command \<Rightarrow> 'd grp \<Rightarrow> bool" where
  "about i x c g \<longleftrightarrow>
     (if i = od_ID (cm_order c) then x = cm_order c else Mapping.lookup (g_orders g) i = Some x \<and> i \<in> set (cm_makers c))"

lemma order_hold_with:
  assumes "od_ID y = or_ID r" shows "order_hold (with_order val y ov) r = amt_val val (od_HoldRemaining y)"
  using assms by (simp add: order_hold_def with_order_def)

lemma set_order_sum:
  assumes d: "distinct (map or_ID rows)" and c: "cache_ok val rows O' dirty" and t: "backed rows t" "Mapping.lookup O' (od_ID t) = None"
    and x: "if i = od_ID t then x = t else Mapping.lookup O' i = Some x" and k: "kept x y"
  shows "hold_sum (if i = od_ID t then with_order val y (memory val O') else with_order val t (memory val (Mapping.update i y O'))) rows acct a =
    hold_sum (with_order val t (memory val O')) rows acct a + hold_change val x y acct a"
proof -
  let ?ov = "with_order val t (memory val O')"
  have i: "od_ID x = i" and b: "backed rows x" using x c t by (auto simp: cache_ok_def split: if_splits)
  then obtain r where r: "r \<in> set rows" "or_ID r = i" "or_AccountID r = od_AccountID x" "or_HoldAsset r = od_HoldAsset x"
    by (auto simp: backed_def)
  have "order_hold ?ov r = amt_val val (od_HoldRemaining x)"
    using x r(2) by (auto simp: order_hold_def with_order_def memory_def split: if_splits)
  moreover have "(if i = od_ID t then with_order val y (memory val O') else with_order val t (memory val (Mapping.update i y O'))) =
      ?ov(i := Some (amt_val val (od_HoldRemaining y)))"
    using k i by (auto simp: with_order_def kept_def fun_eq_iff)
  ultimately show ?thesis using hold_sum_upd [OF d r(1,2)] r(3,4) by (auto simp: hold_change_def)
qed

text \<open>What the walk does not touch.\<close>

definition frame :: "'d command \<Rightarrow> 'd grp \<Rightarrow> 'd command \<Rightarrow> 'd grp \<Rightarrow> bool" where
  "frame c g c' g' \<longleftrightarrow> db_orders (g_db g') = db_orders (g_db g) \<and> lg_accounts (db_ledger (g_db g')) = lg_accounts (db_ledger (g_db g)) \<and>
     db_sequences (g_db g') = db_sequences (g_db g) \<and> g_next g' = g_next g \<and> g_book g' = g_book g \<and> kept (cm_order c) (cm_order c') \<and>
     cm_req c' = cm_req c \<and> cm_done c' = cm_done c \<and> cm_sp c' = cm_sp c \<and> cm_rejected c' = cm_rejected c \<and>
     cm_progress c' = cm_progress c \<and> cm_touched c' = cm_touched c \<and> cm_final c' = cm_final c"

lemma frame_refl [simp]: "frame c g c g"
  by (simp add: frame_def)

lemma frame_trans: "frame c g c1 g1 \<Longrightarrow> frame c1 g1 c2 g2 \<Longrightarrow> frame c g c2 g2"
  by (simp add: frame_def kept_def)

context decimal
begin

abbreviation walk :: "engine_env \<Rightarrow> (string \<Rightarrow> string \<Rightarrow> rat) \<Rightarrow> 'd command \<Rightarrow> 'd grp \<Rightarrow> bool" where
  "walk env \<equiv> walk_ok D val (ee_ledger env)"

lemma loadMaker_ok:
  assumes "walk env H c g" and "loadMaker i c g = Inr (c1, x)"
  shows "walk env H c1 g" "about i x c1 g" "od_ID x = i" "i \<noteq> od_ID (cm_order c)" "\<exists>ms. c1 = c\<lparr>cm_makers := ms\<rparr>"
proof -
  from assms(2) have x: "Mapping.lookup (g_orders g) i = Some x" and c1: "c1 = c\<lparr>cm_makers := (if i \<in> set (cm_makers c) then cm_makers c else cm_makers c @ [i])\<rparr>"
    by (auto simp: loadMaker_def split: option.splits if_splits)
  show "\<exists>ms. c1 = c\<lparr>cm_makers := ms\<rparr>" using c1 by blast
  from assms(1) have cache: "cache_ok val (db_orders (g_db g)) (g_orders g) (set (cm_makers c))"
    and none: "Mapping.lookup (g_orders g) (od_ID (cm_order c)) = None" by (simp_all add: walk_ok_def)
  then show "od_ID x = i" "i \<noteq> od_ID (cm_order c)" using x by (auto simp: cache_ok_def)
  then show "about i x c1 g" using x by (simp add: about_def c1)
  have "cache_ok val (db_orders (g_db g)) (g_orders g) (set (cm_makers c1))" using cache by (auto simp: cache_ok_def c1)
  then show "walk env H c1 g" using assms(1) by (simp add: walk_ok_def c1)
qed

lemma event_order_ok:
  assumes "walk env H c g" and "event_order i c g = Inr (c1, x)"
  shows "walk env H c1 g" "about i x c1 g" "od_ID x = i" "\<exists>ms. c1 = c\<lparr>cm_makers := ms\<rparr>"
proof -
  have "walk env H c1 g \<and> about i x c1 g \<and> od_ID x = i \<and> (\<exists>ms. c1 = c\<lparr>cm_makers := ms\<rparr>)"
  proof (cases "i = od_ID (cm_order c)")
    case True
    with assms show ?thesis by (auto simp: event_order_def about_def intro!: exI [of _ "cm_makers c"])
  next
    case False
    with assms loadMaker_ok [OF assms(1), of i c1 x] show ?thesis by (auto simp: event_order_def)
  qed
  then show "walk env H c1 g" "about i x c1 g" "od_ID x = i" "\<exists>ms. c1 = c\<lparr>cm_makers := ms\<rparr>" by blast+
qed

text \<open>A new version of the order moves the difference by the change of its hold.\<close>

lemma set_event_order_ok:
  assumes w: "walk env H c g" and x: "about i x c g" and k: "kept x y" "fits 18 (V (od_HoldRemaining y))"
    and r: "set_event_order i y c g = (c1, g1)" and H': "\<And>acct a. H' acct a = H acct a - hold_change val x y acct a"
  shows "walk env H' c1 g1" "kept (cm_order c) (cm_order c1)"
proof -
  let ?rows = "db_orders (g_db g)"
  from w have d: "distinct (map or_ID ?rows)" and cache: "cache_ok val ?rows (g_orders g) (set (cm_makers c))"
    and t: "backed ?rows (cm_order c)" "Mapping.lookup (g_orders g) (od_ID (cm_order c)) = None" by (auto simp: walk_ok_def)
  have x': "if i = od_ID (cm_order c) then x = cm_order c else Mapping.lookup (g_orders g) i = Some x"
    using x by (auto simp: about_def split: if_splits)
  note sum = set_order_sum [OF d cache t x' k(1)]
  have i: "od_ID x = i" using x' cache by (auto simp: cache_ok_def split: if_splits)
  have id: "od_ID y = i" using k(1) i by (simp add: kept_def)
  show "kept (cm_order c) (cm_order c1)" using r k(1) x' by (auto simp: set_event_order_def split: if_splits)
  show "walk env H' c1 g1"
  proof (cases "i = od_ID (cm_order c)")
    case True
    then have c1: "c1 = c\<lparr>cm_order := y\<rparr>" "g1 = g" using r by (auto simp: set_event_order_def)
    have "backed ?rows y" using backed_kept [OF t(1)] k(1) x' True by simp
    with w True k(2) sum H' id show ?thesis by (simp add: walk_ok_def c1) (simp add: algebra_simps)
  next
    case False
    then have c1: "c1 = c" "g1 = put_order y g" using r by (auto simp: set_event_order_def)
    have "cache_ok val ?rows (Mapping.update i y (g_orders g)) (set (cm_makers c))"
    proof -
      have "backed ?rows y" using backed_kept [OF _ k(1)] cache x' False by (auto simp: cache_ok_def)
      with cache k(2) id x False show ?thesis by (auto simp: cache_ok_def about_def Mapping.lookup_update')
    qed
    with w False sum H' id show ?thesis by (simp add: walk_ok_def c1 put_order_def Mapping.lookup_update') (simp add: algebra_simps)
  qed
qed

lemma about_fits: "walk env H c g \<Longrightarrow> about i x c g \<Longrightarrow> fits 18 (V (od_HoldRemaining x))"
  by (auto simp: walk_ok_def about_def cache_ok_def split: if_splits)

lemma set_event_frame:
  assumes "set_event_order i y c g = (c1, g1)" and "about i x c g" and "kept x y"
  shows "frame c g c1 g1"
  using assms by (auto simp: set_event_order_def frame_def about_def put_order_def split: if_splits)

text \<open>An entry whose locks are taken joins those in flight.\<close>

lemma lock_ok:
  assumes w: "walk env H c g" and f: "ff_pe f = pending e" "Entry_Validate D e = None" and r: "QueueLocks env att f g = Inr (f1, g1)"
    and c1: "mset (cm_settles c1 @ cm_releases c1) = mset (cm_settles c @ cm_releases c @ [f1])" "cm_order c1 = cm_order c" "cm_makers c1 = cm_makers c"
    and H': "\<And>acct a. H' acct a = H acct a + flight_gain val f acct a"
  shows "walk env H' c1 g1" "frame c g c g1" "g_orders g1 = g_orders g"
proof -
  let ?L = "db_ledger (g_db g)"
  have L: "ledger_ok ?L" using w by (simp add: walk_ok_def)
  obtain L1 lk where g1: "g1 = g\<lparr>g_db := (g_db g)\<lparr>db_ledger := L1\<rparr>, g_entries := Suc (g_entries g)\<rparr>" "f1 = f\<lparr>ff_locked := Some lk\<rparr>"
    and L1: "ledger_ok L1" "grows {} ?L L1" "held L1 = held ?L" "waiting D (ee_ledger env) L1 f1"
      "\<And>i. i \<in> set (row_ids f1) \<Longrightarrow> GetJournalEntry ?L i = None"
    using QueueLocks_ok [OF L f r] by blast
  have "in_flight D (ee_ledger env) ?L (cm_settles c @ cm_releases c)" using w by (simp add: walk_ok_def)
  then have "in_flight D (ee_ledger env) L1 ((cm_settles c @ cm_releases c) @ [f1])"
    by (rule in_flight_lock [OF _ L1(2,4)]) (rule L1(5))
  then have "in_flight D (ee_ledger env) L1 (cm_settles c1 @ cm_releases c1)"
    by (rule in_flight_mset) (simp add: c1(1) del: mset_append)
  moreover have "total_gain val (cm_settles c1 @ cm_releases c1) acct a = total_gain val (cm_settles c @ cm_releases c) acct a + flight_gain val f acct a" for acct a
    using total_gain_mset [OF c1(1)] by (simp add: g1(2) flight_gain_def)
  ultimately show "walk env H' c1 g1" using w L1(1,3) c1(2,3) H' by (simp add: walk_ok_def g1(1)) (simp add: algebra_simps)
  show "frame c g c g1" "g_orders g1 = g_orders g" using L1(2) by (simp_all add: frame_def g1(1) grows_def)
qed

lemma walk_insensitive:
  assumes "cm_order c1 = cm_order c" "cm_makers c1 = cm_makers c" "cm_settles c1 = cm_settles c" "cm_releases c1 = cm_releases c"
    and "db_ledger (g_db g1) = db_ledger (g_db g)" "db_orders (g_db g1) = db_orders (g_db g)" "g_orders g1 = g_orders g"
  shows "walk env H c1 g1 = walk env H c g"
  by (simp add: walk_ok_def assms)

lemma add_event_simps [simp]:
  "cm_order (add_event ty acct p c) = cm_order c" "cm_makers (add_event ty acct p c) = cm_makers c"
  "cm_settles (add_event ty acct p c) = cm_settles c" "cm_releases (add_event ty acct p c) = cm_releases c"
  "cm_req (add_event ty acct p c) = cm_req c" "cm_done (add_event ty acct p c) = cm_done c" "cm_sp (add_event ty acct p c) = cm_sp c"
  "cm_rejected (add_event ty acct p c) = cm_rejected c" "cm_progress (add_event ty acct p c) = cm_progress c"
  "cm_final (add_event ty acct p c) = cm_final c" "cm_touched (add_event ty acct p c) = cm_touched c"
  by (simp_all add: add_event_def)

section \<open>Trades\<close>

text \<open>The settlement takes from the hold of the two orders what it takes from the two accounts.\<close>

lemma beginSettle_ok:
  assumes r: "beginSettle D env r m now seq e taker maker g = Inr (t, f, taker1, maker1, g1)"
    and a: "od_HoldAsset taker = (if tr_TakerSide e = Buy then mk_QuoteSymbol m else mk_BaseSymbol m)"
      "od_HoldAsset maker = (if tr_TakerSide e = Buy then mk_BaseSymbol m else mk_QuoteSymbol m)"
    and fit: "fits 18 (V (od_HoldRemaining taker))" "fits 18 (V (od_HoldRemaining maker))"
  obtains en where "ff_pe f = pending en" "Entry_Validate D en = None" "kept taker taker1" "kept maker maker1"
    "fits 18 (V (od_HoldRemaining taker1))" "fits 18 (V (od_HoldRemaining maker1))" "g1 = g\<lparr>g_draws := Suc (g_draws g)\<rparr>"
    "\<And>acct a. flight_gain val f acct a = hold_change val taker taker1 acct a + hold_change val maker maker1 acct a"
proof -
  define tid where "tid = ee_newID env (rn_attempt r) (g_draws g) now"
  let ?p = "settle_params D m tid e taker maker"
  from r obtain res where b: "BeginSettle D (ee_ledger env) ?p = Inr (f, res)" and g1: "g1 = g\<lparr>g_draws := Suc (g_draws g)\<rparr>"
    and t1: "taker1 = (if tr_TakerSide e = Buy then buyer_after D e res taker else seller_after D e taker)"
    and m1: "maker1 = (if tr_TakerSide e = Buy then seller_after D e maker else buyer_after D e res maker)"
    by (auto simp: beginSettle_def Let_def tid_def split: sum.splits prod.splits if_splits)
  obtain en where f: "f = new_flight (pending en)" and v: "Entry_Validate D en = None" and ne: "sp_BaseAsset ?p \<noteq> sp_QuoteAsset ?p"
    and gain: "\<And>acct a. flight_gain val f acct a = trade_held val ?p res acct a" using BeginSettle_ok [OF b] by blast
  have pe: "ff_pe f = pending en" by (simp add: f new_flight_def)
  have ne': "mk_BaseSymbol m \<noteq> mk_QuoteSymbol m" using ne by (simp add: settle_params_def Let_def)
  have k: "kept taker taker1" "kept maker maker1" by (simp_all add: t1 m1 kept_def buyer_after_def seller_after_def)
  have eq: "flight_gain val f acct a = hold_change val taker taker1 acct a + hold_change val maker maker1 acct a" for acct a
    unfolding gain using ne' assms(2,3)
    by (auto simp: trade_held_def hold_change_def settle_params_def Let_def t1 m1 buyer_after_def seller_after_def split: if_splits)
  have th: "fits 18 (trade_held val ?p res acct a)" for acct a using fits_flight [OF pe v, of acct a] by (simp add: gain)
  have "V (od_HoldRemaining taker1) = V (od_HoldRemaining taker) + trade_held val ?p res (od_AccountID taker) (od_HoldAsset taker)"
    "V (od_HoldRemaining maker1) = V (od_HoldRemaining maker) + trade_held val ?p res (od_AccountID maker) (od_HoldAsset maker)"
    using ne' assms(2,3) by (auto simp: trade_held_def settle_params_def Let_def t1 m1 buyer_after_def seller_after_def split: if_splits)
  then have "fits 18 (V (od_HoldRemaining taker1))" "fits 18 (V (od_HoldRemaining maker1))"
    using fits_add [OF fit(1) th] fits_add [OF fit(2) th] by simp_all
  with that [OF pe v k _ _ g1 eq] show thesis by blast
qed

definition trade_sides :: "'d registry_Market \<Rightarrow> OrderRow list \<Rightarrow> 'd trading_Order \<Rightarrow> 'd Event \<Rightarrow> bool" where
  "trade_sides m rows t ev \<longleftrightarrow> (\<forall>e. ev = EvTrade e \<longrightarrow>
     od_HoldAsset t = (if tr_TakerSide e = Buy then mk_QuoteSymbol m else mk_BaseSymbol m) \<and>
     (\<exists>r \<in> set rows. or_ID r = tr_MakerOrderID e \<and> or_HoldAsset r = (if tr_TakerSide e = Buy then mk_BaseSymbol m else mk_QuoteSymbol m)))"

lemma walk_trade_ok:
  assumes w: "walk env H c g" and s: "trade_sides m (db_orders (g_db g)) (cm_order c) (EvTrade e)"
    and r: "walk_trade D env r m seq e c g = Inr (c', g')"
  shows "walk env H c' g' \<and> frame c g c' g'"
proof -
  let ?i = "tr_MakerOrderID e"
  from r obtain c1 maker t f taker1 maker1 g1 f1 g2 db where l: "loadMaker ?i c g = Inr (c1, maker)"
    and b: "beginSettle D env r m (cm_now c) seq e (cm_order c1) maker g = Inr (t, f, taker1, maker1, g1)"
    and q: "QueueLocks env (rn_attempt r) f (put_order maker1 g1) = Inr (f1, g2)" and ins: "InsertTrade (g_db g2) (tradeParams D t) = Inr db"
    and res: "c' = add_event EventTradeExecuted [] (trade_payload m seq t)
        (c1\<lparr>cm_order := taker1, cm_settles := cm_settles c1 @ [f1], cm_trades := cm_trades c1 @ [t]\<rparr>)" "g' = g2\<lparr>g_db := db\<rparr>"
    by (auto simp: walk_trade_def split: sum.splits prod.splits)
  note lm = loadMaker_ok [OF w l]
  from lm(5) obtain ms where c1: "c1 = c\<lparr>cm_makers := ms\<rparr>" by blast
  let ?rows = "db_orders (g_db g)"
  from lm(1) have d: "distinct (map or_ID ?rows)" and cache: "cache_ok val ?rows (g_orders g) (set (cm_makers c1))"
    and fit: "fits 18 (V (od_HoldRemaining (cm_order c1)))" by (simp_all add: walk_ok_def)
  from lm(2,4) have lk: "Mapping.lookup (g_orders g) ?i = Some maker" by (simp add: about_def c1)
  with cache have bk: "backed ?rows maker" "fits 18 (V (od_HoldRemaining maker))" by (auto simp: cache_ok_def)
  have ma: "od_HoldAsset maker = (if tr_TakerSide e = Buy then mk_BaseSymbol m else mk_QuoteSymbol m)"
  proof -
    obtain q where "q \<in> set ?rows" "or_ID q = ?i" "or_HoldAsset q = od_HoldAsset maker" using bk(1) lm(3) by (auto simp: backed_def)
    moreover obtain q' where "q' \<in> set ?rows" "or_ID q' = ?i"
      "or_HoldAsset q' = (if tr_TakerSide e = Buy then mk_BaseSymbol m else mk_QuoteSymbol m)" using s by (auto simp: trade_sides_def)
    ultimately show ?thesis using d by (metis distinct_map inj_onD)
  qed
  have ta: "od_HoldAsset (cm_order c1) = (if tr_TakerSide e = Buy then mk_QuoteSymbol m else mk_BaseSymbol m)"
    using s by (simp add: trade_sides_def c1)
  obtain en where pe: "ff_pe f = pending en" "Entry_Validate D en = None" and k: "kept (cm_order c1) taker1" "kept maker maker1"
    and fits': "fits 18 (V (od_HoldRemaining taker1))" "fits 18 (V (od_HoldRemaining maker1))" and g1: "g1 = g\<lparr>g_draws := Suc (g_draws g)\<rparr>"
    and gain: "\<And>acct a. flight_gain val f acct a = hold_change val (cm_order c1) taker1 acct a + hold_change val maker maker1 acct a"
    using beginSettle_ok [OF b ta ma fit bk(2)] by metis
  have w1: "walk env H c1 g1" using lm(1) by (subst walk_insensitive [of c1 c1 g1 g]) (simp_all add: g1)
  have maker_id: "od_ID maker1 = ?i" using k(2) lm(3) by (simp add: kept_def)
  define H1 where "H1 acct a = H acct a - hold_change val maker maker1 acct a" for acct a
  define H2 where "H2 acct a = H1 acct a - hold_change val (cm_order c1) taker1 acct a" for acct a
  have ab: "about ?i maker c1 g1" using lm(2) by (simp add: about_def g1)
  have "set_event_order ?i maker1 c1 g1 = (c1, put_order maker1 g1)" using lm(4) by (simp add: set_event_order_def c1)
  from set_event_order_ok(1) [OF w1 ab k(2) fits'(2) this H1_def] have w2: "walk env H1 c1 (put_order maker1 g1)" .
  have "about (od_ID (cm_order c1)) (cm_order c1) c1 (put_order maker1 g1)" by (simp add: about_def)
  moreover have "set_event_order (od_ID (cm_order c1)) taker1 c1 (put_order maker1 g1) = (c1\<lparr>cm_order := taker1\<rparr>, put_order maker1 g1)"
    by (simp add: set_event_order_def)
  ultimately have w3: "walk env H2 (c1\<lparr>cm_order := taker1\<rparr>) (put_order maker1 g1)"
    using set_event_order_ok(1) [OF w2 _ k(1) fits'(1) _ H2_def] by blast
  have H: "H acct a = H2 acct a + flight_gain val f acct a" for acct a by (simp add: H2_def H1_def gain)
  let ?c = "c1\<lparr>cm_order := taker1, cm_settles := cm_settles c1 @ [f1]\<rparr>"
  have lo: "walk env H ?c g2" "frame (c1\<lparr>cm_order := taker1\<rparr>) (put_order maker1 g1) (c1\<lparr>cm_order := taker1\<rparr>) g2"
    using lock_ok [OF w3 pe q _ _ _ H, of ?c] by simp_all
  have db: "db_ledger db = db_ledger (g_db g2)" "db_orders db = db_orders (g_db g2)" "db_sequences db = db_sequences (g_db g2)"
    using ins by (auto simp: InsertTrade_def split: if_splits)
  have "walk env H c' g'" using lo(1) unfolding res by (subst walk_insensitive [of _ ?c _ g2]) (simp_all add: db)
  moreover have "frame c g c' g'" using lo(2) k(1) unfolding res by (simp add: frame_def c1 db put_order_def g1)
  ultimately show ?thesis by blast
qed

section \<open>The other events\<close>

lemma walk_updated_ok:
  assumes w: "walk env H c g" and r: "walk_updated m seq e c g = Inr (c', g')"
  shows "walk env H c' g' \<and> frame c g c' g'"
proof -
  from r obtain c1 x where x: "event_order (up_OrderID e) c g = Inr (c1, x)" by (auto simp: walk_updated_def split: sum.splits)
  define y where "y = x\<lparr>od_FilledQty := up_FilledQty e, od_FilledQuote := up_FilledQuote e, od_RemainingQty := up_RemainingQty e,
                      od_Status := StatusPartiallyFilled\<rparr>"
  obtain c2 g2 where s: "set_event_order (up_OrderID e) y c1 g = (c2, g2)" by fastforce
  with r x have c': "c' = add_event EventOrderUpdated (od_AccountID y) (updated_payload m seq y) c2" "g' = g2"
    by (simp_all add: walk_updated_def y_def Let_def)
  note ev = event_order_ok [OF w x]
  have k: "kept x y" "od_HoldRemaining y = od_HoldRemaining x" by (simp_all add: kept_def y_def)
  have f: "fits 18 (V (od_HoldRemaining y))" using about_fits [OF ev(1,2)] k(2) by simp
  have "walk env H c2 g2" by (rule set_event_order_ok(1) [OF ev(1,2) k(1) f s]) (simp add: k(2))
  then have "walk env H c' g'" unfolding c' by (subst walk_insensitive [of _ c2]) simp_all
  moreover have "frame c g c1 g" using ev(4) by (auto simp: frame_def)
  then have "frame c g c2 g2" using frame_trans set_event_frame [OF s ev(2) k(1)] by blast
  then have "frame c g c' g'" unfolding c' by (simp add: frame_def)
  ultimately show ?thesis by blast
qed

text \<open>The release of what is left.\<close>

lemma release_rest_ok:
  assumes w: "walk env H c g" and f: "fits 18 (V (od_HoldRemaining x))" and r: "release_rest D env r x seq correlation c g = Inr (x1, c1, g1)"
  shows "kept x x1" "fits 18 (V (od_HoldRemaining x1))" "walk env (\<lambda>acct a. H acct a + hold_change val x x1 acct a) c1 g1"
    "frame c g c1 g1" "about i z c g \<Longrightarrow> about i z c1 g1"
proof -
  have "kept x x1 \<and> fits 18 (V (od_HoldRemaining x1)) \<and> walk env (\<lambda>acct a. H acct a + hold_change val x x1 acct a) c1 g1 \<and>
    frame c g c1 g1 \<and> (about i z c g \<longrightarrow> about i z c1 g1)"
  proof (cases "Amount_IsPositive D (od_HoldRemaining x)")
    case False
    with r w f show ?thesis by (auto simp: release_rest_def)
  next
    case True
    with r obtain fl f1 where b: "BeginRelease D (release_params x seq correlation) = Inr fl"
      and q: "QueueLocks env (rn_attempt r) fl g = Inr (f1, g1)" and res: "x1 = x\<lparr>od_HoldRemaining := Zero D\<rparr>"
        "c1 = c\<lparr>cm_releases := cm_releases c @ [f1]\<rparr>"
      by (auto simp: release_rest_def beginRelease_def split: sum.splits prod.splits)
    obtain en where en: "fl = new_flight (pending en)" "Entry_Validate D en = None"
      "\<And>acct a. flight_gain val fl acct a = (if acct = od_AccountID x \<and> a = od_HoldAsset x then - V (od_HoldRemaining x) else 0)"
      by (rule BeginRelease_ok [OF b]) (simp add: release_params_def)
    have pe: "ff_pe fl = pending en" by (simp add: en(1) new_flight_def)
    have H: "H acct a + hold_change val x x1 acct a = H acct a + flight_gain val fl acct a" for acct a
      by (simp add: en(3) hold_change_def res)
    note lo = lock_ok [OF w pe en(2) q, of c1 "\<lambda>acct a. H acct a + hold_change val x x1 acct a"]
    have "walk env (\<lambda>acct a. H acct a + hold_change val x x1 acct a) c1 g1" "frame c g c g1" "g_orders g1 = g_orders g"
      using lo H by (simp_all add: res)
    then show ?thesis by (auto simp: res kept_def frame_def about_def)
  qed
  then show "kept x x1" "fits 18 (V (od_HoldRemaining x1))" "walk env (\<lambda>acct a. H acct a + hold_change val x x1 acct a) c1 g1"
    "frame c g c1 g1" "about i z c g \<Longrightarrow> about i z c1 g1" by blast+
qed

lemma walk_filled_ok:
  assumes w: "walk env H c g" and r: "walk_filled D env r m seq correlation e c g = Inr (c', g')"
  shows "walk env H c' g' \<and> frame c g c' g'"
proof -
  let ?i = "fi_OrderID e"
  from r obtain c1 x where x: "event_order ?i c g = Inr (c1, x)" by (auto simp: walk_filled_def split: sum.splits)
  define y where "y = x\<lparr>od_FilledQty := fi_FilledQty e, od_FilledQuote := fi_FilledQuote e, od_RemainingQty := Zero D, od_Status := StatusFilled\<rparr>"
  from r x obtain y1 c2 g2 where rel: "release_rest D env r y seq correlation c1 g = Inr (y1, c2, g2)"
    by (auto simp: walk_filled_def y_def Let_def split: sum.splits prod.splits)
  obtain c3 g3 where s: "set_event_order ?i y1 c2 g2 = (c3, g3)" by fastforce
  with r x rel have c': "c' = add_event EventOrderFilled (od_AccountID y1) (filled_payload m seq y1) c3" "g' = g3"
    by (simp_all add: walk_filled_def y_def Let_def)
  note ev = event_order_ok [OF w x]
  have k: "kept x y" "od_HoldRemaining y = od_HoldRemaining x" by (simp_all add: kept_def y_def)
  have f: "fits 18 (V (od_HoldRemaining y))" using about_fits [OF ev(1,2)] k(2) by simp
  note rl = release_rest_ok [OF ev(1) f rel]
  have H: "H acct a = H acct a + hold_change val y y1 acct a - hold_change val x y1 acct a" for acct a
    using k by (simp add: hold_change_def kept_def)
  have ab: "about ?i x c2 g2" by (rule rl(5) [OF ev(2)])
  have ky: "kept x y1" using kept_trans [OF k(1) rl(1)] .
  have "walk env H c3 g3" by (rule set_event_order_ok(1) [OF rl(3) ab ky rl(2) s H])
  then have "walk env H c' g'" unfolding c' by (subst walk_insensitive [of _ c3]) simp_all
  moreover have "frame c g c1 g" using ev(4) by (auto simp: frame_def)
  then have "frame c g c3 g3" using frame_trans [OF frame_trans [OF _ rl(4)] set_event_frame [OF s ab ky]] by blast
  then have "frame c g c' g'" unfolding c' by (simp add: frame_def)
  ultimately show ?thesis by blast
qed

lemma walk_cancelled_ok:
  assumes w: "walk env H c g" and r: "walk_cancelled D env r m seq correlation e c g = Inr (c', g')"
  shows "walk env H c' g' \<and> frame c g c' g'"
proof -
  let ?x = "cm_order c"
  define y where "y = ?x\<lparr>od_FilledQty := cn_FilledQty e, od_FilledQuote := cn_FilledQuote e, od_RemainingQty := cn_RemainingQty e,
                 od_Status := StatusCancelled, od_CancelReason := CancelReason_text (cn_Reason e)\<rparr>"
  from r obtain y1 c1 where rel: "release_rest D env r y seq correlation c g = Inr (y1, c1, g')"
    and c': "c' = add_event EventOrderCancelled (od_AccountID y1) (cancelled_payload m seq e (od_HoldRemaining y) y1) (c1\<lparr>cm_order := y1\<rparr>)"
    by (auto simp: walk_cancelled_def y_def Let_def split: sum.splits prod.splits)
  have k: "kept ?x y" "od_HoldRemaining y = od_HoldRemaining ?x" by (simp_all add: kept_def y_def)
  have ab: "about (od_ID ?x) ?x c g" by (simp add: about_def)
  have f: "fits 18 (V (od_HoldRemaining y))" using about_fits [OF w ab] k(2) by simp
  note rl = release_rest_ok [OF w f rel]
  have H: "H acct a = H acct a + hold_change val y y1 acct a - hold_change val ?x y1 acct a" for acct a
    using k by (simp add: hold_change_def kept_def)
  have ab1: "about (od_ID ?x) ?x c1 g'" by (rule rl(5) [OF ab])
  have ky: "kept ?x y1" using kept_trans [OF k(1) rl(1)] .
  have eq: "od_ID (cm_order c1) = od_ID ?x" using rl(4) by (simp add: frame_def kept_def)
  have s: "set_event_order (od_ID ?x) y1 c1 g' = (c1\<lparr>cm_order := y1\<rparr>, g')" by (simp add: set_event_order_def eq)
  have "walk env H (c1\<lparr>cm_order := y1\<rparr>) g'" by (rule set_event_order_ok(1) [OF rl(3) ab1 ky rl(2) s H])
  then have "walk env H c' g'" unfolding c' by (subst walk_insensitive [of _ "c1\<lparr>cm_order := y1\<rparr>"]) simp_all
  moreover have "frame c g (c1\<lparr>cm_order := y1\<rparr>) g'" using frame_trans [OF rl(4) set_event_frame [OF s ab1 ky]] .
  then have "frame c g c' g'" unfolding c' by (simp add: frame_def)
  ultimately show ?thesis by blast
qed

lemma walk_events_ok:
  assumes "walk env H c g" and "\<forall>ev \<in> set evs. trade_sides m (db_orders (g_db g)) (cm_order c) ev"
    and "walk_events D env r m seq correlation evs c g = Inr (c', g')"
  shows "walk env H c' g' \<and> frame c g c' g'"
  using assms
proof (induction evs arbitrary: c g)
  case (Cons ev evs)
  from Cons.prems(3) obtain c1 g1 where one: "(case ev of
              EvTrade e \<Rightarrow> walk_trade D env r m seq e c g
            | EvUpdated e \<Rightarrow> walk_updated m seq e c g
            | EvFilled e \<Rightarrow> walk_filled D env r m seq correlation e c g
            | EvCancelled e \<Rightarrow> walk_cancelled D env r m seq correlation e c g
            | _ \<Rightarrow> Inl ErrBookInconsistent) = Inr (c1, g1)"
    and rest: "walk_events D env r m seq correlation evs c1 g1 = Inr (c', g')"
    by (auto split: sum.splits prod.splits)
  have step: "walk env H c1 g1 \<and> frame c g c1 g1"
  proof (cases ev)
    case (EvTrade e)
    with Cons.prems(2) one show ?thesis by (intro walk_trade_ok [OF Cons.prems(1)]) auto
  next
    case (EvUpdated e)
    with one show ?thesis by (intro walk_updated_ok [OF Cons.prems(1)]) simp
  next
    case (EvFilled e)
    with one show ?thesis by (intro walk_filled_ok [OF Cons.prems(1)]) simp
  next
    case (EvCancelled e)
    with one show ?thesis by (intro walk_cancelled_ok [OF Cons.prems(1)]) simp
  qed (use one in simp_all)
  then have "\<forall>ev \<in> set evs. trade_sides m (db_orders (g_db g1)) (cm_order c1) ev"
    using Cons.prems(2) by (auto simp: frame_def trade_sides_def kept_def)
  with Cons.IH [OF _ this rest] step show ?case using frame_trans by blast
qed simp

end

end
