(* ===== verification/Trading_Finish.thy ===== *)
theory Trading_Finish
  imports Trading_Walk
begin

text \<open>
  The end of a placed order's walk: its entries are posted, the rows of the orders it met are brought
  level with the memory, and the order itself joins the resting ones or leaves. \<open>since\<close> says what a
  list of written rows did to the table, which is what the cache is later brought level with.
\<close>

section \<open>The rows written\<close>

text \<open>The last row of an id in a list of written rows.\<close>

definition latest :: "OrderRow list \<Rightarrow> string \<Rightarrow> OrderRow option" where
  "latest ws = map_of (map (\<lambda>r. (or_ID r, r)) (rev ws))"

lemma latest_simps [simp]:
  "latest [] = Map.empty" "latest (ws @ ws2) = latest ws ++ latest ws2" "latest [r] = [or_ID r \<mapsto> r]"
  by (simp_all add: latest_def)

lemma latest_Some: "latest ws i = Some r \<Longrightarrow> or_ID r = i"
  by (auto simp: latest_def dest!: map_of_SomeD)

lemma latest_None: "latest ws i = None \<longleftrightarrow> i \<notin> or_ID ` set ws"
  by (force simp: latest_def map_of_eq_None_iff)

definition since :: "OrderRow list \<Rightarrow> OrderRow list \<Rightarrow> OrderRow list \<Rightarrow> bool" where
  "since ws rows rows1 \<longleftrightarrow> (\<forall>r \<in> set rows. latest ws (or_ID r) = None \<longrightarrow> r \<in> set rows1) \<and>
     (\<forall>i r. latest ws i = Some r \<longrightarrow> r \<in> set rows1) \<and> (\<forall>r \<in> set rows. \<exists>r1 \<in> set rows1. same_order r r1)"

lemma since_refl [simp]: "since [] rows rows"
  by (auto simp: since_def intro: same_order_refl)

lemma since_append [simp]: "since [] rows (rows @ [r])"
  unfolding since_def using same_order_refl by (auto; blast)

lemma same_order_trans: "same_order r r1 \<Longrightarrow> same_order r1 r2 \<Longrightarrow> same_order r r2"
  by (simp add: same_order_def)

lemma since_trans:
  assumes "since ws rows rows1" and "since ws1 rows1 rows2"
  shows "since (ws @ ws1) rows rows2"
  unfolding since_def
proof (intro conjI ballI impI allI)
  fix r assume r: "r \<in> set rows"
  then obtain r1 where r1: "r1 \<in> set rows1" "same_order r r1" using assms(1) unfolding since_def by blast
  with assms(2) obtain r2 where "r2 \<in> set rows2" "same_order r1 r2" unfolding since_def by blast
  with r1 show "\<exists>r1 \<in> set rows2. same_order r r1" by (blast intro: same_order_trans)
  assume "latest (ws @ ws1) (or_ID r) = None"
  with assms r show "r \<in> set rows2" unfolding since_def by simp
next
  fix i r assume l: "latest (ws @ ws1) i = Some r"
  show "r \<in> set rows2"
  proof (cases "latest ws1 i")
    case None
    with l have "latest ws i = Some r" by (simp add: map_add_Some_iff)
    moreover from this latest_Some [of ws i r] None have "latest ws1 (or_ID r) = None" by simp
    ultimately show ?thesis using assms unfolding since_def by blast
  next
    case (Some x)
    with l assms(2) show ?thesis unfolding since_def by (simp add: map_add_Some_iff)
  qed
qed

lemma since_update:
  assumes "distinct (map or_ID rows)" and "r \<in> set rows" and "same_order r r1"
  shows "since [r1] rows (set_order r1 rows)"
proof -
  have id: "or_ID r1 = or_ID r" using assms(3) by (simp add: same_order_def)
  note mem = set_order_mem(1) [OF assms(1,2) id]
  show ?thesis unfolding since_def
  proof (intro conjI ballI impI allI)
    fix x assume x: "x \<in> set rows"
    show "\<exists>y \<in> set (set_order r1 rows). same_order x y" using set_order_static(1) [OF assms x] by blast
    assume "latest [r1] (or_ID x) = None"
    then have "x \<noteq> r" by (auto simp: id split: if_splits)
    with x show "x \<in> set (set_order r1 rows)" by (simp add: mem)
  qed (auto simp: mem split: if_splits)
qed

text \<open>A row of another order may be written earlier or later.\<close>

lemma since_swap: "or_ID r \<notin> or_ID ` set ws \<Longrightarrow> since (ws @ [r]) rows rows1 = since (r # ws) rows rows1"
proof -
  assume "or_ID r \<notin> or_ID ` set ws"
  then have "latest ws (or_ID r) = None" by (simp add: latest_None)
  then have "latest (ws @ [r]) = latest ([r] @ ws)" unfolding latest_simps by (auto simp: fun_eq_iff map_add_def split: option.splits)
  then show ?thesis by (simp add: since_def)
qed

lemma since_book: "book_backed m rows b \<Longrightarrow> since ws rows rows1 \<Longrightarrow> book_backed m rows1 b"
  by (erule book_backed_mono) (simp add: since_def)

lemma since_backed: "backed rows x \<Longrightarrow> since ws rows rows1 \<Longrightarrow> backed rows1 x"
  by (erule backed_mono) (simp add: since_def)

text \<open>The rows a command keeps to read back.\<close>

definition row_log :: "'d command \<Rightarrow> OrderRow list" where
  "row_log c = (case cm_final c of None \<Rightarrow> [] | Some r \<Rightarrow> [r]) @ List.map_filter (\<lambda>x. x) (cm_progress c)"

section \<open>One row\<close>

definition outer :: "'d command \<Rightarrow> 'd grp \<Rightarrow> 'd command \<Rightarrow> 'd grp \<Rightarrow> bool" where
  "outer c g c' g' \<longleftrightarrow> db_sequences (g_db g') = db_sequences (g_db g) \<and> g_next g' = g_next g \<and> g_book g' = g_book g \<and>
     cm_req c' = cm_req c \<and> cm_done c' = cm_done c \<and> cm_rejected c' = cm_rejected c"

lemma outer_trans: "outer c g c1 g1 \<Longrightarrow> outer c1 g1 c2 g2 \<Longrightarrow> outer c g c2 g2"
  by (simp add: outer_def)

lemma outer_frame: "frame c g c1 g1 \<Longrightarrow> outer c g c1 g1"
  by (simp add: frame_def outer_def)

context decimal
begin

lemma progress_row:
  assumes d: "distinct (map or_ID (db_orders db))" and b: "backed (db_orders db) x" and f: "fits 18 (V (od_HoldRemaining x))"
    and u: "UpdateOrderProgress db (progressParams D x) = Inr (db1, row)"
  obtains r r1 where "db1 = db\<lparr>db_orders := set_order r1 (db_orders db)\<rparr>" "row = Some r1" "r \<in> set (db_orders db)" "same_order r r1"
    "or_ID r = od_ID x" "or_AccountID r = od_AccountID x" "or_HoldAsset r = od_HoldAsset x" "unit_val (or_HoldRemaining r1) = V (od_HoldRemaining x)"
proof -
  from b obtain r where r: "r \<in> set (db_orders db)" "or_ID r = od_ID x" "or_AccountID r = od_AccountID x" "or_HoldAsset r = od_HoldAsset x"
    unfolding backed_def by blast
  let ?p = "progressParams D x" let ?r1 = "progressed ?p r"
  have "GetOrder db (pp_ID ?p) = Some r" using find_ID [OF d r(1,2)] by (simp add: GetOrder_def progressParams_def)
  with u have "db1 = db\<lparr>db_orders := set_order ?r1 (db_orders db)\<rparr>" "row = Some ?r1"
    by (auto simp: UpdateOrderProgress_def Let_def split: if_splits)
  moreover have "same_order r ?r1" by (simp add: same_order_def progressed_def)
  moreover have "unit_val (or_HoldRemaining ?r1) = V (od_HoldRemaining x)" by (simp add: progressed_def progressParams_def sent_units [OF f])
  ultimately show thesis using that r by blast
qed

text \<open>The row of an order in memory, brought level with it: the sum the memory says stays.\<close>

lemma level_row:
  assumes d: "distinct (map or_ID rows)" and r: "r \<in> set rows" "same_order r r1" "or_ID r = i"
    and v: "ov i = Some (unit_val (or_HoldRemaining r1))"
  shows "hold_sum ov (set_order r1 rows) acct a = hold_sum ov rows acct a"
    and "hold_sum (ov(i := None)) (set_order r1 rows) acct a = hold_sum ov rows acct a"
proof -
  have id: "or_ID r1 = i" using r(2,3) by (simp add: same_order_def)
  have "order_hold ov r1 = order_hold ov r" using v id r(3) by (simp add: order_hold_def)
  then show eq: "hold_sum ov (set_order r1 rows) acct a = hold_sum ov rows acct a" using hold_sum_set_order [OF d r(1,2)] by simp
  have id': "or_ID r1 = or_ID r" using id r(3) by simp
  have "distinct (map or_ID (set_order r1 rows))" "r1 \<in> set (set_order r1 rows)"
    using d set_order_mem [OF d r(1) id'] by simp_all
  from hold_sum_forget [OF this id, of ov] v show "hold_sum (ov(i := None)) (set_order r1 rows) acct a = hold_sum ov rows acct a"
    using eq by simp
qed

lemma cache_ok_level:
  assumes c: "cache_ok val rows O' dirty" and d: "distinct (map or_ID rows)" and r: "r \<in> set rows" "same_order r r1"
    and x: "Mapping.lookup O' (or_ID r) = Some x" "unit_val (or_HoldRemaining r1) = V (od_HoldRemaining x)"
  shows "cache_ok val (set_order r1 rows) O' (dirty - {or_ID r})"
proof -
  have id: "or_ID r1 = or_ID r" using r(2) by (simp add: same_order_def)
  have "cache_ok val (set_order r1 rows) O' (dirty \<union> {or_ID r})"
    by (rule cache_ok_same_rows [OF c]) (use set_order_static(1) [OF d r] in blast)
  moreover have "level val (set_order r1 rows) x" unfolding level_def
    using x(2) set_order_mem(1) [OF d r(1) id] id calculation x(1) by (intro bexI [of _ r1]) (auto simp: cache_ok_def)
  ultimately show ?thesis using x(1) unfolding cache_ok_def by (metis DiffI Un_iff insertE option.inject singletonD)
qed

section \<open>The final rows of the makers\<close>

definition closing :: "'d registry_Market \<Rightarrow> (string \<Rightarrow> string \<Rightarrow> rat) \<Rightarrow> string set \<Rightarrow> 'd command \<Rightarrow> 'd grp \<Rightarrow> bool" where
  "closing m H dirty c g \<longleftrightarrow> ledger_ok (db_ledger (g_db g)) \<and> rows_ok m (db_orders (g_db g)) \<and>
     cache_ok val (db_orders (g_db g)) (g_orders g) dirty \<and> backed (db_orders (g_db g)) (cm_order c) \<and>
     fits 18 (V (od_HoldRemaining (cm_order c))) \<and> Mapping.lookup (g_orders g) (od_ID (cm_order c)) = None \<and>
     (\<forall>acct a. held (db_ledger (g_db g)) acct a
        - hold_sum (with_order val (cm_order c) (memory val (g_orders g))) (db_orders (g_db g)) acct a = H acct a)"

lemma finish_makers_ok:
  assumes "closing m H (set is) c g" and "finish_makers D is c g = Inr (c', g')"
  shows "closing m H {} c' g' \<and> outer c g c' g' \<and> cm_order c' = cm_order c \<and> cm_final c' = cm_final c \<and>
    (\<exists>ws. cm_progress c' = cm_progress c @ map Some ws \<and> length (cm_touched c') = length (cm_touched c) + length ws \<and> since ws (db_orders (g_db g)) (db_orders (g_db g')) \<and>
       od_ID (cm_order c) \<notin> or_ID ` set ws)"
  using assms
proof (induction "is" arbitrary: c g)
  case Nil
  then show ?case by (auto simp: outer_def)
next
  case (Cons i "is")
  let ?rows = "db_orders (g_db g)" and ?t = "cm_order c"
  from Cons.prems(2) obtain x db row where x: "Mapping.lookup (g_orders g) i = Some x"
    and u: "UpdateOrderProgress (g_db g) (progressParams D x) = Inr (db, row)"
    and rest: "finish_makers D is (c\<lparr>cm_progress := cm_progress c @ [row], cm_touched := cm_touched c @ [od_ID x]\<rparr>)
      (if Terminal (od_Status x) then end_order x (g\<lparr>g_db := db\<rparr>) else g\<lparr>g_db := db\<rparr>) = Inr (c', g')"
    by (auto simp: Let_def split: option.splits sum.splits prod.splits)
  from Cons.prems(1) have d: "distinct (map or_ID ?rows)" and ro: "rows_ok m ?rows" and ca: "cache_ok val ?rows (g_orders g) (set (i # is))"
    and t: "Mapping.lookup (g_orders g) (od_ID ?t) = None" by (simp_all add: closing_def rows_ok_def)
  from ca x have bx: "od_ID x = i" "backed ?rows x" "fits 18 (V (od_HoldRemaining x))" by (auto simp: cache_ok_def)
  obtain r r1 where r: "db = (g_db g)\<lparr>db_orders := set_order r1 ?rows\<rparr>" "row = Some r1" "r \<in> set ?rows" "same_order r r1"
    "or_ID r = i" "unit_val (or_HoldRemaining r1) = V (od_HoldRemaining x)"
    using progress_row [OF d bx(2,3) u] bx(1) by metis
  have ne: "od_ID ?t \<noteq> i" using x t by auto
  let ?ov = "with_order val ?t (memory val (g_orders g))"
  have ov: "?ov i = Some (unit_val (or_HoldRemaining r1))" using ne x by (simp add: with_order_def memory_def r(6))
  note lr = level_row [OF d r(3,4,5), of ?ov, OF ov]
  have c1: "cache_ok val (set_order r1 ?rows) (g_orders g) (set is)"
    using cache_ok_level [OF ca d r(3,4)] x r(5,6) unfolding cache_ok_def by fastforce
  then have c2: "cache_ok val (set_order r1 ?rows) (Mapping.delete i (g_orders g)) (set is)"
    unfolding cache_ok_def by (metis lookup_delete lookup_delete_neq option.distinct(1))
  have del: "with_order val ?t ((memory val (g_orders g))(i := None)) = ?ov(i := None)"
    using ne by (auto simp: with_order_def fun_eq_iff)
  have bt: "backed (set_order r1 ?rows) ?t"
    by (rule since_backed [OF _ since_update [OF d r(3,4)]]) (use Cons.prems(1) in \<open>simp add: closing_def\<close>)
  let ?c1 = "c\<lparr>cm_progress := cm_progress c @ [row], cm_touched := cm_touched c @ [od_ID x]\<rparr>"
  let ?g1 = "if Terminal (od_Status x) then end_order x (g\<lparr>g_db := db\<rparr>) else g\<lparr>g_db := db\<rparr>"
  have cl: "closing m H (set is) ?c1 ?g1"
    using Cons.prems(1) c1 c2 bt t lr rows_ok_set_order [OF ro r(3,4)]
    unfolding closing_def by (auto simp: r(1) bx(1) end_order_def del ne)
  from Cons.IH [OF cl rest] obtain ws where ih: "closing m H {} c' g'" "outer ?c1 ?g1 c' g'" "cm_order c' = ?t" "cm_final c' = cm_final c"
    "cm_progress c' = cm_progress c @ [Some r1] @ map Some ws" "length (cm_touched c') = length (cm_touched c) + 1 + length ws" "since ws (db_orders (g_db ?g1)) (db_orders (g_db g'))"
    "od_ID ?t \<notin> or_ID ` set ws"
    by (auto simp: r(2))
  have rows1: "db_orders (g_db ?g1) = set_order r1 ?rows" by (simp add: end_order_def r(1))
  have "since ([r1] @ ws) ?rows (db_orders (g_db g'))" by (rule since_trans [OF since_update [OF d r(3,4)] ih(7) [unfolded rows1]])
  moreover have "outer c g c' g'" using ih(2) by (auto simp: outer_def end_order_def r(1) split: if_splits)
  moreover have "od_ID ?t \<notin> or_ID ` set (r1 # ws)" using ih(8) ne r(4,5) by (auto simp: same_order_def)
  ultimately show ?case using ih(1,3,4,5,6) by (intro conjI exI [of _ "r1 # ws"]) simp_all
qed

section \<open>The row of the order itself\<close>

text \<open>The market between two commands: nothing is out of step.\<close>

definition settled :: "'d registry_Market \<Rightarrow> (string \<Rightarrow> string \<Rightarrow> rat) \<Rightarrow> 'd grp \<Rightarrow> bool" where
  "settled m H g \<longleftrightarrow> ledger_ok (db_ledger (g_db g)) \<and> rows_ok m (db_orders (g_db g)) \<and>
     cache_ok val (db_orders (g_db g)) (g_orders g) {} \<and>
     (\<forall>acct a. held (db_ledger (g_db g)) acct a - frozen_in (db_orders (g_db g)) acct a = H acct a)"

definition market_ok :: "'d registry_Market \<Rightarrow> (string \<Rightarrow> string \<Rightarrow> rat) \<Rightarrow> 'd grp \<Rightarrow> bool" where
  "market_ok m H g \<longleftrightarrow> settled m H g \<and> book_ok D val (g_book g) \<and> book_backed m (db_orders (g_db g)) (g_book g)"

lemma set_final_ok:
  assumes cl: "closing m H {} c g" and r: "set_final D (cm_order c) c g = Inr (c', g1)"
  shows "settled m H (if Terminal (od_Status (cm_order c'))
      then g1\<lparr>g_touched := Mapping.update (od_ID (cm_order c')) (cm_order c') (g_touched g1)\<rparr> else put_order (cm_order c') g1)"
    "outer c g c' g1" "cm_progress c' = cm_progress c" "cm_order c' = cm_order c" "cm_touched c' = cm_touched c"
    "\<exists>row. cm_final c' = Some row \<and> or_ID row = od_ID (cm_order c) \<and> since [row] (db_orders (g_db g)) (db_orders (g_db g1))"
proof -
  let ?rows = "db_orders (g_db g)" and ?t = "cm_order c"
  from r obtain db row where u: "UpdateOrderProgress (g_db g) (progressParams D ?t) = Inr (db, row)"
    and c': "c' = c\<lparr>cm_final := row, cm_sp := None\<rparr>" "g1 = g\<lparr>g_db := db\<rparr>"
    by (auto simp: set_final_def split: sum.splits prod.splits)
  from cl have d: "distinct (map or_ID ?rows)" and ro: "rows_ok m ?rows" and ca: "cache_ok val ?rows (g_orders g) {}"
    and b: "backed ?rows ?t" "fits 18 (V (od_HoldRemaining ?t))" and none: "Mapping.lookup (g_orders g) (od_ID ?t) = None"
    by (simp_all add: closing_def rows_ok_def)
  obtain q r1 where q: "db = (g_db g)\<lparr>db_orders := set_order r1 ?rows\<rparr>" "row = Some r1" "q \<in> set ?rows" "same_order q r1"
    "or_ID q = od_ID ?t" "unit_val (or_HoldRemaining r1) = V (od_HoldRemaining ?t)"
    using progress_row [OF d b u] by metis
  note since = since_update [OF d q(3,4)]
  have id: "or_ID r1 = od_ID ?t" using q(4,5) by (simp add: same_order_def)
  show "outer c g c' g1" "cm_progress c' = cm_progress c" "cm_order c' = ?t" "cm_touched c' = cm_touched c" by (simp_all add: outer_def c' q(1))
  show "\<exists>row. cm_final c' = Some row \<and> or_ID row = od_ID ?t \<and> since [row] ?rows (db_orders (g_db g1))"
    using since id by (simp add: c' q(1,2))
  let ?ov = "with_order val ?t (memory val (g_orders g))"
  have rows1: "distinct (map or_ID (set_order r1 ?rows))" using rows_ok_set_order [OF ro q(3,4)] by (simp add: rows_ok_def)
  have "?ov (od_ID ?t) = Some (unit_val (or_HoldRemaining r1))" by (simp add: with_order_def q(6))
  note lr = level_row [OF d q(3,4,5), of ?ov, OF this]
  have mem: "?ov(od_ID ?t := None) = memory val (g_orders g)" using none by (auto simp: with_order_def memory_def fun_eq_iff)
  have c1: "cache_ok val (set_order r1 ?rows) (g_orders g) {}"
  proof -
    have "cache_ok val (set_order r1 ?rows) (g_orders g) ({} \<union> {od_ID ?t})"
      by (rule cache_ok_same_rows [OF ca]) (use set_order_static(1) [OF d q(3,4)] q(5) in auto)
    then show ?thesis using none unfolding cache_ok_def by (metis Un_insert_right insertE option.distinct(1) sup_bot.right_neutral)
  qed
  have "hold_sum (memory val (g_orders g)) (set_order r1 ?rows) acct a = hold_sum ?ov ?rows acct a" for acct a
    using lr(2) [of acct a] by (simp add: mem)
  then have fr: "held (db_ledger (g_db g)) acct a - frozen_in (set_order r1 ?rows) acct a = H acct a" for acct a
    using cl memory_level [OF rows1 c1] by (simp add: closing_def)
  have "cache_ok val (set_order r1 ?rows) (Mapping.update (od_ID ?t) ?t (g_orders g)) {}"
  proof -
    have "backed (set_order r1 ?rows) ?t" using since_backed [OF b(1) since] .
    moreover have "level val (set_order r1 ?rows) ?t" unfolding level_def
      using q(6) id set_order_mem(1) [OF d q(3)] q(5) by (intro bexI [of _ r1]) auto
    ultimately show ?thesis using c1 b(2) by (auto simp: cache_ok_def Mapping.lookup_update')
  qed
  with c1 fr cl rows_ok_set_order [OF ro q(3,4)]
  show "settled m H (if Terminal (od_Status (cm_order c'))
      then g1\<lparr>g_touched := Mapping.update (od_ID (cm_order c')) (cm_order c') (g_touched g1)\<rparr> else put_order (cm_order c') g1)"
    by (simp add: settled_def closing_def c' q(1) put_order_def)
qed

section \<open>From the events to the end\<close>

text \<open>The entries are posted: what was in flight is in the ledger.\<close>

lemma posted_ok:
  assumes w: "walk env H c g" and ro: "rows_ok m (db_orders (g_db g))"
    and s: "apply_flights D env (cm_settles c) g = Inr (settles, g1)" and r: "apply_flights D env (cm_releases c) g1 = Inr (releases, g2)"
  shows "closing m H (set (cm_makers c)) (c\<lparr>cm_settles := settles, cm_releases := releases\<rparr>) g2"
    "outer c g c g2" "db_orders (g_db g2) = db_orders (g_db g)"
proof -
  let ?L = "db_ledger (g_db g)"
  from w have L: "ledger_ok ?L" and f: "in_flight D (ee_ledger env) ?L (cm_settles c @ cm_releases c)" by (simp_all add: walk_ok_def)
  obtain L1 where L1: "g1 = g\<lparr>g_db := (g_db g)\<lparr>db_ledger := L1\<rparr>\<rparr>" "ledger_ok L1" "in_flight D (ee_ledger env) L1 (cm_releases c @ [])"
    "\<forall>acct a. held L1 acct a = held ?L acct a + total_gain val (cm_settles c) acct a"
    using apply_flights_ok [OF L f s] by (metis append_Nil2)
  have "ledger_ok (db_ledger (g_db g1))" "in_flight D (ee_ledger env) (db_ledger (g_db g1)) (cm_releases c @ [])" using L1 by simp_all
  from apply_flights_ok [OF this r] obtain L2 where L2: "g2 = g1\<lparr>g_db := (g_db g1)\<lparr>db_ledger := L2\<rparr>\<rparr>" "ledger_ok L2"
    "\<forall>acct a. held L2 acct a = held L1 acct a + total_gain val (cm_releases c) acct a"
    unfolding L1(1) by auto
  show "closing m H (set (cm_makers c)) (c\<lparr>cm_settles := settles, cm_releases := releases\<rparr>) g2"
    using w ro L1(4) L2(2,3) unfolding walk_ok_def closing_def by (simp add: L1(1) L2(1) add.assoc)
  show "outer c g c g2" "db_orders (g_db g2) = db_orders (g_db g)" by (simp_all add: outer_def L1(1) L2(1))
qed

end

end
