(* ===== verification/Trading_Command.thy ===== *)
theory Trading_Command
  imports Trading_Finish
begin

text \<open>
  One command of a group keeps the market in step: after it the ledger holds what the rows say, the
  cache and the book have rows, and the rows it wrote are those it keeps to read back.
\<close>

section \<open>Commands and their locks\<close>

text \<open>A command that is not walked yet, and what \<open>build\<close> put in its order.\<close>

definition placed :: "'d decimal_pkg \<Rightarrow> 'd registry_Market \<Rightarrow> 'd PlaceOrderRequest \<Rightarrow> 'd trading_Order \<Rightarrow> bool" where
  "placed D m req x \<longleftrightarrow> od_Side x = pq_Side req \<and> od_MarketID x = mk_ID m \<and> od_HoldAsset x = fst (holdFor D m req)"

definition fresh :: "'d decimal_pkg \<Rightarrow> 'd registry_Market \<Rightarrow> 'd command \<Rightarrow> bool" where
  "fresh D m c \<longleftrightarrow> cm_settles c = [] \<and> cm_releases c = [] \<and> cm_progress c = [] \<and> cm_touched c = [] \<and> cm_final c = None \<and> cm_rejected c = None \<and>
     (\<forall>req. rq_place (cm_req c) = Some req \<longrightarrow> placed D m req (cm_order c))"

lemma map_filter_Some [simp]: "List.map_filter (\<lambda>x. x) (map Some xs) = xs"
  by (induction xs) (simp_all add: map_filter_simps)

text \<open>The savepoint: the same tables, but for rows of the ledger that hold nothing.\<close>

definition savepoint_ok :: "'d command \<Rightarrow> 'd grp \<Rightarrow> bool" where
  "savepoint_ok c g \<longleftrightarrow> (\<forall>db. cm_sp c = Some db \<longrightarrow>
     (\<exists>L. db = (g_db g)\<lparr>db_ledger := L\<rparr> \<and> ledger_ok L \<and> held L = held (db_ledger (g_db g))))"

definition takes_hold :: "('d \<Rightarrow> rat) \<Rightarrow> 'd trading_Order \<Rightarrow> 'd amount \<Rightarrow> 'd flight \<Rightarrow> bool" where
  "takes_hold val x amt f \<longleftrightarrow> fits 18 (amt_val val amt) \<and>
     (\<forall>acct a. flight_gain val f acct a = (if acct = od_AccountID x \<and> a = od_HoldAsset x then amt_val val amt else 0))"

definition gives_back :: "('d \<Rightarrow> rat) \<Rightarrow> 'd trading_Order \<Rightarrow> 'd flight \<Rightarrow> bool" where
  "gives_back val x f \<longleftrightarrow>
     (\<forall>acct a. flight_gain val f acct a = (if acct = od_AccountID x \<and> a = od_HoldAsset x then - amt_val val (od_HoldRemaining x) else 0))"

lemma fresh_done [simp]: "fresh D m (c\<lparr>cm_done := b\<rparr>) = fresh D m c"
  by (simp add: fresh_def)

text \<open>What a command leaves to read back: nothing when it was answered or refused.\<close>

definition stored :: "'d command \<Rightarrow> OrderRow list" where
  "stored c = (if cm_rejected c \<noteq> None \<or> cm_done c then [] else row_log c)"

text \<open>Each row it keeps goes with the id of its order.\<close>

definition tidy :: "'d command \<Rightarrow> bool" where
  "tidy c \<longleftrightarrow> cm_rejected c = None \<and> \<not> cm_done c \<longrightarrow> length (cm_touched c) = length (cm_progress c)"

lemma side_of_text: "Side_String s \<in> {''buy'', ''sell''} \<Longrightarrow> s = Buy \<or> s = Sell"
  by (cases s) (auto simp: Side_String_def)

lemma side_asset_placed:
  assumes "placed D m req x" and "od_Side x \<in> {Buy, Sell}"
  shows "od_HoldAsset x = side_asset m (Side_String (od_Side x))" "side_asset m (Side_String (Side_Opposite (od_Side x))) = (if od_Side x = Buy then mk_BaseSymbol m else mk_QuoteSymbol m)"
    "od_HoldAsset x = (if od_Side x = Buy then mk_QuoteSymbol m else mk_BaseSymbol m)"
  using assms by (auto simp: placed_def side_asset_def holdFor_def Side_String_def Side_Opposite_def)

lemma insertParams_simps [simp]:
  "or_ID (insertParams D x) = od_ID x" "or_AccountID (insertParams D x) = od_AccountID x" "or_HoldAsset (insertParams D x) = od_HoldAsset x"
  "or_MarketID (insertParams D x) = od_MarketID x" "or_Side (insertParams D x) = Side_String (od_Side x)"
  "or_HoldRemaining (insertParams D x) = sent_units D (od_HoldRemaining x)"
  by (simp_all add: insertParams_def)

text \<open>A row the database accepts is of a new order on one of the two sides.\<close>

lemma InsertOrder_Inr:
  assumes "InsertOrder db r = Inr (db1, row)"
  shows "db1 = db\<lparr>db_orders := db_orders db @ [r]\<rparr>" "row = r" "or_ID r \<notin> or_ID ` set (db_orders db)" "or_Side r \<in> {''buy'', ''sell''}"
proof -
  have ch: "order_checks r" and new: "GetOrder db (or_ID r) = None" and res: "db1 = db\<lparr>db_orders := db_orders db @ [r]\<rparr>" "row = r"
    using assms unfolding InsertOrder_def by (auto split: if_split_asm)
  from res show "db1 = db\<lparr>db_orders := db_orders db @ [r]\<rparr>" "row = r" .
  from ch show "or_Side r \<in> {''buy'', ''sell''}" by (simp add: order_checks_def)
  from new show "or_ID r \<notin> or_ID ` set (db_orders db)" by (auto simp: GetOrder_def find_None_iff)
qed

context decimal
begin

definition locked :: "engine_env \<Rightarrow> 'd registry_Market \<Rightarrow> 'd command \<Rightarrow> 'd grp \<Rightarrow> bool" where
  "locked env m c g \<longleftrightarrow>
     (\<forall>req f. rq_place (cm_req c) = Some req \<longrightarrow> cm_hold c = Some f \<longrightarrow>
        waiting D (ee_ledger env) (db_ledger (g_db g)) f \<and> takes_hold val (cm_order c) (snd (holdFor D m req)) f) \<and>
     (\<forall>q f. rq_place (cm_req c) = None \<longrightarrow> rq_cancel (cm_req c) = Some q \<longrightarrow> cm_release c = Some f \<longrightarrow>
        waiting D (ee_ledger env) (db_ledger (g_db g)) f \<and> (\<exists>x. Mapping.lookup (g_orders g) (cq_OrderID q) = Some x \<and> gives_back val x f))"

text \<open>Rows added to the table, and what does not matter.\<close>

lemma cache_ok_append: "cache_ok val rows O' d \<Longrightarrow> cache_ok val (rows @ [r]) O' d"
  using cache_ok_same_rows [of val rows O' d "rows @ [r]" "{}"] by (auto intro: same_order_refl)

lemma settled_cong:
  assumes "db_ledger (g_db g1) = db_ledger (g_db g)" "db_orders (g_db g1) = db_orders (g_db g)" "g_orders g1 = g_orders g"
  shows "settled m H g1 = settled m H g"
  by (simp add: settled_def assms)

lemma settled_ledger:
  assumes "settled m H g" and "ledger_ok L" and "held L = held (db_ledger (g_db g))"
  shows "settled m H (g\<lparr>g_db := (g_db g)\<lparr>db_ledger := L\<rparr>\<rparr>)"
  using assms by (simp add: settled_def)

lemma rollback_ok:
  assumes "settled m H g" and "savepoint_ok c g" and "rollback_sp c g = (c1, g1)"
  shows "settled m H g1" "db_orders (g_db g1) = db_orders (g_db g)" "db_sequences (g_db g1) = db_sequences (g_db g)"
    "c1 = c\<lparr>cm_sp := None\<rparr>" "\<exists>db. g1 = g\<lparr>g_db := db\<rparr>"
proof -
  have "settled m H g1 \<and> db_orders (g_db g1) = db_orders (g_db g) \<and> db_sequences (g_db g1) = db_sequences (g_db g) \<and>
    c1 = c\<lparr>cm_sp := None\<rparr> \<and> (\<exists>db. g1 = g\<lparr>g_db := db\<rparr>)"
  proof (cases "cm_sp c")
    case None
    with assms(1,3) show ?thesis by (auto simp: rollback_sp_def intro!: exI [of _ "g_db g"])
  next
    case (Some db)
    with assms(2) obtain L where L: "db = (g_db g)\<lparr>db_ledger := L\<rparr>" "ledger_ok L" "held L = held (db_ledger (g_db g))"
      by (auto simp: savepoint_ok_def)
    with Some assms(3) settled_ledger [OF assms(1) L(2,3)] show ?thesis by (auto simp: rollback_sp_def)
  qed
  then show "settled m H g1" "db_orders (g_db g1) = db_orders (g_db g)" "db_sequences (g_db g1) = db_sequences (g_db g)"
    "c1 = c\<lparr>cm_sp := None\<rparr>" "\<exists>db. g1 = g\<lparr>g_db := db\<rparr>" by blast+
qed

section \<open>A refused order\<close>

lemma queueRejected_ok:
  assumes s: "settled m H g" and sp: "savepoint_ok c g" and p: "placed D m req (cm_order c)"
    and r: "queueRejected D rn c g sq = Inr (c', g')"
  shows "settled m H g'" "\<exists>row. db_orders (g_db g') = db_orders (g_db g) @ [row]" "stored c' = []"
    "db_sequences (g_db g') = db_sequences (g_db g)" "g_next g' = g_next g" "g_book g' = g_book g" "cm_rejected c' \<noteq> None" "cm_done c' = cm_done c"
proof -
  obtain c1 g1 where rb: "rollback_sp c g = (c1, g1)" by fastforce
  note rb' = rollback_ok [OF s sp rb]
  let ?rows = "db_orders (g_db g)"
  define x where "x = (cm_order c1)\<lparr>od_Status := StatusRejected, od_Seq := sq, od_RemainingQty := Zero D, od_HoldAmount := Zero D, od_HoldRemaining := Zero D\<rparr>"
  from r rb obtain db row where ins: "InsertOrder (g_db g1) (insertParams D x) = Inr (db, row)" and g': "g' = g1\<lparr>g_db := db\<rparr>"
    and c': "cm_rejected c' = Some row" "cm_done c' = cm_done c1"
    by (auto simp: queueRejected_def x_def Let_def split: sum.splits prod.splits)
  note i = InsertOrder_Inr [OF ins]
  let ?row = "insertParams D x"
  have db: "db = (g_db g1)\<lparr>db_orders := ?rows @ [?row]\<rparr>" using i(1) rb'(2) by simp
  have pl: "placed D m req x" using p by (simp add: placed_def x_def rb'(4))
  have "od_Side x \<in> {Buy, Sell}" using side_of_text i(4) by auto
  from side_asset_placed(1) [OF pl this] have "or_HoldAsset ?row = side_asset m (or_Side ?row)" by simp
  then have "rows_ok m (?rows @ [?row])" using rows_ok_append [of m ?rows ?row] s i(3) rb'(2) by (simp add: settled_def)
  moreover have "frozen_in (?rows @ [?row]) acct a = frozen_in ?rows acct a" for acct a
    using sent_units [of "Zero D"] by (simp add: frozen_in_def order_hold_def x_def)
  moreover have "ledger_ok (db_ledger (g_db g1))" "cache_ok val ?rows (g_orders g1) {}"
    "held (db_ledger (g_db g1)) acct a - frozen_in ?rows acct a = H acct a" for acct a
    using rb'(1,2) by (simp_all add: settled_def)
  ultimately show "settled m H g'" using cache_ok_append [of ?rows] by (simp add: settled_def g' db)
  show "\<exists>row. db_orders (g_db g') = ?rows @ [row]" by (simp add: g' db)
  show "db_sequences (g_db g') = db_sequences (g_db g)" using rb'(3) by (simp add: g' db)
  show "g_next g' = g_next g" "g_book g' = g_book g" using rb'(5) by (auto simp: g')
  show "stored c' = []" "cm_rejected c' \<noteq> None" by (simp_all add: stored_def c'(1))
  show "cm_done c' = cm_done c" by (simp add: c'(2) rb'(4))
qed

section \<open>An order the book accepts\<close>

lemma account_fits_checked:
  assumes "waiting D (ee_ledger env) (db_ledger (g_db g)) f" and "flight_check D env f g = Inr False"
  shows "\<forall>p \<in> set (en_Postings (pe_e (ff_pe f))). account_fits (ee_ledger env) (db_ledger (g_db g)) p"
  by (rule flight_checked(2) [OF assms])

text \<open>Its hold is posted and its row inserted: the walk of its events can begin.\<close>

lemma opened_ok:
  assumes s: "settled m H g" and w: "waiting D (ee_ledger env) (db_ledger (g_db g)) hold"
    and fit: "\<forall>p \<in> set (en_Postings (pe_e (ff_pe hold))). account_fits (ee_ledger env) (db_ledger (g_db g)) p"
    and th: "takes_hold val x amt hold" and t: "t = x\<lparr>od_HoldAmount := amt, od_HoldRemaining := amt, od_Status := StatusOpen\<rparr>"
    and p: "placed D m req x" and ap: "QueueApply D hold g = Inr (hold1, g1)" and ins: "InsertOrder (g_db g1) (insertParams D t) = Inr (db, row)"
    and c1: "cm_order c1 = t" "cm_settles c1 = []" "cm_releases c1 = []" "cm_makers c1 = []"
  shows "walk env H c1 (g1\<lparr>g_db := db\<rparr>)" "rows_ok m (db_orders db)" "db_orders db = db_orders (g_db g) @ [insertParams D t]"
    "db_sequences db = db_sequences (g_db g)" "g1 = g\<lparr>g_db := g_db g1\<rparr>" "od_Side x \<in> {Buy, Sell}"
proof -
  let ?rows = "db_orders (g_db g)" and ?row = "insertParams D t"
  from s have L: "ledger_ok (db_ledger (g_db g))" and ro: "rows_ok m ?rows" and ca: "cache_ok val ?rows (g_orders g) {}" by (simp_all add: settled_def)
  obtain L2 where L2: "g1 = g\<lparr>g_db := (g_db g)\<lparr>db_ledger := L2\<rparr>\<rparr>" "ledger_ok L2"
    "\<And>acct a. held L2 acct a = held (db_ledger (g_db g)) acct a + flight_gain val hold acct a"
    using QueueApply_ok [OF L w fit ap] by metis
  note i = InsertOrder_Inr [OF ins]
  have db: "db = (g_db g)\<lparr>db_ledger := L2, db_orders := ?rows @ [?row]\<rparr>" using i(1) by (simp add: L2(1))
  have new: "od_ID t \<notin> or_ID ` set ?rows" using i(3) by (simp add: L2(1))
  have f: "fits 18 (V (od_HoldRemaining t))" using th by (simp add: takes_hold_def t)
  have side: "od_Side x \<in> {Buy, Sell}" using side_of_text i(4) by (auto simp: t)
  have "placed D m req t" using p by (simp add: placed_def t)
  then have "or_HoldAsset ?row = side_asset m (or_Side ?row)" using side_asset_placed(1) [of D m req t] side by (simp add: t)
  with rows_ok_append [OF ro, of ?row] new show ro': "rows_ok m (db_orders db)" by (simp add: db)
  have none: "Mapping.lookup (g_orders g) (od_ID t) = None"
    using ca new unfolding cache_ok_def backed_def by (metis image_eqI not_None_eq)
  have ov: "memory val (g_orders g) (od_ID t) = None" by (simp add: memory_def none)
  have "hold_sum (with_order val t (memory val (g_orders g))) ?rows acct a = hold_sum (memory val (g_orders g)) ?rows acct a" for acct a
    unfolding with_order_def by (rule hold_sum_absent [OF new])
  moreover have hr: "order_hold (with_order val t (memory val (g_orders g))) ?row = V amt" by (simp add: order_hold_with t)
  ultimately have hs: "hold_sum (with_order val t (memory val (g_orders g))) (?rows @ [?row]) acct a =
      frozen_in ?rows acct a + (if acct = od_AccountID x \<and> a = od_HoldAsset x then V amt else 0)" for acct a
    using memory_level [OF _ ca] ro hr by (auto simp: rows_ok_def t)
  have "H acct a = held (db_ledger (g_db g)) acct a - frozen_in ?rows acct a" for acct a using s by (simp add: settled_def)
  then have "held L2 acct a - hold_sum (with_order val t (memory val (g_orders g))) (?rows @ [?row]) acct a = H acct a" for acct a
    using th unfolding L2(3) takes_hold_def hs by simp
  moreover have "backed (?rows @ [?row]) t" by (simp add: backed_def)
  moreover have "distinct (map or_ID (?rows @ [?row]))" using ro' by (simp only: rows_ok_def db) simp
  ultimately show "walk env H c1 (g1\<lparr>g_db := db\<rparr>)"
    using L2(2) cache_ok_append [OF ca] f none by (simp add: walk_ok_def L2(1) db c1 in_flight_simps(1) del: hold_sum_simps)
  show "db_orders db = ?rows @ [?row]" "db_sequences db = db_sequences (g_db g)" "g1 = g\<lparr>g_db := g_db g1\<rparr>" "od_Side x \<in> {Buy, Sell}"
    using side by (simp_all add: db L2(1))
qed

text \<open>Its whole walk.\<close>

definition book_after :: "'d registry_Market \<Rightarrow> OrderRow list \<Rightarrow> 'd trading_Order \<Rightarrow> 'd Book \<Rightarrow> bool" where
  "book_after m rows x b \<longleftrightarrow> (\<forall>i y. Book_Order b i = Some y \<longrightarrow>
     (\<exists>r \<in> set rows. or_ID r = i \<and> or_MarketID r = mk_ID m \<and> or_Side r = Side_String (ro_Side y)) \<or> i = od_ID x \<and> ro_Side y = od_Side x)"

definition trades_after :: "'d registry_Market \<Rightarrow> OrderRow list \<Rightarrow> 'd trading_Order \<Rightarrow> 'd Event list \<Rightarrow> bool" where
  "trades_after m rows x evs \<longleftrightarrow> (\<forall>e. EvTrade e \<in> set evs \<longrightarrow> tr_TakerSide e = od_Side x \<and>
     (\<exists>r \<in> set rows. or_ID r = tr_MakerOrderID e \<and> or_HoldAsset r = (if tr_TakerSide e = Buy then mk_BaseSymbol m else mk_QuoteSymbol m)))"

lemma walk_accepted_ok:
  assumes s: "settled m H g" and c: "fresh D m c" and l: "locked env m c g" and req: "rq_place (cm_req c) = Some req"
    and fit: "\<And>f. cm_hold c = Some f \<Longrightarrow> \<forall>p \<in> set (en_Postings (pe_e (ff_pe f))). account_fits (ee_ledger env) (db_ledger (g_db g)) p"
    and b: "book_ok D val (g_book g)" "book_after m (db_orders (g_db g)) (cm_order c) (g_book g)"
    and tr: "trades_after m (db_orders (g_db g)) (cm_order c) evs"
    and r: "walk_accepted D env rn m seq req evs c g = Inr (c', g')"
  shows "market_ok m H g' \<and> outer c g c' g' \<and> since (row_log c') (db_orders (g_db g)) (db_orders (g_db g')) \<and>
    length (cm_touched c') = length (cm_progress c')"
proof -
  let ?rows = "db_orders (g_db g)" and ?x = "cm_order c"
  define amt where "amt = snd (holdFor D m req)"
  define t where "t = ?x\<lparr>od_HoldAmount := amt, od_HoldRemaining := amt, od_Status := StatusOpen\<rparr>"
  from r obtain hold hold1 g1 db row where h: "cm_hold c = Some hold" and ap: "QueueApply D hold g = Inr (hold1, g1)"
    and ins: "InsertOrder (g_db g1) (insertParams D t) = Inr (db, row)"
    by (auto simp: walk_accepted_def t_def amt_def Let_def split: option.splits sum.splits prod.splits)
  define c1 where "c1 = c\<lparr>cm_order := t, cm_hold := Some hold1, cm_makers := [], cm_events :=
     Some (eb_add EventOrderAccepted (od_AccountID t) (accepted_payload m seq t)
       \<lparr>eb_tenant = rn_tenant rn, eb_market = mk_Symbol m, eb_now = cm_now c,
        eb_correlation = pq_CorrelationID req, eb_seq = Some seq, eb_items = []\<rparr>)\<rparr>"
  let ?g1 = "g1\<lparr>g_db := db\<rparr>"
  from r h ap ins obtain c2 g2 settles g3 releases g4 c3 g5 c4 g6 where
    ev: "walk_events D env rn m seq (pq_CorrelationID req) (tl evs) c1 ?g1 = Inr (c2, g2)"
    and st: "apply_flights D env (cm_settles c2) g2 = Inr (settles, g3)" and rl: "apply_flights D env (cm_releases c2) g3 = Inr (releases, g4)"
    and mk: "finish_makers D (cm_makers c2) (c2\<lparr>cm_settles := settles, cm_releases := releases\<rparr>) g4 = Inr (c3, g5)"
    and fi: "set_final D (cm_order c3) c3 g5 = Inr (c4, g6)"
    and res: "c' = c4" "g' = (if Terminal (od_Status (cm_order c4))
        then g6\<lparr>g_touched := Mapping.update (od_ID (cm_order c4)) (cm_order c4) (g_touched g6)\<rparr> else put_order (cm_order c4) g6)"
    by (auto simp: walk_accepted_def t_def amt_def c1_def Let_def split: sum.splits prod.splits)
  have p: "placed D m req ?x" using c req by (simp add: fresh_def)
  have lk: "waiting D (ee_ledger env) (db_ledger (g_db g)) hold" "takes_hold val ?x amt hold"
    using l req h by (simp_all add: locked_def amt_def)
  have c1: "cm_order c1 = t" "cm_settles c1 = []" "cm_releases c1 = []" "cm_makers c1 = []" using c by (simp_all add: c1_def fresh_def)
  note op = opened_ok [OF s lk(1) fit [OF h] lk(2) t_def p ap ins c1]
  let ?rows1 = "?rows @ [insertParams D t]"
  have rows1: "db_orders (g_db ?g1) = ?rows1" using op(3) by simp
  have side: "od_Side t = od_Side ?x" "placed D m req t" "od_Side t \<in> {Buy, Sell}" using p op(6) by (simp_all add: t_def placed_def)
  have "trade_sides m ?rows1 t e" if "e \<in> set (tl evs)" for e
  proof -
    have "e \<in> set evs" using that by (cases evs) auto
    then show ?thesis using tr side_asset_placed(3) [OF side(2,3)] side(1) by (auto simp: trade_sides_def trades_after_def)
  qed
  then have "\<forall>e \<in> set (tl evs). trade_sides m (db_orders (g_db ?g1)) (cm_order c1) e" by (simp add: op(3) c1(1))
  from walk_events_ok [OF op(1) this ev] have w: "walk env H c2 g2" and fr: "frame c1 ?g1 c2 g2" by blast+
  have rows2: "db_orders (g_db g2) = ?rows1" using fr rows1 by (simp add: frame_def)
  have "rows_ok m (db_orders (g_db g2))" using op(2,3) rows2 by simp
  note po = posted_ok [OF w this st rl]
  let ?c2 = "c2\<lparr>cm_settles := settles, cm_releases := releases\<rparr>"
  have "closing m H (set (cm_makers c2)) ?c2 g4" using po(1) .
  from finish_makers_ok [OF this mk] obtain ws where fm: "closing m H {} c3 g5" "outer ?c2 g4 c3 g5" "cm_order c3 = cm_order c2"
    "cm_progress c3 = cm_progress c2 @ map Some ws" "length (cm_touched c3) = length (cm_touched c2) + length ws" "since ws ?rows1 (db_orders (g_db g5))" "od_ID (cm_order c2) \<notin> or_ID ` set ws"
    using po(3) rows2 by auto
  note sf = set_final_ok [OF fm(1) fi]
  from sf(6) obtain q where q: "cm_final c4 = Some q" "or_ID q = od_ID (cm_order c3)" "since [q] (db_orders (g_db g5)) (db_orders (g_db g6))" by blast
  have "since (ws @ [q]) ?rows1 (db_orders (g_db g6))" by (rule since_trans [OF fm(6) q(3)])
  then have si: "since (q # ws) ?rows1 (db_orders (g_db g6))" using since_swap [of q ws] fm(3,7) q(2) by simp
  have "cm_progress c2 = []" "cm_touched c2 = []" using fr c by (simp_all add: frame_def fresh_def c1_def)
  then have len: "length (cm_touched c') = length (cm_progress c')" and "row_log c' = q # ws" by (simp_all add: row_log_def res(1) q(1) sf(3,5) fm(4,5))
  moreover have g': "db_orders (g_db g') = db_orders (g_db g6)" "g_book g' = g_book g6" "outer c4 g6 c' g'"
    by (simp_all add: res put_order_def outer_def)
  ultimately have si': "since (row_log c') ?rows1 (db_orders (g_db g'))" using si by simp
  obtain db1 where g1: "g1 = g\<lparr>g_db := db1\<rparr>" using op(5) by blast
  have "outer c g c1 ?g1" using op(4) by (simp add: outer_def c1_def g1)
  from outer_trans [OF this outer_frame [OF fr]] po(2) fm(2) sf(2) g'(3) have out: "outer c g c' g'"
    by (simp add: outer_def res(1))
  have st: "settled m H g'" using sf(1) by (simp add: res(2))
  have "book_backed m ?rows1 (g_book g)"
    unfolding book_backed_def
  proof (intro allI impI)
    fix i y assume "Book_Order (g_book g) i = Some y"
    with b(2) have "(\<exists>r \<in> set ?rows. or_ID r = i \<and> or_MarketID r = mk_ID m \<and> or_Side r = Side_String (ro_Side y)) \<or>
        i = od_ID ?x \<and> ro_Side y = od_Side ?x" unfolding book_after_def by blast
    with p show "\<exists>r \<in> set ?rows1. or_ID r = i \<and> or_MarketID r = mk_ID m \<and> or_Side r = Side_String (ro_Side y)"
      by (auto simp: t_def placed_def)
  qed
  from since_book [OF this si'] have "market_ok m H g'" using st b(1) out by (simp add: market_ok_def outer_def)
  moreover have "since (row_log c') ?rows (db_orders (g_db g'))"
    using since_trans [OF since_append si'] by simp
  ultimately show ?thesis using out len by blast
qed

section \<open>Placing\<close>

lemma book_fresh:
  assumes "book_backed m rows b" and "\<And>i y. Book_Order b1 i = Some y \<Longrightarrow> \<exists>z. Book_Order b i = Some z \<and> ro_Side z = ro_Side y"
  shows "book_backed m rows b1"
  using assms unfolding book_backed_def by metis

lemma refused_ok:
  assumes s: "settled m H g" and sp: "savepoint_ok c g" and p: "placed D m req (cm_order c)"
    and b: "book_ok D val (g_book g)" "book_backed m (db_orders (g_db g)) (g_book g)"
    and r: "queueRejected D rn c g sq = Inr (c', g')"
  shows "market_ok m H g'" "since (stored c') (db_orders (g_db g)) (db_orders (g_db g'))" "db_sequences (g_db g') = db_sequences (g_db g)"
    "g_next g' = g_next g" "cm_rejected c' \<noteq> None"
proof -
  note q = queueRejected_ok [OF s sp p r]
  from q(2) obtain row where row: "db_orders (g_db g') = db_orders (g_db g) @ [row]" by blast
  then show si: "since (stored c') (db_orders (g_db g)) (db_orders (g_db g'))" by (simp add: q(3))
  show "market_ok m H g'" using q(1,6) b(1) since_book [OF b(2) si] by (simp add: market_ok_def)
  show "db_sequences (g_db g') = db_sequences (g_db g)" "g_next g' = g_next g" by (rule q(4), rule q(5))
  show "cm_rejected c' \<noteq> None" by (rule q(7))
qed

definition stepped :: "'d registry_Market \<Rightarrow> (string \<Rightarrow> string \<Rightarrow> rat) \<Rightarrow> 'd grp \<Rightarrow> 'd command \<Rightarrow> 'd grp \<Rightarrow> bool" where
  "stepped m H g c' g' \<longleftrightarrow> market_ok m H g' \<and> since (stored c') (db_orders (g_db g)) (db_orders (g_db g')) \<and>
     db_sequences (g_db g') = db_sequences (g_db g) \<and> g_next g' \<in> {g_next g, g_next g + 1} \<and>
     tidy c'"

lemma place_in_book_ok:
  assumes s: "market_ok m H g" and c: "fresh D m c" and l: "locked env m c g" and sp: "savepoint_ok c g" and req: "rq_place (cm_req c) = Some req"
    and nd: "\<not> cm_done c"
    and fit: "\<And>f. cm_hold c = Some f \<Longrightarrow> \<forall>p \<in> set (en_Postings (pe_e (ff_pe f))). account_fits (ee_ledger env) (db_ledger (g_db g)) p"
    and r: "place_in_book D env rn m req c g = Inr (c', g')"
  shows "stepped m H g c' g'"
proof -
  let ?rows = "db_orders (g_db g)"
  define seq where "seq = g_next g + 1"
  define c1 where "c1 = c\<lparr>cm_seq := Some seq, cm_order := (cm_order c)\<lparr>od_Seq := Some seq\<rparr>\<rparr>"
  define cmd where "cmd = \<lparr>cmd_Seq = seq, cmd_Timestamp = cm_now c, cmd_New = Some (newOrderCommand (od_ID (cm_order c)) req), cmd_Cancel = None\<rparr>"
  from r obtain b evs where app: "Apply D (g_book g) cmd = Some (b, Inr evs)"
    by (auto simp: place_in_book_def Let_def seq_def cmd_def split: option.splits sum.splits prod.splits)
  define g1 where "g1 = g\<lparr>g_book := b, g_next := seq\<rparr>"
  from s have bk: "book_ok D val (g_book g)" "book_backed m ?rows (g_book g)" and st: "settled m H g" by (simp_all add: market_ok_def)
  have b: "book_ok D val b" using apply_total [OF bk(1), of cmd] app by auto
  have new: "cmd_New cmd = Some (newOrderCommand (od_ID (cm_order c)) req)" by (simp add: cmd_def)
  note sides = new_order_sides [OF bk(1) new app]
  have p: "placed D m req (cm_order c)" using c req by (simp add: fresh_def)
  have no: "no_OrderID (newOrderCommand (od_ID (cm_order c)) req) = od_ID (cm_order c)" "no_Side (newOrderCommand (od_ID (cm_order c)) req) = od_Side (cm_order c)"
    using p by (simp_all add: newOrderCommand_def placed_def)
  have st1: "settled m H g1" using st by (subst settled_cong [of g1 g]) (simp_all add: g1_def)
  show ?thesis
  proof (cases "\<exists>rj. evs = [EvRejected rj]")
    case True
    then obtain rj where rj: "evs = [EvRejected rj]" by blast
    let ?c = "c1\<lparr>cm_order := (cm_order c1)\<lparr>od_RejectReason := RejectReason_String (rj_Reason rj)\<rparr>\<rparr>"
    from r app rj have q: "queueRejected D rn ?c g1 (Some seq) = Inr (c', g')"
      by (simp add: place_in_book_def Let_def seq_def cmd_def c1_def g1_def)
    have "book_backed m ?rows b"
      by (rule book_fresh [OF bk(2)]) (use sides(1) rj in auto)
    with refused_ok [OF st1 _ _ _ _ q, of req] sp p b show ?thesis
      by (auto simp: stepped_def tidy_def c1_def g1_def savepoint_ok_def placed_def seq_def)
  next
    case False
    with sides(3) obtain e es where ev: "evs = EvAccepted e # es" by blast
    with r app have q: "walk_accepted D env rn m seq req evs c1 g1 = Inr (c', g')"
      by (simp add: place_in_book_def Let_def seq_def cmd_def c1_def g1_def)
    have ba: "book_after m (db_orders (g_db g1)) (cm_order c1) (g_book g1)"
      unfolding book_after_def
    proof (intro allI impI)
      fix i y assume "Book_Order (g_book g1) i = Some y"
      then have "Book_Order b i = Some y" by (simp add: g1_def)
      then have "(\<exists>z. Book_Order (g_book g) i = Some z \<and> ro_Side z = ro_Side y) \<or> i = od_ID (cm_order c) \<and> ro_Side y = od_Side (cm_order c)"
        using sides(1) by (auto simp: no)
      with bk(2) have "(\<exists>r \<in> set ?rows. or_ID r = i \<and> or_MarketID r = mk_ID m \<and> or_Side r = Side_String (ro_Side y)) \<or>
          i = od_ID (cm_order c) \<and> ro_Side y = od_Side (cm_order c)" unfolding book_backed_def by metis
      then show "(\<exists>r \<in> set (db_orders (g_db g1)). or_ID r = i \<and> or_MarketID r = mk_ID m \<and> or_Side r = Side_String (ro_Side y)) \<or>
          i = od_ID (cm_order c1) \<and> ro_Side y = od_Side (cm_order c1)" by (simp add: c1_def g1_def)
    qed
    have ta: "trades_after m (db_orders (g_db g1)) (cm_order c1) evs"
      unfolding trades_after_def
    proof (intro allI impI)
      fix e assume e: "EvTrade e \<in> set evs"
      from sides(2) [OF e] obtain y where y: "tr_TakerSide e = od_Side (cm_order c)" "od_Side (cm_order c) \<in> {Buy, Sell}"
        "Book_Order (g_book g) (tr_MakerOrderID e) = Some y" "ro_Side y = Side_Opposite (od_Side (cm_order c))"
        by (auto simp: no)
      with bk(2) obtain q where q: "q \<in> set ?rows" "or_ID q = tr_MakerOrderID e" "or_MarketID q = mk_ID m" "or_Side q = Side_String (ro_Side y)"
        unfolding book_backed_def by blast
      with st have "or_HoldAsset q = side_asset m (or_Side q)" by (auto simp: settled_def rows_ok_def)
      with q y side_asset_placed(2) [OF p y(2)] show "tr_TakerSide e = od_Side (cm_order c1) \<and> (\<exists>r \<in> set (db_orders (g_db g1)). or_ID r = tr_MakerOrderID e \<and>
          or_HoldAsset r = (if tr_TakerSide e = Buy then mk_BaseSymbol m else mk_QuoteSymbol m))"
        by (auto simp: c1_def g1_def)
    qed
    have cm1: "fresh D m c1" "locked env m c1 g1" "rq_place (cm_req c1) = Some req"
      using c l req by (auto simp: fresh_def locked_def c1_def g1_def placed_def takes_hold_def)
    have fit1: "\<forall>p \<in> set (en_Postings (pe_e (ff_pe f))). account_fits (ee_ledger env) (db_ledger (g_db g1)) p" if "cm_hold c1 = Some f" for f
      using fit that by (simp add: c1_def g1_def)
    have b1: "book_ok D val (g_book g1)" using b by (simp add: g1_def)
    from walk_accepted_ok [OF st1 cm1 fit1 b1 ba ta q] show ?thesis
      using c nd by (auto simp: stepped_def tidy_def outer_def c1_def g1_def seq_def stored_def fresh_def)
  qed
qed

lemma walkPlace_ok:
  assumes s: "market_ok m H g" and c: "fresh D m c" and l: "locked env m c g" and sp: "savepoint_ok c g" and req: "rq_place (cm_req c) = Some req"
    and nd: "\<not> cm_done c" and wrap: "g_next g < g_next g + 1" and r: "walkPlace D env rn m req c g = Inr (c', g')"
  shows "stepped m H g c' g'"
proof (cases "cm_hold c")
  case None
  with r have "place_in_book D env rn m req c g = Inr (c', g')" by (simp add: walkPlace_def)
  from place_in_book_ok [OF s c l sp req nd _ this] None show ?thesis by simp
next
  case (Some f)
  have w: "waiting D (ee_ledger env) (db_ledger (g_db g)) f" using l req Some by (simp add: locked_def)
  show ?thesis
  proof (cases "flight_check D env f g")
    case (Inr b)
    with r Some have nb: "\<not> b" and q: "place_in_book D env rn m req c g = Inr (c', g')" by (auto simp: walkPlace_def split: bool.splits)
    have "flight_check D env f g = Inr False" using Inr nb by simp
    from account_fits_checked [OF w this] Some show ?thesis by (intro place_in_book_ok [OF s c l sp req nd _ q]) simp
  next
    case (Inl e)
    with r Some have e: "e = ErrInsufficient" by (auto simp: walkPlace_def split: ledger_error.splits)
    define seq where "seq = g_next g + 1"
    define c1 where "c1 = c\<lparr>cm_seq := Some seq, cm_order := (cm_order c)\<lparr>od_RejectReason := RejectInsufficientBalance\<rparr>\<rparr>"
    from r Some Inl e obtain b where ad: "Advance (g_book g) seq = Inr b"
      and q: "queueRejected D rn c1 (g\<lparr>g_book := b, g_next := seq\<rparr>) (Some seq) = Inr (c', g')"
      by (auto simp: walkPlace_def Let_def seq_def c1_def split: sum.splits)
    let ?g1 = "g\<lparr>g_book := b, g_next := seq\<rparr>"
    from s have bk: "book_ok D val (g_book g)" "book_backed m (db_orders (g_db g)) (g_book g)" and st: "settled m H g" by (simp_all add: market_ok_def)
    have "bk_lastSeq (g_book g) < bk_lastSeq (g_book g) + 1" using ad wrap by (auto simp: Advance_def seq_def split: if_splits)
    note av = advance_sides [OF bk(1) ad this]
    have st1: "settled m H ?g1" using st by (subst settled_cong [of ?g1 g]) simp_all
    have "placed D m req (cm_order c1)" using c req by (simp add: fresh_def c1_def placed_def)
    from refused_ok [OF st1 _ this _ _ q] sp av(1,2) bk(2) show ?thesis
      by (auto simp: stepped_def tidy_def savepoint_ok_def c1_def seq_def book_backed_def)
  qed
qed

end

end
