(* ===== verification/Trading_Conserve.thy ===== *)
theory Trading_Conserve
  imports Trading_Command
begin

text \<open>
  The cancel of a resting order, the locks a command takes before it is walked, and the walk of a
  whole group.
\<close>

context decimal
begin

section \<open>Cancelling\<close>

lemma level_unit:
  assumes "distinct (map or_ID rows)" and "level val rows x" and "r \<in> set rows" and "or_ID r = od_ID x"
  shows "unit_val (or_HoldRemaining r) = V (od_HoldRemaining x)"
  using assms unfolding level_def by (metis distinct_map inj_onD)

lemma apply_release_ok:
  assumes s: "settled m H g" and x: "fits 18 (V (od_HoldRemaining x))"
    and f: "\<And>f. cm_release c = Some f \<Longrightarrow> waiting D (ee_ledger env) (db_ledger (g_db g)) f \<and> gives_back val x f \<and>
      (\<forall>p \<in> set (en_Postings (pe_e (ff_pe f))). account_fits (ee_ledger env) (db_ledger (g_db g)) p)"
    and r: "apply_release D c x g = Inr (c1, x1, g1)"
  obtains L where "g1 = g\<lparr>g_db := (g_db g)\<lparr>db_ledger := L\<rparr>\<rparr>" "ledger_ok L" "kept x x1" "fits 18 (V (od_HoldRemaining x1))" "\<exists>f. c1 = c\<lparr>cm_release := f\<rparr>"
    "\<And>acct a. held L acct a = held (db_ledger (g_db g)) acct a + hold_change val x x1 acct a"
proof (cases "cm_release c")
  case None
  with r have "c1 = c" "x1 = x" "g1 = g" by (auto simp: apply_release_def)
  note eq = this
  have "c1 = c\<lparr>cm_release := cm_release c\<rparr>" by (simp add: eq(1))
  then have "\<exists>f. c1 = c\<lparr>cm_release := f\<rparr>" ..
  moreover have "ledger_ok (db_ledger (g_db g))" using s by (simp add: settled_def)
  ultimately show thesis by (intro that [of "db_ledger (g_db g)"]) (simp_all add: eq(2,3) x)
next
  case (Some fl)
  have L: "ledger_ok (db_ledger (g_db g))" using s by (simp add: settled_def)
  from Some r obtain f1 where ap: "QueueApply D fl g = Inr (f1, g1)" and res: "x1 = x\<lparr>od_HoldRemaining := Zero D\<rparr>" "c1 = c\<lparr>cm_release := Some f1\<rparr>"
    by (auto simp: apply_release_def split: sum.splits prod.splits)
  from f [OF Some] have w: "waiting D (ee_ledger env) (db_ledger (g_db g)) fl"
    and fit: "\<forall>p \<in> set (en_Postings (pe_e (ff_pe fl))). account_fits (ee_ledger env) (db_ledger (g_db g)) p" by blast+
  obtain L2 where L2: "g1 = g\<lparr>g_db := (g_db g)\<lparr>db_ledger := L2\<rparr>\<rparr>" "ledger_ok L2"
    "\<And>acct a. held L2 acct a = held (db_ledger (g_db g)) acct a + flight_gain val fl acct a"
    by (rule QueueApply_ok [OF L w fit ap]) (auto intro: that)
  have "\<exists>f. c1 = c\<lparr>cm_release := f\<rparr>" using res(2) by blast
  moreover have "flight_gain val fl acct a = hold_change val x x1 acct a" for acct a
    using f [OF Some] by (simp add: gives_back_def hold_change_def res)
  ultimately show thesis by (intro that [OF L2(1,2)]) (simp_all add: L2(3) res kept_def)
qed

lemma cancel_in_book_ok:
  assumes s: "market_ok m H g" and c: "fresh D m c" and nd: "\<not> cm_done c"
    and x: "Mapping.lookup (g_orders g) (cq_OrderID q) = Some x"
    and f: "\<And>f. cm_release c = Some f \<Longrightarrow> waiting D (ee_ledger env) (db_ledger (g_db g)) f \<and> gives_back val x f \<and>
      (\<forall>p \<in> set (en_Postings (pe_e (ff_pe f))). account_fits (ee_ledger env) (db_ledger (g_db g)) p)"
    and r: "cancel_in_book D rn m q x c g = Inr (c', g')"
  shows "stepped m H g c' g'"
proof -
  let ?rows = "db_orders (g_db g)"
  define seq where "seq = g_next g + 1"
  define cmd :: "'d Command" where "cmd = \<lparr>cmd_Seq = seq, cmd_Timestamp = cm_now c, cmd_New = None,
    cmd_Cancel = Some \<lparr>ca_OrderID = cq_OrderID q, ca_AccountID = cq_AccountID q\<rparr>\<rparr>"
  from r obtain b evs where app: "Apply D (g_book g) cmd = Some (b, Inr evs)"
    by (auto simp: cancel_in_book_def Let_def seq_def cmd_def split: option.splits sum.splits prod.splits)
  from s have bk: "book_ok D val (g_book g)" "book_backed m ?rows (g_book g)" and st: "settled m H g" by (simp_all add: market_ok_def)
  have b: "book_ok D val b" using apply_total [OF bk(1), of cmd] app by auto
  have bb: "book_backed m ?rows b"
    by (rule book_fresh [OF bk(2)]) (rule cancel_sides [OF bk(1) _ _ app], simp_all add: cmd_def)
  from r app obtain e es where ev: "evs = EvCancelled e # es"
    by (cases evs) (auto simp: cancel_in_book_def Let_def seq_def cmd_def split: Event.splits)
  define x1 where "x1 = x\<lparr>od_Status := StatusCancelled, od_CancelReason := CancelReason_text (cn_Reason e), od_FilledQty := cn_FilledQty e,
                         od_FilledQuote := cn_FilledQuote e, od_RemainingQty := cn_RemainingQty e\<rparr>"
  define g0 where "g0 = g\<lparr>g_book := b, g_next := seq\<rparr>"
  from r app ev obtain c1 x2 g1 c2 g2 es' where ar: "apply_release D (c\<lparr>cm_seq := Some seq\<rparr>) x1 g0 = Inr (c1, x2, g1)"
    and sf: "set_final D x2 c1 g1 = Inr (c2, g2)" and res: "c' = c2\<lparr>cm_order := x2, cm_events := es'\<rparr>" "g' = end_order x2 g2"
    by (auto simp: cancel_in_book_def Let_def seq_def cmd_def x1_def g0_def split: sum.splits prod.splits)
  have k1: "kept x x1" "od_HoldRemaining x1 = od_HoldRemaining x" by (simp_all add: kept_def x1_def)
  from st have ca: "cache_ok val ?rows (g_orders g) {}" and ro: "rows_ok m ?rows" and d: "distinct (map or_ID ?rows)"
    by (simp_all add: settled_def rows_ok_def)
  from ca x have cx: "od_ID x = cq_OrderID q" "backed ?rows x" "fits 18 (V (od_HoldRemaining x))" "level val ?rows x" by (auto simp: cache_ok_def)
  have st0: "settled m H g0" using st by (subst settled_cong [of g0 g]) (simp_all add: g0_def)
  have fx: "fits 18 (V (od_HoldRemaining x1))" using cx(3) k1(2) by simp
  have f0: "waiting D (ee_ledger env) (db_ledger (g_db g0)) fl \<and> gives_back val x1 fl \<and>
      (\<forall>p \<in> set (en_Postings (pe_e (ff_pe fl))). account_fits (ee_ledger env) (db_ledger (g_db g0)) p)"
    if "cm_release (c\<lparr>cm_seq := Some seq\<rparr>) = Some fl" for fl
    using f [of fl] that by (auto simp: g0_def x1_def gives_back_def)
  obtain L where L: "g1 = g0\<lparr>g_db := (g_db g0)\<lparr>db_ledger := L\<rparr>\<rparr>" "ledger_ok L" "kept x1 x2" "fits 18 (V (od_HoldRemaining x2))"
    "\<exists>f. c1 = c\<lparr>cm_seq := Some seq, cm_release := f\<rparr>" "\<And>acct a. held L acct a = held (db_ledger (g_db g0)) acct a + hold_change val x1 x2 acct a"
    by (rule apply_release_ok [OF st0 fx f0 ar]) (auto intro: that)
  have k2: "kept x x2" by (rule kept_trans [OF k1(1) L(3)])
  have b2: "backed ?rows x2" by (rule backed_kept [OF cx(2) k2])
  from sf obtain db row where u: "UpdateOrderProgress (g_db g1) (progressParams D x2) = Inr (db, row)"
    and c2: "c2 = c1\<lparr>cm_final := row, cm_sp := None\<rparr>" "g2 = g1\<lparr>g_db := db\<rparr>"
    by (auto simp: set_final_def split: sum.splits prod.splits)
  have g1: "db_orders (g_db g1) = ?rows" "g_orders g1 = g_orders g" "db_sequences (g_db g1) = db_sequences (g_db g)" "g_next g1 = seq" "g_book g1 = b"
    "db_ledger (g_db g1) = L"
    by (simp_all add: L(1) g0_def)
  obtain w r1 where w: "db = (g_db g1)\<lparr>db_orders := set_order r1 ?rows\<rparr>" "row = Some r1" "w \<in> set ?rows" "same_order w r1" "or_ID w = od_ID x2"
    "or_AccountID w = od_AccountID x2" "or_HoldAsset w = od_HoldAsset x2" "unit_val (or_HoldRemaining r1) = V (od_HoldRemaining x2)"
    using progress_row [of "g_db g1" x2, unfolded g1(1), OF d b2 L(4) u] by metis
  have id: "od_ID x2 = cq_OrderID q" using k2 cx(1) by (simp add: kept_def)
  have wv: "unit_val (or_HoldRemaining w) = V (od_HoldRemaining x)" by (rule level_unit [OF d cx(4) w(3)]) (use w(5) id cx(1) in simp)
  have fr: "frozen_in (set_order r1 ?rows) acct a = frozen_in ?rows acct a + hold_change val x x2 acct a" for acct a
    unfolding frozen_in_def hold_sum_set_order [OF d w(3,4)] using w(6,7,8) wv k2 by (auto simp: order_hold_def hold_change_def kept_def)
  have hc: "hold_change val x1 x2 acct a = hold_change val x x2 acct a" for acct a by (simp add: hold_change_def x1_def)
  have "cache_ok val (set_order r1 ?rows) (g_orders g) ({} \<union> {cq_OrderID q})"
    by (rule cache_ok_same_rows [OF ca]) (use set_order_static(1) [OF d w(3,4)] w(5) id in auto)
  then have ca': "cache_ok val (set_order r1 ?rows) (Mapping.delete (cq_OrderID q) (g_orders g)) {}"
    unfolding cache_ok_def by (metis Un_insert_right insertE lookup_delete lookup_delete_neq option.distinct(1) sup_bot.right_neutral)
  have since: "since [r1] ?rows (set_order r1 ?rows)" by (rule since_update [OF d w(3,4)])
  have st': "settled m H g'"
    using L(2) ca' rows_ok_set_order [OF ro w(3,4)] L(6) fr hc st
    by (simp add: settled_def res(2) c2(2) end_order_def id w(1) g1 g0_def)
  have rest: "g_book g' = b" "db_orders (g_db g') = set_order r1 ?rows" "db_sequences (g_db g') = db_sequences (g_db g)" "g_next g' = seq"
    by (simp_all add: res(2) c2(2) end_order_def w(1) g1)
  have "stored c' = [r1]" "cm_touched c' = []" "cm_progress c' = []"
    using L(5) c nd by (auto simp: stored_def row_log_def res(1) c2(1) fresh_def w(2) map_filter_simps)
  then show ?thesis using st' b since since_book [OF bb since] rest by (simp add: stepped_def tidy_def market_ok_def seq_def)
qed

lemma walkCancel_ok:
  assumes s: "market_ok m H g" and c: "fresh D m c" and l: "locked env m c g" and nd: "\<not> cm_done c"
    and req: "rq_place (cm_req c) = None" "rq_cancel (cm_req c) = Some q" and r: "walkCancel D env rn m q c g = Inr (c', g')"
  shows "stepped m H g c' g'"
proof -
  from r obtain x where x: "Mapping.lookup (g_orders g) (cq_OrderID q) = Some x" and b: "cancel_in_book D rn m q x c g = Inr (c', g')"
    and ck: "\<And>f. cm_release c = Some f \<Longrightarrow> checkEntry D env f g = None"
    by (auto simp: walkCancel_def split: option.splits)
  show ?thesis
  proof (rule cancel_in_book_ok [OF s c nd x _ b])
    fix f assume f: "cm_release c = Some f"
    then have w: "waiting D (ee_ledger env) (db_ledger (g_db g)) f" and gb: "gives_back val x f" using l req x by (auto simp: locked_def)
    have "flight_check D env f g = Inr False" using ck [OF f] by (auto simp: checkEntry_def split: sum.splits bool.splits)
    with w gb account_fits_checked show "waiting D (ee_ledger env) (db_ledger (g_db g)) f \<and> gives_back val x f \<and>
      (\<forall>p \<in> set (en_Postings (pe_e (ff_pe f))). account_fits (ee_ledger env) (db_ledger (g_db g)) p)" by blast
  qed
qed

section \<open>Locks before the walk\<close>

text \<open>A command the group has read for, and not locked.\<close>

definition unlocked :: "'d command \<Rightarrow> bool" where
  "unlocked c \<longleftrightarrow> cm_hold c = None \<and> cm_release c = None \<and> cm_sp c = None"

text \<open>A cancel is never refused: the order it is about has a row.\<close>

definition refusable :: "OrderRow list \<Rightarrow> 'd command \<Rightarrow> bool" where
  "refusable rows c \<longleftrightarrow> rq_place (cm_req c) \<noteq> None \<or> od_Status (cm_order c) \<noteq> StatusRejected \<or> backed rows (cm_order c)"

lemma refusable_since: "refusable rows c \<Longrightarrow> since ws rows rows1 \<Longrightarrow> refusable rows1 c"
  by (auto simp: refusable_def intro: since_backed)

lemma locked_flight:
  assumes s: "market_ok m H g" and f: "ff_pe f = pending e" "Entry_Validate D e = None" and r: "QueueLocks env att f g = Inr (f1, g1)"
  shows "market_ok m H g1" "waiting D (ee_ledger env) (db_ledger (g_db g1)) f1" "flight_gain val f1 = flight_gain val f"
    "savepoint_ok (c\<lparr>cm_sp := Some (g_db g)\<rparr>) g1" "\<exists>L n. g1 = g\<lparr>g_db := (g_db g)\<lparr>db_ledger := L\<rparr>, g_entries := n\<rparr>"
proof -
  have L: "ledger_ok (db_ledger (g_db g))" using s by (simp add: market_ok_def settled_def)
  from QueueLocks_ok [OF L f r] obtain L1 lk where L1: "g1 = g\<lparr>g_db := (g_db g)\<lparr>db_ledger := L1\<rparr>, g_entries := Suc (g_entries g)\<rparr>" "f1 = f\<lparr>ff_locked := Some lk\<rparr>"
    "ledger_ok L1" "held L1 = held (db_ledger (g_db g))" "waiting D (ee_ledger env) L1 f1" by (metis (no_types))
  show "market_ok m H g1" using s L1(3,4) by (simp add: market_ok_def settled_def L1(1))
  show "waiting D (ee_ledger env) (db_ledger (g_db g1)) f1" using L1(5) by (simp add: L1(1))
  show "flight_gain val f1 = flight_gain val f" by (simp add: L1(2) flight_gain_def fun_eq_iff)
  show "savepoint_ok (c\<lparr>cm_sp := Some (g_db g)\<rparr>) g1" using L L1(4) by (auto simp: savepoint_ok_def L1(1) intro!: exI [of _ "db_ledger (g_db g)"])
  show "\<exists>L n. g1 = g\<lparr>g_db := (g_db g)\<lparr>db_ledger := L\<rparr>, g_entries := n\<rparr>" using L1(1) by blast
qed

definition ready_to_walk :: "engine_env \<Rightarrow> 'd registry_Market \<Rightarrow> (string \<Rightarrow> string \<Rightarrow> rat) \<Rightarrow> 'd grp \<Rightarrow> 'd command \<Rightarrow> 'd grp \<Rightarrow> bool" where
  "ready_to_walk env m H g c1 g1 \<longleftrightarrow> market_ok m H g1 \<and> fresh D m c1 \<and> savepoint_ok c1 g1 \<and> (cm_done c1 \<or> locked env m c1 g1) \<and>
     refusable (db_orders (g_db g1)) c1 \<and> (\<exists>L n. g1 = g\<lparr>g_db := (g_db g)\<lparr>db_ledger := L\<rparr>, g_entries := n\<rparr>)"

lemma same_group: "\<exists>L n. g = g\<lparr>g_db := (g_db g)\<lparr>db_ledger := L\<rparr>, g_entries := n\<rparr>"
  by (rule exI [of _ "db_ledger (g_db g)"], rule exI [of _ "g_entries g"]) simp

lemma step_locks_ok:
  assumes s: "market_ok m H g" and c: "fresh D m c" "unlocked c" "refusable (db_orders (g_db g)) c" and r: "step_locks D env rn m c g = Inr (c1, g1)"
  shows "ready_to_walk env m H g c1 g1"
proof (cases "prepare D m g c")
  case (Inl e)
  with r have "c1 = answered (err_response e) c" "g1 = g" by (simp_all add: step_locks_def)
  with s c same_group [of g] show ?thesis by (auto simp: ready_to_walk_def answered_def fresh_def unlocked_def savepoint_ok_def refusable_def)
next
  case (Inr c0)
  with r have q: "queueLocks env (rn_attempt rn) c0 g = Inr (c1, g1)" by (simp add: step_locks_def)
  have sp: "savepoint_ok (x\<lparr>cm_sp := Some (g_db g)\<rparr>) g" for x :: "'d command"
    using s by (auto simp: savepoint_ok_def market_ok_def settled_def intro!: exI [of _ "db_ledger (g_db g)"])
  show ?thesis
  proof (cases "rq_place (cm_req c)")
    case (Some req)
    show ?thesis
    proof (cases "BeginHold D (hold_params D m (cm_order c) req)")
      case (Inl e)
      with Some Inr have c0: "c0 = c" by (auto simp: prepare_def split: if_splits)
      with q c(2) Some have "c1 = c\<lparr>cm_sp := Some (g_db g), cm_hold := None\<rparr>" "g1 = g"
        by (auto simp: queueLocks_def queue_flight_def unlocked_def Let_def)
      with s c sp [of "c\<lparr>cm_hold := None\<rparr>"] same_group [of g] Some show ?thesis
        by (auto simp: ready_to_walk_def fresh_def savepoint_ok_def locked_def refusable_def)
    next
      case f: (Inr f)
      with Some Inr have c0: "c0 = c\<lparr>cm_hold := Some f\<rparr>" by (auto simp: prepare_def)
      with q Some obtain f1 where lk: "QueueLocks env (rn_attempt rn) f g = Inr (f1, g1)" and c1: "c1 = c0\<lparr>cm_sp := Some (g_db g), cm_hold := Some f1\<rparr>"
        by (auto simp: queueLocks_def queue_flight_def Let_def split: sum.splits prod.splits)
      obtain e where e: "f = new_flight (pending e)" "Entry_Validate D e = None" "fits 18 (V (snd (holdFor D m req)))"
        "\<And>acct a. flight_gain val f acct a = (if acct = od_AccountID (cm_order c) \<and> a = fst (holdFor D m req) then V (snd (holdFor D m req)) else 0)"
        by (rule BeginHold_ok [OF f]) (simp add: hold_params_def)
      have pe: "ff_pe f = pending e" by (simp add: e(1) new_flight_def)
      note lf = locked_flight [OF s pe e(2) lk]
      note sp1 = lf(4) [of "c0\<lparr>cm_hold := Some f1\<rparr>"]
      have "placed D m req (cm_order c)" using c(1) Some by (simp add: fresh_def)
      then have "takes_hold val (cm_order c) (snd (holdFor D m req)) f1" using e(3,4) by (simp add: takes_hold_def lf(3) placed_def)
      with lf(1,2,5) sp1 c(1,3) Some show ?thesis
        by (auto simp: ready_to_walk_def c1 c0 locked_def fresh_def savepoint_ok_def refusable_def)
    qed
  next
    case None
    show ?thesis
    proof (cases "\<exists>f. cm_release c0 = Some f")
      case False
      with q None have c1: "c1 = c0\<lparr>cm_sp := Some (g_db g), cm_release := None\<rparr>" "g1 = g" and req: "cm_req c0 = cm_req c"
        using Inr by (auto simp: queueLocks_def queue_flight_def prepare_def Let_def split: option.splits sum.splits if_splits)
      have fr: "fresh D m c0" using c(1) Inr None by (auto simp: prepare_def fresh_def split: option.splits sum.splits if_splits)
      have rf: "refusable (db_orders (g_db g)) c0" using c(3) Inr None s
        by (auto simp: prepare_def refusable_def market_ok_def settled_def cache_ok_def split: option.splits sum.splits if_splits)
      from fr rf s sp [of "c0\<lparr>cm_release := None\<rparr>"] same_group [of g] None req show ?thesis
        by (auto simp: ready_to_walk_def c1 fresh_def savepoint_ok_def locked_def refusable_def)
    next
      case True
      then obtain f where f0: "cm_release c0 = Some f" by blast
      with Inr None c(2) obtain cq x where cq: "rq_cancel (cm_req c) = Some cq" "Mapping.lookup (g_orders g) (cq_OrderID cq) = Some x"
        and f: "BeginRelease D (release_params x (g_next g + 1) (cq_CorrelationID cq)) = Inr f" and c0: "c0 = c\<lparr>cm_order := x, cm_release := Some f\<rparr>"
        by (auto simp: prepare_def unlocked_def split: option.splits sum.splits if_splits)
      from q None f0 c0 obtain f1 where lk: "QueueLocks env (rn_attempt rn) f g = Inr (f1, g1)" and c1: "c1 = c0\<lparr>cm_sp := Some (g_db g), cm_release := Some f1\<rparr>"
        by (auto simp: queueLocks_def queue_flight_def Let_def split: sum.splits prod.splits)
      obtain e where e: "f = new_flight (pending e)" "Entry_Validate D e = None"
        "\<And>acct a. flight_gain val f acct a = (if acct = od_AccountID x \<and> a = od_HoldAsset x then - V (od_HoldRemaining x) else 0)"
        by (rule BeginRelease_ok [OF f]) (simp add: release_params_def)
      have pe: "ff_pe f = pending e" by (simp add: e(1) new_flight_def)
      note lf = locked_flight [OF s pe e(2) lk]
      note sp1 = lf(4) [of "c0\<lparr>cm_release := Some f1\<rparr>"]
      have gb: "gives_back val x f1" using e(3) by (simp add: gives_back_def lf(3))
      have "Mapping.lookup (g_orders g1) (cq_OrderID cq) = Some x" "db_orders (g_db g1) = db_orders (g_db g)" using lf(5) cq(2) by auto
      moreover have "backed (db_orders (g_db g)) x" using s cq(2) by (auto simp: market_ok_def settled_def cache_ok_def)
      ultimately show ?thesis using lf(1,2,5) sp1 c(1) None cq gb
        by (auto simp: ready_to_walk_def c1 c0 locked_def fresh_def savepoint_ok_def refusable_def)
    qed
  qed
qed

end

end
