(* ===== verification/Trading_Invariant.thy ===== *)
theory Trading_Invariant
  imports Trading_Conserve
begin

text \<open>
  A whole group keeps the market in step: its commands one after the other, the account sequences,
  the rows read back into the cache, the outbox and the commit; and so does the runner, which
  rebuilds the book when a group failed.
\<close>

context decimal
begin

section \<open>One command of a group\<close>

lemma resolve_ok:
  assumes "resolve D env rn m g c = Inr c1"
  shows "fresh D m c \<Longrightarrow> fresh D m c1" "cm_sp c1 = cm_sp c" "cm_hold c1 = cm_hold c" "cm_release c1 = cm_release c" "cm_req c1 = cm_req c"
    "cm_done c1 \<or> c1 = c" "refusable rows c \<Longrightarrow> refusable rows c1"
proof -
  have "c1 = c \<or> (\<exists>resp. c1 = answered resp c) \<or>
      (rq_place (cm_req c) \<noteq> None \<and> (\<exists>t. c1 = c\<lparr>cm_done := True, cm_order := (cm_order c)\<lparr>od_Status := StatusRejected, od_RejectReason := t\<rparr>\<rparr>))"
    using assms
    by (auto simp: resolve_def resolve_place_def resolve_cancel_def split: if_split_asm option.split_asm sum.split_asm)
  then show "fresh D m c \<Longrightarrow> fresh D m c1" "cm_sp c1 = cm_sp c" "cm_hold c1 = cm_hold c" "cm_release c1 = cm_release c" "cm_req c1 = cm_req c"
    "cm_done c1 \<or> c1 = c" "refusable rows c \<Longrightarrow> refusable rows c1"
    by (auto simp: answered_def fresh_def placed_def refusable_def)
qed

text \<open>A row is refused when its id has one.\<close>

lemma not_queued:
  assumes "settled m H g" and "savepoint_ok c g" and "backed (db_orders (g_db g)) (cm_order c)"
  shows "queueRejected D rn c g sq \<noteq> Inr (c', g')"
proof
  assume r: "queueRejected D rn c g sq = Inr (c', g')"
  obtain c1 g1 where rb: "rollback_sp c g = (c1, g1)" by fastforce
  note rb' = rollback_ok [OF assms(1,2) rb]
  from r rb obtain x db row where "InsertOrder (g_db g1) (insertParams D x) = Inr (db, row)" "od_ID x = od_ID (cm_order c1)"
    by (auto simp: queueRejected_def Let_def split: sum.splits prod.splits)
  from InsertOrder_Inr(3) [OF this(1)] this(2) assms(3) show False using rb'(2,4) by (auto simp: backed_def image_iff)
qed

lemma step_done_ok:
  assumes s: "market_ok m H g" and c: "fresh D m c" and sp: "savepoint_ok c g" and rf: "refusable (db_orders (g_db g)) c" and d: "cm_done c"
    and r: "step_done D rn c g = Inr (c', g')"
  shows "stepped m H g c' g'"
proof -
  from s have bk: "book_ok D val (g_book g)" "book_backed m (db_orders (g_db g)) (g_book g)" and st: "settled m H g" by (simp_all add: market_ok_def)
  obtain c1 g1 where rb: "rollback_sp c g = (c1, g1)" by fastforce
  note rb' = rollback_ok [OF st sp rb]
  from rb'(5) obtain db where g1: "g1 = g\<lparr>g_db := db\<rparr>" by blast
  have rows: "db_orders (g_db g1) = db_orders (g_db g)" "db_sequences (g_db g1) = db_sequences (g_db g)" by (rule rb'(2), rule rb'(3))
  show ?thesis
  proof (cases "rp_err (cm_resp c1) = None \<and> od_Status (cm_order c1) = StatusRejected \<and> cm_rejected c1 = None")
    case False
    with r rb have "c' = c1" "g' = g1" by (auto simp: step_done_def)
    then show ?thesis using rb'(1) rows bk d by (simp add: stepped_def tidy_def market_ok_def stored_def rb'(4) g1)
  next
    case True
    with r rb have q: "queueRejected D rn c1 g1 None = Inr (c', g')" by (simp add: step_done_def)
    have sp1: "savepoint_ok c1 g1" by (simp add: rb'(4) savepoint_ok_def)
    from rf True rb'(4) have "(\<exists>req. rq_place (cm_req c) = Some req) \<or> backed (db_orders (g_db g1)) (cm_order c1)"
      by (auto simp: refusable_def rows)
    with not_queued [OF rb'(1) sp1] q obtain req where "rq_place (cm_req c) = Some req" by blast
    with c have p: "placed D m req (cm_order c1)" by (simp add: fresh_def rb'(4))
    have "book_ok D val (g_book g1)" "book_backed m (db_orders (g_db g1)) (g_book g1)" using bk rows by (simp_all add: g1)
    from refused_ok [OF rb'(1) sp1 p this q] rows show ?thesis by (auto simp: stepped_def tidy_def g1)
  qed
qed

lemma step_walk_ok:
  assumes s: "market_ok m H g" and c: "fresh D m c" and l: "locked env m c g" and sp: "savepoint_ok c g" and nd: "\<not> cm_done c"
    and wrap: "g_next g < g_next g + 1" and r: "step_walk D env rn m c g = Inr (c', g')"
  shows "stepped m H g c' g'"
proof (cases "rq_place (cm_req c)")
  case (Some req)
  with r show ?thesis by (intro walkPlace_ok [OF s c l sp Some nd wrap]) (simp add: step_walk_def)
next
  case None
  with r obtain q where q: "rq_cancel (cm_req c) = Some q" "walkCancel D env rn m q c g = Inr (c', g')"
    by (auto simp: step_walk_def split: option.splits)
  show ?thesis by (rule walkCancel_ok [OF s c l nd None q])
qed

text \<open>The first command of a group has its locks; a later one takes them when its turn comes.\<close>

definition before_step :: "engine_env \<Rightarrow> 'd registry_Market \<Rightarrow> bool \<Rightarrow> 'd command \<Rightarrow> 'd grp \<Rightarrow> bool" where
  "before_step env m later c g \<longleftrightarrow> fresh D m c \<and> refusable (db_orders (g_db g)) c \<and>
     (if later then unlocked c else savepoint_ok c g \<and> (cm_done c \<or> locked env m c g))"

lemma step_command_ok:
  assumes s: "market_ok m H g" and c: "before_step env m later c g" and wrap: "g_next g < g_next g + 1"
    and r: "step_command D env rn m later c g = Inr (c', g')"
  shows "stepped m H g c' g'"
proof -
  from c have fr: "fresh D m c" and rf: "refusable (db_orders (g_db g)) c" by (simp_all add: before_step_def)
  have same: "stepped m H g x g" if "cm_done x" for x using s that by (simp add: stepped_def tidy_def stored_def)
  show ?thesis
  proof (cases "cm_done c")
    case True
    with r have q: "step_done D rn c g = Inr (c', g')" by (simp add: step_command_def)
    have "savepoint_ok c g" using c by (auto simp: before_step_def unlocked_def savepoint_ok_def split: if_splits)
    from step_done_ok [OF s fr this rf True q] show ?thesis .
  next
    case nd: False
    show ?thesis
    proof (cases later)
      case False
      with r nd have "step_walk D env rn m c g = Inr (c', g')" by (simp add: step_command_def)
      moreover have "locked env m c g" "savepoint_ok c g" using c False nd by (simp_all add: before_step_def)
      ultimately show ?thesis by (intro step_walk_ok [OF s fr _ _ nd wrap])
    next
      case True
      with r nd obtain c1 g1 where l: "step_later D env rn m c g = Inr (c1, g1)"
        and w: "(if cm_done c1 then Inr (c1, g1) else step_walk D env rn m c1 g1) = Inr (c', g')"
        by (auto simp: step_command_def split: sum.splits prod.splits)
      show ?thesis
      proof (cases "\<exists>i. c1 = c\<lparr>cm_done := True, cm_deferred := Some i\<rparr> \<and> g1 = g")
        case True
        with w have "cm_done c'" "g' = g" by (auto split: if_splits)
        then show ?thesis using same by blast
      next
        case False
        with l have sl: "step_locks D env rn m c g = Inr (c1, g1)" by (auto simp: step_later_def split: option.splits if_splits)
        have ul: "unlocked c" using c True by (simp add: before_step_def)
        from step_locks_ok [OF s fr ul rf sl] have rd: "ready_to_walk env m H g c1 g1" .
        then obtain L n where g1: "g1 = g\<lparr>g_db := (g_db g)\<lparr>db_ledger := L\<rparr>, g_entries := n\<rparr>" by (auto simp: ready_to_walk_def)
        show ?thesis
        proof (cases "cm_done c1")
          case True
          with w have "c' = c1" "g' = g1" by simp_all
          with rd True show ?thesis by (simp add: stepped_def tidy_def ready_to_walk_def stored_def g1)
        next
          case nd1: False
          with w rd have "stepped m H g1 c' g'" using wrap
            by (intro step_walk_ok [of m H g1 c1 env rn]) (simp_all add: ready_to_walk_def g1)
          then show ?thesis by (simp add: stepped_def g1)
        qed
      qed
    qed
  qed
qed

section \<open>The commands of a group\<close>

lemma walk_commands_ok:
  assumes "market_ok m H g" and "\<forall>c \<in> set cs. before_step env m True c g" and "unat (g_next g) + length cs < 2 ^ 64"
    and "walk_commands D env rn m True cs g = Inr (cs', g')"
  shows "market_ok m H g' \<and> since (concat (map stored cs')) (db_orders (g_db g)) (db_orders (g_db g')) \<and>
    db_sequences (g_db g') = db_sequences (g_db g) \<and> unat (g_next g') \<le> unat (g_next g) + length cs \<and> (\<forall>c \<in> set cs'. tidy c) \<and> length cs' = length cs"
  using assms
proof (induction cs arbitrary: g cs')
  case Nil
  then show ?case by auto
next
  case (Cons c cs)
  from Cons.prems(4) obtain c1 g1 cs1 where one: "step_command D env rn m True c g = Inr (c1, g1)"
    and rest: "walk_commands D env rn m True cs g1 = Inr (cs1, g')" and cs': "cs' = c1 # cs1"
    by (auto split: sum.splits prod.splits)
  have wrap: "unat (g_next g + 1) = unat (g_next g) + 1" using Cons.prems(3) by (simp add: unat_word_ariths)
  have lt: "g_next g < g_next g + 1" by (simp add: word_less_nat_alt wrap)
  from step_command_ok [OF Cons.prems(1) _ lt one] Cons.prems(2) have st: "stepped m H g c1 g1" by simp
  then have si: "since (stored c1) (db_orders (g_db g)) (db_orders (g_db g1))" and n1: "unat (g_next g1) \<le> unat (g_next g) + 1"
    using wrap by (auto simp: stepped_def)
  have "\<forall>c \<in> set cs. before_step env m True c g1" using Cons.prems(2) refusable_since [OF _ si] by (auto simp: before_step_def)
  from Cons.IH [OF _ this _ rest] st n1 Cons.prems(3) have ih: "market_ok m H g'"
    "since (concat (map stored cs1)) (db_orders (g_db g1)) (db_orders (g_db g'))" "db_sequences (g_db g') = db_sequences (g_db g1)"
    "unat (g_next g') \<le> unat (g_next g1) + length cs" "\<forall>c \<in> set cs1. tidy c" "length cs1 = length cs" by (auto simp: stepped_def)
  from since_trans [OF si ih(2)] ih st n1 show ?case by (simp add: cs' stepped_def)
qed

text \<open>What \<open>begin_group\<close> leaves.\<close>

lemma build_all_ok:
  assumes "build_all D env rn m cs g = (cs1, g1)" and "\<forall>c \<in> set cs. \<exists>req now. c = new_command D req now"
  shows "(\<exists>n. g1 = g\<lparr>g_draws := n\<rparr>) \<and> length cs1 = length cs \<and> (\<forall>c \<in> set cs1. fresh D m c \<and> unlocked c \<and> refusable rows c)"
  using assms
proof (induction cs arbitrary: g cs1)
  case Nil
  then show ?case by (auto intro!: exI [of _ "g_draws g"])
next
  case (Cons c cs)
  from Cons.prems(1) obtain c1 g2 cs2 where b: "build D env rn m c g = (c1, g2)" and rest: "build_all D env rn m cs g2 = (cs2, g1)"
    and cs1: "cs1 = queuePreReads rn g2 c1 # cs2" by (auto split: prod.splits)
  from Cons.prems(2) obtain req now where c: "c = new_command D req now" by auto
  have g2: "\<exists>n. g2 = g\<lparr>g_draws := n\<rparr>" using b
    by (cases "rq_place (cm_req c)") (auto simp: build_def intro: exI [of _ "g_draws g"] exI [of _ "Suc (g_draws g)"])
  have "fresh D m (queuePreReads rn g2 c1) \<and> unlocked (queuePreReads rn g2 c1) \<and> refusable rows (queuePreReads rn g2 c1)"
    using b unfolding c
    by (auto simp: build_def new_command_def queuePreReads_def fresh_def unlocked_def refusable_def placed_def zero_order_def split: option.splits)
  moreover from Cons.IH [OF rest] Cons.prems(2) obtain n where "g1 = g2\<lparr>g_draws := n\<rparr>" "length cs2 = length cs"
    "\<forall>c \<in> set cs2. fresh D m c \<and> unlocked c \<and> refusable rows c" by auto
  ultimately show ?case using g2 by (auto simp: cs1)
qed

text \<open>The first command has its locks when the walk begins.\<close>

lemma same_req_before:
  assumes "fresh D m c" "unlocked c" "refusable rows c" "resolve D env rn m g c = Inr c1"
  shows "fresh D m c1 \<and> unlocked c1 \<and> refusable rows c1"
  using resolve_ok [OF assms(4)] assms(1-3) by (simp add: unlocked_def)

lemma begin_group_ok:
  assumes s: "market_ok m H g" and new: "\<forall>c \<in> set cs. \<exists>req now. c = new_command D req now"
    and r: "begin_group D env rn m cs g = Inr (cs1, g1)"
  obtains c rest L n k where "cs1 = c # rest" "length cs1 = length cs" "market_ok m H g1" "before_step env m False c g1"
    "\<forall>c \<in> set rest. before_step env m True c g1" "g1 = g\<lparr>g_draws := k, g_db := (g_db g)\<lparr>db_ledger := L\<rparr>, g_entries := n\<rparr>"
proof -
  from r obtain c0 rest0 g0 where b: "build_all D env rn m cs g = (c0 # rest0, g0)"
    by (auto simp: begin_group_def split: prod.splits list.splits)
  with r obtain c2 where l: "step_locks D env rn m c0 g0 = Inr (c2, g1)" and rs: "all_ok (resolve D env rn m g1) (c2 # rest0) = Inr cs1"
    by (auto simp: begin_group_def split: sum.splits option.splits prod.splits if_splits)
  let ?rows = "db_orders (g_db g)"
  from build_all_ok [OF b new, of ?rows] obtain k where g0: "g0 = g\<lparr>g_draws := k\<rparr>" and len: "Suc (length rest0) = length cs"
    and c0: "fresh D m c0" "unlocked c0" "refusable ?rows c0" and rest0: "\<forall>c \<in> set rest0. fresh D m c \<and> unlocked c \<and> refusable ?rows c" by auto
  have s0: "market_ok m H g0" using s by (simp add: market_ok_def settled_def g0)
  have rf0: "refusable (db_orders (g_db g0)) c0" using c0(3) by (simp add: g0)
  have rd: "ready_to_walk env m H g0 c2 g1" by (rule step_locks_ok [OF s0 c0(1,2) rf0 l])
  then obtain L n where g1: "g1 = g\<lparr>g_draws := k, g_db := (g_db g)\<lparr>db_ledger := L\<rparr>, g_entries := n\<rparr>" by (auto simp: ready_to_walk_def g0)
  from rs obtain c rest where cs1: "cs1 = c # rest" and c: "resolve D env rn m g1 c2 = Inr c"
    and rest: "list_all2 (\<lambda>x y. resolve D env rn m g1 x = Inr y) rest0 rest" unfolding all_ok_iff by (auto simp: list_all2_Cons1)
  note rc = resolve_ok [OF c]
  have "before_step env m False c g1"
    using rd rc by (auto simp: before_step_def ready_to_walk_def savepoint_ok_def)
  moreover have "before_step env m True x g1" if x: "x \<in> set rest" for x
  proof -
    from partner [OF rest x] obtain y where y: "y \<in> set rest0" "resolve D env rn m g1 y = Inr x" by blast
    with rest0 have "fresh D m y" "unlocked y" "refusable ?rows y" by blast+
    from same_req_before [OF this y(2)] show ?thesis by (simp add: before_step_def g1)
  qed
  moreover have "length cs1 = length cs" using list_all2_lengthD [OF rest] len by (simp add: cs1)
  moreover have "market_ok m H g1" using rd by (simp add: ready_to_walk_def)
  ultimately show thesis using that [OF cs1 _ _ _ _ g1] by blast
qed

text \<open>So the walk of a group, from its first command on.\<close>

lemma group_walk_ok:
  assumes s: "market_ok m H g" and c: "before_step env m False c g" and cs: "\<forall>c \<in> set cs. before_step env m True c g"
    and n: "unat (g_next g) + length (c # cs) < 2 ^ 64" and r: "walk_commands D env rn m False (c # cs) g = Inr (cs', g')"
  shows "market_ok m H g'" "since (concat (map stored cs')) (db_orders (g_db g)) (db_orders (g_db g'))"
    "db_sequences (g_db g') = db_sequences (g_db g)" "unat (g_next g') \<le> unat (g_next g) + length (c # cs)"
    "\<forall>c \<in> set cs'. tidy c" "length cs' = length (c # cs)"
proof -
  from r obtain c1 g1 cs1 where one: "step_command D env rn m False c g = Inr (c1, g1)"
    and rest: "walk_commands D env rn m True cs g1 = Inr (cs1, g')" and cs': "cs' = c1 # cs1"
    by (auto split: sum.splits prod.splits)
  have wrap: "unat (g_next g + 1) = unat (g_next g) + 1" using n by (simp add: unat_word_ariths)
  have lt: "g_next g < g_next g + 1" by (simp add: word_less_nat_alt wrap)
  from step_command_ok [OF s c lt one] have st: "stepped m H g c1 g1" .
  then have si: "since (stored c1) (db_orders (g_db g)) (db_orders (g_db g1))" and n1: "unat (g_next g1) \<le> unat (g_next g) + 1"
    and s1: "market_ok m H g1" using wrap by (auto simp: stepped_def)
  have bs: "\<forall>c \<in> set cs. before_step env m True c g1" using cs refusable_since [OF _ si] by (auto simp: before_step_def)
  have n2: "unat (g_next g1) + length cs < 2 ^ 64" using n1 n by simp
  note ih = walk_commands_ok [OF s1 bs n2 rest]
  show "market_ok m H g'" "db_sequences (g_db g') = db_sequences (g_db g)" "unat (g_next g') \<le> unat (g_next g) + length (c # cs)"
    "\<forall>c \<in> set cs'. tidy c" "length cs' = length (c # cs)" using ih st n1 by (auto simp: stepped_def cs')
  show "since (concat (map stored cs')) (db_orders (g_db g)) (db_orders (g_db g'))" using since_trans [OF si] ih by (simp add: cs')
qed

end

end
