(* ===== verification/Trading_Keep.thy ===== *)
theory Trading_Keep
  imports Trading_Invariant
begin

text \<open>
  After the walk of a group: the rows read back into the cache, the account sequences and the outbox
  leave the market in step; the runner keeps it so, over failed groups and rebuilt books.
\<close>

section \<open>Rows read back\<close>

text \<open>The cache after the last row of each order is read back: the value of that row, or what it was.\<close>

definition restored :: "'d decimal_pkg \<Rightarrow> OrderRow list \<Rightarrow> 'd grp \<Rightarrow> 'd grp \<Rightarrow> bool" where
  "restored D ws g g' \<longleftrightarrow> (\<exists>os ts. g' = g\<lparr>g_orders := os, g_touched := ts\<rparr>) \<and>
     (\<forall>i x. Mapping.lookup (g_orders g') i = Some x \<longrightarrow> (\<exists>x0. Mapping.lookup (g_orders g) i = Some x0 \<and>
        (case latest ws i of None \<Rightarrow> x = x0 | Some r \<Rightarrow> orderFromRow D r = Inr x)))"

lemma restored_refl [simp]: "restored D [] g g"
proof -
  have "g = g\<lparr>g_orders := g_orders g, g_touched := g_touched g\<rparr>" by simp
  then have "\<exists>os ts. g = g\<lparr>g_orders := os, g_touched := ts\<rparr>" by blast
  then show ?thesis by (simp add: restored_def)
qed

lemma restored_trans:
  assumes "restored D ws g g1" and "restored D ws1 g1 g2"
  shows "restored D (ws @ ws1) g g2"
  unfolding restored_def
proof (intro conjI allI impI)
  show "\<exists>os ts. g2 = g\<lparr>g_orders := os, g_touched := ts\<rparr>" using assms by (fastforce simp: restored_def)
  fix i x assume "Mapping.lookup (g_orders g2) i = Some x"
  with assms(2) obtain x1 where x1: "Mapping.lookup (g_orders g1) i = Some x1"
    "case latest ws1 i of None \<Rightarrow> x = x1 | Some r \<Rightarrow> orderFromRow D r = Inr x" unfolding restored_def by blast
  with assms(1) obtain x0 where x0: "Mapping.lookup (g_orders g) i = Some x0"
    "case latest ws i of None \<Rightarrow> x1 = x0 | Some r \<Rightarrow> orderFromRow D r = Inr x1" unfolding restored_def by blast
  then show "\<exists>x0. Mapping.lookup (g_orders g) i = Some x0 \<and> (case latest (ws @ ws1) i of None \<Rightarrow> x = x0 | Some r \<Rightarrow> orderFromRow D r = Inr x)"
    using x1 by (intro exI [of _ x0]) (auto simp: map_add_def split: option.splits)
qed

lemma orderFromRow_fields:
  assumes "orderFromRow D r = Inr x"
  shows "od_ID x = or_ID r" "od_AccountID x = or_AccountID r" "od_HoldAsset x = or_HoldAsset r"
    "\<exists>a. read_amount D (or_HoldRemaining r) = Inr a \<and> od_HoldRemaining x = a" "od_MarketID x = or_MarketID r"
    "read_text Side_UnmarshalText (or_Side r) = Inr (od_Side x)"
  using assms unfolding orderFromRow_def by (auto split: sum.splits)

lemma store_back_restored:
  assumes "orderFromRow D r = Inr x"
  shows "restored D [r] g (store_back x g)"
proof -
  have id: "od_ID x = or_ID r" using orderFromRow_fields(1) [OF assms] .
  have "store_back x g = g\<lparr>g_orders := g_orders (store_back x g), g_touched := g_touched (store_back x g)\<rparr>"
    by (simp add: store_back_def put_order_def)
  then have "\<exists>os ts. store_back x g = g\<lparr>g_orders := os, g_touched := ts\<rparr>" by blast
  then show ?thesis using assms
    by (auto simp: restored_def store_back_def put_order_def id Mapping.lookup_update' split: if_splits)
qed

lemma store_progress_restored:
  assumes "store_progress D ps g = Inr g'"
  shows "restored D (List.map_filter (\<lambda>x. x) (map fst ps)) g g'"
  using assms
proof (induction ps arbitrary: g)
  case Nil
  then show ?case by (simp add: map_filter_simps)
next
  case (Cons p ps)
  obtain row i where p: "p = (row, i)" by fastforce
  with Cons.prems obtain r x where r: "row = Some r" "orderFromRow D r = Inr x" "store_progress D ps (store_back x g) = Inr g'"
    by (auto split: option.splits sum.splits)
  from restored_trans [OF store_back_restored [OF r(2)] Cons.IH [OF r(3)]] show ?case by (simp add: p r(1) map_filter_simps)
qed

lemma finish_restored:
  assumes t: "tidy c" and r: "finish D c g = Inr (c1, g1)"
  shows "restored D (stored c) g g1"
proof (cases "cm_rejected c \<noteq> None \<or> cm_done c")
  case True
  with r have "g1 = g" by (auto simp: finish_def split: option.splits sum.splits if_splits)
  with True show ?thesis by (auto simp: stored_def)
next
  case False
  with r have w: "finish_walked D c g = Inr (c1, g1)" by (simp add: finish_def)
  then obtain row x where x: "cm_final c = Some row" "orderFromRow D row = Inr x"
    and s: "store_progress D (zip (cm_progress c) (cm_touched c)) (store_back x g) = Inr g1"
    by (auto simp: finish_walked_def split: sum.splits option.splits)
  have "map fst (zip (cm_progress c) (cm_touched c)) = cm_progress c" using t False by (simp add: tidy_def)
  with restored_trans [OF store_back_restored [OF x(2)] store_progress_restored [OF s]] False
  show ?thesis by (simp add: stored_def row_log_def x(1))
qed

lemma finish_all_restored:
  assumes "\<forall>c \<in> set cs. tidy c" and "finish_all D cs g = Inr (cs1, g1)"
  shows "restored D (concat (map stored cs)) g g1 \<and> length cs1 = length cs"
  using assms
proof (induction cs arbitrary: g cs1)
  case (Cons c cs)
  from Cons.prems(2) obtain c1 g2 cs2 where f: "finish D c g = Inr (c1, g2)" and rest: "finish_all D cs g2 = Inr (cs2, g1)" and cs1: "cs1 = c1 # cs2"
    by (auto split: sum.splits prod.splits)
  from Cons.prems(1) finish_restored [OF _ f] have "restored D (stored c) g g2" by simp
  from restored_trans [OF this] Cons.IH [OF _ rest] Cons.prems(1) show ?case by (simp add: cs1)
qed simp

context decimal
begin

lemma read_amount_value:
  assumes "read_amount D u = Inr a"
  shows "V a = unit_val u" "fits 18 (V a)"
proof -
  from assms have a: "AmountFromNumeric D (column u) = Inr a" by (auto simp: read_amount_def split: sum.splits)
  then have "V a = numeric_val (column u)"
    by (auto simp: AmountFromNumeric_def FromBigInt_def Let_def column_def numeric_val_def val_new_from_big_int split: option.splits if_splits)
  then show "V a = unit_val u" by (simp add: numeric_val_column)
  then show "fits 18 (V a)" unfolding unit_val_def by (simp only: fits_div_pow)
qed

text \<open>What the walk wrote is in the table, so the cache is level with it.\<close>

lemma restored_ok:
  assumes s: "market_ok m H g" and ws: "\<And>i r. latest ws i = Some r \<Longrightarrow> r \<in> set (db_orders (g_db g))" and r: "restored D ws g g'"
  shows "market_ok m H g'"
proof -
  from r obtain os ts where g': "g' = g\<lparr>g_orders := os, g_touched := ts\<rparr>" by (auto simp: restored_def)
  have ca: "cache_ok val (db_orders (g_db g)) (g_orders g) {}" using s by (simp add: market_ok_def settled_def)
  have "cache_ok val (db_orders (g_db g)) (g_orders g') {}"
    unfolding cache_ok_def
  proof (intro allI impI)
    fix i x assume x: "Mapping.lookup (g_orders g') i = Some x"
    with r obtain x0 where x0: "Mapping.lookup (g_orders g) i = Some x0" "case latest ws i of None \<Rightarrow> x = x0 | Some r \<Rightarrow> orderFromRow D r = Inr x"
      unfolding restored_def by blast
    show "od_ID x = i \<and> backed (db_orders (g_db g)) x \<and> fits 18 (V (od_HoldRemaining x)) \<and> (i \<notin> {} \<longrightarrow> level val (db_orders (g_db g)) x)"
    proof (cases "latest ws i")
      case None
      with x0 ca show ?thesis by (simp add: cache_ok_def)
    next
      case (Some r)
      with x0 have o': "orderFromRow D r = Inr x" by simp
      note f = orderFromRow_fields [OF o']
      from f(4) obtain a where a: "read_amount D (or_HoldRemaining r) = Inr a" "od_HoldRemaining x = a" by blast
      note v = read_amount_value [OF a(1)]
      have "r \<in> set (db_orders (g_db g))" "or_ID r = i" using ws [OF Some] latest_Some [OF Some] by simp_all
      then show ?thesis using f(1,2,3) v a(2) by (auto simp: backed_def level_def)
    qed
  qed
  then show ?thesis using s by (simp add: market_ok_def settled_def g')
qed

end

end
