(* ===== verification/Trading_Safe.thy ===== *)
theory Trading_Safe
  imports Trading_Keep
begin

text \<open>
  The runner: whatever a group does, and whether or not it succeeds, the balances on hold beyond
  what the orders have frozen stay as they are, and the runner's book and cache stay backed by rows.
\<close>

lemma queue_items_frame:
  assumes "queue_items D env att trace b ps next g = Inr (next1, g1)"
  shows "\<exists>os n. g1 = g\<lparr>g_db := (g_db g)\<lparr>db_outbox := os\<rparr>, g_draws := n\<rparr>"
  using assms
proof (induction ps arbitrary: "next" g)
  case Nil
  then have "g1 = g\<lparr>g_db := (g_db g)\<lparr>db_outbox := db_outbox (g_db g)\<rparr>, g_draws := g_draws g\<rparr>" by simp
  then show ?case by blast
next
  case (Cons p ps)
  from Cons.prems obtain nx rows n where "queue_items D env att trace b ps nx (g\<lparr>g_db := (g_db g)\<lparr>db_outbox := rows\<rparr>, g_draws := n\<rparr>) = Inr (next1, g1)"
    by (auto simp: Let_def split: sum.splits prod.splits if_splits)
  from Cons.IH [OF this] show ?case by auto
qed

lemma queue_commands_frame:
  assumes "queue_commands D env att cs next g = Inr g1"
  shows "\<exists>os n. g1 = g\<lparr>g_db := (g_db g)\<lparr>db_outbox := os\<rparr>, g_draws := n\<rparr>"
  using assms
proof (induction cs arbitrary: "next" g)
  case Nil
  then have "g1 = g\<lparr>g_db := (g_db g)\<lparr>db_outbox := db_outbox (g_db g)\<rparr>, g_draws := g_draws g\<rparr>" by simp
  then show ?case by blast
next
  case (Cons c cs)
  show ?case
  proof (cases "cm_events c")
    case None
    with Cons show ?thesis by simp
  next
    case (Some b)
    with Cons.prems obtain nx g2 where q: "queue_items D env att (rq_trace (cm_req c)) b (eb_items b) next g = Inr (nx, g2)"
      and rest: "queue_commands D env att cs nx g2 = Inr g1" by (auto split: sum.splits prod.splits)
    from queue_items_frame [OF q] Cons.IH [OF rest] obtain os n os' n' where "g2 = g\<lparr>g_db := (g_db g)\<lparr>db_outbox := os\<rparr>, g_draws := n\<rparr>"
      "g1 = g2\<lparr>g_db := (g_db g2)\<lparr>db_outbox := os'\<rparr>, g_draws := n'\<rparr>" by blast
    then have "g1 = g\<lparr>g_db := (g_db g)\<lparr>db_outbox := os'\<rparr>, g_draws := n'\<rparr>" by simp
    then show ?thesis by blast
  qed
qed

lemma reserve_seqs_ok:
  assumes "reserve_seqs as counts out L = Inr (out1, L1)" and "ledger_ok L"
  shows "ledger_ok L1 \<and> held L1 = held L"
  using assms
proof (induction "as" arbitrary: out L)
  case (Cons a "as")
  from Cons.prems(1) obtain L2 res where b: "BumpAccountSeqBy L a (int (counts a)) = (L2, Inr res)"
    and rest: "reserve_seqs as counts (Mapping.update a res out) L2 = Inr (out1, L1)"
    by (auto split: prod.splits sum.splits)
  have "ledger_ok L2 \<and> held L2 = held L"
  proof (cases "GetAccount L a")
    case None
    with b Cons.prems(2) show ?thesis by (simp add: BumpAccountSeqBy_def)
  next
    case (Some r)
    with b have L2: "L2 = L\<lparr>lg_accounts := set_account (r\<lparr>ar_NextSeq := ar_NextSeq r + int (counts a)\<rparr>) (lg_accounts L)\<rparr>"
      by (auto simp: BumpAccountSeqBy_def Let_def split: if_splits)
    have "ar_ID r = a" using GetAccount_ID [OF Some] .
    then have "ledger_ok L2" using set_account_ok [OF Cons.prems(2), of "r\<lparr>ar_NextSeq := ar_NextSeq r + int (counts a)\<rparr>" r] Some by (simp add: L2)
    moreover have "held L2 = held L" by (simp add: L2 fun_eq_iff held_def)
    ultimately show ?thesis by blast
  qed
  with Cons.IH [OF rest] show ?case by simp
qed simp

section \<open>The invariant of a runner\<close>

text \<open>What the tables hold beyond what the orders have frozen.\<close>

definition beyond :: "tdb \<Rightarrow> string \<Rightarrow> string \<Rightarrow> rat" where
  "beyond db acct a = held (db_ledger db) acct a - frozen_in (db_orders db) acct a"

definition db_ok :: "'d registry_Market \<Rightarrow> tdb \<Rightarrow> bool" where
  "db_ok m db \<longleftrightarrow> ledger_ok (db_ledger db) \<and> rows_ok m (db_orders db) \<and>
     (\<forall>q. Mapping.lookup (db_sequences db) (mk_ID m) = Some q \<longrightarrow> 0 \<le> q \<and> q < 2 ^ 63)"

text \<open>A runner that is not to rebuild its book has one that the rows back, and a cache level with them.\<close>

definition runner_ok :: "'d decimal_pkg \<Rightarrow> ('d \<Rightarrow> rat) \<Rightarrow> 'd registry_Market \<Rightarrow> 'd runner \<Rightarrow> tdb \<Rightarrow> bool" where
  "runner_ok D val m r db \<longleftrightarrow> db_ok m db \<and> rn_mid r = mk_ID m \<and> (\<not> rn_dirty r \<longrightarrow> (\<forall>b. rn_book r = Some b \<longrightarrow>
     cache_ok val (db_orders db) (rn_orders r) {} \<and> book_ok D val b \<and> book_backed m (db_orders db) b))"

section \<open>The rest of a group\<close>

context decimal
begin

lemma begin_group_seq:
  assumes new: "\<forall>c \<in> set cs. \<exists>req now. c = new_command D req now" and b: "begin_group D env rn m cs g = Inr (cs1, g1)"
  shows "\<exists>q. Mapping.lookup (db_sequences (g_db g)) (rn_mid rn) = Some q \<and> from_bigint q = rn_seq rn"
proof -
  from b obtain c0 rest0 g0 where bd: "build_all D env rn m cs g = (c0 # rest0, g0)"
    by (auto simp: begin_group_def split: prod.splits list.splits)
  from build_all_ok [OF bd new] obtain i where g0: "g0 = g\<lparr>g_draws := i\<rparr>" by blast
  from b bd obtain q where "LockMarketSequence (g_db g0) (rn_mid rn) = Some q" "from_bigint q = rn_seq rn"
    by (auto simp: begin_group_def split: sum.splits option.splits prod.splits if_splits)
  then show ?thesis by (simp add: LockMarketSequence_def g0)
qed

lemma group_body_ok:
  assumes s: "market_ok m H g" and new: "\<forall>c \<in> set cs. \<exists>req now. c = new_command D req now" and n: "length cs < 2 ^ 63"
    and q: "\<And>q. Mapping.lookup (db_sequences (g_db g)) (rn_mid rn) = Some q \<Longrightarrow> 0 \<le> q \<and> q < 2 ^ 63" and sq: "g_next g = rn_seq rn"
    and r: "group_body D env rn m cs g = Inr (cs', g')"
  shows "market_ok m H g'" "db_sequences (g_db g') = db_sequences (g_db g)" "length cs' = length cs"
    "\<exists>q. Mapping.lookup (db_sequences (g_db g)) (rn_mid rn) = Some q \<and> from_bigint q = rn_seq rn"
proof -
  from r obtain cs1 g1 cs2 g2 bumps g3 g4 where b: "begin_group D env rn m cs g = Inr (cs1, g1)"
    and w: "walk_commands D env rn m False cs1 g1 = Inr (cs2, g2)" and a: "queueAccountSeqs cs2 g2 = Inr (bumps, g3)"
    and f: "finish_all D cs2 g3 = Inr (cs', g4)" and o': "queueOutbox D env (rn_attempt rn) cs' bumps g4 = Inr g'"
    by (auto simp: group_body_def split: sum.splits prod.splits if_splits)
  show "\<exists>q. Mapping.lookup (db_sequences (g_db g)) (rn_mid rn) = Some q \<and> from_bigint q = rn_seq rn" by (rule begin_group_seq [OF new b])
  from begin_group_ok [OF s new b] obtain c rest L k i where cs1: "cs1 = c # rest" "length cs1 = length cs" and s1: "market_ok m H g1"
    and bs: "before_step env m False c g1" "\<forall>c \<in> set rest. before_step env m True c g1"
    and g1: "g1 = g\<lparr>g_draws := k, g_db := (g_db g)\<lparr>db_ledger := L\<rparr>, g_entries := i\<rparr>" by metis
  have "unat (g_next g) < 2 ^ 63"
  proof -
    from begin_group_seq [OF new b] obtain q where "Mapping.lookup (db_sequences (g_db g)) (rn_mid rn) = Some q"
      and fb: "from_bigint q = rn_seq rn" by blast
    then have q': "0 \<le> q" "q < 2 ^ 63" using q by simp_all
    then have "uint (word_of_int q :: u64) = q" by (simp add: uint_word_of_int_eq take_bit_int_eq_self)
    then have u: "unat (word_of_int q :: u64) = nat q" by (simp only: unat_eq_nat_uint)
    have "nat q < 2 ^ 63" using q' by (simp add: nat_less_iff)
    then show ?thesis unfolding sq fb [symmetric] from_bigint_def u .
  qed
  then have "unat (g_next g1) + length (c # rest) < 2 ^ 64" using n cs1 by (simp add: g1)
  note gw = group_walk_ok [OF s1 bs this w [unfolded cs1(1)]]
  have seqs: "db_sequences (g_db g2) = db_sequences (g_db g)" using gw(3) by (simp add: g1)
  from a obtain L1 where g3: "g3 = g2\<lparr>g_db := (g_db g2)\<lparr>db_ledger := L1\<rparr>\<rparr>"
    and rv: "\<exists>as counts out. reserve_seqs as counts out (db_ledger (g_db g2)) = Inr (bumps, L1)"
    by (auto simp: queueAccountSeqs_def Let_def split: sum.splits prod.splits)
  have "ledger_ok (db_ledger (g_db g2))" using gw(1) by (simp add: market_ok_def settled_def)
  with rv reserve_seqs_ok have L1: "ledger_ok L1" "held L1 = held (db_ledger (g_db g2))" by blast+
  have s3: "market_ok m H g3" using gw(1) L1 by (simp add: market_ok_def settled_def g3)
  from finish_all_restored [OF gw(5) f] have rs: "restored D (concat (map stored cs2)) g3 g4" and len: "length cs' = length cs2" by blast+
  have "r \<in> set (db_orders (g_db g3))" if "latest (concat (map stored cs2)) i = Some r" for i r
    using gw(2) that by (simp add: since_def g3)
  from restored_ok [OF s3 this rs] have s4: "market_ok m H g4" .
  have q4: "db_sequences (g_db g4) = db_sequences (g_db g)" using rs seqs by (auto simp: restored_def g3)
  from o' obtain nx where "queue_commands D env (rn_attempt rn) cs' nx g4 = Inr g'" by (auto simp: queueOutbox_def split: if_splits)
  from queue_commands_frame [OF this] obtain os n where g': "g' = g4\<lparr>g_db := (g_db g4)\<lparr>db_outbox := os\<rparr>, g_draws := n\<rparr>" by blast
  show "market_ok m H g'" using s4 by (simp add: market_ok_def settled_def g')
  show "db_sequences (g_db g') = db_sequences (g_db g)" using q4 by (simp add: g')
  show "length cs' = length cs" using len gw(6) cs1 by simp
qed

section \<open>The runner\<close>

lemma runner_ok_dirty: "db_ok m db \<Longrightarrow> rn_mid r = mk_ID m \<Longrightarrow> rn_dirty r \<Longrightarrow> runner_ok D val m r db"
  by (simp add: runner_ok_def)

lemma commit_group_ok:
  assumes "commit_group r g = Inr (db1, ok)" and "rn_mid r = mk_ID m" and "db_ok m (g_db g)"
  shows "db_ok m db1" "db_ledger db1 = db_ledger (g_db g)" "db_orders db1 = db_orders (g_db g)"
proof -
  have "bigint w < 2 ^ 63" for w :: u64 using sint_lt [of w] by (simp add: bigint_def)
  with assms show "db_ok m db1" "db_ledger db1 = db_ledger (g_db g)" "db_orders db1 = db_orders (g_db g)"
    by (auto simp: commit_group_def SetMarketSequence_def db_ok_def Mapping.lookup_update' split: if_splits sum.splits prod.splits)
qed

lemma run_group_ok:
  assumes r: "runner_ok D val m r db" and nd: "\<not> rn_dirty r" and b: "rn_book r = Some book"
    and new: "\<forall>c \<in> set cs. \<exists>req now. c = new_command D req now" and n: "length cs < 2 ^ 63"
    and run: "run_group D env r m cs book db = (r', db', res)"
  shows "db_ok m db'" "beyond db' = beyond db" "rn_mid r' = mk_ID m" "rn_symbol r' = rn_symbol r" "\<And>xs. res = Inr xs \<Longrightarrow> runner_ok D val m r' db' \<and> length xs = length cs"
    "\<And>e. res = Inl e \<Longrightarrow> db' = db"
proof -
  define g where "g = \<lparr>g_db = db, g_draws = 0, g_entries = 0, g_book = book, g_orders = rn_orders r, g_touched = Mapping.empty, g_next = rn_seq r\<rparr>"
  from r nd b have ok: "db_ok m db" "rn_mid r = mk_ID m" and s: "market_ok m (beyond db) g"
    by (simp_all add: runner_ok_def market_ok_def settled_def db_ok_def g_def beyond_def)
  have "db_ok m db' \<and> beyond db' = beyond db \<and> rn_mid r' = mk_ID m \<and> rn_symbol r' = rn_symbol r \<and>
    (\<forall>xs. res = Inr xs \<longrightarrow> runner_ok D val m r' db' \<and> length xs = length cs) \<and> (\<forall>e. res = Inl e \<longrightarrow> db' = db)"
  proof (cases "group_body D env r m cs g")
    case (Inl e)
    with run ok show ?thesis by (auto simp: run_group_def g_def)
  next
    case (Inr p)
    obtain cs1 g1 where p: "p = (cs1, g1)" by fastforce
    have q: "0 \<le> q \<and> q < 2 ^ 63" if "Mapping.lookup (db_sequences (g_db g)) (rn_mid r) = Some q" for q
      using ok that by (simp add: db_ok_def g_def)
    have sq: "g_next g = rn_seq r" by (simp add: g_def)
    note gb = group_body_ok [OF s new n q sq Inr [unfolded p]]
    have ok1: "db_ok m (g_db g1)" "beyond (g_db g1) = beyond db"
      using gb(1,2) ok(1) by (simp_all add: market_ok_def settled_def db_ok_def g_def beyond_def fun_eq_iff)
    show ?thesis
    proof (cases "commit_group r g1")
      case (Inl e)
      with run Inr p ok show ?thesis by (auto simp: run_group_def g_def)
    next
      case c: (Inr x)
      obtain db1 k where x: "x = (db1, k)" by fastforce
      note cg = commit_group_ok [OF c [unfolded x] ok(2) ok1(1)]
      have bey: "beyond db1 = beyond db" using ok1(2) cg(2,3) by (simp add: beyond_def fun_eq_iff)
      show ?thesis
      proof (cases k)
        case False
        from gb(4) obtain q1 where q1: "Mapping.lookup (db_sequences db) (rn_mid r) = Some q1" "from_bigint q1 = rn_seq r" by (auto simp: g_def)
        with q have "0 \<le> q1" "q1 < 2 ^ 63" by (simp_all add: g_def)
        then have "signed_take_bit 63 q1 = q1" by (intro signed_take_bit_int_eq_self) simp_all
        then have "bigint (rn_seq r) = q1" by (simp add: bigint_def from_bigint_def signed_of_int flip: q1(2))
        with q1(1) gb(2) c x False show ?thesis by (auto simp: commit_group_def SetMarketSequence_def g_def split: if_splits)
      next
        case True
        with run Inr p c x have res: "r' = r\<lparr>rn_book := Some (g_book g1), rn_seq := g_next g1, rn_orders := g_orders g1, rn_touched := g_touched g1\<rparr>"
          "db' = db1" "res = Inr (map (respond g1) cs1)" by (simp_all add: run_group_def g_def)
        have "runner_ok D val m r' db'" using cg gb(1) ok(2) by (simp add: runner_ok_def res market_ok_def settled_def)
        with cg(1) bey ok gb(3) show ?thesis by (simp add: res)
      qed
    qed
  qed
  then show "db_ok m db'" "beyond db' = beyond db" "rn_mid r' = mk_ID m" "rn_symbol r' = rn_symbol r" "\<And>xs. res = Inr xs \<Longrightarrow> runner_ok D val m r' db' \<and> length xs = length cs"
    "\<And>e. res = Inl e \<Longrightarrow> db' = db" by blast+
qed

section \<open>The rebuilt book\<close>

lemma resting_orders_mem:
  "resting_orders xs = Inr rs \<Longrightarrow> y \<in> set rs \<Longrightarrow> \<exists>x \<in> set xs. ro_OrderID y = od_ID x \<and> ro_Side y = od_Side x"
  by (induction xs arbitrary: rs) (auto simp: resting_of_order_def split: option.splits sum.splits)

lemma fold_cache:
  "Mapping.lookup (fold (\<lambda>x. Mapping.update (od_ID x) x) xs M) i = Some x \<Longrightarrow> (x \<in> set xs \<and> od_ID x = i) \<or> Mapping.lookup M i = Some x"
proof (induction xs arbitrary: M)
  case (Cons a xs)
  from Cons.IH [of "Mapping.update (od_ID a) a M"] Cons.prems show ?case by (auto simp: Mapping.lookup_update' split: if_splits)
qed simp

lemma load_book_ok:
  assumes db: "db_ok m db" and mid: "rn_mid r = mk_ID m" and run: "load_book D r m db = (db1, res)"
  shows "db_ok m db1" "beyond db1 = beyond db" "\<And>r1. res = Inr r1 \<Longrightarrow> runner_ok D val m r1 db1 \<and> \<not> rn_dirty r1 \<and> rn_symbol r1 = rn_symbol r"
proof -
  have "db_ok m db1 \<and> beyond db1 = beyond db \<and> (\<forall>r1. res = Inr r1 \<longrightarrow> runner_ok D val m r1 db1 \<and> \<not> rn_dirty r1 \<and> rn_symbol r1 = rn_symbol r)"
  proof (cases "\<exists>cfg book lastSeq. marketConfig D m = Inr cfg \<and> New D cfg = Inr book \<and> EnsureMarketSequence db (rn_mid r) = Inr (db1, lastSeq)")
    case False
    with run have "db1 = db" "\<exists>e. res = Inl e" by (auto simp: load_book_def split: sum.splits prod.splits)
    with db show ?thesis by auto
  next
    case True
    then obtain cfg book lastSeq where c: "marketConfig D m = Inr cfg" "New D cfg = Inr book" "EnsureMarketSequence db (rn_mid r) = Inr (db1, lastSeq)" by blast
    then have same: "db_ledger db1 = db_ledger db" "db_orders db1 = db_orders db"
      and ok1: "db_ok m db1"
      using db mid by (auto simp: EnsureMarketSequence_def db_ok_def Mapping.lookup_update' split: option.splits if_splits)
    have bey: "beyond db1 = beyond db" by (simp add: beyond_def same fun_eq_iff)
    have "runner_ok D val m r1 db1 \<and> \<not> rn_dirty r1 \<and> rn_symbol r1 = rn_symbol r" if "res = Inr r1" for r1
    proof -
      from run c that obtain orders resting b where o': "ordersFromRows D (ListOpenOrdersByMarket db1 (rn_mid r)) = Inr orders"
        and rs: "resting_orders orders = Inr resting" and b: "Restore D book (from_bigint lastSeq) resting = Inr b"
        and r1: "r1 = r\<lparr>rn_book := Some b, rn_seq := from_bigint lastSeq, rn_dirty := False,
                rn_orders := fold (\<lambda>x. Mapping.update (od_ID x) x) orders Mapping.empty\<rparr>"
        by (auto simp: load_book_def split: sum.splits)
      have row: "\<exists>w \<in> set (db_orders db1). or_MarketID w = mk_ID m \<and> orderFromRow D w = Inr x" if "x \<in> set orders" for x
        using all_ok_in [OF o' [unfolded ordersFromRows_def] that] by (auto simp: ListOpenOrdersByMarket_def mid)
      have "cache_ok val (db_orders db1) (rn_orders r1) {}"
        unfolding cache_ok_def
      proof (intro allI impI)
        fix i x assume "Mapping.lookup (rn_orders r1) i = Some x"
        then have x: "x \<in> set orders" "od_ID x = i" using fold_cache [of orders Mapping.empty i x] by (auto simp: r1)
        from row [OF x(1)] obtain w where w: "w \<in> set (db_orders db1)" "orderFromRow D w = Inr x" by blast
        note f = orderFromRow_fields [OF w(2)]
        from f(4) obtain a where a: "read_amount D (or_HoldRemaining w) = Inr a" "od_HoldRemaining x = a" by blast
        note v = read_amount_value [OF a(1)]
        show "od_ID x = i \<and> backed (db_orders db1) x \<and> fits 18 (V (od_HoldRemaining x)) \<and> (i \<notin> {} \<longrightarrow> level val (db_orders db1) x)"
          using w(1) f(1,2,3) v a(2) x(2) by (auto simp: backed_def level_def)
      qed
      moreover have "book_backed m (db_orders db1) b"
        unfolding book_backed_def
      proof (intro allI impI)
        fix i y assume "Book_Order b i = Some y"
        from restore_sides(2) [OF c(2) b this] obtain z where z: "z \<in> set resting" "ro_OrderID z = i" "ro_Side z = ro_Side y" by blast
        from resting_orders_mem [OF rs z(1)] z(2,3) obtain x where x: "x \<in> set orders" "od_ID x = i" "od_Side x = ro_Side y" by auto
        from row [OF x(1)] obtain w where w: "w \<in> set (db_orders db1)" "or_MarketID w = mk_ID m" "orderFromRow D w = Inr x" by blast
        note f = orderFromRow_fields [OF w(3)]
        have "or_Side w = Side_String (od_Side x)" using f(6)
          by (auto simp: read_text_def Side_UnmarshalText_def Side_String_def split: if_splits)
        with w x f(1) show "\<exists>r \<in> set (db_orders db1). or_ID r = i \<and> or_MarketID r = mk_ID m \<and> or_Side r = Side_String (ro_Side y)"
          by (intro bexI [of _ w]) simp_all
      qed
      moreover have "book_ok D val b" by (rule restore_sides(1) [OF c(2) b])
      ultimately show ?thesis using ok1 mid by (simp add: runner_ok_def r1)
    qed
    with ok1 bey show ?thesis by blast
  qed
  then show "db_ok m db1" "beyond db1 = beyond db" "\<And>r1. res = Inr r1 \<Longrightarrow> runner_ok D val m r1 db1 \<and> \<not> rn_dirty r1 \<and> rn_symbol r1 = rn_symbol r" by blast+
qed

lemma restoreOrFail_ok:
  assumes r: "runner_ok D val m r db" and reg: "Cache_Market reg (rn_symbol r) = Some m" and run: "restoreOrFail D reg r db = (r1, db1, err)"
  shows "runner_ok D val m r1 db1" "beyond db1 = beyond db" "rn_symbol r1 = rn_symbol r" "err = None \<Longrightarrow> \<not> rn_dirty r1"
proof -
  have "runner_ok D val m r1 db1 \<and> beyond db1 = beyond db \<and> rn_symbol r1 = rn_symbol r \<and> (err = None \<longrightarrow> \<not> rn_dirty r1)"
  proof (cases "rn_dirty r")
    case False
    with run r show ?thesis by (simp add: restoreOrFail_def)
  next
    case True
    obtain res where lb: "load_book D r m db = (db1, res)" and res: "case res of Inl e \<Rightarrow> r1 = r \<and> err \<noteq> None | Inr r2 \<Rightarrow> r1 = r2 \<and> err = None"
      using run True reg by (auto simp: restoreOrFail_def restore_def split: prod.splits sum.splits)
    from r have db: "db_ok m db" and mid: "rn_mid r = mk_ID m" by (simp_all add: runner_ok_def)
    note l = load_book_ok [OF db mid lb]
    show ?thesis
    proof (cases res)
      case (Inl e)
      then have "r1 = r" "err \<noteq> None" using res by simp_all
      with l(1,2) True mid show ?thesis by (simp add: runner_ok_def)
    next
      case (Inr r2)
      then have "res = Inr r1" "err = None" using res by simp_all
      with l show ?thesis by blast
    qed
  qed
  then show "runner_ok D val m r1 db1" "beyond db1 = beyond db" "rn_symbol r1 = rn_symbol r" "err = None \<Longrightarrow> \<not> rn_dirty r1" by simp_all
qed

section \<open>Groups and the fallback\<close>

lemma group_commands_new: "\<forall>c \<in> set (group_commands D env att i reqs). \<exists>req now. c = new_command D req now"
  by (induction reqs arbitrary: i) auto

lemma length_group_commands [simp]: "length (group_commands D env att i reqs) = length reqs"
  by (induction reqs arbitrary: i) auto

lemma executeGroup_ok:
  assumes r: "runner_ok D val m r db" and reg: "Cache_Market reg (rn_symbol r) = Some m"
    and new: "\<forall>c \<in> set cs. \<exists>req now. c = new_command D req now" and n: "length cs < 2 ^ 63"
    and run: "executeGroup D env reg r cs db = (r', db', res)"
  shows "db_ok m db' \<and> beyond db' = beyond db \<and> rn_mid r' = mk_ID m \<and> rn_symbol r' = rn_symbol r \<and>
    (\<forall>xs. res = Inr xs \<longrightarrow> runner_ok D val m r' db' \<and> length xs = length cs)"
proof -
  obtain r1 db1 err where rf: "restoreOrFail D reg r db = (r1, db1, err)" using prod_cases3 by blast
  note ro = restoreOrFail_ok [OF r reg rf]
  have mid: "db_ok m db1" "rn_mid r1 = mk_ID m" using ro(1) by (simp_all add: runner_ok_def)
  show ?thesis
  proof (cases "\<exists>book. err = None \<and> rn_book r1 = Some book")
    case False
    with run rf reg ro(3) have "r' = r1" "db' = db1" "\<forall>xs. res = Inr xs \<longrightarrow> length xs = length cs"
      by (auto simp: executeGroup_def split: option.splits)
    with ro(1,2,3) mid show ?thesis by simp
  next
    case True
    then obtain book where e: "err = None" and b: "rn_book r1 = Some book" by blast
    with run rf reg ro(3) have rg: "run_group D env r1 m cs book db1 = (r', db', res)" by (simp add: executeGroup_def)
    note g = run_group_ok [OF ro(1) ro(4) [OF e] b new n rg]
    from g ro(2,3) show ?thesis by (metis (no_types))
  qed
qed

lemma attempt_ok:
  assumes r: "runner_ok D val m r db" and reg: "Cache_Market reg (rn_symbol r) = Some m" and n: "length reqs < 2 ^ 63"
    and run: "attempt D env reg r reqs db = (r', db', res)"
  shows "runner_ok D val m r' db' \<and> beyond db' = beyond db \<and> rn_symbol r' = rn_symbol r \<and> (\<forall>xs. res = Inr xs \<longrightarrow> length xs = length reqs)"
proof -
  define r1 where "r1 = r\<lparr>rn_attempt := Suc (rn_attempt r)\<rparr>"
  have r1: "runner_ok D val m r1 db" "Cache_Market reg (rn_symbol r1) = Some m" "rn_symbol r1 = rn_symbol r" using r reg by (simp_all add: r1_def runner_ok_def)
  obtain r2 db2 res2 where ex: "executeGroup D env reg r1 (group_commands D env (rn_attempt r1) 0 reqs) db = (r2, db2, res2)" using prod_cases3 by blast
  from executeGroup_ok [OF r1(1,2) group_commands_new _ ex] n have e: "db_ok m db2" "beyond db2 = beyond db" "rn_mid r2 = mk_ID m" "rn_symbol r2 = rn_symbol r1"
    "\<forall>xs. res2 = Inr xs \<longrightarrow> runner_ok D val m r2 db2 \<and> length xs = length reqs" by auto
  show ?thesis
  proof (cases res2)
    case (Inl x)
    with run ex have "r' = r2\<lparr>rn_dirty := True\<rparr>" "db' = db2" "res = Inl x" by (simp_all add: attempt_def r1_def Let_def)
    with e r1(3) show ?thesis by (simp add: runner_ok_def)
  next
    case (Inr xs)
    with run ex have "r' = r2" "db' = db2" "res = Inr xs" by (simp_all add: attempt_def r1_def Let_def)
    with e r1(3) Inr show ?thesis by simp
  qed
qed

lemma handle_one_ok:
  assumes r: "runner_ok D val m r db" and reg: "Cache_Market reg (rn_symbol r) = Some m" and run: "handle_one D env reg r req db = (r', db', resp)"
  shows "runner_ok D val m r' db' \<and> beyond db' = beyond db \<and> rn_symbol r' = rn_symbol r"
proof -
  obtain r1 db1 res where at: "attempt D env reg r [req] db = (r1, db1, res)" using prod_cases3 by blast
  with run have "r' = r1" "db' = db1" by (auto simp: handle_one_def split: sum.splits list.splits)
  with attempt_ok [OF r reg _ at] show ?thesis by simp
qed

lemma handle_each_ok:
  assumes "runner_ok D val m r db" and "Cache_Market reg (rn_symbol r) = Some m" and "handle_each D env reg r reqs db = (r', db', resps)"
  shows "runner_ok D val m r' db' \<and> beyond db' = beyond db \<and> rn_symbol r' = rn_symbol r \<and> length resps = length reqs"
  using assms
proof (induction reqs arbitrary: r db resps)
  case (Cons req reqs)
  obtain r1 db1 err where rf: "restoreOrFail D reg r db = (r1, db1, err)" using prod_cases3 by blast
  note ro = restoreOrFail_ok [OF Cons.prems(1,2) rf]
  have reg1: "Cache_Market reg (rn_symbol r1) = Some m" using Cons.prems(2) ro(3) by simp
  show ?case
  proof (cases err)
    case (Some e)
    with Cons.prems(3) rf obtain rs where "handle_each D env reg r1 reqs db1 = (r', db', rs)" "resps = err_response ErrEngineUnavailable # rs"
      by (auto split: prod.splits)
    with Cons.IH [OF ro(1) reg1, of rs] ro(2,3) show ?thesis by simp
  next
    case None
    with Cons.prems(3) rf obtain r2 db2 resp rs where one: "handle_one D env reg r1 req db1 = (r2, db2, resp)"
      and rest: "handle_each D env reg r2 reqs db2 = (r', db', rs)" and resps: "resps = resp # rs"
      by (auto split: prod.splits)
    from handle_one_ok [OF ro(1) reg1 one] have h: "runner_ok D val m r2 db2" "beyond db2 = beyond db1" "rn_symbol r2 = rn_symbol r1" by blast+
    with Cons.IH [OF h(1) _ rest] reg1 ro(2,3) show ?thesis by (simp add: resps)
  qed
qed simp

lemma handleGroup_ok:
  assumes r: "runner_ok D val m r db" and reg: "Cache_Market reg (rn_symbol r) = Some m" and n: "length reqs < 2 ^ 63"
    and run: "handleGroup D env reg r reqs db = (r', db', resps)"
  shows "runner_ok D val m r' db' \<and> beyond db' = beyond db \<and> rn_symbol r' = rn_symbol r \<and> length resps = length reqs"
proof (cases "\<exists>req. reqs = [req]")
  case True
  then obtain req where q: "reqs = [req]" by blast
  obtain r1 db1 resp where one: "handle_one D env reg r req db = (r1, db1, resp)" using prod_cases3 by blast
  with run q have "r' = r1" "db' = db1" "resps = [resp]" by (simp_all add: handleGroup_def)
  with handle_one_ok [OF r reg one] q show ?thesis by simp
next
  case False
  obtain r1 db1 res where at: "attempt D env reg r reqs db = (r1, db1, res)" using prod_cases3 by blast
  note a = attempt_ok [OF r reg n at]
  have run1: "(case res of Inr xs \<Rightarrow> (r1, db1, xs) | Inl e \<Rightarrow> handle_each D env reg r1 reqs db1) = (r', db', resps)"
    using run False at unfolding handleGroup_def
    by (cases reqs; cases "tl reqs"; cases res) (simp_all del: handle_each.simps)
  show ?thesis
  proof (cases res)
    case (Inr xs)
    with run1 a show ?thesis by simp
  next
    case (Inl e)
    with run1 have he: "handle_each D env reg r1 reqs db1 = (r', db', resps)" by simp
    have "Cache_Market reg (rn_symbol r1) = Some m" using a reg by simp
    from handle_each_ok [OF _ this he] a show ?thesis by simp
  qed
qed

end

end
