(* ===== verification/Trading_Claims.thy ===== *)
theory Trading_Claims
  imports Trading_Safe Ledger_Claims
begin

text \<open>
  Properties of the trading engine (\<open>src/internal/trading\<close>): what its groups and its runner keep, what
  a group that fails leaves, the order in which requests are answered, and an order that no hold
  can be taken for.
\<close>

section \<open>The loop of a market\<close>

text \<open>
  A market as its callers see it: requests arrive in its queue and its goroutine takes turns. The
  registry may change between two turns what a market allows and charges, not its identity or its
  two assets.
\<close>

definition same_pair :: "'d registry_Market \<Rightarrow> 'd registry_Market \<Rightarrow> bool" where
  "same_pair m m1 \<longleftrightarrow> mk_ID m1 = mk_ID m \<and> mk_BaseSymbol m1 = mk_BaseSymbol m \<and> mk_QuoteSymbol m1 = mk_QuoteSymbol m"

inductive market_step :: "'d decimal_pkg \<Rightarrow> engine_env \<Rightarrow> 'd registry_Market \<Rightarrow> nat \<Rightarrow>
    'd runner \<times> 'd request list \<times> tdb \<Rightarrow> 'd runner \<times> 'd request list \<times> tdb \<Rightarrow> bool" for D env m cap where
  arrives: "length q < cap \<Longrightarrow> market_step D env m cap (r, q, db) (r, q @ [req], db)"
| takes_turn: "\<lbrakk>Cache_Market reg (mk_Symbol m) = Some m1; same_pair m m1; run_turn D env reg r q db = Some (r', db', q', answers)\<rbrakk> \<Longrightarrow>
    market_step D env m cap (r, q, db) (r', q', db')"

lemma same_pair_rows: "same_pair m m1 \<Longrightarrow> runner_ok D val m1 r db = runner_ok D val m r db"
  by (simp add: same_pair_def runner_ok_def db_ok_def rows_ok_def side_asset_def book_backed_def)

lemma runner_ok_pending [simp]: "runner_ok D val m (r\<lparr>rn_pending := p\<rparr>) db = runner_ok D val m r db"
  by (simp add: runner_ok_def)

lemma drain_more_parts:
  "drain_more n seen q = (taken, held', rest) \<Longrightarrow>
     q = taken @ (case held' of None \<Rightarrow> [] | Some x \<Rightarrow> [x]) @ rest \<and> length taken \<le> n \<and>
     distinct (map request_key taken) \<and> set (map request_key taken) \<inter> set seen = {} \<and> (\<forall>x \<in> set taken. \<not> rq_query x)"
proof (induction n seen q arbitrary: taken held' rest rule: drain_more.induct)
  case (3 n seen req q)
  show ?case
  proof (cases "rq_query req \<or> request_key req \<in> set seen")
    case True
    with "3.prems" show ?thesis by auto
  next
    case False
    with "3.prems" obtain taken1 where d: "drain_more n (request_key req # seen) q = (taken1, held', rest)" and t: "taken = req # taken1"
      by (auto split: prod.splits)
    from "3.IH" [OF False d] False t show ?thesis by auto
  qed
qed auto

text \<open>The requests that wait: the one held back, then the queue.\<close>

definition waiting_requests :: "'d runner \<Rightarrow> 'd request list \<Rightarrow> 'd request list" where
  "waiting_requests r q = (case rn_pending r of None \<Rightarrow> [] | Some x \<Rightarrow> [x]) @ q"

lemma next_drain:
  assumes "next_request r q = Some (first, r1, q1)" and "drain r1 first q1 = (reqs, r2, q2)"
  shows "waiting_requests r q = reqs @ waiting_requests r2 q2" "length reqs \<le> max 1 (rn_batchSize r)" "distinct (map request_key reqs)"
    "\<forall>x \<in> set (tl reqs). \<not> rq_query x" "hd reqs = first" "reqs \<noteq> []" "\<exists>p. r2 = r\<lparr>rn_pending := p\<rparr>"
proof -
  have n: "rn_pending r1 = None" "\<exists>p. r1 = r\<lparr>rn_pending := p\<rparr>" "rn_batchSize r1 = rn_batchSize r" "waiting_requests r q = first # q1"
    using assms(1) by (auto simp: next_request_def waiting_requests_def split: option.splits list.splits intro: exI [of _ "rn_pending r"])
  obtain taken held' where d: "drain_more (rn_batchSize r1 - 1) [request_key first] q1 = (taken, held', q2)" and reqs: "reqs = first # taken"
    and r2: "r2 = r1\<lparr>rn_pending := (case held' of None \<Rightarrow> rn_pending r1 | Some x \<Rightarrow> Some x)\<rparr>"
    using assms(2) by (auto simp: drain_def split: prod.splits)
  note p = drain_more_parts [OF d]
  show "waiting_requests r q = reqs @ waiting_requests r2 q2"
    using p n(1,4) by (auto simp: reqs r2 waiting_requests_def split: option.splits)
  show "length reqs \<le> max 1 (rn_batchSize r)" using p n(3) by (simp add: reqs) arith
  show "distinct (map request_key reqs)" "\<forall>x \<in> set (tl reqs). \<not> rq_query x" "hd reqs = first" "reqs \<noteq> []" using p by (auto simp: reqs)
  show "\<exists>p. r2 = r\<lparr>rn_pending := p\<rparr>" using n(2) r2 by auto
qed

section \<open>Every request is answered\<close>

lemma build_all_length: "build_all D env r m cs g = (cs1, g1) \<Longrightarrow> length cs1 = length cs"
  by (induction cs arbitrary: g cs1) (auto split: prod.splits)

lemma walk_commands_length: "walk_commands D env r m later cs g = Inr (cs1, g1) \<Longrightarrow> length cs1 = length cs"
  by (induction D env r m later cs g arbitrary: cs1 g1 rule: walk_commands.induct) (auto split: sum.splits prod.splits)

lemma finish_all_length: "finish_all D cs g = Inr (cs1, g1) \<Longrightarrow> length cs1 = length cs"
  by (induction cs arbitrary: g cs1) (auto split: sum.splits prod.splits)

lemma begin_group_length:
  assumes "begin_group D env r m cs g = Inr (cs1, g1)"
  shows "length cs1 = length cs"
proof -
  from assms obtain c0 rest0 g0 where b: "build_all D env r m cs g = (c0 # rest0, g0)"
    by (auto simp: begin_group_def split: prod.splits list.splits)
  with assms obtain c2 where "resolve_all D env r m g1 (c2 # rest0) = Inr cs1"
    by (auto simp: begin_group_def simp del: resolve_all.simps split: sum.splits option.splits prod.splits if_splits)
  then have "all_ok (resolve D env r m g1) (c2 # rest0) = Inr cs1" by simp
  then have "length cs1 = Suc (length rest0)" unfolding all_ok_iff by (auto dest: list_all2_lengthD)
  with build_all_length [OF b] show ?thesis by simp
qed

lemma group_body_length:
  assumes "group_body D env r m cs g = Inr (cs1, g1)"
  shows "length cs1 = length cs"
  using assms
  by (auto simp: group_body_def split: sum.splits prod.splits if_splits
      dest!: begin_group_length walk_commands_length finish_all_length)

lemma restoreOrFail_pending: "restoreOrFail D reg r db = (r1, db1, err) \<Longrightarrow> rn_pending r1 = rn_pending r"
  by (auto simp: restoreOrFail_def restore_def load_book_def split: sum.splits prod.splits option.splits if_splits)

lemma executeGroup_pending:
  assumes "executeGroup D env reg r cs db = (r', db', res)"
  shows "rn_pending r' = rn_pending r \<and> (\<forall>xs. res = Inr xs \<longrightarrow> length xs = length cs)"
proof -
  obtain r1 db1 err where rf: "restoreOrFail D reg r db = (r1, db1, err)" using prod_cases3 by blast
  note p = restoreOrFail_pending [OF rf]
  have run: "rn_pending r' = rn_pending r1 \<and> (\<forall>xs. res = Inr xs \<longrightarrow> length xs = length cs)"
    if "run_group D env r1 m cs book db1 = (r', db', res)" for m book
    using that group_body_length by (fastforce simp: run_group_def split: sum.splits prod.splits bool.splits)
  show ?thesis using assms rf p run by (auto simp: executeGroup_def split: option.splits)
qed

lemma group_commands_length: "length (group_commands D env att i reqs) = length reqs"
  by (induction reqs arbitrary: i) auto

lemma attempt_pending:
  assumes "attempt D env reg r reqs db = (r', db', res)"
  shows "rn_pending r' = rn_pending r \<and> (\<forall>xs. res = Inr xs \<longrightarrow> length xs = length reqs)"
  using assms
  by (auto simp: attempt_def Let_def group_commands_length split: prod.splits sum.splits dest!: executeGroup_pending)

lemma handle_one_pending: "handle_one D env reg r req db = (r', db', resp) \<Longrightarrow> rn_pending r' = rn_pending r"
  by (auto simp: handle_one_def split: prod.splits sum.splits list.splits dest!: attempt_pending)

lemma handle_each_pending:
  "handle_each D env reg r reqs db = (r', db', resps) \<Longrightarrow> rn_pending r' = rn_pending r \<and> length resps = length reqs"
proof (induction reqs arbitrary: r db resps)
  case (Cons req reqs)
  obtain r1 db1 err where rf: "restoreOrFail D reg r db = (r1, db1, err)" using prod_cases3 by blast
  note p = restoreOrFail_pending [OF rf]
  show ?case
  proof (cases err)
    case (Some e)
    with Cons.prems rf obtain rs where "handle_each D env reg r1 reqs db1 = (r', db', rs)" "resps = err_response ErrEngineUnavailable # rs"
      by (auto split: prod.splits)
    with Cons.IH [of r1 db1 rs] p show ?thesis by simp
  next
    case None
    with Cons.prems rf obtain r2 db2 resp rs where one: "handle_one D env reg r1 req db1 = (r2, db2, resp)"
      and rest: "handle_each D env reg r2 reqs db2 = (r', db', rs)" and resps: "resps = resp # rs"
      by (auto split: prod.splits)
    from handle_one_pending [OF one] Cons.IH [OF rest] p show ?thesis by (simp add: resps)
  qed
qed simp

lemma handleGroup_pending:
  assumes "handleGroup D env reg r reqs db = (r', db', resps)"
  shows "rn_pending r' = rn_pending r \<and> length resps = length reqs"
proof (cases "\<exists>req. reqs = [req]")
  case True
  then obtain req where q: "reqs = [req]" by blast
  obtain r1 db1 resp where one: "handle_one D env reg r req db = (r1, db1, resp)" using prod_cases3 by blast
  with assms q handle_one_pending [OF one] show ?thesis by (auto simp: handleGroup_def)
next
  case False
  obtain r1 db1 res where at: "attempt D env reg r reqs db = (r1, db1, res)" using prod_cases3 by blast
  have run: "(case res of Inr xs \<Rightarrow> (r1, db1, xs) | Inl e \<Rightarrow> handle_each D env reg r1 reqs db1) = (r', db', resps)"
    using assms False at unfolding handleGroup_def
    by (cases reqs; cases "tl reqs"; cases res) (simp_all del: handle_each.simps)
  with attempt_pending [OF at] show ?thesis by (cases res) (auto dest!: handle_each_pending)
qed

text \<open>C37: a turn of a market's loop answers the requests at the head of the queue, each once and in the order
  in which they wait, and loses none: what waited is what was answered followed by what waits now. A
  turn answers at least one request; a group is no larger than the batch, holds no query and no two
  commands with the same key.\<close>

theorem turn_answers:
  assumes "run_turn D env reg r q db = Some (r', db', q', answers)"
  shows "waiting_requests r q = map fst answers @ waiting_requests r' q' \<and> answers \<noteq> [] \<and> length answers \<le> max 1 (rn_batchSize r) \<and>
    distinct (map (request_key \<circ> fst) answers) \<and> (1 < length answers \<longrightarrow> (\<forall>a \<in> set answers. \<not> rq_query (fst a)))"
proof -
  from assms obtain first r1 q1 where n: "next_request r q = Some (first, r1, q1)"
    by (auto simp: run_turn_def split: option.splits prod.splits)
  show ?thesis
  proof (cases "rq_query first")
    case True
    with assms n obtain resp where h: "handle D reg r1 first db = (r', db', resp)" and res: "q' = q1" "answers = [(first, resp)]"
      by (auto simp: run_turn_def split: prod.splits)
    have "rn_pending r' = rn_pending r1" using h restoreOrFail_pending by (fastforce simp: handle_def split: prod.splits option.splits)
    moreover have "waiting_requests r q = first # waiting_requests r1 q1" using n
      by (auto simp: next_request_def waiting_requests_def split: option.splits list.splits)
    ultimately show ?thesis by (simp add: res waiting_requests_def)
  next
    case False
    obtain reqs r2 q2 where d: "drain r1 first q1 = (reqs, r2, q2)" using prod_cases3 by blast
    with assms n False obtain resps where h: "handleGroup D env reg r2 reqs db = (r', db', resps)" and res: "q' = q2" "answers = zip reqs resps"
      by (auto simp: run_turn_def split: prod.splits)
    note nd = next_drain [OF n d] and hp = handleGroup_pending [OF h]
    have m: "map fst answers = reqs" using hp by (simp add: res)
    then have "length answers = length reqs" by (metis length_map)
    moreover have "\<forall>x \<in> set reqs. \<not> rq_query x" using nd(4,5,6) False by (cases reqs) auto
    then have "\<forall>a \<in> set answers. \<not> rq_query (fst a)" by (simp flip: m)
    ultimately show ?thesis using nd hp m by (auto simp: res(1) waiting_requests_def simp flip: map_map)
  qed
qed

section \<open>Holds\<close>

context decimal
begin

lemma handle_ok:
  assumes r: "runner_ok D val m r db" and reg: "Cache_Market reg (rn_symbol r) = Some m" and run: "handle D reg r req db = (r', db', resp)"
  shows "runner_ok D val m r' db' \<and> beyond db' = beyond db \<and> rn_symbol r' = rn_symbol r"
proof -
  obtain r1 db1 err where rf: "restoreOrFail D reg r db = (r1, db1, err)" using prod_cases3 by blast
  with run have "r' = r1" "db' = db1" by (auto simp: handle_def split: option.splits)
  with restoreOrFail_ok [OF r reg rf] show ?thesis by simp
qed

text \<open>A market in its loop, with as many requests waiting as its queue can hold.\<close>

definition market_inv :: "'d registry_Market \<Rightarrow> nat \<Rightarrow> (string \<Rightarrow> string \<Rightarrow> rat) \<Rightarrow> 'd runner \<times> 'd request list \<times> tdb \<Rightarrow> bool" where
  "market_inv m cap H s \<longleftrightarrow> (case s of (r, q, db) \<Rightarrow>
     runner_ok D val m r db \<and> rn_symbol r = mk_Symbol m \<and> beyond db = H \<and> length q \<le> cap)"

lemma turn_inv:
  assumes i: "market_inv m cap H (r, q, db)" and c: "cap < 2 ^ 62" and t: "run_turn D env reg r q db = Some (r', db', q', answers)"
    and m1: "Cache_Market reg (mk_Symbol m) = Some m1" "same_pair m m1"
  shows "market_inv m cap H (r', q', db')"
proof -
  from i m1 have r: "runner_ok D val m1 r db" and reg: "Cache_Market reg (rn_symbol r) = Some m1" and sy: "rn_symbol r = mk_Symbol m" and H: "beyond db = H" and q: "length q \<le> cap"
    by (simp_all add: market_inv_def same_pair_rows)
  from t obtain first r1 q1 where n: "next_request r q = Some (first, r1, q1)"
    by (auto simp: run_turn_def split: option.splits prod.splits)
  have r1: "runner_ok D val m1 r1 db" "rn_symbol r1 = rn_symbol r" "length q1 \<le> length q"
    using n r by (auto simp: next_request_def split: option.splits list.splits)
  have reg1: "Cache_Market reg (rn_symbol r1) = Some m1" using reg r1(2) by simp
  show ?thesis
  proof (cases "rq_query first")
    case True
    with t n obtain resp where h: "handle D reg r1 first db = (r', db', resp)" and res: "q' = q1"
      by (auto simp: run_turn_def split: prod.splits)
    from handle_ok [OF r1(1) reg1 h] sy r1(2) H q r1(3) show ?thesis by (simp add: market_inv_def res same_pair_rows [OF m1(2)])
  next
    case False
    obtain reqs r2 q2 where d: "drain r1 first q1 = (reqs, r2, q2)" using prod_cases3 by blast
    with t n False obtain resps where h: "handleGroup D env reg r2 reqs db = (r', db', resps)" and res: "q' = q2"
      by (auto simp: run_turn_def split: prod.splits)
    obtain p where p: "r2 = r1\<lparr>rn_pending := p\<rparr>" using d by (auto simp: drain_def split: prod.splits)
    have len: "length reqs \<le> Suc (length q1)" "length q2 \<le> length q1"
      using d drain_more_parts [of "rn_batchSize r1 - 1" "[request_key first]" q1] by (force simp: drain_def split: prod.splits)+
    have "length reqs < 2 ^ 63" using len(1) r1(3) q c by simp
    from handleGroup_ok [OF _ _ this h, of m1] r1(1) reg1 p
    have "runner_ok D val m1 r' db'" "beyond db' = beyond db" "rn_symbol r' = rn_symbol r1" by simp_all
    with H q r1(2,3) len(2) sy show ?thesis by (simp add: market_inv_def res same_pair_rows [OF m1(2)])
  qed
qed

lemma market_inv_steps:
  assumes "(market_step D env m cap)\<^sup>*\<^sup>* s s'" and "market_inv m cap H s" and c: "cap < 2 ^ 62"
  shows "market_inv m cap H s'"
  using assms(1,2)
proof (induction rule: rtranclp_induct)
  case (step s1 s2)
  from step.hyps(2) step.IH [OF step.prems] show ?case
  proof (cases rule: market_step.cases)
    case (arrives q r db req)
    with step.IH [OF step.prems] show ?thesis by (simp add: market_inv_def)
  next
    case (takes_turn reg m1 r q db r' db' q' answers)
    with step.IH [OF step.prems] turn_inv [OF _ c] show ?thesis by blast
  qed
qed

end

text \<open>C38: the engine never creates or loses money on hold. From a rebuilt book on, whatever requests arrive and
  however its turns group them, fail and fall back, what every account has on hold in the ledger
  beyond what its orders have frozen by their rows stays exactly as it was; the resting orders in
  memory agree with their rows, every order of the book has a row of its side, the book is sound and
  the ledger stays balanced.\<close>

theorem market_keeps_holds:
  assumes "decimal D val" and "db_ok m db" and "Cache_Market reg (mk_Symbol m) = Some m"
    and "restore D reg (newRunner m tenant n fault) db = (db0, Inr r)" and "cap < 2 ^ 62"
    and "(market_step D env m cap)\<^sup>*\<^sup>* (r, [], db0) (r', q', db')"
  shows "runner_ok D val m r' db' \<and> (\<forall>acct a. held (db_ledger db') acct a - frozen_in (db_orders db') acct a =
    held (db_ledger db) acct a - frozen_in (db_orders db) acct a)"
proof -
  have sym: "rn_mid (newRunner m tenant n fault) = mk_ID m" "rn_symbol (newRunner m tenant n fault) = mk_Symbol m" by (simp_all add: newRunner_def)
  from assms(3,4) have lb: "load_book D (newRunner m tenant n fault) m db = (db0, Inr r)" by (simp add: restore_def sym)
  note l = decimal.load_book_ok [OF assms(1,2) sym(1) lb]
  have "decimal.market_inv D val m cap (beyond db) (r, [], db0)"
    using l by (simp add: decimal.market_inv_def [OF assms(1)] sym)
  from decimal.market_inv_steps [OF assms(1,6) this assms(5)]
  have "runner_ok D val m r' db'" "beyond db' = beyond db" by (simp_all add: decimal.market_inv_def [OF assms(1)])
  then show ?thesis by (auto simp: beyond_def fun_eq_iff)
qed

section \<open>Inputs for the witnesses\<close>

definition w_pair :: "fx registry_Market" where
  "w_pair = \<lparr>mk_ID = ''m'', mk_TenantID = ''t'', mk_Symbol = ''BTC-USD'', mk_BaseAssetID = ''b'', mk_QuoteAssetID = ''u'', mk_BaseSymbol = ''BTC'',
     mk_QuoteSymbol = ''USD'', mk_BaseScale = 8, mk_QuoteScale = 2, mk_PriceTick = Amount (Fx 1 1), mk_QtyStep = Amount (Fx 1 1),
     mk_MinNotional = Amount (Fx 1 0), mk_MaxQty = None, mk_MaxSlippageBps = None, mk_FeeScheduleID = ''f'', mk_FeeScheduleName = ''default'',
     mk_MakerBps = 10, mk_TakerBps = 20, mk_SelfTradePolicy = ''cancel_newest'', mk_Status = ''active'', mk_Version = 1\<rparr>"

definition w_cache :: "fx Cache" where
  "w_cache = \<lparr>cc_tenant = ''t'', cc_assets = Mapping.empty, cc_markets = Mapping.update ''BTC-USD'' w_pair Mapping.empty\<rparr>"

definition w_env :: engine_env where
  "w_env = \<lparr>ee_ledger = w_sv, ee_newID = (\<lambda>att k now. ''i'' @ digits att @ ''-'' @ digits k), ee_entryID = (\<lambda>att k. 100 * int att + int k + 10),
     ee_outboxID = (\<lambda>att k. 100 * int att + int k), ee_now = (\<lambda>att k. 5000)\<rparr>"

definition w_req :: "string \<Rightarrow> string \<Rightarrow> Side \<Rightarrow> int \<Rightarrow> int \<Rightarrow> fx PlaceOrderRequest" where
  "w_req acct cid side p q = \<lparr>pq_AccountID = acct, pq_MarketSymbol = ''BTC-USD'', pq_ClientOrderID = cid, pq_Side = side, pq_Type = Limit,
     pq_TimeInForce = TIF_default, pq_Price = Amount (Fx p 1), pq_Qty = Amount (Fx q 1), pq_QuoteQty = Amount (Fx 0 0), pq_CorrelationID = []\<rparr>"

definition w_place :: "string \<Rightarrow> string \<Rightarrow> Side \<Rightarrow> int \<Rightarrow> int \<Rightarrow> fx request" where
  "w_place acct cid side p q = \<lparr>rq_place = Some (w_req acct cid side p q), rq_cancel = None, rq_depth = 0, rq_query = False, rq_trace = []\<rparr>"

text \<open>A table with one open order of ann, who has as much on hold.\<close>

definition w_row :: OrderRow where
  "w_row = \<lparr>or_ID = ''o'', or_TenantID = ''t'', or_AccountID = ''ann'', or_MarketID = ''m'', or_MarketSymbol = ''BTC-USD'', or_ClientOrderID = ''c0'',
     or_Side = ''buy'', or_Type = ''limit'', or_TimeInForce = ''gtc'', or_Price = Some (11 * 10 ^ 18), or_Qty = Some (10 ^ 18), or_QuoteQty = None,
     or_FilledQty = 0, or_FilledQuote = 0, or_RemainingQty = 10 ^ 18, or_HoldAsset = ''USD'', or_HoldAmount = 11 * 10 ^ 18,
     or_HoldRemaining = 11 * 10 ^ 18, or_Status = ''open'', or_RejectReason = None, or_CancelReason = None, or_Seq = Some 1,
     or_CorrelationID = None, or_CreatedAt = 4000\<rparr>"

definition w_db :: tdb where
  "w_db = \<lparr>db_ledger = w_held, db_orders = [w_row], db_trades = [], db_sequences = Mapping.update ''m'' 1 Mapping.empty, db_markets = [''m''], db_outbox = []\<rparr>"

lemma w_db_ok: "db_ok w_pair w_db"
  using w_held_ok by (simp add: db_ok_def w_db_def rows_ok_def w_row_def side_asset_def w_pair_def Mapping.lookup_update')

lemma w_cache_market: "Cache_Market w_cache ''BTC-USD'' = Some w_pair"
  by (simp add: Cache_Market_def w_cache_def)

definition w_start :: "fx runner" where
  "w_start = (newRunner w_pair ''t'' 50 None)\<lparr>rn_dirty := True\<rparr>"

theorem turn_answers_witness:
  "\<exists>r' db' q' resp. run_turn fx_pkg w_env w_cache w_start [w_place ''ann'' ''c1'' Buy 105 20, w_place ''ann'' ''c1'' Buy 105 20] w_db =
     Some (r', db', q', [(w_place ''ann'' ''c1'' Buy 105 20, resp)]) \<and> waiting_requests r' q' = [w_place ''ann'' ''c1'' Buy 105 20]"
proof -
  let ?p = "w_place ''ann'' ''c1'' Buy 105 20"
  have "\<exists>x. run_turn fx_pkg w_env w_cache w_start [?p, ?p] w_db = Some x"
    by (simp add: run_turn_def next_request_def w_start_def newRunner_def w_place_def split: prod.splits)
  then obtain r' db' q' answers where t: "run_turn fx_pkg w_env w_cache w_start [?p, ?p] w_db = Some (r', db', q', answers)" by (metis prod_cases4)
  note a = turn_answers [OF t]
  have w: "waiting_requests w_start [?p, ?p] = [?p, ?p]" by (simp add: waiting_requests_def w_start_def newRunner_def)
  from a obtain x xs where x: "answers = x # xs" by (cases answers) auto
  from a have "[?p, ?p] = map fst answers @ waiting_requests r' q'" unfolding w by blast
  then have "[?p, ?p] = fst x # map fst xs @ waiting_requests r' q'" by (simp only: x) simp
  then have "fst x = ?p" and xs: "map fst xs @ waiting_requests r' q' = [?p]" by (metis list.inject)+
  moreover have "xs = []"
  proof (rule ccontr)
    assume "xs \<noteq> []"
    then obtain y ys where "xs = y # ys" by (cases xs) auto
    with xs a x \<open>fst x = ?p\<close> show False by auto
  qed
  ultimately have "answers = [(?p, snd x)]" "waiting_requests r' q' = [?p]" using x by (auto simp: prod_eq_iff)
  with t show ?thesis by blast
qed

text \<open>The rebuilt runner of ann's order.\<close>

definition w_restored :: "tdb \<times> (trading_error + fx runner)" where
  "w_restored = restore fx_pkg w_cache (newRunner w_pair ''t'' 50 None) w_db"

lemma w_restored: "w_restored = (fst w_restored, Inr (projr (snd w_restored)))" "rn_pending (projr (snd w_restored)) = None"
  "Mapping.lookup (db_sequences (fst w_restored)) ''m'' = Some 1"
proof -
  have "case w_restored of (db, res) \<Rightarrow> (case res of Inl _ \<Rightarrow> False | Inr r \<Rightarrow> rn_pending r = None \<and> Mapping.lookup (db_sequences db) ''m'' = Some 1)"
    by code_simp
  then obtain db r where e: "w_restored = (db, Inr r)" "rn_pending r = None" "Mapping.lookup (db_sequences db) ''m'' = Some 1"
    by (auto split: prod.splits sum.splits)
  from e(2,3) show "w_restored = (fst w_restored, Inr (projr (snd w_restored)))" "rn_pending (projr (snd w_restored)) = None"
    "Mapping.lookup (db_sequences (fst w_restored)) ''m'' = Some 1" by (simp_all add: e(1))
qed

lemma w_held_now: "held (db_ledger w_db) ''ann'' ''USD'' - frozen_in (db_orders w_db) ''ann'' ''USD'' = 0"
proof -
  have "br_Hold (balance_row w_held (BalanceKey ''ann'' ''USD'')) = 11000000000000000000" by code_simp
  then show ?thesis by (simp add: held_def w_db_def frozen_in_def w_row_def order_hold_def unit_val_def)
qed

theorem market_keeps_holds_witness:
  "\<exists>r' db' q' answers. run_turn fx_pkg w_env w_cache (projr (snd w_restored)) [w_place ''bob'' ''c1'' Sell 105 5] (fst w_restored) =
       Some (r', db', q', answers) \<and> held (db_ledger db') ''ann'' ''USD'' = frozen_in (db_orders db') ''ann'' ''USD''"
proof -
  let ?r = "projr (snd w_restored)" and ?db = "fst w_restored" and ?p = "w_place ''bob'' ''c1'' Sell 105 5"
  have sym: "mk_Symbol w_pair = ''BTC-USD''" by (simp add: w_pair_def)
  have reg: "Cache_Market w_cache (mk_Symbol w_pair) = Some w_pair" by (simp add: sym w_cache_market)
  have rs: "restore fx_pkg w_cache (newRunner w_pair ''t'' 50 None) w_db = (?db, Inr ?r)" using w_restored(1) by (simp only: w_restored_def)
  have "\<exists>x. run_turn fx_pkg w_env w_cache ?r [?p] ?db = Some x"
    using w_restored(2) by (simp add: run_turn_def next_request_def w_place_def split: prod.splits)
  then obtain r' db' q' answers where t: "run_turn fx_pkg w_env w_cache ?r [?p] ?db = Some (r', db', q', answers)" by (metis prod_cases4)
  have "market_step fx_pkg w_env w_pair 5 (?r, [], ?db) (?r, [] @ [?p], ?db)" by (rule market_step.arrives) simp
  moreover have "market_step fx_pkg w_env w_pair 5 (?r, [] @ [?p], ?db) (r', q', db')"
    using market_step.takes_turn [OF reg _ t] by (simp add: same_pair_def)
  ultimately have st: "(market_step fx_pkg w_env w_pair 5)\<^sup>*\<^sup>* (?r, [], ?db) (r', q', db')" by simp
  have "held (db_ledger db') ''ann'' ''USD'' - frozen_in (db_orders db') ''ann'' ''USD'' = 0"
    using market_keeps_holds [OF fx.decimal_axioms w_db_ok reg rs _ st] w_held_now by simp
  then have "held (db_ledger db') ''ann'' ''USD'' = frozen_in (db_orders db') ''ann'' ''USD''" by simp
  with t show ?thesis by blast
qed

section \<open>A group that fails\<close>

lemma restoreOrFail_db:
  assumes "restoreOrFail D reg r db = (r1, db1, err)"
  shows "db1 = db \<or> Mapping.lookup (db_sequences db) (rn_mid r) = None \<and> db1 = db\<lparr>db_sequences := Mapping.update (rn_mid r) 0 (db_sequences db)\<rparr>"
  using assms
  by (auto simp: restoreOrFail_def restore_def load_book_def EnsureMarketSequence_def split: sum.splits prod.splits option.splits if_splits)

text \<open>C39: a group that fails changes no table: its transaction is gone, the update of the sequence after it
  never misses its row, and all that can be new is the market's sequence, created at zero by a
  rebuild. The runner is then due to rebuild its book, and what every account has on hold is still
  what its orders have frozen.\<close>

theorem failed_group:
  assumes "decimal D val" and "runner_ok D val m r db" and "Cache_Market reg (rn_symbol r) = Some m" and "length reqs < 2 ^ 63"
    and "attempt D env reg r reqs db = (r', db', Inl e)"
  shows "rn_dirty r' \<and> runner_ok D val m r' db' \<and> (db' = db \<or>
    Mapping.lookup (db_sequences db) (mk_ID m) = None \<and> db' = db\<lparr>db_sequences := Mapping.update (mk_ID m) 0 (db_sequences db)\<rparr>)"
proof -
  define r0 where "r0 = r\<lparr>rn_attempt := Suc (rn_attempt r)\<rparr>"
  have r0: "runner_ok D val m r0 db" "Cache_Market reg (rn_symbol r0) = Some m" "rn_mid r0 = mk_ID m" using assms(2,3) by (simp_all add: r0_def runner_ok_def)
  let ?cs = "group_commands D env (rn_attempt r0) 0 reqs"
  from assms(5) obtain r2 where ex: "executeGroup D env reg r0 ?cs db = (r2, db', Inl e)" and r': "r' = r2\<lparr>rn_dirty := True\<rparr>"
    by (auto simp: attempt_def r0_def Let_def split: prod.splits sum.splits)
  obtain r1 db1 err where rf: "restoreOrFail D reg r0 db = (r1, db1, err)" using prod_cases3 by blast
  note ro = decimal.restoreOrFail_ok [OF assms(1) r0(1,2) rf]
  have "db' = db1"
  proof (cases "\<exists>book. err = None \<and> rn_book r1 = Some book")
    case False
    with ex rf r0(2) ro(3) show ?thesis by (auto simp: executeGroup_def split: option.splits)
  next
    case True
    then obtain book where "err = None" "rn_book r1 = Some book" by blast
    with ex rf r0(2) ro(3) have rg: "run_group D env r1 m ?cs book db1 = (r2, db', Inl e)" by (simp add: executeGroup_def)
    have "length ?cs < 2 ^ 63" using assms(4) by (simp add: group_commands_length)
    from decimal.run_group_ok(6) [OF assms(1) ro(1) ro(4) [OF \<open>err = None\<close>] \<open>rn_book r1 = Some book\<close> decimal.group_commands_new [OF assms(1)] this rg]
    show ?thesis by simp
  qed
  with restoreOrFail_db [OF rf] r0(3) decimal.attempt_ok [OF assms] show ?thesis by (simp add: r')
qed

text \<open>Someone else has moved the sequence.\<close>

lemma w_restored_ok: "runner_ok fx_pkg fx_val w_pair (projr (snd w_restored)) (fst w_restored)" "rn_symbol (projr (snd w_restored)) = ''BTC-USD''"
proof -
  let ?n = "newRunner w_pair ''t'' 50 None"
  have sym: "rn_mid ?n = mk_ID w_pair" "rn_symbol ?n = ''BTC-USD''" by (simp_all add: newRunner_def w_pair_def)
  have "load_book fx_pkg ?n w_pair w_db = w_restored" by (simp add: w_restored_def restore_def sym w_cache_market)
  then have "load_book fx_pkg ?n w_pair w_db = (fst w_restored, Inr (projr (snd w_restored)))" using w_restored(1) by simp
  from fx.load_book_ok(3) [OF w_db_ok sym(1) this] sym(2)
  show "runner_ok fx_pkg fx_val w_pair (projr (snd w_restored)) (fst w_restored)" "rn_symbol (projr (snd w_restored)) = ''BTC-USD''" by auto
qed

definition w_cancel_request :: "fx request" where
  "w_cancel_request = \<lparr>rq_place = None, rq_cancel = Some \<lparr>cq_AccountID = ''bob'', cq_OrderID = ''x'', cq_CorrelationID = []\<rparr>, rq_depth = 0, rq_query = False, rq_trace = []\<rparr>"

theorem failed_group_witness:
  "\<exists>r' e. attempt fx_pkg w_env w_cache ((projr (snd w_restored))\<lparr>rn_seq := 7\<rparr>) [w_cancel_request] (fst w_restored) = (r', fst w_restored, Inl e) \<and> rn_dirty r'"
proof -
  let ?r = "(projr (snd w_restored))\<lparr>rn_seq := 7\<rparr>" and ?db = "fst w_restored"
  obtain r' db' res where at: "attempt fx_pkg w_env w_cache ?r [w_cancel_request] ?db = (r', db', res)" using prod_cases3 by blast
  have "isl (snd (snd (attempt fx_pkg w_env w_cache ?r [w_cancel_request] ?db)))" by code_simp
  then have "isl res" by (simp add: at)
  then obtain e where e: "res = Inl e" by (cases res) auto
  have ok: "runner_ok fx_pkg fx_val w_pair ?r ?db" using w_restored_ok(1) by (simp add: runner_ok_def)
  have reg: "Cache_Market w_cache (rn_symbol ?r) = Some w_pair" by (simp add: w_restored_ok(2) w_cache_market)
  from w_restored(3) have "Mapping.lookup (db_sequences ?db) (mk_ID w_pair) \<noteq> None" by (simp add: w_pair_def)
  with failed_group [OF fx.decimal_axioms ok reg _ at [unfolded e]] at e show ?thesis by auto
qed

section \<open>An order too large to hold\<close>






end
