(* ===== verification/Shadow_Book.thy ===== *)
theory Shadow_Book
  imports Candles
begin

text \<open>
  \<^verbatim>\<open>internal/marketdata/book.go\<close>: the shadow order book, price levels and the orders behind them, as the
  projector keeps it. A side is the string of its wire form. The orders the code shares by pointer
  live in \<open>sk_orders\<close>; an order's pointer to its level is the level's key in the map of its side, nil is
  \<open>None\<close>, and following a nil pointer ends in \<open>ShadowPanic\<close>.
\<close>

section \<open>Data\<close>

datatype md_error = ErrGap | ErrInconsistent | ErrBufferOverflow | ErrDecode | ShadowPanic

definition md_Buy :: string where "md_Buy = ''buy''"
definition md_Sell :: string where "md_Sell = ''sell''"

definition md_Opposite :: "string \<Rightarrow> string" where
  "md_Opposite s = (if s = md_Buy then md_Sell else md_Buy)"

definition md_valid :: "string \<Rightarrow> bool" where
  "md_valid s \<longleftrightarrow> s = md_Buy \<or> s = md_Sell"

record 'd ShadowLevel =
  sl_Price :: "'d amount"
  sl_Qty :: "'d amount"
  sl_Orders :: int

record 'd PriceLevel =
  pl_Price :: "'d amount"
  pl_Qty :: "'d amount"

record 'd ShadowDepth =
  sd_Market :: string
  sd_Seq :: u64
  sd_Bids :: "'d ShadowLevel list"
  sd_Asks :: "'d ShadowLevel list"

record 'd Delta =
  dl_Market :: string
  dl_Seq :: u64
  dl_At :: go_time
  dl_Bids :: "'d PriceLevel list"
  dl_Asks :: "'d PriceLevel list"

record 'd ShadowOrder =
  so_ID :: string
  so_Side :: string
  so_Price :: "'d amount"
  so_Remaining :: "'d amount"

record 'd BookSnapshot =
  bn_Market :: string
  bn_Seq :: u64
  bn_Orders :: "'d ShadowOrder list"

record 'd bookOrder =
  bo_id :: string
  bo_side :: string
  bo_price :: "'d amount"
  bo_remaining :: "'d amount"
  bo_level :: "string option"

record 'd bookLevel =
  bl_price :: "'d amount"
  bl_qty :: "'d amount"
  bl_orders :: int

record 'd shadowSide =
  ss_side :: string
  ss_levels :: "(string, 'd bookLevel) mapping"
  ss_prices :: "'d amount list"

record 'd ShadowBook =
  sk_market :: string
  sk_seq :: u64
  sk_orders :: "(string, 'd bookOrder) mapping"
  sk_bids :: "'d shadowSide"
  sk_asks :: "'d shadowSide"

section \<open>One side\<close>

definition shadow_better :: "'d decimal_pkg \<Rightarrow> string \<Rightarrow> 'd amount \<Rightarrow> 'd amount \<Rightarrow> bool" where
  "shadow_better D side a b = (if side = md_Buy then Amount_Cmp D a b > 0 else Amount_Cmp D a b < 0)"

text \<open>The side with the order in it, and the order with its level pointer set.\<close>

definition shadow_insert :: "'d decimal_pkg \<Rightarrow> 'd shadowSide \<Rightarrow> 'd bookOrder \<Rightarrow> 'd shadowSide \<times> 'd bookOrder" where
  "shadow_insert D s x =
     (let k = Amount_String D (bo_price x);
          (lvl, s1) =
            (case Mapping.lookup (ss_levels s) k of
               Some lvl \<Rightarrow> (lvl, s)
             | None \<Rightarrow>
                 (\<lparr>bl_price = bo_price x, bl_qty = Zero D, bl_orders = 0\<rparr>,
                  s\<lparr>ss_prices := slice_insert
                      (sort_search (length (ss_prices s)) (\<lambda>i. shadow_better D (ss_side s) (bo_price x) (ss_prices s ! i)))
                      (bo_price x) (ss_prices s)\<rparr>));
          lvl1 = lvl\<lparr>bl_qty := Amount_Add D (bl_qty lvl) (bo_remaining x), bl_orders := bl_orders lvl + 1\<rparr>
      in (s1\<lparr>ss_levels := Mapping.update k lvl1 (ss_levels s1)\<rparr>, x\<lparr>bo_level := Some k\<rparr>))"

text \<open>What a level loses of its quantity: the code's write through the pointer of an order.\<close>

definition level_less :: "'d decimal_pkg \<Rightarrow> 'd amount \<Rightarrow> string option \<Rightarrow> 'd shadowSide \<Rightarrow> md_error + 'd shadowSide" where
  "level_less D q ptr s =
     (case ptr of
        None \<Rightarrow> Inl ShadowPanic
      | Some k \<Rightarrow>
          (case Mapping.lookup (ss_levels s) k of
             None \<Rightarrow> Inl ShadowPanic
           | Some lvl \<Rightarrow> Inr (s\<lparr>ss_levels := Mapping.update k (lvl\<lparr>bl_qty := Amount_Sub D (bl_qty lvl) q\<rparr>) (ss_levels s)\<rparr>)))"

definition shadow_drop :: "'d decimal_pkg \<Rightarrow> string option \<Rightarrow> 'd shadowSide \<Rightarrow> md_error + 'd shadowSide" where
  "shadow_drop D ptr s =
     (case ptr of
        None \<Rightarrow> Inl ShadowPanic
      | Some k \<Rightarrow>
          (case Mapping.lookup (ss_levels s) k of
             None \<Rightarrow> Inl ShadowPanic
           | Some lvl \<Rightarrow>
               (let lvl1 = lvl\<lparr>bl_orders := bl_orders lvl - 1\<rparr>;
                    ls = Mapping.update k lvl1 (ss_levels s);
                    ps = ss_prices s;
                    i = sort_search (length ps) (\<lambda>i. \<not> shadow_better D (ss_side s) (ps ! i) (bl_price lvl))
                in if bl_orders lvl1 > 0 then Inr (s\<lparr>ss_levels := ls\<rparr>)
                   else Inr (s\<lparr>ss_levels := Mapping.delete (Amount_String D (bl_price lvl)) ls,
                               ss_prices := (if i < length ps \<and> Amount_Equal D (ps ! i) (bl_price lvl) then slice_delete i ps else ps)\<rparr>))))"

text \<open>The first \<open>n\<close> levels; a level without an entry in the map would be a nil pointer.\<close>

definition shadow_side_depth :: "'d decimal_pkg \<Rightarrow> int \<Rightarrow> 'd shadowSide \<Rightarrow> 'd ShadowLevel list option" where
  "shadow_side_depth D n s =
     (let m = (if n \<le> 0 \<or> n > int (length (ss_prices s)) then length (ss_prices s) else nat n)
      in those (map (\<lambda>p. map_option (\<lambda>lvl. \<lparr>sl_Price = bl_price lvl, sl_Qty = bl_qty lvl, sl_Orders = bl_orders lvl\<rparr>)
                       (Mapping.lookup (ss_levels s) (Amount_String D p)))
                  (take m (ss_prices s))))"

section \<open>The book\<close>

definition NewShadowBook :: "string \<Rightarrow> 'd ShadowBook" where
  "NewShadowBook market =
     \<lparr>sk_market = market, sk_seq = 0, sk_orders = Mapping.empty,
      sk_bids = \<lparr>ss_side = md_Buy, ss_levels = Mapping.empty, ss_prices = []\<rparr>,
      sk_asks = \<lparr>ss_side = md_Sell, ss_levels = Mapping.empty, ss_prices = []\<rparr>\<rparr>"

definition shadow_sideOf :: "'d ShadowBook \<Rightarrow> string \<Rightarrow> 'd shadowSide" where
  "shadow_sideOf b s = (if s = md_Buy then sk_bids b else sk_asks b)"

text \<open>The book with the side \<open>shadow_sideOf\<close> points to replaced.\<close>

definition set_shadow_side :: "'d ShadowBook \<Rightarrow> string \<Rightarrow> 'd shadowSide \<Rightarrow> 'd ShadowBook" where
  "set_shadow_side b s x = (if s = md_Buy then b\<lparr>sk_bids := x\<rparr> else b\<lparr>sk_asks := x\<rparr>)"

definition shadow_add :: "'d decimal_pkg \<Rightarrow> 'd ShadowBook \<Rightarrow> 'd ShadowOrder \<Rightarrow> md_error + 'd ShadowBook" where
  "shadow_add D b r =
     (if so_ID r = [] then Inl ErrInconsistent
      else if \<not> md_valid (so_Side r) then Inl ErrInconsistent
      else if \<not> Amount_IsPositive D (so_Price r) \<or> \<not> Amount_IsPositive D (so_Remaining r) then Inl ErrInconsistent
      else if Mapping.lookup (sk_orders b) (so_ID r) \<noteq> None then Inl ErrInconsistent
      else case shadow_insert D (shadow_sideOf b (so_Side r))
                  \<lparr>bo_id = so_ID r, bo_side = so_Side r, bo_price = so_Price r, bo_remaining = so_Remaining r, bo_level = None\<rparr> of
             (s, x) \<Rightarrow>
               Inr ((set_shadow_side b (so_Side r) s)\<lparr>sk_orders := Mapping.update (so_ID r) x (sk_orders b)\<rparr>))"

text \<open>An order leaves: off its level, out of the map.\<close>

definition shadow_leave :: "'d decimal_pkg \<Rightarrow> 'd ShadowBook \<Rightarrow> string \<Rightarrow> 'd bookOrder \<Rightarrow> md_error + 'd ShadowBook" where
  "shadow_leave D b i x =
     (case shadow_drop D (bo_level x) (shadow_sideOf b (bo_side x)) of
        Inl e \<Rightarrow> Inl e
      | Inr s \<Rightarrow> Inr ((set_shadow_side b (bo_side x) s)\<lparr>sk_orders := Mapping.delete i (sk_orders b)\<rparr>))"

definition shadow_reduce :: "'d decimal_pkg \<Rightarrow> 'd ShadowBook \<Rightarrow> string \<Rightarrow> 'd amount \<Rightarrow> md_error + 'd ShadowBook" where
  "shadow_reduce D b i qty =
     (case Mapping.lookup (sk_orders b) i of
        None \<Rightarrow> Inl ErrInconsistent
      | Some x \<Rightarrow>
          (if \<not> Amount_IsPositive D qty \<or> Amount_Cmp D qty (bo_remaining x) > 0 then Inl ErrInconsistent
           else let x1 = x\<lparr>bo_remaining := Amount_Sub D (bo_remaining x) qty\<rparr>
                in case level_less D qty (bo_level x) (shadow_sideOf b (bo_side x)) of
                     Inl e \<Rightarrow> Inl e
                   | Inr s \<Rightarrow>
                       (let b1 = (set_shadow_side b (bo_side x) s)\<lparr>sk_orders := Mapping.update i x1 (sk_orders b)\<rparr>
                        in if Amount_IsZero D (bo_remaining x1) then shadow_leave D b1 i x1 else Inr b1)))"

definition shadow_remove :: "'d decimal_pkg \<Rightarrow> 'd ShadowBook \<Rightarrow> string \<Rightarrow> md_error + 'd ShadowBook" where
  "shadow_remove D b i =
     (case Mapping.lookup (sk_orders b) i of
        None \<Rightarrow> Inl ErrInconsistent
      | Some x \<Rightarrow>
          (case level_less D (bo_remaining x) (bo_level x) (shadow_sideOf b (bo_side x)) of
             Inl e \<Rightarrow> Inl e
           | Inr s \<Rightarrow> shadow_leave D (set_shadow_side b (bo_side x) s) i x))"

fun shadow_add_all :: "'d decimal_pkg \<Rightarrow> 'd ShadowBook \<Rightarrow> 'd ShadowOrder list \<Rightarrow> md_error + 'd ShadowBook" where
  "shadow_add_all D b [] = Inr b"
| "shadow_add_all D b (r # rs) = (case shadow_add D b r of Inl e \<Rightarrow> Inl e | Inr b1 \<Rightarrow> shadow_add_all D b1 rs)"

definition shadow_Restore :: "'d decimal_pkg \<Rightarrow> 'd ShadowBook \<Rightarrow> 'd BookSnapshot \<Rightarrow> md_error + 'd ShadowBook" where
  "shadow_Restore D b snap =
     (if Mapping.size (sk_orders b) \<noteq> 0 \<or> sk_seq b \<noteq> 0 then Inl ErrInconsistent
      else case shadow_add_all D b (bn_Orders snap) of
             Inl e \<Rightarrow> Inl e
           | Inr b1 \<Rightarrow> Inr (b1\<lparr>sk_seq := bn_Seq snap\<rparr>))"

definition shadow_Len :: "'d ShadowBook \<Rightarrow> nat" where
  "shadow_Len b = Mapping.size (sk_orders b)"

definition shadow_Best :: "'d ShadowBook \<Rightarrow> string \<Rightarrow> 'd amount option" where
  "shadow_Best b s = (case ss_prices (shadow_sideOf b s) of [] \<Rightarrow> None | p # _ \<Rightarrow> Some p)"

definition shadow_Depth :: "'d decimal_pkg \<Rightarrow> 'd ShadowBook \<Rightarrow> int \<Rightarrow> 'd ShadowDepth option" where
  "shadow_Depth D b n =
     (case (shadow_side_depth D n (sk_bids b), shadow_side_depth D n (sk_asks b)) of
        (Some bids, Some asks) \<Rightarrow> Some \<lparr>sd_Market = sk_market b, sd_Seq = sk_seq b, sd_Bids = bids, sd_Asks = asks\<rparr>
      | _ \<Rightarrow> None)"

text \<open>The totals of a level; zero when the level is absent.\<close>

record 'd levelState =
  ls_qty :: "'d amount"
  ls_orders :: int

definition levelAt :: "'d decimal_pkg \<Rightarrow> 'd ShadowBook \<Rightarrow> string \<Rightarrow> 'd amount \<Rightarrow> 'd levelState" where
  "levelAt D b s price =
     (case Mapping.lookup (ss_levels (shadow_sideOf b s)) (Amount_String D price) of
        None \<Rightarrow> \<lparr>ls_qty = Zero D, ls_orders = 0\<rparr>
      | Some lvl \<Rightarrow> \<lparr>ls_qty = bl_qty lvl, ls_orders = bl_orders lvl\<rparr>)"

definition md_crosses :: "'d decimal_pkg \<Rightarrow> string \<Rightarrow> 'd amount \<Rightarrow> 'd amount \<Rightarrow> bool" where
  "md_crosses D side limit best = (if side = md_Buy then Amount_Cmp D best limit \<le> 0 else Amount_Cmp D best limit \<ge> 0)"

end
