(* ===== verification/Shadow_Projector.thy ===== *)
theory Shadow_Projector
  imports Shadow_Book Eventbus
begin

text \<open>
  \<^verbatim>\<open>internal/marketdata\<close>: the payloads the book reads (events.go) and the projector that turns the
  events of a market into its shadow book and one delta per command (projector.go). A payload is a
  JSON value; a struct is decoded member by member, as \<^verbatim>\<open>encoding/json\<close> does: the last member with a
  field's name wins, names are compared without their case, members without a field are skipped. The
  clock is an argument. Logging is not modelled; an operation that fails returns the projector as it is
  then beside the error.
\<close>

section \<open>Decoding\<close>

definition ascii_lower :: "char \<Rightarrow> char" where
  "ascii_lower c = (if is_upper c then char_of ((of_char c :: nat) + 32) else c)"

definition fold_name :: "string \<Rightarrow> string" where
  "fold_name s = map ascii_lower s"

fun decode_string :: "json \<Rightarrow> string \<Rightarrow> string option" where
  "decode_string (JStr s) old = Some s"
| "decode_string JNull old = Some old"
| "decode_string _ old = None"

text \<open>\<^verbatim>\<open>Amount.UnmarshalJSON\<close>: a null is the empty string to it.\<close>

fun decode_amount :: "'d decimal_pkg \<Rightarrow> json \<Rightarrow> 'd amount option" where
  "decode_amount D (JStr s) = (case ParseAmount D s of Inl _ \<Rightarrow> None | Inr a \<Rightarrow> Some a)"
| "decode_amount D JNull = (case ParseAmount D [] of Inl _ \<Rightarrow> None | Inr a \<Rightarrow> Some a)"
| "decode_amount D _ = None"

text \<open>Into a pointer, where null is nil.\<close>

definition decode_amount_ptr :: "'d decimal_pkg \<Rightarrow> json \<Rightarrow> 'd amount option option" where
  "decode_amount_ptr D v = (if v = JNull then Some None else map_option Some (decode_amount D v))"

fun decode_members :: "(string \<Rightarrow> json \<Rightarrow> 'r \<Rightarrow> 'r option) \<Rightarrow> (string \<times> json) list \<Rightarrow> 'r \<Rightarrow> 'r option" where
  "decode_members f [] r = Some r"
| "decode_members f ((k, v) # ms) r = (case f (fold_name k) v r of None \<Rightarrow> None | Some r1 \<Rightarrow> decode_members f ms r1)"

definition decode_payload :: "(string \<Rightarrow> json \<Rightarrow> 'r \<Rightarrow> 'r option) \<Rightarrow> 'r \<Rightarrow> Envelope \<Rightarrow> 'r option" where
  "decode_payload f zero e =
     (case ev_Payload e of
        Some JNull \<Rightarrow> Some zero
      | Some (JObj ms) \<Rightarrow> decode_members f ms zero
      | _ \<Rightarrow> None)"

record 'd orderAccepted =
  ja_OrderID :: string
  ja_Market :: string
  ja_Side :: string
  ja_Type :: string
  ja_TimeInForce :: string
  ja_Price :: "'d amount option"
  ja_Qty :: "'d amount option"

record 'd orderProgress =
  jp_OrderID :: string
  jp_Market :: string
  jp_RemainingQty :: "'d amount"

record 'd tradeExecuted =
  jt_TradeID :: string
  jt_Market :: string
  jt_MakerOrderID :: string
  jt_TakerOrderID :: string
  jt_TakerSide :: string
  jt_Price :: "'d amount"
  jt_Qty :: "'d amount"
  jt_QuoteQty :: "'d amount"

definition accepted_field :: "'d decimal_pkg \<Rightarrow> string \<Rightarrow> json \<Rightarrow> 'd orderAccepted \<Rightarrow> 'd orderAccepted option" where
  "accepted_field D k v r =
     (if k = ''order_id'' then map_option (\<lambda>x. r\<lparr>ja_OrderID := x\<rparr>) (decode_string v (ja_OrderID r))
      else if k = ''market'' then map_option (\<lambda>x. r\<lparr>ja_Market := x\<rparr>) (decode_string v (ja_Market r))
      else if k = ''side'' then map_option (\<lambda>x. r\<lparr>ja_Side := x\<rparr>) (decode_string v (ja_Side r))
      else if k = ''type'' then map_option (\<lambda>x. r\<lparr>ja_Type := x\<rparr>) (decode_string v (ja_Type r))
      else if k = ''time_in_force'' then map_option (\<lambda>x. r\<lparr>ja_TimeInForce := x\<rparr>) (decode_string v (ja_TimeInForce r))
      else if k = ''price'' then map_option (\<lambda>x. r\<lparr>ja_Price := x\<rparr>) (decode_amount_ptr D v)
      else if k = ''qty'' then map_option (\<lambda>x. r\<lparr>ja_Qty := x\<rparr>) (decode_amount_ptr D v)
      else Some r)"

definition progress_field :: "'d decimal_pkg \<Rightarrow> string \<Rightarrow> json \<Rightarrow> 'd orderProgress \<Rightarrow> 'd orderProgress option" where
  "progress_field D k v r =
     (if k = ''order_id'' then map_option (\<lambda>x. r\<lparr>jp_OrderID := x\<rparr>) (decode_string v (jp_OrderID r))
      else if k = ''market'' then map_option (\<lambda>x. r\<lparr>jp_Market := x\<rparr>) (decode_string v (jp_Market r))
      else if k = ''remaining_qty'' then map_option (\<lambda>x. r\<lparr>jp_RemainingQty := x\<rparr>) (decode_amount D v)
      else Some r)"

definition trade_field :: "'d decimal_pkg \<Rightarrow> string \<Rightarrow> json \<Rightarrow> 'd tradeExecuted \<Rightarrow> 'd tradeExecuted option" where
  "trade_field D k v r =
     (if k = ''trade_id'' then map_option (\<lambda>x. r\<lparr>jt_TradeID := x\<rparr>) (decode_string v (jt_TradeID r))
      else if k = ''market'' then map_option (\<lambda>x. r\<lparr>jt_Market := x\<rparr>) (decode_string v (jt_Market r))
      else if k = ''maker_order_id'' then map_option (\<lambda>x. r\<lparr>jt_MakerOrderID := x\<rparr>) (decode_string v (jt_MakerOrderID r))
      else if k = ''taker_order_id'' then map_option (\<lambda>x. r\<lparr>jt_TakerOrderID := x\<rparr>) (decode_string v (jt_TakerOrderID r))
      else if k = ''taker_side'' then map_option (\<lambda>x. r\<lparr>jt_TakerSide := x\<rparr>) (decode_string v (jt_TakerSide r))
      else if k = ''price'' then map_option (\<lambda>x. r\<lparr>jt_Price := x\<rparr>) (decode_amount D v)
      else if k = ''qty'' then map_option (\<lambda>x. r\<lparr>jt_Qty := x\<rparr>) (decode_amount D v)
      else if k = ''quote_qty'' then map_option (\<lambda>x. r\<lparr>jt_QuoteQty := x\<rparr>) (decode_amount D v)
      else Some r)"

definition decode_accepted :: "'d decimal_pkg \<Rightarrow> Envelope \<Rightarrow> md_error + 'd orderAccepted" where
  "decode_accepted D e =
     (case decode_payload (accepted_field D)
             \<lparr>ja_OrderID = [], ja_Market = [], ja_Side = [], ja_Type = [], ja_TimeInForce = [], ja_Price = None, ja_Qty = None\<rparr> e of
        None \<Rightarrow> Inl ErrDecode | Some r \<Rightarrow> Inr r)"

definition decode_progress :: "'d decimal_pkg \<Rightarrow> Envelope \<Rightarrow> md_error + 'd orderProgress" where
  "decode_progress D e =
     (case decode_payload (progress_field D) \<lparr>jp_OrderID = [], jp_Market = [], jp_RemainingQty = Zero D\<rparr> e of
        None \<Rightarrow> Inl ErrDecode | Some r \<Rightarrow> Inr r)"

definition decode_trade :: "'d decimal_pkg \<Rightarrow> Envelope \<Rightarrow> md_error + 'd tradeExecuted" where
  "decode_trade D e =
     (case decode_payload (trade_field D)
             \<lparr>jt_TradeID = [], jt_Market = [], jt_MakerOrderID = [], jt_TakerOrderID = [], jt_TakerSide = [],
              jt_Price = Zero D, jt_Qty = Zero D, jt_QuoteQty = Zero D\<rparr> e of
        None \<Rightarrow> Inl ErrDecode | Some r \<Rightarrow> Inr r)"

definition md_OrderAccepted :: string where "md_OrderAccepted = ''order.accepted''"
definition md_OrderUpdated :: string where "md_OrderUpdated = ''order.updated''"
definition md_OrderFilled :: string where "md_OrderFilled = ''order.filled''"
definition md_OrderCancelled :: string where "md_OrderCancelled = ''order.cancelled''"
definition md_OrderRejected :: string where "md_OrderRejected = ''order.rejected''"
definition md_TradeExecuted :: string where "md_TradeExecuted = ''trade.executed''"

lemmas md_types = md_OrderAccepted_def md_OrderUpdated_def md_OrderFilled_def md_OrderCancelled_def
  md_OrderRejected_def md_TradeExecuted_def

definition TradeFromEnvelope :: "'d decimal_pkg \<Rightarrow> Envelope \<Rightarrow> md_error + 'd TradeTick" where
  "TradeFromEnvelope D e =
     (if ev_EventType e \<noteq> md_TradeExecuted then Inl ErrDecode
      else case decode_trade D e of
             Inl err \<Rightarrow> Inl err
           | Inr p \<Rightarrow>
               (case ev_Seq e of
                  None \<Rightarrow> Inl ErrDecode
                | Some seq \<Rightarrow>
                    (if \<not> Amount_IsPositive D (jt_Price p) \<or> \<not> Amount_IsPositive D (jt_Qty p) then Inl ErrDecode
                     else Inr \<lparr>tt_TradeID = jt_TradeID p, tt_Market = jt_Market p, tt_Seq = seq, tt_Index = 0,
                               tt_Price = jt_Price p, tt_Qty = jt_Qty p, tt_QuoteQty = jt_QuoteQty p,
                               tt_TakerSide = jt_TakerSide p, tt_At = ev_OccurredAt e\<rparr>)))"

section \<open>The projector\<close>

datatype proj_state = Cold | Rebuilding | Live

definition DefaultRebuildBuffer :: nat where "DefaultRebuildBuffer = 10000"

record batch =
  bt_seq :: u64
  bt_at :: go_time
  bt_takerID :: string
  bt_awaitTaker :: bool
  bt_events :: "Envelope list"
  bt_openedAt :: go_time

record 'd BookProjector =
  bp_market :: string
  bp_book :: "'d ShadowBook"
  bp_state :: proj_state
  bp_buffer :: "Envelope list"
  bp_maxBuffer :: nat
  bp_open :: "batch option"

definition NewBookProjector :: "string \<Rightarrow> 'd BookProjector" where
  "NewBookProjector market =
     \<lparr>bp_market = market, bp_book = NewShadowBook market, bp_state = Cold, bp_buffer = [], bp_maxBuffer = DefaultRebuildBuffer, bp_open = None\<rparr>"

definition WithRebuildBuffer :: "int \<Rightarrow> 'd BookProjector \<Rightarrow> 'd BookProjector" where
  "WithRebuildBuffer n p = (if n > 0 then p\<lparr>bp_maxBuffer := nat n\<rparr> else p)"

definition bp_Seq :: "'d BookProjector \<Rightarrow> u64" where "bp_Seq p = sk_seq (bp_book p)"

definition bp_Depth :: "'d decimal_pkg \<Rightarrow> 'd BookProjector \<Rightarrow> int \<Rightarrow> 'd ShadowDepth option" where
  "bp_Depth D p n = shadow_Depth D (bp_book p) n"

definition OpenSince :: "'d BookProjector \<Rightarrow> go_time option" where
  "OpenSince p = map_option bt_openedAt (bp_open p)"

definition MarkRebuilding :: "'d BookProjector \<Rightarrow> 'd BookProjector" where
  "MarkRebuilding p = p\<lparr>bp_book := NewShadowBook (bp_market p), bp_open := None, bp_buffer := [], bp_state := Rebuilding\<rparr>"

subsection \<open>Closing a command\<close>

text \<open>The levels a command touches, in the order of their first touch, with their totals before it.\<close>

record 'd touchedLevel =
  tl_key :: string
  tl_side :: string
  tl_price :: "'d amount"
  tl_before :: "'d levelState"

definition touch :: "'d decimal_pkg \<Rightarrow> 'd ShadowBook \<Rightarrow> string \<Rightarrow> 'd amount \<Rightarrow> 'd touchedLevel list \<Rightarrow> 'd touchedLevel list" where
  "touch D b side price ts =
     (let key = side @ ''|'' @ Amount_String D price
      in if \<exists>t \<in> set ts. tl_key t = key then ts
         else ts @ [\<lparr>tl_key = key, tl_side = side, tl_price = price, tl_before = levelAt D b side price\<rparr>])"

text \<open>What became of the book and the touched levels, and the error.\<close>

type_synonym 'd applied = "'d ShadowBook \<times> 'd touchedLevel list \<times> md_error option"

definition try_op :: "'d ShadowBook \<Rightarrow> 'd touchedLevel list \<Rightarrow> md_error + 'd ShadowBook \<Rightarrow> 'd applied" where
  "try_op b ts r = (case r of Inl e \<Rightarrow> (b, ts, Some e) | Inr b1 \<Rightarrow> (b1, ts, None))"

definition apply_accepted :: "'d decimal_pkg \<Rightarrow> Envelope \<Rightarrow> 'd ShadowBook \<Rightarrow> 'd touchedLevel list \<Rightarrow> 'd applied" where
  "apply_accepted D e b ts =
     (case decode_accepted D e of
        Inl err \<Rightarrow> (b, ts, Some err)
      | Inr acc \<Rightarrow>
          (case (ja_Price acc, ja_Qty acc) of
             (Some price, Some qty) \<Rightarrow>
               (if ja_Type acc \<noteq> ''limit'' then (b, ts, None)
                else try_op b (touch D b (ja_Side acc) price ts)
                       (shadow_add D b \<lparr>so_ID = ja_OrderID acc, so_Side = ja_Side acc, so_Price = price, so_Remaining = qty\<rparr>))
           | _ \<Rightarrow> (b, ts, None)))"

definition apply_trade :: "'d decimal_pkg \<Rightarrow> Envelope \<Rightarrow> 'd ShadowBook \<Rightarrow> 'd touchedLevel list \<Rightarrow> 'd applied" where
  "apply_trade D e b ts =
     (case decode_trade D e of
        Inl err \<Rightarrow> (b, ts, Some err)
      | Inr tr \<Rightarrow>
          (case Mapping.lookup (sk_orders b) (jt_MakerOrderID tr) of
             None \<Rightarrow> (b, ts, Some ErrInconsistent)
           | Some maker \<Rightarrow>
               (let ts1 = touch D b (bo_side maker) (bo_price maker) ts
                in case shadow_reduce D b (jt_MakerOrderID tr) (jt_Qty tr) of
                     Inl err \<Rightarrow> (b, ts1, Some err)
                   | Inr b1 \<Rightarrow>
                       (case Mapping.lookup (sk_orders b1) (jt_TakerOrderID tr) of
                          None \<Rightarrow> (b1, ts1, None)
                        | Some taker \<Rightarrow>
                            try_op b1 (touch D b1 (bo_side taker) (bo_price taker) ts1)
                              (shadow_reduce D b1 (jt_TakerOrderID tr) (jt_Qty tr))))))"

definition apply_updated :: "'d decimal_pkg \<Rightarrow> Envelope \<Rightarrow> 'd ShadowBook \<Rightarrow> 'd touchedLevel list \<Rightarrow> 'd applied" where
  "apply_updated D e b ts =
     (case decode_progress D e of
        Inl err \<Rightarrow> (b, ts, Some err)
      | Inr prog \<Rightarrow>
          (case Mapping.lookup (sk_orders b) (jp_OrderID prog) of
             None \<Rightarrow> (b, ts, Some ErrInconsistent)
           | Some x \<Rightarrow> (b, ts, if \<not> Amount_Equal D (bo_remaining x) (jp_RemainingQty prog) then Some ErrInconsistent else None)))"

definition apply_filled :: "'d decimal_pkg \<Rightarrow> Envelope \<Rightarrow> 'd ShadowBook \<Rightarrow> 'd touchedLevel list \<Rightarrow> 'd applied" where
  "apply_filled D e b ts =
     (case decode_progress D e of
        Inl err \<Rightarrow> (b, ts, Some err)
      | Inr prog \<Rightarrow> (b, ts, if Mapping.lookup (sk_orders b) (jp_OrderID prog) \<noteq> None then Some ErrInconsistent else None))"

definition apply_cancelled :: "'d decimal_pkg \<Rightarrow> string \<Rightarrow> Envelope \<Rightarrow> 'd ShadowBook \<Rightarrow> 'd touchedLevel list \<Rightarrow> 'd applied" where
  "apply_cancelled D takerID e b ts =
     (case decode_progress D e of
        Inl err \<Rightarrow> (b, ts, Some err)
      | Inr prog \<Rightarrow>
          (case Mapping.lookup (sk_orders b) (jp_OrderID prog) of
             None \<Rightarrow> (b, ts, if jp_OrderID prog = takerID then None else Some ErrInconsistent)
           | Some x \<Rightarrow>
               (if \<not> Amount_Equal D (bo_remaining x) (jp_RemainingQty prog) then (b, ts, Some ErrInconsistent)
                else try_op b (touch D b (bo_side x) (bo_price x) ts) (shadow_remove D b (jp_OrderID prog)))))"

definition applyEvent :: "'d decimal_pkg \<Rightarrow> string \<Rightarrow> Envelope \<Rightarrow> 'd ShadowBook \<Rightarrow> 'd touchedLevel list \<Rightarrow> 'd applied" where
  "applyEvent D takerID e b ts =
     (if ev_EventType e = md_OrderAccepted then apply_accepted D e b ts
      else if ev_EventType e = md_TradeExecuted then apply_trade D e b ts
      else if ev_EventType e = md_OrderUpdated then apply_updated D e b ts
      else if ev_EventType e = md_OrderFilled then apply_filled D e b ts
      else if ev_EventType e = md_OrderCancelled then apply_cancelled D takerID e b ts
      else (b, ts, None))"

fun apply_events :: "'d decimal_pkg \<Rightarrow> string \<Rightarrow> Envelope list \<Rightarrow> 'd ShadowBook \<Rightarrow> 'd touchedLevel list \<Rightarrow> 'd applied" where
  "apply_events D takerID [] b ts = (b, ts, None)"
| "apply_events D takerID (e # es) b ts =
     (case applyEvent D takerID e b ts of
        (b1, ts1, Some err) \<Rightarrow> (b1, ts1, Some err)
      | (b1, ts1, None) \<Rightarrow> apply_events D takerID es b1 ts1)"

text \<open>\<^verbatim>\<open>sort.Slice\<close> on a comparison under which no two elements are equal: by insertion.\<close>

fun insert_by :: "('a \<Rightarrow> 'a \<Rightarrow> bool) \<Rightarrow> 'a \<Rightarrow> 'a list \<Rightarrow> 'a list" where
  "insert_by lt x [] = [x]"
| "insert_by lt x (y # ys) = (if lt y x then y # insert_by lt x ys else x # y # ys)"

definition sort_slice :: "('a \<Rightarrow> 'a \<Rightarrow> bool) \<Rightarrow> 'a list \<Rightarrow> 'a list" where
  "sort_slice lt xs = foldr (insert_by lt) xs []"

text \<open>The levels of a delta: what is touched on the side and has another total now.\<close>

definition delta_levels :: "'d decimal_pkg \<Rightarrow> 'd ShadowBook \<Rightarrow> 'd touchedLevel list \<Rightarrow> 'd PriceLevel list" where
  "delta_levels D b ts =
     map (\<lambda>t. \<lparr>pl_Price = tl_price t, pl_Qty = ls_qty (levelAt D b (tl_side t) (tl_price t))\<rparr>)
       (filter (\<lambda>t. \<not> Amount_Equal D (ls_qty (levelAt D b (tl_side t) (tl_price t))) (ls_qty (tl_before t))) ts)"

definition close_batch :: "'d decimal_pkg \<Rightarrow> batch \<Rightarrow> 'd BookProjector \<Rightarrow> 'd BookProjector \<times> (md_error + 'd Delta)" where
  "close_batch D bt p =
     (case apply_events D (bt_takerID bt) (bt_events bt) (bp_book p) [] of
        (b, ts, Some err) \<Rightarrow> (p\<lparr>bp_open := None, bp_book := b\<rparr>, Inl err)
      | (b, ts, None) \<Rightarrow>
          (p\<lparr>bp_open := None, bp_book := b\<lparr>sk_seq := bt_seq bt\<rparr>\<rparr>,
           Inr \<lparr>dl_Market = bp_market p, dl_Seq = bt_seq bt, dl_At = bt_at bt,
                dl_Bids = sort_slice (\<lambda>x y. Amount_Cmp D (pl_Price x) (pl_Price y) > 0)
                            (delta_levels D b (filter (\<lambda>t. tl_side t = md_Buy) ts)),
                dl_Asks = sort_slice (\<lambda>x y. Amount_Cmp D (pl_Price x) (pl_Price y) < 0)
                            (delta_levels D b (filter (\<lambda>t. tl_side t \<noteq> md_Buy) ts))\<rparr>))"

text \<open>The open command is closed; there is one where the code calls this.\<close>

definition proj_close :: "'d decimal_pkg \<Rightarrow> 'd BookProjector \<Rightarrow> 'd BookProjector \<times> (md_error + 'd Delta)" where
  "proj_close D p = (case bp_open p of None \<Rightarrow> (p, Inl ShadowPanic) | Some bt \<Rightarrow> close_batch D bt p)"

text \<open>The projector, the deltas and the error.\<close>

type_synonym 'd projected = "'d BookProjector \<times> 'd Delta list \<times> md_error option"

definition closeOne :: "'d decimal_pkg \<Rightarrow> 'd BookProjector \<Rightarrow> 'd projected" where
  "closeOne D p = (case proj_close D p of (p1, Inl err) \<Rightarrow> (p1, [], Some err) | (p1, Inr d) \<Rightarrow> (p1, [d], None))"

definition Flush :: "'d decimal_pkg \<Rightarrow> 'd BookProjector \<Rightarrow> 'd projected" where
  "Flush D p =
     (if bp_open p = None \<or> bp_state p \<noteq> Live then (p, [], None) else closeOne D p)"

subsection \<open>Feeding events\<close>

definition expectsTakerEvent :: "'d decimal_pkg \<Rightarrow> 'd ShadowBook \<Rightarrow> 'd orderAccepted \<Rightarrow> bool" where
  "expectsTakerEvent D b acc =
     (if ja_Type acc \<noteq> ''limit'' \<or> ja_TimeInForce acc \<noteq> ''gtc'' then True
      else case ja_Price acc of
             None \<Rightarrow> True
           | Some price \<Rightarrow>
               (case shadow_Best b (md_Opposite (ja_Side acc)) of
                  None \<Rightarrow> False
                | Some best \<Rightarrow> md_crosses D (ja_Side acc) price best))"

definition append_event :: "Envelope \<Rightarrow> 'd BookProjector \<Rightarrow> 'd BookProjector" where
  "append_event e p = p\<lparr>bp_open := map_option (\<lambda>bt. bt\<lparr>bt_events := bt_events bt @ [e]\<rparr>) (bp_open p)\<rparr>"

text \<open>What an event of the open command does: it is collected, and ends the command if it is the taker's own.\<close>

definition collect :: "'d decimal_pkg \<Rightarrow> Envelope \<Rightarrow> batch \<Rightarrow> 'd orderProgress \<Rightarrow> 'd BookProjector \<Rightarrow> 'd projected" where
  "collect D e bt prog p =
     (if jp_OrderID prog = bt_takerID bt then closeOne D (append_event e p) else (append_event e p, [], None))"

definition dispatch_accepted :: "'d decimal_pkg \<Rightarrow> go_time \<Rightarrow> Envelope \<Rightarrow> u64 \<Rightarrow> 'd BookProjector \<Rightarrow> 'd projected" where
  "dispatch_accepted D now e seq p =
     (if bp_open p \<noteq> None then (p, [], Some ErrInconsistent)
      else case decode_accepted D e of
             Inl err \<Rightarrow> (p, [], Some err)
           | Inr acc \<Rightarrow>
               (let await = expectsTakerEvent D (bp_book p) acc;
                    p1 = p\<lparr>bp_open := Some \<lparr>bt_seq = seq, bt_at = ev_OccurredAt e, bt_takerID = ja_OrderID acc,
                              bt_awaitTaker = await, bt_events = [e], bt_openedAt = now\<rparr>\<rparr>
                in if await then (p1, [], None) else closeOne D p1))"

definition dispatch_rejected :: "'d decimal_pkg \<Rightarrow> go_time \<Rightarrow> Envelope \<Rightarrow> u64 \<Rightarrow> 'd BookProjector \<Rightarrow> 'd projected" where
  "dispatch_rejected D now e seq p =
     (if bp_open p \<noteq> None then (p, [], Some ErrInconsistent)
      else closeOne D (p\<lparr>bp_open := Some \<lparr>bt_seq = seq, bt_at = ev_OccurredAt e, bt_takerID = [], bt_awaitTaker = False,
                            bt_events = [], bt_openedAt = now\<rparr>\<rparr>))"

definition dispatch_cancelled :: "'d decimal_pkg \<Rightarrow> go_time \<Rightarrow> Envelope \<Rightarrow> u64 \<Rightarrow> 'd BookProjector \<Rightarrow> 'd projected" where
  "dispatch_cancelled D now e seq p =
     (case decode_progress D e of
        Inl err \<Rightarrow> (p, [], Some err)
      | Inr prog \<Rightarrow>
          (case bp_open p of
             None \<Rightarrow> closeOne D (p\<lparr>bp_open := Some \<lparr>bt_seq = seq, bt_at = ev_OccurredAt e, bt_takerID = [], bt_awaitTaker = False,
                                      bt_events = [e], bt_openedAt = now\<rparr>\<rparr>)
           | Some bt \<Rightarrow> collect D e bt prog p))"

definition dispatch_progress :: "'d decimal_pkg \<Rightarrow> Envelope \<Rightarrow> 'd BookProjector \<Rightarrow> 'd projected" where
  "dispatch_progress D e p =
     (case bp_open p of
        None \<Rightarrow> (p, [], Some ErrInconsistent)
      | Some bt \<Rightarrow> (case decode_progress D e of Inl err \<Rightarrow> (p, [], Some err) | Inr prog \<Rightarrow> collect D e bt prog p))"

definition proj_dispatch :: "'d decimal_pkg \<Rightarrow> go_time \<Rightarrow> Envelope \<Rightarrow> u64 \<Rightarrow> 'd BookProjector \<Rightarrow> 'd projected" where
  "proj_dispatch D now e seq p =
     (if ev_EventType e = md_OrderAccepted then dispatch_accepted D now e seq p
      else if ev_EventType e = md_OrderRejected then dispatch_rejected D now e seq p
      else if ev_EventType e = md_OrderCancelled then dispatch_cancelled D now e seq p
      else if ev_EventType e = md_TradeExecuted then (if bp_open p = None then (p, [], Some ErrInconsistent) else (append_event e p, [], None))
      else if ev_EventType e = md_OrderUpdated \<or> ev_EventType e = md_OrderFilled then dispatch_progress D e p
      else (p, [], None))"

text \<open>A live projector and an event of its market.\<close>

definition apply_live :: "'d decimal_pkg \<Rightarrow> go_time \<Rightarrow> Envelope \<Rightarrow> u64 \<Rightarrow> 'd BookProjector \<Rightarrow> 'd projected" where
  "apply_live D now e seq p =
     (if seq \<le> sk_seq (bp_book p) then (p, [], None)
      else case bp_open p of
             Some bt \<Rightarrow>
               (if seq < bt_seq bt then (p, [], None)
                else if seq = bt_seq bt then proj_dispatch D now e seq p
                else case closeOne D p of
                       (p1, ds, Some err) \<Rightarrow> (p1, [], Some err)
                     | (p1, ds, None) \<Rightarrow>
                         (if seq \<noteq> sk_seq (bp_book p1) + 1 then (p1, ds, Some ErrGap)
                          else case proj_dispatch D now e seq p1 of
                                 (p2, ds2, Some err) \<Rightarrow> (p2, ds, Some err)
                               | (p2, ds2, None) \<Rightarrow> (p2, ds @ ds2, None)))
           | None \<Rightarrow>
               (if seq \<noteq> sk_seq (bp_book p) + 1 then (p, [], Some ErrGap)
                else case proj_dispatch D now e seq p of
                       (p2, ds2, Some err) \<Rightarrow> (p2, [], Some err)
                     | (p2, ds2, None) \<Rightarrow> (p2, ds2, None)))"

definition proj_Apply :: "'d decimal_pkg \<Rightarrow> go_time \<Rightarrow> 'd BookProjector \<Rightarrow> Envelope \<Rightarrow> 'd projected" where
  "proj_Apply D now p e =
     (case ev_Seq e of
        None \<Rightarrow> (p, [], None)
      | Some seq \<Rightarrow>
          (if ev_MarketID e \<noteq> Some (bp_market p) then (p, [], None)
           else case bp_state p of
                  Cold \<Rightarrow> (p, [], None)
                | Rebuilding \<Rightarrow>
                    (if length (bp_buffer p) \<ge> bp_maxBuffer p then (p\<lparr>bp_buffer := []\<rparr>, [], Some ErrBufferOverflow)
                     else (p\<lparr>bp_buffer := bp_buffer p @ [e]\<rparr>, [], None))
                | Live \<Rightarrow> apply_live D now e seq p))"

text \<open>The events that were buffered, up to the first error.\<close>

fun replay :: "'d decimal_pkg \<Rightarrow> go_time \<Rightarrow> 'd BookProjector \<Rightarrow> Envelope list \<Rightarrow> 'd projected" where
  "replay D now p [] = (p, [], None)"
| "replay D now p (e # es) =
     (case proj_Apply D now p e of
        (p1, ds, Some err) \<Rightarrow> (p1, [], Some err)
      | (p1, ds, None) \<Rightarrow> (case replay D now p1 es of (p2, ds2, r) \<Rightarrow> (p2, ds @ ds2, r)))"

definition proj_Restore :: "'d decimal_pkg \<Rightarrow> go_time \<Rightarrow> 'd BookProjector \<Rightarrow> 'd BookSnapshot \<Rightarrow> 'd projected" where
  "proj_Restore D now p snap =
     (if bp_state p \<noteq> Rebuilding then (p, [], Some ErrInconsistent)
      else case shadow_Restore D (NewShadowBook (bp_market p)) snap of
             Inl err \<Rightarrow> (p\<lparr>bp_buffer := []\<rparr>, [], Some err)
           | Inr book \<Rightarrow>
               (case replay D now (p\<lparr>bp_book := book, bp_state := Live, bp_buffer := []\<rparr>) (bp_buffer p) of
                  (p1, ds, Some err) \<Rightarrow> (p1\<lparr>bp_state := Rebuilding, bp_open := None\<rparr>, ds, Some err)
                | (p1, ds, None) \<Rightarrow> (p1, ds, None)))"

section \<open>A client's copy\<close>

definition apply_levels :: "'d decimal_pkg \<Rightarrow> 'd PriceLevel list \<Rightarrow> (string, 'd amount) mapping \<Rightarrow> (string, 'd amount) mapping" where
  "apply_levels D ls m =
     fold (\<lambda>l m. if Amount_IsZero D (pl_Qty l) then Mapping.delete (Amount_String D (pl_Price l)) m
                 else Mapping.update (Amount_String D (pl_Price l)) (pl_Qty l) m) ls m"

definition ApplyDelta :: "'d decimal_pkg \<Rightarrow> (string, 'd amount) mapping \<Rightarrow> (string, 'd amount) mapping \<Rightarrow> 'd Delta \<Rightarrow>
    (string, 'd amount) mapping \<times> (string, 'd amount) mapping" where
  "ApplyDelta D bids asks d = (apply_levels D (dl_Bids d) bids, apply_levels D (dl_Asks d) asks)"

end
