(* ===== verification/Shadow_Props.thy ===== *)
theory Shadow_Props
  imports Shadow_Projector Matching_Spec
begin

text \<open>
  What a shadow book means: a finite map from order ids to side, price and what is left
  (\<open>book_view\<close>). \<open>shadow_ok\<close> is the invariant: the prices of a side are those of its orders, best first,
  and each level has the sum of what is left and the number of orders at its price. The lemmas show
  that adding, reducing and removing an order are the updates of the map.
\<close>

section \<open>Orders by side and price\<close>

type_synonym view = "string \<Rightarrow> (string \<times> rat \<times> rat) option"

definition at_price :: "view \<Rightarrow> string \<Rightarrow> rat \<Rightarrow> string set" where
  "at_price f s v = {i. \<exists>r. f i = Some (s, v, r)}"

definition left_at :: "view \<Rightarrow> string \<Rightarrow> rat" where
  "left_at f i = (case f i of None \<Rightarrow> 0 | Some (s, v, r) \<Rightarrow> r)"

definition level_total :: "view \<Rightarrow> string \<Rightarrow> rat \<Rightarrow> rat" where
  "level_total f s v = (\<Sum>i \<in> at_price f s v. left_at f i)"

lemma at_price_dom: "at_price f s v \<subseteq> dom f"
  by (auto simp: at_price_def)

lemma finite_at_price [simp]: "finite (dom f) \<Longrightarrow> finite (at_price f s v)"
  using at_price_dom by (rule finite_subset)

lemma at_price_update:
  "at_price (f(i := None)) s v = at_price f s v - {i}"
  "at_price (f(i \<mapsto> (s', v', r))) s v = (if s' = s \<and> v' = v then insert i (at_price f s v) else at_price f s v - {i})"
  by (auto simp: at_price_def)

lemma level_total_other: "i \<notin> at_price f s v \<Longrightarrow> (\<Sum>j \<in> at_price f s v. left_at (f(i := x)) j) = level_total f s v"
  unfolding level_total_def by (intro sum.cong) (auto simp: left_at_def)

text \<open>An order comes, is reduced, or goes.\<close>

lemma level_total_new:
  assumes "finite (dom f)" and "f i = None"
  shows "level_total (f(i \<mapsto> (s', v', r))) s v = level_total f s v + (if s' = s \<and> v' = v then r else 0)"
proof -
  have i: "i \<notin> at_price f s v" using assms(2) by (simp add: at_price_def)
  have l: "left_at (f(i \<mapsto> (s', v', r))) i = r" by (simp add: left_at_def)
  note o = level_total_other [OF i, of "Some (s', v', r)"]
  show ?thesis
  proof (cases "s' = s \<and> v' = v")
    case True
    with assms(1) i l o show ?thesis unfolding level_total_def at_price_update by simp
  next
    case False
    with i o show ?thesis unfolding level_total_def at_price_update by auto
  qed
qed

lemma level_total_gone:
  assumes "finite (dom f)" and "f i = Some (s', v', r)"
  shows "level_total (f(i := None)) s v = level_total f s v - (if s' = s \<and> v' = v then r else 0)"
proof -
  have o: "(\<Sum>j \<in> at_price f s v - {i}. left_at (f(i := None)) j) = (\<Sum>j \<in> at_price f s v - {i}. left_at f j)"
    by (intro sum.cong) (auto simp: left_at_def)
  show ?thesis
  proof (cases "s' = s \<and> v' = v")
    case True
    then have i: "i \<in> at_price f s v" and l: "left_at f i = r" using assms(2) by (auto simp: at_price_def left_at_def)
    from sum.remove [OF _ i, of "left_at f"] assms(1) o True l show ?thesis
      by (simp add: level_total_def at_price_update)
  next
    case False
    then have "i \<notin> at_price f s v" using assms(2) by (auto simp: at_price_def)
    then have "at_price f s v - {i} = at_price f s v" by simp
    with False o show ?thesis unfolding level_total_def at_price_update by auto
  qed
qed

lemma level_total_less:
  assumes "finite (dom f)" and "f i = Some (s', v', r)"
  shows "level_total (f(i \<mapsto> (s', v', r - q))) s v = level_total f s v - (if s' = s \<and> v' = v then q else 0)"
proof -
  have "f(i \<mapsto> (s', v', r - q)) = (f(i := None))(i \<mapsto> (s', v', r - q))" by simp
  moreover have "finite (dom (f(i := None)))" using assms(1) by simp
  ultimately show ?thesis
    using level_total_new [of "f(i := None)" i s' v' "r - q" s v] level_total_gone [OF assms, of s v] by auto
qed

lemma at_price_less: "f i = Some (s', v', r) \<Longrightarrow> at_price (f(i \<mapsto> (s', v', r'))) s v = at_price f s v"
  by (auto simp: at_price_def)

lemma level_total_cong:
  assumes "\<And>i. i \<in> at_price f s v \<Longrightarrow> g i = f i" and "at_price g s v = at_price f s v"
  shows "level_total g s v = level_total f s v"
  unfolding level_total_def assms(2) by (intro sum.cong) (auto simp: left_at_def assms(1))

section \<open>The invariant\<close>

definition side_of :: "string \<Rightarrow> Side" where
  "side_of s = (if s = md_Buy then Buy else Sell)"

lemma md_sides [simp]: "md_Buy \<noteq> md_Sell" "md_Sell \<noteq> md_Buy" "md_valid md_Buy" "md_valid md_Sell"
  by (simp_all add: md_Buy_def md_Sell_def md_valid_def)

text \<open>The level a side has for the orders at a price, if there are any.\<close>

definition level_ok :: "('d \<Rightarrow> rat) \<Rightarrow> view \<Rightarrow> string \<Rightarrow> rat \<Rightarrow> 'd bookLevel option \<Rightarrow> bool" where
  "level_ok val f s v l \<longleftrightarrow>
     (case l of
        None \<Rightarrow> at_price f s v = {}
      | Some lvl \<Rightarrow> at_price f s v \<noteq> {} \<and> amt_val val (bl_price lvl) = v \<and> amt_val val (bl_qty lvl) = level_total f s v \<and>
          bl_orders lvl = int (card (at_price f s v)))"

definition shadow_side_ok :: "'d decimal_pkg \<Rightarrow> ('d \<Rightarrow> rat) \<Rightarrow> 'd shadowSide \<Rightarrow> view \<Rightarrow> string \<Rightarrow> bool" where
  "shadow_side_ok D val S f s \<longleftrightarrow>
     ss_side S = s \<and> sorted_wrt (val_better val (side_of s)) (ss_prices S) \<and>
     amt_val val ` set (ss_prices S) = {v. at_price f s v \<noteq> {}} \<and>
     (\<forall>p. level_ok val f s (amt_val val p) (Mapping.lookup (ss_levels S) (Amount_String D p)))"

lemma shadow_side_okD:
  assumes "shadow_side_ok D val S f s"
  shows "ss_side S = s" "sorted_wrt (val_better val (side_of s)) (ss_prices S)" "amt_val val ` set (ss_prices S) = {v. at_price f s v \<noteq> {}}"
    "level_ok val f s (amt_val val p) (Mapping.lookup (ss_levels S) (Amount_String D p))"
  using assms by (simp_all add: shadow_side_ok_def)

lemma level_ok_cong:
  "at_price g s v = at_price f s v \<Longrightarrow> level_total g s v = level_total f s v \<Longrightarrow> level_ok val g s v l = level_ok val f s v l"
  by (simp add: level_ok_def split: option.split)

definition book_view :: "('d \<Rightarrow> rat) \<Rightarrow> 'd ShadowBook \<Rightarrow> view" where
  "book_view val b i =
     map_option (\<lambda>x. (bo_side x, amt_val val (bo_price x), amt_val val (bo_remaining x))) (Mapping.lookup (sk_orders b) i)"

definition shadow_order_ok :: "'d decimal_pkg \<Rightarrow> ('d \<Rightarrow> rat) \<Rightarrow> 'd bookOrder \<Rightarrow> bool" where
  "shadow_order_ok D val x \<longleftrightarrow> md_valid (bo_side x) \<and> 0 < amt_val val (bo_price x) \<and> 0 < amt_val val (bo_remaining x) \<and>
     bo_level x = Some (Amount_String D (bo_price x))"

definition shadow_ok :: "'d decimal_pkg \<Rightarrow> ('d \<Rightarrow> rat) \<Rightarrow> 'd ShadowBook \<Rightarrow> bool" where
  "shadow_ok D val b \<longleftrightarrow>
     finite (dom (book_view val b)) \<and>
     (\<forall>i x. Mapping.lookup (sk_orders b) i = Some x \<longrightarrow> shadow_order_ok D val x) \<and>
     shadow_side_ok D val (sk_bids b) (book_view val b) md_Buy \<and> shadow_side_ok D val (sk_asks b) (book_view val b) md_Sell"

lemma shadow_side_ok_cong:
  assumes "\<And>v. at_price g s v = at_price f s v" and "\<And>v i. i \<in> at_price f s v \<Longrightarrow> g i = f i"
  shows "shadow_side_ok D val S g s = shadow_side_ok D val S f s"
proof -
  have "level_total g s v = level_total f s v" for v by (rule level_total_cong) (use assms in auto)
  then show ?thesis unfolding shadow_side_ok_def level_ok_def by (simp only: assms(1))
qed

text \<open>Nothing on one side changes with an order of the other.\<close>

lemma other_side:
  assumes "s' \<noteq> s" and "f i = None \<or> (\<exists>v r. f i = Some (s', v, r))" and "x = None \<or> (\<exists>v r. x = Some (s', v, r))"
  shows "shadow_side_ok D val S (f(i := x)) s = shadow_side_ok D val S f s"
  by (rule shadow_side_ok_cong) (use assms in \<open>auto simp: at_price_def\<close>)

lemma shadow_sideOf_simps [simp]:
  "shadow_sideOf b md_Buy = sk_bids b" "shadow_sideOf b md_Sell = sk_asks b"
  "shadow_sideOf (set_shadow_side b s x) s = x"
  "sk_orders (set_shadow_side b s x) = sk_orders b" "sk_seq (set_shadow_side b s x) = sk_seq b" "sk_market (set_shadow_side b s x) = sk_market b"
  "shadow_sideOf (b\<lparr>sk_orders := m\<rparr>) s = shadow_sideOf b s"
  "set_shadow_side (set_shadow_side b s x) s y = set_shadow_side b s y"
  "set_shadow_side (b\<lparr>sk_orders := m\<rparr>) s x = (set_shadow_side b s x)\<lparr>sk_orders := m\<rparr>"
  by (simp_all add: shadow_sideOf_def set_shadow_side_def)

lemma book_view_simps [simp]:
  "book_view val (set_shadow_side b s x) = book_view val b" "book_view val (b\<lparr>sk_seq := n\<rparr>) = book_view val b"
  "book_view val (b'\<lparr>sk_orders := Mapping.delete i (sk_orders b)\<rparr>) = (book_view val b)(i := None)"
  "book_view val (b'\<lparr>sk_orders := Mapping.update i y (sk_orders b)\<rparr>) =
     (book_view val b)(i \<mapsto> (bo_side y, amt_val val (bo_price y), amt_val val (bo_remaining y)))"
  by (auto simp: book_view_def fun_eq_iff lookup_update')

lemma shadow_ok_seq [simp]: "shadow_ok D val (b\<lparr>sk_seq := n\<rparr>) = shadow_ok D val b"
  by (simp add: shadow_ok_def)

section \<open>The operations of a side\<close>

context decimal
begin

lemma String_inj: "Amount_String D a = Amount_String D b \<longleftrightarrow> V a = V b"
proof -
  obtain c s where a: "V a = of_int c / 10 ^ s" "s = 0 \<or> \<not> 10 dvd c" "Amount_String D a = dec_text c s"
    using string [of "dec a"] by (auto simp: amt_val_def Amount_String_def)
  obtain d t where b: "V b = of_int d / 10 ^ t" "t = 0 \<or> \<not> 10 dvd d" "Amount_String D b = dec_text d t"
    using string [of "dec b"] by (auto simp: amt_val_def Amount_String_def)
  have "c = d \<and> s = t" if eq: "V a = V b"
  proof -
    have "s \<le> t" by (rule least_scale [OF a(1,2)]) (simp add: eq b(1))
    moreover have "t \<le> s" by (rule least_scale [OF b(1,2)]) (simp add: eq [symmetric] a(1))
    ultimately have "s = t" by simp
    moreover have "(of_int c :: rat) / 10 ^ s = of_int d / 10 ^ t" using eq unfolding a(1) b(1) .
    ultimately show ?thesis by simp
  qed
  moreover have "V a = V b" if "c = d \<and> s = t" unfolding a(1) b(1) using that by simp
  ultimately show ?thesis unfolding a(3) b(3) dec_text_inj by blast
qed

lemma shadow_better_iff: "shadow_better D s a b \<longleftrightarrow> val_better val (side_of s) a b"
  by (simp add: shadow_better_def val_better_def side_of_def)

lemma shadow_search_place:
  assumes "sorted_wrt (val_better val (side_of s)) (ps1 @ ps2)"
    and "\<forall>q \<in> set ps1. val_better val (side_of s) q p" and "\<forall>q \<in> set ps2. val_better val (side_of s) p q"
  shows "sort_search (length (ps1 @ ps2)) (\<lambda>i. shadow_better D s p ((ps1 @ ps2) ! i)) = length ps1"
  using search_place [of "\<lparr>bs_side = side_of s, bs_tickScale = 0, bs_levels = Mapping.empty, bs_prices = [], bs_count = 0\<rparr>" ps1 ps2 p] assms
  by (simp add: better_iff shadow_better_iff)

lemma shadow_search_level:
  assumes "sorted_wrt (val_better val (side_of s)) (ps1 @ p # ps2)" and "V q = V p"
  shows "sort_search (length (ps1 @ p # ps2)) (\<lambda>i. \<not> shadow_better D s ((ps1 @ p # ps2) ! i) q) = length ps1"
proof -
  have "val_better val (side_of s) a q = val_better val (side_of s) a p" for a using assms(2) by (simp add: val_better_def)
  then show ?thesis
    using search_level [of "\<lparr>bs_side = side_of s, bs_tickScale = 0, bs_levels = Mapping.empty, bs_prices = [], bs_count = 0\<rparr>" ps1 p ps2] assms(1)
    by (simp add: better_iff shadow_better_iff)
qed

lemma price_place:
  assumes "sorted_wrt (val_better val side) ps" and "\<forall>q \<in> set ps. V q \<noteq> V p"
  obtains ps1 ps2 where "ps = ps1 @ ps2" "\<forall>q \<in> set ps1. val_better val side q p" "\<forall>q \<in> set ps2. val_better val side p q"
proof -
  have "\<exists>ps1 ps2. ps = ps1 @ ps2 \<and> (\<forall>q \<in> set ps1. val_better val side q p) \<and> (\<forall>q \<in> set ps2. val_better val side p q)"
    using assms
  proof (induction ps)
    case (Cons a ps)
    show ?case
    proof (cases "val_better val side a p")
      case True
      from Cons obtain ps1 ps2 where "ps = ps1 @ ps2" "\<forall>q \<in> set ps1. val_better val side q p" "\<forall>q \<in> set ps2. val_better val side p q" by auto
      with True show ?thesis by (intro exI [of _ "a # ps1"] exI [of _ ps2]) simp
    next
      case False
      then have "val_better val side p a" using Cons.prems(2) by (auto simp: val_better_def split: if_splits)
      moreover have "\<forall>q \<in> set ps. val_better val side p q"
        using Cons.prems(1) \<open>val_better val side p a\<close> by (auto simp: val_better_def split: if_splits)
      ultimately show ?thesis by (intro exI [of _ "[]"] exI [of _ "a # ps"]) simp
    qed
  qed simp
  with that show thesis by blast
qed

text \<open>An order comes to a side.\<close>

lemma shadow_insert_ok:
  assumes ok: "shadow_side_ok D val S f s" and fin: "finite (dom f)" and new: "f i = None"
  shows "\<exists>S'. shadow_insert D S x = (S', x\<lparr>bo_level := Some (Amount_String D (bo_price x))\<rparr>) \<and>
    shadow_side_ok D val S' (f(i \<mapsto> (s, V (bo_price x), V (bo_remaining x)))) s"
proof -
  let ?p = "bo_price x" and ?k = "Amount_String D (bo_price x)" and ?f = "f(i \<mapsto> (s, V (bo_price x), V (bo_remaining x)))"
  note S = shadow_side_okD [OF ok]
  have i: "i \<notin> at_price f s v" for v using new by (simp add: at_price_def)
  have tot: "level_total ?f s v = level_total f s v + (if V ?p = v then V (bo_remaining x) else 0)" for v
    using level_total_new [OF fin new] by simp
  have at: "at_price ?f s v = (if V ?p = v then insert i (at_price f s v) else at_price f s v)" for v
    using i [of v] by (auto simp: at_price_update)
  have card: "card (insert i (at_price f s v)) = Suc (card (at_price f s v))" for v using i [of v] fin by simp
  have nonempty: "{v. at_price ?f s v \<noteq> {}} = insert (V ?p) {v. at_price f s v \<noteq> {}}" by (auto simp: at)
  have other: "level_ok val ?f s (V q) l = level_ok val f s (V q) l" if "V q \<noteq> V ?p" for q l
    using that by (intro level_ok_cong) (auto simp: at tot)
  have result: "shadow_side_ok D val (S\<lparr>ss_prices := ps, ss_levels := Mapping.update ?k lvl (ss_levels S)\<rparr>) ?f s"
    if "sorted_wrt (val_better val (side_of s)) ps" "V ` set ps = insert (V ?p) {v. at_price f s v \<noteq> {}}"
      "V (bl_price lvl) = V ?p" "V (bl_qty lvl) = level_total f s (V ?p) + V (bo_remaining x)" "bl_orders lvl = int (card (at_price f s (V ?p))) + 1"
    for ps lvl
    unfolding shadow_side_ok_def
  proof (intro conjI allI)
    fix q
    show "level_ok val ?f s (V q) (Mapping.lookup (ss_levels (S\<lparr>ss_prices := ps, ss_levels := Mapping.update ?k lvl (ss_levels S)\<rparr>)) (Amount_String D q))"
      using that S(4) [of q] other [of q] by (cases "V q = V ?p") (simp_all add: lookup_update' String_inj level_ok_def at tot card)
  qed (use that S(1) nonempty in simp_all)
  show ?thesis
  proof (cases "Mapping.lookup (ss_levels S) ?k")
    case (Some lvl)
    with S(4) [of ?p] have l: "at_price f s (V ?p) \<noteq> {}" "V (bl_price lvl) = V ?p" "V (bl_qty lvl) = level_total f s (V ?p)"
      "bl_orders lvl = int (card (at_price f s (V ?p)))" by (simp_all add: level_ok_def)
    let ?l = "lvl\<lparr>bl_qty := Amount_Add D (bl_qty lvl) (bo_remaining x), bl_orders := bl_orders lvl + 1\<rparr>"
    from S(2,3) l have "shadow_side_ok D val (S\<lparr>ss_prices := ss_prices S, ss_levels := Mapping.update ?k ?l (ss_levels S)\<rparr>) ?f s"
      by (intro result) (auto simp: insert_absorb)
    with Some show ?thesis by (auto simp: shadow_insert_def Let_def)
  next
    case None
    with S(4) [of ?p] have e: "at_price f s (V ?p) = {}" by (simp add: level_ok_def)
    then have t: "level_total f s (V ?p) = 0" by (simp add: level_total_def)
    have "V ?p \<notin> V ` set (ss_prices S)" unfolding S(3) by (simp add: e)
    then have "\<forall>q \<in> set (ss_prices S). V q \<noteq> V ?p" by (metis imageI)
    with S(2) obtain ps1 ps2 where ps: "ss_prices S = ps1 @ ps2" and b: "\<forall>q \<in> set ps1. val_better val (side_of s) q ?p" "\<forall>q \<in> set ps2. val_better val (side_of s) ?p q"
      by (auto elim: price_place)
    from S(2) ps b have "sort_search (length (ps1 @ ps2)) (\<lambda>i. shadow_better D s ?p ((ps1 @ ps2) ! i)) = length ps1" by (intro shadow_search_place) auto
    then have "shadow_insert D S x = (S\<lparr>ss_prices := ps1 @ ?p # ps2, ss_levels := Mapping.update ?k
        \<lparr>bl_price = ?p, bl_qty = Amount_Add D (Zero D) (bo_remaining x), bl_orders = 1\<rparr> (ss_levels S)\<rparr>, x\<lparr>bo_level := Some ?k\<rparr>)"
      using None S(1) ps by (simp add: shadow_insert_def slice_insert_def Let_def)
    moreover have "sorted_wrt (val_better val (side_of s)) (ps1 @ ?p # ps2)"
      using S(2) ps b by (auto simp: sorted_wrt_append val_better_def split: if_splits)
    moreover have "V ` set (ps1 @ ?p # ps2) = insert (V ?p) {v. at_price f s v \<noteq> {}}" using S(3) ps by auto
    ultimately show ?thesis using result [of "ps1 @ ?p # ps2"] e t by simp
  qed
qed

text \<open>The quantity of an order becomes less.\<close>

lemma level_less_ok:
  assumes ok: "shadow_side_ok D val S f s" and fin: "finite (dom f)" and i: "f i = Some (s, V p, r)"
  shows "\<exists>S'. level_less D q (Some (Amount_String D p)) S = Inr S' \<and> shadow_side_ok D val S' (f(i \<mapsto> (s, V p, r - V q))) s"
proof -
  let ?k = "Amount_String D p" and ?f = "f(i \<mapsto> (s, V p, r - V q))"
  note S = shadow_side_okD [OF ok]
  have at: "at_price ?f s v = at_price f s v" for v by (rule at_price_less) (rule i)
  have tot: "level_total ?f s v = level_total f s v - (if V p = v then V q else 0)" for v
    using level_total_less [OF fin i] by simp
  have "i \<in> at_price f s (V p)" using i by (simp add: at_price_def)
  with S(4) [of p] obtain lvl where lvl: "Mapping.lookup (ss_levels S) ?k = Some lvl" and l: "at_price f s (V p) \<noteq> {}"
    "V (bl_price lvl) = V p" "V (bl_qty lvl) = level_total f s (V p)" "bl_orders lvl = int (card (at_price f s (V p)))"
    by (auto simp: level_ok_def split: option.splits)
  let ?S = "S\<lparr>ss_levels := Mapping.update ?k (lvl\<lparr>bl_qty := Amount_Sub D (bl_qty lvl) q\<rparr>) (ss_levels S)\<rparr>"
  have other: "level_ok val ?f s (V a) x = level_ok val f s (V a) x" if "V a \<noteq> V p" for a x
    using that by (intro level_ok_cong) (simp_all add: at tot)
  have "level_ok val ?f s (V a) (Mapping.lookup (ss_levels ?S) (Amount_String D a))" for a
    using S(4) [of a] l other [of a] by (cases "V a = V p") (simp_all add: lookup_update' String_inj level_ok_def at tot del: fun_upd_apply)
  with S(1,2,3) have "shadow_side_ok D val ?S ?f s" by (simp add: shadow_side_ok_def at)
  with lvl show ?thesis by (simp add: level_less_def)
qed

text \<open>An order whose quantity is already off its level goes.\<close>

lemma shadow_drop_ok:
  assumes ok: "shadow_side_ok D val S f s" and fin: "finite (dom f)" and i: "f i = Some (s, V p, 0)"
  shows "\<exists>S'. shadow_drop D (Some (Amount_String D p)) S = Inr S' \<and> shadow_side_ok D val S' (f(i := None)) s"
proof -
  let ?k = "Amount_String D p" and ?f = "f(i := None)"
  note S = shadow_side_okD [OF ok]
  have at: "at_price ?f s v = at_price f s v - {i}" for v by (rule at_price_update)
  have tot: "level_total ?f s v = level_total f s v" for v using level_total_gone [OF fin i] by simp
  have ip: "i \<in> at_price f s v \<longleftrightarrow> v = V p" for v using i by (auto simp: at_price_def)
  have card: "card (at_price f s (V p) - {i}) = card (at_price f s (V p)) - 1" "0 < card (at_price f s (V p))"
    using ip fin by (auto simp: card_gt_0_iff)
  from S(4) [of p] ip [of "V p"] obtain lvl where lvl: "Mapping.lookup (ss_levels S) ?k = Some lvl" and l:
    "V (bl_price lvl) = V p" "V (bl_qty lvl) = level_total f s (V p)" "bl_orders lvl = int (card (at_price f s (V p)))"
    by (auto simp: level_ok_def split: option.splits)
  have other: "level_ok val ?f s (V a) x = level_ok val f s (V a) x" if "V a \<noteq> V p" for a x
    using that ip [of "V a"] by (intro level_ok_cong) (simp_all add: at tot)
  show ?thesis
  proof (cases "bl_orders lvl - 1 > 0")
    case True
    let ?S = "S\<lparr>ss_levels := Mapping.update ?k (lvl\<lparr>bl_orders := bl_orders lvl - 1\<rparr>) (ss_levels S)\<rparr>"
    have "0 < card (at_price f s (V p) - {i})" using True l(3) card by simp
    then have ne: "at_price f s (V p) - {i} \<noteq> {}" by (metis card.empty less_irrefl)
    have c: "int (card (at_price f s (V p) - {i})) = bl_orders lvl - 1" using card l(3) by simp
    have "level_ok val ?f s (V a) (Mapping.lookup (ss_levels ?S) (Amount_String D a))" for a
    proof (cases "V a = V p")
      case False
      then show ?thesis using S(4) [of a] unfolding other [OF False] by (simp add: lookup_update' String_inj)
    next
      case True
      then have "Mapping.lookup (ss_levels ?S) (Amount_String D a) = Some (lvl\<lparr>bl_orders := bl_orders lvl - 1\<rparr>)"
        by (simp add: lookup_update' String_inj)
      then show ?thesis unfolding level_ok_def True at tot by (simp only: option.case, intro conjI ne) (simp_all add: l(1,2) c)
    qed
    moreover have "at_price ?f s v = {} \<longleftrightarrow> at_price f s v = {}" for v
    proof (cases "v = V p")
      case True
      with ne show ?thesis unfolding at True by (metis Diff_empty empty_Diff)
    next
      case False
      then show ?thesis unfolding at using ip [of v] by simp
    qed
    ultimately have "shadow_side_ok D val ?S ?f s" using S(1,2,3) by (simp add: shadow_side_ok_def)
    with lvl True show ?thesis by (simp add: shadow_drop_def)
  next
    case False
    with l(3) card have "card (at_price f s (V p)) = Suc 0" by simp
    then have one: "at_price f s (V p) = {i}" using ip [of "V p"] by (metis card_1_singletonE One_nat_def singletonD)
    then have "V p \<in> V ` set (ss_prices S)" using S(3) by auto
    then obtain p' ps1 ps2 where p': "V p' = V p" and ps: "ss_prices S = ps1 @ p' # ps2" by (metis imageE split_list)
    let ?S = "S\<lparr>ss_levels := Mapping.delete ?k (ss_levels S), ss_prices := ps1 @ ps2\<rparr>"
    have "Amount_String D (bl_price lvl) = ?k" using l(1) by (simp add: String_inj)
    moreover have "Mapping.delete ?k (Mapping.update ?k x m) = Mapping.delete ?k m" for x and m :: "(string, 'd bookLevel) mapping"
      by transfer auto
    moreover have "sort_search (length (ps1 @ p' # ps2)) (\<lambda>i. \<not> shadow_better D s ((ps1 @ p' # ps2) ! i) (bl_price lvl)) = length ps1"
      using S(2) ps l(1) p' by (intro shadow_search_level) simp_all
    ultimately have "shadow_drop D (Some ?k) S = Inr ?S"
      using False lvl S(1) l(1) p' ps by (simp add: shadow_drop_def Let_def slice_delete_def)
    moreover have "sorted_wrt (val_better val (side_of s)) (ps1 @ ps2)" using S(2) ps by (simp add: sorted_wrt_append)
    moreover have "V ` set (ps1 @ ps2) = {v. at_price ?f s v \<noteq> {}}"
    proof -
      have "V p \<notin> V ` set (ps1 @ ps2)" using S(2) ps p' by (auto simp: sorted_wrt_append val_better_def split: if_splits)
      moreover have "insert (V p) (V ` set (ps1 @ ps2)) = {v. at_price f s v \<noteq> {}}" using S(3) ps p' by auto
      moreover have "{v. at_price ?f s v \<noteq> {}} = {v. at_price f s v \<noteq> {}} - {V p}" using ip one unfolding at by auto
      ultimately show ?thesis by (metis Diff_insert_absorb)
    qed
    moreover have "level_ok val ?f s (V a) (Mapping.lookup (Mapping.delete ?k (ss_levels S)) (Amount_String D a))" for a
      using S(4) [of a] other [of a] one by (cases "V a = V p") (simp_all add: String_inj level_ok_def at)
    ultimately show ?thesis using S(1) by (simp add: shadow_side_ok_def)
  qed
qed

section \<open>The operations of a book\<close>

lemma shadow_okD:
  assumes "shadow_ok D val b"
  shows "finite (dom (book_view val b))" "Mapping.lookup (sk_orders b) i = Some x \<Longrightarrow> shadow_order_ok D val x"
    "s \<in> {md_Buy, md_Sell} \<Longrightarrow> shadow_side_ok D val (shadow_sideOf b s) (book_view val b) s"
  using assms by (auto simp: shadow_ok_def)

text \<open>A side, the map of the orders and the view change together.\<close>

lemma shadow_ok_change:
  assumes ok: "shadow_ok D val b" and s: "s \<in> {md_Buy, md_Sell}" and S: "shadow_side_ok D val S (book_view val b') s"
    and b': "b' = (set_shadow_side b s S)\<lparr>sk_orders := m\<rparr>"
    and view: "book_view val b' = (book_view val b)(i := z)"
    and old: "book_view val b i = None \<or> (\<exists>v r. book_view val b i = Some (s, v, r))" and new: "z = None \<or> (\<exists>v r. z = Some (s, v, r))"
    and orders: "\<And>j x. Mapping.lookup m j = Some x \<Longrightarrow> j \<noteq> i \<Longrightarrow> Mapping.lookup (sk_orders b) j = Some x"
    and mine: "\<And>x. Mapping.lookup m i = Some x \<Longrightarrow> shadow_order_ok D val x"
  shows "shadow_ok D val b'"
proof -
  have fin: "finite (dom (book_view val b'))" using shadow_okD(1) [OF ok] by (cases z) (simp_all add: view)
  have "shadow_order_ok D val x" if "Mapping.lookup (sk_orders b') j = Some x" for j x
    using that mine [of x] orders [of j x] shadow_okD(2) [OF ok, of j x] by (cases "j = i") (simp_all add: b')
  moreover have "shadow_side_ok D val (shadow_sideOf b t) (book_view val b') t" if "t \<in> {md_Buy, md_Sell}" "s \<noteq> t" for t
    unfolding view using other_side [of s t "book_view val b" i z D val "shadow_sideOf b t"] that old new shadow_okD(3) [OF ok that(1)] by simp
  ultimately show ?thesis using S s fin
    by (auto simp: shadow_ok_def b' set_shadow_side_def shadow_sideOf_def)
qed

lemma md_valid_iff: "md_valid s \<longleftrightarrow> s \<in> {md_Buy, md_Sell}"
  by (simp add: md_valid_def)

text \<open>An order that is new and has a price and a quantity is added, any other is refused.\<close>

lemma shadow_add_ok:
  assumes ok: "shadow_ok D val b"
  shows "so_ID r \<noteq> [] \<and> md_valid (so_Side r) \<and> 0 < V (so_Price r) \<and> 0 < V (so_Remaining r) \<and> book_view val b (so_ID r) = None \<Longrightarrow>
      \<exists>b'. shadow_add D b r = Inr b' \<and> shadow_ok D val b' \<and> sk_seq b' = sk_seq b \<and> sk_market b' = sk_market b \<and>
        book_view val b' = (book_view val b)(so_ID r \<mapsto> (so_Side r, V (so_Price r), V (so_Remaining r)))"
    and "shadow_add D b r = Inr b1 \<Longrightarrow>
      so_ID r \<noteq> [] \<and> md_valid (so_Side r) \<and> 0 < V (so_Price r) \<and> 0 < V (so_Remaining r) \<and> book_view val b (so_ID r) = None"
proof -
  let ?i = "so_ID r" and ?s = "so_Side r" and ?f = "book_view val b"
  let ?x = "\<lparr>bo_id = ?i, bo_side = ?s, bo_price = so_Price r, bo_remaining = so_Remaining r, bo_level = None\<rparr>"
  assume r: "?i \<noteq> [] \<and> md_valid ?s \<and> 0 < V (so_Price r) \<and> 0 < V (so_Remaining r) \<and> ?f ?i = None"
  then have s: "?s \<in> {md_Buy, md_Sell}" by (simp add: md_valid_iff)
  obtain S where S: "shadow_insert D (shadow_sideOf b ?s) ?x = (S, ?x\<lparr>bo_level := Some (Amount_String D (so_Price r))\<rparr>)"
    "shadow_side_ok D val S (?f(?i \<mapsto> (?s, V (so_Price r), V (so_Remaining r)))) ?s"
    using shadow_insert_ok [OF shadow_okD(3) [OF ok s] shadow_okD(1) [OF ok], of ?i ?x] r by auto
  let ?b = "(set_shadow_side b ?s S)\<lparr>sk_orders := Mapping.update ?i (?x\<lparr>bo_level := Some (Amount_String D (so_Price r))\<rparr>) (sk_orders b)\<rparr>"
  have add: "shadow_add D b r = Inr ?b" using r S(1) by (simp add: shadow_add_def book_view_def)
  have view: "book_view val ?b = ?f(?i \<mapsto> (?s, V (so_Price r), V (so_Remaining r)))" by simp
  have "shadow_ok D val ?b"
    by (rule shadow_ok_change [OF ok s _ refl view])
      (use r S(2) in \<open>auto simp: lookup_update' shadow_order_ok_def split: if_splits\<close>)
  with add view show "\<exists>b'. shadow_add D b r = Inr b' \<and> shadow_ok D val b' \<and> sk_seq b' = sk_seq b \<and> sk_market b' = sk_market b \<and>
      book_view val b' = ?f(?i \<mapsto> (?s, V (so_Price r), V (so_Remaining r)))" by simp
next
  assume "shadow_add D b r = Inr b1"
  then show "so_ID r \<noteq> [] \<and> md_valid (so_Side r) \<and> 0 < V (so_Price r) \<and> 0 < V (so_Remaining r) \<and> book_view val b (so_ID r) = None"
    by (auto simp: shadow_add_def book_view_def split: if_splits)
qed

lemma book_view_Some:
  assumes "shadow_ok D val b" and "book_view val b i = Some (s, v, q)"
  obtains x where "Mapping.lookup (sk_orders b) i = Some x" "bo_side x = s" "V (bo_price x) = v" "V (bo_remaining x) = q"
    "bo_level x = Some (Amount_String D (bo_price x))" "s \<in> {md_Buy, md_Sell}" "0 < v" "0 < q"
  using assms shadow_okD(2) [OF assms(1), of i] by (auto simp: book_view_def shadow_order_ok_def md_valid_iff)

text \<open>The order leaves its side; \<open>b1\<close> is the book with its quantity off the level.\<close>

lemma shadow_leave_ok:
  assumes ok: "shadow_ok D val b" and x: "Mapping.lookup (sk_orders b) i = Some x"
    and S: "shadow_side_ok D val S ((book_view val b)(i \<mapsto> (bo_side x, V (bo_price x), 0))) (bo_side x)"
    and y: "bo_side y = bo_side x" "bo_level y = bo_level x"
    and b1: "b1 = set_shadow_side b (bo_side x) S \<or> b1 = (set_shadow_side b (bo_side x) S)\<lparr>sk_orders := Mapping.update i y (sk_orders b)\<rparr>"
  shows "\<exists>b'. shadow_leave D b1 i y = Inr b' \<and> shadow_ok D val b' \<and> sk_seq b' = sk_seq b \<and> sk_market b' = sk_market b \<and>
    book_view val b' = (book_view val b)(i := None)"
proof -
  let ?f = "book_view val b"
  have o: "shadow_order_ok D val x" using shadow_okD(2) [OF ok x] .
  then have s: "bo_side x \<in> {md_Buy, md_Sell}" by (simp add: shadow_order_ok_def md_valid_iff)
  have fi: "?f i = Some (bo_side x, V (bo_price x), V (bo_remaining x))" using x by (simp add: book_view_def)
  from shadow_drop_ok [OF S, of i "bo_price x"] shadow_okD(1) [OF ok] obtain S' where
    S': "shadow_drop D (Some (Amount_String D (bo_price x))) S = Inr S'" "shadow_side_ok D val S' (?f(i := None)) (bo_side x)" by auto
  let ?b = "(set_shadow_side b (bo_side x) S')\<lparr>sk_orders := Mapping.delete i (sk_orders b)\<rparr>"
  have del: "Mapping.delete i (Mapping.update i y m) = Mapping.delete i m" for m :: "(string, 'd bookOrder) mapping" by transfer auto
  have lv: "bo_level x = Some (Amount_String D (bo_price x))" using o by (simp add: shadow_order_ok_def)
  have "shadow_leave D b1 i y = Inr ?b" using b1
  proof
    assume "b1 = set_shadow_side b (bo_side x) S"
    then show ?thesis using S'(1) by (simp add: shadow_leave_def y lv)
  next
    assume "b1 = (set_shadow_side b (bo_side x) S)\<lparr>sk_orders := Mapping.update i y (sk_orders b)\<rparr>"
    then show ?thesis using S'(1) by (simp add: shadow_leave_def y lv del)
  qed
  moreover have view: "book_view val ?b = ?f(i := None)" by simp
  moreover have "shadow_ok D val ?b"
    by (rule shadow_ok_change [OF ok s _ refl view]) (use S'(2) fi in \<open>auto split: if_splits\<close>)
  ultimately show ?thesis by simp
qed

lemma shadow_reduce_ok:
  assumes ok: "shadow_ok D val b" and i: "book_view val b i = Some (s, v, r)" and q: "0 < V q" "V q \<le> r"
  shows "\<exists>b'. shadow_reduce D b i q = Inr b' \<and> shadow_ok D val b' \<and> sk_seq b' = sk_seq b \<and> sk_market b' = sk_market b \<and>
    book_view val b' = (book_view val b)(i := if V q = r then None else Some (s, v, r - V q))"
proof -
  let ?f = "book_view val b"
  obtain x where x: "Mapping.lookup (sk_orders b) i = Some x" "bo_side x = s" "V (bo_price x) = v" "V (bo_remaining x) = r"
    "bo_level x = Some (Amount_String D (bo_price x))" and s: "s \<in> {md_Buy, md_Sell}" and pos: "0 < v" "0 < r"
    using ok i by (rule book_view_Some)
  obtain S where S: "level_less D q (Some (Amount_String D (bo_price x))) (shadow_sideOf b s) = Inr S"
    "shadow_side_ok D val S (?f(i \<mapsto> (s, v, r - V q))) s"
    using level_less_ok [OF shadow_okD(3) [OF ok s] shadow_okD(1) [OF ok], of i "bo_price x" r q] i x(3) by auto
  let ?x = "x\<lparr>bo_remaining := Amount_Sub D (bo_remaining x) q\<rparr>"
  let ?b = "(set_shadow_side b s S)\<lparr>sk_orders := Mapping.update i ?x (sk_orders b)\<rparr>"
  have red: "shadow_reduce D b i q = (if V q = r then shadow_leave D ?b i ?x else Inr ?b)"
    using x q S(1) by (simp add: shadow_reduce_def Let_def not_less)
  show ?thesis
  proof (cases "V q = r")
    case True
    with shadow_leave_ok [OF ok x(1), of S ?x ?b] S(2) x red show ?thesis by simp
  next
    case False
    have view: "book_view val ?b = ?f(i \<mapsto> (s, v, r - V q))" using x by simp
    have "shadow_ok D val ?b"
      by (rule shadow_ok_change [OF ok s _ refl view])
        (use S(2) view i x s pos q False in \<open>auto simp: lookup_update' shadow_order_ok_def md_valid_iff split: if_splits\<close>)
    with False red view show ?thesis by simp
  qed
qed

lemma shadow_reduce_error:
  assumes "shadow_reduce D b i q = Inr b'"
  shows "\<exists>s v r. book_view val b i = Some (s, v, r) \<and> 0 < V q \<and> V q \<le> r"
  using assms by (auto simp: shadow_reduce_def book_view_def not_less split: option.splits if_splits)

lemma shadow_remove_ok:
  assumes ok: "shadow_ok D val b" and i: "book_view val b i = Some (s, v, r)"
  shows "\<exists>b'. shadow_remove D b i = Inr b' \<and> shadow_ok D val b' \<and> sk_seq b' = sk_seq b \<and> sk_market b' = sk_market b \<and>
    book_view val b' = (book_view val b)(i := None)"
proof -
  let ?f = "book_view val b"
  obtain x where x: "Mapping.lookup (sk_orders b) i = Some x" "bo_side x = s" "V (bo_price x) = v" "V (bo_remaining x) = r"
    "bo_level x = Some (Amount_String D (bo_price x))" and s: "s \<in> {md_Buy, md_Sell}" and pos: "0 < v" "0 < r"
    using ok i by (rule book_view_Some)
  obtain S where S: "level_less D (bo_remaining x) (Some (Amount_String D (bo_price x))) (shadow_sideOf b s) = Inr S"
    "shadow_side_ok D val S (?f(i \<mapsto> (s, v, 0))) s"
    using level_less_ok [OF shadow_okD(3) [OF ok s] shadow_okD(1) [OF ok], of i "bo_price x" r "bo_remaining x"] i x(3,4) by auto
  have "shadow_remove D b i = shadow_leave D (set_shadow_side b s S) i x" using x S(1) by (simp add: shadow_remove_def)
  with shadow_leave_ok [OF ok x(1), of S x "set_shadow_side b s S"] S(2) x show ?thesis by simp
qed

section \<open>What is read from a book\<close>

lemma levelAt_ok:
  assumes "shadow_ok D val b" and "s \<in> {md_Buy, md_Sell}"
  shows "V (ls_qty (levelAt D b s p)) = level_total (book_view val b) s (V p)"
    and "ls_orders (levelAt D b s p) = int (card (at_price (book_view val b) s (V p)))"
  using shadow_side_okD(4) [OF shadow_okD(3) [OF assms], of p]
  by (auto simp: levelAt_def level_ok_def level_total_def split: option.splits)

lemma shadow_Best_ok:
  assumes ok: "shadow_ok D val b" and s: "s \<in> {md_Buy, md_Sell}"
  shows "case shadow_Best b s of
      None \<Rightarrow> \<forall>v. at_price (book_view val b) s v = {}
    | Some p \<Rightarrow> at_price (book_view val b) s (V p) \<noteq> {} \<and>
        (\<forall>v. at_price (book_view val b) s v \<noteq> {} \<longrightarrow> v = V p \<or> (if s = md_Buy then v < V p else V p < v))"
proof -
  note S = shadow_side_okD [OF shadow_okD(3) [OF ok s]]
  show ?thesis
  proof (cases "ss_prices (shadow_sideOf b s)")
    case Nil
    with S(3) show ?thesis by (auto simp: shadow_Best_def)
  next
    case (Cons p ps)
    have set: "insert (V p) (V ` set ps) = {v. at_price (book_view val b) s v \<noteq> {}}" using S(3) Cons by simp
    have "val_better val (side_of s) p q" if "q \<in> set ps" for q using S(2) Cons that by simp
    then have "\<forall>v \<in> V ` set ps. if s = md_Buy then v < V p else V p < v" by (auto simp: val_better_def side_of_def split: if_splits)
    with set Cons show ?thesis unfolding shadow_Best_def by auto
  qed
qed

end

end
