(* ===== verification/Shadow_Deltas.thy ===== *)
theory Shadow_Deltas
  imports Shadow_Props
begin

text \<open>
  What a delta says. \<open>touched_ok\<close> is the invariant of closing a command: the levels it has touched carry
  their totals from before, and the others have not changed. From it the delta of a command takes a
  client's copy of the levels from the book before to the book after (\<open>copy_ok\<close>), and a live projector
  emits one delta per command, with consecutive sequence numbers (\<open>tracks\<close>).
\<close>

section \<open>Touched levels\<close>

lemma elsewhere:
  assumes "f i = None \<or> (\<exists>r. f i = Some (s, v, r))" and "z = None \<or> (\<exists>r. z = Some (s, v, r))" and "s' \<noteq> s \<or> v' \<noteq> v"
  shows "at_price (f(i := z)) s' v' = at_price f s' v'" "level_total (f(i := z)) s' v' = level_total f s' v'"
proof -
  show at: "at_price (f(i := z)) s' v' = at_price f s' v'" using assms by (auto simp: at_price_def)
  show "level_total (f(i := z)) s' v' = level_total f s' v'"
    by (rule level_total_cong [OF _ at]) (use assms in \<open>auto simp: at_price_def\<close>)
qed

lemma key_inj: "md_valid s \<Longrightarrow> md_valid t \<Longrightarrow> s @ ''|'' @ k = t @ ''|'' @ l \<longleftrightarrow> s = t \<and> k = l"
  by (auto simp: md_valid_def md_Buy_def md_Sell_def)

definition touched_at :: "('d \<Rightarrow> rat) \<Rightarrow> 'd touchedLevel list \<Rightarrow> string \<Rightarrow> rat \<Rightarrow> bool" where
  "touched_at val ts s v \<longleftrightarrow> (\<exists>t \<in> set ts. tl_side t = s \<and> amt_val val (tl_price t) = v)"

definition touched_ok :: "'d decimal_pkg \<Rightarrow> ('d \<Rightarrow> rat) \<Rightarrow> view \<Rightarrow> view \<Rightarrow> 'd touchedLevel list \<Rightarrow> bool" where
  "touched_ok D val f0 f ts \<longleftrightarrow>
     distinct (map tl_key ts) \<and>
     (\<forall>t \<in> set ts. md_valid (tl_side t) \<and> tl_key t = tl_side t @ ''|'' @ Amount_String D (tl_price t) \<and>
        amt_val val (ls_qty (tl_before t)) = level_total f0 (tl_side t) (amt_val val (tl_price t))) \<and>
     (\<forall>s v. \<not> touched_at val ts s v \<longrightarrow> level_total f s v = level_total f0 s v)"

text \<open>Everything an order has left is positive, so that a level without a total has no orders.\<close>

definition positive_view :: "view \<Rightarrow> bool" where
  "positive_view f \<longleftrightarrow> finite (dom f) \<and> (\<forall>i s v r. f i = Some (s, v, r) \<longrightarrow> 0 < r)"

lemma level_total_zero: "positive_view f \<Longrightarrow> level_total f s v = 0 \<longleftrightarrow> at_price f s v = {}"
proof -
  assume p: "positive_view f"
  then have fin: "finite (at_price f s v)" by (simp add: positive_view_def)
  have pos: "0 < left_at f i" if "i \<in> at_price f s v" for i
    using p that by (auto simp: at_price_def left_at_def positive_view_def)
  show ?thesis
  proof (cases "at_price f s v = {}")
    case True
    then show ?thesis by (simp add: level_total_def)
  next
    case False
    then have "0 < level_total f s v" unfolding level_total_def using fin pos by (intro sum_pos) auto
    with False show ?thesis by simp
  qed
qed

lemma insert_by_mset: "mset (insert_by lt x xs) = add_mset x (mset xs)"
  by (induction xs) auto

lemma sort_slice_mset: "mset (sort_slice lt xs) = mset xs"
  by (induction xs) (simp_all add: sort_slice_def insert_by_mset)

lemma sort_slice_set [simp]: "set (sort_slice lt xs) = set xs"
  by (rule mset_eq_setD [OF sort_slice_mset])

lemma sort_slice_distinct [simp]: "distinct (map g (sort_slice lt xs)) = distinct (map g xs)"
proof (rule mset_eq_imp_distinct_iff)
  show "mset (map g (sort_slice lt xs)) = mset (map g xs)" by (simp only: mset_map sort_slice_mset)
qed

context decimal
begin

lemma positive_shadow: "shadow_ok D val b \<Longrightarrow> positive_view (book_view val b)"
  using shadow_okD(1,2) [of b] by (fastforce simp: positive_view_def book_view_def shadow_order_ok_def)

lemma touched_start: "touched_ok D val f f []"
  by (simp add: touched_ok_def)

lemma touch_ok:
  assumes t: "touched_ok D val f0 (book_view val b) ts" and ok: "shadow_ok D val b" and s: "md_valid s"
  shows "touched_ok D val f0 (book_view val b) (touch D b s p ts)" "touched_at val (touch D b s p ts) s (V p)"
    "touched_at val ts s' v \<Longrightarrow> touched_at val (touch D b s p ts) s' v"
proof -
  let ?k = "s @ ''|'' @ Amount_String D p"
  note T = t [unfolded touched_ok_def]
  have key: "tl_key t = ?k \<longleftrightarrow> tl_side t = s \<and> V (tl_price t) = V p" if "t \<in> set ts" for t
    using T that s key_inj [of "tl_side t" s] by (simp add: String_inj)
  show "touched_ok D val f0 (book_view val b) (touch D b s p ts)"
  proof (cases "\<exists>t \<in> set ts. tl_key t = ?k")
    case True
    with t show ?thesis by (simp add: touch_def)
  next
    case False
    then have "\<not> touched_at val ts s (V p)" using key by (auto simp: touched_at_def)
    with T have "level_total (book_view val b) s (V p) = level_total f0 s (V p)" by blast
    then have "V (ls_qty (levelAt D b s p)) = level_total f0 s (V p)"
      using levelAt_ok(1) [OF ok] s by (simp add: md_valid_iff)
    with T False s show ?thesis by (auto simp: touch_def touched_ok_def touched_at_def Let_def)
  qed
  show "touched_at val (touch D b s p ts) s (V p)" using key by (auto simp: touch_def touched_at_def Let_def)
  show "touched_at val ts s' v \<Longrightarrow> touched_at val (touch D b s p ts) s' v" by (auto simp: touch_def touched_at_def Let_def)
qed

text \<open>An order at a touched level changes.\<close>

lemma touched_change:
  assumes t: "touched_ok D val f0 f ts" and "touched_at val ts s v"
    and "f i = None \<or> (\<exists>r. f i = Some (s, v, r))" and "z = None \<or> (\<exists>r. z = Some (s, v, r))"
  shows "touched_ok D val f0 (f(i := z)) ts"
proof -
  have "level_total (f(i := z)) s' v' = level_total f s' v'" if "\<not> touched_at val ts s' v'" for s' v'
    using elsewhere(2) [of f i s v z s' v'] that assms(2-4) by auto
  with t show ?thesis by (simp add: touched_ok_def)
qed

text \<open>What one operation on an order at a touched level keeps.\<close>

definition keeps :: "view \<Rightarrow> 'd ShadowBook \<Rightarrow> 'd ShadowBook \<Rightarrow> 'd touchedLevel list \<Rightarrow> bool" where
  "keeps f0 b b' ts \<longleftrightarrow> shadow_ok D val b' \<and> sk_seq b' = sk_seq b \<and> sk_market b' = sk_market b \<and> touched_ok D val f0 (book_view val b') ts"

lemma keeps_shadow_trans: "keeps f0 a b ts \<Longrightarrow> keeps f0 b c us \<Longrightarrow> keeps f0 a c us"
  by (simp add: keeps_def)

lemma keeps_add:
  assumes ok: "shadow_ok D val b" and t: "touched_ok D val f0 (book_view val b) ts" and r: "shadow_add D b r = Inr b'"
  shows "keeps f0 b b' (touch D b (so_Side r) (so_Price r) ts)"
proof -
  note n = shadow_add_ok(2) [OF ok r]
  from shadow_add_ok(1) [OF ok n] r have b': "shadow_ok D val b'" "sk_seq b' = sk_seq b" "sk_market b' = sk_market b"
    "book_view val b' = (book_view val b)(so_ID r \<mapsto> (so_Side r, V (so_Price r), V (so_Remaining r)))" by auto
  have "touched_ok D val f0 ((book_view val b)(so_ID r \<mapsto> (so_Side r, V (so_Price r), V (so_Remaining r)))) (touch D b (so_Side r) (so_Price r) ts)"
    using n by (intro touched_change [OF touch_ok(1,2) [OF t ok]]) auto
  with b' show ?thesis by (simp add: keeps_def)
qed

lemma keeps_reduce:
  assumes ok: "shadow_ok D val b" and t: "touched_ok D val f0 (book_view val b) ts" and r: "shadow_reduce D b i q = Inr b'"
    and x: "Mapping.lookup (sk_orders b) i = Some x"
  shows "keeps f0 b b' (touch D b (bo_side x) (bo_price x) ts)"
proof -
  from shadow_reduce_error [OF r] x have f: "book_view val b i = Some (bo_side x, V (bo_price x), V (bo_remaining x))"
    and q: "0 < V q" "V q \<le> V (bo_remaining x)" by (auto simp: book_view_def)
  have s: "md_valid (bo_side x)" using shadow_okD(2) [OF ok x] by (simp add: shadow_order_ok_def)
  from shadow_reduce_ok [OF ok f q] r have b': "shadow_ok D val b'" "sk_seq b' = sk_seq b" "sk_market b' = sk_market b"
    "book_view val b' = (book_view val b)(i := if V q = V (bo_remaining x) then None else Some (bo_side x, V (bo_price x), V (bo_remaining x) - V q))" by auto
  have "touched_ok D val f0 ((book_view val b)(i := if V q = V (bo_remaining x) then None else Some (bo_side x, V (bo_price x), V (bo_remaining x) - V q)))
      (touch D b (bo_side x) (bo_price x) ts)"
    using f by (intro touched_change [OF touch_ok(1,2) [OF t ok s]]) auto
  with b' show ?thesis by (simp add: keeps_def)
qed

lemma keeps_remove:
  assumes ok: "shadow_ok D val b" and t: "touched_ok D val f0 (book_view val b) ts" and r: "shadow_remove D b i = Inr b'"
    and x: "Mapping.lookup (sk_orders b) i = Some x"
  shows "keeps f0 b b' (touch D b (bo_side x) (bo_price x) ts)"
proof -
  have f: "book_view val b i = Some (bo_side x, V (bo_price x), V (bo_remaining x))" using x by (simp add: book_view_def)
  have s: "md_valid (bo_side x)" using shadow_okD(2) [OF ok x] by (simp add: shadow_order_ok_def)
  from shadow_remove_ok [OF ok f] r have b': "shadow_ok D val b'" "sk_seq b' = sk_seq b" "sk_market b' = sk_market b"
    "book_view val b' = (book_view val b)(i := None)" by auto
  have "touched_ok D val f0 ((book_view val b)(i := None)) (touch D b (bo_side x) (bo_price x) ts)"
    using f by (intro touched_change [OF touch_ok(1,2) [OF t ok s]]) auto
  with b' show ?thesis by (simp add: keeps_def)
qed

lemma try_op_None: "try_op b ts r = (b', ts', None) \<longleftrightarrow> r = Inr b' \<and> ts' = ts"
  by (auto simp: try_op_def split: sum.splits)

lemma applyEvent_keeps:
  assumes ok: "shadow_ok D val b" and t: "touched_ok D val f0 (book_view val b) ts" and run: "applyEvent D tk e b ts = (b', ts', None)"
  shows "keeps f0 b b' ts'"
proof -
  have same: "keeps f0 b b ts" using ok t by (simp add: keeps_def)
  have "apply_accepted D e b ts = (b', ts', None) \<or> apply_trade D e b ts = (b', ts', None) \<or> apply_updated D e b ts = (b', ts', None) \<or>
      apply_filled D e b ts = (b', ts', None) \<or> apply_cancelled D tk e b ts = (b', ts', None) \<or> b' = b \<and> ts' = ts"
    using run unfolding applyEvent_def by (metis prod.inject)
  then consider (accepted) "apply_accepted D e b ts = (b', ts', None)" | (trade) "apply_trade D e b ts = (b', ts', None)"
    | (updated) "apply_updated D e b ts = (b', ts', None)" | (filled) "apply_filled D e b ts = (b', ts', None)"
    | (cancelled) "apply_cancelled D tk e b ts = (b', ts', None)" | (other) "b' = b" "ts' = ts"
    by blast
  then show ?thesis
  proof cases
    case accepted
    then show ?thesis using same
      by (auto simp: apply_accepted_def try_op_None split: sum.splits option.splits if_splits dest!: keeps_add [OF ok t])
  next
    case trade
    then obtain tr maker b1 where dec: "decode_trade D e = Inr tr" and m: "Mapping.lookup (sk_orders b) (jt_MakerOrderID tr) = Some maker"
      and r: "shadow_reduce D b (jt_MakerOrderID tr) (jt_Qty tr) = Inr b1"
      by (auto simp: apply_trade_def Let_def split: sum.splits option.splits)
    note k = keeps_reduce [OF ok t r m]
    show ?thesis
    proof (cases "Mapping.lookup (sk_orders b1) (jt_TakerOrderID tr)")
      case None
      with trade dec m r k show ?thesis by (simp add: apply_trade_def Let_def)
    next
      case (Some taker)
      with trade dec m r have r2: "shadow_reduce D b1 (jt_TakerOrderID tr) (jt_Qty tr) = Inr b'"
        and ts': "ts' = touch D b1 (bo_side taker) (bo_price taker) (touch D b (bo_side maker) (bo_price maker) ts)"
        by (auto simp: apply_trade_def Let_def try_op_None)
      from k have "shadow_ok D val b1" "touched_ok D val f0 (book_view val b1) (touch D b (bo_side maker) (bo_price maker) ts)"
        by (simp_all add: keeps_def)
      from keeps_reduce [OF this r2 Some] have "keeps f0 b1 b' ts'" by (simp add: ts')
      with k show ?thesis by (rule keeps_shadow_trans)
    qed
  next
    case updated
    with same show ?thesis by (auto simp: apply_updated_def split: sum.splits option.splits if_splits)
  next
    case filled
    with same show ?thesis by (auto simp: apply_filled_def split: sum.splits if_splits)
  next
    case cancelled
    then show ?thesis using same keeps_remove [OF ok t]
      by (auto simp: apply_cancelled_def try_op_None split: sum.splits option.splits if_splits)
  next
    case other
    with same show ?thesis by simp
  qed
qed

lemma apply_events_keeps:
  assumes "shadow_ok D val b" and "touched_ok D val f0 (book_view val b) ts" and "apply_events D tk es b ts = (b', ts', None)"
  shows "keeps f0 b b' ts'"
  using assms
proof (induction es arbitrary: b ts)
  case Nil
  then show ?case by (simp add: keeps_def)
next
  case (Cons e es)
  then obtain b1 ts1 where e: "applyEvent D tk e b ts = (b1, ts1, None)" and es: "apply_events D tk es b1 ts1 = (b', ts', None)"
    by (auto split: prod.splits option.splits)
  note k = applyEvent_keeps [OF Cons.prems(1,2) e]
  with Cons.IH [OF _ _ es] show ?case by (auto simp: keeps_def)
qed

section \<open>A client's copy\<close>

text \<open>A copy of the levels of a side by the text of their price: the totals that are not zero.\<close>

definition copy_ok :: "view \<Rightarrow> string \<Rightarrow> (string, 'd amount) mapping \<Rightarrow> bool" where
  "copy_ok f s m \<longleftrightarrow>
     (\<forall>p. map_option V (Mapping.lookup m (Amount_String D p)) =
        (if level_total f s (V p) = 0 then None else Some (level_total f s (V p)))) \<and>
     (\<forall>k. k \<notin> range (Amount_String D) \<longrightarrow> Mapping.lookup m k = None)"

lemma apply_levels_other:
  "\<forall>l \<in> set ls. Amount_String D (pl_Price l) \<noteq> k \<Longrightarrow> Mapping.lookup (apply_levels D ls m) k = Mapping.lookup m k"
  by (induction ls arbitrary: m) (auto simp: apply_levels_def lookup_update')

lemma apply_levels_level:
  "distinct (map (V \<circ> pl_Price) ls) \<Longrightarrow> l \<in> set ls \<Longrightarrow>
     Mapping.lookup (apply_levels D ls m) (Amount_String D (pl_Price l)) = (if V (pl_Qty l) = 0 then None else Some (pl_Qty l))"
proof (induction ls arbitrary: m)
  case (Cons a ls)
  let ?m = "if Amount_IsZero D (pl_Qty a) then Mapping.delete (Amount_String D (pl_Price a)) m else Mapping.update (Amount_String D (pl_Price a)) (pl_Qty a) m"
  have step: "apply_levels D (a # ls) m = apply_levels D ls ?m" by (simp add: apply_levels_def)
  show ?case
  proof (cases "l \<in> set ls")
    case True
    with Cons show ?thesis unfolding step by simp
  next
    case False
    with Cons.prems have l: "l = a" by simp
    have "\<forall>x \<in> set ls. Amount_String D (pl_Price x) \<noteq> Amount_String D (pl_Price a)"
      using Cons.prems(1) by (auto simp: String_inj image_iff)
    from apply_levels_other [OF this, of ?m] show ?thesis unfolding step l by (simp add: lookup_update')
  qed
qed simp

text \<open>The levels of a delta are the touched ones of its side whose total has changed, each once.\<close>

lemma delta_levels_prices:
  assumes t: "touched_ok D val f0 f ts" and one: "\<forall>t \<in> set ts'. tl_side t = s" and sub: "ts' = filter P ts"
  shows "distinct (map (V \<circ> pl_Price) (delta_levels D b ts'))"
proof -
  have "distinct (map tl_key ts')" using t unfolding sub touched_ok_def by (simp add: distinct_map_filter)
  moreover have "tl_key t = s @ ''|'' @ Amount_String D (tl_price t)" if "t \<in> set ts'" for t
    using t that one by (auto simp: touched_ok_def sub)
  ultimately have "distinct (map (V \<circ> tl_price) ts')"
    by (auto simp: distinct_map inj_on_def String_inj)
  then show ?thesis by (simp add: delta_levels_def comp_def distinct_map_filter)
qed

lemma delta_side:
  assumes ok0: "positive_view f0" and ok: "shadow_ok D val b" and t: "touched_ok D val f0 (book_view val b) ts"
    and s: "s \<in> {md_Buy, md_Sell}" and P: "\<forall>t \<in> set ts. P t \<longleftrightarrow> tl_side t = s" and c: "copy_ok f0 s m"
  shows "copy_ok (book_view val b) s (apply_levels D (sort_slice lt (delta_levels D b (filter P ts))) m)"
proof -
  let ?f = "book_view val b" and ?ls = "sort_slice lt (delta_levels D b (filter P ts))"
  note T = t [unfolded touched_ok_def]
  have one: "\<forall>t \<in> set (filter P ts). tl_side t = s" using P by auto
  note dist = delta_levels_prices [OF t one refl, of b]
  have now: "V (ls_qty (levelAt D b s p)) = level_total ?f s (V p)" for p by (rule levelAt_ok(1) [OF ok s])
  have ls: "l \<in> set ?ls \<longleftrightarrow> (\<exists>t \<in> set ts. tl_side t = s \<and> l = \<lparr>pl_Price = tl_price t, pl_Qty = ls_qty (levelAt D b s (tl_price t))\<rparr> \<and>
      level_total ?f s (V (tl_price t)) \<noteq> level_total f0 s (V (tl_price t)))" for l
  proof -
    have "t \<in> set ts \<and> P t \<and> \<not> Amount_Equal D (ls_qty (levelAt D b (tl_side t) (tl_price t))) (ls_qty (tl_before t)) \<and>
        l = \<lparr>pl_Price = tl_price t, pl_Qty = ls_qty (levelAt D b (tl_side t) (tl_price t))\<rparr> \<longleftrightarrow>
      t \<in> set ts \<and> tl_side t = s \<and> l = \<lparr>pl_Price = tl_price t, pl_Qty = ls_qty (levelAt D b s (tl_price t))\<rparr> \<and>
        level_total ?f s (V (tl_price t)) \<noteq> level_total f0 s (V (tl_price t))" for t
    proof (cases "t \<in> set ts \<and> tl_side t = s")
      case True
      with T have "V (ls_qty (tl_before t)) = level_total f0 s (V (tl_price t))" by blast
      with True P show ?thesis by (simp add: now conj_commute)
    qed (use P in blast)
    then show ?thesis unfolding Bex_def by (auto simp: delta_levels_def simp del: V_cmp)
  qed
  have out: "map_option V (Mapping.lookup (apply_levels D ?ls m) (Amount_String D p)) =
      (if level_total ?f s (V p) = 0 then None else Some (level_total ?f s (V p)))" for p
  proof (cases "\<exists>l \<in> set ?ls. V (pl_Price l) = V p")
    case True
    then obtain l where l: "l \<in> set ?ls" "V (pl_Price l) = V p" by blast
    then have "V (pl_Qty l) = level_total ?f s (V p)" using ls [of l] now by auto
    moreover have "Amount_String D p = Amount_String D (pl_Price l)" using l(2) by (simp add: String_inj)
    ultimately show ?thesis using apply_levels_level [OF _ l(1), of m] dist by simp
  next
    case False
    have same: "level_total ?f s (V p) = level_total f0 s (V p)"
    proof (rule ccontr)
      assume d: "level_total ?f s (V p) \<noteq> level_total f0 s (V p)"
      with T have "touched_at val ts s (V p)" by blast
      then obtain t where "t \<in> set ts" "tl_side t = s" "V (tl_price t) = V p" by (auto simp: touched_at_def)
      with d ls [of "\<lparr>pl_Price = tl_price t, pl_Qty = ls_qty (levelAt D b s (tl_price t))\<rparr>"] False show False by force
    qed
    have "\<forall>l \<in> set ?ls. Amount_String D (pl_Price l) \<noteq> Amount_String D p" using False by (simp add: String_inj)
    from apply_levels_other [OF this, of m] c same show ?thesis by (simp add: copy_ok_def)
  qed
  have "Mapping.lookup (apply_levels D ?ls m) k = None" if "k \<notin> range (Amount_String D)" for k
  proof -
    have "\<forall>l \<in> set ?ls. Amount_String D (pl_Price l) \<noteq> k" using that by blast
    from apply_levels_other [OF this, of m] c that show ?thesis by (simp add: copy_ok_def)
  qed
  with out show ?thesis by (simp add: copy_ok_def)
qed

end

end
