(* ===== verification/Shadow_Live.thy ===== *)
theory Shadow_Live
  imports Shadow_Deltas
begin

text \<open>
  A live projector. Each event it takes keeps \<open>live_ok\<close>, and the deltas it emits lead a client's copy along
  (\<open>tracks\<close>): one delta per command, with the next sequence number.
\<close>

definition live_ok :: "'d decimal_pkg \<Rightarrow> ('d \<Rightarrow> rat) \<Rightarrow> 'd BookProjector \<Rightarrow> bool" where
  "live_ok D val p \<longleftrightarrow>
     bp_state p = Live \<and> shadow_ok D val (bp_book p) \<and>
     (\<forall>bt. bp_open p = Some bt \<longrightarrow> bt_seq bt = sk_seq (bp_book p) + 1 \<and> sk_seq (bp_book p) < bt_seq bt)"

definition ApplyDeltas :: "'d decimal_pkg \<Rightarrow> 'd Delta list \<Rightarrow> (string, 'd amount) mapping \<times> (string, 'd amount) mapping \<Rightarrow>
    (string, 'd amount) mapping \<times> (string, 'd amount) mapping" where
  "ApplyDeltas D ds c = fold (\<lambda>d (bids, asks). ApplyDelta D bids asks d) ds c"

lemma ApplyDeltas_simps [simp]:
  "ApplyDeltas D [] c = c" "ApplyDeltas D (ds @ es) c = ApplyDeltas D es (ApplyDeltas D ds c)"
  "ApplyDeltas D [d] (bids, asks) = ApplyDelta D bids asks d"
  by (simp_all add: ApplyDeltas_def)

context decimal
begin

definition copies :: "'d ShadowBook \<Rightarrow> (string, 'd amount) mapping \<times> (string, 'd amount) mapping \<Rightarrow> bool" where
  "copies b c \<longleftrightarrow> copy_ok (book_view val b) md_Buy (fst c) \<and> copy_ok (book_view val b) md_Sell (snd c)"

definition tracks :: "'d BookProjector \<Rightarrow> 'd Delta list \<Rightarrow> 'd BookProjector \<Rightarrow> bool" where
  "tracks p ds p' \<longleftrightarrow>
     (\<forall>c. copies (bp_book p) c \<longrightarrow> copies (bp_book p') (ApplyDeltas D ds c)) \<and>
     map dl_Seq ds = map (\<lambda>k. sk_seq (bp_book p) + of_nat (Suc k)) [0..<length ds] \<and>
     sk_seq (bp_book p') = sk_seq (bp_book p) + of_nat (length ds) \<and> bp_market p' = bp_market p"

lemma tracks_refl: "bp_book p' = bp_book p \<Longrightarrow> bp_market p' = bp_market p \<Longrightarrow> tracks p [] p'"
  by (simp add: tracks_def)

lemma tracks_trans:
  assumes "tracks p ds q" and "tracks q es r"
  shows "tracks p (ds @ es) r"
proof -
  have "map dl_Seq es = map (\<lambda>k. sk_seq (bp_book p) + of_nat (Suc (length ds + k))) [0..<length es]"
    using assms by (simp add: tracks_def algebra_simps)
  also have "\<dots> = map (\<lambda>k. sk_seq (bp_book p) + of_nat (Suc k)) [length ds..<length ds + length es]"
    by (rule nth_equalityI) simp_all
  finally have "map dl_Seq (ds @ es) = map (\<lambda>k. sk_seq (bp_book p) + of_nat (Suc k)) ([0..<length ds] @ [length ds..<length ds + length es])"
    using assms(1) unfolding tracks_def map_append by (simp only:)
  then have "map dl_Seq (ds @ es) = map (\<lambda>k. sk_seq (bp_book p) + of_nat (Suc k)) [0..<length (ds @ es)]"
    by (simp only: length_append upt_add_eq_append [OF le0, of "length ds" "length es"] add_0)
  moreover have "copies (bp_book p) c \<longrightarrow> copies (bp_book r) (ApplyDeltas D (ds @ es) c)" for c
    using assms unfolding tracks_def ApplyDeltas_simps by blast
  ultimately show ?thesis using assms by (simp add: tracks_def algebra_simps del: ApplyDeltas_simps)
qed

text \<open>Closing a command: its events are applied and the delta takes every copy along.\<close>

lemma close_batch_ok:
  assumes ok: "shadow_ok D val (bp_book p)" and seq: "bt_seq bt = sk_seq (bp_book p) + 1" and st: "bp_state p = Live"
    and run: "close_batch D bt p = (p', Inr d)"
  shows "live_ok D val p' \<and> tracks p [d] p' \<and> bp_open p' = None"
proof -
  obtain b ts where ev: "apply_events D (bt_takerID bt) (bt_events bt) (bp_book p) [] = (b, ts, None)"
    and p': "p' = p\<lparr>bp_open := None, bp_book := b\<lparr>sk_seq := bt_seq bt\<rparr>\<rparr>"
    and d: "dl_Seq d = bt_seq bt"
      "dl_Bids d = sort_slice (\<lambda>x y. Amount_Cmp D (pl_Price x) (pl_Price y) > 0) (delta_levels D b (filter (\<lambda>t. tl_side t = md_Buy) ts))"
      "dl_Asks d = sort_slice (\<lambda>x y. Amount_Cmp D (pl_Price x) (pl_Price y) < 0) (delta_levels D b (filter (\<lambda>t. tl_side t \<noteq> md_Buy) ts))"
    using run unfolding close_batch_def by (auto split: prod.splits option.splits)
  from apply_events_keeps [OF ok touched_start ev] have k: "shadow_ok D val b" "sk_seq b = sk_seq (bp_book p)"
    "touched_ok D val (book_view val (bp_book p)) (book_view val b) ts" by (simp_all add: keeps_def)
  have sides: "\<forall>t \<in> set ts. tl_side t \<noteq> md_Buy \<longleftrightarrow> tl_side t = md_Sell"
    using k(3) by (auto simp: touched_ok_def md_valid_def)
  note pos = positive_shadow [OF ok]
  have "copies b (apply_levels D (dl_Bids d) (fst c), apply_levels D (dl_Asks d) (snd c))" if "copies (bp_book p) c" for c
    using that delta_side [OF pos k(1,3), of md_Buy "\<lambda>t. tl_side t = md_Buy"] delta_side [OF pos k(1,3), of md_Sell "\<lambda>t. tl_side t \<noteq> md_Buy"] sides
    unfolding copies_def d(2,3) by simp
  then have "copies (bp_book p') (ApplyDeltas D [d] c)" if "copies (bp_book p) c" for c
    using that by (cases c) (fastforce simp: p' ApplyDelta_def copies_def)
  with k(1) d(1) seq st show ?thesis by (simp add: tracks_def live_ok_def p')
qed

lemma closeOne_ok:
  assumes "live_ok D val p" and "closeOne D p = (p', ds, None)"
  shows "live_ok D val p' \<and> tracks p ds p' \<and> bp_open p' = None"
proof -
  from assms(2) obtain bt d where bt: "bp_open p = Some bt" and d: "close_batch D bt p = (p', Inr d)" and ds: "ds = [d]"
    by (auto simp: closeOne_def proj_close_def split: option.splits prod.splits sum.splits)
  from close_batch_ok [OF _ _ _ d] assms(1) bt show ?thesis unfolding ds by (simp add: live_ok_def)
qed

lemma closeOne_new:
  assumes p: "live_ok D val p" and bt: "bt_seq bt = sk_seq (bp_book p) + 1" "sk_seq (bp_book p) < bt_seq bt"
    and run: "closeOne D (p\<lparr>bp_open := Some bt\<rparr>) = (p', ds, None)"
  shows "live_ok D val p' \<and> tracks p ds p'"
proof -
  have "live_ok D val (p\<lparr>bp_open := Some bt\<rparr>)" using p bt by (simp add: live_ok_def)
  from closeOne_ok [OF this run] show ?thesis by (simp add: tracks_def)
qed

lemma append_event_ok:
  assumes "live_ok D val p"
  shows "live_ok D val (append_event e p)" "bp_book (append_event e p) = bp_book p" "bp_market (append_event e p) = bp_market p"
  using assms by (auto simp: live_ok_def append_event_def)

lemma collect_ok:
  assumes p: "live_ok D val p" and run: "collect D e bt prog p = (p', ds, None)"
  shows "live_ok D val p' \<and> tracks p ds p'"
proof (cases "jp_OrderID prog = bt_takerID bt")
  case True
  with run have "closeOne D (append_event e p) = (p', ds, None)" by (simp add: collect_def)
  from closeOne_ok [OF append_event_ok(1) [OF p] this] append_event_ok(2,3) [OF p] show ?thesis by (simp add: tracks_def)
next
  case False
  with run append_event_ok [OF p] show ?thesis by (auto simp: collect_def intro!: tracks_refl)
qed

lemma dispatch_ok:
  assumes p: "live_ok D val p" and seq: "sk_seq (bp_book p) < seq" "bp_open p = None \<Longrightarrow> seq = sk_seq (bp_book p) + 1"
    and run: "proj_dispatch D now e seq p = (p', ds, None)"
  shows "live_ok D val p' \<and> tracks p ds p'"
proof -
  have open_ok: "live_ok D val (p\<lparr>bp_open := Some bt\<rparr>)" if "bt_seq bt = seq" "bp_open p = None" for bt
    using p seq that by (simp add: live_ok_def)
  have same: "tracks p [] (p\<lparr>bp_open := x\<rparr>)" for x by (rule tracks_refl) simp_all
  note new = closeOne_new [OF p]
  have "proj_dispatch D now e seq p \<in> {dispatch_accepted D now e seq p, dispatch_rejected D now e seq p, dispatch_cancelled D now e seq p,
      dispatch_progress D e p, (p, [], Some ErrInconsistent), (append_event e p, [], None), (p, [], None)}"
    by (simp add: proj_dispatch_def)
  with run consider (accepted) "dispatch_accepted D now e seq p = (p', ds, None)" | (rejected) "dispatch_rejected D now e seq p = (p', ds, None)"
    | (cancelled) "dispatch_cancelled D now e seq p = (p', ds, None)" | (progress) "dispatch_progress D e p = (p', ds, None)"
    | (append) "p' = append_event e p" "ds = []" | (other) "p' = p" "ds = []" by auto
  then show ?thesis
  proof cases
    case accepted
    then obtain acc where o: "bp_open p = None" and acc: "decode_accepted D e = Inr acc"
      by (auto simp: dispatch_accepted_def split: if_splits sum.splits)
    let ?bt = "\<lparr>bt_seq = seq, bt_at = ev_OccurredAt e, bt_takerID = ja_OrderID acc,
      bt_awaitTaker = expectsTakerEvent D (bp_book p) acc, bt_events = [e], bt_openedAt = now\<rparr>"
    show ?thesis
    proof (cases "expectsTakerEvent D (bp_book p) acc")
      case True
      with accepted o acc have "p' = p\<lparr>bp_open := Some ?bt\<rparr>" "ds = []" by (auto simp: dispatch_accepted_def)
      with open_ok [of ?bt] o same show ?thesis by simp
    next
      case False
      with accepted o acc have "closeOne D (p\<lparr>bp_open := Some ?bt\<rparr>) = (p', ds, None)" by (simp add: dispatch_accepted_def)
      from new [OF _ _ this] seq o show ?thesis by simp
    qed
  next
    case rejected
    then have o: "bp_open p = None" and c: "closeOne D (p\<lparr>bp_open := Some \<lparr>bt_seq = seq, bt_at = ev_OccurredAt e, bt_takerID = [],
        bt_awaitTaker = False, bt_events = [], bt_openedAt = now\<rparr>\<rparr>) = (p', ds, None)"
      by (simp_all add: dispatch_rejected_def split: if_splits)
    from new [OF _ _ c] seq o show ?thesis by simp
  next
    case cancelled
    then obtain prog where prog: "decode_progress D e = Inr prog" by (auto simp: dispatch_cancelled_def split: sum.splits)
    show ?thesis
    proof (cases "bp_open p")
      case None
      with cancelled prog have c: "closeOne D (p\<lparr>bp_open := Some \<lparr>bt_seq = seq, bt_at = ev_OccurredAt e, bt_takerID = [],
          bt_awaitTaker = False, bt_events = [e], bt_openedAt = now\<rparr>\<rparr>) = (p', ds, None)"
        by (simp add: dispatch_cancelled_def)
      from new [OF _ _ c] seq None show ?thesis by simp
    next
      case (Some bt)
      with cancelled prog show ?thesis using collect_ok [OF p] by (simp add: dispatch_cancelled_def)
    qed
  next
    case progress
    then show ?thesis using collect_ok [OF p] by (auto simp: dispatch_progress_def split: option.splits sum.splits)
  next
    case append
    with append_event_ok [OF p] show ?thesis by (auto intro!: tracks_refl)
  next
    case other
    with p show ?thesis by (auto intro!: tracks_refl)
  qed
qed

lemma proj_Apply_ok:
  assumes p: "live_ok D val p" and run: "proj_Apply D now p e = (p', ds, None)"
  shows "live_ok D val p' \<and> tracks p ds p'"
proof -
  have id: "live_ok D val p \<and> tracks p [] p" using p by (auto intro: tracks_refl)
  show ?thesis
  proof (cases "\<exists>seq. ev_Seq e = Some seq \<and> ev_MarketID e = Some (bp_market p) \<and> sk_seq (bp_book p) < seq")
    case False
    then have "proj_Apply D now p e = (p, [], None)" using p
      by (cases "ev_Seq e") (auto simp: proj_Apply_def apply_live_def live_ok_def not_less)
    with run id show ?thesis by simp
  next
    case True
    then obtain seq where seq: "sk_seq (bp_book p) < seq" and live: "apply_live D now e seq p = (p', ds, None)"
      using run p by (auto simp: proj_Apply_def live_ok_def)
    have ns: "\<not> seq \<le> sk_seq (bp_book p)" using seq by (simp add: not_le)
    show ?thesis
    proof (cases "bp_open p")
      case None
      with live seq have s: "seq = sk_seq (bp_book p) + 1" and d: "proj_dispatch D now e seq p = (p', ds, None)"
        using ns by (auto simp: apply_live_def split: if_splits prod.splits option.splits)
      show ?thesis by (rule dispatch_ok [OF p seq s d])
    next
      case (Some bt)
      then consider (stale) "seq < bt_seq bt" | (same) "seq = bt_seq bt" | (later) "bt_seq bt < seq" by fastforce
      then show ?thesis
      proof cases
        case stale
        with live ns Some have "p' = p" "ds = []" by (simp_all add: apply_live_def)
        with id show ?thesis by simp
      next
        case same
        with live ns Some have d: "proj_dispatch D now e seq p = (p', ds, None)" by (simp add: apply_live_def)
        show ?thesis by (rule dispatch_ok [OF p seq _ d]) (simp add: Some)
      next
        case later
        with live seq Some obtain p1 ds1 ds2 where c: "closeOne D p = (p1, ds1, None)" and s: "seq = sk_seq (bp_book p1) + 1"
          and d: "proj_dispatch D now e seq p1 = (p', ds2, None)" and ds: "ds = ds1 @ ds2"
          using ns by (auto simp: apply_live_def split: if_splits prod.splits option.splits)
        note c1 = closeOne_ok [OF p c]
        from c have "length ds1 = 1" by (auto simp: closeOne_def split: prod.splits sum.splits)
        with c1 have "sk_seq (bp_book p1) = sk_seq (bp_book p) + 1" by (simp add: tracks_def)
        moreover have "bt_seq bt = sk_seq (bp_book p) + 1" using p Some by (simp add: live_ok_def)
        ultimately have "sk_seq (bp_book p1) < seq" using later by simp
        from dispatch_ok [OF _ this _ d] c1 s have "live_ok D val p' \<and> tracks p1 ds2 p'" by simp
        with c1 show ?thesis unfolding ds by (blast intro: tracks_trans)
      qed
    qed
  qed
qed

end

end
