(* ===== verification/Shadow_Claims.thy ===== *)
theory Shadow_Claims
  imports Shadow_Live Decimal_Fixed
begin

text \<open>
  A whole feed: a projector is restored from a snapshot, takes events and is flushed now and then, and a client
  that starts from the depth at one moment and applies the deltas has the depth at every later one.
\<close>

section \<open>Feeding a projector\<close>

text \<open>What the runner calls on its projector while it is live.\<close>

datatype proj_input = ApplyAt go_time Envelope | FlushNow

fun proj_step :: "'d decimal_pkg \<Rightarrow> 'd BookProjector \<Rightarrow> proj_input \<Rightarrow> 'd projected" where
  "proj_step D p (ApplyAt now e) = proj_Apply D now p e"
| "proj_step D p FlushNow = Flush D p"

text \<open>The inputs up to the first error.\<close>

fun feed :: "'d decimal_pkg \<Rightarrow> 'd BookProjector \<Rightarrow> proj_input list \<Rightarrow> 'd projected" where
  "feed D p [] = (p, [], None)"
| "feed D p (x # xs) =
     (case proj_step D p x of
        (p1, ds, Some err) \<Rightarrow> (p1, ds, Some err)
      | (p1, ds, None) \<Rightarrow> (case feed D p1 xs of (p2, ds2, r) \<Rightarrow> (p2, ds @ ds2, r)))"

text \<open>The levels of a depth as a client keeps them: quantities by the text of their price.\<close>

definition levels_map :: "'d decimal_pkg \<Rightarrow> 'd ShadowLevel list \<Rightarrow> (string, 'd amount) mapping" where
  "levels_map D ls = apply_levels D (map (\<lambda>l. \<lparr>pl_Price = sl_Price l, pl_Qty = sl_Qty l\<rparr>) ls) Mapping.empty"

definition same_levels :: "('d \<Rightarrow> rat) \<Rightarrow> (string, 'd amount) mapping \<Rightarrow> (string, 'd amount) mapping \<Rightarrow> bool" where
  "same_levels val m n \<longleftrightarrow> (\<forall>k. map_option (amt_val val) (Mapping.lookup m k) = map_option (amt_val val) (Mapping.lookup n k))"

text \<open>The levels of a side of the view: best first, each with the total and the number of the orders at its price.\<close>

definition view_levels :: "('d \<Rightarrow> rat) \<Rightarrow> view \<Rightarrow> string \<Rightarrow> 'd ShadowLevel list \<Rightarrow> bool" where
  "view_levels val f s ls \<longleftrightarrow>
     sorted_wrt (val_better val (side_of s)) (map sl_Price ls) \<and>
     amt_val val ` set (map sl_Price ls) = {v. at_price f s v \<noteq> {}} \<and>
     (\<forall>l \<in> set ls. amt_val val (sl_Qty l) = level_total f s (amt_val val (sl_Price l)) \<and>
        sl_Orders l = int (card (at_price f s (amt_val val (sl_Price l)))))"

context decimal
begin

lemma shadow_side_depth_ok:
  assumes "shadow_side_ok D val S f s"
  shows "\<exists>ls. shadow_side_depth D 0 S = Some ls \<and> view_levels val f s ls"
proof -
  note S = shadow_side_okD [OF assms]
  let ?g = "\<lambda>p. map_option (\<lambda>lvl. \<lparr>sl_Price = bl_price lvl, sl_Qty = bl_qty lvl, sl_Orders = bl_orders lvl\<rparr>)
    (Mapping.lookup (ss_levels S) (Amount_String D p))"
  have ex: "\<exists>l. ?g p = Some l \<and> V (sl_Price l) = V p \<and> V (sl_Qty l) = level_total f s (V p) \<and> sl_Orders l = int (card (at_price f s (V p)))"
    if "p \<in> set (ss_prices S)" for p
  proof -
    have "at_price f s (V p) \<noteq> {}" using S(3) that by blast
    with S(4) [of p] show ?thesis by (auto simp: level_ok_def split: option.splits)
  qed
  then have "\<forall>p \<in> set (ss_prices S). \<exists>l. ?g p = Some l \<and> V (sl_Price l) = V p \<and> V (sl_Qty l) = level_total f s (V p) \<and>
      sl_Orders l = int (card (at_price f s (V p)))" by blast
  from bchoice [OF this] obtain h where h: "\<And>p. p \<in> set (ss_prices S) \<Longrightarrow> ?g p = Some (h p)"
    and at: "\<And>p. p \<in> set (ss_prices S) \<Longrightarrow> V (sl_Price (h p)) = V p \<and> V (sl_Qty (h p)) = level_total f s (V p) \<and>
      sl_Orders (h p) = int (card (at_price f s (V p)))" by blast
  let ?ls = "map h (ss_prices S)"
  have "\<forall>p \<in> set ps. ?g p = Some (h p) \<Longrightarrow> those (map ?g ps) = Some (map h ps)" for ps by (induction ps) auto
  with h have "those (map ?g (ss_prices S)) = Some ?ls" by blast
  then have depth: "shadow_side_depth D 0 S = Some ?ls" by (simp add: shadow_side_depth_def)
  have "sorted_wrt (\<lambda>p q. val_better val (side_of s) (sl_Price (h p)) (sl_Price (h q))) (ss_prices S)"
    by (rule sorted_wrt_mono_rel [OF _ S(2)]) (simp add: val_better_def at)
  then have "sorted_wrt (val_better val (side_of s)) (map sl_Price ?ls)" by (simp add: sorted_wrt_map)
  moreover have "V ` set (map sl_Price ?ls) = V ` set (ss_prices S)"
    unfolding set_map image_image by (intro image_cong refl) (simp add: at)
  ultimately have "view_levels val f s ?ls" using S(3) at by (auto simp: view_levels_def)
  with depth show ?thesis by blast
qed

lemma shadow_Depth_ok:
  assumes "shadow_ok D val b"
  shows "\<exists>d. shadow_Depth D b 0 = Some d \<and> sd_Market d = sk_market b \<and> sd_Seq d = sk_seq b \<and>
    view_levels val (book_view val b) md_Buy (sd_Bids d) \<and> view_levels val (book_view val b) md_Sell (sd_Asks d)"
proof -
  from assms have "shadow_side_ok D val (sk_bids b) (book_view val b) md_Buy" "shadow_side_ok D val (sk_asks b) (book_view val b) md_Sell"
    by (simp_all add: shadow_ok_def)
  then obtain bids asks where "shadow_side_depth D 0 (sk_bids b) = Some bids" "view_levels val (book_view val b) md_Buy bids"
    "shadow_side_depth D 0 (sk_asks b) = Some asks" "view_levels val (book_view val b) md_Sell asks"
    by (metis shadow_side_depth_ok)
  then show ?thesis by (simp add: shadow_Depth_def)
qed

lemma levels_map_ok:
  assumes v: "positive_view f" and ls: "view_levels val f s ls"
  shows "copy_ok f s (levels_map D ls)"
proof -
  let ?ps = "map (\<lambda>l. \<lparr>pl_Price = sl_Price l, pl_Qty = sl_Qty l\<rparr>) ls"
  note L = ls [unfolded view_levels_def]
  have "sorted_wrt (\<lambda>a b. V a \<noteq> V b) (map sl_Price ls)"
    by (rule sorted_wrt_mono_rel [OF _ L [THEN conjunct1]]) (auto simp: val_better_def split: if_splits)
  then have "distinct (map V (map sl_Price ls))" unfolding distinct_conv_nth sorted_wrt_iff_nth_less
    by (metis length_map linorder_neq_iff nth_map)
  then have dist: "distinct (map (V \<circ> pl_Price) ?ps)" by (simp add: comp_def)
  have at: "map_option V (Mapping.lookup (levels_map D ls) (Amount_String D p)) =
      (if level_total f s (V p) = 0 then None else Some (level_total f s (V p)))" for p
  proof (cases "\<exists>l \<in> set ls. V (sl_Price l) = V p")
    case True
    then obtain l where l: "l \<in> set ls" "V (sl_Price l) = V p" by blast
    then have in_ps: "\<lparr>pl_Price = sl_Price l, pl_Qty = sl_Qty l\<rparr> \<in> set ?ps" by force
    have "V (sl_Qty l) = level_total f s (V p)" using L l by auto
    moreover have "Amount_String D p = Amount_String D (sl_Price l)" using l(2) by (simp add: String_inj)
    ultimately show ?thesis using apply_levels_level [OF dist in_ps, of Mapping.empty] by (simp add: levels_map_def)
  next
    case False
    have "V p \<notin> V ` set (map sl_Price ls)" using False by auto
    with L have "at_price f s (V p) = {}" by blast
    then have "level_total f s (V p) = 0" by (simp add: level_total_def)
    moreover have "\<forall>l \<in> set ?ps. Amount_String D (pl_Price l) \<noteq> Amount_String D p" using False by (auto simp: String_inj)
    ultimately show ?thesis using apply_levels_other [of ?ps "Amount_String D p" Mapping.empty] by (simp add: levels_map_def)
  qed
  have "Mapping.lookup (levels_map D ls) k = None" if "k \<notin> range (Amount_String D)" for k
    using apply_levels_other [of ?ps k Mapping.empty] that by (auto simp: levels_map_def)
  with at show ?thesis by (simp add: copy_ok_def)
qed

lemma copy_same: "copy_ok f s m \<Longrightarrow> copy_ok f s n \<Longrightarrow> same_levels val m n"
  unfolding same_levels_def copy_ok_def by (metis rangeE)

lemma shadow_empty: "shadow_ok D val (NewShadowBook m)"
proof -
  have v: "book_view val (NewShadowBook m) = Map.empty" by (rule ext) (simp add: NewShadowBook_def book_view_def)
  show ?thesis unfolding shadow_ok_def v by (simp add: NewShadowBook_def shadow_side_ok_def at_price_def level_ok_def)
qed

lemma shadow_add_all_ok:
  assumes "shadow_ok D val b" and "shadow_add_all D b rs = Inr b'"
  shows "shadow_ok D val b' \<and> sk_market b' = sk_market b"
  using assms
proof (induction rs arbitrary: b)
  case (Cons r rs)
  then obtain b1 where r: "shadow_add D b r = Inr b1" and rs: "shadow_add_all D b1 rs = Inr b'" by (auto split: sum.splits)
  from shadow_add_ok(1) [OF Cons.prems(1) shadow_add_ok(2) [OF Cons.prems(1) r]] r have "shadow_ok D val b1" "sk_market b1 = sk_market b" by auto
  with Cons.IH [OF _ rs] show ?case by simp
qed simp

lemma shadow_Restore_ok:
  assumes "shadow_Restore D (NewShadowBook m) snap = Inr b"
  shows "shadow_ok D val b \<and> sk_seq b = bn_Seq snap \<and> sk_market b = m"
proof -
  obtain b1 where b1: "shadow_add_all D (NewShadowBook m) (bn_Orders snap) = Inr b1" and b: "b = b1\<lparr>sk_seq := bn_Seq snap\<rparr>"
    using assms by (auto simp: shadow_Restore_def split: if_splits sum.splits)
  from shadow_add_all_ok [OF shadow_empty b1] show ?thesis by (simp add: b NewShadowBook_def)
qed

lemma replay_ok:
  assumes "live_ok D val p" and "replay D now p es = (p', ds, None)"
  shows "live_ok D val p' \<and> tracks p ds p'"
  using assms
proof (induction es arbitrary: p ds)
  case Nil
  then show ?case by (auto intro: tracks_refl)
next
  case (Cons e es)
  then obtain p1 ds1 ds2 where e: "proj_Apply D now p e = (p1, ds1, None)" and es: "replay D now p1 es = (p', ds2, None)"
    and ds: "ds = ds1 @ ds2" by (auto split: prod.splits option.splits)
  note s = proj_Apply_ok [OF Cons.prems(1) e]
  with Cons.IH [OF _ es] show ?case unfolding ds by (blast intro: tracks_trans)
qed

text \<open>A projector without an open command that is restored is live.\<close>

lemma proj_Restore_ok:
  assumes "proj_Restore D now p0 snap = (p, ds, None)" and "bp_open p0 = None"
  shows "live_ok D val p"
proof -
  obtain b where b: "shadow_Restore D (NewShadowBook (bp_market p0)) snap = Inr b"
    and r: "replay D now (p0\<lparr>bp_book := b, bp_state := Live, bp_buffer := []\<rparr>) (bp_buffer p0) = (p, ds, None)"
    using assms(1) by (auto simp: proj_Restore_def split: if_splits sum.splits prod.splits option.splits)
  have "live_ok D val (p0\<lparr>bp_book := b, bp_state := Live, bp_buffer := []\<rparr>)"
    using shadow_Restore_ok [OF b] assms(2) by (simp add: live_ok_def)
  from replay_ok [OF this r] show ?thesis by simp
qed

lemma proj_step_ok:
  assumes "live_ok D val p" and "proj_step D p x = (p', ds, None)"
  shows "live_ok D val p' \<and> tracks p ds p'"
proof (cases x)
  case (ApplyAt now e)
  with assms(2) proj_Apply_ok [OF assms(1)] show ?thesis by simp
next
  case FlushNow
  with assms closeOne_ok [OF assms(1)] show ?thesis by (auto simp: Flush_def intro: tracks_refl split: if_splits)
qed

lemma proj_feed_ok:
  assumes "live_ok D val p" and "feed D p xs = (p', ds, None)"
  shows "live_ok D val p' \<and> tracks p ds p'"
  using assms
proof (induction xs arbitrary: p ds)
  case Nil
  then show ?case by (auto intro: tracks_refl)
next
  case (Cons x xs)
  then obtain p1 ds1 ds2 where x: "proj_step D p x = (p1, ds1, None)" and xs: "feed D p1 xs = (p', ds2, None)"
    and ds: "ds = ds1 @ ds2" by (auto split: prod.splits option.splits)
  note s = proj_step_ok [OF Cons.prems(1) x]
  with Cons.IH [OF _ xs] show ?case unfolding ds by (blast intro: tracks_trans)
qed

lemma feed_reproduces:
  assumes p: "live_ok D val p" and run: "feed D p xs = (p', ds, None)"
  shows "\<exists>d d'. bp_Depth D p 0 = Some d \<and> bp_Depth D p' 0 = Some d' \<and>
    sd_Seq d' = sd_Seq d + of_nat (length ds) \<and> map dl_Seq ds = map (\<lambda>k. sd_Seq d + of_nat (Suc k)) [0..<length ds] \<and>
    (case ApplyDeltas D ds (levels_map D (sd_Bids d), levels_map D (sd_Asks d)) of
       (bids, asks) \<Rightarrow> same_levels val bids (levels_map D (sd_Bids d')) \<and> same_levels val asks (levels_map D (sd_Asks d')))"
proof -
  from proj_feed_ok [OF p run] have p': "live_ok D val p'" and t: "tracks p ds p'" by simp_all
  from p p' have ok: "shadow_ok D val (bp_book p)" "shadow_ok D val (bp_book p')" by (simp_all add: live_ok_def)
  from shadow_Depth_ok [OF ok(1)] obtain d where d: "bp_Depth D p 0 = Some d" "sd_Seq d = sk_seq (bp_book p)"
    "view_levels val (book_view val (bp_book p)) md_Buy (sd_Bids d)" "view_levels val (book_view val (bp_book p)) md_Sell (sd_Asks d)"
    by (auto simp: bp_Depth_def)
  from shadow_Depth_ok [OF ok(2)] obtain d' where d': "bp_Depth D p' 0 = Some d'" "sd_Seq d' = sk_seq (bp_book p')"
    "view_levels val (book_view val (bp_book p')) md_Buy (sd_Bids d')" "view_levels val (book_view val (bp_book p')) md_Sell (sd_Asks d')"
    by (auto simp: bp_Depth_def)
  let ?c = "(levels_map D (sd_Bids d), levels_map D (sd_Asks d))"
  have "copies (bp_book p) ?c" using levels_map_ok [OF positive_shadow [OF ok(1)]] d(3,4) by (simp add: copies_def)
  with t have "copies (bp_book p') (ApplyDeltas D ds ?c)" by (simp add: tracks_def)
  moreover have "copy_ok (book_view val (bp_book p')) md_Buy (levels_map D (sd_Bids d'))"
    "copy_ok (book_view val (bp_book p')) md_Sell (levels_map D (sd_Asks d'))"
    using levels_map_ok [OF positive_shadow [OF ok(2)]] d'(3,4) by simp_all
  ultimately show ?thesis using d(1,2) d'(1,2) t
    by (auto simp: copies_def tracks_def split: prod.split intro: copy_same)
qed

end

section \<open>Inputs for the witness\<close>

definition w_env :: "u64 \<Rightarrow> string \<Rightarrow> (string \<times> json) list \<Rightarrow> Envelope" where
  "w_env seq ty ms = \<lparr>ev_EventID = ''e'', ev_EventType = ty, ev_SchemaVersion = 1, ev_TenantID = ''t'', ev_MarketID = Some ''BTC-USD'',
     ev_AccountID = None, ev_Seq = Some seq, ev_AccountSeq = None, ev_OccurredAt = 0, ev_CorrelationID = [], ev_CausationID = [],
     ev_Payload = Some (JObj ms)\<rparr>"

text \<open>A sell order rests at 100.00; a buy order takes 0.5 of it and is filled, then another buy order comes to rest.\<close>

definition w_resting :: "fx BookSnapshot" where
  "w_resting = \<lparr>bn_Market = ''BTC-USD'', bn_Seq = 4,
     bn_Orders = [\<lparr>so_ID = ''a'', so_Side = md_Sell, so_Price = Amount (Fx 10000 2), so_Remaining = Amount (Fx 15 1)\<rparr>]\<rparr>"

definition w_inputs :: "proj_input list" where
  "w_inputs =
     [ApplyAt 0 (w_env 5 md_OrderAccepted [(''order_id'', JStr ''b''), (''side'', JStr ''buy''), (''type'', JStr ''limit''),
        (''time_in_force'', JStr ''gtc''), (''price'', JStr ''101''), (''qty'', JStr ''0.5'')]),
      ApplyAt 0 (w_env 5 md_TradeExecuted [(''maker_order_id'', JStr ''a''), (''taker_order_id'', JStr ''b''), (''price'', JStr ''100''), (''qty'', JStr ''0.5'')]),
      ApplyAt 0 (w_env 5 md_OrderUpdated [(''order_id'', JStr ''a''), (''remaining_qty'', JStr ''1'')]),
      ApplyAt 0 (w_env 5 md_OrderFilled [(''order_id'', JStr ''b'')]),
      ApplyAt 1 (w_env 6 md_OrderAccepted [(''order_id'', JStr ''c''), (''side'', JStr ''buy''), (''type'', JStr ''limit''),
        (''time_in_force'', JStr ''gtc''), (''price'', JStr ''99''), (''qty'', JStr ''2'')]),
      FlushNow]"

definition w_live :: "fx BookProjector" where
  "w_live = fst (proj_Restore fx_pkg 0 (MarkRebuilding (NewBookProjector ''BTC-USD'')) w_resting)"

lemma w_shadow_restored: "proj_Restore fx_pkg 0 (MarkRebuilding (NewBookProjector ''BTC-USD'')) w_resting = (w_live, [], None)"
proof -
  have "snd (proj_Restore fx_pkg 0 (MarkRebuilding (NewBookProjector ''BTC-USD'')) w_resting) = ([], None)" by code_simp
  then show ?thesis unfolding w_live_def by (metis prod.collapse)
qed

lemma w_fed: "\<exists>p' ds. feed fx_pkg w_live w_inputs = (p', ds, None) \<and> map dl_Seq ds = [5, 6]"
proof -
  have "(case feed fx_pkg w_live w_inputs of (p', ds, r) \<Rightarrow> r = None \<and> map dl_Seq ds = [5, 6])" by code_simp
  then show ?thesis by (cases "feed fx_pkg w_live w_inputs") simp
qed

section \<open>Properties\<close>

text \<open>C34: a client that reads the depth of a live projector and then applies the deltas has the depth at every
  later moment. After a restore, and as long as no input is refused, the deltas that are emitted have the sequence
  numbers that follow the one of the first depth, without a gap, the last of them being that of the later depth; and the
  levels of the first depth with all deltas applied (a level put, or removed when its quantity is zero) are the levels of
  the later depth, price by price with the same quantity.\<close>

theorem deltas_reproduce_depth:
  assumes "decimal D val" and "bp_open p0 = None" and "proj_Restore D now p0 snap = (p, ds0, None)" and "feed D p xs = (p', ds, None)"
  shows "\<exists>d d'. bp_Depth D p 0 = Some d \<and> bp_Depth D p' 0 = Some d' \<and>
    sd_Seq d' = sd_Seq d + of_nat (length ds) \<and> map dl_Seq ds = map (\<lambda>k. sd_Seq d + of_nat (Suc k)) [0..<length ds] \<and>
    (case ApplyDeltas D ds (levels_map D (sd_Bids d), levels_map D (sd_Asks d)) of
       (bids, asks) \<Rightarrow> same_levels val bids (levels_map D (sd_Bids d')) \<and> same_levels val asks (levels_map D (sd_Asks d')))"
  by (rule decimal.feed_reproduces [OF assms(1) decimal.proj_Restore_ok [OF assms(1,3,2)] assms(4)])

theorem deltas_reproduce_depth_witness:
  "\<exists>ds p' d'. feed fx_pkg w_live w_inputs = (p', ds, None) \<and> map dl_Seq ds = [5, 6] \<and> bp_Depth fx_pkg p' 0 = Some d' \<and> sd_Seq d' = 6"
proof -
  from w_fed obtain p' ds where f: "feed fx_pkg w_live w_inputs = (p', ds, None)" "map dl_Seq ds = [5, 6]"
    by (elim exE conjE)
  from f(2) have "length ds = 2" by (metis length_map length_Cons list.size(3) numeral_2_eq_2)
  moreover have "bp_Seq w_live = 4" by code_simp
  moreover obtain d d' where "bp_Depth fx_pkg w_live 0 = Some d" "bp_Depth fx_pkg p' 0 = Some d'" "sd_Seq d' = sd_Seq d + of_nat (length ds)"
    using deltas_reproduce_depth [OF fx.decimal_axioms _ w_shadow_restored f(1)] by (auto simp: MarkRebuilding_def)
  ultimately show ?thesis using f
    by (auto simp: bp_Depth_def shadow_Depth_def bp_Seq_def split: option.splits)
qed

end
