(* ===== verification/Shadow_Views.thy ===== *)
theory Shadow_Views
  imports Shadow_Claims Matching_Props Trading_Events
begin

text \<open>
  The events of the matching engine as the projector reads them. \<open>carries\<close> says that an envelope is what the
  engine publishes for an event of the book; \<open>view_step\<close> is what the event means for the map of the resting
  orders, with no books, levels or texts. The lemmas show that decoding a payload gives back what it was made of, and that
  applying the envelope to a shadow book is the step of its map.
\<close>

section \<open>Envelopes of events\<close>

definition valid_opt :: "'d decimal_pkg \<Rightarrow> 'd amount option \<Rightarrow> bool" where
  "valid_opt D x \<longleftrightarrow> (case x of None \<Rightarrow> True | Some a \<Rightarrow> Amount_Validate D a = None)"

definition same_amount :: "'d decimal_pkg \<Rightarrow> ('d \<Rightarrow> rat) \<Rightarrow> 'd amount \<Rightarrow> 'd amount \<Rightarrow> bool" where
  "same_amount D val a b \<longleftrightarrow> Amount_Validate D a = None \<and> amt_val val a = amt_val val b"

text \<open>A payload that says what an event says, to a reader of the book.\<close>

fun says :: "'d decimal_pkg \<Rightarrow> ('d \<Rightarrow> rat) \<Rightarrow> 'd payload \<Rightarrow> 'd Event \<Rightarrow> bool" where
  "says D val (PAccepted p) (EvAccepted a) \<longleftrightarrow>
     oa_OrderID p = ac_OrderID a \<and> oa_Side p = Side_String (ac_Side a) \<and> oa_Type p = OrderType_String (ac_Type a) \<and>
     oa_TimeInForce p = TimeInForce_String (ac_TimeInForce a) \<and> valid_opt D (oa_Price p) \<and> valid_opt D (oa_Qty p) \<and>
     (ac_Type a = Limit \<longrightarrow> (\<exists>x y. oa_Price p = Some x \<and> oa_Qty p = Some y \<and>
        amt_val val x = amt_val val (ac_Price a) \<and> amt_val val y = amt_val val (ac_Qty a)))"
| "says D val (PTrade p) (EvTrade t) \<longleftrightarrow>
     tx_MakerOrderID p = tr_MakerOrderID t \<and> tx_TakerOrderID p = tr_TakerOrderID t \<and> same_amount D val (tx_Qty p) (tr_Qty t) \<and>
     Amount_Validate D (tx_Price p) = None \<and> Amount_Validate D (tx_QuoteQty p) = None"
| "says D val (PUpdated p) (EvUpdated u) \<longleftrightarrow>
     ou_OrderID p = up_OrderID u \<and> same_amount D val (ou_RemainingQty p) (up_RemainingQty u)"
| "says D val (PFilled p) (EvFilled f) \<longleftrightarrow> of_OrderID p = fi_OrderID f"
| "says D val (PCancelled p) (EvCancelled c) \<longleftrightarrow>
     ox_OrderID p = cn_OrderID c \<and> same_amount D val (ox_RemainingQty p) (cn_RemainingQty c)"
| "says D val (PRejected p) (EvRejected r) \<longleftrightarrow> oj_OrderID p = rj_OrderID r"
| "says D val _ _ \<longleftrightarrow> False"

fun type_of :: "'d Event \<Rightarrow> string" where
  "type_of (EvAccepted _) = EventOrderAccepted"
| "type_of (EvTrade _) = EventTradeExecuted"
| "type_of (EvUpdated _) = EventOrderUpdated"
| "type_of (EvFilled _) = EventOrderFilled"
| "type_of (EvCancelled _) = EventOrderCancelled"
| "type_of (EvRejected _) = EventOrderRejected"
| "type_of (EvCancelRejected _) = []"

definition carries :: "'d decimal_pkg \<Rightarrow> ('d \<Rightarrow> rat) \<Rightarrow> string \<Rightarrow> 'd Event \<Rightarrow> Envelope \<Rightarrow> bool" where
  "carries D val market ev e \<longleftrightarrow>
     ev_MarketID e = Some market \<and> ev_Seq e = Some (CommandSeq ev) \<and> ev_EventType e = type_of ev \<and>
     (\<exists>pl. ev_Payload e = Some (payload_json D pl) \<and> says D val pl ev)"

section \<open>Events on a view\<close>

definition view_less :: "string \<Rightarrow> rat \<Rightarrow> view \<Rightarrow> view option" where
  "view_less i q f =
     (case f i of
        None \<Rightarrow> None
      | Some (s, v, r) \<Rightarrow> if 0 < q \<and> q \<le> r then Some (f(i := if q = r then None else Some (s, v, r - q))) else None)"

fun view_step :: "('d \<Rightarrow> rat) \<Rightarrow> string \<Rightarrow> 'd Event \<Rightarrow> view \<Rightarrow> view option" where
  "view_step val tk (EvAccepted a) f =
     (if ac_Type a \<noteq> Limit then Some f
      else if ac_OrderID a \<noteq> [] \<and> ac_Side a \<in> {Buy, Sell} \<and> 0 < amt_val val (ac_Price a) \<and> 0 < amt_val val (ac_Qty a) \<and> f (ac_OrderID a) = None
      then Some (f(ac_OrderID a \<mapsto> (Side_String (ac_Side a), amt_val val (ac_Price a), amt_val val (ac_Qty a)))) else None)"
| "view_step val tk (EvTrade t) f =
     (case view_less (tr_MakerOrderID t) (amt_val val (tr_Qty t)) f of
        None \<Rightarrow> None
      | Some g \<Rightarrow> if g (tr_TakerOrderID t) = None then Some g else view_less (tr_TakerOrderID t) (amt_val val (tr_Qty t)) g)"
| "view_step val tk (EvUpdated u) f =
     (if \<exists>s v. f (up_OrderID u) = Some (s, v, amt_val val (up_RemainingQty u)) then Some f else None)"
| "view_step val tk (EvFilled x) f = (if f (fi_OrderID x) = None then Some f else None)"
| "view_step val tk (EvCancelled c) f =
     (case f (cn_OrderID c) of
        None \<Rightarrow> if cn_OrderID c = tk then Some f else None
      | Some (s, v, r) \<Rightarrow> if r = amt_val val (cn_RemainingQty c) then Some (f(cn_OrderID c := None)) else None)"
| "view_step val tk (EvRejected r) f = Some f"
| "view_step val tk (EvCancelRejected r) f = None"

fun view_steps :: "('d \<Rightarrow> rat) \<Rightarrow> string \<Rightarrow> 'd Event list \<Rightarrow> view \<Rightarrow> view option" where
  "view_steps val tk [] f = Some f"
| "view_steps val tk (ev # evs) f = (case view_step val tk ev f of None \<Rightarrow> None | Some g \<Rightarrow> view_steps val tk evs g)"

lemma view_steps_append:
  "view_steps val tk (xs @ ys) f = (case view_steps val tk xs f of None \<Rightarrow> None | Some g \<Rightarrow> view_steps val tk ys g)"
  by (induction xs arbitrary: f) (auto split: option.split)

section \<open>Decoding what was encoded\<close>

lemma md_sides_text [simp]: "Side_String Buy = md_Buy" "Side_String Sell = md_Sell"
  by (simp_all add: Side_String_def md_Buy_def md_Sell_def)

lemma fold_names:
  "fold_name ''order_id'' = ''order_id''" "fold_name ''client_order_id'' = ''client_order_id''" "fold_name ''account_id'' = ''account_id''"
  "fold_name ''market'' = ''market''" "fold_name ''side'' = ''side''" "fold_name ''type'' = ''type''" "fold_name ''time_in_force'' = ''time_in_force''"
  "fold_name ''price'' = ''price''" "fold_name ''qty'' = ''qty''" "fold_name ''quote_qty'' = ''quote_qty''" "fold_name ''seq'' = ''seq''"
  "fold_name ''status'' = ''status''" "fold_name ''filled_qty'' = ''filled_qty''" "fold_name ''filled_quote'' = ''filled_quote''"
  "fold_name ''remaining_qty'' = ''remaining_qty''" "fold_name ''reason'' = ''reason''" "fold_name ''remaining_quote'' = ''remaining_quote''"
  "fold_name ''released'' = ''released''" "fold_name ''released_asset'' = ''released_asset''" "fold_name ''trade_id'' = ''trade_id''"
  "fold_name ''maker_order_id'' = ''maker_order_id''" "fold_name ''taker_order_id'' = ''taker_order_id''"
  "fold_name ''maker_account_id'' = ''maker_account_id''" "fold_name ''taker_account_id'' = ''taker_account_id''"
  "fold_name ''taker_side'' = ''taker_side''" "fold_name ''maker_fee'' = ''maker_fee''" "fold_name ''maker_fee_asset'' = ''maker_fee_asset''"
  "fold_name ''taker_fee'' = ''taker_fee''" "fold_name ''taker_fee_asset'' = ''taker_fee_asset''"
  by code_simp+

lemma type_names:
  "EventOrderAccepted = md_OrderAccepted" "EventOrderUpdated = md_OrderUpdated" "EventOrderFilled = md_OrderFilled"
  "EventOrderCancelled = md_OrderCancelled" "EventOrderRejected = md_OrderRejected" "EventTradeExecuted = md_TradeExecuted"
  by (simp_all add: event_types md_types)

lemma md_types_distinct:
  "distinct [md_OrderAccepted, md_OrderUpdated, md_OrderFilled, md_OrderCancelled, md_OrderRejected, md_TradeExecuted]"
  by (simp add: md_types)

context decimal
begin

lemma decode_amount_ok:
  assumes "Amount_Validate D a = None"
  obtains b where "decode_amount D (json_amount D a) = Some b" "V b = V a"
  using ParseAmount_String [OF assms] by (auto simp: json_amount_def MarshalText_def)

lemma decode_ptr_ok:
  assumes "valid_opt D x"
  obtains y where "decode_amount_ptr D (json_opt (json_amount D) x) = Some y" "rel_option (\<lambda>a b. V a = V b) y x"
proof (cases x)
  case None
  then show thesis using that [of None] by (simp add: decode_amount_ptr_def json_opt_def)
next
  case (Some a)
  with assms obtain b where "decode_amount D (json_amount D a) = Some b" "V b = V a" by (auto simp: valid_opt_def elim: decode_amount_ok)
  with Some show thesis using that [of "Some b"] by (simp add: decode_amount_ptr_def json_opt_def json_amount_def)
qed

lemma decode_accepted_ok:
  assumes e: "ev_Payload e = Some (payload_json D (PAccepted p))" and v: "valid_opt D (oa_Price p)" "valid_opt D (oa_Qty p)"
  obtains acc where "decode_accepted D e = Inr acc" "ja_OrderID acc = oa_OrderID p" "ja_Side acc = oa_Side p" "ja_Type acc = oa_Type p"
    "ja_TimeInForce acc = oa_TimeInForce p" "rel_option (\<lambda>a b. V a = V b) (ja_Price acc) (oa_Price p)"
    "rel_option (\<lambda>a b. V a = V b) (ja_Qty acc) (oa_Qty p)"
proof -
  obtain x where x: "decode_amount_ptr D (json_opt (json_amount D) (oa_Price p)) = Some x" "rel_option (\<lambda>a b. V a = V b) x (oa_Price p)"
    using v(1) by (rule decode_ptr_ok)
  obtain y where y: "decode_amount_ptr D (json_opt (json_amount D) (oa_Qty p)) = Some y" "rel_option (\<lambda>a b. V a = V b) y (oa_Qty p)"
    using v(2) by (rule decode_ptr_ok)
  show thesis
    by (rule that [of "\<lparr>ja_OrderID = oa_OrderID p, ja_Market = oa_Market p, ja_Side = oa_Side p, ja_Type = oa_Type p,
        ja_TimeInForce = oa_TimeInForce p, ja_Price = x, ja_Qty = y\<rparr>"])
      (simp_all add: decode_accepted_def decode_payload_def e fold_names accepted_field_def x y)
qed

lemma decode_trade_ok:
  assumes e: "ev_Payload e = Some (payload_json D (PTrade p))" and v: "Amount_Validate D (tx_Price p) = None" "Amount_Validate D (tx_Qty p) = None"
    "Amount_Validate D (tx_QuoteQty p) = None"
  obtains tr where "decode_trade D e = Inr tr" "jt_MakerOrderID tr = tx_MakerOrderID p" "jt_TakerOrderID tr = tx_TakerOrderID p" "V (jt_Qty tr) = V (tx_Qty p)"
proof -
  obtain x where x: "decode_amount D (json_amount D (tx_Price p)) = Some x" using v(1) by (rule decode_amount_ok)
  obtain y where y: "decode_amount D (json_amount D (tx_Qty p)) = Some y" "V y = V (tx_Qty p)" using v(2) by (rule decode_amount_ok)
  obtain z where z: "decode_amount D (json_amount D (tx_QuoteQty p)) = Some z" using v(3) by (rule decode_amount_ok)
  show thesis
    by (rule that [of "\<lparr>jt_TradeID = tx_TradeID p, jt_Market = tx_Market p, jt_MakerOrderID = tx_MakerOrderID p, jt_TakerOrderID = tx_TakerOrderID p,
        jt_TakerSide = tx_TakerSide p, jt_Price = x, jt_Qty = y, jt_QuoteQty = z\<rparr>"])
      (simp_all add: decode_trade_def decode_payload_def e fold_names trade_field_def x y z)
qed

lemma decode_progress_ok:
  "ev_Payload e = Some (payload_json D (PFilled f)) \<Longrightarrow> \<exists>r. decode_progress D e = Inr r \<and> jp_OrderID r = of_OrderID f"
  "ev_Payload e = Some (payload_json D (PUpdated u)) \<Longrightarrow> Amount_Validate D (ou_RemainingQty u) = None \<Longrightarrow>
     \<exists>r. decode_progress D e = Inr r \<and> jp_OrderID r = ou_OrderID u \<and> V (jp_RemainingQty r) = V (ou_RemainingQty u)"
  "ev_Payload e = Some (payload_json D (PCancelled c)) \<Longrightarrow> Amount_Validate D (ox_RemainingQty c) = None \<Longrightarrow>
     \<exists>r. decode_progress D e = Inr r \<and> jp_OrderID r = ox_OrderID c \<and> V (jp_RemainingQty r) = V (ox_RemainingQty c)"
proof -
  note defs = decode_progress_def decode_payload_def fold_names progress_field_def
  show "\<exists>r. decode_progress D e = Inr r \<and> jp_OrderID r = of_OrderID f" if "ev_Payload e = Some (payload_json D (PFilled f))"
    using that by (simp add: defs)
  show "\<exists>r. decode_progress D e = Inr r \<and> jp_OrderID r = ou_OrderID u \<and> V (jp_RemainingQty r) = V (ou_RemainingQty u)"
    if e: "ev_Payload e = Some (payload_json D (PUpdated u))" and v: "Amount_Validate D (ou_RemainingQty u) = None"
  proof -
    obtain x where "decode_amount D (json_amount D (ou_RemainingQty u)) = Some x" "V x = V (ou_RemainingQty u)" using v by (rule decode_amount_ok)
    then show ?thesis by (simp add: defs e)
  qed
  show "\<exists>r. decode_progress D e = Inr r \<and> jp_OrderID r = ox_OrderID c \<and> V (jp_RemainingQty r) = V (ox_RemainingQty c)"
    if e: "ev_Payload e = Some (payload_json D (PCancelled c))" and v: "Amount_Validate D (ox_RemainingQty c) = None"
  proof -
    obtain x where "decode_amount D (json_amount D (ox_RemainingQty c)) = Some x" "V x = V (ox_RemainingQty c)" using v by (rule decode_amount_ok)
    then show ?thesis by (simp add: defs e)
  qed
qed

section \<open>Applying an envelope\<close>

text \<open>A shadow book goes to one with the given view; its sequence number and market stay.\<close>

definition becomes :: "'d ShadowBook \<Rightarrow> 'd ShadowBook \<Rightarrow> view \<Rightarrow> bool" where
  "becomes b b' g \<longleftrightarrow> shadow_ok D val b' \<and> sk_seq b' = sk_seq b \<and> sk_market b' = sk_market b \<and> book_view val b' = g"

lemma becomes_self: "shadow_ok D val b \<Longrightarrow> becomes b b (book_view val b)"
  by (simp add: becomes_def)

lemma reduce_becomes:
  assumes ok: "shadow_ok D val b" and l: "view_less i (V q) (book_view val b) = Some g"
  shows "\<exists>b' x. Mapping.lookup (sk_orders b) i = Some x \<and> shadow_reduce D b i q = Inr b' \<and> becomes b b' g"
proof -
  from l obtain s v r where f: "book_view val b i = Some (s, v, r)" "0 < V q" "V q \<le> r"
    and g: "g = (book_view val b)(i := if V q = r then None else Some (s, v, r - V q))"
    by (auto simp: view_less_def split: option.splits if_splits)
  from shadow_reduce_ok [OF ok f] show ?thesis using f(1) unfolding becomes_def g by (auto simp: book_view_def)
qed

lemma view_lookup: "book_view val b i = None \<longleftrightarrow> Mapping.lookup (sk_orders b) i = None"
  by (simp add: book_view_def)

lemma applyEvent_step:
  assumes ok: "shadow_ok D val b" and c: "carries D val mkt ev e" and step: "view_step val tk ev (book_view val b) = Some g"
  shows "\<exists>b' ts'. applyEvent D tk e b ts = (b', ts', None) \<and> becomes b b' g"
proof -
  note self = becomes_self [OF ok]
  note ty = applyEvent_def type_names md_types
  show ?thesis
  proof (cases ev)
    case (EvAccepted a)
    with c obtain p where pl: "ev_Payload e = Some (payload_json D (PAccepted p))" and s: "says D val (PAccepted p) ev"
      and t: "ev_EventType e = md_OrderAccepted"
      by (fastforce simp: carries_def type_names elim: says.elims)
    from s EvAccepted have v: "valid_opt D (oa_Price p)" "valid_opt D (oa_Qty p)" by simp_all
    obtain acc where acc: "decode_accepted D e = Inr acc" "ja_OrderID acc = oa_OrderID p" "ja_Side acc = oa_Side p" "ja_Type acc = oa_Type p"
      "rel_option (\<lambda>a b. V a = V b) (ja_Price acc) (oa_Price p)" "rel_option (\<lambda>a b. V a = V b) (ja_Qty acc) (oa_Qty p)"
      using pl v by (rule decode_accepted_ok)
    show ?thesis
    proof (cases "ac_Type a = Limit")
      case False
      with s EvAccepted acc have "ja_Type acc \<noteq> ''limit''" by (auto simp: OrderType_String_def split: OrderType.splits)
      with acc(1) have "apply_accepted D e b ts = (b, ts, None)" by (simp add: apply_accepted_def split: option.split)
      with self step EvAccepted False show ?thesis by (simp add: ty t)
    next
      case True
      with s EvAccepted obtain x y where xy: "oa_Price p = Some x" "oa_Qty p = Some y" "V x = V (ac_Price a)" "V y = V (ac_Qty a)"
        and words: "oa_OrderID p = ac_OrderID a" "oa_Side p = Side_String (ac_Side a)" "oa_Type p = ''limit''"
        by (auto simp: OrderType_String_def)
      with acc(5,6) obtain x' y' where x': "ja_Price acc = Some x'" "V x' = V (ac_Price a)" and y': "ja_Qty acc = Some y'" "V y' = V (ac_Qty a)"
        by (auto simp: option_rel_Some2)
      let ?r = "\<lparr>so_ID = ac_OrderID a, so_Side = Side_String (ac_Side a), so_Price = x', so_Remaining = y'\<rparr>"
      have pre: "ac_OrderID a \<noteq> []" "ac_Side a \<in> {Buy, Sell}" "0 < V (ac_Price a)" "0 < V (ac_Qty a)" "book_view val b (ac_OrderID a) = None"
        and g: "g = (book_view val b)(ac_OrderID a \<mapsto> (Side_String (ac_Side a), V (ac_Price a), V (ac_Qty a)))"
        using step EvAccepted True by (auto split: if_splits)
      have "so_ID ?r \<noteq> [] \<and> md_valid (so_Side ?r) \<and> 0 < V (so_Price ?r) \<and> 0 < V (so_Remaining ?r) \<and> book_view val b (so_ID ?r) = None"
        using pre x' y' by auto
      from shadow_add_ok(1) [OF ok this] obtain b' where "shadow_add D b ?r = Inr b'" "becomes b b' g"
        by (auto simp: becomes_def g x' y')
      then show ?thesis using acc x' y' words by (simp add: ty t apply_accepted_def try_op_def)
    qed
  next
    case (EvTrade t)
    with c obtain p where pl: "ev_Payload e = Some (payload_json D (PTrade p))" and s: "says D val (PTrade p) ev"
      and ty': "ev_EventType e = md_TradeExecuted"
      by (fastforce simp: carries_def type_names elim: says.elims)
    from s EvTrade have v: "Amount_Validate D (tx_Price p) = None" "Amount_Validate D (tx_Qty p) = None" "Amount_Validate D (tx_QuoteQty p) = None"
      by (simp_all add: same_amount_def)
    obtain tr where tr: "decode_trade D e = Inr tr" "jt_MakerOrderID tr = tr_MakerOrderID t" "jt_TakerOrderID tr = tr_TakerOrderID t" "V (jt_Qty tr) = V (tr_Qty t)"
      using decode_trade_ok [OF pl v] s EvTrade by (auto simp: same_amount_def)
    from step EvTrade obtain g1 where g1: "view_less (tr_MakerOrderID t) (V (jt_Qty tr)) (book_view val b) = Some g1"
      and g: "g1 (tr_TakerOrderID t) = None \<and> g = g1 \<or> g1 (tr_TakerOrderID t) \<noteq> None \<and> view_less (tr_TakerOrderID t) (V (jt_Qty tr)) g1 = Some g"
      by (auto simp: tr(4) split: option.splits if_splits)
    from reduce_becomes [OF ok g1] obtain b1 x where x: "Mapping.lookup (sk_orders b) (tr_MakerOrderID t) = Some x"
      and r: "shadow_reduce D b (tr_MakerOrderID t) (jt_Qty tr) = Inr b1" and b1: "becomes b b1 g1" by blast
    have view1: "book_view val b1 = g1" and ok1: "shadow_ok D val b1" using b1 by (simp_all add: becomes_def)
    from g show ?thesis
    proof
      assume "g1 (tr_TakerOrderID t) = None \<and> g = g1"
      moreover from this have "Mapping.lookup (sk_orders b1) (tr_TakerOrderID t) = None" using view_lookup [of b1] view1 by simp
      ultimately show ?thesis using tr x r b1 by (simp add: ty ty' apply_trade_def Let_def)
    next
      assume "g1 (tr_TakerOrderID t) \<noteq> None \<and> view_less (tr_TakerOrderID t) (V (jt_Qty tr)) g1 = Some g"
      with reduce_becomes [OF ok1, of "tr_TakerOrderID t" "jt_Qty tr" g] view1 obtain b2 y where
        "Mapping.lookup (sk_orders b1) (tr_TakerOrderID t) = Some y" "shadow_reduce D b1 (tr_TakerOrderID t) (jt_Qty tr) = Inr b2" "becomes b1 b2 g"
        by blast
      then show ?thesis using tr x r b1 by (simp add: ty ty' apply_trade_def Let_def try_op_def becomes_def)
    qed
  next
    case (EvUpdated u)
    with c obtain p where pl: "ev_Payload e = Some (payload_json D (PUpdated p))" and s: "says D val (PUpdated p) ev"
      and t: "ev_EventType e = md_OrderUpdated"
      by (fastforce simp: carries_def type_names elim: says.elims)
    from decode_progress_ok(2) [OF pl] s EvUpdated obtain r where r: "decode_progress D e = Inr r" "jp_OrderID r = up_OrderID u"
      "V (jp_RemainingQty r) = V (up_RemainingQty u)" by (auto simp: same_amount_def)
    from step EvUpdated have g: "g = book_view val b" and "\<exists>s v. book_view val b (up_OrderID u) = Some (s, v, V (up_RemainingQty u))"
      by (auto split: if_splits)
    then obtain x where "Mapping.lookup (sk_orders b) (up_OrderID u) = Some x" "V (bo_remaining x) = V (up_RemainingQty u)"
      by (auto simp: book_view_def)
    with r self show ?thesis unfolding g by (simp add: ty t apply_updated_def)
  next
    case (EvFilled x)
    with c obtain p where pl: "ev_Payload e = Some (payload_json D (PFilled p))" and s: "says D val (PFilled p) ev"
      and t: "ev_EventType e = md_OrderFilled"
      by (fastforce simp: carries_def type_names elim: says.elims)
    from decode_progress_ok(1) [OF pl] s EvFilled obtain r where r: "decode_progress D e = Inr r" "jp_OrderID r = fi_OrderID x" by auto
    from step EvFilled have g: "g = book_view val b" and "book_view val b (fi_OrderID x) = None" by (auto split: if_splits)
    then have "Mapping.lookup (sk_orders b) (fi_OrderID x) = None" by (simp add: view_lookup)
    with r self show ?thesis unfolding g by (simp add: ty t apply_filled_def)
  next
    case (EvCancelled x)
    with c obtain p where pl: "ev_Payload e = Some (payload_json D (PCancelled p))" and s: "says D val (PCancelled p) ev"
      and t: "ev_EventType e = md_OrderCancelled"
      by (fastforce simp: carries_def type_names elim: says.elims)
    from decode_progress_ok(3) [OF pl] s EvCancelled obtain r where r: "decode_progress D e = Inr r" "jp_OrderID r = cn_OrderID x"
      "V (jp_RemainingQty r) = V (cn_RemainingQty x)" by (auto simp: same_amount_def)
    show ?thesis
    proof (cases "book_view val b (cn_OrderID x)")
      case None
      with step EvCancelled have "cn_OrderID x = tk" "g = book_view val b" by (auto split: if_splits)
      with None r self show ?thesis by (simp add: ty t apply_cancelled_def view_lookup)
    next
      case (Some z)
      with step EvCancelled obtain s' v where z: "z = (s', v, V (cn_RemainingQty x))" and g: "g = (book_view val b)(cn_OrderID x := None)"
        by (cases z) (auto split: if_splits)
      from Some z obtain y where y: "Mapping.lookup (sk_orders b) (cn_OrderID x) = Some y" "V (bo_remaining y) = V (cn_RemainingQty x)"
        by (auto simp: book_view_def)
      from shadow_remove_ok [OF ok Some [unfolded z]] obtain b' where "shadow_remove D b (cn_OrderID x) = Inr b'" "becomes b b' g"
        by (auto simp: becomes_def g)
      with y r show ?thesis by (simp add: ty t apply_cancelled_def try_op_def)
    qed
  next
    case (EvRejected r)
    with c step self show ?thesis by (simp add: ty carries_def)
  next
    case (EvCancelRejected r)
    with step show ?thesis by simp
  qed
qed

lemma apply_events_steps:
  assumes "list_all2 (carries D val mkt) evs es" and "shadow_ok D val b" and "view_steps val tk evs (book_view val b) = Some g"
  shows "\<exists>b' ts'. apply_events D tk es b ts = (b', ts', None) \<and> becomes b b' g"
  using assms
proof (induction arbitrary: b ts rule: list_all2_induct)
  case Nil
  then show ?case by (simp add: becomes_def)
next
  case (Cons ev evs e es)
  from Cons.prems(2) obtain g1 where g1: "view_step val tk ev (book_view val b) = Some g1" and g: "view_steps val tk evs g1 = Some g"
    by (auto split: option.splits)
  from applyEvent_step [OF Cons.prems(1) Cons.hyps(1) g1, of ts] obtain b1 ts1 where b1: "applyEvent D tk e b ts = (b1, ts1, None)" "becomes b b1 g1" by blast
  with Cons.IH [of b1 ts1] g b1 show ?case by (auto simp: becomes_def)
qed

end

end
