(* ===== verification/Shadow_Engine.thy ===== *)
theory Shadow_Engine
  imports Shadow_Views
begin

text \<open>
  The events of one command of the matching engine, on the map of the resting orders: they take the map of the
  snapshot before the command to the map of the snapshot after it.
\<close>

section \<open>The map of a snapshot\<close>

definition order_entry :: "('d \<Rightarrow> rat) \<Rightarrow> 'd RestingOrder \<Rightarrow> string \<times> string \<times> rat \<times> rat" where
  "order_entry val r = (ro_OrderID r, Side_String (ro_Side r), amt_val val (ro_Price r), amt_val val (ro_Remaining r))"

definition orders_view :: "('d \<Rightarrow> rat) \<Rightarrow> 'd RestingOrder list \<Rightarrow> view" where
  "orders_view val rs = map_of (map (order_entry val) rs)"

definition snapshot_view :: "('d \<Rightarrow> rat) \<Rightarrow> 'd Snapshot \<Rightarrow> view" where
  "snapshot_view val sn = orders_view val (sn_Bids sn @ sn_Asks sn)"

lemma orders_view_simps [simp]:
  "orders_view val [] = Map.empty"
  "orders_view val (r # rs) = (orders_view val rs)(ro_OrderID r \<mapsto> (Side_String (ro_Side r), amt_val val (ro_Price r), amt_val val (ro_Remaining r)))"
  by (simp_all add: orders_view_def order_entry_def)

lemma orders_view_append: "orders_view val (xs @ ys) = orders_view val ys ++ orders_view val xs"
  by (simp add: orders_view_def)

lemma orders_view_None: "orders_view val rs i = None \<longleftrightarrow> i \<notin> ro_OrderID ` set rs"
  by (induction rs) auto

lemma orders_view_dom [simp]: "dom (orders_view val rs) = ro_OrderID ` set rs"
  by (rule set_eqI) (simp only: domIff orders_view_None not_not)

lemma orders_view_in: "distinct (map ro_OrderID rs) \<Longrightarrow> r \<in> set rs \<Longrightarrow>
    orders_view val rs (ro_OrderID r) = Some (Side_String (ro_Side r), amt_val val (ro_Price r), amt_val val (ro_Remaining r))"
proof (induction rs)
  case (Cons a rs)
  show ?case
  proof (cases "r = a")
    case False
    with Cons.prems have "r \<in> set rs" "ro_OrderID r \<noteq> ro_OrderID a" by (auto simp: rev_image_eqI)
    with Cons show ?thesis by simp
  qed simp
qed simp

lemma orders_view_set:
  assumes "distinct (map ro_OrderID rs)" and "distinct (map ro_OrderID rs')" and "set rs = set rs'"
  shows "orders_view val rs = orders_view val rs'"
proof (rule ext)
  fix i
  show "orders_view val rs i = orders_view val rs' i"
  proof (cases "\<exists>r \<in> set rs. ro_OrderID r = i")
    case True
    with assms orders_view_in show ?thesis by metis
  next
    case False
    then have "orders_view val rs i = None" "orders_view val rs' i = None" unfolding orders_view_None using assms(3) by auto
    then show ?thesis by simp
  qed
qed

text \<open>An order more, an order less.\<close>

lemma orders_view_insert:
  assumes "distinct (map ro_OrderID rs)" and "distinct (map ro_OrderID rs')" and "set rs' = insert r (set rs)" and "ro_OrderID r \<notin> ro_OrderID ` set rs"
  shows "orders_view val rs' = (orders_view val rs)(ro_OrderID r \<mapsto> (Side_String (ro_Side r), amt_val val (ro_Price r), amt_val val (ro_Remaining r)))"
  using orders_view_set [of "r # rs" rs' val] assms by simp

lemma orders_view_filter: "orders_view val (filter (\<lambda>r. ro_OrderID r \<noteq> i) rs) = (orders_view val rs)(i := None)"
  by (induction rs) (auto simp: fun_upd_twist)

section \<open>The walk\<close>

text \<open>What the taker has in the map while it walks: a limit order rests from its acceptance on, a market order never.\<close>

definition taker_entry :: "('d \<Rightarrow> rat) \<Rightarrow> 'd taker \<Rightarrow> (string \<times> rat \<times> rat) option" where
  "taker_entry val t =
     (if no_Type (tk_o t) = Limit \<and> amt_val val (tk_remaining t) \<noteq> 0
      then Some (Side_String (no_Side (tk_o t)), amt_val val (no_Price (tk_o t)), amt_val val (tk_remaining t)) else None)"

definition walk_view :: "('d \<Rightarrow> rat) \<Rightarrow> view \<Rightarrow> 'd taker \<Rightarrow> 'd queue \<Rightarrow> view" where
  "walk_view val R t ms = (R ++ orders_view val (map snd ms))(no_OrderID (tk_o t) := taker_entry val t)"

text \<open>The ids of the queue, the taker and the other side are apart.\<close>

definition apart :: "view \<Rightarrow> OrderID \<Rightarrow> 'd queue \<Rightarrow> bool" where
  "apart R i ms \<longleftrightarrow> distinct (map (ro_OrderID \<circ> snd) ms) \<and> i \<notin> (ro_OrderID \<circ> snd) ` set ms \<and> dom R \<inter> (ro_OrderID \<circ> snd) ` set ms = {}"

lemma apart_Cons: "apart R i ((p, m) # ms) \<longleftrightarrow> apart R i ms \<and> ro_OrderID m \<notin> (ro_OrderID \<circ> snd) ` set ms \<and> ro_OrderID m \<noteq> i \<and> R (ro_OrderID m) = None"
  by (auto simp: apart_def)

lemma trade_event_ids: "trade_event seq idx o' p q u m = EvTrade tr \<Longrightarrow>
    tr_MakerOrderID tr = ro_OrderID m \<and> tr_TakerOrderID tr = no_OrderID o' \<and> tr_Qty tr = q"
  by (auto simp: trade_event_def)

lemma walk_view_stop [simp]: "walk_view val R (t\<lparr>tk_stop := x\<rparr>) ms = walk_view val R t ms"
  by (simp add: walk_view_def taker_entry_def)

context decimal
begin

lemma trade_step:
  assumes a: "apart R (no_OrderID (tk_o t)) ((p, m) # ms)" and q: "0 < V q" "V q \<le> V (ro_Remaining m)"
    and t: "taker_ok val cfg t" "taker_ok val cfg (taker_fill D q u t)"
  shows "view_step val tk (trade_event seq idx (tk_o t) p q u (maker_fill D q u m)) (walk_view val R t ((p, m) # ms)) =
    Some (if V q = V (ro_Remaining m) then walk_view val R (taker_fill D q u t) ms
          else walk_view val R (taker_fill D q u t) ((p, maker_fill D q u m) # ms))"
proof -
  let ?i = "no_OrderID (tk_o t)" and ?j = "ro_OrderID m" and ?W = "walk_view val R t ((p, m) # ms)"
  let ?M = "if V q = V (ro_Remaining m) then None else Some (Side_String (ro_Side m), V (ro_Price m), V (ro_Remaining m) - V q)"
  from a have ij: "?j \<noteq> ?i" "?i \<noteq> ?j" and R: "R ?j = None" and j: "orders_view val (map snd ms) ?j = None"
    by (auto simp: apart_Cons orders_view_None)
  have "?W ?j = Some (Side_String (ro_Side m), V (ro_Price m), V (ro_Remaining m))" using ij by (simp add: walk_view_def)
  then have less: "view_less ?j (V q) ?W = Some (?W(?j := ?M))" using q by (simp add: view_less_def)
  have W: "?W(?j := ?M) = ((R ++ orders_view val (map snd ms))(?j := ?M))(?i := taker_entry val t)"
    unfolding walk_view_def using ij by (auto simp: fun_upd_twist)
  have M: "(R ++ orders_view val (map snd ms))(?j := ?M) =
      R ++ orders_view val (map snd (if V q = V (ro_Remaining m) then ms else (p, maker_fill D q u m) # ms))"
    using R j by (auto simp: map_add_def fun_eq_iff maker_fill_def split: option.split)
  have T: "if (?W(?j := ?M)) ?i = None then taker_entry val (taker_fill D q u t) = None
      else view_less ?i (V q) (?W(?j := ?M)) = Some ((?W(?j := ?M))(?i := taker_entry val (taker_fill D q u t)))"
  proof (cases "no_Type (tk_o t) = Limit")
    case False
    then show ?thesis unfolding W by (simp add: taker_entry_def)
  next
    case True
    then have mb: "\<not> marketBuy t" by (simp add: marketBuy_def)
    with t have "0 \<le> V (tk_remaining t) - V q" by (simp add: taker_ok_def)
    with q have "0 < V (tk_remaining t)" "V q \<le> V (tk_remaining t)" by simp_all
    then show ?thesis unfolding W using True mb q(1) by (auto simp: taker_entry_def view_less_def)
  qed
  define G where "G = ?W(?j := ?M)"
  have "view_step val tk (trade_event seq idx (tk_o t) p q u (maker_fill D q u m)) ?W = Some (G(?i := taker_entry val (taker_fill D q u t)))"
  proof (cases "G ?i = None")
    case True
    with T have "G(?i := taker_entry val (taker_fill D q u t)) = G" unfolding G_def [symmetric] by (auto simp: fun_eq_iff)
    with True less show ?thesis unfolding G_def [symmetric] by (simp add: trade_event_def maker_fill_def)
  next
    case False
    with T less show ?thesis unfolding G_def [symmetric] by (auto simp: trade_event_def maker_fill_def)
  qed
  moreover have "G(?i := taker_entry val (taker_fill D q u t)) =
      (R ++ orders_view val (map snd (if V q = V (ro_Remaining m) then ms else (p, maker_fill D q u m) # ms)))(?i := taker_entry val (taker_fill D q u t))"
    unfolding G_def W M by simp
  ultimately show ?thesis unfolding walk_view_def by simp
qed

lemma walk_steps:
  assumes "MarketConfig_Validate D cfg = None" and "wf_queue val cfg side ms" and "taker_ok val cfg t"
    and "spec_match D cfg seq band idx t ms = (ms', t', evs)" and "apart R (no_OrderID (tk_o t)) ms"
  shows "view_steps val tk evs (walk_view val R t ms) = Some (walk_view val R t' ms')"
  using assms
proof (induction rule: walk_induct)
  case (part p m ms idx t q u)
  let ?m = "maker_fill D q u m"
  have q: "V q \<le> V (ro_Remaining m)" "V q \<noteq> V (ro_Remaining m)" using part by simp_all
  have ev: "maker_event D seq ?m = EvUpdated \<lparr>up_Seq = seq, up_OrderID = ro_OrderID m, up_AccountID = ro_AccountID m,
      up_FilledQty = ro_FilledQty ?m, up_FilledQuote = ro_FilledQuote ?m, up_RemainingQty = ro_Remaining ?m\<rparr>"
    using q(2) by (auto simp: maker_event_def maker_fill_def)
  have "no_OrderID (tk_o t) \<noteq> ro_OrderID m" using part.prems by (auto simp: apart_Cons)
  then have "view_step val tk (maker_event D seq ?m) (walk_view val R (taker_fill D q u t) ((p, ?m) # ms)) =
      Some (walk_view val R (taker_fill D q u t) ((p, ?m) # ms))"
    unfolding ev by (simp add: walk_view_def maker_fill_def)
  then show ?case using trade_step [OF part.prems part.hyps(8) q(1) part.hyps(1) part.hyps(11)] q(2) by simp
next
  case (full p m ms idx t q u ms' t' evs)
  let ?m = "maker_fill D q u m"
  have q: "V q \<le> V (ro_Remaining m)" "V q = V (ro_Remaining m)" using full by simp_all
  have ev: "maker_event D seq ?m = EvFilled \<lparr>fi_Seq = seq, fi_OrderID = ro_OrderID m, fi_AccountID = ro_AccountID m,
      fi_FilledQty = ro_FilledQty ?m, fi_FilledQuote = ro_FilledQuote ?m\<rparr>"
    using q(2) by (auto simp: maker_event_def maker_fill_def)
  have a: "apart R (no_OrderID (tk_o t)) ms" using full.prems by (simp add: apart_Cons)
  have "walk_view val R (taker_fill D q u t) ms (ro_OrderID m) = None"
    using full.prems by (auto simp: walk_view_def apart_Cons orders_view_None map_add_None)
  then have "view_step val tk (maker_event D seq ?m) (walk_view val R (taker_fill D q u t) ms) = Some (walk_view val R (taker_fill D q u t) ms)"
    unfolding ev by simp
  then show ?case using trade_step [OF full.prems full.hyps(8) q(1) full.hyps(1) full.hyps(10)] full.IH a q(2) by simp
qed simp_all

text \<open>The taker's last event, and the map with what rests of it.\<close>

lemma outcome_steps:
  assumes run: "taker_outcome D cmd t = (rests, final)" and t: "taker_ok val cfg t" and ty: "no_Type (tk_o t) \<in> {Limit, Market}"
  shows "view_steps val (no_OrderID (tk_o t)) final (walk_view val R t ms) =
    Some ((R ++ orders_view val (map snd ms))(no_OrderID (tk_o t) := if rests
      then Some (Side_String (no_Side (tk_o t)), V (no_Price (tk_o t)), V (tk_remaining t)) else None))"
proof (cases "exhausted D t")
  case True
  then have "taker_entry val t = None" using ty by (auto simp: taker_entry_def exhausted_def marketBuy_def split: if_splits)
  with run True show ?thesis by (auto simp: taker_outcome_def walk_view_def Let_def)
next
  case False
  then have rem: "no_Type (tk_o t) = Limit \<Longrightarrow> V (tk_remaining t) \<noteq> 0" by (simp add: exhausted_def marketBuy_def)
  have entry: "taker_entry val t = (if no_Type (tk_o t) = Limit then Some (Side_String (no_Side (tk_o t)), V (no_Price (tk_o t)), V (tk_remaining t)) else None)"
    using rem by (simp add: taker_entry_def)
  have canc: "view_step val (no_OrderID (tk_o t)) (EvCancelled (cancelledEvent D seq t r)) (walk_view val R t ms) =
      Some ((R ++ orders_view val (map snd ms))(no_OrderID (tk_o t) := None))" for seq r
    by (auto simp: walk_view_def entry cancelledEvent_def marketBuy_def Let_def)
  show ?thesis
  proof (cases "tk_stop t = None \<and> no_Type (tk_o t) = Limit \<and> no_TimeInForce (tk_o t) = GTC")
    case True
    with run False have "rests" "final = [] \<or> (\<exists>x. final = [EvUpdated x] \<and> up_OrderID x = no_OrderID (tk_o t) \<and> up_RemainingQty x = tk_remaining t)"
      by (auto simp: taker_outcome_def Let_def split: if_splits)
    with True show ?thesis by (auto simp: walk_view_def entry)
  next
    case noGTC: False
    with run False have "\<not> rests" "\<exists>r. final = [EvCancelled (cancelledEvent D (cmd_Seq cmd) t r)]"
      by (auto simp: taker_outcome_def Let_def split: if_splits option.splits)
    with canc show ?thesis by auto
  qed
qed

section \<open>A command\<close>

lemma snapshot_sides:
  assumes "s \<in> {Buy, Sell}" and "distinct (map ro_OrderID (resting (Side_Opposite s) sn @ resting s sn))"
  shows "snapshot_view val sn = orders_view val (resting s sn) ++ orders_view val (resting (Side_Opposite s) sn)"
proof -
  have "mset (map ro_OrderID (sn_Bids sn @ sn_Asks sn)) = mset (map ro_OrderID (resting (Side_Opposite s) sn @ resting s sn))"
    using assms(1) by (auto simp: resting_def Side_Opposite_def)
  with assms(2) have "distinct (map ro_OrderID (sn_Bids sn @ sn_Asks sn))" by (metis mset_eq_imp_distinct_iff)
  then have "snapshot_view val sn = orders_view val (resting (Side_Opposite s) sn @ resting s sn)"
    unfolding snapshot_view_def using assms by (intro orders_view_set) (auto simp: resting_def Side_Opposite_def)
  then show ?thesis by (simp add: orders_view_append)
qed

lemma new_steps:
  assumes ok: "book_ok D val b" and sn: "Book_Snapshot D b = Some sn" and sn': "Book_Snapshot D b' = Some sn'"
    and new: "cmd_New cmd = Some new" and app: "Apply D b cmd = Some (b', Inr evs)"
  shows "view_steps val (no_OrderID new) evs (snapshot_view val sn) = Some (snapshot_view val sn')"
  using ok sn sn' new app
proof (cases rule: new_order_cases)
  case (reject reason)
  then show ?thesis by (simp add: rejected_def snapshot_view_def)
next
  case (accept X Y t tevs rests final L)
  let ?i = "no_OrderID new" and ?o = "default_tif new" and ?side = "no_Side new" and ?R = "orders_view val (lv_orders Y)"
  note ids = lv_ids_orders [of X] lv_ids_orders [of Y] lv_ids_orders [of L]
  have distXY: "distinct (lv_ids X @ lv_ids Y)" using accept(13) by (simp add: book_rel_at_def)
  then have S: "snapshot_view val sn = ?R ++ orders_view val (map snd (flat X))"
    using snapshot_sides [OF accept(2), of sn] accept(9,11) by (simp add: ids lv_orders_flat)
  have fresh: "?i \<notin> ro_OrderID ` set (lv_orders X)" "?i \<notin> ro_OrderID ` set (lv_orders Y)" using accept(15) by (auto simp: ids)
  have a: "apart ?R ?i (flat X)"
    using distXY fresh by (auto simp: apart_def ids lv_orders_flat image_image comp_def)
  have v: "?i \<noteq> []" "no_Type new \<in> {Limit, Market}" "no_Type new = Limit \<Longrightarrow> 0 < V (no_Price new) \<and> 0 < V (no_Qty new)"
    using accept(1) by (auto simp: valid_order_def Let_def)
  have "view_step val ?i (accepted_event (cmd_Seq cmd) ?o) (snapshot_view val sn) = Some (walk_view val ?R (new_taker D ?o) (flat X))"
  proof -
    have none: "(?R ++ orders_view val (map snd (flat X))) ?i = None"
      using fresh by (simp add: map_add_None orders_view_None lv_orders_flat)
    then have "(?R ++ orders_view val (map snd (flat X)))(?i := None) = ?R ++ orders_view val (map snd (flat X))" by (simp add: fun_upd_idem)
    with none v accept(2) show ?thesis unfolding S walk_view_def
      by (auto simp: accepted_event_def taker_entry_def new_taker_def simp del: map_add_None)
  qed
  moreover have "view_steps val ?i tevs (walk_view val ?R (new_taker D ?o) (flat X)) = Some (walk_view val ?R t (flat L))"
    using walk_steps [OF accept(3-6), of ?R ?i] a by simp
  moreover have o: "tk_o t = ?o" and tok: "taker_ok val (bk_cfg b) t" using walk_taker [OF accept(3-6)] by simp_all
  then have "view_steps val ?i final (walk_view val ?R t (flat L)) =
    Some ((?R ++ orders_view val (lv_orders L))(?i := if rests then Some (Side_String ?side, V (no_Price new), V (tk_remaining t)) else None))"
    using outcome_steps [OF accept(7) tok, of ?R "flat L"] v(2) by (simp add: lv_orders_flat)
  moreover have "(?R ++ orders_view val (lv_orders L))(?i := if rests then Some (Side_String ?side, V (no_Price new), V (tk_remaining t)) else None) =
    snapshot_view val sn'"
  proof -
    let ?Y = "if rests then lv_insert D ?side (resting_of cmd t) Y else Y"
    have "ro_OrderID ` set (lv_orders L) \<subseteq> ro_OrderID ` set (lv_orders X)"
      using walk_ids [OF accept(3-6)] by (simp add: lv_orders_flat image_comp)
    with fresh(1) have L: "?i \<notin> ro_OrderID ` set (lv_orders L)" by blast
    have distL: "distinct (lv_ids L @ lv_ids ?Y)" using accept(14) by (simp add: book_rel_at_def)
    have dY: "distinct (map ro_OrderID (lv_orders ?Y))" using distL by (simp add: lv_ids_orders)
    have dY0: "distinct (map ro_OrderID (lv_orders Y))" using distXY by (simp add: ids)
    have S': "snapshot_view val sn' = orders_view val (lv_orders ?Y) ++ orders_view val (lv_orders L)"
      using snapshot_sides [OF accept(2), of sn'] distL accept(10,12) by (simp add: lv_ids_orders)
    have Lnone: "orders_view val (lv_orders L) ?i = None" using L by (simp add: orders_view_None)
    show ?thesis
    proof (cases rests)
      case False
      have "?R ?i = None" using fresh(2) by (simp add: orders_view_None)
      with Lnone have "(?R ++ orders_view val (lv_orders L)) ?i = None" by simp
      then have "(?R ++ orders_view val (lv_orders L))(?i := None) = ?R ++ orders_view val (lv_orders L)" by (rule fun_upd_idem)
      with False show ?thesis unfolding S' by simp
    next
      case True
      let ?r = "resting_of cmd t"
      have r: "ro_OrderID ?r = ?i" "ro_Side ?r = ?side" "ro_Price ?r = no_Price new" "ro_Remaining ?r = tk_remaining t"
        by (simp_all add: resting_of_def o)
      have sY: "sorted_wrt (val_better val ?side) (map fst Y)"
        using accept(13,2) by (auto simp: book_rel_at_def wf_side_def Side_Opposite_Opposite)
      have "orders_view val (lv_orders ?Y) = ?R(?i \<mapsto> (Side_String ?side, V (no_Price new), V (tk_remaining t)))"
        using orders_view_insert [OF dY0 dY, of ?r] lv_orders_insert [OF sY, of ?r] fresh(2) True by (simp add: r)
      with True Lnone show ?thesis unfolding S' by (auto simp: map_add_def fun_eq_iff split: option.split)
    qed
  qed
  ultimately show ?thesis unfolding accept(8) by (simp add: view_steps_append)
qed

lemma cancel_steps:
  assumes ok: "book_ok D val b" and sn: "Book_Snapshot D b = Some sn" and sn': "Book_Snapshot D b' = Some sn'"
    and cmd: "cmd_New cmd = None" "cmd_Cancel cmd = Some c" and app: "Apply D b cmd = Some (b', Inr evs)"
  shows "(\<exists>r. evs = [EvCancelRejected r]) \<or>
    (\<exists>x. evs = [EvCancelled x] \<and> view_steps val tk evs (snapshot_view val sn) = Some (snapshot_view val sn'))"
proof (cases "find (\<lambda>r. ro_OrderID r = ca_OrderID c) (sn_Bids sn @ sn_Asks sn)")
  case None
  with apply_cancel_exact [OF assms] show ?thesis by simp
next
  case (Some r)
  then obtain k where k: "k < length (sn_Bids sn @ sn_Asks sn)" "ro_OrderID ((sn_Bids sn @ sn_Asks sn) ! k) = ca_OrderID c"
    "r = (sn_Bids sn @ sn_Asks sn) ! k" unfolding find_Some_iff by blast
  then have r: "r \<in> set (sn_Bids sn @ sn_Asks sn)" "ro_OrderID r = ca_OrderID c"
    using nth_mem [OF k(1)] by simp_all
  from ok obtain B A where rel: "book_rel D val b B A" by (auto simp: book_ok_def)
  have "distinct (map ro_OrderID (sn_Bids sn @ sn_Asks sn))"
    using rel snapshot_rel [OF rel] sn by (auto simp: book_rel_def lv_ids_orders)
  from orders_view_in [OF this r(1), of val] have "snapshot_view val sn (ca_OrderID c) = Some (Side_String (ro_Side r), V (ro_Price r), V (ro_Remaining r))"
    by (simp add: snapshot_view_def r(2))
  moreover have "snapshot_view val (sn\<lparr>sn_LastSeq := cmd_Seq cmd, sn_Bids := filter (\<lambda>x. ro_OrderID x \<noteq> ca_OrderID c) (sn_Bids sn),
      sn_Asks := filter (\<lambda>x. ro_OrderID x \<noteq> ca_OrderID c) (sn_Asks sn)\<rparr>) = (snapshot_view val sn)(ca_OrderID c := None)"
    by (simp add: snapshot_view_def orders_view_filter flip: filter_append)
  ultimately show ?thesis using apply_cancel_exact [OF assms] Some r(2) by (auto split: if_splits)
qed

end

end
