(* ===== verification/Shadow_Follow.thy ===== *)
theory Shadow_Follow
  imports Shadow_Engine
begin

text \<open>
  The projector follows the engine: fed with what the engine publishes for one command, a live projector that agrees
  with the snapshot of the book before it emits one delta and agrees with the snapshot after it. The rules by which
  it finds the last event of a command (\<open>expectsTakerEvent\<close>, the event of the taker itself) are shown to be right.
\<close>

section \<open>Agreement\<close>

definition agrees :: "'d decimal_pkg \<Rightarrow> ('d \<Rightarrow> rat) \<Rightarrow> 'd Snapshot \<Rightarrow> 'd BookProjector \<Rightarrow> bool" where
  "agrees D val sn p \<longleftrightarrow> live_ok D val p \<and> bp_open p = None \<and> bp_Seq p = sn_LastSeq sn \<and> book_view val (bp_book p) = snapshot_view val sn"

text \<open>The inputs of a projector that are the envelopes of these events, in order.\<close>

definition published :: "'d decimal_pkg \<Rightarrow> ('d \<Rightarrow> rat) \<Rightarrow> string \<Rightarrow> 'd Event list \<Rightarrow> proj_input list \<Rightarrow> bool" where
  "published D val market = list_all2 (\<lambda>ev x. case x of ApplyAt now e \<Rightarrow> carries D val market ev e | FlushNow \<Rightarrow> False)"

text \<open>The order an event reports progress of.\<close>

fun progress_of :: "'d Event \<Rightarrow> OrderID option" where
  "progress_of (EvUpdated u) = Some (up_OrderID u)"
| "progress_of (EvFilled f) = Some (fi_OrderID f)"
| "progress_of (EvCancelled c) = Some (cn_OrderID c)"
| "progress_of _ = None"

fun inner :: "'d Event \<Rightarrow> bool" where
  "inner (EvTrade _) = True"
| "inner ev = (progress_of ev \<noteq> None)"

lemma published_Cons: "published D val mkt (ev # evs) xs \<longleftrightarrow> (\<exists>now e ys. xs = ApplyAt now e # ys \<and> carries D val mkt ev e \<and> published D val mkt evs ys)"
  by (cases xs) (auto simp: published_def split: proj_input.splits)

lemma published_Nil [simp]: "published D val mkt [] xs \<longleftrightarrow> xs = []"
  by (simp add: published_def)

lemma published_append: "published D val mkt (evs @ evs') xs \<longleftrightarrow> (\<exists>ys zs. xs = ys @ zs \<and> published D val mkt evs ys \<and> published D val mkt evs' zs)"
  unfolding published_def list_all2_append1 by (metis list_all2_lengthD)

lemma feed_append:
  "feed D p xs = (p1, ds, None) \<Longrightarrow> feed D p1 ys = (p2, ds2, r) \<Longrightarrow> feed D p (xs @ ys) = (p2, ds @ ds2, r)"
  by (induction xs arbitrary: p ds) (auto split: prod.splits option.splits)

definition envelopes :: "proj_input list \<Rightarrow> Envelope list" where
  "envelopes xs = concat (map (\<lambda>x. case x of ApplyAt now e \<Rightarrow> [e] | FlushNow \<Rightarrow> []) xs)"

lemma envelopes_simps [simp]: "envelopes [] = []" "envelopes (ApplyAt now e # xs) = e # envelopes xs" "envelopes (xs @ ys) = envelopes xs @ envelopes ys"
  by (simp_all add: envelopes_def)

lemma published_envelopes: "published D val mkt evs xs \<Longrightarrow> list_all2 (carries D val mkt) evs (envelopes xs)"
  by (induction evs arbitrary: xs) (auto simp: published_Cons)

context decimal
begin

section \<open>One envelope\<close>

text \<open>A command closes: the book takes its events, and there is a delta.\<close>

lemma close_follows:
  assumes p: "live_ok D val p" and bt: "bp_open p = Some bt" and es: "list_all2 (carries D val (bp_market p)) evs (bt_events bt)"
    and steps: "view_steps val (bt_takerID bt) evs (book_view val (bp_book p)) = Some g"
  shows "\<exists>p' d. closeOne D p = (p', [d], None) \<and> dl_Seq d = bt_seq bt \<and> live_ok D val p' \<and> bp_open p' = None \<and>
    bp_Seq p' = bt_seq bt \<and> book_view val (bp_book p') = g \<and> bp_market p' = bp_market p"
proof -
  have ok: "shadow_ok D val (bp_book p)" using p by (simp add: live_ok_def)
  from apply_events_steps [OF es ok steps, of "[]"] obtain b ts where
    run: "apply_events D (bt_takerID bt) (bt_events bt) (bp_book p) [] = (b, ts, None)" and b: "becomes (bp_book p) b g" by blast
  then obtain p' d where c: "closeOne D p = (p', [d], None)" "dl_Seq d = bt_seq bt" "p' = p\<lparr>bp_open := None, bp_book := b\<lparr>sk_seq := bt_seq bt\<rparr>\<rparr>"
    by (auto simp: closeOne_def proj_close_def close_batch_def bt)
  with closeOne_ok [OF p c(1)] b show ?thesis by (auto simp: bp_Seq_def becomes_def book_view_def)
qed

lemma apply_first:
  assumes "live_ok D val p" "bp_open p = None" "carries D val (bp_market p) ev e" "CommandSeq ev = sk_seq (bp_book p) + 1" "sk_seq (bp_book p) < CommandSeq ev"
    and "proj_dispatch D now e (CommandSeq ev) p = (p', ds, None)"
  shows "proj_step D p (ApplyAt now e) = (p', ds, None)"
proof -
  have "\<not> CommandSeq ev \<le> sk_seq (bp_book p)" using assms(5) by (simp add: not_le)
  with assms(1-4,6) show ?thesis unfolding carries_def live_ok_def by (simp add: proj_Apply_def apply_live_def)
qed

lemma apply_more:
  assumes "live_ok D val p" "bp_open p = Some bt" "carries D val (bp_market p) ev e" "CommandSeq ev = bt_seq bt"
  shows "proj_step D p (ApplyAt now e) = proj_dispatch D now e (bt_seq bt) p"
proof -
  have "sk_seq (bp_book p) < bt_seq bt" using assms(1,2) unfolding live_ok_def by blast
  then have "\<not> bt_seq bt \<le> sk_seq (bp_book p)" by (simp only: not_le)
  with assms show ?thesis unfolding carries_def live_ok_def by (simp add: proj_Apply_def apply_live_def)
qed

lemma carries_progress:
  assumes "carries D val mkt ev e" and "progress_of ev = Some i"
  shows "\<exists>r. decode_progress D e = Inr r \<and> jp_OrderID r = i"
proof -
  from assms(1) obtain pl where pl: "ev_Payload e = Some (payload_json D pl)" and s: "says D val pl ev" by (auto simp: carries_def)
  from assms(2) show ?thesis
  proof (cases ev)
    case (EvUpdated u)
    with s obtain p where "pl = PUpdated p" by (cases pl) simp_all
    with decode_progress_ok(2) [of e p] pl s EvUpdated assms(2) show ?thesis by (auto simp: same_amount_def)
  next
    case (EvFilled f)
    with s obtain p where "pl = PFilled p" by (cases pl) simp_all
    with decode_progress_ok(1) [of e p] pl s EvFilled assms(2) show ?thesis by auto
  next
    case (EvCancelled c)
    with s obtain p where "pl = PCancelled p" by (cases pl) simp_all
    with decode_progress_ok(3) [of e p] pl s EvCancelled assms(2) show ?thesis by (auto simp: same_amount_def)
  qed simp_all
qed

text \<open>An event inside a command is collected, and ends the command when it is the taker's.\<close>

lemma dispatch_inner:
  assumes bt: "bp_open p = Some bt" and c: "carries D val mkt ev e" and i: "inner ev"
  shows "proj_dispatch D now e seq p =
    (if progress_of ev = Some (bt_takerID bt) then closeOne D (append_event e p) else (append_event e p, [], None))"
proof (cases "progress_of ev")
  case None
  with i obtain t where "ev = EvTrade t" by (cases ev) simp_all
  with c bt show ?thesis by (simp add: proj_dispatch_def carries_def type_names md_types)
next
  case (Some j)
  with carries_progress [OF c] obtain r where r: "decode_progress D e = Inr r" "jp_OrderID r = j" by blast
  have "ev_EventType e \<in> {md_OrderUpdated, md_OrderFilled, md_OrderCancelled}"
    using c Some by (cases ev) (simp_all add: carries_def type_names)
  then show ?thesis using bt r Some
    by (auto simp: proj_dispatch_def md_types dispatch_progress_def dispatch_cancelled_def collect_def)
qed

lemma feed_inner:
  assumes p: "live_ok D val p" and bt: "bp_open p = Some bt" and pub: "published D val (bp_market p) evs xs"
    and evs: "\<forall>ev \<in> set evs. inner ev \<and> progress_of ev \<noteq> Some (bt_takerID bt) \<and> CommandSeq ev = bt_seq bt"
  shows "feed D p xs = (p\<lparr>bp_open := Some (bt\<lparr>bt_events := bt_events bt @ envelopes xs\<rparr>)\<rparr>, [], None)"
  using assms
proof (induction evs arbitrary: p bt xs)
  case Nil
  then show ?case by simp
next
  case (Cons ev evs)
  from Cons.prems(3) obtain now e ys where xs: "xs = ApplyAt now e # ys" and c: "carries D val (bp_market p) ev e"
    and ys: "published D val (bp_market p) evs ys" by (auto simp: published_Cons)
  let ?bt = "bt\<lparr>bt_events := bt_events bt @ [e]\<rparr>"
  let ?p = "p\<lparr>bp_open := Some ?bt\<rparr>"
  have ap: "append_event e p = ?p" using Cons.prems(2) by (simp add: append_event_def)
  have "proj_step D p (ApplyAt now e) = (?p, [], None)"
    using apply_more [OF Cons.prems(1,2) c] dispatch_inner [OF Cons.prems(2) c] Cons.prems(4) ap by simp
  moreover have "feed D ?p ys = (?p\<lparr>bp_open := Some (?bt\<lparr>bt_events := bt_events ?bt @ envelopes ys\<rparr>)\<rparr>, [], None)"
    using append_event_ok(1) [OF Cons.prems(1), of e] Cons.prems(4) ys unfolding ap by (intro Cons.IH) simp_all
  ultimately show ?case by (simp add: xs)
qed

section \<open>The shape of a command's events\<close>

lemma walk_inner:
  assumes "MarketConfig_Validate D cfg = None" and "wf_queue val cfg side ms" and "taker_ok val cfg t"
    and "spec_match D cfg seq band idx t ms = (ms', t', evs)"
  shows "\<forall>ev \<in> set evs. inner ev \<and> CommandSeq ev = seq \<and> (\<forall>i. progress_of ev = Some i \<longrightarrow> i \<in> ro_OrderID ` set (map snd ms))"
  using assms
proof (induction rule: walk_induct)
  case (part p m ms idx t q u)
  then show ?case by (simp add: trade_event_def maker_event_def maker_fill_def CommandSeq_def)
next
  case (full p m ms idx t q u ms' t' evs)
  then show ?case by (auto simp: trade_event_def maker_event_def maker_fill_def CommandSeq_def)
qed simp_all

lemma outcome_inner:
  assumes "taker_outcome D cmd t = (rests, final)"
  shows "final = [] \<or> (\<exists>ev. final = [ev] \<and> inner ev \<and> CommandSeq ev = cmd_Seq cmd \<and> progress_of ev = Some (no_OrderID (tk_o t)))"
  using assms by (auto simp: taker_outcome_def Let_def CommandSeq_def cancelledEvent_def split: if_splits option.splits)

text \<open>An order that cannot trade at once and rests: nothing after its acceptance. Any other has a last event of its own.\<close>

definition rests_untouched :: "'d NewOrder \<Rightarrow> 'd queue \<Rightarrow> bool" where
  "rests_untouched o' ms \<longleftrightarrow> no_Type o' = Limit \<and> no_TimeInForce o' = GTC \<and>
     (case ms of [] \<Rightarrow> True | (p, m) # _ \<Rightarrow> \<not> crosses D (no_Side o') (no_Price o') p)"

lemma events_after_accept:
  assumes cfg: "MarketConfig_Validate D cfg = None" and q: "wf_queue val cfg side ms" and t: "taker_ok val cfg (new_taker D o')"
    and run: "spec_match D cfg seq band 0 (new_taker D o') ms = (ms', t', evs)" and out: "taker_outcome D cmd t' = (rests, final)"
    and qty: "no_Type o' = Limit \<Longrightarrow> 0 < V (no_Qty o')"
  shows "if rests_untouched o' ms then evs = [] \<and> final = [] else final \<noteq> []"
proof (cases "rests_untouched o' ms")
  case True
  then have r: "no_Type o' = Limit" "no_TimeInForce o' = GTC" by (simp_all add: rests_untouched_def)
  have "spec_match D cfg seq band 0 (new_taker D o') ms = (ms, new_taker D o', [])"
    using True by (cases ms) (auto simp: rests_untouched_def spec_match.simps Let_def)
  with run have "t' = new_taker D o'" "evs = []" by simp_all
  moreover have "\<not> exhausted D (new_taker D o')" using r qty by (simp add: exhausted_def marketBuy_def)
  ultimately show ?thesis using True out r by (simp add: taker_outcome_def)
next
  case False
  have "final \<noteq> []"
  proof
    assume "final = []"
    note w = walk_taker [OF cfg q t run]
    from out \<open>final = []\<close> have ne: "\<not> exhausted D t'" and st: "tk_stop t' = None" and r: "no_Type o' = Limit" "no_TimeInForce o' = GTC"
      and f: "\<not> 0 < V (tk_filledQty t')"
      using w by (auto simp: taker_outcome_def Let_def split: if_splits option.splits)
    have pos: "\<forall>tr \<in> set (trades evs). 0 < V (tr_Qty tr)" using walk_trades [OF cfg q t run] by blast
    have "trades evs = []"
    proof (rule ccontr)
      assume "trades evs \<noteq> []"
      then obtain tr trs where trs: "trades evs = tr # trs" by (cases "trades evs") simp_all
      have "0 \<le> (\<Sum>tr\<leftarrow>trs. V (tr_Qty tr))" using pos trs by (intro sum_list_nonneg) (auto simp: less_imp_le)
      then have "0 < (\<Sum>tr\<leftarrow>trades evs. V (tr_Qty tr))" using pos trs by simp
      with f w show False by simp
    qed
    then have ms: "ms' = ms" using walk_priority [OF cfg q t run] by (auto simp: walk_result_def)
    have "\<not> finished D cfg t' p" for p using ne r w by (simp add: finished_def marketBuy_def)
    with walk_stop(1) [OF cfg q t run] st ms have "ms = [] \<or> \<not> crosses D (no_Side o') (no_Price o') (fst (hd ms))" by auto
    with False r show False by (auto simp: rests_untouched_def split: list.splits)
  qed
  with False show ?thesis by simp
qed

section \<open>Whether a taker's event is expected\<close>

lemma at_price_orders:
  assumes "distinct (map ro_OrderID rs)"
  shows "at_price (orders_view val rs) s v \<noteq> {} \<longleftrightarrow> (\<exists>r \<in> set rs. Side_String (ro_Side r) = s \<and> V (ro_Price r) = v)"
proof
  assume "at_price (orders_view val rs) s v \<noteq> {}"
  then obtain i x where i: "orders_view val rs i = Some (s, v, x)" by (auto simp: at_price_def)
  then have "i \<in> ro_OrderID ` set rs" using orders_view_None [of val rs i] by auto
  then obtain r where "r \<in> set rs" "i = ro_OrderID r" by blast
  with orders_view_in [OF assms this(1), of val] i show "\<exists>r \<in> set rs. Side_String (ro_Side r) = s \<and> V (ro_Price r) = v" by auto
next
  assume "\<exists>r \<in> set rs. Side_String (ro_Side r) = s \<and> V (ro_Price r) = v"
  then obtain r where r: "r \<in> set rs" "Side_String (ro_Side r) = s" "V (ro_Price r) = v" by blast
  from orders_view_in [OF assms r(1), of val] r(2,3) show "at_price (orders_view val rs) s v \<noteq> {}" by (auto simp: at_price_def)
qed

text \<open>The best price of a shadow side is that of the first order in the queue.\<close>

lemma shadow_Best_queue:
  assumes ok: "shadow_ok D val b" and s: "s \<in> {Buy, Sell}"
    and view: "\<And>v. at_price (book_view val b) (Side_String s) v \<noteq> {} \<longleftrightarrow> (\<exists>m \<in> snd ` set ms. V (ro_Price m) = v)"
    and q: "wf_queue val cfg s ms" and sorted: "sorted_wrt (\<lambda>a b. V (fst a) = V (fst b) \<or> val_better val s (fst a) (fst b)) ms"
  shows "case ms of [] \<Rightarrow> shadow_Best b (Side_String s) = None
    | (p, m) # _ \<Rightarrow> (\<exists>best. shadow_Best b (Side_String s) = Some best \<and> V best = V p)"
proof -
  have st: "Side_String s \<in> {md_Buy, md_Sell}" "Side_String s = md_Buy \<longleftrightarrow> s = Buy" using s by auto
  note best = shadow_Best_ok [OF ok st(1)]
  have price: "V (ro_Price m) = V p" if "(p, m) \<in> set ms" for p m using q that by (auto simp: wf_queue_def wf_order_def)
  show ?thesis
  proof (cases ms)
    case Nil
    then have "at_price (book_view val b) (Side_String s) v = {}" for v using view [of v] by auto
    with best Nil show ?thesis by (auto split: option.splits)
  next
    case (Cons a ms')
    obtain p m where a: "a = (p, m)" by (cases a)
    have head: "at_price (book_view val b) (Side_String s) (V p) \<noteq> {}" unfolding view using Cons a price [of p m] by force
    with best obtain x where x: "shadow_Best b (Side_String s) = Some x" "at_price (book_view val b) (Side_String s) (V x) \<noteq> {}"
      and better: "V p = V x \<or> (if Side_String s = md_Buy then V p < V x else V x < V p)"
      by (auto split: option.splits)
    from x(2) obtain p' m' where m': "(p', m') \<in> set ms" "V (ro_Price m') = V x" unfolding view by auto
    with price have "V p' = V x" by simp
    moreover have "V p = V p' \<or> val_better val s p p'" using m'(1) sorted Cons a by fastforce
    ultimately have "V x = V p" using better st(2) by (auto simp: val_better_def split: if_splits)
    with x(1) Cons a show ?thesis by auto
  qed
qed

lemma expects_taker:
  assumes ok: "shadow_ok D val b" and s: "no_Side o' \<in> {Buy, Sell}"
    and view: "\<And>v. at_price (book_view val b) (Side_String (Side_Opposite (no_Side o'))) v \<noteq> {} \<longleftrightarrow> (\<exists>m \<in> snd ` set ms. V (ro_Price m) = v)"
    and q: "wf_queue val cfg (Side_Opposite (no_Side o')) ms"
    and sorted: "sorted_wrt (\<lambda>a b. V (fst a) = V (fst b) \<or> val_better val (Side_Opposite (no_Side o')) (fst a) (fst b)) ms"
    and c: "carries D val mkt (accepted_event seq o') e"
  shows "\<exists>acc. decode_accepted D e = Inr acc \<and> ja_OrderID acc = no_OrderID o' \<and> expectsTakerEvent D b acc = (\<not> rests_untouched o' ms)"
proof -
  let ?opp = "Side_Opposite (no_Side o')"
  from c obtain pl where pl: "ev_Payload e = Some (payload_json D pl)" and says: "says D val pl (accepted_event seq o')" by (auto simp: carries_def)
  from says obtain p where p: "pl = PAccepted p" by (cases pl) (simp_all add: accepted_event_def)
  from says p have v: "valid_opt D (oa_Price p)" "valid_opt D (oa_Qty p)" and t: "oa_OrderID p = no_OrderID o'" "oa_Side p = Side_String (no_Side o')"
    "oa_Type p = OrderType_String (no_Type o')" "oa_TimeInForce p = TimeInForce_String (no_TimeInForce o')"
    "no_Type o' = Limit \<longrightarrow> (\<exists>x. oa_Price p = Some x \<and> V x = V (no_Price o'))" by (auto simp: accepted_event_def)
  obtain acc where acc: "decode_accepted D e = Inr acc" "ja_OrderID acc = oa_OrderID p" "ja_Side acc = oa_Side p" "ja_Type acc = oa_Type p"
    "ja_TimeInForce acc = oa_TimeInForce p" "rel_option (\<lambda>a b. V a = V b) (ja_Price acc) (oa_Price p)"
    using pl [unfolded p] v by (rule decode_accepted_ok)
  have types: "OrderType_String ty = ''limit'' \<longleftrightarrow> ty = Limit" "TimeInForce_String tf = ''gtc'' \<longleftrightarrow> tf = GTC" for ty tf
    by (auto simp: OrderType_String_def TimeInForce_String_def split: OrderType.splits TimeInForce.splits)
  have opp: "md_Opposite (Side_String (no_Side o')) = Side_String ?opp" and so: "?opp \<in> {Buy, Sell}"
    using s by (auto simp: md_Opposite_def Side_Opposite_def)
  note best = shadow_Best_queue [OF ok so view q sorted]
  have "expectsTakerEvent D b acc = (\<not> rests_untouched o' ms)"
  proof (cases "no_Type o' = Limit \<and> no_TimeInForce o' = GTC")
    case False
    then show ?thesis by (auto simp: expectsTakerEvent_def acc t types rests_untouched_def)
  next
    case True
    with t(5) acc(6) obtain x where x: "ja_Price acc = Some x" "V x = V (no_Price o')" by (auto simp: option_rel_Some2)
    have cross: "md_crosses D (Side_String (no_Side o')) x best = crosses D (no_Side o') (no_Price o') p" if "V best = V p" for best p
      using s that x(2) by (auto simp: md_crosses_def crosses_def)
    show ?thesis using True x best cross
      by (auto simp: expectsTakerEvent_def acc t types opp rests_untouched_def split: list.splits)
  qed
  with acc t show ?thesis by auto
qed

section \<open>A command\<close>

lemma snapshot_seq: "book_ok D val b \<Longrightarrow> Book_Snapshot D b = Some sn \<Longrightarrow> sn_LastSeq sn = bk_lastSeq b"
  unfolding book_ok_def using snapshot_rel by fastforce

lemma applied_seq:
  assumes "book_ok D val b" and "Apply D b cmd = Some (b', Inr evs)"
  shows "bk_lastSeq b < cmd_Seq cmd" "bk_lastSeq b' = cmd_Seq cmd" "book_ok D val b'" "(cmd_New cmd = None) \<noteq> (cmd_Cancel cmd = None)"
  using apply_total [OF assms(1), of cmd] assms(2) by (auto simp: not_le split: if_splits)

lemma agreesI:
  assumes "live_ok D val p" "bp_open p = None" "bp_Seq p = sn_LastSeq sn" "book_view val (bp_book p) = snapshot_view val sn"
  shows "agrees D val sn p"
  using assms by (simp add: agrees_def)

text \<open>A command that is one event: the command of a cancel, or a rejection.\<close>

lemma single_follows:
  assumes p: "agrees D val sn p" and seq: "cmd_Seq cmd = sk_seq (bp_book p) + 1" "sk_seq (bp_book p) < cmd_Seq cmd"
    and c: "carries D val (bp_market p) ev e" "CommandSeq ev = cmd_Seq cmd"
    and ev: "(\<exists>r. ev = EvRejected r) \<and> g = snapshot_view val sn \<or> (\<exists>x. ev = EvCancelled x) \<and> view_steps val [] [ev] (snapshot_view val sn) = Some g"
  shows "\<exists>p' d. feed D p [ApplyAt now e] = (p', [d], None) \<and> dl_Seq d = cmd_Seq cmd \<and> live_ok D val p' \<and> bp_open p' = None \<and>
    bp_Seq p' = cmd_Seq cmd \<and> book_view val (bp_book p') = g \<and> bp_market p' = bp_market p"
proof -
  from p have live: "live_ok D val p" and o: "bp_open p = None" and view: "book_view val (bp_book p) = snapshot_view val sn" by (simp_all add: agrees_def)
  let ?evs = "if \<exists>r. ev = EvRejected r then [] else [ev]" and ?es = "if \<exists>r. ev = EvRejected r then [] else [e]"
  let ?bt = "\<lparr>bt_seq = cmd_Seq cmd, bt_at = ev_OccurredAt e, bt_takerID = [], bt_awaitTaker = False, bt_events = ?es, bt_openedAt = now\<rparr>"
  let ?p = "p\<lparr>bp_open := Some ?bt\<rparr>"
  have live': "live_ok D val ?p" using live seq by (simp add: live_ok_def)
  have "list_all2 (carries D val (bp_market ?p)) ?evs (bt_events ?bt)" using c by simp
  moreover have "view_steps val (bt_takerID ?bt) ?evs (book_view val (bp_book ?p)) = Some g" using ev view by auto
  ultimately obtain p' d where run: "closeOne D ?p = (p', [d], None)" and d: "dl_Seq d = bt_seq ?bt" "live_ok D val p'" "bp_open p' = None"
    "bp_Seq p' = bt_seq ?bt" "book_view val (bp_book p') = g" "bp_market p' = bp_market ?p"
    using close_follows [OF live', of ?bt ?evs g] by auto
  have "proj_dispatch D now e (CommandSeq ev) p = (p', [d], None)"
  proof (cases "\<exists>r. ev = EvRejected r")
    case True
    then have "ev_EventType e = md_OrderRejected" using c(1) by (auto simp: carries_def type_names)
    with run o True c(2) show ?thesis by (simp add: proj_dispatch_def md_types dispatch_rejected_def)
  next
    case False
    with ev obtain x where x: "ev = EvCancelled x" by blast
    then have "ev_EventType e = md_OrderCancelled" using c(1) by (simp add: carries_def type_names)
    with carries_progress [OF c(1), of "cn_OrderID x"] x run o c(2) show ?thesis
      by (auto simp: proj_dispatch_def md_types dispatch_cancelled_def)
  qed
  with apply_first [OF live o c(1)] seq c(2) have "proj_step D p (ApplyAt now e) = (p', [d], None)" by simp
  with d show ?thesis by simp
qed

text \<open>A command that is accepted: it is opened, collected and closed, or closed at once.\<close>

lemma accepted_follows:
  assumes p: "agrees D val sn p" and seq: "cmd_Seq cmd = sk_seq (bp_book p) + 1" "sk_seq (bp_book p) < cmd_Seq cmd"
    and dec: "decode_accepted D e = Inr acc" "ja_OrderID acc = i" "expectsTakerEvent D (bp_book p) acc \<longleftrightarrow> final \<noteq> []"
    and c: "carries D val (bp_market p) (EvAccepted a) e" "ac_Seq a = cmd_Seq cmd"
    and mid: "\<forall>ev \<in> set mid. inner ev \<and> CommandSeq ev = cmd_Seq cmd \<and> progress_of ev \<noteq> Some i" "final = [] \<Longrightarrow> mid = []"
    and fin: "final = [] \<or> (\<exists>ev. final = [ev] \<and> inner ev \<and> CommandSeq ev = cmd_Seq cmd \<and> progress_of ev = Some i)"
    and xs: "published D val (bp_market p) (mid @ final) xs"
    and steps: "view_steps val i (EvAccepted a # mid @ final) (snapshot_view val sn) = Some g"
  shows "\<exists>p' d. feed D p (ApplyAt now e # xs) = (p', [d], None) \<and> dl_Seq d = cmd_Seq cmd \<and> live_ok D val p' \<and> bp_open p' = None \<and>
    bp_Seq p' = cmd_Seq cmd \<and> book_view val (bp_book p') = g \<and> bp_market p' = bp_market p"
proof -
  from p have live: "live_ok D val p" and o: "bp_open p = None" and view: "book_view val (bp_book p) = snapshot_view val sn" by (simp_all add: agrees_def)
  let ?bt = "\<lparr>bt_seq = cmd_Seq cmd, bt_at = ev_OccurredAt e, bt_takerID = i, bt_awaitTaker = (final \<noteq> []), bt_events = [e], bt_openedAt = now\<rparr>"
  let ?p = "p\<lparr>bp_open := Some ?bt\<rparr>"
  have live': "live_ok D val ?p" using live seq by (simp add: live_ok_def)
  have cs: "CommandSeq (EvAccepted a) = cmd_Seq cmd" using c(2) by (simp add: CommandSeq_def)
  have "ev_EventType e = md_OrderAccepted" using c(1) by (simp add: carries_def type_names)
  then have disp: "proj_dispatch D now e (CommandSeq (EvAccepted a)) p = (if final \<noteq> [] then (?p, [], None) else closeOne D ?p)"
    using o dec cs by (simp add: proj_dispatch_def dispatch_accepted_def Let_def)
  note close = close_follows [where evs = "EvAccepted a # mid @ final" and g = g]
  show ?thesis
  proof (cases "final = []")
    case True
    with mid(2) xs have "xs = []" "mid = []" by simp_all
    then obtain p' d where run: "closeOne D ?p = (p', [d], None)" and d: "dl_Seq d = bt_seq ?bt" "live_ok D val p'" "bp_open p' = None"
      "bp_Seq p' = bt_seq ?bt" "book_view val (bp_book p') = g" "bp_market p' = bp_market ?p"
      using close [OF live', of ?bt] c(1) steps True view by auto
    with apply_first [OF live o c(1)] seq cs disp True have "proj_step D p (ApplyAt now e) = (p', [d], None)" by simp
    with d \<open>xs = []\<close> show ?thesis by simp
  next
    case False
    with fin obtain ev where ev: "final = [ev]" "inner ev" "CommandSeq ev = cmd_Seq cmd" "progress_of ev = Some i" by blast
    from xs ev(1) obtain ys now' e' where ys: "xs = ys @ [ApplyAt now' e']" "published D val (bp_market p) mid ys" "carries D val (bp_market p) ev e'"
      by (auto simp: published_append published_Cons)
    let ?bt1 = "?bt\<lparr>bt_events := e # envelopes ys\<rparr>" and ?bt2 = "?bt\<lparr>bt_events := e # envelopes ys @ [e']\<rparr>"
    let ?p1 = "p\<lparr>bp_open := Some ?bt1\<rparr>" and ?p2 = "p\<lparr>bp_open := Some ?bt2\<rparr>"
    have first: "proj_step D p (ApplyAt now e) = (?p, [], None)" using apply_first [OF live o c(1)] seq cs disp False by simp
    have middle: "feed D ?p ys = (?p1, [], None)"
      using feed_inner [OF live', of ?bt mid ys] ys(2) mid(1) by simp
    have live1: "live_ok D val ?p1" and live2: "live_ok D val ?p2" using live seq by (simp_all add: live_ok_def)
    have "list_all2 (carries D val (bp_market ?p2)) (EvAccepted a # mid @ final) (bt_events ?bt2)"
      using c(1) published_envelopes [OF ys(2)] ys(3) ev(1) by (simp add: list_all2_appendI)
    then obtain p' d where run: "closeOne D ?p2 = (p', [d], None)" and d: "dl_Seq d = bt_seq ?bt2" "live_ok D val p'" "bp_open p' = None"
      "bp_Seq p' = bt_seq ?bt2" "book_view val (bp_book p') = g" "bp_market p' = bp_market ?p2"
      using close [OF live2, of ?bt2] steps view by auto
    have "proj_dispatch D now' e' (cmd_Seq cmd) ?p1 = closeOne D (append_event e' ?p1)"
      using dispatch_inner [of ?p1 ?bt1, OF _ ys(3) ev(2)] ev(4) by simp
    moreover have "append_event e' ?p1 = ?p2" by (simp add: append_event_def)
    ultimately have "proj_step D ?p1 (ApplyAt now' e') = (p', [d], None)"
      using apply_more [OF live1, of ?bt1 ev e' now'] ys(3) ev(3) run by simp
    then have "feed D ?p1 [ApplyAt now' e'] = (p', [d], None)" by simp
    from feed_append [OF middle this] first d ys(1) show ?thesis by simp
  qed
qed

lemma follows_command:
  assumes ok: "book_ok D val b" and sn: "Book_Snapshot D b = Some sn" and sn': "Book_Snapshot D b' = Some sn'"
    and app: "Apply D b cmd = Some (b', Inr evs)" and seq: "cmd_Seq cmd = sn_LastSeq sn + 1"
    and p: "agrees D val sn p" and xs: "published D val (bp_market p) evs xs"
  shows "\<exists>p' d. feed D p xs = (p', [d], None) \<and> dl_Seq d = cmd_Seq cmd \<and> agrees D val sn' p' \<and> bp_market p' = bp_market p"
proof -
  note applied = applied_seq [OF ok app]
  have last: "sn_LastSeq sn = sk_seq (bp_book p)" "sn_LastSeq sn' = cmd_Seq cmd"
    using p snapshot_seq [OF applied(3) sn'] applied(2) by (simp_all add: agrees_def bp_Seq_def)
  then have s: "cmd_Seq cmd = sk_seq (bp_book p) + 1" "sk_seq (bp_book p) < cmd_Seq cmd"
    using seq applied(1) snapshot_seq [OF ok sn] by simp_all
  have fin: ?thesis if "\<exists>p' d. feed D p xs = (p', [d], None) \<and> dl_Seq d = cmd_Seq cmd \<and> live_ok D val p' \<and> bp_open p' = None \<and>
    bp_Seq p' = cmd_Seq cmd \<and> book_view val (bp_book p') = snapshot_view val sn' \<and> bp_market p' = bp_market p"
    using that last(2) unfolding agrees_def by auto
  show ?thesis
  proof (cases "cmd_New cmd")
    case None
    with applied(4) obtain c where c: "cmd_Cancel cmd = Some c" by auto
    from xs have "evs \<noteq> [EvCancelRejected r]" for r by (auto simp: published_Cons carries_def elim: says.elims)
    with cancel_steps [OF ok sn sn' None c app, of "[]"] obtain x where x: "evs = [EvCancelled x]"
      "view_steps val [] evs (snapshot_view val sn) = Some (snapshot_view val sn')" by blast
    from xs x(1) obtain now e where e: "xs = [ApplyAt now e]" "carries D val (bp_market p) (EvCancelled x) e" by (auto simp: published_Cons)
    have "CommandSeq (EvCancelled x) = cmd_Seq cmd"
      using apply_total [OF ok, of cmd] app x(1) by (auto split: if_splits)
    from single_follows [OF p s e(2) this, of "snapshot_view val sn'" now] x show ?thesis by (intro fin) (simp add: e(1))
  next
    case (Some new)
    note steps = new_steps [OF ok sn sn' Some app]
    from ok sn sn' Some app show ?thesis
    proof (cases rule: new_order_cases)
      case (reject reason)
      then obtain r where r: "evs = [EvRejected r]" "rj_Seq r = cmd_Seq cmd" by (simp add: rejected_def)
      from xs r obtain now e where e: "xs = [ApplyAt now e]" "carries D val (bp_market p) (EvRejected r) e" by (auto simp: published_Cons)
      have g: "snapshot_view val sn' = snapshot_view val sn" using reject(3) by (simp add: snapshot_view_def)
      from single_follows [OF p s e(2), of "snapshot_view val sn'" now] r(2) g show ?thesis
        by (intro fin) (simp add: e(1) CommandSeq_def)
    next
      case (accept X Y t tevs rests final L)
      let ?o = "default_tif new" and ?opp = "Side_Opposite (no_Side new)"
      obtain a where a: "accepted_event (cmd_Seq cmd) ?o = EvAccepted a" "ac_Seq a = cmd_Seq cmd" by (simp add: accepted_event_def)
      from xs accept(8) obtain now e ys where e: "xs = ApplyAt now e # ys" "carries D val (bp_market p) (accepted_event (cmd_Seq cmd) ?o) e"
        and ys: "published D val (bp_market p) (tevs @ final) ys" by (auto simp: published_Cons)
      from p have pok: "shadow_ok D val (bp_book p)" and view: "book_view val (bp_book p) = snapshot_view val sn" by (simp_all add: agrees_def live_ok_def)
      have dist: "distinct (map ro_OrderID (lv_orders X @ lv_orders Y))" using accept(13) by (simp add: book_rel_at_def lv_ids_orders)
      have S: "snapshot_view val sn = orders_view val (lv_orders X @ lv_orders Y)"
        using snapshot_sides [OF accept(2), of sn] dist accept(9,11) by (simp add: orders_view_append)
      have sides: "\<forall>m \<in> set (lv_orders X). ro_Side m = ?opp" "\<forall>m \<in> set (lv_orders Y). ro_Side m = no_Side new"
        "Side_String (no_Side new) \<noteq> Side_String ?opp"
      proof -
        have "wf_queue val (bk_cfg b) (Side_Opposite ?opp) (flat Y)" using accept(13) unfolding book_rel_at_def by (blast intro: wf_queue_flat)
        then show "\<forall>m \<in> set (lv_orders Y). ro_Side m = no_Side new"
          using Side_Opposite_Opposite [OF accept(2)] by (auto simp: wf_queue_def wf_order_def lv_orders_flat)
        show "\<forall>m \<in> set (lv_orders X). ro_Side m = ?opp" using accept(4) by (auto simp: wf_queue_def wf_order_def lv_orders_flat)
        show "Side_String (no_Side new) \<noteq> Side_String ?opp" using accept(2) by (auto simp: Side_Opposite_def)
      qed
      have best: "at_price (book_view val (bp_book p)) (Side_String ?opp) v \<noteq> {} \<longleftrightarrow> (\<exists>m \<in> snd ` set (flat X). V (ro_Price m) = v)" for v
      proof -
        have "snd ` set (flat X) = set (lv_orders X)" by (simp add: lv_orders_flat)
        then show ?thesis unfolding view S at_price_orders [OF dist] set_append bex_Un using sides by auto
      qed
      have sorted: "sorted_wrt (\<lambda>a b. V (fst a) = V (fst b) \<or> val_better val ?opp (fst a) (fst b)) (flat X)"
        using accept(13) unfolding book_rel_at_def by (blast intro: queue_sorted)
      from expects_taker [OF pok _ _ _ _ e(2), of "flat X" "bk_cfg b"] accept(2,4) best sorted obtain acc where
        acc: "decode_accepted D e = Inr acc" "ja_OrderID acc = no_OrderID new" "expectsTakerEvent D (bp_book p) acc = (\<not> rests_untouched ?o (flat X))"
        by auto
      have qty: "no_Type ?o = Limit \<Longrightarrow> 0 < V (no_Qty ?o)" using accept(1) by (auto simp: valid_order_def Let_def)
      note shape = events_after_accept [OF accept(3-7) qty]
      have "no_OrderID new \<notin> ro_OrderID ` set (map snd (flat X))" using accept(15) by (simp add: lv_ids_def image_comp)
      then have mid: "\<forall>ev \<in> set tevs. inner ev \<and> CommandSeq ev = cmd_Seq cmd \<and> progress_of ev \<noteq> Some (no_OrderID new)"
        using walk_inner [OF accept(3-6)] by blast
      have o: "tk_o t = ?o" using walk_taker [OF accept(3-6)] by simp
      have "\<exists>p' d. feed D p (ApplyAt now e # ys) = (p', [d], None) \<and> dl_Seq d = cmd_Seq cmd \<and> live_ok D val p' \<and> bp_open p' = None \<and>
          bp_Seq p' = cmd_Seq cmd \<and> book_view val (bp_book p') = snapshot_view val sn' \<and> bp_market p' = bp_market p"
        by (rule accepted_follows [OF p s acc(1,2) _ e(2) [unfolded a(1)] a(2) mid _ _ ys])
          (use acc(3) shape outcome_inner [OF accept(7)] o steps accept(8) a(1) in \<open>auto split: if_splits\<close>)
      then show ?thesis by (intro fin) (simp add: e(1))
    qed
  qed
qed

end

end
