(* ===== verification/Shadow_Session.thy ===== *)
theory Shadow_Session
  imports Shadow_Follow
begin

text \<open>
  A session of a market: a projector that rebuilds from the open orders of a book agrees with it, follows it through
  any number of commands, and serves the same depth.
\<close>

section \<open>Restoring\<close>

definition shadow_entry :: "('d \<Rightarrow> rat) \<Rightarrow> 'd ShadowOrder \<Rightarrow> string \<times> string \<times> rat \<times> rat" where
  "shadow_entry val r = (so_ID r, so_Side r, amt_val val (so_Price r), amt_val val (so_Remaining r))"

text \<open>A snapshot for the projector that has the open orders of the book, in any order.\<close>

definition open_orders :: "('d \<Rightarrow> rat) \<Rightarrow> 'd BookSnapshot \<Rightarrow> 'd Snapshot \<Rightarrow> bool" where
  "open_orders val snap sn \<longleftrightarrow> bn_Seq snap = sn_LastSeq sn \<and>
     mset (map (shadow_entry val) (bn_Orders snap)) = mset (map (order_entry val) (sn_Bids sn @ sn_Asks sn))"

text \<open>A depth of the projector and one of the book that have the same levels.\<close>

definition same_level :: "('d \<Rightarrow> rat) \<Rightarrow> 'd ShadowLevel \<Rightarrow> 'd Level \<Rightarrow> bool" where
  "same_level val l k \<longleftrightarrow> amt_val val (sl_Price l) = amt_val val (lv_Price k) \<and> amt_val val (sl_Qty l) = amt_val val (lv_Qty k) \<and>
     sl_Orders l = lv_Orders k"

definition same_depth :: "('d \<Rightarrow> rat) \<Rightarrow> 'd ShadowDepth \<Rightarrow> 'd Depth \<Rightarrow> bool" where
  "same_depth val d dp \<longleftrightarrow> sd_Seq d = dp_LastSeq dp \<and> list_all2 (same_level val) (sd_Bids d) (dp_Bids dp) \<and>
     list_all2 (same_level val) (sd_Asks d) (dp_Asks dp)"

context decimal
begin

lemma add_all_view:
  assumes "shadow_ok D val b" and "distinct (map so_ID rs)" and "dom (book_view val b) \<inter> so_ID ` set rs = {}"
    and "\<forall>r \<in> set rs. so_ID r \<noteq> [] \<and> md_valid (so_Side r) \<and> 0 < V (so_Price r) \<and> 0 < V (so_Remaining r)"
  shows "\<exists>b'. shadow_add_all D b rs = Inr b' \<and> shadow_ok D val b' \<and> sk_market b' = sk_market b \<and>
    book_view val b' = book_view val b ++ map_of (map (shadow_entry val) rs)"
  using assms
proof (induction rs arbitrary: b)
  case (Cons r rs)
  have "so_ID r \<noteq> [] \<and> md_valid (so_Side r) \<and> 0 < V (so_Price r) \<and> 0 < V (so_Remaining r) \<and> book_view val b (so_ID r) = None"
    using Cons.prems by auto
  from shadow_add_ok(1) [OF Cons.prems(1) this] obtain b1 where b1: "shadow_add D b r = Inr b1" "shadow_ok D val b1" "sk_market b1 = sk_market b"
    and view: "book_view val b1 = (book_view val b)(so_ID r \<mapsto> (so_Side r, V (so_Price r), V (so_Remaining r)))" by blast
  have "dom (book_view val b1) \<inter> so_ID ` set rs = {}" using Cons.prems(2,3) unfolding view by auto
  with Cons.IH [OF b1(2)] Cons.prems(2,4) obtain b' where b': "shadow_add_all D b1 rs = Inr b'" "shadow_ok D val b'" "sk_market b' = sk_market b1"
    "book_view val b' = book_view val b1 ++ map_of (map (shadow_entry val) rs)" by auto
  have "so_ID r \<notin> fst ` set (map (shadow_entry val) rs)" using Cons.prems(2) by (auto simp: shadow_entry_def)
  then have "map_of (map (shadow_entry val) rs) (so_ID r) = None" by (simp add: map_of_eq_None_iff)
  then have "book_view val b1 ++ map_of (map (shadow_entry val) rs) = book_view val b ++ map_of (map (shadow_entry val) (r # rs))"
    unfolding view by (auto simp: map_add_def fun_eq_iff shadow_entry_def split: option.split)
  then have "book_view val b' = book_view val b ++ map_of (map (shadow_entry val) (r # rs))" using b'(4) by (rule trans [rotated])
  with b1 b' show ?case by (simp del: list.map map_of.simps)
qed simp

lemma restored_agrees:
  assumes ok: "book_ok D val b" and sn: "Book_Snapshot D b = Some sn" and snap: "open_orders val snap sn"
  shows "\<exists>p. proj_Restore D now (MarkRebuilding q) snap = (p, [], None) \<and> agrees D val sn p \<and> bp_market p = bp_market q"
proof -
  let ?os = "bn_Orders snap" and ?rs = "sn_Bids sn @ sn_Asks sn"
  from ok obtain B A where rel: "book_rel D val b B A" by (auto simp: book_ok_def)
  have rs: "sn_Bids sn = lv_orders B" "sn_Asks sn = lv_orders A" using snapshot_rel [OF rel] sn by auto
  have dist: "distinct (map ro_OrderID ?rs)" using rel by (simp add: rs book_rel_def lv_ids_orders)
  have wf: "wf_queue val (bk_cfg b) Buy (flat B)" "wf_queue val (bk_cfg b) Sell (flat A)"
    using rel unfolding book_rel_def by (blast intro: wf_queue_flat)+
  have each: "ro_OrderID r \<noteq> [] \<and> md_valid (Side_String (ro_Side r)) \<and> 0 < V (ro_Price r) \<and> 0 < V (ro_Remaining r)" if "r \<in> set ?rs" for r
    using that wf unfolding rs by (auto simp: lv_orders_flat wf_queue_def wf_order_def wf_price_def)
  have m: "mset (map (shadow_entry val) ?os) = mset (map (order_entry val) ?rs)" using snap by (simp add: open_orders_def)
  have "image_mset fst (mset (map (shadow_entry val) ?os)) = image_mset fst (mset (map (order_entry val) ?rs))" by (simp only: m)
  then have "mset (map fst (map (shadow_entry val) ?os)) = mset (map fst (map (order_entry val) ?rs))" by (simp only: mset_map)
  moreover have "map fst (map (shadow_entry val) xs) = map so_ID xs" "map fst (map (order_entry val) ys) = map ro_OrderID ys" for xs ys
    by (simp_all add: shadow_entry_def order_entry_def comp_def)
  ultimately have ids: "mset (map so_ID ?os) = mset (map ro_OrderID ?rs)" by (simp only:)
  have sets: "set (map (shadow_entry val) ?os) = set (map (order_entry val) ?rs)" using m by (rule mset_eq_setD)
  have d: "distinct (map so_ID ?os)" using ids dist by (metis mset_eq_imp_distinct_iff)
  have valid: "\<forall>r \<in> set ?os. so_ID r \<noteq> [] \<and> md_valid (so_Side r) \<and> 0 < V (so_Price r) \<and> 0 < V (so_Remaining r)"
  proof
    fix r assume "r \<in> set ?os"
    then have "shadow_entry val r \<in> set (map (order_entry val) ?rs)" using sets by auto
    then obtain x where "x \<in> set ?rs" "shadow_entry val r = order_entry val x" by auto
    with each [of x] show "so_ID r \<noteq> [] \<and> md_valid (so_Side r) \<and> 0 < V (so_Price r) \<and> 0 < V (so_Remaining r)"
      by (simp add: shadow_entry_def order_entry_def)
  qed
  have empty: "book_view val (NewShadowBook (bp_market q)) = Map.empty" by (rule ext) (simp add: NewShadowBook_def book_view_def)
  have "sk_market (NewShadowBook (bp_market q)) = bp_market q" by (simp add: NewShadowBook_def)
  with add_all_view [OF shadow_empty d _ valid, of "bp_market q"] empty obtain k where k: "shadow_add_all D (NewShadowBook (bp_market q)) ?os = Inr k" "shadow_ok D val k"
    "sk_market k = bp_market q" and view: "book_view val k = map_of (map (shadow_entry val) ?os)" by auto
  have "map_of (map (shadow_entry val) ?os) = map_of (map (order_entry val) ?rs)"
    using d dist sets by (subst map_of_inject_set) (simp_all add: comp_def shadow_entry_def order_entry_def)
  then have v: "book_view val k = snapshot_view val sn" unfolding view snapshot_view_def orders_view_def .
  let ?p = "(MarkRebuilding q)\<lparr>bp_book := k\<lparr>sk_seq := bn_Seq snap\<rparr>, bp_state := Live, bp_buffer := []\<rparr>"
  have "shadow_Restore D (NewShadowBook (bp_market q)) snap = Inr (k\<lparr>sk_seq := bn_Seq snap\<rparr>)"
    using k(1) by (simp add: shadow_Restore_def NewShadowBook_def)
  then have "proj_Restore D now (MarkRebuilding q) snap = (?p, [], None)" by (simp add: proj_Restore_def MarkRebuilding_def)
  moreover have "agrees D val sn ?p"
    using k(2) v snap by (simp add: agrees_def live_ok_def MarkRebuilding_def bp_Seq_def open_orders_def book_view_def)
  ultimately show ?thesis by (auto simp: MarkRebuilding_def)
qed

section \<open>The depth\<close>

lemma better_unique:
  assumes "sorted_wrt (val_better val s) xs" and "sorted_wrt (val_better val s) ys" and "V ` set xs = V ` set ys"
  shows "map V xs = map V ys"
proof (cases "s = Buy")
  case True
  have "val_better val Buy = (\<lambda>a b. V b < V a)" by (intro ext) (simp add: val_better_def)
  with True assms(1,2) have "sorted_wrt (<) (rev (map V xs))" "sorted_wrt (<) (rev (map V ys))"
    by (simp_all add: sorted_wrt_rev sorted_wrt_map flip: rev_map)
  from strict_sorted_equal [OF this] assms(3) show ?thesis by simp
next
  case False
  then have "val_better val s = (\<lambda>a b. V a < V b)" by (intro ext) (simp add: val_better_def)
  with assms(1,2) have "sorted_wrt (<) (map V xs)" "sorted_wrt (<) (map V ys)" by (simp_all add: sorted_wrt_map)
  from strict_sorted_equal [OF this] assms(3) show ?thesis by simp
qed

text \<open>A level of the book and the orders of the view at its price.\<close>

lemma level_of_view:
  assumes wf: "wf_side val cfg s n L" and po: "(p, os) \<in> set L" and dist: "distinct (map ro_OrderID rs)" "distinct (lv_ids L)"
    and rs: "\<And>r. r \<in> set rs \<and> Side_String (ro_Side r) = Side_String s \<longleftrightarrow> r \<in> set (lv_orders L)"
  shows "at_price (orders_view val rs) (Side_String s) (V p) = ro_OrderID ` set os \<and>
    level_total (orders_view val rs) (Side_String s) (V p) = (\<Sum>r\<leftarrow>os. V (ro_Remaining r)) \<and> card (ro_OrderID ` set os) = length os \<and> os \<noteq> []"
proof -
  obtain L1 L2 where L: "L = L1 @ (p, os) # L2" using po by (meson split_list)
  have price: "\<forall>(q, qs) \<in> set L. qs \<noteq> [] \<and> (\<forall>r \<in> set qs. V (ro_Price r) = V q)" using wf by (auto simp: wf_side_def wf_order_def)
  have "sorted_wrt (val_better val s) (map fst L)" using wf by (simp add: wf_side_def)
  then have other: "\<forall>(q, qs) \<in> set (L1 @ L2). V q \<noteq> V p" by (fastforce simp: L sorted_wrt_append val_better_def split: if_splits)
  have "V (ro_Price r) \<noteq> V p" if "r \<in> set (lv_orders (L1 @ L2))" for r
  proof -
    from that have "\<exists>x \<in> set (L1 @ L2). r \<in> set (snd x)" by (auto simp: lv_orders_def)
    then obtain q qs where "(q, qs) \<in> set (L1 @ L2)" "r \<in> set qs" by (metis prod.collapse)
    moreover from this have "(q, qs) \<in> set L" by (auto simp: L)
    ultimately show ?thesis using price other by fastforce
  qed
  moreover have "V (ro_Price r) = V p" if "r \<in> set os" for r using price po that by auto
  moreover have "r \<in> set (lv_orders L) \<longleftrightarrow> r \<in> set (lv_orders (L1 @ L2)) \<or> r \<in> set os" for r by (auto simp: L lv_orders_def)
  ultimately have mine: "r \<in> set (lv_orders L) \<and> V (ro_Price r) = V p \<longleftrightarrow> r \<in> set os" for r by blast
  have in_rs: "set os \<subseteq> set rs" using mine rs by blast
  have entry: "orders_view val rs (ro_OrderID r) = Some (Side_String (ro_Side r), V (ro_Price r), V (ro_Remaining r))" if "r \<in> set os" for r
    using orders_view_in [OF dist(1)] in_rs that by blast
  have at: "at_price (orders_view val rs) (Side_String s) (V p) = ro_OrderID ` set os"
  proof (intro set_eqI iffI)
    fix i assume "i \<in> at_price (orders_view val rs) (Side_String s) (V p)"
    then obtain x where i: "orders_view val rs i = Some (Side_String s, V p, x)" by (auto simp: at_price_def)
    then have "i \<in> ro_OrderID ` set rs" using orders_view_None [of val rs i] by auto
    then obtain r where r: "r \<in> set rs" "i = ro_OrderID r" by blast
    with orders_view_in [OF dist(1) r(1), of val] i have "Side_String (ro_Side r) = Side_String s" "V (ro_Price r) = V p" by simp_all
    with r rs mine show "i \<in> ro_OrderID ` set os" by blast
  next
    fix i assume "i \<in> ro_OrderID ` set os"
    then obtain r where r: "r \<in> set os" "i = ro_OrderID r" by blast
    with mine rs have "Side_String (ro_Side r) = Side_String s" "V (ro_Price r) = V p" by blast+
    with entry [OF r(1)] r(2) show "i \<in> at_price (orders_view val rs) (Side_String s) (V p)" by (auto simp: at_price_def)
  qed
  have inj: "inj_on ro_OrderID (set os)" using dist(1) in_rs by (auto simp: distinct_map intro: inj_on_subset)
  have dos: "distinct os" using dist(2) by (auto simp: L distinct_map)
  have "level_total (orders_view val rs) (Side_String s) (V p) = (\<Sum>r \<in> set os. left_at (orders_view val rs) (ro_OrderID r))"
    unfolding level_total_def at by (rule sum.reindex_cong [OF inj]) simp_all
  also have "\<dots> = (\<Sum>r \<in> set os. V (ro_Remaining r))" by (intro sum.cong) (simp_all add: left_at_def entry)
  also have "\<dots> = (\<Sum>r\<leftarrow>os. V (ro_Remaining r))" using dos by (simp add: sum_list_distinct_conv_sum_set)
  finally show ?thesis using at inj dos price po by (auto simp: card_image distinct_card)
qed

lemma side_depths_agree:
  assumes side: "side_rel D val side ts st bs L" and wf: "wf_side val cfg side n L" and dist: "distinct (map ro_OrderID rs)" "distinct (lv_ids L)"
    and rs: "\<And>r. r \<in> set rs \<and> Side_String (ro_Side r) = Side_String side \<longleftrightarrow> r \<in> set (lv_orders L)"
    and v: "view_levels val (orders_view val rs) (Side_String side) sls" and s: "side \<in> {Buy, Sell}"
  shows "\<exists>ls. side_depth D bs 0 = Some ls \<and> list_all2 (same_level val) sls ls"
proof -
  let ?f = "orders_view val rs" and ?s = "Side_String side"
  from side_depth_rel [OF side, of 0] obtain ls where ls: "side_depth D bs 0 = Some ls"
    and L: "list_all2 (\<lambda>(p, os) l. lv_Price l = p \<and> V (lv_Qty l) = (\<Sum>r\<leftarrow>os. V (ro_Remaining r)) \<and> lv_Orders l = int (length os)) L ls"
    by auto
  note at = level_of_view [OF wf _ dist rs]
  have "V ` set (map fst L) = {v. at_price ?f ?s v \<noteq> {}}"
  proof (intro set_eqI iffI)
    fix v assume "v \<in> V ` set (map fst L)"
    then obtain p os where "(p, os) \<in> set L" "v = V p" by auto
    with at [of p os] show "v \<in> {v. at_price ?f ?s v \<noteq> {}}" by auto
  next
    fix v assume "v \<in> {v. at_price ?f ?s v \<noteq> {}}"
    then obtain r where r: "r \<in> set rs" "Side_String (ro_Side r) = ?s" "V (ro_Price r) = v" using at_price_orders [OF dist(1)] by auto
    with rs have "r \<in> set (lv_orders L)" by blast
    then have "\<exists>x \<in> set L. r \<in> set (snd x)" by (auto simp: lv_orders_def)
    then obtain p os where po: "(p, os) \<in> set L" "r \<in> set os" by (metis prod.collapse)
    then have "V (ro_Price r) = V p" using wf by (auto simp: wf_side_def wf_order_def)
    with r(3) po show "v \<in> V ` set (map fst L)" by force
  qed
  then have "V ` set (map sl_Price sls) = V ` set (map fst L)" using v by (simp add: view_levels_def)
  moreover have "side_of ?s = side" using s by (auto simp: side_of_def)
  moreover have "sorted_wrt (val_better val side) (map fst L)" using wf by (simp add: wf_side_def)
  ultimately have prices: "map V (map sl_Price sls) = map V (map fst L)"
    using v by (intro better_unique [of side]) (simp_all add: view_levels_def)
  then have len: "length sls = length L" by (metis length_map)
  have "list_all2 (same_level val) sls ls" unfolding list_all2_conv_all_nth
  proof (intro conjI allI impI)
    show "length sls = length ls" using len L by (simp add: list_all2_lengthD)
    fix k assume k: "k < length sls"
    obtain p os where po: "L ! k = (p, os)" by (rule prod.exhaust)
    then have "(p, os) \<in> set L" using k len by (metis nth_mem)
    note a = at [OF this]
    have "V (sl_Price (sls ! k)) = V p" using arg_cong [OF prices, of "\<lambda>xs. xs ! k"] k len po by simp
    moreover have "lv_Price (ls ! k) = p" "V (lv_Qty (ls ! k)) = (\<Sum>r\<leftarrow>os. V (ro_Remaining r))" "lv_Orders (ls ! k) = int (length os)"
      using L k len po by (auto simp: list_all2_conv_all_nth)
    moreover have "sls ! k \<in> set sls" using k by simp
    ultimately show "same_level val (sls ! k) (ls ! k)" using v a by (simp add: same_level_def view_levels_def)
  qed
  with ls show ?thesis by blast
qed

lemma agrees_depth:
  assumes ok: "book_ok D val b" and sn: "Book_Snapshot D b = Some sn" and p: "agrees D val sn p"
  shows "\<exists>d dp. bp_Depth D p 0 = Some d \<and> Book_Depth D b 0 = Some dp \<and> same_depth val d dp"
proof -
  from ok obtain B A where rel: "book_rel D val b B A" by (auto simp: book_ok_def)
  let ?rs = "lv_orders B @ lv_orders A"
  have snv: "sn_Bids sn = lv_orders B" "sn_Asks sn = lv_orders A" using snapshot_rel [OF rel] sn by auto
  have sides: "side_rel D val Buy (bk_tickScale b) (bk_byID b) (bk_bids b) B" "wf_side val (bk_cfg b) Buy (bk_lastSeq b) B"
    "side_rel D val Sell (bk_tickScale b) (bk_byID b) (bk_asks b) A" "wf_side val (bk_cfg b) Sell (bk_lastSeq b) A"
    "distinct (map ro_OrderID ?rs)" "distinct (lv_ids B)" "distinct (lv_ids A)"
    using rel unfolding book_rel_def by (auto simp: lv_ids_orders)
  have "\<forall>r \<in> set (lv_orders B). ro_Side r = Buy" "\<forall>r \<in> set (lv_orders A). ro_Side r = Sell"
    using wf_queue_flat [OF sides(2)] wf_queue_flat [OF sides(4)] by (auto simp: wf_queue_def wf_order_def lv_orders_flat)
  then have split: "r \<in> set ?rs \<and> Side_String (ro_Side r) = Side_String Buy \<longleftrightarrow> r \<in> set (lv_orders B)"
    "r \<in> set ?rs \<and> Side_String (ro_Side r) = Side_String Sell \<longleftrightarrow> r \<in> set (lv_orders A)" for r by auto
  from p have view: "book_view val (bp_book p) = orders_view val ?rs" and pok: "shadow_ok D val (bp_book p)"
    by (simp_all add: agrees_def snapshot_view_def snv live_ok_def)
  from shadow_Depth_ok [OF pok] obtain d where d: "bp_Depth D p 0 = Some d" "sd_Seq d = bp_Seq p"
    "view_levels val (orders_view val ?rs) (Side_String Buy) (sd_Bids d)" "view_levels val (orders_view val ?rs) (Side_String Sell) (sd_Asks d)"
    by (auto simp: bp_Depth_def bp_Seq_def view)
  from side_depths_agree [OF sides(1,2,5,6) split(1) d(3)] side_depths_agree [OF sides(3,4,5,7) split(2) d(4)] obtain bids asks where
    "side_depth D (bk_bids b) 0 = Some bids" "list_all2 (same_level val) (sd_Bids d) bids"
    "side_depth D (bk_asks b) 0 = Some asks" "list_all2 (same_level val) (sd_Asks d) asks" by auto
  then have "Book_Depth D b 0 = Some \<lparr>dp_Symbol = mc_Symbol (bk_cfg b), dp_LastSeq = bk_lastSeq b, dp_Bids = bids, dp_Asks = asks\<rparr>"
    "same_depth val d \<lparr>dp_Symbol = mc_Symbol (bk_cfg b), dp_LastSeq = bk_lastSeq b, dp_Bids = bids, dp_Asks = asks\<rparr>"
    using d(2) p snapshot_seq [OF ok sn] by (simp_all add: Book_Depth_def same_depth_def agrees_def)
  with d(1) show ?thesis by blast
qed

end

section \<open>A session\<close>

text \<open>Commands with consecutive numbers, all of which the book takes, and all their events.\<close>

fun run_commands :: "'d decimal_pkg \<Rightarrow> 'd Book \<Rightarrow> 'd Command list \<Rightarrow> ('d Book \<times> 'd Event list) option" where
  "run_commands D b [] = Some (b, [])"
| "run_commands D b (c # cs) =
     (if cmd_Seq c \<noteq> bk_lastSeq b + 1 then None
      else case Apply D b c of
             Some (b1, Inr evs) \<Rightarrow> map_option (\<lambda>(b2, evs2). (b2, evs @ evs2)) (run_commands D b1 cs)
           | _ \<Rightarrow> None)"

context decimal
begin

lemma follows_commands:
  assumes "book_ok D val b" and "Book_Snapshot D b = Some sn" and "agrees D val sn p" and "run_commands D b cs = Some (b', evs)"
    and "published D val (bp_market p) evs xs"
  shows "\<exists>p' ds sn'. feed D p xs = (p', ds, None) \<and> map dl_Seq ds = map cmd_Seq cs \<and> book_ok D val b' \<and>
    Book_Snapshot D b' = Some sn' \<and> agrees D val sn' p'"
  using assms
proof (induction cs arbitrary: b sn p evs xs)
  case Nil
  then show ?case by auto
next
  case (Cons c cs)
  from Cons.prems(4) obtain b1 evs1 evs2 where seq: "cmd_Seq c = bk_lastSeq b + 1" and app: "Apply D b c = Some (b1, Inr evs1)"
    and run: "run_commands D b1 cs = Some (b', evs2)" and evs: "evs = evs1 @ evs2"
    by (auto split: if_splits option.splits sum.splits)
  note a = applied_seq [OF Cons.prems(1) app]
  then obtain sn1 where sn1: "Book_Snapshot D b1 = Some sn1" using snapshot_rel by (fastforce simp: book_ok_def)
  from Cons.prems(5) evs obtain ys zs where xs: "xs = ys @ zs" "published D val (bp_market p) evs1 ys" "published D val (bp_market p) evs2 zs"
    by (auto simp: published_append)
  from follows_command [OF Cons.prems(1,2) sn1 app _ Cons.prems(3) xs(2)] seq snapshot_seq [OF Cons.prems(1,2)] obtain p1 d where
    p1: "feed D p ys = (p1, [d], None)" "dl_Seq d = cmd_Seq c" "agrees D val sn1 p1" "bp_market p1 = bp_market p" by auto
  from xs(3) p1(4) have "published D val (bp_market p1) evs2 zs" by simp
  from Cons.IH [OF a(3) sn1 p1(3) run this] obtain p' ds sn' where
    "feed D p1 zs = (p', ds, None)" "map dl_Seq ds = map cmd_Seq cs" "book_ok D val b'" "Book_Snapshot D b' = Some sn'" "agrees D val sn' p'"
    by blast
  with feed_append [OF p1(1)] p1(2) show ?case by (auto simp: xs(1))
qed

lemma session_depth:
  assumes ok: "book_ok D val b" and sn: "Book_Snapshot D b = Some sn" and snap: "open_orders val snap sn"
    and run: "run_commands D b cs = Some (b', evs)" and xs: "published D val (bp_market q) evs xs"
  shows "\<exists>p p' ds d dp. proj_Restore D now (MarkRebuilding q) snap = (p, [], None) \<and> feed D p xs = (p', ds, None) \<and>
    map dl_Seq ds = map cmd_Seq cs \<and> bp_Depth D p' 0 = Some d \<and> Book_Depth D b' 0 = Some dp \<and> same_depth val d dp"
proof -
  from restored_agrees [OF ok sn snap] obtain p where p: "proj_Restore D now (MarkRebuilding q) snap = (p, [], None)" "agrees D val sn p"
    "bp_market p = bp_market q" by blast
  from xs p(3) have "published D val (bp_market p) evs xs" by simp
  from follows_commands [OF ok sn p(2) run this] obtain p' ds sn' where
    f: "feed D p xs = (p', ds, None)" "map dl_Seq ds = map cmd_Seq cs" "book_ok D val b'" "Book_Snapshot D b' = Some sn'" "agrees D val sn' p'"
    by blast
  from agrees_depth [OF f(3-5)] p(1) f(1,2) show ?thesis by blast
qed

end

end
