(* ===== verification/Projector_Claims.thy ===== *)
theory Projector_Claims
  imports Shadow_Session Matching_Claims
begin

text \<open>
  The properties of the projector beside the engine, each with a witness: the book and the commands of the
  witnesses of the matching engine, published as envelopes.
\<close>

section \<open>Inputs for the witnesses\<close>

text \<open>The least payload that says what an event says.\<close>

definition pub_payload :: "'d Event \<Rightarrow> 'd payload" where
  "pub_payload ev =
     (case ev of
        EvAccepted a \<Rightarrow> PAccepted \<lparr>oa_OrderID = ac_OrderID a, oa_ClientOrderID = [], oa_AccountID = ac_AccountID a, oa_Market = [],
          oa_Side = Side_String (ac_Side a), oa_Type = OrderType_String (ac_Type a), oa_TimeInForce = TimeInForce_String (ac_TimeInForce a),
          oa_Price = Some (ac_Price a), oa_Qty = Some (ac_Qty a), oa_QuoteQty = None, oa_Seq = ac_Seq a\<rparr>
      | EvTrade t \<Rightarrow> PTrade \<lparr>tx_TradeID = [], tx_Market = [], tx_MakerOrderID = tr_MakerOrderID t, tx_TakerOrderID = tr_TakerOrderID t,
          tx_MakerAccountID = tr_MakerAccountID t, tx_TakerAccountID = tr_TakerAccountID t, tx_TakerSide = Side_String (tr_TakerSide t),
          tx_Price = tr_Price t, tx_Qty = tr_Qty t, tx_QuoteQty = tr_QuoteQty t, tx_MakerFee = tr_Qty t, tx_MakerFeeAsset = [],
          tx_TakerFee = tr_Qty t, tx_TakerFeeAsset = [], tx_Seq = tr_Seq t\<rparr>
      | EvUpdated u \<Rightarrow> PUpdated \<lparr>ou_OrderID = up_OrderID u, ou_AccountID = up_AccountID u, ou_Market = [], ou_Status = StatusPartiallyFilled,
          ou_FilledQty = up_FilledQty u, ou_FilledQuote = up_FilledQuote u, ou_RemainingQty = up_RemainingQty u, ou_Seq = up_Seq u\<rparr>
      | EvFilled f \<Rightarrow> PFilled \<lparr>of_OrderID = fi_OrderID f, of_AccountID = fi_AccountID f, of_Market = [],
          of_FilledQty = fi_FilledQty f, of_FilledQuote = fi_FilledQuote f, of_Seq = fi_Seq f\<rparr>
      | EvCancelled c \<Rightarrow> PCancelled \<lparr>ox_OrderID = cn_OrderID c, ox_AccountID = cn_AccountID c, ox_Market = [], ox_Reason = [],
          ox_FilledQty = cn_FilledQty c, ox_FilledQuote = cn_FilledQuote c, ox_RemainingQty = cn_RemainingQty c,
          ox_RemainingQuote = cn_RemainingQuote c, ox_Released = cn_RemainingQty c, ox_ReleasedAsset = [], ox_Seq = cn_Seq c\<rparr>
      | EvRejected r \<Rightarrow> PRejected \<lparr>oj_OrderID = rj_OrderID r, oj_ClientOrderID = [], oj_AccountID = rj_AccountID r, oj_Market = [],
          oj_Reason = [], oj_Seq = Some (rj_Seq r)\<rparr>
      | EvCancelRejected r \<Rightarrow> PNone)"

definition sendable :: "'d decimal_pkg \<Rightarrow> 'd Event \<Rightarrow> bool" where
  "sendable D ev \<longleftrightarrow>
     (case ev of
        EvAccepted a \<Rightarrow> Amount_Validate D (ac_Price a) = None \<and> Amount_Validate D (ac_Qty a) = None
      | EvTrade t \<Rightarrow> Amount_Validate D (tr_Price t) = None \<and> Amount_Validate D (tr_Qty t) = None \<and> Amount_Validate D (tr_QuoteQty t) = None
      | EvUpdated u \<Rightarrow> Amount_Validate D (up_RemainingQty u) = None
      | EvCancelled c \<Rightarrow> Amount_Validate D (cn_RemainingQty c) = None
      | EvCancelRejected _ \<Rightarrow> False
      | _ \<Rightarrow> True)"

definition pub_envelope :: "'d decimal_pkg \<Rightarrow> string \<Rightarrow> 'd Event \<Rightarrow> Envelope" where
  "pub_envelope D market ev = \<lparr>ev_EventID = ''e'', ev_EventType = type_of ev, ev_SchemaVersion = 1, ev_TenantID = ''t'', ev_MarketID = Some market,
     ev_AccountID = None, ev_Seq = Some (CommandSeq ev), ev_AccountSeq = None, ev_OccurredAt = 0, ev_CorrelationID = [], ev_CausationID = [],
     ev_Payload = Some (payload_json D (pub_payload ev))\<rparr>"

definition pub_inputs :: "'d decimal_pkg \<Rightarrow> string \<Rightarrow> 'd Event list \<Rightarrow> proj_input list" where
  "pub_inputs D market evs = map (\<lambda>ev. ApplyAt 0 (pub_envelope D market ev)) evs"

lemma pub_carries: "sendable D ev \<Longrightarrow> carries D val market ev (pub_envelope D market ev)"
proof -
  assume s: "sendable D ev"
  have "says D val (pub_payload ev) ev"
    using s by (cases ev) (simp_all add: pub_payload_def sendable_def valid_opt_def same_amount_def)
  then show ?thesis by (auto simp: carries_def pub_envelope_def)
qed

lemma pub_published: "list_all (sendable D) evs \<Longrightarrow> published D val market evs (pub_inputs D market evs)"
  by (induction evs) (simp_all add: published_Cons pub_inputs_def pub_carries)

definition orders_snapshot :: "'d Snapshot \<Rightarrow> 'd BookSnapshot" where
  "orders_snapshot sn = \<lparr>bn_Market = sn_Symbol sn, bn_Seq = sn_LastSeq sn,
     bn_Orders = map (\<lambda>r. \<lparr>so_ID = ro_OrderID r, so_Side = Side_String (ro_Side r), so_Price = ro_Price r, so_Remaining = ro_Remaining r\<rparr>)
       (sn_Bids sn @ sn_Asks sn)\<rparr>"

lemma orders_snapshot_open: "open_orders val (orders_snapshot sn) sn"
  by (simp add: open_orders_def orders_snapshot_def shadow_entry_def order_entry_def [abs_def] comp_def)

definition w_projector :: "fx BookProjector" where
  "w_projector = fst (proj_Restore fx_pkg 0 (MarkRebuilding (NewBookProjector ''BTC-USD'')) (orders_snapshot (the (Book_Snapshot fx_pkg w_book))))"

lemma w_projector_agrees: "agrees fx_pkg fx_val (the (Book_Snapshot fx_pkg w_book)) w_projector" "bp_market w_projector = ''BTC-USD''"
  using fx.restored_agrees [OF w_book_ok w_snapshot [OF w_book_ok] orders_snapshot_open, of 0 "NewBookProjector ''BTC-USD''"]
  by (auto simp: w_projector_def NewBookProjector_def)

lemma w_take_sendable: "list_all (sendable fx_pkg) (the_events (Apply fx_pkg w_book w_take))"
  by code_simp

lemma w_session: "\<exists>b' evs. run_commands fx_pkg w_empty [w_rest, w_take, w_cancel 3 ''b''] = Some (b', evs) \<and> list_all (sendable fx_pkg) evs"
proof -
  have "(case run_commands fx_pkg w_empty [w_rest, w_take, w_cancel 3 ''b''] of Some (b', evs) \<Rightarrow> list_all (sendable fx_pkg) evs | None \<Rightarrow> False)"
    by code_simp
  then show ?thesis by (cases "run_commands fx_pkg w_empty [w_rest, w_take, w_cancel 3 ''b'']") auto
qed

section \<open>Properties\<close>

text \<open>C35: the projector follows the engine. Let a live projector agree with the snapshot of the engine's book (the same
  orders with the same sides, prices and quantities left, the same last sequence number, no command open), and let the book
  take the next command. Fed with envelopes that carry the events of the command, in order, the projector refuses none
  of them, finds the end of the command by itself, emits exactly one delta, with the number of the command, and agrees
  with the snapshot after the command.\<close>

theorem projector_follows_engine:
  assumes "decimal D val" and "book_ok D val b" and "Book_Snapshot D b = Some sn" and "Book_Snapshot D b' = Some sn'"
    and "Apply D b cmd = Some (b', Inr evs)" and "cmd_Seq cmd = sn_LastSeq sn + 1"
    and "agrees D val sn p" and "published D val (bp_market p) evs xs"
  shows "\<exists>p' d. feed D p xs = (p', [d], None) \<and> dl_Seq d = cmd_Seq cmd \<and> agrees D val sn' p' \<and> bp_market p' = bp_market p"
  by (rule decimal.follows_command [OF assms])

theorem projector_follows_engine_witness:
  "\<exists>p' d. feed fx_pkg w_projector (pub_inputs fx_pkg ''BTC-USD'' (the_events (Apply fx_pkg w_book w_take))) = (p', [d], None) \<and> dl_Seq d = 2 \<and>
     agrees fx_pkg fx_val (the (Book_Snapshot fx_pkg (the_book (Apply fx_pkg w_book w_take)))) p'"
proof -
  have succ: "cmd_Seq w_take = sn_LastSeq (the (Book_Snapshot fx_pkg w_book)) + 1" by code_simp
  have pub: "published fx_pkg fx_val (bp_market w_projector) (the_events (Apply fx_pkg w_book w_take))
      (pub_inputs fx_pkg ''BTC-USD'' (the_events (Apply fx_pkg w_book w_take)))"
    unfolding w_projector_agrees(2) by (rule pub_published [OF w_take_sendable])
  have "cmd_Seq w_take = 2" by (simp add: w_take_def w_new_def)
  with projector_follows_engine [OF fx.decimal_axioms w_book_ok w_snapshot [OF w_book_ok] w_snapshot [OF w_take_ok] w_take_applied succ
      w_projector_agrees(1) pub]
  show ?thesis by auto
qed

text \<open>C36: a whole session. A projector that rebuilds from the open orders of the book, in whatever order they are read,
  and is then fed with the events of any number of commands serves, at the end, the depth of the engine: the same sequence
  number and, on each side, the same prices in the same order with the same quantities and numbers of orders. No input is
  refused, and there is one delta per command.\<close>

theorem session_serves_depth:
  assumes "decimal D val" and "book_ok D val b" and "Book_Snapshot D b = Some sn" and "open_orders val snap sn"
    and "run_commands D b cs = Some (b', evs)" and "published D val (bp_market q) evs xs"
  shows "\<exists>p p' ds d dp. proj_Restore D now (MarkRebuilding q) snap = (p, [], None) \<and> feed D p xs = (p', ds, None) \<and>
    map dl_Seq ds = map cmd_Seq cs \<and> bp_Depth D p' 0 = Some d \<and> Book_Depth D b' 0 = Some dp \<and> same_depth val d dp"
  by (rule decimal.session_depth [OF assms])

theorem session_serves_depth_witness:
  "\<exists>b' evs p p' ds d dp. run_commands fx_pkg w_empty [w_rest, w_take, w_cancel 3 ''b''] = Some (b', evs) \<and>
     proj_Restore fx_pkg 0 (MarkRebuilding (NewBookProjector ''BTC-USD'')) (orders_snapshot (the (Book_Snapshot fx_pkg w_empty))) = (p, [], None) \<and>
     feed fx_pkg p (pub_inputs fx_pkg ''BTC-USD'' evs) = (p', ds, None) \<and> map dl_Seq ds = [1, 2, 3] \<and>
     bp_Depth fx_pkg p' 0 = Some d \<and> Book_Depth fx_pkg b' 0 = Some dp \<and> same_depth fx_val d dp"
proof -
  from w_session obtain b' evs where run: "run_commands fx_pkg w_empty [w_rest, w_take, w_cancel 3 ''b''] = Some (b', evs)"
    and s: "list_all (sendable fx_pkg) evs" by blast
  have m: "bp_market (NewBookProjector ''BTC-USD'') = ''BTC-USD''" by (simp add: NewBookProjector_def)
  have pub: "published fx_pkg fx_val (bp_market (NewBookProjector ''BTC-USD'')) evs (pub_inputs fx_pkg ''BTC-USD'' evs)"
    unfolding m by (rule pub_published [OF s])
  have seqs: "map cmd_Seq [w_rest, w_take, w_cancel 3 ''b''] = [1, 2, 3]" by (simp add: w_rest_def w_take_def w_new_def w_cancel_def)
  note session_serves_depth [OF fx.decimal_axioms w_empty_ok w_snapshot [OF w_empty_ok] orders_snapshot_open run pub, of 0, unfolded seqs]
  then show ?thesis using run by (elim exE conjE) (intro exI conjI)
qed

end
