(* ===== verification/Evm.thy ===== *)
theory Evm
  imports Pg_Numeric
begin

text \<open>
  \<^verbatim>\<open>internal/chain/evm\<close>: wei.go and the parts of send.go that do not talk to a node. Addresses, the
  padding of call data and the derivation of keys are those of \<^verbatim>\<open>go-ethereum\<close> and \<^verbatim>\<open>hdkeychain\<close>, which are not
  in the repository: they are the fields of the record \<open>eth_pkg\<close>. A byte is an 8-bit word, an address a 160-bit
  word, a \<^verbatim>\<open>*big.Int\<close> an \<open>int option\<close> where the code tests it for nil. What a node answers while one step runs is
  the record \<open>Node\<close>, a function of what it is asked.
\<close>

type_synonym bytes = "8 word list"
type_synonym addr = "160 word"

section \<open>Libraries and the node\<close>

record eth_pkg =
  eth_IsHexAddress :: "string \<Rightarrow> bool"
  eth_HexToAddress :: "string \<Rightarrow> addr"
  eth_Hex :: "addr \<Rightarrow> string"
  eth_AddressBytes :: "addr \<Rightarrow> bytes"
  eth_LeftPadBytes :: "bytes \<Rightarrow> nat \<Rightarrow> bytes"
  eth_transferSelector :: bytes

datatype chain_error =
    ErrFeeCeiling | ErrKnownTransaction | ErrUnderpriced | ErrReceiptNotFound | errNode | errEvm | errEvmMoney money_error

record Fees =
  fe_TipCap :: "int option"
  fe_FeeCap :: "int option"

record Receipt =
  rp_BlockNumber :: u64
  rp_Successful :: bool
  rp_GasUsed :: u64
  rp_EffectiveGasPrice :: "int option"

record Node =
  nd_Head :: "chain_error + u64"
  nd_NonceAt :: "addr \<Rightarrow> chain_error + u64"
  nd_PendingNonceAt :: "addr \<Rightarrow> chain_error + u64"
  nd_SuggestFees :: "chain_error + Fees"
  nd_EstimateGas :: "addr \<Rightarrow> addr \<Rightarrow> int \<Rightarrow> bytes \<Rightarrow> chain_error + u64"
  nd_SendRawTransaction :: "bytes \<Rightarrow> chain_error option"
  nd_Receipt :: "string \<Rightarrow> chain_error + Receipt"

section \<open>Fees\<close>

definition bump_cap :: "int \<Rightarrow> int option \<Rightarrow> int" where
  "bump_cap percent v = (case v of None \<Rightarrow> 0 | Some n \<Rightarrow> (n * (100 + percent) + 99) div 100)"

definition Fees_Bump :: "Fees \<Rightarrow> int \<Rightarrow> Fees" where
  "Fees_Bump f percent =
     (let p = (if percent < 10 then 10 else percent)
      in \<lparr>fe_TipCap = Some (bump_cap p (fe_TipCap f)), fe_FeeCap = Some (bump_cap p (fe_FeeCap f))\<rparr>)"

definition Fees_Over :: "Fees \<Rightarrow> int option \<Rightarrow> bool" where
  "Fees_Over f limit =
     (case limit of
        None \<Rightarrow> False
      | Some l \<Rightarrow> (case fe_FeeCap f of None \<Rightarrow> False | Some c \<Rightarrow> 0 < l \<and> c > l))"

section \<open>Wei\<close>

definition Evm_MaxScale :: int where "Evm_MaxScale = 18"

text \<open>The coefficient is not negative here: the truncating division of \<^verbatim>\<open>QuoRem\<close> is \<open>div\<close>.\<close>

definition ToWei :: "'d decimal_pkg \<Rightarrow> 'd amount \<Rightarrow> int \<Rightarrow> chain_error + int" where
  "ToWei D amount scale =
     (if scale < 0 \<or> scale > Evm_MaxScale then Inl errEvm
      else if Amount_IsNegative D amount then Inl errEvm
      else let shift = Amount_Exponent D amount + scale; coef = Amount_Coefficient D amount
           in if shift > 0 then Inr (coef * 10 ^ nat shift)
              else if shift < 0 then
                (if coef mod 10 ^ nat (- shift) \<noteq> 0 then Inl errEvm else Inr (coef div 10 ^ nat (- shift)))
              else Inr coef)"

definition FromWei :: "'d decimal_pkg \<Rightarrow> int option \<Rightarrow> int \<Rightarrow> chain_error + 'd amount" where
  "FromWei D wei scale =
     (if scale < 0 \<or> scale > Evm_MaxScale then Inl errEvm
      else case wei of
             None \<Rightarrow> Inl errEvm
           | Some w \<Rightarrow>
               (if w < 0 then Inl errEvm
                else case FromBigInt D (Some w) (- scale) of Inl e \<Rightarrow> Inl (errEvmMoney e) | Inr a \<Rightarrow> Inr a))"

section \<open>Call data\<close>

text \<open>\<^verbatim>\<open>big.Int.Bytes\<close>: the absolute value in base 256, most significant first, without leading zeros.\<close>

fun nat_bytes :: "nat \<Rightarrow> bytes" where
  "nat_bytes n = (if n = 0 then [] else nat_bytes (n div 256) @ [of_nat (n mod 256)])"

declare nat_bytes.simps [simp del]

definition BitLen_over :: "int \<Rightarrow> nat \<Rightarrow> bool" where
  "BitLen_over v k \<longleftrightarrow> \<bar>v\<bar> \<ge> 2 ^ k"

definition TransferCalldata :: "eth_pkg \<Rightarrow> addr \<Rightarrow> int option \<Rightarrow> chain_error + bytes" where
  "TransferCalldata E to amount =
     (case amount of
        None \<Rightarrow> Inl errEvm
      | Some v \<Rightarrow>
          (if v < 0 then Inl errEvm
           else if BitLen_over v 256 then Inl errEvm
           else Inr (eth_transferSelector E @ eth_LeftPadBytes E (eth_AddressBytes E to) 32 @ eth_LeftPadBytes E (nat_bytes (nat \<bar>v\<bar>)) 32)))"

section \<open>What the conversions keep\<close>

lemma bump_raises: "bump_cap p (Some v) \<ge> v" if "0 \<le> p" "0 \<le> v" for p v
proof -
  have "100 * v \<le> v * (100 + p) + 99" using mult_nonneg_nonneg [OF that(2,1)] by (simp add: algebra_simps)
  then show ?thesis by (simp add: bump_cap_def)
qed

text \<open>A replacement pays at least a tenth more in both components, rounded up.\<close>

lemma bump_tenth:
  assumes "0 \<le> v"
  shows "100 * bump_cap (if p < 10 then 10 else p) (Some v) \<ge> 110 * v"
proof -
  let ?p = "if p < 10 then 10 else p"
  have "110 * v \<le> v * (100 + ?p)" using mult_left_mono [OF _ assms, of 10 ?p] by (simp add: algebra_simps)
  moreover have "v * (100 + ?p) \<le> 100 * ((v * (100 + ?p) + 99) div 100)" by simp
  ultimately show ?thesis by (simp add: bump_cap_def)
qed

context decimal
begin

lemma coefficient_shift:
  assumes "0 \<le> k"
  shows "V a * 10 ^ nat k = of_int (Amount_Coefficient D a) * 10 powi (Amount_Exponent D a + k)"
proof -
  have "(10::rat) ^ nat k = 10 powi k" using assms by (simp add: power_int_def)
  then show ?thesis
    using coefficient [of "dec a"] by (simp add: amt_val_def Amount_Coefficient_def Amount_Exponent_def power_int_add)
qed

text \<open>The conversion is exact, and refused exactly when the asset has too few places.\<close>

lemma ToWei_cases:
  assumes scale: "0 \<le> scale" "scale \<le> 18" and pos: "0 \<le> V a"
  shows "fits (nat scale) (V a) \<Longrightarrow> \<exists>w. ToWei D a scale = Inr w \<and> of_int w = V a * 10 ^ nat scale"
    and "\<not> fits (nat scale) (V a) \<Longrightarrow> ToWei D a scale = Inl errEvm"
proof -
  let ?c = "Amount_Coefficient D a" and ?s = "Amount_Exponent D a + scale"
  note v = coefficient_shift [OF scale(1), of a]
  have neg: "\<not> Amount_IsNegative D a" using pos by simp
  have fit: "fits (nat scale) (V a) \<longleftrightarrow> (\<exists>w::int. V a * 10 ^ nat scale = of_int w)"
    by (auto simp: fits_def elim: Ints_cases)
  have exact: "\<exists>w. ToWei D a scale = Inr w \<and> of_int w = V a * 10 ^ nat scale" if "0 \<le> ?s"
  proof -
    have "(10::rat) powi ?s = of_int (10 ^ nat ?s)" using that by (simp add: power_int_def)
    then have "V a * 10 ^ nat scale = of_int (?c * 10 ^ nat ?s)" by (simp only: v of_int_mult)
    with that scale neg show ?thesis by (auto simp: ToWei_def Evm_MaxScale_def Let_def)
  qed
  have div: "V a * 10 ^ nat scale = of_int ?c / of_int (10 ^ nat (- ?s))" if "?s < 0"
  proof -
    have "(10::rat) powi ?s = inverse (of_int (10 ^ nat (- ?s)))" using that by (simp add: power_int_def power_one_over inverse_eq_divide)
    then show ?thesis by (simp only: v divide_inverse)
  qed
  have whole: "10 ^ nat (- ?s) dvd ?c \<longleftrightarrow> fits (nat scale) (V a)" if below: "?s < 0"
  proof
    assume "10 ^ nat (- ?s) dvd ?c"
    then obtain w where "?c = 10 ^ nat (- ?s) * w" by (elim dvdE)
    then show "fits (nat scale) (V a)" using div [OF below] fit by auto
  next
    assume "fits (nat scale) (V a)"
    then obtain w :: int where "of_int ?c / of_int (10 ^ nat (- ?s)) = (of_int w :: rat)" using fit div [OF below] by auto
    then have "(of_int ?c :: rat) = of_int (w * 10 ^ nat (- ?s))" by (simp add: field_simps)
    then have "?c = w * 10 ^ nat (- ?s)" by (simp only: of_int_eq_iff)
    then show "10 ^ nat (- ?s) dvd ?c" by simp
  qed
  show "\<exists>w. ToWei D a scale = Inr w \<and> of_int w = V a * 10 ^ nat scale" if f: "fits (nat scale) (V a)"
  proof (cases "0 \<le> ?s")
    case False
    with f whole obtain w where w: "?c = 10 ^ nat (- ?s) * w" by (auto elim: dvdE)
    then have "V a * 10 ^ nat scale = of_int w" using div False by simp
    moreover have "ToWei D a scale = Inr w" using False scale neg w by (simp add: ToWei_def Evm_MaxScale_def Let_def)
    ultimately show ?thesis by simp
  qed (rule exact)
  show "ToWei D a scale = Inl errEvm" if f: "\<not> fits (nat scale) (V a)"
  proof (cases "0 \<le> ?s")
    case True
    then show ?thesis using exact f fit by metis
  next
    case False
    then have "?c mod 10 ^ nat (- ?s) \<noteq> 0" using whole f by (auto simp: dvd_eq_mod_eq_0)
    with False scale neg show ?thesis by (simp add: ToWei_def Evm_MaxScale_def Let_def)
  qed
qed

lemma scaled_limit: "\<bar>of_int w / 10 ^ n\<bar> < (10::rat) ^ m \<longleftrightarrow> w < 10 ^ (m + n)" if "0 \<le> w" for w :: int
proof -
  have "\<bar>of_int w / 10 ^ n\<bar> = (of_int w :: rat) / 10 ^ n" using that by simp
  also have "\<dots> < 10 ^ m \<longleftrightarrow> of_int w < (10::rat) ^ (m + n)" by (simp add: pos_divide_less_eq power_add)
  also have "\<dots> \<longleftrightarrow> of_int w < (of_int (10 ^ (m + n)) :: rat)" by simp
  finally show ?thesis by (simp only: of_int_less_iff)
qed

lemma FromWei_cases:
  assumes "0 \<le> scale" "scale \<le> 18" "0 \<le> w"
  shows "w < 10 ^ (18 + nat scale) \<Longrightarrow> \<exists>a. FromWei D (Some w) scale = Inr a \<and> V a * 10 ^ nat scale = of_int w"
    and "10 ^ (18 + nat scale) \<le> w \<Longrightarrow> \<exists>e. FromWei D (Some w) scale = Inl e"
proof -
  let ?a = "Amount (dNewFromBigInt D w (- scale)) :: 'd amount"
  have V: "V ?a = of_int w / 10 ^ nat scale"
  proof -
    have "(10::rat) powi (- scale) = inverse (10 ^ nat scale)" unfolding power_int_minus using assms(1) by (simp add: power_int_def)
    then show ?thesis by (simp only: amt_val_def amount.sel val_new_from_big_int divide_inverse)
  qed
  have "fits (nat scale) (V ?a)" unfolding V fits_def by simp
  then have f: "fits (nat MaxScale) (V ?a)" using assms(2) by (auto intro: fits_mono simp: MaxScale_def)
  have lim: "\<bar>V ?a\<bar> < 10 ^ MaxIntegerDigits \<longleftrightarrow> w < 10 ^ (18 + nat scale)"
    unfolding V MaxIntegerDigits_def by (rule scaled_limit [OF assms(3)])
  have val: "Amount_Validate D ?a = None \<longleftrightarrow> w < 10 ^ (18 + nat scale)" by (simp only: Validate_iff f lim simp_thms)
  show "\<exists>a. FromWei D (Some w) scale = Inr a \<and> V a * 10 ^ nat scale = of_int w" if "w < 10 ^ (18 + nat scale)"
    using that val assms V by (auto simp: FromWei_def Evm_MaxScale_def FromBigInt_def Let_def)
  show "\<exists>e. FromWei D (Some w) scale = Inl e" if "10 ^ (18 + nat scale) \<le> w"
  proof -
    from that val have "Amount_Validate D ?a \<noteq> None" by simp
    then obtain err where "Amount_Validate D ?a = Some err" by blast
    with assms show ?thesis by (simp add: FromWei_def Evm_MaxScale_def FromBigInt_def Let_def)
  qed
qed

end

end
