(* ===== verification/Chain_Store.thy ===== *)
theory Chain_Store
  imports Ledger_Reads Eventbus Policy Evm
begin

text \<open>
  The tables of \<^verbatim>\<open>internal/chain\<close> that withdrawals use, with the constraints of the migrations 0004, 0010, 0011 and 0023 they
  can run into, and the statements of \<^verbatim>\<open>internal/chain/sqlcgen\<close> (queries/withdrawals.sql, signing.sql) as
  functions on them; \<^verbatim>\<open>internal/audit\<close>, the row a privileged action leaves. A row is found by its tenant and id. The
  column updated_at, the reference to \<^verbatim>\<open>auth.users\<close> and row locks are not modelled: a step of a worker
  runs alone. What a statement or an operation does is a function from the tables to the tables and an error or a result.
\<close>

section \<open>Effects\<close>

datatype signer_error = ErrRefused | ErrAlreadySigned | ErrUnsupported | errSign

datatype wd_error =
    ErrWithdrawalNotFound | ErrIdempotencyMismatch | ErrNotReviewable | ErrInvalidWithdrawal | ErrNotResolvable
  | ErrForeignTransaction | ErrNoHotWallet | errLookup | errNoRows | errUnique | errCheck | errAborted | errAudit | errNoTransaction
  | errNonce | errCode ledger_error | errChain chain_error | errSigner signer_error | errFee registry_error | errColumnW pg_error | errBus bus_error

text \<open>One operation after another, an error that ends them, and a transaction around them (\<open>in_tx\<close>).\<close>

definition andThen :: "('s \<Rightarrow> 's \<times> ('e + 'a)) \<Rightarrow> ('a \<Rightarrow> 's \<Rightarrow> 's \<times> ('e + 'b)) \<Rightarrow> 's \<Rightarrow> 's \<times> ('e + 'b)" where
  "andThen f g s = (case f s of (s1, Inl e) \<Rightarrow> (s1, Inl e) | (s1, Inr x) \<Rightarrow> g x s1)"

definition answer :: "'e + 'a \<Rightarrow> 's \<Rightarrow> 's \<times> ('e + 'a)" where
  "answer r s = (s, r)"

definition guarded :: "bool \<Rightarrow> 'e \<Rightarrow> ('s \<Rightarrow> 's \<times> ('e + 'a)) \<Rightarrow> 's \<Rightarrow> 's \<times> ('e + 'a)" where
  "guarded ok e f s = (if ok then f s else (s, Inl e))"

lemma andThen_Inr: "andThen f g s = (s2, Inr y) \<longleftrightarrow> (\<exists>s1 x. f s = (s1, Inr x) \<and> g x s1 = (s2, Inr y))"
  by (auto simp: andThen_def split: prod.split sum.split)

lemma answer_Inr: "answer r s = (s1, Inr x) \<longleftrightarrow> s1 = s \<and> r = Inr x"
  by (auto simp: answer_def)

lemma guarded_Inr: "guarded ok e f s = (s1, Inr x) \<longleftrightarrow> ok \<and> f s = (s1, Inr x)"
  by (simp add: guarded_def)

lemmas effect_Inr = andThen_Inr answer_Inr guarded_Inr

lemma in_tx_Inr: "in_tx f s = (s1, Inr x) \<longleftrightarrow> f s = (s1, Inr x)"
  by (auto simp: in_tx_def split: prod.split sum.split)

lemma in_tx_Inl: "in_tx f s = (s1, Inl e) \<longleftrightarrow> s1 = s \<and> snd (f s) = Inl e"
  by (auto simp: in_tx_def split: prod.split sum.split)

text \<open>The answer of a lookup in another store: what it found, nothing, or a failure.\<close>

datatype 'a lookup = Found 'a | Missing | LookupFailed

section \<open>Rows\<close>

record WithdrawalRow =
  wd_ID :: string
  wd_TenantID :: string
  wd_AccountID :: string
  wd_Asset :: string
  wd_Amount :: int
  wd_ToAddress :: string
  wd_ChainID :: int
  wd_IdempotencyKey :: string
  wd_RequestHash :: string
  wd_Status :: string
  wd_FailureReason :: "string option"
  wd_ReviewedBy :: "string option"
  wd_ReviewedAt :: "go_time option"
  wd_ReviewNote :: "string option"
  wd_HoldEntryID :: "int option"
  wd_CorrelationID :: "string option"
  wd_Version :: int
  wd_CreatedAt :: go_time
  wd_Nonce :: "int option"
  wd_RawTx :: "bytes option"
  wd_TxHash :: "string option"
  wd_BroadcastAt :: "go_time option"
  wd_Replacements :: int
  wd_BlockNumber :: "int option"
  wd_GasCost :: "int option"
  wd_CancelTxHash :: "string option"
  wd_ResolveAction :: "string option"
  wd_ResolveNote :: "string option"
  wd_ResolveRequestedBy :: "string option"
  wd_ResolveRequestedAt :: "go_time option"
  wd_ResolveError :: "string option"
  wd_Fee :: int
  wd_FeeAsset :: string

record HotWalletRow =
  hw_TenantID :: string
  hw_ChainID :: int
  hw_Address :: string
  hw_NextNonce :: int
  hw_LowAlertedAt :: "go_time option"

record NonceFillRow =
  nf_TenantID :: string
  nf_ChainID :: int
  nf_Nonce :: int
  nf_TxHash :: string
  nf_Reason :: string
  nf_Status :: string

record SignatureRow =
  sg_TenantID :: string
  sg_Kind :: string
  sg_RefID :: string
  sg_Attempt :: int
  sg_ChainID :: int
  sg_FromAddress :: string
  sg_ToAddress :: string
  sg_Nonce :: int
  sg_TxHash :: string
  sg_RawTx :: bytes

text \<open>Of a sweep and of a deposit address, the columns the signer reads.\<close>

record SweepRow =
  sw_ID :: string
  sw_TenantID :: string
  sw_ChainID :: int
  sw_AddressID :: string
  sw_FromAddress :: string
  sw_Asset :: string
  sw_Amount :: int
  sw_Status :: string
  sw_GasFundingAmount :: "int option"
  sw_GasFundingNonce :: "int option"
  sw_Nonce :: "int option"

record DepositAddressRow =
  da_ID :: string
  da_TenantID :: string
  da_Address :: string
  da_DerivationIndex :: int

record AuditRow =
  at_TenantID :: string
  at_ActorType :: string
  at_ActorID :: "string option"
  at_Action :: string
  at_TargetType :: "string option"
  at_TargetID :: "string option"
  at_Before :: "json option"
  at_After :: "json option"
  at_IP :: "string option"
  at_CorrelationID :: "string option"

record ChainDB =
  ch_ledger :: Ledger
  ch_withdrawals :: "WithdrawalRow list"
  ch_hot :: "HotWalletRow list"
  ch_fills :: "NonceFillRow list"
  ch_signatures :: "SignatureRow list"
  ch_sweeps :: "SweepRow list"
  ch_pool :: "DepositAddressRow list"
  ch_outbox :: "OutboxRow list"
  ch_audit :: "AuditRow list"

type_synonym 'a eff = "ChainDB \<Rightarrow> ChainDB \<times> (wd_error + 'a)"

definition on_ledger :: "(Ledger \<Rightarrow> Ledger \<times> (ledger_error + 'a)) \<Rightarrow> 'a eff" where
  "on_ledger f s =
     (case f (ch_ledger s) of
        (L1, Inl e) \<Rightarrow> (s\<lparr>ch_ledger := L1\<rparr>, Inl (errCode e))
      | (L1, Inr x) \<Rightarrow> (s\<lparr>ch_ledger := L1\<rparr>, Inr x))"

section \<open>Text columns\<close>

definition to_lower :: "string \<Rightarrow> string" where
  "to_lower = map (\<lambda>c. if char_in CHR ''A'' CHR ''Z'' c then char_of (of_char c + 32 :: nat) else c)"

definition to_upper :: "string \<Rightarrow> string" where
  "to_upper = map (\<lambda>c. if char_in CHR ''a'' CHR ''z'' c then char_of (of_char c - 32 :: nat) else c)"

text \<open>The patterns \<^verbatim>\<open>^[0-9a-f]{n}$\<close> and \<^verbatim>\<open>^0x[0-9a-f]{n}$\<close>.\<close>

definition hex_text :: "nat \<Rightarrow> string \<Rightarrow> bool" where
  "hex_text n s \<longleftrightarrow> length s = n \<and> list_all (\<lambda>c. char_in CHR ''0'' CHR ''9'' c \<or> char_in CHR ''a'' CHR ''f'' c) s"

definition hex_0x :: "nat \<Rightarrow> string \<Rightarrow> bool" where
  "hex_0x n s \<longleftrightarrow> take 2 s = ''0x'' \<and> hex_text n (drop 2 s)"

definition int4 :: "int \<Rightarrow> bool" where "int4 i \<longleftrightarrow> - (2 ^ 31) \<le> i \<and> i < 2 ^ 31"

section \<open>Statuses\<close>

definition StatusRequested :: string where [simp]: "StatusRequested = ''requested''"
definition StatusPolicyCheck :: string where [simp]: "StatusPolicyCheck = ''policy_check''"
definition StatusAutoApproved :: string where [simp]: "StatusAutoApproved = ''auto_approved''"
definition StatusPendingReview :: string where [simp]: "StatusPendingReview = ''pending_review''"
definition StatusApproved :: string where [simp]: "StatusApproved = ''approved''"
definition StatusRejected_wd :: string where [simp]: "StatusRejected_wd = ''rejected''"
definition StatusFundsLocked :: string where [simp]: "StatusFundsLocked = ''funds_locked''"
definition StatusSigned :: string where [simp]: "StatusSigned = ''signed''"
definition StatusBroadcast :: string where [simp]: "StatusBroadcast = ''broadcast''"
definition StatusConfirmed :: string where [simp]: "StatusConfirmed = ''confirmed''"
definition StatusFailed :: string where [simp]: "StatusFailed = ''failed''"

definition FailureInsufficientBalance :: string where [simp]: "FailureInsufficientBalance = ''insufficient_balance''"
definition FailurePolicy :: string where [simp]: "FailurePolicy = ''policy''"
definition FailureBroadcast :: string where [simp]: "FailureBroadcast = ''broadcast''"
definition FailureOnChain :: string where [simp]: "FailureOnChain = ''on_chain''"
definition FailureReplaced :: string where [simp]: "FailureReplaced = ''replaced''"

definition all_statuses :: "string list" where
  "all_statuses = [StatusRequested, StatusPolicyCheck, StatusAutoApproved, StatusPendingReview, StatusApproved, StatusRejected_wd,
     StatusFundsLocked, StatusSigned, StatusBroadcast, StatusConfirmed, StatusFailed]"

section \<open>Constraints\<close>

text \<open>A column that may be NULL satisfies its check when it is.\<close>

definition null_or :: "('a \<Rightarrow> bool) \<Rightarrow> 'a option \<Rightarrow> bool" where
  "null_or P x = (case x of None \<Rightarrow> True | Some y \<Rightarrow> P y)"

definition withdrawal_checks :: "Ledger \<Rightarrow> WithdrawalRow \<Rightarrow> bool" where
  "withdrawal_checks L r \<longleftrightarrow>
     0 < wd_Amount r \<and> in_range (wd_Amount r) \<and> 0 \<le> wd_Fee r \<and> in_range (wd_Fee r) \<and> wd_FeeAsset r \<noteq> [] \<and>
     account_exists L (wd_AccountID r) \<and> hex_0x 40 (wd_ToAddress r) \<and>
     1 \<le> length (wd_IdempotencyKey r) \<and> length (wd_IdempotencyKey r) \<le> 255 \<and> hex_text 64 (wd_RequestHash r) \<and>
     wd_Status r \<in> set all_statuses \<and>
     null_or (\<lambda>f. f \<in> {FailureInsufficientBalance, FailurePolicy, FailureBroadcast, FailureOnChain, FailureReplaced}) (wd_FailureReason r) \<and>
     (wd_Status r = StatusFailed \<longrightarrow> wd_FailureReason r \<noteq> None) \<and>
     (wd_ReviewedBy r = None \<or> wd_ReviewedAt r \<noteq> None) \<and>
     null_or (\<lambda>i. GetJournalEntry L i \<noteq> None) (wd_HoldEntryID r) \<and>
     (wd_Status r \<in> {StatusFundsLocked, StatusSigned, StatusBroadcast, StatusConfirmed} \<longrightarrow> wd_HoldEntryID r \<noteq> None) \<and>
     int4 (wd_Version r) \<and> null_or ((\<le>) 0) (wd_Nonce r) \<and> null_or (hex_0x 64) (wd_TxHash r) \<and>
     0 \<le> wd_Replacements r \<and> int4 (wd_Replacements r) \<and> null_or ((\<le>) 0) (wd_BlockNumber r) \<and>
     null_or (\<lambda>g. 0 \<le> g \<and> in_range g) (wd_GasCost r) \<and> null_or (hex_0x 64) (wd_CancelTxHash r) \<and>
     null_or (\<lambda>a. a \<in> {''bump'', ''cancel_nonce'', ''refund'', ''retry''}) (wd_ResolveAction r) \<and>
     (wd_ResolveAction r = None \<or> wd_ResolveNote r \<noteq> None \<and> wd_ResolveRequestedBy r \<noteq> None \<and> wd_ResolveRequestedAt r \<noteq> None) \<and>
     (wd_Status r \<in> {StatusSigned, StatusBroadcast, StatusConfirmed} \<longrightarrow>
        wd_Nonce r \<noteq> None \<and> wd_RawTx r \<noteq> None \<and> wd_TxHash r \<noteq> None)"

section \<open>Withdrawals\<close>

definition GetWithdrawal :: "ChainDB \<Rightarrow> string \<Rightarrow> string \<Rightarrow> WithdrawalRow option" where
  "GetWithdrawal s tenant i = find (\<lambda>r. wd_TenantID r = tenant \<and> wd_ID r = i) (ch_withdrawals s)"

definition GetWithdrawalByIdempotencyKey :: "ChainDB \<Rightarrow> string \<Rightarrow> string \<Rightarrow> string \<Rightarrow> WithdrawalRow option" where
  "GetWithdrawalByIdempotencyKey s tenant account key =
     find (\<lambda>r. wd_TenantID r = tenant \<and> wd_AccountID r = account \<and> wd_IdempotencyKey r = key) (ch_withdrawals s)"

definition set_row :: "WithdrawalRow \<Rightarrow> WithdrawalRow list \<Rightarrow> WithdrawalRow list" where
  "set_row r = map (\<lambda>x. if wd_ID x = wd_ID r then r else x)"

text \<open>An UPDATE of one row that returns it; ids are the primary key.\<close>

definition UpdateWithdrawal :: "string \<Rightarrow> string \<Rightarrow> (WithdrawalRow \<Rightarrow> WithdrawalRow) \<Rightarrow> WithdrawalRow eff" where
  "UpdateWithdrawal tenant i f s =
     (case GetWithdrawal s tenant i of
        None \<Rightarrow> (s, Inl errNoRows)
      | Some r \<Rightarrow>
          (let r1 = f r
           in if \<not> withdrawal_checks (ch_ledger s) r1 then (s, Inl errCheck)
              else (s\<lparr>ch_withdrawals := set_row r1 (ch_withdrawals s)\<rparr>, Inr r1)))"

definition InsertWithdrawal :: "WithdrawalRow \<Rightarrow> WithdrawalRow eff" where
  "InsertWithdrawal r s =
     (if \<not> withdrawal_checks (ch_ledger s) r then (s, Inl errCheck)
      else if wd_ID r \<in> wd_ID ` set (ch_withdrawals s) \<or>
        GetWithdrawalByIdempotencyKey s (wd_TenantID r) (wd_AccountID r) (wd_IdempotencyKey r) \<noteq> None then (s, Inl errUnique)
      else (s\<lparr>ch_withdrawals := ch_withdrawals s @ [r]\<rparr>, Inr r))"

definition bump_version :: "WithdrawalRow \<Rightarrow> WithdrawalRow" where
  "bump_version r = r\<lparr>wd_Version := wd_Version r + 1\<rparr>"

definition ClaimWithdrawals :: "ChainDB \<Rightarrow> string \<Rightarrow> string list \<Rightarrow> int \<Rightarrow> WithdrawalRow list" where
  "ClaimWithdrawals s tenant statuses limit =
     take (nat limit) (sort_key wd_CreatedAt (filter (\<lambda>r. wd_TenantID r = tenant \<and> wd_Status r \<in> set statuses) (ch_withdrawals s)))"

definition UpdateWithdrawalStatus :: "string \<Rightarrow> string \<Rightarrow> string \<Rightarrow> string option \<Rightarrow> WithdrawalRow eff" where
  "UpdateWithdrawalStatus tenant i status reason =
     UpdateWithdrawal tenant i (\<lambda>r. bump_version (r\<lparr>wd_Status := status, wd_FailureReason := reason\<rparr>))"

definition LockWithdrawalFunds :: "string \<Rightarrow> string \<Rightarrow> int option \<Rightarrow> WithdrawalRow eff" where
  "LockWithdrawalFunds tenant i entry =
     UpdateWithdrawal tenant i (\<lambda>r. bump_version (r\<lparr>wd_Status := ''funds_locked'', wd_HoldEntryID := entry\<rparr>))"

definition ReviewWithdrawal :: "go_time \<Rightarrow> string \<Rightarrow> string \<Rightarrow> string \<Rightarrow> string option \<Rightarrow> string option \<Rightarrow> string option \<Rightarrow> WithdrawalRow eff" where
  "ReviewWithdrawal now tenant i status reason by note =
     UpdateWithdrawal tenant i (\<lambda>r. bump_version (r\<lparr>wd_Status := status, wd_FailureReason := reason, wd_ReviewedBy := by,
       wd_ReviewedAt := Some now, wd_ReviewNote := note\<rparr>))"

definition ListWithdrawalsByAccount :: "ChainDB \<Rightarrow> string \<Rightarrow> string \<Rightarrow> int \<Rightarrow> WithdrawalRow list" where
  "ListWithdrawalsByAccount s tenant account limit =
     take (nat limit) (sort_key (\<lambda>r. - wd_CreatedAt r) (filter (\<lambda>r. wd_TenantID r = tenant \<and> wd_AccountID r = account) (ch_withdrawals s)))"

definition ListWithdrawalsByStatus :: "ChainDB \<Rightarrow> string \<Rightarrow> string list \<Rightarrow> int \<Rightarrow> WithdrawalRow list" where
  "ListWithdrawalsByStatus = ClaimWithdrawals"

definition SumWithdrawnSince :: "ChainDB \<Rightarrow> string \<Rightarrow> string \<Rightarrow> string \<Rightarrow> go_time \<Rightarrow> wd_error + int" where
  "SumWithdrawnSince s tenant account asset since =
     (let total = (\<Sum>r\<leftarrow>filter (\<lambda>r. wd_TenantID r = tenant \<and> wd_AccountID r = account \<and> wd_Asset r = asset \<and>
            wd_CreatedAt r \<ge> since \<and> wd_Status r \<notin> {''rejected'', ''failed''}) (ch_withdrawals s). wd_Amount r)
      in if in_range total then Inr total else Inl errCheck)"

definition CountWithdrawalsByStatus :: "ChainDB \<Rightarrow> string \<Rightarrow> string list \<Rightarrow> int" where
  "CountWithdrawalsByStatus s tenant statuses =
     int (length (filter (\<lambda>r. wd_TenantID r = tenant \<and> wd_Status r \<in> set statuses) (ch_withdrawals s)))"

definition RequestWithdrawalResolve :: "go_time \<Rightarrow> string \<Rightarrow> string \<Rightarrow> string option \<Rightarrow> string option \<Rightarrow> string option \<Rightarrow> WithdrawalRow eff" where
  "RequestWithdrawalResolve now tenant i action note by =
     UpdateWithdrawal tenant i (\<lambda>r. bump_version (r\<lparr>wd_ResolveAction := action, wd_ResolveNote := note, wd_ResolveRequestedBy := by,
       wd_ResolveRequestedAt := Some now, wd_ResolveError := None\<rparr>))"

text \<open>NULLs come last in an ascending order; the rows claimed have an instant.\<close>

definition ClaimResolveRequests :: "ChainDB \<Rightarrow> string \<Rightarrow> int \<Rightarrow> WithdrawalRow list" where
  "ClaimResolveRequests s tenant limit =
     take (nat limit) (sort_key (\<lambda>r. case wd_ResolveRequestedAt r of None \<Rightarrow> 2 ^ 80 | Some t \<Rightarrow> t)
       (filter (\<lambda>r. wd_TenantID r = tenant \<and> wd_ResolveAction r \<noteq> None) (ch_withdrawals s)))"

text \<open>An \<^verbatim>\<open>:exec\<close>: a row that is not there is no error.\<close>

definition ClearWithdrawalResolve :: "string \<Rightarrow> string \<Rightarrow> string option \<Rightarrow> unit eff" where
  "ClearWithdrawalResolve tenant i err s =
     (case UpdateWithdrawal tenant i (\<lambda>r. r\<lparr>wd_ResolveAction := None, wd_ResolveError := err\<rparr>) s of
        (s1, Inl e) \<Rightarrow> (s1, if e = errNoRows then Inr () else Inl e)
      | (s1, Inr _) \<Rightarrow> (s1, Inr ()))"

section \<open>Transactions of withdrawals\<close>

definition SignWithdrawal :: "string \<Rightarrow> string \<Rightarrow> int option \<Rightarrow> bytes \<Rightarrow> string option \<Rightarrow> WithdrawalRow eff" where
  "SignWithdrawal tenant i nonce raw hash =
     UpdateWithdrawal tenant i (\<lambda>r. bump_version (r\<lparr>wd_Status := ''signed'', wd_Nonce := nonce, wd_RawTx := Some raw, wd_TxHash := hash\<rparr>))"

definition MarkWithdrawalBroadcast :: "go_time \<Rightarrow> string \<Rightarrow> string \<Rightarrow> WithdrawalRow eff" where
  "MarkWithdrawalBroadcast now tenant i =
     UpdateWithdrawal tenant i (\<lambda>r. bump_version (r\<lparr>wd_Status := ''broadcast'', wd_BroadcastAt := Some now\<rparr>))"

definition ReplaceWithdrawalTx :: "go_time \<Rightarrow> string \<Rightarrow> string \<Rightarrow> bytes \<Rightarrow> string option \<Rightarrow> WithdrawalRow eff" where
  "ReplaceWithdrawalTx now tenant i raw hash =
     UpdateWithdrawal tenant i (\<lambda>r. bump_version (r\<lparr>wd_RawTx := Some raw, wd_TxHash := hash, wd_BroadcastAt := Some now,
       wd_Replacements := wd_Replacements r + 1\<rparr>))"

definition MarkWithdrawalReplacementFailed :: "go_time \<Rightarrow> string \<Rightarrow> string \<Rightarrow> WithdrawalRow eff" where
  "MarkWithdrawalReplacementFailed now tenant i =
     UpdateWithdrawal tenant i (\<lambda>r. bump_version (r\<lparr>wd_BroadcastAt := Some now, wd_Replacements := wd_Replacements r + 1\<rparr>))"

definition MarkWithdrawalConfirmed :: "string \<Rightarrow> string \<Rightarrow> int option \<Rightarrow> int \<Rightarrow> WithdrawalRow eff" where
  "MarkWithdrawalConfirmed tenant i block gas =
     UpdateWithdrawal tenant i (\<lambda>r. bump_version (r\<lparr>wd_Status := ''confirmed'', wd_BlockNumber := block, wd_GasCost := Some gas\<rparr>))"

definition RecordWithdrawalGas :: "string \<Rightarrow> string \<Rightarrow> int option \<Rightarrow> int \<Rightarrow> WithdrawalRow eff" where
  "RecordWithdrawalGas tenant i block gas =
     UpdateWithdrawal tenant i (\<lambda>r. bump_version (r\<lparr>wd_BlockNumber := block, wd_GasCost := Some gas\<rparr>))"

definition AllocateWithdrawalNonce :: "string \<Rightarrow> string \<Rightarrow> int option \<Rightarrow> WithdrawalRow eff" where
  "AllocateWithdrawalNonce tenant i nonce = UpdateWithdrawal tenant i (\<lambda>r. bump_version (r\<lparr>wd_Nonce := nonce\<rparr>))"

definition MarkWithdrawalCancelling :: "string \<Rightarrow> string \<Rightarrow> string option \<Rightarrow> WithdrawalRow eff" where
  "MarkWithdrawalCancelling tenant i hash = UpdateWithdrawal tenant i (\<lambda>r. bump_version (r\<lparr>wd_CancelTxHash := hash\<rparr>))"

definition RetryWithdrawal :: "string \<Rightarrow> string \<Rightarrow> WithdrawalRow eff" where
  "RetryWithdrawal tenant i =
     UpdateWithdrawal tenant i (\<lambda>r. bump_version (r\<lparr>wd_Status := ''funds_locked'', wd_FailureReason := None, wd_Nonce := None,
       wd_RawTx := None, wd_TxHash := None, wd_BroadcastAt := None, wd_BlockNumber := None, wd_CancelTxHash := None,
       wd_Replacements := wd_Replacements r + 1\<rparr>))"

definition ListAllocatedNonces :: "ChainDB \<Rightarrow> string \<Rightarrow> int \<Rightarrow> WithdrawalRow list" where
  "ListAllocatedNonces s tenant chain =
     sort_key (\<lambda>r. the (wd_Nonce r)) (filter (\<lambda>r. wd_TenantID r = tenant \<and> wd_ChainID r = chain \<and> wd_Nonce r \<noteq> None) (ch_withdrawals s))"

section \<open>The hot wallet, nonce fills and signatures\<close>

definition GetHotWallet :: "ChainDB \<Rightarrow> string \<Rightarrow> int \<Rightarrow> HotWalletRow option" where
  "GetHotWallet s tenant chain = find (\<lambda>h. hw_TenantID h = tenant \<and> hw_ChainID h = chain) (ch_hot s)"

definition set_hot :: "HotWalletRow \<Rightarrow> HotWalletRow list \<Rightarrow> HotWalletRow list" where
  "set_hot h = map (\<lambda>x. if hw_TenantID x = hw_TenantID h \<and> hw_ChainID x = hw_ChainID h then h else x)"

definition UpsertHotWallet :: "string \<Rightarrow> int \<Rightarrow> string \<Rightarrow> int \<Rightarrow> HotWalletRow eff" where
  "UpsertHotWallet tenant chain address next s =
     (case GetHotWallet s tenant chain of
        Some h \<Rightarrow> (s, Inr h)
      | None \<Rightarrow>
          (let h = \<lparr>hw_TenantID = tenant, hw_ChainID = chain, hw_Address = address, hw_NextNonce = next, hw_LowAlertedAt = None\<rparr>
           in if \<not> hex_0x 40 address \<or> next < 0 then (s, Inl errCheck) else (s\<lparr>ch_hot := ch_hot s @ [h]\<rparr>, Inr h)))"

text \<open>The row lock of the statement makes it one step; the nonce before is returned.\<close>

definition AllocateNonce :: "string \<Rightarrow> int \<Rightarrow> int eff" where
  "AllocateNonce tenant chain s =
     (case GetHotWallet s tenant chain of
        None \<Rightarrow> (s, Inl errNoRows)
      | Some h \<Rightarrow>
          (let n = hw_NextNonce h + 1
           in if n < 0 \<or> n \<ge> 2 ^ 63 then (s, Inl errCheck)
              else (s\<lparr>ch_hot := set_hot (h\<lparr>hw_NextNonce := n\<rparr>) (ch_hot s)\<rparr>, Inr (n - 1))))"

definition SetNextNonce :: "string \<Rightarrow> int \<Rightarrow> int \<Rightarrow> unit eff" where
  "SetNextNonce tenant chain next s =
     (case GetHotWallet s tenant chain of
        None \<Rightarrow> (s, Inr ())
      | Some h \<Rightarrow> (if next < 0 then (s, Inl errCheck) else (s\<lparr>ch_hot := set_hot (h\<lparr>hw_NextNonce := next\<rparr>) (ch_hot s)\<rparr>, Inr ())))"

definition GetSignature :: "ChainDB \<Rightarrow> string \<Rightarrow> string \<Rightarrow> string \<Rightarrow> int \<Rightarrow> SignatureRow option" where
  "GetSignature s tenant kind ref attempt' =
     find (\<lambda>g. sg_TenantID g = tenant \<and> sg_Kind g = kind \<and> sg_RefID g = ref \<and> sg_Attempt g = attempt') (ch_signatures s)"

definition InsertSignature :: "SignatureRow \<Rightarrow> SignatureRow eff" where
  "InsertSignature g s =
     (if sg_Kind g \<notin> {''withdrawal'', ''sweep'', ''gas_fund'', ''nonce_fill''} \<or> sg_Attempt g < 0 \<or> sg_Nonce g < 0 \<or>
        \<not> hex_0x 40 (sg_FromAddress g) \<or> \<not> hex_0x 40 (sg_ToAddress g) \<or> \<not> hex_0x 64 (sg_TxHash g) then (s, Inl errCheck)
      else if GetSignature s (sg_TenantID g) (sg_Kind g) (sg_RefID g) (sg_Attempt g) \<noteq> None then (s, Inl errUnique)
      else (s\<lparr>ch_signatures := ch_signatures s @ [g]\<rparr>, Inr g))"

definition InsertNonceFill :: "string \<Rightarrow> int \<Rightarrow> int \<Rightarrow> string \<Rightarrow> string \<Rightarrow> NonceFillRow eff" where
  "InsertNonceFill tenant chain nonce hash reason s =
     (let f = \<lparr>nf_TenantID = tenant, nf_ChainID = chain, nf_Nonce = nonce, nf_TxHash = hash, nf_Reason = reason, nf_Status = ''broadcast''\<rparr>
      in if nonce < 0 \<or> \<not> hex_0x 64 hash \<or> reason \<notin> {''broadcast_failed'', ''startup_gap'', ''cancel_nonce''} then (s, Inl errCheck)
         else if \<exists>x \<in> set (ch_fills s). nf_TenantID x = tenant \<and> nf_ChainID x = chain \<and> nf_Nonce x = nonce then (s, Inl errUnique)
         else (s\<lparr>ch_fills := ch_fills s @ [f]\<rparr>, Inr f))"

definition UpdateNonceFillStatus :: "string \<Rightarrow> int \<Rightarrow> int \<Rightarrow> string \<Rightarrow> unit eff" where
  "UpdateNonceFillStatus tenant chain nonce status s =
     (if status \<notin> {''broadcast'', ''confirmed'', ''failed''} then (s, Inl errCheck)
      else (s\<lparr>ch_fills := map (\<lambda>x. if nf_TenantID x = tenant \<and> nf_ChainID x = chain \<and> nf_Nonce x = nonce
              then x\<lparr>nf_Status := status\<rparr> else x) (ch_fills s)\<rparr>, Inr ()))"

definition ListUnconfirmedNonceFills :: "ChainDB \<Rightarrow> string \<Rightarrow> int \<Rightarrow> NonceFillRow list" where
  "ListUnconfirmedNonceFills s tenant chain =
     sort_key nf_Nonce (filter (\<lambda>x. nf_TenantID x = tenant \<and> nf_ChainID x = chain \<and> nf_Status x = ''broadcast'') (ch_fills s))"

definition GetSweep :: "ChainDB \<Rightarrow> string \<Rightarrow> string \<Rightarrow> SweepRow option" where
  "GetSweep s tenant i = find (\<lambda>r. sw_TenantID r = tenant \<and> sw_ID r = i) (ch_sweeps s)"

definition GetDepositAddressByID :: "ChainDB \<Rightarrow> string \<Rightarrow> string \<Rightarrow> DepositAddressRow option" where
  "GetDepositAddressByID s tenant i = find (\<lambda>r. da_TenantID r = tenant \<and> da_ID r = i) (ch_pool s)"

section \<open>The audit trail\<close>

text \<open>\<^verbatim>\<open>json.Marshal\<close> writes a map in the order of its keys.\<close>

definition json_map :: "(string \<times> json) list \<Rightarrow> json" where
  "json_map kvs = JObj (sort_key fst kvs)"

record AuditEvent =
  ae_ActorType :: string
  ae_ActorID :: string
  ae_Action :: string
  ae_TargetType :: string
  ae_TargetID :: string
  ae_Before :: "json option"
  ae_After :: "json option"
  ae_IP :: string
  ae_CorrelationID :: string

definition Recorder_Record :: "string \<Rightarrow> AuditEvent \<Rightarrow> unit eff" where
  "Recorder_Record tenant e s =
     (if ae_Action e = [] \<or> ae_ActorType e \<notin> {''user'', ''admin'', ''system'', ''api_key''} then (s, Inl errAudit)
      else (s\<lparr>ch_audit := ch_audit s @ [\<lparr>at_TenantID = tenant, at_ActorType = ae_ActorType e, at_ActorID = optString (ae_ActorID e),
              at_Action = ae_Action e, at_TargetType = optString (ae_TargetType e), at_TargetID = optString (ae_TargetID e),
              at_Before = ae_Before e, at_After = ae_After e, at_IP = optString (ae_IP e),
              at_CorrelationID = optString (ae_CorrelationID e)\<rparr>]\<rparr>, Inr ()))"

end
