(* ===== verification/Signer.thy ===== *)
theory Signer
  imports Chain_Store
begin

text \<open>
  \<^verbatim>\<open>internal/chain/signer\<close> (signer.go, keystore.go, sweep.go) and the derivation paths of \<^verbatim>\<open>internal/chain/hdwallet\<close>: what
  may be signed, and that one intent is signed once. Deriving a key and signing with it are library code: the field
  \<open>ks_sign\<close> gives the sender, the bytes and the hash of a transaction signed with the key at a path.
\<close>

section \<open>Requests\<close>

datatype Kind = KindWithdrawal_sign | KindSweep_sign | KindGasFund | KindNonceFill | Kind_other string

definition Kind_text :: "Kind \<Rightarrow> string" where
  "Kind_text k =
     (case k of KindWithdrawal_sign \<Rightarrow> ''withdrawal'' | KindSweep_sign \<Rightarrow> ''sweep'' | KindGasFund \<Rightarrow> ''gas_fund''
      | KindNonceFill \<Rightarrow> ''nonce_fill'' | Kind_other s \<Rightarrow> s)"

record 'd SignRequest =
  sq_Kind :: Kind
  sq_RefID :: string
  sq_Attempt :: int
  sq_ChainID :: int
  sq_To :: addr
  sq_Asset :: string
  sq_Value :: "'d amount"
  sq_Nonce :: u64
  sq_Gas :: u64
  sq_TipCap :: "int option"
  sq_FeeCap :: "int option"

record SignResult =
  sn_RawTx :: bytes
  sn_TxHash :: string
  sn_From :: string
  sn_Nonce :: u64

definition Kind_valid :: "Kind \<Rightarrow> bool" where
  "Kind_valid k \<longleftrightarrow> k \<in> {KindWithdrawal_sign, KindSweep_sign, KindGasFund, KindNonceFill}"

definition SignRequest_Validate :: "'d SignRequest \<Rightarrow> signer_error option" where
  "SignRequest_Validate r =
     (if \<not> Kind_valid (sq_Kind r) then Some ErrRefused
      else if sq_RefID r = [] then Some ErrRefused
      else if sq_Attempt r < 0 then Some ErrRefused
      else if sq_Gas r = 0 then Some ErrRefused
      else case (sq_TipCap r, sq_FeeCap r) of
             (Some tip, Some cap) \<Rightarrow>
               (if tip < 0 \<or> cap < 0 then Some ErrRefused else if tip > cap then Some ErrRefused else None)
           | _ \<Rightarrow> Some ErrRefused)"

section \<open>Paths\<close>

type_synonym path = "32 word list"

definition hardened :: "32 word" where "hardened = 0x80000000"

definition MaxDepositIndex :: "32 word" where "MaxDepositIndex = hardened - 1"

definition DepositPath :: "32 word \<Rightarrow> path option" where
  "DepositPath index =
     (if index > MaxDepositIndex then None
      else Some [or 44 hardened, or 60 hardened, or 0 hardened, 0, index])"

definition HotWalletPath :: path where
  "HotWalletPath = [or 44 hardened, or 60 hardened, or 1 hardened, 0, 0]"

section \<open>The signer\<close>

record EthTx =
  et_ChainID :: int
  et_Nonce :: u64
  et_To :: addr
  et_Value :: int
  et_Gas :: u64
  et_TipCap :: int
  et_FeeCap :: int
  et_Data :: bytes

record 'd KeystoreSigner =
  ks_tenant :: string
  ks_chainID :: int
  ks_hot :: addr
  ks_audit :: string
  ks_reg :: "string \<Rightarrow> 'd registry_Asset lookup"
  ks_sign :: "path \<Rightarrow> EthTx \<Rightarrow> (addr \<times> bytes \<times> string) option"

record outgoing =
  og_path :: path
  og_to :: addr
  og_value :: int
  og_data :: bytes

definition refused :: "wd_error + 'a" where "refused = Inl (errSigner ErrRefused)"

definition equal_fold :: "string \<Rightarrow> string \<Rightarrow> bool" where
  "equal_fold a b \<longleftrightarrow> to_lower a = to_lower b"

text \<open>A value transfer for the native coin, a call of the contract for a token.\<close>

definition transfer_tx :: "'d decimal_pkg \<Rightarrow> eth_pkg \<Rightarrow> path \<Rightarrow> 'd registry_Asset \<Rightarrow> addr \<Rightarrow> 'd amount \<Rightarrow> wd_error + outgoing" where
  "transfer_tx D E p asset to amount =
     (case ToWei D amount (as_Scale asset) of
        Inl _ \<Rightarrow> refused
      | Inr units \<Rightarrow>
          (if as_IsNative asset then Inr \<lparr>og_path = p, og_to = to, og_value = units, og_data = []\<rparr>
           else case as_ContractAddress asset of
                  None \<Rightarrow> refused
                | Some c \<Rightarrow>
                    (if \<not> eth_IsHexAddress E c then refused
                     else case TransferCalldata E to (Some units) of
                            Inl _ \<Rightarrow> refused
                          | Inr data \<Rightarrow> Inr \<lparr>og_path = p, og_to = eth_HexToAddress E c, og_value = 0, og_data = data\<rparr>)))"

definition withdrawalTx :: "'d decimal_pkg \<Rightarrow> eth_pkg \<Rightarrow> 'd KeystoreSigner \<Rightarrow> ChainDB \<Rightarrow> 'd SignRequest \<Rightarrow> wd_error + outgoing" where
  "withdrawalTx D E k s req =
     (case GetWithdrawal s (ks_tenant k) (sq_RefID req) of
        None \<Rightarrow> refused
      | Some row \<Rightarrow>
          (if wd_Status row = ''funds_locked'' \<and> sq_Attempt req \<noteq> wd_Replacements row then refused
           else if wd_Status row = ''broadcast'' \<and> sq_Attempt req \<noteq> int32 (wd_Replacements row + 1) then refused
           else if wd_Status row = ''broadcast'' \<and> map_option from_bigint (wd_Nonce row) \<noteq> Some (sq_Nonce req) then refused
           else if wd_Status row \<noteq> ''funds_locked'' \<and> wd_Status row \<noteq> ''broadcast'' then refused
           else case AmountFromNumeric D (column (wd_Amount row)) of
                  Inl e \<Rightarrow> Inl (errColumnW e)
                | Inr amount \<Rightarrow>
                    (if wd_ChainID row \<noteq> sq_ChainID req then refused
                     else if \<not> equal_fold (wd_ToAddress row) (eth_Hex E (sq_To req)) then refused
                     else if wd_Asset row \<noteq> sq_Asset req then refused
                     else if \<not> Amount_Equal D amount (sq_Value req) then refused
                     else case ks_reg k (wd_Asset row) of
                            Found asset \<Rightarrow> transfer_tx D E HotWalletPath asset (sq_To req) amount
                          | _ \<Rightarrow> Inl errLookup)))"

definition nonceFillTx :: "'d decimal_pkg \<Rightarrow> 'd KeystoreSigner \<Rightarrow> 'd SignRequest \<Rightarrow> wd_error + outgoing" where
  "nonceFillTx D k req =
     (if sq_To req \<noteq> ks_hot k then refused
      else if \<not> Amount_IsZero D (sq_Value req) then refused
      else Inr \<lparr>og_path = HotWalletPath, og_to = ks_hot k, og_value = 0, og_data = []\<rparr>)"

definition sweepAndAddress :: "'d KeystoreSigner \<Rightarrow> ChainDB \<Rightarrow> string \<Rightarrow> wd_error + SweepRow \<times> DepositAddressRow" where
  "sweepAndAddress k s i =
     (case GetSweep s (ks_tenant k) i of
        None \<Rightarrow> refused
      | Some row \<Rightarrow>
          (case GetDepositAddressByID s (ks_tenant k) (sw_AddressID row) of
             None \<Rightarrow> refused
           | Some address \<Rightarrow>
               (if \<not> equal_fold (da_Address address) (sw_FromAddress row) then refused else Inr (row, address))))"

definition sweepTx :: "'d decimal_pkg \<Rightarrow> eth_pkg \<Rightarrow> 'd KeystoreSigner \<Rightarrow> ChainDB \<Rightarrow> 'd SignRequest \<Rightarrow> wd_error + outgoing" where
  "sweepTx D E k s req =
     (case sweepAndAddress k s (sq_RefID req) of
        Inl e \<Rightarrow> Inl e
      | Inr (row, address) \<Rightarrow>
          (case ks_reg k (sw_Asset row) of
             Found asset \<Rightarrow>
               (if sw_Status row \<noteq> (if as_IsNative asset then ''requested'' else ''gas_funded'') then refused
                else if sq_Attempt req \<noteq> 0 then refused
                else if sq_To req \<noteq> ks_hot k then refused
                else case AmountFromNumeric D (column (sw_Amount row)) of
                       Inl e \<Rightarrow> Inl (errColumnW e)
                     | Inr amount \<Rightarrow>
                         (if sw_ChainID row \<noteq> sq_ChainID req then refused
                          else if sw_Asset row \<noteq> sq_Asset req then refused
                          else if \<not> Amount_Equal D amount (sq_Value req) then refused
                          else if map_option from_bigint (sw_Nonce row) \<noteq> Some (sq_Nonce req) then refused
                          else case DepositPath (word_of_int (da_DerivationIndex address)) of
                                 None \<Rightarrow> refused
                               | Some p \<Rightarrow> transfer_tx D E p asset (ks_hot k) amount))
           | _ \<Rightarrow> Inl errLookup))"

definition gasFundTx :: "'d decimal_pkg \<Rightarrow> eth_pkg \<Rightarrow> 'd KeystoreSigner \<Rightarrow> ChainDB \<Rightarrow> 'd SignRequest \<Rightarrow> wd_error + outgoing" where
  "gasFundTx D E k s req =
     (case sweepAndAddress k s (sq_RefID req) of
        Inl e \<Rightarrow> Inl e
      | Inr (row, address) \<Rightarrow>
          (if sw_Status row \<noteq> ''requested'' then refused
           else if sq_Attempt req \<noteq> 0 then refused
           else if sw_ChainID row \<noteq> sq_ChainID req then refused
           else if sq_To req \<noteq> eth_HexToAddress E (da_Address address) then refused
           else case sw_GasFundingAmount row of
                  None \<Rightarrow> refused
                | Some u \<Rightarrow>
                    (case AmountFromNumeric D (column u) of
                       Inl e \<Rightarrow> Inl (errColumnW e)
                     | Inr funding \<Rightarrow>
                         (if \<not> Amount_Equal D funding (sq_Value req) then refused
                          else if map_option from_bigint (sw_GasFundingNonce row) \<noteq> Some (sq_Nonce req) then refused
                          else case ToWei D funding Evm_MaxScale of
                                 Inl _ \<Rightarrow> refused
                               | Inr units \<Rightarrow>
                                   Inr \<lparr>og_path = HotWalletPath, og_to = eth_HexToAddress E (da_Address address),
                                        og_value = units, og_data = []\<rparr>))))"

definition outgoing_for :: "'d decimal_pkg \<Rightarrow> eth_pkg \<Rightarrow> 'd KeystoreSigner \<Rightarrow> ChainDB \<Rightarrow> 'd SignRequest \<Rightarrow> wd_error + outgoing" where
  "outgoing_for D E k s req =
     (case sq_Kind req of
        KindWithdrawal_sign \<Rightarrow> withdrawalTx D E k s req
      | KindNonceFill \<Rightarrow> nonceFillTx D k req
      | KindSweep_sign \<Rightarrow> sweepTx D E k s req
      | KindGasFund \<Rightarrow> gasFundTx D E k s req
      | Kind_other _ \<Rightarrow> refused)"

definition signer_existing :: "'d KeystoreSigner \<Rightarrow> ChainDB \<Rightarrow> 'd SignRequest \<Rightarrow> wd_error + SignResult" where
  "signer_existing k s req =
     (case GetSignature s (ks_tenant k) (Kind_text (sq_Kind req)) (sq_RefID req) (sq_Attempt req) of
        None \<Rightarrow> Inl (errSigner ErrAlreadySigned)
      | Some row \<Rightarrow>
          (if from_bigint (sg_Nonce row) \<noteq> sq_Nonce req then Inl (errSigner ErrAlreadySigned)
           else Inr \<lparr>sn_RawTx = sg_RawTx row, sn_TxHash = sg_TxHash row, sn_From = sg_FromAddress row, sn_Nonce = sq_Nonce req\<rparr>))"

definition signature_row :: "eth_pkg \<Rightarrow> 'd KeystoreSigner \<Rightarrow> 'd SignRequest \<Rightarrow> addr \<Rightarrow> addr \<Rightarrow> string \<Rightarrow> bytes \<Rightarrow> SignatureRow" where
  "signature_row E k req from' to hash raw =
     \<lparr>sg_TenantID = ks_tenant k, sg_Kind = Kind_text (sq_Kind req), sg_RefID = sq_RefID req, sg_Attempt = sq_Attempt req,
      sg_ChainID = ks_chainID k, sg_FromAddress = to_lower (eth_Hex E from'), sg_ToAddress = to_lower (eth_Hex E to),
      sg_Nonce = bigint (sq_Nonce req), sg_TxHash = hash, sg_RawTx = raw\<rparr>"

text \<open>\<open>None\<close> when the signature is new and recorded, the recorded one when this intent was signed before.\<close>

definition signer_record :: "'d decimal_pkg \<Rightarrow> eth_pkg \<Rightarrow> 'd KeystoreSigner \<Rightarrow> 'd SignRequest \<Rightarrow> addr \<Rightarrow> addr \<Rightarrow> string \<Rightarrow> bytes \<Rightarrow>
    SignResult option eff" where
  "signer_record D E k req from' to hash raw s =
     (case InsertSignature (signature_row E k req from' to hash raw) s of
        (s1, Inl e) \<Rightarrow> (s, if e = errUnique then map_sum id Some (signer_existing k s req) else Inl e)
      | (s1, Inr _) \<Rightarrow>
          (case Recorder_Record (ks_audit k)
              \<lparr>ae_ActorType = ''system'', ae_ActorID = ''signer'', ae_Action = ''signer.sign'',
               ae_TargetType = Kind_text (sq_Kind req), ae_TargetID = sq_RefID req, ae_Before = None,
               ae_After = Some (json_map [(''attempt'', JNum (sq_Attempt req)), (''nonce'', JNum (uint (sq_Nonce req))), (''tx_hash'', JStr hash),
                 (''from'', JStr (to_lower (eth_Hex E from'))), (''to'', JStr (to_lower (eth_Hex E to))),
                 (''asset'', JStr (sq_Asset req)), (''value'', JStr (Amount_String D (sq_Value req)))]),
               ae_IP = [], ae_CorrelationID = []\<rparr> s1 of
             (_, Inl e) \<Rightarrow> (s, Inl e)
           | (s2, Inr _) \<Rightarrow> (s2, Inr None)))"

definition eth_tx :: "'d KeystoreSigner \<Rightarrow> 'd SignRequest \<Rightarrow> outgoing \<Rightarrow> EthTx" where
  "eth_tx k req out =
     \<lparr>et_ChainID = ks_chainID k, et_Nonce = sq_Nonce req, et_To = og_to out, et_Value = og_value out, et_Gas = sq_Gas req,
      et_TipCap = the (sq_TipCap req), et_FeeCap = the (sq_FeeCap req), et_Data = og_data out\<rparr>"

definition Sign :: "'d decimal_pkg \<Rightarrow> eth_pkg \<Rightarrow> 'd KeystoreSigner \<Rightarrow> 'd SignRequest \<Rightarrow> SignResult eff" where
  "Sign D E k req s =
     (case SignRequest_Validate req of
        Some e \<Rightarrow> (s, Inl (errSigner e))
      | None \<Rightarrow>
          (if sq_ChainID req \<noteq> ks_chainID k then (s, refused)
           else case outgoing_for D E k s req of
                  Inl e \<Rightarrow> (s, Inl e)
                | Inr out \<Rightarrow>
                    (case ks_sign k (og_path out) (eth_tx k req out) of
                       None \<Rightarrow> (s, Inl (errSigner errSign))
                     | Some (from', raw, hash) \<Rightarrow>
                         (case signer_record D E k req from' (og_to out) (to_lower hash) raw s of
                            (s1, Inl e) \<Rightarrow> (s1, Inl e)
                          | (s1, Inr (Some existing)) \<Rightarrow> (s1, Inr existing)
                          | (s1, Inr None) \<Rightarrow>
                              (s1, Inr \<lparr>sn_RawTx = raw, sn_TxHash = to_lower hash, sn_From = to_lower (eth_Hex E from'),
                                        sn_Nonce = sq_Nonce req\<rparr>)))))"

section \<open>The signing log\<close>

text \<open>The log only grows, and no two rows are for the same intent.\<close>

definition intent :: "SignatureRow \<Rightarrow> string \<times> string \<times> string \<times> int" where
  "intent g = (sg_TenantID g, sg_Kind g, sg_RefID g, sg_Attempt g)"

definition log_ok :: "ChainDB \<Rightarrow> bool" where
  "log_ok s \<longleftrightarrow> distinct (map intent (ch_signatures s))"

lemma GetSignature_intent:
  "GetSignature s t k i n = find (\<lambda>g. intent g = (t, k, i, n)) (ch_signatures s)"
  by (auto simp: GetSignature_def intent_def intro: find_cong)

lemma InsertSignature_Inr:
  "InsertSignature g s = (s1, Inr r) \<longleftrightarrow> r = g \<and> s1 = s\<lparr>ch_signatures := ch_signatures s @ [g]\<rparr> \<and>
     sg_Kind g \<in> {''withdrawal'', ''sweep'', ''gas_fund'', ''nonce_fill''} \<and> 0 \<le> sg_Attempt g \<and> 0 \<le> sg_Nonce g \<and>
     hex_0x 40 (sg_FromAddress g) \<and> hex_0x 40 (sg_ToAddress g) \<and> hex_0x 64 (sg_TxHash g) \<and>
     GetSignature s (sg_TenantID g) (sg_Kind g) (sg_RefID g) (sg_Attempt g) = None"
  by (auto simp: InsertSignature_def not_less)

text \<open>What a call of the signer does to the tables: nothing, or a row in its log and one in the audit trail.\<close>

definition signed_more :: "ChainDB \<Rightarrow> ChainDB \<Rightarrow> bool" where
  "signed_more s s1 \<longleftrightarrow> (\<exists>gs as. s1 = s\<lparr>ch_signatures := ch_signatures s @ gs, ch_audit := ch_audit s @ as\<rparr>)"

lemma signer_record_cases:
  assumes "signer_record D E k req from' to hash raw s = (s1, r)"
  shows "signed_more s s1"
    "r = Inr None \<Longrightarrow> ch_signatures s1 = ch_signatures s @ [signature_row E k req from' to hash raw] \<and>
       GetSignature s (ks_tenant k) (Kind_text (sq_Kind req)) (sq_RefID req) (sq_Attempt req) = None"
    "r \<noteq> Inr None \<Longrightarrow> s1 = s"
    "r = Inr (Some x) \<Longrightarrow> signer_existing k s req = Inr x"
proof -
  let ?g = "signature_row E k req from' to hash raw"
  consider (bad) e where "snd (InsertSignature ?g s) = Inl e" | (ok) "\<exists>s0. InsertSignature ?g s = (s0, Inr ?g)"
    by (cases "InsertSignature ?g s"; cases "snd (InsertSignature ?g s)") (auto simp: InsertSignature_Inr)
  then have "signed_more s s1 \<and> (r = Inr None \<longrightarrow> ch_signatures s1 = ch_signatures s @ [?g] \<and>
       GetSignature s (ks_tenant k) (Kind_text (sq_Kind req)) (sq_RefID req) (sq_Attempt req) = None) \<and>
     (r \<noteq> Inr None \<longrightarrow> s1 = s) \<and> (\<forall>x. r = Inr (Some x) \<longrightarrow> signer_existing k s req = Inr x)"
  proof cases
    case bad
    have "signed_more s s" by (auto simp: signed_more_def intro!: exI [of _ "[]"])
    with bad assms show ?thesis
      by (auto simp: signer_record_def split: prod.splits if_splits) (cases "signer_existing k s req"; auto)+
  next
    case ok
    then obtain s0 where s0: "InsertSignature ?g s = (s0, Inr ?g)" by blast
    then have eq: "s0 = s\<lparr>ch_signatures := ch_signatures s @ [?g]\<rparr>"
      "GetSignature s (ks_tenant k) (Kind_text (sq_Kind req)) (sq_RefID req) (sq_Attempt req) = None"
      by (auto simp: InsertSignature_Inr signature_row_def)
    from assms s0 eq show ?thesis
      by (auto simp: signer_record_def Recorder_Record_def signed_more_def split: prod.splits)
  qed
  then show "signed_more s s1"
    "r = Inr None \<Longrightarrow> ch_signatures s1 = ch_signatures s @ [?g] \<and>
       GetSignature s (ks_tenant k) (Kind_text (sq_Kind req)) (sq_RefID req) (sq_Attempt req) = None"
    "r \<noteq> Inr None \<Longrightarrow> s1 = s"
    "r = Inr (Some x) \<Longrightarrow> signer_existing k s req = Inr x" by blast+
qed

lemma Sign_more: "Sign D E k req s = (s1, r) \<Longrightarrow> signed_more s s1"
proof -
  assume a: "Sign D E k req s = (s1, r)"
  have refl: "signed_more s s" by (auto simp: signed_more_def intro!: exI [of _ "[]"])
  show ?thesis
  proof (cases "\<exists>from' to hash raw r'. signer_record D E k req from' to hash raw s = (s1, r')")
    case True
    then show ?thesis using signer_record_cases(1) by blast
  next
    case False
    with a have "s1 = s" by (auto simp: Sign_def split: option.splits if_splits sum.splits prod.splits)
    with refl show ?thesis by simp
  qed
qed

end
