(* ===== verification/Hotwallet.thy ===== *)
theory Hotwallet
  imports Signer
begin

text \<open>
  \<^verbatim>\<open>internal/chain/hotwallet\<close> (nonce.go, describe.go): the nonces of the transactions the exchange sends. The signer is the
  interface of the code, a function; the locale \<open>signing\<close> is what its callers rely on, and the key store's \<open>Sign\<close>
  provides it.
\<close>

type_synonym 'd signer = "'d SignRequest \<Rightarrow> SignResult eff"

locale signing =
  fixes sign :: "'d signer"
  assumes only_logs: "sign req s = (s1, r) \<Longrightarrow> signed_more s s1"
begin

lemma keeps_tables:
  assumes "sign req s = (s1, r)"
  shows "ch_ledger s1 = ch_ledger s" "ch_withdrawals s1 = ch_withdrawals s" "ch_hot s1 = ch_hot s" "ch_fills s1 = ch_fills s"
    "ch_outbox s1 = ch_outbox s"
  using only_logs [OF assms] by (auto simp: signed_more_def)

end

interpretation keystore: signing "Sign D E k" for D :: "'d decimal_pkg" and E :: eth_pkg and k :: "'d KeystoreSigner"
  by unfold_locales (rule Sign_more)

section \<open>The manager\<close>

record Manager =
  hm_tenant :: string
  hm_chainID :: int
  hm_hot :: addr
  hm_maxFee :: "int option"

definition gasForSelfTransfer :: u64 where "gasForSelfTransfer = 21000"

definition WithMaxFee :: "Manager \<Rightarrow> int option \<Rightarrow> Manager" where
  "WithMaxFee m limit = m\<lparr>hm_maxFee := limit\<rparr>"

definition hot_address :: "eth_pkg \<Rightarrow> addr \<Rightarrow> string" where
  "hot_address E a = to_lower (eth_Hex E a)"

definition equalAddress :: "eth_pkg \<Rightarrow> string \<Rightarrow> addr \<Rightarrow> bool" where
  "equalAddress E stored a \<longleftrightarrow> eth_HexToAddress E stored = a"

text \<open>A number and its decimal text with a sign, as \<^verbatim>\<open>%d\<close> prints it.\<close>

definition int_text :: "int \<Rightarrow> string" where
  "int_text i = (if i < 0 then CHR ''-'' # digits (nat (- i)) else digits (nat i))"

definition fill_ref :: "int \<Rightarrow> u64 \<Rightarrow> string" where
  "fill_ref chain nonce = int_text chain @ '':'' @ digits (unat nonce)"

definition fill_request :: "'d decimal_pkg \<Rightarrow> Manager \<Rightarrow> Fees \<Rightarrow> u64 \<Rightarrow> 'd SignRequest" where
  "fill_request D m fees nonce =
     \<lparr>sq_Kind = KindNonceFill, sq_RefID = fill_ref (hm_chainID m) nonce, sq_Attempt = 0, sq_ChainID = hm_chainID m, sq_To = hm_hot m,
      sq_Asset = [], sq_Value = Zero D, sq_Nonce = nonce, sq_Gas = gasForSelfTransfer, sq_TipCap = fe_TipCap fees, sq_FeeCap = fe_FeeCap fees\<rparr>"

text \<open>Sending: an answer that the transaction is known is no failure.\<close>

definition send_known :: "Node \<Rightarrow> bytes \<Rightarrow> chain_error option" where
  "send_known node raw = (case nd_SendRawTransaction node raw of Some ErrKnownTransaction \<Rightarrow> None | r \<Rightarrow> r)"

definition fill_nonce :: "'d decimal_pkg \<Rightarrow> Manager \<Rightarrow> 'd signer \<Rightarrow> Node \<Rightarrow> u64 \<Rightarrow> string \<Rightarrow> unit eff" where
  "fill_nonce D m sg node nonce reason s =
     (case nd_SuggestFees node of
        Inl e \<Rightarrow> (s, Inl (errChain e))
      | Inr fees \<Rightarrow>
          (if Fees_Over fees (hm_maxFee m) then (s, Inl (errChain ErrFeeCeiling))
           else case sg (fill_request D m fees nonce) s of
                  (s1, Inl e) \<Rightarrow> (s1, Inl e)
                | (s1, Inr res) \<Rightarrow>
                    (case InsertNonceFill (hm_tenant m) (hm_chainID m) (bigint nonce) (sn_TxHash res) reason s1 of
                       (s2, Inl e) \<Rightarrow> (s2, Inl e)
                     | (s2, Inr _) \<Rightarrow>
                         (case send_known node (sn_RawTx res) of Some e \<Rightarrow> (s2, Inl (errChain e)) | None \<Rightarrow> (s2, Inr ())))))"

text \<open>Who holds each allocated nonce: a withdrawal that has it pinned, or a fill already sent.\<close>

definition holders :: "Manager \<Rightarrow> ChainDB \<Rightarrow> (u64, string) mapping" where
  "holders m s =
     fold (\<lambda>f. Mapping.update (from_bigint (nf_Nonce f)) (''nonce fill '' @ nf_TxHash f)) (ListUnconfirmedNonceFills s (hm_tenant m) (hm_chainID m))
       (fold (\<lambda>r h. case wd_Nonce r of
            None \<Rightarrow> h
          | Some n \<Rightarrow>
              (if wd_Status r \<in> {''funds_locked'', ''signed'', ''broadcast'', ''confirmed''}
               then Mapping.update (from_bigint n) (''withdrawal '' @ wd_ID r) h else h))
         (ListAllocatedNonces s (hm_tenant m) (hm_chainID m)) Mapping.empty)"

fun fill_gaps :: "'d decimal_pkg \<Rightarrow> Manager \<Rightarrow> 'd signer \<Rightarrow> Node \<Rightarrow> (u64, string) mapping \<Rightarrow> u64 list \<Rightarrow> unit eff" where
  "fill_gaps D m sg node h [] s = (s, Inr ())"
| "fill_gaps D m sg node h (n # ns) s =
     (if Mapping.lookup h n \<noteq> None then fill_gaps D m sg node h ns s
      else case fill_nonce D m sg node n ''startup_gap'' s of
             (s1, Inl e) \<Rightarrow> (s1, Inl e)
           | (s1, Inr _) \<Rightarrow> fill_gaps D m sg node h ns s1)"

definition Start :: "'d decimal_pkg \<Rightarrow> eth_pkg \<Rightarrow> Manager \<Rightarrow> 'd signer \<Rightarrow> Node \<Rightarrow> unit eff" where
  "Start D E m sg node s =
     (case nd_PendingNonceAt node (hm_hot m) of
        Inl e \<Rightarrow> (s, Inl (errChain e))
      | Inr pending \<Rightarrow>
          (case UpsertHotWallet (hm_tenant m) (hm_chainID m) (hot_address E (hm_hot m)) (bigint pending) s of
             (s1, Inl e) \<Rightarrow> (s1, Inl e)
           | (s1, Inr row) \<Rightarrow>
               (if \<not> equalAddress E (hw_Address row) (hm_hot m) then (s1, Inl ErrForeignTransaction)
                else let dbNext = from_bigint (hw_NextNonce row)
                     in if pending = dbNext then (s1, Inr ())
                        else if pending > dbNext then (s1, Inl ErrForeignTransaction)
                        else fill_gaps D m sg node (holders m s1) (map of_nat [unat pending..<unat dbNext]) s1)))"

definition Allocate :: "Manager \<Rightarrow> u64 eff" where
  "Allocate m s =
     (case AllocateNonce (hm_tenant m) (hm_chainID m) s of
        (s1, Inl e) \<Rightarrow> (s1, Inl e)
      | (s1, Inr n) \<Rightarrow> (if n < 0 then (s1, Inl errNonce) else (s1, Inr (from_bigint n))))"

definition Recycle :: "'d decimal_pkg \<Rightarrow> Manager \<Rightarrow> 'd signer \<Rightarrow> Node \<Rightarrow> u64 \<Rightarrow> string \<Rightarrow> unit eff" where
  "Recycle D m sg node nonce reason s =
     (case GetHotWallet s (hm_tenant m) (hm_chainID m) of
        None \<Rightarrow> (s, Inl errNoRows)
      | Some row \<Rightarrow>
          (if from_bigint (hw_NextNonce row) = nonce + 1
           then SetNextNonce (hm_tenant m) (hm_chainID m) (bigint nonce) s
           else fill_nonce D m sg node nonce reason s))"

record Description =
  ds_ChainID :: int
  ds_Address :: string
  ds_NextNonce :: int
  ds_LowAlertedAt :: "go_time option"

definition Describe :: "ChainDB \<Rightarrow> string \<Rightarrow> int \<Rightarrow> wd_error + Description" where
  "Describe s tenant chain =
     (case GetHotWallet s tenant chain of
        None \<Rightarrow> Inl ErrNoHotWallet
      | Some row \<Rightarrow> Inr \<lparr>ds_ChainID = hw_ChainID row, ds_Address = hw_Address row, ds_NextNonce = hw_NextNonce row,
                      ds_LowAlertedAt = hw_LowAlertedAt row\<rparr>)"

section \<open>What the manager touches\<close>

text \<open>The ledger, the withdrawals and the outbox stay as they are.\<close>

definition same_money :: "ChainDB \<Rightarrow> ChainDB \<Rightarrow> bool" where
  "same_money s s1 \<longleftrightarrow> ch_ledger s1 = ch_ledger s \<and> ch_withdrawals s1 = ch_withdrawals s \<and> ch_outbox s1 = ch_outbox s"

lemma same_money_refl [simp]: "same_money s s"
  by (simp add: same_money_def)

lemma same_money_trans: "same_money s s1 \<Longrightarrow> same_money s1 s2 \<Longrightarrow> same_money s s2"
  by (simp add: same_money_def)

lemma InsertNonceFill_money: "InsertNonceFill t c n h r s = (s1, x) \<Longrightarrow> same_money s s1"
  by (auto simp: InsertNonceFill_def Let_def same_money_def split: if_splits)

lemma AllocateNonce_money: "AllocateNonce t c s = (s1, x) \<Longrightarrow> same_money s s1"
  by (auto simp: AllocateNonce_def Let_def same_money_def split: option.splits if_splits)

lemma SetNextNonce_money: "SetNextNonce t c n s = (s1, x) \<Longrightarrow> same_money s s1"
  by (auto simp: SetNextNonce_def same_money_def split: option.splits if_splits)

lemma Allocate_money: "Allocate m s = (s1, x) \<Longrightarrow> same_money s s1"
  by (auto simp: Allocate_def split: prod.splits sum.splits if_splits dest: AllocateNonce_money)

context signing
begin

lemma sign_money: "sign req s = (s1, r) \<Longrightarrow> same_money s s1"
  using keeps_tables by (simp add: same_money_def)

lemma fill_nonce_money: "fill_nonce D m sign node n reason s = (s1, r) \<Longrightarrow> same_money s s1"
  by (auto simp: fill_nonce_def split: sum.splits prod.splits if_splits option.splits dest!: sign_money InsertNonceFill_money
      intro: same_money_trans)

lemma Recycle_money: "Recycle D m sign node n reason s = (s1, r) \<Longrightarrow> same_money s s1"
  by (auto simp: Recycle_def split: option.splits if_splits dest: SetNextNonce_money fill_nonce_money)

end

end
