(* ===== verification/Withdrawal.thy ===== *)
theory Withdrawal
  imports Hotwallet
begin

text \<open>
  \<^verbatim>\<open>internal/chain/withdrawal\<close>: withdrawal.go, events.go and service.go, the side of the API. The checks of \<^verbatim>\<open>Create\<close> read
  the tables before its transaction and are a function of their own, so that another request may run in between. The
  registry, the limits and the KYC levels are the interfaces of the code, functions of the environment; SHA-256 is a
  parameter. What a step draws, the clock, event and row ids, is the record \<open>Draw\<close>.
\<close>

section \<open>Environment\<close>

record 'd WithdrawalEnv =
  we_tenant :: string
  we_chainID :: int
  we_audit :: string
  we_ledger :: LedgerService
  we_reg :: "string \<Rightarrow> 'd registry_Asset lookup"
  we_limit :: "string \<Rightarrow> int \<Rightarrow> 'd WithdrawalLimit lookup"
  we_kyc :: "string \<Rightarrow> int option"
  we_native :: string
  we_batch :: int
  we_sends :: bool
  we_replaceAfter :: go_duration
  we_maxReplacements :: int
  we_maxFee :: "int option"
  we_defaultConfirmations :: int
  we_manager :: Manager

record Draw =
  dr_now :: go_time
  dr_event :: string
  dr_outbox :: int
  dr_trace :: "(string \<times> string) list"
  dr_entry :: "nat \<Rightarrow> int"

definition DailyWindow :: go_duration where "DailyWindow = 24 * 3600 * 10 ^ 9"

definition NewWorker :: "'d WithdrawalEnv \<Rightarrow> 'd WithdrawalEnv" where
  "NewWorker w =
     w\<lparr>we_batch := (if we_batch w \<le> 0 then 50 else we_batch w),
       we_native := (if we_native w = [] then ''ETH'' else we_native w), we_sends := False\<rparr>"

definition WithSending :: "'d WithdrawalEnv \<Rightarrow> 'd WithdrawalEnv" where
  "WithSending w =
     w\<lparr>we_replaceAfter := (if we_replaceAfter w \<le> 0 then 60 * 10 ^ 9 else we_replaceAfter w),
       we_maxReplacements := (if we_maxReplacements w \<le> 0 then 3 else we_maxReplacements w), we_sends := True\<rparr>"

section \<open>Records\<close>

record 'd WithdrawalRecord =
  rec_ID :: string
  rec_AccountID :: string
  rec_Asset :: string
  rec_Amount :: "'d amount"
  rec_Fee :: "'d amount"
  rec_FeeAsset :: string
  rec_ToAddress :: string
  rec_ChainID :: int
  rec_Status :: string
  rec_FailureReason :: string
  rec_ReviewNote :: string
  rec_ReviewedBy :: string
  rec_ReviewedAt :: "go_time option"
  rec_TxHash :: string
  rec_ResolveAction :: string
  rec_ResolveError :: string
  rec_CreatedAt :: go_time

definition amountAndFee :: "'d decimal_pkg \<Rightarrow> WithdrawalRow \<Rightarrow> wd_error + 'd amount \<times> 'd amount" where
  "amountAndFee D row =
     (case AmountFromNumeric D (column (wd_Amount row)) of
        Inl e \<Rightarrow> Inl (errColumnW e)
      | Inr amount \<Rightarrow>
          (case AmountFromNumeric D (column (wd_Fee row)) of
             Inl e \<Rightarrow> Inl (errColumnW e)
           | Inr fee \<Rightarrow> Inr (amount, fee)))"

definition current_tx :: "WithdrawalRow \<Rightarrow> string" where
  "current_tx row = (case wd_CancelTxHash row of Some h \<Rightarrow> h | None \<Rightarrow> deref (wd_TxHash row))"

definition recordFrom :: "'d decimal_pkg \<Rightarrow> WithdrawalRow \<Rightarrow> wd_error + 'd WithdrawalRecord" where
  "recordFrom D row =
     (case amountAndFee D row of
        Inl e \<Rightarrow> Inl e
      | Inr (amount, fee) \<Rightarrow>
          Inr \<lparr>rec_ID = wd_ID row, rec_AccountID = wd_AccountID row, rec_Asset = wd_Asset row, rec_Amount = amount, rec_Fee = fee,
               rec_FeeAsset = wd_FeeAsset row, rec_ToAddress = wd_ToAddress row, rec_ChainID = wd_ChainID row,
               rec_Status = wd_Status row, rec_FailureReason = deref (wd_FailureReason row), rec_ReviewNote = deref (wd_ReviewNote row),
               rec_ReviewedBy = deref (wd_ReviewedBy row), rec_ReviewedAt = wd_ReviewedAt row, rec_TxHash = current_tx row,
               rec_ResolveAction = deref (wd_ResolveAction row), rec_ResolveError = deref (wd_ResolveError row),
               rec_CreatedAt = wd_CreatedAt row\<rparr>)"

section \<open>Events\<close>

definition EventRequested :: string where "EventRequested = ''withdrawal.requested''"
definition EventStateChanged :: string where "EventStateChanged = ''withdrawal.state_changed''"

record 'd WithdrawalPayload =
  wp_WithdrawalID :: string
  wp_AccountID :: string
  wp_Asset_symbol :: string
  wp_Amount :: "'d amount"
  wp_Fee :: "'d amount"
  wp_FeeAsset :: string
  wp_ToAddress :: string
  wp_ChainID :: int
  wp_Status :: string
  wp_PreviousStatus :: string
  wp_Reason :: string
  wp_TxHash :: string

text \<open>The payload as JSON: the last three fields are left out when they are empty.\<close>

definition non_empty :: "string \<Rightarrow> string \<Rightarrow> (string \<times> json) list" where
  "non_empty k v = (if v = [] then [] else [(k, JStr v)])"

definition withdrawal_json :: "'d decimal_pkg \<Rightarrow> 'd WithdrawalPayload \<Rightarrow> json" where
  "withdrawal_json D p =
     JObj ([(''withdrawal_id'', JStr (wp_WithdrawalID p)), (''account_id'', JStr (wp_AccountID p)), (''asset'', JStr (wp_Asset_symbol p)),
       (''amount'', JStr (MarshalText D (wp_Amount p))), (''fee'', JStr (MarshalText D (wp_Fee p))), (''fee_asset'', JStr (wp_FeeAsset p)),
       (''to_address'', JStr (wp_ToAddress p)), (''chain_id'', JNum (wp_ChainID p)), (''status'', JStr (wp_Status p))] @
       non_empty ''previous_status'' (wp_PreviousStatus p) @ non_empty ''reason'' (wp_Reason p) @ non_empty ''tx_hash'' (wp_TxHash p))"

definition WithdrawalEvent :: "'d decimal_pkg \<Rightarrow> string \<Rightarrow> string \<Rightarrow> string \<Rightarrow> 'd WithdrawalPayload \<Rightarrow> int \<Rightarrow> go_time \<Rightarrow> bus_error + Envelope" where
  "WithdrawalEvent D newID eventType tenant p seq at' =
     (let env = \<lparr>ev_EventID = newID, ev_EventType = eventType, ev_SchemaVersion = 1, ev_TenantID = tenant, ev_MarketID = None,
            ev_AccountID = Str (wp_AccountID p), ev_Seq = None, ev_AccountSeq = Some seq, ev_OccurredAt = at', ev_CorrelationID = [],
            ev_CausationID = [], ev_Payload = Some (withdrawal_json D p)\<rparr>
      in case Envelope_Validate env of Some e \<Rightarrow> Inl e | None \<Rightarrow> Inr env)"

definition truncate_us :: "go_time \<Rightarrow> go_time" where
  "truncate_us t = t - t mod 1000"

definition append_outbox :: "Draw \<Rightarrow> Envelope \<Rightarrow> unit eff" where
  "append_outbox dr env s =
     (case Outbox_Append (dr_outbox dr) (dr_trace dr) env (ch_outbox s) of
        Inl e \<Rightarrow> (s, Inl (errBus e))
      | Inr rows \<Rightarrow> (s\<lparr>ch_outbox := rows\<rparr>, Inr ()))"

definition emit :: "'d decimal_pkg \<Rightarrow> 'd WithdrawalEnv \<Rightarrow> Draw \<Rightarrow> string \<Rightarrow> WithdrawalRow \<Rightarrow> string \<Rightarrow> string \<Rightarrow> unit eff" where
  "emit D w dr eventType row previous reason =
     andThen (on_ledger (NextAccountSeq (wd_AccountID row))) (\<lambda>seq.
     andThen (answer (amountAndFee D row)) (\<lambda>(amount, fee).
     andThen (answer (map_sum errBus id (WithdrawalEvent D (dr_event dr) eventType (we_tenant w)
        \<lparr>wp_WithdrawalID = wd_ID row, wp_AccountID = wd_AccountID row, wp_Asset_symbol = wd_Asset row, wp_Amount = amount, wp_Fee = fee,
         wp_FeeAsset = wd_FeeAsset row, wp_ToAddress = wd_ToAddress row, wp_ChainID = wd_ChainID row, wp_Status = wd_Status row,
         wp_PreviousStatus = previous, wp_Reason = reason, wp_TxHash = current_tx row\<rparr> seq (truncate_us (dr_now dr))))) (\<lambda>env.
     append_outbox dr (env\<lparr>ev_CorrelationID := deref (wd_CorrelationID row)\<rparr>))))"

definition audit_withdrawal :: "'d WithdrawalEnv \<Rightarrow> string \<Rightarrow> string \<Rightarrow> string \<Rightarrow> string \<Rightarrow> json option \<Rightarrow> json option \<Rightarrow> string \<Rightarrow> string \<Rightarrow> unit eff" where
  "audit_withdrawal w actorType actor action i before after ip correlation =
     Recorder_Record (we_audit w)
       \<lparr>ae_ActorType = actorType, ae_ActorID = actor, ae_Action = action, ae_TargetType = ''withdrawal'', ae_TargetID = i,
        ae_Before = before, ae_After = after, ae_IP = ip, ae_CorrelationID = correlation\<rparr>"

section \<open>The service of the API\<close>

record 'd CreateParams =
  cr_AccountID :: string
  cr_UserID :: string
  cr_Asset :: string
  cr_Amount :: "'d amount"
  cr_ToAddress :: string
  cr_IdempotencyKey :: string
  cr_IP :: string
  cr_CorrelationID :: string

record 'd CreateResult =
  cx_Record :: "'d WithdrawalRecord"
  cx_Replayed :: bool

definition requestHash :: "(string \<Rightarrow> string) \<Rightarrow> 'd decimal_pkg \<Rightarrow> string \<Rightarrow> 'd amount \<Rightarrow> string \<Rightarrow> int \<Rightarrow> string" where
  "requestHash sha D asset amount to chain = sha (asset @ ''|'' @ Amount_String D amount @ ''|'' @ to @ ''|'' @ int_text chain)"

definition trim_0x :: "string \<Rightarrow> string" where
  "trim_0x s = (if take 2 s = ''0x'' then drop 2 s else s)"

definition normaliseAddress :: "eth_pkg \<Rightarrow> string \<Rightarrow> wd_error + string" where
  "normaliseAddress E address =
     (if \<not> eth_IsHexAddress E address then Inl ErrInvalidWithdrawal
      else let parsed = eth_HexToAddress E address; body = trim_0x address;
               mixed = (body \<noteq> to_lower body \<and> body \<noteq> to_upper body)
           in if mixed \<and> eth_Hex E parsed \<noteq> address then Inl ErrInvalidWithdrawal
              else if parsed = 0 then Inl ErrInvalidWithdrawal
              else Inr (to_lower (eth_Hex E parsed)))"

text \<open>A request that passed the checks: the asset's symbol, the address, the hash and the fee.\<close>

record 'd AcceptedRequest =
  ac_Symbol :: string
  ac_To :: string
  ac_Hash :: string
  ac_Fee :: "'d amount"

definition replay_request :: "'d decimal_pkg \<Rightarrow> string \<Rightarrow> WithdrawalRow \<Rightarrow> wd_error + 'd CreateResult" where
  "replay_request D hash existing =
     (if wd_RequestHash existing \<noteq> hash then Inl ErrIdempotencyMismatch
      else map_sum id (\<lambda>rec. \<lparr>cx_Record = rec, cx_Replayed = True\<rparr>) (recordFrom D existing))"

definition Create_checks :: "'d decimal_pkg \<Rightarrow> eth_pkg \<Rightarrow> (string \<Rightarrow> string) \<Rightarrow> 'd WithdrawalEnv \<Rightarrow> 'd CreateParams \<Rightarrow> ChainDB \<Rightarrow>
    wd_error + ('d CreateResult + 'd AcceptedRequest)" where
  "Create_checks D E sha w p s =
     (case we_reg w (cr_Asset p) of
        Missing \<Rightarrow> Inl ErrInvalidWithdrawal
      | LookupFailed \<Rightarrow> Inl errLookup
      | Found asset \<Rightarrow>
          (if cr_IdempotencyKey p = [] then Inl ErrInvalidWithdrawal
           else case normaliseAddress E (cr_ToAddress p) of
             Inl e \<Rightarrow> Inl e
           | Inr to \<Rightarrow>
               (if \<not> Amount_IsPositive D (cr_Amount p) then Inl ErrInvalidWithdrawal
                else if \<not> as_WithdrawEnabled asset \<or> as_Status asset \<noteq> AssetActive then Inl ErrInvalidWithdrawal
                else if Amount_Cmp D (cr_Amount p) (as_MinWithdrawal asset) < 0 then Inl ErrInvalidWithdrawal
                else if Amount_Scale D (cr_Amount p) > as_Scale asset then Inl ErrInvalidWithdrawal
                else let hash = requestHash sha D (as_Symbol asset) (cr_Amount p) to (we_chainID w)
                     in case GetWithdrawalByIdempotencyKey s (we_tenant w) (cr_AccountID p) (cr_IdempotencyKey p) of
                          Some existing \<Rightarrow> map_sum id Inl (replay_request D hash existing)
                        | None \<Rightarrow>
                            (case WithdrawalFeeFor D asset (cr_Amount p) of
                               Inl e \<Rightarrow> Inl (errFee e)
                             | Inr fee \<Rightarrow>
                                 (case Service_Balance D (ch_ledger s) (cr_AccountID p) (as_Symbol asset) of
                                    Inl e \<Rightarrow> Inl (errCode e)
                                  | Inr balance \<Rightarrow>
                                      (if Amount_Cmp D (bal_Available balance) (Amount_Add D (cr_Amount p) fee) < 0 then Inl ErrInvalidWithdrawal
                                       else Inr (Inr \<lparr>ac_Symbol = as_Symbol asset, ac_To = to, ac_Hash = hash, ac_Fee = fee\<rparr>)))))))"

definition new_withdrawal :: "'d decimal_pkg \<Rightarrow> 'd WithdrawalEnv \<Rightarrow> go_time \<Rightarrow> string \<Rightarrow> 'd CreateParams \<Rightarrow> 'd AcceptedRequest \<Rightarrow> WithdrawalRow" where
  "new_withdrawal D w now newID p a =
     \<lparr>wd_ID = newID, wd_TenantID = we_tenant w, wd_AccountID = cr_AccountID p, wd_Asset = ac_Symbol a, wd_Amount = sent_units D (cr_Amount p),
      wd_ToAddress = ac_To a, wd_ChainID = we_chainID w, wd_IdempotencyKey = cr_IdempotencyKey p, wd_RequestHash = ac_Hash a,
      wd_Status = ''requested'', wd_FailureReason = None, wd_ReviewedBy = None, wd_ReviewedAt = None, wd_ReviewNote = None,
      wd_HoldEntryID = None, wd_CorrelationID = optString (cr_CorrelationID p), wd_Version = 1, wd_CreatedAt = now, wd_Nonce = None,
      wd_RawTx = None, wd_TxHash = None, wd_BroadcastAt = None, wd_Replacements = 0, wd_BlockNumber = None, wd_GasCost = None,
      wd_CancelTxHash = None, wd_ResolveAction = None, wd_ResolveNote = None, wd_ResolveRequestedBy = None, wd_ResolveRequestedAt = None,
      wd_ResolveError = None, wd_Fee = sent_units D (ac_Fee a), wd_FeeAsset = ac_Symbol a\<rparr>"

text \<open>The transaction. A violated index aborts it: PostgreSQL refuses the read that follows on the same transaction.\<close>

definition Create_insert :: "'d decimal_pkg \<Rightarrow> 'd WithdrawalEnv \<Rightarrow> Draw \<Rightarrow> string \<Rightarrow> 'd CreateParams \<Rightarrow> 'd AcceptedRequest \<Rightarrow> 'd CreateResult eff" where
  "Create_insert D w dr newID p a =
     in_tx (\<lambda>s. case InsertWithdrawal (new_withdrawal D w (dr_now dr) newID p a) s of
        (s1, Inl e) \<Rightarrow> (s1, Inl (if e = errUnique then errAborted else e))
      | (s1, Inr row) \<Rightarrow>
          andThen (audit_withdrawal w ''user'' (cr_UserID p) ''withdrawal.request'' (wd_ID row) None
            (Some (json_map [(''asset'', JStr (wd_Asset row)), (''amount'', JStr (Amount_String D (cr_Amount p))),
               (''fee'', JStr (Amount_String D (ac_Fee a))), (''to_address'', JStr (ac_To a)), (''status'', JStr (wd_Status row))]))
            (cr_IP p) (cr_CorrelationID p)) (\<lambda>_.
          andThen (emit D w dr EventRequested row [] []) (\<lambda>_.
          answer (map_sum id (\<lambda>rec. \<lparr>cx_Record = rec, cx_Replayed = False\<rparr>) (recordFrom D row)))) s1)"

definition Create :: "'d decimal_pkg \<Rightarrow> eth_pkg \<Rightarrow> (string \<Rightarrow> string) \<Rightarrow> 'd WithdrawalEnv \<Rightarrow> Draw \<Rightarrow> string \<Rightarrow> 'd CreateParams \<Rightarrow> 'd CreateResult eff" where
  "Create D E sha w dr newID p s =
     (case Create_checks D E sha w p s of
        Inl e \<Rightarrow> (s, Inl e)
      | Inr (Inl res) \<Rightarrow> (s, Inr res)
      | Inr (Inr a) \<Rightarrow> Create_insert D w dr newID p a s)"

definition Withdrawal_Get :: "'d decimal_pkg \<Rightarrow> 'd WithdrawalEnv \<Rightarrow> ChainDB \<Rightarrow> string \<Rightarrow> string \<Rightarrow> wd_error + 'd WithdrawalRecord" where
  "Withdrawal_Get D w s account i =
     (case GetWithdrawal s (we_tenant w) i of
        None \<Rightarrow> Inl ErrWithdrawalNotFound
      | Some row \<Rightarrow> (if wd_AccountID row \<noteq> account then Inl ErrWithdrawalNotFound else recordFrom D row))"

definition wd_page :: "int \<Rightarrow> int" where
  "wd_page limit = (if limit \<le> 0 \<or> limit > 200 then 50 else limit)"

definition Withdrawal_List :: "'d decimal_pkg \<Rightarrow> 'd WithdrawalEnv \<Rightarrow> ChainDB \<Rightarrow> string \<Rightarrow> int \<Rightarrow> wd_error + 'd WithdrawalRecord list" where
  "Withdrawal_List D w s account limit = all_ok (recordFrom D) (ListWithdrawalsByAccount s (we_tenant w) account (wd_page limit))"

end
