(* ===== verification/Withdrawal_Worker.thy ===== *)
theory Withdrawal_Worker
  imports Withdrawal
begin

text \<open>
  \<^verbatim>\<open>internal/chain/withdrawal\<close>: worker.go, the policy decision and the lock of the funds, review.go, the operators'
  decisions, and \<^verbatim>\<open>resolvable\<close> of resolve.go. A step of one withdrawal is one transaction. Rows read before a step
  are an argument where the code reads them outside its transaction.
\<close>

section \<open>One withdrawal\<close>

definition audit_step :: "'d WithdrawalEnv \<Rightarrow> WithdrawalRow \<Rightarrow> string \<Rightarrow> (string \<times> json) list \<Rightarrow> unit eff" where
  "audit_step w row action after =
     audit_withdrawal w ''system'' ''chain'' action (wd_ID row) (Some (json_map [(''status'', JStr (wd_Status row))]))
       (Some (json_map after)) [] (deref (wd_CorrelationID row))"

definition failTx :: "'d decimal_pkg \<Rightarrow> 'd WithdrawalEnv \<Rightarrow> Draw \<Rightarrow> WithdrawalRow \<Rightarrow> string \<Rightarrow> unit eff" where
  "failTx D w dr row reason =
     andThen (UpdateWithdrawalStatus (we_tenant w) (wd_ID row) StatusFailed (Some reason)) (\<lambda>updated.
     andThen (audit_step w row ''withdrawal.failed'' [(''status'', JStr StatusFailed), (''failure_reason'', JStr reason)]) (\<lambda>_.
     emit D w dr EventStateChanged updated (wd_Status row) reason))"

definition hold_request :: "'d decimal_pkg \<Rightarrow> string \<Rightarrow> WithdrawalRow \<Rightarrow> 'd amount \<Rightarrow> 'd HoldParams" where
  "hold_request D pre row amount =
     \<lparr>hp_AccountID = wd_AccountID row, hp_Asset = wd_Asset row, hp_Amount = amount, hp_IdempotencyKey = pre @ wd_ID row,
      hp_Ref = \<lparr>ref_Type = ''withdrawal'', ref_ID = wd_ID row\<rparr>, hp_CorrelationID = deref (wd_CorrelationID row)\<rparr>"

definition lock_row :: "'d decimal_pkg \<Rightarrow> 'd WithdrawalEnv \<Rightarrow> Draw \<Rightarrow> WithdrawalRow \<Rightarrow> 'd JournalEntry \<Rightarrow> unit eff" where
  "lock_row D w dr row entry =
     andThen (LockWithdrawalFunds (we_tenant w) (wd_ID row) (Some (je_ID entry))) (\<lambda>updated.
     andThen (audit_step w row ''withdrawal.funds_locked'' [(''status'', JStr StatusFundsLocked), (''hold_entry_id'', JNum (je_ID entry))]) (\<lambda>_.
     emit D w dr EventStateChanged updated (wd_Status row) []))"

text \<open>A hold the funds do not cover ends the withdrawal, in the same transaction.\<close>

definition lockFunds :: "'d decimal_pkg \<Rightarrow> 'd WithdrawalEnv \<Rightarrow> Draw \<Rightarrow> WithdrawalRow \<Rightarrow> unit eff" where
  "lockFunds D w dr row s =
     (case amountAndFee D row of
        Inl e \<Rightarrow> (s, Inl e)
      | Inr (amount, fee) \<Rightarrow>
          (case on_ledger (Hold D (we_ledger w) (dr_entry dr 0) (hold_request D ''hold:withdrawal:'' row (Amount_Add D amount fee))) s of
             (s1, Inl e) \<Rightarrow> (if e = errCode ErrInsufficient then failTx D w dr row FailureInsufficientBalance s1 else (s1, Inl e))
           | (s1, Inr (entry, _)) \<Rightarrow> lock_row D w dr row entry s1))"

definition limitFor :: "'d WithdrawalEnv \<Rightarrow> string \<Rightarrow> int \<Rightarrow> wd_error + 'd WithdrawalLimit option" where
  "limitFor w asset level =
     (case we_limit w asset level of Missing \<Rightarrow> Inr None | LookupFailed \<Rightarrow> Inl errLookup | Found l \<Rightarrow> Inr (Some l))"

definition withdrawnSince :: "'d decimal_pkg \<Rightarrow> 'd WithdrawalEnv \<Rightarrow> ChainDB \<Rightarrow> string \<Rightarrow> string \<Rightarrow> go_time \<Rightarrow> wd_error + 'd amount" where
  "withdrawnSince D w s account asset since =
     (case SumWithdrawnSince s (we_tenant w) account asset since of
        Inl e \<Rightarrow> Inl e
      | Inr u \<Rightarrow> map_sum errColumnW id (AmountFromNumeric D (column u)))"

definition Decision_text :: "WithdrawalDecision \<Rightarrow> string" where
  "Decision_text d =
     (case d of DecisionAutoApprove \<Rightarrow> ''auto_approved'' | DecisionReview \<Rightarrow> ''pending_review'' | DecisionReject \<Rightarrow> ''rejected'')"

definition policy_request :: "'d decimal_pkg \<Rightarrow> 'd WithdrawalEnv \<Rightarrow> go_time \<Rightarrow> WithdrawalRow \<Rightarrow> ChainDB \<Rightarrow> wd_error + 'd WithdrawalRequest" where
  "policy_request D w now row s =
     (case AmountFromNumeric D (column (wd_Amount row)) of Inl e \<Rightarrow> Inl (errColumnW e) | Inr amount \<Rightarrow>
     (case we_reg w (wd_Asset row) of Missing \<Rightarrow> Inl errLookup | LookupFailed \<Rightarrow> Inl errLookup | Found asset \<Rightarrow>
     (case Service_Account (we_ledger w) (ch_ledger s) (wd_AccountID row) of Inl e \<Rightarrow> Inl (errCode e) | Inr account \<Rightarrow>
     (case we_kyc w (wd_AccountID row) of None \<Rightarrow> Inl errLookup | Some level \<Rightarrow>
     (case limitFor w (wd_Asset row) level of Inl e \<Rightarrow> Inl e | Inr limit \<Rightarrow>
     (case withdrawnSince D w s (wd_AccountID row) (wd_Asset row) (now - DailyWindow) of Inl e \<Rightarrow> Inl e | Inr committed \<Rightarrow>
        Inr \<lparr>wr_Asset = asset, wr_Account = account, wr_KYCLevel = level, wr_Amount = amount, wr_Limit = limit,
             wr_WithdrawnToday = Amount_Sub D committed amount\<rparr>))))))"

definition Reason_text :: "Reason option \<Rightarrow> string" where
  "Reason_text r = (case r of None \<Rightarrow> [] | Some x \<Rightarrow> Reason_String x)"

definition decide :: "'d decimal_pkg \<Rightarrow> 'd WithdrawalEnv \<Rightarrow> Draw \<Rightarrow> WithdrawalRow \<Rightarrow> unit eff" where
  "decide D w dr row s =
     (case policy_request D w (dr_now dr) row s of
        Inl e \<Rightarrow> (s, Inl e)
      | Inr req \<Rightarrow>
          (case Withdraw D req of (decision, reason) \<Rightarrow>
             andThen (UpdateWithdrawalStatus (we_tenant w) (wd_ID row) (Decision_text decision)
               (if decision = DecisionReject then optString FailurePolicy else None)) (\<lambda>updated.
             andThen (audit_step w row ''withdrawal.policy_check'' [(''status'', JStr (Decision_text decision)),
               (''reason'', JStr (Reason_text reason)), (''kyc_level'', JNum (wr_KYCLevel req))]) (\<lambda>_.
             emit D w dr EventStateChanged updated (wd_Status row) (Reason_text reason))) s))"

definition advance :: "'d decimal_pkg \<Rightarrow> 'd WithdrawalEnv \<Rightarrow> Draw \<Rightarrow> string \<Rightarrow> unit eff" where
  "advance D w dr i =
     in_tx (\<lambda>s. case GetWithdrawal s (we_tenant w) i of
        None \<Rightarrow> (s, Inr ())
      | Some row \<Rightarrow>
          (if wd_Status row = StatusRequested then decide D w dr row s
           else if wd_Status row = StatusAutoApproved \<or> wd_Status row = StatusApproved then lockFunds D w dr row s
           else (s, Inr ())))"

section \<open>The queue\<close>

text \<open>Each row on its own; the first error that counts is kept and does not stop the rest.\<close>

fun each_row :: "(wd_error \<Rightarrow> bool) \<Rightarrow> ('r \<Rightarrow> unit eff) \<Rightarrow> 'r list \<Rightarrow> wd_error option \<Rightarrow> ChainDB \<Rightarrow> ChainDB \<times> wd_error option" where
  "each_row counts f [] firstErr s = (s, firstErr)"
| "each_row counts f (r # rs) firstErr s =
     (case f r s of
        (s1, Inl e) \<Rightarrow> each_row counts f rs (if counts e \<and> firstErr = None then Some e else firstErr) s1
      | (s1, Inr _) \<Rightarrow> each_row counts f rs firstErr s1)"

definition Tick :: "'d decimal_pkg \<Rightarrow> 'd WithdrawalEnv \<Rightarrow> (string \<Rightarrow> Draw) \<Rightarrow> ChainDB \<Rightarrow> ChainDB \<times> wd_error option" where
  "Tick D w draws s =
     each_row (\<lambda>_. True) (\<lambda>row. advance D w (draws (wd_ID row)) (wd_ID row))
       (ClaimWithdrawals s (we_tenant w) [StatusRequested, StatusAutoApproved, StatusApproved] (we_batch w)) None s"

section \<open>What an operator may ask for\<close>

definition ActionBump :: string where [simp]: "ActionBump = ''bump''"
definition ActionCancelNonce :: string where [simp]: "ActionCancelNonce = ''cancel_nonce''"
definition ActionRefund :: string where [simp]: "ActionRefund = ''refund''"
definition ActionRetry :: string where [simp]: "ActionRetry = ''retry''"

definition resolvable :: "WithdrawalRow \<Rightarrow> string \<Rightarrow> wd_error option" where
  "resolvable row action =
     (if action = ActionBump then
        (if wd_Status row \<noteq> StatusBroadcast then Some ErrNotResolvable
         else if wd_CancelTxHash row \<noteq> None then Some ErrNotResolvable else None)
      else if action = ActionCancelNonce then (if wd_Status row \<noteq> StatusBroadcast then Some ErrNotResolvable else None)
      else if action = ActionRefund \<or> action = ActionRetry then
        (if wd_Status row \<noteq> StatusFailed \<or> deref (wd_FailureReason row) \<noteq> FailureOnChain then Some ErrNotResolvable else None)
      else Some ErrNotResolvable)"

record ResolveParams =
  rs_ID :: string
  rs_Action :: string
  rs_Note :: string
  rs_ActorType :: string
  rs_ActorID :: string
  rs_IP :: string

section \<open>The reviewer\<close>

definition Reviewer_Pending :: "'d decimal_pkg \<Rightarrow> 'd WithdrawalEnv \<Rightarrow> ChainDB \<Rightarrow> int \<Rightarrow> wd_error + 'd WithdrawalRecord list" where
  "Reviewer_Pending D w s limit = all_ok (recordFrom D) (ListWithdrawalsByStatus s (we_tenant w) [StatusPendingReview] (wd_page limit))"

definition PendingCount :: "'d WithdrawalEnv \<Rightarrow> ChainDB \<Rightarrow> int" where
  "PendingCount w s = CountWithdrawalsByStatus s (we_tenant w) [StatusPendingReview]"

definition Reviewer_Get :: "'d decimal_pkg \<Rightarrow> 'd WithdrawalEnv \<Rightarrow> ChainDB \<Rightarrow> string \<Rightarrow> wd_error + 'd WithdrawalRecord" where
  "Reviewer_Get D w s i =
     (case GetWithdrawal s (we_tenant w) i of None \<Rightarrow> Inl ErrWithdrawalNotFound | Some row \<Rightarrow> recordFrom D row)"

record ReviewParams =
  rv_ID :: string
  rv_AdminID :: string
  rv_ActorType :: string
  rv_ActorID :: string
  rv_Approve :: bool
  rv_Note :: string
  rv_IP :: string

definition Review :: "'d decimal_pkg \<Rightarrow> 'd WithdrawalEnv \<Rightarrow> Draw \<Rightarrow> ReviewParams \<Rightarrow> 'd WithdrawalRecord eff" where
  "Review D w dr p =
     in_tx (\<lambda>s. case GetWithdrawal s (we_tenant w) (rv_ID p) of
        None \<Rightarrow> (s, Inl ErrWithdrawalNotFound)
      | Some row \<Rightarrow>
          (if wd_Status row \<noteq> StatusPendingReview then (s, Inl ErrNotReviewable)
           else let status = (if rv_Approve p then StatusApproved else StatusRejected_wd);
                    failure = (if rv_Approve p then None else optString FailurePolicy)
                in andThen (ReviewWithdrawal (dr_now dr) (we_tenant w) (rv_ID p) status failure (optString (rv_AdminID p)) (optString (rv_Note p))) (\<lambda>updated.
                   andThen (audit_withdrawal w (rv_ActorType p) (rv_ActorID p) (if rv_Approve p then ''withdrawal.approve'' else ''withdrawal.reject'')
                     (rv_ID p) (Some (json_map [(''status'', JStr (wd_Status row))]))
                     (Some (json_map [(''status'', JStr status), (''note'', JStr (rv_Note p))])) (rv_IP p) (deref (wd_CorrelationID row))) (\<lambda>_.
                   andThen (emit D w dr EventStateChanged updated (wd_Status row) (rv_Note p)) (\<lambda>_.
                   answer (recordFrom D updated)))) s))"

definition RequestResolve :: "'d decimal_pkg \<Rightarrow> 'd WithdrawalEnv \<Rightarrow> Draw \<Rightarrow> ResolveParams \<Rightarrow> 'd WithdrawalRecord eff" where
  "RequestResolve D w dr p s =
     (if rs_Note p = [] then (s, Inl ErrInvalidWithdrawal)
      else in_tx (\<lambda>s. case GetWithdrawal s (we_tenant w) (rs_ID p) of
        None \<Rightarrow> (s, Inl ErrWithdrawalNotFound)
      | Some row \<Rightarrow>
          (case resolvable row (rs_Action p) of
             Some e \<Rightarrow> (s, Inl e)
           | None \<Rightarrow>
               (if wd_ResolveAction row \<noteq> None then (s, Inl ErrNotResolvable)
                else andThen (RequestWithdrawalResolve (dr_now dr) (we_tenant w) (rs_ID p) (optString (rs_Action p))
                       (optString (rs_Note p)) (optString (rs_ActorID p))) (\<lambda>updated.
                     andThen (audit_withdrawal w (rs_ActorType p) (rs_ActorID p) ''withdrawal.resolve_requested'' (rs_ID p)
                       (Some (json_map [(''status'', JStr (wd_Status row)), (''failure_reason'', JStr (deref (wd_FailureReason row)))]))
                       (Some (json_map [(''resolve_action'', JStr (rs_Action p)), (''note'', JStr (rs_Note p))]))
                       (rs_IP p) (deref (wd_CorrelationID row))) (\<lambda>_.
                     answer (recordFrom D updated))) s))) s)"

end
