(* ===== verification/Withdrawal_Send.thy ===== *)
theory Withdrawal_Send
  imports Withdrawal_Worker
begin

text \<open>
  \<^verbatim>\<open>internal/chain/withdrawal\<close>: broadcast.go and resolve.go, the side of the chain. A step reads its row first; signing and the
  node are outside its transactions, so that a step may be several of them. The signer is a function
  (\<open>Hotwallet\<close>), the node the answers of \<open>Node\<close> while the step runs.
\<close>

definition gasForNativeTransfer :: u64 where "gasForNativeTransfer = 21000"

section \<open>Fees and gas\<close>

definition underCeiling :: "'d WithdrawalEnv \<Rightarrow> Fees \<Rightarrow> chain_error option" where
  "underCeiling w f = (if \<not> Fees_Over f (we_maxFee w) then None else Some ErrFeeCeiling)"

definition fees_now :: "'d WithdrawalEnv \<Rightarrow> Node \<Rightarrow> wd_error + Fees" where
  "fees_now w node =
     (case nd_SuggestFees node of
        Inl e \<Rightarrow> Inl (errChain e)
      | Inr f \<Rightarrow> (case underCeiling w f of Some e \<Rightarrow> Inl (errChain e) | None \<Rightarrow> Inr f))"

definition estimate :: "'d decimal_pkg \<Rightarrow> eth_pkg \<Rightarrow> 'd WithdrawalEnv \<Rightarrow> Node \<Rightarrow> 'd registry_Asset \<Rightarrow> addr \<Rightarrow> 'd amount \<Rightarrow> wd_error + u64" where
  "estimate D E w node asset to amount =
     (if as_IsNative asset then Inr gasForNativeTransfer
      else case as_ContractAddress asset of
             None \<Rightarrow> Inl errNoTransaction
           | Some c \<Rightarrow>
               (case ToWei D amount (as_Scale asset) of
                  Inl e \<Rightarrow> Inl (errChain e)
                | Inr units \<Rightarrow>
                    (case TransferCalldata E to (Some units) of
                       Inl e \<Rightarrow> Inl (errChain e)
                     | Inr data \<Rightarrow>
                         (case nd_EstimateGas node (hm_hot (we_manager w)) (eth_HexToAddress E c) 0 data of
                            Inl e \<Rightarrow> Inl (errChain e)
                          | Inr gas \<Rightarrow> Inr (gas + gas div 5)))))"

definition requiredConfirmations :: "'d WithdrawalEnv \<Rightarrow> string \<Rightarrow> int" where
  "requiredConfirmations w symbol =
     (case we_reg w symbol of
        Found asset \<Rightarrow>
          (if as_RequiredConfirmations asset \<le> 0 then (if we_defaultConfirmations w > 0 then we_defaultConfirmations w else 1)
           else as_RequiredConfirmations asset)
      | _ \<Rightarrow> (if we_defaultConfirmations w > 0 then we_defaultConfirmations w else 1))"

definition gasCost :: "'d decimal_pkg \<Rightarrow> Receipt \<Rightarrow> 'd amount" where
  "gasCost D r =
     (case rp_EffectiveGasPrice r of
        None \<Rightarrow> Zero D
      | Some price \<Rightarrow>
          (if rp_GasUsed r = 0 then Zero D
           else case FromWei D (Some (uint (rp_GasUsed r) * price)) 18 of Inl _ \<Rightarrow> Zero D | Inr a \<Rightarrow> a))"

section \<open>Signing\<close>

definition pinNonce :: "'d WithdrawalEnv \<Rightarrow> WithdrawalRow \<Rightarrow> u64 eff" where
  "pinNonce w row s =
     (case wd_Nonce row of
        Some n \<Rightarrow> (s, Inr (from_bigint n))
      | None \<Rightarrow>
          in_tx (andThen (Allocate (we_manager w)) (\<lambda>n.
                 andThen (AllocateWithdrawalNonce (we_tenant w) (wd_ID row) (Some (bigint n))) (\<lambda>_. answer (Inr n)))) s)"

definition sign_request :: "'d decimal_pkg \<Rightarrow> eth_pkg \<Rightarrow> WithdrawalRow \<Rightarrow> int \<Rightarrow> 'd amount \<Rightarrow> u64 \<Rightarrow> u64 \<Rightarrow> Fees \<Rightarrow> 'd SignRequest" where
  "sign_request D E row attempt' amount nonce gas fees =
     \<lparr>sq_Kind = KindWithdrawal_sign, sq_RefID = wd_ID row, sq_Attempt = attempt', sq_ChainID = wd_ChainID row,
      sq_To = eth_HexToAddress E (wd_ToAddress row), sq_Asset = wd_Asset row, sq_Value = amount, sq_Nonce = nonce, sq_Gas = gas,
      sq_TipCap = fe_TipCap fees, sq_FeeCap = fe_FeeCap fees\<rparr>"

definition record_signed :: "'d decimal_pkg \<Rightarrow> 'd WithdrawalEnv \<Rightarrow> Draw \<Rightarrow> WithdrawalRow \<Rightarrow> u64 \<Rightarrow> SignResult \<Rightarrow> unit eff" where
  "record_signed D w dr row nonce res =
     in_tx (andThen (SignWithdrawal (we_tenant w) (wd_ID row) (Some (bigint nonce)) (sn_RawTx res) (Some (sn_TxHash res))) (\<lambda>signed'.
       andThen (audit_step w row ''withdrawal.signed'' [(''status'', JStr StatusSigned), (''nonce'', JNum (uint nonce)),
         (''tx_hash'', JStr (sn_TxHash res))]) (\<lambda>_.
       emit D w dr EventStateChanged signed' (wd_Status row) [])))"

text \<open>After a refused signature the nonce is given back; an error of that is only logged.\<close>

definition sign_step :: "'d decimal_pkg \<Rightarrow> eth_pkg \<Rightarrow> 'd WithdrawalEnv \<Rightarrow> 'd signer \<Rightarrow> Node \<Rightarrow> Draw \<Rightarrow> WithdrawalRow \<Rightarrow> unit eff" where
  "sign_step D E w sg node dr row s =
     (case AmountFromNumeric D (column (wd_Amount row)) of Inl e \<Rightarrow> (s, Inl (errColumnW e)) | Inr amount \<Rightarrow>
     (case we_reg w (wd_Asset row) of Missing \<Rightarrow> (s, Inl errLookup) | LookupFailed \<Rightarrow> (s, Inl errLookup) | Found asset \<Rightarrow>
     (case fees_now w node of Inl e \<Rightarrow> (s, Inl e) | Inr fees \<Rightarrow>
     (case estimate D E w node asset (eth_HexToAddress E (wd_ToAddress row)) amount of Inl e \<Rightarrow> (s, Inl e) | Inr gas \<Rightarrow>
     (case pinNonce w row s of (s1, Inl e) \<Rightarrow> (s1, Inl e) | (s1, Inr nonce) \<Rightarrow>
     (case sg (sign_request D E row (wd_Replacements row) amount nonce gas fees) s1 of
        (s2, Inl e) \<Rightarrow> (fst (Recycle D (we_manager w) sg node nonce ''broadcast_failed'' s2), Inl e)
      | (s2, Inr res) \<Rightarrow> record_signed D w dr row nonce res s2))))))"

section \<open>Broadcasting\<close>

definition attemptKey :: "string \<Rightarrow> WithdrawalRow \<Rightarrow> string" where
  "attemptKey pre row = pre @ '':'' @ wd_ID row @ '':'' @ int_text (wd_Replacements row)"

definition withdrawal_entry :: "string \<Rightarrow> string \<Rightarrow> string \<Rightarrow> WithdrawalRow \<Rightarrow> 'd Posting list \<Rightarrow> 'd Entry" where
  "withdrawal_entry key kind' reason row ps =
     \<lparr>en_IdempotencyKey = key, en_Kind = kind', en_RefType = ''withdrawal'', en_RefID = wd_ID row, en_Reason = reason,
      en_CorrelationID = deref (wd_CorrelationID row), en_Postings = ps\<rparr>"

definition post :: "'d decimal_pkg \<Rightarrow> 'd WithdrawalEnv \<Rightarrow> int \<Rightarrow> 'd Entry \<Rightarrow> ('d JournalEntry \<times> bool) eff" where
  "post D w i e = on_ledger (Post D (we_ledger w) i e)"

definition house :: "'d WithdrawalEnv \<Rightarrow> HouseCode \<Rightarrow> wd_error + string" where
  "house w c = map_sum errCode id (HouseAccount (we_ledger w) c)"

definition broadcast_postings :: "WithdrawalRow \<Rightarrow> string \<Rightarrow> 'd amount \<Rightarrow> 'd Posting list" where
  "broadcast_postings row pending amount =
     [posting (wd_AccountID row) (wd_Asset row) BucketHold Debit amount, posting pending (wd_Asset row) BucketHouse Credit amount]"

definition record_broadcast :: "'d decimal_pkg \<Rightarrow> 'd WithdrawalEnv \<Rightarrow> Draw \<Rightarrow> WithdrawalRow \<Rightarrow> string \<Rightarrow> 'd amount \<Rightarrow> unit eff" where
  "record_broadcast D w dr row pending amount =
     in_tx (andThen (post D w (dr_entry dr 0) (withdrawal_entry (attemptKey ''withdrawal:broadcast'' row) KindWithdrawal ''broadcast to the chain'' row
         (broadcast_postings row pending amount))) (\<lambda>_.
       andThen (MarkWithdrawalBroadcast (dr_now dr) (we_tenant w) (wd_ID row)) (\<lambda>updated.
       andThen (audit_step w row ''withdrawal.broadcast'' [(''status'', JStr StatusBroadcast), (''tx_hash'', JStr (deref (wd_TxHash row)))]) (\<lambda>_.
       emit D w dr EventStateChanged updated (wd_Status row) []))))"

definition release_failed :: "'d decimal_pkg \<Rightarrow> 'd WithdrawalEnv \<Rightarrow> Draw \<Rightarrow> WithdrawalRow \<Rightarrow> 'd amount \<Rightarrow> 'd amount \<Rightarrow> unit eff" where
  "release_failed D w dr row amount fee =
     in_tx (andThen (on_ledger (Release D (we_ledger w) (dr_entry dr 0) (hold_request D ''release:withdrawal:'' row (Amount_Add D amount fee)))) (\<lambda>_.
       failTx D w dr row FailureBroadcast))"

definition broadcastFailed :: "'d decimal_pkg \<Rightarrow> 'd WithdrawalEnv \<Rightarrow> 'd signer \<Rightarrow> Node \<Rightarrow> Draw \<Rightarrow> WithdrawalRow \<Rightarrow> unit eff" where
  "broadcastFailed D w sg node dr row s =
     (let nonce = from_bigint (the (wd_Nonce row))
      in case nd_NonceAt node (hm_hot (we_manager w)) of
           Inl e \<Rightarrow> (s, Inl (errChain e))
         | Inr mined \<Rightarrow>
             (if mined > nonce then (s, Inr ())
              else case amountAndFee D row of
                     Inl e \<Rightarrow> (s, Inl e)
                   | Inr (amount, fee) \<Rightarrow>
                       (case release_failed D w dr row amount fee s of
                          (s1, Inl e) \<Rightarrow> (s1, Inl e)
                        | (s1, Inr _) \<Rightarrow> Recycle D (we_manager w) sg node nonce ''broadcast_failed'' s1)))"

definition broadcast :: "'d decimal_pkg \<Rightarrow> 'd WithdrawalEnv \<Rightarrow> 'd signer \<Rightarrow> Node \<Rightarrow> Draw \<Rightarrow> WithdrawalRow \<Rightarrow> unit eff" where
  "broadcast D w sg node dr row s =
     (case (wd_RawTx row, wd_TxHash row, wd_Nonce row) of
        (Some raw, Some _, Some _) \<Rightarrow>
          (if send_known node raw \<noteq> None then broadcastFailed D w sg node dr row s
           else case AmountFromNumeric D (column (wd_Amount row)) of
                  Inl e \<Rightarrow> (s, Inl (errColumnW e))
                | Inr amount \<Rightarrow>
                    (case house w HousePendingWithdrawal of
                       Inl e \<Rightarrow> (s, Inl e)
                     | Inr pending \<Rightarrow> record_broadcast D w dr row pending amount s))
      | _ \<Rightarrow> (s, Inl errNoTransaction))"

section \<open>Tracking\<close>

definition postGas :: "'d decimal_pkg \<Rightarrow> 'd WithdrawalEnv \<Rightarrow> Draw \<Rightarrow> WithdrawalRow \<Rightarrow> string \<Rightarrow> string \<Rightarrow> 'd amount \<Rightarrow> unit eff" where
  "postGas D w dr row gasAccount hot gas =
     (if \<not> Amount_IsPositive D gas then answer (Inr ())
      else andThen (post D w (dr_entry dr 2) (withdrawal_entry (attemptKey ''withdrawal:gas'' row) KindGas ''withdrawal gas'' row
             [posting gasAccount (we_native w) BucketHouse Debit gas, posting hot (we_native w) BucketHouse Credit gas])) (\<lambda>_. answer (Inr ())))"

definition post_fee :: "'d decimal_pkg \<Rightarrow> 'd WithdrawalEnv \<Rightarrow> Draw \<Rightarrow> WithdrawalRow \<Rightarrow> string \<Rightarrow> 'd amount \<Rightarrow> unit eff" where
  "post_fee D w dr row feeRevenue fee =
     (if \<not> Amount_IsPositive D fee then answer (Inr ())
      else andThen (post D w (dr_entry dr 1) (withdrawal_entry (''withdrawal:fee:'' @ wd_ID row) KindFee ''withdrawal fee'' row
             [posting (wd_AccountID row) (wd_Asset row) BucketHold Debit fee, posting feeRevenue (wd_Asset row) BucketHouse Credit fee])) (\<lambda>_. answer (Inr ())))"

definition confirm :: "'d decimal_pkg \<Rightarrow> 'd WithdrawalEnv \<Rightarrow> Draw \<Rightarrow> WithdrawalRow \<Rightarrow> u64 \<Rightarrow> 'd amount \<Rightarrow> unit eff" where
  "confirm D w dr row block gas =
     andThen (answer (amountAndFee D row)) (\<lambda>(amount, fee).
     andThen (answer (house w HouseFeeRevenue)) (\<lambda>feeRevenue.
     andThen (answer (house w HousePendingWithdrawal)) (\<lambda>pending.
     andThen (answer (house w HouseCustodyHot)) (\<lambda>hot.
     andThen (answer (house w HouseGasExpense)) (\<lambda>gasAccount.
     in_tx (andThen (post D w (dr_entry dr 0) (withdrawal_entry (''withdrawal:confirm:'' @ wd_ID row) KindWithdrawal ''confirmed on chain'' row
         [posting pending (wd_Asset row) BucketHouse Debit amount, posting hot (wd_Asset row) BucketHouse Credit amount])) (\<lambda>_.
       andThen (post_fee D w dr row feeRevenue fee) (\<lambda>_.
       andThen (postGas D w dr row gasAccount hot gas) (\<lambda>_.
       andThen (MarkWithdrawalConfirmed (we_tenant w) (wd_ID row) (Some (bigint block)) (sent_units D gas)) (\<lambda>updated.
       andThen (audit_step w row ''withdrawal.confirmed'' [(''status'', JStr StatusConfirmed), (''block_number'', JNum (uint block)),
         (''gas_cost'', JStr (Amount_String D gas))]) (\<lambda>_.
       emit D w dr EventStateChanged updated (wd_Status row) []))))))))))) "

definition failedOnChain :: "'d decimal_pkg \<Rightarrow> 'd WithdrawalEnv \<Rightarrow> Draw \<Rightarrow> WithdrawalRow \<Rightarrow> u64 \<Rightarrow> 'd amount \<Rightarrow> unit eff" where
  "failedOnChain D w dr row block gas =
     andThen (answer (house w HouseCustodyHot)) (\<lambda>hot.
     andThen (answer (house w HouseGasExpense)) (\<lambda>gasAccount.
     in_tx (andThen (postGas D w dr row gasAccount hot gas) (\<lambda>_.
       andThen (RecordWithdrawalGas (we_tenant w) (wd_ID row) (Some (bigint block)) (sent_units D gas)) (\<lambda>_.
       failTx D w dr row FailureOnChain)))))"

definition refund_postings :: "'d decimal_pkg \<Rightarrow> WithdrawalRow \<Rightarrow> 'd amount \<Rightarrow> 'd Posting list" where
  "refund_postings D row fee =
     (if Amount_IsPositive D fee
      then [posting (wd_AccountID row) (wd_Asset row) BucketHold Debit fee, posting (wd_AccountID row) (wd_Asset row) BucketAvailable Credit fee]
      else [])"

definition cancellationPostings :: "'d decimal_pkg \<Rightarrow> WithdrawalRow \<Rightarrow> string \<Rightarrow> 'd amount \<Rightarrow> 'd amount \<Rightarrow> 'd Posting list" where
  "cancellationPostings D row pending amount fee =
     [posting pending (wd_Asset row) BucketHouse Debit amount, posting (wd_AccountID row) (wd_Asset row) BucketAvailable Credit amount] @
     refund_postings D row fee"

definition settleCancelled :: "'d decimal_pkg \<Rightarrow> 'd WithdrawalEnv \<Rightarrow> Draw \<Rightarrow> WithdrawalRow \<Rightarrow> 'd amount \<Rightarrow> unit eff" where
  "settleCancelled D w dr row gas =
     andThen (answer (amountAndFee D row)) (\<lambda>(amount, fee).
     andThen (answer (house w HousePendingWithdrawal)) (\<lambda>pending.
     andThen (answer (house w HouseCustodyHot)) (\<lambda>hot.
     andThen (answer (house w HouseGasExpense)) (\<lambda>gasAccount.
     in_tx (andThen (post D w (dr_entry dr 0) (withdrawal_entry (''withdrawal:cancelled:'' @ wd_ID row) KindWithdrawal
         ''cancelled by a same-nonce transaction'' row (cancellationPostings D row pending amount fee))) (\<lambda>_.
       andThen (postGas D w dr row gasAccount hot gas) (\<lambda>_.
       andThen (UpdateNonceFillStatus (we_tenant w) (wd_ChainID row) (the (wd_Nonce row)) ''confirmed'') (\<lambda>_.
       failTx D w dr row FailureReplaced))))))))"

section \<open>Replacing\<close>

definition record_replaced :: "'d WithdrawalEnv \<Rightarrow> Draw \<Rightarrow> WithdrawalRow \<Rightarrow> string \<Rightarrow> Fees \<Rightarrow> SignResult \<Rightarrow> unit eff" where
  "record_replaced w dr row reason fees res =
     in_tx (andThen (ReplaceWithdrawalTx (dr_now dr) (we_tenant w) (wd_ID row) (sn_RawTx res) (Some (sn_TxHash res))) (\<lambda>updated.
       audit_withdrawal w ''system'' ''chain'' ''withdrawal.replaced'' (wd_ID row)
         (Some (json_map [(''tx_hash'', JStr (deref (wd_TxHash row))), (''replacements'', JNum (wd_Replacements row))]))
         (Some (json_map [(''tx_hash'', JStr (sn_TxHash res)), (''replacements'', JNum (wd_Replacements updated)), (''reason'', JStr reason),
            (''fee_cap'', JStr (int_text (the (fe_FeeCap fees))))])) [] (deref (wd_CorrelationID row))))"

text \<open>The refusal is recorded; the text of the cause is a parameter.\<close>

definition replacementRefused :: "(chain_error \<Rightarrow> string) \<Rightarrow> 'd WithdrawalEnv \<Rightarrow> Draw \<Rightarrow> WithdrawalRow \<Rightarrow> string \<Rightarrow> chain_error \<Rightarrow> unit eff" where
  "replacementRefused errText w dr row reason cause s =
     (case in_tx (andThen (MarkWithdrawalReplacementFailed (dr_now dr) (we_tenant w) (wd_ID row)) (\<lambda>updated.
         audit_withdrawal w ''system'' ''chain'' ''withdrawal.replacement_refused'' (wd_ID row)
           (Some (json_map [(''replacements'', JNum (wd_Replacements row))]))
           (Some (json_map [(''replacements'', JNum (wd_Replacements updated)), (''reason'', JStr reason), (''tx_hash'', JStr (deref (wd_TxHash row))),
              (''underpriced'', JBool (cause = ErrUnderpriced)), (''error'', JStr (errText cause))])) [] (deref (wd_CorrelationID row)))) s of
        (s1, Inl e) \<Rightarrow> (s1, Inl e)
      | (s1, Inr _) \<Rightarrow> (s1, Inl (errChain cause)))"

definition replace :: "'d decimal_pkg \<Rightarrow> eth_pkg \<Rightarrow> (chain_error \<Rightarrow> string) \<Rightarrow> 'd WithdrawalEnv \<Rightarrow> 'd signer \<Rightarrow> Node \<Rightarrow> Draw \<Rightarrow>
    WithdrawalRow \<Rightarrow> string \<Rightarrow> unit eff" where
  "replace D E errText w sg node dr row reason s =
     (case AmountFromNumeric D (column (wd_Amount row)) of Inl e \<Rightarrow> (s, Inl (errColumnW e)) | Inr amount \<Rightarrow>
     (case we_reg w (wd_Asset row) of Missing \<Rightarrow> (s, Inl errLookup) | LookupFailed \<Rightarrow> (s, Inl errLookup) | Found asset \<Rightarrow>
     (case fees_now w node of Inl e \<Rightarrow> (s, Inl e) | Inr fees0 \<Rightarrow>
     (let fees = Fees_Bump fees0 (int32 (10 + 10 * wd_Replacements row))
      in case underCeiling w fees of Some e \<Rightarrow> (s, Inl (errChain e)) | None \<Rightarrow>
     (case estimate D E w node asset (eth_HexToAddress E (wd_ToAddress row)) amount of Inl e \<Rightarrow> (s, Inl e) | Inr gas \<Rightarrow>
     (case sg (sign_request D E row (int32 (wd_Replacements row + 1)) amount (from_bigint (the (wd_Nonce row))) gas fees) s of
        (s1, Inl e) \<Rightarrow> (s1, Inl e)
      | (s1, Inr res) \<Rightarrow>
          (case send_known node (sn_RawTx res) of
             Some e \<Rightarrow> replacementRefused errText w dr row reason e s1
           | None \<Rightarrow> record_replaced w dr row reason fees res s1)))))))"

definition maybeReplace :: "'d decimal_pkg \<Rightarrow> eth_pkg \<Rightarrow> (chain_error \<Rightarrow> string) \<Rightarrow> 'd WithdrawalEnv \<Rightarrow> 'd signer \<Rightarrow> Node \<Rightarrow> Draw \<Rightarrow>
    WithdrawalRow \<Rightarrow> unit eff" where
  "maybeReplace D E errText w sg node dr row s =
     (if (case wd_BroadcastAt row of None \<Rightarrow> False | Some t \<Rightarrow> dr_now dr - t < we_replaceAfter w) then (s, Inr ())
      else if wd_Replacements row \<ge> we_maxReplacements w then (s, Inr ())
      else replace D E errText w sg node dr row ''unmined for longer than the replacement window'' s)"

definition confirmations :: "u64 \<Rightarrow> u64 \<Rightarrow> int" where
  "confirmations head block = sint (ucast (head - block + 1) :: 32 word)"

text \<open>The receipt watched: that of the displacement, or of the original when the displacement is not there.\<close>

definition watched :: "Node \<Rightarrow> WithdrawalRow \<Rightarrow> string \<Rightarrow> (chain_error + Receipt) \<times> bool" where
  "watched node row hash =
     (case wd_CancelTxHash row of
        None \<Rightarrow> (nd_Receipt node hash, False)
      | Some cancel \<Rightarrow>
          (case nd_Receipt node cancel of
             Inl ErrReceiptNotFound \<Rightarrow> (nd_Receipt node hash, False)
           | r \<Rightarrow> (r, True)))"

definition track :: "'d decimal_pkg \<Rightarrow> eth_pkg \<Rightarrow> (chain_error \<Rightarrow> string) \<Rightarrow> 'd WithdrawalEnv \<Rightarrow> 'd signer \<Rightarrow> Node \<Rightarrow> Draw \<Rightarrow>
    WithdrawalRow \<Rightarrow> unit eff" where
  "track D E errText w sg node dr row s =
     (case wd_TxHash row of
        None \<Rightarrow> (s, Inl errNoTransaction)
      | Some hash \<Rightarrow>
          (case watched node row hash of
             (Inl e, _) \<Rightarrow>
               (if e = ErrReceiptNotFound then
                  (if wd_CancelTxHash row \<noteq> None then (s, Inr ()) else maybeReplace D E errText w sg node dr row s)
                else (s, Inl (errChain e)))
           | (Inr receipt, cancelling) \<Rightarrow>
               (case nd_Head node of
                  Inl e \<Rightarrow> (s, Inl (errChain e))
                | Inr head \<Rightarrow>
                    (let block = rp_BlockNumber receipt
                     in if head < block then (s, Inr ())
                        else if confirmations head block < requiredConfirmations w (wd_Asset row) then (s, Inr ())
                        else if cancelling then settleCancelled D w dr row (gasCost D receipt) s
                        else if rp_Successful receipt then confirm D w dr row block (gasCost D receipt) s
                        else failedOnChain D w dr row block (gasCost D receipt) s))))"

definition advanceSend :: "'d decimal_pkg \<Rightarrow> eth_pkg \<Rightarrow> (chain_error \<Rightarrow> string) \<Rightarrow> 'd WithdrawalEnv \<Rightarrow> 'd signer \<Rightarrow> Node \<Rightarrow> Draw \<Rightarrow>
    string \<Rightarrow> unit eff" where
  "advanceSend D E errText w sg node dr i s =
     (case GetWithdrawal s (we_tenant w) i of
        None \<Rightarrow> (s, Inr ())
      | Some row \<Rightarrow>
          (if wd_Status row = StatusFundsLocked then sign_step D E w sg node dr row s
           else if wd_Status row = StatusSigned then broadcast D w sg node dr row s
           else if wd_Status row = StatusBroadcast then track D E errText w sg node dr row s
           else (s, Inr ())))"

definition Send :: "'d decimal_pkg \<Rightarrow> eth_pkg \<Rightarrow> (chain_error \<Rightarrow> string) \<Rightarrow> 'd WithdrawalEnv \<Rightarrow> 'd signer \<Rightarrow> (string \<Rightarrow> Node) \<Rightarrow>
    (string \<Rightarrow> Draw) \<Rightarrow> ChainDB \<Rightarrow> ChainDB \<times> wd_error option" where
  "Send D E errText w sg nodes draws s =
     (if \<not> we_sends w then (s, None)
      else each_row (\<lambda>e. e \<noteq> errChain ErrFeeCeiling)
        (\<lambda>row. advanceSend D E errText w sg (nodes (wd_ID row)) (draws (wd_ID row)) (wd_ID row))
        (ClaimWithdrawals s (we_tenant w) [StatusFundsLocked, StatusSigned, StatusBroadcast] (we_batch w)) None s)"

section \<open>Resolving\<close>

definition cancel_request :: "'d decimal_pkg \<Rightarrow> Manager \<Rightarrow> WithdrawalRow \<Rightarrow> u64 \<Rightarrow> Fees \<Rightarrow> 'd SignRequest" where
  "cancel_request D m row nonce fees =
     \<lparr>sq_Kind = KindNonceFill, sq_RefID = fill_ref (wd_ChainID row) nonce, sq_Attempt = 0, sq_ChainID = wd_ChainID row, sq_To = hm_hot m,
      sq_Asset = [], sq_Value = Zero D, sq_Nonce = nonce, sq_Gas = gasForNativeTransfer, sq_TipCap = fe_TipCap fees, sq_FeeCap = fe_FeeCap fees\<rparr>"

definition record_cancelling :: "'d WithdrawalEnv \<Rightarrow> WithdrawalRow \<Rightarrow> ResolveParams \<Rightarrow> u64 \<Rightarrow> string \<Rightarrow> unit eff" where
  "record_cancelling w row p nonce hash =
     in_tx (andThen (MarkWithdrawalCancelling (we_tenant w) (wd_ID row) (Some hash)) (\<lambda>_.
       audit_withdrawal w (rs_ActorType p) (rs_ActorID p) ''withdrawal.cancel_nonce'' (wd_ID row)
         (Some (json_map [(''status'', JStr (wd_Status row)), (''tx_hash'', JStr (deref (wd_TxHash row)))]))
         (Some (json_map [(''cancel_tx_hash'', JStr hash), (''nonce'', JNum (uint nonce)), (''note'', JStr (rs_Note p))]))
         (rs_IP p) (deref (wd_CorrelationID row))))"

definition cancelNonce :: "'d decimal_pkg \<Rightarrow> 'd WithdrawalEnv \<Rightarrow> 'd signer \<Rightarrow> Node \<Rightarrow> WithdrawalRow \<Rightarrow> ResolveParams \<Rightarrow> unit eff" where
  "cancelNonce D w sg node row p s =
     (case wd_Nonce row of
        None \<Rightarrow> (s, Inl errNoTransaction)
      | Some n \<Rightarrow>
          (case fees_now w node of Inl e \<Rightarrow> (s, Inl e) | Inr fees0 \<Rightarrow>
          (let fees = Fees_Bump fees0 (int32 (20 + 10 * wd_Replacements row)); nonce = from_bigint n
           in case underCeiling w fees of Some e \<Rightarrow> (s, Inl (errChain e)) | None \<Rightarrow>
          (case sg (cancel_request D (we_manager w) row nonce fees) s of
             (s1, Inl e) \<Rightarrow> (s1, Inl e)
           | (s1, Inr res) \<Rightarrow>
               (case InsertNonceFill (we_tenant w) (wd_ChainID row) (bigint nonce) (sn_TxHash res) ''cancel_nonce'' s1 of
                  (s2, Inl e) \<Rightarrow> (s2, Inl e)
                | (s2, Inr _) \<Rightarrow>
                    (case send_known node (sn_RawTx res) of
                       Some e \<Rightarrow> (s2, Inl (errChain e))
                     | None \<Rightarrow> record_cancelling w row p nonce (sn_TxHash res) s2))))))"

definition settle_postings_failed :: "'d decimal_pkg \<Rightarrow> WithdrawalRow \<Rightarrow> string \<Rightarrow> string \<Rightarrow> 'd amount \<Rightarrow> 'd amount \<Rightarrow> 'd Posting list" where
  "settle_postings_failed D row action pending amount fee =
     [posting pending (wd_Asset row) BucketHouse Debit amount,
      posting (wd_AccountID row) (wd_Asset row) (if action = ActionRetry then BucketHold else BucketAvailable) Credit amount] @
     (if action = ActionRefund then refund_postings D row fee else [])"

text \<open>A refund leaves the row failed with the reason it had; a retry sends it back to be signed again.\<close>

definition settled_status :: "'d WithdrawalEnv \<Rightarrow> string \<Rightarrow> string \<Rightarrow> WithdrawalRow eff" where
  "settled_status w action i =
     (if action = ActionRetry then RetryWithdrawal (we_tenant w) i
      else UpdateWithdrawalStatus (we_tenant w) i StatusFailed (Some FailureOnChain))"

definition settleFailed :: "'d decimal_pkg \<Rightarrow> 'd WithdrawalEnv \<Rightarrow> Draw \<Rightarrow> WithdrawalRow \<Rightarrow> ResolveParams \<Rightarrow> unit eff" where
  "settleFailed D w dr row p =
     andThen (answer (amountAndFee D row)) (\<lambda>(amount, fee).
     andThen (answer (house w HousePendingWithdrawal)) (\<lambda>pending.
     in_tx (andThen (post D w (dr_entry dr 0) (withdrawal_entry (attemptKey (''withdrawal:'' @ rs_Action p) row) KindWithdrawal
         (rs_Action p @ '' after an on-chain failure'') row (settle_postings_failed D row (rs_Action p) pending amount fee))) (\<lambda>_.
       andThen (settled_status w (rs_Action p) (wd_ID row)) (\<lambda>updated.
       andThen (audit_withdrawal w (rs_ActorType p) (rs_ActorID p) (if rs_Action p = ActionRetry then ''withdrawal.retry'' else ''withdrawal.refund'')
         (wd_ID row) (Some (json_map [(''status'', JStr (wd_Status row)), (''failure_reason'', JStr (deref (wd_FailureReason row)))]))
         (Some (json_map [(''status'', JStr (wd_Status updated)), (''note'', JStr (rs_Note p))])) (rs_IP p) (deref (wd_CorrelationID row))) (\<lambda>_.
       emit D w dr EventStateChanged updated (wd_Status row) (rs_Action p)))))))"

definition Resolve :: "'d decimal_pkg \<Rightarrow> eth_pkg \<Rightarrow> (chain_error \<Rightarrow> string) \<Rightarrow> 'd WithdrawalEnv \<Rightarrow> 'd signer \<Rightarrow> Node \<Rightarrow> Draw \<Rightarrow>
    ResolveParams \<Rightarrow> 'd WithdrawalRecord eff" where
  "Resolve D E errText w sg node dr p s =
     (if \<not> we_sends w then (s, Inl ErrNotResolvable)
      else case GetWithdrawal s (we_tenant w) (rs_ID p) of
        None \<Rightarrow> (s, Inl ErrWithdrawalNotFound)
      | Some row \<Rightarrow>
          (case resolvable row (rs_Action p) of
             Some e \<Rightarrow> (s, Inl e)
           | None \<Rightarrow>
               andThen (if rs_Action p = ActionBump then replace D E errText w sg node dr row (''operator bump: '' @ rs_Note p)
                        else if rs_Action p = ActionCancelNonce then cancelNonce D w sg node row p
                        else settleFailed D w dr row p) (\<lambda>_ s1.
                 (s1, case GetWithdrawal s1 (we_tenant w) (rs_ID p) of None \<Rightarrow> Inl errNoRows | Some r \<Rightarrow> recordFrom D r)) s))"

text \<open>The text of the error that is stored is a parameter.\<close>

definition applyResolution :: "'d decimal_pkg \<Rightarrow> eth_pkg \<Rightarrow> (chain_error \<Rightarrow> string) \<Rightarrow> string \<Rightarrow> 'd WithdrawalEnv \<Rightarrow> 'd signer \<Rightarrow> Node \<Rightarrow> Draw \<Rightarrow>
    WithdrawalRow \<Rightarrow> unit eff" where
  "applyResolution D E errText reason w sg node dr row s =
     (case Resolve D E errText w sg node dr
         \<lparr>rs_ID = wd_ID row, rs_Action = deref (wd_ResolveAction row), rs_Note = deref (wd_ResolveNote row), rs_ActorType = ''api_key'',
          rs_ActorID = deref (wd_ResolveRequestedBy row), rs_IP = []\<rparr> s of
        (s1, Inl e) \<Rightarrow>
          (if e = ErrNotResolvable then ClearWithdrawalResolve (we_tenant w) (wd_ID row) (Some reason) s1 else (s1, Inl e))
      | (s1, Inr _) \<Rightarrow> ClearWithdrawalResolve (we_tenant w) (wd_ID row) None s1)"

definition ApplyResolutions :: "'d decimal_pkg \<Rightarrow> eth_pkg \<Rightarrow> (chain_error \<Rightarrow> string) \<Rightarrow> string \<Rightarrow> 'd WithdrawalEnv \<Rightarrow> 'd signer \<Rightarrow>
    (string \<Rightarrow> Node) \<Rightarrow> (string \<Rightarrow> Draw) \<Rightarrow> ChainDB \<Rightarrow> ChainDB \<times> wd_error option" where
  "ApplyResolutions D E errText reason w sg nodes draws s =
     each_row (\<lambda>_. True) (\<lambda>row. applyResolution D E errText reason w sg (nodes (wd_ID row)) (draws (wd_ID row)) row)
       (ClaimResolveRequests s (we_tenant w) (we_batch w)) None s"

end
